(* ===== verification/Lias_Prelude.thy ===== *)
theory Lias_Prelude
  imports Main "HOL-Library.List_Lexorder" "HOL-Library.Char_ord"
begin

text \<open>
  The prelude of the library: the model of Go maps and of \<open>range\<close> loops over them, the
  collections of facts the component theories fill, and the list and map lemmas they share.

  A Go \<open>map[K]V\<close> is a partial function \<open>'k \<rightharpoonup> 'v\<close>. Go leaves the order of a \<open>range\<close> loop
  over a map unspecified and may choose another one each time, so a loop takes the list of keys
  in the order this run visits them; \<open>range_order m ks\<close> says that \<open>ks\<close> is such an order.
  A theorem about a loop quantifies over every order.
\<close>

named_theorems lias_defs "definitions unfolded by the component proofs"
named_theorems cache_inv "operations that keep an invariant of a component"
named_theorems db_inv "database operations that keep a property of the tables"

subsection \<open>Go maps and range loops\<close>

definition range_order :: "('k \<rightharpoonup> 'v) \<Rightarrow> 'k list \<Rightarrow> bool" where
  "range_order m ks \<longleftrightarrow> distinct ks \<and> set ks = dom m"

text \<open>The entries a \<open>range\<close> loop visits, in the order of \<open>ks\<close>.\<close>

fun range_entries :: "('k \<rightharpoonup> 'v) \<Rightarrow> 'k list \<Rightarrow> ('k \<times> 'v) list" where
  "range_entries m [] = []"
| "range_entries m (k # ks) =
     (case m k of None \<Rightarrow> range_entries m ks | Some v \<Rightarrow> (k, v) # range_entries m ks)"

definition range_values :: "('k \<rightharpoonup> 'v) \<Rightarrow> 'k list \<Rightarrow> 'v list" where
  "range_values m ks = map snd (range_entries m ks)"

lemma set_range_entries: "set (range_entries m ks) = {(k, v). k \<in> set ks \<and> m k = Some v}"
  by (induction ks) (auto split: option.splits)

lemma set_range_values: "set (range_values m ks) = {v. \<exists>k \<in> set ks. m k = Some v}"
  by (force simp: range_values_def set_range_entries)

lemma range_order_entries:
  "range_order m ks \<Longrightarrow> set (range_entries m ks) = {(k, v). m k = Some v}"
  by (auto simp: range_order_def set_range_entries)

lemma range_order_values: "range_order m ks \<Longrightarrow> set (range_values m ks) = ran m"
  by (force simp: range_order_def set_range_values ran_def)

lemma distinct_range_entries: "distinct ks \<Longrightarrow> distinct (range_entries m ks)"
  by (induction ks) (auto simp: set_range_entries split: option.splits)

lemma distinct_fst_range_entries: "distinct ks \<Longrightarrow> distinct (map fst (range_entries m ks))"
  by (induction ks) (auto simp: set_range_entries split: option.splits)

lemma range_order_empty [simp]: "range_order Map.empty ks \<longleftrightarrow> ks = []"
  by (auto simp: range_order_def)

subsection \<open>Lists\<close>

lemma filter_snoc_list: "filter P (xs @ [x]) = filter P xs @ (if P x then [x] else [])"
  by simp

lemma foldl_keeps:
  assumes "P s" and "\<And>s x. P s \<Longrightarrow> x \<in> set xs \<Longrightarrow> P (f s x)"
  shows "P (foldl f s xs)"
  using assms by (induction xs arbitrary: s) auto

lemma fold_keeps:
  assumes "P s" and "\<And>s x. P s \<Longrightarrow> x \<in> set xs \<Longrightarrow> P (f x s)"
  shows "P (fold f xs s)"
  using assms by (induction xs arbitrary: s) auto

lemma map_of_range_entries:
  "distinct ks \<Longrightarrow> map_of (range_entries m ks) = m |` set ks"
  by (induction ks) (auto simp: restrict_map_def fun_eq_iff split: option.splits)

text \<open>A loop whose step for \<open>x\<close> establishes \<open>P x\<close> and keeps what earlier steps established.\<close>

lemma foldl_establishes:
  assumes "I s" "\<And>s x. I s \<Longrightarrow> I (f s x) \<and> P x (f s x)"
    and "\<And>s x y. I s \<Longrightarrow> P y s \<Longrightarrow> P y (f s x)"
  shows "I (foldl f s xs) \<and> (\<forall>y. y \<in> set xs \<or> P y s \<longrightarrow> P y (foldl f s xs))"
  using assms(1)
proof (induction xs arbitrary: s)
  case (Cons x xs)
  then show ?case
    using Cons.IH [of "f s x"] assms(2) [OF Cons.prems, of x] assms(3) [OF Cons.prems] by auto
qed simp

end
