(* ===== verification/Go_Net.thy ===== *)
theory Go_Net
  imports Go_Strings "HOL-Library.Word"
begin

unbundle bit_operations_syntax

text \<open>
  The parts of Go's \<open>net\<close> package the program uses: \<open>ParseMAC\<close>, \<open>HardwareAddr.String\<close>,
  \<open>ParseIP\<close>, \<open>IP.To4\<close>, \<open>IP.To16\<close> and \<open>IP.String\<close>. Addresses are lists of bytes; an \<open>IP\<close> has
  4 or 16 of them, and \<open>ParseIP\<close> returns the 16-byte form.
\<close>

type_synonym u8 = "8 word"
type_synonym hwaddr = "u8 list"
type_synonym ip_addr = "u8 list"

subsection \<open>Hexadecimal digits\<close>

definition hex_val :: "char \<Rightarrow> nat option" where
  "hex_val c =
     (if 48 \<le> byte c \<and> byte c \<le> 57 then Some (byte c - 48)
      else if 97 \<le> byte c \<and> byte c \<le> 102 then Some (byte c - 87)
      else if 65 \<le> byte c \<and> byte c \<le> 70 then Some (byte c - 55) else None)"

definition is_hex :: "char \<Rightarrow> bool" where
  "is_hex c \<longleftrightarrow> hex_val c \<noteq> None"

definition hex2 :: "char \<Rightarrow> char \<Rightarrow> u8 option" where
  "hex2 a b =
     (case (hex_val a, hex_val b) of
        (Some x, Some y) \<Rightarrow> Some (of_nat (x * 16 + y)) | _ \<Rightarrow> None)"

definition hex_byte :: "u8 \<Rightarrow> string" where
  "hex_byte w = [digit_char (unat w div 16), digit_char (unat w mod 16)]"

subsection \<open>Hardware addresses\<close>

text \<open>Groups of two digits separated by \<open>e\<close>; groups of four separated by a dot.\<close>

fun parse_pairs :: "char \<Rightarrow> string \<Rightarrow> hwaddr option" where
  "parse_pairs e [a, b] = map_option (\<lambda>w. [w]) (hex2 a b)"
| "parse_pairs e (a # b # c # s) =
     (if c \<noteq> e then None
      else (case (hex2 a b, parse_pairs e s) of (Some w, Some ws) \<Rightarrow> Some (w # ws) | _ \<Rightarrow> None))"
| "parse_pairs e _ = None"

fun parse_quads :: "string \<Rightarrow> hwaddr option" where
  "parse_quads [a, b, c, d] =
     (case (hex2 a b, hex2 c d) of (Some v, Some w) \<Rightarrow> Some [v, w] | _ \<Rightarrow> None)"
| "parse_quads (a # b # c # d # e # s) =
     (if e \<noteq> CHR ''.'' then None
      else (case (hex2 a b, hex2 c d, parse_quads s) of
              (Some v, Some w, Some ws) \<Rightarrow> Some (v # w # ws) | _ \<Rightarrow> None))"
| "parse_quads _ = None"

definition mac_length_ok :: "nat \<Rightarrow> bool" where
  "mac_length_ok n \<longleftrightarrow> n = 6 \<or> n = 8 \<or> n = 20"

definition parse_mac :: "string \<Rightarrow> hwaddr option" where
  "parse_mac s =
     (if length s < 14 then None
      else if s ! 2 = CHR '':'' \<or> s ! 2 = CHR ''-'' then
        (if (length s + 1) mod 3 \<noteq> 0 \<or> \<not> mac_length_ok ((length s + 1) div 3) then None
         else parse_pairs (s ! 2) s)
      else if s ! 4 = CHR ''.'' then
        (if (length s + 1) mod 5 \<noteq> 0 \<or> \<not> mac_length_ok (2 * (length s + 1) div 5) then None
         else parse_quads s)
      else None)"

definition mac_string :: "hwaddr \<Rightarrow> string" where
  "mac_string hw = join '':'' (map hex_byte hw)"

subsection \<open>IP addresses\<close>

definition parse_octet :: "string \<Rightarrow> nat option" where
  "parse_octet s =
     (let v = foldl (\<lambda>n c. n * 10 + (byte c - 48)) 0 s
      in if s = [] \<or> \<not> list_all is_digit s \<or> (1 < length s \<and> hd s = CHR ''0'') \<or> 255 < v
         then None else Some v)"

definition parse_ipv4 :: "string \<Rightarrow> u8 list option" where
  "parse_ipv4 s =
     (case split_char CHR ''.'' s of
        [a, b, c, d] \<Rightarrow>
          (case (parse_octet a, parse_octet b, parse_octet c, parse_octet d) of
             (Some w, Some x, Some y, Some z) \<Rightarrow> Some [of_nat w, of_nat x, of_nat y, of_nat z]
           | _ \<Rightarrow> None)
      | _ \<Rightarrow> None)"

definition hex_num :: "string \<Rightarrow> nat" where
  "hex_num ds = foldl (\<lambda>n c. n * 16 + (case hex_val c of None \<Rightarrow> 0 | Some v \<Rightarrow> v)) 0 ds"

definition group_bytes :: "nat \<Rightarrow> u8 list" where
  "group_bytes g = [of_nat (g div 256), of_nat (g mod 256)]"

text \<open>The loop of \<open>netip.parseIPv6\<close>: the bytes so far, the byte position of the ellipsis, the rest.\<close>

function parse_ipv6_loop ::
  "u8 list \<Rightarrow> nat option \<Rightarrow> string \<Rightarrow> (u8 list \<times> nat option \<times> string) option" where
  "parse_ipv6_loop bs ell s =
     (if 16 \<le> length bs then Some (bs, ell, s)
      else
        (let ds = takeWhile is_hex s; r = drop (length ds) s; bs' = bs @ group_bytes (hex_num ds)
         in if ds = [] \<or> 4 < length ds then None
            else (case r of
                [] \<Rightarrow> Some (bs', ell, [])
              | c # r1 \<Rightarrow>
                  if c = CHR ''.'' then
                    (if ell = None \<and> length bs \<noteq> 12 \<or> 16 < length bs + 4 then None
                     else map_option (\<lambda>v4. (bs @ v4, ell, [])) (parse_ipv4 s))
                  else if c \<noteq> CHR '':'' then None
                  else (case r1 of
                      [] \<Rightarrow> None
                    | c2 # r2 \<Rightarrow>
                        if c2 = CHR '':'' then
                          (if ell \<noteq> None then None
                           else if r2 = [] then Some (bs', Some (length bs'), [])
                           else parse_ipv6_loop bs' (Some (length bs')) r2)
                        else parse_ipv6_loop bs' ell r1))))"
  by pat_completeness auto
termination
proof (relation "measure (\<lambda>(bs, ell, s). length s)", goal_cases)
  case 1 then show ?case by simp
next
  case (2 bs ell s x xa xb c r1 c2 r2)
  then have "Suc (Suc (length r2)) = length (drop (length x) s)"
    by (metis length_Cons)
  then show ?case by simp
next
  case (3 bs ell s x xa xb c r1 c2 r2)
  then have "Suc (Suc (length r2)) = length (drop (length x) s)"
    by (metis length_Cons)
  moreover from 3 have "length r1 = Suc (length r2)" by simp
  ultimately show ?case by simp
qed

declare parse_ipv6_loop.simps [simp del]

definition parse_ipv6 :: "string \<Rightarrow> ip_addr option" where
  "parse_ipv6 s =
     (let lead = has_prefix s ''::''; s' = (if lead then drop 2 s else s)
      in if lead \<and> s' = [] then Some (replicate 16 0)
         else (case parse_ipv6_loop [] (if lead then Some 0 else None) s' of
             None \<Rightarrow> None
           | Some (bs, ell, rest) \<Rightarrow>
               if rest \<noteq> [] then None
               else if length bs < 16 then
                 (case ell of None \<Rightarrow> None
                  | Some e \<Rightarrow> Some (take e bs @ replicate (16 - length bs) 0 @ drop e bs))
               else (if ell \<noteq> None then None else Some bs)))"

definition v4_prefix :: "u8 list" where
  "v4_prefix = replicate 10 0 @ [255, 255]"

text \<open>\<open>net.ParseIP\<close>: the first dot or colon decides the form; a zone is never accepted.\<close>

definition parse_ip :: "string \<Rightarrow> ip_addr option" where
  "parse_ip s =
     (if CHR ''%'' \<in> set s then None
      else (case dropWhile (\<lambda>c. c \<noteq> CHR ''.'' \<and> c \<noteq> CHR '':'') s of
          [] \<Rightarrow> None
        | c # _ \<Rightarrow> if c = CHR ''.'' then map_option (\<lambda>v4. v4_prefix @ v4) (parse_ipv4 s)
                  else parse_ipv6 s))"

definition to4 :: "ip_addr \<Rightarrow> ip_addr option" where
  "to4 ip =
     (if length ip = 4 then Some ip
      else if length ip = 16 \<and> take 12 ip = v4_prefix then Some (drop 12 ip) else None)"

definition to16 :: "ip_addr \<Rightarrow> ip_addr option" where
  "to16 ip =
     (if length ip = 4 then Some (v4_prefix @ ip) else if length ip = 16 then Some ip else None)"

text \<open>\<open>IP.String\<close>: dotted decimal for IPv4; for IPv6 the longest run of two or more zero groups
  (the first such run) is written \<open>::\<close>.\<close>

definition ipv4_string :: "u8 list \<Rightarrow> string" where
  "ipv4_string bs = join ''.'' (map (\<lambda>w. decimal_nat (unat w)) bs)"

fun groups_of :: "u8 list \<Rightarrow> nat list" where
  "groups_of (a # b # bs) = (unat a * 256 + unat b) # groups_of bs"
| "groups_of _ = []"

definition hex_group :: "nat \<Rightarrow> string" where
  "hex_group g =
     (if 4096 \<le> g then [digit_char (g div 4096)] else []) @
     (if 256 \<le> g then [digit_char (g div 256 mod 16)] else []) @
     (if 16 \<le> g then [digit_char (g div 16 mod 16)] else []) @ [digit_char (g mod 16)]"

definition zero_run :: "nat list \<Rightarrow> nat \<Rightarrow> nat" where
  "zero_run gs i = length (takeWhile (\<lambda>g. g = 0) (drop i gs))"

definition best_zero_run :: "nat list \<Rightarrow> (nat \<times> nat) option" where
  "best_zero_run gs =
     foldl (\<lambda>best i. let l = zero_run gs i in
              if 2 \<le> l \<and> (case best of None \<Rightarrow> True | Some (_, l') \<Rightarrow> l' < l) then Some (i, l) else best)
       None [0..<8]"

definition ipv6_string :: "ip_addr \<Rightarrow> string" where
  "ipv6_string bs =
     (let gs = groups_of bs
      in case best_zero_run gs of
           None \<Rightarrow> join '':'' (map hex_group gs)
         | Some (i, l) \<Rightarrow>
             join '':'' (map hex_group (take i gs)) @ ''::'' @
             join '':'' (map hex_group (drop (i + l) gs)))"

definition ip_string :: "ip_addr \<Rightarrow> string" where
  "ip_string ip = (case to4 ip of Some v4 \<Rightarrow> ipv4_string v4 | None \<Rightarrow> ipv6_string ip)"

subsection \<open>Printing and parsing hardware addresses\<close>

lemma hex_val_digit_char: "n < 16 \<Longrightarrow> hex_val (digit_char n) = Some n"
  by (auto simp: hex_val_def digit_char_def byte_char_of)

lemma hex2_hex_byte: "hex2 (digit_char (unat w div 16)) (digit_char (unat w mod 16)) = Some w"
proof -
  have "unat w < 2 ^ LENGTH(8)" by (rule unsigned_less)
  then have "unat w div 16 < 16" by simp
  then show ?thesis
    by (simp add: hex2_def hex_val_digit_char)
qed

lemma parse_pairs_string: "hw \<noteq> [] \<Longrightarrow> parse_pairs e (join [e] (map hex_byte hw)) = Some hw"
proof (induction hw)
  case (Cons w hw)
  then show ?case
    by (cases hw) (simp_all add: hex_byte_def hex2_hex_byte)
qed simp

lemma length_join_pairs:
  "hw \<noteq> [] \<Longrightarrow> Suc (length (join [e] (map hex_byte hw))) = 3 * length hw"
proof (induction hw)
  case (Cons w hw)
  then show ?case by (cases hw) (simp_all add: hex_byte_def)
qed simp

lemma mac_string_nth2:
  "2 \<le> length hw \<Longrightarrow> mac_string hw ! 2 = CHR '':''"
  by (cases hw; cases "tl hw") (auto simp: mac_string_def hex_byte_def)

text \<open>\<open>ParseMAC\<close> reads back what \<open>HardwareAddr.String\<close> prints.\<close>

lemma parse_mac_string:
  assumes "mac_length_ok (length hw)"
  shows "parse_mac (mac_string hw) = Some hw"
proof -
  from assms have ne: "hw \<noteq> []" and ge: "6 \<le> length hw"
    by (auto simp: mac_length_ok_def)
  have len: "Suc (length (mac_string hw)) = 3 * length hw"
    using length_join_pairs [OF ne, of "CHR '':''"] by (simp add: mac_string_def)
  have c: "mac_string hw ! 2 = CHR '':''"
    using ge by (intro mac_string_nth2) simp
  have "14 \<le> length (mac_string hw)" using len ge by linarith
  moreover have "parse_pairs (CHR '':'') (mac_string hw) = Some hw"
    using parse_pairs_string [OF ne] by (simp add: mac_string_def)
  ultimately show ?thesis
    using assms by (simp add: parse_mac_def c len flip: Suc_eq_plus1)
qed

lemma parse_pairs_length: "parse_pairs e s = Some hw \<Longrightarrow> Suc (length s) = 3 * length hw"
  by (induction e s arbitrary: hw rule: parse_pairs.induct) (auto split: if_splits option.splits)

lemma parse_quads_length: "parse_quads s = Some hw \<Longrightarrow> 2 * Suc (length s) = 5 * length hw"
  by (induction s arbitrary: hw rule: parse_quads.induct) (auto split: if_splits option.splits)

lemma parse_mac_length: "parse_mac s = Some hw \<Longrightarrow> mac_length_ok (length hw)"
  by (auto simp: parse_mac_def dest!: parse_pairs_length parse_quads_length split: if_splits)

lemma mac_string_parse_mac:
  "parse_mac s = Some hw \<Longrightarrow> parse_mac (mac_string hw) = Some hw"
  by (simp add: parse_mac_string parse_mac_length)

lemma mac_string_not_Nil: "mac_length_ok (length hw) \<Longrightarrow> mac_string hw \<noteq> []"
  using length_join_pairs [of hw "CHR '':''"] by (cases hw) (auto simp: mac_string_def mac_length_ok_def)

end
