(* ===== verification/Nft_Controller.thy ===== *)
theory Nft_Controller
  imports Lias_Prelude Go_Net
begin

text \<open>
  \<open>apps/lias/internal/nftables/controller.go\<close>: the netdev table the scheduler owns, as the batch of
  netlink operations the code queues, the rules with their expressions, and the set updates.

  The nftables library and the kernel are not part of the program. Committing a batch is the
  argument \<open>commit\<close> (\<open>None\<close> when the kernel rejects it, \<open>atomic_commit\<close> states what the documentation
  promises of it), and the evaluation of a rule's expressions on a packet is the argument \<open>vm\<close>
  (\<open>documented_vm\<close>).
\<close>

subsection \<open>Operations queued to the kernel\<close>

datatype payload_base = LLHeader | NetworkHeader

datatype rule_verdict = Accept | Drop

datatype nft_expr =
  MetaIif
| CmpEq "u8 list"
| Payload payload_base nat nat
| Bitwise "u8 list" "u8 list"
| Lookup string
| Verdict rule_verdict

datatype key_type = TypeIPAddr | TypeEtherAddr | TypeIP6Addr

datatype nft_op =
  AddTable string
| AddChain string int string
| FlushChain string
| AddSet string key_type
| AddRule "nft_expr list"
| SetAddElements string "u8 list list"
| SetDeleteElements string "u8 list list"
| FlushTable string
| DelTable string

record nft_config =
  nft_interface :: string
  nft_table :: string
  nft_lan_subnets :: "string list"

record controller =
  ctl_connected :: bool
  ctl_table :: bool
  ctl_sets :: "string list"

datatype ctl_error =
  StatusUnreadable | CapEffUnparsed | NoNetAdmin | CapEffMissing | NoInterface | ConnectFailed
| InitFailed | Uninitialized | CommitFailed | FlushFailed

definition new_controller :: controller where
  "new_controller = \<lparr>ctl_connected = False, ctl_table = False, ctl_sets = []\<rparr>"

subsection \<open>Privileges and subnets\<close>

text \<open>\<open>strconv.ParseUint(s, 16, 64)\<close>.\<close>

definition parse_hex64 :: "string \<Rightarrow> 64 word option" where
  "parse_hex64 s =
     (let v = foldl (\<lambda>n c. n * 16 + (case hex_val c of None \<Rightarrow> 0 | Some x \<Rightarrow> int x)) 0 s
      in if s = [] \<or> \<not> list_all is_hex s \<or> 2 ^ 64 \<le> v then None else Some (of_int v))"

definition cap_eff :: string where "cap_eff = ''CapEff:'' @ [CHR 0x09]"

fun scan_status :: "string list \<Rightarrow> ctl_error option" where
  "scan_status [] = Some CapEffMissing"
| "scan_status (l # ls) =
     (if has_prefix l cap_eff then
        (case parse_hex64 (trim_space (trim_prefix l cap_eff)) of
           None \<Rightarrow> Some CapEffUnparsed
         | Some v \<Rightarrow> if v AND 0x1000 = 0 then Some NoNetAdmin else None)
      else scan_status ls)"

text \<open>The content of \<open>/proc/self/status\<close>, when it can be read.\<close>

definition check_net_admin :: "string option \<Rightarrow> ctl_error option" where
  "check_net_admin status =
     (case status of None \<Rightarrow> Some StatusUnreadable
      | Some s \<Rightarrow> scan_status (split_char (CHR 0x0A) s))"

text \<open>\<open>net.ParseCIDR\<close>: the network address and the mask.\<close>

definition cidr_mask :: "nat \<Rightarrow> nat \<Rightarrow> u8 list" where
  "cidr_mask ones bytes = map (\<lambda>i. if 8 * (i + 1) \<le> ones then 255
     else if ones \<le> 8 * i then 0 else of_nat (256 - 2 ^ (8 - (ones - 8 * i)))) [0..<bytes]"

definition parse_prefix_len :: "string \<Rightarrow> nat option" where
  "parse_prefix_len s =
     (let v = foldl (\<lambda>n c. n * 10 + (int (byte c) - 48)) 0 s
      in if s = [] \<or> \<not> list_all is_digit s \<or> 16777215 \<le> v then None else Some (nat v))"

definition mask_bytes :: "u8 list \<Rightarrow> u8 list \<Rightarrow> u8 list" where
  "mask_bytes ip m = map2 (AND) ip m"

definition dotted :: "string \<Rightarrow> bool" where
  "dotted s \<longleftrightarrow> (case dropWhile (\<lambda>c. c \<noteq> CHR ''.'' \<and> c \<noteq> CHR '':'') s of c # _ \<Rightarrow> c = CHR ''.'' | [] \<Rightarrow> False)"

definition parse_cidr :: "string \<Rightarrow> (ip_addr \<times> u8 list) option" where
  "parse_cidr s =
     (let addr = takeWhile (\<lambda>c. c \<noteq> CHR ''/'') s; rest = drop (length addr) s
      in if rest = [] then None
         else (case (parse_ip addr, parse_prefix_len (tl rest)) of
            (Some ip, Some n) \<Rightarrow>
              (if dotted addr then
                 (if 32 < n then None
                  else Some (mask_bytes (drop 12 ip) (cidr_mask n 4), cidr_mask n 4))
               else (if 128 < n then None else Some (mask_bytes ip (cidr_mask n 16), cidr_mask n 16)))
          | _ \<Rightarrow> None))"

subsection \<open>The rules\<close>

definition iface_bytes :: "nft_config \<Rightarrow> u8 list" where
  "iface_bytes cfg = map (\<lambda>c. of_nat (byte c)) (nft_interface cfg) @ [0]"

definition on_iface :: "nft_config \<Rightarrow> nft_expr list \<Rightarrow> nft_expr list" where
  "on_iface cfg es = [MetaIif, CmpEq (iface_bytes cfg)] @ es"

text \<open>\<open>copy(maskBytes, ipNet.Mask)\<close> copies the bytes that fit.\<close>

definition lan_rule :: "nft_config \<Rightarrow> ip_addr \<times> u8 list \<Rightarrow> nft_expr list" where
  "lan_rule cfg = (\<lambda>(ip, m).
     (case to4 ip of
        Some ip4 \<Rightarrow> on_iface cfg [Payload NetworkHeader 16 4, Bitwise (take 4 m) (replicate 4 0),
          CmpEq ip4, Verdict Accept]
      | None \<Rightarrow> on_iface cfg [Payload NetworkHeader 24 16, Bitwise (take 16 m) (replicate 16 0),
          CmpEq (the (to16 ip)), Verdict Accept]))"

definition lan_rules :: "nft_config \<Rightarrow> nft_expr list list" where
  "lan_rules cfg = map (lan_rule cfg) (List.map_filter parse_cidr (nft_lan_subnets cfg))"

definition set_rule :: "nft_config \<Rightarrow> payload_base \<Rightarrow> nat \<Rightarrow> nat \<Rightarrow> string \<Rightarrow> rule_verdict \<Rightarrow> nft_expr list" where
  "set_rule cfg base off len name v = on_iface cfg [Payload base off len, Lookup name, Verdict v]"

definition rules_of :: "nft_config \<Rightarrow> nft_expr list list" where
  "rules_of cfg = lan_rules cfg @
     [set_rule cfg LLHeader 6 6 ''blocked_macs'' Drop,
      set_rule cfg LLHeader 6 6 ''allowed_macs'' Accept,
      set_rule cfg NetworkHeader 12 4 ''blocked_ips'' Drop,
      set_rule cfg NetworkHeader 12 4 ''allowed_ips'' Accept,
      set_rule cfg NetworkHeader 8 16 ''blocked_ips_v6'' Drop,
      set_rule cfg NetworkHeader 8 16 ''allowed_ips_v6'' Accept,
      on_iface cfg [Verdict Accept]]"

definition add_rules :: "nft_config \<Rightarrow> nft_op list" where
  "add_rules cfg = map AddRule (rules_of cfg)"

definition set_decls :: "(string \<times> key_type) list" where
  "set_decls = [(''allowed_ips'', TypeIPAddr), (''allowed_macs'', TypeEtherAddr),
     (''blocked_ips'', TypeIPAddr), (''blocked_macs'', TypeEtherAddr),
     (''allowed_ips_v6'', TypeIP6Addr), (''blocked_ips_v6'', TypeIP6Addr)]"

definition init_ops :: "nft_config \<Rightarrow> nft_op list" where
  "init_ops cfg =
     [AddTable (nft_table cfg), AddChain ''ingress'' (- 500) (nft_interface cfg), FlushChain ''ingress''] @
     map (\<lambda>(n, t). AddSet n t) set_decls @ add_rules cfg"

text \<open>What the host answers: the process status, the interfaces, whether netlink can be opened.\<close>

record nft_env =
  env_status :: "string option"
  env_interface :: "string \<Rightarrow> bool"
  env_connect :: bool

type_synonym 'k commit = "nft_op list \<Rightarrow> 'k \<Rightarrow> 'k option"

definition init_controller ::
  "nft_config \<Rightarrow> nft_env \<Rightarrow> 'k commit \<Rightarrow> controller \<Rightarrow> 'k \<Rightarrow> ctl_error option \<times> controller \<times> 'k" where
  "init_controller cfg env commit c k =
     (case check_net_admin (env_status env) of
        Some e \<Rightarrow> (Some e, c, k)
      | None \<Rightarrow>
          if \<not> env_interface env (nft_interface cfg) then (Some NoInterface, c, k)
          else if \<not> env_connect env then (Some ConnectFailed, c, k)
          else (let c' = \<lparr>ctl_connected = True, ctl_table = True, ctl_sets = map fst set_decls\<rparr>
                in case commit (init_ops cfg) k of
                     None \<Rightarrow> (Some InitFailed, c', k)
                   | Some k' \<Rightarrow> (None, c', k')))"

definition flush_table ::
  "nft_config \<Rightarrow> 'k commit \<Rightarrow> controller \<Rightarrow> 'k \<Rightarrow> ctl_error option \<times> 'k" where
  "flush_table cfg commit c k =
     (if \<not> ctl_connected c \<or> \<not> ctl_table c then (None, k)
      else (case commit [FlushTable (nft_table cfg), DelTable (nft_table cfg)] k of
              None \<Rightarrow> (Some FlushFailed, k) | Some k' \<Rightarrow> (None, k')))"

subsection \<open>Set updates\<close>

record set_diff =
  allowed_ips_add :: "ip_addr list"
  allowed_ips_rem :: "ip_addr list"
  blocked_ips_add :: "ip_addr list"
  blocked_ips_rem :: "ip_addr list"
  allowed_macs_add :: "hwaddr list"
  allowed_macs_rem :: "hwaddr list"
  blocked_macs_add :: "hwaddr list"
  blocked_macs_rem :: "hwaddr list"
  allowed_ip6s_add :: "ip_addr list"
  allowed_ip6s_rem :: "ip_addr list"
  blocked_ip6s_add :: "ip_addr list"
  blocked_ip6s_rem :: "ip_addr list"

definition is_v6_set :: "string \<Rightarrow> bool" where
  "is_v6_set name \<longleftrightarrow> name = ''allowed_ips_v6'' \<or> name = ''blocked_ips_v6''"

definition ip_key :: "string \<Rightarrow> ip_addr \<Rightarrow> u8 list option" where
  "ip_key name ip =
     (case to4 ip of
        Some ip4 \<Rightarrow> if \<not> is_v6_set name then Some ip4 else None
      | None \<Rightarrow> (case to16 ip of
          Some ip6 \<Rightarrow> if is_v6_set name then Some ip6 else None
        | None \<Rightarrow> None))"

definition mac_key :: "hwaddr \<Rightarrow> u8 list option" where
  "mac_key mac = (if length mac = 6 then Some mac else None)"

definition queue_elements ::
  "controller \<Rightarrow> string \<Rightarrow> u8 list list \<Rightarrow> u8 list list \<Rightarrow> bool \<Rightarrow> nft_op list" where
  "queue_elements c name adds rems is_mac =
     (if name \<notin> set (ctl_sets c) then []
      else let key = (if is_mac then mac_key else ip_key name);
               as = List.map_filter key adds; rs = List.map_filter key rems
           in (if 0 < length as then [SetAddElements name as] else []) @
              (if 0 < length rs then [SetDeleteElements name rs] else []))"

definition apply_ops :: "controller \<Rightarrow> set_diff \<Rightarrow> nft_op list" where
  "apply_ops c diff =
     queue_elements c ''allowed_ips'' (allowed_ips_add diff) (allowed_ips_rem diff) False @
     queue_elements c ''allowed_macs'' (allowed_macs_add diff) (allowed_macs_rem diff) True @
     queue_elements c ''blocked_ips'' (blocked_ips_add diff) (blocked_ips_rem diff) False @
     queue_elements c ''blocked_macs'' (blocked_macs_add diff) (blocked_macs_rem diff) True @
     queue_elements c ''allowed_ips_v6'' (allowed_ip6s_add diff) (allowed_ip6s_rem diff) False @
     queue_elements c ''blocked_ips_v6'' (blocked_ip6s_add diff) (blocked_ip6s_rem diff) False"

definition reinitialize_conn ::
  "nft_config \<Rightarrow> nft_env \<Rightarrow> 'k commit \<Rightarrow> controller \<Rightarrow> 'k \<Rightarrow> controller \<times> 'k" where
  "reinitialize_conn cfg env commit c k =
     (if \<not> env_connect env then (c, k)
      else snd (init_controller cfg env commit \<lparr>ctl_connected = True, ctl_table = False, ctl_sets = []\<rparr> k))"

definition apply_diff ::
  "nft_config \<Rightarrow> nft_env \<Rightarrow> 'k commit \<Rightarrow> set_diff \<Rightarrow> controller \<Rightarrow> 'k \<Rightarrow> ctl_error option \<times> controller \<times> 'k" where
  "apply_diff cfg env commit diff c k =
     (if \<not> ctl_connected c then (Some Uninitialized, c, k)
      else (case commit (apply_ops c diff) k of
              Some k' \<Rightarrow> (None, c, k')
            | None \<Rightarrow> (Some CommitFailed, reinitialize_conn cfg env commit c k)))"

subsection \<open>What the kernel documents\<close>

text \<open>A packet: the name of the interface it came in on (as the kernel compares it), its link-layer
  header and its network header with payload. An expression reads or tests register 1; a test that
  fails, and a load beyond the header, end the rule without a verdict.\<close>

record packet =
  pkt_iif :: "u8 list"
  pkt_ll :: "u8 list"
  pkt_net :: "u8 list"

type_synonym nft_sets = "string \<Rightarrow> u8 list set"

definition load :: "packet \<Rightarrow> payload_base \<Rightarrow> nat \<Rightarrow> nat \<Rightarrow> u8 list option" where
  "load p base off len =
     (let h = (case base of LLHeader \<Rightarrow> pkt_ll p | NetworkHeader \<Rightarrow> pkt_net p)
      in if off + len \<le> length h then Some (take len (drop off h)) else None)"

fun run_exprs :: "nft_sets \<Rightarrow> packet \<Rightarrow> u8 list \<Rightarrow> nft_expr list \<Rightarrow> rule_verdict option" where
  "run_exprs S p reg [] = None"
| "run_exprs S p reg (MetaIif # es) = run_exprs S p (pkt_iif p) es"
| "run_exprs S p reg (CmpEq d # es) = (if reg = d then run_exprs S p reg es else None)"
| "run_exprs S p reg (Payload b off len # es) =
     (case load p b off len of None \<Rightarrow> None | Some r \<Rightarrow> run_exprs S p r es)"
| "run_exprs S p reg (Bitwise m x # es) = run_exprs S p (map2 (XOR) (map2 (AND) reg m) x) es"
| "run_exprs S p reg (Lookup n # es) = (if reg \<in> S n then run_exprs S p reg es else None)"
| "run_exprs S p reg (Verdict v # es) = Some v"

type_synonym vm = "nft_sets \<Rightarrow> packet \<Rightarrow> nft_expr list \<Rightarrow> rule_verdict option"

definition documented_vm :: "vm \<Rightarrow> bool" where
  "documented_vm vm \<longleftrightarrow> (\<forall>S p es. vm S p es = run_exprs S p [] es)"

text \<open>The first rule with a verdict decides; the chain's policy is accept.\<close>

fun chain_verdict :: "vm \<Rightarrow> nft_sets \<Rightarrow> packet \<Rightarrow> nft_expr list list \<Rightarrow> rule_verdict" where
  "chain_verdict vm S p [] = Accept"
| "chain_verdict vm S p (r # rs) = (case vm S p r of Some v \<Rightarrow> v | None \<Rightarrow> chain_verdict vm S p rs)"

text \<open>The effect of a committed batch on the elements of the sets; declaring a set that exists keeps
  its elements.\<close>

definition op_sets :: "nft_sets \<Rightarrow> nft_op \<Rightarrow> nft_sets" where
  "op_sets S op = (case op of
     SetAddElements n ks \<Rightarrow> S(n := S n \<union> set ks)
   | SetDeleteElements n ks \<Rightarrow> S(n := S n - set ks)
   | _ \<Rightarrow> S)"

definition atomic_commit :: "'k commit \<Rightarrow> ('k \<Rightarrow> nft_sets) \<Rightarrow> bool" where
  "atomic_commit commit elems \<longleftrightarrow>
     (\<forall>ops k k'. commit ops k = Some k' \<and> (\<forall>n. FlushTable n \<notin> set ops \<and> DelTable n \<notin> set ops) \<longrightarrow>
        elems k' = foldl op_sets (elems k) ops)"

subsection \<open>The order of the rules\<close>

text \<open>Whether a packet goes to a local subnet, as the bypass rules test it.\<close>

definition to_lan :: "nft_config \<Rightarrow> nft_sets \<Rightarrow> packet \<Rightarrow> bool" where
  "to_lan cfg S p \<longleftrightarrow> (\<exists>r \<in> set (lan_rules cfg). run_exprs S p [] r \<noteq> None)"

definition src_in :: "nft_sets \<Rightarrow> packet \<Rightarrow> payload_base \<Rightarrow> nat \<Rightarrow> nat \<Rightarrow> string \<Rightarrow> bool" where
  "src_in S p base off len name \<longleftrightarrow> (case load p base off len of Some a \<Rightarrow> a \<in> S name | None \<Rightarrow> False)"

lemma run_set_rule:
  "run_exprs S p [] (set_rule cfg base off len name v) =
    (if pkt_iif p = iface_bytes cfg \<and> src_in S p base off len name then Some v else None)"
  by (auto simp: set_rule_def on_iface_def src_in_def split: option.split)

lemma lan_rule_accepts:
  "r \<in> set (lan_rules cfg) \<Longrightarrow> run_exprs S p [] r \<in> {None, Some Accept}"
  by (auto simp: lan_rules_def lan_rule_def on_iface_def split: option.splits)

lemma chain_append:
  "chain_verdict vm S p (rs @ rs') =
    (case List.find (\<lambda>r. vm S p r \<noteq> None) rs of
       Some r \<Rightarrow> the (vm S p r) | None \<Rightarrow> chain_verdict vm S p rs')"
  by (induction rs) (auto split: option.split)

lemma chain_lan:
  assumes "documented_vm vm"
  shows "chain_verdict vm S p (lan_rules cfg @ rs) = (if to_lan cfg S p then Accept else chain_verdict vm S p rs)"
proof (cases "List.find (\<lambda>r. vm S p r \<noteq> None) (lan_rules cfg)")
  case None
  then have "\<not> to_lan cfg S p"
    using assms by (auto simp: find_None_iff to_lan_def documented_vm_def)
  then show ?thesis unfolding chain_append None by simp
next
  case (Some r)
  then have "r \<in> set (lan_rules cfg)" "vm S p r \<noteq> None"
    by (auto simp: find_Some_iff)
  then have "to_lan cfg S p" "vm S p r = Some Accept"
    using assms lan_rule_accepts [of r cfg S p] by (auto simp: to_lan_def documented_vm_def)
  then show ?thesis unfolding chain_append Some by simp
qed

text \<open>The verdict as a table: local traffic first, then the hardware address, where a block beats an
  allowance, then the IPv4 and the IPv6 address; anything else passes.\<close>

definition filter_spec :: "nft_config \<Rightarrow> nft_sets \<Rightarrow> packet \<Rightarrow> rule_verdict" where
  "filter_spec cfg S p =
     (if pkt_iif p \<noteq> iface_bytes cfg \<or> to_lan cfg S p then Accept
      else if src_in S p LLHeader 6 6 ''blocked_macs'' then Drop
      else if src_in S p LLHeader 6 6 ''allowed_macs'' then Accept
      else if src_in S p NetworkHeader 12 4 ''blocked_ips'' then Drop
      else if src_in S p NetworkHeader 12 4 ''allowed_ips'' then Accept
      else if src_in S p NetworkHeader 8 16 ''blocked_ips_v6'' then Drop
      else Accept)"

lemma off_iface_lan: "pkt_iif p \<noteq> iface_bytes cfg \<Longrightarrow> \<not> to_lan cfg S p"
  by (auto simp: to_lan_def lan_rules_def lan_rule_def on_iface_def split: option.splits)

lemma chain_filter_spec:
  assumes "documented_vm vm"
  shows "chain_verdict vm S p (rules_of cfg) = filter_spec cfg S p"
proof -
  have vm: "vm S p r = run_exprs S p [] r" for r using assms by (simp add: documented_vm_def)
  have last: "run_exprs S p [] (on_iface cfg [Verdict Accept]) =
      (if pkt_iif p = iface_bytes cfg then Some Accept else None)"
    by (simp add: on_iface_def)
  show ?thesis
    unfolding rules_of_def chain_lan [OF assms]
    by (simp add: vm run_set_rule last filter_spec_def off_iface_lan)
qed


definition documented :: vm where "documented S p es = run_exprs S p [] es"

definition plain_config :: nft_config where
  "plain_config = \<lparr>nft_interface = ''br'', nft_table = ''lancontrol'', nft_lan_subnets = []\<rparr>"


text \<open>No rule tests the network protocol. The bytes a bypass rule of an IPv4 subnet reads as the
  destination are, in an IPv6 packet, part of the source address, which the sender chooses: a
  blocked device that gives itself an address with the subnet's bytes there passes the filter.\<close>

definition home_config :: nft_config where
  "home_config = \<lparr>nft_interface = ''br'', nft_table = ''lancontrol'', nft_lan_subnets = [''192.168.0.0/16'']\<rparr>"

definition v6_packet :: packet where
  "v6_packet = \<lparr>pkt_iif = iface_bytes home_config,
     pkt_ll = replicate 6 255 @ [2, 0, 0, 0, 0, 1] @ [0x86, 0xdd],
     pkt_net = [0x60, 0, 0, 0, 0, 0, 59, 64]
       @ [0x20, 0x01, 0x0d, 0xb8, 0, 0, 0, 0, 0xc0, 0xa8, 0, 0, 0, 0, 0, 1]
       @ [0x26, 0x06, 0x47, 0, 0, 0, 0, 0, 0, 0, 0, 0, 0, 0, 0, 1]\<rparr>"

lemma replicate4: "replicate 4 (0::u8) = [0, 0, 0, 0]"
  by (simp add: eval_nat_numeral)

lemma v6_source_bypasses_block:
  "chain_verdict documented (\<lambda>n. if n = ''blocked_macs'' then {[2, 0, 0, 0, 0, 1]} else {}) v6_packet
     (rules_of home_config) = Accept"
proof -
  have c: "parse_cidr ''192.168.0.0/16'' = Some ([192, 168, 0, 0], [255, 255, 0, 0])" by code_simp
  have r: "lan_rules home_config = [lan_rule home_config ([192, 168, 0, 0], [255, 255, 0, 0])]"
    by (simp add: lan_rules_def home_config_def List.map_filter_def c)
  have "run_exprs (\<lambda>n. if n = ''blocked_macs'' then {[2, 0, 0, 0, 0, 1]} else {}) v6_packet []
      (lan_rule home_config ([192, 168, 0, 0], [255, 255, 0, 0])) = Some Accept"
    using replicate4 by (simp add: lan_rule_def to4_def on_iface_def v6_packet_def load_def)
  then show ?thesis
    by (subst chain_filter_spec) (simp_all add: documented_vm_def documented_def filter_spec_def to_lan_def r)
qed

subsection \<open>The set updates\<close>

definition keys :: "('a \<Rightarrow> 'b option) \<Rightarrow> 'a list \<Rightarrow> 'b set" where
  "keys key xs = {k. \<exists>x \<in> set xs. key x = Some k}"

lemma set_map_filter: "set (List.map_filter key xs) = keys key xs"
  by (force simp: keys_def List.map_filter_def)

lemma queue_elements_sets:
  "foldl op_sets S (queue_elements c name adds rems is_mac) =
    (if name \<in> set (ctl_sets c) then
       S(name := (S name \<union> keys (if is_mac then mac_key else ip_key name) adds)
           - keys (if is_mac then mac_key else ip_key name) rems)
     else S)"
proof (cases "name \<in> set (ctl_sets c)")
  case True
  let ?key = "if is_mac then mac_key else ip_key name"
  have a: "set (List.map_filter ?key adds) = keys ?key adds"
    and r: "set (List.map_filter ?key rems) = keys ?key rems"
    by (rule set_map_filter)+
  show ?thesis
    using True a r unfolding queue_elements_def Let_def
    by (cases "List.map_filter ?key adds"; cases "List.map_filter ?key rems") (auto simp: op_sets_def)
qed (simp add: queue_elements_def)

definition sets_complete :: "controller \<Rightarrow> bool" where
  "sets_complete c \<longleftrightarrow> ctl_connected c \<and> fst ` set set_decls \<subseteq> set (ctl_sets c)"

lemma no_flush_ops: "FlushTable n \<notin> set (apply_ops c d) \<and> DelTable n \<notin> set (apply_ops c d)"
  by (auto simp: apply_ops_def queue_elements_def Let_def split: if_splits)

text \<open>The two sets of hardware addresses after a successful \<open>Apply\<close>.\<close>

lemma apply_diff_macs:
  assumes "atomic_commit commit elems" "sets_complete c"
    and "apply_diff cfg env commit d c k = (None, c', k')"
  shows "c' = c"
    and "elems k' ''blocked_macs'' =
      elems k ''blocked_macs'' \<union> keys mac_key (blocked_macs_add d) - keys mac_key (blocked_macs_rem d)"
    and "elems k' ''allowed_macs'' =
      elems k ''allowed_macs'' \<union> keys mac_key (allowed_macs_add d) - keys mac_key (allowed_macs_rem d)"
proof -
  have k: "commit (apply_ops c d) k = Some k'" "c' = c"
    using assms(2,3) by (auto simp: apply_diff_def sets_complete_def split: option.splits)
  then show "c' = c" by simp
  have "elems k' = foldl op_sets (elems k) (apply_ops c d)"
    using assms(1) k(1) no_flush_ops unfolding atomic_commit_def by blast
  then show "elems k' ''blocked_macs'' =
      elems k ''blocked_macs'' \<union> keys mac_key (blocked_macs_add d) - keys mac_key (blocked_macs_rem d)"
    and "elems k' ''allowed_macs'' =
      elems k ''allowed_macs'' \<union> keys mac_key (allowed_macs_add d) - keys mac_key (allowed_macs_rem d)"
    using assms(2)
    by (simp_all add: apply_ops_def queue_elements_sets sets_complete_def set_decls_def)
qed

text \<open>\<open>Init\<close> leaves the controller with all its sets, and so does a failed \<open>Apply\<close> that could reconnect.\<close>

lemma init_complete:
  "init_controller cfg env commit c k = (None, c', k') \<Longrightarrow> sets_complete c'"
  by (auto simp: init_controller_def sets_complete_def set_decls_def Let_def split: option.splits if_splits)

end
