(* ===== verification/Go_Time.thy ===== *)
theory Go_Time
  imports Go_Strings
begin

text \<open>
  The parts of Go's \<open>time\<close> package the program uses. An instant is the number of nanoseconds
  since the Unix epoch, a \<open>time.Duration\<close> a number of nanoseconds; \<open>Before\<close>, \<open>After\<close> and
  \<open>Equal\<close> are \<open><\<close>, \<open>>\<close> and \<open>=\<close>. A \<open>*time.Location\<close> is the offset before the first transition and
  the list of transitions (instant in seconds, new offset), in ascending order, which is what
  \<open>Location.lookup\<close> reads. The civil date \<open>(year, month, day)\<close> of an instant is represented by
  its day number since 1970-01-01, with which \<open>time.Date(y, m, d + i, ...)\<close> and
  \<open>AddDate(0, 0, n)\<close> are additions.
\<close>

type_synonym time = int
type_synonym duration = int

definition second :: duration where "second = 1000000000"
definition minute :: duration where "minute = 60 * second"
definition hour :: duration where "hour = 60 * minute"

text \<open>The zero \<open>time.Time\<close>, 0001-01-01 00:00:00 UTC, and \<open>IsZero\<close>.\<close>

definition zero_time :: time where "zero_time = - 62135596800 * second"

definition is_zero :: "time \<Rightarrow> bool" where "is_zero t \<longleftrightarrow> t = zero_time"

text \<open>\<open>UnixNano\<close> of an instant, an \<open>int64\<close>.\<close>

definition unix_nano :: "time \<Rightarrow> int" where
  "unix_nano t = (t + 2 ^ 63) mod 2 ^ 64 - 2 ^ 63"

text \<open>\<open>Time.Sub\<close> saturates at the ends of the 64-bit duration.\<close>

definition max_duration :: duration where "max_duration = 2 ^ 63 - 1"
definition min_duration :: duration where "min_duration = - (2 ^ 63)"

definition time_sub :: "time \<Rightarrow> time \<Rightarrow> duration" where
  "time_sub t u = max min_duration (min max_duration (t - u))"

subsection \<open>Locations\<close>

record location =
  loc_first :: int
  loc_tx :: "(int \<times> int) list"

definition utc :: location where
  "utc = \<lparr>loc_first = 0, loc_tx = []\<rparr>"

definition fixed_zone :: "int \<Rightarrow> location" where
  "fixed_zone off = \<lparr>loc_first = off, loc_tx = []\<rparr>"

definition alpha :: int where "alpha = - (2 ^ 63)"
definition omega :: int where "omega = 2 ^ 63 - 1"

text \<open>\<open>Location.lookup\<close>: the offset in force at a second and the span it is in force for.\<close>

fun lookup_tx :: "int \<Rightarrow> int \<Rightarrow> (int \<times> int) list \<Rightarrow> int \<Rightarrow> int \<times> int \<times> int" where
  "lookup_tx start off [] sec = (off, start, omega)"
| "lookup_tx start off ((w, o') # r) sec =
     (if sec < w then (off, start, w) else lookup_tx w o' r sec)"

definition lookup_zone :: "location \<Rightarrow> int \<Rightarrow> int \<times> int \<times> int" where
  "lookup_zone loc sec = lookup_tx alpha (loc_first loc) (loc_tx loc) sec"

definition zone_offset :: "location \<Rightarrow> int \<Rightarrow> int" where
  "zone_offset loc sec = fst (lookup_zone loc sec)"

text \<open>\<open>time.LoadLocation\<close>: the time-zone database is data of the host, the parameter \<open>tzdb\<close>.\<close>

type_synonym tzdb = "string \<Rightarrow> location option"

definition load_location :: "tzdb \<Rightarrow> string \<Rightarrow> location option" where
  "load_location tzdb name = (if name = '''' \<or> name = ''UTC'' then Some utc else tzdb name)"

text \<open>What \<open>Time.In(loc)\<close> shows of an instant: its local second, day number and weekday
  (Sunday is 0; 1970-01-01 was a Thursday).\<close>

definition local_sec :: "location \<Rightarrow> time \<Rightarrow> int" where
  "local_sec loc t = t div second + zone_offset loc (t div second)"

definition local_day :: "location \<Rightarrow> time \<Rightarrow> int" where
  "local_day loc t = local_sec loc t div 86400"

definition weekday_of_day :: "int \<Rightarrow> int" where
  "weekday_of_day d = (d + 4) mod 7"

definition local_weekday :: "location \<Rightarrow> time \<Rightarrow> int" where
  "local_weekday loc t = weekday_of_day (local_day loc t)"

text \<open>\<open>time.Date\<close> with zero nanoseconds: the offset is looked up as if the civil time were UTC
  and looked up again when that instant is outside the span of the offset found.\<close>

definition time_date_sec :: "location \<Rightarrow> int \<Rightarrow> int" where
  "time_date_sec loc unix =
     (case lookup_zone loc unix of (off, start, end') \<Rightarrow>
        if off \<noteq> 0 then
          (if unix - off < start \<or> end' \<le> unix - off then unix - zone_offset loc (unix - off)
           else unix - off)
        else unix)"

definition time_date :: "location \<Rightarrow> int \<Rightarrow> int \<Rightarrow> int \<Rightarrow> time" where
  "time_date loc day h m = time_date_sec loc (day * 86400 + h * 3600 + m * 60) * second"

text \<open>\<open>t.AddDate(0, 0, n)\<close>: the same clock reading \<open>n\<close> civil days later.\<close>

definition add_days :: "location \<Rightarrow> time \<Rightarrow> int \<Rightarrow> time" where
  "add_days loc t n =
     time_date_sec loc (local_sec loc t + n * 86400) * second + t mod second"

subsection \<open>Parsing\<close>

definition digit_val :: "char \<Rightarrow> int" where
  "digit_val c = int (byte c) - 48"

text \<open>\<open>getnum\<close> of the package's parser: one or two digits, two when \<open>fixed\<close>.\<close>

fun getnum :: "bool \<Rightarrow> string \<Rightarrow> (int \<times> string) option" where
  "getnum fixed [] = None"
| "getnum fixed [c] =
     (if \<not> is_digit c \<or> fixed then None else Some (digit_val c, []))"
| "getnum fixed (c # d # s) =
     (if \<not> is_digit c then None
      else if \<not> is_digit d then (if fixed then None else Some (digit_val c, d # s))
      else Some (digit_val c * 10 + digit_val d, s))"

text \<open>\<open>time.Parse("15:04", s)\<close>: the hour and minute, or \<open>None\<close> for any parse error.\<close>

definition parse_hhmm :: "string \<Rightarrow> (int \<times> int) option" where
  "parse_hhmm s =
     (case getnum False s of None \<Rightarrow> None
      | Some (h, r) \<Rightarrow>
          if h < 0 \<or> 24 \<le> h then None
          else (case r of [] \<Rightarrow> None
            | c # r' \<Rightarrow>
                if c \<noteq> CHR '':'' then None
                else (case getnum True r' of None \<Rightarrow> None
                  | Some (m, r'') \<Rightarrow>
                      if m < 0 \<or> 60 \<le> m then None
                      else if r'' = [] then Some (h, m) else None)))"

definition leap_year :: "int \<Rightarrow> bool" where
  "leap_year y \<longleftrightarrow> y mod 4 = 0 \<and> (y mod 100 \<noteq> 0 \<or> y mod 400 = 0)"

definition days_in_month :: "int \<Rightarrow> int \<Rightarrow> int" where
  "days_in_month y m =
     (if m = 2 then (if leap_year y then 29 else 28)
      else if m = 4 \<or> m = 6 \<or> m = 9 \<or> m = 11 then 30 else 31)"

text \<open>The day number of a civil date of the proleptic Gregorian calendar.\<close>

definition civil_day :: "int \<Rightarrow> int \<Rightarrow> int \<Rightarrow> int" where
  "civil_day y m d =
     (let y' = (if m \<le> 2 then y - 1 else y);
          doy = (153 * (if m > 2 then m - 3 else m + 9) + 2) div 5 + d - 1
      in y' * 365 + y' div 4 - y' div 100 + y' div 400 + doy - 719468)"

text \<open>\<open>time.ParseInLocation("2006-01-02", s, loc)\<close>, as the day number of the date.\<close>

definition parse_date :: "string \<Rightarrow> int option" where
  "parse_date s =
     (case s of
        a # b # c # d # s1 # r1 \<Rightarrow>
          if \<not> (is_digit a \<and> is_digit b \<and> is_digit c \<and> is_digit d) \<or> s1 \<noteq> CHR ''-'' then None
          else
            (case getnum True r1 of None \<Rightarrow> None
             | Some (mon, r2) \<Rightarrow>
                 if mon \<le> 0 \<or> 12 < mon then None
                 else (case r2 of [] \<Rightarrow> None
                   | s2 # r3 \<Rightarrow>
                       if s2 \<noteq> CHR ''-'' then None
                       else (case getnum True r3 of None \<Rightarrow> None
                         | Some (day, r4) \<Rightarrow>
                             let y = digit_val a * 1000 + digit_val b * 100
                                     + digit_val c * 10 + digit_val d
                             in if r4 \<noteq> [] \<or> day < 1 \<or> days_in_month y mon < day then None
                                else Some (civil_day y mon day))))
      | _ \<Rightarrow> None)"

subsection \<open>Facts\<close>

lemma second_pos [simp]: "0 < second"
  by (simp add: second_def)

lemmas duration_defs = second_def minute_def hour_def

lemma time_sub_less: "d \<le> max_duration \<Longrightarrow> min_duration < d \<Longrightarrow> time_sub t u < d \<longleftrightarrow> t - u < d"
  by (auto simp: time_sub_def)

lemma time_sub_greater: "d < max_duration \<Longrightarrow> min_duration \<le> d \<Longrightarrow> d < time_sub t u \<longleftrightarrow> d < t - u"
  by (auto simp: time_sub_def)

lemma time_sub_self [simp]: "time_sub t t = 0"
  by (simp add: time_sub_def max_duration_def min_duration_def)

lemma is_digit_val: "is_digit c \<Longrightarrow> 0 \<le> digit_val c \<and> digit_val c \<le> 9"
  by (auto simp: is_digit_def digit_val_def)

lemma getnum_bounds: "getnum fixed s = Some (n, r) \<Longrightarrow> 0 \<le> n \<and> n \<le> 99"
  by (induction fixed s rule: getnum.induct) (auto dest!: is_digit_val split: if_splits)

lemma parse_hhmm_bounds: "parse_hhmm s = Some (h, m) \<Longrightarrow> 0 \<le> h \<and> h < 24 \<and> 0 \<le> m \<and> m < 60"
  by (auto simp: parse_hhmm_def split: option.splits if_splits list.splits)

lemma parse_hhmm_minutes:
  "parse_hhmm s = Some (h, m) \<Longrightarrow> 0 \<le> h * 60 + m \<and> h * 60 + m < 1440"
  using parse_hhmm_bounds [of s h m] by auto

text \<open>A zone without transitions: one offset for ever.\<close>

lemma fixed_zone_offset [simp]: "zone_offset (fixed_zone off) s = off"
  by (simp add: zone_offset_def lookup_zone_def fixed_zone_def)

lemma fixed_zone_date_sec:
  assumes "alpha \<le> unix - off" "unix - off < omega"
  shows "time_date_sec (fixed_zone off) unix = unix - off"
  using assms by (simp add: time_date_sec_def lookup_zone_def fixed_zone_def)

lemma local_sec_fixed: "local_sec (fixed_zone off) t = t div second + off"
  by (simp add: local_sec_def)

lemma weekday_range: "0 \<le> weekday_of_day d \<and> weekday_of_day d < 7"
  by (simp add: weekday_of_day_def)

lemma utc_fixed_zone: "utc = fixed_zone 0"
  by (simp add: utc_def fixed_zone_def)

end
