(* ===== verification/Shared_Models.thy ===== *)
theory Shared_Models
  imports Complex_Main Go_Time Go_Net
begin

text \<open>
  The data structures of \<open>shared/models\<close>, exchanged by the discovery service and the scheduler,
  and the methods of \<open>Policy\<close>, \<open>Device\<close> and \<open>Event\<close>. Go's string enumerations are datatypes; those
  that arrive as JSON keep a constructor for every other string. A nil pointer is \<open>None\<close>; a nil
  slice and an empty slice are both \<open>[]\<close>. \<open>float64\<close> confidences are reals.
\<close>

subsection \<open>Policies and schedules (\<open>policy.go\<close>, \<open>schedule.go\<close>)\<close>

datatype policy_type = PolicyTypeGlobal | PolicyTypeTag | PolicyTypeDevice | PolicyTypeOther string

datatype action = ActionAllow | ActionBlock | ActionSchedule | ActionOther string

record policy =
  pol_id :: string
  pol_name :: string
  pol_type :: policy_type
  pol_target :: string
  pol_action :: action
  pol_schedule_ids :: "string list"
  pol_schedule_id :: "string option"
  pol_priority :: int
  pol_enabled :: bool
  pol_created_at :: time
  pol_updated_at :: time
  pol_expires_at :: "time option"
  pol_reason_tag :: string

text \<open>The zero \<open>Policy{}\<close>, from which the code's literals leave fields unset.\<close>

definition empty_policy :: policy where
  "empty_policy = \<lparr>pol_id = [], pol_name = [], pol_type = PolicyTypeOther [], pol_target = [],
     pol_action = ActionOther [], pol_schedule_ids = [], pol_schedule_id = None, pol_priority = 0,
     pol_enabled = False, pol_created_at = zero_time, pol_updated_at = zero_time,
     pol_expires_at = None, pol_reason_tag = []\<rparr>"

definition get_schedule_ids :: "policy \<Rightarrow> string list" where
  "get_schedule_ids p =
     (if 0 < length (pol_schedule_ids p) then pol_schedule_ids p
      else (case pol_schedule_id p of
              Some sid \<Rightarrow> if sid \<noteq> [] then [sid] else []
            | None \<Rightarrow> []))"

datatype schedule_mode = ScheduleModeDowntime | ScheduleModeWhitelist | ScheduleModeOther string

record schedule_rule =
  rule_days :: "string list"
  rule_start :: string
  rule_end :: string
  rule_action :: action
  rule_start_date :: string
  rule_end_date :: string

record schedule =
  sched_id :: string
  sched_name :: string
  sched_mode :: schedule_mode
  sched_timezone :: string
  sched_rules :: "schedule_rule list"

definition empty_schedule :: schedule where
  "empty_schedule = \<lparr>sched_id = [], sched_name = [], sched_mode = ScheduleModeOther [],
     sched_timezone = [], sched_rules = []\<rparr>"

subsection \<open>Devices (\<open>device.go\<close>)\<close>

datatype identity_tier = TierTentative | TierL7 | TierBIA

datatype identity_assurance =
  IdentityUnverified | IdentityCandidate | IdentityStrong | IdentityVerified | IdentityOther string

text \<open>A JSON value of a provider's \<open>Raw\<close> map.\<close>

datatype raw_value =
  RawNil | RawBool bool | RawNumber real | RawString string
| RawList "raw_value list" | RawMap "(string \<times> raw_value) list"

record source_meta =
  meta_source :: string
  meta_confidence :: real
  meta_timestamp :: time
  meta_raw :: "string \<rightharpoonup> raw_value"

record device =
  device_id :: string
  pdid :: string
  identity_tier :: identity_tier
  identity_anchor :: string
  canonical_hostname :: string
  current_mac :: string
  macs :: "string list"
  current_ip :: string
  ips :: "string list"
  hostname :: string
  friendly_name :: string
  manufacturer :: string
  vendor :: string
  model :: string
  device_type :: string
  services :: "string list"
  online :: bool
  pending_online_obs :: "string list"
  is_tentative :: bool
  first_seen :: time
  last_seen :: time
  confidence :: real
  dev_tags :: "string list"
  user_id :: string
  source_info :: "string \<rightharpoonup> source_meta"
  assurance :: identity_assurance
  probability :: real
  ambiguous :: bool
  last_enriched_at :: time
  last_nmap_scan_at :: time
  nmap_attempt_count :: int
  is_fully_identified :: bool

definition empty_device :: device where
  "empty_device = \<lparr>device_id = [], pdid = [], identity_tier = TierTentative, identity_anchor = [],
     canonical_hostname = [], current_mac = [], macs = [], current_ip = [], ips = [],
     hostname = [], friendly_name = [], manufacturer = [], vendor = [], model = [],
     device_type = [], services = [], online = False, pending_online_obs = [],
     is_tentative = False, first_seen = zero_time, last_seen = zero_time, confidence = 0,
     dev_tags = [], user_id = [], source_info = Map.empty, assurance = IdentityOther [],
     probability = 0, ambiguous = False, last_enriched_at = zero_time,
     last_nmap_scan_at = zero_time, nmap_attempt_count = 0, is_fully_identified = False\<rparr>"

definition max_historical_macs :: nat where "max_historical_macs = 32"

definition clean_mac :: "string \<Rightarrow> string" where
  "clean_mac mac =
     (let c = to_lower (trim_space mac)
      in case parse_mac c of Some hw \<Rightarrow> mac_string hw | None \<Rightarrow> c)"

definition add_mac :: "device \<Rightarrow> string \<Rightarrow> device" where
  "add_mac d mac =
     (if mac = [] then d
      else let c = clean_mac mac in
        if c \<in> set (macs d) then d\<lparr>current_mac := c\<rparr>
        else let ms = macs d @ [c] in
          d\<lparr>current_mac := c,
            macs := (if max_historical_macs < length ms
                     then drop (length ms - max_historical_macs) ms else ms)\<rparr>)"

definition clean_ip :: "string \<Rightarrow> string" where
  "clean_ip ip =
     (let c = trim_space ip
      in case parse_ip c of Some a \<Rightarrow> ip_string a | None \<Rightarrow> c)"

definition add_ip :: "device \<Rightarrow> string \<Rightarrow> device" where
  "add_ip d ip =
     (if ip = [] then d
      else let c = clean_ip ip in
        if c \<in> set (ips d) then d\<lparr>current_ip := c\<rparr>
        else d\<lparr>ips := ips d @ [c], current_ip := c\<rparr>)"

definition has_mac :: "device \<Rightarrow> string \<Rightarrow> bool" where
  "has_mac d mac =
     (if mac = [] then False
      else (\<exists>m \<in> set (macs d). to_lower (trim_space m) = to_lower (trim_space mac)))"

text \<open>\<open>AddService\<close> also reports whether the service is new.\<close>

definition add_service :: "device \<Rightarrow> string \<Rightarrow> bool \<times> device" where
  "add_service d svc =
     (if svc = [] then (False, d)
      else let c = trim_space svc in
        if c \<in> set (services d) then (False, d)
        else (True, d\<lparr>services := services d @ [c]\<rparr>))"

definition touch :: "device \<Rightarrow> time \<Rightarrow> device" where
  "touch d ts =
     (let d' = d\<lparr>last_seen := ts\<rparr>
      in if is_zero (first_seen d') then d'\<lparr>first_seen := ts\<rparr> else d')"

definition has_tag :: "string list \<Rightarrow> string \<Rightarrow> bool" where
  "has_tag ts tag = (if tag = [] then False else tag \<in> set ts)"

definition display_name :: "device option \<Rightarrow> string" where
  "display_name od =
     (case od of None \<Rightarrow> ''Unknown Device''
      | Some d \<Rightarrow>
          if trim_space (hostname d) \<noteq> [] then trim_space (hostname d)
          else if trim_space (friendly_name d) \<noteq> [] then trim_space (friendly_name d)
          else let v = trim_space (vendor d); m = trim_space (model d) in
            if v \<noteq> [] \<and> m \<noteq> [] then v @ '' '' @ m
            else if v \<noteq> [] then v
            else if m \<noteq> [] then m
            else if current_mac d \<noteq> [] then current_mac d
            else if pdid d \<noteq> [] then pdid d
            else ''Unknown Device'')"

subsection \<open>Events (\<open>event.go\<close>)\<close>

datatype event_type =
  EventDeviceAdded | EventDeviceRemoved | EventDeviceOnline | EventDeviceOffline
| EventHostnameChanged | EventFingerprintUpdated | EventIPChanged | EventMACChanged
| EventDeviceReidentified | EventIdentityCandidateChanged | EventIdentityBindingChanged
| EventIdentityCandidateDecided | EventSecurityAlert | EventEffectiveStatusChanged
| EventOther string

record device_event_payload =
  ep_pdid :: string
  ep_mac :: string
  ep_ip :: string
  ep_hostname :: string
  ep_canonical_hostname :: string
  ep_old_mac :: string
  ep_old_ip :: string
  ep_old_host :: string
  ep_old_canonical_hostname :: string
  ep_confirmed_by :: "string list"
  ep_timestamp :: time

text \<open>The envelope; its payload is polymorphic, the value the code marshals to JSON.\<close>

record 'p event =
  ev_type :: event_type
  ev_device_id :: string
  ev_pdid :: string
  ev_payload :: 'p
  ev_timestamp :: time

definition new_event :: "time \<Rightarrow> event_type \<Rightarrow> string \<Rightarrow> 'p \<Rightarrow> 'p event" where
  "new_event now t p payload =
     \<lparr>ev_type = t, ev_device_id = p, ev_pdid = p, ev_payload = payload, ev_timestamp = now\<rparr>"

definition target_pdid :: "'p event \<Rightarrow> string" where
  "target_pdid e = (if ev_pdid e \<noteq> [] then ev_pdid e else ev_device_id e)"

definition set_target_pdid :: "'p event \<Rightarrow> string \<Rightarrow> 'p event" where
  "set_target_pdid e p = (if p = [] then e else e\<lparr>ev_pdid := p, ev_device_id := p\<rparr>)"

lemma target_pdid_new_event [simp]: "target_pdid (new_event now t p x) = p"
  by (simp add: target_pdid_def new_event_def)

lemma target_pdid_set [simp]: "p \<noteq> [] \<Longrightarrow> target_pdid (set_target_pdid e p) = p"
  by (simp add: target_pdid_def set_target_pdid_def)

subsection \<open>Well-formed devices\<close>

text \<open>What \<open>AddMAC\<close> and \<open>AddIP\<close> keep of a device's address lists.\<close>

definition addresses_ok :: "device \<Rightarrow> bool" where
  "addresses_ok d \<longleftrightarrow> distinct (macs d) \<and> length (macs d) \<le> max_historical_macs \<and> distinct (ips d)"

lemma addresses_ok_add_mac: "addresses_ok d \<Longrightarrow> addresses_ok (add_mac d mac)"
  by (auto simp: addresses_ok_def add_mac_def Let_def distinct_drop simp del: drop_append)

lemma current_mac_add_mac:
  "mac \<noteq> [] \<Longrightarrow> current_mac (add_mac d mac) = clean_mac mac \<and> clean_mac mac \<in> set (macs (add_mac d mac))"
  by (auto simp: add_mac_def Let_def max_historical_macs_def)

lemma addresses_ok_add_ip: "addresses_ok d \<Longrightarrow> addresses_ok (add_ip d ip)"
  by (auto simp: addresses_ok_def add_ip_def Let_def)

lemma add_mac_idem: "add_mac (add_mac d mac) mac = add_mac d mac"
  using current_mac_add_mac [of mac d]
  by (cases "mac = []") (simp add: add_mac_def, auto simp: add_mac_def [of "add_mac d mac"] Let_def)

lemma add_ip_idem: "add_ip (add_ip d ip) ip = add_ip d ip"
  by (auto simp: add_ip_def Let_def)

lemma pdid_add_mac [simp]: "pdid (add_mac d m) = pdid d" "device_id (add_mac d m) = device_id d"
  by (simp_all add: add_mac_def Let_def)

lemma pdid_add_ip [simp]: "pdid (add_ip d m) = pdid d" "device_id (add_ip d m) = device_id d"
  by (simp_all add: add_ip_def Let_def)

lemma pdid_touch [simp]: "pdid (touch d t) = pdid d" "last_seen (touch d t) = t"
  by (simp_all add: touch_def Let_def)

lemma pdid_add_service [simp]: "pdid (snd (add_service d s)) = pdid d"
  by (simp add: add_service_def Let_def)

end
