(* ===== verification/Schedule_Conflict.thy ===== *)
theory Schedule_Conflict
  imports Shared_Models "HOL-Library.Signed_Division"
begin

text \<open>
  \<open>apps/lias/internal/scheduleconflict/conflict.go\<close>: the projection of a schedule onto the
  10080 minutes of a week and the merge of a bundle of schedules, which fails when two of them
  contradict each other.
\<close>

subsection \<open>The week in minutes\<close>

definition day_to_weekday :: "string \<Rightarrow> int option" where
  "day_to_weekday = map_of
     [(''sun'', 0), (''sunday'', 0), (''mon'', 1), (''monday'', 1), (''tue'', 2), (''tuesday'', 2),
      (''wed'', 3), (''wednesday'', 3), (''thu'', 4), (''thursday'', 4), (''fri'', 5), (''friday'', 5),
      (''sat'', 6), (''saturday'', 6)]"

definition minute_of_week :: "int \<Rightarrow> int \<Rightarrow> int \<Rightarrow> int" where
  "minute_of_week wd h m = wd * 1440 + h * 60 + m"

definition day_names :: "string list" where
  "day_names = [''sunday'', ''monday'', ''tuesday'', ''wednesday'', ''thursday'', ''friday'', ''saturday'']"

definition format_minute_of_week :: "int \<Rightarrow> string \<times> string" where
  "format_minute_of_week m =
     (let m' = ((m smod 10080) + 10080) smod 10080;
          day = m' sdiv 1440; min_of_day = m' smod 1440;
          hh = min_of_day sdiv 60; mm = min_of_day smod 60
      in (day_names ! nat day, two_digits hh @ '':'' @ two_digits mm))"

subsection \<open>Projection\<close>

record segment =
  seg_start :: int
  seg_end :: int
  seg_action :: action
  seg_sched_id :: string
  seg_sched_name :: string
  seg_rule_idx :: nat

datatype merge_error =
  InvalidStartTime string nat | InvalidEndTime string nat
| MixedTimezones string string string | ConflictDetected nat

text \<open>The segments of one day of a rule whose window is \<open>sm\<close> to \<open>em\<close> in minutes of the day.\<close>

definition project_day :: "schedule \<Rightarrow> nat \<Rightarrow> schedule_rule \<Rightarrow> int \<Rightarrow> int \<Rightarrow> string \<Rightarrow> segment list" where
  "project_day s idx r sm em day_str =
     (case day_to_weekday (to_lower (trim_space day_str)) of
        None \<Rightarrow> []
      | Some wd \<Rightarrow>
          let seg = (\<lambda>a b. \<lparr>seg_start = a, seg_end = b, seg_action = rule_action r,
                seg_sched_id = sched_id s, seg_sched_name = sched_name s, seg_rule_idx = idx\<rparr>)
          in if sm < em then [seg (wd * 1440 + sm) (wd * 1440 + em)]
             else let nd = (wd + 1) smod 7 in
               [seg (wd * 1440 + sm) ((wd + 1) * 1440), seg (nd * 1440) (nd * 1440 + em)])"

definition project_rule :: "schedule \<Rightarrow> nat \<Rightarrow> schedule_rule \<Rightarrow> merge_error + segment list" where
  "project_rule s idx r =
     (case parse_hhmm (rule_start r) of
        None \<Rightarrow> Inl (InvalidStartTime (rule_start r) idx)
      | Some (sh, sm) \<Rightarrow>
          (case parse_hhmm (rule_end r) of
             None \<Rightarrow> Inl (InvalidEndTime (rule_end r) idx)
           | Some (eh, em) \<Rightarrow>
               let a = sh * 60 + sm; b = eh * 60 + em
               in if a = b then Inr []
                  else Inr (concat (map (project_day s idx r a b) (rule_days r)))))"

fun project_rules :: "schedule \<Rightarrow> nat \<Rightarrow> schedule_rule list \<Rightarrow> merge_error + segment list" where
  "project_rules s idx [] = Inr []"
| "project_rules s idx (r # rs) =
     (case project_rule s idx r of
        Inl e \<Rightarrow> Inl e
      | Inr segs \<Rightarrow>
          (case project_rules s (Suc idx) rs of Inl e \<Rightarrow> Inl e | Inr rest \<Rightarrow> Inr (segs @ rest)))"

definition project_schedule :: "schedule \<Rightarrow> merge_error + segment list" where
  "project_schedule s = project_rules s 0 (sched_rules s)"

fun project_all :: "schedule list \<Rightarrow> merge_error + segment list" where
  "project_all [] = Inr []"
| "project_all (s # ss) =
     (case project_schedule s of
        Inl e \<Rightarrow> Inl e
      | Inr segs \<Rightarrow> (case project_all ss of Inl e \<Rightarrow> Inl e | Inr rest \<Rightarrow> Inr (segs @ rest)))"

subsection \<open>The search for contradictions\<close>

record conflict =
  con_a_id :: string
  con_a_name :: string
  con_b_id :: string
  con_b_name :: string
  con_day :: string
  con_start :: string
  con_end :: string
  con_action_a :: action
  con_action_b :: action

definition contradict :: "segment \<Rightarrow> segment \<Rightarrow> bool" where
  "contradict a b \<longleftrightarrow>
     max (seg_start a) (seg_start b) < min (seg_end a) (seg_end b) \<and>
     seg_action a \<noteq> seg_action b \<and>
     (seg_sched_id a \<noteq> seg_sched_id b \<or> seg_rule_idx a \<noteq> seg_rule_idx b)"

definition check_pair ::
  "segment \<Rightarrow> segment \<Rightarrow> string list \<times> conflict list \<Rightarrow> string list \<times> conflict list" where
  "check_pair a b = (\<lambda>(seen, cs).
     if contradict a b then
       let lo = max (seg_start a) (seg_start b); hi = min (seg_end a) (seg_end b);
           day = fst (format_minute_of_week lo); t1 = snd (format_minute_of_week lo);
           t2 = snd (format_minute_of_week hi);
           key = join ''|'' [seg_sched_id a, seg_sched_id b, day, t1, t2]
       in if key \<in> set seen then (seen, cs)
          else (key # seen, cs @ [\<lparr>con_a_id = seg_sched_id a, con_a_name = seg_sched_name a,
                 con_b_id = seg_sched_id b, con_b_name = seg_sched_name b, con_day = day,
                 con_start = t1, con_end = t2, con_action_a = seg_action a,
                 con_action_b = seg_action b\<rparr>])
     else (seen, cs))"

text \<open>The inner loop stops at the first segment that starts at or after the end of \<open>a\<close>.\<close>

fun scan_from ::
  "segment \<Rightarrow> segment list \<Rightarrow> string list \<times> conflict list \<Rightarrow> string list \<times> conflict list" where
  "scan_from a [] st = st"
| "scan_from a (b # bs) st =
     (if seg_end a \<le> seg_start b then st else scan_from a bs (check_pair a b st))"

fun scan_all :: "segment list \<Rightarrow> string list \<times> conflict list \<Rightarrow> string list \<times> conflict list" where
  "scan_all [] st = st"
| "scan_all (a # as) st = scan_all as (scan_from a as st)"

definition find_conflicts :: "segment list \<Rightarrow> conflict list" where
  "find_conflicts segs = snd (scan_all segs ([], []))"

text \<open>\<open>sort.Slice\<close> leaves the order of equal keys open; the executable model takes the stable
  order, and \<open>find_conflicts_Nil_iff\<close> below holds for every sorted order of the segments.\<close>

definition seg_key :: "segment \<Rightarrow> int \<times> int" where
  "seg_key a = (seg_start a, seg_end a)"

definition seg_less :: "segment \<Rightarrow> segment \<Rightarrow> bool" where
  "seg_less a b \<longleftrightarrow> (if seg_start a = seg_start b then seg_end a < seg_end b else seg_start a < seg_start b)"

fun seg_insert :: "segment \<Rightarrow> segment list \<Rightarrow> segment list" where
  "seg_insert x [] = [x]"
| "seg_insert x (y # ys) = (if seg_less y x then y # seg_insert x ys else x # y # ys)"

definition seg_sort :: "segment list \<Rightarrow> segment list" where
  "seg_sort xs = foldr seg_insert xs []"

definition is_whitelist :: "schedule \<Rightarrow> bool" where
  "is_whitelist s \<longleftrightarrow> sched_mode s = ScheduleModeWhitelist \<or>
     (\<exists>r \<in> set (sched_rules s). rule_action r = ActionAllow)"

definition compose_schedules :: "schedule list \<Rightarrow> schedule" where
  "compose_schedules ss =
     \<lparr>sched_id = join ''+'' (map sched_id ss),
      sched_name = join '' + '' (map sched_name ss),
      sched_mode = (if \<exists>s \<in> set ss. is_whitelist s then ScheduleModeWhitelist else ScheduleModeDowntime),
      sched_timezone = sched_timezone (hd ss),
      sched_rules = concat (map sched_rules ss)\<rparr>"

definition merge_schedules :: "schedule list \<Rightarrow> schedule \<times> conflict list \<times> merge_error option" where
  "merge_schedules ss =
     (case ss of [] \<Rightarrow> (empty_schedule, [], None)
      | s0 # _ \<Rightarrow>
          (case List.find (\<lambda>s. sched_timezone s \<noteq> sched_timezone s0) ss of
             Some s \<Rightarrow> (empty_schedule, [],
               Some (MixedTimezones (sched_timezone s0) (sched_timezone s) (sched_name s)))
           | None \<Rightarrow>
               (case project_all ss of
                  Inl e \<Rightarrow> (empty_schedule, [], Some e)
                | Inr segs \<Rightarrow>
                    let cs = find_conflicts (seg_sort segs)
                    in if 0 < length cs
                       then (compose_schedules ss, cs, Some (ConflictDetected (length cs)))
                       else (compose_schedules ss, [], None))))"

subsection \<open>The projection covers what the rule says\<close>

text \<open>The reference: minute \<open>w\<close> of the week is in the window that opens at minute \<open>a\<close> of day \<open>wd\<close>
  and lasts until the next minute \<open>b\<close> of a day, counted around the week.\<close>

definition window_covers :: "int \<Rightarrow> int \<Rightarrow> int \<Rightarrow> int \<Rightarrow> bool" where
  "window_covers wd a b w \<longleftrightarrow> (w - (wd * 1440 + a)) mod 10080 < (b - a) mod 1440"

definition rule_covers :: "schedule_rule \<Rightarrow> int \<Rightarrow> bool" where
  "rule_covers r w =
     (case (parse_hhmm (rule_start r), parse_hhmm (rule_end r)) of
        (Some (sh, sm), Some (eh, em)) \<Rightarrow>
          (\<exists>d \<in> set (rule_days r).
             (case day_to_weekday (to_lower (trim_space d)) of
                None \<Rightarrow> False
              | Some wd \<Rightarrow> window_covers wd (sh * 60 + sm) (eh * 60 + em) w))
      | _ \<Rightarrow> False)"

definition seg_covers :: "segment \<Rightarrow> int \<Rightarrow> bool" where
  "seg_covers g w \<longleftrightarrow> seg_start g \<le> w \<and> w < seg_end g"

lemma day_to_weekday_range: "day_to_weekday s = Some wd \<Longrightarrow> 0 \<le> wd \<and> wd < 7"
  by (auto simp: day_to_weekday_def split: if_splits)

lemma smod7: "0 \<le> (x::int) \<Longrightarrow> x smod 7 = x mod 7"
  by (cases "x = 0") (simp_all add: signed_modulo_int_def sgn_if)

lemma mod_week:
  fixes u :: int
  assumes "- 10080 < u" "u < 10080"
  shows "u mod 10080 = (if 0 \<le> u then u else u + 10080)"
  using assms mod_pos_pos_trivial [of u 10080] mod_pos_pos_trivial [of "u + 10080" 10080] by auto

lemma mod_day:
  fixes u :: int
  assumes "- 1440 < u" "u < 1440"
  shows "u mod 1440 = (if 0 \<le> u then u else u + 1440)"
  using assms mod_pos_pos_trivial [of u 1440] mod_pos_pos_trivial [of "u + 1440" 1440] by auto

lemma window_covers_cases:
  assumes "0 \<le> wd" "wd < 7" "0 \<le> a" "a < 1440" "0 \<le> b" "b < 1440" "a \<noteq> b" "0 \<le> w" "w < 10080"
  shows "window_covers wd a b w \<longleftrightarrow>
    (if a < b then wd * 1440 + a \<le> w \<and> w < wd * 1440 + b
     else wd * 1440 + a \<le> w \<and> w < (wd + 1) * 1440 \<or>
          (wd + 1) mod 7 * 1440 \<le> w \<and> w < (wd + 1) mod 7 * 1440 + b)"
proof -
  have u: "(w - (wd * 1440 + a)) mod 10080 =
      (if wd * 1440 + a \<le> w then w - (wd * 1440 + a) else w - (wd * 1440 + a) + 10080)"
    using assms by (subst mod_week) auto
  have l: "(b - a) mod 1440 = (if a < b then b - a else b - a + 1440)"
    using assms by (subst mod_day) auto
  have n: "(wd + 1) mod 7 = (if wd = 6 then 0 else wd + 1)"
    using assms by auto
  show ?thesis
    unfolding window_covers_def u l n using assms by auto
qed

lemma project_day_covers:
  assumes "0 \<le> a" "a < 1440" "0 \<le> b" "b < 1440" "a \<noteq> b" "0 \<le> w" "w < 10080"
  shows "(\<exists>g \<in> set (project_day s i r a b d). seg_covers g w) \<longleftrightarrow>
    (case day_to_weekday (to_lower (trim_space d)) of
       None \<Rightarrow> False | Some wd \<Rightarrow> window_covers wd a b w)"
proof (cases "day_to_weekday (to_lower (trim_space d))")
  case None
  then show ?thesis by (simp add: project_day_def)
next
  case (Some wd)
  then have wd: "0 \<le> wd" "wd < 7" by (auto dest: day_to_weekday_range)
  show ?thesis
    using assms Some wd
    by (simp add: project_day_def window_covers_cases seg_covers_def smod7 Let_def)
qed

lemma project_day_bounds:
  assumes "g \<in> set (project_day s i r a b d)"
    and "0 \<le> a" "a < 1440" "0 \<le> b" "b < 1440"
  shows "0 \<le> seg_start g" "seg_start g \<le> seg_end g" "seg_end g \<le> 10080"
    and "seg_action g = rule_action r" "seg_sched_id g = sched_id s" "seg_rule_idx g = i"
proof -
  obtain wd where wd: "day_to_weekday (to_lower (trim_space d)) = Some wd"
    using assms(1) by (cases "day_to_weekday (to_lower (trim_space d))") (auto simp: project_day_def)
  then have r: "0 \<le> wd" "wd < 7" by (auto dest: day_to_weekday_range)
  have n: "(wd + 1) smod 7 = (if wd = 6 then 0 else wd + 1)"
    using r by (simp add: smod7)
  show "0 \<le> seg_start g" "seg_start g \<le> seg_end g" "seg_end g \<le> 10080"
    and "seg_action g = rule_action r" "seg_sched_id g = sched_id s" "seg_rule_idx g = i"
    using assms wd r by (auto simp: project_day_def Let_def n split: if_splits)
qed

lemma project_rule_Inr:
  "project_rule s i r = Inr segs \<longleftrightarrow>
     (\<exists>sh sm eh em. parse_hhmm (rule_start r) = Some (sh, sm) \<and> parse_hhmm (rule_end r) = Some (eh, em) \<and>
        segs = (if sh * 60 + sm = eh * 60 + em then []
          else concat (map (project_day s i r (sh * 60 + sm) (eh * 60 + em)) (rule_days r))))"
  by (auto simp: project_rule_def Let_def split: option.splits)

lemma project_rule_covers:
  assumes "project_rule s i r = Inr segs" "0 \<le> w" "w < 10080"
  shows "(\<exists>g \<in> set segs. seg_covers g w) \<longleftrightarrow> rule_covers r w"
proof -
  obtain sh sm eh em where p: "parse_hhmm (rule_start r) = Some (sh, sm)"
      "parse_hhmm (rule_end r) = Some (eh, em)"
    and segs: "segs = (if sh * 60 + sm = eh * 60 + em then []
          else concat (map (project_day s i r (sh * 60 + sm) (eh * 60 + em)) (rule_days r)))"
    using assms(1) by (auto simp: project_rule_Inr)
  note b = parse_hhmm_minutes [OF p(1)] parse_hhmm_minutes [OF p(2)]
  show ?thesis
  proof (cases "sh * 60 + sm = eh * 60 + em")
    case True
    then show ?thesis
      by (auto simp: segs rule_covers_def p window_covers_def split: option.splits)
  next
    case False
    have "(\<exists>g \<in> set segs. seg_covers g w) \<longleftrightarrow>
      (\<exists>d \<in> set (rule_days r). \<exists>g \<in> set (project_day s i r (sh * 60 + sm) (eh * 60 + em) d). seg_covers g w)"
      using False by (auto simp: segs)
    also have "\<dots> \<longleftrightarrow> rule_covers r w"
      using b False assms(2,3) by (simp add: project_day_covers rule_covers_def p)
    finally show ?thesis .
  qed
qed

lemma project_rule_bounds:
  assumes "project_rule s i r = Inr segs" "g \<in> set segs"
  shows "0 \<le> seg_start g" "seg_start g \<le> seg_end g" "seg_end g \<le> 10080"
    and "seg_action g = rule_action r" "seg_sched_id g = sched_id s" "seg_rule_idx g = i"
proof -
  obtain sh sm eh em d where p: "parse_hhmm (rule_start r) = Some (sh, sm)"
      "parse_hhmm (rule_end r) = Some (eh, em)"
    and g: "g \<in> set (project_day s i r (sh * 60 + sm) (eh * 60 + em) d)"
    using assms by (auto simp: project_rule_Inr split: if_splits)
  note b = parse_hhmm_minutes [OF p(1)] parse_hhmm_minutes [OF p(2)]
  show "0 \<le> seg_start g" "seg_start g \<le> seg_end g" "seg_end g \<le> 10080"
    and "seg_action g = rule_action r" "seg_sched_id g = sched_id s" "seg_rule_idx g = i"
    using project_day_bounds [OF g] b by auto
qed

lemma project_rules_set:
  "project_rules s i rs = Inr segs \<Longrightarrow>
   (\<forall>k < length rs. \<exists>gs. project_rule s (i + k) (rs ! k) = Inr gs \<and> set gs \<subseteq> set segs) \<and>
   (\<forall>g \<in> set segs. \<exists>k < length rs. \<exists>gs. project_rule s (i + k) (rs ! k) = Inr gs \<and> g \<in> set gs)"
proof (induction rs arbitrary: i segs)
  case Nil
  then show ?case by simp
next
  case (Cons r rs)
  obtain gs rest where gs: "project_rule s i r = Inr gs" "project_rules s (Suc i) rs = Inr rest"
      and segs: "segs = gs @ rest"
    using Cons.prems by (auto split: sum.splits)
  note IH = Cons.IH [OF gs(2)]
  have "\<exists>h. project_rule s (i + k) ((r # rs) ! k) = Inr h \<and> set h \<subseteq> set segs"
    if "k < length (r # rs)" for k
    using that IH gs(1) segs by (cases k) fastforce+
  moreover have "\<exists>k < length (r # rs). \<exists>h. project_rule s (i + k) ((r # rs) ! k) = Inr h \<and> g \<in> set h"
    if "g \<in> set segs" for g
  proof (cases "g \<in> set gs")
    case True
    with gs(1) show ?thesis by (intro exI [of _ 0]) auto
  next
    case False
    with that segs have "g \<in> set rest" by simp
    then obtain k h where "k < length rs" "project_rule s (Suc i + k) (rs ! k) = Inr h" "g \<in> set h"
      using IH by blast
    then show ?thesis by (intro exI [of _ "Suc k"]) auto
  qed
  ultimately show ?case by blast
qed

lemma project_rules_defined:
  "(\<exists>segs. project_rules s i rs = Inr segs) \<longleftrightarrow>
   (\<forall>r \<in> set rs. parse_hhmm (rule_start r) \<noteq> None \<and> parse_hhmm (rule_end r) \<noteq> None)"
proof (induction rs arbitrary: i)
  case (Cons r rs)
  have r: "(\<exists>gs. project_rule s i r = Inr gs) \<longleftrightarrow>
      parse_hhmm (rule_start r) \<noteq> None \<and> parse_hhmm (rule_end r) \<noteq> None"
    by (simp add: project_rule_def Let_def split: option.splits)
  have "(\<exists>segs. project_rules s i (r # rs) = Inr segs) \<longleftrightarrow>
     (\<exists>gs. project_rule s i r = Inr gs) \<and> (\<exists>segs. project_rules s (Suc i) rs = Inr segs)"
    by (auto split: sum.splits)
  then show ?case by (simp only: r Cons.IH list.set ball_simps)
qed simp

lemma project_all_defined:
  "(\<exists>segs. project_all ss = Inr segs) \<longleftrightarrow>
   (\<forall>s \<in> set ss. \<forall>r \<in> set (sched_rules s). parse_hhmm (rule_start r) \<noteq> None \<and> parse_hhmm (rule_end r) \<noteq> None)"
proof (induction ss)
  case (Cons s ss)
  have "(\<exists>segs. project_all (s # ss) = Inr segs) \<longleftrightarrow>
     (\<exists>gs. project_schedule s = Inr gs) \<and> (\<exists>segs. project_all ss = Inr segs)"
    by (auto split: sum.splits)
  then show ?case
    by (simp only: project_schedule_def project_rules_defined Cons.IH list.set ball_simps)
qed simp

lemma project_all_set:
  "project_all ss = Inr segs \<Longrightarrow>
   (\<forall>s \<in> set ss. \<exists>gs. project_schedule s = Inr gs \<and> set gs \<subseteq> set segs) \<and>
   (\<forall>g \<in> set segs. \<exists>s \<in> set ss. \<exists>gs. project_schedule s = Inr gs \<and> g \<in> set gs)"
proof (induction ss arbitrary: segs)
  case (Cons s ss)
  obtain gs rest where gs: "project_schedule s = Inr gs" "project_all ss = Inr rest"
      and segs: "segs = gs @ rest"
    using Cons.prems by (auto split: sum.splits)
  show ?case using Cons.IH [OF gs(2)] gs(1) by (fastforce simp: segs)
qed simp

text \<open>A segment of the bundle comes from one rule of one schedule, and every rule has its segments
  in the bundle.\<close>

lemma project_all_segment:
  assumes "project_all ss = Inr segs" "g \<in> set segs"
  obtains s k gs where "s \<in> set ss" "k < length (sched_rules s)"
    "project_rule s k (sched_rules s ! k) = Inr gs" "g \<in> set gs" "set gs \<subseteq> set segs"
proof -
  obtain s hs where s: "s \<in> set ss" "project_schedule s = Inr hs" "g \<in> set hs" "set hs \<subseteq> set segs"
    using project_all_set [OF assms(1)] assms(2) by (metis sum.inject(2))
  obtain k gs where "k < length (sched_rules s)" "project_rule s (0 + k) (sched_rules s ! k) = Inr gs"
      "g \<in> set gs" "set gs \<subseteq> set hs"
    using project_rules_set [of s 0 "sched_rules s" hs] s(2,3)
    unfolding project_schedule_def by (metis sum.inject(2))
  with s that show thesis by auto
qed

lemma project_all_rule:
  assumes "project_all ss = Inr segs" "s \<in> set ss" "k < length (sched_rules s)"
  obtains gs where "project_rule s k (sched_rules s ! k) = Inr gs" "set gs \<subseteq> set segs"
proof -
  obtain hs where hs: "project_rules s 0 (sched_rules s) = Inr hs" "set hs \<subseteq> set segs"
    using project_all_set [OF assms(1)] assms(2) unfolding project_schedule_def by blast
  obtain gs where "project_rule s (0 + k) (sched_rules s ! k) = Inr gs" "set gs \<subseteq> set hs"
    using project_rules_set [OF hs(1)] assms(3) by blast
  with hs that show thesis by auto
qed

subsection \<open>The search finds exactly the contradictions\<close>

definition scan_ok :: "string list \<times> conflict list \<Rightarrow> bool" where
  "scan_ok st \<longleftrightarrow> (fst st = [] \<longleftrightarrow> snd st = [])"

lemma check_pair_Nil:
  assumes "scan_ok st"
  shows "scan_ok (check_pair a b st)"
    and "snd (check_pair a b st) = [] \<longleftrightarrow> snd st = [] \<and> \<not> contradict a b"
  using assms by (cases st; auto simp: check_pair_def scan_ok_def Let_def)+

lemma contradict_start: "contradict a b \<Longrightarrow> seg_start b < seg_end a"
  by (simp add: contradict_def)

lemma contradict_sym: "contradict a b \<longleftrightarrow> contradict b a"
  by (auto simp: contradict_def max.commute min.commute)

lemma contradict_irrefl: "\<not> contradict a a"
  by (simp add: contradict_def)

lemma scan_from_Nil:
  assumes "scan_ok st" "sorted (map seg_start bs)"
  shows "scan_ok (scan_from a bs st) \<and>
    (snd (scan_from a bs st) = [] \<longleftrightarrow> snd st = [] \<and> (\<forall>b \<in> set bs. \<not> contradict a b))"
  using assms
proof (induction a bs st rule: scan_from.induct)
  case (2 a b bs st)
  show ?case
  proof (cases "seg_end a \<le> seg_start b")
    case True
    then have "\<forall>x \<in> set (b # bs). seg_end a \<le> seg_start x"
      using "2.prems"(2) by auto
    then have "\<forall>x \<in> set (b # bs). \<not> contradict a x"
      using contradict_start by fastforce
    with True "2.prems"(1) show ?thesis by simp
  next
    case False
    with 2 show ?thesis by (auto simp: check_pair_Nil)
  qed
qed simp

lemma scan_all_Nil:
  assumes "scan_ok st" "sorted (map seg_start segs)"
  shows "snd (scan_all segs st) = [] \<longleftrightarrow> snd st = [] \<and> sorted_wrt (\<lambda>a b. \<not> contradict a b) segs"
  using assms
proof (induction segs st rule: scan_all.induct)
  case (2 a as st)
  then have "sorted (map seg_start as)" by simp
  with 2 show ?case by (auto simp: scan_from_Nil)
qed simp

lemma sorted_wrt_pairs:
  assumes "\<And>a b. R a b = R b a" "\<And>a. R a a"
  shows "sorted_wrt R xs \<longleftrightarrow> (\<forall>a \<in> set xs. \<forall>b \<in> set xs. R a b)"
  using assms by (induction xs) auto

lemma find_conflicts_Nil_iff:
  assumes "sorted (map seg_start segs)"
  shows "find_conflicts segs = [] \<longleftrightarrow> (\<forall>a \<in> set segs. \<forall>b \<in> set segs. \<not> contradict a b)"
proof -
  have "find_conflicts segs = [] \<longleftrightarrow> sorted_wrt (\<lambda>a b. \<not> contradict a b) segs"
    using assms by (simp add: find_conflicts_def scan_all_Nil scan_ok_def)
  also have "\<dots> \<longleftrightarrow> (\<forall>a \<in> set segs. \<forall>b \<in> set segs. \<not> contradict a b)"
    by (rule sorted_wrt_pairs) (simp_all add: contradict_irrefl, metis contradict_sym)
  finally show ?thesis .
qed

text \<open>Every conflict reported names two segments that contradict each other.\<close>

definition conflict_of :: "segment list \<Rightarrow> conflict \<Rightarrow> bool" where
  "conflict_of segs c \<longleftrightarrow>
     (\<exists>a \<in> set segs. \<exists>b \<in> set segs. contradict a b \<and>
        con_a_id c = seg_sched_id a \<and> con_b_id c = seg_sched_id b \<and>
        con_action_a c = seg_action a \<and> con_action_b c = seg_action b)"

lemma check_pair_sound:
  "\<forall>c \<in> set (snd st). conflict_of segs c \<Longrightarrow> a \<in> set segs \<Longrightarrow> b \<in> set segs \<Longrightarrow>
   \<forall>c \<in> set (snd (check_pair a b st)). conflict_of segs c"
  by (cases st) (auto simp: check_pair_def conflict_of_def Let_def)

lemma scan_from_sound:
  assumes "\<forall>c \<in> set (snd st). conflict_of segs c" "a \<in> set segs" "set bs \<subseteq> set segs"
  shows "\<forall>c \<in> set (snd (scan_from a bs st)). conflict_of segs c"
  using assms
proof (induction a bs st rule: scan_from.induct)
  case (1 a st)
  then show ?case by simp
next
  case (2 a b bs st)
  have "\<forall>c \<in> set (snd (check_pair a b st)). conflict_of segs c"
    by (rule check_pair_sound) (use "2.prems" in simp_all)
  then have "\<forall>c \<in> set (snd (scan_from a bs (check_pair a b st))). conflict_of segs c"
    if "\<not> seg_end a \<le> seg_start b"
    using "2.IH" [OF that] "2.prems" by simp
  with "2.prems"(1) show ?case by (simp split del: if_split split: if_split)
qed

lemma scan_all_sound:
  assumes "\<forall>c \<in> set (snd st). conflict_of segs c" "set as \<subseteq> set segs"
  shows "\<forall>c \<in> set (snd (scan_all as st)). conflict_of segs c"
  using assms
proof (induction as st rule: scan_all.induct)
  case (1 st)
  then show ?case by simp
next
  case (2 a as st)
  have "\<forall>c \<in> set (snd (scan_from a as st)). conflict_of segs c"
    by (rule scan_from_sound) (use "2.prems" in simp_all)
  with "2.IH" "2.prems" show ?case by simp
qed

lemma find_conflicts_sound: "c \<in> set (find_conflicts segs) \<Longrightarrow> conflict_of segs c"
  using scan_all_sound [of "([], [])" segs segs] by (auto simp: find_conflicts_def)

subsection \<open>Sorting\<close>

lemma set_seg_insert [simp]: "set (seg_insert x xs) = insert x (set xs)"
  by (induction xs) auto

lemma set_seg_sort [simp]: "set (seg_sort xs) = set xs"
  by (induction xs) (auto simp: seg_sort_def)

lemma sorted_seg_insert: "sorted (map seg_start xs) \<Longrightarrow> sorted (map seg_start (seg_insert x xs))"
  by (induction xs) (auto simp: seg_less_def split: if_splits)

lemma sorted_seg_sort: "sorted (map seg_start (seg_sort xs))"
  by (induction xs) (auto simp: seg_sort_def sorted_seg_insert)

lemma conflicts_sorted_Nil_iff:
  "find_conflicts (seg_sort segs) = [] \<longleftrightarrow> (\<forall>a \<in> set segs. \<forall>b \<in> set segs. \<not> contradict a b)"
  by (simp add: find_conflicts_Nil_iff sorted_seg_sort)

subsection \<open>What the merge accepts\<close>

definition times_parse :: "schedule_rule \<Rightarrow> bool" where
  "times_parse r \<longleftrightarrow> parse_hhmm (rule_start r) \<noteq> None \<and> parse_hhmm (rule_end r) \<noteq> None"

text \<open>The abstract contract: no minute of the week is claimed by two rules of different action.\<close>

definition agree_at :: "schedule_rule list \<Rightarrow> int \<Rightarrow> bool" where
  "agree_at rs w \<longleftrightarrow> (\<forall>r \<in> set rs. \<forall>r' \<in> set rs.
     rule_covers r w \<longrightarrow> rule_covers r' w \<longrightarrow> rule_action r = rule_action r')"

definition bundle_consistent :: "schedule list \<Rightarrow> bool" where
  "bundle_consistent ss \<longleftrightarrow>
     (\<forall>s \<in> set ss. sched_timezone s = sched_timezone (hd ss)) \<and>
     (\<forall>s \<in> set ss. \<forall>r \<in> set (sched_rules s). times_parse r) \<and>
     (\<forall>w \<in> {0..<10080}. agree_at (concat (map sched_rules ss)) w)"

text \<open>Ids name schedules: the bundle has no two different schedules of one id.\<close>

definition ids_unique :: "schedule list \<Rightarrow> bool" where
  "ids_unique ss \<longleftrightarrow> (\<forall>s \<in> set ss. \<forall>s' \<in> set ss. sched_id s = sched_id s' \<longrightarrow> s = s')"

lemma bundle_rule_iff:
  "r \<in> set (concat (map sched_rules ss)) \<longleftrightarrow>
   (\<exists>s k. s \<in> set ss \<and> k < length (sched_rules s) \<and> r = sched_rules s ! k)"
  by (simp add: in_set_conv_nth [of r "sched_rules _"]) blast

lemma contradict_agree:
  assumes "project_all ss = Inr segs" "g \<in> set segs" "h \<in> set segs" "contradict g h"
  shows "\<exists>w \<in> {0..<10080}. \<not> agree_at (concat (map sched_rules ss)) w"
proof -
  let ?w = "max (seg_start g) (seg_start h)"
  obtain s k gs where g: "s \<in> set ss" "k < length (sched_rules s)"
      "project_rule s k (sched_rules s ! k) = Inr gs" "g \<in> set gs"
    by (rule project_all_segment [OF assms(1,2)])
  obtain s' k' hs where h: "s' \<in> set ss" "k' < length (sched_rules s')"
      "project_rule s' k' (sched_rules s' ! k') = Inr hs" "h \<in> set hs"
    by (rule project_all_segment [OF assms(1,3)])
  note bg = project_rule_bounds [OF g(3,4)] and bh = project_rule_bounds [OF h(3,4)]
  have w: "0 \<le> ?w" "?w < 10080" "seg_covers g ?w" "seg_covers h ?w"
    using assms(4) bg(1-3) bh(1-3) by (auto simp: contradict_def seg_covers_def)
  have "rule_covers (sched_rules s ! k) ?w"
    using project_rule_covers [OF g(3) w(1,2)] g(4) w(3) by blast
  moreover have "rule_covers (sched_rules s' ! k') ?w"
    using project_rule_covers [OF h(3) w(1,2)] h(4) w(4) by blast
  moreover have "rule_action (sched_rules s ! k) \<noteq> rule_action (sched_rules s' ! k')"
    using assms(4) bg(4) bh(4) by (simp add: contradict_def)
  moreover have "sched_rules s ! k \<in> set (concat (map sched_rules ss))"
      "sched_rules s' ! k' \<in> set (concat (map sched_rules ss))"
    unfolding bundle_rule_iff using g(1,2) h(1,2) by blast+
  ultimately have "\<not> agree_at (concat (map sched_rules ss)) ?w"
    unfolding agree_at_def by blast
  with w(1,2) show ?thesis by force
qed

lemma agree_contradict:
  assumes "project_all ss = Inr segs" "ids_unique ss" "w \<in> {0..<10080}"
    and "\<not> agree_at (concat (map sched_rules ss)) w"
  shows "\<exists>g \<in> set segs. \<exists>h \<in> set segs. contradict g h"
proof -
  obtain s s' k k' where s: "s \<in> set ss" "k < length (sched_rules s)"
      "rule_covers (sched_rules s ! k) w"
    and s': "s' \<in> set ss" "k' < length (sched_rules s')" "rule_covers (sched_rules s' ! k') w"
    and ne: "rule_action (sched_rules s ! k) \<noteq> rule_action (sched_rules s' ! k')"
    using assms(4) unfolding agree_at_def Ball_def bundle_rule_iff by metis
  obtain gs where gs: "project_rule s k (sched_rules s ! k) = Inr gs" "set gs \<subseteq> set segs"
    by (rule project_all_rule [OF assms(1) s(1,2)])
  obtain hs where hs: "project_rule s' k' (sched_rules s' ! k') = Inr hs" "set hs \<subseteq> set segs"
    by (rule project_all_rule [OF assms(1) s'(1,2)])
  have w: "0 \<le> w" "w < 10080" using assms(3) by auto
  obtain g where g: "g \<in> set gs" "seg_covers g w"
    using project_rule_covers [OF gs(1) w] s(3) by blast
  obtain h where h: "h \<in> set hs" "seg_covers h w"
    using project_rule_covers [OF hs(1) w] s'(3) by blast
  have "sched_id s \<noteq> sched_id s' \<or> k \<noteq> k'"
    using assms(2) s(1) s'(1) ne unfolding ids_unique_def by auto
  then have "contradict g h"
    using g(2) h(2) ne project_rule_bounds(4-6) [OF gs(1) g(1)] project_rule_bounds(4-6) [OF hs(1) h(1)]
    by (auto simp: contradict_def seg_covers_def)
  with g(1) h(1) gs(2) hs(2) show ?thesis by blast
qed

lemma mixed_find:
  "List.find (\<lambda>s. sched_timezone s \<noteq> z) ss = None \<longleftrightarrow> (\<forall>s \<in> set ss. sched_timezone s = z)"
  by (auto simp: find_None_iff)

lemma merge_error_None:
  assumes "ss \<noteq> []"
  shows "snd (snd (merge_schedules ss)) = None \<longleftrightarrow>
    (\<forall>s \<in> set ss. sched_timezone s = sched_timezone (hd ss)) \<and>
    (\<exists>segs. project_all ss = Inr segs \<and> (\<forall>g \<in> set segs. \<forall>h \<in> set segs. \<not> contradict g h))"
proof -
  obtain s0 ss' where ss: "ss = s0 # ss'" using assms by (cases ss) auto
  show ?thesis
  proof (cases "List.find (\<lambda>s. sched_timezone s \<noteq> sched_timezone s0) ss")
    case None
    with mixed_find [of "sched_timezone s0" ss] have z: "\<forall>s \<in> set ss. sched_timezone s = sched_timezone (hd ss)"
      by (simp add: ss)
    show ?thesis
    proof (cases "project_all ss")
      case (Inl e)
      then have "snd (snd (merge_schedules ss)) \<noteq> None"
        using None unfolding merge_schedules_def by (simp add: ss)
      with Inl show ?thesis by simp
    next
      case (Inr segs)
      then have "snd (snd (merge_schedules ss)) = None \<longleftrightarrow> find_conflicts (seg_sort segs) = []"
        using None unfolding merge_schedules_def by (simp add: ss Let_def)
      with Inr z show ?thesis by (simp add: conflicts_sorted_Nil_iff)
    qed
  next
    case (Some s)
    then have "snd (snd (merge_schedules ss)) \<noteq> None"
      unfolding merge_schedules_def by (simp add: ss)
    moreover have "\<not> (\<forall>s \<in> set ss. sched_timezone s = sched_timezone (hd ss))"
      using Some mixed_find [of "sched_timezone s0" ss] by (simp add: ss)
    ultimately show ?thesis by blast
  qed
qed

lemma merge_ok_consistent:
  assumes "ss \<noteq> []" "snd (snd (merge_schedules ss)) = None"
  shows "(\<forall>s \<in> set ss. sched_timezone s = sched_timezone (hd ss)) \<and>
    (\<forall>s \<in> set ss. \<forall>r \<in> set (sched_rules s). times_parse r)"
  using assms(2) project_all_defined [of ss] unfolding merge_error_None [OF assms(1)] times_parse_def
  by blast

lemma merge_result:
  assumes "ss \<noteq> []" "merge_schedules ss = (m, cs, None)"
  shows "m = compose_schedules ss" "cs = []"
  using assms by (auto simp: merge_schedules_def Let_def split: list.splits option.splits sum.splits if_splits)

lemma merge_error_consistent:
  assumes "ss \<noteq> []" "ids_unique ss"
  shows "snd (snd (merge_schedules ss)) = None \<longleftrightarrow> bundle_consistent ss"
proof
  assume ok: "snd (snd (merge_schedules ss)) = None"
  then obtain segs where segs: "project_all ss = Inr segs"
      "\<forall>g \<in> set segs. \<forall>h \<in> set segs. \<not> contradict g h"
    unfolding merge_error_None [OF assms(1)] by blast
  then have "\<forall>w \<in> {0..<10080}. agree_at (concat (map sched_rules ss)) w"
    using agree_contradict [OF segs(1) assms(2)] by blast
  with merge_ok_consistent [OF assms(1) ok] show "bundle_consistent ss"
    by (simp add: bundle_consistent_def)
next
  assume c: "bundle_consistent ss"
  then obtain segs where segs: "project_all ss = Inr segs"
    using project_all_defined [of ss] unfolding bundle_consistent_def times_parse_def by blast
  then have "\<forall>g \<in> set segs. \<forall>h \<in> set segs. \<not> contradict g h"
    using contradict_agree [OF segs] c unfolding bundle_consistent_def by blast
  with segs c show "snd (snd (merge_schedules ss)) = None"
    unfolding merge_error_None [OF assms(1)] bundle_consistent_def by blast
qed

text \<open>C12: \<open>MergeSchedules\<close> reports no error exactly for the consistent bundles: one time zone,
  every time of day well-formed, and at no minute of the week two rules of different action.\<close>

theorem merge_accepts_iff:
  assumes "ss \<noteq> []" "ids_unique ss"
  shows "snd (snd (merge_schedules ss)) = None \<longleftrightarrow> bundle_consistent ss"
  using assms by (rule merge_error_consistent)

text \<open>Two schedules of one bundle for the witnesses: school nights and a whole-day rule of another
  day.\<close>

definition school_nights :: schedule where
  "school_nights = \<lparr>sched_id = ''school'', sched_name = ''School nights'',
     sched_mode = ScheduleModeDowntime, sched_timezone = ''UTC'',
     sched_rules = [\<lparr>rule_days = [''mon'', ''Tue''], rule_start = ''21:00'', rule_end = ''06:30'',
       rule_action = ActionBlock, rule_start_date = [], rule_end_date = []\<rparr>]\<rparr>"

definition homework :: schedule where
  "homework = \<lparr>sched_id = ''homework'', sched_name = ''Homework'',
     sched_mode = ScheduleModeDowntime, sched_timezone = ''UTC'',
     sched_rules = [\<lparr>rule_days = [''mon''], rule_start = ''17:00'', rule_end = ''18:00'',
       rule_action = ActionBlock, rule_start_date = [], rule_end_date = []\<rparr>]\<rparr>"

lemma merge_accepts_iff_witness:
  "snd (snd (merge_schedules [school_nights, homework])) = None \<longleftrightarrow>
     bundle_consistent [school_nights, homework]"
  by (rule merge_accepts_iff) (simp_all add: ids_unique_def school_nights_def homework_def)

text \<open>The projection of a rule is faithful: a minute of the week lies in one of the segments of
  \<open>projectRule\<close> exactly when the rule's window, counted around the week, contains it.\<close>

theorem project_rule_exact:
  assumes "project_rule s i r = Inr segs" "0 \<le> w" "w < 10080"
  shows "(\<exists>g \<in> set segs. seg_covers g w) \<longleftrightarrow> rule_covers r w"
  using assms by (rule project_rule_covers)

text \<open>Saturday night: the window wraps to Sunday morning.\<close>

definition saturday_night :: schedule_rule where
  "saturday_night = \<lparr>rule_days = ['' Saturday''], rule_start = ''23:00'', rule_end = ''01:15'',
     rule_action = ActionBlock, rule_start_date = [], rule_end_date = []\<rparr>"

lemma project_rule_exact_witness:
  "\<exists>segs. project_rule school_nights 0 saturday_night = Inr segs \<and>
     ((\<exists>g \<in> set segs. seg_covers g 74) \<longleftrightarrow> rule_covers saturday_night 74)"
proof -
  have "parse_hhmm (rule_start saturday_night) = Some (23, 0)"
      "parse_hhmm (rule_end saturday_night) = Some (1, 15)" by code_simp+
  then obtain segs where "project_rule school_nights 0 saturday_night = Inr segs"
    by (auto simp: project_rule_def Let_def)
  then show ?thesis
    using project_rule_exact [of school_nights 0 saturday_night segs 74] by simp
qed

lemma project_rules_error: "project_rules s i rs \<noteq> Inl (ConflictDetected n)"
  by (induction rs arbitrary: i)
    (auto simp: project_rule_def Let_def split: sum.splits option.splits if_splits)

lemma project_all_error: "project_all ss \<noteq> Inl (ConflictDetected n)"
  by (induction ss) (auto simp: project_schedule_def project_rules_error split: sum.splits)

text \<open>A failed merge of well-formed schedules names a real contradiction: each conflict in the
  report is between two segments of the bundle that overlap, differ in action and belong to
  different rules, and the number in the error is the number of conflicts reported.\<close>

theorem merge_conflicts_real:
  assumes "merge_schedules ss = (m, cs, Some (ConflictDetected n))"
  shows "n = length cs \<and> 0 < n \<and>
    (\<exists>segs. project_all ss = Inr segs \<and> (\<forall>c \<in> set cs. conflict_of segs c))"
proof -
  have ne: "ss \<noteq> []" using assms by (auto simp: merge_schedules_def)
  obtain segs where segs: "project_all ss = Inr segs" "cs = find_conflicts (seg_sort segs)"
      "0 < length cs" "n = length cs"
    using assms ne project_all_error [of ss n] unfolding merge_schedules_def Let_def
    by (cases "project_all ss") (auto split: list.splits option.splits if_splits)
  have "\<forall>c \<in> set cs. conflict_of segs c"
    using find_conflicts_sound [of _ "seg_sort segs"] by (auto simp: segs(2) conflict_of_def)
  with segs show ?thesis by auto
qed

definition allow_nights :: schedule where
  "allow_nights = school_nights\<lparr>sched_id := ''allow'',
     sched_rules := [\<lparr>rule_days = [''tue''], rule_start = ''05:00'', rule_end = ''09:00'',
       rule_action = ActionAllow, rule_start_date = [], rule_end_date = []\<rparr>]\<rparr>"

lemma allow_nights_conflict:
  "snd (snd (merge_schedules [school_nights, allow_nights])) = Some (ConflictDetected 1)"
  by code_simp

lemma merge_conflicts_real_witness:
  "\<exists>m cs segs. merge_schedules [school_nights, allow_nights] = (m, cs, Some (ConflictDetected 1)) \<and>
     length cs = 1 \<and> project_all [school_nights, allow_nights] = Inr segs \<and>
     (\<forall>c \<in> set cs. conflict_of segs c)"
proof -
  obtain m cs where m: "merge_schedules [school_nights, allow_nights] = (m, cs, Some (ConflictDetected 1))"
    using allow_nights_conflict by (metis prod.collapse)
  from merge_conflicts_real [OF m] m show ?thesis by auto
qed

end
