(* ===== verification/Schedule_Eval.thy ===== *)
theory Schedule_Eval
  imports Schedule_Conflict
begin

text \<open>
  \<open>apps/lias/internal/schedule/parser.go\<close>: \<open>Evaluate\<close>, the action of a schedule at an instant, and
  \<open>NextStateChange\<close>, the next instant at which that action may change. The definitions follow the
  code in any time zone; the reference semantics below (minutes of the week) and the theorems
  about it are for zones of constant offset, where no civil time is skipped or repeated.
\<close>

subsection \<open>The code\<close>

definition day_map :: "string \<Rightarrow> int option" where
  "day_map = map_of [(''sun'', 0), (''mon'', 1), (''tue'', 2), (''wed'', 3), (''thu'', 4),
     (''fri'', 5), (''sat'', 6)]"

definition eval_location :: "tzdb \<Rightarrow> schedule \<Rightarrow> location" where
  "eval_location tzdb s =
     (case load_location tzdb (sched_timezone s) of Some loc \<Rightarrow> loc | None \<Rightarrow> utc)"

text \<open>The window of a rule with calendar dates: its duration when \<open>now\<close> is inside. Parse errors of
  the times are ignored by the code, which leaves the zero time's 00:00.\<close>

definition hhmm_or_zero :: "string \<Rightarrow> int \<times> int" where
  "hhmm_or_zero s = (case parse_hhmm s of Some hm \<Rightarrow> hm | None \<Rightarrow> (0, 0))"

definition date_window :: "location \<Rightarrow> time \<Rightarrow> schedule_rule \<Rightarrow> duration option" where
  "date_window loc now r =
     (case (parse_date (rule_start_date r), parse_date (rule_end_date r)) of
        (Some sd, Some ed) \<Rightarrow>
          let start_dt = time_date loc sd 0 0;
              end_dt = add_days loc (time_date loc ed 0 0) 1
          in if now < start_dt \<or> end_dt < now then None
             else
               let (sh, sm) = hhmm_or_zero (rule_start r);
                   (eh, em) = hhmm_or_zero (rule_end r);
                   start = time_date loc (local_day loc now) sh sm;
                   end' = time_date loc (local_day loc now) eh em
               in if start = end' then None
                  else if start < end' then
                    (if start \<le> now \<and> now < end' then Some (time_sub end' start) else None)
                  else
                    (if start \<le> now \<and> now < add_days loc end' 1
                     then Some (time_sub (end' + 24 * hour) start) else None)
      | _ \<Rightarrow> None)"

definition matches_day :: "schedule_rule \<Rightarrow> int \<Rightarrow> bool" where
  "matches_day r wd \<longleftrightarrow> (\<exists>d \<in> set (rule_days r). day_map (to_lower (trim_space d)) = Some wd)"

definition weekly_window :: "location \<Rightarrow> time \<Rightarrow> schedule_rule \<Rightarrow> duration option" where
  "weekly_window loc now r =
     (let cur = matches_day r (local_weekday loc now);
          prev = matches_day r ((local_weekday loc now + 6) mod 7)
      in if \<not> cur \<and> \<not> prev then None
         else
           (case parse_hhmm (rule_start r) of
              None \<Rightarrow> None
            | Some (sh, sm) \<Rightarrow>
                (case parse_hhmm (rule_end r) of
                   None \<Rightarrow> None
                 | Some (eh, em) \<Rightarrow>
                     let start = time_date loc (local_day loc now) sh sm;
                         end' = time_date loc (local_day loc now) eh em
                     in if rule_start r \<noteq> rule_end r \<and> start = end' then None
                        else if start < end' then
                          (if cur \<and> start \<le> now \<and> now < end' then Some (time_sub end' start) else None)
                        else
                          (if prev \<and> add_days loc start (- 1) \<le> now \<and> now < end' \<or>
                              cur \<and> start \<le> now \<and> now < add_days loc end' 1
                           then Some (time_sub (end' + 24 * hour) start) else None))))"

definition has_dates :: "schedule_rule \<Rightarrow> bool" where
  "has_dates r \<longleftrightarrow> rule_start_date r \<noteq> [] \<and> rule_end_date r \<noteq> []"

definition rule_window :: "location \<Rightarrow> time \<Rightarrow> schedule_rule \<Rightarrow> duration option" where
  "rule_window loc now r = (if has_dates r then date_window loc now r else weekly_window loc now r)"

text \<open>The loop keeps the shortest window so far, \<open>- 1\<close> while there is none.\<close>

definition consider_rule ::
  "location \<Rightarrow> time \<Rightarrow> duration \<times> schedule_rule option \<Rightarrow> schedule_rule \<Rightarrow> duration \<times> schedule_rule option" where
  "consider_rule loc now = (\<lambda>(best, match) r.
     (case rule_window loc now r of
        None \<Rightarrow> (best, match)
      | Some d \<Rightarrow> if best = - 1 \<or> d < best then (d, Some r) else (best, match)))"

definition best_match :: "location \<Rightarrow> time \<Rightarrow> schedule_rule list \<Rightarrow> duration \<times> schedule_rule option" where
  "best_match loc now rs = foldl (consider_rule loc now) (- 1, None) rs"

definition default_action :: "schedule \<Rightarrow> action" where
  "default_action s = (if sched_mode s = ScheduleModeWhitelist then ActionBlock else ActionAllow)"

text \<open>\<open>Evaluate\<close> never returns an error.\<close>

definition evaluate :: "tzdb \<Rightarrow> schedule \<Rightarrow> time \<Rightarrow> string + action" where
  "evaluate tzdb s now =
     Inr (case snd (best_match (eval_location tzdb s) now (sched_rules s)) of
            Some r \<Rightarrow> rule_action r
          | None \<Rightarrow> default_action s)"

definition date_excluded :: "location \<Rightarrow> time \<Rightarrow> schedule_rule \<Rightarrow> bool" where
  "date_excluded loc base r \<longleftrightarrow> has_dates r \<and>
     (case (parse_date (rule_start_date r), parse_date (rule_end_date r)) of
        (Some sd, Some ed) \<Rightarrow>
          base < time_date loc sd 0 0 \<or> add_days loc (time_date loc ed 0 0) 1 < base
      | _ \<Rightarrow> False)"

definition boundary :: "location \<Rightarrow> time \<Rightarrow> time \<Rightarrow> string \<Rightarrow> time list" where
  "boundary loc now base hhmm =
     (case parse_hhmm hhmm of
        None \<Rightarrow> []
      | Some (h, m) \<Rightarrow>
          let t = time_date loc (local_day loc base) h m in if now < t then [t] else [])"

definition rule_boundaries :: "location \<Rightarrow> time \<Rightarrow> time \<Rightarrow> schedule_rule \<Rightarrow> time list" where
  "rule_boundaries loc now base r =
     (if date_excluded loc base r then []
      else boundary loc now base (rule_start r) @ boundary loc now base (rule_end r))"

definition transition_points :: "location \<Rightarrow> time \<Rightarrow> schedule_rule list \<Rightarrow> time list" where
  "transition_points loc now rs =
     concat (map (\<lambda>i. concat (map (rule_boundaries loc now
        (time_date loc (local_day loc now + int i) 0 0)) rs)) [0..<8])"

definition next_state_change :: "tzdb \<Rightarrow> schedule \<Rightarrow> time \<Rightarrow> string + time" where
  "next_state_change tzdb s now =
     (let pts = transition_points (eval_location tzdb s) now (sched_rules s)
      in Inr (if pts = [] then now + 24 * hour else hd (sort pts)))"

subsection \<open>The reference: minutes of the week\<close>

definition sane :: "int \<Rightarrow> time \<Rightarrow> bool" where
  "sane off t \<longleftrightarrow> \<bar>off\<bar> \<le> 86400 \<and> \<bar>t div second\<bar> \<le> 2 ^ 62"

definition week_minute :: "int \<Rightarrow> time \<Rightarrow> int" where
  "week_minute off t = local_weekday (fixed_zone off) t * 1440 + local_sec (fixed_zone off) t mod 86400 div 60"

definition rule_minutes :: "schedule_rule \<Rightarrow> (int \<times> int) option" where
  "rule_minutes r =
     (case (parse_hhmm (rule_start r), parse_hhmm (rule_end r)) of
        (Some (sh, sm), Some (eh, em)) \<Rightarrow> Some (sh * 60 + sm, eh * 60 + em) | _ \<Rightarrow> None)"

text \<open>The length of a rule's window in minutes: a whole day when both times are the same text.\<close>

definition window_minutes :: "schedule_rule \<Rightarrow> int \<Rightarrow> int \<Rightarrow> int" where
  "window_minutes r a b = (if rule_start r = rule_end r then 1440 else (b - a) mod 1440)"

definition rule_active :: "schedule_rule \<Rightarrow> int \<Rightarrow> bool" where
  "rule_active r w \<longleftrightarrow>
     (case rule_minutes r of
        None \<Rightarrow> False
      | Some (a, b) \<Rightarrow>
          \<exists>wd \<in> {0..<7}. matches_day r wd \<and> (w - (wd * 1440 + a)) mod 10080 < window_minutes r a b)"

definition rule_length :: "schedule_rule \<Rightarrow> int" where
  "rule_length r = (case rule_minutes r of None \<Rightarrow> 0 | Some (a, b) \<Rightarrow> window_minutes r a b)"

subsection \<open>Civil time at a constant offset\<close>

lemma pos_mult_le_iff:
  fixes x t c :: int
  assumes "0 < c"
  shows "x * c \<le> t \<longleftrightarrow> x \<le> t div c"
proof
  assume "x * c \<le> t"
  then have "x * c div c \<le> t div c" using assms by (intro zdiv_mono1)
  then show "x \<le> t div c" using assms by simp
next
  assume "x \<le> t div c"
  then have "x * c \<le> t div c * c" using assms by (simp add: mult_right_mono)
  also have "\<dots> \<le> t" using assms by (simp add: minus_mod_eq_div_mult [symmetric])
  finally show "x * c \<le> t" .
qed

lemma seconds_le: "x * second \<le> (t::time) \<longleftrightarrow> x \<le> t div second"
  by (simp add: pos_mult_le_iff)

lemma seconds_less: "(t::time) < x * second \<longleftrightarrow> t div second < x"
  using seconds_le [of x t] by auto

lemma seconds_div [simp]: "x * second div second = x" "x * second mod second = 0"
  by (simp_all add: second_def)

lemma local_day_bounds:
  fixes off :: int and t :: time
  shows "local_day (fixed_zone off) t * 86400 \<le> t div second + off"
    and "t div second + off < local_day (fixed_zone off) t * 86400 + 86400"
proof -
  let ?s = "t div second + off"
  have "?s = ?s div 86400 * 86400 + ?s mod 86400" by simp
  moreover have "0 \<le> ?s mod 86400" "?s mod 86400 < 86400" by simp_all
  ultimately show "local_day (fixed_zone off) t * 86400 \<le> ?s"
    and "?s < local_day (fixed_zone off) t * 86400 + 86400"
    unfolding local_day_def local_sec_fixed by - linarith+
qed

lemma sane_bounds:
  assumes "sane off t"
  shows "- 86400 \<le> off" "off \<le> 86400"
    and "- (2 ^ 62) - 172800 \<le> local_day (fixed_zone off) t * 86400"
    and "local_day (fixed_zone off) t * 86400 \<le> 2 ^ 62 + 86400"
proof -
  have s: "- 86400 \<le> off" "off \<le> 86400" "- (2 ^ 62) \<le> t div second" "t div second \<le> 2 ^ 62"
    using assms by (auto simp: sane_def abs_le_iff)
  show "- 86400 \<le> off" "off \<le> 86400" by (fact s)+
  show "- (2 ^ 62) - 172800 \<le> local_day (fixed_zone off) t * 86400"
    and "local_day (fixed_zone off) t * 86400 \<le> 2 ^ 62 + 86400"
    using s local_day_bounds [where off = off and t = t] by - linarith+
qed

lemma pow62: "(2::int) ^ 62 = 4611686018427387904" "(2::int) ^ 63 = 9223372036854775808"
  by simp_all

lemma fixed_date:
  assumes "sane off t" "- 9 \<le> i" "i \<le> 9" "0 \<le> h" "h < 24" "0 \<le> m" "m < 60"
  shows "time_date (fixed_zone off) (local_day (fixed_zone off) t + i) h m =
    ((local_day (fixed_zone off) t + i) * 86400 + (h * 60 + m) * 60 - off) * second"
proof -
  let ?D = "local_day (fixed_zone off) t"
  let ?x = "(?D + i) * 86400 + h * 3600 + m * 60"
  note b = sane_bounds [OF assms(1)]
  have "alpha \<le> ?x - off" "?x - off < omega"
    unfolding alpha_def omega_def distrib_right pow62 using b [unfolded pow62] assms(2-)
    by - linarith+
  then have "time_date_sec (fixed_zone off) ?x = ?x - off"
    by (rule fixed_zone_date_sec)
  then have "time_date (fixed_zone off) (?D + i) h m = (?x - off) * second"
    by (simp only: time_date_def)
  moreover have "?x - off = (?D + i) * 86400 + (h * 60 + m) * 60 - off" by simp
  ultimately show ?thesis by (simp only:)
qed

lemma fixed_add_days:
  assumes "alpha \<le> x + n * 86400" "x + n * 86400 < omega"
  shows "add_days (fixed_zone off) (x * second) n = (x + n * 86400) * second"
proof -
  have "time_date_sec (fixed_zone off) (x + off + n * 86400) = x + n * 86400"
    using fixed_zone_date_sec [of "x + off + n * 86400" off] assms by (simp add: algebra_simps)
  then show ?thesis by (simp add: add_days_def local_sec_fixed)
qed

lemma fixed_date_shift:
  assumes "sane off t" "0 \<le> h" "h < 24" "0 \<le> m" "m < 60" "- 1 \<le> n" "n \<le> 1"
  shows "add_days (fixed_zone off) (time_date (fixed_zone off) (local_day (fixed_zone off) t) h m) n =
    ((local_day (fixed_zone off) t + n) * 86400 + (h * 60 + m) * 60 - off) * second"
proof -
  let ?D = "local_day (fixed_zone off) t"
  let ?x = "?D * 86400 + (h * 60 + m) * 60 - off"
  note b = sane_bounds [OF assms(1)]
  have d: "time_date (fixed_zone off) ?D h m = ?x * second"
    using fixed_date [OF assms(1), of 0 h m] assms by simp
  have "alpha \<le> ?x + n * 86400" "?x + n * 86400 < omega"
    unfolding alpha_def omega_def distrib_right pow62 using b [unfolded pow62] assms(2-)
    by - linarith+
  then have "add_days (fixed_zone off) (?x * second) n = (?x + n * 86400) * second"
    by (rule fixed_add_days)
  then show ?thesis unfolding d by (simp add: algebra_simps)
qed

lemma day_sec_bounds:
  fixes D S x :: int
  assumes "D * 86400 \<le> S" "S < D * 86400 + 86400"
  shows "D * 86400 + x * 60 \<le> S \<longleftrightarrow> x \<le> S mod 86400 div 60"
    and "S < D * 86400 + x * 60 \<longleftrightarrow> S mod 86400 div 60 < x"
proof -
  have "S mod 86400 = (S - D * 86400) mod 86400"
    by (simp add: mod_diff_eq [symmetric])
  also have "\<dots> = S - D * 86400"
    using assms by (intro mod_pos_pos_trivial) auto
  finally have m: "S mod 86400 = S - D * 86400" .
  have "x * 60 \<le> S - D * 86400 \<longleftrightarrow> x \<le> (S - D * 86400) div 60"
    by (rule pos_mult_le_iff) simp
  then show "D * 86400 + x * 60 \<le> S \<longleftrightarrow> x \<le> S mod 86400 div 60"
    and "S < D * 86400 + x * 60 \<longleftrightarrow> S mod 86400 div 60 < x"
    unfolding m by - linarith+
qed

text \<open>The weekly branch at a constant offset, in minutes of the day.\<close>

lemma weekly_window_minutes:
  assumes "sane off t" "rule_minutes r = Some (a, b)"
  defines "m \<equiv> local_sec (fixed_zone off) t mod 86400 div 60"
    and "wd \<equiv> local_weekday (fixed_zone off) t"
  shows "weekly_window (fixed_zone off) t r =
    (if rule_start r \<noteq> rule_end r \<and> a = b then None
     else if a < b then
       (if matches_day r wd \<and> a \<le> m \<and> m < b then Some ((b - a) * minute) else None)
     else
       (if matches_day r ((wd + 6) mod 7) \<and> m < b \<or> matches_day r wd \<and> a \<le> m
        then Some ((b - a + 1440) * minute) else None))"
proof -
  obtain sh sm eh em where p: "parse_hhmm (rule_start r) = Some (sh, sm)"
      "parse_hhmm (rule_end r) = Some (eh, em)" and ab: "a = sh * 60 + sm" "b = eh * 60 + em"
    using assms(2) by (auto simp: rule_minutes_def split: option.splits)
  note ba = parse_hhmm_bounds [OF p(1)] and bb = parse_hhmm_bounds [OF p(2)]
  let ?z = "fixed_zone off"
  let ?D = "local_day ?z t" let ?S = "t div second + off"
  note d = local_day_bounds [where off = off and t = t]
  have st: "time_date ?z ?D sh sm = (?D * 86400 + a * 60 - off) * second"
    and en: "time_date ?z ?D eh em = (?D * 86400 + b * 60 - off) * second"
    using fixed_date [OF assms(1), of 0] ba bb by (simp_all add: ab)
  have st': "add_days ?z (time_date ?z ?D sh sm) (- 1) = ((?D - 1) * 86400 + a * 60 - off) * second"
    and en': "add_days ?z (time_date ?z ?D eh em) 1 = ((?D + 1) * 86400 + b * 60 - off) * second"
    using fixed_date_shift [OF assms(1), of sh sm "- 1"] fixed_date_shift [OF assms(1), of eh em 1] ba bb
    by (simp_all add: ab)
  note sh = st' [unfolded st] en' [unfolded en]
  have m: "?D * 86400 + x * 60 - off \<le> t div second \<longleftrightarrow> x \<le> m"
      "t div second < ?D * 86400 + x * 60 - off \<longleftrightarrow> m < x" for x
    using day_sec_bounds [OF d, of x] by (auto simp: m_def local_sec_fixed)
  have yes: "(?D - 1) * 86400 + a * 60 - off \<le> t div second"
      "t div second < (?D + 1) * 86400 + b * 60 - off"
    using d ba bb by (simp_all add: ab algebra_simps)
  have ra: "0 \<le> a" "a < 1440" "0 \<le> b" "b < 1440"
    using parse_hhmm_minutes [OF p(1)] parse_hhmm_minutes [OF p(2)] ab by auto
  have sub1: "time_sub ((?D * 86400 + b * 60 - off) * second) ((?D * 86400 + a * 60 - off) * second)
      = (b - a) * minute" if "a < b"
    using that ra by (simp add: time_sub_def max_duration_def min_duration_def duration_defs algebra_simps)
  have sub2: "time_sub ((?D * 86400 + b * 60 - off) * second + 24 * hour)
      ((?D * 86400 + a * 60 - off) * second) = (b - a + 1440) * minute" if "\<not> a < b"
    using that ra by (simp add: time_sub_def max_duration_def min_duration_def duration_defs algebra_simps)
  have lt: "(?D * 86400 + a * 60 - off) * second < (?D * 86400 + b * 60 - off) * second \<longleftrightarrow> a < b"
    and eq: "(?D * 86400 + a * 60 - off) * second = (?D * 86400 + b * 60 - off) * second \<longleftrightarrow> a = b"
    by (auto simp: second_def)
  show ?thesis
    unfolding weekly_window_def Let_def p option.case prod.case st en sh wd_def [symmetric]
      seconds_le seconds_less lt eq m
    using yes sub1 sub2 ra by auto
qed

lemma week_distance:
  fixes W wd m a len :: int
  assumes "0 \<le> W" "W < 7" "0 \<le> wd" "wd < 7" "0 \<le> m" "m < 1440" "0 \<le> a" "a < 1440" "len \<le> 1440"
  shows "(W * 1440 + m - (wd * 1440 + a)) mod 10080 < len \<longleftrightarrow>
    wd = W \<and> a \<le> m \<and> m - a < len \<or> wd = (W + 6) mod 7 \<and> m - a + 1440 < len"
proof -
  have n: "(W + 6) mod 7 = (if W = 0 then 6 else W - 1)"
    using mod_pos_pos_trivial [of "W - 1" 7] mod_add_self2 [of "W - 1" 7] assms(1,2)
    by (auto simp: algebra_simps)
  have u: "(W * 1440 + m - (wd * 1440 + a)) mod 10080 =
      (if 0 \<le> W * 1440 + m - (wd * 1440 + a) then W * 1440 + m - (wd * 1440 + a)
       else W * 1440 + m - (wd * 1440 + a) + 10080)"
    using assms by (intro mod_week) linarith+
  consider "wd = W" | "W = wd + 1" | "W = 0 \<and> wd = 6" | "wd + 2 \<le> W" | "W < wd" "wd < W + 6"
    using assms(1-4) by linarith
  then show ?thesis
    unfolding u n using assms by cases (auto split: if_splits)
qed

lemma week_minute_parts:
  fixes off :: int and t :: time
  shows "0 \<le> local_weekday (fixed_zone off) t" "local_weekday (fixed_zone off) t < 7"
    and "0 \<le> local_sec (fixed_zone off) t mod 86400 div 60"
    and "local_sec (fixed_zone off) t mod 86400 div 60 < 1440"
proof -
  have "0 \<le> local_sec (fixed_zone off) t mod 86400" "local_sec (fixed_zone off) t mod 86400 < 86400"
    by simp_all
  then show "0 \<le> local_sec (fixed_zone off) t mod 86400 div 60"
    and "local_sec (fixed_zone off) t mod 86400 div 60 < 1440" by - linarith+
qed (simp_all add: local_weekday_def weekday_of_day_def)

lemma week_minute_range: "0 \<le> week_minute off t" "week_minute off t < 10080"
  using week_minute_parts [where off = off and t = t] by (simp_all add: week_minute_def)

lemma rule_minutes_range:
  "rule_minutes r = Some (a, b) \<Longrightarrow> 0 \<le> a \<and> a < 1440 \<and> 0 \<le> b \<and> b < 1440"
  by (auto simp: rule_minutes_def dest!: parse_hhmm_minutes split: option.splits)

lemma rule_minutes_eq: "rule_minutes r = Some (a, b) \<Longrightarrow> rule_start r = rule_end r \<Longrightarrow> a = b"
  by (auto simp: rule_minutes_def split: option.splits)

lemma window_minutes_cases:
  assumes "rule_minutes r = Some (a, b)"
  shows "window_minutes r a b =
    (if rule_start r \<noteq> rule_end r \<and> a = b then 0 else if a < b then b - a else b - a + 1440)"
proof -
  have "(b - a) mod 1440 = (if 0 \<le> b - a then b - a else b - a + 1440)"
    using rule_minutes_range [OF assms] by (intro mod_day) linarith+
  then show ?thesis
    using rule_minutes_eq [OF assms] by (auto simp: window_minutes_def)
qed

lemma weekly_window_active:
  assumes "sane off t" "rule_minutes r = Some (a, b)"
  shows "weekly_window (fixed_zone off) t r =
    (if rule_active r (week_minute off t) then Some (window_minutes r a b * minute) else None)"
proof -
  let ?W = "local_weekday (fixed_zone off) t"
  let ?m = "local_sec (fixed_zone off) t mod 86400 div 60"
  note w = week_minute_parts [where off = off and t = t]
  note ab = rule_minutes_range [OF assms(2)] rule_minutes_eq [OF assms(2)]
  have l: "window_minutes r a b \<le> 1440"
    using ab by (auto simp: window_minutes_cases [OF assms(2)])
  have prev: "0 \<le> (?W + 6) mod 7" "(?W + 6) mod 7 < 7" by simp_all
  have "rule_active r (week_minute off t) \<longleftrightarrow>
      (\<exists>wd \<in> {0..<7}. matches_day r wd \<and> (wd = ?W \<and> a \<le> ?m \<and> ?m - a < window_minutes r a b \<or>
         wd = (?W + 6) mod 7 \<and> ?m - a + 1440 < window_minutes r a b))"
    unfolding rule_active_def week_minute_def assms(2) option.case prod.case
    using w ab l by (intro bex_cong refl conj_cong) (auto simp: week_distance)
  also have "\<dots> \<longleftrightarrow> matches_day r ?W \<and> a \<le> ?m \<and> ?m - a < window_minutes r a b \<or>
      matches_day r ((?W + 6) mod 7) \<and> ?m - a + 1440 < window_minutes r a b"
    using w(1,2) prev by auto
  finally have act: "rule_active r (week_minute off t) \<longleftrightarrow> \<dots>" .
  show ?thesis
    unfolding weekly_window_minutes [OF assms] act window_minutes_cases [OF assms(2)]
    using ab w by auto
qed

subsection \<open>\<open>Evaluate\<close> takes the shortest active window\<close>

lemma time_date_mod [simp]: "time_date loc d h m mod second = 0"
  by (simp add: time_date_def)

lemma time_sub_not_minus1:
  assumes "t mod second = 0" "u mod second = 0"
  shows "time_sub t u \<noteq> - 1"
proof -
  have "(t - u) mod second = 0" using assms by (simp add: mod_diff_eq [symmetric])
  then have "t - u \<noteq> - 1" by (auto simp: second_def)
  then show ?thesis by (auto simp: time_sub_def max_duration_def min_duration_def min_def max_def)
qed

lemma hours_mod [simp]: "(t + 24 * hour) mod second = t mod second"
  by (simp add: hour_def minute_def mult.assoc [symmetric])

lemma rule_window_not_minus1: "rule_window loc now r \<noteq> Some (- 1)"
  by (auto simp: rule_window_def weekly_window_def date_window_def Let_def time_sub_not_minus1
      split: option.splits if_splits prod.splits)

text \<open>The loop as a stable sort: among the rules whose window contains \<open>now\<close> the first one of
  least duration.\<close>

definition window_length :: "location \<Rightarrow> time \<Rightarrow> schedule_rule \<Rightarrow> duration" where
  "window_length loc now r = (case rule_window loc now r of Some d \<Rightarrow> d | None \<Rightarrow> 0)"

definition in_window :: "location \<Rightarrow> time \<Rightarrow> schedule_rule \<Rightarrow> bool" where
  "in_window loc now r \<longleftrightarrow> rule_window loc now r \<noteq> None"

lemma hd_insort_key:
  "hd (insort_key f x ys) = (if ys = [] \<or> f x \<le> f (hd ys) then x else hd ys)"
  by (cases ys) auto

lemma sort_key_Nil [simp]: "sort_key f xs = [] \<longleftrightarrow> xs = []"
  by (metis length_0_conv length_sort)

lemma hd_sort_key_drop:
  assumes "f r < f r0"
  shows "hd (sort_key f (r0 # r # xs)) = hd (sort_key f (r # xs))"
proof -
  have "f (hd (sort_key f (r # xs))) \<le> f r"
    by (auto simp: hd_insort_key)
  moreover have "sort_key f (r0 # r # xs) = insort_key f r0 (sort_key f (r # xs))" by simp
  ultimately show ?thesis using assms by (auto simp: hd_insort_key simp del: sort_key_simps)
qed

lemma hd_sort_key_keep:
  assumes "f r0 \<le> f r"
  shows "hd (sort_key f (r0 # r # xs)) = hd (sort_key f (r0 # xs))"
  using assms by (auto simp: hd_insort_key)

lemma best_match_from:
  assumes "in_window loc now r0"
  shows "foldl (consider_rule loc now) (window_length loc now r0, Some r0) rs =
    (let b = hd (sort_key (window_length loc now) (r0 # filter (in_window loc now) rs))
     in (window_length loc now b, Some b))"
  using assms
proof (induction rs arbitrary: r0)
  case Nil
  then show ?case by simp
next
  case (Cons r rs)
  let ?f = "window_length loc now"
  show ?case
  proof (cases "rule_window loc now r")
    case None
    then show ?thesis
      using Cons by (simp add: consider_rule_def in_window_def)
  next
    case (Some d)
    then have r: "in_window loc now r" "?f r = d"
      by (simp_all add: in_window_def window_length_def)
    have "?f r0 \<noteq> - 1"
      using Cons.prems rule_window_not_minus1 [of loc now r0]
      by (auto simp: in_window_def window_length_def)
    then have step: "consider_rule loc now (?f r0, Some r0) r =
        (if ?f r < ?f r0 then (?f r, Some r) else (?f r0, Some r0))"
      using Some r by (simp add: consider_rule_def)
    show ?thesis
    proof (cases "?f r < ?f r0")
      case True
      then have "hd (sort_key ?f (r0 # r # filter (in_window loc now) rs)) =
          hd (sort_key ?f (r # filter (in_window loc now) rs))"
        by (rule hd_sort_key_drop)
      then show ?thesis
        using True Cons.IH [OF r(1)] r(1) step by (simp del: sort_key_simps)
    next
      case False
      then have "hd (sort_key ?f (r0 # r # filter (in_window loc now) rs)) =
          hd (sort_key ?f (r0 # filter (in_window loc now) rs))"
        by (intro hd_sort_key_keep) simp
      then show ?thesis
        using False Cons.IH [OF Cons.prems] r(1) step by (simp del: sort_key_simps)
    qed
  qed
qed

lemma best_match_shortest:
  "snd (best_match loc now rs) =
    (case sort_key (window_length loc now) (filter (in_window loc now) rs) of
       [] \<Rightarrow> None | r # _ \<Rightarrow> Some r)"
proof (induction rs)
  case Nil
  then show ?case by (simp add: best_match_def)
next
  case (Cons r rs)
  show ?case
  proof (cases "rule_window loc now r")
    case None
    then show ?thesis
      using Cons by (simp add: best_match_def consider_rule_def in_window_def)
  next
    case (Some d)
    then have r: "in_window loc now r" "window_length loc now r = d"
      by (simp_all add: in_window_def window_length_def)
    have "best_match loc now (r # rs) =
        foldl (consider_rule loc now) (window_length loc now r, Some r) rs"
      using Some r by (simp add: best_match_def consider_rule_def)
    then have "snd (best_match loc now (r # rs)) =
        Some (hd (sort_key (window_length loc now) (r # filter (in_window loc now) rs)))"
      by (simp add: best_match_from [OF r(1)] Let_def del: sort_key_simps)
    then show ?thesis
      using r(1) by (cases "sort_key (window_length loc now) (r # filter (in_window loc now) rs)")
        (auto simp del: sort_key_simps)
  qed
qed

text \<open>\<open>Evaluate\<close> returns the action of the first of the shortest windows that contain the
  instant, and the default of the mode when there is none, in every time zone.\<close>

theorem evaluate_shortest:
  "evaluate tzdb s now = Inr (let loc = eval_location tzdb s in
     case sort_key (window_length loc now) (filter (in_window loc now) (sched_rules s)) of
       [] \<Rightarrow> (if sched_mode s = ScheduleModeWhitelist then ActionBlock else ActionAllow)
     | r # _ \<Rightarrow> rule_action r)"
  by (simp add: evaluate_def best_match_shortest default_action_def Let_def split: list.splits)

subsection \<open>Weekly schedules at a constant offset\<close>

definition weekly :: "schedule \<Rightarrow> bool" where
  "weekly s \<longleftrightarrow> (\<forall>r \<in> set (sched_rules s). \<not> has_dates r)"

lemma weekly_window_unparsed: "rule_minutes r = None \<Longrightarrow> weekly_window loc t r = None"
  by (auto simp: weekly_window_def rule_minutes_def Let_def split: option.splits prod.splits)

lemma rule_window_weekly:
  assumes "sane off t" "\<not> has_dates r"
  shows "rule_window (fixed_zone off) t r =
    (if rule_active r (week_minute off t) then Some (rule_length r * minute) else None)"
proof (cases "rule_minutes r")
  case None
  then show ?thesis
    using assms(2) by (simp add: rule_window_def weekly_window_unparsed rule_active_def)
next
  case (Some ab)
  then show ?thesis
    using assms weekly_window_active [of off t r]
    by (cases ab) (simp add: rule_window_def rule_length_def)
qed

lemma sort_key_scale:
  fixes f :: "'a \<Rightarrow> int"
  assumes "\<forall>x \<in> set xs. g x = f x * c" "0 < c"
  shows "sort_key g xs = sort_key f xs"
  using assms(1)
proof (induction xs)
  case (Cons x xs)
  have "insort_key g x ys = insort_key f x ys" if "set ys \<subseteq> set (x # xs)" for ys
    using that Cons.prems assms(2)
    by (induction ys) (auto simp: mult_le_cancel_right subset_iff)
  then show ?case using Cons by (simp add: subset_insertI)
qed simp

lemma evaluate_weekly_rules:
  assumes "sane off t" "eval_location tzdb s = fixed_zone off" "weekly s"
  shows "evaluate tzdb s t =
    Inr (case sort_key rule_length
           (filter (\<lambda>r. rule_active r (week_minute off t)) (sched_rules s)) of
           [] \<Rightarrow> default_action s | r # _ \<Rightarrow> rule_action r)"
proof -
  let ?loc = "fixed_zone off"
  have w: "rule_window ?loc t r =
      (if rule_active r (week_minute off t) then Some (rule_length r * minute) else None)"
    if "r \<in> set (sched_rules s)" for r
    using rule_window_weekly [OF assms(1)] that assms(3) by (auto simp: weekly_def)
  have f: "filter (in_window ?loc t) (sched_rules s) =
      filter (\<lambda>r. rule_active r (week_minute off t)) (sched_rules s)"
    by (intro filter_cong refl) (simp add: in_window_def w)
  have "sort_key (window_length ?loc t) (filter (\<lambda>r. rule_active r (week_minute off t)) (sched_rules s))
      = sort_key rule_length (filter (\<lambda>r. rule_active r (week_minute off t)) (sched_rules s))"
    by (rule sort_key_scale [where c = minute]) (auto simp: window_length_def w duration_defs)
  then show ?thesis
    unfolding evaluate_def best_match_shortest assms(2) f by (simp split: list.splits)
qed

text \<open>On a schedule of weekly rules in a zone of constant offset \<open>Evaluate\<close> is a function of the
  minute of the week: the action of the first of the shortest active rules, overnight windows
  continuing into the next day, or the mode's default.\<close>

theorem evaluate_weekly:
  assumes "sane off t" "eval_location tzdb s = fixed_zone off" "weekly s"
  shows "evaluate tzdb s t =
    Inr (case sort_key rule_length
           (filter (\<lambda>r. rule_active r (week_minute off t)) (sched_rules s)) of
           [] \<Rightarrow> default_action s | r # _ \<Rightarrow> rule_action r)"
  using assms by (rule evaluate_weekly_rules)

text \<open>Tuesday 1970-01-06, 05:00 UTC: Monday's night is still running.\<close>

lemma evaluate_weekly_witness:
  "evaluate (\<lambda>_. None) school_nights (5 * 86400 * second + 5 * hour) = Inr ActionBlock"
proof -
  let ?t = "5 * 86400 * second + 5 * hour"
  have "sane 0 ?t" by (simp add: sane_def duration_defs)
  moreover have "eval_location (\<lambda>_. None) school_nights = fixed_zone 0"
    by (simp add: eval_location_def load_location_def school_nights_def utc_fixed_zone)
  moreover have "weekly school_nights"
    by (simp add: weekly_def has_dates_def school_nights_def)
  moreover have "(case sort_key rule_length
           (filter (\<lambda>r. rule_active r (week_minute 0 ?t)) (sched_rules school_nights)) of
           [] \<Rightarrow> default_action school_nights | r # _ \<Rightarrow> rule_action r) = ActionBlock"
    by code_simp
  ultimately show ?thesis using evaluate_weekly [of 0 ?t "\<lambda>_. None" school_nights] by simp
qed

subsection \<open>The two halves agree\<close>

text \<open>\<open>parser.go\<close> knows the three-letter day names, \<open>conflict.go\<close> the full names too; and only
  \<open>parser.go\<close> reads two equal texts as a whole day.\<close>

definition plain_rule :: "schedule_rule \<Rightarrow> bool" where
  "plain_rule r \<longleftrightarrow> \<not> has_dates r \<and> rule_start r \<noteq> rule_end r \<and>
     (\<forall>d \<in> set (rule_days r). day_map (to_lower (trim_space d)) = day_to_weekday (to_lower (trim_space d)))"

lemma day_map_range: "day_map s = Some wd \<Longrightarrow> 0 \<le> wd \<and> wd < 7"
  by (auto simp: day_map_def split: if_splits)

lemma rule_active_covers:
  assumes "plain_rule r"
  shows "rule_active r w \<longleftrightarrow> rule_covers r w"
proof (cases "rule_minutes r")
  case None
  then show ?thesis
    by (auto simp: rule_active_def rule_covers_def rule_minutes_def split: option.splits prod.splits)
next
  case (Some ab)
  obtain a b where ab: "ab = (a, b)" by (cases ab)
  have len: "window_minutes r a b = (b - a) mod 1440"
    using assms by (simp add: plain_rule_def window_minutes_def)
  have "rule_active r w \<longleftrightarrow>
      (\<exists>wd. \<exists>d \<in> set (rule_days r). day_map (to_lower (trim_space d)) = Some wd \<and> window_covers wd a b w)"
    using day_map_range by (auto simp: rule_active_def Some ab len matches_day_def window_covers_def)
  also have "\<dots> \<longleftrightarrow> (\<exists>d \<in> set (rule_days r).
      (case day_to_weekday (to_lower (trim_space d)) of None \<Rightarrow> False | Some wd \<Rightarrow> window_covers wd a b w))"
    using assms by (auto simp: plain_rule_def split: option.splits)
  also have "\<dots> \<longleftrightarrow> rule_covers r w"
    using Some ab by (auto simp: rule_covers_def rule_minutes_def split: option.splits prod.splits)
  finally show ?thesis .
qed



subsection \<open>\<open>NextStateChange\<close>\<close>

lemma transition_points_later: "t \<in> set (transition_points loc now rs) \<Longrightarrow> now < t"
  by (auto simp: transition_points_def rule_boundaries_def boundary_def Let_def
      split: if_splits option.splits prod.splits)

lemma hd_sort_in: "xs \<noteq> [] \<Longrightarrow> hd (sort xs) \<in> set xs"
  by (metis hd_in_set set_sort sort_key_Nil)

lemma hd_sort_least: "x \<in> set xs \<Longrightarrow> hd (sort (xs :: int list)) \<le> x"
  by (cases "sort xs") (metis empty_iff empty_set set_sort, metis list.sel(1) set_ConsD set_sort sorted_simps(2) sorted_sort order_refl)

lemma next_state_change_after:
  assumes "next_state_change tzdb s now = Inr t"
  shows "now < t"
proof -
  let ?pts = "transition_points (eval_location tzdb s) now (sched_rules s)"
  have "?pts \<noteq> [] \<Longrightarrow> now < hd (sort ?pts)"
    using hd_sort_in transition_points_later by blast
  moreover have "0 < hour" by (simp add: duration_defs)
  ultimately show ?thesis using assms by (auto simp: next_state_change_def Let_def split: if_splits)
qed

text \<open>The next state change lies strictly after the present instant, in every time zone; the cache
  of an evaluation can be trusted until then and is refreshed after at most a finite wait.\<close>

theorem next_state_change_later:
  "case next_state_change tzdb s now of Inr t \<Rightarrow> now < t | Inl _ \<Rightarrow> False"
proof (cases "next_state_change tzdb s now")
  case (Inl x)
  then show ?thesis by (simp add: next_state_change_def Let_def)
next
  case (Inr t)
  then show ?thesis using next_state_change_after [OF Inr] by simp
qed

lemma fixed_local_day:
  assumes "- 9 \<le> i" "i \<le> 9" "sane off t"
  shows "local_day (fixed_zone off) (time_date (fixed_zone off) (local_day (fixed_zone off) t + i) 0 0)
    = local_day (fixed_zone off) t + i"
proof -
  have "time_date (fixed_zone off) (local_day (fixed_zone off) t + i) 0 0 =
      ((local_day (fixed_zone off) t + i) * 86400 + (0 * 60 + 0) * 60 - off) * second"
    using assms by (intro fixed_date) auto
  then show ?thesis unfolding local_day_def [of _ "time_date _ _ _ _"] local_sec_fixed by simp
qed

text \<open>The boundary of a rule on a day, in seconds.\<close>

definition day_point :: "int \<Rightarrow> int \<Rightarrow> int \<Rightarrow> int" where
  "day_point off d x = d * 86400 + x * 60 - off"

lemma boundary_in_points:
  assumes "sane off now" "r \<in> set rs" "\<not> has_dates r" "i < 8"
    and "hhmm \<in> {rule_start r, rule_end r}" "parse_hhmm hhmm = Some (h, m)"
    and "now < day_point off (local_day (fixed_zone off) now + int i) (h * 60 + m) * second"
  shows "day_point off (local_day (fixed_zone off) now + int i) (h * 60 + m) * second
    \<in> set (transition_points (fixed_zone off) now rs)"
proof -
  let ?z = "fixed_zone off" let ?base = "time_date ?z (local_day ?z now + int i) 0 0"
  let ?p = "day_point off (local_day ?z now + int i) (h * 60 + m) * second"
  note hm = parse_hhmm_bounds [OF assms(6)]
  have "time_date ?z (local_day ?z now + int i) h m = ?p"
    using assms(1,4) hm by (simp add: fixed_date day_point_def)
  then have "boundary ?z now ?base hhmm = [?p]"
    using assms(1,4,6,7) by (simp add: boundary_def fixed_local_day)
  then have "?p \<in> set (rule_boundaries ?z now ?base r)"
    using assms(3,5) by (auto simp: rule_boundaries_def date_excluded_def)
  then show ?thesis
    using assms(2,4) unfolding transition_points_def by fastforce
qed

text \<open>Between two instants with no boundary of the rule in between its window does not open or close.\<close>

lemma weekly_window_stable:
  fixes t t' :: time
  assumes "sane off t" "sane off t'" "rule_minutes r = Some (a, b)" "t \<le> t'"
  defines "D \<equiv> local_day (fixed_zone off) t"
  assumes no: "\<And>i x. i \<in> {0, 1} \<Longrightarrow> x \<in> {a, b} \<Longrightarrow>
    day_point off (D + i) x \<le> t div second \<or> t' div second < day_point off (D + i) x"
  shows "weekly_window (fixed_zone off) t' r = weekly_window (fixed_zone off) t r"
proof -
  let ?z = "fixed_zone off"
  let ?D' = "local_day ?z t'"
  let ?m = "local_sec ?z t mod 86400 div 60" and ?m' = "local_sec ?z t' mod 86400 div 60"
  have S: "D * 86400 \<le> t div second + off" "t div second + off < D * 86400 + 86400"
      "?D' * 86400 \<le> t' div second + off" "t' div second + off < ?D' * 86400 + 86400"
    unfolding D_def using local_day_bounds by auto
  have le: "t div second \<le> t' div second"
    using assms(4) by (intro zdiv_mono1) auto
  note ab = rule_minutes_range [OF assms(3)]
  have m: "D * 86400 + x * 60 \<le> t div second + off \<longleftrightarrow> x \<le> ?m"
      "?D' * 86400 + x * 60 \<le> t' div second + off \<longleftrightarrow> x \<le> ?m'" for x
    using day_sec_bounds(1) [OF S(1,2)] day_sec_bounds(1) [OF S(3,4)] by (simp_all add: local_sec_fixed)
  have no': "D * 86400 + i * 86400 + x * 60 \<le> t div second + off \<or>
      t' div second + off < D * 86400 + i * 86400 + x * 60"
    if "i \<in> {0, 1}" "x \<in> {a, b}" for i x
    using no [OF that] by (auto simp: day_point_def algebra_simps)
  note n = no' [of 0 a, simplified] no' [of 0 b, simplified] no' [of 1 a, simplified] no' [of 1 b, simplified]
  have "D \<le> ?D'" "?D' \<le> D + 1"
    using S le n(3) ab by - linarith+
  then consider "?D' = D" | "?D' = D + 1" by linarith
  then show ?thesis
  proof cases
    case 1
    have "D * 86400 + a * 60 \<le> t div second + off \<longleftrightarrow> ?D' * 86400 + a * 60 \<le> t' div second + off"
        "D * 86400 + b * 60 \<le> t div second + off \<longleftrightarrow> ?D' * 86400 + b * 60 \<le> t' div second + off"
      unfolding 1 using n(1,2) le by - linarith+
    then have "a \<le> ?m \<longleftrightarrow> a \<le> ?m'" "b \<le> ?m \<longleftrightarrow> b \<le> ?m'" unfolding m by auto
    moreover have "local_weekday ?z t' = local_weekday ?z t"
      using 1 by (simp add: local_weekday_def D_def)
    ultimately show ?thesis
      unfolding weekly_window_minutes [OF assms(1,3)] weekly_window_minutes [OF assms(2,3)]
      by (auto simp: not_le [symmetric])
  next
    case 2
    have D': "?D' * 86400 = D * 86400 + 86400" unfolding 2 by simp
    have "D * 86400 + a * 60 \<le> t div second + off" "D * 86400 + b * 60 \<le> t div second + off"
      using n(1,2) S D' ab by - linarith+
    then have "a \<le> ?m" "b \<le> ?m" unfolding m by auto
    moreover have "\<not> ?D' * 86400 + a * 60 \<le> t' div second + off"
        "\<not> ?D' * 86400 + b * 60 \<le> t' div second + off"
      using n(3,4) S D' ab by - linarith+
    then have "?m' < a" "?m' < b" unfolding m by auto
    moreover have "(local_weekday ?z t' + 6) mod 7 = local_weekday ?z t"
      using 2 mod_add_self2 [of "local_day ?z t + 4" 7]
      unfolding D_def local_weekday_def weekday_of_day_def by (simp add: mod_simps add.commute)
    ultimately show ?thesis
      unfolding weekly_window_minutes [OF assms(1,3)] weekly_window_minutes [OF assms(2,3)]
      by auto
  qed
qed

lemma next_state_change_before:
  assumes "next_state_change tzdb s now = Inr nxt"
    and "p \<in> set (transition_points (eval_location tzdb s) now (sched_rules s))"
  shows "nxt \<le> p"
proof -
  have "transition_points (eval_location tzdb s) now (sched_rules s) \<noteq> []" using assms(2) by auto
  then show ?thesis
    using assms by (auto simp: next_state_change_def Let_def intro: hd_sort_least)
qed

text \<open>C13: \<open>Evaluate\<close> gives the same verdict from now until the instant \<open>NextStateChange\<close> announces,
  for weekly schedules in a zone of constant offset, so an evaluation may be cached until then.\<close>

theorem verdict_stable_until_next:
  assumes "eval_location tzdb s = fixed_zone off" "weekly s" "sane off now" "sane off t"
    and "next_state_change tzdb s now = Inr nxt" "now \<le> t" "t < nxt"
  shows "evaluate tzdb s t = evaluate tzdb s now"
proof -
  let ?z = "fixed_zone off"
  have w: "rule_window ?z t r = rule_window ?z now r" if r: "r \<in> set (sched_rules s)" for r
  proof (cases "rule_minutes r")
    case None
    then show ?thesis
      using assms(2) r by (simp add: rule_window_def weekly_window_unparsed weekly_def)
  next
    case (Some ab)
    obtain a b where ab: "ab = (a, b)" by (cases ab)
    have nd: "\<not> has_dates r" using assms(2) r by (simp add: weekly_def)
    have "day_point off (local_day ?z now + i) x \<le> now div second \<or>
        t div second < day_point off (local_day ?z now + i) x"
      if i: "i \<in> {0, 1}" and x: "x \<in> {a, b}" for i x
    proof (rule disjCI)
      let ?p = "day_point off (local_day ?z now + i) x"
      assume "\<not> t div second < ?p"
      obtain hhmm h m where p: "hhmm \<in> {rule_start r, rule_end r}" "parse_hhmm hhmm = Some (h, m)"
          "x = h * 60 + m"
        using x Some ab unfolding rule_minutes_def by (fastforce split: option.splits)
      obtain k where k: "i = int k" "k < 8" using i by (metis emptyE insertE int_ops(1) int_ops(2) less_numeral_extra(1) zero_less_numeral one_less_numeral_iff semiring_norm(76))
      show "?p \<le> now div second"
      proof (rule ccontr)
        assume "\<not> ?p \<le> now div second"
        then have "now < ?p * second" using seconds_le [of ?p now] by simp
        then have "?p * second \<in> set (transition_points ?z now (sched_rules s))"
          using boundary_in_points [OF assms(3) r nd k(2) p(1,2)] by (simp add: k(1) p(3))
        then have "nxt \<le> ?p * second"
          using next_state_change_before [OF assms(5)] assms(1) by simp
        then have "t div second < ?p" using assms(7) by (simp add: seconds_less [symmetric])
        with \<open>\<not> t div second < ?p\<close> show False by simp
      qed
    qed
    then show ?thesis
      using weekly_window_stable [OF assms(3,4), of r a b] assms(6) Some ab nd
      by (simp add: rule_window_def)
  qed
  have "in_window ?z t r = in_window ?z now r" "window_length ?z t r = window_length ?z now r"
    if "r \<in> set (sched_rules s)" for r
    using w [OF that] by (simp_all add: in_window_def window_length_def)
  then have f: "filter (in_window ?z t) (sched_rules s) = filter (in_window ?z now) (sched_rules s)"
    and k: "sort_key (window_length ?z t) (filter (in_window ?z now) (sched_rules s)) =
      sort_key (window_length ?z now) (filter (in_window ?z now) (sched_rules s))"
    by (auto intro!: filter_cong sort_key_scale [where c = 1])
  show ?thesis unfolding evaluate_def best_match_shortest assms(1) f k ..
qed

lemma verdict_stable_until_next_witness:
  "evaluate (\<lambda>_. None) school_nights (5 * 86400 * second + 6 * hour) =
   evaluate (\<lambda>_. None) school_nights (5 * 86400 * second + 5 * hour)"
proof -
  have n: "next_state_change (\<lambda>_. None) school_nights (5 * 86400 * second + 5 * hour) =
      Inr (5 * 86400 * second + 6 * hour + 30 * minute)" by code_simp
  have z: "eval_location (\<lambda>_. None) school_nights = fixed_zone 0"
    by (simp add: eval_location_def load_location_def school_nights_def utc_fixed_zone)
  have w: "weekly school_nights" by (simp add: weekly_def has_dates_def school_nights_def)
  show ?thesis
    by (rule verdict_stable_until_next [OF z w _ _ n]) (simp_all add: sane_def duration_defs)
qed

end
