(* ===== verification/Lias_Cache.thy ===== *)
theory Lias_Cache
  imports Shared_Models "HOL-Library.Word"
begin

text \<open>
  \<open>apps/lias/internal/sync/cache.go\<close>: the scheduler's mirror of the device inventory and the local
  metadata (tags, friendly names, owners, policies) laid over it. The map of devices holds private
  pointers, so the cache is a value; every operation is one critical section.
\<close>

subsection \<open>State\<close>

record local_device =
  dev :: device
  local_tags :: "string list"
  local_policy :: "policy option"
  local_next :: "time option"

text \<open>\<open>LocalDevice\<close> embeds \<open>Device\<close> and shadows its \<open>Tags\<close>: \<open>d.Tags\<close> is \<open>local_tags\<close>, while the
  promoted method \<open>d.HasTag\<close> reads \<open>d.Device.Tags\<close>.\<close>

definition local_pdid :: "local_device \<Rightarrow> string" where
  "local_pdid d = pdid (dev d)"

definition local_has_tag :: "local_device \<Rightarrow> string \<Rightarrow> bool" where
  "local_has_tag d t = has_tag (dev_tags (dev d)) t"

record cache =
  devices :: "string \<rightharpoonup> local_device"
  sticky_tags :: "string \<rightharpoonup> string list"
  sticky_macs :: "string \<rightharpoonup> string list"
  overrides :: "string \<rightharpoonup> string"
  user_assignments :: "string \<rightharpoonup> string"
  revision :: "64 word"

definition new_cache :: cache where
  "new_cache = \<lparr>devices = Map.empty, sticky_tags = Map.empty, sticky_macs = Map.empty,
     overrides = Map.empty, user_assignments = Map.empty, revision = 1\<rparr>"

definition bump_revision :: "cache \<Rightarrow> cache" where
  "bump_revision c = c\<lparr>revision := revision c + 1\<rparr>"

subsection \<open>Operations\<close>

definition apply_local_metadata :: "cache \<Rightarrow> local_device \<Rightarrow> local_device" where
  "apply_local_metadata c d =
     (let d1 = (case overrides c (local_pdid d) of
                  Some name \<Rightarrow> d\<lparr>dev := (dev d)\<lparr>friendly_name := name\<rparr>\<rparr> | None \<Rightarrow> d)
      in case user_assignments c (local_pdid d1) of
           Some uid \<Rightarrow> d1\<lparr>dev := (dev d1)\<lparr>user_id := uid\<rparr>\<rparr> | None \<Rightarrow> d1)"

definition set_local_tags :: "string list \<Rightarrow> local_device \<Rightarrow> local_device" where
  "set_local_tags ts d = d\<lparr>local_tags := ts, dev := (dev d)\<lparr>dev_tags := ts\<rparr>\<rparr>"

text \<open>The tags remembered for the first of the addresses that has any.\<close>

fun mac_sticky :: "(string \<rightharpoonup> string list) \<Rightarrow> string list \<Rightarrow> string list option" where
  "mac_sticky sm [] = None"
| "mac_sticky sm (m # ms) =
     (case sm (to_lower (trim_space m)) of
        Some ts \<Rightarrow> if 0 < length ts then Some ts else mac_sticky sm ms
      | None \<Rightarrow> mac_sticky sm ms)"

text \<open>\<open>applyStickyTagLocked\<close> changes the device and may remember the tags found by address.\<close>

definition default_tags :: "local_device \<Rightarrow> local_device" where
  "default_tags d =
     (if length (local_tags d) = 0 then
        (if 0 < length (dev_tags (dev d)) then d\<lparr>local_tags := dev_tags (dev d)\<rparr>
         else set_local_tags [''generic''] d)
      else d)"

definition apply_sticky_tag :: "cache \<Rightarrow> local_device \<Rightarrow> cache \<times> local_device" where
  "apply_sticky_tag c d =
     (let by_mac = (case mac_sticky (sticky_macs c) (macs (dev d)) of
            Some ts \<Rightarrow> (c\<lparr>sticky_tags := (sticky_tags c)(local_pdid d \<mapsto> ts)\<rparr>, set_local_tags ts d)
          | None \<Rightarrow> (c, default_tags d))
      in case sticky_tags c (local_pdid d) of
           Some ts \<Rightarrow> if 0 < length ts then (c, set_local_tags ts d) else by_mac
         | None \<Rightarrow> by_mac)"

text \<open>The two loaders run over maps; \<open>os\<close>, \<open>us\<close>, \<open>ps\<close>, \<open>ms\<close> and \<open>ds\<close> are the orders of their loops.\<close>

definition store_all :: "('k \<rightharpoonup> 'v) \<Rightarrow> ('k \<times> 'v) list \<Rightarrow> ('k \<rightharpoonup> 'v)" where
  "store_all m es = foldl (\<lambda>m (k, v). m(k \<mapsto> v)) m es"

definition load_metadata_step :: "cache \<Rightarrow> string \<Rightarrow> cache" where
  "load_metadata_step c k =
     (case devices c k of None \<Rightarrow> c
      | Some d \<Rightarrow> c\<lparr>devices := (devices c)(k \<mapsto> apply_local_metadata c d)\<rparr>)"

definition load_local_metadata ::
  "string list \<Rightarrow> string list \<Rightarrow> string list \<Rightarrow> (string \<rightharpoonup> string) \<Rightarrow> (string \<rightharpoonup> string) \<Rightarrow> cache \<Rightarrow> cache" where
  "load_local_metadata os us ds ovr asg c =
     (let c1 = c\<lparr>overrides := store_all (overrides c) (range_entries ovr os)\<rparr>;
          c2 = c1\<lparr>user_assignments := store_all (user_assignments c1) (range_entries asg us)\<rparr>
      in bump_revision (foldl load_metadata_step c2 ds))"

definition store_mac_tags :: "(string \<rightharpoonup> string list) \<Rightarrow> string \<times> string list \<Rightarrow> (string \<rightharpoonup> string list)" where
  "store_mac_tags sm = (\<lambda>(mac, ts).
     (let k = to_lower (trim_space mac) in if k \<noteq> [] then sm(k \<mapsto> ts) else sm))"

definition load_sticky_step :: "cache \<Rightarrow> string \<Rightarrow> cache" where
  "load_sticky_step c k =
     (case devices c k of None \<Rightarrow> c
      | Some d \<Rightarrow> let (c', d') = apply_sticky_tag c d in c'\<lparr>devices := (devices c')(k \<mapsto> d')\<rparr>)"

definition load_sticky_tags ::
  "string list \<Rightarrow> string list \<Rightarrow> string list \<Rightarrow> (string \<rightharpoonup> string list) \<Rightarrow> (string \<rightharpoonup> string list) \<Rightarrow>
   cache \<Rightarrow> cache" where
  "load_sticky_tags ps ms ds ptags mtags c =
     (let c1 = c\<lparr>sticky_tags := store_all (sticky_tags c) (range_entries ptags ps)\<rparr>;
          c2 = c1\<lparr>sticky_macs := foldl store_mac_tags (sticky_macs c1) (range_entries mtags ms)\<rparr>
      in bump_revision (foldl load_sticky_step c2 ds))"

definition move_unless_set :: "(string \<rightharpoonup> 'v) \<Rightarrow> string \<Rightarrow> string \<Rightarrow> (string \<rightharpoonup> 'v)" where
  "move_unless_set m old new =
     (case m old of None \<Rightarrow> m
      | Some v \<Rightarrow> (if m new = None then m(new \<mapsto> v) else m)(old := None))"

definition migrate_device_identity :: "string \<Rightarrow> string \<Rightarrow> cache \<Rightarrow> cache" where
  "migrate_device_identity old new c =
     (let c1 = (case sticky_tags c old of
                  Some ts \<Rightarrow> c\<lparr>sticky_tags := (sticky_tags c)(new \<mapsto> ts, old := None)\<rparr> | None \<Rightarrow> c);
          c2 = c1\<lparr>devices := (devices c1)(old := None)\<rparr>;
          c3 = c2\<lparr>overrides := move_unless_set (overrides c2) old new\<rparr>;
          c4 = c3\<lparr>user_assignments := move_unless_set (user_assignments c3) old new\<rparr>
      in bump_revision c4)"

fun dedupe_from :: "string list \<Rightarrow> string list \<Rightarrow> string list" where
  "dedupe_from seen [] = []"
| "dedupe_from seen (v # vs) =
     (let v' = trim_space v in
      if v' = [] then dedupe_from seen vs
      else if v' \<in> set seen then dedupe_from seen vs
      else v' # dedupe_from (v' # seen) vs)"

definition dedupe_strings :: "string list \<Rightarrow> string list" where
  "dedupe_strings vs = dedupe_from [] vs"

definition overlay :: "string list \<Rightarrow> string \<Rightarrow> string \<Rightarrow> local_device \<Rightarrow> local_device" where
  "overlay ts name uid d =
     (let d1 = (if 0 < length ts then set_local_tags ts d else d);
          d2 = (if name \<noteq> [] then d1\<lparr>dev := (dev d1)\<lparr>friendly_name := name\<rparr>\<rparr> else d1)
      in if uid \<noteq> [] then d2\<lparr>dev := (dev d2)\<lparr>user_id := uid\<rparr>\<rparr> else d2)"

definition remember_macs ::
  "string list \<Rightarrow> (string \<rightharpoonup> string list) \<Rightarrow> string list \<Rightarrow> (string \<rightharpoonup> string list)" where
  "remember_macs ts = foldl (\<lambda>sm mac. let k = to_lower (trim_space mac)
     in if k \<noteq> [] \<and> 0 < length ts then sm(k \<mapsto> ts) else sm)"

definition reconcile_identity_migration ::
  "string \<Rightarrow> string \<Rightarrow> string list \<Rightarrow> string list \<Rightarrow> string \<Rightarrow> string \<Rightarrow> cache \<Rightarrow> cache" where
  "reconcile_identity_migration old new mms tags name uid c =
     (let ts = dedupe_strings tags;
          st = (if 0 < length ts then (sticky_tags c)(new \<mapsto> ts) else sticky_tags c)(old := None);
          ov = (overrides c)(old := None);
          ov' = (if name \<noteq> [] then ov(new \<mapsto> name) else ov);
          ua = (user_assignments c)(old := None);
          ua' = (if uid \<noteq> [] then ua(new \<mapsto> uid) else ua);
          sm = remember_macs ts (sticky_macs c) mms;
          ds = (case devices c new of Some d \<Rightarrow> (devices c)(new \<mapsto> overlay ts name uid d)
                | None \<Rightarrow> devices c)(old := None)
      in bump_revision (c\<lparr>sticky_tags := st, overrides := ov', user_assignments := ua',
           sticky_macs := sm, devices := ds\<rparr>))"

definition cache_get :: "cache \<Rightarrow> string \<Rightarrow> local_device option" where
  "cache_get c p = devices c p"

definition cache_list :: "string list \<Rightarrow> cache \<Rightarrow> local_device list" where
  "cache_list ks c = range_values (devices c) ks"

text \<open>\<open>reflect.DeepEqual\<close> compares with a clone whose empty slices are nil; as the model has one empty
  list, \<open>empties\<close> says whether the stored record had an empty slice that is not nil.\<close>

definition upsert_device :: "bool \<Rightarrow> device \<Rightarrow> cache \<Rightarrow> cache" where
  "upsert_device empties d c =
     (if pdid d = [] then c
      else (case devices c (pdid d) of
        Some existing \<Rightarrow>
          (let (c1, e1) = apply_sticky_tag c (existing\<lparr>dev := d\<rparr>);
               e2 = apply_local_metadata c1 e1;
               c2 = c1\<lparr>devices := (devices c1)(pdid d \<mapsto> e2)\<rparr>
           in if dev existing \<noteq> dev e2 \<or> empties \<or> local_tags existing \<noteq> local_tags e2
              then bump_revision c2 else c2)
      | None \<Rightarrow>
          (let (c1, e1) = apply_sticky_tag c
                 \<lparr>dev = d, local_tags = [], local_policy = None, local_next = None\<rparr>;
               e2 = apply_local_metadata c1 e1
           in bump_revision (c1\<lparr>devices := (devices c1)(pdid d \<mapsto> e2)\<rparr>))))"

definition remove_device :: "string \<Rightarrow> cache \<Rightarrow> cache" where
  "remove_device p c =
     (if devices c p \<noteq> None then bump_revision (c\<lparr>devices := (devices c)(p := None)\<rparr>) else c)"

text \<open>Store a changed device and count the change, when the device exists.\<close>

definition patch_device :: "(local_device \<Rightarrow> local_device) \<Rightarrow> string \<Rightarrow> cache \<Rightarrow> cache" where
  "patch_device f p c =
     (case devices c p of None \<Rightarrow> c | Some d \<Rightarrow> c\<lparr>devices := (devices c)(p \<mapsto> f d)\<rparr>)"

definition set_policy :: "string \<Rightarrow> policy option \<Rightarrow> cache \<Rightarrow> cache" where
  "set_policy p pol c =
     (if devices c p \<noteq> None then bump_revision (patch_device (local_policy_update (\<lambda>_. pol)) p c) else c)"

definition set_tags :: "string \<Rightarrow> string list \<Rightarrow> cache \<Rightarrow> cache" where
  "set_tags p tags c =
     (let ts = (if length tags = 0 then [''generic''] else tags);
          c1 = c\<lparr>sticky_tags := (sticky_tags c)(p \<mapsto> ts)\<rparr>;
          c2 = (case devices c1 p of None \<Rightarrow> c1
                | Some d \<Rightarrow> patch_device (set_local_tags ts) p
                    (c1\<lparr>sticky_macs := foldl (\<lambda>sm mac. store_mac_tags sm (mac, ts))
                       (sticky_macs c1) (macs (dev d))\<rparr>))
      in bump_revision c2)"

definition set_friendly_name :: "string \<Rightarrow> string \<Rightarrow> cache \<Rightarrow> cache" where
  "set_friendly_name p name c =
     bump_revision (patch_device (dev_update (friendly_name_update (\<lambda>_. name))) p
       (c\<lparr>overrides := (overrides c)(p \<mapsto> name)\<rparr>))"

definition set_user_id :: "string \<Rightarrow> string \<Rightarrow> cache \<Rightarrow> cache" where
  "set_user_id p uid c =
     bump_revision (patch_device (dev_update (user_id_update (\<lambda>_. uid))) p
       (c\<lparr>user_assignments := (if uid = [] then (user_assignments c)(p := None)
                               else (user_assignments c)(p \<mapsto> uid))\<rparr>))"

definition set_next_state_change :: "string \<Rightarrow> time option \<Rightarrow> cache \<Rightarrow> cache" where
  "set_next_state_change p t c =
     (if devices c p \<noteq> None then bump_revision (patch_device (local_next_update (\<lambda>_. t)) p c) else c)"

definition patch_device_online :: "string \<Rightarrow> bool \<Rightarrow> cache \<Rightarrow> cache" where
  "patch_device_online p on c =
     (case devices c p of None \<Rightarrow> c
      | Some d \<Rightarrow> if online (dev d) \<noteq> on
          then bump_revision (patch_device (dev_update (online_update (\<lambda>_. on))) p c) else c)"

subsection \<open>The invariant\<close>

text \<open>What the mirror promises of a stored record: it is stored under its identity, it has a tag, and
  the local metadata the scheduler remembers for that identity is the one the record shows.\<close>

definition tags_shown :: "cache \<Rightarrow> string \<Rightarrow> local_device \<Rightarrow> bool" where
  "tags_shown c p d \<longleftrightarrow> (\<forall>ts. sticky_tags c p = Some ts \<and> ts \<noteq> [] \<longrightarrow>
     local_tags d = ts \<and> dev_tags (dev d) = ts)"

definition metadata_shown :: "cache \<Rightarrow> string \<Rightarrow> local_device \<Rightarrow> bool" where
  "metadata_shown c p d \<longleftrightarrow>
     (\<forall>n. overrides c p = Some n \<longrightarrow> friendly_name (dev d) = n) \<and>
     (\<forall>u. user_assignments c p = Some u \<longrightarrow> user_id (dev d) = u)"

definition placed :: "string \<Rightarrow> local_device \<Rightarrow> bool" where
  "placed p d \<longleftrightarrow> pdid (dev d) = p \<and> p \<noteq> [] \<and> local_tags d \<noteq> []"

definition cache_ok :: "cache \<Rightarrow> bool" where
  "cache_ok c \<longleftrightarrow> (\<forall>p d. devices c p = Some d \<longrightarrow>
     placed p d \<and> tags_shown c p d \<and> metadata_shown c p d)"

lemma set_local_tags_simps [simp]:
  "pdid (dev (set_local_tags ts d)) = pdid (dev d)"
  "local_tags (set_local_tags ts d) = ts" "dev_tags (dev (set_local_tags ts d)) = ts"
  "friendly_name (dev (set_local_tags ts d)) = friendly_name (dev d)"
  "user_id (dev (set_local_tags ts d)) = user_id (dev d)"
  by (simp_all add: set_local_tags_def)

lemma default_tags_simps [simp]:
  "pdid (dev (default_tags d)) = pdid (dev d)" "local_tags (default_tags d) \<noteq> []"
  "friendly_name (dev (default_tags d)) = friendly_name (dev d)"
  "user_id (dev (default_tags d)) = user_id (dev d)"
  by (auto simp: default_tags_def)

lemma mac_sticky_Some: "mac_sticky sm ms = Some ts \<Longrightarrow> ts \<noteq> []"
  by (induction ms) (auto split: option.splits if_splits)

lemma apply_sticky_cases:
  obtains ts where "apply_sticky_tag c d =
      (c\<lparr>sticky_tags := (sticky_tags c)(local_pdid d \<mapsto> ts)\<rparr>, set_local_tags ts d)" "ts \<noteq> []"
  | "apply_sticky_tag c d = (c, default_tags d)" "sticky_tags c (local_pdid d) \<in> {None, Some []}"
proof (cases "\<exists>ts. sticky_tags c (local_pdid d) = Some ts \<and> ts \<noteq> []")
  case True
  then obtain ts where ts: "sticky_tags c (local_pdid d) = Some ts" "ts \<noteq> []" by blast
  then have "c\<lparr>sticky_tags := (sticky_tags c)(local_pdid d \<mapsto> ts)\<rparr> = c"
    by (simp add: fun_upd_idem)
  then show thesis using ts that(1) [of ts] by (simp add: apply_sticky_tag_def)
next
  case False
  then have n: "sticky_tags c (local_pdid d) \<in> {None, Some []}"
    by (cases "sticky_tags c (local_pdid d)") auto
  show thesis
  proof (cases "mac_sticky (sticky_macs c) (macs (dev d))")
    case None
    then show thesis using n that(2) by (auto simp: apply_sticky_tag_def)
  next
    case (Some ts)
    then show thesis
      using n that(1) [of ts] mac_sticky_Some [OF Some] by (auto simp: apply_sticky_tag_def)
  qed
qed

lemma apply_sticky_facts:
  assumes "apply_sticky_tag c d = (c', d')"
  shows "devices c' = devices c" "overrides c' = overrides c" "user_assignments c' = user_assignments c"
    and "sticky_macs c' = sticky_macs c" "revision c' = revision c"
    and "q \<noteq> local_pdid d \<Longrightarrow> sticky_tags c' q = sticky_tags c q"
    and "pdid (dev d') = pdid (dev d)" "local_tags d' \<noteq> []" "tags_shown c' (local_pdid d) d'"
    and "friendly_name (dev d') = friendly_name (dev d)" "user_id (dev d') = user_id (dev d)"
proof -
  consider ts where "c' = c\<lparr>sticky_tags := (sticky_tags c)(local_pdid d \<mapsto> ts)\<rparr>"
      "d' = set_local_tags ts d" "ts \<noteq> []"
    | "c' = c" "d' = default_tags d" "sticky_tags c (local_pdid d) \<in> {None, Some []}"
    using assms by (cases rule: apply_sticky_cases [of c d]) auto
  then show "devices c' = devices c" "overrides c' = overrides c" "user_assignments c' = user_assignments c"
    and "sticky_macs c' = sticky_macs c" "revision c' = revision c"
    and "q \<noteq> local_pdid d \<Longrightarrow> sticky_tags c' q = sticky_tags c q"
    and "pdid (dev d') = pdid (dev d)" "local_tags d' \<noteq> []" "tags_shown c' (local_pdid d) d'"
    and "friendly_name (dev d') = friendly_name (dev d)" "user_id (dev d') = user_id (dev d)"
    by (cases; auto simp: tags_shown_def)+
qed

lemma apply_metadata_facts [simp]:
  "pdid (dev (apply_local_metadata c d)) = pdid (dev d)"
  "local_tags (apply_local_metadata c d) = local_tags d"
  "dev_tags (dev (apply_local_metadata c d)) = dev_tags (dev d)"
  by (auto simp: apply_local_metadata_def Let_def split: option.splits)

lemma metadata_shown_apply: "metadata_shown c (pdid (dev d)) (apply_local_metadata c d)"
  by (auto simp: metadata_shown_def apply_local_metadata_def local_pdid_def Let_def split: option.splits)

lemma metadata_shown_cong:
  "overrides c' p = overrides c p \<Longrightarrow> user_assignments c' p = user_assignments c p \<Longrightarrow>
   friendly_name (dev d') = friendly_name (dev d) \<Longrightarrow> user_id (dev d') = user_id (dev d) \<Longrightarrow>
   metadata_shown c' p d' = metadata_shown c p d"
  by (simp add: metadata_shown_def)

lemma tags_shown_cong:
  "sticky_tags c' p = sticky_tags c p \<Longrightarrow> local_tags d' = local_tags d \<Longrightarrow>
   dev_tags (dev d') = dev_tags (dev d) \<Longrightarrow> tags_shown c' p d' = tags_shown c p d"
  by (simp add: tags_shown_def)

lemma cache_ok_bump [simp]: "cache_ok (bump_revision c) = cache_ok c"
  by (simp add: cache_ok_def bump_revision_def tags_shown_def metadata_shown_def)

lemma cache_okD:
  assumes "cache_ok c" "devices c p = Some d"
  shows "placed p d" "tags_shown c p d" "metadata_shown c p d"
  using assms by (simp_all add: cache_ok_def)

lemma cache_ok_new [cache_inv]: "cache_ok new_cache"
  by (simp add: cache_ok_def new_cache_def)

text \<open>One entry changes, with the metadata of that identity only.\<close>

lemma cache_ok_update:
  assumes "cache_ok c"
    and "\<And>q. q \<noteq> p \<Longrightarrow> devices c' q \<in> {None, devices c q}"
    and "\<And>q. q \<noteq> p \<Longrightarrow> sticky_tags c' q = sticky_tags c q \<and> overrides c' q = overrides c q \<and>
      user_assignments c' q = user_assignments c q"
    and "\<And>d. devices c' p = Some d \<Longrightarrow> placed p d \<and> tags_shown c' p d \<and> metadata_shown c' p d"
  shows "cache_ok c'"
  unfolding cache_ok_def
proof (intro allI impI)
  fix q d assume d: "devices c' q = Some d"
  show "placed q d \<and> tags_shown c' q d \<and> metadata_shown c' q d"
  proof (cases "q = p")
    case True
    with d assms(4) show ?thesis by simp
  next
    case False
    then have "devices c q = Some d" using assms(2) [of q] d by simp
    then show ?thesis
      using assms(1) assms(3) [OF False] by (simp add: cache_ok_def tags_shown_def metadata_shown_def)
  qed
qed

lemma upsert_entry:
  assumes "apply_sticky_tag c e = (c1, e1)" "pdid (dev e) = p" "p \<noteq> []" "cache_ok c"
  shows "cache_ok (c1\<lparr>devices := (devices c1)(p \<mapsto> apply_local_metadata c1 e1)\<rparr>)"
proof (rule cache_ok_update [OF assms(4), of p])
  note f = apply_sticky_facts [OF assms(1)]
  fix q assume "q \<noteq> p"
  then show "devices (c1\<lparr>devices := (devices c1)(p \<mapsto> apply_local_metadata c1 e1)\<rparr>) q \<in> {None, devices c q}"
    and "sticky_tags (c1\<lparr>devices := (devices c1)(p \<mapsto> apply_local_metadata c1 e1)\<rparr>) q = sticky_tags c q \<and>
      overrides (c1\<lparr>devices := (devices c1)(p \<mapsto> apply_local_metadata c1 e1)\<rparr>) q = overrides c q \<and>
      user_assignments (c1\<lparr>devices := (devices c1)(p \<mapsto> apply_local_metadata c1 e1)\<rparr>) q = user_assignments c q"
    using f assms(2) by (simp_all add: local_pdid_def)
next
  note f = apply_sticky_facts [OF assms(1)]
  fix d assume "devices (c1\<lparr>devices := (devices c1)(p \<mapsto> apply_local_metadata c1 e1)\<rparr>) p = Some d"
  then have d: "d = apply_local_metadata c1 e1" by simp
  have "metadata_shown c1 p (apply_local_metadata c1 e1)"
    using metadata_shown_apply [of c1 e1] f(7) assms(2) by simp
  moreover have "tags_shown c1 p e1"
    using f(9) assms(2) by (simp add: local_pdid_def)
  ultimately show "placed p d \<and>
      tags_shown (c1\<lparr>devices := (devices c1)(p \<mapsto> apply_local_metadata c1 e1)\<rparr>) p d \<and>
      metadata_shown (c1\<lparr>devices := (devices c1)(p \<mapsto> apply_local_metadata c1 e1)\<rparr>) p d"
    using f(7,8) assms(2,3) by (simp add: d placed_def tags_shown_def metadata_shown_def)
qed

lemma cache_ok_upsert [cache_inv]: "cache_ok c \<Longrightarrow> cache_ok (upsert_device e d c)"
  using upsert_entry [of c "(the (devices c (pdid d)))\<lparr>dev := d\<rparr>" _ _ "pdid d"]
    upsert_entry [of c "\<lparr>dev = d, local_tags = [], local_policy = None, local_next = None\<rparr>" _ _ "pdid d"]
  by (auto simp: upsert_device_def Let_def split: option.splits prod.splits)

lemma cache_ok_patch:
  assumes "cache_ok c"
    and "\<And>d. devices c p = Some d \<Longrightarrow> placed p (f d) \<and> tags_shown c p (f d) \<and> metadata_shown c p (f d)"
  shows "cache_ok (patch_device f p c)"
proof (rule cache_ok_update [OF assms(1), of p])
  fix d assume "devices (patch_device f p c) p = Some d"
  then obtain d0 where "devices c p = Some d0" "d = f d0"
    by (auto simp: patch_device_def split: option.splits)
  then show "placed p d \<and> tags_shown (patch_device f p c) p d \<and> metadata_shown (patch_device f p c) p d"
    using assms(2) [of d0] by (simp add: patch_device_def tags_shown_def metadata_shown_def)
qed (auto simp: patch_device_def split: option.splits)

lemma cache_ok_remove [cache_inv]: "cache_ok c \<Longrightarrow> cache_ok (remove_device p c)"
  by (auto simp: remove_device_def intro!: cache_ok_update [of c p])

lemma cache_ok_set_policy [cache_inv]: "cache_ok c \<Longrightarrow> cache_ok (set_policy p pol c)"
  by (auto simp: set_policy_def placed_def tags_shown_def metadata_shown_def dest: cache_okD
      intro!: cache_ok_patch)

lemma cache_ok_set_next [cache_inv]: "cache_ok c \<Longrightarrow> cache_ok (set_next_state_change p t c)"
  by (auto simp: set_next_state_change_def placed_def tags_shown_def metadata_shown_def dest: cache_okD
      intro!: cache_ok_patch)

lemma cache_ok_online [cache_inv]: "cache_ok c \<Longrightarrow> cache_ok (patch_device_online p on c)"
  by (auto simp: patch_device_online_def placed_def tags_shown_def metadata_shown_def dest: cache_okD
      split: option.split intro!: cache_ok_patch)

lemma cache_ok_set_tags [cache_inv]:
  assumes "cache_ok c"
  shows "cache_ok (set_tags p tags c)"
proof (rule cache_ok_update [OF assms, of p])
  fix q assume "q \<noteq> p"
  then show "devices (set_tags p tags c) q \<in> {None, devices c q}"
    and "sticky_tags (set_tags p tags c) q = sticky_tags c q \<and>
      overrides (set_tags p tags c) q = overrides c q \<and>
      user_assignments (set_tags p tags c) q = user_assignments c q"
    by (auto simp: set_tags_def patch_device_def bump_revision_def Let_def split: option.splits)
next
  let ?ts = "if tags = [] then [''generic''] else tags"
  fix d assume d: "devices (set_tags p tags c) p = Some d"
  then obtain d0 where d0: "devices c p = Some d0" "d = set_local_tags ?ts d0"
    by (auto simp: set_tags_def patch_device_def bump_revision_def Let_def split: option.splits)
  have "sticky_tags (set_tags p tags c) p = Some ?ts"
    "overrides (set_tags p tags c) p = overrides c p"
    "user_assignments (set_tags p tags c) p = user_assignments c p"
    by (auto simp: set_tags_def patch_device_def bump_revision_def Let_def split: option.splits)
  then show "placed p d \<and> tags_shown (set_tags p tags c) p d \<and> metadata_shown (set_tags p tags c) p d"
    using cache_okD [OF assms d0(1)] by (auto simp: d0(2) placed_def tags_shown_def metadata_shown_def)
qed

lemma cache_ok_set_friendly_name [cache_inv]:
  assumes "cache_ok c"
  shows "cache_ok (set_friendly_name p name c)"
proof (rule cache_ok_update [OF assms, of p])
  fix d assume "devices (set_friendly_name p name c) p = Some d"
  then obtain d0 where d0: "devices c p = Some d0" "d = dev_update (friendly_name_update (\<lambda>_. name)) d0"
    by (auto simp: set_friendly_name_def patch_device_def bump_revision_def split: option.splits)
  then show "placed p d \<and> tags_shown (set_friendly_name p name c) p d \<and>
      metadata_shown (set_friendly_name p name c) p d"
    using cache_okD [OF assms d0(1)]
    by (auto simp: set_friendly_name_def patch_device_def bump_revision_def placed_def tags_shown_def
        metadata_shown_def)
qed (auto simp: set_friendly_name_def patch_device_def bump_revision_def split: option.splits)

lemma cache_ok_set_user_id [cache_inv]:
  assumes "cache_ok c"
  shows "cache_ok (set_user_id p uid c)"
proof (rule cache_ok_update [OF assms, of p])
  fix d assume "devices (set_user_id p uid c) p = Some d"
  then obtain d0 where d0: "devices c p = Some d0" "d = dev_update (user_id_update (\<lambda>_. uid)) d0"
    by (auto simp: set_user_id_def patch_device_def bump_revision_def split: option.splits)
  then show "placed p d \<and> tags_shown (set_user_id p uid c) p d \<and> metadata_shown (set_user_id p uid c) p d"
    using cache_okD [OF assms d0(1)]
    by (auto simp: set_user_id_def patch_device_def bump_revision_def placed_def tags_shown_def
        metadata_shown_def split: if_splits)
qed (auto simp: set_user_id_def patch_device_def bump_revision_def split: option.splits)

lemma overlay_simps [simp]:
  "pdid (dev (overlay ts name uid d)) = pdid (dev d)"
  "local_tags (overlay ts name uid d) = (if ts = [] then local_tags d else ts)"
  "dev_tags (dev (overlay ts name uid d)) = (if ts = [] then dev_tags (dev d) else ts)"
  "friendly_name (dev (overlay ts name uid d)) = (if name = [] then friendly_name (dev d) else name)"
  "user_id (dev (overlay ts name uid d)) = (if uid = [] then user_id (dev d) else uid)"
  by (simp_all add: overlay_def Let_def)

lemma cache_ok_reconcile [cache_inv]:
  assumes "cache_ok c"
  shows "cache_ok (reconcile_identity_migration old new mms tags name uid c)" (is "cache_ok ?c")
  unfolding cache_ok_def
proof (intro allI impI)
  fix q d assume d: "devices ?c q = Some d"
  then have q: "q \<noteq> old"
    by (auto simp: reconcile_identity_migration_def bump_revision_def Let_def split: option.splits)
  show "placed q d \<and> tags_shown ?c q d \<and> metadata_shown ?c q d"
  proof (cases "q = new")
    case True
    then obtain d0 where d0: "devices c new = Some d0" "d = overlay (dedupe_strings tags) name uid d0"
      using d q by (auto simp: reconcile_identity_migration_def bump_revision_def Let_def split: option.splits)
    show ?thesis
      using cache_okD [OF assms d0(1)] True q
      by (auto simp: d0(2) reconcile_identity_migration_def bump_revision_def Let_def placed_def
          tags_shown_def metadata_shown_def split: if_splits)
  next
    case False
    then have d0: "devices c q = Some d"
      using d q by (auto simp: reconcile_identity_migration_def bump_revision_def Let_def split: option.splits)
    show ?thesis
      using cache_okD [OF assms d0] False q
      by (auto simp: reconcile_identity_migration_def bump_revision_def Let_def placed_def
          tags_shown_def metadata_shown_def split: if_splits)
  qed
qed

subsection \<open>Loading the stored metadata at start\<close>

text \<open>Everything but the tags is in order; \<open>load_sticky_step\<close> puts them in order entry by entry.\<close>

definition base_ok :: "cache \<Rightarrow> bool" where
  "base_ok c \<longleftrightarrow> (\<forall>p d. devices c p = Some d \<longrightarrow> placed p d \<and> metadata_shown c p d)"

definition tags_ok_at :: "string \<Rightarrow> cache \<Rightarrow> bool" where
  "tags_ok_at p c \<longleftrightarrow> (\<forall>d. devices c p = Some d \<longrightarrow> tags_shown c p d)"

lemma cache_ok_split: "cache_ok c \<longleftrightarrow> base_ok c \<and> (\<forall>p \<in> dom (devices c). tags_ok_at p c)"
  by (auto simp: cache_ok_def base_ok_def tags_ok_at_def)

lemma load_sticky_step_ok:
  assumes "base_ok c"
  shows "base_ok (load_sticky_step c k) \<and> tags_ok_at k (load_sticky_step c k)"
    and "tags_ok_at q c \<Longrightarrow> tags_ok_at q (load_sticky_step c k)"
proof -
  have "(base_ok (load_sticky_step c k) \<and> tags_ok_at k (load_sticky_step c k)) \<and>
      (tags_ok_at q c \<longrightarrow> tags_ok_at q (load_sticky_step c k))"
  proof (cases "devices c k")
    case None
    then show ?thesis using assms by (simp add: load_sticky_step_def tags_ok_at_def)
  next
    case (Some d)
    obtain c' d' where a: "apply_sticky_tag c d = (c', d')" by fastforce
    note f = apply_sticky_facts [OF a]
    have p: "local_pdid d = k" "placed k d" "metadata_shown c k d"
      using assms Some by (auto simp: base_ok_def placed_def local_pdid_def)
    then show ?thesis
      using assms f p(2) Some
      by (auto simp: load_sticky_step_def a base_ok_def tags_ok_at_def placed_def tags_shown_def
          metadata_shown_def)
  qed
  then show "base_ok (load_sticky_step c k) \<and> tags_ok_at k (load_sticky_step c k)"
    and "tags_ok_at q c \<Longrightarrow> tags_ok_at q (load_sticky_step c k)" by blast+
qed

lemma dom_load_sticky_step [simp]: "dom (devices (load_sticky_step c k)) = dom (devices c)"
  by (auto simp: load_sticky_step_def dest: apply_sticky_facts(1) split: option.splits prod.splits)

lemma dom_load_sticky [simp]: "dom (devices (foldl load_sticky_step c ks)) = dom (devices c)"
  by (induction ks arbitrary: c) auto

lemma cache_ok_load_sticky [cache_inv]:
  assumes "cache_ok c" "range_order (devices c) ds"
  shows "cache_ok (load_sticky_tags ps ms ds ptags mtags c)"
proof -
  define c2 where "c2 = c\<lparr>sticky_tags := store_all (sticky_tags c) (range_entries ptags ps),
    sticky_macs := foldl store_mac_tags (sticky_macs c) (range_entries mtags ms)\<rparr>"
  have b: "base_ok c2" using assms(1) by (auto simp: c2_def cache_ok_def base_ok_def metadata_shown_def)
  have "base_ok (foldl load_sticky_step c2 ds) \<and>
      (\<forall>p. p \<in> set ds \<or> tags_ok_at p c2 \<longrightarrow> tags_ok_at p (foldl load_sticky_step c2 ds))"
    by (rule foldl_establishes [where P = tags_ok_at]) (use b load_sticky_step_ok in auto)
  moreover have "set ds = dom (devices c2)"
    using assms(2) by (simp add: range_order_def c2_def)
  ultimately have "cache_ok (foldl load_sticky_step c2 ds)"
    by (simp add: cache_ok_split)
  moreover have "load_sticky_tags ps ms ds ptags mtags c = bump_revision (foldl load_sticky_step c2 ds)"
    by (simp add: load_sticky_tags_def c2_def Let_def)
  ultimately show ?thesis by simp
qed

text \<open>The names and owners likewise.\<close>

definition rest_ok :: "cache \<Rightarrow> bool" where
  "rest_ok c \<longleftrightarrow> (\<forall>p d. devices c p = Some d \<longrightarrow> placed p d \<and> tags_shown c p d)"

definition metadata_ok_at :: "string \<Rightarrow> cache \<Rightarrow> bool" where
  "metadata_ok_at p c \<longleftrightarrow> (\<forall>d. devices c p = Some d \<longrightarrow> metadata_shown c p d)"

lemma load_metadata_step_ok:
  assumes "rest_ok c"
  shows "rest_ok (load_metadata_step c k) \<and> metadata_ok_at k (load_metadata_step c k)"
    and "metadata_ok_at q c \<Longrightarrow> metadata_ok_at q (load_metadata_step c k)"
proof -
  have *: "metadata_shown c k (apply_local_metadata c d)" if "devices c k = Some d" for d
    using assms that metadata_shown_apply [of c d] by (auto simp: rest_ok_def placed_def)
  show "rest_ok (load_metadata_step c k) \<and> metadata_ok_at k (load_metadata_step c k)"
    and "metadata_ok_at q c \<Longrightarrow> metadata_ok_at q (load_metadata_step c k)"
    using assms *
    by (auto simp: rest_ok_def metadata_ok_at_def load_metadata_step_def placed_def tags_shown_def
        metadata_shown_def split: option.splits)
qed

lemma dom_load_metadata [simp]: "dom (devices (foldl load_metadata_step c ks)) = dom (devices c)"
  by (induction ks arbitrary: c) (auto simp: load_metadata_step_def split: option.splits)

lemma cache_ok_load_metadata [cache_inv]:
  assumes "cache_ok c" "range_order (devices c) ds"
  shows "cache_ok (load_local_metadata os us ds ovr asg c)"
proof -
  define c2 where "c2 = c\<lparr>overrides := store_all (overrides c) (range_entries ovr os),
    user_assignments := store_all (user_assignments c) (range_entries asg us)\<rparr>"
  have b: "rest_ok c2" using assms(1) by (auto simp: c2_def cache_ok_def rest_ok_def tags_shown_def)
  have "rest_ok (foldl load_metadata_step c2 ds) \<and>
      (\<forall>p. p \<in> set ds \<or> metadata_ok_at p c2 \<longrightarrow> metadata_ok_at p (foldl load_metadata_step c2 ds))"
    by (rule foldl_establishes [where P = metadata_ok_at]) (use b load_metadata_step_ok in auto)
  moreover have "set ds = dom (devices (foldl load_metadata_step c2 ds))"
    using assms(2) by (simp add: range_order_def c2_def)
  ultimately have "cache_ok (foldl load_metadata_step c2 ds)"
    by (auto simp: cache_ok_def rest_ok_def metadata_ok_at_def)
  moreover have "load_local_metadata os us ds ovr asg c = bump_revision (foldl load_metadata_step c2 ds)"
    by (simp add: load_local_metadata_def c2_def Let_def)
  ultimately show ?thesis by simp
qed

subsection \<open>The cache over a run of the scheduler\<close>

text \<open>One critical section of the scheduler on its cache. \<open>MigrateDeviceIdentity\<close> is left out: it is the
  fallback of a scheduler without storage, and \<open>migrate_leaves_old_tags\<close> below shows what it breaks.\<close>

inductive cache_step :: "cache \<Rightarrow> cache \<Rightarrow> bool" where
  step_upsert: "cache_step c (upsert_device e d c)"
| step_remove: "cache_step c (remove_device p c)"
| step_policy: "cache_step c (set_policy p pol c)"
| step_tags: "cache_step c (set_tags p tags c)"
| step_name: "cache_step c (set_friendly_name p name c)"
| step_user: "cache_step c (set_user_id p uid c)"
| step_next: "cache_step c (set_next_state_change p t c)"
| step_online: "cache_step c (patch_device_online p on c)"
| step_reconcile: "cache_step c (reconcile_identity_migration old new mms tags name uid c)"
| step_sticky: "range_order (devices c) ds \<Longrightarrow> cache_step c (load_sticky_tags ps ms ds ptags mtags c)"
| step_metadata: "range_order (devices c) ds \<Longrightarrow> cache_step c (load_local_metadata os us ds ovr asg c)"

inductive cache_reachable :: "cache \<Rightarrow> bool" where
  reach_new: "cache_reachable new_cache"
| reach_step: "cache_reachable c \<Longrightarrow> cache_step c c' \<Longrightarrow> cache_reachable c'"

lemma cache_step_ok: "cache_step c c' \<Longrightarrow> cache_ok c \<Longrightarrow> cache_ok c'"
  by (induction rule: cache_step.induct) (auto intro: cache_inv)


definition laptop :: device where
  "laptop = empty_device\<lparr>pdid := ''pdid_a'', macs := [''AA:BB:CC:00:11:22'']\<rparr>"


lemma foldl_store_mac_tags:
  "m \<in> set ms \<Longrightarrow> to_lower (trim_space m) \<noteq> [] \<Longrightarrow>
   foldl (\<lambda>sm mac. store_mac_tags sm (mac, ts)) sm ms (to_lower (trim_space m)) = Some ts"
proof (induction ms rule: rev_induct)
  case (snoc x xs)
  then show ?case by (cases "x = m") (auto simp: store_mac_tags_def Let_def)
qed simp

lemma dev_tags_apply:
  assumes "sticky_tags c (local_pdid e) \<in> {None, Some []}"
    and "mac_sticky (sticky_macs c) (macs (dev e)) = Some ts" "apply_sticky_tag c e = (c1, e1)"
  shows "e1 = set_local_tags ts e"
  using assms by (auto simp: apply_sticky_tag_def)

lemma upsert_entry_tags:
  assumes "pdid d \<noteq> []" "sticky_tags c (pdid d) \<in> {None, Some []}"
    and "mac_sticky (sticky_macs c) (macs d) = Some ts"
  shows "\<exists>x. devices (upsert_device e d c) (pdid d) = Some x \<and> local_tags x = ts \<and> dev_tags (dev x) = ts"
proof -
  have s: "local_tags e1 = ts \<and> dev_tags (dev e1) = ts"
    if "apply_sticky_tag c x = (c1, e1)" "dev x = d" for x c1 e1
    using dev_tags_apply [of c x ts c1 e1] assms(2,3) that by (simp add: local_pdid_def)
  show ?thesis
  proof (cases "devices c (pdid d)")
    case None
    obtain c1 e1 where a: "apply_sticky_tag c
        \<lparr>dev = d, local_tags = [], local_policy = None, local_next = None\<rparr> = (c1, e1)" by fastforce
    then show ?thesis
      using assms(1) None s [OF a] by (simp add: upsert_device_def bump_revision_def)
  next
    case (Some x)
    obtain c1 e1 where a: "apply_sticky_tag c (x\<lparr>dev := d\<rparr>) = (c1, e1)" by fastforce
    then show ?thesis
      using assms(1) Some s [OF a] by (simp add: upsert_device_def bump_revision_def Let_def)
  qed
qed

text \<open>Tags follow the hardware address. Once \<open>SetTags\<close> has tagged a device, a device record with
  an identity that has no tags of its own and one of those addresses as its first is stored with
  the same tags.\<close>

theorem tags_follow_address:
  assumes "devices c p = Some x" "m \<in> set (macs (dev x))" "to_lower (trim_space m) \<noteq> []"
    and "ts \<noteq> []" "pdid d \<notin> {[], p}" "sticky_tags c (pdid d) = None" "macs d = m # ms"
  shows "\<exists>y. devices (upsert_device e d (set_tags p ts c)) (pdid d) = Some y \<and>
    local_tags y = ts \<and> dev_tags (dev y) = ts"
proof (rule upsert_entry_tags)
  show "pdid d \<noteq> []" using assms(5) by simp
  show "sticky_tags (set_tags p ts c) (pdid d) \<in> {None, Some []}"
    using assms(5,6) by (auto simp: set_tags_def patch_device_def bump_revision_def Let_def split: option.splits)
  have "sticky_macs (set_tags p ts c) (to_lower (trim_space m)) = Some ts"
    using foldl_store_mac_tags [OF assms(2,3)] assms(1,4)
    by (simp add: set_tags_def patch_device_def bump_revision_def)
  then show "mac_sticky (sticky_macs (set_tags p ts c)) (macs d) = Some ts"
    using assms(4,7) by simp
qed

lemma tags_follow_address_witness:
  "\<exists>y. devices (upsert_device False (laptop\<lparr>pdid := ''pdid_b''\<rparr>)
      (set_tags ''pdid_a'' [''kids''] (upsert_device False laptop new_cache))) ''pdid_b'' = Some y \<and>
    local_tags y = [''kids''] \<and> dev_tags (dev y) = [''kids'']"
proof -
  let ?c = "upsert_device False laptop new_cache" and ?m = "''AA:BB:CC:00:11:22''"
  obtain x where x: "devices ?c ''pdid_a'' = Some x" "?m \<in> set (macs (dev x))"
    by (simp add: upsert_device_def apply_sticky_tag_def bump_revision_def new_cache_def laptop_def
        default_tags_def apply_local_metadata_def set_local_tags_def Let_def)
  have "to_lower (trim_space ?m) \<noteq> []" by code_simp
  moreover have "sticky_tags ?c ''pdid_b'' = None"
    by (simp add: upsert_device_def apply_sticky_tag_def bump_revision_def new_cache_def laptop_def
        default_tags_def apply_local_metadata_def set_local_tags_def Let_def)
  ultimately show ?thesis
    using tags_follow_address [OF x, of "[''kids'']" "laptop\<lparr>pdid := ''pdid_b''\<rparr>" "[]" False]
    by (simp add: laptop_def)
qed

lemma remember_macs_apply:
  "remember_macs ts sm ms q =
    (if ts \<noteq> [] \<and> q \<noteq> [] \<and> q \<in> (\<lambda>m. to_lower (trim_space m)) ` set ms then Some ts else sm q)"
proof (induction ms arbitrary: sm)
  case (Cons m ms)
  have "remember_macs ts sm (m # ms) = remember_macs ts
      (if to_lower (trim_space m) \<noteq> [] \<and> ts \<noteq> [] then sm(to_lower (trim_space m) \<mapsto> ts) else sm) ms"
    by (simp add: remember_macs_def Let_def)
  then show ?case
    unfolding list.set image_insert insert_iff
    by (cases "to_lower (trim_space m) = []") (auto simp: Cons.IH simp del: to_lower_Nil)
qed (simp add: remember_macs_def)

lemma remember_macs_idem: "remember_macs ts (remember_macs ts sm ms) ms = remember_macs ts sm ms"
  by (rule ext) (simp add: remember_macs_apply)

lemma overlay_idem: "overlay ts name uid (overlay ts name uid d) = overlay ts name uid d"
  by (simp add: overlay_def set_local_tags_def Let_def)

text \<open>Applying a committed identity migration to the cache again changes nothing but the revision,
  so a replayed migration event is harmless.\<close>

theorem reconcile_replay:
  assumes "old \<noteq> new"
  shows "(reconcile_identity_migration old new mms tags name uid
      (reconcile_identity_migration old new mms tags name uid c))\<lparr>revision := r\<rparr> =
    (reconcile_identity_migration old new mms tags name uid c)\<lparr>revision := r\<rparr>"
  using assms
  by (intro cache.equality)
    (auto simp: reconcile_identity_migration_def bump_revision_def remember_macs_idem overlay_idem
      Let_def fun_eq_iff split: option.splits)

lemma reconcile_replay_witness:
  "(reconcile_identity_migration ''a'' ''b'' [''m''] [''kids''] ''Tablet'' []
      (reconcile_identity_migration ''a'' ''b'' [''m''] [''kids''] ''Tablet'' [] new_cache))\<lparr>revision := 0\<rparr> =
    (reconcile_identity_migration ''a'' ''b'' [''m''] [''kids''] ''Tablet'' [] new_cache)\<lparr>revision := 0\<rparr>"
  by (rule reconcile_replay) simp

text \<open>\<open>MigrateDeviceIdentity\<close> moves the remembered tags without showing them on a surviving device: a
  device tagged \<open>infrastructure\<close> under its old identity keeps its other tags under the new one until
  the next full update.\<close>

definition stale_before :: cache where
  "stale_before = upsert_device False (laptop\<lparr>pdid := ''pdid_b'', macs := []\<rparr>)
     (set_tags ''pdid_a'' [''infrastructure''] (upsert_device False laptop new_cache))"

lemma migrate_leaves_old_tags:
  "cache_ok stale_before \<and> \<not> cache_ok (migrate_device_identity ''pdid_a'' ''pdid_b'' stale_before)"
proof
  show "cache_ok stale_before" unfolding stale_before_def
    by (intro cache_ok_upsert cache_ok_set_tags cache_ok_new)
  let ?c = "migrate_device_identity ''pdid_a'' ''pdid_b'' stale_before"
  have "\<exists>d. devices ?c ''pdid_b'' = Some d \<and> local_tags d = [''generic'']"
    "sticky_tags ?c ''pdid_b'' = Some [''infrastructure'']"
    by (simp_all add: stale_before_def migrate_device_identity_def set_tags_def upsert_device_def
        apply_sticky_tag_def bump_revision_def new_cache_def laptop_def default_tags_def patch_device_def
        apply_local_metadata_def set_local_tags_def local_pdid_def Let_def empty_device_def)
  then show "\<not> cache_ok ?c"
    unfolding cache_ok_def tags_shown_def by force
qed

end
