(* ===== verification/Schedule_Engine.thy ===== *)
theory Schedule_Engine
  imports Schedule_Eval Lias_Cache "HOL-Library.Multiset"
begin

text \<open>
  \<open>apps/lias/internal/schedule/engine.go\<close>: the store of schedules with its cache of merged bundles,
  the verdict of a bundle, and the pass that announces the next state change of every device. The
  time-zone database and the clock reading of a call are arguments.
\<close>

subsection \<open>State and operations\<close>

record engine =
  eng_schedules :: "string \<rightharpoonup> schedule"
  eng_merged :: "string \<rightharpoonup> schedule"
  eng_reverse :: "string \<rightharpoonup> string list"

definition new_engine :: engine where
  "new_engine = \<lparr>eng_schedules = Map.empty, eng_merged = Map.empty, eng_reverse = Map.empty\<rparr>"

definition bundle_key :: "string list \<Rightarrow> string" where
  "bundle_key ids = join ''+'' (sort ids)"

definition invalidate_cache_for :: "string \<Rightarrow> engine \<Rightarrow> engine" where
  "invalidate_cache_for i e =
     (case eng_reverse e i of
        None \<Rightarrow> e
      | Some ks \<Rightarrow> e\<lparr>eng_merged := foldl (\<lambda>m k. m(k := None)) (eng_merged e) ks,
                     eng_reverse := (eng_reverse e)(i := None)\<rparr>)"

definition upsert_schedule :: "schedule \<Rightarrow> engine \<Rightarrow> engine" where
  "upsert_schedule s e =
     invalidate_cache_for (sched_id s) (e\<lparr>eng_schedules := (eng_schedules e)(sched_id s \<mapsto> s)\<rparr>)"

definition delete_schedule :: "string \<Rightarrow> engine \<Rightarrow> engine" where
  "delete_schedule i e = invalidate_cache_for i (e\<lparr>eng_schedules := (eng_schedules e)(i := None)\<rparr>)"

definition get_schedule :: "string \<Rightarrow> engine \<Rightarrow> schedule option" where
  "get_schedule i e = eng_schedules e i"

definition list_schedules :: "string list \<Rightarrow> engine \<Rightarrow> schedule list" where
  "list_schedules ks e = range_values (eng_schedules e) ks"

text \<open>The verdict of a merged schedule; an evaluation error fails closed.\<close>

definition verdict :: "tzdb \<Rightarrow> time \<Rightarrow> schedule \<Rightarrow> action" where
  "verdict tzdb now m = (case evaluate tzdb m now of Inr a \<Rightarrow> a | Inl _ \<Rightarrow> ActionBlock)"

definition remember_bundle :: "string list \<Rightarrow> string \<Rightarrow> schedule \<Rightarrow> engine \<Rightarrow> engine" where
  "remember_bundle ids key m e =
     e\<lparr>eng_merged := (eng_merged e)(key \<mapsto> m),
       eng_reverse := foldl (\<lambda>r i. r(i \<mapsto> (case r i of Some ks \<Rightarrow> ks | None \<Rightarrow> []) @ [key])) (eng_reverse e) ids\<rparr>"

definition evaluate_bundle :: "tzdb \<Rightarrow> time \<Rightarrow> string list \<Rightarrow> engine \<Rightarrow> action \<times> engine" where
  "evaluate_bundle tzdb now ids e =
     (if length ids = 0 then (ActionAllow, e)
      else let key = bundle_key ids in
        (case eng_merged e key of
           Some m \<Rightarrow> (verdict tzdb now m, e)
         | None \<Rightarrow>
             (case those (map (eng_schedules e) ids) of
                None \<Rightarrow> (ActionBlock, e)
              | Some resolved \<Rightarrow>
                  (case merge_schedules resolved of (merged, conflicts, err) \<Rightarrow>
                     if err \<noteq> None \<or> 0 < length conflicts then (ActionBlock, e)
                     else (verdict tzdb now merged, remember_bundle ids key merged e)))))"

definition evaluate_now :: "tzdb \<Rightarrow> time \<Rightarrow> string \<Rightarrow> engine \<Rightarrow> action \<times> engine" where
  "evaluate_now tzdb now i e = (if i = [] then (ActionAllow, e) else evaluate_bundle tzdb now [i] e)"

text \<open>One device of \<open>updateNextStateChanges\<close>; the last component is \<open>minNextChange\<close>.\<close>

definition update_device ::
  "(local_device \<Rightarrow> policy) \<Rightarrow> tzdb \<Rightarrow> time \<Rightarrow> engine \<times> cache \<times> time option \<Rightarrow> local_device \<Rightarrow>
   engine \<times> cache \<times> time option" where
  "update_device provide tzdb now = (\<lambda>(e, c, mn) d.
     (let pol = provide d in
      if pol_action pol = ActionSchedule then
        (let ids = get_schedule_ids pol in
         if 0 < length ids then
           (let key = bundle_key ids;
                e1 = (if eng_merged e key = None then snd (evaluate_bundle tzdb now ids e) else e)
            in case eng_merged e1 key of
                 None \<Rightarrow> (e1, c, mn)
               | Some m \<Rightarrow>
                   (case next_state_change tzdb m now of
                      Inl _ \<Rightarrow> (e1, c, mn)
                    | Inr t \<Rightarrow> (e1, set_next_state_change (local_pdid d) (Some t) c,
                        (case mn of None \<Rightarrow> Some t | Some u \<Rightarrow> if t < u then Some t else Some u))))
         else (e, set_next_state_change (local_pdid d) None c, mn))
      else (e, set_next_state_change (local_pdid d) None c, mn)))"

text \<open>The pass over the listed devices. The result is the delay of the transition timer, when one is
  armed; an earlier timer has been stopped in either case.\<close>

definition update_next_state_changes ::
  "(local_device \<Rightarrow> policy) option \<Rightarrow> tzdb \<Rightarrow> time \<Rightarrow> string list \<Rightarrow> engine \<times> cache \<Rightarrow>
   engine \<times> cache \<times> duration option" where
  "update_next_state_changes provider tzdb now ks = (\<lambda>(e, c).
     (let devs = cache_list ks c;
          (e', c', mn) = (case provider of None \<Rightarrow> (e, c, None)
            | Some provide \<Rightarrow> foldl (update_device provide tzdb now) (e, c, None) devs)
      in (e', c', (case mn of None \<Rightarrow> None
           | Some t \<Rightarrow> Some (let dur = time_sub t now in if dur < 0 then 0 else dur)))))"

subsection \<open>The cache of bundles is coherent\<close>

definition cached_from :: "engine \<Rightarrow> string \<Rightarrow> schedule \<Rightarrow> string list \<Rightarrow> bool" where
  "cached_from e k m ids \<longleftrightarrow> ids \<noteq> [] \<and> bundle_key ids = k \<and>
     (\<exists>ss. those (map (eng_schedules e) ids) = Some ss \<and> merge_schedules ss = (m, [], None)) \<and>
     (\<forall>i \<in> set ids. \<exists>ks. eng_reverse e i = Some ks \<and> k \<in> set ks)"

definition engine_ok :: "engine \<Rightarrow> bool" where
  "engine_ok e \<longleftrightarrow> (\<forall>i s. eng_schedules e i = Some s \<longrightarrow> sched_id s = i) \<and>
     (\<forall>k m. eng_merged e k = Some m \<longrightarrow> (\<exists>ids. cached_from e k m ids))"

lemma engine_okD:
  assumes "engine_ok e"
  shows "eng_schedules e i = Some s \<Longrightarrow> sched_id s = i"
    and "eng_merged e k = Some m \<Longrightarrow> \<exists>ids. cached_from e k m ids"
  using assms by (simp_all add: engine_ok_def)

lemma engine_ok_new [cache_inv]: "engine_ok new_engine"
  by (simp add: engine_ok_def new_engine_def)

lemma foldl_delete: "foldl (\<lambda>m k. m(k := None)) m ks = (\<lambda>k. if k \<in> set ks then None else m k)"
  by (induction ks arbitrary: m) (auto simp: fun_eq_iff)

lemma those_map_cong: "(\<And>i. i \<in> set is \<Longrightarrow> f i = g i) \<Longrightarrow> those (map f is) = those (map g is)"
  by (metis map_cong)

lemma schedules_invalidate [simp]: "eng_schedules (invalidate_cache_for i e) = eng_schedules e"
  by (simp add: invalidate_cache_for_def split: option.splits)

lemma cached_invalidate:
  assumes "cached_from e k m ids" "eng_merged (invalidate_cache_for i e') k = Some m"
    and "\<And>j. j \<noteq> i \<Longrightarrow> eng_schedules e' j = eng_schedules e j" "eng_reverse e' = eng_reverse e"
  shows "cached_from (invalidate_cache_for i e') k m ids"
proof -
  have "i \<notin> set ids"
  proof
    assume "i \<in> set ids"
    then obtain ks where "eng_reverse e i = Some ks" "k \<in> set ks"
      using assms(1) unfolding cached_from_def by blast
    with assms(2,4) show False by (simp add: invalidate_cache_for_def foldl_delete)
  qed
  then have "those (map (eng_schedules (invalidate_cache_for i e')) ids) = those (map (eng_schedules e) ids)"
    using assms(3) \<open>i \<notin> set ids\<close>
    by (intro those_map_cong) (metis schedules_invalidate)
  moreover have "\<forall>j \<in> set ids. eng_reverse (invalidate_cache_for i e') j = eng_reverse e j"
    using \<open>i \<notin> set ids\<close> assms(4) by (auto simp: invalidate_cache_for_def split: option.splits)
  ultimately show ?thesis using assms(1) unfolding cached_from_def by simp
qed

lemma merged_invalidate:
  "eng_merged (invalidate_cache_for i e) k = Some m \<Longrightarrow> eng_merged e k = Some m"
  by (auto simp: invalidate_cache_for_def foldl_delete split: option.splits if_splits)

lemma engine_ok_invalidate:
  assumes "engine_ok e" "eng_reverse e' = eng_reverse e" "eng_merged e' = eng_merged e"
    and "\<And>j. j \<noteq> i \<Longrightarrow> eng_schedules e' j = eng_schedules e j"
    and "\<And>s. eng_schedules e' i = Some s \<Longrightarrow> sched_id s = i"
  shows "engine_ok (invalidate_cache_for i e')"
  unfolding engine_ok_def
proof (intro conjI allI impI)
  fix j s assume "eng_schedules (invalidate_cache_for i e') j = Some s"
  then show "sched_id s = j" using assms(1,4,5) by (cases "j = i") (auto simp: engine_ok_def)
next
  fix k m assume m: "eng_merged (invalidate_cache_for i e') k = Some m"
  then have "eng_merged e k = Some m" using merged_invalidate assms(3) by metis
  then obtain ids where "cached_from e k m ids" using engine_okD(2) [OF assms(1)] by blast
  then show "\<exists>ids. cached_from (invalidate_cache_for i e') k m ids"
    using cached_invalidate [OF _ m assms(4,2)] by blast
qed

lemma engine_ok_upsert [cache_inv]: "engine_ok e \<Longrightarrow> engine_ok (upsert_schedule s e)"
  unfolding upsert_schedule_def by (erule engine_ok_invalidate) auto

lemma engine_ok_delete [cache_inv]: "engine_ok e \<Longrightarrow> engine_ok (delete_schedule i e)"
  unfolding delete_schedule_def by (erule engine_ok_invalidate) auto

lemma foldl_reverse:
  "(\<exists>ks. foldl (\<lambda>r i. r(i \<mapsto> (case r i of Some ks \<Rightarrow> ks | None \<Rightarrow> []) @ [key])) r ids j = Some ks \<and> k \<in> set ks)
    \<longleftrightarrow> (\<exists>ks. r j = Some ks \<and> k \<in> set ks) \<or> j \<in> set ids \<and> k = key"
proof (induction ids arbitrary: r)
  case (Cons i ids)
  show ?case unfolding foldl_Cons Cons.IH by (cases "r i") auto
qed simp

lemma engine_ok_remember:
  assumes "engine_ok e" "ids \<noteq> []" "those (map (eng_schedules e) ids) = Some ss"
    and "merge_schedules ss = (m, [], None)"
  shows "engine_ok (remember_bundle ids (bundle_key ids) m e)"
  unfolding engine_ok_def
proof (intro conjI allI impI)
  let ?e = "remember_bundle ids (bundle_key ids) m e"
  fix j s assume "eng_schedules ?e j = Some s"
  then show "sched_id s = j" using assms(1) by (simp add: remember_bundle_def engine_ok_def)
next
  let ?e = "remember_bundle ids (bundle_key ids) m e"
  fix k m' assume k: "eng_merged ?e k = Some m'"
  show "\<exists>ids. cached_from ?e k m' ids"
  proof (cases "k = bundle_key ids")
    case True
    then have "cached_from ?e k m' ids"
      using k assms(2-4) by (simp add: cached_from_def remember_bundle_def foldl_reverse)
    then show ?thesis ..
  next
    case False
    then have "eng_merged e k = Some m'" using k by (simp add: remember_bundle_def)
    then obtain ids' where "cached_from e k m' ids'" using engine_okD(2) [OF assms(1)] by blast
    then have "cached_from ?e k m' ids'"
      by (simp add: cached_from_def remember_bundle_def foldl_reverse)
    then show ?thesis ..
  qed
qed

lemma engine_ok_evaluate_bundle [cache_inv]:
  assumes "engine_ok e"
  shows "engine_ok (snd (evaluate_bundle tzdb now ids e))"
  using assms engine_ok_remember [OF assms, of ids]
  by (auto simp: evaluate_bundle_def Let_def split: option.splits prod.splits)

lemma engine_ok_evaluate_now [cache_inv]:
  "engine_ok e \<Longrightarrow> engine_ok (snd (evaluate_now tzdb now i e))"
  by (simp add: evaluate_now_def engine_ok_evaluate_bundle)

lemma schedules_evaluate_bundle [simp]:
  "eng_schedules (snd (evaluate_bundle tzdb now ids e)) = eng_schedules e"
  by (auto simp: evaluate_bundle_def remember_bundle_def Let_def split: option.splits prod.splits)

subsection \<open>The verdict of a bundle refines its specification\<close>

text \<open>The specification does without a cache: nothing is restricted without a schedule; a bundle with
  a missing member or with contradictions is blocked; otherwise the bundle is composed and
  evaluated.\<close>

definition bundle_spec :: "tzdb \<Rightarrow> time \<Rightarrow> (string \<rightharpoonup> schedule) \<Rightarrow> string list \<Rightarrow> action" where
  "bundle_spec tzdb now scheds ids =
     (if ids = [] then ActionAllow
      else (case those (map scheds ids) of
              None \<Rightarrow> ActionBlock
            | Some ss \<Rightarrow> if snd (snd (merge_schedules ss)) = None
                then verdict tzdb now (compose_schedules ss) else ActionBlock))"

definition plain_schedules :: "tzdb \<Rightarrow> (string \<rightharpoonup> schedule) \<Rightarrow> bool" where
  "plain_schedules tzdb scheds \<longleftrightarrow> (\<forall>s \<in> ran scheds.
     (\<exists>off. \<bar>off\<bar> \<le> 86400 \<and> eval_location tzdb s = fixed_zone off) \<and> (\<forall>r \<in> set (sched_rules s). plain_rule r))"

definition plus_free :: "string list \<Rightarrow> bool" where
  "plus_free ids \<longleftrightarrow> (\<forall>i \<in> set ids. CHR ''+'' \<notin> set i)"

lemma those_Some: "those xs = Some ys \<longleftrightarrow> xs = map Some ys"
  by (induction xs arbitrary: ys) (auto split: option.splits)

lemma those_map_set:
  assumes "those (map f xs) = Some ys"
  shows "set ys = {y. \<exists>x \<in> set xs. f x = Some y}" "length ys = length xs" "\<forall>x \<in> set xs. \<exists>y. f x = Some y"
  using assms by (induction xs arbitrary: ys) (auto split: option.splits)

lemma those_map_defined: "\<forall>x \<in> set xs. f x \<noteq> None \<Longrightarrow> \<exists>ys. those (map f xs) = Some ys"
  by (induction xs) auto

text \<open>What a merge accepts and how a composed bundle of plain schedules evaluates depends only on the
  set of its members.\<close>

lemma bundle_consistent_set:
  assumes "set ss = set ss'" "ss \<noteq> []" "bundle_consistent ss"
  shows "bundle_consistent ss'"
proof -
  have "ss' \<noteq> []" using assms(1,2) by auto
  then have "hd ss' \<in> set ss" using assms(1) by simp
  moreover have "set (concat (map sched_rules ss')) = set (concat (map sched_rules ss))"
    using assms(1) by simp
  ultimately show ?thesis
    using assms(1,3) unfolding bundle_consistent_def agree_at_def by metis
qed

lemma evaluate_decided:
  assumes "sane off t" "eval_location tzdb m = fixed_zone off" "\<forall>r \<in> set (sched_rules m). plain_rule r"
    and "agree_at (sched_rules m) (week_minute off t)"
  shows "\<exists>a. evaluate tzdb m t = Inr a \<and>
    (if \<exists>r \<in> set (sched_rules m). rule_covers r (week_minute off t)
     then \<exists>r \<in> set (sched_rules m). rule_covers r (week_minute off t) \<and> a = rule_action r
     else a = default_action m)"
proof -
  let ?act = "filter (\<lambda>r. rule_active r (week_minute off t)) (sched_rules m)"
  have "weekly m" using assms(3) by (auto simp: weekly_def plain_rule_def)
  note ev = evaluate_weekly_rules [OF assms(1,2) this]
  have s: "set (sort_key rule_length ?act) =
      {r \<in> set (sched_rules m). rule_covers r (week_minute off t)}"
    using assms(3) rule_active_covers by auto
  show ?thesis
  proof (cases "sort_key rule_length ?act")
    case Nil
    then have "\<not> (\<exists>r \<in> set (sched_rules m). rule_covers r (week_minute off t))" using s by auto
    then show ?thesis by (simp add: ev Nil)
  next
    case (Cons q qs)
    then have "q \<in> {r \<in> set (sched_rules m). rule_covers r (week_minute off t)}" using s by auto
    then show ?thesis by (auto simp: ev Cons)
  qed
qed

lemma eval_location_compose: "eval_location tzdb (compose_schedules ss) = eval_location tzdb (hd ss)"
  by (simp add: eval_location_def compose_schedules_def)

lemma verdict_set:
  assumes "set ss = set ss'" "ss \<noteq> []" "bundle_consistent ss" "\<bar>off\<bar> \<le> 86400" "sane off now"
    and "\<forall>s \<in> set ss. eval_location tzdb s = fixed_zone off \<and> (\<forall>r \<in> set (sched_rules s). plain_rule r)"
  shows "verdict tzdb now (compose_schedules ss) = verdict tzdb now (compose_schedules ss')"
proof -
  let ?m = "compose_schedules ss" and ?m' = "compose_schedules ss'" and ?w = "week_minute off now"
  have ne: "ss' \<noteq> []" using assms(1,2) by auto
  have r: "set (sched_rules ?m) = set (sched_rules ?m')"
    using assms(1) by (simp add: compose_schedules_def)
  have d: "default_action ?m = default_action ?m'"
    using assms(1) by (simp add: compose_schedules_def default_action_def)
  have z: "eval_location tzdb ?m = fixed_zone off" "eval_location tzdb ?m' = fixed_zone off"
    using assms(1,6) hd_in_set [OF assms(2)] hd_in_set [OF ne] eval_location_compose by metis+
  have p: "\<forall>r \<in> set (sched_rules ?m). plain_rule r"
    using assms(6) by (auto simp: compose_schedules_def)
  have a: "agree_at (sched_rules ?m) ?w"
    using assms(3) week_minute_range [of off now] by (simp add: bundle_consistent_def compose_schedules_def)
  have a': "agree_at (sched_rules ?m') ?w" using a unfolding agree_at_def r .
  obtain x where x: "evaluate tzdb ?m now = Inr x"
      "if \<exists>r \<in> set (sched_rules ?m). rule_covers r ?w
       then \<exists>r \<in> set (sched_rules ?m). rule_covers r ?w \<and> x = rule_action r else x = default_action ?m"
    using evaluate_decided [OF assms(5) z(1) p a] by blast
  obtain y where y: "evaluate tzdb ?m' now = Inr y"
      "if \<exists>r \<in> set (sched_rules ?m'). rule_covers r ?w
       then \<exists>r \<in> set (sched_rules ?m'). rule_covers r ?w \<and> y = rule_action r else y = default_action ?m'"
    using evaluate_decided [OF assms(5) z(2) _ a'] p r by auto
  have "x = y"
  proof (cases "\<exists>r \<in> set (sched_rules ?m). rule_covers r ?w")
    case True
    then show ?thesis using x(2) y(2) a unfolding r agree_at_def by auto
  next
    case False
    then show ?thesis using x(2) y(2) d unfolding r by auto
  qed
  then show ?thesis by (simp add: verdict_def x(1) y(1))
qed

lemma ids_unique_resolved:
  assumes "engine_ok e" "those (map (eng_schedules e) ids) = Some ss"
  shows "ids_unique ss"
  using assms(1) unfolding ids_unique_def those_map_set(1) [OF assms(2)] engine_ok_def by fastforce

lemma bundle_key_set:
  assumes "bundle_key ids = bundle_key ids'" "plus_free ids" "plus_free ids'" "ids \<noteq> []" "ids' \<noteq> []"
  shows "set ids = set ids'"
proof -
  have "sort ids = sort ids'"
    using assms by (intro join_inject [where c = "CHR ''+''"]) (auto simp: bundle_key_def plus_free_def)
  then show ?thesis by (metis set_sort)
qed

lemma merge_ok_iff:
  "ss \<noteq> [] \<Longrightarrow> snd (snd (merge_schedules ss)) = None \<Longrightarrow> merge_schedules ss = (compose_schedules ss, [], None)"
  using merge_result [of ss "fst (merge_schedules ss)" "fst (snd (merge_schedules ss))"]
  by (metis prod.collapse)

text \<open>An error of the merge leaves no conflicts only when there is no error.\<close>

lemma merge_conflicts_error: "snd (snd (merge_schedules ss)) = None \<Longrightarrow> fst (snd (merge_schedules ss)) = []"
  using merge_ok_iff [of ss] by (cases "ss = []") (auto simp: merge_schedules_def)

lemma evaluate_bundle_uncached:
  assumes "ids \<noteq> []" "eng_merged e (bundle_key ids) = None"
  shows "fst (evaluate_bundle tzdb now ids e) = bundle_spec tzdb now (eng_schedules e) ids"
proof (cases "those (map (eng_schedules e) ids)")
  case None
  then show ?thesis using assms by (simp add: evaluate_bundle_def bundle_spec_def)
next
  case (Some ss)
  then have ne: "ss \<noteq> []" using assms(1) those_map_set(2) by fastforce
  show ?thesis
  proof (cases "snd (snd (merge_schedules ss))")
    case None
    show ?thesis using assms Some merge_ok_iff [OF ne None] by (simp add: evaluate_bundle_def bundle_spec_def)
  next
    case (Some x)
    obtain m cs where "merge_schedules ss = (m, cs, Some x)" using Some by (metis prod.collapse)
    then show ?thesis
      using assms \<open>those _ = Some ss\<close> by (simp add: evaluate_bundle_def bundle_spec_def)
  qed
qed

lemma eval_location_zone:
  "sched_timezone s = sched_timezone s' \<Longrightarrow> eval_location tzdb s = eval_location tzdb s'"
  by (simp add: eval_location_def)

lemma evaluate_bundle_refines:
  assumes "engine_ok e" "plus_free ids" "\<forall>i \<in> dom (eng_schedules e). CHR ''+'' \<notin> set i"
    and "plain_schedules tzdb (eng_schedules e)" "\<bar>now div second\<bar> \<le> 2 ^ 62"
  shows "fst (evaluate_bundle tzdb now ids e) = bundle_spec tzdb now (eng_schedules e) ids"
proof (cases "ids = [] \<or> eng_merged e (bundle_key ids) = None")
  case True
  then show ?thesis
    using evaluate_bundle_uncached [of ids e] by (cases "ids = []") (auto simp: evaluate_bundle_def bundle_spec_def)
next
  case False
  then obtain m where ne: "ids \<noteq> []" and m: "eng_merged e (bundle_key ids) = Some m" by auto
  then obtain ids' where c: "cached_from e (bundle_key ids) m ids'"
    using engine_okD(2) [OF assms(1)] by blast
  then obtain ss' where k: "bundle_key ids' = bundle_key ids" "ids' \<noteq> []"
      and ss': "those (map (eng_schedules e) ids') = Some ss'" "merge_schedules ss' = (m, [], None)"
    by (auto simp: cached_from_def)
  note f' = those_map_set [OF ss'(1)]
  have ne': "ss' \<noteq> []" using f'(2) k(2) by auto
  have "plus_free ids'"
    using f'(3) assms(3) by (auto simp: plus_free_def dom_def)
  then have s: "set ids' = set ids"
    using bundle_key_set [OF k(1)] assms(2) ne k(2) by blast
  then obtain ss where ss: "those (map (eng_schedules e) ids) = Some ss"
    using those_map_defined [of ids "eng_schedules e"] f'(3) by auto
  note f = those_map_set [OF ss]
  have eq: "set ss' = set ss" using f(1) f'(1) s by simp
  have nes: "ss \<noteq> []" using f(2) ne by auto
  have m': "m = compose_schedules ss'" using merge_result(1) [OF ne' ss'(2)] .
  have con': "bundle_consistent ss'"
    using merge_error_consistent [OF ne' ids_unique_resolved [OF assms(1) ss'(1)]] ss'(2) by simp
  have "bundle_consistent ss" by (rule bundle_consistent_set [OF eq ne' con'])
  then have acc: "snd (snd (merge_schedules ss)) = None"
    using merge_error_consistent [OF nes ids_unique_resolved [OF assms(1) ss]] by simp
  have ran: "set ss' \<subseteq> ran (eng_schedules e)" using f'(1) by (auto simp: ran_def)
  obtain off where off: "\<bar>off\<bar> \<le> 86400" "eval_location tzdb (hd ss') = fixed_zone off"
    using assms(4) ran hd_in_set [OF ne'] unfolding plain_schedules_def by blast
  have "\<forall>s \<in> set ss'. eval_location tzdb s = fixed_zone off \<and> (\<forall>r \<in> set (sched_rules s). plain_rule r)"
    using assms(4) ran off(2) con' eval_location_zone unfolding plain_schedules_def bundle_consistent_def
    by (metis subsetD)
  moreover have "sane off now" using off(1) assms(5) by (simp add: sane_def)
  ultimately have "verdict tzdb now (compose_schedules ss') = verdict tzdb now (compose_schedules ss)"
    using verdict_set [OF eq ne' con' off(1)] by blast
  then show ?thesis
    using ne m acc ss by (simp add: evaluate_bundle_def bundle_spec_def m')
qed

subsection \<open>The engine over a run\<close>

inductive engine_reachable :: "engine \<Rightarrow> bool" where
  engine_start: "engine_reachable new_engine"
| engine_upsert: "engine_reachable e \<Longrightarrow> engine_reachable (upsert_schedule s e)"
| engine_delete: "engine_reachable e \<Longrightarrow> engine_reachable (delete_schedule i e)"
| engine_evaluate: "engine_reachable e \<Longrightarrow> engine_reachable (snd (evaluate_bundle tzdb now ids e))"

lemma engine_reachable_ok: "engine_reachable e \<Longrightarrow> engine_ok e"
  by (induction rule: engine_reachable.induct) (auto intro: cache_inv)

text \<open>Whatever edits and evaluations came before, the verdict of a bundle is the one computed
  afresh from the schedules now stored: the cache of merged bundles is never stale and never
  confuses two bundles. (Ids without a plus sign, weekly rules, zones of constant offset.)\<close>

theorem bundle_verdict_fresh:
  assumes "engine_reachable e" "plus_free ids" "\<forall>i \<in> dom (eng_schedules e). CHR ''+'' \<notin> set i"
    and "plain_schedules tzdb (eng_schedules e)" "\<bar>now div second\<bar> \<le> 2 ^ 62"
  shows "fst (evaluate_bundle tzdb now ids e) = bundle_spec tzdb now (eng_schedules e) ids"
  using evaluate_bundle_refines [OF engine_reachable_ok [OF assms(1)] assms(2-5)] .

definition school_engine :: engine where
  "school_engine = snd (evaluate_bundle (\<lambda>_. None) 0 [''school''] (upsert_schedule school_nights new_engine))"

lemma school_engine_facts:
  "engine_reachable school_engine" "eng_schedules school_engine = [''school'' \<mapsto> school_nights]"
  "plain_schedules (\<lambda>_. None) (eng_schedules school_engine)"
proof -
  show "engine_reachable school_engine" unfolding school_engine_def
    by (intro engine_start engine_upsert engine_evaluate)
  show s: "eng_schedules school_engine = [''school'' \<mapsto> school_nights]"
    by (simp add: school_engine_def upsert_schedule_def new_engine_def school_nights_def)
  have "\<forall>r \<in> set (sched_rules school_nights). plain_rule r" by code_simp
  moreover have "eval_location (\<lambda>_. None) school_nights = fixed_zone 0"
    by (simp add: eval_location_def load_location_def school_nights_def utc_fixed_zone)
  ultimately show "plain_schedules (\<lambda>_. None) (eng_schedules school_engine)"
    by (auto simp: plain_schedules_def s intro: exI [of _ 0])
qed

lemma bundle_verdict_fresh_witness:
  "fst (evaluate_bundle (\<lambda>_. None) (4 * 86400 * second) [''school''] school_engine) =
   bundle_spec (\<lambda>_. None) (4 * 86400 * second) [''school'' \<mapsto> school_nights] [''school'']"
  using bundle_verdict_fresh [OF school_engine_facts(1) _ _ school_engine_facts(3),
      of "[''school'']" "4 * 86400 * second"]
  by (simp add: plus_free_def school_engine_facts(2))

lemma cached_members:
  assumes "engine_ok e" "plus_free ids" "ids \<noteq> []" "\<forall>i \<in> dom (eng_schedules e). CHR ''+'' \<notin> set i"
    and "eng_merged e (bundle_key ids) = Some m"
  shows "\<exists>ss. those (map (eng_schedules e) ids) = Some ss \<and> bundle_consistent ss"
proof -
  obtain ids' ss' where k: "bundle_key ids' = bundle_key ids" "ids' \<noteq> []"
      and ss': "those (map (eng_schedules e) ids') = Some ss'" "merge_schedules ss' = (m, [], None)"
    using engine_okD(2) [OF assms(1,5)] unfolding cached_from_def by blast
  note f' = those_map_set [OF ss'(1)]
  have ne': "ss' \<noteq> []" using f'(2) k(2) by auto
  have "plus_free ids'" using f'(3) assms(4) by (auto simp: plus_free_def dom_def)
  then have s: "set ids' = set ids" using bundle_key_set [OF k(1)] assms(2,3) k(2) by blast
  then obtain ss where ss: "those (map (eng_schedules e) ids) = Some ss"
    using those_map_defined [of ids "eng_schedules e"] f'(3) by auto
  have "set ss' = set ss" using those_map_set(1) [OF ss] f'(1) s by simp
  moreover have "bundle_consistent ss'"
    using merge_error_consistent [OF ne' ids_unique_resolved [OF assms(1) ss'(1)]] ss'(2) by simp
  ultimately show ?thesis using ss bundle_consistent_set [OF _ ne'] by blast
qed

text \<open>A bundle fails closed: when a member is missing or two members contradict each other the
  verdict is Block, also when earlier bundles were cached.\<close>

theorem bundle_fails_closed:
  assumes "engine_reachable e" "plus_free ids" "ids \<noteq> []"
    and "\<forall>i \<in> dom (eng_schedules e). CHR ''+'' \<notin> set i"
    and "\<forall>ss. those (map (eng_schedules e) ids) = Some ss \<longrightarrow> \<not> bundle_consistent ss"
  shows "fst (evaluate_bundle tzdb now ids e) = ActionBlock"
proof -
  note ok = engine_reachable_ok [OF assms(1)]
  have n: "eng_merged e (bundle_key ids) = None"
    using cached_members [OF ok assms(2-4)] assms(5) by (cases "eng_merged e (bundle_key ids)") auto
  have "snd (snd (merge_schedules ss)) \<noteq> None" if ss: "those (map (eng_schedules e) ids) = Some ss" for ss
    using merge_error_consistent [OF _ ids_unique_resolved [OF ok ss]] assms(3,5) ss
      those_map_set(2) [OF ss] by fastforce
  then show ?thesis
    using evaluate_bundle_uncached [OF assms(3) n] assms(3)
    by (auto simp: bundle_spec_def split: option.splits)
qed

lemma bundle_fails_closed_witness:
  "fst (evaluate_bundle (\<lambda>_. None) 0 [''school'', ''gone''] school_engine) = ActionBlock"
  by (rule bundle_fails_closed [OF school_engine_facts(1)])
    (simp_all add: plus_free_def school_engine_facts(2))

subsection \<open>The announced state changes\<close>

lemma set_next_devices:
  "devices (set_next_state_change p t c) q =
    (if q = p then map_option (\<lambda>d. d\<lparr>local_next := t\<rparr>) (devices c p) else devices c q)"
  by (auto simp: set_next_state_change_def patch_device_def bump_revision_def split: option.splits)

text \<open>What the pass does to the entry of one device.\<close>

lemma update_device_cases:
  obtains "snd (update_device provide tzdb now (e, c, mn) d) = (c, mn)"
      "pol_action (provide d) = ActionSchedule"
  | "snd (update_device provide tzdb now (e, c, mn) d) = (set_next_state_change (local_pdid d) None c, mn)"
  | t where "snd (update_device provide tzdb now (e, c, mn) d) =
      (set_next_state_change (local_pdid d) (Some t) c,
       Some (case mn of None \<Rightarrow> t | Some u \<Rightarrow> min t u))" "now < t"
      "pol_action (provide d) = ActionSchedule"
proof -
  let ?ids = "get_schedule_ids (provide d)" let ?key = "bundle_key ?ids"
  let ?e1 = "if eng_merged e ?key = None then snd (evaluate_bundle tzdb now ?ids e) else e"
  consider "pol_action (provide d) \<noteq> ActionSchedule \<or> ?ids = []"
    | "pol_action (provide d) = ActionSchedule" "?ids \<noteq> []" "eng_merged ?e1 ?key = None"
    | m where "pol_action (provide d) = ActionSchedule" "?ids \<noteq> []" "eng_merged ?e1 ?key = Some m"
    by blast
  then show thesis
  proof cases
    case 1
    then show thesis by (intro that(2)) (auto simp: update_device_def Let_def)
  next
    case 2
    then show thesis by (intro that(1)) (simp_all add: update_device_def Let_def)
  next
    case (3 m)
    obtain t where t: "next_state_change tzdb m now = Inr t"
      by (simp add: next_state_change_def Let_def)
    show thesis
      by (rule that(3) [of t, OF _ next_state_change_after [OF t] 3(1)])
        (use 3 t in \<open>auto simp: update_device_def Let_def min_def split: option.split\<close>)
  qed
qed

definition entry_now :: "time \<Rightarrow> time option \<Rightarrow> local_device \<Rightarrow> local_device \<Rightarrow> bool" where
  "entry_now now mn d d' \<longleftrightarrow> local_next d' \<in> {local_next d, None} \<or>
     (\<exists>t u. local_next d' = Some t \<and> now < t \<and> mn = Some u \<and> u \<le> t)"

definition earliest_set :: "time \<Rightarrow> cache \<Rightarrow> string set \<Rightarrow> time option \<Rightarrow> bool" where
  "earliest_set now c P mn \<longleftrightarrow> (\<forall>u. mn = Some u \<longrightarrow> now < u \<and>
     (\<exists>p d. p \<in> P \<and> devices c p = Some d \<and> local_next d = Some u))"

definition announced :: "time \<Rightarrow> cache \<Rightarrow> cache \<Rightarrow> time option \<Rightarrow> string set \<Rightarrow> bool" where
  "announced now c c' mn P \<longleftrightarrow>
     (\<forall>p d. devices c p = Some d \<longrightarrow>
        (\<exists>d'. devices c' p = Some d' \<and> (p \<notin> P \<longrightarrow> d' = d) \<and> entry_now now mn d d')) \<and>
     earliest_set now c' P mn"

lemma announcedD:
  assumes "announced now c c' mn P" "devices c p = Some d"
  obtains d' where "devices c' p = Some d'" "p \<notin> P \<Longrightarrow> d' = d" "entry_now now mn d d'"
  using assms unfolding announced_def by metis

lemma entry_now_min:
  "entry_now now mn d d' \<Longrightarrow> entry_now now (Some (case mn of None \<Rightarrow> t | Some u \<Rightarrow> min t u)) d d'"
  by (auto simp: entry_now_def split: option.splits)

lemma announced_step:
  assumes "announced now c c' mn P" "local_pdid d \<notin> P" "devices c (local_pdid d) \<noteq> None"
    and "snd (update_device provide tzdb now (e, c', mn) d) = (c'', mn'')"
  shows "announced now c c'' mn'' (insert (local_pdid d) P)"
proof -
  let ?q = "local_pdid d"
  obtain x where x: "devices c ?q = Some x" "devices c' ?q = Some x"
    using assms(3) announcedD [OF assms(1)] assms(2) by (metis not_None_eq)
  have es: "earliest_set now c' P mn" using assms(1) by (simp add: announced_def)
  from update_device_cases [of provide tzdb now e c' mn d] show ?thesis
  proof cases
    case 1
    then have c: "c'' = c'" "mn'' = mn" using assms(4) by auto
    have "earliest_set now c' (insert ?q P) mn" using es unfolding earliest_set_def by blast
    with assms(1) show ?thesis unfolding announced_def c by (metis insertCI)
  next
    case 2
    then have c: "c'' = set_next_state_change ?q None c'" "mn'' = mn" using assms(4) by auto
    have "earliest_set now c'' (insert ?q P) mn"
      using es assms(2) unfolding earliest_set_def c by (metis insertCI set_next_devices)
    moreover have "\<exists>d'. devices c'' p = Some d' \<and> (p \<notin> insert ?q P \<longrightarrow> d' = y) \<and> entry_now now mn y d'"
      if p: "devices c p = Some y" for p y
    proof -
      obtain d' where "devices c' p = Some d'" "p \<notin> P \<Longrightarrow> d' = y" "entry_now now mn y d'"
        using announcedD [OF assms(1) p] by metis
      then show ?thesis by (cases "p = ?q") (auto simp: c set_next_devices entry_now_def)
    qed
    ultimately show ?thesis unfolding announced_def c(2) by blast
  next
    case (3 t)
    let ?m = "Some (case mn of None \<Rightarrow> t | Some u \<Rightarrow> min t u)"
    have c: "c'' = set_next_state_change ?q (Some t) c'" "mn'' = ?m" using 3(1) assms(4) by auto
    have q: "devices c'' ?q = Some (x\<lparr>local_next := Some t\<rparr>)" using x by (simp add: c set_next_devices)
    have "earliest_set now c'' (insert ?q P) ?m"
    proof (cases "\<exists>u. mn = Some u \<and> u < t")
      case True
      then obtain u where u: "mn = Some u" "u < t" by blast
      then obtain p y where "now < u" "p \<in> P" "devices c' p = Some y" "local_next y = Some u"
        using es by (auto simp: earliest_set_def)
      then show ?thesis
        using u assms(2) by (auto simp: earliest_set_def c set_next_devices intro!: exI [of _ p])
    next
      case False
      then have "?m = Some t" by (auto simp: min_def split: option.split)
      then show ?thesis using q 3(2) by (auto simp: earliest_set_def)
    qed
    moreover have "\<exists>d'. devices c'' p = Some d' \<and> (p \<notin> insert ?q P \<longrightarrow> d' = y) \<and> entry_now now ?m y d'"
      if p: "devices c p = Some y" for p y
    proof (cases "p = ?q")
      case True
      then show ?thesis using q 3(2) by (auto simp: entry_now_def split: option.split)
    next
      case False
      obtain d' where d': "devices c' p = Some d'" "p \<notin> P \<Longrightarrow> d' = y" "entry_now now mn y d'"
        using announcedD [OF assms(1) p] by metis
      then show ?thesis using False entry_now_min [OF d'(3), of t] by (simp add: c set_next_devices)
    qed
    ultimately show ?thesis unfolding announced_def c(2) by blast
  qed
qed

lemma announced_start: "announced now c c None {}"
  by (simp add: announced_def entry_now_def earliest_set_def)

lemma announced_fold:
  assumes "announced now c c' mn P" "distinct (map local_pdid ds)"
    and "\<forall>d \<in> set ds. local_pdid d \<notin> P \<and> devices c (local_pdid d) \<noteq> None"
    and "foldl (update_device provide tzdb now) (e, c', mn) ds = (e'', c'', mn'')"
  shows "announced now c c'' mn'' (P \<union> local_pdid ` set ds)"
  using assms
proof (induction ds arbitrary: e c' mn P)
  case (Cons d ds)
  obtain e1 c1 mn1 where u: "update_device provide tzdb now (e, c', mn) d = (e1, c1, mn1)"
    by (metis prod.collapse)
  then have "announced now c c1 mn1 (insert (local_pdid d) P)"
    using Cons.prems(1,3) by (intro announced_step [where provide = provide and tzdb = tzdb and e = e]) auto
  then have "announced now c c'' mn'' (insert (local_pdid d) P \<union> local_pdid ` set ds)"
    using Cons.prems(2-4) u by (intro Cons.IH) (auto simp: image_iff)
  then show ?case by simp
qed simp

lemma cache_list_facts:
  assumes "cache_ok c" "distinct ks"
  shows "\<forall>d \<in> set (cache_list ks c). devices c (local_pdid d) \<noteq> None"
    and "distinct (map local_pdid (cache_list ks c))"
proof -
  show "\<forall>d \<in> set (cache_list ks c). devices c (local_pdid d) \<noteq> None"
    using assms(1) by (auto simp: cache_list_def set_range_values cache_ok_def placed_def local_pdid_def)
  have "map local_pdid (map snd (range_entries (devices c) ks)) = map fst (range_entries (devices c) ks)"
    using assms(1) by (auto simp: set_range_entries cache_ok_def placed_def local_pdid_def)
  then show "distinct (map local_pdid (cache_list ks c))"
    unfolding cache_list_def range_values_def by (simp only: distinct_fst_range_entries [OF assms(2)])
qed

lemma time_sub_mono: "t \<le> u \<Longrightarrow> time_sub t n \<le> time_sub u n"
  by (auto simp: time_sub_def)

lemma time_sub_pos: "n < t \<Longrightarrow> 0 < time_sub t n"
  by (auto simp: time_sub_def max_duration_def min_duration_def)

text \<open>After a pass every device shows no state change, the one it had, or one in the future for
  which the timer is armed no later; and the timer, when armed, is armed for the announced change
  of some device, so no announced change is slept through.\<close>

theorem transition_timer_earliest:
  assumes "cache_ok c" "range_order (devices c) ks"
    and "update_next_state_changes (Some provide) tzdb now ks (e, c) = (e', c', timer)"
  shows "(\<forall>p d. devices c p = Some d \<longrightarrow> (\<exists>d'. devices c' p = Some d' \<and>
      (local_next d' \<in> {local_next d, None} \<or>
       (\<exists>t dur. local_next d' = Some t \<and> now < t \<and> timer = Some dur \<and> 0 < dur \<and> dur \<le> time_sub t now)))) \<and>
    (\<forall>dur. timer = Some dur \<longrightarrow>
      (\<exists>p d' t. devices c' p = Some d' \<and> local_next d' = Some t \<and> now < t \<and> dur = time_sub t now))"
proof -
  have dk: "distinct ks" using assms(2) by (simp add: range_order_def)
  obtain mn where f: "foldl (update_device provide tzdb now) (e, c, None) (cache_list ks c) = (e', c', mn)"
      and timer: "timer = (case mn of None \<Rightarrow> None
        | Some t \<Rightarrow> Some (let dur = time_sub t now in if dur < 0 then 0 else dur))"
    using assms(3) by (auto simp: update_next_state_changes_def split: prod.splits)
  have a: "announced now c c' mn ({} \<union> local_pdid ` set (cache_list ks c))"
    using announced_fold [OF announced_start cache_list_facts(2) [OF assms(1) dk] _ f]
      cache_list_facts(1) [OF assms(1) dk] by simp
  then have u: "0 < time_sub u now" if "mn = Some u" for u
    using that time_sub_pos by (auto simp: announced_def earliest_set_def)
  have "\<exists>d'. devices c' p = Some d' \<and> (local_next d' \<in> {local_next d, None} \<or>
       (\<exists>t dur. local_next d' = Some t \<and> now < t \<and> timer = Some dur \<and> 0 < dur \<and> dur \<le> time_sub t now))"
    if p: "devices c p = Some d" for p d
  proof -
    obtain d' where d': "devices c' p = Some d'" "entry_now now mn d d'"
      using announcedD [OF a p] by metis
    then show ?thesis
      using u time_sub_mono by (fastforce simp: entry_now_def timer Let_def)
  qed
  moreover have "\<exists>p d' t. devices c' p = Some d' \<and> local_next d' = Some t \<and> now < t \<and> dur = time_sub t now"
    if dur: "timer = Some dur" for dur
  proof -
    obtain t where t: "mn = Some t" "dur = time_sub t now"
    proof (cases mn)
      case None
      then show ?thesis using dur timer by simp
    next
      case (Some t)
      then have "dur = time_sub t now" using dur timer u [OF Some] by (simp add: Let_def)
      with Some show ?thesis by (rule that)
    qed
    then have "now < t \<and> (\<exists>p d. devices c' p = Some d \<and> local_next d = Some t)"
      using a by (auto simp: announced_def earliest_set_def)
    with t(2) show ?thesis by blast
  qed
  ultimately show ?thesis by blast
qed

definition school_policy :: policy where
  "school_policy = empty_policy\<lparr>pol_action := ActionSchedule, pol_schedule_ids := [''school'']\<rparr>"

definition laptop_cache :: cache where
  "laptop_cache = upsert_device False laptop new_cache"

lemma laptop_cache_devices:
  "range_order (devices laptop_cache) [''pdid_a'']"
  by (simp add: laptop_cache_def upsert_device_def apply_sticky_tag_def bump_revision_def new_cache_def
      laptop_def apply_local_metadata_def local_pdid_def range_order_def)

lemma transition_timer_earliest_witness:
  "\<exists>e' c' timer. update_next_state_changes (Some (\<lambda>_. school_policy)) (\<lambda>_. None) 0 [''pdid_a'']
      (school_engine, laptop_cache) = (e', c', timer) \<and>
    (\<forall>dur. timer = Some dur \<longrightarrow>
      (\<exists>p d' t. devices c' p = Some d' \<and> local_next d' = Some t \<and> 0 < t \<and> dur = time_sub t 0))"
proof -
  obtain e' c' timer where u: "update_next_state_changes (Some (\<lambda>_. school_policy)) (\<lambda>_. None) 0
      [''pdid_a''] (school_engine, laptop_cache) = (e', c', timer)"
    by (metis prod.collapse)
  have "cache_ok laptop_cache" unfolding laptop_cache_def by (intro cache_ok_upsert cache_ok_new)
  from transition_timer_earliest [OF this laptop_cache_devices u] u show ?thesis by blast
qed

subsection \<open>The interface to the policy engine\<close>

text \<open>\<open>EffectivePolicyProvider\<close>: the pass needs of it that an infrastructure device is never put on a
  schedule.\<close>

locale effective_policy_provider =
  fixes provide :: "local_device \<Rightarrow> policy"
  assumes infrastructure_unscheduled:
    "''infrastructure'' \<in> set (local_tags d) \<Longrightarrow> pol_action (provide d) \<noteq> ActionSchedule"
begin

lemma update_infrastructure:
  assumes "''infrastructure'' \<in> set (local_tags d)" "cache_ok c" "devices c p = Some d"
    and "set ds \<subseteq> ran (devices c)" "distinct (map local_pdid ds)" "d \<in> set ds"
    and "foldl (update_device provide tzdb now) (e, c', mn) ds = (e'', c'', mn'')"
    and "devices c' p = Some d' "
  shows "\<exists>x. devices c'' p = Some x \<and> local_next x = None"
  using assms(4-8)
proof (induction ds arbitrary: e c' mn d')
  case (Cons a ds)
  have p: "local_pdid d = p" using cache_okD(1) [OF assms(2,3)] by (simp add: placed_def local_pdid_def)
  obtain e1 c1 mn1 where u: "update_device provide tzdb now (e, c', mn) a = (e1, c1, mn1)"
    by (metis prod.collapse)
  then have c1: "c1 = c' \<or> (\<exists>t. c1 = set_next_state_change (local_pdid a) t c')"
    using update_device_cases [of provide tzdb now e c' mn a] by (metis fst_conv snd_conv)
  then obtain d1 where d1: "devices c1 p = Some d1"
    using Cons.prems(5) by (cases "p = local_pdid a") (auto simp: set_next_devices)
  have rest: "foldl (update_device provide tzdb now) (e1, c1, mn1) ds = (e'', c'', mn'')"
    using Cons.prems(4) u by simp
  show ?case
  proof (cases "a = d")
    case True
    have "c1 = set_next_state_change p None c'"
      using infrastructure_unscheduled [OF assms(1)] u p
      by (auto simp: True update_device_def Let_def)
    then have n: "\<exists>x. devices c1 p = Some x \<and> local_next x = None"
      using Cons.prems(5) by (simp add: set_next_devices)
    have "p \<notin> local_pdid ` set ds" using Cons.prems(2) True p by auto
    with rest n show ?thesis
    proof (induction ds arbitrary: e1 c1 mn1)
      case (Cons b ds)
      obtain e2 c2 mn2 where v: "update_device provide tzdb now (e1, c1, mn1) b = (e2, c2, mn2)"
        by (metis prod.collapse)
      then have "c2 = c1 \<or> (\<exists>t. c2 = set_next_state_change (local_pdid b) t c1)"
        using update_device_cases [of provide tzdb now e1 c1 mn1 b] by (metis fst_conv snd_conv)
      then have "devices c2 p = devices c1 p" using Cons.prems(3) by (auto simp: set_next_devices)
      then show ?case using Cons.IH [of e2 c2 mn2] Cons.prems v by simp
    qed simp
  next
    case False
    then show ?thesis using Cons.IH [OF _ _ _ rest d1] Cons.prems by auto
  qed
qed simp

end

end
