(* ===== verification/Policy_Engine.thy ===== *)
theory Policy_Engine
  imports Schedule_Engine
begin

text \<open>
  \<open>apps/lias/internal/policy/engine.go\<close>: the store of policies and the precedence that turns them
  into the action for a device: infrastructure immunity, the global switch, the device's own
  policies, the policies of its tags, the global fallback. The store is a map; \<open>ord 0\<close> is the order
  in which the loop over it for device policies visits the ids, \<open>ord (Suc i)\<close> the order of the loop
  for the \<open>i\<close>-th tag. The schedule evaluator is an argument, a function that also changes the
  evaluator's state (its cache).
\<close>

subsection \<open>Operations\<close>

type_synonym policies = "string \<rightharpoonup> policy"
type_synonym orders = "nat \<Rightarrow> string list"
type_synonym 's evaluator = "string list \<Rightarrow> 's \<Rightarrow> action \<times> 's"

definition global_default :: string where "global_default = ''global_default''"

definition new_policies :: policies where
  "new_policies = [global_default \<mapsto> empty_policy\<lparr>pol_id := global_default,
     pol_name := ''Global Access Switch'', pol_type := PolicyTypeGlobal, pol_action := ActionSchedule,
     pol_priority := 0, pol_enabled := True\<rparr>]"

definition upsert_policy :: "policy \<Rightarrow> policies \<Rightarrow> policies" where
  "upsert_policy p ps = ps(pol_id p \<mapsto> p)"

definition delete_policy :: "string \<Rightarrow> policies \<Rightarrow> policies" where
  "delete_policy i ps = ps(i := None)"

definition get_policy :: "string \<Rightarrow> policies \<Rightarrow> policy option" where
  "get_policy i ps = ps i"

definition list_policies :: "string list \<Rightarrow> policies \<Rightarrow> policy list" where
  "list_policies ks ps = range_values ps ks"

definition targets_either :: "string \<Rightarrow> string \<Rightarrow> policy \<Rightarrow> bool" where
  "targets_either old new p \<longleftrightarrow>
     pol_type p = PolicyTypeDevice \<and> (pol_target p = old \<or> pol_target p = new)"

definition reconcile_device_identity ::
  "string list \<Rightarrow> string \<Rightarrow> string \<Rightarrow> policy list \<Rightarrow> policies \<Rightarrow> policies" where
  "reconcile_device_identity ks old new pols ps =
     (let kept = foldl (\<lambda>m (i, p). if targets_either old new p then m(i := None) else m) ps (range_entries ps ks)
      in foldl (\<lambda>m p. m(pol_id p \<mapsto> p)) kept pols)"

text \<open>The loop for the best device policy, the same in both functions.\<close>

definition better_device :: "local_device \<Rightarrow> policy option \<Rightarrow> policy \<Rightarrow> policy option" where
  "better_device d best p =
     (if \<not> pol_enabled p then best
      else if pol_type p = PolicyTypeDevice \<and> pol_target p = local_pdid d then
        (case best of None \<Rightarrow> Some p
         | Some b \<Rightarrow> if pol_priority b < pol_priority p then Some p else best)
      else best)"

definition best_device_policy :: "string list \<Rightarrow> policies \<Rightarrow> local_device \<Rightarrow> policy option" where
  "best_device_policy ks ps d = foldl (better_device d) None (range_values ps ks)"

text \<open>The two loops over the tags and the policies: \<open>Inl\<close> the tag whose policy blocks, which returns at
  once, or \<open>hasAllowTag\<close> and \<open>tagSchedIDs\<close>.\<close>

fun scan_tag :: "string \<Rightarrow> policy list \<Rightarrow> bool \<times> string list \<Rightarrow> string + bool \<times> string list" where
  "scan_tag tag [] st = Inr st"
| "scan_tag tag (p # ps) (allow, ids) =
     (if \<not> pol_enabled p then scan_tag tag ps (allow, ids)
      else if pol_type p = PolicyTypeTag \<and> pol_target p = tag then
        (case pol_action p of
           ActionBlock \<Rightarrow> Inl tag
         | ActionAllow \<Rightarrow> scan_tag tag ps (True, ids)
         | ActionSchedule \<Rightarrow> scan_tag tag ps (allow, ids @ get_schedule_ids p)
         | ActionOther _ \<Rightarrow> scan_tag tag ps (allow, ids))
      else scan_tag tag ps (allow, ids))"

fun scan_tags :: "orders \<Rightarrow> nat \<Rightarrow> policies \<Rightarrow> string list \<Rightarrow> bool \<times> string list \<Rightarrow>
  string + bool \<times> string list" where
  "scan_tags ord i ps [] st = Inr st"
| "scan_tags ord i ps (tag # tags) st =
     (case scan_tag tag (range_values ps (ord i)) st of
        Inl t \<Rightarrow> Inl t
      | Inr st' \<Rightarrow> scan_tags ord (Suc i) ps tags st')"

definition option_holds :: "('a \<Rightarrow> bool) \<Rightarrow> 'a option \<Rightarrow> bool" where
  "option_holds P x = (case x of Some a \<Rightarrow> P a | None \<Rightarrow> False)"

definition get_effective_policy :: "orders \<Rightarrow> policies \<Rightarrow> local_device option \<Rightarrow> policy" where
  "get_effective_policy ord ps od =
     (case od of
        None \<Rightarrow> empty_policy\<lparr>pol_id := ''fallback'', pol_action := ActionAllow\<rparr>
      | Some d \<Rightarrow>
          if ''infrastructure'' \<in> set (local_tags d) then
            empty_policy\<lparr>pol_id := ''infrastructure_override'', pol_name := ''Infrastructure Immunity'',
              pol_type := PolicyTypeTag, pol_action := ActionAllow\<rparr>
          else
          let g = ps global_default in
          if option_holds (\<lambda>p. pol_action p = ActionBlock) g then
            empty_policy\<lparr>pol_id := ''global_killswitch'', pol_name := ''Global Access Switch (Block All)'',
              pol_type := PolicyTypeGlobal, pol_action := ActionBlock\<rparr>
          else if option_holds (\<lambda>p. pol_action p = ActionAllow) g then
            empty_policy\<lparr>pol_id := ''global_allow_override'',
              pol_name := ''Global Access Switch (Allow All)'',
              pol_type := PolicyTypeGlobal, pol_action := ActionAllow\<rparr>
          else
          (case best_device_policy (ord 0) ps d of
             Some p \<Rightarrow> p
           | None \<Rightarrow>
               (case scan_tags ord 1 ps (local_tags d) (False, []) of
                  Inl tag \<Rightarrow> empty_policy\<lparr>pol_id := ''tag_block_override'',
                    pol_name := ''Tag Block ('' @ tag @ '')'', pol_type := PolicyTypeTag,
                    pol_action := ActionBlock\<rparr>
                | Inr (allow, ids) \<Rightarrow>
                    if allow then empty_policy\<lparr>pol_id := ''tag_allow_override'',
                      pol_name := ''Tag Allow Override'', pol_type := PolicyTypeTag,
                      pol_action := ActionAllow\<rparr>
                    else if 0 < length ids then empty_policy\<lparr>pol_id := ''tag_schedule_bundle'',
                      pol_name := ''Tag Schedule Bundle'', pol_type := PolicyTypeTag,
                      pol_action := ActionSchedule, pol_schedule_ids := ids\<rparr>
                    else (case g of Some p \<Rightarrow> p
                      | None \<Rightarrow> empty_policy\<lparr>pol_id := ''fallback'', pol_name := ''Fallback Allow'',
                          pol_type := PolicyTypeGlobal, pol_action := ActionAllow\<rparr>))))"

definition evaluate_action ::
  "orders \<Rightarrow> policies \<Rightarrow> local_device option \<Rightarrow> 's evaluator option \<Rightarrow> 's \<Rightarrow> action \<times> 's" where
  "evaluate_action ord ps od sched s =
     (case od of
        None \<Rightarrow> (ActionAllow, s)
      | Some d \<Rightarrow>
          if local_has_tag d ''infrastructure'' then (ActionAllow, s)
          else
          let g = ps global_default in
          if option_holds (\<lambda>p. pol_enabled p \<and> pol_action p = ActionBlock) g then (ActionBlock, s)
          else if option_holds (\<lambda>p. pol_enabled p \<and> pol_action p = ActionAllow) g then (ActionAllow, s)
          else
          (case best_device_policy (ord 0) ps d of
             Some p \<Rightarrow>
               (case sched of
                  Some evalb \<Rightarrow> if pol_action p = ActionSchedule then evalb (get_schedule_ids p) s
                    else (pol_action p, s)
                | None \<Rightarrow> (pol_action p, s))
           | None \<Rightarrow>
               (case scan_tags ord 1 ps (local_tags d) (False, []) of
                  Inl tag \<Rightarrow> (ActionBlock, s)
                | Inr (allow, ids) \<Rightarrow>
                    if allow then (ActionAllow, s)
                    else if 0 < length ids \<and> \<not> Option.is_none sched then the sched ids s
                    else (case g of
                        Some p \<Rightarrow>
                          (case sched of
                             Some evalb \<Rightarrow>
                               if pol_enabled p \<and> pol_action p = ActionSchedule
                               then evalb (get_schedule_ids p) s else (pol_action p, s)
                           | None \<Rightarrow> (pol_action p, s))
                      | None \<Rightarrow> (ActionAllow, s)))))"

definition expired :: "time \<Rightarrow> policy \<Rightarrow> bool" where
  "expired now p \<longleftrightarrow> (case pol_expires_at p of Some t \<Rightarrow> t < now | None \<Rightarrow> False)"

definition privately_owned :: "string \<Rightarrow> bool" where
  "privately_owned sid \<longleftrightarrow> has_prefix sid ''sched_pause_'' \<or> has_prefix sid ''sched_extend_''"

text \<open>\<open>SweepExpired\<close>: the remaining policies, the ids swept and the schedules to delete with them.\<close>

definition sweep_step ::
  "time \<Rightarrow> policies \<times> string list \<times> string list \<Rightarrow> string \<times> policy \<Rightarrow> policies \<times> string list \<times> string list" where
  "sweep_step now = (\<lambda>(ps, ids, owned) (i, p).
     if expired now p
     then (ps(i := None), ids @ [i], owned @ filter privately_owned (get_schedule_ids p))
     else (ps, ids, owned))"

definition sweep_expired :: "string list \<Rightarrow> time \<Rightarrow> policies \<Rightarrow> policies \<times> string list \<times> string list" where
  "sweep_expired ks now ps = foldl (sweep_step now) (ps, [], []) (range_entries ps ks)"

subsection \<open>The precedence, without loops\<close>

text \<open>What a device may be given: an action, or the verdict of a bundle of schedules.\<close>

datatype decision = Fixed action | Bundle "string list"

definition of_policy :: "policy \<Rightarrow> decision" where
  "of_policy p = (if pol_action p = ActionSchedule then Bundle (get_schedule_ids p) else Fixed (pol_action p))"

definition device_policies :: "policies \<Rightarrow> local_device \<Rightarrow> policy set" where
  "device_policies ps d =
     {p \<in> ran ps. pol_enabled p \<and> pol_type p = PolicyTypeDevice \<and> pol_target p = local_pdid d}"

definition tag_policies :: "policies \<Rightarrow> local_device \<Rightarrow> policy set" where
  "tag_policies ps d =
     {p \<in> ran ps. pol_enabled p \<and> pol_type p = PolicyTypeTag \<and> pol_target p \<in> set (local_tags d)}"

definition tag_schedules :: "policies \<Rightarrow> local_device \<Rightarrow> string set" where
  "tag_schedules ps d =
     (\<Union>p \<in> {p \<in> tag_policies ps d. pol_action p = ActionSchedule}. set (get_schedule_ids p))"

definition overriding :: "policies \<Rightarrow> action \<Rightarrow> bool" where
  "overriding ps a \<longleftrightarrow> (\<exists>p. ps global_default = Some p \<and> pol_enabled p \<and> pol_action p = a)"

definition unruled :: "policies \<Rightarrow> local_device \<Rightarrow> bool" where
  "unruled ps d \<longleftrightarrow> \<not> local_has_tag d ''infrastructure'' \<and> \<not> overriding ps ActionBlock \<and> \<not> overriding ps ActionAllow"

inductive decides :: "policies \<Rightarrow> local_device \<Rightarrow> decision \<Rightarrow> bool" for ps d where
  immune: "local_has_tag d ''infrastructure'' \<Longrightarrow> decides ps d (Fixed ActionAllow)"
| kill_switch: "\<not> local_has_tag d ''infrastructure'' \<Longrightarrow> overriding ps ActionBlock \<Longrightarrow>
    decides ps d (Fixed ActionBlock)"
| allow_all: "\<not> local_has_tag d ''infrastructure'' \<Longrightarrow> overriding ps ActionAllow \<Longrightarrow>
    decides ps d (Fixed ActionAllow)"
| by_device: "unruled ps d \<Longrightarrow> p \<in> device_policies ps d \<Longrightarrow>
    \<forall>q \<in> device_policies ps d. pol_priority q \<le> pol_priority p \<Longrightarrow> decides ps d (of_policy p)"
| tag_block: "unruled ps d \<Longrightarrow> device_policies ps d = {} \<Longrightarrow>
    \<exists>p \<in> tag_policies ps d. pol_action p = ActionBlock \<Longrightarrow> decides ps d (Fixed ActionBlock)"
| tag_allow: "unruled ps d \<Longrightarrow> device_policies ps d = {} \<Longrightarrow>
    \<forall>p \<in> tag_policies ps d. pol_action p \<noteq> ActionBlock \<Longrightarrow>
    \<exists>p \<in> tag_policies ps d. pol_action p = ActionAllow \<Longrightarrow> decides ps d (Fixed ActionAllow)"
| tag_schedule: "unruled ps d \<Longrightarrow> device_policies ps d = {} \<Longrightarrow>
    \<forall>p \<in> tag_policies ps d. pol_action p \<notin> {ActionBlock, ActionAllow} \<Longrightarrow>
    ids \<noteq> [] \<Longrightarrow> set ids = tag_schedules ps d \<Longrightarrow> decides ps d (Bundle ids)"
| by_global: "unruled ps d \<Longrightarrow> device_policies ps d = {} \<Longrightarrow>
    \<forall>p \<in> tag_policies ps d. pol_action p \<notin> {ActionBlock, ActionAllow} \<Longrightarrow>
    tag_schedules ps d = {} \<Longrightarrow> ps global_default = Some p \<Longrightarrow>
    decides ps d (if pol_enabled p then of_policy p else Fixed (pol_action p))"
| unrestricted: "unruled ps d \<Longrightarrow> device_policies ps d = {} \<Longrightarrow>
    \<forall>p \<in> tag_policies ps d. pol_action p \<notin> {ActionBlock, ActionAllow} \<Longrightarrow>
    tag_schedules ps d = {} \<Longrightarrow> ps global_default = None \<Longrightarrow> decides ps d (Fixed ActionAllow)"

definition run_decision :: "'s evaluator \<Rightarrow> decision \<Rightarrow> 's \<Rightarrow> action \<times> 's" where
  "run_decision evalb x s = (case x of Fixed a \<Rightarrow> (a, s) | Bundle ids \<Rightarrow> evalb ids s)"

subsection \<open>The loops compute the precedence\<close>

definition own_policy :: "local_device \<Rightarrow> policy \<Rightarrow> bool" where
  "own_policy d p \<longleftrightarrow> pol_enabled p \<and> pol_type p = PolicyTypeDevice \<and> pol_target p = local_pdid d"

definition top_of :: "policy set \<Rightarrow> policy option \<Rightarrow> bool" where
  "top_of B best \<longleftrightarrow> (case best of None \<Rightarrow> B = {}
     | Some b \<Rightarrow> b \<in> B \<and> (\<forall>q \<in> B. pol_priority q \<le> pol_priority b))"

lemma top_of_step:
  "top_of B best \<Longrightarrow> top_of (if own_policy d p then insert p B else B) (better_device d best p)"
  by (cases best) (auto simp: top_of_def better_device_def own_policy_def)

lemma better_device_fold:
  "top_of B best \<Longrightarrow> top_of (B \<union> {p \<in> set ps. own_policy d p}) (foldl (better_device d) best ps)"
proof (induction ps arbitrary: best B)
  case (Cons p ps)
  have "B \<union> {q \<in> set (p # ps). own_policy d q} =
      (if own_policy d p then insert p B else B) \<union> {q \<in> set ps. own_policy d q}"
    by auto
  then show ?case
    using Cons.IH [OF top_of_step [OF Cons.prems, of d p]] by simp
qed simp

lemma best_device_policy_spec:
  assumes "range_order ps ks"
  shows "top_of (device_policies ps d) (best_device_policy ks ps d)"
proof -
  have "device_policies ps d = {} \<union> {p \<in> set (range_values ps ks). own_policy d p}"
    using range_order_values [OF assms] by (auto simp: device_policies_def own_policy_def)
  then show ?thesis
    using better_device_fold [of "{}" None "range_values ps ks" d]
    by (simp add: best_device_policy_def top_of_def)
qed

definition orders_ok :: "policies \<Rightarrow> orders \<Rightarrow> bool" where
  "orders_ok ps ord \<longleftrightarrow> (\<forall>j. range_order ps (ord j))"

lemma orders_okD: "orders_ok ps ord \<Longrightarrow> range_order ps (ord j)"
  by (simp add: orders_ok_def)

definition tag_match :: "string \<Rightarrow> policy \<Rightarrow> bool" where
  "tag_match tag p \<longleftrightarrow> pol_enabled p \<and> pol_type p = PolicyTypeTag \<and> pol_target p = tag"

lemma scan_tag_spec:
  "scan_tag tag ps (allow, ids) = Inl t \<Longrightarrow> \<exists>p \<in> set ps. tag_match tag p \<and> pol_action p = ActionBlock"
  "scan_tag tag ps (allow, ids) = Inr (allow', ids') \<Longrightarrow>
     (\<forall>p \<in> set ps. tag_match tag p \<longrightarrow> pol_action p \<noteq> ActionBlock) \<and>
     (allow' \<longleftrightarrow> allow \<or> (\<exists>p \<in> set ps. tag_match tag p \<and> pol_action p = ActionAllow)) \<and>
     set ids' = set ids \<union>
       (\<Union>p \<in> {p \<in> set ps. tag_match tag p \<and> pol_action p = ActionSchedule}. set (get_schedule_ids p))"
proof -
  show "scan_tag tag ps (allow, ids) = Inl t \<Longrightarrow> \<exists>p \<in> set ps. tag_match tag p \<and> pol_action p = ActionBlock"
    by (induction ps arbitrary: allow ids) (auto simp: tag_match_def split: if_splits action.splits)
  show "scan_tag tag ps (allow, ids) = Inr (allow', ids') \<Longrightarrow>
     (\<forall>p \<in> set ps. tag_match tag p \<longrightarrow> pol_action p \<noteq> ActionBlock) \<and>
     (allow' \<longleftrightarrow> allow \<or> (\<exists>p \<in> set ps. tag_match tag p \<and> pol_action p = ActionAllow)) \<and>
     set ids' = set ids \<union>
       (\<Union>p \<in> {p \<in> set ps. tag_match tag p \<and> pol_action p = ActionSchedule}. set (get_schedule_ids p))"
  proof (induction ps arbitrary: allow ids)
    case Nil
    then show ?case by simp
  next
    case (Cons p ps)
    show ?case
    proof (cases "tag_match tag p")
      case False
      then have "scan_tag tag (p # ps) (allow, ids) = scan_tag tag ps (allow, ids)"
        by (auto simp: tag_match_def)
      then show ?thesis using Cons False by auto
    next
      case True
      then have "scan_tag tag (p # ps) (allow, ids) = (case pol_action p of
           ActionBlock \<Rightarrow> Inl tag
         | ActionAllow \<Rightarrow> scan_tag tag ps (True, ids)
         | ActionSchedule \<Rightarrow> scan_tag tag ps (allow, ids @ get_schedule_ids p)
         | ActionOther _ \<Rightarrow> scan_tag tag ps (allow, ids))"
        by (auto simp: tag_match_def)
      then show ?thesis
        using Cons.prems Cons.IH [of True ids] Cons.IH [of allow "ids @ get_schedule_ids p"]
          Cons.IH [of allow ids] True
        by (cases "pol_action p") auto
    qed
  qed
qed

lemma scan_tags_spec:
  assumes "orders_ok ps ord"
  shows "scan_tags ord i ps tags (allow, ids) = Inl t \<Longrightarrow>
      \<exists>p \<in> ran ps. \<exists>tag \<in> set tags. tag_match tag p \<and> pol_action p = ActionBlock"
    and "scan_tags ord i ps tags (allow, ids) = Inr (allow', ids') \<Longrightarrow>
     (\<forall>p \<in> ran ps. \<forall>tag \<in> set tags. tag_match tag p \<longrightarrow> pol_action p \<noteq> ActionBlock) \<and>
     (allow' \<longleftrightarrow> allow \<or> (\<exists>p \<in> ran ps. \<exists>tag \<in> set tags. tag_match tag p \<and> pol_action p = ActionAllow)) \<and>
     set ids' = set ids \<union> (\<Union>p \<in> {p \<in> ran ps. (\<exists>tag \<in> set tags. tag_match tag p) \<and>
       pol_action p = ActionSchedule}. set (get_schedule_ids p))"
proof -
  have r: "set (range_values ps (ord j)) = ran ps" for j
    using orders_okD [OF assms] range_order_values by blast
  show "scan_tags ord i ps tags (allow, ids) = Inl t \<Longrightarrow>
      \<exists>p \<in> ran ps. \<exists>tag \<in> set tags. tag_match tag p \<and> pol_action p = ActionBlock"
  proof (induction tags arbitrary: i allow ids)
    case (Cons tag tags)
    show ?case
    proof (cases "scan_tag tag (range_values ps (ord i)) (allow, ids)")
      case (Inl x)
      then show ?thesis using scan_tag_spec(1) [OF Inl] r by auto
    next
      case (Inr st)
      obtain a b where "st = (a, b)" by (cases st)
      then have "scan_tags ord (Suc i) ps tags (a, b) = Inl t" using Cons.prems Inr by simp
      then show ?thesis using Cons.IH by fastforce
    qed
  qed simp
  show "scan_tags ord i ps tags (allow, ids) = Inr (allow', ids') \<Longrightarrow>
     (\<forall>p \<in> ran ps. \<forall>tag \<in> set tags. tag_match tag p \<longrightarrow> pol_action p \<noteq> ActionBlock) \<and>
     (allow' \<longleftrightarrow> allow \<or> (\<exists>p \<in> ran ps. \<exists>tag \<in> set tags. tag_match tag p \<and> pol_action p = ActionAllow)) \<and>
     set ids' = set ids \<union> (\<Union>p \<in> {p \<in> ran ps. (\<exists>tag \<in> set tags. tag_match tag p) \<and>
       pol_action p = ActionSchedule}. set (get_schedule_ids p))"
  proof (induction tags arbitrary: i allow ids)
    case (Cons tag tags)
    then obtain a x where st: "scan_tag tag (range_values ps (ord i)) (allow, ids) = Inr (a, x)"
      by (auto split: sum.splits)
    note s = scan_tag_spec(2) [OF st, unfolded r]
    have "scan_tags ord (Suc i) ps tags (a, x) = Inr (allow', ids')" using Cons.prems st by simp
    note c = Cons.IH [OF this]
    show ?case
    proof (intro conjI)
      show "\<forall>p \<in> ran ps. \<forall>t \<in> set (tag # tags). tag_match t p \<longrightarrow> pol_action p \<noteq> ActionBlock"
        using s c by simp
      show "allow' \<longleftrightarrow> allow \<or>
          (\<exists>p \<in> ran ps. \<exists>t \<in> set (tag # tags). tag_match t p \<and> pol_action p = ActionAllow)"
        using s c by auto
      show "set ids' = set ids \<union> (\<Union>p \<in> {p \<in> ran ps. (\<exists>t \<in> set (tag # tags). tag_match t p) \<and>
          pol_action p = ActionSchedule}. set (get_schedule_ids p))"
        using s c by auto
    qed
  qed simp
qed

lemma tag_policies_match: "tag_policies ps d = {p \<in> ran ps. \<exists>tag \<in> set (local_tags d). tag_match tag p}"
  by (auto simp: tag_policies_def tag_match_def)

text \<open>The outcome of the two tag loops, over the set of the tag policies.\<close>

lemma scan_tags_outcome:
  assumes "orders_ok ps ord"
  shows "scan_tags ord i ps (local_tags d) (False, []) = Inl t \<Longrightarrow>
      \<exists>p \<in> tag_policies ps d. pol_action p = ActionBlock"
    and "scan_tags ord i ps (local_tags d) (False, []) = Inr (allow, ids) \<Longrightarrow>
      (\<forall>p \<in> tag_policies ps d. pol_action p \<noteq> ActionBlock) \<and>
      (allow \<longleftrightarrow> (\<exists>p \<in> tag_policies ps d. pol_action p = ActionAllow)) \<and>
      set ids = tag_schedules ps d"
proof -
  show "\<exists>p \<in> tag_policies ps d. pol_action p = ActionBlock"
    if "scan_tags ord i ps (local_tags d) (False, []) = Inl t"
    using scan_tags_spec(1) [OF assms that] by (auto simp: tag_policies_match)
  show "(\<forall>p \<in> tag_policies ps d. pol_action p \<noteq> ActionBlock) \<and>
      (allow \<longleftrightarrow> (\<exists>p \<in> tag_policies ps d. pol_action p = ActionAllow)) \<and>
      set ids = tag_schedules ps d"
    if "scan_tags ord i ps (local_tags d) (False, []) = Inr (allow, ids)"
  proof -
    note s = scan_tags_spec(2) [OF assms that]
    have "{p \<in> tag_policies ps d. pol_action p = ActionSchedule} =
        {p \<in> ran ps. (\<exists>tag \<in> set (local_tags d). tag_match tag p) \<and> pol_action p = ActionSchedule}"
      by (auto simp: tag_policies_match)
    then have "set ids = tag_schedules ps d" using s by (simp add: tag_schedules_def)
    then show ?thesis using s by (auto simp: tag_policies_match)
  qed
qed

text \<open>The decision the code reaches, as a function of the loops' results.\<close>

definition decision_of :: "orders \<Rightarrow> policies \<Rightarrow> local_device \<Rightarrow> decision" where
  "decision_of ord ps d =
     (if local_has_tag d ''infrastructure'' then Fixed ActionAllow
      else if overriding ps ActionBlock then Fixed ActionBlock
      else if overriding ps ActionAllow then Fixed ActionAllow
      else (case best_device_policy (ord 0) ps d of
        Some p \<Rightarrow> of_policy p
      | None \<Rightarrow> (case scan_tags ord 1 ps (local_tags d) (False, []) of
          Inl tag \<Rightarrow> Fixed ActionBlock
        | Inr (allow, ids) \<Rightarrow> if allow then Fixed ActionAllow
            else if ids \<noteq> [] then Bundle ids
            else (case ps global_default of
                Some p \<Rightarrow> if pol_enabled p then of_policy p else Fixed (pol_action p)
              | None \<Rightarrow> Fixed ActionAllow))))"

lemma option_holds_global:
  "option_holds (\<lambda>p. pol_enabled p \<and> pol_action p = a) (ps global_default) \<longleftrightarrow> overriding ps a"
  by (auto simp: option_holds_def overriding_def split: option.splits)

lemma evaluate_action_decision:
  "evaluate_action ord ps (Some d) (Some evalb) s = run_decision evalb (decision_of ord ps d) s"
  by (simp add: evaluate_action_def decision_of_def option_holds_global Let_def run_decision_def
      of_policy_def split: option.split sum.split prod.split)

lemma decision_of_decides:
  assumes "orders_ok ps ord"
  shows "decides ps d (decision_of ord ps d)"
proof (cases "unruled ps d")
  case False
  then show ?thesis
    by (auto simp: decision_of_def unruled_def intro: decides.intros)
next
  case u: True
  then have n: "\<not> local_has_tag d ''infrastructure''" "\<not> overriding ps ActionBlock"
      "\<not> overriding ps ActionAllow" by (auto simp: unruled_def)
  note best = best_device_policy_spec [OF orders_okD [OF assms, of 0], of d]
  show ?thesis
  proof (cases "best_device_policy (ord 0) ps d")
    case (Some p)
    then show ?thesis
      using best u n by (auto simp: decision_of_def top_of_def intro: decides.by_device)
  next
    case None
    then have e: "device_policies ps d = {}" using best by (simp add: top_of_def)
    show ?thesis
    proof (cases "scan_tags ord 1 ps (local_tags d) (False, [])")
      case (Inl t)
      have "decides ps d (Fixed ActionBlock)"
        using u e scan_tags_outcome(1) [OF assms Inl] by (rule decides.tag_block)
      then show ?thesis using n None Inl by (simp add: decision_of_def)
    next
      case (Inr st)
      obtain allow ids where st: "st = (allow, ids)" by (cases st)
      note o = scan_tags_outcome(2) [OF assms Inr [unfolded st]]
      have d: "decision_of ord ps d = (if allow then Fixed ActionAllow
            else if ids \<noteq> [] then Bundle ids
            else (case ps global_default of
                Some p \<Rightarrow> if pol_enabled p then of_policy p else Fixed (pol_action p)
              | None \<Rightarrow> Fixed ActionAllow))"
        using n None Inr st by (simp add: decision_of_def)
      show ?thesis
      proof (cases allow)
        case True
        then show ?thesis using u e o d by (simp add: decides.tag_allow)
      next
        case False
        then have no: "\<forall>p \<in> tag_policies ps d. pol_action p \<notin> {ActionBlock, ActionAllow}" using o by auto
        show ?thesis
        proof (cases "ids = []")
          case True
          then have "tag_schedules ps d = {}" using o by simp
          then show ?thesis
            using decides.by_global [OF u e no] decides.unrestricted [OF u e no] d True False
            by (cases "ps global_default") auto
        next
          case ids: False
          then show ?thesis using decides.tag_schedule [OF u e no ids] o d False by simp
        qed
      qed
    qed
  qed
qed

text \<open>Up to the order of a bundle the precedence leaves one choice, unless two of the device's own
  policies share the highest priority.\<close>

definition unambiguous :: "policies \<Rightarrow> local_device \<Rightarrow> bool" where
  "unambiguous ps d \<longleftrightarrow> (\<forall>p \<in> device_policies ps d. \<forall>q \<in> device_policies ps d.
     pol_priority p = pol_priority q \<longrightarrow> p = q)"

definition same_decision :: "decision \<Rightarrow> decision \<Rightarrow> bool" where
  "same_decision x y \<longleftrightarrow> x = y \<or>
     (\<exists>i j. x = Bundle i \<and> y = Bundle j \<and> i \<noteq> [] \<and> j \<noteq> [] \<and> set i = set j)"

definition tags_say :: "policies \<Rightarrow> local_device \<Rightarrow> action \<Rightarrow> bool" where
  "tags_say ps d a \<longleftrightarrow> (\<exists>p \<in> tag_policies ps d. pol_action p = a)"

definition global_decision :: "policies \<Rightarrow> decision" where
  "global_decision ps = (case ps global_default of
     Some p \<Rightarrow> if pol_enabled p then of_policy p else Fixed (pol_action p) | None \<Rightarrow> Fixed ActionAllow)"

lemma decides_by_device:
  assumes "decides ps d x" "unruled ps d" "device_policies ps d \<noteq> {}"
  shows "\<exists>p \<in> device_policies ps d.
    (\<forall>q \<in> device_policies ps d. pol_priority q \<le> pol_priority p) \<and> x = of_policy p"
  using assms by cases (auto simp: unruled_def)

lemma decides_by_tags:
  assumes "decides ps d x" "unruled ps d" "device_policies ps d = {}"
  shows "tags_say ps d ActionBlock \<Longrightarrow> x = Fixed ActionBlock"
    and "\<not> tags_say ps d ActionBlock \<Longrightarrow> tags_say ps d ActionAllow \<Longrightarrow> x = Fixed ActionAllow"
    and "\<not> tags_say ps d ActionBlock \<Longrightarrow> \<not> tags_say ps d ActionAllow \<Longrightarrow> tag_schedules ps d \<noteq> {} \<Longrightarrow>
      \<exists>ids. ids \<noteq> [] \<and> set ids = tag_schedules ps d \<and> x = Bundle ids"
    and "\<not> tags_say ps d ActionBlock \<Longrightarrow> \<not> tags_say ps d ActionAllow \<Longrightarrow> tag_schedules ps d = {} \<Longrightarrow>
      x = global_decision ps"
  using assms by (cases; auto simp: unruled_def tags_say_def global_decision_def; blast)+

lemma decides_unique:
  assumes "unambiguous ps d" "decides ps d x" "decides ps d y"
  shows "same_decision x y"
proof (cases "unruled ps d")
  case True
  show ?thesis
  proof (cases "device_policies ps d = {}")
    case False
    obtain p q where p: "p \<in> device_policies ps d" "\<forall>r \<in> device_policies ps d. pol_priority r \<le> pol_priority p"
        "x = of_policy p" and q: "q \<in> device_policies ps d"
        "\<forall>r \<in> device_policies ps d. pol_priority r \<le> pol_priority q" "y = of_policy q"
      using decides_by_device [OF assms(2) True False] decides_by_device [OF assms(3) True False] by blast
    then have "p = q" using assms(1) unfolding unambiguous_def by (meson order_antisym)
    then show ?thesis using p(3) q(3) by (simp add: same_decision_def)
  next
    case e: True
    note x = decides_by_tags [OF assms(2) True e] and y = decides_by_tags [OF assms(3) True e]
    show ?thesis
    proof (cases "tags_say ps d ActionBlock \<or> tags_say ps d ActionAllow \<or> tag_schedules ps d = {}")
      case True
      then have "x = y" using x(1,2,4) y(1,2,4) by metis
      then show ?thesis by (simp add: same_decision_def)
    next
      case False
      then show ?thesis using x(3) y(3) unfolding same_decision_def by metis
    qed
  qed
next
  case False
  then consider "local_has_tag d ''infrastructure''"
    | "\<not> local_has_tag d ''infrastructure''" "overriding ps ActionBlock" "\<not> overriding ps ActionAllow"
    | "\<not> local_has_tag d ''infrastructure''" "overriding ps ActionAllow" "\<not> overriding ps ActionBlock"
    unfolding unruled_def overriding_def by fastforce
  then show ?thesis
  proof cases
    case 1
    then have "z = Fixed ActionAllow" if "decides ps d z" for z
      using that 1 by (auto simp: unruled_def elim: decides.cases)
    then show ?thesis using assms(2,3) unfolding same_decision_def by metis
  next
    case 2
    then have "z = Fixed ActionBlock" if "decides ps d z" for z
      using that 2 by (auto simp: unruled_def elim: decides.cases)
    then show ?thesis using assms(2,3) unfolding same_decision_def by metis
  next
    case 3
    then have "z = Fixed ActionAllow" if "decides ps d z" for z
      using that 3 by (auto simp: unruled_def elim: decides.cases)
    then show ?thesis using assms(2,3) unfolding same_decision_def by metis
  qed
qed

subsection \<open>The interface to the schedule engine\<close>

text \<open>\<open>ScheduleEvaluator\<close>: \<open>ok\<close> is the evaluator's invariant, \<open>valid\<close> says which bundles it can tell
  apart. An empty bundle restricts nothing, and the verdict depends on the set of the ids.\<close>

locale schedule_evaluator =
  fixes evalb :: "'s evaluator" and ok :: "'s \<Rightarrow> bool" and valid :: "string list \<Rightarrow> bool"
  assumes keeps: "ok s \<Longrightarrow> ok (snd (evalb ids s))"
    and empty_allows: "fst (evalb [] s) = ActionAllow"
    and set_only: "ok s \<Longrightarrow> valid ids \<Longrightarrow> valid ids' \<Longrightarrow> set ids = set ids' \<Longrightarrow>
      fst (evalb ids s) = fst (evalb ids' s)"
begin

lemma run_keeps: "ok s \<Longrightarrow> ok (snd (run_decision evalb x s))"
  by (simp add: run_decision_def keeps split: decision.split)

lemma evaluate_keeps: "ok s \<Longrightarrow> ok (snd (evaluate_action ord ps od (Some evalb) s))"
  by (cases od) (simp add: evaluate_action_def, simp add: evaluate_action_decision run_keeps)

lemma run_same:
  assumes "same_decision x y" "ok s" "\<forall>ids. x = Bundle ids \<or> y = Bundle ids \<longrightarrow> valid ids"
  shows "fst (run_decision evalb x s) = fst (run_decision evalb y s)"
  using assms set_only by (auto simp: same_decision_def run_decision_def)

lemma order_irrelevant:
  assumes "orders_ok ps ord" "orders_ok ps ord'" "unambiguous ps d" "ok s"
    and "\<forall>ids. decides ps d (Bundle ids) \<longrightarrow> valid ids"
  shows "fst (evaluate_action ord ps (Some d) (Some evalb) s) =
    fst (evaluate_action ord' ps (Some d) (Some evalb) s)"
proof -
  note a = decision_of_decides [OF assms(1), where d = d]
    and b = decision_of_decides [OF assms(2), where d = d]
  have v: "\<forall>ids. decision_of ord ps d = Bundle ids \<or> decision_of ord' ps d = Bundle ids \<longrightarrow> valid ids"
    using a b assms(5) by (metis (no_types))
  note u = decides_unique [OF assms(3) a b]
  show ?thesis
    unfolding evaluate_action_decision by (rule run_same [OF u assms(4) v])
qed

text \<open>A store that holds only the initial global policy restricts nobody.\<close>

lemma initially_open:
  assumes "orders_ok new_policies ord"
  shows "fst (evaluate_action ord new_policies (Some d) (Some evalb) s) = ActionAllow"
proof -
  have r: "p \<in> ran new_policies \<Longrightarrow> pol_type p = PolicyTypeGlobal" for p
    by (auto simp: new_policies_def ran_def split: if_splits)
  then have "device_policies new_policies d = {}" "tag_policies new_policies d = {}"
    unfolding device_policies_def tag_policies_def by fastforce+
  then have e: "device_policies new_policies d = {}" "tag_schedules new_policies d = {}"
      "\<not> tags_say new_policies d ActionBlock" "\<not> tags_say new_policies d ActionAllow"
    by (auto simp: tag_schedules_def tags_say_def)
  have g: "\<not> overriding new_policies ActionBlock" "\<not> overriding new_policies ActionAllow"
    by (simp_all add: overriding_def new_policies_def)
  have "decision_of ord new_policies d \<in> {Fixed ActionAllow, Bundle []}"
  proof (cases "local_has_tag d ''infrastructure''")
    case True
    then show ?thesis by (simp add: decision_of_def)
  next
    case False
    then have "unruled new_policies d" using g by (simp add: unruled_def)
    then have "decision_of ord new_policies d = global_decision new_policies"
      using decides_by_tags(4) [OF decision_of_decides [OF assms, where d = d]] e by blast
    then show ?thesis
      by (simp add: global_decision_def new_policies_def of_policy_def get_schedule_ids_def empty_policy_def)
  qed
  then show ?thesis
    by (auto simp: evaluate_action_decision run_decision_def empty_allows)
qed

end

subsection \<open>The schedule engine is such an evaluator\<close>

definition engine_fit :: "tzdb \<Rightarrow> time \<Rightarrow> engine \<Rightarrow> bool" where
  "engine_fit tzdb now e \<longleftrightarrow> engine_ok e \<and> (\<forall>i \<in> dom (eng_schedules e). CHR ''+'' \<notin> set i) \<and>
     plain_schedules tzdb (eng_schedules e) \<and> \<bar>now div second\<bar> \<le> 2 ^ 62"

lemma bundle_spec_set:
  assumes "engine_fit tzdb now e" "set ids = set ids'"
  shows "bundle_spec tzdb now (eng_schedules e) ids = bundle_spec tzdb now (eng_schedules e) ids'"
proof (cases "ids = []")
  case True
  then show ?thesis using assms(2) by (simp add: bundle_spec_def)
next
  case ne: False
  then have ne': "ids' \<noteq> []" using assms(2) by auto
  let ?S = "eng_schedules e"
  have ok: "engine_ok e" "plain_schedules tzdb ?S" "\<bar>now div second\<bar> \<le> 2 ^ 62"
    using assms(1) by (auto simp: engine_fit_def)
  show ?thesis
  proof (cases "\<forall>i \<in> set ids. ?S i \<noteq> None")
    case False
    then have "those (map ?S ids) = None" "those (map ?S ids') = None"
      using those_map_set(3) [of ?S ids] those_map_set(3) [of ?S ids'] assms(2) by fastforce+
    then show ?thesis using ne ne' by (simp add: bundle_spec_def)
  next
    case True
    then obtain ss ss' where s: "those (map ?S ids) = Some ss" "those (map ?S ids') = Some ss'"
      using those_map_defined [of ids ?S] those_map_defined [of ids' ?S] assms(2) by auto
    note f = those_map_set [OF s(1)] and f' = those_map_set [OF s(2)]
    have eq: "set ss = set ss'" using f(1) f'(1) assms(2) by simp
    have nes: "ss \<noteq> []" "ss' \<noteq> []" using f(2) f'(2) ne ne' by auto
    note c = merge_error_consistent [OF nes(1) ids_unique_resolved [OF ok(1) s(1)]]
      and c' = merge_error_consistent [OF nes(2) ids_unique_resolved [OF ok(1) s(2)]]
    have b: "bundle_consistent ss \<longleftrightarrow> bundle_consistent ss'"
      using bundle_consistent_set [OF eq nes(1)] bundle_consistent_set [OF eq [symmetric] nes(2)] by blast
    show ?thesis
    proof (cases "bundle_consistent ss")
      case False
      then have "snd (snd (merge_schedules ss)) \<noteq> None" "snd (snd (merge_schedules ss')) \<noteq> None"
        using c c' b by auto
      then show ?thesis using ne ne' s by (auto simp: bundle_spec_def)
    next
      case con: True
      have ran: "set ss \<subseteq> ran ?S" using f(1) by (auto simp: ran_def)
      obtain off where off: "\<bar>off\<bar> \<le> 86400" "eval_location tzdb (hd ss) = fixed_zone off"
        using ok(2) ran hd_in_set [OF nes(1)] unfolding plain_schedules_def by blast
      have "\<forall>s \<in> set ss. eval_location tzdb s = fixed_zone off \<and> (\<forall>r \<in> set (sched_rules s). plain_rule r)"
        using ok(2) ran off(2) con eval_location_zone unfolding plain_schedules_def bundle_consistent_def
        by (metis subsetD)
      moreover have "sane off now" using off(1) ok(3) by (simp add: sane_def)
      ultimately have "verdict tzdb now (compose_schedules ss) = verdict tzdb now (compose_schedules ss')"
        using verdict_set [OF eq nes(1) con off(1)] by blast
      then show ?thesis using ne ne' s c c' b con by (simp add: bundle_spec_def)
    qed
  qed
qed

lemma engine_fit_keeps: "engine_fit tzdb now e \<Longrightarrow> engine_fit tzdb now (snd (evaluate_bundle tzdb now ids e))"
  by (simp add: engine_fit_def engine_ok_evaluate_bundle)

interpretation schedules: schedule_evaluator "evaluate_bundle tzdb now" "engine_fit tzdb now" plus_free
  for tzdb now
proof
  fix s ids
  show "engine_fit tzdb now s \<Longrightarrow> engine_fit tzdb now (snd (evaluate_bundle tzdb now ids s))"
    by (rule engine_fit_keeps)
  show "fst (evaluate_bundle tzdb now [] s) = ActionAllow"
    by (simp add: evaluate_bundle_def)
  fix ids'
  assume "engine_fit tzdb now s" "plus_free ids" "plus_free ids'" "set ids = set ids'"
  then show "fst (evaluate_bundle tzdb now ids s) = fst (evaluate_bundle tzdb now ids' s)"
    using evaluate_bundle_refines [of s ids tzdb now] evaluate_bundle_refines [of s ids' tzdb now]
      bundle_spec_set [of tzdb now s ids ids'] by (simp add: engine_fit_def)
qed

text \<open>C10: \<open>EvaluateAction\<close> implements the precedence: whatever the iteration orders, its result is that
  of a decision the rules allow (immunity, kill switch, allow override, the device's policy of
  highest priority, a blocking tag, an allowing tag, the schedules of the tags, the global
  fallback, in this order).\<close>

theorem evaluate_action_precedence:
  assumes "orders_ok ps ord"
  shows "\<exists>x. decides ps d x \<and> evaluate_action ord ps (Some d) (Some evalb) s = run_decision evalb x s"
  using decision_of_decides [OF assms, of d] evaluate_action_decision [of ord ps d evalb s]
  by (intro exI conjI)

definition kids_block :: policy where
  "kids_block = empty_policy\<lparr>pol_id := ''p1'', pol_type := PolicyTypeTag, pol_target := ''kids'',
     pol_action := ActionBlock, pol_enabled := True\<rparr>"

definition kids_laptop :: local_device where
  "kids_laptop = \<lparr>dev = laptop\<lparr>dev_tags := [''kids'']\<rparr>, local_tags = [''kids''],
     local_policy = None, local_next = None\<rparr>"

lemma orders_ok_two:
  "orders_ok (new_policies(''p1'' \<mapsto> p)) (\<lambda>_. [''p1'', global_default])"
  by (auto simp: orders_ok_def range_order_def new_policies_def global_default_def)

lemma evaluate_action_precedence_witness:
  "\<exists>x. decides (new_policies(''p1'' \<mapsto> kids_block)) kids_laptop x \<and>
    evaluate_action (\<lambda>_. [''p1'', global_default]) (new_policies(''p1'' \<mapsto> kids_block)) (Some kids_laptop)
      (Some (evaluate_bundle (\<lambda>_. None) 0)) school_engine
    = run_decision (evaluate_bundle (\<lambda>_. None) 0) x school_engine"
  by (rule evaluate_action_precedence [OF orders_ok_two])

text \<open>With the schedule engine behind it the verdict for a device does not depend on the iteration
  order of any map, as long as no two of the device's own policies share a priority.\<close>

theorem verdict_order_independent:
  assumes "orders_ok ps ord" "orders_ok ps ord'" "unambiguous ps d" "engine_fit tzdb now e"
    and "\<forall>ids. decides ps d (Bundle ids) \<longrightarrow> plus_free ids"
  shows "fst (evaluate_action ord ps (Some d) (Some (evaluate_bundle tzdb now)) e) =
    fst (evaluate_action ord' ps (Some d) (Some (evaluate_bundle tzdb now)) e)"
  using assms by (rule schedules.order_irrelevant)

lemma school_engine_fit: "engine_fit (\<lambda>_. None) 0 school_engine"
  unfolding engine_fit_def
proof (intro conjI)
  show "engine_ok school_engine" by (rule engine_reachable_ok [OF school_engine_facts(1)])
  show "\<forall>i \<in> dom (eng_schedules school_engine). CHR ''+'' \<notin> set i"
    by (simp add: school_engine_facts(2))
qed (rule school_engine_facts(3), simp)

lemma two_policies_device: "device_policies (new_policies(''p1'' \<mapsto> kids_block)) d = {}"
proof -
  have "pol_type p \<noteq> PolicyTypeDevice" if "p \<in> ran (new_policies(''p1'' \<mapsto> kids_block))" for p
    using that by (auto simp: ran_def new_policies_def kids_block_def split: if_splits)
  then show ?thesis by (auto simp: device_policies_def)
qed

lemma verdict_order_independent_witness:
  "fst (evaluate_action (\<lambda>_. [''p1'', global_default]) (new_policies(''p1'' \<mapsto> kids_block))
      (Some kids_laptop) (Some (evaluate_bundle (\<lambda>_. None) 0)) school_engine) =
   fst (evaluate_action (\<lambda>_. [global_default, ''p1'']) (new_policies(''p1'' \<mapsto> kids_block))
      (Some kids_laptop) (Some (evaluate_bundle (\<lambda>_. None) 0)) school_engine)"
proof (rule verdict_order_independent [OF orders_ok_two _ _ school_engine_fit])
  let ?ps = "new_policies(''p1'' \<mapsto> kids_block)"
  show "orders_ok ?ps (\<lambda>_. [global_default, ''p1''])"
    by (auto simp: orders_ok_def range_order_def new_policies_def global_default_def)
  show "unambiguous ?ps kids_laptop" by (simp add: unambiguous_def two_policies_device)
  have "kids_block \<in> ran ?ps" by (rule ranI [of _ "''p1''"]) simp
  then have "kids_block \<in> tag_policies ?ps kids_laptop"
    by (simp add: tag_policies_def) (simp add: kids_block_def kids_laptop_def)
  then have b: "tags_say ?ps kids_laptop ActionBlock"
    unfolding tags_say_def by (intro bexI) (simp_all add: kids_block_def)
  have u: "unruled ?ps kids_laptop"
    by (simp add: unruled_def overriding_def local_has_tag_def has_tag_def kids_laptop_def new_policies_def
        global_default_def)
  show "\<forall>ids. decides ?ps kids_laptop (Bundle ids) \<longrightarrow> plus_free ids"
    using decides_by_tags(1) [OF _ u two_policies_device b] by blast
qed

text \<open>The kill switch. While the global policy is enabled and blocks, every device is blocked,
  except one tagged as infrastructure, which is always allowed, whatever other policies and
  schedules say.\<close>

theorem kill_switch_blocks:
  assumes "overriding ps ActionBlock"
  shows "evaluate_action ord ps (Some d) sched s =
    (if local_has_tag d ''infrastructure'' then ActionAllow else ActionBlock, s)"
  using assms by (simp add: evaluate_action_def option_holds_global)

lemma kill_switch_blocks_witness:
  "evaluate_action (\<lambda>_. [global_default])
     [global_default \<mapsto> empty_policy\<lparr>pol_action := ActionBlock, pol_enabled := True\<rparr>]
     (Some kids_laptop) (None :: unit evaluator option) () = (ActionBlock, ())"
  by (subst kill_switch_blocks)
    (simp_all add: overriding_def local_has_tag_def has_tag_def kids_laptop_def)

subsection \<open>The effective policy shown and the action enforced\<close>

lemma scan_tags_ids_schedule:
  "of_policy (empty_policy\<lparr>pol_id := i, pol_name := n, pol_type := t, pol_action := ActionSchedule,
     pol_schedule_ids := ids\<rparr>) = (if ids = [] then Bundle [] else Bundle ids)"
  by (simp add: of_policy_def get_schedule_ids_def empty_policy_def)

lemma effective_decision:
  assumes "''infrastructure'' \<in> set (local_tags d) \<longleftrightarrow> local_has_tag d ''infrastructure''"
    and "\<forall>p. ps global_default = Some p \<longrightarrow> pol_enabled p"
  shows "of_policy (get_effective_policy ord ps (Some d)) = decision_of ord ps d"
proof -
  have h: "option_holds (\<lambda>p. pol_action p = a) (ps global_default) \<longleftrightarrow> overriding ps a" for a
    using assms(2) by (auto simp: option_holds_def overriding_def split: option.splits)
  have f: "of_policy (empty_policy\<lparr>pol_id := i, pol_name := n, pol_type := t, pol_action := a\<rparr>) = Fixed a"
    if "a \<noteq> ActionSchedule" for i n t a
    using that by (simp add: of_policy_def)
  have g: "of_policy p = (if pol_enabled p then of_policy p else Fixed (pol_action p))"
    if "ps global_default = Some p" for p using assms(2) that by simp
  show ?thesis
    by (auto simp: get_effective_policy_def decision_of_def h assms(1) Let_def f scan_tags_ids_schedule
        dest: g split: option.split sum.split prod.split)
qed

text \<open>\<open>GetEffectivePolicy\<close> shows the policy \<open>EvaluateAction\<close> enforces: acting on the effective policy
  gives the same action, as long as the two copies of the device's tags agree on infrastructure and
  the global policy is not disabled.\<close>

theorem effective_policy_enforced:
  assumes "''infrastructure'' \<in> set (local_tags d) \<longleftrightarrow> local_has_tag d ''infrastructure''"
    and "\<forall>p. ps global_default = Some p \<longrightarrow> pol_enabled p"
  shows "evaluate_action ord ps (Some d) (Some evalb) s =
    run_decision evalb (of_policy (get_effective_policy ord ps (Some d))) s"
proof -
  have "of_policy (get_effective_policy ord ps (Some d)) = decision_of ord ps d"
    by (rule effective_decision) (use assms in blast)+
  then show ?thesis by (simp only: evaluate_action_decision)
qed

lemma effective_policy_enforced_witness:
  "evaluate_action (\<lambda>_. [''p1'', global_default]) (new_policies(''p1'' \<mapsto> kids_block)) (Some kids_laptop)
     (Some (\<lambda>ids s. (ActionAllow, s))) () =
   run_decision (\<lambda>ids s. (ActionAllow, s)) (of_policy (get_effective_policy
     (\<lambda>_. [''p1'', global_default]) (new_policies(''p1'' \<mapsto> kids_block)) (Some kids_laptop))) ()"
  by (rule effective_policy_enforced)
    (simp_all add: kids_laptop_def local_has_tag_def has_tag_def new_policies_def global_default_def
      empty_policy_def)

text \<open>Both conditions are needed. A disabled global policy that blocks is shown as a kill switch, while
  the device's own policy is enforced; with no other policy it is enforced although disabled.\<close>

lemma disabled_switch_shown:
  "pol_id (get_effective_policy ord
     [global_default \<mapsto> empty_policy\<lparr>pol_action := ActionBlock, pol_enabled := False\<rparr>]
     (Some kids_laptop)) = ''global_killswitch''"
  by (simp add: get_effective_policy_def kids_laptop_def option_holds_def)

text \<open>Two device policies of one priority: the first one visited wins.\<close>

definition own :: "string \<Rightarrow> action \<Rightarrow> policy" where
  "own i a = empty_policy\<lparr>pol_id := i, pol_type := PolicyTypeDevice, pol_target := ''pdid_a'',
     pol_action := a, pol_enabled := True, pol_priority := 10\<rparr>"

lemma priority_tie_by_order:
  "fst (evaluate_action (\<lambda>_. [''a'', ''b'']) [''a'' \<mapsto> own ''a'' ActionAllow, ''b'' \<mapsto> own ''b'' ActionBlock]
     (Some kids_laptop) (None :: unit evaluator option) ()) = ActionAllow"
  "fst (evaluate_action (\<lambda>_. [''b'', ''a'']) [''a'' \<mapsto> own ''a'' ActionAllow, ''b'' \<mapsto> own ''b'' ActionBlock]
     (Some kids_laptop) (None :: unit evaluator option) ()) = ActionBlock"
  by (simp_all add: evaluate_action_def local_has_tag_def has_tag_def kids_laptop_def best_device_policy_def
      range_values_def better_device_def own_def local_pdid_def laptop_def option_holds_def global_default_def)

subsection \<open>The policy engine as the provider of the schedule engine\<close>

interpretation policies: effective_policy_provider "\<lambda>d. get_effective_policy ord ps (Some d)"
  for ord ps
  by unfold_locales (simp add: get_effective_policy_def)

text \<open>A pass of the schedule engine over the policy engine's effective policies leaves an
  infrastructure device without any announced state change.\<close>

theorem infrastructure_never_announced:
  assumes "cache_ok c" "range_order (devices c) ks" "devices c p = Some d"
    and "''infrastructure'' \<in> set (local_tags d)"
    and "update_next_state_changes (Some (\<lambda>d. get_effective_policy ord ps (Some d))) tzdb now ks (e, c) =
      (e', c', timer)"
  shows "\<exists>x. devices c' p = Some x \<and> local_next x = None"
proof -
  have dk: "distinct ks" using assms(2) by (simp add: range_order_def)
  obtain mn where f: "foldl (update_device (\<lambda>d. get_effective_policy ord ps (Some d)) tzdb now) (e, c, None)
      (cache_list ks c) = (e', c', mn)"
    using assms(5) by (auto simp: update_next_state_changes_def split: prod.splits)
  have s: "set (cache_list ks c) = ran (devices c)"
    using range_order_values [OF assms(2)] by (simp add: cache_list_def)
  have i: "d \<in> set (cache_list ks c)" using assms(3) s by (auto simp: ran_def)
  show ?thesis
    using policies.update_infrastructure [OF assms(4,1,3) _ cache_list_facts(2) [OF assms(1) dk] i f assms(3)] s
    by simp
qed

lemma infrastructure_never_announced_witness:
  "\<exists>e' c' timer x. update_next_state_changes
      (Some (\<lambda>d. get_effective_policy (\<lambda>_. [global_default]) new_policies (Some d))) (\<lambda>_. None) 0 [''pdid_a'']
      (school_engine, set_tags ''pdid_a'' [''infrastructure''] laptop_cache) = (e', c', timer) \<and>
    devices c' ''pdid_a'' = Some x \<and> local_next x = None"
proof -
  let ?c = "set_tags ''pdid_a'' [''infrastructure''] laptop_cache"
  obtain e' c' timer where u: "update_next_state_changes
      (Some (\<lambda>d. get_effective_policy (\<lambda>_. [global_default]) new_policies (Some d))) (\<lambda>_. None) 0 [''pdid_a'']
      (school_engine, ?c) = (e', c', timer)" by (metis prod.collapse)
  have ok: "cache_ok ?c" unfolding laptop_cache_def by (intro cache_ok_set_tags cache_ok_upsert cache_ok_new)
  have dom: "dom (devices ?c) = dom (devices laptop_cache)"
    by (auto simp: set_tags_def patch_device_def bump_revision_def Let_def split: option.splits)
  then have r: "range_order (devices ?c) [''pdid_a'']"
    using laptop_cache_devices by (simp add: range_order_def)
  then have "''pdid_a'' \<in> dom (devices ?c)" unfolding range_order_def by (metis list.set_intros(1))
  then obtain d where d: "devices ?c ''pdid_a'' = Some d" unfolding dom_def by blast
  have "sticky_tags ?c ''pdid_a'' = Some [''infrastructure'']"
    by (auto simp: set_tags_def patch_device_def bump_revision_def Let_def split: option.splits)
  then have "''infrastructure'' \<in> set (local_tags d)"
    using cache_okD(2) [OF ok d] by (simp add: tags_shown_def)
  note x = infrastructure_never_announced [OF ok r d this u]
  then obtain x where "devices c' ''pdid_a'' = Some x" "local_next x = None" by blast
  with u show ?thesis by (intro exI conjI)
qed

subsection \<open>Expiry of temporary policies and identity migrations\<close>

lemma foldl_delete_entries:
  "foldl (\<lambda>m (i, p). if Q p then m(i := None) else m) m es i =
    (if \<exists>p. (i, p) \<in> set es \<and> Q p then None else m i)"
  by (induction es arbitrary: m) auto

lemma sweep_step_fold:
  "foldl (sweep_step now) (ps, ids, owned) es =
    (foldl (\<lambda>m (i, p). if expired now p then m(i := None) else m) ps es,
     ids @ map fst (filter (\<lambda>(i, p). expired now p) es),
     owned @ concat (map (\<lambda>(i, p). filter privately_owned (get_schedule_ids p))
       (filter (\<lambda>(i, p). expired now p) es)))"
  by (induction es arbitrary: ps ids owned) (auto simp: sweep_step_def)

lemma entries_iff: "range_order m ks \<Longrightarrow> (k, v) \<in> set (range_entries m ks) \<longleftrightarrow> m k = Some v"
  using range_order_entries by fastforce

text \<open>\<open>SweepExpired\<close> removes exactly the policies whose expiry lies before now, reports each of them
  once, and hands over for deletion exactly the schedules made for them (the pause and extend
  prefixes), never a schedule of the user.\<close>

theorem sweep_exact:
  assumes "range_order ps ks" "sweep_expired ks now ps = (ps', ids, owned)"
  shows "ps' = (\<lambda>i. case ps i of Some p \<Rightarrow> if expired now p then None else Some p | None \<Rightarrow> None) \<and>
    distinct ids \<and> set ids = {i. \<exists>p. ps i = Some p \<and> expired now p} \<and>
    set owned = {sid. privately_owned sid \<and>
      (\<exists>i p. ps i = Some p \<and> expired now p \<and> sid \<in> set (get_schedule_ids p))}"
proof (intro conjI)
  note f = sweep_step_fold [of now ps "[]" "[]" "range_entries ps ks"]
  have r: "ps' = foldl (\<lambda>m (i, p). if expired now p then m(i := None) else m) ps (range_entries ps ks)"
      "ids = map fst (filter (\<lambda>(i, p). expired now p) (range_entries ps ks))"
      "owned = concat (map (\<lambda>(i, p). filter privately_owned (get_schedule_ids p))
        (filter (\<lambda>(i, p). expired now p) (range_entries ps ks)))"
    using assms(2) f by (simp_all add: sweep_expired_def)
  show "ps' = (\<lambda>i. case ps i of Some p \<Rightarrow> if expired now p then None else Some p | None \<Rightarrow> None)"
    by (rule ext) (auto simp: r(1) foldl_delete_entries entries_iff [OF assms(1)] split: option.split)
  have "distinct (map fst (range_entries ps ks))"
    using assms(1) by (simp add: range_order_def distinct_fst_range_entries)
  then show "distinct ids" unfolding r(2) by (rule distinct_map_filter)
  show "set ids = {i. \<exists>p. ps i = Some p \<and> expired now p}"
    by (force simp: r(2) entries_iff [OF assms(1)])
  show "set owned = {sid. privately_owned sid \<and>
      (\<exists>i p. ps i = Some p \<and> expired now p \<and> sid \<in> set (get_schedule_ids p))}"
    by (auto simp: r(3) entries_iff [OF assms(1)]; blast)
qed

definition pause_policy :: policy where
  "pause_policy = empty_policy\<lparr>pol_id := ''pause_1'', pol_expires_at := Some 100,
     pol_schedule_ids := [''sched_pause_1'', ''school'']\<rparr>"

lemma sweep_exact_witness:
  "\<exists>ps' ids owned. sweep_expired [''pause_1''] 101 [''pause_1'' \<mapsto> pause_policy] = (ps', ids, owned) \<and>
     set ids = {''pause_1''} \<and> ''sched_pause_1'' \<in> set owned \<and> ''school'' \<notin> set owned"
proof -
  let ?ps = "[''pause_1'' \<mapsto> pause_policy]"
  have r: "range_order ?ps [''pause_1'']" by (simp add: range_order_def)
  obtain ps' ids owned where s: "sweep_expired [''pause_1''] 101 ?ps = (ps', ids, owned)"
    by (metis prod.collapse)
  have p: "expired 101 pause_policy" "get_schedule_ids pause_policy = [''sched_pause_1'', ''school'']"
    by (simp_all add: expired_def pause_policy_def get_schedule_ids_def)
  have o: "privately_owned ''sched_pause_1''" "\<not> privately_owned ''school''" by code_simp+
  from sweep_exact [OF r s] have "set ids = {''pause_1''}" "''sched_pause_1'' \<in> set owned"
      "''school'' \<notin> set owned"
    using p o by (auto split: if_splits)
  with s show ?thesis by blast
qed

lemma foldl_upsert:
  "foldl (\<lambda>m p. m(pol_id p \<mapsto> p)) m pols i =
    (case map_of (rev (map (\<lambda>p. (pol_id p, p)) pols)) i of Some p \<Rightarrow> Some p | None \<Rightarrow> m i)"
  by (induction pols rule: rev_induct) auto

text \<open>After an identity migration the policies that target either identity are exactly those the
  migration committed; every other policy is untouched.\<close>

theorem reconcile_device_exact:
  assumes "range_order ps ks"
  shows "reconcile_device_identity ks old new pols ps i =
    (case map_of (rev (map (\<lambda>p. (pol_id p, p)) pols)) i of
       Some p \<Rightarrow> Some p
     | None \<Rightarrow> (case ps i of Some p \<Rightarrow> if targets_either old new p then None else Some p | None \<Rightarrow> None))"
  unfolding reconcile_device_identity_def Let_def foldl_upsert foldl_delete_entries
    entries_iff [OF assms]
  by (auto split: option.split)

lemma reconcile_device_exact_witness:
  "reconcile_device_identity [''a''] ''pdid_a'' ''pdid_b'' [own ''b'' ActionBlock] [''a'' \<mapsto> own ''a'' ActionAllow]
    ''a'' = None"
  by (subst reconcile_device_exact) (simp_all add: range_order_def own_def targets_either_def)

end
