(* ===== verification/Nft_Builder.thy ===== *)
theory Nft_Builder
  imports Nft_Controller Policy_Engine
begin

text \<open>
  \<open>apps/lias/internal/nftables/builder.go\<close> and \<open>sync.go\<close>: the addresses that must be allowed and
  blocked, computed from the device cache and the policy engine, and the update of the kernel's sets
  by difference. \<open>evalp\<close> is the policy evaluator, a function that also changes the state of the
  schedule engine behind it; \<open>ords i\<close> is the iteration order of the \<open>i\<close>-th loop over a map in the
  six calls of \<open>diffIPs\<close> and \<open>diffMACs\<close>.
\<close>

subsection \<open>Desired addresses\<close>

record address_sets =
  set_allowed_ips :: "string \<rightharpoonup> ip_addr"
  set_blocked_ips :: "string \<rightharpoonup> ip_addr"
  set_allowed_macs :: "string \<rightharpoonup> hwaddr"
  set_blocked_macs :: "string \<rightharpoonup> hwaddr"
  set_allowed_ip6s :: "string \<rightharpoonup> ip_addr"
  set_blocked_ip6s :: "string \<rightharpoonup> ip_addr"

definition empty_sets :: address_sets where
  "empty_sets = \<lparr>set_allowed_ips = Map.empty, set_blocked_ips = Map.empty,
     set_allowed_macs = Map.empty, set_blocked_macs = Map.empty,
     set_allowed_ip6s = Map.empty, set_blocked_ip6s = Map.empty\<rparr>"

text \<open>\<open>ResetState\<close>, and the state of a new builder.\<close>

definition reset_state :: "address_sets \<Rightarrow> address_sets" where
  "reset_state b = empty_sets"

definition note_ip ::
  "(string \<rightharpoonup> ip_addr) \<times> (string \<rightharpoonup> ip_addr) \<Rightarrow> string \<Rightarrow> (string \<rightharpoonup> ip_addr) \<times> (string \<rightharpoonup> ip_addr)" where
  "note_ip = (\<lambda>(m4, m6) s.
     (case parse_ip s of
        None \<Rightarrow> (m4, m6)
      | Some ip \<Rightarrow>
          (case to4 ip of
             Some ip4 \<Rightarrow> (m4(ip_string ip4 \<mapsto> ip4), m6)
           | None \<Rightarrow> (case to16 ip of
               Some ip6 \<Rightarrow> (m4, m6(ip_string ip6 \<mapsto> ip6))
             | None \<Rightarrow> (m4, m6)))))"

definition note_mac :: "(string \<rightharpoonup> hwaddr) \<Rightarrow> string \<Rightarrow> (string \<rightharpoonup> hwaddr)" where
  "note_mac m s =
     (case parse_mac s of
        None \<Rightarrow> m
      | Some mac \<Rightarrow> if length mac = 6 then m(mac_string mac \<mapsto> mac) else m)"

definition allow_device :: "device \<Rightarrow> address_sets \<Rightarrow> address_sets" where
  "allow_device d a =
     (let (m4, m6) = foldl note_ip (set_allowed_ips a, set_allowed_ip6s a) (ips d)
      in a\<lparr>set_allowed_ips := m4, set_allowed_ip6s := m6,
           set_allowed_macs := foldl note_mac (set_allowed_macs a) (macs d)\<rparr>)"

definition block_device :: "device \<Rightarrow> address_sets \<Rightarrow> address_sets" where
  "block_device d a =
     (let (m4, m6) = foldl note_ip (set_blocked_ips a, set_blocked_ip6s a) (ips d)
      in a\<lparr>set_blocked_ips := m4, set_blocked_ip6s := m6,
           set_blocked_macs := foldl note_mac (set_blocked_macs a) (macs d)\<rparr>)"

type_synonym 's policy_eval = "local_device \<Rightarrow> 's \<Rightarrow> action \<times> 's"

definition place_device :: "action \<Rightarrow> local_device \<Rightarrow> address_sets \<Rightarrow> address_sets" where
  "place_device a d des =
     (let infra = local_has_tag d ''infrastructure''; act = (if infra then ActionAllow else a)
      in if act = ActionAllow then
           (if \<not> online (dev d) \<and> \<not> infra then des else allow_device (dev d) des)
         else if act = ActionBlock then block_device (dev d) des
         else des)"

definition collect_device ::
  "'s policy_eval \<Rightarrow> address_sets \<times> 's \<Rightarrow> local_device \<Rightarrow> address_sets \<times> 's" where
  "collect_device evalp = (\<lambda>(des, s) d. let (a, s') = evalp d s in (place_device a d des, s'))"

definition missing_from :: "string list \<Rightarrow> (string \<rightharpoonup> 'v) \<Rightarrow> (string \<rightharpoonup> 'v) \<Rightarrow> 'v list" where
  "missing_from ks m other = map snd (filter (\<lambda>(k, v). other k = None) (range_entries m ks))"

definition set_diff_of :: "(nat \<Rightarrow> string list) \<Rightarrow> address_sets \<Rightarrow> address_sets \<Rightarrow> set_diff" where
  "set_diff_of ords des cur =
     \<lparr>allowed_ips_add = missing_from (ords 0) (set_allowed_ips des) (set_allowed_ips cur),
      allowed_ips_rem = missing_from (ords 1) (set_allowed_ips cur) (set_allowed_ips des),
      blocked_ips_add = missing_from (ords 2) (set_blocked_ips des) (set_blocked_ips cur),
      blocked_ips_rem = missing_from (ords 3) (set_blocked_ips cur) (set_blocked_ips des),
      allowed_macs_add = missing_from (ords 4) (set_allowed_macs des) (set_allowed_macs cur),
      allowed_macs_rem = missing_from (ords 5) (set_allowed_macs cur) (set_allowed_macs des),
      blocked_macs_add = missing_from (ords 6) (set_blocked_macs des) (set_blocked_macs cur),
      blocked_macs_rem = missing_from (ords 7) (set_blocked_macs cur) (set_blocked_macs des),
      allowed_ip6s_add = missing_from (ords 8) (set_allowed_ip6s des) (set_allowed_ip6s cur),
      allowed_ip6s_rem = missing_from (ords 9) (set_allowed_ip6s cur) (set_allowed_ip6s des),
      blocked_ip6s_add = missing_from (ords 10) (set_blocked_ip6s des) (set_blocked_ip6s cur),
      blocked_ip6s_rem = missing_from (ords 11) (set_blocked_ip6s cur) (set_blocked_ip6s des)\<rparr>"

definition empty_diff :: "set_diff \<Rightarrow> bool" where
  "empty_diff d \<longleftrightarrow>
     length (allowed_ips_add d) = 0 \<and> length (allowed_ips_rem d) = 0 \<and>
     length (blocked_ips_add d) = 0 \<and> length (blocked_ips_rem d) = 0 \<and>
     length (allowed_macs_add d) = 0 \<and> length (allowed_macs_rem d) = 0 \<and>
     length (blocked_macs_add d) = 0 \<and> length (blocked_macs_rem d) = 0 \<and>
     length (allowed_ip6s_add d) = 0 \<and> length (allowed_ip6s_rem d) = 0 \<and>
     length (blocked_ip6s_add d) = 0 \<and> length (blocked_ip6s_rem d) = 0"

text \<open>The state of a pass: what the builder believes installed, the controller, the kernel and the state
  behind the policy evaluator.\<close>

record ('k, 's) nft_state =
  nft_current :: address_sets
  nft_ctl :: controller
  nft_kernel :: 'k
  nft_eval :: 's

definition sync_sets ::
  "nft_config \<Rightarrow> nft_env \<Rightarrow> 'k commit \<Rightarrow> 's policy_eval \<Rightarrow> (nat \<Rightarrow> string list) \<Rightarrow> local_device list \<Rightarrow>
   ('k, 's) nft_state \<Rightarrow> ctl_error option \<times> ('k, 's) nft_state" where
  "sync_sets cfg env commit evalp ords devs st =
     (let (des, s') = foldl (collect_device evalp) (empty_sets, nft_eval st) devs;
          diff = set_diff_of ords des (nft_current st);
          st' = st\<lparr>nft_eval := s'\<rparr>
      in if empty_diff diff then (None, st')
         else (case apply_diff cfg env commit diff (nft_ctl st') (nft_kernel st') of
             (err, c', k') \<Rightarrow>
               (err, st'\<lparr>nft_ctl := c', nft_kernel := k',
                 nft_current := (case err of None \<Rightarrow> des | Some _ \<Rightarrow> empty_sets)\<rparr>)))"

subsection \<open>The sets of hardware addresses\<close>

definition keyed :: "(string \<rightharpoonup> hwaddr) \<Rightarrow> bool" where
  "keyed m \<longleftrightarrow> (\<forall>k v. m k = Some v \<longrightarrow> k = mac_string v \<and> length v = 6)"

lemma mac_string_inject:
  assumes "length v = 6" "length w = 6" "mac_string v = mac_string w"
  shows "v = w"
proof -
  have "parse_mac (mac_string v) = Some v" "parse_mac (mac_string w) = Some w"
    using assms(1,2) by (simp_all add: parse_mac_string mac_length_ok_def)
  then show ?thesis unfolding assms(3) by simp
qed

definition parsed_macs :: "string list \<Rightarrow> hwaddr set" where
  "parsed_macs ss = {mac. \<exists>s \<in> set ss. parse_mac s = Some mac \<and> length mac = 6}"

lemma keyed_note_mac:
  assumes "keyed m"
  shows "keyed (note_mac m s)" "ran (note_mac m s) = ran m \<union> parsed_macs [s]"
proof -
  show "keyed (note_mac m s)"
    using assms by (auto simp: keyed_def note_mac_def split: option.splits if_splits)
  show "ran (note_mac m s) = ran m \<union> parsed_macs [s]"
  proof (cases "\<exists>mac. parse_mac s = Some mac \<and> length mac = 6")
    case True
    then obtain mac where mac: "parse_mac s = Some mac" "length mac = 6" by blast
    have "m (mac_string mac) = None \<or> m (mac_string mac) = Some mac"
      using assms mac(2) mac_string_inject unfolding keyed_def by (metis not_None_eq)
    then have "ran (m(mac_string mac \<mapsto> mac)) = insert mac (ran m)"
    proof
      assume "m (mac_string mac) = None"
      then show ?thesis by (rule ran_map_upd)
    next
      assume a: "m (mac_string mac) = Some mac"
      then have "m(mac_string mac \<mapsto> mac) = m" by (simp add: fun_upd_idem)
      then show ?thesis using a by (simp add: insert_absorb ranI)
    qed
    then show ?thesis using mac by (auto simp: note_mac_def parsed_macs_def)
  next
    case False
    then show ?thesis by (auto simp: note_mac_def parsed_macs_def split: option.splits)
  qed
qed

lemma keyed_fold:
  assumes "keyed m"
  shows "keyed (foldl note_mac m ss) \<and> ran (foldl note_mac m ss) = ran m \<union> parsed_macs ss"
  using assms
proof (induction ss arbitrary: m)
  case Nil
  then show ?case by (simp add: parsed_macs_def)
next
  case (Cons s ss)
  have "parsed_macs (s # ss) = parsed_macs [s] \<union> parsed_macs ss" by (auto simp: parsed_macs_def)
  then show ?case using Cons.IH [OF keyed_note_mac(1) [OF Cons.prems]] keyed_note_mac(2) [OF Cons.prems] by auto
qed

definition infra :: "local_device \<Rightarrow> bool" where
  "infra d \<longleftrightarrow> local_has_tag d ''infrastructure''"

definition device_macs :: "local_device \<Rightarrow> hwaddr set" where
  "device_macs d = parsed_macs (macs (dev d))"

definition blocked_by :: "(local_device \<Rightarrow> action) \<Rightarrow> local_device \<Rightarrow> bool" where
  "blocked_by v d \<longleftrightarrow> \<not> infra d \<and> v d = ActionBlock"

definition allowed_by :: "(local_device \<Rightarrow> action) \<Rightarrow> local_device \<Rightarrow> bool" where
  "allowed_by v d \<longleftrightarrow> infra d \<or> v d = ActionAllow \<and> online (dev d)"

lemma macs_allow [simp]:
  "set_allowed_macs (allow_device d a) = foldl note_mac (set_allowed_macs a) (macs d)"
  "set_blocked_macs (allow_device d a) = set_blocked_macs a"
  by (simp_all add: allow_device_def split: prod.split)

lemma macs_block [simp]:
  "set_blocked_macs (block_device d a) = foldl note_mac (set_blocked_macs a) (macs d)"
  "set_allowed_macs (block_device d a) = set_allowed_macs a"
  by (simp_all add: block_device_def split: prod.split)

lemma place_device_macs:
  "set_blocked_macs (place_device (v d) d a) =
     (if blocked_by v d then foldl note_mac (set_blocked_macs a) (macs (dev d)) else set_blocked_macs a)"
  "set_allowed_macs (place_device (v d) d a) =
     (if allowed_by v d then foldl note_mac (set_allowed_macs a) (macs (dev d)) else set_allowed_macs a)"
  by (auto simp: place_device_def blocked_by_def allowed_by_def infra_def Let_def)

definition place_all :: "(local_device \<Rightarrow> action) \<Rightarrow> address_sets \<Rightarrow> local_device list \<Rightarrow> address_sets" where
  "place_all v = foldl (\<lambda>a d. place_device (v d) d a)"

lemma place_all_macs:
  assumes "keyed (set_blocked_macs a)" "keyed (set_allowed_macs a)"
  shows "keyed (set_blocked_macs (place_all v a ds)) \<and> keyed (set_allowed_macs (place_all v a ds)) \<and>
    ran (set_blocked_macs (place_all v a ds)) =
      ran (set_blocked_macs a) \<union> (\<Union>d \<in> {d \<in> set ds. blocked_by v d}. device_macs d) \<and>
    ran (set_allowed_macs (place_all v a ds)) =
      ran (set_allowed_macs a) \<union> (\<Union>d \<in> {d \<in> set ds. allowed_by v d}. device_macs d)"
  using assms
proof (induction ds arbitrary: a)
  case Nil
  then show ?case by (simp add: place_all_def)
next
  case (Cons d ds)
  let ?a = "place_device (v d) d a"
  have k: "keyed (set_blocked_macs ?a)" "keyed (set_allowed_macs ?a)"
    "ran (set_blocked_macs ?a) = ran (set_blocked_macs a) \<union> (if blocked_by v d then device_macs d else {})"
    "ran (set_allowed_macs ?a) = ran (set_allowed_macs a) \<union> (if allowed_by v d then device_macs d else {})"
    using keyed_fold [OF Cons.prems(1)] keyed_fold [OF Cons.prems(2)] Cons.prems
    by (auto simp: place_device_macs device_macs_def)
  have p: "place_all v a (d # ds) = place_all v ?a ds" by (simp add: place_all_def)
  show ?case unfolding p using Cons.IH [OF k(1,2)] k(3,4) by auto
qed

lemma set_missing_from:
  assumes "range_order m ks"
  shows "set (missing_from ks m other) = {v. \<exists>k. m k = Some v \<and> other k = None}"
  using assms by (force simp: missing_from_def entries_iff)

text \<open>Adding what is missing and removing what is superfluous turns one keyed map's values into the
  other's.\<close>

lemma diff_reaches:
  assumes "keyed des" "keyed cur" "range_order des ks" "range_order cur ks'"
  shows "ran cur \<union> keys mac_key (missing_from ks des cur) - keys mac_key (missing_from ks' cur des) = ran des"
proof -
  have a: "keys mac_key (missing_from ks des cur) = {v. \<exists>k. des k = Some v \<and> cur k = None}"
    using assms(1) set_missing_from [OF assms(3), of cur]
    by (auto simp: keys_def mac_key_def keyed_def split: if_splits)
  have r: "keys mac_key (missing_from ks' cur des) = {v. \<exists>k. cur k = Some v \<and> des k = None}"
    using assms(2) set_missing_from [OF assms(4), of des]
    by (auto simp: keys_def mac_key_def keyed_def split: if_splits)
  show ?thesis
  proof (intro set_eqI iffI)
    fix x assume "x \<in> ran cur \<union> keys mac_key (missing_from ks des cur) - keys mac_key (missing_from ks' cur des)"
    then have c: "x \<in> ran cur \<or> (\<exists>k. des k = Some x \<and> cur k = None)"
        "\<not> (\<exists>k. cur k = Some x \<and> des k = None)" unfolding a r by auto
    then show "x \<in> ran des"
    proof (elim disjE)
      assume "x \<in> ran cur"
      then obtain k where k: "cur k = Some x" by (auto simp: ran_def)
      then obtain y where y: "des k = Some y" using c(2) by (cases "des k") auto
      have "y = x" using k y assms(1,2) mac_string_inject unfolding keyed_def by metis
      then show ?thesis using y by (auto simp: ran_def)
    qed (auto simp: ran_def)
  next
    fix x assume "x \<in> ran des"
    then obtain k where k: "des k = Some x" by (auto simp: ran_def)
    have "x \<in> ran cur \<or> cur k = None"
    proof (cases "cur k")
      case (Some y)
      then have "y = x" using k assms(1,2) mac_string_inject unfolding keyed_def by metis
      then show ?thesis using Some by (auto simp: ran_def)
    qed simp
    moreover have "\<not> (\<exists>k'. cur k' = Some x \<and> des k' = None)"
      using k assms(1,2) unfolding keyed_def by (metis option.distinct(1))
    ultimately show "x \<in> ran cur \<union> keys mac_key (missing_from ks des cur) - keys mac_key (missing_from ks' cur des)"
      unfolding a r using k by auto
  qed
qed

text \<open>What the builder believes installed is what the kernel has.\<close>

definition in_sync :: "('k \<Rightarrow> nft_sets) \<Rightarrow> ('k, 's) nft_state \<Rightarrow> bool" where
  "in_sync elems st \<longleftrightarrow> sets_complete (nft_ctl st) \<and>
     keyed (set_blocked_macs (nft_current st)) \<and> keyed (set_allowed_macs (nft_current st)) \<and>
     elems (nft_kernel st) ''blocked_macs'' = ran (set_blocked_macs (nft_current st)) \<and>
     elems (nft_kernel st) ''allowed_macs'' = ran (set_allowed_macs (nft_current st))"

definition diff_orders :: "(nat \<Rightarrow> string list) \<Rightarrow> address_sets \<Rightarrow> address_sets \<Rightarrow> bool" where
  "diff_orders ords des cur \<longleftrightarrow>
     range_order (set_allowed_macs des) (ords 4) \<and> range_order (set_allowed_macs cur) (ords 5) \<and>
     range_order (set_blocked_macs des) (ords 6) \<and> range_order (set_blocked_macs cur) (ords 7)"

lemma missing_nil:
  assumes "keyed des" "keyed cur" "range_order des ks" "range_order cur ks'"
    and "missing_from ks des cur = []" "missing_from ks' cur des = []"
  shows "ran cur = ran des"
  using diff_reaches [OF assms(1-4)] assms(5,6) by (simp add: keys_def)

subsection \<open>The interface to the policy engine\<close>

text \<open>\<open>PolicyEvaluator\<close>: within a pass the verdict of a device is a function \<open>v\<close> of the device, however
  often the schedule engine's cache changes.\<close>

locale policy_evaluator =
  fixes evalp :: "'s policy_eval" and ok :: "'s \<Rightarrow> bool" and v :: "local_device \<Rightarrow> action"
  assumes keeps: "ok s \<Longrightarrow> ok (snd (evalp d s))"
    and verdict: "ok s \<Longrightarrow> fst (evalp d s) = v d"
begin

lemma collect_all:
  "ok s \<Longrightarrow> \<exists>s'. ok s' \<and> foldl (collect_device evalp) (a, s) ds = (place_all v a ds, s')"
proof (induction ds arbitrary: a s)
  case Nil
  then show ?case by (simp add: place_all_def)
next
  case (Cons d ds)
  have "collect_device evalp (a, s) d = (place_device (v d) d a, snd (evalp d s))"
    using verdict [OF Cons.prems, of d] by (auto simp: collect_device_def split: prod.split)
  then show ?case
    using Cons.IH [OF keeps [OF Cons.prems, of d], of "place_device (v d) d a"] by (simp add: place_all_def)
qed

lemma sync_macs:
  assumes "atomic_commit commit elems" "in_sync elems st" "ok (nft_eval st)"
    and "diff_orders ords (place_all v empty_sets devs) (nft_current st)"
    and "sync_sets cfg env commit evalp ords devs st = (None, st')"
  shows "in_sync elems st' \<and> ok (nft_eval st') \<and>
    elems (nft_kernel st') ''blocked_macs'' = (\<Union>d \<in> {d \<in> set devs. blocked_by v d}. device_macs d) \<and>
    elems (nft_kernel st') ''allowed_macs'' = (\<Union>d \<in> {d \<in> set devs. allowed_by v d}. device_macs d)"
proof -
  let ?des = "place_all v empty_sets devs" and ?cur = "nft_current st"
  let ?diff = "set_diff_of ords ?des ?cur"
  obtain s' where s': "ok s'"
      "foldl (collect_device evalp) (empty_sets, nft_eval st) devs = (?des, s')"
    using collect_all [OF assms(3)] by blast
  have e: "keyed (set_blocked_macs empty_sets)" "keyed (set_allowed_macs empty_sets)"
    by (simp_all add: keyed_def empty_sets_def)
  note d = place_all_macs [OF e, of v devs]
  have r: "ran (set_blocked_macs ?des) = (\<Union>d \<in> {d \<in> set devs. blocked_by v d}. device_macs d)"
    "ran (set_allowed_macs ?des) = (\<Union>d \<in> {d \<in> set devs. allowed_by v d}. device_macs d)"
    using d by (simp_all add: empty_sets_def)
  have c: "sets_complete (nft_ctl st)" "keyed (set_blocked_macs ?cur)" "keyed (set_allowed_macs ?cur)"
      "elems (nft_kernel st) ''blocked_macs'' = ran (set_blocked_macs ?cur)"
      "elems (nft_kernel st) ''allowed_macs'' = ran (set_allowed_macs ?cur)"
    using assms(2) by (simp_all add: in_sync_def)
  have o: "range_order (set_allowed_macs ?des) (ords 4)" "range_order (set_allowed_macs ?cur) (ords 5)"
      "range_order (set_blocked_macs ?des) (ords 6)" "range_order (set_blocked_macs ?cur) (ords 7)"
    using assms(4) by (simp_all add: diff_orders_def)
  have reach: "ran (set_blocked_macs ?cur) \<union> keys mac_key (blocked_macs_add ?diff) -
        keys mac_key (blocked_macs_rem ?diff) = ran (set_blocked_macs ?des)"
      "ran (set_allowed_macs ?cur) \<union> keys mac_key (allowed_macs_add ?diff) -
        keys mac_key (allowed_macs_rem ?diff) = ran (set_allowed_macs ?des)"
    using d diff_reaches [OF _ c(2) o(3,4)] diff_reaches [OF _ c(3) o(1,2)]
    by (simp_all add: set_diff_of_def)
  show ?thesis
  proof (cases "empty_diff ?diff")
    case True
    then have "ran (set_blocked_macs ?cur) = ran (set_blocked_macs ?des)"
        "ran (set_allowed_macs ?cur) = ran (set_allowed_macs ?des)"
      using reach by (simp_all add: empty_diff_def keys_def)
    moreover have "st' = st\<lparr>nft_eval := s'\<rparr>"
      using assms(5) s'(2) True by (simp add: sync_sets_def)
    ultimately show ?thesis using s'(1) c r by (simp add: in_sync_def)
  next
    case False
    obtain c' k' where a: "apply_diff cfg env commit ?diff (nft_ctl st) (nft_kernel st) = (None, c', k')"
        and st': "st' = st\<lparr>nft_eval := s', nft_ctl := c', nft_kernel := k', nft_current := ?des\<rparr>"
      using assms(5) s'(2) False by (auto simp: sync_sets_def Let_def split: prod.splits)
    note k = apply_diff_macs [OF assms(1) c(1) a]
    show ?thesis
      using s'(1) c d r k reach by (simp add: st' in_sync_def)
  qed
qed

end

subsection \<open>The policy engine is such an evaluator\<close>

definition enforce :: "orders \<Rightarrow> policies \<Rightarrow> tzdb \<Rightarrow> time \<Rightarrow> engine policy_eval" where
  "enforce ord ps tzdb now d e = evaluate_action ord ps (Some d) (Some (evaluate_bundle tzdb now)) e"

text \<open>The verdict, computed without the engine's cache.\<close>

definition enforced :: "orders \<Rightarrow> policies \<Rightarrow> tzdb \<Rightarrow> time \<Rightarrow> (string \<rightharpoonup> schedule) \<Rightarrow> local_device \<Rightarrow> action" where
  "enforced ord ps tzdb now scheds d =
     (case decision_of ord ps d of Fixed a \<Rightarrow> a | Bundle ids \<Rightarrow> bundle_spec tzdb now scheds ids)"

definition pass_ok :: "orders \<Rightarrow> policies \<Rightarrow> tzdb \<Rightarrow> time \<Rightarrow> (string \<rightharpoonup> schedule) \<Rightarrow> engine \<Rightarrow> bool" where
  "pass_ok ord ps tzdb now scheds e \<longleftrightarrow> engine_fit tzdb now e \<and> eng_schedules e = scheds \<and>
     (\<forall>d ids. decision_of ord ps d = Bundle ids \<longrightarrow> plus_free ids)"

interpretation policy: policy_evaluator "enforce ord ps tzdb now" "pass_ok ord ps tzdb now scheds"
  "enforced ord ps tzdb now scheds"
  for ord ps tzdb now scheds
proof
  fix s d
  assume ok: "pass_ok ord ps tzdb now scheds s"
  have run: "enforce ord ps tzdb now d s = run_decision (evaluate_bundle tzdb now) (decision_of ord ps d) s"
    by (simp add: enforce_def evaluate_action_decision)
  show "pass_ok ord ps tzdb now scheds (snd (enforce ord ps tzdb now d s))"
    using ok unfolding run
    by (auto simp: pass_ok_def run_decision_def engine_fit_keeps split: decision.split)
  show "fst (enforce ord ps tzdb now d s) = enforced ord ps tzdb now scheds d"
  proof (cases "decision_of ord ps d")
    case (Fixed a)
    then show ?thesis by (simp add: run run_decision_def enforced_def)
  next
    case (Bundle ids)
    have f: "engine_ok s" "\<forall>i \<in> dom (eng_schedules s). CHR ''+'' \<notin> set i"
        "plain_schedules tzdb (eng_schedules s)" "\<bar>now div second\<bar> \<le> 2 ^ 62" "eng_schedules s = scheds"
        "plus_free ids"
      using ok Bundle unfolding pass_ok_def engine_fit_def by blast+
    have "fst (evaluate_bundle tzdb now ids s) = bundle_spec tzdb now (eng_schedules s) ids"
      by (rule evaluate_bundle_refines [OF f(1,6,2,3,4)])
    then show ?thesis by (simp add: run run_decision_def enforced_def Bundle f(5))
  qed
qed



text \<open>A pass for the witnesses: a fresh table, the kill switch on, one laptop.\<close>

definition reference_commit :: "nft_sets commit" where
  "reference_commit ops S = Some (foldl op_sets S ops)"

definition kill_policies :: policies where
  "kill_policies = [global_default \<mapsto> empty_policy\<lparr>pol_action := ActionBlock, pol_enabled := True\<rparr>]"

definition fresh_state :: "(nft_sets, engine) nft_state" where
  "fresh_state = \<lparr>nft_current = empty_sets,
     nft_ctl = \<lparr>ctl_connected = True, ctl_table = True, ctl_sets = map fst set_decls\<rparr>,
     nft_kernel = (\<lambda>_. {}), nft_eval = school_engine\<rparr>"

definition laptop_mac :: hwaddr where
  "laptop_mac = [0xaa, 0xbb, 0xcc, 0, 0x11, 0x22]"

definition demo_orders :: "nat \<Rightarrow> string list" where
  "demo_orders i = (if i = 6 then [mac_string laptop_mac] else [])"

definition demo_pass :: "ctl_error option \<times> (nft_sets, engine) nft_state" where
  "demo_pass = sync_sets plain_config \<lparr>env_status = None, env_interface = (\<lambda>_. True), env_connect = True\<rparr>
     reference_commit (enforce (\<lambda>_. [global_default]) kill_policies (\<lambda>_. None) 0) demo_orders [kids_laptop]
     fresh_state"

abbreviation demo_verdict :: "local_device \<Rightarrow> action" where
  "demo_verdict \<equiv> enforced (\<lambda>_. [global_default]) kill_policies (\<lambda>_. None) 0 [''school'' \<mapsto> school_nights]"

lemma demo_decision: "decision_of ord kill_policies d = Fixed (if infra d then ActionAllow else ActionBlock)"
  by (simp add: decision_of_def kill_policies_def overriding_def infra_def)

lemma kids_laptop_infra: "\<not> infra kids_laptop"
  by (simp add: infra_def local_has_tag_def has_tag_def kids_laptop_def)

lemma demo_blocked: "demo_verdict kids_laptop = ActionBlock" "blocked_by demo_verdict kids_laptop"
  by (simp_all add: enforced_def demo_decision kids_laptop_infra blocked_by_def)

lemma laptop_mac_parse: "parse_mac ''AA:BB:CC:00:11:22'' = Some laptop_mac" "length laptop_mac = 6"
  by code_simp (simp add: laptop_mac_def)

lemma laptop_macs: "device_macs kids_laptop = {laptop_mac}"
  using laptop_mac_parse by (auto simp: device_macs_def parsed_macs_def kids_laptop_def laptop_def)

lemma demo_facts:
  "atomic_commit reference_commit (\<lambda>S. S)"
  "in_sync (\<lambda>S. S) fresh_state"
  "pass_ok (\<lambda>_. [global_default]) kill_policies (\<lambda>_. None) 0 [''school'' \<mapsto> school_nights] (nft_eval fresh_state)"
  "diff_orders demo_orders (place_all demo_verdict empty_sets [kids_laptop]) (nft_current fresh_state)"
  "fst demo_pass = None"
proof -
  show "atomic_commit reference_commit (\<lambda>S. S)" by (simp add: atomic_commit_def reference_commit_def)
  show "in_sync (\<lambda>S. S) fresh_state"
    by (simp add: in_sync_def fresh_state_def sets_complete_def empty_sets_def keyed_def)
  show "pass_ok (\<lambda>_. [global_default]) kill_policies (\<lambda>_. None) 0 [''school'' \<mapsto> school_nights] (nft_eval fresh_state)"
    using school_engine_fit by (simp add: pass_ok_def fresh_state_def demo_decision school_engine_facts(2))
  have p: "place_all demo_verdict empty_sets [kids_laptop] = block_device (dev kids_laptop) empty_sets"
    using demo_blocked kids_laptop_infra by (simp add: place_all_def place_device_def infra_def)
  have m: "macs (dev kids_laptop) = [''AA:BB:CC:00:11:22'']" by (simp add: kids_laptop_def laptop_def)
  show "diff_orders demo_orders (place_all demo_verdict empty_sets [kids_laptop]) (nft_current fresh_state)"
    unfolding p diff_orders_def
    by (simp add: m note_mac_def laptop_mac_parse fresh_state_def empty_sets_def range_order_def demo_orders_def)
  show "fst demo_pass = None"
    by (simp add: demo_pass_def sync_sets_def apply_diff_def reference_commit_def fresh_state_def Let_def
        split: prod.split)
qed

lemma demo_pass_pair:
  "sync_sets plain_config \<lparr>env_status = None, env_interface = (\<lambda>_. True), env_connect = True\<rparr>
     reference_commit (enforce (\<lambda>_. [global_default]) kill_policies (\<lambda>_. None) 0) demo_orders [kids_laptop]
     fresh_state = (None, snd demo_pass)"
  using demo_facts(5) unfolding demo_pass_def by (metis prod.collapse)


definition laptop_packet :: packet where
  "laptop_packet = \<lparr>pkt_iif = iface_bytes plain_config, pkt_ll = replicate 6 255 @ laptop_mac @ [8, 0],
     pkt_net = replicate 20 0\<rparr>"


text \<open>A failed commit makes the builder forget what is installed, and re-creating the table keeps the
  elements of the sets: an address blocked before the failure stays in the kernel's set after the
  next successful pass, although nobody is blocked any more.\<close>

definition failing_commit :: "nft_sets commit" where
  "failing_commit ops S =
     (if \<exists>op \<in> set ops. case op of SetDeleteElements _ _ \<Rightarrow> True | _ \<Rightarrow> False then None
      else Some (foldl op_sets S ops))"

definition good_env :: nft_env where
  "good_env = \<lparr>env_status = Some (cap_eff @ ''0000000000001000''), env_interface = (\<lambda>_. True), env_connect = True\<rparr>"

definition blocked_state :: "(nft_sets, engine) nft_state" where
  "blocked_state = fresh_state
     \<lparr>nft_current := empty_sets\<lparr>set_blocked_macs := [mac_string laptop_mac \<mapsto> laptop_mac]\<rparr>,
      nft_kernel := (\<lambda>n. if n = ''blocked_macs'' then {laptop_mac} else {})\<rparr>"

definition removal_orders :: "nat \<Rightarrow> string list" where
  "removal_orders i = (if i = 7 then [mac_string laptop_mac] else [])"

definition failed_pass :: "ctl_error option \<times> (nft_sets, engine) nft_state" where
  "failed_pass = sync_sets plain_config good_env failing_commit
     (enforce (\<lambda>_. [global_default]) kill_policies (\<lambda>_. None) 0) removal_orders [] blocked_state"

lemma init_keeps_elements:
  "foldl op_sets S (init_ops cfg) = S"
proof -
  have "foldl op_sets S (map AddRule rs) = S" for rs S
    by (induction rs) (auto simp: op_sets_def)
  then show ?thesis by (simp add: init_ops_def set_decls_def add_rules_def op_sets_def)
qed

lemma failing_commit_init: "failing_commit (init_ops cfg) S = Some S"
proof -
  have "\<not> (\<exists>op \<in> set (init_ops cfg). case op of SetDeleteElements _ _ \<Rightarrow> True | _ \<Rightarrow> False)"
    by (auto simp: init_ops_def set_decls_def add_rules_def)
  then show ?thesis by (simp add: failing_commit_def init_keeps_elements)
qed

lemma good_env_admin: "check_net_admin (env_status good_env) = None"
  by code_simp

lemma failed_pass_facts:
  "fst failed_pass = Some CommitFailed" "nft_current (snd failed_pass) = empty_sets"
  "nft_kernel (snd failed_pass) ''blocked_macs'' = {laptop_mac}"
proof -
  let ?diff = "set_diff_of removal_orders empty_sets (nft_current blocked_state)"
  have rem: "blocked_macs_rem ?diff = [laptop_mac]"
    by (simp add: set_diff_of_def missing_from_def blocked_state_def empty_sets_def removal_orders_def)
  have ctl: "nft_ctl blocked_state = \<lparr>ctl_connected = True, ctl_table = True, ctl_sets = map fst set_decls\<rparr>"
    by (simp add: blocked_state_def fresh_state_def)
  have "SetDeleteElements ''blocked_macs'' [laptop_mac] \<in> set (apply_ops (nft_ctl blocked_state) ?diff)"
    using laptop_mac_parse(2)
    by (simp add: apply_ops_def queue_elements_def rem ctl set_decls_def List.map_filter_def mac_key_def)
  then have "failing_commit (apply_ops (nft_ctl blocked_state) ?diff) (nft_kernel blocked_state) = None"
    unfolding failing_commit_def by force
  then have "apply_diff plain_config good_env failing_commit ?diff (nft_ctl blocked_state) (nft_kernel blocked_state)
      = (Some CommitFailed, \<lparr>ctl_connected = True, ctl_table = True, ctl_sets = map fst set_decls\<rparr>,
         nft_kernel blocked_state)"
    using good_env_admin
    by (simp add: apply_diff_def ctl reinitialize_conn_def init_controller_def failing_commit_init)
      (simp add: good_env_def)
  moreover have "\<not> empty_diff ?diff" by (simp add: empty_diff_def rem)
  ultimately have e: "failed_pass = (Some CommitFailed, blocked_state
      \<lparr>nft_ctl := \<lparr>ctl_connected = True, ctl_table = True, ctl_sets = map fst set_decls\<rparr>,
       nft_current := empty_sets\<rparr>)"
    by (simp add: failed_pass_def sync_sets_def)
  show "fst failed_pass = Some CommitFailed" "nft_current (snd failed_pass) = empty_sets"
    "nft_kernel (snd failed_pass) ''blocked_macs'' = {laptop_mac}"
    unfolding e by (simp_all add: blocked_state_def)
qed

lemma failure_leaves_stale_address:
  "\<exists>st. sync_sets plain_config good_env reference_commit
       (enforce (\<lambda>_. [global_default]) kill_policies (\<lambda>_. None) 0) removal_orders [] (snd failed_pass) = (None, st) \<and>
     laptop_mac \<in> nft_kernel st ''blocked_macs''"
proof -
  have "empty_diff (set_diff_of removal_orders empty_sets empty_sets)"
    by (simp add: empty_diff_def set_diff_of_def missing_from_def empty_sets_def removal_orders_def)
  then show ?thesis
    using failed_pass_facts(2,3) by (simp add: sync_sets_def)
qed

end
