(* ===== verification/Tag_Manager.thy ===== *)
theory Tag_Manager
  imports Shared_Models
begin

text \<open>
  \<open>apps/lias/internal/tags/manager.go\<close>: the tag groups of the scheduler, in a list whose order is the
  order of display. Built-in tags can be neither changed nor deleted.
\<close>

record tag =
  tag_id :: string
  tag_name :: string
  tag_color :: string
  tag_precedence :: int
  tag_builtin :: bool

datatype tag_error =
  EmptyName | TagExists string | BuiltinModified string | BuiltinDeleted string | TagNotFound

definition builtin :: "string \<Rightarrow> string \<Rightarrow> string \<Rightarrow> int \<Rightarrow> tag" where
  "builtin i n c p = \<lparr>tag_id = i, tag_name = n, tag_color = c, tag_precedence = p, tag_builtin = True\<rparr>"

definition new_manager :: "tag list" where
  "new_manager =
    [builtin ''infrastructure'' ''Infrastructure'' ''#8e8e93'' 100,
     builtin ''work'' ''Work Devices'' ''#5856d6'' 90,
     builtin ''kids'' ''Kids Devices'' ''#ff9500'' 80,
     builtin ''gaming'' ''Gaming Consoles'' ''#ff2d55'' 70,
     builtin ''streaming'' ''Streaming Devices'' ''#af52de'' 65,
     builtin ''mobile'' ''Mobile Devices'' ''#0a84ff'' 60,
     builtin ''audio'' ''Audio Devices'' ''#00c7be'' 55,
     builtin ''computers'' ''Desktops & Laptops'' ''#32ade6'' 50,
     builtin ''smart_home'' ''Smart Home & Appliances'' ''#30d158'' 40,
     builtin ''iot'' ''IoT Devices'' ''#30d158'' 40,
     builtin ''printers'' ''Printers & Scanners'' ''#a28b55'' 35,
     builtin ''servers'' ''Servers & NAS'' ''#ffcc00'' 30,
     builtin ''guests'' ''Guest Devices'' ''#ff3b30'' 20,
     builtin ''generic'' ''Generic Devices'' ''#636366'' 0]"

definition ensure_tag_exists :: "string \<Rightarrow> tag list \<Rightarrow> tag list" where
  "ensure_tag_exists i ts =
     (if i = [] then ts
      else let c = to_lower (trim_space i) in
        if \<exists>t \<in> set ts. tag_id t = c then ts
        else ts @ [\<lparr>tag_id = c, tag_name = title (replace_all ''_'' '' '' c), tag_color = ''#0071e3'',
                    tag_precedence = 50, tag_builtin = False\<rparr>])"

text \<open>The first tag with the id is replaced, or the tag appended.\<close>

fun restore_tag :: "tag \<Rightarrow> tag list \<Rightarrow> tag list" where
  "restore_tag t [] = [t]"
| "restore_tag t (x # xs) = (if tag_id x = tag_id t then t # xs else x # restore_tag t xs)"

definition list_tags :: "tag list \<Rightarrow> tag list" where
  "list_tags ts = ts"

definition create_tag :: "string \<Rightarrow> string \<Rightarrow> tag list \<Rightarrow> (tag_error + tag) \<times> tag list" where
  "create_tag name color ts =
     (let cn = trim_space name in
      if cn = [] then (Inl EmptyName, ts)
      else let i = to_lower (replace_all '' '' ''_'' cn) in
        if \<exists>t \<in> set ts. tag_id t = i \<or> equal_fold (tag_name t) cn then (Inl (TagExists cn), ts)
        else let t = \<lparr>tag_id = i, tag_name = cn, tag_color = color, tag_precedence = 50, tag_builtin = False\<rparr>
          in (Inr t, ts @ [t]))"

definition edited :: "string \<Rightarrow> string \<Rightarrow> tag \<Rightarrow> tag" where
  "edited name color t =
     (let t1 = (if name \<noteq> [] \<and> name \<noteq> tag_name t then t\<lparr>tag_name := name\<rparr> else t)
      in if color \<noteq> [] then t1\<lparr>tag_color := color\<rparr> else t1)"

fun update_tag :: "string \<Rightarrow> string \<Rightarrow> string \<Rightarrow> tag list \<Rightarrow> (tag_error + tag) \<times> tag list" where
  "update_tag i name color [] = (Inl TagNotFound, [])"
| "update_tag i name color (t # ts) =
     (if tag_id t = i then
        (if tag_builtin t then (Inl (BuiltinModified (tag_name t)), t # ts)
         else (Inr (edited name color t), edited name color t # ts))
      else (case update_tag i name color ts of (r, ts') \<Rightarrow> (r, t # ts')))"

fun delete_tag :: "string \<Rightarrow> tag list \<Rightarrow> tag_error option \<times> tag list" where
  "delete_tag i [] = (Some TagNotFound, [])"
| "delete_tag i (t # ts) =
     (if tag_id t = i then
        (if tag_builtin t then (Some (BuiltinDeleted (tag_name t)), t # ts) else (None, ts))
      else (case delete_tag i ts of (e, ts') \<Rightarrow> (e, t # ts')))"

definition get_device_tag :: "string list \<Rightarrow> tag list \<Rightarrow> string" where
  "get_device_tag tags ts =
     (case tags of [] \<Rightarrow> ''generic''
      | i # _ \<Rightarrow> if \<exists>t \<in> set ts. tag_id t = i then i else ''generic'')"

subsection \<open>Built-in tags survive, ids stay unique\<close>

definition tags_ok :: "tag list \<Rightarrow> bool" where
  "tags_ok ts \<longleftrightarrow> distinct (map tag_id ts)"

definition builtins_of :: "tag list \<Rightarrow> tag list" where
  "builtins_of ts = filter tag_builtin ts"

lemma edited_simps [simp]: "tag_id (edited n c t) = tag_id t" "tag_builtin (edited n c t) = tag_builtin t"
  by (simp_all add: edited_def Let_def)

lemma ids_update [simp]: "map tag_id (snd (update_tag i n c ts)) = map tag_id ts"
  by (induction ts) (auto split: prod.splits)

lemma set_delete: "set (snd (delete_tag i ts)) \<subseteq> set ts"
  by (induction ts) (auto split: prod.splits)

lemma ids_restore: "set (map tag_id (restore_tag t ts)) = insert (tag_id t) (set (map tag_id ts))"
  by (induction ts) auto

lemma tags_ok_delete: "tags_ok ts \<Longrightarrow> tags_ok (snd (delete_tag i ts))"
proof (induction ts)
  case (Cons t ts)
  obtain e ts' where d: "delete_tag i ts = (e, ts')" by fastforce
  then have "tags_ok ts'" "set ts' \<subseteq> set ts" using Cons set_delete [of i ts] by (simp_all add: tags_ok_def)
  then have "tag_id t \<notin> tag_id ` set ts'" using Cons.prems by (auto simp: tags_ok_def)
  with \<open>tags_ok ts'\<close> Cons.prems show ?case by (auto simp: d tags_ok_def)
qed simp

lemma tags_ok_restore: "tags_ok ts \<Longrightarrow> tags_ok (restore_tag t ts)"
proof (induction ts)
  case (Cons x xs)
  then show ?case using ids_restore [of t xs] by (auto simp: tags_ok_def)
qed (simp add: tags_ok_def)

lemma builtins_update: "builtins_of (snd (update_tag i n c ts)) = builtins_of ts"
  by (induction ts) (auto simp: builtins_of_def split: prod.splits)

lemma builtins_delete: "builtins_of (snd (delete_tag i ts)) = builtins_of ts"
  by (induction ts) (auto simp: builtins_of_def split: prod.splits)

text \<open>An editing operation of the API; \<open>RestoreTag\<close> only runs at start, on the stored custom tags.\<close>

inductive tag_step :: "tag list \<Rightarrow> tag list \<Rightarrow> bool" where
  "tag_step ts (ensure_tag_exists i ts)"
| "tag_step ts (snd (create_tag n c ts))"
| "tag_step ts (snd (update_tag i n c ts))"
| "tag_step ts (snd (delete_tag i ts))"

inductive_simps tag_step_simps: "tag_step ts ts'"

lemma tag_step_ok: "tag_step ts ts' \<Longrightarrow> tags_ok ts \<Longrightarrow> tags_ok ts'"
  by (auto simp: tag_step_simps ensure_tag_exists_def create_tag_def Let_def tags_ok_delete)
    (auto simp: tags_ok_def)

lemma tag_step_builtins: "tag_step ts ts' \<Longrightarrow> builtins_of ts' = builtins_of ts"
  by (auto simp: tag_step_simps ensure_tag_exists_def create_tag_def Let_def builtins_update builtins_delete)
    (auto simp: builtins_of_def)

lemma tags_ok_new: "tags_ok new_manager"
  by (simp add: tags_ok_def new_manager_def builtin_def)

text \<open>Whatever is created, edited and deleted, tag ids stay unique and the fourteen built-in tags stay
  in the list unchanged and in order.\<close>

theorem builtins_survive:
  assumes "tag_step\<^sup>*\<^sup>* new_manager ts"
  shows "distinct (map tag_id ts) \<and> filter tag_builtin ts = new_manager"
proof -
  have "tags_ok ts \<and> builtins_of ts = builtins_of new_manager"
    using assms by induction (use tags_ok_new tag_step_ok tag_step_builtins in auto)
  moreover have "builtins_of new_manager = new_manager"
    by (simp add: builtins_of_def new_manager_def builtin_def)
  ultimately show ?thesis by (simp add: tags_ok_def builtins_of_def)
qed

lemma builtins_survive_witness:
  "distinct (map tag_id (snd (delete_tag ''kids'' (ensure_tag_exists ''My_Toys'' new_manager)))) \<and>
   filter tag_builtin (snd (delete_tag ''kids'' (ensure_tag_exists ''My_Toys'' new_manager))) = new_manager"
proof (rule builtins_survive)
  have "tag_step new_manager (ensure_tag_exists ''My_Toys'' new_manager)"
    by (rule tag_step.intros)
  moreover have "tag_step (ensure_tag_exists ''My_Toys'' new_manager)
      (snd (delete_tag ''kids'' (ensure_tag_exists ''My_Toys'' new_manager)))"
    by (rule tag_step.intros)
  ultimately show "tag_step\<^sup>*\<^sup>* new_manager
      (snd (delete_tag ''kids'' (ensure_tag_exists ''My_Toys'' new_manager)))" by auto
qed

end
