(* ===== verification/Sql_Monad.thy ===== *)
theory Sql_Monad
  imports Go_Strings
begin

text \<open>
  SQLite as both services use it. A computation runs statements on a value of tables \<open>'db\<close>, in order, and
  stops at the first error. Each statement of the sources is a function on the tables with the meaning
  SQLite gives it; it is executed by \<open>exec\<close> or \<open>query\<close>, which fail when the driver does. Which statements
  the driver fails is an argument: \<open>out n\<close> says that the \<open>n\<close>-th statement fails.
\<close>

subsection \<open>Statements and transactions\<close>

datatype db_error =
  DriverError | UniqueViolation | MalformedJson | InvalidMigration | TargetConflict
| UndecodablePolicy | ErrNoRows | ErrUserNotFound | ErrUserAssigned | InvalidImport
| ForeignKeyViolation | NoEntropy | ErrAliasConflict | ErrIdentityNotFound | ErrCandidateChanged
| InvalidAlias | InvalidCandidate | InvalidDecision | InvalidMerge | InvalidSplit | InvalidPageLimit
| RedirectCycle | RedirectDepth

type_synonym outage = "nat \<Rightarrow> bool"
type_synonym ('db, 'a) sql = "outage \<Rightarrow> nat \<times> 'db \<Rightarrow> (db_error + 'a) \<times> nat \<times> 'db"

definition return_io :: "'a \<Rightarrow> ('db, 'a) sql" where
  "return_io x = (\<lambda>out s. (Inr x, s))"

definition fail_io :: "db_error \<Rightarrow> ('db, 'a) sql" where
  "fail_io e = (\<lambda>out s. (Inl e, s))"

definition bind_io :: "('db, 'a) sql \<Rightarrow> ('a \<Rightarrow> ('db, 'b) sql) \<Rightarrow> ('db, 'b) sql" where
  "bind_io m f = (\<lambda>out s. case m out s of (Inl e, s') \<Rightarrow> (Inl e, s') | (Inr x, s') \<Rightarrow> f x out s')"

definition then_io :: "('db, 'a) sql \<Rightarrow> ('db, 'b) sql \<Rightarrow> ('db, 'b) sql" where
  "then_io m k = bind_io m (\<lambda>_. k)"

text \<open>\<open>Exec\<close> of one statement, \<open>Query\<close> with the scan of its rows, and a call whose error is dropped.\<close>

definition exec :: "('db \<Rightarrow> db_error + 'db) \<Rightarrow> ('db, unit) sql" where
  "exec stmt = (\<lambda>out (n, db). if out n then (Inl DriverError, Suc n, db)
     else (case stmt db of Inl e \<Rightarrow> (Inl e, Suc n, db) | Inr db' \<Rightarrow> (Inr (), Suc n, db')))"

definition query :: "('db \<Rightarrow> 'a) \<Rightarrow> ('db, 'a) sql" where
  "query sel = (\<lambda>out (n, db). if out n then (Inl DriverError, Suc n, db) else (Inr (sel db), Suc n, db))"

definition attempt :: "'a \<Rightarrow> ('db, 'a) sql \<Rightarrow> ('db, 'a) sql" where
  "attempt dflt m = (\<lambda>out s. case m out s of (Inl e, s') \<Rightarrow> (Inr dflt, s') | (Inr x, s') \<Rightarrow> (Inr x, s'))"

fun for_each :: "('a \<Rightarrow> 's \<Rightarrow> ('db, 's) sql) \<Rightarrow> 'a list \<Rightarrow> 's \<Rightarrow> ('db, 's) sql" where
  "for_each body [] s = return_io s"
| "for_each body (x # xs) s = bind_io (body x s) (for_each body xs)"

text \<open>\<open>Begin\<close>, the body, and \<open>Commit\<close>; every other way out goes through the deferred \<open>Rollback\<close>.\<close>

definition transaction :: "('db, 'a) sql \<Rightarrow> ('db, 'a) sql" where
  "transaction m = (\<lambda>out (n, db). if out n then (Inl DriverError, Suc n, db)
     else (case m out (Suc n, db) of
        (Inl e, n', _) \<Rightarrow> (Inl e, n', db)
      | (Inr x, n', db') \<Rightarrow> if out n' then (Inl DriverError, Suc n', db) else (Inr x, Suc n', db')))"

text \<open>A transaction some of whose ways out return a result without a commit, so that it is rolled back.\<close>

definition transaction_if :: "('db, bool \<times> 'a) sql \<Rightarrow> ('db, 'a) sql" where
  "transaction_if m = (\<lambda>out (n, db). if out n then (Inl DriverError, Suc n, db)
     else (case m out (Suc n, db) of
        (Inl e, n', _) \<Rightarrow> (Inl e, n', db)
      | (Inr (False, x), n', _) \<Rightarrow> (Inr x, n', db)
      | (Inr (True, x), n', db') \<Rightarrow> if out n' then (Inl DriverError, Suc n', db) else (Inr x, Suc n', db')))"

text \<open>The result and the tables of a run in which the driver never fails.\<close>

definition healthy :: outage where "healthy = (\<lambda>_. False)"

definition runs :: "('db, 'a) sql \<Rightarrow> 'db \<Rightarrow> (db_error + 'a) \<times> 'db" where
  "runs m db = (case m healthy (0, db) of (r, _, db') \<Rightarrow> (r, db'))"

subsection \<open>Rows\<close>

text \<open>\<open>x LIKE p\<close>: case-insensitive, an underscore is any character, a percent sign any text.\<close>

fun sql_like :: "string \<Rightarrow> string \<Rightarrow> bool" where
  "sql_like [] s \<longleftrightarrow> s = []"
| "sql_like (p # ps) s \<longleftrightarrow>
     (if p = CHR ''%'' then list_ex (\<lambda>n. sql_like ps (drop n s)) [0..<Suc (length s)]
      else (case s of [] \<Rightarrow> False
        | c # cs \<Rightarrow> (p = CHR ''_'' \<or> lower_char p = lower_char c) \<and> sql_like ps cs))"

text \<open>\<open>INSERT ... ON CONFLICT(key) DO UPDATE\<close>: the row with the key becomes \<open>upd old new\<close>.\<close>

definition upsert_row :: "('r \<Rightarrow> 'k) \<Rightarrow> ('r \<Rightarrow> 'r \<Rightarrow> 'r) \<Rightarrow> 'r \<Rightarrow> 'r list \<Rightarrow> 'r list" where
  "upsert_row key upd r rows =
     (if \<exists>x \<in> set rows. key x = key r then map (\<lambda>x. if key x = key r then upd x r else x) rows
      else rows @ [r])"

text \<open>\<open>INSERT\<close> into a table with a primary key.\<close>

definition insert_row :: "('r \<Rightarrow> 'k) \<Rightarrow> 'r \<Rightarrow> 'r list \<Rightarrow> db_error + 'r list" where
  "insert_row key r rows = (if \<exists>x \<in> set rows. key x = key r then Inl UniqueViolation else Inr (rows @ [r]))"

text \<open>A statement whose \<open>RowsAffected\<close> is read gives that number back.\<close>

definition exec_counting :: "('db \<Rightarrow> nat \<times> 'db) \<Rightarrow> ('db, nat) sql" where
  "exec_counting stmt = (\<lambda>out (n, db). if out n then (Inl DriverError, Suc n, db)
     else (case stmt db of (k, db') \<Rightarrow> (Inr k, Suc n, db')))"

subsection \<open>What a computation keeps\<close>

definition keeps :: "('db \<Rightarrow> bool) \<Rightarrow> ('db, 'a) sql \<Rightarrow> bool" where
  "keeps P m \<longleftrightarrow> (\<forall>out n db. P db \<longrightarrow> P (snd (snd (m out (n, db)))))"

lemma keepsD: "keeps P m \<Longrightarrow> P db \<Longrightarrow> m out (n, db) = (r, n', db') \<Longrightarrow> P db'"
  by (metis keeps_def snd_conv)

lemma keeps_return [db_inv]: "keeps P (return_io x)" and keeps_fail [db_inv]: "keeps P (fail_io e)"
  by (simp_all add: keeps_def return_io_def fail_io_def)

lemma keeps_query [db_inv]: "keeps P (query sel)"
  by (simp add: keeps_def query_def)

lemma keeps_exec:
  "(\<And>db db'. P db \<Longrightarrow> stmt db = Inr db' \<Longrightarrow> P db') \<Longrightarrow> keeps P (exec stmt)"
  by (auto simp: keeps_def exec_def split: sum.split)

lemma keeps_exec_counting:
  "(\<And>db. P db \<Longrightarrow> P (snd (stmt db))) \<Longrightarrow> keeps P (exec_counting stmt)"
  by (auto simp: keeps_def exec_counting_def split: prod.split) (metis snd_conv)

lemma keeps_bind [db_inv]: "keeps P m \<Longrightarrow> (\<And>x. keeps P (f x)) \<Longrightarrow> keeps P (bind_io m f)"
  unfolding keeps_def bind_io_def
  by (simp split: prod.split sum.split) (metis snd_conv)

lemma keeps_then [db_inv]: "keeps P m \<Longrightarrow> keeps P k \<Longrightarrow> keeps P (then_io m k)"
  by (simp add: then_io_def keeps_bind)

lemma keeps_attempt [db_inv]: "keeps P m \<Longrightarrow> keeps P (attempt d m)"
  unfolding keeps_def attempt_def
  by (simp split: prod.split sum.split) (metis snd_conv)

lemma keeps_for_each [db_inv]: "(\<And>x s. keeps P (body x s)) \<Longrightarrow> keeps P (for_each body xs s)"
  by (induction xs arbitrary: s) (auto intro: db_inv)

lemma keeps_transaction [db_inv]: "keeps P m \<Longrightarrow> keeps P (transaction m)"
  unfolding keeps_def transaction_def
  by (simp split: prod.split sum.split) (metis snd_conv)

lemma keeps_transaction_if [db_inv]: "keeps P m \<Longrightarrow> keeps P (transaction_if m)"
  unfolding keeps_def transaction_if_def
  by (simp split: prod.split sum.split bool.split) (metis snd_conv)

lemma transaction_fails:
  "transaction m out (n, db) = (Inl e, n', db') \<Longrightarrow> db' = db"
  by (auto simp: transaction_def split: if_splits prod.splits sum.splits)

lemma transaction_succeeds:
  "transaction m out (n, db) = (Inr x, n', db') \<Longrightarrow> \<exists>k. m out (Suc n, db) = (Inr x, k, db')"
  by (auto simp: transaction_def split: if_splits prod.splits sum.splits)

lemma bind_succeeds:
  assumes "bind_io m f out s = (Inr y, s')"
  obtains x s1 where "m out s = (Inr x, s1)" "f x out s1 = (Inr y, s')"
  using assms by (auto simp: bind_io_def split: prod.splits sum.splits)

lemma then_succeeds:
  assumes "then_io m k out s = (Inr y, s')"
  obtains x s1 where "m out s = (Inr x, s1)" "k out s1 = (Inr y, s')"
  using assms unfolding then_io_def by (rule bind_succeeds)

lemma exec_succeeds:
  "exec stmt out (n, db) = (Inr u, s') \<longleftrightarrow> \<not> out n \<and> (\<exists>db'. stmt db = Inr db' \<and> s' = (Suc n, db'))"
  by (auto simp: exec_def split: sum.splits)

lemma query_succeeds:
  "query sel out (n, db) = (Inr x, s') \<longleftrightarrow> \<not> out n \<and> x = sel db \<and> s' = (Suc n, db)"
  by (auto simp: query_def)

lemma for_each_Nil_out [simp]: "for_each body [] s out st = (Inr s, st)"
  by (simp add: return_io_def)

text \<open>Runs in which the driver never fails.\<close>

lemma healthy_not: "\<not> healthy n"
  by (simp add: healthy_def)

lemma exec_healthy: "exec stmt healthy (n, db) = (case stmt db of Inl e \<Rightarrow> (Inl e, Suc n, db)
    | Inr db' \<Rightarrow> (Inr (), Suc n, db'))"
  by (simp add: exec_def healthy_not)

lemma query_healthy: "query sel healthy (n, db) = (Inr (sel db), Suc n, db)"
  by (simp add: query_def healthy_not)

lemma attempt_exec_healthy:
  "attempt () (exec stmt) healthy (n, db) = (Inr (), Suc n, case stmt db of Inl e \<Rightarrow> db | Inr db' \<Rightarrow> db')"
  by (simp add: attempt_def exec_healthy split: sum.split)

lemma distinct_upsert_row:
  assumes "distinct (map key rows)" "\<And>x. key x = key r \<Longrightarrow> key (upd x r) = key r"
  shows "distinct (map key (upsert_row key upd r rows))"
proof (cases "\<exists>x \<in> set rows. key x = key r")
  case True
  then have "map key (upsert_row key upd r rows) = map key rows"
    using assms(2) by (auto simp: upsert_row_def)
  with assms(1) show ?thesis by simp
next
  case False
  with assms(1) show ?thesis by (auto simp: upsert_row_def)
qed

lemma set_upsert_new: "set (upsert_row key (\<lambda>_ n. n) r rows) = insert r {x \<in> set rows. key x \<noteq> key r}"
  by (auto simp: upsert_row_def)

lemma distinct_insert_row:
  "insert_row key r rows = Inr rows' \<Longrightarrow> distinct (map key rows) \<Longrightarrow> distinct (map key rows')"
  by (force simp: insert_row_def split: if_splits)

end
