(* ===== verification/Lias_Storage.thy ===== *)
theory Lias_Storage
  imports Sql_Monad Policy_Engine Tag_Manager "HOL-Library.Product_Lexorder" "HOL-Library.AList"
begin

text \<open>
  \<open>apps/lias/internal/storage/sqlite.go\<close>: the scheduler's persistent state. A table is the list of
  its rows in the order of a scan; the two that are only looked up by their primary key are maps. Each
  SQL statement of the source is a function on the tables with the meaning SQLite gives it
  (\<open>PRIMARY KEY\<close>, \<open>ON CONFLICT\<close>, \<open>OR IGNORE\<close>, \<open>LIKE\<close>); it is executed by \<open>exec\<close> or \<open>query\<close>, which
  fail when the driver does. Which statements the driver fails is an argument: \<open>out n\<close> says that the
  \<open>n\<close>-th statement fails. Text columns that hold JSON hold either the value the text encodes or text
  that \<open>json.Unmarshal\<close> refuses.
\<close>

subsection \<open>The tables (\<open>initSchema\<close>)\<close>

datatype 'a document = Document 'a | Malformed string

fun decode :: "'a document \<Rightarrow> 'a option" where
  "decode (Document x) = Some x"
| "decode (Malformed s) = None"

record tag_row =
  dt_pdid :: string
  dt_tag :: string
  dt_mac :: string

record policy_row =
  row_id :: string
  row_name :: string
  row_type :: policy_type
  row_target :: string
  row_action :: action
  row_schedule_id :: string
  row_schedule_ids :: "string list"
  row_priority :: int
  row_enabled :: bool
  row_data :: "policy document"

record schedule_row =
  sr_id :: string
  sr_name :: string
  sr_mode :: schedule_mode
  sr_timezone :: string
  sr_rules :: "schedule_rule list document"

record flow_row =
  fl_at :: time
  fl_pdid :: string
  fl_action :: action
  fl_bytes :: int

datatype conflict_details =
  WinnerLoser policy policy
| WinnerLowerPriority policy policy

record migration_conflict =
  mc_object :: string
  mc_winner :: string
  mc_loser :: string
  mc_details :: conflict_details

record conflict_row =
  cr_old :: string
  cr_new :: string
  cr_conflict :: migration_conflict
  cr_at :: time

record database =
  tbl_tags :: "tag list"
  tbl_device_tags :: "tag_row list"
  tbl_overrides :: "(string \<times> string) list"
  tbl_users :: "(string \<times> string) list"
  tbl_device_users :: "(string \<times> string) list"
  tbl_policies :: "policy_row list"
  tbl_schedules :: "schedule_row list"
  tbl_flows :: "flow_row list"
  tbl_migrations :: "string \<rightharpoonup> string \<times> time"
  tbl_redirects :: "string \<rightharpoonup> string"
  tbl_conflicts :: "conflict_row list"

definition empty_database :: database where
  "empty_database = \<lparr>tbl_tags = [], tbl_device_tags = [], tbl_overrides = [],
     tbl_users = [], tbl_device_users = [], tbl_policies = [], tbl_schedules = [],
     tbl_flows = [], tbl_migrations = Map.empty, tbl_redirects = Map.empty, tbl_conflicts = []\<rparr>"

type_synonym 'a io = "(database, 'a) sql"

subsection \<open>The statements\<close>

definition tag_key :: "tag_row \<Rightarrow> string \<times> string" where
  "tag_key r = (dt_pdid r, dt_tag r)"

definition delete_device_tags :: "string \<Rightarrow> database \<Rightarrow> db_error + database" where
  "delete_device_tags p db =
     Inr (db\<lparr>tbl_device_tags := filter (\<lambda>r. dt_pdid r \<noteq> p) (tbl_device_tags db)\<rparr>)"

definition insert_device_tag :: "string \<Rightarrow> string \<Rightarrow> string \<Rightarrow> database \<Rightarrow> db_error + database" where
  "insert_device_tag p t mac db =
     (case insert_row tag_key \<lparr>dt_pdid = p, dt_tag = t, dt_mac = mac\<rparr> (tbl_device_tags db) of
        Inl e \<Rightarrow> Inl e | Inr rows \<Rightarrow> Inr (db\<lparr>tbl_device_tags := rows\<rparr>))"

text \<open>\<open>INSERT OR IGNORE INTO device_tags SELECT ?, tag_id, mac FROM device_tags WHERE pdid = ?\<close>\<close>

definition insert_or_ignore :: "tag_row list \<Rightarrow> tag_row \<Rightarrow> tag_row list" where
  "insert_or_ignore rows r = (if \<exists>x \<in> set rows. tag_key x = tag_key r then rows else rows @ [r])"

definition copy_device_tags :: "string \<Rightarrow> string \<Rightarrow> database \<Rightarrow> db_error + database" where
  "copy_device_tags old new db =
     Inr (db\<lparr>tbl_device_tags := foldl insert_or_ignore (tbl_device_tags db)
       (map (\<lambda>r. r\<lparr>dt_pdid := new\<rparr>) (filter (\<lambda>r. dt_pdid r = old) (tbl_device_tags db)))\<rparr>)"

definition policy_row_of :: "policy \<Rightarrow> policy_row" where
  "policy_row_of p = \<lparr>row_id = pol_id p, row_name = pol_name p, row_type = pol_type p,
     row_target = pol_target p, row_action = pol_action p,
     row_schedule_id = (case pol_schedule_id p of Some s \<Rightarrow> s | None \<Rightarrow> []),
     row_schedule_ids = get_schedule_ids p, row_priority = pol_priority p,
     row_enabled = pol_enabled p, row_data = Document p\<rparr>"

definition upsert_policy_row :: "policy \<Rightarrow> database \<Rightarrow> db_error + database" where
  "upsert_policy_row p db =
     Inr (db\<lparr>tbl_policies := upsert_row row_id (\<lambda>old new. new) (policy_row_of p) (tbl_policies db)\<rparr>)"

definition delete_policy_row :: "string \<Rightarrow> database \<Rightarrow> db_error + database" where
  "delete_policy_row i db = Inr (db\<lparr>tbl_policies := filter (\<lambda>r. row_id r \<noteq> i) (tbl_policies db)\<rparr>)"

definition delete_temporary_schedules :: "database \<Rightarrow> db_error + database" where
  "delete_temporary_schedules db =
     Inr (db\<lparr>tbl_schedules := filter (\<lambda>r. \<not> (sql_like ''sched_pause_%'' (sr_id r) \<or>
       sql_like ''sched_extend_%'' (sr_id r))) (tbl_schedules db)\<rparr>)"

text \<open>\<open>json_set(data, '$.target_id', ?)\<close> of the matching rows fails on malformed JSON.\<close>

definition retarget_data :: "string \<Rightarrow> database \<Rightarrow> db_error + database" where
  "retarget_data new db =
     (let hit = (\<lambda>r. row_target r = new \<and> row_type r = PolicyTypeDevice) in
      if \<exists>r \<in> set (tbl_policies db). hit r \<and> decode (row_data r) = None then Inl MalformedJson
      else Inr (db\<lparr>tbl_policies := map (\<lambda>r. if hit r then (case row_data r of
          Document p \<Rightarrow> r\<lparr>row_data := Document (p\<lparr>pol_target := new\<rparr>)\<rparr> | _ \<Rightarrow> r) else r) (tbl_policies db)\<rparr>))"

definition retarget_rows :: "string \<Rightarrow> string \<Rightarrow> database \<Rightarrow> db_error + database" where
  "retarget_rows old new db =
     Inr (db\<lparr>tbl_policies := map (\<lambda>r. if row_target r = old \<and> row_type r = PolicyTypeDevice
       then r\<lparr>row_target := new\<rparr> else r) (tbl_policies db)\<rparr>)"

subsection \<open>Operations\<close>

definition save_device_tags :: "string \<Rightarrow> string list \<Rightarrow> string \<Rightarrow> unit io" where
  "save_device_tags p tags mac = transaction (then_io (exec (delete_device_tags p))
     (for_each (\<lambda>t _. exec (insert_device_tag p t mac)) tags ()))"

definition save_device_tag :: "string \<Rightarrow> string \<Rightarrow> string \<Rightarrow> unit io" where
  "save_device_tag p t mac = save_device_tags p [t] mac"

definition migrate_device_tag :: "string \<Rightarrow> string \<Rightarrow> unit io" where
  "migrate_device_tag old new =
     transaction (then_io (exec (copy_device_tags old new)) (exec (delete_device_tags old)))"

definition migrate_device_policies :: "string \<Rightarrow> string \<Rightarrow> unit io" where
  "migrate_device_policies old new =
     transaction (then_io (exec (retarget_rows old new)) (exec (retarget_data new)))"

definition update_device_tag_mac :: "string \<Rightarrow> string \<Rightarrow> unit io" where
  "update_device_tag_mac p mac =
     (if p = [] \<or> mac = [] then return_io ()
      else exec (\<lambda>db. Inr (db\<lparr>tbl_device_tags := map (\<lambda>r. if dt_pdid r = p \<and> dt_mac r = []
        then r\<lparr>dt_mac := mac\<rparr> else r) (tbl_device_tags db)\<rparr>)))"

definition save_device_override :: "string \<Rightarrow> string \<Rightarrow> unit io" where
  "save_device_override p name =
     exec (\<lambda>db. Inr (db\<lparr>tbl_overrides := AList.update p name (tbl_overrides db)\<rparr>))"

definition load_device_overrides :: "(string \<rightharpoonup> string) io" where
  "load_device_overrides = query (\<lambda>db. map_of (tbl_overrides db))"

definition save_user :: "string \<Rightarrow> string \<Rightarrow> unit io" where
  "save_user i name = exec (\<lambda>db. Inr (db\<lparr>tbl_users := AList.update i name (tbl_users db)\<rparr>))"

definition list_users :: "(string \<times> string) list io" where
  "list_users = query (\<lambda>db. sort_key (\<lambda>(i, name). (name, i)) (tbl_users db))"

definition get_user :: "string \<Rightarrow> string io" where
  "get_user i = bind_io (query (\<lambda>db. map_of (tbl_users db) i))
     (\<lambda>r. case r of None \<Rightarrow> fail_io ErrNoRows | Some name \<Rightarrow> return_io name)"

definition assigned_to :: "string \<Rightarrow> database \<Rightarrow> string list" where
  "assigned_to i db = map fst (filter (\<lambda>(p, u). u = i) (tbl_device_users db))"

definition user_assignment_count :: "string \<Rightarrow> nat io" where
  "user_assignment_count i = query (\<lambda>db. length (assigned_to i db))"

definition delete_user :: "string \<Rightarrow> unit io" where
  "delete_user i = exec (\<lambda>db. Inr (db\<lparr>tbl_users := AList.delete i (tbl_users db)\<rparr>))"

definition delete_user_if_unassigned :: "string \<Rightarrow> unit io" where
  "delete_user_if_unassigned i =
     bind_io (exec_counting (\<lambda>db.
         if i \<in> fst ` set (tbl_users db) \<and> assigned_to i db = []
         then (1, db\<lparr>tbl_users := AList.delete i (tbl_users db)\<rparr>) else (0, db)))
       (\<lambda>changed. if changed = 1 then return_io ()
          else bind_io (query (\<lambda>db. length (assigned_to i db)))
            (\<lambda>assigned. if 0 < assigned then fail_io ErrUserAssigned else fail_io ErrUserNotFound))"

definition assign_device_to_user :: "string \<Rightarrow> string \<Rightarrow> unit io" where
  "assign_device_to_user p u =
     bind_io (exec_counting (\<lambda>db.
         if u \<in> fst ` set (tbl_users db) then (1, db\<lparr>tbl_device_users := AList.update p u (tbl_device_users db)\<rparr>)
         else (0, db)))
       (\<lambda>changed. if changed = 0 then fail_io ErrUserNotFound else return_io ())"

definition unassign_device_user :: "string \<Rightarrow> unit io" where
  "unassign_device_user p =
     exec (\<lambda>db. Inr (db\<lparr>tbl_device_users := AList.delete p (tbl_device_users db)\<rparr>))"

definition load_user_assignments :: "(string \<rightharpoonup> string) io" where
  "load_user_assignments = query (\<lambda>db. map_of (tbl_device_users db))"

definition upsert_tag_row :: "tag \<Rightarrow> database \<Rightarrow> db_error + database" where
  "upsert_tag_row t db = Inr (db\<lparr>tbl_tags := upsert_row tag_id
     (\<lambda>old new. old\<lparr>tag_name := tag_name new, tag_color := tag_color new,
        tag_precedence := tag_precedence new\<rparr>) t (tbl_tags db)\<rparr>)"

definition save_tag :: "tag \<Rightarrow> unit io" where
  "save_tag t = exec (upsert_tag_row t)"

definition delete_tag_row :: "string \<Rightarrow> unit io" where
  "delete_tag_row i = exec (\<lambda>db. Inr (db\<lparr>tbl_tags := filter (\<lambda>t. tag_id t \<noteq> i) (tbl_tags db)\<rparr>))"

definition save_policy :: "policy \<Rightarrow> unit io" where
  "save_policy p = exec (upsert_policy_row p)"

definition remove_policy :: "string \<Rightarrow> unit io" where
  "remove_policy i = exec (delete_policy_row i)"

definition export_policies :: "policy document list io" where
  "export_policies = query (\<lambda>db. map row_data (tbl_policies db))"

definition import_policies :: "policy list document \<Rightarrow> unit io" where
  "import_policies json =
     (case decode json of None \<Rightarrow> fail_io InvalidImport
      | Some ps \<Rightarrow> transaction (for_each (\<lambda>p _. if pol_id p = [] then return_io ()
          else exec (upsert_policy_row p)) ps ()))"

definition save_schedule :: "schedule \<Rightarrow> unit io" where
  "save_schedule s = exec (\<lambda>db. Inr (db\<lparr>tbl_schedules := upsert_row sr_id (\<lambda>old new. new)
     \<lparr>sr_id = sched_id s, sr_name = sched_name s, sr_mode = sched_mode s,
       sr_timezone = sched_timezone s, sr_rules = Document (sched_rules s)\<rparr> (tbl_schedules db)\<rparr>))"

definition remove_schedule :: "string \<Rightarrow> unit io" where
  "remove_schedule i =
     exec (\<lambda>db. Inr (db\<lparr>tbl_schedules := filter (\<lambda>r. sr_id r \<noteq> i) (tbl_schedules db)\<rparr>))"

definition resolve_pdid :: "database \<Rightarrow> string \<Rightarrow> string" where
  "resolve_pdid db p = (case tbl_redirects db p of Some q \<Rightarrow> q | None \<Rightarrow> p)"

definition save_flow_log :: "time \<Rightarrow> string \<Rightarrow> action \<Rightarrow> int \<Rightarrow> unit io" where
  "save_flow_log now p a n = exec (\<lambda>db. Inr (db\<lparr>tbl_flows := tbl_flows db @
     [\<lparr>fl_at = now, fl_pdid = resolve_pdid db p, fl_action = a, fl_bytes = n\<rparr>]\<rparr>))"


subsection \<open>Hydration (\<open>LoadHydrate\<close>)\<close>

record hydrated =
  hy_tags :: "tag list"
  hy_policies :: policies
  hy_engine :: engine
  hy_device_tags :: "string \<rightharpoonup> string list"
  hy_mac_tags :: "string \<rightharpoonup> string list"

definition map_append :: "('k \<rightharpoonup> 'v list) \<Rightarrow> 'k \<Rightarrow> 'v \<Rightarrow> ('k \<rightharpoonup> 'v list)" where
  "map_append m k v = m(k \<mapsto> (case m k of Some l \<Rightarrow> l | None \<Rightarrow> []) @ [v])"

definition hydrate_tag_row :: "hydrated \<Rightarrow> tag_row \<Rightarrow> hydrated" where
  "hydrate_tag_row h r =
     (let h1 = (if dt_pdid r \<noteq> []
                then h\<lparr>hy_device_tags := map_append (hy_device_tags h) (dt_pdid r) (dt_tag r),
                       hy_tags := ensure_tag_exists (dt_tag r) (hy_tags h)\<rparr> else h)
      in if dt_mac r \<noteq> [] then h1\<lparr>hy_mac_tags := map_append (hy_mac_tags h1) (dt_mac r) (dt_tag r)\<rparr>
         else h1)"

text \<open>The policy a row stands for, and one step of the loop, which also collects the expired ids.\<close>

definition row_policy :: "policy_row \<Rightarrow> policy option" where
  "row_policy r = (case row_data r of Malformed _ \<Rightarrow> None
     | Document p \<Rightarrow> Some ((if length (pol_schedule_ids p) = 0
           then p\<lparr>pol_schedule_ids := get_schedule_ids p\<rparr> else p)\<lparr>pol_enabled := row_enabled r\<rparr>))"

definition hydrate_policy_row ::
  "time \<Rightarrow> policies \<times> string list \<Rightarrow> policy_row \<Rightarrow> policies \<times> string list" where
  "hydrate_policy_row now = (\<lambda>(ps, gone) r.
     (case row_policy r of None \<Rightarrow> (ps, gone)
      | Some p \<Rightarrow> if expired now p then (ps, gone @ [pol_id p]) else (upsert_policy p ps, gone)))"

definition row_mode :: "schedule_row \<Rightarrow> schedule_rule list \<Rightarrow> schedule_mode" where
  "row_mode r rules =
     (if sr_mode r = ScheduleModeOther [] then
        (if \<exists>x \<in> set rules. rule_action x = ActionAllow then ScheduleModeWhitelist
         else ScheduleModeDowntime)
      else sr_mode r)"

definition hydrate_schedule_row :: "engine \<Rightarrow> schedule_row \<Rightarrow> engine" where
  "hydrate_schedule_row e r = (case sr_rules r of Malformed _ \<Rightarrow> e
     | Document rules \<Rightarrow> upsert_schedule \<lparr>sched_id = sr_id r, sched_name = sr_name r,
         sched_mode = row_mode r rules, sched_timezone = sr_timezone r, sched_rules = rules\<rparr> e)"

definition purge_expired :: "string list \<Rightarrow> unit io" where
  "purge_expired gone = for_each (\<lambda>i _. then_io (attempt () (exec delete_temporary_schedules))
     (attempt () (exec (delete_policy_row i)))) gone ()"

definition load_hydrate :: "time \<Rightarrow> tag list \<Rightarrow> policies \<Rightarrow> engine \<Rightarrow> hydrated io" where
  "load_hydrate now tags ps e =
     bind_io (attempt [] (query tbl_tags)) (\<lambda>trows.
       let ts = foldl (\<lambda>ts t. restore_tag t ts) tags trows in
     then_io (for_each (\<lambda>t _. attempt () (exec (upsert_tag_row t))) (filter tag_builtin (list_tags ts)) ())
     (bind_io (attempt [] (query tbl_device_tags)) (\<lambda>drows.
       let h = foldl hydrate_tag_row \<lparr>hy_tags = ts, hy_policies = ps, hy_engine = e,
                 hy_device_tags = Map.empty, hy_mac_tags = Map.empty\<rparr> drows in
     bind_io (attempt [] (query tbl_policies)) (\<lambda>prows.
       let (ps', gone) = foldl (hydrate_policy_row now) (hy_policies h, []) prows in
     then_io (purge_expired gone)
     (bind_io (attempt [] (query tbl_schedules)) (\<lambda>srows.
       return_io (h\<lparr>hy_policies := ps',
         hy_engine := foldl hydrate_schedule_row (hy_engine h) srows\<rparr>)))))))"


subsection \<open>What operations keep of the tables\<close>

subsection \<open>The invariant of the tables\<close>

text \<open>A row of the policy table agrees with the document it stores.\<close>

definition row_consistent :: "policy_row \<Rightarrow> bool" where
  "row_consistent r \<longleftrightarrow> (case row_data r of Malformed _ \<Rightarrow> False
     | Document p \<Rightarrow> row_id r = pol_id p \<and> row_type r = pol_type p \<and> row_target r = pol_target p)"

definition policies_ok :: "policy_row list \<Rightarrow> bool" where
  "policies_ok rows \<longleftrightarrow> distinct (map row_id rows) \<and> (\<forall>r \<in> set rows. row_consistent r)"

definition tag_rows_ok :: "tag_row list \<Rightarrow> bool" where
  "tag_rows_ok rows \<longleftrightarrow> distinct (map tag_key rows)"

text \<open>Every recorded migration has its redirect, and every recorded conflict its migration.\<close>

definition history_ok ::
  "(string \<rightharpoonup> string \<times> time) \<Rightarrow> (string \<rightharpoonup> string) \<Rightarrow> conflict_row list \<Rightarrow> bool" where
  "history_ok migs redirects conflicts \<longleftrightarrow> dom redirects = dom migs \<and>
     (\<forall>c \<in> set conflicts. \<exists>t. migs (cr_old c) = Some (cr_new c, t))"

definition storage_ok :: "database \<Rightarrow> bool" where
  "storage_ok db \<longleftrightarrow> policies_ok (tbl_policies db) \<and> tag_rows_ok (tbl_device_tags db) \<and>
     distinct (map fst (tbl_overrides db)) \<and> distinct (map fst (tbl_device_users db)) \<and>
     history_ok (tbl_migrations db) (tbl_redirects db) (tbl_conflicts db)"

lemma storage_ok_empty [simp]: "storage_ok empty_database"
  by (simp add: storage_ok_def empty_database_def policies_ok_def tag_rows_ok_def history_ok_def)

lemma row_consistent_of [simp]: "row_consistent (policy_row_of p)"
  by (simp add: row_consistent_def policy_row_of_def)

lemma distinct_map_filter_key: "distinct (map f xs) \<Longrightarrow> distinct (map f (filter P xs))"
  by (rule distinct_map_filter)

lemma distinct_insert_or_ignore:
  "distinct (map tag_key rows) \<Longrightarrow> distinct (map tag_key (foldl insert_or_ignore rows rs))"
proof (induction rs arbitrary: rows)
  case (Cons r rs)
  have "distinct (map tag_key (insert_or_ignore rows r))"
    using Cons.prems by (force simp: insert_or_ignore_def)
  then show ?case using Cons.IH by simp
qed simp


lemma policies_ok_upsert: "policies_ok rows \<Longrightarrow>
    policies_ok (upsert_row row_id (\<lambda>_ n. n) (policy_row_of p) rows)"
  by (auto simp: policies_ok_def set_upsert_new intro: distinct_upsert_row)

lemma policies_ok_filter: "policies_ok rows \<Longrightarrow> policies_ok (filter P rows)"
  by (auto simp: policies_ok_def distinct_map_filter)

lemma policies_ok_map:
  assumes "policies_ok rows" "\<And>r. row_id (h r) = row_id r" "\<And>r. row_consistent r \<Longrightarrow> row_consistent (h r)"
  shows "policies_ok (map h rows)"
  using assms by (auto simp: policies_ok_def o_def)

lemma tag_rows_ok_intros:
  "tag_rows_ok rows \<Longrightarrow> tag_rows_ok (filter P rows)"
  "tag_rows_ok rows \<Longrightarrow> tag_rows_ok (foldl insert_or_ignore rows rs)"
  "tag_rows_ok rows \<Longrightarrow> insert_row tag_key r rows = Inr rows' \<Longrightarrow> tag_rows_ok rows'"
  by (auto simp: tag_rows_ok_def distinct_map_filter distinct_insert_or_ignore
      dest: distinct_insert_row)

lemma statement_keeps:
  "storage_ok db \<Longrightarrow> upsert_policy_row p db = Inr db' \<Longrightarrow> storage_ok db'"
  "storage_ok db \<Longrightarrow> delete_policy_row i db = Inr db' \<Longrightarrow> storage_ok db'"
  "storage_ok db \<Longrightarrow> delete_device_tags q db = Inr db' \<Longrightarrow> storage_ok db'"
  "storage_ok db \<Longrightarrow> copy_device_tags old new db = Inr db' \<Longrightarrow> storage_ok db'"
  "storage_ok db \<Longrightarrow> insert_device_tag q t mac db = Inr db' \<Longrightarrow> storage_ok db'"
  "storage_ok db \<Longrightarrow> upsert_tag_row tg db = Inr db' \<Longrightarrow> storage_ok db'"
  "storage_ok db \<Longrightarrow> delete_temporary_schedules db = Inr db' \<Longrightarrow> storage_ok db'"
  by (auto simp: upsert_policy_row_def delete_policy_row_def delete_device_tags_def copy_device_tags_def
      insert_device_tag_def upsert_tag_row_def delete_temporary_schedules_def storage_ok_def
      intro: policies_ok_upsert policies_ok_filter tag_rows_ok_intros split: sum.splits)

lemmas keeps_statement [db_inv] = statement_keeps [THEN keeps_exec]

lemma keeps_save_tags [db_inv]: "keeps storage_ok (save_device_tags p ts mac)"
  unfolding save_device_tags_def by (intro db_inv)

lemma keeps_migrate_tag [db_inv]: "keeps storage_ok (migrate_device_tag old new)"
  unfolding migrate_device_tag_def by (intro db_inv)

text \<open>Between its two statements \<open>MigrateDevicePolicies\<close> leaves the columns ahead of the documents.\<close>

lemma retarget_both_keeps:
  assumes ok: "policies_ok (tbl_policies db)"
    and r: "retarget_rows old new db = Inr db1" "retarget_data new db1 = Inr db2"
  shows "db2 = db\<lparr>tbl_policies := tbl_policies db2\<rparr>" "policies_ok (tbl_policies db2)"
proof -
  define f :: "policy_row \<Rightarrow> policy_row" where "f r = (if row_target r = old \<and> row_type r = PolicyTypeDevice then r\<lparr>row_target := new\<rparr> else r)" for r
  define g :: "policy_row \<Rightarrow> policy_row" where "g r = (if row_target r = new \<and> row_type r = PolicyTypeDevice then (case row_data r of
      Document p \<Rightarrow> r\<lparr>row_data := Document (p\<lparr>pol_target := new\<rparr>)\<rparr> | _ \<Rightarrow> r) else r)" for r
  have d: "db2 = db\<lparr>tbl_policies := map (\<lambda>r. g (f r)) (tbl_policies db)\<rparr>"
    using r unfolding f_def g_def
    by (auto simp: retarget_rows_def retarget_data_def Let_def o_def simp del: if_split split: if_split_asm)
  then show "db2 = db\<lparr>tbl_policies := tbl_policies db2\<rparr>" by simp
  have "policies_ok (map (\<lambda>r. g (f r)) (tbl_policies db))"
  proof (rule policies_ok_map [OF ok])
    show "row_id (g (f r)) = row_id r" for r by (simp add: f_def g_def split: document.split)
    show "row_consistent r \<Longrightarrow> row_consistent (g (f r))" for r
      by (auto simp: f_def g_def row_consistent_def split: document.splits)
  qed
  then show "policies_ok (tbl_policies db2)" unfolding d by simp
qed

lemma keeps_migrate_policies [db_inv]: "keeps storage_ok (migrate_device_policies old new)"
  unfolding keeps_def
proof (intro allI impI)
  fix out n db assume ok: "storage_ok db"
  obtain r n' db' where r: "migrate_device_policies old new out (n, db) = (r, n', db')"
    by (metis prod.collapse)
  have "storage_ok db'"
  proof (cases r)
    case (Inl e)
    then show ?thesis using r ok transaction_fails by (metis migrate_device_policies_def)
  next
    case (Inr u)
    then have "\<exists>k. then_io (exec (retarget_rows old new)) (exec (retarget_data new)) out (Suc n, db)
        = (Inr u, k, db')"
      using r by (intro transaction_succeeds) (simp add: migrate_device_policies_def)
    then obtain db1 where "retarget_rows old new db = Inr db1" "retarget_data new db1 = Inr db'"
      by (auto elim!: then_succeeds simp: exec_succeeds)
    from retarget_both_keeps [OF _ this] ok
    have "db' = db\<lparr>tbl_policies := tbl_policies db'\<rparr>" "policies_ok (tbl_policies db')"
      by (simp_all add: storage_ok_def)
    with ok show ?thesis unfolding storage_ok_def by (metis database.select_convs database.surjective
          database.update_convs(6))
  qed
  with r show "storage_ok (snd (snd (migrate_device_policies old new out (n, db))))" by simp
qed

lemma keeps_import [db_inv]: "keeps storage_ok (import_policies json)"
proof -
  have "keeps storage_ok (if pol_id p = [] then return_io () else exec (upsert_policy_row p))" for p
    by (cases "pol_id p = []") (auto intro: db_inv)
  then show ?thesis unfolding import_policies_def
    by (cases "decode json") (auto intro!: keeps_fail keeps_transaction keeps_for_each)
qed

lemma keeps_hydrate [db_inv]: "keeps storage_ok (load_hydrate now ts ps e)"
  unfolding load_hydrate_def purge_expired_def Let_def case_prod_beta by (intro db_inv)

lemma keeps_rows [db_inv]:
  "keeps storage_ok (update_device_tag_mac p mac)" "keeps storage_ok (save_device_override p name)"
  "keeps storage_ok (assign_device_to_user p u)" "keeps storage_ok (unassign_device_user p)"
  "keeps storage_ok (save_policy pol)" "keeps storage_ok (remove_policy i)"
  "keeps storage_ok (save_flow_log now p a b)"
proof -
  have "map tag_key (map (\<lambda>r. if dt_pdid r = p \<and> dt_mac r = [] then r\<lparr>dt_mac := mac\<rparr> else r) rows)
      = map tag_key rows" for rows
    by (simp add: tag_key_def)
  then have "keeps storage_ok (exec (\<lambda>db. Inr (db\<lparr>tbl_device_tags :=
      map (\<lambda>r. if dt_pdid r = p \<and> dt_mac r = [] then r\<lparr>dt_mac := mac\<rparr> else r) (tbl_device_tags db)\<rparr>)))"
    by (intro keeps_exec) (auto simp: storage_ok_def tag_rows_ok_def simp del: map_map)
  then show "keeps storage_ok (update_device_tag_mac p mac)"
    by (simp add: update_device_tag_mac_def keeps_return)
  show "keeps storage_ok (save_device_override p name)" unfolding save_device_override_def
    by (rule keeps_exec) (auto simp: storage_ok_def distinct_update)
  have "keeps storage_ok (exec_counting (\<lambda>db. if u \<in> fst ` set (tbl_users db)
      then (1, db\<lparr>tbl_device_users := AList.update p u (tbl_device_users db)\<rparr>) else (0, db)))"
    by (rule keeps_exec_counting) (auto simp: storage_ok_def distinct_update)
  then show "keeps storage_ok (assign_device_to_user p u)" unfolding assign_device_to_user_def
    by (rule keeps_bind) (simp add: keeps_fail keeps_return)
  show "keeps storage_ok (unassign_device_user p)" unfolding unassign_device_user_def
    by (rule keeps_exec) (auto simp: storage_ok_def distinct_delete)
  show "keeps storage_ok (save_policy pol)" unfolding save_policy_def by (intro db_inv)
  show "keeps storage_ok (remove_policy i)" unfolding remove_policy_def by (intro db_inv)
  show "keeps storage_ok (save_flow_log now p a b)" unfolding save_flow_log_def
    by (rule keeps_exec) (auto simp: storage_ok_def)
qed


subsection \<open>Saving a device's tags is all or nothing\<close>

lemma insert_tags_loop:
  assumes "for_each (\<lambda>t _. exec (insert_device_tag p t mac)) ts u out (n, db) = (Inr v, n', db')"
  shows "distinct ts \<and> (\<forall>t \<in> set ts. (p, t) \<notin> tag_key ` set (tbl_device_tags db)) \<and>
    db' = db\<lparr>tbl_device_tags := tbl_device_tags db @ map (\<lambda>t. \<lparr>dt_pdid = p, dt_tag = t, dt_mac = mac\<rparr>) ts\<rparr>"
  using assms
proof (induction ts arbitrary: u n db)
  case (Cons t ts)
  from Cons.prems(1) obtain db1 k where
    i: "insert_device_tag p t mac db = Inr db1"
    and l: "for_each (\<lambda>t _. exec (insert_device_tag p t mac)) ts () out (k, db1) = (Inr v, n', db')"
    by (auto elim!: bind_succeeds simp: exec_succeeds)
  from i have "(p, t) \<notin> tag_key ` set (tbl_device_tags db)"
    and "db1 = db\<lparr>tbl_device_tags := tbl_device_tags db @ [\<lparr>dt_pdid = p, dt_tag = t, dt_mac = mac\<rparr>]\<rparr>"
    by (auto simp: insert_device_tag_def insert_row_def tag_key_def split: if_splits)
  then show ?case using Cons.IH [OF l] by (auto simp: tag_key_def)
qed (simp add: return_io_def)

lemma insert_tags_healthy:
  assumes "distinct ts" "\<forall>r \<in> set (tbl_device_tags db). dt_pdid r = p \<longrightarrow> dt_tag r \<notin> set ts"
  shows "\<exists>k db'. for_each (\<lambda>t _. exec (insert_device_tag p t mac)) ts u healthy (n, db) = (Inr (), k, db')"
  using assms
proof (induction ts arbitrary: u n db)
  case Nil
  then show ?case by (simp add: return_io_def)
next
  case (Cons t ts)
  let ?db = "db\<lparr>tbl_device_tags := tbl_device_tags db @ [\<lparr>dt_pdid = p, dt_tag = t, dt_mac = mac\<rparr>]\<rparr>"
  have "insert_device_tag p t mac db = Inr ?db"
    using Cons.prems(2) by (auto simp: insert_device_tag_def insert_row_def tag_key_def)
  then show ?case using Cons.prems Cons.IH [of ?db "()" "Suc n"]
    by (simp add: bind_io_def exec_healthy)
qed

text \<open>\<open>SaveDeviceTags\<close> replaces the stored tags of the device by exactly the given ones, in their
  order, and touches no other device; when it fails (a driver error at any statement, a tag given
  twice) nothing has changed. Without a driver error it fails only for a tag given twice.\<close>

theorem save_device_tags_atomic:
  assumes "save_device_tags p ts mac out (n, db) = (r, n', db')"
  shows "(case r of Inl e \<Rightarrow> db' = db
     | Inr _ \<Rightarrow> distinct ts \<and> db' = db\<lparr>tbl_device_tags := filter (\<lambda>x. dt_pdid x \<noteq> p) (tbl_device_tags db) @
         map (\<lambda>t. \<lparr>dt_pdid = p, dt_tag = t, dt_mac = mac\<rparr>) ts\<rparr>) \<and>
    (out = healthy \<longrightarrow> (isl r \<longleftrightarrow> \<not> distinct ts))"
proof -
  let ?db = "db\<lparr>tbl_device_tags := filter (\<lambda>x. dt_pdid x \<noteq> p) (tbl_device_tags db)\<rparr>"
  note r = assms [unfolded save_device_tags_def]
  have ok: "distinct ts \<and> db' = ?db\<lparr>tbl_device_tags := tbl_device_tags ?db @
         map (\<lambda>t. \<lparr>dt_pdid = p, dt_tag = t, dt_mac = mac\<rparr>) ts\<rparr>" if i: "r = Inr u" for u
  proof -
    from r [unfolded i, THEN transaction_succeeds] obtain m k where
      "for_each (\<lambda>t _. exec (insert_device_tag p t mac)) ts () out (m, ?db) = (Inr u, k, db')"
      by (auto elim!: then_succeeds simp: exec_succeeds delete_device_tags_def)
    from insert_tags_loop [OF this] show ?thesis by simp
  qed
  have "\<not> isl r" if "out = healthy" "distinct ts"
    using r that insert_tags_healthy [of ts ?db p mac "()" "Suc (Suc n)"]
    by (auto simp: transaction_def then_io_def bind_io_def exec_healthy healthy_not delete_device_tags_def)
  with ok show ?thesis
    using r transaction_fails by (cases r) auto
qed

lemma save_device_tags_atomic_witness:
  "\<exists>n' db'. save_device_tags ''a'' [''kids''] [] healthy (0, empty_database) = (Inr (), n', db') \<and>
     map dt_tag (tbl_device_tags db') = [''kids'']"
proof -
  obtain r n' db' where s: "save_device_tags ''a'' [''kids''] [] healthy (0, empty_database) = (r, n', db')"
    by (metis prod.collapse)
  from save_device_tags_atomic [OF s] have "\<not> isl r" by simp
  with save_device_tags_atomic [OF s] have "r = Inr ()" "map dt_tag (tbl_device_tags db') = [''kids'']"
    by (cases r; simp add: empty_database_def)+
  with s show ?thesis by simp
qed


subsection \<open>Hydration\<close>

text \<open>The row of a policy id, and what the policy loop computes from the rows.\<close>

definition stored :: "database \<Rightarrow> string \<Rightarrow> policy_row option" where
  "stored db i = map_of (map (\<lambda>r. (row_id r, r)) (tbl_policies db)) i"

lemma row_policy_id: "row_consistent r \<Longrightarrow> \<exists>p. row_policy r = Some p \<and> pol_id p = row_id r"
  by (auto simp: row_consistent_def row_policy_def split: document.splits)

definition row_expired :: "time \<Rightarrow> policy_row \<Rightarrow> bool" where
  "row_expired now r = (case row_policy r of None \<Rightarrow> False | Some p \<Rightarrow> expired now p)"

lemma hydrate_policy_rows:
  assumes "policies_ok rows"
  shows "foldl (hydrate_policy_row now) (ps, gone) rows =
    (\<lambda>i. case map_of (map (\<lambda>r. (row_id r, r)) rows) i of
        Some r \<Rightarrow> if row_expired now r then ps i else row_policy r | None \<Rightarrow> ps i,
     gone @ map row_id (filter (row_expired now) rows))"
  using assms
proof (induction rows arbitrary: ps gone)
  case (Cons r rows)
  then have ok: "policies_ok rows" "row_id r \<notin> row_id ` set rows" "row_consistent r"
    by (auto simp: policies_ok_def)
  then obtain p where p: "row_policy r = Some p" "pol_id p = row_id r" using row_policy_id by blast
  have n: "map_of (map (\<lambda>r. (row_id r, r)) rows) (row_id r) = None"
    using ok(2) by (force simp: map_of_eq_None_iff)
  show ?case
    using Cons.IH [OF ok(1)] p n
    by (auto simp: hydrate_policy_row_def row_expired_def upsert_policy_def fun_eq_iff split: option.split)
qed simp

lemma purge_expired_healthy:
  "\<exists>k. purge_expired gone healthy (n, db) = (Inr (), k, if gone = [] then db else
     db\<lparr>tbl_schedules := tbl_schedules (snd (runs (exec delete_temporary_schedules) db)),
        tbl_policies := filter (\<lambda>r. row_id r \<notin> set gone) (tbl_policies db)\<rparr>)"
proof (induction gone arbitrary: n db)
  case (Cons i gone)
  let ?d = "\<lambda>db. db\<lparr>tbl_schedules := tbl_schedules (snd (runs (exec delete_temporary_schedules) db))\<rparr>"
  let ?db = "(?d db)\<lparr>tbl_policies := filter (\<lambda>r. row_id r \<noteq> i) (tbl_policies db)\<rparr>"
  have "purge_expired (i # gone) healthy (n, db) = purge_expired gone healthy (Suc (Suc n), ?db)"
    by (simp add: purge_expired_def then_io_def bind_io_def attempt_exec_healthy
        delete_policy_row_def runs_def exec_healthy delete_temporary_schedules_def)
  moreover have "filter (\<lambda>r. row_id r \<notin> set gone) (filter (\<lambda>r. row_id r \<noteq> i) rows)
      = filter (\<lambda>r. row_id r \<notin> set (i # gone)) rows" for rows
    by (auto intro: filter_cong)
  ultimately show ?case
    using Cons.IH [of "Suc (Suc n)" ?db]
    by (auto simp: runs_def exec_healthy delete_temporary_schedules_def)
qed (simp add: purge_expired_def return_io_def)


lemma tag_upserts_healthy:
  "\<exists>k ts'. for_each (\<lambda>t _. attempt () (exec (upsert_tag_row t))) ts () healthy (n, db) =
     (Inr (), k, db\<lparr>tbl_tags := ts'\<rparr>)"
proof (induction ts arbitrary: n db)
  case Nil
  show ?case by (rule exI, rule exI [of _ "tbl_tags db"]) (simp add: return_io_def)
next
  case (Cons t ts)
  let ?X = "upsert_row tag_id (\<lambda>old new. old\<lparr>tag_name := tag_name new, tag_color := tag_color new,
        tag_precedence := tag_precedence new\<rparr>) t (tbl_tags db)"
  show ?case using Cons.IH [of "Suc n" "db\<lparr>tbl_tags := ?X\<rparr>"]
    by (simp add: bind_io_def attempt_exec_healthy upsert_tag_row_def)
qed

lemma filter_unexpired:
  assumes "distinct (map f rows)"
  shows "filter (\<lambda>r. f r \<notin> set (map f (filter P rows))) rows = filter (\<lambda>r. \<not> P r) rows"
proof (rule filter_cong [OF refl])
  fix r assume "r \<in> set rows"
  then show "(f r \<notin> set (map f (filter P rows))) = (\<not> P r)"
    using assms by (auto simp: distinct_map inj_on_def)
qed

lemma attempt_query_healthy: "attempt d (query sel) healthy (n, db) = (Inr (sel db), Suc n, db)"
  by (simp add: attempt_def query_healthy)

lemma keep_tables_hydrate_tags:
  "hy_policies (foldl hydrate_tag_row h rows) = hy_policies h \<and>
   hy_engine (foldl hydrate_tag_row h rows) = hy_engine h"
  by (induction rows arbitrary: h) (simp_all add: hydrate_tag_row_def Let_def)

text \<open>What \<open>LoadHydrate\<close> returns and leaves when the driver does not fail.\<close>

lemma load_hydrate_run:
  assumes "storage_ok db" "runs (load_hydrate now ts ps e) db = (r, db')"
  defines "gone \<equiv> map row_id (filter (row_expired now) (tbl_policies db))"
  shows "(\<exists>h. r = Inr h \<and> hy_policies h = fst (foldl (hydrate_policy_row now) (ps, []) (tbl_policies db)) \<and>
      hy_engine h = foldl hydrate_schedule_row e (tbl_schedules db')) \<and>
    (\<exists>X. db' = (if gone = [] then db\<lparr>tbl_tags := X\<rparr>
      else db\<lparr>tbl_tags := X,
        tbl_schedules := tbl_schedules (snd (runs (exec delete_temporary_schedules) (db\<lparr>tbl_tags := X\<rparr>))),
        tbl_policies := filter (\<lambda>r. row_id r \<notin> set gone) (tbl_policies db)\<rparr>))"
proof -
  have ok: "policies_ok (tbl_policies db)" using assms(1) by (simp add: storage_ok_def)
  define ts1 where "ts1 = foldl (\<lambda>ts t. restore_tag t ts) ts (tbl_tags db)"
  obtain k X where u: "for_each (\<lambda>t _. attempt () (exec (upsert_tag_row t)))
      (filter tag_builtin (list_tags ts1)) () healthy (Suc 0, db) = (Inr (), k, db\<lparr>tbl_tags := X\<rparr>)"
    using tag_upserts_healthy by blast
  let ?db1 = "db\<lparr>tbl_tags := X\<rparr>"
  define h0 where "h0 = foldl hydrate_tag_row \<lparr>hy_tags = ts1, hy_policies = ps, hy_engine = e,
      hy_device_tags = Map.empty, hy_mac_tags = Map.empty\<rparr> (tbl_device_tags db)"
  have h0: "hy_policies h0 = ps" "hy_engine h0 = e"
    using keep_tables_hydrate_tags unfolding h0_def by simp_all
  have g: "map row_id (filter (row_expired now) (tbl_policies db)) = gone" by (simp add: gone_def)
  obtain k2 where p: "purge_expired gone healthy (Suc (Suc k), ?db1) = (Inr (), k2, if gone = [] then ?db1 else
     ?db1\<lparr>tbl_schedules := tbl_schedules (snd (runs (exec delete_temporary_schedules) ?db1)),
        tbl_policies := filter (\<lambda>r. row_id r \<notin> set gone) (tbl_policies ?db1)\<rparr>)" (is "_ = (_, _, ?db2)")
    using purge_expired_healthy by blast
  have "r = Inr (h0\<lparr>hy_policies := fst (foldl (hydrate_policy_row now) (ps, []) (tbl_policies db)),
      hy_engine := foldl hydrate_schedule_row e (tbl_schedules ?db2)\<rparr>)" "db' = ?db2"
    using assms(2) [symmetric]
    by (simp_all add: runs_def load_hydrate_def Let_def then_io_def bind_io_def attempt_query_healthy
        ts1_def [symmetric] u h0_def [symmetric] h0 hydrate_policy_rows [OF ok] g p return_io_def
        del: if_split)
  then show ?thesis by auto
qed

text \<open>A restart loads exactly the stored policies that have not expired, with the stored switch; an
  expired policy is neither loaded nor kept in the database, and a policy with no stored row stays as
  the engine had it.\<close>

theorem hydrate_policies_exact:
  assumes "storage_ok db" "runs (load_hydrate now ts ps e) db = (r, db')"
  shows "\<exists>h. r = Inr h \<and>
    (\<forall>i. hy_policies h i = (case stored db i of
        Some row \<Rightarrow> if row_expired now row then ps i else row_policy row | None \<Rightarrow> ps i)) \<and>
    tbl_policies db' = filter (\<lambda>row. \<not> row_expired now row) (tbl_policies db) \<and>
    hy_engine h = foldl hydrate_schedule_row e (tbl_schedules db')"
proof -
  have ok: "policies_ok (tbl_policies db)" using assms(1) by (simp add: storage_ok_def)
  have "filter (\<lambda>row. \<not> row_expired now row) (tbl_policies db) = tbl_policies db"
    if "filter (row_expired now) (tbl_policies db) = []"
    using that by (simp add: filter_empty_conv)
  with load_hydrate_run [OF assms] show ?thesis
    using filter_unexpired [of row_id "tbl_policies db" "row_expired now"] ok
    by (auto simp: policies_ok_def hydrate_policy_rows [OF ok] stored_def simp del: set_map set_filter)
qed

definition late_pause :: policy where
  "late_pause = empty_policy\<lparr>pol_id := ''pol_pause_a'', pol_expires_at := Some 100\<rparr>"

definition live_extend :: policy where
  "live_extend = empty_policy\<lparr>pol_id := ''pol_extend_device_b'', pol_type := PolicyTypeDevice,
     pol_target := ''b'', pol_action := ActionSchedule, pol_schedule_ids := [''sched_extend_b''],
     pol_enabled := True, pol_expires_at := Some 900\<rparr>"

definition before_restart :: database where
  "before_restart = empty_database\<lparr>tbl_policies := map policy_row_of [late_pause, live_extend],
     tbl_schedules := [\<lparr>sr_id = ''sched_extend_b'', sr_name = ''Extension'',
       sr_mode = ScheduleModeWhitelist, sr_timezone = ''UTC'', sr_rules = Document []\<rparr>]\<rparr>"

lemma before_restart_ok: "storage_ok before_restart"
  by (simp add: storage_ok_def before_restart_def empty_database_def policies_ok_def tag_rows_ok_def
      history_ok_def policy_row_of_def row_consistent_def late_pause_def live_extend_def)

lemma before_restart_rows:
  "stored before_restart ''pol_pause_a'' = Some (policy_row_of late_pause)"
  "stored before_restart ''pol_extend_device_b'' = Some (policy_row_of live_extend)"
  "row_expired 200 (policy_row_of late_pause)" "\<not> row_expired 200 (policy_row_of live_extend)"
  "row_policy (policy_row_of live_extend) = Some live_extend"
  by (simp_all add: stored_def before_restart_def policy_row_of_def row_expired_def row_policy_def
      expired_def late_pause_def live_extend_def empty_policy_def)

lemma hydrate_policies_exact_witness:
  "\<exists>h db'. runs (load_hydrate 200 new_manager Map.empty new_engine) before_restart = (Inr h, db') \<and>
     hy_policies h ''pol_pause_a'' = None \<and> hy_policies h ''pol_extend_device_b'' = Some live_extend"
proof -
  obtain r db' where r: "runs (load_hydrate 200 new_manager Map.empty new_engine) before_restart = (r, db')"
    by fastforce
  from hydrate_policies_exact [OF before_restart_ok r] obtain h where "r = Inr h"
    "hy_policies h ''pol_pause_a'' = None" "hy_policies h ''pol_extend_device_b'' = Some live_extend"
    by (auto simp: before_restart_rows)
  with r show ?thesis by blast
qed

text \<open>The clean-up deletes the schedules of every temporary policy as soon as one has expired: after this
  restart the extension of device \<open>b\<close>, still running, has lost its schedule, and its bundle fails
  closed.\<close>

lemma hydrate_drops_live_schedules:
  "\<exists>h db'. runs (load_hydrate 200 new_manager Map.empty new_engine) before_restart = (Inr h, db') \<and>
     tbl_schedules db' = [] \<and> hy_engine h = new_engine \<and>
     fst (evaluate_bundle tzdb now (get_schedule_ids live_extend) (hy_engine h)) = ActionBlock"
proof -
  obtain r db' where r: "runs (load_hydrate 200 new_manager Map.empty new_engine) before_restart = (r, db')"
    by fastforce
  have "filter (row_expired 200) (tbl_policies before_restart) \<noteq> []"
    using before_restart_rows(3) by (simp add: before_restart_def)
  moreover have "tbl_schedules (snd (runs (exec delete_temporary_schedules) (before_restart\<lparr>tbl_tags := X\<rparr>))) = []" for X
  proof -
    have "sql_like ''sched_extend_%'' ''sched_extend_b''" by code_simp
    then show ?thesis
      by (simp add: runs_def exec_healthy delete_temporary_schedules_def before_restart_def)
  qed
  ultimately obtain h where "r = Inr h" "tbl_schedules db' = []" "hy_engine h = new_engine"
    using load_hydrate_run [OF before_restart_ok r] by auto
  moreover have "fst (evaluate_bundle tzdb now (get_schedule_ids live_extend) new_engine) = ActionBlock"
    by (simp add: evaluate_bundle_def Let_def new_engine_def live_extend_def get_schedule_ids_def)
  ultimately show ?thesis using r by simp
qed

end
