(* ===== verification/Identity_Migration.thy ===== *)
theory Identity_Migration
  imports Lias_Storage
begin

text \<open>
  \<open>apps/lias/internal/storage/identity_migration.go\<close> and
  \<open>apps/lias/internal/identitymigration/coordinator.go\<close>: when the discovery service finds that a device
  known under one identity is a device known under another, every reference the scheduler owns moves
  to the surviving identity, in one transaction, and the policies and devices in memory follow. \<open>ks\<close>
  is the order of the loop over the map of policies by id; ids it lists that are not in the map are
  not visited.
\<close>

subsection \<open>The transaction\<close>

record migration_result =
  mr_old :: string
  mr_new :: string
  mr_tags :: "string list"
  mr_name :: string
  mr_user :: string
  mr_policies :: "policy list"
  mr_conflicts :: "migration_conflict list"
  mr_replayed :: bool

definition empty_result :: "string \<Rightarrow> string \<Rightarrow> migration_result" where
  "empty_result old new = \<lparr>mr_old = old, mr_new = new, mr_tags = [], mr_name = [], mr_user = [],
     mr_policies = [], mr_conflicts = [], mr_replayed = False\<rparr>"

definition retarget_temporary :: "string \<Rightarrow> string \<Rightarrow> string \<Rightarrow> string" where
  "retarget_temporary i old new =
     (case List.find (\<lambda>prefix. i = prefix @ old) [''pol_pause_'', ''pol_extend_device_''] of
        Some prefix \<Rightarrow> prefix @ new | None \<Rightarrow> i)"

text \<open>\<open>INSERT INTO t SELECT ?, v FROM t WHERE pdid = ? ON CONFLICT DO UPDATE SET v = CASE ...\<close>\<close>

definition adopt :: "string \<Rightarrow> string \<Rightarrow> (string \<times> string) list \<Rightarrow> (string \<times> string) list" where
  "adopt old new rows =
     (case map_of rows old of None \<Rightarrow> rows
      | Some s \<Rightarrow> AList.update new
          (case map_of rows new of Some t \<Rightarrow> if t \<noteq> [] then t else s | None \<Rightarrow> s) rows)"

definition adopt_override :: "string \<Rightarrow> string \<Rightarrow> database \<Rightarrow> db_error + database" where
  "adopt_override old new db = Inr (db\<lparr>tbl_overrides := adopt old new (tbl_overrides db)\<rparr>)"

definition delete_override :: "string \<Rightarrow> database \<Rightarrow> db_error + database" where
  "delete_override p db = Inr (db\<lparr>tbl_overrides := AList.delete p (tbl_overrides db)\<rparr>)"

definition adopt_user :: "string \<Rightarrow> string \<Rightarrow> database \<Rightarrow> db_error + database" where
  "adopt_user old new db = Inr (db\<lparr>tbl_device_users := adopt old new (tbl_device_users db)\<rparr>)"

definition delete_device_user :: "string \<Rightarrow> database \<Rightarrow> db_error + database" where
  "delete_device_user p db = Inr (db\<lparr>tbl_device_users := AList.delete p (tbl_device_users db)\<rparr>)"

definition insert_policy :: "policy \<Rightarrow> database \<Rightarrow> db_error + database" where
  "insert_policy p db = (case insert_row row_id (policy_row_of p) (tbl_policies db) of
     Inl e \<Rightarrow> Inl e | Inr rows \<Rightarrow> Inr (db\<lparr>tbl_policies := rows\<rparr>))"

definition save_policy_tx :: "policy \<Rightarrow> unit io" where
  "save_policy_tx p = exec (insert_policy p)"

definition delete_policies :: "string \<Rightarrow> string \<Rightarrow> database \<Rightarrow> db_error + database" where
  "delete_policies i j db =
     Inr (db\<lparr>tbl_policies := filter (\<lambda>r. row_id r \<noteq> i \<and> row_id r \<noteq> j) (tbl_policies db)\<rparr>)"

definition move_flows :: "string \<Rightarrow> string \<Rightarrow> database \<Rightarrow> db_error + database" where
  "move_flows old new db = Inr (db\<lparr>tbl_flows :=
     map (\<lambda>f. if fl_pdid f = old then f\<lparr>fl_pdid := new\<rparr> else f) (tbl_flows db)\<rparr>)"

definition compress_redirects :: "string \<Rightarrow> string \<Rightarrow> database \<Rightarrow> db_error + database" where
  "compress_redirects old new db = Inr (db\<lparr>tbl_redirects :=
     (\<lambda>p. map_option (\<lambda>q. if q = old then new else q) (tbl_redirects db p))\<rparr>)"

definition upsert_redirect :: "string \<Rightarrow> string \<Rightarrow> database \<Rightarrow> db_error + database" where
  "upsert_redirect old new db = Inr (db\<lparr>tbl_redirects := (tbl_redirects db)(old \<mapsto> new)\<rparr>)"

definition record_migration :: "time \<Rightarrow> string \<Rightarrow> string \<Rightarrow> database \<Rightarrow> db_error + database" where
  "record_migration now old new db =
     (if tbl_migrations db old \<noteq> None then Inl UniqueViolation
      else Inr (db\<lparr>tbl_migrations := (tbl_migrations db)(old \<mapsto> (new, now))\<rparr>))"

definition record_conflict ::
  "time \<Rightarrow> string \<Rightarrow> string \<Rightarrow> migration_conflict \<Rightarrow> database \<Rightarrow> db_error + database" where
  "record_conflict now old new c db = Inr (db\<lparr>tbl_conflicts := tbl_conflicts db @
     [\<lparr>cr_old = old, cr_new = new, cr_conflict = c, cr_at = now\<rparr>]\<rparr>)"

text \<open>The documents of the device policies that target one of the identities, in row order.\<close>

definition device_documents :: "string \<Rightarrow> string \<Rightarrow> database \<Rightarrow> policy document list" where
  "device_documents old new db = map row_data (filter (\<lambda>r. row_type r = PolicyTypeDevice \<and>
     (row_target r = old \<or> row_target r = new)) (tbl_policies db))"

definition retargeted :: "time \<Rightarrow> string \<Rightarrow> string \<Rightarrow> policy \<Rightarrow> policy" where
  "retargeted now old new s = s\<lparr>pol_target := new,
     pol_id := retarget_temporary (pol_id s) old new, pol_updated_at := now\<rparr>"

text \<open>One source policy: on a collision the higher priority survives, the target on a tie.\<close>

definition migrate_policy ::
  "time \<Rightarrow> string \<Rightarrow> string \<Rightarrow> policy \<Rightarrow> policies \<times> migration_conflict list \<Rightarrow>
   (policies \<times> migration_conflict list) io" where
  "migrate_policy now old new source = (\<lambda>(by_id, conflicts).
     (let src = retargeted now old new source in
      case by_id (pol_id src) of
        Some target \<Rightarrow>
          (let (winner, loser) = (if pol_priority target < pol_priority src then (src, target) else (target, src));
               c = \<lparr>mc_object = ''policy'', mc_winner = pol_id winner, mc_loser = pol_id loser,
                    mc_details = WinnerLoser winner loser\<rparr>
           in then_io (exec (delete_policies (pol_id source) (pol_id target)))
                (then_io (save_policy_tx winner)
                  (return_io (by_id(pol_id winner \<mapsto> winner), conflicts @ [c]))))
      | None \<Rightarrow> then_io (exec (delete_policy_row (pol_id source)))
                (then_io (save_policy_tx src) (return_io (by_id(pol_id src \<mapsto> src), conflicts)))))"

definition by_precedence :: "policy list \<Rightarrow> policy list" where
  "by_precedence ps = sort_key (\<lambda>p. (- pol_priority p, pol_id p)) ps"

definition precedence_conflicts :: "policy list \<Rightarrow> migration_conflict list" where
  "precedence_conflicts active =
     (case active of [] \<Rightarrow> []
      | winner # rest \<Rightarrow> map (\<lambda>loser. \<lparr>mc_object = ''policy_precedence'', mc_winner = pol_id winner,
            mc_loser = pol_id loser, mc_details = WinnerLowerPriority winner loser\<rparr>)
          (filter (\<lambda>loser. pol_action loser \<noteq> pol_action winner) rest))"

definition migrate_policies_tx ::
  "time \<Rightarrow> string list \<Rightarrow> string \<Rightarrow> string \<Rightarrow> migration_conflict list io" where
  "migrate_policies_tx now ks old new =
     bind_io (query (device_documents old new)) (\<lambda>docs.
       case those (map decode docs) of None \<Rightarrow> fail_io UndecodablePolicy
       | Some ps \<Rightarrow>
           (let sources = filter (\<lambda>p. pol_target p = old) ps;
                targets = filter (\<lambda>p. pol_target p \<noteq> old) ps;
                by_id = foldl (\<lambda>m p. m(pol_id p \<mapsto> p)) Map.empty targets
            in bind_io (for_each (migrate_policy now old new) sources (by_id, [])) (\<lambda>(by_id', conflicts).
                 return_io (conflicts @ precedence_conflicts
                   (by_precedence (filter pol_enabled (range_values by_id' ks)))))))"

definition load_migration_state :: "migration_result \<Rightarrow> migration_result io" where
  "load_migration_state res =
     bind_io (query (\<lambda>db. sort (map dt_tag (filter (\<lambda>r. dt_pdid r = mr_new res) (tbl_device_tags db))))) (\<lambda>tags.
     bind_io (attempt None (query (\<lambda>db. map_of (tbl_overrides db) (mr_new res)))) (\<lambda>name.
     bind_io (attempt None (query (\<lambda>db. map_of (tbl_device_users db) (mr_new res)))) (\<lambda>user.
     bind_io (query (\<lambda>db. map row_data (filter (\<lambda>r. row_type r = PolicyTypeDevice \<and>
         row_target r = mr_new res) (tbl_policies db)))) (\<lambda>docs.
       case those (map decode docs) of None \<Rightarrow> fail_io UndecodablePolicy
       | Some ps \<Rightarrow>
           (let res1 = res\<lparr>mr_tags := tags, mr_name := (case name of Some s \<Rightarrow> s | None \<Rightarrow> mr_name res),
                  mr_user := (case user of Some u \<Rightarrow> u | None \<Rightarrow> mr_user res),
                  mr_policies := by_precedence ps\<rparr>
            in if mr_replayed res1
               then bind_io (query (\<lambda>db. map cr_conflict (filter (\<lambda>c. cr_old c = mr_old res \<and>
                        cr_new c = mr_new res) (tbl_conflicts db))))
                      (\<lambda>cs. return_io (res1\<lparr>mr_conflicts := cs\<rparr>))
               else return_io res1)))))"

definition move_metadata :: "string \<Rightarrow> string \<Rightarrow> unit io" where
  "move_metadata old new =
     then_io (exec (copy_device_tags old new)) (then_io (exec (delete_device_tags old))
     (then_io (exec (adopt_override old new)) (then_io (exec (delete_override old))
     (then_io (exec (adopt_user old new)) (exec (delete_device_user old))))))"

definition record_history :: "time \<Rightarrow> string \<Rightarrow> string \<Rightarrow> migration_conflict list \<Rightarrow> unit io" where
  "record_history now old new conflicts =
     then_io (exec (move_flows old new)) (then_io (exec (compress_redirects old new))
     (then_io (exec (upsert_redirect old new)) (then_io (exec (record_migration now old new))
     (for_each (\<lambda>c _. exec (record_conflict now old new c)) conflicts ()))))"

definition migrate_identity_state ::
  "time \<Rightarrow> string list \<Rightarrow> string \<Rightarrow> string \<Rightarrow> migration_result io" where
  "migrate_identity_state now ks old new =
     (if old = [] \<or> new = [] \<or> old = new then fail_io InvalidMigration
      else transaction (bind_io (query (\<lambda>db. tbl_migrations db old)) (\<lambda>recorded.
        case recorded of
          Some (target, _) \<Rightarrow>
            if target \<noteq> new then fail_io TargetConflict
            else load_migration_state (empty_result old new\<lparr>mr_replayed := True\<rparr>)
        | None \<Rightarrow> then_io (move_metadata old new)
            (bind_io (migrate_policies_tx now ks old new) (\<lambda>conflicts.
             then_io (record_history now old new conflicts)
              (load_migration_state (empty_result old new\<lparr>mr_conflicts := conflicts\<rparr>)))))))"

subsection \<open>The coordinator\<close>

record coordinator =
  co_store :: "database option"
  co_policies :: policies
  co_cache :: cache

definition new_coordinator :: "database option \<Rightarrow> cache \<Rightarrow> policies \<Rightarrow> coordinator" where
  "new_coordinator store c ps = \<lparr>co_store = store, co_policies = ps, co_cache = c\<rparr>"

text \<open>The policies handed on in memory-only mode.\<close>

fun memory_migrated :: "string \<Rightarrow> string \<Rightarrow> policy list \<Rightarrow> policy list" where
  "memory_migrated old new [] = []"
| "memory_migrated old new (p # ps) =
     (if pol_type p = PolicyTypeDevice \<and> pol_target p = old
      then p\<lparr>pol_target := new, pol_id := retarget_temporary (pol_id p) old new\<rparr> # memory_migrated old new ps
      else if pol_type p = PolicyTypeDevice \<and> pol_target p = new then p # memory_migrated old new ps
      else memory_migrated old new ps)"

text \<open>The result counts the conflicts and says whether the migration was a replay. \<open>lk\<close> and \<open>pk\<close> are the
  orders of the loops over the policies in memory.\<close>

definition migrate_identity ::
  "outage \<Rightarrow> time \<Rightarrow> string list \<Rightarrow> string list \<Rightarrow> string list \<Rightarrow> string \<Rightarrow> string \<Rightarrow> string list \<Rightarrow>
   coordinator \<Rightarrow> (db_error + nat \<times> bool) \<times> coordinator" where
  "migrate_identity out now ks lk pk old new mms co =
     (if old = [] \<or> new = [] \<or> old = new then (Inl InvalidMigration, co)
      else (case co_store co of
        None \<Rightarrow>
          (Inr (0, False),
           co\<lparr>co_policies := reconcile_device_identity pk old new
                (memory_migrated old new (list_policies lk (co_policies co))) (co_policies co),
              co_cache := migrate_device_identity old new (co_cache co)\<rparr>)
      | Some db \<Rightarrow>
          (case migrate_identity_state now ks old new out (0, db) of
             (Inl e, _, db') \<Rightarrow> (Inl e, co\<lparr>co_store := Some db'\<rparr>)
           | (Inr res, _, db') \<Rightarrow>
               (Inr (length (mr_conflicts res), mr_replayed res),
                \<lparr>co_store = Some db',
                 co_policies = reconcile_device_identity pk old new (mr_policies res) (co_policies co),
                 co_cache = reconcile_identity_migration old new mms (mr_tags res) (mr_name res)
                   (mr_user res) (co_cache co)\<rparr>))))"


subsection \<open>The policies after the loop\<close>

definition docs_for :: "string \<Rightarrow> policy_row list \<Rightarrow> policy set" where
  "docs_for x rows = {p. \<exists>r \<in> set rows. row_data r = Document p \<and> pol_type p = PolicyTypeDevice \<and> pol_target p = x}"

definition other_rows :: "string \<Rightarrow> string \<Rightarrow> policy_row list \<Rightarrow> policy_row list" where
  "other_rows old new rows = filter (\<lambda>r. \<not> (row_type r = PolicyTypeDevice \<and>
     (row_target r = old \<or> row_target r = new))) rows"

text \<open>The invariant of the loop over the source policies; \<open>todo\<close> are those still to come.\<close>

definition loop_ok ::
  "string \<Rightarrow> string \<Rightarrow> policy list \<Rightarrow> policies \<Rightarrow> policy_row list \<Rightarrow> bool" where
  "loop_ok old new todo by_id rows \<longleftrightarrow>
     policies_ok rows \<and> distinct (map pol_id todo) \<and> docs_for old rows = set todo \<and>
     (\<forall>i p. by_id i = Some p \<longleftrightarrow> p \<in> docs_for new rows \<and> pol_id p = i)"

lemma doc_row:
  assumes "policies_ok rows" "p \<in> docs_for x rows"
  obtains r where "r \<in> set rows" "row_data r = Document p" "row_id r = pol_id p"
    "row_type r = PolicyTypeDevice" "row_target r = x"
  using assms by (auto simp: docs_for_def policies_ok_def row_consistent_def)

lemma doc_inject:
  assumes ok: "policies_ok rows" and "p \<in> docs_for x rows" "q \<in> docs_for y rows" "pol_id p = pol_id q"
  shows "p = q"
proof -
  obtain r where r: "r \<in> set rows" "row_data r = Document p" "row_id r = pol_id p"
    using doc_row [OF ok assms(2)] by blast
  obtain s where s: "s \<in> set rows" "row_data s = Document q" "row_id s = pol_id q"
    using doc_row [OF ok assms(3)] by blast
  have "r = s" using ok r s assms(4) by (auto simp: policies_ok_def distinct_map inj_on_def)
  with r s show ?thesis by simp
qed

lemma docs_for_filter:
  assumes "policies_ok rows"
  shows "docs_for x (filter (\<lambda>r. row_id r \<notin> I) rows) = {p \<in> docs_for x rows. pol_id p \<notin> I}"
  using assms by (auto simp: docs_for_def policies_ok_def row_consistent_def) fastforce+

lemma docs_for_snoc:
  "docs_for x (rows @ [policy_row_of p]) =
    (if pol_type p = PolicyTypeDevice \<and> pol_target p = x then insert p (docs_for x rows) else docs_for x rows)"
  by (auto simp: docs_for_def policy_row_of_def)

lemma policies_ok_snoc:
  "policies_ok rows \<Longrightarrow> \<forall>r \<in> set rows. row_id r \<noteq> pol_id p \<Longrightarrow> policies_ok (rows @ [policy_row_of p])"
  by (force simp: policies_ok_def policy_row_of_def row_consistent_def)

text \<open>What one step does to the rows: some ids go, one policy of the surviving identity comes.\<close>

lemma other_row_id:
  assumes "policies_ok rows" "p \<in> docs_for x rows" "x = old \<or> x = new" "r \<in> set (other_rows old new rows)"
  shows "row_id r \<noteq> pol_id p"
proof
  assume e: "row_id r = pol_id p"
  obtain q where q: "q \<in> set rows" "row_id q = pol_id p" "row_type q = PolicyTypeDevice" "row_target q = x"
    using doc_row [OF assms(1,2)] by blast
  have "r \<in> set rows" using assms(4) by (simp add: other_rows_def)
  with q e assms(1) have "r = q" by (auto simp: policies_ok_def distinct_map inj_on_def)
  with q assms(3,4) show False by (auto simp: other_rows_def)
qed

lemma replace_rows:
  assumes ok: "loop_ok old new (s # todo) by_id rows" and on: "old \<noteq> new"
    and w: "pol_type w = PolicyTypeDevice" "pol_target w = new"
  defines "I \<equiv> if by_id (pol_id w) = None then {} else {pol_id w}"
  defines "kept \<equiv> filter (\<lambda>r. row_id r \<notin> insert (pol_id s) I) rows"
  assumes free: "\<forall>r \<in> set kept. row_id r \<noteq> pol_id w"
  shows "loop_ok old new todo (by_id(pol_id w \<mapsto> w)) (kept @ [policy_row_of w]) \<and>
    other_rows old new (kept @ [policy_row_of w]) = other_rows old new rows"
proof -
  have p: "policies_ok rows" "distinct (map pol_id (s # todo))" "docs_for old rows = set (s # todo)"
    and b: "\<And>i p. by_id i = Some p \<longleftrightarrow> p \<in> docs_for new rows \<and> pol_id p = i"
    using ok unfolding loop_ok_def by blast+
  have s: "s \<in> docs_for old rows" by (simp add: p(3))
  have disj: "docs_for old rows \<inter> docs_for new rows = {}" using on by (auto simp: docs_for_def)
  have I: "\<exists>t \<in> docs_for new rows. pol_id t = i" if "i \<in> I" for i
    using that b [of "pol_id w"] by (auto simp: I_def split: if_splits)
  have kd: "docs_for x kept = {q \<in> docs_for x rows. pol_id q \<notin> insert (pol_id s) I}" for x
    unfolding kept_def by (rule docs_for_filter [OF p(1)])
  have "policies_ok kept" unfolding kept_def by (rule policies_ok_filter [OF p(1)])
  then have p': "policies_ok (kept @ [policy_row_of w])" using free by (rule policies_ok_snoc)
  have "pol_id q \<notin> insert (pol_id s) I" if "q \<in> set todo" for q
  proof -
    have q: "q \<in> docs_for old rows" using that by (simp add: p(3))
    have "pol_id q \<notin> I"
    proof
      assume "pol_id q \<in> I"
      with I obtain u where u: "u \<in> docs_for new rows" "pol_id u = pol_id q" by blast
      then have "q = u" using doc_inject [OF p(1) q u(1)] by simp
      with q u(1) disj show False by blast
    qed
    moreover have "pol_id q \<noteq> pol_id s" using that p(2) by (metis distinct.simps(2) image_eqI list.simps(9) set_map)
    ultimately show ?thesis by simp
  qed
  then have o: "docs_for old (kept @ [policy_row_of w]) = set todo"
    using on w(2) by (auto simp: docs_for_snoc kd p(3))
  have "pol_id q \<noteq> pol_id s" if "q \<in> docs_for new rows" for q
    using doc_inject [OF p(1) that s] s that disj by blast
  then have n: "docs_for new (kept @ [policy_row_of w]) = insert w {q \<in> docs_for new rows. pol_id q \<notin> I}"
    using w by (auto simp: docs_for_snoc kd)
  have "(by_id(pol_id w \<mapsto> w)) i = Some q \<longleftrightarrow>
      q \<in> docs_for new (kept @ [policy_row_of w]) \<and> pol_id q = i" for i q
    unfolding n using b [of i q] by (auto simp: I_def)
  moreover have "other_rows old new kept = other_rows old new rows"
  proof -
    have "row_id r \<notin> insert (pol_id s) I" if "r \<in> set (other_rows old new rows)" for r
      using other_row_id [OF p(1) s _ that] I other_row_id [OF p(1) _ _ that] by fastforce
    then show ?thesis unfolding kept_def other_rows_def
      by (simp add: conj_commute) (rule filter_cong, simp_all, blast)
  qed
  moreover have "other_rows old new (kept @ [policy_row_of w]) = other_rows old new kept"
    using w by (simp add: other_rows_def policy_row_of_def)
  ultimately show ?thesis using p' o p(2) by (simp add: loop_ok_def)
qed


definition survivor :: "time \<Rightarrow> string \<Rightarrow> string \<Rightarrow> policies \<Rightarrow> policy \<Rightarrow> policy" where
  "survivor now old new m s =
     (let src = retargeted now old new s in
      case m (pol_id src) of None \<Rightarrow> src
      | Some t \<Rightarrow> if pol_priority t < pol_priority src then src else t)"

definition absorb :: "time \<Rightarrow> string \<Rightarrow> string \<Rightarrow> policies \<Rightarrow> policy \<Rightarrow> policies" where
  "absorb now old new m s = (let w = survivor now old new m s in m(pol_id w \<mapsto> w))"

lemma loop_entry: "loop_ok old new todo m rows \<Longrightarrow> m i = Some p \<Longrightarrow>
   pol_id p = i \<and> pol_type p = PolicyTypeDevice \<and> pol_target p = new"
  by (auto simp: loop_ok_def docs_for_def)

lemma survivor_facts:
  assumes "loop_ok old new (s # todo) m rows"
  shows "pol_type (survivor now old new m s) = PolicyTypeDevice"
    "pol_target (survivor now old new m s) = new"
    "pol_id (survivor now old new m s) = retarget_temporary (pol_id s) old new"
proof -
  have s: "pol_type s = PolicyTypeDevice" using assms by (force simp: loop_ok_def docs_for_def)
  show "pol_type (survivor now old new m s) = PolicyTypeDevice"
    "pol_target (survivor now old new m s) = new"
    "pol_id (survivor now old new m s) = retarget_temporary (pol_id s) old new"
    using s loop_entry [OF assms]
    by (auto simp: survivor_def retargeted_def Let_def split: option.split)
qed

text \<open>The statements of one step: delete some rows, insert the survivor.\<close>

lemma swap_succeeds:
  assumes "then_io (exec del) (then_io (save_policy_tx w) (return_io x)) out (n, db) = (Inr y, n', db')"
    and "del db = Inr (db\<lparr>tbl_policies := kept\<rparr>)"
  shows "y = x \<and> db' = db\<lparr>tbl_policies := kept @ [policy_row_of w]\<rparr> \<and> (\<forall>r \<in> set kept. row_id r \<noteq> pol_id w)"
proof -
  from assms(1) obtain u s where e: "exec del out (n, db) = (Inr u, s)"
    and r: "then_io (save_policy_tx w) (return_io x) out s = (Inr y, n', db')"
    by (rule then_succeeds)
  from e assms(2) have "s = (Suc n, db\<lparr>tbl_policies := kept\<rparr>)" by (simp add: exec_succeeds)
  with r obtain db1 where "insert_policy w (db\<lparr>tbl_policies := kept\<rparr>) = Inr db1" "y = x" "db' = db1"
    by (auto elim!: then_succeeds simp: exec_succeeds save_policy_tx_def return_io_def)
  then show ?thesis
    by (auto simp: insert_policy_def insert_row_def policy_row_of_def split: if_splits)
qed

lemma migrate_policy_step:
  assumes step: "migrate_policy now old new s (m, cs) out (n, db) = (Inr (m', cs'), n', db')"
    and ok: "loop_ok old new (s # todo) m (tbl_policies db)" and on: "old \<noteq> new"
  shows "\<exists>rows. db' = db\<lparr>tbl_policies := rows\<rparr> \<and> m' = absorb now old new m s \<and>
    loop_ok old new todo m' rows \<and> other_rows old new rows = other_rows old new (tbl_policies db)"
proof -
  define w where "w = survivor now old new m s"
  define src where "src = retargeted now old new s"
  define kept where "kept = filter (\<lambda>r. row_id r \<notin> insert (pol_id s)
    (if m (pol_id w) = None then {} else {pol_id w})) (tbl_policies db)"
  note wf = survivor_facts [OF ok, of now, folded w_def]
  have id: "pol_id src = pol_id w" by (simp add: wf src_def retargeted_def)
  have m': "absorb now old new m s = m(pol_id w \<mapsto> w)" by (simp add: absorb_def w_def Let_def)
  have "db' = db\<lparr>tbl_policies := kept @ [policy_row_of w]\<rparr> \<and> m' = m(pol_id w \<mapsto> w) \<and>
      (\<forall>r \<in> set kept. row_id r \<noteq> pol_id w)"
  proof (cases "m (pol_id src)")
    case None
    then have w: "w = src" by (simp add: w_def src_def survivor_def)
    have d: "delete_policy_row (pol_id s) db = Inr (db\<lparr>tbl_policies := kept\<rparr>)"
      using None by (simp add: kept_def id delete_policy_row_def)
    have "then_io (exec (delete_policy_row (pol_id s))) (then_io (save_policy_tx w)
        (return_io (m(pol_id w \<mapsto> w), cs))) out (n, db) = (Inr (m', cs'), n', db')"
      using step None unfolding w by (simp add: migrate_policy_def flip: src_def)
    from swap_succeeds [OF this d] show ?thesis by simp
  next
    case (Some t)
    then have t: "pol_id t = pol_id w" using loop_entry [OF ok] id by simp
    have w: "w = (if pol_priority t < pol_priority src then src else t)"
      using Some by (simp add: w_def survivor_def flip: src_def)
    have d: "delete_policies (pol_id s) (pol_id t) db = Inr (db\<lparr>tbl_policies := kept\<rparr>)"
      using Some by (simp add: kept_def id t delete_policies_def)
    obtain c where "then_io (exec (delete_policies (pol_id s) (pol_id t))) (then_io (save_policy_tx w)
        (return_io (m(pol_id w \<mapsto> w), cs @ [c]))) out (n, db) = (Inr (m', cs'), n', db')"
      using step Some unfolding w
      by (cases "pol_priority t < pol_priority src") (simp_all add: migrate_policy_def flip: src_def)
    from swap_succeeds [OF this d] show ?thesis by simp
  qed
  moreover have "loop_ok old new todo (m(pol_id w \<mapsto> w)) (kept @ [policy_row_of w]) \<and>
      other_rows old new (kept @ [policy_row_of w]) = other_rows old new (tbl_policies db)"
    if "\<forall>r \<in> set kept. row_id r \<noteq> pol_id w"
    using replace_rows [OF ok on wf(1,2)] that by (simp only: kept_def)
  ultimately show ?thesis by (auto simp: m')
qed

lemma migrate_policy_loop:
  assumes "for_each (migrate_policy now old new) todo (m, cs) out (n, db) = (Inr (m', cs'), n', db')"
    and "loop_ok old new todo m (tbl_policies db)" and on: "old \<noteq> new"
  shows "\<exists>rows. db' = db\<lparr>tbl_policies := rows\<rparr> \<and> m' = foldl (absorb now old new) m todo \<and>
    loop_ok old new [] m' rows \<and> other_rows old new rows = other_rows old new (tbl_policies db)"
  using assms(1,2)
proof (induction todo arbitrary: m cs n db)
  case Nil
  then show ?case by (auto simp: return_io_def intro!: exI [of _ "tbl_policies db"])
next
  case (Cons s todo)
  from Cons.prems(1) obtain m1 cs1 n1 db1 where
    s: "migrate_policy now old new s (m, cs) out (n, db) = (Inr (m1, cs1), n1, db1)"
    and l: "for_each (migrate_policy now old new) todo (m1, cs1) out (n1, db1) = (Inr (m', cs'), n', db')"
    by (auto elim!: bind_succeeds)
  from migrate_policy_step [OF s Cons.prems(2) on] Cons.IH [OF l] show ?case by auto
qed


subsection \<open>The start of the loop\<close>

text \<open>The policy a well-formed row stores.\<close>

definition doc_of :: "policy_row \<Rightarrow> policy" where
  "doc_of r = the (decode (row_data r))"

lemma consistent_doc: "row_consistent r \<Longrightarrow> row_data r = Document (doc_of r) \<and> pol_id (doc_of r) = row_id r \<and>
   pol_type (doc_of r) = row_type r \<and> pol_target (doc_of r) = row_target r"
  by (cases "row_data r") (auto simp: row_consistent_def doc_of_def)

lemma those_docs: "\<forall>r \<in> set rows. row_consistent r \<Longrightarrow>
   those (map decode (map row_data rows)) = Some (map doc_of rows)"
  by (induction rows) (auto dest!: consistent_doc)

lemma docs_for_alt: "policies_ok rows \<Longrightarrow> docs_for x rows =
   doc_of ` set (filter (\<lambda>r. row_type r = PolicyTypeDevice \<and> row_target r = x) rows)"
  by (fastforce simp: docs_for_def policies_ok_def image_iff dest!: consistent_doc
      dest: bspec [where P = row_consistent])

definition sources_of :: "string \<Rightarrow> string \<Rightarrow> database \<Rightarrow> policy list" where
  "sources_of old new db = map doc_of (filter (\<lambda>r. row_type r = PolicyTypeDevice \<and> row_target r = old) (tbl_policies db))"

definition targets_of :: "string \<Rightarrow> string \<Rightarrow> database \<Rightarrow> policies" where
  "targets_of old new db = foldl (\<lambda>m p. m(pol_id p \<mapsto> p)) Map.empty
     (map doc_of (filter (\<lambda>r. row_type r = PolicyTypeDevice \<and> row_target r = new) (tbl_policies db)))"

lemma foldl_by_id: "distinct (map pol_id ps) \<Longrightarrow>
   foldl (\<lambda>m p. m(pol_id p \<mapsto> p)) Map.empty ps i = Some p \<longleftrightarrow> p \<in> set ps \<and> pol_id p = i"
  by (induction ps arbitrary: i p rule: rev_induct) (auto simp: image_iff)

lemma distinct_doc_ids: "policies_ok rows \<Longrightarrow> distinct (map pol_id (map doc_of (filter P rows)))"
proof -
  assume ok: "policies_ok rows"
  then have "map pol_id (map doc_of (filter P rows)) = map row_id (filter P rows)"
    by (auto simp: policies_ok_def consistent_doc)
  then show ?thesis using ok by (simp add: policies_ok_def distinct_map_filter del: map_map)
qed

lemma loop_start:
  assumes "policies_ok (tbl_policies db)"
  shows "loop_ok old new (sources_of old new db) (targets_of old new db) (tbl_policies db)"
  using assms
  by (auto simp: loop_ok_def sources_of_def targets_of_def docs_for_alt distinct_doc_ids foldl_by_id
      simp del: map_map)

lemma partition_docs:
  assumes "policies_ok (tbl_policies db)" "old \<noteq> new"
  shows "those (map decode (device_documents old new db)) =
      Some (map doc_of (filter (\<lambda>r. row_type r = PolicyTypeDevice \<and> (row_target r = old \<or> row_target r = new)) (tbl_policies db)))"
    and "filter (\<lambda>p. pol_target p = old) (map doc_of (filter (\<lambda>r. row_type r = PolicyTypeDevice \<and>
      (row_target r = old \<or> row_target r = new)) (tbl_policies db))) = sources_of old new db"
    and "foldl (\<lambda>m p. m(pol_id p \<mapsto> p)) Map.empty (filter (\<lambda>p. pol_target p \<noteq> old)
      (map doc_of (filter (\<lambda>r. row_type r = PolicyTypeDevice \<and>
        (row_target r = old \<or> row_target r = new)) (tbl_policies db)))) = targets_of old new db"
proof -
  have c: "r \<in> set (tbl_policies db) \<Longrightarrow> pol_target (doc_of r) = row_target r" for r
    using assms(1) consistent_doc by (auto simp: policies_ok_def)
  show "those (map decode (device_documents old new db)) =
      Some (map doc_of (filter (\<lambda>r. row_type r = PolicyTypeDevice \<and> (row_target r = old \<or> row_target r = new)) (tbl_policies db)))"
    unfolding device_documents_def by (rule those_docs) (use assms in \<open>auto simp: policies_ok_def\<close>)
  show "filter (\<lambda>p. pol_target p = old) (map doc_of (filter (\<lambda>r. row_type r = PolicyTypeDevice \<and>
      (row_target r = old \<or> row_target r = new)) (tbl_policies db))) = sources_of old new db"
    unfolding sources_of_def filter_map o_def filter_filter
    by (rule arg_cong [where f = "map doc_of"], rule filter_cong) (auto simp: c)
  show "foldl (\<lambda>m p. m(pol_id p \<mapsto> p)) Map.empty (filter (\<lambda>p. pol_target p \<noteq> old)
      (map doc_of (filter (\<lambda>r. row_type r = PolicyTypeDevice \<and>
        (row_target r = old \<or> row_target r = new)) (tbl_policies db)))) = targets_of old new db"
    unfolding targets_of_def filter_map o_def filter_filter
    by (rule arg_cong [where f = "\<lambda>x. foldl _ _ (map doc_of x)"], rule filter_cong)
      (use assms(2) in \<open>auto simp: c\<close>)
qed


subsection \<open>The effect of a successful migration\<close>

lemma policies_tx_succeeds:
  assumes "migrate_policies_tx now ks old new out (n, db) = (Inr cs, n', db')"
    and ok: "policies_ok (tbl_policies db)" and on: "old \<noteq> new"
  shows "\<exists>rows. db' = db\<lparr>tbl_policies := rows\<rparr> \<and>
    loop_ok old new [] (foldl (absorb now old new) (targets_of old new db) (sources_of old new db)) rows \<and>
    other_rows old new rows = other_rows old new (tbl_policies db)"
proof -
  note p = partition_docs [OF ok on]
  from assms(1) obtain m cs' k db1 where
    l: "for_each (migrate_policy now old new) (sources_of old new db) (targets_of old new db, []) out (k, db)
      = (Inr (m, cs'), n', db1)" and d: "db' = db1"
    by (auto simp: migrate_policies_tx_def query_succeeds p Let_def return_io_def elim!: bind_succeeds)
  from migrate_policy_loop [OF l loop_start [OF ok] on] show ?thesis unfolding d by blast
qed

definition moved_metadata :: "string \<Rightarrow> string \<Rightarrow> database \<Rightarrow> database" where
  "moved_metadata old new db = db\<lparr>
     tbl_device_tags := filter (\<lambda>r. dt_pdid r \<noteq> old) (foldl insert_or_ignore (tbl_device_tags db)
       (map (\<lambda>r. r\<lparr>dt_pdid := new\<rparr>) (filter (\<lambda>r. dt_pdid r = old) (tbl_device_tags db)))),
     tbl_overrides := AList.delete old (adopt old new (tbl_overrides db)),
     tbl_device_users := AList.delete old (adopt old new (tbl_device_users db))\<rparr>"

lemmas metadata_statements = copy_device_tags_def delete_device_tags_def adopt_override_def
  delete_override_def adopt_user_def delete_device_user_def

lemma metadata_succeeds:
  "move_metadata old new out (n, db) = (Inr u, n', db') \<Longrightarrow> db' = moved_metadata old new db"
  by (auto simp: move_metadata_def exec_succeeds metadata_statements moved_metadata_def elim!: then_succeeds)

lemma conflicts_loop:
  "for_each (\<lambda>c _. exec (record_conflict now old new c)) cs u out (n, db) = (Inr v, n', db') \<Longrightarrow>
   db' = db\<lparr>tbl_conflicts := tbl_conflicts db @
     map (\<lambda>c. \<lparr>cr_old = old, cr_new = new, cr_conflict = c, cr_at = now\<rparr>) cs\<rparr>"
proof (induction cs arbitrary: u n db)
  case (Cons c cs)
  from Cons.prems obtain k db1 where r: "record_conflict now old new c db = Inr db1"
    and l: "for_each (\<lambda>c _. exec (record_conflict now old new c)) cs () out (k, db1) = (Inr v, n', db')"
    by (auto elim!: bind_succeeds simp: exec_succeeds)
  from Cons.IH [OF l] r show ?case by (auto simp: record_conflict_def)
qed (simp add: return_io_def)

definition recorded :: "time \<Rightarrow> string \<Rightarrow> string \<Rightarrow> migration_conflict list \<Rightarrow> database \<Rightarrow> database" where
  "recorded now old new cs db = db\<lparr>
     tbl_flows := map (\<lambda>f. if fl_pdid f = old then f\<lparr>fl_pdid := new\<rparr> else f) (tbl_flows db),
     tbl_redirects := (\<lambda>p. map_option (\<lambda>q. if q = old then new else q) (tbl_redirects db p))(old \<mapsto> new),
     tbl_migrations := (tbl_migrations db)(old \<mapsto> (new, now)),
     tbl_conflicts := tbl_conflicts db @
       map (\<lambda>c. \<lparr>cr_old = old, cr_new = new, cr_conflict = c, cr_at = now\<rparr>) cs\<rparr>"

lemmas history_statements = move_flows_def compress_redirects_def upsert_redirect_def record_migration_def

lemma recorded_Nil:
  "recorded now old new [] db = db\<lparr>
     tbl_flows := map (\<lambda>f. if fl_pdid f = old then f\<lparr>fl_pdid := new\<rparr> else f) (tbl_flows db),
     tbl_redirects := (\<lambda>p. map_option (\<lambda>q. if q = old then new else q) (tbl_redirects db p))(old \<mapsto> new),
     tbl_migrations := (tbl_migrations db)(old \<mapsto> (new, now))\<rparr>"
  by (cases db) (simp add: recorded_def)

lemma history_succeeds:
  assumes "record_history now old new cs out (n, db) = (Inr u, n', db')"
  shows "db' = recorded now old new cs db"
proof -
  from assms obtain k db1 where
    l: "for_each (\<lambda>c _. exec (record_conflict now old new c)) cs () out (k, db1) = (Inr u, n', db')"
    and d: "db1 = recorded now old new [] db"
    by (auto simp: record_history_def exec_succeeds history_statements recorded_Nil
        elim!: then_succeeds split: if_splits)
  from conflicts_loop [OF l] show ?thesis unfolding d by (simp add: recorded_def)
qed

text \<open>What the final queries report; the two single-row queries drop a driver error.\<close>

definition reports :: "outage \<Rightarrow> migration_result \<Rightarrow> database \<Rightarrow> migration_result \<Rightarrow> bool" where
  "reports out res0 db res \<longleftrightarrow>
     mr_old res = mr_old res0 \<and> mr_new res = mr_new res0 \<and> mr_replayed res = mr_replayed res0 \<and>
     mr_tags res = sort (map dt_tag (filter (\<lambda>r. dt_pdid r = mr_new res0) (tbl_device_tags db))) \<and>
     (mr_name res = (case map_of (tbl_overrides db) (mr_new res0) of Some s \<Rightarrow> s | None \<Rightarrow> mr_name res0) \<or>
       out \<noteq> healthy \<and> mr_name res = mr_name res0) \<and>
     (mr_user res = (case map_of (tbl_device_users db) (mr_new res0) of Some s \<Rightarrow> s | None \<Rightarrow> mr_user res0) \<or>
       out \<noteq> healthy \<and> mr_user res = mr_user res0) \<and>
     those (map decode (map row_data (filter (\<lambda>r. row_type r = PolicyTypeDevice \<and>
       row_target r = mr_new res0) (tbl_policies db)))) \<noteq> None \<and>
     mr_policies res = by_precedence (the (those (map decode (map row_data (filter (\<lambda>r. row_type r = PolicyTypeDevice \<and>
       row_target r = mr_new res0) (tbl_policies db)))))) \<and>
     mr_conflicts res = (if mr_replayed res0 then map cr_conflict (filter (\<lambda>c. cr_old c = mr_old res0 \<and>
       cr_new c = mr_new res0) (tbl_conflicts db)) else mr_conflicts res0)"

lemma attempt_query_succeeds:
  "attempt d (query sel) out (n, db) = (Inr x, s') \<longleftrightarrow> x = (if out n then d else sel db) \<and> s' = (Suc n, db)"
  by (auto simp: attempt_def query_def)

lemma load_succeeds:
  assumes "load_migration_state res0 out (n, db) = (Inr res, n', db')"
  shows "db' = db \<and> reports out res0 db res"
proof -
  let ?docs = "map row_data (filter (\<lambda>r. row_type r = PolicyTypeDevice \<and> row_target r = mr_new res0) (tbl_policies db))"
  define load where "load tags name user k = (case those (map decode ?docs) of None \<Rightarrow> fail_io UndecodablePolicy
       | Some ps \<Rightarrow>
           (let res1 = res0\<lparr>mr_tags := tags, mr_name := (case name of Some s \<Rightarrow> s | None \<Rightarrow> mr_name res0),
                  mr_user := (case user of Some u \<Rightarrow> u | None \<Rightarrow> mr_user res0),
                  mr_policies := by_precedence ps\<rparr>
            in if mr_replayed res1
               then bind_io (query (\<lambda>db. map cr_conflict (filter (\<lambda>c. cr_old c = mr_old res0 \<and>
                        cr_new c = mr_new res0) (tbl_conflicts db))))
                      (\<lambda>cs. return_io (res1\<lparr>mr_conflicts := cs\<rparr>))
               else return_io res1)) out (k, db)" for tags name user k
  let ?tags = "sort (map dt_tag (filter (\<lambda>r. dt_pdid r = mr_new res0) (tbl_device_tags db)))"
  obtain name user k i j where l: "load ?tags name user k = (Inr res, n', db')"
    and nu: "name = (if out i then None else map_of (tbl_overrides db) (mr_new res0))"
      "user = (if out j then None else map_of (tbl_device_users db) (mr_new res0))"
    using assms unfolding load_migration_state_def load_def
    by (elim bind_succeeds) (simp add: query_succeeds attempt_query_succeeds)
  from nu have name: "out \<noteq> healthy \<and> name = None \<or> name = map_of (tbl_overrides db) (mr_new res0)"
    and user: "out \<noteq> healthy \<and> user = None \<or> user = map_of (tbl_device_users db) (mr_new res0)"
    using healthy_not by (auto split: if_splits)
  from l obtain ps where ps: "those (map decode ?docs) = Some ps"
    by (auto simp: load_def fail_io_def split: option.splits)
  show ?thesis
  proof (cases "mr_replayed res0")
    case True
    with l ps obtain cs where "db' = db" "cs = map cr_conflict (filter (\<lambda>c. cr_old c = mr_old res0 \<and>
        cr_new c = mr_new res0) (tbl_conflicts db))"
      "res = res0\<lparr>mr_tags := ?tags, mr_name := (case name of Some s \<Rightarrow> s | None \<Rightarrow> mr_name res0),
         mr_user := (case user of Some u \<Rightarrow> u | None \<Rightarrow> mr_user res0), mr_policies := by_precedence ps,
         mr_conflicts := cs\<rparr>"
      by (auto simp: load_def query_succeeds return_io_def elim!: bind_succeeds)
    with name user ps True show ?thesis by (auto simp: reports_def)
  next
    case False
    with l ps have "db' = db"
      "res = res0\<lparr>mr_tags := ?tags, mr_name := (case name of Some s \<Rightarrow> s | None \<Rightarrow> mr_name res0),
         mr_user := (case user of Some u \<Rightarrow> u | None \<Rightarrow> mr_user res0), mr_policies := by_precedence ps\<rparr>"
      by (auto simp: load_def return_io_def)
    with name user ps False show ?thesis by (auto simp: reports_def)
  qed
qed


definition migrated_policies :: "time \<Rightarrow> string \<Rightarrow> string \<Rightarrow> database \<Rightarrow> policies" where
  "migrated_policies now old new db =
     foldl (absorb now old new) (targets_of old new db) (sources_of old new db)"

lemma tables_moved [simp]: "tbl_policies (moved_metadata old new db) = tbl_policies db"
  "sources_of old new (moved_metadata old new db) = sources_of old new db"
  "targets_of old new (moved_metadata old new db) = targets_of old new db"
  by (simp_all add: moved_metadata_def sources_of_def targets_of_def)

text \<open>The shape of every successful call: a replay changes nothing, a first call moves everything.\<close>

lemma migrate_succeeds:
  assumes run: "migrate_identity_state now ks old new out (n, db) = (Inr res, n', db')"
    and ok: "storage_ok db"
  shows "old \<noteq> [] \<and> new \<noteq> [] \<and> old \<noteq> new \<and>
    (case tbl_migrations db old of
       Some (t, _) \<Rightarrow> t = new \<and> db' = db \<and> reports out (empty_result old new\<lparr>mr_replayed := True\<rparr>) db res
     | None \<Rightarrow> \<exists>rows cs. db' = recorded now old new cs ((moved_metadata old new db)\<lparr>tbl_policies := rows\<rparr>) \<and>
         loop_ok old new [] (migrated_policies now old new db) rows \<and>
         other_rows old new rows = other_rows old new (tbl_policies db) \<and>
         reports out (empty_result old new\<lparr>mr_conflicts := cs\<rparr>) db' res)"
proof -
  have args: "old \<noteq> [] \<and> new \<noteq> [] \<and> old \<noteq> new"
    using run by (auto simp: migrate_identity_state_def fail_io_def split: if_splits)
  have pol: "policies_ok (tbl_policies (moved_metadata old new db))" using ok by (simp add: storage_ok_def)
  from run args obtain k where r: "bind_io (query (\<lambda>db. tbl_migrations db old)) (\<lambda>recorded.
        case recorded of
          Some (target, _) \<Rightarrow>
            if target \<noteq> new then fail_io TargetConflict
            else load_migration_state (empty_result old new\<lparr>mr_replayed := True\<rparr>)
        | None \<Rightarrow> then_io (move_metadata old new)
            (bind_io (migrate_policies_tx now ks old new) (\<lambda>conflicts.
             then_io (record_history now old new conflicts)
              (load_migration_state (empty_result old new\<lparr>mr_conflicts := conflicts\<rparr>)))))
      out (Suc n, db) = (Inr res, k, db')"
    by (auto simp: migrate_identity_state_def dest: transaction_succeeds)
  show ?thesis
  proof (cases "tbl_migrations db old")
    case None
    with r obtain cs n1 db1 n2 db2 n3 db3 where
      m: "move_metadata old new out (Suc (Suc n), db) = (Inr (), n1, db1)"
      and p: "migrate_policies_tx now ks old new out (n1, db1) = (Inr cs, n2, db2)"
      and h1: "record_history now old new cs out (n2, db2) = (Inr (), n3, db3)"
      and l: "load_migration_state (empty_result old new\<lparr>mr_conflicts := cs\<rparr>) out (n3, db3) = (Inr res, k, db')"
      by (auto simp: query_succeeds elim!: bind_succeeds then_succeeds)
    note p' = p [unfolded metadata_succeeds [OF m]]
    from policies_tx_succeeds [OF p' pol] args obtain rows where
      "db2 = (moved_metadata old new db)\<lparr>tbl_policies := rows\<rparr>"
      "loop_ok old new [] (migrated_policies now old new db) rows"
      "other_rows old new rows = other_rows old new (tbl_policies db)"
      by (auto simp: migrated_policies_def)
    with history_succeeds [OF h1] load_succeeds [OF l] None args show ?thesis by auto
  next
    case (Some tt)
    obtain t t0 where tt: "tt = (t, t0)" by fastforce
    have "t = new" using r Some tt
      by (auto simp: query_succeeds fail_io_def elim!: bind_succeeds split: if_splits)
    with r Some tt have "load_migration_state (empty_result old new\<lparr>mr_replayed := True\<rparr>) out (Suc (Suc n), db)
        = (Inr res, k, db')"
      by (auto simp: query_succeeds elim!: bind_succeeds)
    from load_succeeds [OF this] Some tt args \<open>t = new\<close> show ?thesis by simp
  qed
qed

end
