(* ===== verification/Migration_Props.thy ===== *)
theory Migration_Props
  imports Identity_Migration
begin

text \<open>
  What an identity migration promises: nothing keeps naming the obsolete identity, explicit metadata of
  the surviving one wins, no policy is lost to a weaker one, late writes follow the redirects, replays
  change nothing, the call succeeds unless an id is taken, and the policies and tags in memory are
  those in the database afterwards.
\<close>

subsection \<open>The surviving policies\<close>

lemma absorb_facts:
  assumes "\<And>i p. m i = Some p \<Longrightarrow> pol_id p = i"
  shows "absorb now old new m s i =
    (if i = retarget_temporary (pol_id s) old new then Some (survivor now old new m s) else m i)"
    "pol_id (survivor now old new m s) = retarget_temporary (pol_id s) old new"
proof -
  show "pol_id (survivor now old new m s) = retarget_temporary (pol_id s) old new"
    using assms by (auto simp: survivor_def retargeted_def Let_def split: option.split)
  then show "absorb now old new m s i =
    (if i = retarget_temporary (pol_id s) old new then Some (survivor now old new m s) else m i)"
    by (simp add: absorb_def Let_def)
qed

lemma fold_absorb:
  assumes "\<forall>i p. m i = Some p \<longrightarrow> pol_id p = i"
    and "F = foldl (absorb now old new) m ss"
  shows "(\<forall>i p. F i = Some p \<longrightarrow> pol_id p = i) \<and>
    (\<forall>i t. m i = Some t \<longrightarrow> (\<exists>q. F i = Some q \<and> (q = t \<or> pol_priority t < pol_priority q))) \<and>
    (\<forall>s \<in> set ss. \<exists>q. F (retarget_temporary (pol_id s) old new) = Some q \<and> pol_priority s \<le> pol_priority q) \<and>
    (\<forall>i q. F i = Some q \<longrightarrow> m i = Some q \<or> q \<in> retargeted now old new ` set ss)"
  using assms
proof (induction ss arbitrary: m F)
  case (Cons s ss)
  let ?m = "absorb now old new m s" and ?w = "survivor now old new m s" and ?i = "retarget_temporary (pol_id s) old new"
  have "\<And>i p. m i = Some p \<Longrightarrow> pol_id p = i" using Cons.prems(1) by blast
  note a = absorb_facts [OF this, of m now old new s]
  have id: "\<forall>i p. ?m i = Some p \<longrightarrow> pol_id p = i"
    using a Cons.prems(1) by (auto split: if_splits)
  have "F = foldl (absorb now old new) ?m ss" using Cons.prems(2) by simp
  note ih = Cons.IH [OF id this]
  have wprio: "pol_priority s \<le> pol_priority ?w" "?w = retargeted now old new s \<or> m ?i = Some ?w"
    "\<And>t. m ?i = Some t \<Longrightarrow> ?w = t \<or> pol_priority t < pol_priority ?w"
    by (auto simp: survivor_def retargeted_def Let_def split: option.splits)
  show ?case
  proof (intro conjI allI impI ballI)
    show "pol_id p = i" if "F i = Some p" for i p using ih that by blast
    show "\<exists>q. F i = Some q \<and> (q = t \<or> pol_priority t < pol_priority q)" if "m i = Some t" for i t
    proof -
      have "\<exists>t1. ?m i = Some t1 \<and> (t1 = t \<or> pol_priority t < pol_priority t1)"
        using that a(1) wprio(3) by (cases "i = ?i") auto
      then obtain t1 where t1: "?m i = Some t1" "t1 = t \<or> pol_priority t < pol_priority t1" by blast
      moreover from t1(1) obtain q where "F i = Some q" "q = t1 \<or> pol_priority t1 < pol_priority q"
        using ih by blast
      ultimately show ?thesis by auto
    qed
    show "\<exists>q. F (retarget_temporary (pol_id x) old new) = Some q \<and> pol_priority x \<le> pol_priority q"
      if "x \<in> set (s # ss)" for x
    proof (cases "x = s")
      case True
      have "?m ?i = Some ?w" by (simp add: a)
      then obtain q where "F ?i = Some q" "q = ?w \<or> pol_priority ?w < pol_priority q" using ih by blast
      with wprio(1) show ?thesis by (auto simp: True)
    qed (use ih that in auto)
    show "m i = Some q \<or> q \<in> retargeted now old new ` set (s # ss)" if "F i = Some q" for i q
    proof -
      from ih that have "?m i = Some q \<or> q \<in> retargeted now old new ` set ss" by blast
      then show ?thesis using a(1) wprio(2) by (auto split: if_splits)
    qed
  qed
qed auto

lemma sources_docs: "policies_ok (tbl_policies db) \<Longrightarrow> set (sources_of old new db) = docs_for old (tbl_policies db)"
  by (simp add: sources_of_def docs_for_alt)

lemma targets_docs: "policies_ok (tbl_policies db) \<Longrightarrow>
   targets_of old new db i = Some p \<longleftrightarrow> p \<in> docs_for new (tbl_policies db) \<and> pol_id p = i"
  by (simp add: targets_of_def docs_for_alt foldl_by_id distinct_doc_ids del: map_map)

lemma fresh_migration:
  assumes "migrate_identity_state now ks old new out (n, db) = (Inr res, n', db')"
    and "storage_ok db" "\<not> mr_replayed res"
  obtains rows cs where "old \<noteq> []" "new \<noteq> []" "old \<noteq> new" "tbl_migrations db old = None"
    "db' = recorded now old new cs ((moved_metadata old new db)\<lparr>tbl_policies := rows\<rparr>)"
    "loop_ok old new [] (migrated_policies now old new db) rows"
    "other_rows old new rows = other_rows old new (tbl_policies db)"
    "reports out (empty_result old new\<lparr>mr_conflicts := cs\<rparr>) db' res"
proof -
  note s = migrate_succeeds [OF assms(1,2)]
  have "tbl_migrations db old = None"
    using s assms(3) by (cases "tbl_migrations db old") (auto simp: reports_def empty_result_def)
  with s that show thesis by auto
qed

lemma tables_recorded [simp]:
  "tbl_policies (recorded now old new cs db) = tbl_policies db"
  "tbl_device_tags (recorded now old new cs db) = tbl_device_tags db"
  "tbl_overrides (recorded now old new cs db) = tbl_overrides db"
  "tbl_device_users (recorded now old new cs db) = tbl_device_users db"
  by (simp_all add: recorded_def)

text \<open>C14: a migration loses no policy to a weaker one. Every policy of either identity still has, under its
  id (retargeted for temporary ones), a policy of at least its priority for the surviving identity; a
  target policy is only replaced by a strictly stronger one; nothing else appears; policies of other
  devices, of tags and the global ones are untouched, rows and order.\<close>

theorem migration_keeps_strongest:
  assumes "migrate_identity_state now ks old new out (n, db) = (Inr res, n', db')"
    and "storage_ok db" "\<not> mr_replayed res"
  shows "(\<forall>s \<in> docs_for old (tbl_policies db). \<exists>q \<in> docs_for new (tbl_policies db').
        pol_id q = retarget_temporary (pol_id s) old new \<and> pol_priority s \<le> pol_priority q) \<and>
    (\<forall>t \<in> docs_for new (tbl_policies db). \<exists>q \<in> docs_for new (tbl_policies db').
        pol_id q = pol_id t \<and> (q = t \<or> pol_priority t < pol_priority q)) \<and>
    docs_for new (tbl_policies db') \<subseteq> docs_for new (tbl_policies db) \<union>
        retargeted now old new ` docs_for old (tbl_policies db) \<and>
    other_rows old new (tbl_policies db') = other_rows old new (tbl_policies db)"
proof -
  obtain rows cs where m: "db' = recorded now old new cs ((moved_metadata old new db)\<lparr>tbl_policies := rows\<rparr>)"
    "loop_ok old new [] (migrated_policies now old new db) rows"
    "other_rows old new rows = other_rows old new (tbl_policies db)"
    using fresh_migration [OF assms] by metis
  have ok: "policies_ok (tbl_policies db)" using assms(2) by (simp add: storage_ok_def)
  have mem: "migrated_policies now old new db i = Some p \<longleftrightarrow> p \<in> docs_for new rows \<and> pol_id p = i" for i p
    using m(2) unfolding loop_ok_def by blast
  note t = targets_docs [OF ok, of old new]
  have tid: "\<forall>i p. targets_of old new db i = Some p \<longrightarrow> pol_id p = i" by (simp add: t)
  note F = fold_absorb [of "targets_of old new db", OF tid migrated_policies_def [of now old new db],
      unfolded t mem sources_docs [OF ok], THEN conjunct2]
  have f1: "\<exists>q \<in> docs_for new rows. pol_id q = retarget_temporary (pol_id s) old new \<and> pol_priority s \<le> pol_priority q"
    if "s \<in> docs_for old (tbl_policies db)" for s
    using F [THEN conjunct2, THEN conjunct1, rule_format, OF that] by blast
  have f2: "\<exists>q \<in> docs_for new rows. pol_id q = pol_id t \<and> (q = t \<or> pol_priority t < pol_priority q)"
    if "t \<in> docs_for new (tbl_policies db)" for t
    using F [THEN conjunct1, rule_format, OF conjI [OF that refl]] by blast
  have f3: "q \<in> docs_for new (tbl_policies db) \<or> q \<in> retargeted now old new ` docs_for old (tbl_policies db)"
    if "q \<in> docs_for new rows" for q
    using F [THEN conjunct2, THEN conjunct2, rule_format, OF conjI [OF that refl]] by blast
  have r: "tbl_policies db' = rows" using m(1) by simp
  show ?thesis unfolding r m(3) using f1 f2 f3 by (simp add: subset_iff)
qed

subsection \<open>Nothing keeps naming the obsolete identity\<close>

lemma map_of_adopt:
  "map_of (AList.delete old (adopt old new rows)) p =
    (if p = old then None
     else if p = new then (case map_of rows old of None \<Rightarrow> map_of rows new
       | Some s \<Rightarrow> Some (case map_of rows new of Some t \<Rightarrow> if t \<noteq> [] then t else s | None \<Rightarrow> s))
     else map_of rows p)"
  by (auto simp: adopt_def delete_conv' update_conv' split: option.split)

lemma insert_or_ignore_set:
  "(\<exists>r \<in> set (foldl insert_or_ignore rows rs). tag_key r = k) \<longleftrightarrow>
    (\<exists>r \<in> set rows. tag_key r = k) \<or> (\<exists>r \<in> set rs. tag_key r = k)"
proof (induction rs arbitrary: rows)
  case (Cons x rs)
  have "(\<exists>r \<in> set (insert_or_ignore rows x). tag_key r = k) \<longleftrightarrow>
      (\<exists>r \<in> set rows. tag_key r = k) \<or> tag_key x = k"
    by (auto simp: insert_or_ignore_def)
  with Cons.IH show ?case by auto
qed simp

lemma insert_or_ignore_other:
  "filter P (foldl insert_or_ignore rows rs) = filter P rows" if "\<forall>r \<in> set rs. \<not> P r"
  using that by (induction rs arbitrary: rows) (auto simp: insert_or_ignore_def)

text \<open>After a migration no tag, name, user, policy, flow record or redirect names the obsolete identity any
  more, and a flow record written later for it is stored under the surviving one.\<close>

theorem migration_leaves_no_reference:
  assumes "migrate_identity_state now ks old new out (n, db) = (Inr res, n', db')"
    and "storage_ok db" "\<not> mr_replayed res"
  shows "(\<forall>r \<in> set (tbl_device_tags db'). dt_pdid r \<noteq> old) \<and>
    map_of (tbl_overrides db') old = None \<and> map_of (tbl_device_users db') old = None \<and>
    (\<forall>r \<in> set (tbl_policies db'). row_type r = PolicyTypeDevice \<longrightarrow> row_target r \<noteq> old) \<and>
    (\<forall>f \<in> set (tbl_flows db'). fl_pdid f \<noteq> old) \<and> (\<forall>p. tbl_redirects db' p \<noteq> Some old) \<and>
    resolve_pdid db' old = new"
proof -
  obtain rows cs where m: "old \<noteq> new"
    "db' = recorded now old new cs ((moved_metadata old new db)\<lparr>tbl_policies := rows\<rparr>)"
    "loop_ok old new [] (migrated_policies now old new db) rows"
    using fresh_migration [OF assms] by metis
  have "policies_ok rows" "docs_for old rows = {}" using m(3) by (simp_all add: loop_ok_def)
  then have "row_type r = PolicyTypeDevice \<longrightarrow> row_target r \<noteq> old" if "r \<in> set rows" for r
    using that by (auto simp: docs_for_alt)
  with m(1) show ?thesis unfolding m(2)
    by (auto simp: map_of_adopt moved_metadata_def recorded_def resolve_pdid_def)
qed

text \<open>The surviving identity gets the tags of both, and keeps its own name and user when it has them (the
  empty name does not count); otherwise it takes those of the obsolete one. Other devices keep theirs.\<close>

theorem migration_merges_metadata:
  assumes "migrate_identity_state now ks old new out (n, db) = (Inr res, n', db')"
    and "storage_ok db" "\<not> mr_replayed res"
  shows "{dt_tag r |r. r \<in> set (tbl_device_tags db') \<and> dt_pdid r = new} =
      {dt_tag r |r. r \<in> set (tbl_device_tags db) \<and> dt_pdid r \<in> {old, new}} \<and>
    filter (\<lambda>r. dt_pdid r \<notin> {old, new}) (tbl_device_tags db') =
      filter (\<lambda>r. dt_pdid r \<notin> {old, new}) (tbl_device_tags db) \<and>
    (\<forall>(f, g) \<in> {(tbl_overrides db, tbl_overrides db'), (tbl_device_users db, tbl_device_users db')}.
      map_of g new = (case map_of f new of
          None \<Rightarrow> map_of f old
        | Some t \<Rightarrow> if t = [] \<and> map_of f old \<noteq> None then map_of f old else Some t) \<and>
      (\<forall>p. p \<notin> {old, new} \<longrightarrow> map_of g p = map_of f p))"
proof -
  obtain rows cs where m: "old \<noteq> new"
    "db' = recorded now old new cs ((moved_metadata old new db)\<lparr>tbl_policies := rows\<rparr>)"
    using fresh_migration [OF assms] by metis
  let ?new = "map (\<lambda>r. r\<lparr>dt_pdid := new\<rparr>) (filter (\<lambda>r. dt_pdid r = old) (tbl_device_tags db))"
  have t: "tbl_device_tags db' = filter (\<lambda>r. dt_pdid r \<noteq> old) (foldl insert_or_ignore (tbl_device_tags db) ?new)"
    by (simp add: m(2) moved_metadata_def)
  have k: "(\<exists>r \<in> set (tbl_device_tags db'). dt_pdid r = new \<and> dt_tag r = x) \<longleftrightarrow>
      (\<exists>r \<in> set (tbl_device_tags db). dt_pdid r \<in> {old, new} \<and> dt_tag r = x)" for x
    using insert_or_ignore_set [of "tbl_device_tags db" ?new "(new, x)"] m(1)
    by (auto simp: t tag_key_def)
  have "filter (\<lambda>r. dt_pdid r \<notin> {old, new}) (tbl_device_tags db') =
      filter (\<lambda>r. dt_pdid r \<notin> {old, new}) (foldl insert_or_ignore (tbl_device_tags db) ?new)"
    unfolding t by (auto intro: filter_cong)
  also have "\<dots> = filter (\<lambda>r. dt_pdid r \<notin> {old, new}) (tbl_device_tags db)"
    by (rule insert_or_ignore_other) simp
  finally have o: "filter (\<lambda>r. dt_pdid r \<notin> {old, new}) (tbl_device_tags db') =
      filter (\<lambda>r. dt_pdid r \<notin> {old, new}) (tbl_device_tags db)" .
  have n: "map_of (tbl_overrides db') p = map_of (AList.delete old (adopt old new (tbl_overrides db))) p"
    "map_of (tbl_device_users db') p = map_of (AList.delete old (adopt old new (tbl_device_users db))) p" for p
    by (simp_all add: m(2) moved_metadata_def)
  show ?thesis
  proof (intro conjI o)
    show "{dt_tag r |r. r \<in> set (tbl_device_tags db') \<and> dt_pdid r = new} =
      {dt_tag r |r. r \<in> set (tbl_device_tags db) \<and> dt_pdid r \<in> {old, new}}"
      using k by (intro set_eqI) (simp, metis)
  qed (use m(1) in \<open>auto simp: n map_of_adopt split: option.split\<close>)
qed

text \<open>A flow record for any identity \<open>p\<close> is stored, after the migration, where it would have been stored
  before, with the obsolete identity replaced by the surviving one: one redirect always leads to the
  end of a chain of migrations.\<close>

theorem redirects_stay_compressed:
  assumes "migrate_identity_state now ks old new out (n, db) = (Inr res, n', db')"
    and "storage_ok db" "\<not> mr_replayed res"
  shows "resolve_pdid db' p = (if resolve_pdid db p = old then new else resolve_pdid db p)"
proof -
  obtain rows cs where m: "tbl_migrations db old = None"
    "db' = recorded now old new cs ((moved_metadata old new db)\<lparr>tbl_policies := rows\<rparr>)"
    using fresh_migration [OF assms] by metis
  have "tbl_redirects db old = None" using assms(2) m(1) by (auto simp: storage_ok_def history_ok_def)
  then show ?thesis unfolding m(2)
    by (auto simp: resolve_pdid_def recorded_def moved_metadata_def split: option.split)
qed


subsection \<open>Success and replays\<close>

text \<open>No policy of another device, tag or the whole network, and no second source policy, holds an id a
  source policy is renamed to. The ids of temporary policies name their device, so the program never
  creates such a policy itself.\<close>

definition ids_free :: "string \<Rightarrow> string \<Rightarrow> database \<Rightarrow> bool" where
  "ids_free old new db \<longleftrightarrow> (\<forall>s \<in> set (sources_of old new db).
     (\<forall>r \<in> set (other_rows old new (tbl_policies db)). row_id r \<noteq> retarget_temporary (pol_id s) old new) \<and>
     (\<forall>s' \<in> set (sources_of old new db). pol_id s' = retarget_temporary (pol_id s) old new \<longrightarrow> s' = s))"

lemma swap_healthy:
  assumes "del db = Inr (db\<lparr>tbl_policies := kept\<rparr>)" "\<forall>r \<in> set kept. row_id r \<noteq> pol_id w"
  shows "\<exists>k. then_io (exec del) (then_io (save_policy_tx w) (return_io x)) healthy (n, db) =
    (Inr x, k, db\<lparr>tbl_policies := kept @ [policy_row_of w]\<rparr>)"
  using assms by (auto simp: then_io_def bind_io_def exec_healthy save_policy_tx_def insert_policy_def
      insert_row_def return_io_def policy_row_of_def)

lemma kept_free:
  assumes ok: "loop_ok old new (s # todo) m rows" and on: "old \<noteq> new"
    and other: "\<forall>r \<in> set (other_rows old new rows). row_id r \<noteq> i"
    and todo: "\<forall>s' \<in> set todo. pol_id s' \<noteq> i"
    and r: "r \<in> set rows" "row_id r \<noteq> pol_id s" "m i = None"
  shows "row_id r \<noteq> i"
proof
  assume i: "row_id r = i"
  have p: "policies_ok rows" and d: "docs_for old rows = set (s # todo)"
    and b: "\<And>i p. m i = Some p \<longleftrightarrow> p \<in> docs_for new rows \<and> pol_id p = i"
    using ok unfolding loop_ok_def by blast+
  have c: "row_consistent r" using p r(1) by (auto simp: policies_ok_def)
  note cd = consistent_doc [OF c]
  have dev: "row_type r = PolicyTypeDevice \<and> (row_target r = old \<or> row_target r = new)"
    using other i r(1) by (auto simp: other_rows_def)
  have "doc_of r \<in> docs_for (row_target r) rows" using dev cd r(1) by (auto simp: docs_for_def)
  then show False using dev d b [of i "doc_of r"] r i todo cd by auto
qed

lemma migrate_policy_healthy:
  assumes ok: "loop_ok old new (s # todo) m (tbl_policies db)" and on: "old \<noteq> new"
    and other: "\<forall>r \<in> set (other_rows old new (tbl_policies db)). row_id r \<noteq> retarget_temporary (pol_id s) old new"
    and todo: "\<forall>s' \<in> set todo. pol_id s' \<noteq> retarget_temporary (pol_id s) old new"
  shows "\<exists>x k db'. migrate_policy now old new s (m, cs) healthy (n, db) = (Inr x, k, db')"
proof -
  define src where "src = retargeted now old new s"
  have id: "pol_id src = retarget_temporary (pol_id s) old new" by (simp add: src_def retargeted_def)
  show ?thesis
  proof (cases "m (pol_id src)")
    case None
    let ?kept = "filter (\<lambda>r. row_id r \<noteq> pol_id s) (tbl_policies db)"
    have "\<forall>r \<in> set ?kept. row_id r \<noteq> pol_id src"
      using kept_free [OF ok on] other todo None by (auto simp: id)
    with None show ?thesis
      using swap_healthy [of "delete_policy_row (pol_id s)" db ?kept src "(m(pol_id src \<mapsto> src), cs)" n]
      by (auto simp: migrate_policy_def Let_def delete_policy_row_def simp flip: src_def)
  next
    case (Some t)
    define w where "w = (if pol_priority t < pol_priority src then src else t)"
    let ?kept = "filter (\<lambda>r. row_id r \<noteq> pol_id s \<and> row_id r \<noteq> pol_id t) (tbl_policies db)"
    have t: "pol_id t = pol_id src" using loop_entry [OF ok Some] by simp
    then have f: "\<forall>r \<in> set ?kept. row_id r \<noteq> pol_id w" by (auto simp: w_def)
    have d: "delete_policies (pol_id s) (pol_id t) db = Inr (db\<lparr>tbl_policies := ?kept\<rparr>)"
      by (simp add: delete_policies_def)
    obtain x where "migrate_policy now old new s (m, cs) =
        then_io (exec (delete_policies (pol_id s) (pol_id t))) (then_io (save_policy_tx w) (return_io x))"
      using Some by (cases "pol_priority t < pol_priority src")
        (simp_all add: migrate_policy_def Let_def w_def flip: src_def)
    then show ?thesis using swap_healthy [of "delete_policies (pol_id s) (pol_id t)", OF d f, of x n] by auto
  qed
qed

lemma migrate_loop_healthy:
  assumes "loop_ok old new todo m (tbl_policies db)" and on: "old \<noteq> new"
    and "\<forall>s \<in> set todo. \<forall>r \<in> set (other_rows old new (tbl_policies db)). row_id r \<noteq> retarget_temporary (pol_id s) old new"
    and "\<forall>s \<in> set todo. \<forall>s' \<in> set todo. pol_id s' = retarget_temporary (pol_id s) old new \<longrightarrow> s' = s"
  shows "\<exists>x k db'. for_each (migrate_policy now old new) todo (m, cs) healthy (n, db) = (Inr x, k, db')"
  using assms(1,3,4)
proof (induction todo arbitrary: m cs n db)
  case (Cons s todo)
  have "s \<notin> set todo" using Cons.prems(1) by (auto simp: loop_ok_def)
  then have todo: "\<forall>s' \<in> set todo. pol_id s' \<noteq> retarget_temporary (pol_id s) old new"
    using Cons.prems(3) by auto
  have other: "\<forall>r \<in> set (other_rows old new (tbl_policies db)). row_id r \<noteq> retarget_temporary (pol_id s) old new"
    using Cons.prems(2) by simp
  obtain m1 cs1 k db1 where s: "migrate_policy now old new s (m, cs) healthy (n, db) = (Inr (m1, cs1), k, db1)"
    using migrate_policy_healthy [OF Cons.prems(1) on other todo] by (metis prod.collapse)
  from migrate_policy_step [OF s Cons.prems(1) on]
  have "loop_ok old new todo m1 (tbl_policies db1)"
    "other_rows old new (tbl_policies db1) = other_rows old new (tbl_policies db)" by auto
  then have "\<exists>x k' db'. for_each (migrate_policy now old new) todo (m1, cs1) healthy (k, db1) = (Inr x, k', db')"
    using Cons.prems(2,3) by (intro Cons.IH) auto
  then show ?case using s by (simp add: bind_io_def)
qed (auto simp: return_io_def)


lemma policies_tx_healthy:
  assumes ok: "policies_ok (tbl_policies db)" and on: "old \<noteq> new" and free: "ids_free old new db"
  shows "\<exists>cs k db'. migrate_policies_tx now ks old new healthy (n, db) = (Inr cs, k, db')"
proof -
  obtain m cs k db' where
    "for_each (migrate_policy now old new) (sources_of old new db) (targets_of old new db, []) healthy (Suc n, db)
      = (Inr (m, cs), k, db')"
    using migrate_loop_healthy [OF loop_start [OF ok] on, where now = now and cs = "[]" and n = "Suc n"] free
    unfolding ids_free_def by (metis prod.collapse)
  then show ?thesis
    by (simp add: migrate_policies_tx_def bind_io_def query_healthy partition_docs [OF ok on] return_io_def)
qed

lemma metadata_healthy: "\<exists>k. move_metadata old new healthy (n, db) = (Inr (), k, moved_metadata old new db)"
  by (simp add: move_metadata_def then_io_def bind_io_def exec_healthy metadata_statements moved_metadata_def)

lemma conflicts_healthy:
  "\<exists>k db'. for_each (\<lambda>c _. exec (record_conflict now old new c)) cs () healthy (n, db) = (Inr (), k, db')"
  by (induction cs arbitrary: n db) (auto simp: return_io_def bind_io_def exec_healthy record_conflict_def)

lemma history_healthy:
  assumes "tbl_migrations db old = None"
  shows "\<exists>k db'. record_history now old new cs healthy (n, db) = (Inr (), k, db')"
  using assms conflicts_healthy
  by (simp add: record_history_def then_io_def bind_io_def exec_healthy history_statements)

lemma load_healthy:
  assumes "policies_ok (tbl_policies db)"
  shows "\<exists>res k. load_migration_state res0 healthy (n, db) = (Inr res, k, db)"
proof -
  have "those (map decode (map row_data (filter (\<lambda>r. row_type r = PolicyTypeDevice \<and>
       row_target r = mr_new res0) (tbl_policies db)))) \<noteq> None"
    using assms by (subst those_docs) (auto simp: policies_ok_def)
  then show ?thesis
    by (cases "mr_replayed res0")
      (auto simp: load_migration_state_def bind_io_def query_healthy attempt_query_healthy Let_def return_io_def)
qed

lemma migrate_healthy_fresh:
  assumes "old \<noteq> []" "new \<noteq> []" "old \<noteq> new" "storage_ok db" "ids_free old new db" "tbl_migrations db old = None"
  shows "\<exists>res k db'. migrate_identity_state now ks old new healthy (n, db) = (Inr res, k, db')"
proof -
  have ok: "policies_ok (tbl_policies (moved_metadata old new db))" using assms(4) by (simp add: storage_ok_def)
  have free: "ids_free old new (moved_metadata old new db)" using assms(5) by (simp add: ids_free_def)
  obtain k1 where m: "move_metadata old new healthy (Suc (Suc n), db) = (Inr (), k1, moved_metadata old new db)"
    using metadata_healthy by blast
  obtain cs k2 db2 where p: "migrate_policies_tx now ks old new healthy (k1, moved_metadata old new db) = (Inr cs, k2, db2)"
    using policies_tx_healthy [OF ok assms(3) free] by blast
  from policies_tx_succeeds [OF p ok assms(3)] obtain rows where
    d2: "db2 = (moved_metadata old new db)\<lparr>tbl_policies := rows\<rparr>" "policies_ok rows"
    by (auto simp: loop_ok_def)
  have "tbl_migrations db2 old = None" by (simp add: d2 moved_metadata_def assms(6))
  then obtain k3 db3 where h: "record_history now old new cs healthy (k2, db2) = (Inr (), k3, db3)"
    using history_healthy by blast
  have "policies_ok (tbl_policies db3)" using history_succeeds [OF h] d2 by simp
  then obtain res k4 where
    "load_migration_state (empty_result old new\<lparr>mr_conflicts := cs\<rparr>) healthy (k3, db3) = (Inr res, k4, db3)"
    using load_healthy by blast
  with m p h assms(1-3,6) show ?thesis
    by (simp add: migrate_identity_state_def transaction_def bind_io_def then_io_def query_healthy healthy_not)
qed

lemma migrate_healthy_replay:
  assumes "old \<noteq> []" "new \<noteq> []" "old \<noteq> new" "storage_ok db" "tbl_migrations db old = Some (new, t)"
  shows "\<exists>res k. migrate_identity_state now ks old new healthy (n, db) = (Inr res, k, db)"
proof -
  obtain res k where
    "load_migration_state (empty_result old new\<lparr>mr_replayed := True\<rparr>) healthy (Suc (Suc n), db) = (Inr res, k, db)"
    using load_healthy assms(4) by (metis storage_ok_def)
  with assms show ?thesis
    by (simp add: migrate_identity_state_def transaction_def bind_io_def query_healthy healthy_not)
qed


lemma migrate_fails_unchanged:
  "migrate_identity_state now ks old new out (n, db) = (Inl e, n', db') \<Longrightarrow> db' = db"
  by (auto simp: migrate_identity_state_def fail_io_def dest: transaction_fails split: if_splits)

lemma keeps_migrate_state [db_inv]: "keeps storage_ok (migrate_identity_state now ks old new)"
  unfolding keeps_def
proof (intro allI impI)
  fix out n db assume ok: "storage_ok db"
  obtain r n' db' where r: "migrate_identity_state now ks old new out (n, db) = (r, n', db')"
    by (metis prod.collapse)
  have "storage_ok db'"
  proof (cases r)
    case (Inl e)
    with r ok migrate_fails_unchanged show ?thesis by metis
  next
    case (Inr res)
    note s = migrate_succeeds [OF r [unfolded Inr] ok]
    show ?thesis
    proof (cases "tbl_migrations db old")
      case None
      with s obtain rows cs where m:
        "db' = recorded now old new cs ((moved_metadata old new db)\<lparr>tbl_policies := rows\<rparr>)" "policies_ok rows"
        by (auto simp: loop_ok_def)
      have a: "distinct (map fst xs) \<Longrightarrow> distinct (map fst (AList.delete old (adopt old new xs)))" for xs :: "(string \<times> string) list"
        by (auto simp: adopt_def distinct_delete distinct_update split: option.split)
      have "tag_rows_ok (tbl_device_tags db')" using ok
        by (simp add: m moved_metadata_def storage_ok_def tag_rows_ok_intros)
      moreover have "history_ok (tbl_migrations db') (tbl_redirects db') (tbl_conflicts db')"
        using ok None by (fastforce simp: m recorded_def moved_metadata_def storage_ok_def history_ok_def dom_def)
      ultimately show ?thesis using ok m(2) a
        by (simp add: storage_ok_def) (simp add: m moved_metadata_def)
    next
      case (Some t)
      with s ok show ?thesis by (auto split: prod.splits)
    qed
  qed
  with r show "storage_ok (snd (snd (migrate_identity_state now ks old new out (n, db))))" by simp
qed

text \<open>Without a driver error a migration fails for three reasons only: the identities are empty or equal,
  the obsolete one was already migrated somewhere else, or an id a temporary policy would be renamed to
  is taken. A failing call changes nothing, whatever the driver does.\<close>

theorem migration_outcome:
  assumes "storage_ok db" "migrate_identity_state now ks old new out (n, db) = (r, n', db')"
  shows "(isl r \<longrightarrow> db' = db) \<and>
    (out = healthy \<and> ids_free old new db \<longrightarrow> (isl r \<longleftrightarrow> old = [] \<or> new = [] \<or> old = new \<or>
       (\<exists>q t. tbl_migrations db old = Some (q, t) \<and> q \<noteq> new)))"
proof (intro conjI impI)
  show "isl r \<Longrightarrow> db' = db" using assms(2) migrate_fails_unchanged by (auto simp: isl_def)
  assume h: "out = healthy \<and> ids_free old new db"
  show "isl r \<longleftrightarrow> old = [] \<or> new = [] \<or> old = new \<or> (\<exists>q t. tbl_migrations db old = Some (q, t) \<and> q \<noteq> new)"
  proof (cases r)
    case (Inl e)
    then show ?thesis
      using assms h migrate_healthy_fresh [of old new db now ks n] migrate_healthy_replay [of old new db _ now ks n]
      by (cases "tbl_migrations db old") auto
  next
    case (Inr res)
    then show ?thesis using migrate_succeeds [of now ks old new out n db res n' db'] assms
      by (auto split: option.splits)
  qed
qed

text \<open>The migration event may arrive again. Once a migration has succeeded, every later one with the same
  identities succeeds, reports the same tags, name, user, policies and conflicts, says that it is a
  replay, and changes nothing.\<close>

theorem migration_idempotent:
  assumes "storage_ok db" "runs (migrate_identity_state now ks old new) db = (Inr res, db')"
  shows "runs (migrate_identity_state now' ks' old new) db' = (Inr (res\<lparr>mr_replayed := True\<rparr>), db')"
proof -
  obtain n1 where r: "migrate_identity_state now ks old new healthy (0, db) = (Inr res, n1, db')"
    using assms(2) by (auto simp: runs_def split: prod.splits)
  note s = migrate_succeeds [OF r assms(1)]
  have ok': "storage_ok db'" using keepsD [OF keeps_migrate_state assms(1) r] .
  obtain t where rec: "tbl_migrations db' old = Some (new, t)"
    using s by (cases "tbl_migrations db old") (auto simp: recorded_def)
  obtain res2 n2 where r2: "migrate_identity_state now' ks' old new healthy (0, db') = (Inr res2, n2, db')"
    using migrate_healthy_replay [OF _ _ _ ok' rec] s by blast
  have rep2: "reports healthy (empty_result old new\<lparr>mr_replayed := True\<rparr>) db' res2"
    using migrate_succeeds [OF r2 ok'] rec by simp
  have "reports healthy (empty_result old new\<lparr>mr_replayed := True\<rparr>) db' (res\<lparr>mr_replayed := True\<rparr>)"
  proof (cases "tbl_migrations db old")
    case None
    with s obtain rows cs where m:
      "db' = recorded now old new cs ((moved_metadata old new db)\<lparr>tbl_policies := rows\<rparr>)"
      "reports healthy (empty_result old new\<lparr>mr_conflicts := cs\<rparr>) db' res" by auto
    have "filter (\<lambda>c. cr_old c = old \<and> cr_new c = new) (tbl_conflicts db) = []"
      using assms(1) None by (fastforce simp: storage_ok_def history_ok_def filter_empty_conv)
    then have "map cr_conflict (filter (\<lambda>c. cr_old c = old \<and> cr_new c = new) (tbl_conflicts db')) = cs"
      by (simp add: m(1) recorded_def moved_metadata_def filter_map o_def)
    with m(2) show ?thesis by (simp add: reports_def empty_result_def cong: option.case_cong)
  next
    case (Some tt)
    with s show ?thesis by (auto simp: reports_def split: prod.splits)
  qed
  with rep2 have "res2 = res\<lparr>mr_replayed := True\<rparr>"
    by (cases res2; cases res) (auto simp: reports_def healthy_not empty_result_def)
  with r2 show ?thesis by (simp add: runs_def)
qed


subsection \<open>The tables over a run of the program\<close>

text \<open>One call of the storage layer, from any caller and with any driver failures.\<close>

inductive storage_step :: "database \<Rightarrow> database \<Rightarrow> bool" where
  step_tags: "save_device_tags p ts mac out (n, db) = (r, n', db') \<Longrightarrow> storage_step db db'"
| step_tag_mac: "update_device_tag_mac p mac out (n, db) = (r, n', db') \<Longrightarrow> storage_step db db'"
| step_migrate_tag: "migrate_device_tag old new out (n, db) = (r, n', db') \<Longrightarrow> storage_step db db'"
| step_migrate_policies: "migrate_device_policies old new out (n, db) = (r, n', db') \<Longrightarrow> storage_step db db'"
| step_override: "save_device_override p name out (n, db) = (r, n', db') \<Longrightarrow> storage_step db db'"
| step_assign: "assign_device_to_user p u out (n, db) = (r, n', db') \<Longrightarrow> storage_step db db'"
| step_unassign: "unassign_device_user p out (n, db) = (r, n', db') \<Longrightarrow> storage_step db db'"
| step_save_policy: "save_policy pol out (n, db) = (r, n', db') \<Longrightarrow> storage_step db db'"
| step_remove_policy: "remove_policy i out (n, db) = (r, n', db') \<Longrightarrow> storage_step db db'"
| step_import: "import_policies json out (n, db) = (r, n', db') \<Longrightarrow> storage_step db db'"
| step_flow: "save_flow_log now p a b out (n, db) = (r, n', db') \<Longrightarrow> storage_step db db'"
| step_hydrate: "load_hydrate now ts ps e out (n, db) = (h, n', db') \<Longrightarrow> storage_step db db'"
| step_migrate: "migrate_identity_state now ks old new out (n, db) = (m, n', db') \<Longrightarrow> storage_step db db'"

inductive storage_reachable :: "database \<Rightarrow> bool" where
  reach_empty: "storage_reachable empty_database"
| reach_step: "storage_reachable db \<Longrightarrow> storage_step db db' \<Longrightarrow> storage_reachable db'"

lemma storage_step_keeps: "storage_step db db' \<Longrightarrow> storage_ok db \<Longrightarrow> storage_ok db'"
  by (induction rule: storage_step.induct) (erule (1) keepsD [rotated], rule db_inv)+




subsection \<open>Memory agrees with the database\<close>

lemma set_by_precedence [simp]: "set (by_precedence ps) = set ps"
  by (simp add: by_precedence_def)

lemma reported_policies:
  assumes "reports out res0 db res" "policies_ok (tbl_policies db)"
  shows "set (mr_policies res) = docs_for (mr_new res0) (tbl_policies db) \<and> distinct (map pol_id (mr_policies res))"
proof -
  let ?rows = "filter (\<lambda>r. row_type r = PolicyTypeDevice \<and> row_target r = mr_new res0) (tbl_policies db)"
  have "those (map decode (map row_data ?rows)) = Some (map doc_of ?rows)"
    by (rule those_docs) (use assms(2) in \<open>auto simp: policies_ok_def\<close>)
  then have m: "mr_policies res = by_precedence (map doc_of ?rows)"
    using assms(1) by (simp add: reports_def)
  have "inj_on pol_id (set (map doc_of ?rows))" "distinct (map doc_of ?rows)"
    using distinct_doc_ids [OF assms(2), of "\<lambda>r. row_type r = PolicyTypeDevice \<and> row_target r = mr_new res0"]
    unfolding distinct_map by blast+
  then show ?thesis unfolding m docs_for_alt [OF assms(2)]
    by (simp add: distinct_map by_precedence_def)
qed

lemma reconciled_policies:
  assumes "range_order ps pk" "distinct (map pol_id pols)"
    and "\<forall>p \<in> set pols. targets_either old new p"
  shows "reconcile_device_identity pk old new pols ps i = Some p \<and> targets_either old new p \<longleftrightarrow>
    p \<in> set pols \<and> pol_id p = i"
    "\<not> targets_either old new p \<Longrightarrow> reconcile_device_identity pk old new pols ps i = Some p \<Longrightarrow> ps i = Some p"
proof -
  have m: "map_of (rev (map (\<lambda>p. (pol_id p, p)) pols)) i = Some p \<longleftrightarrow> p \<in> set pols \<and> pol_id p = i" for i p
    using assms(2) by (subst map_of_eq_Some_iff) (auto simp: rev_map o_def simp flip: rev_map)
  have r: "reconcile_device_identity pk old new pols ps i =
    (case map_of (rev (map (\<lambda>p. (pol_id p, p)) pols)) i of
       Some p \<Rightarrow> Some p
     | None \<Rightarrow> (case ps i of Some p \<Rightarrow> if targets_either old new p then None else Some p | None \<Rightarrow> None))"
    unfolding reconcile_device_identity_def Let_def foldl_upsert foldl_delete_entries
      entries_iff [OF assms(1)] by (auto split: option.split)
  show "reconcile_device_identity pk old new pols ps i = Some p \<and> targets_either old new p \<longleftrightarrow>
    p \<in> set pols \<and> pol_id p = i"
  proof (cases "map_of (rev (map (\<lambda>p. (pol_id p, p)) pols)) i")
    case None
    with m [of i p] show ?thesis unfolding r by (auto split: option.splits if_splits)
  next
    case (Some q)
    with m [of i p] m [of i q] assms(3) show ?thesis unfolding r by auto
  qed
  assume "\<not> targets_either old new p" "reconcile_device_identity pk old new pols ps i = Some p"
  then show "ps i = Some p"
    unfolding r using m [of i p] assms(3)
    by (cases "map_of (rev (map (\<lambda>p. (pol_id p, p)) pols)) i") (auto split: option.splits if_splits)
qed



subsection \<open>A tablet known under two identities\<close>

definition tablet_pause :: policy where
  "tablet_pause = empty_policy\<lparr>pol_id := ''pol_pause_a'', pol_type := PolicyTypeDevice, pol_target := ''a'',
     pol_action := ActionBlock, pol_priority := 10, pol_enabled := True\<rparr>"

definition tablet_allow :: policy where
  "tablet_allow = empty_policy\<lparr>pol_id := ''allow'', pol_type := PolicyTypeDevice, pol_target := ''b'',
     pol_action := ActionAllow, pol_priority := 5, pol_enabled := True\<rparr>"

definition tablet_db :: database where
  "tablet_db = empty_database\<lparr>tbl_policies := map policy_row_of [tablet_pause, tablet_allow],
     tbl_device_tags := [\<lparr>dt_pdid = ''a'', dt_tag = ''kids'', dt_mac = []\<rparr>],
     tbl_overrides := [(''a'', ''Tablet'')]\<rparr>"

lemmas tablet_defs = tablet_db_def tablet_pause_def tablet_allow_def policy_row_of_def empty_database_def

lemma tablet_ok: "storage_ok tablet_db"
  by (simp add: storage_ok_def policies_ok_def tag_rows_ok_def history_ok_def row_consistent_def tablet_defs)

lemma tablet_sources: "sources_of ''a'' ''b'' tablet_db = [tablet_pause]"
  by (simp add: sources_of_def doc_of_def tablet_defs)

lemma tablet_free: "ids_free ''a'' ''b'' tablet_db"
  unfolding ids_free_def tablet_sources by (simp add: other_rows_def tablet_defs)

lemma tablet_docs: "docs_for ''a'' (tbl_policies tablet_db) = {tablet_pause}"
  "docs_for ''b'' (tbl_policies tablet_db) = {tablet_allow}"
proof -
  have ok: "policies_ok (tbl_policies tablet_db)" using tablet_ok by (simp add: storage_ok_def)
  show "docs_for ''a'' (tbl_policies tablet_db) = {tablet_pause}"
    "docs_for ''b'' (tbl_policies tablet_db) = {tablet_allow}"
    unfolding docs_for_alt [OF ok] by (simp_all add: doc_of_def tablet_defs)
qed

lemma tablet_run:
  "\<exists>res n' db'. migrate_identity_state now ks ''a'' ''b'' healthy (0, tablet_db) = (Inr res, n', db') \<and>
     \<not> mr_replayed res"
proof -
  have "tbl_migrations tablet_db ''a'' = None" by (simp add: tablet_defs)
  with migrate_healthy_fresh [OF _ _ _ tablet_ok tablet_free] obtain res n' db' where
    r: "migrate_identity_state now ks ''a'' ''b'' healthy (0, tablet_db) = (Inr res, n', db')" by fastforce
  from migrate_succeeds [OF r tablet_ok] \<open>tbl_migrations tablet_db ''a'' = None\<close>
  have "\<not> mr_replayed res" by (auto simp: reports_def empty_result_def)
  with r show ?thesis by blast
qed

lemma migration_keeps_strongest_witness:
  "\<exists>res n' db'. migrate_identity_state 0 [] ''a'' ''b'' healthy (0, tablet_db) = (Inr res, n', db') \<and>
     (\<exists>q \<in> docs_for ''b'' (tbl_policies db'). pol_id q = ''pol_pause_b'') \<and>
     (\<exists>q \<in> docs_for ''b'' (tbl_policies db'). pol_id q = ''allow'')"
proof -
  obtain res n' db' where r: "migrate_identity_state 0 [] ''a'' ''b'' healthy (0, tablet_db) = (Inr res, n', db')"
    "\<not> mr_replayed res" using tablet_run by blast
  have "retarget_temporary (pol_id tablet_pause) ''a'' ''b'' = ''pol_pause_b''" by code_simp
  moreover have "pol_id tablet_allow = ''allow''" by (simp add: tablet_allow_def)
  ultimately show ?thesis
    using migration_keeps_strongest [OF r(1) tablet_ok r(2)] r(1) by (auto simp: tablet_docs)
qed

lemma migration_leaves_no_reference_witness:
  "\<exists>res n' db'. migrate_identity_state 0 [] ''a'' ''b'' healthy (0, tablet_db) = (Inr res, n', db') \<and>
     map_of (tbl_overrides db') ''a'' = None \<and> resolve_pdid db' ''a'' = ''b''"
proof -
  obtain res n' db' where r: "migrate_identity_state 0 [] ''a'' ''b'' healthy (0, tablet_db) = (Inr res, n', db')"
    "\<not> mr_replayed res" using tablet_run by blast
  with migration_leaves_no_reference [OF r(1) tablet_ok r(2)] show ?thesis by blast
qed

lemma migration_merges_metadata_witness:
  "\<exists>res n' db'. migrate_identity_state 0 [] ''a'' ''b'' healthy (0, tablet_db) = (Inr res, n', db') \<and>
     map_of (tbl_overrides db') ''b'' = Some ''Tablet''"
proof -
  obtain res n' db' where r: "migrate_identity_state 0 [] ''a'' ''b'' healthy (0, tablet_db) = (Inr res, n', db')"
    "\<not> mr_replayed res" using tablet_run by blast
  with migration_merges_metadata [OF r(1) tablet_ok r(2)] have "map_of (tbl_overrides db') ''b'' = Some ''Tablet''"
    by (simp add: tablet_defs)
  with r show ?thesis by blast
qed

lemma redirects_stay_compressed_witness:
  "\<exists>res n' db'. migrate_identity_state 0 [] ''a'' ''b'' healthy (0, tablet_db) = (Inr res, n', db') \<and>
     resolve_pdid db' ''a'' = ''b'' \<and> resolve_pdid db' ''c'' = ''c''"
proof -
  obtain res n' db' where r: "migrate_identity_state 0 [] ''a'' ''b'' healthy (0, tablet_db) = (Inr res, n', db')"
    "\<not> mr_replayed res" using tablet_run by blast
  have "resolve_pdid tablet_db p = p" for p by (simp add: resolve_pdid_def tablet_defs)
  with redirects_stay_compressed [OF r(1) tablet_ok r(2)] r(1) show ?thesis by simp
qed

lemma migration_outcome_witness:
  "\<exists>n' db'. migrate_identity_state 0 [] ''a'' ''a'' healthy (0, tablet_db) = (Inl InvalidMigration, n', db') \<and> db' = tablet_db"
proof -
  have r: "migrate_identity_state 0 [] ''a'' ''a'' healthy (0, tablet_db) = (Inl InvalidMigration, 0, tablet_db)"
    by (simp add: migrate_identity_state_def fail_io_def)
  with migration_outcome [OF tablet_ok r] show ?thesis by simp
qed

lemma migration_idempotent_witness:
  "\<exists>res db'. runs (migrate_identity_state 0 [] ''a'' ''b'') tablet_db = (Inr res, db') \<and>
     runs (migrate_identity_state 9 [] ''a'' ''b'') db' = (Inr (res\<lparr>mr_replayed := True\<rparr>), db')"
proof -
  obtain res n' db' where "migrate_identity_state 0 [] ''a'' ''b'' healthy (0, tablet_db) = (Inr res, n', db')"
    using tablet_run by blast
  then have r: "runs (migrate_identity_state 0 [] ''a'' ''b'') tablet_db = (Inr res, db')" by (simp add: runs_def)
  with migration_idempotent [OF tablet_ok r, of 9 "[]"] show ?thesis by blast
qed

definition tablet_coordinator :: coordinator where
  "tablet_coordinator = new_coordinator (Some tablet_db) new_cache [''pol_pause_a'' \<mapsto> tablet_pause, ''allow'' \<mapsto> tablet_allow]"


text \<open>Without storage the coordinator lets the loop order decide when both identities hold the same temporary
  policy: here the weaker one survives or the stronger one does.\<close>

definition pause_of :: "string \<Rightarrow> int \<Rightarrow> policy" where
  "pause_of p prio = empty_policy\<lparr>pol_id := ''pol_pause_'' @ p, pol_type := PolicyTypeDevice,
     pol_target := p, pol_priority := prio\<rparr>"

definition two_pauses :: coordinator where
  "two_pauses = new_coordinator None new_cache
     [''pol_pause_a'' \<mapsto> pause_of ''a'' 9, ''pol_pause_b'' \<mapsto> pause_of ''b'' 1]"

lemma memory_only_order_decides:
  "map_option pol_priority (co_policies (snd (migrate_identity healthy 0 [] [''pol_pause_a'', ''pol_pause_b'']
     [''pol_pause_a'', ''pol_pause_b''] ''a'' ''b'' [] two_pauses)) ''pol_pause_b'') = Some 1"
  "map_option pol_priority (co_policies (snd (migrate_identity healthy 0 [] [''pol_pause_b'', ''pol_pause_a'']
     [''pol_pause_a'', ''pol_pause_b''] ''a'' ''b'' [] two_pauses)) ''pol_pause_b'') = Some 9"
  by (simp_all add: migrate_identity_def two_pauses_def new_coordinator_def list_policies_def range_values_def
      reconcile_device_identity_def retarget_temporary_def pause_of_def)

end
