(* ===== verification/Browser_Session.thy ===== *)
theory Browser_Session
  imports Go_Strings Go_Time
begin

text \<open>
  \<open>apps/lias/internal/api/session.go\<close> and the authentication middleware of \<open>handlers.go\<close>: browser
  sessions with a CSRF token, beside the bearer token of other clients. \<open>hash\<close> is SHA-256; nothing is
  assumed of it, so the theorems speak of equal digests. Random bytes are an argument, \<open>None\<close> when the
  system's source fails; so are the clock readings. A request is what the handlers read of it.
\<close>

subsection \<open>The session manager\<close>

record browser_session =
  bs_csrf :: string
  bs_expires :: time

record 'd session_manager =
  sm_sessions :: "'d \<rightharpoonup> browser_session"
  sm_digest :: 'd
  sm_auth_set :: bool
  sm_secure :: bool

record request =
  rq_method :: string
  rq_authorization :: string
  rq_session_cookie :: "string option"
  rq_csrf_cookie :: "string option"
  rq_csrf_header :: string

definition browser_session_ttl :: duration where "browser_session_ttl = 8 * hour"

text \<open>\<open>zero\<close> is the digest of 32 zero bytes the manager starts with.\<close>

definition new_session_manager :: "'d \<Rightarrow> 'd session_manager" where
  "new_session_manager zero =
     \<lparr>sm_sessions = Map.empty, sm_digest = zero, sm_auth_set = False, sm_secure = False\<rparr>"

definition configure_sessions :: "(string \<Rightarrow> 'd) \<Rightarrow> string \<Rightarrow> bool \<Rightarrow> 'd session_manager \<Rightarrow> 'd session_manager" where
  "configure_sessions hash token secure m =
     m\<lparr>sm_digest := hash token, sm_auth_set := (token \<noteq> []), sm_secure := secure\<rparr>"

text \<open>\<open>base64.RawURLEncoding\<close>: six bits a character, no padding.\<close>

definition base64_char :: "nat \<Rightarrow> char" where
  "base64_char n =
     (if n < 26 then char_of (65 + n) else if n < 52 then char_of (71 + n)
      else if n < 62 then char_of (n - 4) else if n = 62 then CHR ''-'' else CHR ''_'')"

fun base64_groups :: "nat list \<Rightarrow> nat list" where
  "base64_groups [] = []"
| "base64_groups [a] = [a div 4, (a mod 4) * 16]"
| "base64_groups [a, b] = [a div 4, (a mod 4) * 16 + b div 16, (b mod 16) * 4]"
| "base64_groups (a # b # c # r) =
     [a div 4, (a mod 4) * 16 + b div 16, (b mod 16) * 4 + c div 64, c mod 64] @ base64_groups r"

definition random_browser_token :: "string option \<Rightarrow> string option" where
  "random_browser_token raw = map_option (\<lambda>b. map base64_char (base64_groups (map byte b))) raw"

definition create_session ::
  "(string \<Rightarrow> 'd) \<Rightarrow> string option \<Rightarrow> string option \<Rightarrow> time \<Rightarrow> string \<Rightarrow> 'd session_manager \<Rightarrow>
   (string \<times> string \<times> time) option \<times> 'd session_manager" where
  "create_session hash raw1 raw2 now provided m =
     (if \<not> sm_auth_set m \<or> hash provided \<noteq> sm_digest m then (None, m)
      else (case random_browser_token raw1 of None \<Rightarrow> (None, m)
        | Some sid \<Rightarrow> (case random_browser_token raw2 of None \<Rightarrow> (None, m)
          | Some csrf \<Rightarrow>
              (let expires = now + browser_session_ttl in
               (Some (sid, csrf, expires),
                m\<lparr>sm_sessions := (sm_sessions m)(hash sid \<mapsto> \<lparr>bs_csrf = csrf, bs_expires = expires\<rparr>)\<rparr>)))))"

text \<open>\<open>lookup\<close> gives the session and its digest, and forgets an expired session.\<close>

definition lookup_session ::
  "(string \<Rightarrow> 'd) \<Rightarrow> time \<Rightarrow> request \<Rightarrow> 'd session_manager \<Rightarrow> (browser_session \<times> 'd) option \<times> 'd session_manager" where
  "lookup_session hash now r m =
     (case rq_session_cookie r of None \<Rightarrow> (None, m)
      | Some v \<Rightarrow>
          if v = [] then (None, m)
          else let digest = hash v in
            (case sm_sessions m digest of None \<Rightarrow> (None, m)
             | Some s \<Rightarrow> if \<not> now < bs_expires s then (None, m\<lparr>sm_sessions := (sm_sessions m)(digest := None)\<rparr>)
                 else (Some (s, digest), m)))"

definition authenticate :: "(string \<Rightarrow> 'd) \<Rightarrow> time \<Rightarrow> request \<Rightarrow> 'd session_manager \<Rightarrow> bool \<times> 'd session_manager" where
  "authenticate hash now r m = (case lookup_session hash now r m of (s, m') \<Rightarrow> (s \<noteq> None, m'))"

definition validate_csrf :: "(string \<Rightarrow> 'd) \<Rightarrow> time \<Rightarrow> request \<Rightarrow> 'd session_manager \<Rightarrow> bool \<times> 'd session_manager" where
  "validate_csrf hash now r m =
     (case lookup_session hash now r m of
        (None, m') \<Rightarrow> (False, m')
      | (Some (s, _), m') \<Rightarrow>
          (case rq_csrf_cookie r of None \<Rightarrow> (False, m')
           | Some v \<Rightarrow>
               if v = [] \<or> rq_csrf_header r = [] then (False, m')
               else (hash v = hash (bs_csrf s) \<and> hash (rq_csrf_header r) = hash (bs_csrf s), m')))"

definition delete_session :: "(string \<Rightarrow> 'd) \<Rightarrow> time \<Rightarrow> request \<Rightarrow> 'd session_manager \<Rightarrow> 'd session_manager" where
  "delete_session hash now r m =
     (case lookup_session hash now r m of
        (None, m') \<Rightarrow> m'
      | (Some (_, digest), m') \<Rightarrow> m'\<lparr>sm_sessions := (sm_sessions m')(digest := None)\<rparr>)"

definition is_mutating_method :: "string \<Rightarrow> bool" where
  "is_mutating_method meth \<longleftrightarrow> meth \<in> {''POST'', ''PUT'', ''PATCH'', ''DELETE''}"

subsection \<open>The handlers\<close>

record cookie =
  ck_name :: string
  ck_value :: string
  ck_http_only :: bool
  ck_secure :: bool
  ck_max_age :: int
  ck_expires :: time

datatype session_response = HttpError int string | NoContent "cookie list"

definition browser_cookie :: "bool \<Rightarrow> string \<Rightarrow> string \<Rightarrow> bool \<Rightarrow> int \<Rightarrow> time \<Rightarrow> cookie" where
  "browser_cookie secure name v http_only max_age expires =
     \<lparr>ck_name = name, ck_value = v, ck_http_only = http_only, ck_secure = secure,
      ck_max_age = max_age, ck_expires = expires\<rparr>"

text \<open>What the JSON decoder makes of the request body: no token (or an error), or a token and whether
  something follows the first value.\<close>

datatype session_body = BadBody | TokenBody string bool

text \<open>\<open>int(time.Until(expires).Seconds())\<close> truncates toward zero.\<close>

definition whole_seconds :: "duration \<Rightarrow> int" where
  "whole_seconds d = (if 0 \<le> d then d div second else - ((- d) div second))"

definition create_browser_session ::
  "(string \<Rightarrow> 'd) \<Rightarrow> bool \<Rightarrow> string option \<Rightarrow> string option \<Rightarrow> time \<Rightarrow> time \<Rightarrow> session_body \<Rightarrow>
   'd session_manager \<Rightarrow> session_response \<times> 'd session_manager" where
  "create_browser_session hash secure raw1 raw2 now later body m =
     (case body of
        BadBody \<Rightarrow> (HttpError 400 ''a valid token is required'', m)
      | TokenBody token trailing \<Rightarrow>
          if token = [] then (HttpError 400 ''a valid token is required'', m)
          else if trailing then (HttpError 400 ''request body must contain one JSON value'', m)
          else (case create_session hash raw1 raw2 now token m of
             (None, m') \<Rightarrow> (HttpError 401 ''invalid authentication token'', m')
           | (Some (sid, csrf, expires), m') \<Rightarrow>
               (let max_age = whole_seconds (time_sub expires later)
                in (NoContent [browser_cookie secure ''lias_session'' sid True max_age expires,
                      browser_cookie secure ''lias_csrf'' csrf False max_age expires], m'))))"

definition delete_browser_session ::
  "(string \<Rightarrow> 'd) \<Rightarrow> bool \<Rightarrow> time \<Rightarrow> time \<Rightarrow> time \<Rightarrow> request \<Rightarrow> 'd session_manager \<Rightarrow>
   session_response \<times> 'd session_manager" where
  "delete_browser_session hash secure t1 t2 t3 r m =
     (case authenticate hash t1 r m of
        (False, m1) \<Rightarrow> (HttpError 401 ''invalid or expired session'', m1)
      | (True, m1) \<Rightarrow>
          (case validate_csrf hash t2 r m1 of
             (False, m2) \<Rightarrow> (HttpError 403 ''invalid or missing CSRF token'', m2)
           | (True, m2) \<Rightarrow>
               (NoContent [browser_cookie secure ''lias_session'' [] True (- 1) second,
                  browser_cookie secure ''lias_csrf'' [] False (- 1) second],
                delete_session hash t3 r m2)))"

datatype auth_result = Proceed | Reject int string

text \<open>\<open>strings.SplitN(s, " ", 2)\<close>: nothing when there is no space.\<close>

fun split_once :: "string \<Rightarrow> (string \<times> string) option" where
  "split_once [] = None"
| "split_once (c # s) = (if c = CHR '' '' then Some ([], s)
     else map_option (\<lambda>(a, b). (c # a, b)) (split_once s))"

definition bearer_ok :: "(string \<Rightarrow> 'd) \<Rightarrow> string \<Rightarrow> request \<Rightarrow> bool" where
  "bearer_ok hash token r \<longleftrightarrow>
     (case split_once (rq_authorization r) of None \<Rightarrow> False
      | Some (scheme, provided) \<Rightarrow> equal_fold scheme ''Bearer'' \<and> hash provided = hash token)"

definition auth_middleware ::
  "(string \<Rightarrow> 'd) \<Rightarrow> string \<Rightarrow> time \<Rightarrow> time \<Rightarrow> request \<Rightarrow> 'd session_manager option \<Rightarrow>
   auth_result \<times> 'd session_manager option" where
  "auth_middleware hash token t1 t2 r sessions =
     (if token = [] then (Proceed, sessions)
      else if bearer_ok hash token r then (Proceed, sessions)
      else let denied = (if rq_authorization r = [] then Reject 401 ''missing authorization''
                         else Reject 401 ''invalid or malformed authorization token'') in
        (case sessions of None \<Rightarrow> (denied, None)
         | Some m \<Rightarrow>
             (case authenticate hash t1 r m of
                (False, m1) \<Rightarrow> (denied, Some m1)
              | (True, m1) \<Rightarrow>
                  if is_mutating_method (rq_method r)
                  then (case validate_csrf hash t2 r m1 of
                          (False, m2) \<Rightarrow> (Reject 403 ''invalid or missing CSRF token'', Some m2)
                        | (True, m2) \<Rightarrow> (Proceed, Some m2))
                  else (Proceed, Some m1))))"


subsection \<open>Every accepted request goes back to a login\<close>

text \<open>What happened to the manager: logins with what they issued, and logouts.\<close>

datatype 'd session_event =
  LoggedIn (digest_of: 'd) (issued_csrf: string) (issued_until: time) (login_token: string)
| LoggedOut (digest_of: 'd)

inductive session_run :: "(string \<Rightarrow> 'd) \<Rightarrow> string \<Rightarrow> 'd session_event list \<Rightarrow> 'd session_manager \<Rightarrow> bool"
  for hash token where
  run_start: "session_run hash token [] (configure_sessions hash token secure (new_session_manager zero))"
| run_login: "session_run hash token log m \<Longrightarrow>
    create_session hash raw1 raw2 now provided m = (Some (sid, csrf, expires), m') \<Longrightarrow>
    session_run hash token (log @ [LoggedIn (hash sid) csrf expires provided]) m'"
| run_refused: "session_run hash token log m \<Longrightarrow>
    create_session hash raw1 raw2 now provided m = (None, m') \<Longrightarrow> session_run hash token log m'"
| run_lookup: "session_run hash token log m \<Longrightarrow> lookup_session hash now r m = (s, m') \<Longrightarrow>
    session_run hash token log m'"
| run_logout: "session_run hash token log m \<Longrightarrow> rq_session_cookie r = Some v \<Longrightarrow> v \<noteq> [] \<Longrightarrow>
    session_run hash token (log @ [LoggedOut (hash v)]) (delete_session hash now r m)"

text \<open>A session in the manager was opened by a login that knew the token and is the last event of its
  digest.\<close>

definition opened_by :: "(string \<Rightarrow> 'd) \<Rightarrow> string \<Rightarrow> 'd session_event list \<Rightarrow> 'd \<Rightarrow> browser_session \<Rightarrow> bool" where
  "opened_by hash token log d s \<longleftrightarrow>
     (\<exists>pre post provided. log = pre @ LoggedIn d (bs_csrf s) (bs_expires s) provided # post \<and>
        hash provided = hash token \<and> d \<notin> digest_of ` set post)"

definition sessions_ok :: "(string \<Rightarrow> 'd) \<Rightarrow> string \<Rightarrow> 'd session_event list \<Rightarrow> 'd session_manager \<Rightarrow> bool" where
  "sessions_ok hash token log m \<longleftrightarrow> sm_digest m = hash token \<and>
     (\<forall>d s. sm_sessions m d = Some s \<longrightarrow> opened_by hash token log d s)"

lemma opened_by_snoc: "opened_by hash token log d s \<Longrightarrow> digest_of e \<noteq> d \<Longrightarrow> opened_by hash token (log @ [e]) d s"
  unfolding opened_by_def by (elim exE) (rule exI, rule_tac x = "post @ [e]" in exI, auto)

lemma opened_by_login: "hash provided = hash token \<Longrightarrow>
   opened_by hash token (log @ [LoggedIn d csrf ex provided]) d \<lparr>bs_csrf = csrf, bs_expires = ex\<rparr>"
  unfolding opened_by_def by (rule exI [of _ log], rule exI [of _ "[]"]) auto

lemma lookup_sessions:
  "lookup_session hash now r m = (s, m') \<Longrightarrow> sm_digest m' = sm_digest m \<and> sm_auth_set m' = sm_auth_set m \<and>
     sm_sessions m' \<subseteq>\<^sub>m sm_sessions m"
  by (auto simp: lookup_session_def Let_def map_le_def split: option.splits if_splits)

lemma lookup_found:
  "lookup_session hash now r m = (Some (s, d), m') \<Longrightarrow>
     m' = m \<and> sm_sessions m d = Some s \<and> now < bs_expires s \<and> (\<exists>v. rq_session_cookie r = Some v \<and> v \<noteq> [] \<and> d = hash v)"
  by (auto simp: lookup_session_def Let_def split: option.splits if_splits)

lemma logout_sessions:
  "rq_session_cookie r = Some v \<Longrightarrow> v \<noteq> [] \<Longrightarrow> sm_sessions (delete_session hash now r m) (hash v) = None"
  by (auto simp: delete_session_def lookup_session_def Let_def split: option.splits)

lemma delete_session_sub:
  "sm_digest (delete_session hash now r m) = sm_digest m \<and>
   sm_sessions (delete_session hash now r m) \<subseteq>\<^sub>m sm_sessions m"
  by (auto simp: delete_session_def lookup_session_def Let_def map_le_def split: option.splits if_splits)

lemma sessions_ok_sub:
  "sessions_ok hash token log m \<Longrightarrow> sm_digest m' = sm_digest m \<Longrightarrow> sm_sessions m' \<subseteq>\<^sub>m sm_sessions m \<Longrightarrow>
   sessions_ok hash token log m'"
  unfolding sessions_ok_def map_le_def by (metis domI)

lemma session_run_ok: "session_run hash token log m \<Longrightarrow> sessions_ok hash token log m"
proof (induction rule: session_run.induct)
  case (run_start secure zero)
  then show ?case by (simp add: sessions_ok_def configure_sessions_def new_session_manager_def)
next
  case (run_login log m raw1 raw2 now provided sid csrf expires m')
  then have p: "hash provided = hash token"
    and m': "m' = m\<lparr>sm_sessions := (sm_sessions m)(hash sid \<mapsto> \<lparr>bs_csrf = csrf, bs_expires = expires\<rparr>)\<rparr>"
    by (auto simp: create_session_def sessions_ok_def Let_def split: if_splits option.splits)
  show ?case
    using run_login.IH opened_by_snoc [of hash token log] opened_by_login [OF p]
    by (auto simp: sessions_ok_def m')
next
  case (run_refused log m raw1 raw2 now provided m')
  then show ?case by (auto simp: create_session_def Let_def split: if_splits option.splits)
next
  case (run_lookup log m now r s m')
  then show ?case using lookup_sessions sessions_ok_sub by blast
next
  case (run_logout log m r v now)
  note d = delete_session_sub [of hash now r m]
  have ok: "sessions_ok hash token log (delete_session hash now r m)"
    using sessions_ok_sub [OF run_logout.IH] d by blast
  have "digest_of (LoggedOut (hash v)) \<noteq> d" if "sm_sessions (delete_session hash now r m) d = Some s" for d s
    using that logout_sessions [OF run_logout.hyps(2,3), of hash now m] by auto
  with ok show ?case by (simp add: sessions_ok_def opened_by_snoc)
qed

text \<open>C19: every request the middleware lets through without the bearer token goes back to a login: its
  session cookie has the digest of a session opened by someone who presented the token's digest, not
  yet expired, not logged out and not replaced since; and a request that changes something also carries
  that session's CSRF token, in the cookie and in the header.\<close>

theorem accepted_request_logged_in:
  assumes "session_run hash token log m" "token \<noteq> []" "\<not> bearer_ok hash token r"
    and "auth_middleware hash token t1 t2 r (Some m) = (Proceed, m')"
  shows "\<exists>pre post v csrf expires provided.
    log = pre @ LoggedIn (hash v) csrf expires provided # post \<and> hash provided = hash token \<and>
    hash v \<notin> digest_of ` set post \<and> rq_session_cookie r = Some v \<and> t1 < expires \<and>
    (is_mutating_method (rq_method r) \<longrightarrow> t2 < expires \<and> rq_csrf_header r \<noteq> [] \<and>
       hash (rq_csrf_header r) = hash csrf \<and> (\<exists>c. rq_csrf_cookie r = Some c \<and> hash c = hash csrf))"
proof -
  obtain s d where l: "lookup_session hash t1 r m = (Some (s, d), m)"
    and c: "is_mutating_method (rq_method r) \<longrightarrow> fst (validate_csrf hash t2 r m)"
  proof -
    obtain x m1 where x: "lookup_session hash t1 r m = (x, m1)" by fastforce
    with assms(2-4) have "x \<noteq> None"
      by (cases x) (auto simp: auth_middleware_def authenticate_def Let_def split: if_splits)
    then obtain s d where "lookup_session hash t1 r m = (Some (s, d), m)"
      using x lookup_found [of hash t1 r m] by (cases x) fastforce+
    with assms(2-4) show thesis
      by (intro that) (auto simp: auth_middleware_def authenticate_def Let_def split: if_splits prod.splits bool.splits)
  qed
  from lookup_found [OF l] obtain v where v: "sm_sessions m d = Some s" "t1 < bs_expires s"
    "rq_session_cookie r = Some v" "d = hash v" by blast
  with session_run_ok [OF assms(1)] have "opened_by hash token log (hash v) s" by (auto simp: sessions_ok_def)
  moreover have "is_mutating_method (rq_method r) \<longrightarrow> t2 < bs_expires s \<and> rq_csrf_header r \<noteq> [] \<and>
       hash (rq_csrf_header r) = hash (bs_csrf s) \<and> (\<exists>c. rq_csrf_cookie r = Some c \<and> hash c = hash (bs_csrf s))"
  proof
    assume "is_mutating_method (rq_method r)"
    with c have f: "fst (validate_csrf hash t2 r m)" by blast
    then obtain s2 d2 m2 where l2: "lookup_session hash t2 r m = (Some (s2, d2), m2)"
      by (auto simp: validate_csrf_def split: option.splits prod.splits)
    from lookup_found [OF l2] v have "s2 = s" "t2 < bs_expires s" by auto
    with f l2 show "t2 < bs_expires s \<and> rq_csrf_header r \<noteq> [] \<and>
       hash (rq_csrf_header r) = hash (bs_csrf s) \<and> (\<exists>c. rq_csrf_cookie r = Some c \<and> hash c = hash (bs_csrf s))"
      by (auto simp: validate_csrf_def split: option.splits if_splits)
  qed
  ultimately show ?thesis using v unfolding opened_by_def by blast
qed


text \<open>A login is usable: whoever presents the right token gets a session with which the middleware lets
  every request through for eight hours, given the CSRF token where one is needed.\<close>

theorem login_usable:
  assumes "create_session hash raw1 raw2 now token m = (Some (sid, csrf, expires), m')"
    and "sm_auth_set m" "raw1 \<noteq> Some []" "raw2 \<noteq> Some []" "t1 < now + 8 * hour" "t2 < now + 8 * hour"
    and "rq_session_cookie r = Some sid" "rq_csrf_cookie r = Some csrf" "rq_csrf_header r = csrf"
  shows "expires = now + 8 * hour \<and> auth_middleware hash token t1 t2 r (Some m') = (Proceed, Some m')"
proof -
  have nonempty: "random_browser_token raw = Some v \<Longrightarrow> raw \<noteq> Some [] \<Longrightarrow> v \<noteq> []" for raw v
  proof -
    assume "random_browser_token raw = Some v" "raw \<noteq> Some []"
    then obtain b where "raw = Some b" "b \<noteq> []" "v = map base64_char (base64_groups (map byte b))"
      by (auto simp: random_browser_token_def)
    moreover have "base64_groups xs \<noteq> []" if "xs \<noteq> []" for xs
      using that by (cases xs rule: base64_groups.cases) auto
    ultimately show "v \<noteq> []" by simp
  qed
  from assms(1,3,4) nonempty have c: "sid \<noteq> []" "csrf \<noteq> []" "expires = now + 8 * hour"
    "m' = m\<lparr>sm_sessions := (sm_sessions m)(hash sid \<mapsto> \<lparr>bs_csrf = csrf, bs_expires = expires\<rparr>)\<rparr>"
    by (auto simp: create_session_def Let_def browser_session_ttl_def split: if_splits option.splits)
  have l: "lookup_session hash t r m' = (Some (\<lparr>bs_csrf = csrf, bs_expires = expires\<rparr>, hash sid), m')"
    if "t < expires" for t
    using that c(1) assms(7) by (simp add: lookup_session_def c(4) Let_def)
  have "validate_csrf hash t2 r m' = (True, m')"
    using l [of t2] assms(6,8,9) c(2,3) by (simp add: validate_csrf_def)
  with l [of t1] assms(5) c(3) show ?thesis
    by (simp add: auth_middleware_def authenticate_def Let_def)
qed

definition house_login :: "(string \<times> string \<times> time) option \<times> string session_manager" where
  "house_login = create_session (\<lambda>s. s) (Some ''ab'') (Some ''cd'') 0 ''secret''
     (configure_sessions (\<lambda>s. s) ''secret'' True (new_session_manager []))"

definition house_request :: request where
  "house_request = \<lparr>rq_method = ''POST'', rq_authorization = [], rq_session_cookie = Some ''YWI'',
     rq_csrf_cookie = Some ''Y2Q'', rq_csrf_header = ''Y2Q''\<rparr>"

lemma house_login_tokens: "fst house_login = Some (''YWI'', ''Y2Q'', 8 * hour)"
  by code_simp

lemma house_login_run: "session_run (\<lambda>s. s) ''secret'' [LoggedIn ''YWI'' ''Y2Q'' (8 * hour) ''secret''] (snd house_login)"
proof -
  have "create_session (\<lambda>s. s) (Some ''ab'') (Some ''cd'') 0 ''secret''
     (configure_sessions (\<lambda>s. s) ''secret'' True (new_session_manager [])) = (Some (''YWI'', ''Y2Q'', 8 * hour), snd house_login)"
    using house_login_tokens unfolding house_login_def by (metis prod.collapse)
  from run_login [OF run_start this] show ?thesis by simp
qed

lemma login_usable_witness:
  "auth_middleware (\<lambda>s. s) ''secret'' 5 6 house_request (Some (snd house_login)) = (Proceed, Some (snd house_login))"
proof -
  have c: "create_session (\<lambda>s. s) (Some ''ab'') (Some ''cd'') 0 ''secret''
     (configure_sessions (\<lambda>s. s) ''secret'' True (new_session_manager [])) = (Some (''YWI'', ''Y2Q'', 8 * hour), snd house_login)"
    using house_login_tokens unfolding house_login_def by (metis prod.collapse)
  have "(6::int) < 0 + 8 * hour" "(5::int) < 0 + 8 * hour"
    by (simp_all add: hour_def minute_def second_def)
  then show ?thesis
    using login_usable [OF c, of 5 6 house_request] by (simp add: configure_sessions_def house_request_def)
qed

lemma accepted_request_logged_in_witness:
  "\<exists>v csrf expires. rq_session_cookie house_request = Some v \<and>
     LoggedIn v csrf expires ''secret'' \<in> set [LoggedIn ''YWI'' ''Y2Q'' (8 * hour) ''secret''] \<and> (5::int) < expires"
proof -
  have b: "\<not> bearer_ok (\<lambda>s. s) ''secret'' house_request" by code_simp
  have l: "sm_sessions (snd house_login) = [''YWI'' \<mapsto> \<lparr>bs_csrf = ''Y2Q'', bs_expires = 8 * hour\<rparr>]"
    using house_login_tokens
    by (auto simp: house_login_def create_session_def Let_def configure_sessions_def new_session_manager_def
        split: option.splits)
  have t: "(6::int) < 8 * hour" "(5::int) < 8 * hour" by (simp_all add: hour_def minute_def second_def)
  have "auth_middleware (\<lambda>s. s) ''secret'' 5 6 house_request (Some (snd house_login)) = (Proceed, Some (snd house_login))"
    using b t by (simp add: auth_middleware_def authenticate_def validate_csrf_def lookup_session_def Let_def l house_request_def)
  from accepted_request_logged_in [OF house_login_run _ b this] obtain pre post v csrf ex provided where
    e: "[LoggedIn ''YWI'' ''Y2Q'' (8 * hour) ''secret''] = pre @ LoggedIn v csrf ex provided # post"
    and p: "provided = ''secret''" "rq_session_cookie house_request = Some v" "5 < ex" by auto
  have "LoggedIn v csrf ex ''secret'' \<in> set [LoggedIn ''YWI'' ''Y2Q'' (8 * hour) ''secret'']"
    unfolding e using p(1) by simp
  with p(2,3) show ?thesis by blast
qed

end
