(* ===== verification/Go_Strconv.thy ===== *)
theory Go_Strconv
  imports Go_Strings
begin

text \<open>
  Go's \<open>strconv.ParseInt(s, 10, 64)\<close> and the decimal text of an \<open>int64\<close>. The value of \<open>ParseInt\<close> is
  used by the program even when there is an error: it is 0 after a syntax error and the nearest end of
  the range after an overflow, and the digits after the one that overflows are not read.
\<close>

definition max_uint64 :: nat where "max_uint64 = 18446744073709551615"

text \<open>\<open>None\<close> is a syntax error; the flag tells whether the value was in range.\<close>

fun parse_digits :: "nat \<Rightarrow> string \<Rightarrow> (nat \<times> bool) option" where
  "parse_digits n [] = Some (n, True)"
| "parse_digits n (c # s) =
     (if \<not> is_digit c then None
      else if max_uint64 < 10 * n + (byte c - 48) then Some (max_uint64, False)
      else parse_digits (10 * n + (byte c - 48)) s)"

definition parse_unsigned :: "string \<Rightarrow> (nat \<times> bool) option" where
  "parse_unsigned s = (if s = [] then None else parse_digits 0 s)"

definition int64_max :: int where "int64_max = 9223372036854775807"
definition int64_min :: int where "int64_min = -9223372036854775808"

definition parse_int :: "string \<Rightarrow> int \<times> bool" where
  "parse_int s =
     (let neg = has_prefix s ''-'';
          digits = (if neg \<or> has_prefix s ''+'' then tl s else s)
      in case parse_unsigned digits of
           None \<Rightarrow> (0, False)
         | Some (un, ok) \<Rightarrow>
             if \<not> neg \<and> int64_max < int un then (int64_max, False)
             else if neg \<and> int un > int64_max + 1 then (int64_min, False)
             else (if neg then - int un else int un, ok))"

definition decimal_int :: "int \<Rightarrow> string" where
  "decimal_int n = (if n < 0 then CHR ''-'' # decimal_nat (nat (- n)) else decimal_nat (nat n))"

subsection \<open>Facts\<close>

lemma digit_char_facts:
  assumes "n < 10"
  shows "is_digit (digit_char n)" "byte (digit_char n) = 48 + n"
  using assms by (simp_all add: digit_char_def is_digit_def byte_char_of)

lemma decimal_nat_digits: "\<forall>c \<in> set (decimal_nat n). is_digit c" "decimal_nat n \<noteq> []"
proof (induction n rule: decimal_nat.induct)
  case (1 n)
  {
    case 1
    show ?case using "1.IH" by (subst decimal_nat.simps) (auto simp: digit_char_facts)
  next
    case 2
    show ?case by (subst decimal_nat.simps) auto
  }
qed

lemma parse_digits_append:
  "parse_digits n xs = Some (m, True) \<Longrightarrow> parse_digits n (xs @ ys) = parse_digits m ys"
  by (induction n xs rule: parse_digits.induct) (auto split: if_splits)

lemma parse_digits_decimal: "n \<le> max_uint64 \<Longrightarrow> parse_digits 0 (decimal_nat n) = Some (n, True)"
proof (induction n rule: decimal_nat.induct)
  case (1 n)
  show ?case
  proof (cases "n < 10")
    case True
    then show ?thesis
      by (subst decimal_nat.simps) (simp add: digit_char_facts max_uint64_def)
  next
    case False
    have "n div 10 \<le> n" by simp
    with 1 False have "parse_digits 0 (decimal_nat (n div 10)) = Some (n div 10, True)" by simp
    then have "parse_digits 0 (decimal_nat (n div 10) @ [digit_char (n mod 10)])
        = parse_digits (n div 10) [digit_char (n mod 10)]"
      by (rule parse_digits_append)
    with False 1(2) show ?thesis
      by (subst decimal_nat.simps) (simp add: digit_char_facts)
  qed
qed

lemma no_sign_decimal:
  "\<not> has_prefix (decimal_nat n) ''-''" "\<not> has_prefix (decimal_nat n) ''+''"
  using decimal_nat_digits [of n]
  by (cases "decimal_nat n"; auto simp: has_prefix_def is_digit_def byte_def)+

text \<open>Reading back the decimal text of an \<open>int64\<close>.\<close>

lemma parse_int_decimal:
  assumes "int64_min \<le> n" "n \<le> int64_max"
  shows "parse_int (decimal_int n) = (n, True)"
proof (cases "n < 0")
  case True
  with assms have "parse_digits 0 (decimal_nat (nat (- n))) = Some (nat (- n), True)"
    by (intro parse_digits_decimal) (simp add: max_uint64_def int64_min_def)
  with True assms show ?thesis
    by (simp add: parse_int_def decimal_int_def parse_unsigned_def decimal_nat_digits has_prefix_def
        int64_min_def int64_max_def)
next
  case False
  with assms have "parse_digits 0 (decimal_nat (nat n)) = Some (nat n, True)"
    by (intro parse_digits_decimal) (simp add: max_uint64_def int64_max_def)
  with False assms show ?thesis
    by (simp add: parse_int_def decimal_int_def parse_unsigned_def decimal_nat_digits no_sign_decimal)
qed

end
