(* ===== verification/Dis_Names.thy ===== *)
theory Dis_Names
  imports Shared_Models Go_Strconv
begin

text \<open>
  The names the discovery service compares devices by: canonical host names
  (\<open>internal/inventory/hostname.go\<close>, \<open>internal/correlation/hostname.go\<close>), normalised hardware addresses
  and persistent identities (\<open>internal/inventory/pdid.go\<close>). SHA-256 is the parameter \<open>sha\<close>, from a text to
  the bytes of its digest; the bytes of \<open>crypto/rand\<close> and the clock are arguments.
\<close>

subsection \<open>Canonical host names\<close>

definition canonical_suffixes :: "string list" where
  "canonical_suffixes =
     [''.home.arpa'', ''.localdomain'', ''.internal'', ''.local'', ''.lan'', ''.home'', ''.corp'',
      ''.priv'', ''.intranet'']"

text \<open>One round of the loop over the suffixes: the first that fits is cut off.\<close>

definition matching_suffix :: "string \<Rightarrow> string option" where
  "matching_suffix h = find (has_suffix h) canonical_suffixes"

lemma matching_suffix_shorter:
  assumes "matching_suffix h = Some suf"
  shows "length (trim_suffix h suf) < length h"
proof -
  from assms have "suf \<in> set canonical_suffixes" "has_suffix h suf"
    by (auto simp: matching_suffix_def find_Some_iff in_set_conv_nth)
  then show ?thesis
    by (auto simp: canonical_suffixes_def has_suffix_def trim_suffix_def)
qed

function strip_suffixes :: "string \<Rightarrow> string" where
  "strip_suffixes h =
     (case matching_suffix h of None \<Rightarrow> h | Some suf \<Rightarrow> strip_suffixes (trim_suffix h suf))"
  by pat_completeness auto
termination
  by (relation "measure length") (auto dest: matching_suffix_shorter)

declare strip_suffixes.simps [simp del]

lemma replace_dots_length:
  "length (replace_all ''..'' ''.'' s) \<le> length s"
  "contains_sub s ''..'' \<Longrightarrow> length (replace_all ''..'' ''.'' s) < length s"
proof (induction "''..''" "''.''" s rule: replace_all.induct)
  case (1 s)
  {
    case 1
    show ?case using "1.hyps" by (subst replace_all.simps) (fastforce split: list.splits simp: has_prefix_def)
  next
    case 2
    show ?case
    proof (cases s)
      case (Cons c r)
      show ?thesis
      proof (cases "has_prefix s ''..''")
        case True
        with Cons "1.hyps"(1) [OF Cons] obtain d r' where "r = d # r'"
          "length (replace_all ''..'' ''.'' r') \<le> length r'"
          by (cases r) (auto simp: has_prefix_def)
        with True Cons show ?thesis by (subst replace_all.simps) simp
      next
        case False
        with Cons 2 "1.hyps"(4) [OF Cons] show ?thesis by (subst replace_all.simps) simp
      qed
    qed (use 2 in simp)
  }
qed

text \<open>The loop that collapses runs of dots.\<close>

function collapse_dots :: "string \<Rightarrow> string" where
  "collapse_dots h = (if contains_sub h ''..'' then collapse_dots (replace_all ''..'' ''.'' h) else h)"
  by pat_completeness auto
termination
  by (relation "measure length") (auto simp: replace_dots_length)

declare collapse_dots.simps [simp del]

definition canonicalize_hostname :: "string \<Rightarrow> string" where
  "canonicalize_hostname raw =
     (let h = trim_suffix (to_lower (trim_space raw)) ''.''
      in if h = [] then []
         else trim_by (\<lambda>c. c = CHR ''.'') (collapse_dots (strip_suffixes h)))"

definition hostnames_equivalent :: "string \<Rightarrow> string \<Rightarrow> bool" where
  "hostnames_equivalent a b =
     (let ca = canonicalize_hostname a; cb = canonicalize_hostname b
      in if ca = [] \<or> cb = [] then False else ca = cb)"

subsection \<open>Hardware addresses\<close>

definition normalize_mac :: "string \<Rightarrow> string" where
  "normalize_mac s =
     (if s = [] then []
      else let hw = (case parse_mac s of
               Some hw \<Rightarrow> Some hw
             | None \<Rightarrow>
                 (let c = replace_all '':'' [] (replace_all ''.'' [] (replace_all ''-'' [] s))
                  in if length c = 12 then
                       parse_mac (join '':'' [take 2 c, take 2 (drop 2 c), take 2 (drop 4 c),
                         take 2 (drop 6 c), take 2 (drop 8 c), take 2 (drop 10 c)])
                     else None))
       in case hw of None \<Rightarrow> [] | Some hw \<Rightarrow> if hw = [] then [] else mac_string hw)"

definition is_locally_administered :: "string \<Rightarrow> bool" where
  "is_locally_administered mac =
     (case parse_mac mac of None \<Rightarrow> False
      | Some hw \<Rightarrow> if length hw \<noteq> 6 then False else hd hw AND 2 \<noteq> 0)"

subsection \<open>Persistent identities\<close>

text \<open>\<open>hex.EncodeToString\<close> and the version bits of a random identity; \<open>None\<close> when the source of
  randomness fails.\<close>

definition hex_string :: "u8 list \<Rightarrow> string" where
  "hex_string bs = concat (map hex_byte bs)"

definition new_permanent_identity :: "u8 list option \<Rightarrow> (string \<times> string) option" where
  "new_permanent_identity rand =
     map_option (\<lambda>raw.
       let raw1 = raw[6 := (raw ! 6 AND 0x0F) OR 0x40];
           raw2 = raw1[8 := (raw1 ! 8 AND 0x3F) OR 0x80];
           v = hex_string raw2
       in (''dev_'' @ v, ''pdid_'' @ v)) rand"

definition tier_prefix :: "identity_tier \<Rightarrow> string" where
  "tier_prefix tier =
     (case tier of TierBIA \<Rightarrow> ''pdid_bia_'' | TierL7 \<Rightarrow> ''pdid_l7_'' | TierTentative \<Rightarrow> ''pdid_tent_'')"

definition tier_salt :: "identity_tier \<Rightarrow> string" where
  "tier_salt tier =
     (case tier of TierBIA \<Rightarrow> ''bia_v2:'' | TierL7 \<Rightarrow> ''l7_v2:'' | TierTentative \<Rightarrow> ''tent_v2:'')"

definition generate_pdid :: "(string \<Rightarrow> u8 list) \<Rightarrow> identity_tier \<Rightarrow> string \<Rightarrow> string" where
  "generate_pdid sha tier anchor = tier_prefix tier @ take 16 (hex_string (sha (tier_salt tier @ anchor)))"

definition derive_tier_and_anchor ::
  "time \<Rightarrow> string \<Rightarrow> string \<Rightarrow> string \<Rightarrow> identity_tier \<times> string" where
  "derive_tier_and_anchor now mac host vend =
     (let cm = normalize_mac mac; ch = to_lower (trim_space host)
      in if cm \<noteq> [] \<and> \<not> is_locally_administered cm then (TierBIA, cm)
         else if ch \<noteq> [] then (TierL7, if vend \<noteq> [] then ch @ '':'' @ vend else ch)
         else (TierTentative, if cm = [] then ''tent_'' @ decimal_int (unix_nano now) else cm))"

definition can_promote :: "identity_tier \<Rightarrow> identity_tier \<Rightarrow> bool" where
  "can_promote from to =
     (if from = TierTentative then to = TierL7 \<or> to = TierBIA
      else if from = TierL7 then to = TierBIA else False)"

subsection \<open>Canonical names have one form\<close>

lemma contains_sub_iff: "contains_sub s p \<longleftrightarrow> (\<exists>u v. s = u @ p @ v)"
proof (induction s p rule: contains_sub.induct)
  case (2 c s p)
  show ?case
  proof
    assume "contains_sub (c # s) p"
    then consider "has_prefix (c # s) p" | "contains_sub s p" by auto
    then show "\<exists>u v. c # s = u @ p @ v"
    proof cases
      case 1 then show ?thesis by (metis append_Nil has_prefix_iff)
    next
      case 2 with "2.IH" show ?thesis by (metis append_Cons)
    qed
  next
    assume "\<exists>u v. c # s = u @ p @ v"
    then obtain u v where "c # s = u @ p @ v" by blast
    show "contains_sub (c # s) p"
    proof (cases u)
      case Nil
      with \<open>c # s = u @ p @ v\<close> have "has_prefix (c # s) p" by simp
      then show ?thesis by simp
    next
      case (Cons a u')
      with \<open>c # s = u @ p @ v\<close> have "s = u' @ p @ v" by simp
      with "2.IH" have "contains_sub s p" by blast
      then show ?thesis by simp
    qed
  qed
qed auto

lemma trim_by_sub: "\<exists>u v. s = u @ trim_by p s @ v"
proof -
  have "s = takeWhile p s @ dropWhile p s" by simp
  moreover have "dropWhile p s = rev (dropWhile p (rev (dropWhile p s))) @ rev (takeWhile p (rev (dropWhile p s)))"
    by (metis rev_append rev_rev_ident takeWhile_dropWhile_id)
  ultimately show ?thesis unfolding trim_by_def by (metis append.assoc)
qed

lemma trim_by_ends:
  assumes "trim_by p s \<noteq> []"
  shows "\<not> p (hd (trim_by p s))" "\<not> p (last (trim_by p s))"
proof -
  let ?d = "dropWhile p (rev (dropWhile p s))"
  have ne: "?d \<noteq> []" using assms by (simp add: trim_by_def)
  then have "\<not> p (hd ?d)" by (rule hd_dropWhile)
  with ne show "\<not> p (last (trim_by p s))" by (simp add: trim_by_def last_rev)
  have "last ?d = last (rev (dropWhile p s))"
    using ne by (metis last_append takeWhile_dropWhile_id)
  moreover have "dropWhile p s \<noteq> []" using ne by (metis dropWhile.simps(1) rev.simps(1))
  moreover from this have "\<not> p (hd (dropWhile p s))" by (rule hd_dropWhile)
  ultimately show "\<not> p (hd (trim_by p s))"
    using ne by (simp add: trim_by_def hd_rev last_rev)
qed

lemma set_replace_all: "set (replace_all old new s) \<subseteq> set s \<union> set new"
proof (induction old new s rule: replace_all.induct)
  case (1 old new s)
  show ?case
  proof (cases s)
    case (Cons c r)
    show ?thesis
    proof (cases "old \<noteq> [] \<and> has_prefix s old")
      case True
      with "1.IH"(1) [OF Cons True] Cons show ?thesis
        using set_drop_subset [of "length old" "c # r"] by (subst replace_all.simps) auto
    next
      case False
      with "1.IH"(2) [OF Cons False] Cons show ?thesis by (subst replace_all.simps) auto
    qed
  qed (simp add: replace_all.simps)
qed

lemma set_collapse_dots: "set (collapse_dots s) \<subseteq> set s \<union> {CHR ''.''}"
proof (induction s rule: collapse_dots.induct)
  case (1 h)
  then show ?case
    using set_replace_all [of "''..''" "''.''" h] by (subst collapse_dots.simps) auto
qed

lemma collapse_dots_done: "\<not> contains_sub (collapse_dots s) ''..''"
proof (induction s rule: collapse_dots.induct)
  case (1 h)
  then show ?case by (subst collapse_dots.simps) auto
qed

lemma set_trim_suffix: "set (trim_suffix s p) \<subseteq> set s"
  by (auto simp: trim_suffix_def dest: in_set_takeD)

lemma set_strip_suffixes: "set (strip_suffixes s) \<subseteq> set s"
proof (induction s rule: strip_suffixes.induct)
  case (1 h)
  then show ?case
    using set_trim_suffix [of h] by (subst strip_suffixes.simps) (fastforce split: option.splits)
qed

lemma set_trim_by: "set (trim_by p s) \<subseteq> set s"
  by (auto simp: trim_by_def dest!: set_dropWhileD)

lemma to_lower_fixed: "to_lower s = s \<longleftrightarrow> (\<forall>c \<in> set s. lower_char c = c)"
  by (simp add: to_lower_def map_idI list_eq_iff_nth_eq in_set_conv_nth Ball_def) metis

text \<open>A canonical host name is in lower case, has no two dots in a row and neither starts nor ends with
  a dot, whatever the raw name is.\<close>

theorem canonical_shape:
  "let c = canonicalize_hostname raw
   in to_lower c = c \<and> \<not> contains_sub c ''..'' \<and> (c = [] \<or> hd c \<noteq> CHR ''.'' \<and> last c \<noteq> CHR ''.'')"
proof -
  define h where "h = trim_suffix (to_lower (trim_space raw)) ''.''"
  define d where "d = collapse_dots (strip_suffixes h)"
  have c: "canonicalize_hostname raw = (if h = [] then [] else trim_by (\<lambda>c. c = CHR ''.'') d)"
    by (simp add: canonicalize_hostname_def h_def d_def)
  have "\<forall>c \<in> set (to_lower (trim_space raw)). lower_char c = c"
    using to_lower_fixed [of "to_lower (trim_space raw)"] by simp
  then have "\<forall>c \<in> set h \<union> {CHR ''.''}. lower_char c = c"
    using set_trim_suffix [of "to_lower (trim_space raw)" "''.''"] unfolding h_def
    by (auto simp: lower_char_def [of "CHR ''.''"] byte_def)
  then have "to_lower (canonicalize_hostname raw) = canonicalize_hostname raw"
    unfolding to_lower_fixed c d_def
    using set_trim_by set_collapse_dots set_strip_suffixes by (auto split: if_splits) blast
  moreover obtain u v where "d = u @ trim_by (\<lambda>c. c = CHR ''.'') d @ v"
    using trim_by_sub by blast
  then have "\<not> contains_sub (canonicalize_hostname raw) ''..''"
    using collapse_dots_done [of "strip_suffixes h"] unfolding c contains_sub_iff d_def [symmetric]
    by auto (metis append.assoc)
  ultimately show ?thesis
    using trim_by_ends [of "\<lambda>c. c = CHR ''.''" d] by (auto simp: c Let_def)
qed

subsection \<open>A local domain does not change a device's name\<close>

lemma no_nested_suffixes:
  assumes "s \<in> set canonical_suffixes" "s' \<in> set canonical_suffixes" "has_suffix s s'"
  shows "s = s'"
  using assms unfolding canonical_suffixes_def list.set insert_iff empty_iff
  by (elim disjE FalseE; hypsubst) (simp_all add: has_suffix_def)

lemma suffixes_comparable:
  "has_suffix (h @ s) s' \<Longrightarrow> has_suffix s s' \<or> has_suffix s' s"
  by (auto simp: has_suffix_iff append_eq_append_conv2)

lemma find_unique: "x \<in> set xs \<Longrightarrow> P x \<Longrightarrow> \<forall>y \<in> set xs. P y \<longrightarrow> y = x \<Longrightarrow> find P xs = Some x"
proof (induction xs)
  case (Cons a xs)
  show ?case
  proof (cases "P a")
    case True
    with Cons.prems(3) have "a = x" by (meson list.set_intros(1))
    with True show ?thesis by simp
  next
    case False
    with Cons.prems(1,2) have "x \<in> set xs" by auto
    with Cons.IH Cons.prems(2,3) have "find P xs = Some x" by (meson list.set_intros(2))
    with False show ?thesis by simp
  qed
qed simp

lemma matching_suffix_append:
  assumes "suf \<in> set canonical_suffixes"
  shows "matching_suffix (h @ suf) = Some suf"
  unfolding matching_suffix_def
proof (rule find_unique [OF assms])
  show "has_suffix (h @ suf) suf" by (simp add: has_suffix_def)
  show "\<forall>y \<in> set canonical_suffixes. has_suffix (h @ suf) y \<longrightarrow> y = suf"
    using suffixes_comparable no_nested_suffixes assms by metis
qed

lemma strip_suffixes_append:
  "suf \<in> set canonical_suffixes \<Longrightarrow> strip_suffixes (h @ suf) = strip_suffixes h"
  by (subst strip_suffixes.simps) (simp add: matching_suffix_append)

lemma strip_suffixes_Nil: "strip_suffixes [] = []"
  by (subst strip_suffixes.simps) (simp add: matching_suffix_def canonical_suffixes_def has_suffix_def)

lemma canonical_Nil: "trim_by (\<lambda>c. c = CHR ''.'') (collapse_dots (strip_suffixes [])) = []"
  by (simp add: strip_suffixes_Nil) (subst collapse_dots.simps, simp)

lemma trim_space_append:
  assumes "w \<noteq> []" "\<not> is_space (last w)" "v = [] \<or> \<not> is_space (last v)" "v = [] \<Longrightarrow> \<not> is_space (hd w)"
  shows "trim_space (v @ w) = trim_space v @ w"
proof -
  have right: "rev (dropWhile is_space (rev x)) = x" if "x = [] \<or> \<not> is_space (last x)" for x
    using that by (cases x rule: rev_cases) auto
  have "dropWhile is_space (v @ w) = dropWhile is_space v @ w"
  proof (cases "v = []")
    case True
    with assms show ?thesis by (cases w) auto
  next
    case False
    with assms(3) have "\<exists>x \<in> set v. \<not> is_space x" using last_in_set by blast
    then show ?thesis by (auto simp: dropWhile_append)
  qed
  moreover have "dropWhile is_space v = [] \<or> \<not> is_space (last (dropWhile is_space v))"
    using assms(3) by (metis dropWhile.simps(1) dropWhile_eq_Nil_conv last_appendR takeWhile_dropWhile_id)
  ultimately show ?thesis
    using assms(1,2) right [of "dropWhile is_space v @ w"] right [of "dropWhile is_space v"]
    by (simp add: trim_space_def trim_by_def)
qed

lemma to_lower_append: "to_lower (v @ w) = to_lower v @ to_lower w"
  by (simp add: to_lower_def)

lemma to_lower_ends: "s \<noteq> [] \<Longrightarrow> hd (to_lower s) = lower_char (hd s)" "s \<noteq> [] \<Longrightarrow> last (to_lower s) = lower_char (last s)"
  by (simp_all add: to_lower_def hd_map last_map)

lemma lower_char_dot: "lower_char c = CHR ''.'' \<longleftrightarrow> c = CHR ''.''"
proof
  assume "lower_char c = CHR ''.''"
  then have "byte (lower_char c) = 46" by (simp add: byte_def)
  moreover have "byte (lower_char c) = (if 65 \<le> byte c \<and> byte c \<le> 90 then byte c + 32 else byte c)"
    by (simp add: lower_char_def byte_char_of)
  ultimately have "byte c = byte (CHR ''.'')" by (simp add: byte_def split: if_splits)
  then show "c = CHR ''.''" by (simp only: byte_inject)
qed (simp add: lower_char_def byte_def)

lemma canonical_suffix_chars:
  "\<forall>s \<in> set canonical_suffixes. s \<noteq> [] \<and> \<not> is_space (last s) \<and> \<not> is_space (hd s) \<and> \<not> has_suffix s ''.''"
  by (simp add: canonical_suffixes_def has_suffix_def is_space_def byte_def)

lemma suffix_facts:
  assumes "to_lower suf \<in> set canonical_suffixes"
  shows "suf \<noteq> []" "\<not> is_space (last suf)" "\<not> is_space (hd suf)" "\<not> has_suffix (to_lower suf) ''.''"
  using canonical_suffix_chars assms to_lower_ends [of suf] by (auto dest!: bspec [where x = "to_lower suf"])

lemma has_suffix_append_last: "w \<noteq> [] \<Longrightarrow> has_suffix (v @ w) [c] = has_suffix w [c]"
  by (cases w rule: rev_cases) (auto simp: has_suffix_iff)

lemma has_suffix_last: "has_suffix w [c] \<longleftrightarrow> w \<noteq> [] \<and> last w = c"
  by (cases w rule: rev_cases) (auto simp: has_suffix_iff)

lemma trim_space_last:
  assumes "h = [] \<or> \<not> is_space (last h)" "trim_space h \<noteq> []"
  shows "last (trim_space h) = last h"
proof -
  obtain g c where h: "h = g @ [c]" using assms(2) by (cases h rule: rev_cases) auto
  with assms(1) have "\<not> is_space c" by simp
  with h show ?thesis by (simp add: trim_space_def trim_by_def dropWhile_append)
qed

lemma canonicalize_clean:
  assumes "h = [] \<or> \<not> is_space (last h) \<and> last h \<noteq> CHR ''.''"
  shows "canonicalize_hostname h =
    trim_by (\<lambda>c. c = CHR ''.'') (collapse_dots (strip_suffixes (to_lower (trim_space h))))"
proof (cases "trim_space h = []")
  case True
  then show ?thesis by (simp add: canonicalize_hostname_def trim_suffix_def canonical_Nil)
next
  case False
  with assms have "last (trim_space h) = last h" "h \<noteq> []" using trim_space_last [of h] by auto
  with False assms have "\<not> has_suffix (to_lower (trim_space h)) ''.''"
    using to_lower_ends(2) [OF False] by (simp add: has_suffix_last lower_char_dot)
  with False show ?thesis by (simp add: canonicalize_hostname_def trim_suffix_def)
qed

text \<open>The local domain a source appends does not matter: for each of the nine suffixes, in any
  capitalisation and with or without the final dot of a fully qualified name, the canonical name is
  that of the bare name, so the names count as equivalent and the identity derived from them is the same.\<close>

theorem suffix_variants_same_identity:
  assumes "to_lower suf \<in> set canonical_suffixes"
    and "h = [] \<or> \<not> is_space (last h) \<and> last h \<noteq> CHR ''.''"
    and "raw \<in> {h, h @ suf, h @ suf @ ''.''}"
  shows "canonicalize_hostname raw = canonicalize_hostname h
    \<and> (canonicalize_hostname h \<noteq> [] \<longrightarrow> hostnames_equivalent raw h)
    \<and> derive_tier_and_anchor now mac (canonicalize_hostname raw) vend
        = derive_tier_and_anchor now mac (canonicalize_hostname h) vend"
proof -
  note suf = suffix_facts [OF assms(1)]
  have base: "canonicalize_hostname h =
      trim_by (\<lambda>c. c = CHR ''.'') (collapse_dots (strip_suffixes (to_lower (trim_space h) @ to_lower suf)))"
    using canonicalize_clean [OF assms(2)] by (simp add: strip_suffixes_append [OF assms(1)])
  have trim: "trim_space (h @ suf) = trim_space h @ suf"
    using suf assms(2) by (intro trim_space_append) auto
  have "canonicalize_hostname (h @ suf) = canonicalize_hostname h"
  proof -
    have "\<not> has_suffix (to_lower (trim_space h) @ to_lower suf) ''.''"
      using suf by (simp add: has_suffix_append_last)
    then show ?thesis
      using suf trim by (simp add: canonicalize_hostname_def [of "h @ suf"] to_lower_append trim_suffix_def base)
  qed
  moreover have "canonicalize_hostname (h @ suf @ ''.'') = canonicalize_hostname h"
  proof -
    have "trim_space ((h @ suf) @ ''.'') = trim_space (h @ suf) @ ''.''"
      using suf by (intro trim_space_append) (auto simp: is_space_def byte_def)
    moreover have "to_lower ''.'' = ''.''" by (simp add: to_lower_def lower_char_def byte_def)
    ultimately have "trim_suffix (to_lower (trim_space (h @ suf @ ''.''))) ''.''
        = to_lower (trim_space h) @ to_lower suf"
      using trim trim_suffix_append [of "to_lower (trim_space h @ suf)" "''.''"]
      by (simp add: to_lower_append)
    then show ?thesis using suf by (simp add: canonicalize_hostname_def [of "h @ suf @ ''.''"] base)
  qed
  ultimately have "canonicalize_hostname raw = canonicalize_hostname h" using assms(3) by auto
  then show ?thesis by (simp add: hostnames_equivalent_def)
qed

lemma suffix_variants_same_identity_witness:
  "canonicalize_hostname ''Tv.Lan.'' = canonicalize_hostname ''Tv''"
  using suffix_variants_same_identity [of "''.Lan''" "''Tv''" "''Tv.Lan.''"]
  by (simp add: canonical_suffixes_def to_lower_def lower_char_def byte_def is_space_def char_of_def bit_Suc_0_iff)

subsection \<open>Spellings of a hardware address\<close>

lemma hex_byte_chars: "\<forall>c \<in> set (hex_byte w). c \<notin> {CHR ''-'', CHR ''.'', CHR '':''}"
proof -
  have "unat w < 2 ^ LENGTH(8)" by (rule unsigned_less)
  then have "unat w div 16 < 16" "unat w mod 16 < 16" by simp_all
  then have "hex_val c \<noteq> None" if "c \<in> set (hex_byte w)" for c
    using that by (auto simp: hex_byte_def hex_val_digit_char)
  then show ?thesis by (fastforce simp: hex_val_def byte_def)
qed

lemma replace_all_absent: "old = [c] \<Longrightarrow> c \<notin> set s \<Longrightarrow> replace_all old new s = s"
proof (induction old new s rule: replace_all.induct)
  case (1 old new s)
  then show ?case
    by (subst replace_all.simps) (auto simp: has_prefix_def split: list.splits)
qed

lemma six_list: "length hw = 6 \<Longrightarrow> \<exists>a b c d e f. hw = [a, b, c, d, e, f]"
  by (auto simp: numeral_eq_Suc length_Suc_conv)

lemma length_hex_byte [simp]: "length (hex_byte w) = 2"
  by (simp add: hex_byte_def)

text \<open>The four usual spellings of a 48-bit hardware address (colons, dashes, dotted quads and twelve bare
  digits) normalise to the colon form, and normalising again changes nothing.\<close>

theorem mac_spellings:
  assumes "length hw = 6"
    and "s \<in> {mac_string hw, join ''-'' (map hex_byte hw), concat (map hex_byte hw),
       join ''.'' [concat (map hex_byte (take 2 hw)), concat (map hex_byte (take 2 (drop 2 hw))),
         concat (map hex_byte (drop 4 hw))]}"
  shows "normalize_mac s = mac_string hw \<and> normalize_mac (normalize_mac s) = mac_string hw"
proof -
  from assms(1) have ok: "mac_length_ok (length hw)" by (simp add: mac_length_ok_def)
  obtain a b c d e f where hw: "hw = [a, b, c, d, e, f]" using six_list [OF assms(1)] by blast
  have of_parse: "normalize_mac t = mac_string hw" if "parse_mac t = Some hw" for t
    using that assms(1) by (auto simp: normalize_mac_def parse_mac_def Let_def split: option.splits)
  note colon = of_parse [OF parse_mac_string [OF ok]]
  have dash: "parse_mac (join ''-'' (map hex_byte hw)) = Some hw"
    using parse_pairs_string [of hw "CHR ''-''"] by (simp add: parse_mac_def hw mac_length_ok_def hex_byte_def)
  have dotted: "parse_mac (join ''.'' [concat (map hex_byte (take 2 hw)),
      concat (map hex_byte (take 2 (drop 2 hw))), concat (map hex_byte (drop 4 hw))]) = Some hw"
    using hex_byte_chars [of b]
    by (simp add: parse_mac_def hw mac_length_ok_def hex_byte_def hex2_hex_byte)
  have bare: "normalize_mac (concat (map hex_byte hw)) = mac_string hw"
  proof -
    have "c \<notin> set (concat (map hex_byte hw))" if "c \<in> {CHR ''-'', CHR ''.'', CHR '':''}" for c
      using hex_byte_chars that by fastforce
    then have "replace_all '':'' [] (replace_all ''.'' [] (replace_all ''-'' [] (concat (map hex_byte hw))))
        = concat (map hex_byte hw)"
      using replace_all_absent by simp
    moreover have "parse_mac (concat (map hex_byte hw)) = None"
      by (simp add: parse_mac_def hw)
    moreover have "join '':'' [take 2 s, take 2 (drop 2 s), take 2 (drop 4 s), take 2 (drop 6 s),
        take 2 (drop 8 s), take 2 (drop 10 s)] = mac_string hw" if "s = concat (map hex_byte hw)" for s
      unfolding that by (simp add: hw hex_byte_def mac_string_def)
    ultimately show ?thesis
      using parse_mac_string [OF ok] assms(1)
      by (auto simp: normalize_mac_def Let_def hw hex_byte_def)
  qed
  from assms(2) have "normalize_mac s = mac_string hw"
    using colon of_parse [OF dash] of_parse [OF dotted] bare by blast
  then show ?thesis using colon by simp
qed

lemma mac_spellings_witness:
  "normalize_mac ''0a0b01020304'' = ''0a:0b:01:02:03:04''"
  using mac_spellings [of "[10, 11, 1, 2, 3, 4]" "''0a0b01020304''"]
  by (simp add: hex_byte_def digit_char_def mac_string_def char_of_def bit_Suc_0_iff)

subsection \<open>Normal forms of hardware addresses\<close>

lemma normalize_mac_cases:
  obtains "normalize_mac s = []" | hw where "mac_length_ok (length hw)" "normalize_mac s = mac_string hw"
proof (cases "normalize_mac s = []")
  case False
  then have "\<exists>hw. mac_length_ok (length hw) \<and> normalize_mac s = mac_string hw"
    by (auto simp: normalize_mac_def Let_def split: if_splits option.splits dest: parse_mac_length)
  with that show ?thesis by blast
qed (use that in blast)

lemma normalize_mac_string [simp]: "mac_length_ok (length hw) \<Longrightarrow> normalize_mac (mac_string hw) = mac_string hw"
  using parse_mac_string [of hw] mac_string_not_Nil [of hw]
  by (cases hw) (auto simp: normalize_mac_def mac_length_ok_def)

lemma normalize_mac_idem [simp]: "normalize_mac (normalize_mac s) = normalize_mac s"
  by (rule normalize_mac_cases [of s]) (simp_all add: normalize_mac_def [of "[]"])

lemma mac_string_chars:
  "c \<in> set (mac_string hw) \<Longrightarrow> c = CHR '':'' \<or> (\<exists>n < 16. c = digit_char n)"
proof -
  have "c \<in> set (join sep xs) \<Longrightarrow> c \<in> set sep \<or> (\<exists>x \<in> set xs. c \<in> set x)" for sep xs and c :: char
    by (induction sep xs rule: join.induct) auto
  moreover have "c \<in> set (hex_byte w) \<Longrightarrow> \<exists>n < 16. c = digit_char n" for w
  proof -
    have "unat w < 2 ^ LENGTH(8)" by (rule unsigned_less)
    then have "unat w div 16 < 16" "unat w mod 16 < 16" by simp_all
    moreover assume "c \<in> set (hex_byte w)"
    then have "c = digit_char (unat w div 16) \<or> c = digit_char (unat w mod 16)" by (auto simp: hex_byte_def)
    ultimately show "\<exists>n < 16. c = digit_char n" by blast
  qed
  ultimately show "c \<in> set (mac_string hw) \<Longrightarrow> c = CHR '':'' \<or> (\<exists>n < 16. c = digit_char n)"
    unfolding mac_string_def by fastforce
qed

lemma mac_string_plain:
  assumes "c \<in> set (mac_string hw)"
  shows "lower_char c = c" "\<not> is_space c"
proof -
  have "byte c = 58 \<or> 48 \<le> byte c \<and> byte c \<le> 57 \<or> 97 \<le> byte c \<and> byte c \<le> 102"
    using mac_string_chars [OF assms] by (auto simp: digit_char_def byte_char_of byte_def [of "CHR '':''"] split: if_splits)
  then show "lower_char c = c" "\<not> is_space c" by (auto simp: lower_char_def is_space_def)
qed

lemma trim_by_none: "\<forall>c \<in> set s. \<not> p c \<Longrightarrow> trim_by p s = s"
proof -
  have none: "\<forall>c \<in> set t. \<not> p c \<Longrightarrow> dropWhile p t = t" for t by (cases t) auto
  assume "\<forall>c \<in> set s. \<not> p c"
  then show ?thesis using none [of s] none [of "rev s"] by (simp add: trim_by_def)
qed

lemma clean_mac_string: "mac_length_ok (length hw) \<Longrightarrow> clean_mac (mac_string hw) = mac_string hw"
  using mac_string_plain [of _ hw] to_lower_fixed [of "mac_string hw"]
  by (simp add: clean_mac_def trim_space_def trim_by_none Let_def parse_mac_string)

lemma clean_normalize_mac [simp]: "normalize_mac s \<noteq> [] \<Longrightarrow> clean_mac (normalize_mac s) = normalize_mac s"
  by (rule normalize_mac_cases [of s]) (simp_all add: clean_mac_string)

end
