(* ===== verification/Dis_Inventory.thy ===== *)
theory Dis_Inventory
  imports Dis_Names
begin

text \<open>
  The device store of the discovery service (\<open>internal/inventory/cache.go\<close>). The map of devices and the
  three indices share pointers to the same device objects, and some operations change an object in
  place while others replace it, so the model has a heap: \<open>iv_heap\<close> gives the object behind a
  reference, \<open>iv_next\<close> is the next fresh one. What a lookup returns is a clone, a value. Each method is one
  critical section. The owner listener is called after the lock is released; its calls (host name,
  PDID, whether it is a release) are a result of the operation.
\<close>

subsection \<open>Operations\<close>

definition offline_ttl :: duration where "offline_ttl = 24 * hour"
definition stale_threshold :: duration where "stale_threshold = 180 * second"

datatype acquisition = AcquireSuccess | AcquireReject | AcquireProvisional

type_synonym ref = nat
type_synonym owner_call = "string \<times> string \<times> bool"

record inventory =
  iv_heap :: "ref \<Rightarrow> device"
  iv_next :: ref
  iv_devices :: "string \<rightharpoonup> ref"
  iv_device_ids :: "string \<rightharpoonup> ref"
  iv_macs :: "string \<rightharpoonup> ref"
  iv_ips :: "string \<rightharpoonup> ref"
  iv_owners :: "string \<rightharpoonup> string"
  iv_listening :: bool

definition new_inventory :: inventory where
  "new_inventory = \<lparr>iv_heap = (\<lambda>_. empty_device), iv_next = 0, iv_devices = Map.empty,
     iv_device_ids = Map.empty, iv_macs = Map.empty, iv_ips = Map.empty, iv_owners = Map.empty,
     iv_listening = False\<rparr>"

definition obj :: "inventory \<Rightarrow> ref \<Rightarrow> device" where "obj c r = iv_heap c r"

definition set_obj :: "ref \<Rightarrow> device \<Rightarrow> inventory \<Rightarrow> inventory" where
  "set_obj r d c = c\<lparr>iv_heap := (iv_heap c)(r := d)\<rparr>"

definition owner_calls :: "inventory \<Rightarrow> owner_call list \<Rightarrow> owner_call list" where
  "owner_calls c calls = (if iv_listening c then calls else [])"

definition set_owner_listener :: "bool \<Rightarrow> inventory \<Rightarrow> inventory" where
  "set_owner_listener on c = c\<lparr>iv_listening := on\<rparr>"

text \<open>The keys of \<open>owners\<close> are distinct, so the order of the loop does not matter.\<close>

definition load_hostname_owners :: "(string \<rightharpoonup> string) \<Rightarrow> inventory \<Rightarrow> inventory" where
  "load_hostname_owners own c =
     c\<lparr>iv_owners := (\<lambda>h. case own h of
          Some p \<Rightarrow> if h \<noteq> [] \<and> p \<noteq> [] then Some p else iv_owners c h
        | None \<Rightarrow> iv_owners c h)\<rparr>"

text \<open>The clock is read at most once: for an offline owner in the second test, for an online one in the
  third.\<close>

definition acquire_hostname ::
  "time \<Rightarrow> string \<Rightarrow> string \<Rightarrow> inventory \<Rightarrow> acquisition \<times> owner_call list \<times> inventory" where
  "acquire_hostname now h p c =
     (let taken = (owner_calls c [(h, p, False)], c\<lparr>iv_owners := (iv_owners c)(h \<mapsto> p)\<rparr>)
      in if h = [] \<or> p = [] then (AcquireReject, [], c)
         else (case iv_owners c h of
             None \<Rightarrow> (AcquireSuccess, taken)
           | Some q \<Rightarrow>
               if q = p then (AcquireSuccess, [], c)
               else (case iv_devices c q of
                   None \<Rightarrow> (AcquireSuccess, taken)
                 | Some r \<Rightarrow>
                     if \<not> online (obj c r) \<and> 24 * hour < time_sub now (last_seen (obj c r))
                     then (AcquireSuccess, taken)
                     else if online (obj c r) \<and> time_sub now (last_seen (obj c r)) < 5 * minute
                     then (AcquireReject, [], c)
                     else (AcquireProvisional, taken))))"

definition actively_owned :: "time \<Rightarrow> string \<Rightarrow> inventory \<Rightarrow> bool" where
  "actively_owned now h c =
     (if h = [] then False
      else (case iv_owners c h of None \<Rightarrow> False
       | Some q \<Rightarrow>
           (case iv_devices c q of None \<Rightarrow> False
            | Some r \<Rightarrow> online (obj c r) \<and> time_sub now (last_seen (obj c r)) < 5 * minute)))"

definition release_hostname :: "string \<Rightarrow> string \<Rightarrow> inventory \<Rightarrow> owner_call list \<times> inventory" where
  "release_hostname h p c =
     (if h = [] \<or> p = [] then ([], c)
      else if iv_owners c h = Some p
      then (owner_calls c [(h, p, True)], c\<lparr>iv_owners := (iv_owners c)(h := None)\<rparr>)
      else ([], c))"

definition get_hostname_owner :: "string \<Rightarrow> inventory \<Rightarrow> string option" where
  "get_hostname_owner h c = (if h = [] then None else iv_owners c h)"

text \<open>The devices whose last sighting is too old go offline; \<open>ks\<close> is the order of the loop.\<close>

fun demote_stale :: "time \<Rightarrow> string list \<Rightarrow> inventory \<Rightarrow> string list \<times> inventory" where
  "demote_stale now [] c = ([], c)"
| "demote_stale now (k # ks) c =
     (case iv_devices c k of
        None \<Rightarrow> demote_stale now ks c
      | Some r \<Rightarrow>
          if online (obj c r) \<and> stale_threshold < time_sub now (last_seen (obj c r))
          then (case demote_stale now ks (set_obj r ((obj c r)\<lparr>online := False\<rparr>) c) of
                  (changed, c') \<Rightarrow> (k # changed, c'))
          else demote_stale now ks c)"

definition get_by_mac :: "string \<Rightarrow> inventory \<Rightarrow> device option" where
  "get_by_mac mac c =
     (let m = normalize_mac mac in if m \<noteq> [] then map_option (obj c) (iv_macs c m) else None)"

definition get_by_mac_cluster :: "string list \<Rightarrow> string \<Rightarrow> inventory \<Rightarrow> device option" where
  "get_by_mac_cluster ks mac c =
     (let m = normalize_mac mac
      in if m = [] then None
         else find (\<lambda>d. has_mac d m) (map (obj c) (range_values (iv_devices c) ks)))"

definition get_by_ip :: "string \<Rightarrow> inventory \<Rightarrow> device option" where
  "get_by_ip ip c =
     (let a = trim_space ip in if a \<noteq> [] then map_option (obj c) (iv_ips c a) else None)"

definition remove_ip_index :: "string \<Rightarrow> inventory \<Rightarrow> inventory" where
  "remove_ip_index ip c =
     (let a = trim_space ip
      in if a = [] then c
         else (case iv_ips c a of None \<Rightarrow> c
           | Some r \<Rightarrow>
               let d = (obj c r)\<lparr>ips := filter (\<lambda>x. x \<noteq> a) (ips (obj c r))\<rparr>;
                   d' = (if current_ip d = a then d\<lparr>current_ip := (if ips d = [] then [] else last (ips d))\<rparr> else d)
               in (set_obj r d' c)\<lparr>iv_ips := (iv_ips c)(a := None)\<rparr>))"

definition set_current_ip :: "string \<Rightarrow> string \<Rightarrow> inventory \<Rightarrow> inventory" where
  "set_current_ip p ip c =
     (let a = trim_space ip
      in if p = [] \<or> a = [] then c
         else (case iv_devices c p of None \<Rightarrow> c
           | Some r \<Rightarrow>
               let c1 = (case iv_ips c a of
                   Some r' \<Rightarrow> if pdid (obj c r') \<noteq> p then set_obj r' ((obj c r')\<lparr>current_ip := []\<rparr>) c else c
                 | None \<Rightarrow> c);
                   c2 = set_obj r ((add_ip (obj c1 r) a)\<lparr>current_ip := a\<rparr>) c1
               in c2\<lparr>iv_ips := (iv_ips c2)(a \<mapsto> r)\<rparr>))"

definition drop_index :: "string \<Rightarrow> string \<Rightarrow> inventory \<Rightarrow> (string \<rightharpoonup> ref) \<Rightarrow> (string \<rightharpoonup> ref)" where
  "drop_index key p c ix =
     (case ix key of Some r \<Rightarrow> if pdid (obj c r) = p then ix(key := None) else ix | None \<Rightarrow> ix)"

definition set_current_mac :: "string \<Rightarrow> string \<Rightarrow> inventory \<Rightarrow> inventory" where
  "set_current_mac p mac c =
     (let m = normalize_mac mac
      in if p = [] \<or> m = [] then c
         else (case iv_devices c p of None \<Rightarrow> c
           | Some r \<Rightarrow>
               let old = normalize_mac (current_mac (obj c r));
                   ix = (if old \<noteq> [] \<and> old \<noteq> m then drop_index old p c (iv_macs c) else iv_macs c)
               in (set_obj r (add_mac (obj c r) m) c)\<lparr>iv_macs := ix(m \<mapsto> r)\<rparr>))"

definition get_device :: "string \<Rightarrow> inventory \<Rightarrow> device option" where
  "get_device p c = map_option (obj c) (iv_devices c p)"

definition get_by_mac_or_ip :: "string list \<Rightarrow> string \<Rightarrow> string \<Rightarrow> inventory \<Rightarrow> device option" where
  "get_by_mac_or_ip ks mac ip c =
     (case get_by_mac mac c of Some d \<Rightarrow> Some d
      | None \<Rightarrow> (case get_by_mac_cluster ks mac c of Some d \<Rightarrow> Some d | None \<Rightarrow> get_by_ip ip c))"

definition get_by_device_id :: "string \<Rightarrow> inventory \<Rightarrow> device option" where
  "get_by_device_id i c = map_option (obj c) (iv_device_ids c (trim_space i))"

definition list_devices :: "string list \<Rightarrow> inventory \<Rightarrow> device list" where
  "list_devices ks c = map (obj c) (range_values (iv_devices c) ks)"

text \<open>\<open>Upsert\<close> takes the keys the old object is indexed by out of the indices, then stores a clone as a new
  object. (A nil device is ignored, as one without PDID.)\<close>

definition forget_old_keys :: "device \<Rightarrow> inventory \<Rightarrow> inventory" where
  "forget_old_keys d c =
     (case iv_devices c (pdid d) of None \<Rightarrow> c
      | Some r \<Rightarrow>
          let old = obj c r; p = pdid d;
              old_mac = normalize_mac (current_mac old); new_mac = normalize_mac (current_mac d);
              old_ip = trim_space (current_ip old); new_ip = trim_space (current_ip d)
          in c\<lparr>iv_device_ids := (if device_id old \<noteq> [] \<and> device_id old \<noteq> device_id d
                                 then (iv_device_ids c)(device_id old := None) else iv_device_ids c),
               iv_macs := (if old_mac \<noteq> [] \<and> old_mac \<noteq> new_mac then drop_index old_mac p c (iv_macs c) else iv_macs c),
               iv_ips := (if old_ip \<noteq> [] \<and> old_ip \<noteq> new_ip then drop_index old_ip p c (iv_ips c) else iv_ips c)\<rparr>)"

definition upsert :: "device \<Rightarrow> inventory \<Rightarrow> inventory" where
  "upsert d c =
     (if pdid d = [] then c
      else let c1 = forget_old_keys d c; r = iv_next c1;
               m = normalize_mac (current_mac d); a = trim_space (current_ip d)
        in c1\<lparr>iv_heap := (iv_heap c1)(r := d), iv_next := r + 1,
              iv_devices := (iv_devices c1)(pdid d \<mapsto> r),
              iv_device_ids := (if device_id d \<noteq> [] then (iv_device_ids c1)(device_id d \<mapsto> r) else iv_device_ids c1),
              iv_macs := (if m \<noteq> [] then (iv_macs c1)(m \<mapsto> r) else iv_macs c1),
              iv_ips := (if a \<noteq> [] then (iv_ips c1)(a \<mapsto> r) else iv_ips c1)\<rparr>)"

definition touch_last_seen :: "string \<Rightarrow> time \<Rightarrow> inventory \<Rightarrow> inventory" where
  "touch_last_seen p ts c =
     (case iv_devices c p of None \<Rightarrow> c | Some r \<Rightarrow> set_obj r (touch (obj c r) ts) c)"

text \<open>What \<open>Delete\<close> and \<open>purgeOffline\<close> do to one device: no test whose the index entries are.\<close>

definition drop_device :: "string \<Rightarrow> ref \<Rightarrow> inventory \<Rightarrow> owner_call list \<times> inventory" where
  "drop_device p r c =
     (let d = obj c r; m = normalize_mac (current_mac d); a = trim_space (current_ip d);
          ch = canonical_hostname d; owned = (ch \<noteq> [] \<and> iv_owners c ch = Some p)
      in (if owned then [(ch, p, True)] else [],
          c\<lparr>iv_macs := (if m \<noteq> [] then (iv_macs c)(m := None) else iv_macs c),
            iv_ips := (if a \<noteq> [] then (iv_ips c)(a := None) else iv_ips c),
            iv_owners := (if owned then (iv_owners c)(ch := None) else iv_owners c),
            iv_device_ids := (iv_device_ids c)(device_id d := None),
            iv_devices := (iv_devices c)(p := None)\<rparr>))"

definition delete_device :: "string \<Rightarrow> inventory \<Rightarrow> owner_call list \<times> inventory" where
  "delete_device p c =
     (case iv_devices c p of None \<Rightarrow> ([], c)
      | Some r \<Rightarrow> (case drop_device p r c of (calls, c') \<Rightarrow> (owner_calls c calls, c')))"

definition purgeable :: "time \<Rightarrow> device \<Rightarrow> bool" where
  "purgeable now d \<longleftrightarrow> \<not> online d \<and> offline_ttl < time_sub now (last_seen d)"

fun purge_loop :: "time \<Rightarrow> string list \<Rightarrow> inventory \<Rightarrow> owner_call list \<times> inventory" where
  "purge_loop now [] c = ([], c)"
| "purge_loop now (k # ks) c =
     (case iv_devices c k of
        None \<Rightarrow> purge_loop now ks c
      | Some r \<Rightarrow>
          if purgeable now (obj c r) then
            (case drop_device k r c of (calls, c1) \<Rightarrow>
               (case purge_loop now ks c1 of (calls', c2) \<Rightarrow> (calls @ calls', c2)))
          else purge_loop now ks c)"

definition purge_offline :: "time \<Rightarrow> string list \<Rightarrow> inventory \<Rightarrow> owner_call list \<times> inventory" where
  "purge_offline now ks c = (case purge_loop now ks c of (calls, c') \<Rightarrow> (owner_calls c calls, c'))"

subsection \<open>The invariant\<close>

text \<open>The map of devices is sound, the hardware and device indices point to live objects that carry their
  key; the address index only points to allocated objects, because \<open>SetCurrentIP\<close> leaves the entry of
  the previous address behind.\<close>

definition index_ok :: "(device \<Rightarrow> string) \<Rightarrow> (string \<rightharpoonup> ref) \<Rightarrow> inventory \<Rightarrow> bool" where
  "index_ok key ix c \<longleftrightarrow>
     (\<forall>k r. ix k = Some r \<longrightarrow> k \<noteq> [] \<and> key (obj c r) = k \<and> iv_devices c (pdid (obj c r)) = Some r)"

definition inventory_ok :: "inventory \<Rightarrow> bool" where
  "inventory_ok c \<longleftrightarrow>
     (\<forall>k r. iv_devices c k = Some r \<longrightarrow> k \<noteq> [] \<and> r < iv_next c \<and> pdid (obj c r) = k)
     \<and> index_ok (\<lambda>d. normalize_mac (current_mac d)) (iv_macs c) c
     \<and> index_ok device_id (iv_device_ids c) c
     \<and> (\<forall>a r. iv_ips c a = Some r \<longrightarrow> a \<noteq> [] \<and> r < iv_next c)
     \<and> (\<forall>h p. iv_owners c h = Some p \<longrightarrow> h \<noteq> [] \<and> p \<noteq> [])"

lemma inventory_ok_new: "inventory_ok new_inventory"
  by (simp add: inventory_ok_def index_ok_def new_inventory_def)

lemma obj_set_obj: "obj (set_obj r d c) r' = (if r' = r then d else obj c r')"
  by (simp add: obj_def set_obj_def)

lemma set_obj_fields [simp]:
  "iv_next (set_obj r d c) = iv_next c" "iv_devices (set_obj r d c) = iv_devices c"
  "iv_device_ids (set_obj r d c) = iv_device_ids c" "iv_macs (set_obj r d c) = iv_macs c"
  "iv_ips (set_obj r d c) = iv_ips c" "iv_owners (set_obj r d c) = iv_owners c"
  "iv_listening (set_obj r d c) = iv_listening c"
  by (simp_all add: set_obj_def)

lemma obj_unaffected [simp]:
  "obj (c\<lparr>iv_owners := x1\<rparr>) r = obj c r" "obj (c\<lparr>iv_ips := x2\<rparr>) r = obj c r" "obj (c\<lparr>iv_macs := x2\<rparr>) r = obj c r"
  "obj (c\<lparr>iv_device_ids := x2\<rparr>) r = obj c r" "obj (c\<lparr>iv_devices := x2\<rparr>) r = obj c r"
  "obj (c\<lparr>iv_listening := x3\<rparr>) r = obj c r"
  by (simp_all add: obj_def)

text \<open>An object may change in place as long as its identifiers and its hardware address stay.\<close>

lemma inventory_ok_set_obj:
  assumes "inventory_ok c" "pdid d = pdid (obj c r)" "device_id d = device_id (obj c r)"
    and "normalize_mac (current_mac d) = normalize_mac (current_mac (obj c r))"
  shows "inventory_ok (set_obj r d c)"
  using assms by (simp add: inventory_ok_def index_ok_def obj_set_obj)

lemma inventory_ok_demote: "inventory_ok c \<Longrightarrow> inventory_ok (snd (demote_stale now ks c))"
proof (induction now ks c rule: demote_stale.induct)
  case (2 now k ks c)
  then show ?case by (auto simp: inventory_ok_set_obj split: option.splits prod.splits)
qed simp

lemma inventory_ok_ips:
  "inventory_ok c \<Longrightarrow> \<forall>a r. ix a = Some r \<longrightarrow> a \<noteq> [] \<and> r < iv_next c \<Longrightarrow> inventory_ok (c\<lparr>iv_ips := ix\<rparr>)"
  by (simp add: inventory_ok_def index_ok_def)

lemma inventory_ok_owners:
  "inventory_ok c \<Longrightarrow> \<forall>h p. ow h = Some p \<longrightarrow> h \<noteq> [] \<and> p \<noteq> [] \<Longrightarrow> inventory_ok (c\<lparr>iv_owners := ow\<rparr>)"
  by (simp add: inventory_ok_def index_ok_def)

lemma inventory_ok_ips_entry: "inventory_ok c \<Longrightarrow> iv_ips c a = Some r \<Longrightarrow> a \<noteq> [] \<and> r < iv_next c"
  by (simp add: inventory_ok_def)

lemma inventory_ok_device: "inventory_ok c \<Longrightarrow> iv_devices c k = Some r \<Longrightarrow> k \<noteq> [] \<and> r < iv_next c \<and> pdid (obj c r) = k"
  by (simp add: inventory_ok_def)

lemma index_okD:
  "index_ok key ix c \<Longrightarrow> ix k = Some r \<Longrightarrow>
   k \<noteq> [] \<and> key (obj c r) = k \<and> iv_devices c (pdid (obj c r)) = Some r"
  by (simp add: index_ok_def)

lemma inventory_ok_index:
  assumes "inventory_ok c"
  shows "iv_macs c m = Some r \<Longrightarrow>
      m \<noteq> [] \<and> normalize_mac (current_mac (obj c r)) = m \<and> iv_devices c (pdid (obj c r)) = Some r"
    "iv_device_ids c i = Some r \<Longrightarrow>
      i \<noteq> [] \<and> device_id (obj c r) = i \<and> iv_devices c (pdid (obj c r)) = Some r"
  using assms by (simp_all add: inventory_ok_def index_ok_def)

lemma inventory_okI:
  assumes "\<And>k r. iv_devices c k = Some r \<Longrightarrow> k \<noteq> [] \<and> r < iv_next c \<and> pdid (obj c r) = k"
    and "\<And>m r. iv_macs c m = Some r \<Longrightarrow>
      m \<noteq> [] \<and> normalize_mac (current_mac (obj c r)) = m \<and> iv_devices c (pdid (obj c r)) = Some r"
    and "\<And>i r. iv_device_ids c i = Some r \<Longrightarrow>
      i \<noteq> [] \<and> device_id (obj c r) = i \<and> iv_devices c (pdid (obj c r)) = Some r"
    and "\<And>a r. iv_ips c a = Some r \<Longrightarrow> a \<noteq> [] \<and> r < iv_next c"
    and "\<And>h p. iv_owners c h = Some p \<Longrightarrow> h \<noteq> [] \<and> p \<noteq> []"
  shows "inventory_ok c"
  unfolding inventory_ok_def index_ok_def using assms by blast

lemma inventory_ok_owners_entry: "inventory_ok c \<Longrightarrow> iv_owners c h = Some p \<Longrightarrow> h \<noteq> [] \<and> p \<noteq> []"
  by (simp add: inventory_ok_def)

lemma inventory_ok_acquire: "inventory_ok c \<Longrightarrow> inventory_ok (snd (snd (acquire_hostname now h p c)))"
  by (auto simp: acquire_hostname_def Let_def inventory_ok_def index_ok_def split: option.splits)

lemma inventory_ok_release: "inventory_ok c \<Longrightarrow> inventory_ok (snd (release_hostname h p c))"
  by (auto simp: release_hostname_def inventory_ok_def index_ok_def)

lemma inventory_ok_load_owners: "inventory_ok c \<Longrightarrow> inventory_ok (load_hostname_owners own c)"
  unfolding load_hostname_owners_def
  by (rule inventory_ok_owners) (auto simp: inventory_ok_def split: option.splits if_splits)

lemma inventory_ok_remove_ip: "inventory_ok c \<Longrightarrow> inventory_ok (remove_ip_index ip c)"
  unfolding remove_ip_index_def Let_def
  by (auto split: option.splits if_splits dest: inventory_ok_ips_entry intro!: inventory_ok_ips inventory_ok_set_obj)

lemma current_mac_unaffected [simp]:
  "current_mac (add_ip d a) = current_mac d" "current_mac (touch d t) = current_mac d"
  "device_id (touch d t) = device_id d"
  by (simp_all add: add_ip_def touch_def Let_def)

lemma inventory_ok_set_ip: "inventory_ok c \<Longrightarrow> inventory_ok (set_current_ip p ip c)"
proof -
  assume ok: "inventory_ok c"
  show ?thesis
  proof (cases "p = [] \<or> trim_space ip = [] \<or> iv_devices c p = None")
    case False
    then obtain r where r: "iv_devices c p = Some r" by blast
    define c1 where "c1 = (case iv_ips c (trim_space ip) of
        Some r' \<Rightarrow> if pdid (obj c r') \<noteq> p then set_obj r' ((obj c r')\<lparr>current_ip := []\<rparr>) c else c
      | None \<Rightarrow> c)"
    have c1: "inventory_ok c1" "iv_devices c1 p = Some r" "iv_next c1 = iv_next c" "iv_ips c1 = iv_ips c"
      using ok r by (auto simp: c1_def inventory_ok_set_obj split: option.splits)
    then have "inventory_ok (set_obj r ((add_ip (obj c1 r) (trim_space ip))\<lparr>current_ip := trim_space ip\<rparr>) c1)"
      by (intro inventory_ok_set_obj) simp_all
    moreover have "\<forall>a r'. ((iv_ips c1)(trim_space ip \<mapsto> r)) a = Some r' \<longrightarrow> a \<noteq> [] \<and> r' < iv_next c1"
      using False c1 inventory_ok_ips_entry [OF ok] inventory_ok_device [OF ok r] by auto
    ultimately show ?thesis
      using False r c1 by (simp add: set_current_ip_def Let_def inventory_ok_ips flip: c1_def)
  qed (use ok in \<open>auto simp: set_current_ip_def Let_def\<close>)
qed

lemma drop_index_Some: "drop_index key p c ix k = Some r \<longleftrightarrow> ix k = Some r \<and> (k = key \<longrightarrow> pdid (obj c r) \<noteq> p)"
  by (auto simp: drop_index_def split: option.splits)

lemma inventory_ok_set_mac: "inventory_ok c \<Longrightarrow> inventory_ok (set_current_mac p mac c)"
proof -
  assume ok: "inventory_ok c"
  let ?m = "normalize_mac mac"
  show ?thesis
  proof (cases "p = [] \<or> ?m = [] \<or> iv_devices c p = None")
    case False
    then obtain r where r: "iv_devices c p = Some r" by blast
    let ?old = "normalize_mac (current_mac (obj c r))"
    define ix where "ix = (if ?old \<noteq> [] \<and> ?old \<noteq> ?m then drop_index ?old p c (iv_macs c) else iv_macs c)"
    let ?d = "add_mac (obj c r) ?m" and ?c' = "(set_obj r (add_mac (obj c r) ?m) c)\<lparr>iv_macs := ix(?m \<mapsto> r)\<rparr>"
    from r ok have p: "pdid (obj c r) = p" by (simp add: inventory_ok_device)
    have mac: "normalize_mac (current_mac ?d) = ?m"
      using False current_mac_add_mac [of ?m "obj c r"] by simp
    have ix: "iv_macs c k = Some r' \<and> (r' = r \<longrightarrow> k = ?m)" if "ix k = Some r'" for k r'
      using that inventory_ok_index(1) [OF ok, of k r'] p
      by (auto simp: ix_def drop_index_Some split: if_splits)
    have "set_current_mac p mac c = ?c'"
      using False r by (simp add: set_current_mac_def Let_def ix_def)
    moreover have "inventory_ok ?c'"
    proof (rule inventory_okI)
      fix k r' assume "iv_macs ?c' k = Some r'"
      then consider "k = ?m" "r' = r" | "k \<noteq> ?m" "ix k = Some r'" by (auto split: if_splits)
      then show "k \<noteq> [] \<and> normalize_mac (current_mac (obj ?c' r')) = k \<and> iv_devices ?c' (pdid (obj ?c' r')) = Some r'"
      proof cases
        case 1 then show ?thesis using False mac p r by (simp add: obj_set_obj)
      next
        case 2
        with ix [OF 2(2)] have "r' \<noteq> r" "iv_macs c k = Some r'" by auto
        then show ?thesis using inventory_ok_index(1) [OF ok] by (simp add: obj_set_obj)
      qed
    qed (use inventory_ok_index(2) [OF ok] inventory_ok_device [OF ok] inventory_ok_ips_entry [OF ok]
         inventory_ok_owners_entry [OF ok] in \<open>auto simp: obj_set_obj split: if_splits\<close>)
    ultimately show ?thesis by simp
  qed (use ok in \<open>auto simp: set_current_mac_def Let_def\<close>)
qed

lemma forget_old_keys_same:
  "iv_heap (forget_old_keys d c) = iv_heap c" "iv_next (forget_old_keys d c) = iv_next c"
  "iv_devices (forget_old_keys d c) = iv_devices c" "iv_owners (forget_old_keys d c) = iv_owners c"
  by (simp_all add: forget_old_keys_def Let_def split: option.splits)

text \<open>Afterwards the only key under which the old object can still be found is one the new one has too.\<close>

lemma forget_old_keys_index:
  assumes ok: "inventory_ok c"
  shows "iv_macs (forget_old_keys d c) m = Some r \<Longrightarrow>
      iv_macs c m = Some r \<and> (pdid (obj c r) = pdid d \<longrightarrow> m = normalize_mac (current_mac d))"
    "iv_device_ids (forget_old_keys d c) i = Some r \<Longrightarrow>
      iv_device_ids c i = Some r \<and> (pdid (obj c r) = pdid d \<longrightarrow> i = device_id d)"
    "iv_ips (forget_old_keys d c) a = Some r \<Longrightarrow> iv_ips c a = Some r"
proof -
  have mac: "iv_macs c m = Some r \<and> (pdid (obj c r) = pdid d \<longrightarrow> m = normalize_mac (current_mac d))"
    if "iv_macs (forget_old_keys d c) m = Some r"
  proof (cases "iv_devices c (pdid d)")
    case None
    with that show ?thesis using inventory_ok_index(1) [OF ok, of m r] by (auto simp: forget_old_keys_def)
  next
    case (Some r0)
    with that inventory_ok_index(1) [OF ok, of m r] show ?thesis
      by (auto simp: forget_old_keys_def Let_def drop_index_Some split: if_splits)
  qed
  then show "iv_macs (forget_old_keys d c) m = Some r \<Longrightarrow>
      iv_macs c m = Some r \<and> (pdid (obj c r) = pdid d \<longrightarrow> m = normalize_mac (current_mac d))" .
  show "iv_device_ids c i = Some r \<and> (pdid (obj c r) = pdid d \<longrightarrow> i = device_id d)"
    if "iv_device_ids (forget_old_keys d c) i = Some r"
  proof (cases "iv_devices c (pdid d)")
    case None
    with that show ?thesis using inventory_ok_index(2) [OF ok, of i r] by (auto simp: forget_old_keys_def)
  next
    case (Some r0)
    with that inventory_ok_index(2) [OF ok, of i r] show ?thesis
      by (auto simp: forget_old_keys_def Let_def split: if_splits)
  qed
  show "iv_ips (forget_old_keys d c) a = Some r \<Longrightarrow> iv_ips c a = Some r"
    by (auto simp: forget_old_keys_def Let_def drop_index_Some split: option.splits if_splits)
qed

lemma upsert_fields:
  fixes d c defines "c1 \<equiv> forget_old_keys d c" and "c2 \<equiv> upsert d c"
  assumes "pdid d \<noteq> []"
  shows "iv_next c2 = Suc (iv_next c)" "iv_devices c2 = (iv_devices c)(pdid d \<mapsto> iv_next c)"
    "iv_owners c2 = iv_owners c" "obj c2 r = (if r = iv_next c then d else obj c r)"
    "iv_device_ids c2 = (if device_id d \<noteq> [] then (iv_device_ids c1)(device_id d \<mapsto> iv_next c) else iv_device_ids c1)"
    "iv_macs c2 = (if normalize_mac (current_mac d) \<noteq> []
       then (iv_macs c1)(normalize_mac (current_mac d) \<mapsto> iv_next c) else iv_macs c1)"
    "iv_ips c2 = (if trim_space (current_ip d) \<noteq> []
       then (iv_ips c1)(trim_space (current_ip d) \<mapsto> iv_next c) else iv_ips c1)"
  using assms(3) by (simp_all add: c1_def c2_def upsert_def Let_def forget_old_keys_same obj_def)

lemma inventory_ok_upsert: "inventory_ok c \<Longrightarrow> inventory_ok (upsert d c)"
proof -
  assume ok: "inventory_ok c"
  note f = forget_old_keys_index [OF ok, of d] and live = inventory_ok_device [OF ok]
  show ?thesis
  proof (cases "pdid d = []")
    case False
    note fields = upsert_fields [OF False, of c]
    show ?thesis
    proof (rule inventory_okI; unfold fields)
      fix m r assume "(if normalize_mac (current_mac d) \<noteq> []
         then (iv_macs (forget_old_keys d c))(normalize_mac (current_mac d) \<mapsto> iv_next c)
         else iv_macs (forget_old_keys d c)) m = Some r"
      then show "m \<noteq> [] \<and> normalize_mac (current_mac (if r = iv_next c then d else obj c r)) = m \<and>
          ((iv_devices c)(pdid d \<mapsto> iv_next c)) (pdid (if r = iv_next c then d else obj c r)) = Some r"
        using f(1) [of m r] inventory_ok_index(1) [OF ok, of m r] live [of "pdid (obj c r)" r]
        by (auto split: if_splits)
    next
      fix i r assume "(if device_id d \<noteq> [] then (iv_device_ids (forget_old_keys d c))(device_id d \<mapsto> iv_next c)
         else iv_device_ids (forget_old_keys d c)) i = Some r"
      then show "i \<noteq> [] \<and> device_id (if r = iv_next c then d else obj c r) = i \<and>
          ((iv_devices c)(pdid d \<mapsto> iv_next c)) (pdid (if r = iv_next c then d else obj c r)) = Some r"
        using f(2) [of i r] inventory_ok_index(2) [OF ok, of i r] live [of "pdid (obj c r)" r]
        by (auto split: if_splits)
    qed (use live False inventory_ok_ips_entry [OF ok] f(3) inventory_ok_owners_entry [OF ok] less_SucI
         in \<open>fastforce split: if_splits\<close>)+
  qed (use ok in \<open>simp add: upsert_def\<close>)
qed

lemma inventory_ok_touch: "inventory_ok c \<Longrightarrow> inventory_ok (touch_last_seen p ts c)"
  by (auto simp: touch_last_seen_def inventory_ok_set_obj split: option.splits)

lemma drop_device_fields:
  fixes p r c defines "c' \<equiv> snd (drop_device p r c)"
  shows "iv_next c' = iv_next c" "iv_devices c' = (iv_devices c)(p := None)" "obj c' r' = obj c r'"
    "iv_macs c' m = Some r' \<longleftrightarrow> iv_macs c m = Some r' \<and>
       \<not> (m \<noteq> [] \<and> m = normalize_mac (current_mac (obj c r)))"
    "iv_device_ids c' i = Some r' \<longleftrightarrow> iv_device_ids c i = Some r' \<and> i \<noteq> device_id (obj c r)"
    "iv_ips c' a = Some r' \<longleftrightarrow> iv_ips c a = Some r' \<and> \<not> (a \<noteq> [] \<and> a = trim_space (current_ip (obj c r)))"
    "iv_owners c' h = Some q \<longleftrightarrow> iv_owners c h = Some q \<and>
       \<not> (h \<noteq> [] \<and> h = canonical_hostname (obj c r) \<and> q = p)"
  by (auto simp: c'_def drop_device_def Let_def obj_def)

lemma inventory_ok_drop:
  assumes ok: "inventory_ok c" and r: "iv_devices c p = Some r"
  shows "inventory_ok (snd (drop_device p r c))"
proof (rule inventory_okI; unfold drop_device_fields)
  fix m r' assume m: "iv_macs c m = Some r' \<and> \<not> (m \<noteq> [] \<and> m = normalize_mac (current_mac (obj c r)))"
  with inventory_ok_index(1) [OF ok, of m r'] have i: "m \<noteq> []" "normalize_mac (current_mac (obj c r')) = m"
    "iv_devices c (pdid (obj c r')) = Some r'" by auto
  with m r have "pdid (obj c r') \<noteq> p" by auto
  with i show "m \<noteq> [] \<and> normalize_mac (current_mac (obj c r')) = m \<and>
      ((iv_devices c)(p := None)) (pdid (obj c r')) = Some r'" by simp
next
  fix i r' assume m: "iv_device_ids c i = Some r' \<and> i \<noteq> device_id (obj c r)"
  with inventory_ok_index(2) [OF ok, of i r'] have i: "i \<noteq> []" "device_id (obj c r') = i"
    "iv_devices c (pdid (obj c r')) = Some r'" by auto
  with m r have "pdid (obj c r') \<noteq> p" by auto
  with i show "i \<noteq> [] \<and> device_id (obj c r') = i \<and> ((iv_devices c)(p := None)) (pdid (obj c r')) = Some r'" by simp
qed (auto split: if_splits dest: inventory_ok_device [OF ok] inventory_ok_ips_entry [OF ok]
      inventory_ok_owners_entry [OF ok])

lemma inventory_ok_delete: "inventory_ok c \<Longrightarrow> inventory_ok (snd (delete_device p c))"
  using inventory_ok_drop [of c p] by (auto simp: delete_device_def split: option.splits prod.splits)

lemma inventory_ok_purge_loop: "inventory_ok c \<Longrightarrow> inventory_ok (snd (purge_loop now ks c))"
proof (induction ks arbitrary: c)
  case (Cons k ks)
  then show ?case using inventory_ok_drop [of c k] by (fastforce split: option.splits prod.splits)
qed simp

subsection \<open>Runs\<close>

inductive inventory_run :: "inventory \<Rightarrow> bool" where
  inv_new: "inventory_run new_inventory"
| inv_listener: "inventory_run c \<Longrightarrow> inventory_run (set_owner_listener on c)"
| inv_load: "inventory_run c \<Longrightarrow> inventory_run (load_hostname_owners own c)"
| inv_acquire: "inventory_run c \<Longrightarrow> inventory_run (snd (snd (acquire_hostname now h p c)))"
| inv_release: "inventory_run c \<Longrightarrow> inventory_run (snd (release_hostname h p c))"
| inv_demote: "inventory_run c \<Longrightarrow> range_order (iv_devices c) ks \<Longrightarrow> inventory_run (snd (demote_stale now ks c))"
| inv_remove_ip: "inventory_run c \<Longrightarrow> inventory_run (remove_ip_index ip c)"
| inv_set_ip: "inventory_run c \<Longrightarrow> inventory_run (set_current_ip p ip c)"
| inv_set_mac: "inventory_run c \<Longrightarrow> inventory_run (set_current_mac p mac c)"
| inv_upsert: "inventory_run c \<Longrightarrow> inventory_run (upsert d c)"
| inv_touch: "inventory_run c \<Longrightarrow> inventory_run (touch_last_seen p ts c)"
| inv_delete: "inventory_run c \<Longrightarrow> inventory_run (snd (delete_device p c))"
| inv_purge: "inventory_run c \<Longrightarrow> range_order (iv_devices c) ks \<Longrightarrow> inventory_run (snd (purge_offline now ks c))"

lemma inventory_ok_purge: "inventory_ok c \<Longrightarrow> inventory_ok (snd (purge_offline now ks c))"
  using inventory_ok_purge_loop [of c now ks] by (auto simp: purge_offline_def split: prod.splits)

lemma inventory_ok_listener: "inventory_ok c \<Longrightarrow> inventory_ok (set_owner_listener on c)"
  by (simp add: set_owner_listener_def inventory_ok_def index_ok_def)

lemmas inventory_ok_step = inventory_ok_new inventory_ok_listener inventory_ok_load_owners
  inventory_ok_acquire inventory_ok_release inventory_ok_demote inventory_ok_remove_ip inventory_ok_set_ip
  inventory_ok_set_mac inventory_ok_upsert inventory_ok_touch inventory_ok_delete inventory_ok_purge

lemma inventory_run_ok: "inventory_run c \<Longrightarrow> inventory_ok c"
  by (induction rule: inventory_run.induct) (assumption | rule inventory_ok_step)+

text \<open>A device found by hardware address or by device id, after any sequence of operations of the store,
  is one of the live devices, as it is now, and it currently has the address (up to spelling) or id that
  was asked for: no index entry outlives its device or points to a replaced copy.\<close>

theorem lookups_sound:
  assumes "inventory_run c"
  shows "(get_by_mac mac c = Some d \<longrightarrow>
      get_device (pdid d) c = Some d \<and> normalize_mac (current_mac d) = normalize_mac mac)
    \<and> (get_by_device_id i c = Some d \<longrightarrow> get_device (pdid d) c = Some d \<and> device_id d = trim_space i)"
  using inventory_ok_index [OF inventory_run_ok [OF assms]]
  by (auto simp: get_by_mac_def get_by_device_id_def get_device_def Let_def split: if_splits)

definition tv :: device where
  "tv = empty_device\<lparr>pdid := ''p1'', device_id := ''d1'', current_mac := ''0a:00:00:00:00:01'',
     current_ip := ''10.0.0.7'', ips := [''10.0.0.7''], online := True, last_seen := 0\<rparr>"

lemma normalize_tv: "normalize_mac ''0a:00:00:00:00:01'' = ''0a:00:00:00:00:01''"
  using normalize_mac_string [of "[10, 0, 0, 0, 0, 1]"]
  by (simp add: mac_length_ok_def mac_string_def hex_byte_def digit_char_def char_of_def bit_Suc_0_iff)

lemma lookups_sound_witness:
  "get_device ''p1'' (upsert tv new_inventory) = Some tv"
  using lookups_sound [OF inv_upsert [OF inv_new], of "''0a:00:00:00:00:01''" tv tv "[]"]
  by (simp add: get_by_mac_def upsert_def forget_old_keys_def new_inventory_def tv_def normalize_tv obj_def
      Let_def)

text \<open>What \<open>Upsert\<close> stores is what every lookup then finds: by PDID, by device id, by the current hardware
  address in any spelling that normalises to it and by the current IP address; and other devices stay.\<close>

theorem upsert_found:
  assumes "pdid d \<noteq> []"
  shows "get_device (pdid d) (upsert d c) = Some d
    \<and> (device_id d \<noteq> [] \<and> trim_space i = device_id d \<longrightarrow> get_by_device_id i (upsert d c) = Some d)
    \<and> (normalize_mac mac = normalize_mac (current_mac d) \<and> normalize_mac mac \<noteq> [] \<longrightarrow>
         get_by_mac mac (upsert d c) = Some d)
    \<and> (trim_space ip = trim_space (current_ip d) \<and> trim_space ip \<noteq> [] \<longrightarrow> get_by_ip ip (upsert d c) = Some d)
    \<and> (\<forall>q. q \<noteq> pdid d \<longrightarrow> inventory_ok c \<longrightarrow> get_device q (upsert d c) = get_device q c)"
proof -
  note f = upsert_fields [OF assms, of c]
  have "get_device q (upsert d c) = get_device q c" if "q \<noteq> pdid d" "inventory_ok c" for q
    using that inventory_ok_device [OF that(2), of q]
    by (cases "iv_devices c q") (auto simp: get_device_def f)
  then show ?thesis
    by (auto simp: get_device_def get_by_device_id_def get_by_mac_def get_by_ip_def f Let_def)
qed

lemma upsert_found_witness:
  "get_by_ip '' 10.0.0.7 '' (upsert tv new_inventory) = Some tv"
  using upsert_found [of tv new_inventory "[]" "[]" "'' 10.0.0.7 ''"]
  by (simp add: tv_def trim_space_def trim_by_def is_space_def byte_def)

subsection \<open>Host names and the purge\<close>

text \<open>A claim to a host name is rejected exactly when it is empty or another device holds the name and is
  active (online and seen in the last five minutes); a rejected claim changes nothing, and any other one
  makes the claimant the owner and changes nothing else. It is provisional exactly when the name was
  held by another known device that may still come back (seen within a day, or online but silent).\<close>

theorem acquire_decides:
  assumes "acquire_hostname now h p c = (res, calls, c')"
  shows "(res = AcquireReject \<longleftrightarrow> h = [] \<or> p = [] \<or> actively_owned now h c \<and> iv_owners c h \<noteq> Some p)
    \<and> c' = (if res = AcquireReject then c else c\<lparr>iv_owners := (iv_owners c)(h \<mapsto> p)\<rparr>)
    \<and> (res = AcquireProvisional \<longleftrightarrow> h \<noteq> [] \<and> p \<noteq> [] \<and> \<not> actively_owned now h c \<and>
         (\<exists>q d. iv_owners c h = Some q \<and> q \<noteq> p \<and> get_device q c = Some d \<and>
            (online d \<or> time_sub now (last_seen d) \<le> 24 * hour)))"
proof -
  have same: "iv_owners c h = Some p \<Longrightarrow> c = c\<lparr>iv_owners := (iv_owners c)(h \<mapsto> p)\<rparr>"
    by (simp add: fun_upd_idem)
  show ?thesis
    using assms same
    by (auto simp: acquire_hostname_def Let_def actively_owned_def get_device_def split: option.splits if_splits)
qed

lemma acquire_decides_witness:
  "let c = (upsert tv new_inventory)\<lparr>iv_owners := [''tv'' \<mapsto> ''p1'']\<rparr>
   in fst (acquire_hostname (6 * minute) ''tv'' ''p2'' c) = AcquireProvisional"
proof -
  let ?c = "(upsert tv new_inventory)\<lparr>iv_owners := [''tv'' \<mapsto> ''p1'']\<rparr>"
  have "get_device ''p1'' ?c = Some tv"
    using upsert_fields [of tv new_inventory] by (simp add: get_device_def tv_def new_inventory_def)
  moreover then have "\<not> actively_owned (6 * minute) ''tv'' ?c"
    by (auto simp: actively_owned_def get_device_def tv_def time_sub_def max_duration_def min_duration_def minute_def second_def)
  ultimately show ?thesis
    using acquire_decides [of "6 * minute" "''tv''" "''p2''" ?c "fst (acquire_hostname (6 * minute) ''tv'' ''p2'' ?c)"
        "fst (snd (acquire_hostname (6 * minute) ''tv'' ''p2'' ?c))" "snd (snd (acquire_hostname (6 * minute) ''tv'' ''p2'' ?c))"]
    by (simp add: tv_def)
qed

text \<open>The devices a purge removes, and what is left of them.\<close>

definition purged :: "time \<Rightarrow> inventory \<Rightarrow> string \<Rightarrow> device \<Rightarrow> bool" where
  "purged now c k d \<longleftrightarrow> get_device k c = Some d \<and> purgeable now d"

lemma purge_loop_result:
  "purge_loop now ks c = (calls, c') \<Longrightarrow>
   (\<forall>r. obj c' r = obj c r)
   \<and> (\<forall>k. iv_devices c' k = (if k \<in> set ks \<and> (\<exists>d. purged now c k d) then None else iv_devices c k))
   \<and> (\<forall>h q. iv_owners c' h = Some q \<longleftrightarrow> iv_owners c h = Some q \<and>
        \<not> (h \<noteq> [] \<and> q \<in> set ks \<and> (\<exists>d. purged now c q d \<and> canonical_hostname d = h)))
   \<and> (\<forall>h q b. (h, q, b) \<in> set calls \<longleftrightarrow> b \<and> h \<noteq> [] \<and> q \<in> set ks \<and> iv_owners c h = Some q \<and>
        (\<exists>d. purged now c q d \<and> canonical_hostname d = h))"
proof (induction ks arbitrary: c calls c')
  case (Cons k ks)
  show ?case
  proof (cases "\<exists>d. purged now c k d")
    case False
    with Cons.prems have "purge_loop now ks c = (calls, c')"
      by (auto simp: purged_def get_device_def split: option.splits if_splits)
    from Cons.IH [OF this] False show ?thesis by auto
  next
    case True
    then obtain r where r: "iv_devices c k = Some r" "purgeable now (obj c r)"
      by (auto simp: purged_def get_device_def)
    obtain calls1 c1 where d: "drop_device k r c = (calls1, c1)" by fastforce
    with Cons.prems r obtain calls2 where l: "purge_loop now ks c1 = (calls2, c')" "calls = calls1 @ calls2"
      by (auto split: prod.splits)
    note f = drop_device_fields [of k r c, unfolded d, simplified]
    have p1: "purged now c1 q e \<longleftrightarrow> q \<noteq> k \<and> purged now c q e" for q e
      by (auto simp: purged_def get_device_def f)
    have pk: "purged now c k e \<longleftrightarrow> e = obj c r" for e
      using r by (auto simp: purged_def get_device_def)
    have calls1: "(h, q, b) \<in> set calls1 \<longleftrightarrow> b \<and> h \<noteq> [] \<and> q = k \<and> iv_owners c h = Some q \<and>
        canonical_hostname (obj c r) = h" for h q b
      using d by (auto simp: drop_device_def Let_def)
    show ?thesis
      using Cons.IH [OF l(1)] f calls1 l(2) pk by (auto simp: p1)
  qed
qed simp

text \<open>The purge removes exactly the devices that are offline and were last seen more than a day ago, frees
  exactly the host names these owned under their canonical name, tells the listener exactly these
  names, and changes no device object; the order in which the map is walked does not matter.\<close>

theorem purge_exact:
  assumes "range_order (iv_devices c) ks" "purge_offline now ks c = (calls, c')"
  shows "(\<forall>k. get_device k c' = (if \<exists>d. purged now c k d then None else get_device k c))
    \<and> (\<forall>h q. iv_owners c' h = Some q \<longleftrightarrow> iv_owners c h = Some q \<and>
         \<not> (h \<noteq> [] \<and> (\<exists>d. purged now c q d \<and> canonical_hostname d = h)))
    \<and> (iv_listening c \<longrightarrow> (\<forall>h q b. (h, q, b) \<in> set calls \<longleftrightarrow>
         b \<and> iv_owners c h = Some q \<and> iv_owners c' h \<noteq> Some q))"
proof -
  have dom: "q \<in> set ks" if "purged now c q d" for q d
    using that assms(1) by (auto simp: purged_def get_device_def range_order_def)
  obtain calls0 where l: "purge_loop now ks c = (calls0, c')" "calls = owner_calls c calls0"
    using assms(2) by (auto simp: purge_offline_def split: prod.splits)
  have "get_device k c' = (if \<exists>d. purged now c k d then None else get_device k c)" for k
    using purge_loop_result [OF l(1), THEN conjunct1]
      purge_loop_result [OF l(1), THEN conjunct2, THEN conjunct1, rule_format, of k] dom [of k]
    by (cases "iv_devices c k") (auto simp: get_device_def)
  moreover have own: "iv_owners c' h = Some q \<longleftrightarrow> iv_owners c h = Some q \<and>
         \<not> (h \<noteq> [] \<and> (\<exists>d. purged now c q d \<and> canonical_hostname d = h))" for h q
    using purge_loop_result [OF l(1), THEN conjunct2, THEN conjunct2, THEN conjunct1, rule_format, of h q]
      dom [of q] by auto
  moreover have "(h, q, b) \<in> set calls \<longleftrightarrow> b \<and> iv_owners c h = Some q \<and> iv_owners c' h \<noteq> Some q"
    if "iv_listening c" for h q b
  proof -
    have "(h, q, b) \<in> set calls0 \<longleftrightarrow> b \<and> h \<noteq> [] \<and> q \<in> set ks \<and> iv_owners c h = Some q \<and>
        (\<exists>d. purged now c q d \<and> canonical_hostname d = h)"
      using purge_loop_result [OF l(1)] by blast
    with own [of h q] dom [of q] l(2) that show ?thesis by (auto simp: owner_calls_def)
  qed
  ultimately show ?thesis by blast
qed

lemma purge_exact_witness:
  "get_device ''p1'' (snd (purge_offline (25 * hour) [''p1''] (upsert (tv\<lparr>online := False\<rparr>) new_inventory))) = None"
proof -
  let ?c = "upsert (tv\<lparr>online := False\<rparr>) new_inventory"
  have "iv_devices ?c = [''p1'' \<mapsto> 0]" "get_device ''p1'' ?c = Some (tv\<lparr>online := False\<rparr>)"
    using upsert_fields [of "tv\<lparr>online := False\<rparr>" new_inventory]
    by (simp_all add: tv_def new_inventory_def get_device_def)
  then show ?thesis
    using purge_exact [of ?c "[''p1'']" "25 * hour" "fst (purge_offline (25 * hour) [''p1''] ?c)"
        "snd (purge_offline (25 * hour) [''p1''] ?c)"]
    by (simp add: range_order_def purged_def purgeable_def offline_ttl_def tv_def time_sub_def max_duration_def
        min_duration_def hour_def minute_def second_def)
qed

subsection \<open>Findings\<close>

text \<open>\<open>SetCurrentIP\<close> does not take the previous address out of the index, and \<open>Delete\<close> only removes the entry
  of the current one: a device that has been deleted is still found by an address it had before.\<close>

lemma deleted_device_still_found:
  "let c = snd (delete_device ''p1'' (set_current_ip ''p1'' ''10.0.0.8'' (upsert tv new_inventory)))
   in get_device ''p1'' c = None \<and> map_option pdid (get_by_ip ''10.0.0.7'' c) = Some ''p1''"
  by (simp add: Let_def delete_device_def drop_device_def set_current_ip_def upsert_def forget_old_keys_def
      new_inventory_def tv_def get_device_def get_by_ip_def obj_def set_obj_def trim_space_def trim_by_def
      is_space_def byte_def add_ip_def clean_ip_def normalize_mac_def [of "[]"] split: prod.splits)

text \<open>\<open>Delete\<close> does not ask whose the index entry is: of two devices that report the same hardware address the
  surviving one is not found by it any more.\<close>

lemma delete_hides_other_device:
  "let other = tv\<lparr>pdid := ''p2'', device_id := ''d2'', current_ip := ''10.0.0.9''\<rparr>;
       c = snd (delete_device ''p1'' (upsert other (upsert tv new_inventory)))
   in get_device ''p2'' c = Some other \<and> get_by_mac (current_mac other) c = None"
  by (simp add: Let_def delete_device_def drop_device_def upsert_def forget_old_keys_def new_inventory_def tv_def
      get_device_def get_by_mac_def obj_def normalize_tv trim_space_def trim_by_def is_space_def byte_def)

end
