(* ===== verification/Sse_Broker.thy ===== *)
theory Sse_Broker
  imports Shared_Models Go_Strconv "HOL-Library.Multiset"
begin

text \<open>
  The event brokers of both services (\<open>apps/lias/internal/api/broker.go\<close>,
  \<open>apps/discovery-service/internal/api/sse.go\<close>, with \<open>StreamEvents\<close> of \<open>handlers.go\<close> and \<open>SSEFrame\<close> of
  \<open>shared/models/event.go\<close>): a ring of the last hundred events and a buffered channel for every connected
  browser. A send that finds the channel full drops the event. The channels of the clients are
  independent, so the loop over the map of clients is one function of all of them. \<open>enc\<close> is the JSON
  text of a payload.
\<close>

subsection \<open>Operations\<close>

definition history_capacity :: nat where "history_capacity = 100"
definition client_buffer :: nat where "client_buffer = 128"

record 'p sse_client =
  cl_id :: string
  cl_events :: "'p event list"

record 'p broker =
  br_clients :: "string \<rightharpoonup> 'p sse_client"
  br_history :: "'p event list"
  br_head :: nat
  br_reset :: bool
  br_stopped :: bool

definition new_broker :: "'p broker" where
  "new_broker = \<lparr>br_clients = Map.empty, br_history = [], br_head = 0, br_reset = False, br_stopped = False\<rparr>"

text \<open>A send that does not block: \<open>None\<close> when the buffer is full.\<close>

definition try_send :: "'p event \<Rightarrow> 'p sse_client \<Rightarrow> 'p sse_client option" where
  "try_send e c = (if length (cl_events c) < client_buffer then Some (c\<lparr>cl_events := cl_events c @ [e]\<rparr>) else None)"

definition offer :: "'p event \<Rightarrow> 'p sse_client \<Rightarrow> 'p sse_client" where
  "offer e c = (case try_send e c of Some c' \<Rightarrow> c' | None \<Rightarrow> c)"

definition ping_clients :: "'p event \<Rightarrow> 'p broker \<Rightarrow> 'p broker" where
  "ping_clients e b = b\<lparr>br_clients := (\<lambda>k. map_option (offer e) (br_clients b k))\<rparr>"

text \<open>The replay stops at the first event that does not fit.\<close>

fun replay_events :: "int \<Rightarrow> 'p event list \<Rightarrow> 'p sse_client \<Rightarrow> 'p sse_client" where
  "replay_events seen [] c = c"
| "replay_events seen (e # es) c =
     (if seen < unix_nano (ev_timestamp e)
      then (case try_send e c of Some c' \<Rightarrow> replay_events seen es c' | None \<Rightarrow> c)
      else replay_events seen es c)"

definition subscribe :: "string \<Rightarrow> int \<Rightarrow> 'p broker \<Rightarrow> 'p broker" where
  "subscribe i seen b =
     (let c = \<lparr>cl_id = i, cl_events = []\<rparr>;
          c' = (if 0 < seen then replay_events seen (br_history b) c else c)
      in b\<lparr>br_clients := (br_clients b)(i \<mapsto> c')\<rparr>)"

definition unsubscribe :: "string \<Rightarrow> 'p broker \<Rightarrow> 'p broker" where
  "unsubscribe i b = (if br_clients b i = None then b else b\<lparr>br_clients := (br_clients b)(i := None)\<rparr>)"

definition remember_event :: "'p event \<Rightarrow> 'p broker \<Rightarrow> 'p broker" where
  "remember_event e b =
     (if length (br_history b) < history_capacity then b\<lparr>br_history := br_history b @ [e]\<rparr>
      else b\<lparr>br_history := (br_history b)[br_head b := e],
             br_head := (br_head b + 1) mod history_capacity\<rparr>)"

definition broadcast :: "'p event \<Rightarrow> 'p broker \<Rightarrow> 'p broker" where
  "broadcast e b =
     (let b1 = remember_event e b
      in b1\<lparr>br_clients := (\<lambda>k. map_option (offer e) (br_clients b1 k))\<rparr>)"

text \<open>A buffered signal of capacity one.\<close>

definition signal_sse_connected :: "'p broker \<Rightarrow> 'p broker" where
  "signal_sse_connected b = b\<lparr>br_reset := True\<rparr>"

text \<open>Closing the channel a second time panics: \<open>None\<close>.\<close>

definition stop_broker :: "'p broker \<Rightarrow> 'p broker option" where
  "stop_broker b = (if br_stopped b then None else Some (b\<lparr>br_stopped := True\<rparr>))"

datatype lias_payload = EffectiveStatusChanged string string time | Relayed string

definition broadcast_effective_status ::
  "time \<Rightarrow> time \<Rightarrow> string \<Rightarrow> string \<Rightarrow> lias_payload broker option \<Rightarrow> lias_payload broker option" where
  "broadcast_effective_status t1 t2 target i ob =
     map_option (broadcast (new_event t2 EventEffectiveStatusChanged i (EffectiveStatusChanged target i t1))) ob"

subsection \<open>The stream of one client\<close>

definition event_name :: "event_type \<Rightarrow> string" where
  "event_name t = (case t of
     EventDeviceAdded \<Rightarrow> ''device.added'' | EventDeviceRemoved \<Rightarrow> ''device.removed''
   | EventDeviceOnline \<Rightarrow> ''device.online'' | EventDeviceOffline \<Rightarrow> ''device.offline''
   | EventHostnameChanged \<Rightarrow> ''device.hostname_changed'' | EventFingerprintUpdated \<Rightarrow> ''device.fingerprint_updated''
   | EventIPChanged \<Rightarrow> ''device.ip_changed'' | EventMACChanged \<Rightarrow> ''device.mac_changed''
   | EventDeviceReidentified \<Rightarrow> ''device.reidentified''
   | EventIdentityCandidateChanged \<Rightarrow> ''identity.candidate.changed''
   | EventIdentityBindingChanged \<Rightarrow> ''identity.binding.changed''
   | EventIdentityCandidateDecided \<Rightarrow> ''identity.candidate.decided''
   | EventSecurityAlert \<Rightarrow> ''security.alert''
   | EventEffectiveStatusChanged \<Rightarrow> ''effective.status_changed'' | EventOther s \<Rightarrow> s)"

definition event_id :: "'p event \<Rightarrow> string" where
  "event_id e = decimal_int (unix_nano (ev_timestamp e))"

definition sse_frame :: "('p \<Rightarrow> string) \<Rightarrow> 'p event \<Rightarrow> string" where
  "sse_frame enc e =
     ''event: '' @ event_name (ev_type e) @ ''\<newline>''
     @ (if is_zero (ev_timestamp e) then [] else ''id: '' @ event_id e @ ''\<newline>'')
     @ (if enc (ev_payload e) \<noteq> [] then ''data: '' @ enc (ev_payload e) @ ''\<newline>'' else ''data: {}\<newline>'')
     @ ''\<newline>''"

text \<open>The header is parsed with the error ignored.\<close>

definition last_event_id :: "string \<Rightarrow> int" where
  "last_event_id hdr = (if hdr = [] then 0 else fst (parse_int hdr))"

definition open_stream :: "string \<Rightarrow> string \<Rightarrow> 'p broker \<Rightarrow> 'p broker" where
  "open_stream i hdr b = subscribe i (last_event_id hdr) b"

text \<open>One turn of the handler's loop: the oldest buffered event is written as a frame. \<open>None\<close> while
  the buffer is empty.\<close>

definition stream_step :: "('p \<Rightarrow> string) \<Rightarrow> string \<Rightarrow> 'p broker \<Rightarrow> (string \<times> 'p broker) option" where
  "stream_step enc i b =
     (case br_clients b i of
        None \<Rightarrow> None
      | Some c \<Rightarrow>
          (case cl_events c of
             [] \<Rightarrow> None
           | e # es \<Rightarrow> Some (sse_frame enc e, b\<lparr>br_clients := (br_clients b)(i \<mapsto> c\<lparr>cl_events := es\<rparr>)\<rparr>)))"

subsection \<open>The broker of the discovery service\<close>

text \<open>Its replay leaves out \<open>device.online\<close> events of devices that are online now; \<open>is_on\<close> is the answer of
  the inventory for a PDID.\<close>

definition suppressed :: "(string \<Rightarrow> bool) \<Rightarrow> 'p event \<Rightarrow> bool" where
  "suppressed is_on e \<longleftrightarrow> ev_type e = EventDeviceOnline \<and> is_on (ev_device_id e)"

fun dis_replay_events :: "(string \<Rightarrow> bool) \<Rightarrow> int \<Rightarrow> 'p event list \<Rightarrow> 'p sse_client \<Rightarrow> 'p sse_client" where
  "dis_replay_events is_on seen [] c = c"
| "dis_replay_events is_on seen (e # es) c =
     (if seen < unix_nano (ev_timestamp e) then
        if suppressed is_on e then dis_replay_events is_on seen es c
        else (case try_send e c of Some c' \<Rightarrow> dis_replay_events is_on seen es c' | None \<Rightarrow> c)
      else dis_replay_events is_on seen es c)"

definition dis_subscribe :: "(string \<Rightarrow> bool) \<Rightarrow> string \<Rightarrow> int \<Rightarrow> 'p broker \<Rightarrow> 'p broker" where
  "dis_subscribe is_on i seen b =
     (let c = \<lparr>cl_id = i, cl_events = []\<rparr>;
          c' = (if 0 < seen then dis_replay_events is_on seen (br_history b) c else c)
      in b\<lparr>br_clients := (br_clients b)(i \<mapsto> c')\<rparr>)"

text \<open>\<open>sync.Once\<close>: stopping again does nothing.\<close>

definition dis_stop_broker :: "'p broker \<Rightarrow> 'p broker" where
  "dis_stop_broker b = (if br_stopped b then b else b\<lparr>br_stopped := True\<rparr>)"

subsection \<open>Runs\<close>

text \<open>Every operation holds the broker's mutex, so a run is a sequence of them. The list is what has been
  broadcast so far.\<close>

inductive broker_run :: "'p event list \<Rightarrow> 'p broker \<Rightarrow> bool" where
  run_new: "broker_run [] new_broker"
| run_subscribe: "broker_run sent b \<Longrightarrow> broker_run sent (subscribe i seen b)"
| run_dis_subscribe: "broker_run sent b \<Longrightarrow> broker_run sent (dis_subscribe is_on i seen b)"
| run_unsubscribe: "broker_run sent b \<Longrightarrow> broker_run sent (unsubscribe i b)"
| run_broadcast: "broker_run sent b \<Longrightarrow> broker_run (sent @ [e]) (broadcast e b)"
| run_ping: "broker_run sent b \<Longrightarrow> broker_run sent (ping_clients e b)"
| run_signal: "broker_run sent b \<Longrightarrow> broker_run sent (signal_sse_connected b)"
| run_stream: "broker_run sent b \<Longrightarrow> stream_step enc i b = Some (f, b') \<Longrightarrow> broker_run sent b'"
| run_stop: "broker_run sent b \<Longrightarrow> stop_broker b = Some b' \<Longrightarrow> broker_run sent b'"

subsection \<open>The history is the last hundred events\<close>

definition recent :: "'p event list \<Rightarrow> 'p event list" where
  "recent sent = drop (length sent - history_capacity) sent"

definition history_in_order :: "'p broker \<Rightarrow> 'p event list" where
  "history_in_order b = drop (br_head b) (br_history b) @ take (br_head b) (br_history b)"

definition buffers_bounded :: "'p broker \<Rightarrow> bool" where
  "buffers_bounded b \<longleftrightarrow> (\<forall>c \<in> ran (br_clients b). length (cl_events c) \<le> client_buffer)"

definition ring_ok :: "'p event list \<Rightarrow> 'p broker \<Rightarrow> bool" where
  "ring_ok sent b \<longleftrightarrow>
     history_in_order b = recent sent \<and> br_head b < history_capacity
     \<and> (length sent \<le> history_capacity \<longrightarrow> br_head b = 0)
     \<and> length (br_history b) \<le> history_capacity"

lemma length_recent: "length (recent sent) = min (length sent) history_capacity"
  by (simp add: recent_def)

lemma recent_snoc:
  "recent (sent @ [e]) =
     (if length (recent sent) < history_capacity then recent sent @ [e] else tl (recent sent) @ [e])"
proof (cases "length sent < history_capacity")
  case False
  then have "Suc (length sent) - history_capacity = Suc (length sent - history_capacity)" by simp
  with False show ?thesis by (simp add: recent_def tl_drop drop_Suc history_capacity_def)
qed (simp add: recent_def)

text \<open>Overwriting the oldest slot of a full ring and moving the head drops the oldest event.\<close>

lemma ring_rotate:
  assumes "h < length xs"
  defines "h' \<equiv> (h + 1) mod length xs"
  shows "drop h' (xs[h := e]) @ take h' (xs[h := e]) = tl (drop h xs @ take h xs) @ [e]"
proof (cases "h + 1 = length xs")
  case True
  then have "drop h xs = [xs ! h]" "h' = 0"
    using assms by (simp_all add: Cons_nth_drop_Suc [symmetric])
  moreover have "xs[h := e] = take h xs @ [e]"
    using True assms(1) by (simp add: upd_conv_take_nth_drop)
  ultimately show ?thesis by simp
next
  case False
  with assms have "h' = Suc h" by simp
  moreover have "drop h xs = xs ! h # drop (Suc h) xs"
    using assms(1) by (simp add: Cons_nth_drop_Suc)
  ultimately show ?thesis
    using assms(1) by (simp add: take_Suc_conv_app_nth)
qed

lemma length_history: "ring_ok sent b \<Longrightarrow> length (br_history b) = min (length sent) history_capacity"
proof -
  assume "ring_ok sent b"
  then have "length (history_in_order b) = length (recent sent)" by (simp add: ring_ok_def)
  then show ?thesis by (simp add: history_in_order_def length_recent)
qed

lemma ring_broadcast:
  assumes "ring_ok sent b"
  shows "ring_ok (sent @ [e]) (broadcast e b)"
proof (cases "length (br_history b) < history_capacity")
  case True
  with length_history [OF assms] have "length sent < history_capacity" by simp
  with assms True show ?thesis
    by (auto simp: ring_ok_def broadcast_def Let_def remember_event_def history_in_order_def recent_snoc
        length_recent)
next
  case False
  with assms have len: "length (br_history b) = history_capacity" and hd: "br_head b < length (br_history b)"
    by (auto simp: ring_ok_def)
  with length_history [OF assms] have "history_capacity \<le> length sent" by simp
  then show ?thesis
    using assms ring_rotate [OF hd, of e] len False
    by (simp add: ring_ok_def broadcast_def Let_def remember_event_def history_in_order_def recent_snoc
        length_recent)
qed

lemma broker_run_ring: "broker_run sent b \<Longrightarrow> ring_ok sent b"
proof (induction rule: broker_run.induct)
  case run_new
  show ?case
    by (simp add: ring_ok_def new_broker_def history_in_order_def recent_def history_capacity_def)
next
  case (run_broadcast sent b e)
  then show ?case by (simp add: ring_broadcast)
qed (auto simp: ring_ok_def history_in_order_def subscribe_def dis_subscribe_def unsubscribe_def
      ping_clients_def signal_sse_connected_def stream_step_def stop_broker_def Let_def
      split: option.splits list.splits if_splits)

subsection \<open>The replay\<close>

definition newer :: "int \<Rightarrow> 'p event \<Rightarrow> bool" where
  "newer seen e \<longleftrightarrow> seen < unix_nano (ev_timestamp e)"

text \<open>A history fits into an empty buffer, so the replay never stops early.\<close>

lemma dis_replay_events_all:
  "length (cl_events c) + length es \<le> client_buffer \<Longrightarrow>
   dis_replay_events is_on seen es c =
     c\<lparr>cl_events := cl_events c @ filter (\<lambda>e. newer seen e \<and> \<not> suppressed is_on e) es\<rparr>"
  by (induction es arbitrary: c) (auto simp: try_send_def newer_def)

lemma replay_is_dis_replay:
  "replay_events seen es c = dis_replay_events (\<lambda>_. False) seen es c"
  by (induction es arbitrary: c) (auto simp: suppressed_def split: option.splits)

lemma subscribe_is_dis_subscribe: "subscribe i seen b = dis_subscribe (\<lambda>_. False) i seen b"
  by (simp add: subscribe_def dis_subscribe_def Let_def replay_is_dis_replay)

lemma dis_subscribe_buffer:
  assumes "length (br_history b) \<le> history_capacity" "0 < seen"
  shows "br_clients (dis_subscribe is_on i seen b) i =
    Some \<lparr>cl_id = i,
          cl_events = filter (\<lambda>e. newer seen e \<and> \<not> suppressed is_on e) (br_history b)\<rparr>"
  using assms
  by (simp add: dis_subscribe_def Let_def dis_replay_events_all client_buffer_def history_capacity_def)

lemma mset_history_in_order: "mset (history_in_order b) = mset (br_history b)"
  by (metis append_take_drop_id history_in_order_def mset_append union_commute)

lemma mset_recent:
  assumes "ring_ok sent b"
  shows "mset (br_history b) = mset (recent sent)"
  using assms by (metis mset_history_in_order ring_ok_def)

lemma history_before_wrap:
  assumes "ring_ok sent b" "length sent \<le> history_capacity"
  shows "br_history b = sent"
  using assms by (auto simp: ring_ok_def history_in_order_def recent_def)

lemma event_id_parsed:
  "parse_int (event_id e) = (unix_nano (ev_timestamp e), True)"
  unfolding event_id_def by (rule parse_int_decimal) (simp_all add: unix_nano_def int64_min_def int64_max_def)

lemma event_id_not_Nil: "event_id e \<noteq> []"
  by (simp add: event_id_def decimal_int_def decimal_nat_digits)

lemma last_event_id_of_frame [simp]: "last_event_id (event_id e) = unix_nano (ev_timestamp e)"
  by (simp add: last_event_id_def event_id_parsed event_id_not_Nil)

subsection \<open>Buffers\<close>

lemma buffers_bounded_iff:
  "buffers_bounded b \<longleftrightarrow> (\<forall>k c. br_clients b k = Some c \<longrightarrow> length (cl_events c) \<le> client_buffer)"
  by (auto simp: buffers_bounded_def ran_def)

lemma dis_replay_bounded:
  "length (cl_events c) \<le> client_buffer \<Longrightarrow> length (cl_events (dis_replay_events is_on seen es c)) \<le> client_buffer"
  by (induction es arbitrary: c) (auto simp: try_send_def)

lemma dis_subscribe_bounded:
  "buffers_bounded b \<Longrightarrow> buffers_bounded (dis_subscribe is_on i seen b)"
  by (auto simp: buffers_bounded_iff dis_subscribe_def Let_def intro!: dis_replay_bounded)

lemma offer_bounded: "length (cl_events c) \<le> client_buffer \<Longrightarrow> length (cl_events (offer e c)) \<le> client_buffer"
  by (simp add: offer_def try_send_def)

lemma broadcast_clients [simp]:
  "br_clients (broadcast e b) = (\<lambda>k. map_option (offer e) (br_clients b k))"
  by (simp add: broadcast_def Let_def remember_event_def)

lemma broadcast_bounded: "buffers_bounded b \<Longrightarrow> buffers_bounded (broadcast e b)"
  by (auto simp: buffers_bounded_iff offer_bounded)

lemma stream_step_bounded:
  assumes "buffers_bounded b" "stream_step enc i b = Some (f, b')"
  shows "buffers_bounded b'"
proof -
  obtain c e es where c: "br_clients b i = Some c" "cl_events c = e # es"
    "b' = b\<lparr>br_clients := (br_clients b)(i \<mapsto> c\<lparr>cl_events := es\<rparr>)\<rparr>"
    using assms(2) by (auto simp: stream_step_def split: option.splits list.splits)
  with assms(1) have "length es < client_buffer" by (force simp: buffers_bounded_iff)
  with assms(1) c show ?thesis by (simp add: buffers_bounded_iff)
qed

lemma broker_run_bounded: "broker_run sent b \<Longrightarrow> buffers_bounded b"
proof (induction rule: broker_run.induct)
  case (run_subscribe sent b i seen)
  then show ?case by (simp add: subscribe_is_dis_subscribe dis_subscribe_bounded)
next
  case (run_stream sent b enc i f b')
  then show ?case by (blast intro: stream_step_bounded)
next
  case (run_stop sent b b')
  then show ?case by (auto simp: stop_broker_def buffers_bounded_iff split: if_splits)
qed (simp_all add: dis_subscribe_bounded broadcast_bounded, simp_all add: buffers_bounded_iff new_broker_def
      unsubscribe_def ping_clients_def signal_sse_connected_def, auto simp: offer_bounded)

subsection \<open>What a browser is sent\<close>

text \<open>In every reachable state of a broker the ring, read from its head, is the last hundred events that
  were broadcast, oldest first, and no client's buffer holds more events than its channel has room for.\<close>

theorem history_is_recent:
  "broker_run sent b \<Longrightarrow> history_in_order b = recent sent \<and> buffers_bounded b"
  using broker_run_ring [of sent b] broker_run_bounded [of sent b] by (simp add: ring_ok_def)

lemma history_is_recent_witness:
  "history_in_order (broadcast (new_event 5 EventDeviceAdded ''p'' ()) new_broker)
     = recent [new_event 5 EventDeviceAdded ''p'' ()]"
  using history_is_recent [OF run_broadcast [OF run_new], of "new_event 5 EventDeviceAdded ''p'' ()"] by simp

text \<open>C20: A browser that reconnects with the id of the last frame it received finds in its buffer every one
  of the last hundred events with a later timestamp, each exactly as often as it was broadcast, and nothing
  else; as long as the ring has not wrapped, in the order of the broadcasts. (After a wrap the replay walks
  the slots of the ring, so the order is a rotation.)\<close>

theorem reconnect_no_loss:
  assumes "broker_run sent b" "0 < unix_nano (ev_timestamp e)"
  shows "\<exists>c. br_clients (open_stream i (event_id e) b) i = Some c
     \<and> mset (cl_events c) = mset (filter (newer (unix_nano (ev_timestamp e))) (recent sent))
     \<and> (length sent \<le> history_capacity \<longrightarrow>
          cl_events c = filter (newer (unix_nano (ev_timestamp e))) sent)"
proof -
  note ring = broker_run_ring [OF assms(1)]
  have "length (br_history b) \<le> history_capacity" using ring by (simp add: ring_ok_def)
  then have "br_clients (open_stream i (event_id e) b) i = Some \<lparr>cl_id = i,
      cl_events = filter (newer (unix_nano (ev_timestamp e))) (br_history b)\<rparr>"
    using assms(2) by (simp add: open_stream_def subscribe_is_dis_subscribe dis_subscribe_buffer suppressed_def)
  then show ?thesis
    using mset_recent [OF ring] history_before_wrap [OF ring] by (simp add: mset_filter)
qed

theorem reconnect_no_loss_witness:
  "\<exists>c. br_clients (open_stream ''c'' (event_id (new_event 5 EventDeviceAdded ''p'' ()))
            (broadcast (new_event 6 EventDeviceOnline ''p'' ())
              (broadcast (new_event 5 EventDeviceAdded ''p'' ()) new_broker))) ''c'' = Some c
       \<and> cl_events c = [new_event 6 EventDeviceOnline ''p'' ()]"
proof -
  let ?e1 = "new_event 5 EventDeviceAdded ''p'' ()" and ?e2 = "new_event 6 EventDeviceOnline ''p'' ()"
  have "broker_run ([] @ [?e1]) (broadcast ?e1 new_broker)"
    by (rule run_broadcast) (rule run_new)
  then have "broker_run (([] @ [?e1]) @ [?e2]) (broadcast ?e2 (broadcast ?e1 new_broker))"
    by (rule run_broadcast)
  from reconnect_no_loss [OF this, of ?e1 "''c''"] show ?thesis
    by (auto simp: new_event_def unix_nano_def newer_def history_capacity_def)
qed

end
