(* ===== verification/Dis_Debounce.thy ===== *)
theory Dis_Debounce
  imports Sse_Broker Dis_Names
begin

text \<open>
  The debouncer of the discovery service (\<open>internal/correlation/debounce.go\<close>): changes of a device wait until
  enough sources have confirmed them or ten seconds have passed, and a change that is reverted at once
  is not announced at all. The store is the table \<open>pending_events\<close> with the statements of
  \<open>internal/storage/sqlite.go\<close> on it. \<open>enc\<close> and \<open>dec\<close> are the JSON text of a payload and its parser. Every
  method holds the mutex; \<open>Submit\<close> can panic, which is \<open>None\<close>.
\<close>

subsection \<open>The table of pending events\<close>

record pending_record =
  pr_pdid :: string
  pr_type :: string
  pr_payload :: string
  pr_first :: time
  pr_last :: time
  pr_confirmations :: nat
  pr_sources :: string

type_synonym pending_table = "string \<times> string \<rightharpoonup> pending_record"

text \<open>An upsert: a row that exists keeps its \<open>first_seen\<close>.\<close>

definition save_pending_event :: "pending_record \<Rightarrow> pending_table \<Rightarrow> pending_table" where
  "save_pending_event r tab =
     (let key = (pr_pdid r, pr_type r)
      in case tab key of None \<Rightarrow> tab(key \<mapsto> r) | Some old \<Rightarrow> tab(key \<mapsto> r\<lparr>pr_first := pr_first old\<rparr>))"

definition delete_pending_batch :: "(string \<times> string) list \<Rightarrow> pending_table \<Rightarrow> pending_table" where
  "delete_pending_batch keys tab = foldl (\<lambda>t k. t(k := None)) tab keys"

subsection \<open>Operations\<close>

text \<open>\<open>pc_groups\<close> is \<open>None\<close> for the nil map.\<close>

record pending_change =
  pc_pdid :: string
  pc_type :: event_type
  pc_payload :: device_event_payload
  pc_first :: time
  pc_last :: time
  pc_confirmations :: nat
  pc_required :: nat
  pc_sources :: "string set"
  pc_groups :: "string set option"
  pc_confirmed_by :: "string list"

record debouncer =
  db_store :: "pending_table option"
  db_pending :: "string \<rightharpoonup> pending_change"
  db_recent :: "string \<rightharpoonup> string"
  db_recent_time :: "string \<rightharpoonup> time"

definition new_debouncer :: debouncer where
  "new_debouncer = \<lparr>db_store = None, db_pending = Map.empty, db_recent = Map.empty, db_recent_time = Map.empty\<rparr>"

definition set_store :: "pending_table option \<Rightarrow> debouncer \<Rightarrow> debouncer" where
  "set_store st d = d\<lparr>db_store := st\<rparr>"

text \<open>\<open>models.EventType(s)\<close> for a text from the table.\<close>

definition event_of_name :: "string \<Rightarrow> event_type" where
  "event_of_name s =
     (case find (\<lambda>t. event_name t = s)
        [EventDeviceAdded, EventDeviceRemoved, EventDeviceOnline, EventDeviceOffline, EventHostnameChanged,
         EventFingerprintUpdated, EventIPChanged, EventMACChanged, EventDeviceReidentified,
         EventIdentityCandidateChanged, EventIdentityBindingChanged, EventIdentityCandidateDecided,
         EventSecurityAlert, EventEffectiveStatusChanged] of
        Some t \<Rightarrow> t | None \<Rightarrow> EventOther s)"

definition required_confirmations :: "event_type \<Rightarrow> nat" where
  "required_confirmations t = (if t = EventHostnameChanged \<or> t = EventDeviceOnline then 2 else 1)"

definition pending_key :: "string \<Rightarrow> event_type \<Rightarrow> string" where
  "pending_key p t = p @ '':'' @ event_name t"

definition loaded_change :: "(string \<Rightarrow> device_event_payload option) \<Rightarrow> pending_record \<Rightarrow> pending_change option" where
  "loaded_change dec r =
     map_option (\<lambda>payload.
       let srcs = filter (\<lambda>s. s \<noteq> []) (split_char CHR '','' (pr_sources r))
       in \<lparr>pc_pdid = pr_pdid r, pc_type = event_of_name (pr_type r), pc_payload = payload, pc_first = pr_first r,
           pc_last = pr_last r, pc_confirmations = pr_confirmations r,
           pc_required = required_confirmations (event_of_name (pr_type r)), pc_sources = set srcs,
           pc_groups = None, pc_confirmed_by = srcs\<rparr>)
       (dec (pr_payload r))"

fun load_pending ::
  "(string \<Rightarrow> device_event_payload option) \<Rightarrow> pending_record list \<Rightarrow> debouncer \<Rightarrow> debouncer" where
  "load_pending dec [] d = d"
| "load_pending dec (r # rs) d =
     load_pending dec rs
       (case loaded_change dec r of None \<Rightarrow> d
        | Some pc \<Rightarrow> d\<lparr>db_pending := (db_pending d)(pr_pdid r @ '':'' @ pr_type r \<mapsto> pc)\<rparr>)"

text \<open>The value a change is compared with, under which key it is remembered, and for how long.\<close>

definition tracked_value ::
  "event_type \<Rightarrow> string \<Rightarrow> device_event_payload \<Rightarrow> (string \<times> string \<times> (string \<Rightarrow> bool) \<times> duration) option" where
  "tracked_value t p payload =
     (case t of
        EventHostnameChanged \<Rightarrow>
          Some (p @ '':hostname'', ep_old_host payload, (\<lambda>prev. hostnames_equivalent (ep_hostname payload) prev), 60 * second)
      | EventIPChanged \<Rightarrow> Some (p @ '':ip'', ep_old_ip payload, (\<lambda>prev. ep_ip payload = prev), 30 * second)
      | _ \<Rightarrow> None)"

definition reverts :: "time \<Rightarrow> event_type \<Rightarrow> string \<Rightarrow> device_event_payload \<Rightarrow> debouncer \<Rightarrow> bool" where
  "reverts now t p payload d =
     (case tracked_value t p payload of
        None \<Rightarrow> False
      | Some (k, _, same, window) \<Rightarrow>
          (case db_recent d k of None \<Rightarrow> False
           | Some prev \<Rightarrow> same prev \<and>
               time_sub now (case db_recent_time d k of Some s \<Rightarrow> s | None \<Rightarrow> zero_time) < window))"

definition remember_value :: "time \<Rightarrow> event_type \<Rightarrow> string \<Rightarrow> device_event_payload \<Rightarrow> debouncer \<Rightarrow> debouncer" where
  "remember_value now t p payload d =
     (case tracked_value t p payload of
        None \<Rightarrow> d
      | Some (k, old, _, _) \<Rightarrow>
          d\<lparr>db_recent := (db_recent d)(k \<mapsto> old), db_recent_time := (db_recent_time d)(k \<mapsto> now)\<rparr>)"

definition fresh_change :: "time \<Rightarrow> event_type \<Rightarrow> string \<Rightarrow> device_event_payload \<Rightarrow> pending_change" where
  "fresh_change now t p payload =
     \<lparr>pc_pdid = p, pc_type = t, pc_payload = payload, pc_first = now, pc_last = now, pc_confirmations = 0,
      pc_required = required_confirmations t, pc_sources = {}, pc_groups = Some {}, pc_confirmed_by = []\<rparr>"

text \<open>One more report of a pending change. Writing into the nil map panics.\<close>

definition confirm_change :: "time \<Rightarrow> string \<Rightarrow> string \<Rightarrow> pending_change \<Rightarrow> pending_change option" where
  "confirm_change now source grp pc =
     (if grp \<noteq> [] \<and> pc_groups pc = None then None
      else let gs = (if grp \<noteq> [] then map_option (insert grp) (pc_groups pc) else pc_groups pc);
               groups = (case gs of None \<Rightarrow> {} | Some g \<Rightarrow> g);
               srcs = insert source (pc_sources pc)
        in Some (pc\<lparr>pc_last := now, pc_groups := gs, pc_sources := srcs,
             pc_confirmed_by := (if source \<in> pc_sources pc then pc_confirmed_by pc else pc_confirmed_by pc @ [source]),
             pc_confirmations := (if 0 < card groups then card groups else card srcs)\<rparr>))"

definition submit ::
  "time \<Rightarrow> string \<Rightarrow> event_type \<Rightarrow> string \<Rightarrow> string \<Rightarrow> device_event_payload \<Rightarrow> debouncer \<Rightarrow> debouncer option" where
  "submit now p t source grp payload d =
     (let key = pending_key p t
      in if reverts now t p payload d then Some (d\<lparr>db_pending := (db_pending d)(key := None)\<rparr>)
         else let d1 = remember_value now t p payload d;
                  pc = (case db_pending d1 key of Some pc \<Rightarrow> pc | None \<Rightarrow> fresh_change now t p payload)
           in map_option (\<lambda>pc'. d1\<lparr>db_pending := (db_pending d1)(key \<mapsto> pc')\<rparr>)
                (confirm_change now source grp pc))"

text \<open>The entry is stored under its new key, then the old key is deleted.\<close>

fun migrate_pdid :: "string \<Rightarrow> string \<Rightarrow> string list \<Rightarrow> debouncer \<Rightarrow> debouncer" where
  "migrate_pdid old new [] d = d"
| "migrate_pdid old new (k # ks) d =
     migrate_pdid old new ks
       (case db_pending d k of
          None \<Rightarrow> d
        | Some pc \<Rightarrow>
            if pc_pdid pc = old then
              d\<lparr>db_pending := ((db_pending d)(pending_key new (pc_type pc) \<mapsto> pc\<lparr>pc_pdid := new\<rparr>))(k := None)\<rparr>
            else d)"

subsection \<open>The flush\<close>

definition record_of :: "(device_event_payload \<Rightarrow> string) \<Rightarrow> pending_change \<Rightarrow> pending_record" where
  "record_of enc pc =
     \<lparr>pr_pdid = pc_pdid pc, pr_type = event_name (pc_type pc), pr_payload = enc (pc_payload pc),
      pr_first = pc_first pc, pr_last = pc_last pc, pr_confirmations = pc_confirmations pc,
      pr_sources = join '','' (pc_confirmed_by pc)\<rparr>"

definition due :: "time \<Rightarrow> pending_change \<Rightarrow> bool" where
  "due now pc \<longleftrightarrow> pc_required pc \<le> pc_confirmations pc \<or> 10 * second < time_sub now (pc_first pc)"

definition announcement :: "time \<Rightarrow> pending_change \<Rightarrow> device_event_payload event" where
  "announcement at_time pc =
     new_event at_time (pc_type pc) (pc_pdid pc) ((pc_payload pc)\<lparr>ep_confirmed_by := pc_confirmed_by pc\<rparr>)"

text \<open>The loop over the pending changes: the events it broadcasts, the rows to delete, the new state.
  \<open>clk k\<close> is the clock when the event of \<open>k\<close> is made; \<open>fails\<close> are the keys whose row cannot be saved.\<close>

fun flush_loop ::
  "(device_event_payload \<Rightarrow> string) \<Rightarrow> (string \<Rightarrow> time) \<Rightarrow> (string \<Rightarrow> bool) \<Rightarrow> time \<Rightarrow> string list \<Rightarrow> debouncer \<Rightarrow>
   device_event_payload event list \<times> (string \<times> string) list \<times> debouncer" where
  "flush_loop enc clk fails now [] d = ([], [], d)"
| "flush_loop enc clk fails now (k # ks) d =
     (case db_pending d k of
        None \<Rightarrow> flush_loop enc clk fails now ks d
      | Some pc \<Rightarrow>
          let d1 = (if fails k then d
                    else d\<lparr>db_store := map_option (save_pending_event (record_of enc pc)) (db_store d)\<rparr>)
          in if due now pc then
               (case flush_loop enc clk fails now ks (d1\<lparr>db_pending := (db_pending d1)(k := None)\<rparr>) of
                  (evs, rows, d2) \<Rightarrow>
                    (announcement (clk k) pc # evs, (pc_pdid pc, event_name (pc_type pc)) # rows, d2))
             else flush_loop enc clk fails now ks d1)"

definition forget_old_values :: "time \<Rightarrow> debouncer \<Rightarrow> debouncer" where
  "forget_old_values now d =
     d\<lparr>db_recent := (\<lambda>k. if case db_recent_time d k of None \<Rightarrow> False | Some s \<Rightarrow> 5 * minute < time_sub now s
                             then None else db_recent d k),
           db_recent_time := (\<lambda>k. if case db_recent_time d k of None \<Rightarrow> False | Some s \<Rightarrow> 5 * minute < time_sub now s
                             then None else db_recent_time d k)\<rparr>"

definition flush ::
  "(device_event_payload \<Rightarrow> string) \<Rightarrow> (string \<Rightarrow> time) \<Rightarrow> (string \<Rightarrow> bool) \<Rightarrow> bool \<Rightarrow> time \<Rightarrow> string list \<Rightarrow>
   debouncer \<Rightarrow> device_event_payload event list \<times> debouncer" where
  "flush enc clk fails batch_fails now ks d =
     (case flush_loop enc clk fails now ks d of
        (evs, rows, d1) \<Rightarrow>
          (evs, forget_old_values now
             (if rows = [] \<or> batch_fails then d1
              else d1\<lparr>db_store := map_option (delete_pending_batch rows) (db_store d1)\<rparr>)))"

text \<open>Each event goes to the broker as it is made.\<close>

definition flush_to_broker ::
  "(device_event_payload \<Rightarrow> string) \<Rightarrow> (string \<Rightarrow> time) \<Rightarrow> (string \<Rightarrow> bool) \<Rightarrow> bool \<Rightarrow> time \<Rightarrow> string list \<Rightarrow>
   debouncer \<times> device_event_payload broker \<Rightarrow> debouncer \<times> device_event_payload broker" where
  "flush_to_broker enc clk fails batch_fails now ks = (\<lambda>(d, b).
     case flush enc clk fails batch_fails now ks d of (evs, d') \<Rightarrow> (d', fold broadcast evs b))"

subsection \<open>What a flush does\<close>

lemma flush_loop_result:
  assumes "distinct ks" "flush_loop enc clk fails now ks d = (evs, rows, d')"
  defines "gone \<equiv> filter (\<lambda>(k, pc). due now pc) (range_entries (db_pending d) ks)"
  shows "evs = map (\<lambda>(k, pc). announcement (clk k) pc) gone
    \<and> rows = map (\<lambda>(k, pc). (pc_pdid pc, event_name (pc_type pc))) gone
    \<and> db_pending d' = (\<lambda>k. if k \<in> set ks \<and> (\<exists>pc. db_pending d k = Some pc \<and> due now pc) then None else db_pending d k)
    \<and> db_recent d' = db_recent d \<and> db_recent_time d' = db_recent_time d"
  using assms(1,2) unfolding gone_def
proof (induction ks arbitrary: d evs rows d')
  case (Cons k ks)
  have other: "range_entries ((db_pending d)(k := None)) ks = range_entries (db_pending d) ks"
  proof -
    have "k \<notin> set js \<Longrightarrow> range_entries ((db_pending d)(k := None)) js = range_entries (db_pending d) js" for js
      by (induction js) (auto split: option.splits)
    with Cons.prems(1) show ?thesis by simp
  qed
  then have other': "range_entries (\<lambda>a. if a = k then None else db_pending d a) ks = range_entries (db_pending d) ks"
    by (simp add: fun_upd_def)
  show ?case
  proof (cases "db_pending d k")
    case None
    then have "flush_loop enc clk fails now ks d = (evs, rows, d')" using Cons.prems(2) by simp
    from Cons.IH [OF _ this] Cons.prems(1) None show ?thesis by (auto simp: fun_eq_iff)
  next
    case (Some pc)
    define d1 where "d1 = (if fails k then d
        else d\<lparr>db_store := map_option (save_pending_event (record_of enc pc)) (db_store d)\<rparr>)"
    have d1: "db_pending d1 = db_pending d" "db_recent d1 = db_recent d" "db_recent_time d1 = db_recent_time d"
      by (simp_all add: d1_def)
    show ?thesis
    proof (cases "due now pc")
      case True
      then obtain evs2 rows2 where l: "flush_loop enc clk fails now ks (d1\<lparr>db_pending := (db_pending d1)(k := None)\<rparr>) = (evs2, rows2, d')"
        "evs = announcement (clk k) pc # evs2" "rows = (pc_pdid pc, event_name (pc_type pc)) # rows2"
        using Cons.prems(2) Some by (auto simp: d1_def [symmetric] split: prod.splits)
      have ih: "evs2 = map (\<lambda>(k, pc). announcement (clk k) pc) (filter (\<lambda>(k, pc). due now pc) (range_entries (db_pending d) ks))"
        "rows2 = map (\<lambda>(k, pc). (pc_pdid pc, event_name (pc_type pc))) (filter (\<lambda>(k, pc). due now pc) (range_entries (db_pending d) ks))"
        "db_recent d' = db_recent d" "db_recent_time d' = db_recent_time d"
        "db_pending d' = (\<lambda>j. if j \<in> set ks \<and> (\<exists>pc. ((db_pending d)(k := None)) j = Some pc \<and> due now pc)
           then None else ((db_pending d)(k := None)) j)"
        using Cons.IH [OF _ l(1)] Cons.prems(1) by (simp_all add: d1 other other' cong: if_cong)
      have "db_pending d' j = (if j \<in> set (k # ks) \<and> (\<exists>pc. db_pending d j = Some pc \<and> due now pc)
          then None else db_pending d j)" for j
        unfolding ih(5) using Some True by auto
      then show ?thesis using ih(1-4) l(2,3) Some True by (simp add: fun_eq_iff)
    next
      case False
      then have l: "flush_loop enc clk fails now ks d1 = (evs, rows, d')"
        using Cons.prems(2) Some by (simp add: d1_def [symmetric])
      from Cons.IH [OF _ l] Cons.prems(1) Some False d1 show ?thesis by (auto simp: fun_eq_iff)
    qed
  qed
qed simp

lemma forget_old_values_pending [simp]: "db_pending (forget_old_values now d) = db_pending d"
  by (simp add: forget_old_values_def)

lemma flush_result:
  assumes "range_order (db_pending d) ks" "flush enc clk fails batch_fails now ks d = (evs, d')"
  shows "evs = map (\<lambda>(k, pc). announcement (clk k) pc) (filter (\<lambda>(k, pc). due now pc) (range_entries (db_pending d) ks))
    \<and> (\<forall>k pc. db_pending d' k = Some pc \<longleftrightarrow> db_pending d k = Some pc \<and> \<not> due now pc)
    \<and> (\<forall>k pc. db_pending d k = Some pc \<longrightarrow> 10 * second < time_sub now (pc_first pc) \<longrightarrow>
         announcement (clk k) pc \<in> set evs)"
proof -
  from assms(1) have ks: "distinct ks" "set ks = dom (db_pending d)" by (simp_all add: range_order_def)
  obtain rows d1 where l: "flush_loop enc clk fails now ks d = (evs, rows, d1)" "db_pending d' = db_pending d1"
    using assms(2) by (auto simp: flush_def split: prod.splits if_splits)
  note r = flush_loop_result [OF ks(1) l(1)]
  have "db_pending d' k = Some pc \<longleftrightarrow> db_pending d k = Some pc \<and> \<not> due now pc" for k pc
    using r ks(2) l(2) by auto
  moreover have "announcement (clk k) pc \<in> set evs"
    if "db_pending d k = Some pc" "10 * second < time_sub now (pc_first pc)" for k pc
  proof -
    have "(k, pc) \<in> set (range_entries (db_pending d) ks)" using that ks(2) by (auto simp: set_range_entries)
    moreover have "due now pc" using that by (simp add: due_def)
    ultimately show ?thesis using r by force
  qed
  ultimately show ?thesis using r by blast
qed

text \<open>One flush announces every pending change that has been confirmed often enough or is older than ten
  seconds, once each, with the sources that confirmed it, and keeps exactly the others waiting; whether
  the rows can be saved or deleted and in which order the map is walked makes no difference to that.\<close>

theorem flush_exact:
  assumes "range_order (db_pending d) ks" "flush enc clk fails batch_fails now ks d = (evs, d')"
  shows "evs = map (\<lambda>(k, pc). announcement (clk k) pc) (filter (\<lambda>(k, pc). due now pc) (range_entries (db_pending d) ks))
    \<and> (\<forall>k pc. db_pending d' k = Some pc \<longleftrightarrow> db_pending d k = Some pc \<and> \<not> due now pc)
    \<and> (\<forall>k pc. db_pending d k = Some pc \<longrightarrow> 10 * second < time_sub now (pc_first pc) \<longrightarrow>
         announcement (clk k) pc \<in> set evs)"
  using flush_result [OF assms] by blast

subsection \<open>Reverted changes\<close>

lemma confirm_change_Some: "confirm_change now source grp (fresh_change now t p payload) \<noteq> None"
  by (simp add: confirm_change_def fresh_change_def Let_def)

text \<open>A host name that changes and changes back within a minute, and an address that does so within half a
  minute, is not announced: the second report takes the pending change away.\<close>

theorem flap_suppressed:
  assumes "submit t1 p t src1 grp1 pl1 d = Some d1" "\<not> reverts t1 t p pl1 d"
    and "t = EventHostnameChanged \<and> hostnames_equivalent (ep_hostname pl2) (ep_old_host pl1) \<and> time_sub t2 t1 < 60 * second
       \<or> t = EventIPChanged \<and> ep_ip pl2 = ep_old_ip pl1 \<and> time_sub t2 t1 < 30 * second"
  shows "\<exists>d2. submit t2 p t src2 grp2 pl2 d1 = Some d2 \<and> db_pending d2 (pending_key p t) = None"
proof -
  from assms(1,2) have "db_recent d1 = db_recent (remember_value t1 t p pl1 d)"
    "db_recent_time d1 = db_recent_time (remember_value t1 t p pl1 d)"
    by (auto simp: submit_def Let_def)
  with assms(3) have "reverts t2 t p pl2 d1"
    by (auto simp: reverts_def remember_value_def tracked_value_def)
  then show ?thesis by (simp add: submit_def Let_def)
qed

subsection \<open>The invariant of the pending changes\<close>

definition change_ok :: "string \<Rightarrow> pending_change \<Rightarrow> bool" where
  "change_ok k pc \<longleftrightarrow>
     k = pending_key (pc_pdid pc) (pc_type pc) \<and> pc_required pc = required_confirmations (pc_type pc)
     \<and> distinct (pc_confirmed_by pc) \<and> set (pc_confirmed_by pc) = pc_sources pc
     \<and> (\<exists>gs. pc_groups pc = Some gs \<and> finite gs \<and>
          pc_confirmations pc = (if gs \<noteq> {} then card gs else length (pc_confirmed_by pc)))"

definition debouncer_ok :: "debouncer \<Rightarrow> bool" where
  "debouncer_ok d \<longleftrightarrow> (\<forall>k pc. db_pending d k = Some pc \<longrightarrow> change_ok k pc)"

lemma change_ok_confirm:
  assumes "k = pending_key (pc_pdid pc) (pc_type pc)" "pc_required pc = required_confirmations (pc_type pc)"
    "distinct (pc_confirmed_by pc)" "set (pc_confirmed_by pc) = pc_sources pc" "pc_groups pc = Some gs" "finite gs"
  shows "\<exists>pc'. confirm_change now source grp pc = Some pc' \<and> change_ok k pc'"
proof -
  have "card (insert source (pc_sources pc)) =
      (if source \<in> pc_sources pc then length (pc_confirmed_by pc) else Suc (length (pc_confirmed_by pc)))"
    using assms(3,4) by (metis List.finite_set card_insert_disjoint distinct_card insert_absorb)
  then show ?thesis
    using assms by (auto simp: confirm_change_def Let_def change_ok_def card_gt_0_iff)
qed

lemma debouncer_ok_submit:
  assumes "debouncer_ok d" shows "\<exists>d'. submit now p t source grp payload d = Some d' \<and> debouncer_ok d'"
proof (cases "reverts now t p payload d")
  case True
  with assms show ?thesis by (simp add: submit_def Let_def debouncer_ok_def)
next
  case False
  let ?d1 = "remember_value now t p payload d" and ?key = "pending_key p t"
  have pend: "db_pending ?d1 = db_pending d"
    by (simp add: remember_value_def split: option.splits prod.splits)
  define pc where "pc = (case db_pending ?d1 ?key of Some pc \<Rightarrow> pc | None \<Rightarrow> fresh_change now t p payload)"
  have "\<exists>pc'. confirm_change now source grp pc = Some pc' \<and> change_ok ?key pc'"
  proof (cases "db_pending d ?key")
    case None
    then have "pc = fresh_change now t p payload" by (simp add: pc_def pend)
    then show ?thesis
      by (intro change_ok_confirm [where gs = "{}"]) (simp_all add: fresh_change_def)
  next
    case (Some pc0)
    then have pc: "pc = pc0" "change_ok ?key pc0" using assms by (simp_all add: pc_def pend debouncer_ok_def)
    then obtain gs where "pc_groups pc0 = Some gs" "finite gs" by (auto simp: change_ok_def)
    with pc show ?thesis by (intro change_ok_confirm [where gs = gs]) (simp_all add: change_ok_def)
  qed
  then obtain pc' where "confirm_change now source grp pc = Some pc'" "change_ok ?key pc'" by blast
  moreover from this have "submit now p t source grp payload d = Some (?d1\<lparr>db_pending := (db_pending ?d1)(?key \<mapsto> pc')\<rparr>)"
    using False by (simp add: submit_def Let_def flip: pc_def)
  ultimately show ?thesis using assms by (auto simp: debouncer_ok_def pend)
qed

lemma debouncer_ok_flush:
  assumes "debouncer_ok d" "flush enc clk fails bf now ks d = (evs, d')" "distinct ks"
  shows "debouncer_ok d'"
proof -
  obtain rows d1 where l: "flush_loop enc clk fails now ks d = (evs, rows, d1)" "db_pending d' = db_pending d1"
    using assms(2) by (auto simp: flush_def split: prod.splits if_splits)
  from flush_loop_result [OF assms(3) l(1)] l(2) assms(1) show ?thesis
    by (auto simp: debouncer_ok_def split: if_splits)
qed

inductive debounce_run :: "debouncer \<Rightarrow> bool" where
  deb_new: "debounce_run new_debouncer"
| deb_store: "debounce_run d \<Longrightarrow> debounce_run (set_store st d)"
| deb_submit: "debounce_run d \<Longrightarrow> submit now p t source grp payload d = Some d' \<Longrightarrow> debounce_run d'"
| deb_flush: "debounce_run d \<Longrightarrow> range_order (db_pending d) ks \<Longrightarrow>
    flush enc clk fails bf now ks d = (evs, d') \<Longrightarrow> debounce_run d'"

lemma debounce_run_ok: "debounce_run d \<Longrightarrow> debouncer_ok d"
proof (induction rule: debounce_run.induct)
  case (deb_submit d now p t source grp payload d')
  then show ?case using debouncer_ok_submit [of d now p t source grp payload] by auto
next
  case (deb_flush d ks enc clk fails bf now evs d')
  then show ?case using debouncer_ok_flush by (auto simp: range_order_def)
qed (simp_all add: debouncer_ok_def new_debouncer_def set_store_def)

text \<open>While nothing was loaded from the table, no report panics, and a change of host name or an online
  report that a flush announces within ten seconds of its first report has been confirmed twice: by two
  provider groups, or, if no report named a group, by two different sources.\<close>

theorem early_announcement_confirmed:
  assumes "debounce_run d"
  shows "submit now p t source grp payload d \<noteq> None
    \<and> (range_order (db_pending d) ks \<longrightarrow> (\<forall>ev \<in> set (fst (flush enc clk fails bf now ks d)). \<exists>k pc.
         db_pending d k = Some pc \<and> ev = announcement (clk k) pc \<and>
         (ev_type ev \<in> {EventHostnameChanged, EventDeviceOnline} \<and> time_sub now (pc_first pc) \<le> 10 * second \<longrightarrow>
            (\<exists>gs. pc_groups pc = Some gs \<and> (2 \<le> card gs \<or> gs = {} \<and> 2 \<le> card (set (ep_confirmed_by (ev_payload ev))))))))"
proof -
  note ok = debounce_run_ok [OF assms]
  have "\<exists>k pc. db_pending d k = Some pc \<and> ev = announcement (clk k) pc \<and>
         (ev_type ev \<in> {EventHostnameChanged, EventDeviceOnline} \<and> time_sub now (pc_first pc) \<le> 10 * second \<longrightarrow>
            (\<exists>gs. pc_groups pc = Some gs \<and> (2 \<le> card gs \<or> gs = {} \<and> 2 \<le> card (set (ep_confirmed_by (ev_payload ev))))))"
    if ks: "range_order (db_pending d) ks" and ev: "ev \<in> set (fst (flush enc clk fails bf now ks d))" for ev
  proof -
    from flush_result [OF ks, of enc clk fails bf now "fst (flush enc clk fails bf now ks d)" "snd (flush enc clk fails bf now ks d)"] ev
    obtain k pc where pc: "(k, pc) \<in> set (range_entries (db_pending d) ks)" "due now pc" "ev = announcement (clk k) pc"
      by auto
    then have p: "db_pending d k = Some pc" by (simp add: set_range_entries)
    with ok have c: "change_ok k pc" by (simp add: debouncer_ok_def)
    then obtain gs where gs: "pc_groups pc = Some gs"
      "pc_confirmations pc = (if gs \<noteq> {} then card gs else length (pc_confirmed_by pc))" by (auto simp: change_ok_def)
    have "2 \<le> card gs \<or> gs = {} \<and> 2 \<le> card (set (ep_confirmed_by (ev_payload ev)))"
      if "ev_type ev \<in> {EventHostnameChanged, EventDeviceOnline}" "time_sub now (pc_first pc) \<le> 10 * second"
    proof -
      from that pc have "2 \<le> pc_confirmations pc"
        using c by (auto simp: due_def change_ok_def required_confirmations_def announcement_def new_event_def)
      then show ?thesis
        using gs c pc(3) distinct_card [of "pc_confirmed_by pc"]
        by (auto simp: change_ok_def announcement_def new_event_def split: if_splits)
    qed
    with p pc(3) gs show ?thesis by blast
  qed
  moreover have "submit now p t source grp payload d \<noteq> None"
    using debouncer_ok_submit [OF ok, of now p t source grp payload] by auto
  ultimately show ?thesis by blast
qed

subsection \<open>Restarts\<close>

lemma event_of_name_inverse:
  assumes "\<forall>s. t \<noteq> EventOther s"
  shows "event_of_name (event_name t) = t"
  using assms by (cases t) (simp_all add: event_of_name_def event_name_def)

text \<open>A pending change whose row was saved comes back from the table as it was, but for the provider groups,
  which are lost: provided the payload's JSON is read back and no source has an empty name or one with
  a comma.\<close>

theorem pending_survives_restart:
  assumes "dec (enc (pc_payload pc)) = Some (pc_payload pc)" "change_ok k pc" "\<forall>s. pc_type pc \<noteq> EventOther s"
    and "\<forall>s \<in> pc_sources pc. s \<noteq> [] \<and> CHR '','' \<notin> set s"
  shows "loaded_change dec (record_of enc pc) = Some (pc\<lparr>pc_groups := None\<rparr>)"
proof -
  have src: "set (pc_confirmed_by pc) = pc_sources pc" using assms(2) by (simp add: change_ok_def)
  have "filter (\<lambda>s. s \<noteq> []) (split_char CHR '','' (join '','' (pc_confirmed_by pc))) = pc_confirmed_by pc"
  proof (cases "pc_confirmed_by pc = []")
    case False
    then show ?thesis using assms(4) src by (simp add: split_char_join)
  qed simp
  with assms(1,2) src show ?thesis
    by (simp add: loaded_change_def record_of_def event_of_name_inverse [OF assms(3)] change_ok_def)
qed

text \<open>A report from a provider group for a change that was loaded from the table writes into the nil map: the
  service panics.\<close>

lemma loaded_change_panics:
  assumes "loaded_change dec r = Some pc" "db_pending d (pending_key p t) = Some pc" "grp \<noteq> []"
    and "\<not> reverts now t p payload d"
  shows "submit now p t source grp payload d = None"
proof -
  have "pc_groups pc = None" using assms(1) by (auto simp: loaded_change_def)
  moreover have "db_pending (remember_value now t p payload d) = db_pending d"
    by (simp add: remember_value_def split: option.splits prod.splits)
  ultimately show ?thesis
    using assms(2-4) by (simp add: submit_def Let_def confirm_change_def)
qed

subsection \<open>Witnesses\<close>

definition renamed :: "string \<Rightarrow> string \<Rightarrow> device_event_payload" where
  "renamed old new = \<lparr>ep_pdid = ''p'', ep_mac = [], ep_ip = [], ep_hostname = new, ep_canonical_hostname = [],
     ep_old_mac = [], ep_old_ip = [], ep_old_host = old, ep_old_canonical_hostname = [], ep_confirmed_by = [],
     ep_timestamp = 0\<rparr>"

definition readdressed :: "string \<Rightarrow> string \<Rightarrow> device_event_payload" where
  "readdressed old new = (renamed [] [])\<lparr>ep_old_ip := old, ep_ip := new\<rparr>"

definition waiting :: "time \<Rightarrow> debouncer" where
  "waiting t = (case submit t ''p'' EventHostnameChanged ''dhcp'' ''L3_dhcp'' (renamed ''a'' ''b'') new_debouncer of
     Some d \<Rightarrow> d | None \<Rightarrow> new_debouncer)"

lemmas submit_eval = submit_def reverts_def remember_value_def tracked_value_def new_debouncer_def
  confirm_change_def fresh_change_def pending_key_def

lemma waiting_run: "debounce_run (waiting t)"
proof -
  have "submit t ''p'' EventHostnameChanged ''dhcp'' ''L3_dhcp'' (renamed ''a'' ''b'') new_debouncer = Some (waiting t)"
    by (simp add: waiting_def submit_eval Let_def)
  with deb_new show ?thesis by (rule deb_submit)
qed

lemma waiting_order: "range_order (db_pending (waiting t)) [pending_key ''p'' EventHostnameChanged]"
  by (simp add: range_order_def waiting_def submit_eval Let_def)

lemma flush_exact_witness:
  "db_pending (snd (flush (\<lambda>_. []) (\<lambda>_. 0) (\<lambda>_. False) False (11 * second)
     [pending_key ''p'' EventHostnameChanged] (waiting 0))) (pending_key ''p'' EventHostnameChanged) = None"
proof -
  let ?f = "flush (\<lambda>_. []) (\<lambda>_. 0) (\<lambda>_. False) False (11 * second) [pending_key ''p'' EventHostnameChanged] (waiting 0)"
  have "due (11 * second) pc" if "db_pending (waiting 0) (pending_key ''p'' EventHostnameChanged) = Some pc" for pc
    using that by (auto simp: waiting_def submit_eval Let_def due_def time_sub_def max_duration_def
        min_duration_def second_def)
  then show ?thesis
    using flush_exact [OF waiting_order [of 0], of "\<lambda>_. []" "\<lambda>_. 0" "\<lambda>_. False" False "11 * second" "fst ?f" "snd ?f"]
    by (cases "db_pending (snd ?f) (pending_key ''p'' EventHostnameChanged)") auto
qed

lemma flap_suppressed_witness:
  "\<exists>d2. submit (20 * second) ''p'' EventIPChanged ''arp'' [] (readdressed ''10.0.0.8'' ''10.0.0.7'')
     (the (submit 0 ''p'' EventIPChanged ''arp'' [] (readdressed ''10.0.0.7'' ''10.0.0.8'') new_debouncer)) = Some d2
     \<and> db_pending d2 (pending_key ''p'' EventIPChanged) = None"
  by (rule flap_suppressed [where d = new_debouncer and ?pl1.0 = "readdressed ''10.0.0.7'' ''10.0.0.8''" and ?t1.0 = 0 and ?src1.0 = "''arp''" and ?grp1.0 = "[]"])
    (simp_all add: submit_eval Let_def readdressed_def renamed_def time_sub_def max_duration_def min_duration_def second_def)

lemma early_announcement_confirmed_witness:
  "submit 1 ''p'' EventHostnameChanged ''mdns'' ''L7_name'' (renamed ''a'' ''b'') (waiting 0) \<noteq> None"
  using early_announcement_confirmed [OF waiting_run [of 0]] by blast

lemma pending_survives_restart_witness:
  "let pc = \<lparr>pc_pdid = ''p'', pc_type = EventHostnameChanged, pc_payload = renamed ''a'' ''b'', pc_first = 0,
       pc_last = 1, pc_confirmations = 1, pc_required = 2, pc_sources = {''dhcp'', ''mdns''},
       pc_groups = Some {''L3_dhcp''}, pc_confirmed_by = [''dhcp'', ''mdns'']\<rparr>
   in loaded_change (\<lambda>_. Some (renamed ''a'' ''b'')) (record_of (\<lambda>_. []) pc) = Some (pc\<lparr>pc_groups := None\<rparr>)"
  unfolding Let_def
  by (rule pending_survives_restart [where k = "pending_key ''p'' EventHostnameChanged"])
    (auto simp: change_ok_def required_confirmations_def)

end
