(* ===== verification/Dis_Identity.thy ===== *)
theory Dis_Identity
  imports Dis_Names
begin

text \<open>
  What the discovery service makes of one observation: the observation and its host name
  (\<open>internal/discovery/provider.go\<close>), the addresses that are ignored (\<open>netlink_provider.go\<close>), the aliases of a
  device with their normal forms and hashes (\<open>internal/identity/alias.go\<close>, \<open>signals.go\<close>), and the passive
  score of two sightings being one device (\<open>scorer.go\<close>, \<open>internal/correlation/ipclaim.go\<close>). \<open>sha\<close> is SHA-256.
  \<open>float64\<close> probabilities are reals.
\<close>

subsection \<open>Observations\<close>

record observation =
  obs_source :: string
  obs_group :: string
  obs_mac :: "hwaddr option"
  obs_ip :: "ip_addr option"
  obs_hostname :: string
  obs_vendor :: string
  obs_model :: string
  obs_services :: "string list"
  obs_confidence :: real
  obs_timestamp :: time
  obs_online :: bool
  obs_raw :: "string \<rightharpoonup> raw_value"

text \<open>\<open>\ddd\<close> with a decimal byte, \<open>\c\<close> for any other character; a final backslash is dropped.\<close>

definition decimal_byte :: "string \<Rightarrow> char option" where
  "decimal_byte s =
     (if list_all is_digit s then
        let v = foldl (\<lambda>n c. n * 10 + (byte c - 48)) 0 s in if v \<le> 255 then Some (char_of v) else None
      else None)"

function unescape :: "string \<Rightarrow> string" where
  "unescape s =
     (case s of [] \<Rightarrow> []
      | c # r \<Rightarrow>
          if c \<noteq> CHR 0x5C then c # unescape r
          else (case (if 3 \<le> length r then decimal_byte (take 3 r) else None) of
              Some v \<Rightarrow> v # unescape (drop 3 r)
            | None \<Rightarrow> (case r of [] \<Rightarrow> [] | d # r' \<Rightarrow> d # unescape r')))"
  by pat_completeness auto
termination
  by (relation "measure length") auto

declare unescape.simps [simp del]

definition unescape_hostname :: "string \<Rightarrow> string" where
  "unescape_hostname raw = (if raw = [] then [] else trim_space (unescape raw))"

definition ip_equal :: "ip_addr \<Rightarrow> ip_addr \<Rightarrow> bool" where
  "ip_equal a b \<longleftrightarrow>
     (if length a = length b then a = b
      else if length a = 4 \<and> length b = 16 then take 12 b = v4_prefix \<and> drop 12 b = a
      else if length a = 16 \<and> length b = 4 then take 12 a = v4_prefix \<and> drop 12 a = b else False)"

definition is_multicast_ip :: "ip_addr \<Rightarrow> bool" where
  "is_multicast_ip ip =
     (case to4 ip of Some v4 \<Rightarrow> hd v4 AND 0xF0 = 0xE0 | None \<Rightarrow> length ip = 16 \<and> hd ip = 0xFF)"

definition is_loopback_ip :: "ip_addr \<Rightarrow> bool" where
  "is_loopback_ip ip =
     (case to4 ip of Some v4 \<Rightarrow> hd v4 = 127 | None \<Rightarrow> ip_equal ip (replicate 15 0 @ [1]))"

definition is_unspecified_ip :: "ip_addr \<Rightarrow> bool" where
  "is_unspecified_ip ip \<longleftrightarrow> ip_equal ip (v4_prefix @ [0, 0, 0, 0]) \<or> ip_equal ip (replicate 16 0)"

definition is_multicast_or_broadcast :: "hwaddr option \<Rightarrow> ip_addr option \<Rightarrow> bool" where
  "is_multicast_or_broadcast mac ip \<longleftrightarrow>
     (case mac of None \<Rightarrow> False
      | Some m \<Rightarrow> length m = 6 \<and> (take 3 m = [0x01, 0x00, 0x5E] \<or> take 2 m = [0x33, 0x33] \<or> m = replicate 6 0xFF))
     \<or> (case ip of None \<Rightarrow> False
        | Some a \<Rightarrow> is_multicast_ip a \<or> is_loopback_ip a \<or> is_unspecified_ip a
            \<or> ip_equal a (v4_prefix @ [255, 255, 255, 255]))"

subsection \<open>Aliases\<close>

datatype alias_type =
  AliasMAC | AliasHostname | AliasServiceSet | AliasDHCPClientID | AliasPPSK | AliasEAPTLSSubject
| AliasMDMDeviceID | AliasDevicePublicKey | AliasManual | AliasOther string

definition alias_name :: "alias_type \<Rightarrow> string" where
  "alias_name t = (case t of
     AliasMAC \<Rightarrow> ''mac'' | AliasHostname \<Rightarrow> ''hostname'' | AliasServiceSet \<Rightarrow> ''service_set''
   | AliasDHCPClientID \<Rightarrow> ''dhcp_client_id'' | AliasPPSK \<Rightarrow> ''ppsk_id'' | AliasEAPTLSSubject \<Rightarrow> ''eap_tls_subject''
   | AliasMDMDeviceID \<Rightarrow> ''mdm_device_id'' | AliasDevicePublicKey \<Rightarrow> ''device_public_key''
   | AliasManual \<Rightarrow> ''manual'' | AliasOther s \<Rightarrow> s)"

definition normalize_services :: "string list \<Rightarrow> string list" where
  "normalize_services ss = filter (\<lambda>s. s \<noteq> []) (map (\<lambda>s. to_lower (trim_space s)) ss)"

definition normalize_alias :: "alias_type \<Rightarrow> string \<Rightarrow> string option" where
  "normalize_alias t v =
     (let v' = trim_space v;
          short = (\<lambda>w. if 1024 < length w then None else Some w)
      in if v' = [] then None
         else (case t of
             AliasMAC \<Rightarrow>
               (case parse_mac v' of None \<Rightarrow> None
                | Some hw \<Rightarrow> if length hw \<noteq> 6 then None else Some (to_lower (mac_string hw)))
           | AliasHostname \<Rightarrow> short (trim_suffix (to_lower v') ''.'')
           | AliasServiceSet \<Rightarrow>
               (let parts = normalize_services (split_char CHR '','' v')
                in if parts = [] then None else short (join '','' (sort parts)))
           | AliasOther _ \<Rightarrow> None
           | _ \<Rightarrow> short v'))"

definition hash_alias :: "(string \<Rightarrow> u8 list) \<Rightarrow> alias_type \<Rightarrow> string \<Rightarrow> string option" where
  "hash_alias sha t v =
     map_option (\<lambda>n. hex_string (sha (alias_name t @ [CHR 0x00] @ n))) (normalize_alias t v)"

definition is_unicast_mac :: "string \<Rightarrow> bool" where
  "is_unicast_mac v =
     (case parse_mac v of None \<Rightarrow> False | Some hw \<Rightarrow> if length hw \<noteq> 6 then False else hd hw AND 1 = 0)"

text \<open>Duplicates are dropped before the names are sorted.\<close>

definition service_set_value :: "string list \<Rightarrow> string" where
  "service_set_value ss = join '','' (sort (remdups (normalize_services ss)))"

subsection \<open>Signals\<close>

record signal =
  sig_type :: alias_type
  sig_value :: string
  sig_source :: string
  sig_confidence :: real
  sig_verified :: bool

definition trusted_sources :: "string list" where
  "trusted_sources = [''openwrt_ap'', ''controller'', ''mdm'', ''companion'']"

definition raw_authenticated :: "(string \<rightharpoonup> raw_value) \<Rightarrow> bool" where
  "raw_authenticated raw =
     (case raw ''identity_authenticated'' of
        Some (RawBool b) \<Rightarrow> b
      | Some (RawString s) \<Rightarrow> equal_fold (trim_space s) ''true''
      | _ \<Rightarrow> False)"

definition raw_string :: "raw_value option \<Rightarrow> string" where
  "raw_string v = (case v of Some (RawString s) \<Rightarrow> trim_space s | _ \<Rightarrow> [])"

definition stable_keys :: "(string \<times> alias_type) list" where
  "stable_keys =
     [(''dhcp_client_id'', AliasDHCPClientID), (''ppsk_id'', AliasPPSK), (''eap_tls_subject'', AliasEAPTLSSubject),
      (''mdm_device_id'', AliasMDMDeviceID), (''device_public_key'', AliasDevicePublicKey)]"

definition passive_signal :: "observation \<Rightarrow> alias_type \<Rightarrow> string \<Rightarrow> signal list" where
  "passive_signal obs t v =
     (if v = [] then []
      else [\<lparr>sig_type = t, sig_value = v, sig_source = obs_source obs, sig_confidence = obs_confidence obs,
             sig_verified = False\<rparr>])"

definition observation_signals :: "observation \<Rightarrow> string \<Rightarrow> string \<Rightarrow> signal list" where
  "observation_signals obs mac host =
     (let passive = passive_signal obs AliasMAC mac @ passive_signal obs AliasHostname host
                      @ passive_signal obs AliasServiceSet (service_set_value (obs_services obs))
      in if \<not> raw_authenticated (obs_raw obs) then passive
         else if to_lower (obs_source obs) \<notin> set trusted_sources then passive
         else passive @ concat (map (\<lambda>(key, t).
           let v = raw_string (obs_raw obs key)
           in if v = [] then []
              else [\<lparr>sig_type = t, sig_value = v, sig_source = obs_source obs, sig_confidence = 1,
                     sig_verified = True\<rparr>]) stable_keys))"

subsection \<open>The passive score\<close>

definition candidate_threshold :: real where "candidate_threshold = 1 / 2"
definition auto_merge_threshold :: real where "auto_merge_threshold = 999999 / 1000000"

record passive_input =
  pi_same_ip :: bool
  pi_host :: string
  pi_existing_host :: string
  pi_services :: "string list"
  pi_existing_services :: "string list"
  pi_vendor :: string
  pi_existing_vendor :: string
  pi_new_mac :: string
  pi_existing_mac :: string
  pi_existing_online :: bool
  pi_existing_last_seen :: time
  pi_observed_at :: time

record identity_factor =
  if_kind :: string
  if_ratio :: real
  if_matched :: bool

record passive_decision =
  dc_probability :: real
  dc_ambiguous :: bool
  dc_conflict :: bool
  dc_auto_merge :: bool
  dc_factors :: "identity_factor list"

definition jaccard :: "string list \<Rightarrow> string list \<Rightarrow> real" where
  "jaccard a b =
     (let l = set (normalize_services a); r = set (normalize_services b); both = card (l \<inter> r)
      in if l = {} \<or> r = {} then 0 else real both / real (card l + card r - both))"

definition recent_handoff :: "passive_input \<Rightarrow> bool" where
  "recent_handoff x \<longleftrightarrow>
     \<not> is_zero (pi_existing_last_seen x) \<and> \<not> is_zero (pi_observed_at x)
     \<and> 0 \<le> time_sub (pi_observed_at x) (pi_existing_last_seen x)
     \<and> time_sub (pi_observed_at x) (pi_existing_last_seen x) \<le> 60 * second"

definition simultaneous :: "passive_input \<Rightarrow> bool" where
  "simultaneous x \<longleftrightarrow> pi_existing_online x \<and> recent_handoff x"

definition add_factor :: "string \<Rightarrow> bool \<Rightarrow> real \<Rightarrow> identity_factor list \<times> real \<Rightarrow> identity_factor list \<times> real" where
  "add_factor kind matched lr = (\<lambda>(factors, log_odds).
     (factors @ [\<lparr>if_kind = kind, if_ratio = lr, if_matched = matched\<rparr>],
      if matched then log_odds + ln lr else log_odds))"

definition scored_factors :: "passive_input \<Rightarrow> identity_factor list \<times> real" where
  "scored_factors x =
     (let s0 = ([], ln ((5 / 100) / (1 - 5 / 100)));
          s1 = add_factor ''same_ip'' (pi_same_ip x) 2 s0;
          s2 = add_factor ''canonical_hostname''
                 (pi_host x \<noteq> [] \<and> pi_existing_host x \<noteq> [] \<and> equal_fold (pi_host x) (pi_existing_host x)) 8 s1;
          s3 = add_factor ''service_jaccard_gte_0_5'' (1 / 2 \<le> jaccard (pi_services x) (pi_existing_services x)) 4 s2;
          s4 = add_factor ''temporal_handoff_lte_60s'' (recent_handoff x) 3 s3;
          s5 = add_factor ''global_mac_vendor''
                 (pi_vendor x \<noteq> [] \<and> pi_existing_vendor x \<noteq> [] \<and> \<not> is_locally_administered (pi_new_mac x)
                  \<and> \<not> is_locally_administered (pi_existing_mac x) \<and> equal_fold (pi_vendor x) (pi_existing_vendor x))
                 (3 / 2) s4
      in add_factor ''simultaneous_presence_conflict'' (simultaneous x) (2 / 100) s5)"

definition score_passive :: "passive_input \<Rightarrow> passive_decision" where
  "score_passive x =
     (let (factors, log_odds) = scored_factors x; p = 1 / (1 + exp (- log_odds))
      in \<lparr>dc_probability = p, dc_ambiguous = (candidate_threshold \<le> p),
          dc_conflict = (simultaneous x \<and> p < candidate_threshold), dc_auto_merge = False,
          dc_factors = factors\<rparr>)"

text \<open>The zero \<open>Decision{}\<close>.\<close>

definition no_decision :: passive_decision where
  "no_decision = \<lparr>dc_probability = 0, dc_ambiguous = False, dc_conflict = False, dc_auto_merge = False,
     dc_factors = []\<rparr>"

definition normalized_observation_time :: "time \<Rightarrow> time \<Rightarrow> time" where
  "normalized_observation_time now ts = (if is_zero ts \<or> now + minute < ts then now else ts)"

datatype ip_claim = ClaimAttach | ClaimCreateNew | ClaimCreateNewSilent

definition validate_ip_claim :: "time \<Rightarrow> observation \<Rightarrow> device option \<Rightarrow> ip_claim" where
  "validate_ip_claim now obs existing =
     (case (existing, obs_mac obs) of
        (Some d, Some hw) \<Rightarrow>
          if candidate_threshold \<le> dc_probability (score_passive
               \<lparr>pi_same_ip = True, pi_host = canonicalize_hostname (obs_hostname obs),
                pi_existing_host = canonical_hostname d, pi_services = obs_services obs,
                pi_existing_services = services d, pi_vendor = obs_vendor obs, pi_existing_vendor = vendor d,
                pi_new_mac = mac_string hw, pi_existing_mac = current_mac d, pi_existing_online = online d,
                pi_existing_last_seen = last_seen d,
                pi_observed_at = normalized_observation_time now (obs_timestamp obs)\<rparr>)
          then ClaimCreateNewSilent else ClaimCreateNew
      | _ \<Rightarrow> ClaimCreateNewSilent)"

subsection \<open>The score in exact arithmetic\<close>

definition weight :: "identity_factor \<Rightarrow> real" where
  "weight f = (if if_matched f then if_ratio f else 1)"

definition matched_product :: "passive_decision \<Rightarrow> real" where
  "matched_product d = prod_list (map weight (dc_factors d))"

lemma add_factor_exp:
  assumes "0 < lr" "exp (snd s) = prod_list (map weight (fst s)) * k"
  shows "exp (snd (add_factor kind matched lr s)) = prod_list (map weight (fst (add_factor kind matched lr s))) * k"
  using assms by (cases s) (simp add: add_factor_def weight_def exp_add)

lemma scored_factors_exp:
  "exp (snd (scored_factors x)) = prod_list (map weight (fst (scored_factors x))) * (1 / 19)"
  unfolding scored_factors_def Let_def by (intro add_factor_exp) (simp_all add: exp_ln)

lemma weights_bounded:
  fixes x defines "P \<equiv> prod_list (map weight (fst (scored_factors x)))"
  shows "0 < P" "P \<le> 288" "simultaneous x \<Longrightarrow> P < 19"
  unfolding P_def scored_factors_def Let_def
  by (simp_all add: add_factor_def weight_def split: if_splits)

lemma score_passive_fields:
  defines "P \<equiv> \<lambda>x. prod_list (map weight (fst (scored_factors x)))"
  shows "dc_probability (score_passive x) = P x / (P x + 19)"
    "dc_factors (score_passive x) = fst (scored_factors x)"
    "dc_ambiguous (score_passive x) \<longleftrightarrow> 19 \<le> P x"
    "dc_conflict (score_passive x) \<longleftrightarrow> simultaneous x \<and> P x < 19"
    "\<not> dc_auto_merge (score_passive x)"
proof -
  have pos: "0 < P x" using weights_bounded [of x] by (simp add: P_def)
  have "exp (- snd (scored_factors x)) = 19 / P x"
    using scored_factors_exp [of x] pos by (simp add: exp_minus P_def field_simps)
  then have "dc_probability (score_passive x) = 1 / (1 + 19 / P x)"
    by (simp add: score_passive_def case_prod_unfold Let_def)
  also have "\<dots> = P x / (P x + 19)" using pos by (simp add: field_simps)
  finally have p: "dc_probability (score_passive x) = P x / (P x + 19)" .
  then show "dc_probability (score_passive x) = P x / (P x + 19)" .
  have half: "candidate_threshold \<le> dc_probability (score_passive x) \<longleftrightarrow> 19 \<le> P x"
    using pos unfolding p candidate_threshold_def by (simp add: field_simps)
  then show "dc_ambiguous (score_passive x) \<longleftrightarrow> 19 \<le> P x"
    by (simp add: score_passive_def case_prod_unfold Let_def)
  have "dc_probability (score_passive x) < candidate_threshold \<longleftrightarrow> P x < 19"
    using half by (simp add: not_le [symmetric])
  then show "dc_conflict (score_passive x) \<longleftrightarrow> simultaneous x \<and> P x < 19"
    by (simp add: score_passive_def case_prod_unfold Let_def)
  show "dc_factors (score_passive x) = fst (scored_factors x)" "\<not> dc_auto_merge (score_passive x)"
    by (simp_all add: score_passive_def case_prod_unfold Let_def)
qed

text \<open>Passive evidence never merges two devices: no decision asks for it and every probability lies strictly
  between 0 and the merge threshold. In exact arithmetic the logistic score is the matched likelihood
  ratios against prior odds of 19 to 1, so a candidate is proposed exactly when their product is at
  least 19, and never for two devices seen at the same time, which is exactly what is a conflict.\<close>

theorem passive_score_exact:
  "let d = score_passive x in
     \<not> dc_auto_merge d \<and> 0 < dc_probability d \<and> dc_probability d < auto_merge_threshold
     \<and> dc_probability d = matched_product d / (matched_product d + 19)
     \<and> (dc_ambiguous d \<longleftrightarrow> 19 \<le> matched_product d)
     \<and> (dc_conflict d \<longleftrightarrow> simultaneous x) \<and> \<not> (dc_conflict d \<and> dc_ambiguous d)"
proof -
  have "matched_product (score_passive x) = prod_list (map weight (fst (scored_factors x)))"
    by (simp add: matched_product_def score_passive_fields)
  moreover note b = weights_bounded [of x]
  moreover from b have "prod_list (map weight (fst (scored_factors x))) /
      (prod_list (map weight (fst (scored_factors x))) + 19) < auto_merge_threshold"
    by (simp add: auto_merge_threshold_def field_simps)
  ultimately show ?thesis by (auto simp: score_passive_fields Let_def)
qed

subsection \<open>Verified signals\<close>

text \<open>A signal counts as verified only when the provider is on the allow list and says itself that it
  authenticated the device, and then it is one of the five stable credentials; addresses, host names and
  services never are. Every observation yields at most the three passive ones otherwise.\<close>

theorem verified_signals_trusted:
  assumes "s \<in> set (observation_signals obs mac host)"
  shows "(sig_verified s \<longrightarrow> raw_authenticated (obs_raw obs) \<and> to_lower (obs_source obs) \<in> set trusted_sources
       \<and> (\<exists>key. (key, sig_type s) \<in> set stable_keys \<and> sig_value s = raw_string (obs_raw obs key)))
    \<and> (\<not> sig_verified s \<longrightarrow> sig_type s \<in> {AliasMAC, AliasHostname, AliasServiceSet})
    \<and> sig_value s \<noteq> [] \<and> sig_source s = obs_source obs"
  using assms
  by (auto simp: observation_signals_def passive_signal_def Let_def split: if_splits)

definition leased :: observation where
  "leased = \<lparr>obs_source = ''dhcp'', obs_group = ''L3_dhcp'', obs_mac = None, obs_ip = None,
     obs_hostname = ''tv'', obs_vendor = [], obs_model = [], obs_services = [], obs_confidence = 1,
     obs_timestamp = 0, obs_online = True,
     obs_raw = [''identity_authenticated'' \<mapsto> RawBool True, ''ppsk_id'' \<mapsto> RawString ''k'']\<rparr>"

lemma verified_signals_trusted_witness:
  "list_all (\<lambda>s. \<not> sig_verified s) (observation_signals leased [] ''tv'')"
proof -
  have "\<not> sig_verified s" if s: "s \<in> set (observation_signals leased [] ''tv'')" for s
  proof -
    have "to_lower (obs_source leased) \<notin> set trusted_sources"
      by (simp add: trusted_sources_def leased_def to_lower_def lower_char_def byte_def)
    with verified_signals_trusted [OF s] show ?thesis by auto
  qed
  then show ?thesis by (simp add: list_all_iff)
qed

subsection \<open>Hashes of aliases\<close>

lemma hex_byte_inject: "hex_byte v = hex_byte w \<longleftrightarrow> v = w"
proof
  assume "hex_byte v = hex_byte w"
  then have "hex2 (digit_char (unat v div 16)) (digit_char (unat v mod 16)) =
      hex2 (digit_char (unat w div 16)) (digit_char (unat w mod 16))" by (simp add: hex_byte_def)
  then show "v = w" by (simp add: hex2_hex_byte)
qed simp

lemma hex_string_inject: "hex_string xs = hex_string ys \<longleftrightarrow> xs = ys"
proof (induction xs arbitrary: ys)
  case Nil
  then show ?case by (cases ys) (simp_all add: hex_string_def hex_byte_def)
next
  case (Cons x xs)
  show ?case
  proof (cases ys)
    case Nil
    then show ?thesis by (simp add: hex_string_def hex_byte_def)
  next
    case (Cons y ys')
    with Cons.IH [of ys'] show ?thesis by (simp add: hex_string_def hex_byte_inject)
  qed
qed

lemma append_sep_inject:
  "c \<notin> set a \<Longrightarrow> c \<notin> set b \<Longrightarrow> a @ [c] @ x = b @ [c] @ y \<Longrightarrow> a = b \<and> x = y"
  by (induction a arbitrary: b) (auto simp: Cons_eq_append_conv)

lemma normalize_alias_other [simp]: "normalize_alias (AliasOther s) v = None"
  by (cases "trim_space v = []") (simp_all add: normalize_alias_def Let_def)

lemma alias_name_no_nul: "normalize_alias t v \<noteq> None \<Longrightarrow> CHR 0x00 \<notin> set (alias_name t)"
  by (cases t) (simp_all add: alias_name_def)

lemma alias_name_inject:
  assumes "alias_name t = alias_name u" "normalize_alias t v \<noteq> None" "normalize_alias u w \<noteq> None"
  shows "t = u"
  using assms by (cases t; cases u) (simp_all add: alias_name_def)

text \<open>Two aliases have the same hash only if they have the same kind and the same normal form: the kind and
  the value are separated before hashing, so no value of one kind can pass for another, as long as
  SHA-256 does not collide on the two texts.\<close>

theorem alias_hash_separates:
  assumes "hash_alias sha t v = Some h" "hash_alias sha u w = Some h"
    and "\<And>n m. normalize_alias t v = Some n \<Longrightarrow> normalize_alias u w = Some m \<Longrightarrow>
       sha (alias_name t @ [CHR 0x00] @ n) = sha (alias_name u @ [CHR 0x00] @ m) \<Longrightarrow>
       alias_name t @ [CHR 0x00] @ n = alias_name u @ [CHR 0x00] @ m"
  shows "t = u \<and> normalize_alias t v = normalize_alias u w"
proof -
  obtain n m where nm: "normalize_alias t v = Some n" "normalize_alias u w = Some m"
    using assms(1,2) by (auto simp: hash_alias_def)
  with assms(1,2) have "sha (alias_name t @ [CHR 0x00] @ n) = sha (alias_name u @ [CHR 0x00] @ m)"
    by (auto simp: hash_alias_def hex_string_inject)
  from assms(3) [OF nm this] have "alias_name t = alias_name u \<and> n = m"
    using nm alias_name_no_nul [of t v] alias_name_no_nul [of u w] by (intro append_sep_inject) auto
  with nm alias_name_inject [of t u v w] show ?thesis by auto
qed

lemma alias_hash_separates_witness:
  "normalize_alias AliasManual '' a'' = normalize_alias AliasManual ''a''"
proof -
  let ?sha = "map (\<lambda>c. of_nat (byte c)) :: string \<Rightarrow> u8 list"
  have inj: "?sha x = ?sha y \<Longrightarrow> x = y" for x y
  proof (induction x arbitrary: y)
    case (Cons c x)
    then obtain d z where y: "y = d # z" "of_nat (byte c) = (of_nat (byte d) :: u8)" "?sha x = ?sha z" by (cases y) auto
    have "byte c = byte d"
      using y(2) byte_less [of c] byte_less [of d] by (simp add: word_of_nat_eq_iff take_bit_nat_eq_self)
    with y Cons.IH show ?case by (simp add: byte_inject)
  qed simp
  have h: "hash_alias ?sha AliasManual '' a'' = Some ''6d616e75616c0061''"
      "hash_alias ?sha AliasManual ''a'' = Some ''6d616e75616c0061''"
    by (simp_all add: normalize_alias_def trim_space_def trim_by_def is_space_def hash_alias_def hex_string_def
        hex_byte_def alias_name_def byte_def digit_char_def char_of_def bit_Suc_0_iff)
  show ?thesis using alias_hash_separates [OF h] inj by auto
qed

end
