(* ===== verification/Dis_Store.thy ===== *)
theory Dis_Store
  imports Sql_Monad Dis_Debounce Dis_Identity "HOL-Library.AList" "HOL-Library.Product_Lexorder"
begin

text \<open>
  The persistent state of the discovery service (\<open>internal/storage/sqlite.go\<close>, \<open>identity.go\<close>). A table is the list of
  its rows in the order of a scan; those that are only used by their primary key are maps or association
  lists. JSON columns hold the value they encode. Foreign keys are on: a row that names a missing device is
  refused, and deleting a device deletes its addresses and host names. The order in which a loop visits a
  set of texts is the argument \<open>ord\<close>; the bytes of a fresh identity are \<open>rnd\<close>.
\<close>

subsection \<open>The tables\<close>

text \<open>A row of \<open>devices\<close> is a device without its addresses, which have tables of their own.\<close>

record alias_row =
  al_id :: nat
  al_device :: string
  al_type :: alias_type
  al_hash :: string
  al_source :: string
  al_confidence :: real
  al_verified :: bool
  al_first :: time
  al_last :: time
  al_revoked :: "time option"

record evidence_row =
  ev_id :: nat
  ev_device :: string
  ev_candidate_device :: string
  ev_kind :: string
  ev_value_hash :: string
  ev_source :: string
  ev_log_likelihood :: real
  ev_observed :: time
  ev_expires :: "time option"

record candidate_row =
  cd_id :: nat
  cd_source :: string
  cd_target :: string
  cd_probability :: real
  cd_ambiguous :: bool
  cd_status :: string
  cd_factors :: "identity_factor list"
  cd_created :: time
  cd_updated :: time
  cd_decision_source :: string
  cd_decision_note :: string

record dis_db =
  dd_devices :: "device list"
  dd_macs :: "(string \<times> string) list"
  dd_ips :: "(string \<times> string) list"
  dd_owners :: "(string \<times> string) list"
  dd_pending :: pending_table
  dd_aliases :: "alias_row list"
  dd_evidence :: "evidence_row list"
  dd_candidates :: "candidate_row list"
  dd_redirects :: "string \<rightharpoonup> string"
  dd_alias_seq :: nat
  dd_evidence_seq :: nat
  dd_candidate_seq :: nat

text \<open>A sequence is above every id the table ever gave out, as \<open>AUTOINCREMENT\<close> makes sure.\<close>

definition empty_dis_db :: dis_db where
  "empty_dis_db = \<lparr>dd_devices = [], dd_macs = [], dd_ips = [], dd_owners = [], dd_pending = Map.empty,
     dd_aliases = [], dd_evidence = [], dd_candidates = [], dd_redirects = Map.empty,
     dd_alias_seq = 1, dd_evidence_seq = 1, dd_candidate_seq = 1\<rparr>"

type_synonym 'a dsql = "(dis_db, 'a) sql"

definition known_pdid :: "dis_db \<Rightarrow> string \<Rightarrow> bool" where
  "known_pdid db p \<longleftrightarrow> (\<exists>r \<in> set (dd_devices db). pdid r = p)"

subsection \<open>Devices\<close>

definition volatile_raw_keys :: "string list" where
  "volatile_raw_keys = [''lease_expires_at'', ''observation_timestamp'', ''observed_at'', ''poll_timestamp'', ''timestamp'']"

definition material_raw :: "(string \<rightharpoonup> raw_value) \<Rightarrow> (string \<rightharpoonup> raw_value)" where
  "material_raw raw = (\<lambda>k. if to_lower (trim_space k) \<in> set volatile_raw_keys then None else raw k)"

definition material_source_info :: "(string \<rightharpoonup> source_meta) \<Rightarrow> (string \<rightharpoonup> source_meta)" where
  "material_source_info si =
     (\<lambda>s. map_option (\<lambda>m. m\<lparr>meta_timestamp := zero_time, meta_raw := material_raw (meta_raw m)\<rparr>) (si s))"

text \<open>The row the upsert stores: presence and the two sighting times of an existing row stay.\<close>

definition device_row :: "device \<Rightarrow> device" where
  "device_row d = d\<lparr>macs := [], ips := [], source_info := material_source_info (source_info d)\<rparr>"

definition updated_row :: "device \<Rightarrow> device \<Rightarrow> device" where
  "updated_row old new = new\<lparr>first_seen := first_seen old, last_seen := last_seen old, online := online old,
     pending_online_obs := pending_online_obs old\<rparr>"

definition upsert_device_row :: "device \<Rightarrow> dis_db \<Rightarrow> db_error + dis_db" where
  "upsert_device_row d db =
     (if \<exists>r \<in> set (dd_devices db). device_id r = device_id d \<and> pdid r \<noteq> pdid d then Inl UniqueViolation
      else Inr (db\<lparr>dd_devices := upsert_row pdid updated_row (device_row d) (dd_devices db)\<rparr>))"

text \<open>\<open>INSERT OR IGNORE\<close> of an address, whose primary key is the address alone.\<close>

definition insert_address :: "string \<Rightarrow> string \<Rightarrow> (string \<times> string) list \<Rightarrow> (string \<times> string) list" where
  "insert_address p a rows = (if a \<in> fst ` set rows then rows else rows @ [(a, p)])"

definition delete_address :: "string \<Rightarrow> string \<Rightarrow> (string \<times> string) list \<Rightarrow> (string \<times> string) list" where
  "delete_address p a rows = filter (\<lambda>r. r \<noteq> (a, p)) rows"

definition addresses_of :: "string \<Rightarrow> (string \<times> string) list \<Rightarrow> string list" where
  "addresses_of p rows = map fst (filter (\<lambda>r. snd r = p) rows)"

definition insert_mac :: "string \<Rightarrow> string \<Rightarrow> dis_db \<Rightarrow> db_error + dis_db" where
  "insert_mac p a db = (if known_pdid db p then Inr (db\<lparr>dd_macs := insert_address p a (dd_macs db)\<rparr>)
     else Inl ForeignKeyViolation)"

definition insert_ip :: "string \<Rightarrow> string \<Rightarrow> dis_db \<Rightarrow> db_error + dis_db" where
  "insert_ip p a db = (if known_pdid db p then Inr (db\<lparr>dd_ips := insert_address p a (dd_ips db)\<rparr>)
     else Inl ForeignKeyViolation)"

text \<open>The addresses the device has now are inserted, the others of its rows deleted; a failing query counts as
  no rows and failing statements are ignored.\<close>

definition sync_addresses ::
  "(dis_db \<Rightarrow> (string \<times> string) list) \<Rightarrow> (string \<Rightarrow> string \<Rightarrow> dis_db \<Rightarrow> db_error + dis_db) \<Rightarrow>
   (string \<Rightarrow> string \<Rightarrow> dis_db \<Rightarrow> db_error + dis_db) \<Rightarrow> (string set \<Rightarrow> string list) \<Rightarrow> string \<Rightarrow> string list \<Rightarrow> unit dsql" where
  "sync_addresses table ins del ord p wanted =
     bind_io (attempt [] (query (\<lambda>db. addresses_of p (table db)))) (\<lambda>existing.
       let desired = set wanted - {[]}
       in then_io
         (for_each (\<lambda>a _. if a \<in> set existing then return_io () else attempt () (exec (ins p a))) (ord desired) ())
         (for_each (\<lambda>a _. if a \<in> desired then return_io () else attempt () (exec (del p a))) (ord (set existing)) ()))"

text \<open>\<open>saveDeviceTx\<close>; the device comes back because it may have been given an id.\<close>

definition save_device_tx ::
  "(string \<Rightarrow> u8 list option) \<Rightarrow> (string set \<Rightarrow> string list) \<Rightarrow> device \<Rightarrow> device dsql" where
  "save_device_tx rnd ord d =
     (if pdid d = [] then return_io d
      else bind_io
        (if device_id d \<noteq> [] then return_io d
         else (case new_permanent_identity (rnd (pdid d)) of
             None \<Rightarrow> fail_io NoEntropy | Some (i, _) \<Rightarrow> return_io (d\<lparr>device_id := i\<rparr>)))
        (\<lambda>d'. then_io (exec (upsert_device_row d'))
          (then_io (sync_addresses dd_macs insert_mac (\<lambda>p a db. Inr (db\<lparr>dd_macs := delete_address p a (dd_macs db)\<rparr>))
                      ord (pdid d') (macs d'))
            (then_io (sync_addresses dd_ips insert_ip (\<lambda>p a db. Inr (db\<lparr>dd_ips := delete_address p a (dd_ips db)\<rparr>))
                        ord (pdid d') (ips d'))
              (return_io d')))))"

definition save_device :: "(string \<Rightarrow> u8 list option) \<Rightarrow> (string set \<Rightarrow> string list) \<Rightarrow> device \<Rightarrow> device dsql" where
  "save_device rnd ord d = transaction (save_device_tx rnd ord d)"

definition save_devices_batch ::
  "(string \<Rightarrow> u8 list option) \<Rightarrow> (string set \<Rightarrow> string list) \<Rightarrow> device list \<Rightarrow> device list dsql" where
  "save_devices_batch rnd ord ds =
     transaction (for_each (\<lambda>d done. bind_io (save_device_tx rnd ord d) (\<lambda>d'. return_io (done @ [d']))) ds [])"

text \<open>\<open>DELETE FROM devices\<close> with its cascades.\<close>

definition delete_device_row :: "string \<Rightarrow> dis_db \<Rightarrow> db_error + dis_db" where
  "delete_device_row p db =
     Inr (if known_pdid db p then
            db\<lparr>dd_devices := filter (\<lambda>r. pdid r \<noteq> p) (dd_devices db), dd_macs := filter (\<lambda>r. snd r \<noteq> p) (dd_macs db),
               dd_ips := filter (\<lambda>r. snd r \<noteq> p) (dd_ips db), dd_owners := filter (\<lambda>r. snd r \<noteq> p) (dd_owners db)\<rparr>
          else db)"

definition drop_macs_of :: "string \<Rightarrow> dis_db \<Rightarrow> db_error + dis_db" where
  "drop_macs_of p db = Inr (db\<lparr>dd_macs := filter (\<lambda>r. snd r \<noteq> p) (dd_macs db)\<rparr>)"

definition drop_ips_of :: "string \<Rightarrow> dis_db \<Rightarrow> db_error + dis_db" where
  "drop_ips_of p db = Inr (db\<lparr>dd_ips := filter (\<lambda>r. snd r \<noteq> p) (dd_ips db)\<rparr>)"

definition drop_owners_of :: "string \<Rightarrow> dis_db \<Rightarrow> db_error + dis_db" where
  "drop_owners_of p db = Inr (db\<lparr>dd_owners := filter (\<lambda>r. snd r \<noteq> p) (dd_owners db)\<rparr>)"

definition drop_pending_of :: "string \<Rightarrow> dis_db \<Rightarrow> db_error + dis_db" where
  "drop_pending_of p db = Inr (db\<lparr>dd_pending := (\<lambda>k. if fst k = p then None else dd_pending db k)\<rparr>)"

definition delete_stored_device :: "string \<Rightarrow> unit dsql" where
  "delete_stored_device p =
     (if p = [] then return_io ()
      else transaction (then_io (attempt () (exec (drop_macs_of p))) (then_io (attempt () (exec (drop_ips_of p)))
        (then_io (attempt () (exec (drop_owners_of p))) (attempt () (exec (delete_device_row p)))))))"

text \<open>\<open>UPDATE ... SET pdid = ? WHERE pdid = ?\<close> on the tables that refer to a device.\<close>

definition retarget_addresses :: "string \<Rightarrow> string \<Rightarrow> (string \<times> string) list \<Rightarrow> (string \<times> string) list" where
  "retarget_addresses old new rows = map (\<lambda>(a, p). (a, if p = old then new else p)) rows"

definition retarget_table ::
  "string \<Rightarrow> string \<Rightarrow> (dis_db \<Rightarrow> (string \<times> string) list) \<Rightarrow> (dis_db \<Rightarrow> dis_db) \<Rightarrow> dis_db \<Rightarrow> db_error + dis_db" where
  "retarget_table old new table put db =
     (if known_pdid db new \<or> addresses_of old (table db) = [] then Inr (put db) else Inl ForeignKeyViolation)"

definition retarget_pending :: "string \<Rightarrow> string \<Rightarrow> dis_db \<Rightarrow> db_error + dis_db" where
  "retarget_pending old new db =
     (if old \<noteq> new \<and> (\<exists>t \<in> snd ` {k \<in> dom (dd_pending db). fst k = old}. dd_pending db (new, t) \<noteq> None)
      then Inl UniqueViolation
      else Inr (db\<lparr>dd_pending := (\<lambda>(p, t).
          if p = new then (case dd_pending db (old, t) of Some r \<Rightarrow> Some (r\<lparr>pr_pdid := new\<rparr>) | None \<Rightarrow> dd_pending db (p, t))
          else if p = old then None else dd_pending db (p, t))\<rparr>))"

definition replace_device_pdid ::
  "(string \<Rightarrow> u8 list option) \<Rightarrow> (string set \<Rightarrow> string list) \<Rightarrow> string \<Rightarrow> string \<Rightarrow> device \<Rightarrow> unit dsql" where
  "replace_device_pdid rnd ord old new d = transaction
     (bind_io (save_device_tx rnd ord d) (\<lambda>_.
       then_io (attempt () (exec (retarget_table old new dd_macs (\<lambda>db. db\<lparr>dd_macs := retarget_addresses old new (dd_macs db)\<rparr>))))
      (then_io (attempt () (exec (retarget_table old new dd_ips (\<lambda>db. db\<lparr>dd_ips := retarget_addresses old new (dd_ips db)\<rparr>))))
      (then_io (attempt () (exec (retarget_table old new dd_owners (\<lambda>db. db\<lparr>dd_owners := retarget_addresses old new (dd_owners db)\<rparr>))))
      (then_io (attempt () (exec (retarget_pending old new))) (exec (delete_device_row old)))))))"

text \<open>\<open>LoadHydrate\<close>: nothing comes back online, the addresses are collected from their tables.\<close>

definition hydrated_device :: "dis_db \<Rightarrow> device \<Rightarrow> device" where
  "hydrated_device db r = r\<lparr>online := False, pending_online_obs := [], macs := addresses_of (pdid r) (dd_macs db),
     ips := addresses_of (pdid r) (dd_ips db)\<rparr>"

definition load_devices :: "device list dsql" where
  "load_devices =
     bind_io (query dd_devices) (\<lambda>rows.
     bind_io (attempt [] (query dd_macs)) (\<lambda>mrows.
     bind_io (attempt [] (query dd_ips)) (\<lambda>irows.
       return_io (map (\<lambda>r. hydrated_device (empty_dis_db\<lparr>dd_macs := mrows, dd_ips := irows\<rparr>) r) rows))))"

subsection \<open>Host names and pending events\<close>

definition load_stored_owners :: "(string \<rightharpoonup> string) dsql" where
  "load_stored_owners = query (\<lambda>db. map_of (filter (\<lambda>(h, _). h \<noteq> []) (dd_owners db)))"

definition put_owner :: "string \<Rightarrow> string \<Rightarrow> dis_db \<Rightarrow> db_error + dis_db" where
  "put_owner h p db = (if known_pdid db p then Inr (db\<lparr>dd_owners := AList.update h p (dd_owners db)\<rparr>)
     else Inl ForeignKeyViolation)"

definition save_hostname_owner :: "string \<Rightarrow> string \<Rightarrow> unit dsql" where
  "save_hostname_owner h p = (if h = [] \<or> p = [] then return_io () else exec (put_owner h p))"

definition remove_owner :: "string \<Rightarrow> dis_db \<Rightarrow> db_error + dis_db" where
  "remove_owner h db = Inr (db\<lparr>dd_owners := filter (\<lambda>r. fst r \<noteq> h) (dd_owners db)\<rparr>)"

definition delete_hostname_owner :: "string \<Rightarrow> unit dsql" where
  "delete_hostname_owner h = (if h = [] then return_io () else exec (remove_owner h))"

definition put_pending :: "pending_record \<Rightarrow> dis_db \<Rightarrow> db_error + dis_db" where
  "put_pending r db = Inr (db\<lparr>dd_pending := save_pending_event r (dd_pending db)\<rparr>)"

definition remove_pending :: "string \<times> string \<Rightarrow> dis_db \<Rightarrow> db_error + dis_db" where
  "remove_pending k db = Inr (db\<lparr>dd_pending := (dd_pending db)(k := None)\<rparr>)"

definition delete_pending_events_batch :: "(string \<times> string) list \<Rightarrow> unit dsql" where
  "delete_pending_events_batch ks = transaction (for_each (\<lambda>k _. exec (remove_pending k)) ks ())"

text \<open>The migration of old databases at the start: tier, anchor and canonical name of every row.\<close>

definition migrate_legacy_metadata :: "(string \<Rightarrow> time) \<Rightarrow> unit dsql" where
  "migrate_legacy_metadata clk =
     bind_io (query dd_devices) (\<lambda>rows. for_each (\<lambda>r _.
       let ch = canonicalize_hostname (hostname r)
       in case derive_tier_and_anchor (clk (pdid r)) (current_mac r) ch (vendor r) of (tier, anchor) \<Rightarrow>
            exec (\<lambda>db. Inr (db\<lparr>dd_devices := map (\<lambda>x. if pdid x = pdid r
              then x\<lparr>identity_tier := tier, identity_anchor := anchor, canonical_hostname := ch\<rparr> else x) (dd_devices db)\<rparr>)))
       rows ())"

end
