(* ===== verification/Dis_Identity_Store.thy ===== *)
theory Dis_Identity_Store
  imports Dis_Store
begin

text \<open>
  The identity tables of the discovery service (\<open>internal/storage/identity.go\<close>): aliases, evidence, candidate
  links between two devices and their review, redirects of merged PDIDs, and the merge and split of devices.
  The pointers passed to merge and split are not nil. A stored time compares as the time it is; \<open>now\<close> is the
  reading of the clock. Reason and time of a redirect are left out: nothing reads them.
\<close>

subsection \<open>Aliases and evidence\<close>

definition al_key :: "alias_row \<Rightarrow> alias_type \<times> string" where
  "al_key a = (al_type a, al_hash a)"

definition al_unique :: "alias_row \<Rightarrow> string \<times> alias_type \<times> string" where
  "al_unique a = (al_device a, al_key a)"

text \<open>A verified alias that is not revoked proves the identity of its device.\<close>

definition proves :: "alias_row \<Rightarrow> bool" where
  "proves a \<longleftrightarrow> al_verified a \<and> al_revoked a = None"

definition claimed_elsewhere :: "alias_row \<Rightarrow> dis_db \<Rightarrow> bool" where
  "claimed_elsewhere a db \<longleftrightarrow>
     (\<exists>r \<in> set (dd_aliases db). al_key r = al_key a \<and> proves r \<and> al_device r \<noteq> al_device a)"

definition reinforce_alias :: "nat \<Rightarrow> alias_row \<Rightarrow> dis_db \<Rightarrow> db_error + dis_db" where
  "reinforce_alias i a db = Inr (db\<lparr>dd_aliases := map (\<lambda>r. if al_id r = i
     then r\<lparr>al_source := al_source a, al_confidence := max (al_confidence r) (al_confidence a),
            al_verified := (al_verified r \<or> al_verified a), al_revoked := None\<rparr> else r) (dd_aliases db)\<rparr>)"

definition insert_alias :: "alias_row \<Rightarrow> dis_db \<Rightarrow> db_error + dis_db" where
  "insert_alias a db =
     (if al_unique a \<in> al_unique ` set (dd_aliases db) then Inl UniqueViolation
      else Inr (db\<lparr>dd_aliases := dd_aliases db @ [a\<lparr>al_id := dd_alias_seq db, al_revoked := None\<rparr>],
                   dd_alias_seq := Suc (dd_alias_seq db)\<rparr>))"

definition alias_times :: "time \<Rightarrow> alias_row \<Rightarrow> alias_row" where
  "alias_times now a =
     (let a1 = (if is_zero (al_first a) then a\<lparr>al_first := now\<rparr> else a)
      in if is_zero (al_last a1) then a1\<lparr>al_last := al_first a1\<rparr> else a1)"

text \<open>\<open>QueryRow\<close> gives the first row, if there is one. \<open>LastInsertId\<close> is part of the insert.\<close>

definition upsert_identity_alias :: "time \<Rightarrow> alias_row \<Rightarrow> nat dsql" where
  "upsert_identity_alias now al =
     (if al_device al = [] \<or> al_type al = AliasOther [] \<or> al_hash al = [] then fail_io InvalidAlias
      else let a = alias_times now al in transaction_if
        (then_io
          (if al_verified a then bind_io (query (claimed_elsewhere a))
             (\<lambda>taken. if taken then fail_io ErrAliasConflict else return_io ()) else return_io ())
          (bind_io (query (\<lambda>db. find (\<lambda>r. al_unique r = al_unique a) (dd_aliases db))) (\<lambda>old.
            case old of
              Some r \<Rightarrow>
                if al_source r = al_source a \<and> al_confidence a \<le> al_confidence r
                   \<and> (al_verified a \<longrightarrow> al_verified r) \<and> al_revoked r = None
                then return_io (False, al_id r)
                else then_io (exec (reinforce_alias (al_id r) a)) (return_io (True, al_id r))
            | None \<Rightarrow> bind_io (query dd_alias_seq) (\<lambda>i. then_io (exec (insert_alias a)) (return_io (True, i)))))))"

definition load_identity_aliases :: "alias_row list dsql" where
  "load_identity_aliases = query dd_aliases"

definition device_with :: "dis_db \<Rightarrow> string \<Rightarrow> string \<Rightarrow> bool" where
  "device_with db p i \<longleftrightarrow> (\<exists>d \<in> set (dd_devices db). pdid d = p \<and> device_id d = i)"

definition verified_pdids :: "alias_type \<Rightarrow> string \<Rightarrow> dis_db \<Rightarrow> string list" where
  "verified_pdids t h db = sort (remdups (concat (map (\<lambda>a.
     if al_key a = (t, h) \<and> proves a then map pdid (filter (\<lambda>d. device_id d = al_device a) (dd_devices db)) else [])
     (dd_aliases db))))"

definition find_verified_alias_pdids :: "alias_type \<Rightarrow> string \<Rightarrow> string list dsql" where
  "find_verified_alias_pdids t h = query (verified_pdids t h)"

definition list_identity_aliases :: "string \<Rightarrow> alias_row list dsql" where
  "list_identity_aliases p = query (\<lambda>db.
     sort_key (\<lambda>a. (if al_verified a then 0 else 1::nat, - al_last a, - int (al_id a)))
       (filter (\<lambda>a. device_with db p (al_device a)) (dd_aliases db)))"

definition revoke_alias_row :: "time \<Rightarrow> string \<Rightarrow> nat \<Rightarrow> dis_db \<Rightarrow> nat \<times> dis_db" where
  "revoke_alias_row now p i db =
     (let hit = (\<lambda>a. al_id a = i \<and> device_with db p (al_device a))
      in (length (filter hit (dd_aliases db)),
          db\<lparr>dd_aliases := map (\<lambda>a. if hit a then a\<lparr>al_revoked := Some now\<rparr> else a) (dd_aliases db)\<rparr>))"

definition revoke_identity_alias :: "time \<Rightarrow> string \<Rightarrow> nat \<Rightarrow> unit dsql" where
  "revoke_identity_alias now p i = bind_io (exec_counting (revoke_alias_row now p i))
     (\<lambda>changed. if changed = 0 then fail_io ErrIdentityNotFound else return_io ())"

definition insert_evidence :: "evidence_row \<Rightarrow> dis_db \<Rightarrow> db_error + dis_db" where
  "insert_evidence e db = Inr (db\<lparr>dd_evidence := dd_evidence db @ [e\<lparr>ev_id := dd_evidence_seq db\<rparr>],
     dd_evidence_seq := Suc (dd_evidence_seq db)\<rparr>)"

definition save_identity_evidence :: "time \<Rightarrow> evidence_row \<Rightarrow> unit dsql" where
  "save_identity_evidence now e =
     (if ev_device e = [] \<or> ev_kind e = [] then return_io ()
      else exec (insert_evidence (if is_zero (ev_observed e) then e\<lparr>ev_observed := now\<rparr> else e)))"

definition list_identity_evidence :: "string \<Rightarrow> int \<Rightarrow> evidence_row list dsql" where
  "list_identity_evidence p limit =
     (let n = if limit \<le> 0 \<or> 200 < limit then 100 else nat limit
      in query (\<lambda>db. take n (sort_key (\<lambda>e. (- ev_observed e, - int (ev_id e)))
           (filter (\<lambda>e. device_with db p (ev_device e)) (dd_evidence db)))))"

subsection \<open>Candidates and their review\<close>

definition cd_pair :: "candidate_row \<Rightarrow> string \<times> string" where
  "cd_pair c = (cd_source c, cd_target c)"

definition put_candidate :: "candidate_row \<Rightarrow> dis_db \<Rightarrow> nat \<times> dis_db" where
  "put_candidate c db =
     (case find (\<lambda>r. cd_pair r = cd_pair c) (dd_candidates db) of
        Some old \<Rightarrow> (cd_id old, db\<lparr>dd_candidates := map (\<lambda>r. if cd_pair r = cd_pair c
          then r\<lparr>cd_probability := cd_probability c, cd_ambiguous := cd_ambiguous c, cd_factors := cd_factors c,
                 cd_updated := cd_updated c\<rparr> else r) (dd_candidates db)\<rparr>)
      | None \<Rightarrow> (dd_candidate_seq db, db\<lparr>dd_candidates := dd_candidates db @ [c\<lparr>cd_id := dd_candidate_seq db\<rparr>],
          dd_candidate_seq := Suc (dd_candidate_seq db)\<rparr>))"

definition prepared_candidate :: "time \<Rightarrow> candidate_row \<Rightarrow> candidate_row" where
  "prepared_candidate now c = c\<lparr>cd_created := if is_zero (cd_created c) then now else cd_created c,
     cd_updated := now, cd_status := if cd_status c = [] then ''pending'' else cd_status c\<rparr>"

definition upsert_identity_candidate :: "time \<Rightarrow> candidate_row \<Rightarrow> nat dsql" where
  "upsert_identity_candidate now c =
     (if cd_source c = [] \<or> cd_target c = [] \<or> cd_source c = cd_target c then fail_io InvalidCandidate
      else exec_counting (put_candidate (prepared_candidate now c)))"

definition list_identity_candidates :: "string \<Rightarrow> candidate_row list dsql" where
  "list_identity_candidates p = query (\<lambda>db.
     sort_key (\<lambda>c. (if cd_status c = ''pending'' then 0 else 1::nat, - cd_probability c, - cd_updated c))
       (filter (\<lambda>c. cd_source c = p \<or> cd_target c = p) (dd_candidates db)))"

text \<open>The order of the pages, newest first, and the rows behind a cursor.\<close>

definition page_key :: "candidate_row \<Rightarrow> int \<times> int" where
  "page_key c = (- cd_updated c, - int (cd_id c))"

definition behind_cursor :: "time \<Rightarrow> int \<Rightarrow> candidate_row \<Rightarrow> bool" where
  "behind_cursor before before_id c \<longleftrightarrow> is_zero before \<or> cd_updated c < before
     \<or> (cd_updated c = before \<and> int (cd_id c) < before_id)"

definition candidates_page :: "string \<Rightarrow> nat \<Rightarrow> time \<Rightarrow> int \<Rightarrow> dis_db \<Rightarrow> candidate_row list" where
  "candidates_page status limit before before_id db = take limit (sort_key page_key
     (filter (\<lambda>c. (status = [] \<or> cd_status c = status) \<and> behind_cursor before before_id c) (dd_candidates db)))"

definition list_identity_candidates_page :: "string \<Rightarrow> int \<Rightarrow> time \<Rightarrow> int \<Rightarrow> candidate_row list dsql" where
  "list_identity_candidates_page status limit before before_id =
     (if limit < 1 \<or> 101 < limit then fail_io InvalidPageLimit
      else query (candidates_page status (nat limit) before before_id))"

definition get_identity_candidate :: "nat \<Rightarrow> candidate_row dsql" where
  "get_identity_candidate i = bind_io (query (\<lambda>db. find (\<lambda>c. cd_id c = i) (dd_candidates db)))
     (\<lambda>r. case r of None \<Rightarrow> fail_io ErrIdentityNotFound | Some c \<Rightarrow> return_io c)"

text \<open>\<open>UPDATE identity_candidates ... WHERE id = ? AND status = ?\<close> with the number of changed rows.\<close>

definition transition :: "nat \<Rightarrow> string \<Rightarrow> (candidate_row \<Rightarrow> candidate_row) \<Rightarrow> dis_db \<Rightarrow> nat \<times> dis_db" where
  "transition i from upd db =
     (let hit = (\<lambda>c. cd_id c = i \<and> cd_status c = from)
      in (length (filter hit (dd_candidates db)),
          db\<lparr>dd_candidates := map (\<lambda>c. if hit c then upd c else c) (dd_candidates db)\<rparr>))"

definition decided :: "time \<Rightarrow> string \<Rightarrow> string \<Rightarrow> string \<Rightarrow> bool \<Rightarrow> candidate_row \<Rightarrow> candidate_row" where
  "decided now status src note amb c = c\<lparr>cd_status := status, cd_decision_source := src,
     cd_decision_note := note, cd_ambiguous := amb, cd_updated := now\<rparr>"

definition decide_identity_candidate :: "time \<Rightarrow> nat \<Rightarrow> string \<Rightarrow> string \<Rightarrow> string list \<Rightarrow> unit dsql" where
  "decide_identity_candidate now i status src notes =
     (if status \<noteq> ''confirmed'' \<and> status \<noteq> ''rejected'' then fail_io InvalidDecision
      else let note = (case notes of [] \<Rightarrow> [] | n # _ \<Rightarrow> trim_space n)
        in bind_io (exec_counting (transition i ''pending'' (decided now status src note False)))
          (\<lambda>changed. if changed = 0 then fail_io ErrIdentityNotFound else return_io ()))"

definition reopen_identity_candidate :: "time \<Rightarrow> nat \<Rightarrow> string \<Rightarrow> string \<Rightarrow> unit dsql" where
  "reopen_identity_candidate now i src note =
     bind_io (exec_counting (transition i ''rejected'' (decided now ''pending'' src (trim_space note) True)))
       (\<lambda>changed. if changed = 0 then fail_io ErrCandidateChanged else return_io ())"

subsection \<open>Redirects\<close>

text \<open>At most eight redirects are looked up, and the eighth is not followed to its end.\<close>

fun resolve_hops :: "nat \<Rightarrow> string set \<Rightarrow> string \<Rightarrow> string dsql" where
  "resolve_hops 0 seen current = fail_io RedirectDepth"
| "resolve_hops (Suc k) seen current =
     bind_io (query (\<lambda>db. dd_redirects db current)) (\<lambda>r.
       case r of None \<Rightarrow> return_io current
       | Some nxt \<Rightarrow> if nxt \<in> seen then fail_io RedirectCycle else resolve_hops k (insert nxt seen) nxt)"

definition resolve_stored_pdid :: "string \<Rightarrow> string dsql" where
  "resolve_stored_pdid p = resolve_hops 8 {p} p"

record identity_profile =
  ip_device_id :: string
  ip_pdid :: string
  ip_assurance :: identity_assurance
  ip_probability :: real
  ip_ambiguous :: bool
  ip_aliases :: "alias_row list"
  ip_candidates :: "candidate_row list"
  ip_evidence :: "evidence_row list"

definition identity_profile_of :: "string \<Rightarrow> identity_profile dsql" where
  "identity_profile_of p =
     bind_io (resolve_stored_pdid p) (\<lambda>q.
     bind_io (query (\<lambda>db. find (\<lambda>d. pdid d = q) (dd_devices db))) (\<lambda>row.
       case row of None \<Rightarrow> fail_io ErrIdentityNotFound
       | Some d \<Rightarrow>
           bind_io (list_identity_aliases q) (\<lambda>als.
           bind_io (list_identity_candidates q) (\<lambda>cds.
           bind_io (list_identity_evidence q 100) (\<lambda>evs.
             return_io \<lparr>ip_device_id = device_id d, ip_pdid = pdid d, ip_assurance = assurance d,
               ip_probability = probability d, ip_ambiguous = ambiguous d, ip_aliases = als,
               ip_candidates = cds, ip_evidence = evs\<rparr>)))))"

subsection \<open>Merge and split\<close>

text \<open>An alias that both devices have becomes one: the target's row takes the better values of the two.\<close>

definition absorbed_alias :: "string \<Rightarrow> alias_row list \<Rightarrow> alias_row \<Rightarrow> alias_row" where
  "absorbed_alias src rows t =
     (case find (\<lambda>s. al_device s = src \<and> al_key s = al_key t) rows of
        None \<Rightarrow> t
      | Some s \<Rightarrow> t\<lparr>al_confidence := max (al_confidence t) (al_confidence s),
          al_verified := (al_verified t \<or> al_verified s), al_last := max (al_last t) (al_last s)\<rparr>)"

definition absorb_aliases :: "string \<Rightarrow> string \<Rightarrow> dis_db \<Rightarrow> db_error + dis_db" where
  "absorb_aliases src tgt db = Inr (db\<lparr>dd_aliases :=
     map (\<lambda>t. if al_device t = tgt then absorbed_alias src (dd_aliases db) t else t) (dd_aliases db)\<rparr>)"

definition drop_absorbed :: "string \<Rightarrow> string \<Rightarrow> dis_db \<Rightarrow> db_error + dis_db" where
  "drop_absorbed src tgt db = Inr (db\<lparr>dd_aliases := filter (\<lambda>s. \<not> (al_device s = src
     \<and> (\<exists>t \<in> set (dd_aliases db). al_device t = tgt \<and> al_key t = al_key s))) (dd_aliases db)\<rparr>)"

text \<open>An update that would give a device the same alias twice is refused.\<close>

definition update_aliases :: "(alias_row \<Rightarrow> alias_row) \<Rightarrow> dis_db \<Rightarrow> db_error + dis_db" where
  "update_aliases f db =
     (let rows = map f (dd_aliases db)
      in if distinct (map al_unique rows) then Inr (db\<lparr>dd_aliases := rows\<rparr>) else Inl UniqueViolation)"

definition move_aliases :: "string \<Rightarrow> string \<Rightarrow> dis_db \<Rightarrow> db_error + dis_db" where
  "move_aliases src tgt = update_aliases (\<lambda>a. if al_device a = src then a\<lparr>al_device := tgt\<rparr> else a)"

definition move_evidence :: "string \<Rightarrow> string \<Rightarrow> dis_db \<Rightarrow> db_error + dis_db" where
  "move_evidence src tgt db = Inr (db\<lparr>dd_evidence :=
     map (\<lambda>e. if ev_device e = src then e\<lparr>ev_device := tgt\<rparr> else e) (dd_evidence db)\<rparr>)"

definition put_redirect :: "string \<Rightarrow> string \<Rightarrow> dis_db \<Rightarrow> db_error + dis_db" where
  "put_redirect old new db = Inr (db\<lparr>dd_redirects := (dd_redirects db)(old \<mapsto> new)\<rparr>)"

text \<open>Saving the target may give it an id, which the statements after it use.\<close>

definition merge_devices_tx ::
  "(string \<Rightarrow> u8 list option) \<Rightarrow> (string set \<Rightarrow> string list) \<Rightarrow> device \<Rightarrow> device \<Rightarrow> unit dsql" where
  "merge_devices_tx rnd ord source target =
     then_io (exec (drop_macs_of (pdid source))) (then_io (exec (drop_ips_of (pdid source)))
     (bind_io (save_device_tx rnd ord target) (\<lambda>t.
       let src = device_id source; tgt = device_id t in
       then_io (exec (absorb_aliases src tgt)) (then_io (exec (drop_absorbed src tgt))
      (then_io (exec (move_aliases src tgt)) (then_io (exec (move_evidence src tgt))
      (then_io (exec (drop_owners_of (pdid source))) (then_io (exec (drop_pending_of (pdid source)))
      (then_io (exec (put_redirect (pdid source) (pdid target))) (exec (delete_device_row (pdid source)))))))))))) "

definition merge_devices ::
  "(string \<Rightarrow> u8 list option) \<Rightarrow> (string set \<Rightarrow> string list) \<Rightarrow> device \<Rightarrow> device \<Rightarrow> unit dsql" where
  "merge_devices rnd ord source target =
     (if pdid source = [] \<or> pdid target = [] \<or> pdid source = pdid target then fail_io InvalidMerge
      else transaction (merge_devices_tx rnd ord source target))"

definition confirm_candidate_merge ::
  "(string \<Rightarrow> u8 list option) \<Rightarrow> (string set \<Rightarrow> string list) \<Rightarrow> time \<Rightarrow> nat \<Rightarrow> device \<Rightarrow> device \<Rightarrow> string \<Rightarrow> candidate_row dsql" where
  "confirm_candidate_merge rnd ord now i source target note =
     (if pdid source = pdid target then fail_io InvalidMerge
      else transaction (bind_io (query (\<lambda>db. find (\<lambda>c. cd_id c = i) (dd_candidates db))) (\<lambda>row.
        case row of None \<Rightarrow> fail_io ErrIdentityNotFound
        | Some c \<Rightarrow>
            if cd_status c \<noteq> ''pending'' \<or> cd_source c \<noteq> pdid source \<or> cd_target c \<noteq> pdid target
            then fail_io ErrCandidateChanged
            else let confirm = decided now ''confirmed'' ''manual_admin'' (trim_space note) False
              in bind_io (exec_counting (transition i ''pending'' confirm)) (\<lambda>changed.
                if changed \<noteq> 1 then fail_io ErrCandidateChanged
                else then_io (merge_devices_tx rnd ord source target) (return_io (confirm c))))))"

definition split_alias :: "time \<Rightarrow> string \<Rightarrow> string \<Rightarrow> string \<Rightarrow> dis_db \<Rightarrow> db_error + dis_db" where
  "split_alias now old new h = update_aliases (\<lambda>a.
     if al_device a = old \<and> al_key a = (AliasMAC, h)
     then a\<lparr>al_device := new, al_source := ''manual_split'', al_verified := True, al_revoked := None, al_last := now\<rparr>
     else a)"

definition split_device ::
  "(string \<Rightarrow> u8 list option) \<Rightarrow> (string set \<Rightarrow> string list) \<Rightarrow> time \<Rightarrow> device \<Rightarrow> device \<Rightarrow> string \<Rightarrow> unit dsql" where
  "split_device rnd ord now original split h =
     (if pdid original = pdid split then fail_io InvalidSplit
      else transaction (bind_io (save_device_tx rnd ord original) (\<lambda>o'.
        bind_io (save_device_tx rnd ord split) (\<lambda>s'.
          if h \<noteq> [] then exec (split_alias now (device_id o') (device_id s') h) else return_io ()))))"

end
