(* ===== verification/Dis_Engine.thy ===== *)
theory Dis_Engine
  imports Dis_Identity_Store Dis_Inventory
begin

text \<open>
  The correlation engine of the discovery service (\<open>internal/correlation/engine.go\<close> and the sightings part of
  \<open>identity_engine.go\<close>): what one observation does to the inventory, the debouncer, the store, the aliases in
  memory and the events sent. A world \<open>w\<close> fixes what the code takes from outside while one step runs: the
  instant (all readings of the clock in a step are one), random bytes, the driver's failures, the order of
  loops over sets, and SHA-256. A panic of the debouncer is \<open>None\<close>. Events are listed in the order they are
  broadcast; a payload is marshalled at that moment, so it is a value. The log is left out.
\<close>

subsection \<open>The state\<close>

record candidate_payload =
  cp_id :: nat
  cp_source :: string
  cp_target :: string
  cp_status :: string
  cp_timestamp :: time

record binding_payload =
  bp_pdid :: string
  bp_alias :: nat
  bp_type :: "alias_type option"
  bp_action :: string
  bp_timestamp :: time

record reidentified_payload =
  rp_old :: string
  rp_new :: string
  rp_reason :: string
  rp_macs :: "string list"
  rp_timestamp :: time

datatype dis_payload =
  DevicePayload device | ChangePayload device_event_payload | CandidatePayload candidate_payload
| BindingPayload binding_payload | ReidentifiedPayload reidentified_payload

record alias_activity =
  aa_id :: nat
  aa_first :: time
  aa_last :: time
  aa_latest_source :: string
  aa_latest_confidence :: real
  aa_durable_source :: string
  aa_durable_confidence :: real
  aa_durable_verified :: bool
  aa_revoked :: bool

type_synonym alias_index = "string \<times> alias_type \<times> string"

text \<open>The store is the tables with the number of statements run so far.\<close>

record dis_engine =
  en_cache :: inventory
  en_debouncer :: debouncer
  en_store :: "(nat \<times> dis_db) option"
  en_sent :: "dis_payload event list"
  en_orchestrated :: bool
  en_enrich :: "string list"
  en_seen :: "string \<rightharpoonup> time"
  en_dirty :: "string set"
  en_deferred :: "string \<rightharpoonup> time"
  en_aliases :: "alias_index \<rightharpoonup> alias_activity"

record world =
  wd_now :: time
  wd_random :: "u8 list option"
  wd_save_random :: "string \<Rightarrow> u8 list option"
  wd_out :: outage
  wd_ord :: "string set \<Rightarrow> string list"
  wd_sha :: "string \<Rightarrow> u8 list"

definition new_dis_engine :: dis_engine where
  "new_dis_engine = \<lparr>en_cache = new_inventory, en_debouncer = new_debouncer, en_store = None, en_sent = [],
     en_orchestrated = False, en_enrich = [], en_seen = Map.empty, en_dirty = {}, en_deferred = Map.empty,
     en_aliases = Map.empty\<rparr>"

subsection \<open>The parts an observation works on\<close>

definition on_store :: "world \<Rightarrow> 'a dsql \<Rightarrow> dis_engine \<Rightarrow> (db_error + 'a) option \<times> dis_engine" where
  "on_store w m e = (case en_store e of None \<Rightarrow> (None, e)
     | Some s \<Rightarrow> (case m (wd_out w) s of (r, s') \<Rightarrow> (Some r, e\<lparr>en_store := Some s'\<rparr>)))"

definition broadcast_event :: "world \<Rightarrow> event_type \<Rightarrow> string \<Rightarrow> dis_payload \<Rightarrow> dis_engine \<Rightarrow> dis_engine" where
  "broadcast_event w t p payload e = e\<lparr>en_sent := en_sent e @ [new_event (wd_now w) t p payload]\<rparr>"

definition mark_dirty :: "string \<Rightarrow> dis_engine \<Rightarrow> dis_engine" where
  "mark_dirty p e = (if en_store e = None \<or> p = [] then e else e\<lparr>en_dirty := insert p (en_dirty e)\<rparr>)"

definition put_device :: "device \<Rightarrow> dis_engine \<Rightarrow> dis_engine" where
  "put_device d e = e\<lparr>en_cache := upsert d (en_cache e)\<rparr>"

text \<open>The owner listener that \<open>SetStorage\<close> installs.\<close>

definition tell_owners :: "world \<Rightarrow> owner_call list \<Rightarrow> dis_engine \<Rightarrow> dis_engine" where
  "tell_owners w calls e = fold (\<lambda>(h, p, gone) e.
     snd (on_store w (if gone then delete_hostname_owner h else save_hostname_owner h p) e)) calls e"

definition acquire :: "world \<Rightarrow> string \<Rightarrow> string \<Rightarrow> dis_engine \<Rightarrow> acquisition \<times> dis_engine" where
  "acquire w h p e = (case acquire_hostname (wd_now w) h p (en_cache e) of
     (r, calls, c) \<Rightarrow> (r, tell_owners w calls (e\<lparr>en_cache := c\<rparr>)))"

definition release :: "world \<Rightarrow> string \<Rightarrow> string \<Rightarrow> dis_engine \<Rightarrow> dis_engine" where
  "release w h p e = (case release_hostname h p (en_cache e) of
     (calls, c) \<Rightarrow> tell_owners w calls (e\<lparr>en_cache := c\<rparr>))"

definition forget_device :: "world \<Rightarrow> string \<Rightarrow> dis_engine \<Rightarrow> dis_engine" where
  "forget_device w p e = (case delete_device p (en_cache e) of
     (calls, c) \<Rightarrow> tell_owners w calls (e\<lparr>en_cache := c\<rparr>))"

definition submit_change ::
  "world \<Rightarrow> string \<Rightarrow> event_type \<Rightarrow> observation \<Rightarrow> device_event_payload \<Rightarrow> dis_engine \<Rightarrow> dis_engine option" where
  "submit_change w p t obs payload e =
     map_option (\<lambda>deb. e\<lparr>en_debouncer := deb\<rparr>)
       (submit (wd_now w) p t (obs_source obs) (obs_group obs) payload (en_debouncer e))"

definition schedule_deferred :: "world \<Rightarrow> string \<Rightarrow> duration \<Rightarrow> dis_engine \<Rightarrow> dis_engine" where
  "schedule_deferred w p delay e =
     (if p = [] then e
      else let deadline = wd_now w + delay
        in case en_deferred e p of
             Some t \<Rightarrow> if deadline < t then e\<lparr>en_deferred := (en_deferred e)(p \<mapsto> deadline)\<rparr> else e
           | None \<Rightarrow> e\<lparr>en_deferred := (en_deferred e)(p \<mapsto> deadline)\<rparr>)"

definition duplicate_key :: "observation \<Rightarrow> string \<Rightarrow> string \<Rightarrow> string \<Rightarrow> string" where
  "duplicate_key obs mac ip host = join ''|'' [obs_source obs, obs_group obs, mac, ip, host,
     if obs_online obs then ''true'' else ''false'', join '','' (sort (obs_services obs))]"

definition is_duplicate :: "world \<Rightarrow> string \<Rightarrow> dis_engine \<Rightarrow> bool \<times> dis_engine" where
  "is_duplicate w key e =
     (case en_seen e key of
        Some t \<Rightarrow> if time_sub (wd_now w) t < 2 * second then (True, e)
                  else (False, e\<lparr>en_seen := (en_seen e)(key \<mapsto> wd_now w)\<rparr>)
      | None \<Rightarrow> (False, e\<lparr>en_seen := (en_seen e)(key \<mapsto> wd_now w)\<rparr>))"

definition can_update_current_ip :: "string \<Rightarrow> bool" where
  "can_update_current_ip s \<longleftrightarrow> s \<in> {''netlink'', ''dhcp'', ''openwrt_neigh''}"

definition can_trigger_online :: "string \<Rightarrow> bool" where
  "can_trigger_online s \<longleftrightarrow> s \<in> {''netlink'', ''openwrt_ap'', ''openwrt_neigh''}"

definition authoritative_l2 :: "string \<Rightarrow> bool" where
  "authoritative_l2 s \<longleftrightarrow> s = ''openwrt_ap'' \<or> s = ''openwrt_neigh''"

definition l2_and_l3 :: "string list \<Rightarrow> bool" where
  "l2_and_l3 ss \<longleftrightarrow> (\<exists>s \<in> set ss. s \<in> {''netlink'', ''openwrt_ap'', ''openwrt_neigh''})
     \<and> (\<exists>s \<in> set ss. s \<in> {''dhcp'', ''pihole'', ''openwrt_neigh''})"

definition material_raw_equal :: "(string \<rightharpoonup> raw_value) \<Rightarrow> (string \<rightharpoonup> raw_value) \<Rightarrow> bool" where
  "material_raw_equal a b \<longleftrightarrow> material_raw a = material_raw b"

definition record_observation_source :: "observation \<Rightarrow> time \<Rightarrow> device \<Rightarrow> bool \<times> device" where
  "record_observation_source obs seen d =
     (let s = obs_source obs;
          current = \<lparr>meta_source = s, meta_confidence = obs_confidence obs, meta_timestamp = seen, meta_raw = obs_raw obs\<rparr>
      in if trim_space s = [] then (False, d)
         else (case source_info d s of
                 None \<Rightarrow> True
               | Some p \<Rightarrow> meta_confidence p \<noteq> meta_confidence current \<or> \<not> material_raw_equal (meta_raw p) (meta_raw current),
               d\<lparr>source_info := (source_info d)(s \<mapsto> current)\<rparr>))"

definition gateway_address :: "string \<Rightarrow> bool" where
  "gateway_address ip = (if ip = [] then False
     else (case parse_ip ip of None \<Rightarrow> False
       | Some a \<Rightarrow> (case to4 a of None \<Rightarrow> False | Some v4 \<Rightarrow> v4 ! 3 = 1 \<or> v4 ! 3 = 254)))"

definition name_if_empty :: "string \<Rightarrow> device \<Rightarrow> device" where
  "name_if_empty n d = (if friendly_name d = [] then d\<lparr>friendly_name := n\<rparr> else d)"

definition apply_smart :: "device \<Rightarrow> bool \<times> device" where
  "apply_smart d =
     (let d1 = (if gateway_address (current_ip d)
                then name_if_empty ''Network Gateway Router'' (d\<lparr>device_type := ''infrastructure''\<rparr>) else d);
          d2 = (if has_prefix (hostname d1) ''amzn.'' \<or> contains_sub (hostname d1) ''amzn.dmgr''
                then name_if_empty ''Amazon Alexa Device''
                       (d1\<lparr>vendor := ''Amazon Technologies Inc.'', device_type := ''iot''\<rparr>) else d1)
      in (device_type d \<noteq> device_type d2 \<or> friendly_name d \<noteq> friendly_name d2 \<or> vendor d \<noteq> vendor d2, d2))"

definition is_infra :: "device \<Rightarrow> bool" where
  "is_infra d \<longleftrightarrow> has_tag (dev_tags d) ''infrastructure'' \<or> device_type d = ''infrastructure''"

fun add_services :: "string list \<Rightarrow> device \<Rightarrow> bool \<times> device" where
  "add_services [] d = (False, d)"
| "add_services (s # ss) d =
     (case add_service d s of (a, d1) \<Rightarrow> (case add_services ss d1 of (b, d2) \<Rightarrow> (a \<or> b, d2)))"

subsection \<open>Verified and recorded identity\<close>

definition no_activity :: alias_activity where
  "no_activity = \<lparr>aa_id = 0, aa_first = zero_time, aa_last = zero_time, aa_latest_source = [], aa_latest_confidence = 0,
     aa_durable_source = [], aa_durable_confidence = 0, aa_durable_verified = False, aa_revoked = False\<rparr>"

definition loaded_activity :: "alias_row \<Rightarrow> alias_activity" where
  "loaded_activity a = \<lparr>aa_id = al_id a, aa_first = al_first a, aa_last = al_last a, aa_latest_source = al_source a,
     aa_latest_confidence = al_confidence a, aa_durable_source = al_source a, aa_durable_confidence = al_confidence a,
     aa_durable_verified = al_verified a, aa_revoked = (al_revoked a \<noteq> None)\<rparr>"

definition load_alias_activity :: "world \<Rightarrow> dis_engine \<Rightarrow> dis_engine" where
  "load_alias_activity w e =
     (case on_store w load_identity_aliases e of
        (Some (Inr rows), e1) \<Rightarrow>
          e1\<lparr>en_aliases := fold (\<lambda>a m. m((al_device a, al_type a, al_hash a) \<mapsto> loaded_activity a)) rows (en_aliases e1)\<rparr>
      | (_, e1) \<Rightarrow> e1)"

fun verified_owners :: "world \<Rightarrow> signal list \<Rightarrow> string set \<Rightarrow> dis_engine \<Rightarrow> string set \<times> dis_engine" where
  "verified_owners w [] owners e = (owners, e)"
| "verified_owners w (s # ss) owners e =
     (if sig_type s \<noteq> AliasMAC \<and> \<not> sig_verified s then verified_owners w ss owners e
      else (case hash_alias (wd_sha w) (sig_type s) (sig_value s) of
          None \<Rightarrow> verified_owners w ss owners e
        | Some h \<Rightarrow>
            (case on_store w (find_verified_alias_pdids (sig_type s) h) e of
               (Some (Inr ps), e1) \<Rightarrow> verified_owners w ss (owners \<union> set ps) e1
             | (_, e1) \<Rightarrow> verified_owners w ss owners e1)))"

definition resolve_verified :: "world \<Rightarrow> signal list \<Rightarrow> dis_engine \<Rightarrow> device option \<times> dis_engine" where
  "resolve_verified w sigs e =
     (if en_store e = None then (None, e)
      else (case verified_owners w sigs {} e of (owners, e1) \<Rightarrow>
        (if card owners \<noteq> 1 then None else get_device (the_elem owners) (en_cache e1), e1)))"

definition sighted :: "signal \<Rightarrow> time \<Rightarrow> alias_activity \<Rightarrow> alias_activity" where
  "sighted s seen a =
     (let a1 = (if is_zero (aa_first a) then a\<lparr>aa_first := seen\<rparr> else a);
          a2 = (if aa_last a1 < seen then a1\<lparr>aa_last := seen\<rparr> else a1)
      in a2\<lparr>aa_latest_source := sig_source s,
            aa_latest_confidence := max (aa_latest_confidence a2) (sig_confidence s)\<rparr>)"

definition worth_storing :: "signal \<Rightarrow> alias_activity option \<Rightarrow> bool" where
  "worth_storing s known = (case known of None \<Rightarrow> True
     | Some a \<Rightarrow> \<not> aa_revoked a \<and> ((sig_verified s \<and> \<not> aa_durable_verified a) \<or> aa_durable_confidence a < sig_confidence s))"

definition stored_activity :: "signal \<Rightarrow> nat \<Rightarrow> alias_activity \<Rightarrow> alias_activity" where
  "stored_activity s i a = a\<lparr>aa_id := i, aa_durable_source := sig_source s,
     aa_durable_confidence := max (aa_durable_confidence a) (sig_confidence s),
     aa_durable_verified := (aa_durable_verified a \<or> sig_verified s), aa_revoked := False\<rparr>"

definition record_signal :: "world \<Rightarrow> device \<Rightarrow> time \<Rightarrow> signal \<Rightarrow> dis_engine \<Rightarrow> dis_engine" where
  "record_signal w d seen s e =
     (case hash_alias (wd_sha w) (sig_type s) (sig_value s) of None \<Rightarrow> e
      | Some h \<Rightarrow>
          let key = (device_id d, sig_type s, h);
              known = en_aliases e key;
              a = sighted s seen (case known of None \<Rightarrow> no_activity | Some a \<Rightarrow> a);
              e1 = e\<lparr>en_aliases := (en_aliases e)(key \<mapsto> a)\<rparr>
          in if \<not> worth_storing s known then e1
             else (case on_store w (upsert_identity_alias (wd_now w)
                 \<lparr>al_id = 0, al_device = device_id d, al_type = sig_type s, al_hash = h, al_source = sig_source s,
                  al_confidence = sig_confidence s, al_verified = sig_verified s, al_first = aa_first a, al_last = seen,
                  al_revoked = None\<rparr>) e1 of
               (Some (Inr i), e2) \<Rightarrow> e2\<lparr>en_aliases := (en_aliases e2)(key \<mapsto> stored_activity s i a)\<rparr>
             | (_, e2) \<Rightarrow> e2))"

definition save_factor :: "world \<Rightarrow> device \<Rightarrow> device \<Rightarrow> time \<Rightarrow> identity_factor \<Rightarrow> dis_engine \<Rightarrow> dis_engine" where
  "save_factor w d cand seen f e =
     (if \<not> if_matched f then e
      else snd (on_store w (save_identity_evidence (wd_now w)
        \<lparr>ev_id = 0, ev_device = device_id d, ev_candidate_device = device_id cand, ev_kind = if_kind f,
         ev_value_hash = [], ev_source = ''passive_correlation'', ev_log_likelihood = ln (if_ratio f),
         ev_observed = seen, ev_expires = None\<rparr>) e))"

definition record_identity_signals ::
  "world \<Rightarrow> device \<Rightarrow> signal list \<Rightarrow> (device \<times> passive_decision) option \<Rightarrow> time \<Rightarrow> dis_engine \<Rightarrow> dis_engine" where
  "record_identity_signals w d sigs cand seen e =
     (if en_store e = None \<or> device_id d = [] then e
      else let e1 = fold (record_signal w d seen) sigs e in
        case cand of None \<Rightarrow> e1
        | Some (c, dec) \<Rightarrow>
            if dc_probability dec < candidate_threshold then e1
            else (case on_store w (upsert_identity_candidate (wd_now w)
                \<lparr>cd_id = 0, cd_source = pdid d, cd_target = pdid c, cd_probability = dc_probability dec, cd_ambiguous = True,
                 cd_status = ''pending'', cd_factors = dc_factors dec, cd_created = seen, cd_updated = zero_time,
                 cd_decision_source = [], cd_decision_note = []\<rparr>) e1 of
              (r, e2) \<Rightarrow>
                let e3 = (case r of Some (Inr i) \<Rightarrow>
                      broadcast_event w EventIdentityCandidateChanged (pdid d) (CandidatePayload
                        \<lparr>cp_id = i, cp_source = pdid d, cp_target = pdid c, cp_status = ''pending'', cp_timestamp = wd_now w\<rparr>) e2
                    | _ \<Rightarrow> e2)
                in fold (save_factor w d c seen) (dc_factors dec) e3))"

subsection \<open>One observation\<close>

definition mac_text :: "observation \<Rightarrow> string" where
  "mac_text obs = (case obs_mac obs of None \<Rightarrow> [] | Some hw \<Rightarrow> normalize_mac (mac_string hw))"

definition ip_text :: "observation \<Rightarrow> string" where
  "ip_text obs = (case obs_ip obs of None \<Rightarrow> [] | Some a \<Rightarrow> trim_space (ip_string a))"

text \<open>Pi-hole only adds its address to a device that is already known by it.\<close>

definition pihole_sighting :: "string \<Rightarrow> device \<Rightarrow> dis_engine \<Rightarrow> dis_engine" where
  "pihole_sighting ip d e =
     (if ip \<in> set (ips d) then e else mark_dirty (pdid d) (put_device (add_ip d ip) e))"

definition seen_at :: "world \<Rightarrow> observation \<Rightarrow> time" where
  "seen_at w obs = normalized_observation_time (wd_now w) (obs_timestamp obs)"

definition compared_with :: "world \<Rightarrow> observation \<Rightarrow> string \<Rightarrow> string \<Rightarrow> bool \<Rightarrow> device \<Rightarrow> passive_input" where
  "compared_with w obs mac host same_ip d =
     \<lparr>pi_same_ip = same_ip, pi_host = host, pi_existing_host = canonical_hostname d, pi_services = obs_services obs,
      pi_existing_services = services d, pi_vendor = obs_vendor obs, pi_existing_vendor = vendor d,
      pi_new_mac = mac, pi_existing_mac = current_mac d, pi_existing_online = online d,
      pi_existing_last_seen = last_seen d, pi_observed_at = seen_at w obs\<rparr>"

text \<open>An unknown hardware address at a known IP address: the address leaves the index, the two devices are
  scored.\<close>

definition address_reuse ::
  "world \<Rightarrow> observation \<Rightarrow> string \<Rightarrow> string \<Rightarrow> string \<Rightarrow> dis_engine \<Rightarrow> (device \<times> passive_decision) option \<times> dis_engine" where
  "address_reuse w obs mac ip host e =
     (if mac = [] \<or> ip = [] then (None, e)
      else (case get_by_ip ip (en_cache e) of
          None \<Rightarrow> (None, e)
        | Some x \<Rightarrow>
            if has_mac x mac then (None, e)
            else (Some (x, score_passive (compared_with w obs mac host True x)),
                  mark_dirty (pdid x) (e\<lparr>en_cache := remove_ip_index ip (en_cache e)\<rparr>))))"

definition verified_assurance :: "device \<Rightarrow> device" where
  "verified_assurance d = d\<lparr>assurance := IdentityVerified, probability := 1, ambiguous := False\<rparr>"

definition empty_change :: "string \<Rightarrow> time \<Rightarrow> device_event_payload" where
  "empty_change p now = \<lparr>ep_pdid = p, ep_mac = [], ep_ip = [], ep_hostname = [], ep_canonical_hostname = [],
     ep_old_mac = [], ep_old_ip = [], ep_old_host = [], ep_old_canonical_hostname = [], ep_confirmed_by = [],
     ep_timestamp = now\<rparr>"

text \<open>What the hardware address means for the device that was found: one of its own, a new one that verified
  evidence gives it, or another device (then there is a candidate instead of a device).\<close>

definition claim_mac ::
  "world \<Rightarrow> observation \<Rightarrow> string \<Rightarrow> string \<Rightarrow> string \<Rightarrow> bool \<Rightarrow> device \<Rightarrow> dis_engine \<Rightarrow>
   (device option \<times> (device \<times> passive_decision) option \<times> bool \<times> dis_engine) option" where
  "claim_mac w obs mac ip host verified d e =
     (if mac = [] then Some (Some d, None, False, e)
      else if has_mac d mac then
        (if current_mac d \<noteq> mac then Some (Some (d\<lparr>current_mac := mac\<rparr>), None, True, e)
         else Some (Some d, None, False, e))
      else if verified then
        map_option (\<lambda>e1. (Some (verified_assurance ((add_mac d mac)\<lparr>current_mac := mac\<rparr>)), None, True, e1))
          (submit_change w (pdid d) EventMACChanged obs
             ((empty_change (pdid d) (wd_now w))\<lparr>ep_mac := mac, ep_old_mac := current_mac d\<rparr>) e)
      else Some (None, Some (d, score_passive (compared_with w obs mac host (current_ip d = ip) d)), False, e))"

text \<open>May the observation use its host name? \<open>d\<close> is the PDID of the device that was found.\<close>

definition claim_hostname :: "world \<Rightarrow> string \<Rightarrow> string option \<Rightarrow> dis_engine \<Rightarrow> bool \<times> dis_engine" where
  "claim_hostname w host d e =
     (if host = [] then (True, e)
      else (case d of
          Some p \<Rightarrow>
            (case get_hostname_owner host (en_cache e) of
               Some q \<Rightarrow> if q \<noteq> p then (case acquire w host p e of (r, e1) \<Rightarrow> (r \<noteq> AcquireReject, e1)) else (True, e)
             | None \<Rightarrow> (True, e))
        | None \<Rightarrow> (\<not> actively_owned (wd_now w) host (en_cache e), e)))"

definition new_assurance :: "string \<Rightarrow> (device \<times> passive_decision) option \<Rightarrow> identity_assurance \<times> real \<times> bool" where
  "new_assurance mac cand =
     (let base = (if mac \<noteq> [] \<and> \<not> is_locally_administered mac then (IdentityStrong, 999 / 1000, False)
                  else (IdentityUnverified, 0, False))
      in case cand of None \<Rightarrow> base
         | Some (_, dec) \<Rightarrow> if candidate_threshold \<le> dc_probability dec then (IdentityCandidate, dc_probability dec, True)
                            else base)"

text \<open>The device a first sighting describes.\<close>

definition first_device ::
  "world \<Rightarrow> observation \<Rightarrow> string \<Rightarrow> string \<Rightarrow> string \<Rightarrow> string \<Rightarrow> (device \<times> passive_decision) option \<Rightarrow>
   string \<Rightarrow> string \<Rightarrow> device" where
  "first_device w obs mac ip host clean cand i p =
     (let (tier, anchor) = derive_tier_and_anchor (wd_now w) mac host (obs_vendor obs);
          (assu, prob, amb) = new_assurance mac cand;
          d0 = empty_device\<lparr>device_id := i, pdid := p, identity_tier := tier, identity_anchor := anchor,
                 canonical_hostname := host, hostname := clean, vendor := obs_vendor obs, model := obs_model obs,
                 confidence := obs_confidence obs, assurance := assu, probability := prob, ambiguous := amb\<rparr>;
          d1 = add_mac d0 mac;
          d2 = (if obs_source obs \<noteq> ''pihole'' then add_ip d1 ip else d1);
          d3 = touch (snd (add_services (obs_services obs) d2)) (seen_at w obs);
          d4 = snd (record_observation_source obs (seen_at w obs) d3)
      in if obs_online obs \<and> can_trigger_online (obs_source obs) then
           let d5 = snd (apply_smart (d4\<lparr>pending_online_obs := pending_online_obs d4 @ [obs_source obs]\<rparr>))
           in if authoritative_l2 (obs_source obs) \<or> is_infra d5 then d5\<lparr>online := True, pending_online_obs := []\<rparr> else d5
         else d4)"

definition announce_new :: "world \<Rightarrow> device \<Rightarrow> dis_engine \<Rightarrow> dis_engine" where
  "announce_new w d e =
     (let e1 = broadcast_event w EventDeviceAdded (pdid d) (DevicePayload d) e;
          e2 = (if online d then broadcast_event w EventDeviceOnline (pdid d) (DevicePayload d) e1
                else if pending_online_obs d \<noteq> [] then schedule_deferred w (pdid d) (30 * second) e1 else e1)
      in if en_orchestrated e2 then e2\<lparr>en_enrich := en_enrich e2 @ [pdid d]\<rparr> else e2)"

text \<open>A device that cannot be stored is not kept.\<close>

definition add_device ::
  "world \<Rightarrow> observation \<Rightarrow> string \<Rightarrow> string \<Rightarrow> string \<Rightarrow> string \<Rightarrow> signal list \<Rightarrow> (device \<times> passive_decision) option \<Rightarrow>
   dis_engine \<Rightarrow> dis_engine" where
  "add_device w obs mac ip host clean sigs cand e =
     (case new_permanent_identity (wd_random w) of None \<Rightarrow> e
      | Some (i, p) \<Rightarrow>
          let d = first_device w obs mac ip host clean cand i p;
              e1 = put_device d e;
              e2 = (if host \<noteq> [] then snd (acquire w host p e1) else e1)
          in (case on_store w (save_device (wd_save_random w) (wd_ord w) d) e2 of
                (Some (Inl _), e3) \<Rightarrow> forget_device w p e3
              | (_, e3) \<Rightarrow> announce_new w d (record_identity_signals w d sigs cand (seen_at w obs) e3)))"

definition promote_device ::
  "world \<Rightarrow> identity_tier \<Rightarrow> string \<Rightarrow> string \<Rightarrow> device \<Rightarrow> dis_engine \<Rightarrow> dis_engine" where
  "promote_device w tier anchor host d e =
     (let d' = d\<lparr>identity_tier := tier, identity_anchor := anchor, canonical_hostname := host\<rparr>
      in broadcast_event w EventFingerprintUpdated (pdid d) (DevicePayload d') (mark_dirty (pdid d) (put_device d' e)))"

text \<open>Presence of a known device that is offline. The result says whether something material changed.\<close>

definition confirm_presence :: "world \<Rightarrow> observation \<Rightarrow> device \<Rightarrow> dis_engine \<Rightarrow> bool \<times> device \<times> dis_engine" where
  "confirm_presence w obs d e =
     (if online d \<or> \<not> obs_online obs \<or> \<not> can_trigger_online (obs_source obs) then (False, d, e)
      else
        let s = obs_source obs;
            d1 = (if s \<in> set (pending_online_obs d) then d else d\<lparr>pending_online_obs := pending_online_obs d @ [s]\<rparr>);
            (changed, d2) = apply_smart d1
        in if authoritative_l2 s \<or> is_infra d2 \<or> 2 \<le> length (pending_online_obs d2) \<or> l2_and_l3 (pending_online_obs d2)
           then let d3 = d2\<lparr>online := True, pending_online_obs := []\<rparr>
                in (changed, d3, broadcast_event w EventDeviceOnline (pdid d) (DevicePayload d3) e)
           else (changed, d2, schedule_deferred w (pdid d) (30 * second) e))"

definition rename_device ::
  "world \<Rightarrow> observation \<Rightarrow> string \<Rightarrow> string \<Rightarrow> device \<Rightarrow> dis_engine \<Rightarrow> (bool \<times> device \<times> dis_engine) option" where
  "rename_device w obs host clean d e =
     (if clean = [] \<or> hostnames_equivalent (hostname d) clean then Some (False, d, e)
      else
        let e1 = (if canonical_hostname d \<noteq> [] then release w (canonical_hostname d) (pdid d) e else e);
            e2 = (if host \<noteq> [] then snd (acquire w host (pdid d) e1) else e1)
        in map_option (\<lambda>e3. (True, d\<lparr>hostname := clean, canonical_hostname := host\<rparr>, e3))
             (submit_change w (pdid d) EventHostnameChanged obs
                ((empty_change (pdid d) (wd_now w))\<lparr>ep_hostname := clean, ep_canonical_hostname := host,
                   ep_old_host := hostname d, ep_old_canonical_hostname := canonicalize_hostname (hostname d)\<rparr>) e2))"

definition readdress_device ::
  "world \<Rightarrow> observation \<Rightarrow> string \<Rightarrow> device \<Rightarrow> dis_engine \<Rightarrow> (bool \<times> device \<times> dis_engine) option" where
  "readdress_device w obs ip d e =
     (if ip = [] \<or> \<not> can_update_current_ip (obs_source obs) \<or> current_ip d = ip then Some (False, d, e)
      else map_option (\<lambda>e1. (True, add_ip (d\<lparr>current_ip := ip\<rparr>) ip, e1))
        (submit_change w (pdid d) EventIPChanged obs
           ((empty_change (pdid d) (wd_now w))\<lparr>ep_ip := ip, ep_old_ip := current_ip d\<rparr>) e))"

definition describe_device :: "world \<Rightarrow> observation \<Rightarrow> device \<Rightarrow> bool \<times> device" where
  "describe_device w obs d =
     (let (a, d1) = record_observation_source obs (seen_at w obs) d;
          (b, d2) = add_services (obs_services obs) d1;
          v = trim_space (obs_vendor obs); m = trim_space (obs_model obs);
          (c, d3) = (if vendor d2 = [] \<and> v \<noteq> [] then (True, d2\<lparr>vendor := v\<rparr>) else (False, d2));
          (x, d4) = (if model d3 = [] \<and> m \<noteq> [] then (True, d3\<lparr>model := m\<rparr>) else (False, d3))
      in (a \<or> b \<or> c \<or> x, if last_seen d4 < seen_at w obs then touch d4 (seen_at w obs) else d4))"

definition update_known ::
  "world \<Rightarrow> observation \<Rightarrow> string \<Rightarrow> string \<Rightarrow> string \<Rightarrow> string \<Rightarrow> signal list \<Rightarrow> bool \<Rightarrow> device \<Rightarrow> dis_engine \<Rightarrow> dis_engine option" where
  "update_known w obs mac ip host clean sigs dirty d e =
     (let e1 = record_identity_signals w d sigs None (seen_at w obs) e;
          (tier, anchor) = derive_tier_and_anchor (wd_now w) mac host (obs_vendor obs)
      in if can_promote (identity_tier d) tier then Some (promote_device w tier anchor host d e1)
         else (case confirm_presence w obs d e1 of (b1, d1, e2) \<Rightarrow>
          Option.bind (rename_device w obs host clean d1 e2) (\<lambda>(b2, d2, e3).
          map_option (\<lambda>(b3, d3, e4).
            case describe_device w obs d3 of (b4, d4) \<Rightarrow>
              let e5 = put_device d4 e4
              in if dirty \<or> b1 \<or> b2 \<or> b3 \<or> b4 then mark_dirty (pdid d4) e5 else e5)
            (readdress_device w obs ip d2 e3))))"

text \<open>The rest of \<open>processObservation\<close> once the texts are known and the duplicate was ruled out.\<close>

definition correlate :: "world \<Rightarrow> observation \<Rightarrow> string \<Rightarrow> string \<Rightarrow> string \<Rightarrow> string \<Rightarrow> dis_engine \<Rightarrow> dis_engine option" where
  "correlate w obs mac ip host clean e =
     (let sigs = observation_signals obs mac host in
      case resolve_verified w sigs e of (found, e1) \<Rightarrow>
        let verified = (found \<noteq> None);
            d1 = (case found of Some d \<Rightarrow> Some d | None \<Rightarrow>
                    (case get_by_mac mac (en_cache e1) of Some d \<Rightarrow> Some d | None \<Rightarrow>
                      if mac = [] then get_by_ip ip (en_cache e1) else None));
            claimed = (case d1 of
                None \<Rightarrow> (case address_reuse w obs mac ip host e1 of (cand, e2) \<Rightarrow> Some (None, cand, False, e2))
              | Some d \<Rightarrow> claim_mac w obs mac ip host verified d e1)
        in Option.bind claimed (\<lambda>(d2, cand, dirty, e2).
             case claim_hostname w host (map_option pdid d2) e2 of (granted, e3) \<Rightarrow>
               let host' = (if granted then host else []); clean' = (if granted then clean else [])
               in (case d2 of
                   None \<Rightarrow> Some (add_device w obs mac ip host' clean' sigs cand e3)
                 | Some d \<Rightarrow> update_known w obs mac ip host' clean' sigs dirty d e3)))"

definition process_observation :: "world \<Rightarrow> observation \<Rightarrow> dis_engine \<Rightarrow> dis_engine option" where
  "process_observation w obs e =
     (let mac = mac_text obs; ip = ip_text obs; clean = unescape_hostname (obs_hostname obs);
          host = canonicalize_hostname clean
      in if is_multicast_or_broadcast (obs_mac obs) (obs_ip obs) then Some e
         else (case (if obs_source obs = ''pihole'' \<and> ip \<noteq> [] then get_by_ip ip (en_cache e) else None) of
             Some d \<Rightarrow> Some (pihole_sighting ip d e)
           | None \<Rightarrow>
               if mac = [] \<and> host = [] then Some e
               else (case is_duplicate w (duplicate_key obs mac ip host) e of (dup, e1) \<Rightarrow>
                 if dup then Some e1 else correlate w obs mac ip host clean e1)))"

subsection \<open>The background passes\<close>

definition promote_identity :: "world \<Rightarrow> string \<Rightarrow> dis_engine \<Rightarrow> device option \<times> dis_engine" where
  "promote_identity w p e =
     (case get_device p (en_cache e) of None \<Rightarrow> (None, e)
      | Some d \<Rightarrow>
          (case derive_tier_and_anchor (wd_now w) (current_mac d) (canonical_hostname d) (vendor d) of (tier, anchor) \<Rightarrow>
             if can_promote (identity_tier d) tier
             then let e1 = promote_device w tier anchor (canonical_hostname d) d e in (get_device (pdid d) (en_cache e1), e1)
             else (Some d, e)))"

text \<open>\<open>ps\<close> is the order in which the loop visits the set of dirty devices. After a failure they stay dirty.\<close>

definition flush_dirty :: "world \<Rightarrow> string list \<Rightarrow> dis_engine \<Rightarrow> dis_engine" where
  "flush_dirty w ps e =
     (if en_dirty e = {} then e
      else let ds = List.map_filter (\<lambda>p. get_device p (en_cache e)) ps; e1 = e\<lparr>en_dirty := {}\<rparr>
        in if ds = [] then e1
           else (case on_store w (save_devices_batch (wd_save_random w) (wd_ord w) ds) e1 of
               (Some (Inl _), e2) \<Rightarrow> e2\<lparr>en_dirty := en_dirty e2 \<union> pdid ` set ds\<rparr>
             | (_, e2) \<Rightarrow> e2))"

definition forget_sightings :: "time \<Rightarrow> dis_engine \<Rightarrow> dis_engine" where
  "forget_sightings now e = e\<lparr>en_seen := (\<lambda>k. case en_seen e k of None \<Rightarrow> None
     | Some t \<Rightarrow> if 5 * minute < time_sub now t then None else Some t)\<rparr>"

definition offline_payload :: "time \<Rightarrow> device \<Rightarrow> device_event_payload" where
  "offline_payload now d = (empty_change (pdid d) now)\<lparr>ep_mac := current_mac d, ep_ip := current_ip d\<rparr>"

definition staleness_sweep :: "world \<Rightarrow> string list \<Rightarrow> dis_engine \<Rightarrow> dis_engine" where
  "staleness_sweep w ks e =
     (case demote_stale (wd_now w) ks (en_cache e) of (changed, c) \<Rightarrow>
        fold (\<lambda>p e. case get_device p (en_cache e) of None \<Rightarrow> e
            | Some d \<Rightarrow> broadcast_event w EventDeviceOffline (pdid d) (ChangePayload (offline_payload (wd_now w) d)) e)
          changed (e\<lparr>en_cache := c\<rparr>))"

definition come_online :: "world \<Rightarrow> string \<Rightarrow> dis_engine \<Rightarrow> dis_engine" where
  "come_online w p e =
     (case get_device p (en_cache e) of None \<Rightarrow> e
      | Some d \<Rightarrow>
          if \<not> online d \<and> pending_online_obs d \<noteq> [] then
            let d' = d\<lparr>online := True, pending_online_obs := []\<rparr>
            in broadcast_event w EventDeviceOnline (pdid d) (DevicePayload d') (put_device d' e)
          else e)"

definition flush_deferred :: "world \<Rightarrow> string list \<Rightarrow> dis_engine \<Rightarrow> dis_engine" where
  "flush_deferred w ks e =
     (let ready = filter (\<lambda>p. case en_deferred e p of None \<Rightarrow> False | Some t \<Rightarrow> t \<le> wd_now w) ks
      in fold (come_online w) ready (e\<lparr>en_deferred := (\<lambda>p. if p \<in> set ready then None else en_deferred e p)\<rparr>))"

text \<open>The debouncer works on the pending events of the store.\<close>

definition flush_changes ::
  "(device_event_payload \<Rightarrow> string) \<Rightarrow> (string \<Rightarrow> time) \<Rightarrow> (string \<Rightarrow> bool) \<Rightarrow> bool \<Rightarrow> world \<Rightarrow> string list \<Rightarrow> dis_engine \<Rightarrow> dis_engine" where
  "flush_changes enc clk fails batch_fails w ks e =
     (case flush enc clk fails batch_fails (wd_now w) ks
        (set_store (map_option (dd_pending \<circ> snd) (en_store e)) (en_debouncer e)) of (evs, deb) \<Rightarrow>
        e\<lparr>en_debouncer := deb,
          en_store := (case db_store deb of None \<Rightarrow> en_store e
            | Some tab \<Rightarrow> map_option (map_prod id (\<lambda>db. db\<lparr>dd_pending := tab\<rparr>)) (en_store e)),
          en_sent := en_sent e @ map (\<lambda>v. \<lparr>ev_type = ev_type v, ev_device_id = ev_device_id v, ev_pdid = ev_pdid v,
             ev_payload = ChangePayload (ev_payload v), ev_timestamp = ev_timestamp v\<rparr>) evs\<rparr>)"

text \<open>\<open>SetStorage\<close> at the start: what survives a restart comes back. \<open>dec\<close> decodes a payload, \<open>ks\<close> is the order
  of the rows of pending events.\<close>

definition load_pending_events :: "(string \<times> string) list \<Rightarrow> pending_record list dsql" where
  "load_pending_events ks = query (\<lambda>db. range_values (dd_pending db) ks)"

definition set_storage ::
  "(string \<Rightarrow> device_event_payload option) \<Rightarrow> world \<Rightarrow> (string \<times> string) list \<Rightarrow> (nat \<times> dis_db) option \<Rightarrow> dis_engine \<Rightarrow> dis_engine" where
  "set_storage dec w ks st e =
     (let e0 = e\<lparr>en_store := st, en_debouncer := set_store (map_option (dd_pending \<circ> snd) st) (en_debouncer e)\<rparr>
      in if st = None then e0
         else let e1 = load_alias_activity w e0;
                  e2 = (case on_store w load_stored_owners e1 of
                      (Some (Inr own), e') \<Rightarrow> e'\<lparr>en_cache := load_hostname_owners own (en_cache e')\<rparr> | (_, e') \<Rightarrow> e');
                  e3 = e2\<lparr>en_cache := set_owner_listener True (en_cache e2)\<rparr>
           in (case on_store w (load_pending_events ks) e3 of
                 (Some (Inr rows), e') \<Rightarrow> e'\<lparr>en_debouncer := load_pending dec rows (en_debouncer e')\<rparr> | (_, e') \<Rightarrow> e'))"

text \<open>The start (\<open>cmd/discovery-service/main.go\<close>): the devices of the store are put into the cache, then the engine
  gets the store and the orchestrator.\<close>

definition start_service ::
  "(string \<Rightarrow> device_event_payload option) \<Rightarrow> world \<Rightarrow> (string \<times> string) list \<Rightarrow> (nat \<times> dis_db) option \<Rightarrow> dis_engine" where
  "start_service dec w ks st =
     (case on_store w load_devices (new_dis_engine\<lparr>en_store := st\<rparr>) of (r, e1) \<Rightarrow>
        let c = (case r of Some (Inr ds) \<Rightarrow> fold upsert ds new_inventory | _ \<Rightarrow> new_inventory)
        in (set_storage dec w ks (en_store e1) (new_dis_engine\<lparr>en_cache := c\<rparr>))\<lparr>en_orchestrated := True\<rparr>)"

end
