(* ===== verification/Dis_Store_Props.thy ===== *)
theory Dis_Store_Props
  imports Dis_Identity_Store
begin

text \<open>
  What the stored state of the discovery service keeps: the constraints of the schema under every operation
  and every failure of the driver, what a merge leaves behind, how a candidate moves between its states, how
  redirects are followed, and that following the cursor of the review pages visits every candidate once.
\<close>

subsection \<open>The constraints of the schema\<close>

definition references_ok :: "(string \<Rightarrow> bool) \<Rightarrow> (string \<times> string) list \<Rightarrow> bool" where
  "references_ok known rows \<longleftrightarrow> distinct (map fst rows) \<and> (\<forall>r \<in> set rows. known (snd r))"

definition devices_ok :: "device list \<Rightarrow> bool" where
  "devices_ok rows \<longleftrightarrow> distinct (map pdid rows) \<and> distinct (map device_id rows)"

definition ids_ok :: "('r \<Rightarrow> nat) \<Rightarrow> nat \<Rightarrow> 'r list \<Rightarrow> bool" where
  "ids_ok rid n rows \<longleftrightarrow> distinct (map rid rows) \<and> (\<forall>r \<in> set rows. rid r < n)"

definition dis_db_ok :: "dis_db \<Rightarrow> bool" where
  "dis_db_ok db \<longleftrightarrow> devices_ok (dd_devices db) \<and> references_ok (known_pdid db) (dd_macs db)
     \<and> references_ok (known_pdid db) (dd_ips db) \<and> references_ok (known_pdid db) (dd_owners db)
     \<and> ids_ok al_id (dd_alias_seq db) (dd_aliases db) \<and> distinct (map al_unique (dd_aliases db))
     \<and> ids_ok ev_id (dd_evidence_seq db) (dd_evidence db)
     \<and> ids_ok cd_id (dd_candidate_seq db) (dd_candidates db) \<and> distinct (map cd_pair (dd_candidates db))"

lemma known_pdid_updates [simp]:
  "known_pdid (db\<lparr>dd_macs := a\<rparr>) = known_pdid db" "known_pdid (db\<lparr>dd_ips := a\<rparr>) = known_pdid db"
  "known_pdid (db\<lparr>dd_owners := a\<rparr>) = known_pdid db" "known_pdid (db\<lparr>dd_pending := b\<rparr>) = known_pdid db"
  "known_pdid (db\<lparr>dd_aliases := c\<rparr>) = known_pdid db" "known_pdid (db\<lparr>dd_evidence := d\<rparr>) = known_pdid db"
  "known_pdid (db\<lparr>dd_candidates := e\<rparr>) = known_pdid db" "known_pdid (db\<lparr>dd_redirects := f\<rparr>) = known_pdid db"
  "known_pdid (db\<lparr>dd_alias_seq := n\<rparr>) = known_pdid db" "known_pdid (db\<lparr>dd_evidence_seq := n\<rparr>) = known_pdid db"
  "known_pdid (db\<lparr>dd_candidate_seq := n\<rparr>) = known_pdid db"
  "known_pdid (db\<lparr>dd_devices := filter (\<lambda>r. pdid r \<noteq> p) (dd_devices db)\<rparr>) q \<longleftrightarrow> known_pdid db q \<and> q \<noteq> p"
  by (auto simp: known_pdid_def fun_eq_iff)

lemma references_filter: "references_ok kn rows \<Longrightarrow> references_ok kn (filter P rows)"
  by (auto simp: references_ok_def distinct_map_filter)

lemma references_insert: "references_ok kn rows \<Longrightarrow> kn p \<Longrightarrow> references_ok kn (insert_address p a rows)"
  by (auto simp: references_ok_def insert_address_def)

lemma references_retarget:
  "references_ok kn rows \<Longrightarrow> kn new \<or> addresses_of old rows = [] \<Longrightarrow>
   references_ok kn (retarget_addresses old new rows)"
  by (fastforce simp: references_ok_def retarget_addresses_def addresses_of_def case_prod_beta o_def
      filter_empty_conv)

lemma snd_in_update: "(a, b) \<in> set (AList.update h p rows) \<Longrightarrow> b = p \<or> (a, b) \<in> set rows"
  by (induction rows) (auto split: if_splits)

lemma references_update: "references_ok kn rows \<Longrightarrow> kn p \<Longrightarrow> references_ok kn (AList.update h p rows)"
  by (fastforce simp: references_ok_def distinct_update dest: snd_in_update)

lemma references_devices:
  "references_ok kn rows \<Longrightarrow> (\<And>q. kn q \<Longrightarrow> kn' q) \<Longrightarrow> references_ok kn' rows"
  by (auto simp: references_ok_def)

lemma references_cascade:
  "references_ok kn rows \<Longrightarrow> (\<And>q. kn q \<Longrightarrow> q \<noteq> p \<Longrightarrow> kn' q) \<Longrightarrow>
   references_ok kn' (filter (\<lambda>r. snd r \<noteq> p) rows)"
  by (auto simp: references_ok_def distinct_map_filter)

lemma ids_filter: "ids_ok rid n rows \<Longrightarrow> ids_ok rid n (filter P rows)"
  by (auto simp: ids_ok_def distinct_map_filter)

lemma ids_map: "ids_ok rid n rows \<Longrightarrow> (\<And>r. rid (f r) = rid r) \<Longrightarrow> ids_ok rid n (map f rows)"
  by (auto simp: ids_ok_def o_def)

lemma keys_upsert:
  assumes "\<And>x. key x = key r \<Longrightarrow> key (upd x r) = key r"
  shows "key ` set (upsert_row key upd r rows) = insert (key r) (key ` set rows)"
proof (cases "\<exists>x \<in> set rows. key x = key r")
  case True
  then have "map key (upsert_row key upd r rows) = map key rows"
    using assms by (auto simp: upsert_row_def)
  with True show ?thesis by (metis image_set insert_absorb imageI)
qed (auto simp: upsert_row_def)

lemma known_pdid_alt: "known_pdid db q \<longleftrightarrow> q \<in> pdid ` set (dd_devices db)"
  by (auto simp: known_pdid_def)

lemma devices_upsert:
  assumes ok: "devices_ok rows" and i: "\<And>r. r \<in> set rows \<Longrightarrow> device_id r = device_id d \<Longrightarrow> pdid r = pdid d"
  shows "devices_ok (upsert_row pdid updated_row (device_row d) rows)" (is "devices_ok ?rows")
proof -
  have [simp]: "pdid (device_row d) = pdid d" "device_id (device_row d) = device_id d"
    "pdid (updated_row r x) = pdid x" "device_id (updated_row r x) = device_id x" for r x
    by (simp_all add: device_row_def updated_row_def)
  have p: "distinct (map pdid ?rows)"
    using ok by (auto simp: devices_ok_def intro!: distinct_upsert_row)
  have src: "x \<in> set ?rows \<Longrightarrow> (x \<in> set rows \<and> pdid x \<noteq> pdid d) \<or> (pdid x = pdid d \<and> device_id x = device_id d)" for x
    by (auto simp: upsert_row_def split: if_splits)
  have inj: "x \<in> set rows \<Longrightarrow> y \<in> set rows \<Longrightarrow> device_id x = device_id y \<Longrightarrow> x = y" for x y
    using ok by (auto simp: devices_ok_def distinct_map inj_on_def)
  have "inj_on device_id (set ?rows)"
  proof (rule inj_onI)
    fix x y assume x: "x \<in> set ?rows" and y: "y \<in> set ?rows" and e: "device_id x = device_id y"
    have "pdid x = pdid y" using src [OF x] src [OF y] inj i e by metis
    with p x y show "x = y" by (auto simp: distinct_map inj_on_def)
  qed
  moreover have "distinct ?rows" using p by (simp add: distinct_map)
  ultimately show ?thesis using p by (simp add: devices_ok_def distinct_map)
qed

lemma known_upsert:
  "known_pdid (db\<lparr>dd_devices := upsert_row pdid updated_row (device_row d) (dd_devices db)\<rparr>) q
     \<longleftrightarrow> known_pdid db q \<or> q = pdid d"
  by (auto simp: known_pdid_alt keys_upsert device_row_def updated_row_def)

lemma device_statement_keeps:
  assumes "dis_db_ok db" "upsert_device_row d db = Inr db'"
  shows "dis_db_ok db'"
proof -
  have d': "db' = db\<lparr>dd_devices := upsert_row pdid updated_row (device_row d) (dd_devices db)\<rparr>"
    and i: "\<And>r. r \<in> set (dd_devices db) \<Longrightarrow> device_id r = device_id d \<Longrightarrow> pdid r = pdid d"
    using assms(2) by (auto simp: upsert_device_row_def split: if_splits)
  have "references_ok (known_pdid db) rows \<Longrightarrow> references_ok (known_pdid db') rows" for rows
    by (erule references_devices) (simp add: d' known_upsert)
  then show ?thesis using assms(1) devices_upsert [OF _ i] by (simp add: dis_db_ok_def d')
qed

lemmas references_intros = references_filter references_insert references_retarget references_update

lemmas address_defs = insert_mac_def insert_ip_def put_owner_def drop_macs_of_def drop_ips_of_def
  drop_owners_of_def remove_owner_def drop_pending_of_def put_pending_def remove_pending_def
  retarget_pending_def put_redirect_def delete_address_def retarget_table_def

lemma address_statement_keeps:
  assumes ok: "dis_db_ok db"
  shows "insert_mac p a db = Inr db' \<Longrightarrow> dis_db_ok db'" "insert_ip p a db = Inr db' \<Longrightarrow> dis_db_ok db'"
    "put_owner h p db = Inr db' \<Longrightarrow> dis_db_ok db'" "drop_macs_of p db = Inr db' \<Longrightarrow> dis_db_ok db'"
    "drop_ips_of p db = Inr db' \<Longrightarrow> dis_db_ok db'" "drop_owners_of p db = Inr db' \<Longrightarrow> dis_db_ok db'"
    "remove_owner h db = Inr db' \<Longrightarrow> dis_db_ok db'" "drop_pending_of p db = Inr db' \<Longrightarrow> dis_db_ok db'"
    "put_pending r db = Inr db' \<Longrightarrow> dis_db_ok db'" "remove_pending k db = Inr db' \<Longrightarrow> dis_db_ok db'"
    "retarget_pending old new db = Inr db' \<Longrightarrow> dis_db_ok db'" "put_redirect old new db = Inr db' \<Longrightarrow> dis_db_ok db'"
    "Inr (db\<lparr>dd_macs := delete_address p a (dd_macs db)\<rparr>) = Inr db' \<Longrightarrow> dis_db_ok db'"
    "Inr (db\<lparr>dd_ips := delete_address p a (dd_ips db)\<rparr>) = Inr db' \<Longrightarrow> dis_db_ok db'"
    "retarget_table old new dd_macs (\<lambda>db. db\<lparr>dd_macs := retarget_addresses old new (dd_macs db)\<rparr>) db = Inr db' \<Longrightarrow> dis_db_ok db'"
    "retarget_table old new dd_ips (\<lambda>db. db\<lparr>dd_ips := retarget_addresses old new (dd_ips db)\<rparr>) db = Inr db' \<Longrightarrow> dis_db_ok db'"
    "retarget_table old new dd_owners (\<lambda>db. db\<lparr>dd_owners := retarget_addresses old new (dd_owners db)\<rparr>) db = Inr db' \<Longrightarrow> dis_db_ok db'"
  using ok by (simp_all add: address_defs dis_db_ok_def split: if_split_asm; force simp: references_intros)+

lemma delete_statement_keeps:
  assumes "dis_db_ok db" "delete_device_row p db = Inr db'" shows "dis_db_ok db'"
proof (cases "known_pdid db p")
  case True
  then have d': "db' = db\<lparr>dd_devices := filter (\<lambda>r. pdid r \<noteq> p) (dd_devices db), dd_macs := filter (\<lambda>r. snd r \<noteq> p) (dd_macs db),
      dd_ips := filter (\<lambda>r. snd r \<noteq> p) (dd_ips db), dd_owners := filter (\<lambda>r. snd r \<noteq> p) (dd_owners db)\<rparr>"
    using assms(2) by (simp add: delete_device_row_def)
  have "references_ok (known_pdid db) rows \<Longrightarrow> references_ok (known_pdid db') (filter (\<lambda>r. snd r \<noteq> p) rows)" for rows
    by (rule references_cascade) (simp_all add: d')
  then show ?thesis using assms(1) by (simp add: dis_db_ok_def d' devices_ok_def distinct_map_filter)
qed (use assms in \<open>simp add: delete_device_row_def\<close>)


subsection \<open>Every operation keeps the constraints\<close>

lemma keeps_device_statements [db_inv]:
  "keeps dis_db_ok (exec (upsert_device_row d))" "keeps dis_db_ok (exec (delete_device_row p))"
  by (rule keeps_exec, erule (1) device_statement_keeps delete_statement_keeps)+

lemma keeps_address_statement [db_inv]:
  "keeps dis_db_ok (exec (insert_mac p a))" "keeps dis_db_ok (exec (insert_ip p a))"
  "keeps dis_db_ok (exec (put_owner h p))" "keeps dis_db_ok (exec (drop_macs_of p))"
  "keeps dis_db_ok (exec (drop_ips_of p))" "keeps dis_db_ok (exec (drop_owners_of p))"
  "keeps dis_db_ok (exec (remove_owner h))" "keeps dis_db_ok (exec (drop_pending_of p))"
  "keeps dis_db_ok (exec (put_pending r))" "keeps dis_db_ok (exec (remove_pending k))"
  "keeps dis_db_ok (exec (retarget_pending old new))" "keeps dis_db_ok (exec (put_redirect old new))"
  "keeps dis_db_ok (exec (\<lambda>db. Inr (db\<lparr>dd_macs := delete_address p a (dd_macs db)\<rparr>)))"
  "keeps dis_db_ok (exec (\<lambda>db. Inr (db\<lparr>dd_ips := delete_address p a (dd_ips db)\<rparr>)))"
  "keeps dis_db_ok (exec (retarget_table old new dd_macs (\<lambda>db. db\<lparr>dd_macs := retarget_addresses old new (dd_macs db)\<rparr>)))"
  "keeps dis_db_ok (exec (retarget_table old new dd_ips (\<lambda>db. db\<lparr>dd_ips := retarget_addresses old new (dd_ips db)\<rparr>)))"
  "keeps dis_db_ok (exec (retarget_table old new dd_owners (\<lambda>db. db\<lparr>dd_owners := retarget_addresses old new (dd_owners db)\<rparr>)))"
  by (rule keeps_exec, erule (1) address_statement_keeps)+

lemma keeps_if [db_inv]: "(b \<Longrightarrow> keeps P m) \<Longrightarrow> (\<not> b \<Longrightarrow> keeps P k) \<Longrightarrow> keeps P (if b then m else k)"
  by simp

lemma keeps_sync:
  assumes "\<And>a. keeps P (exec (ins p a))" "\<And>a. keeps P (exec (del p a))"
  shows "keeps P (sync_addresses table ins del ord p wanted)"
  unfolding sync_addresses_def Let_def by (intro db_inv assms)

lemma keeps_case_option [db_inv]:
  "keeps P m \<Longrightarrow> (\<And>x. keeps P (f x)) \<Longrightarrow> keeps P (case r of None \<Rightarrow> m | Some x \<Rightarrow> f x)"
  by (cases r) simp_all

lemma keeps_case_prod [db_inv]: "(\<And>x y. keeps P (f x y)) \<Longrightarrow> keeps P (case r of (x, y) \<Rightarrow> f x y)"
  by (cases r) simp

lemma keeps_save_device_tx [db_inv]: "keeps dis_db_ok (save_device_tx rnd ord d)"
  unfolding save_device_tx_def by (intro db_inv keeps_sync)

lemma ids_snoc: "ids_ok rid n rows \<Longrightarrow> rid r = n \<Longrightarrow> ids_ok rid (Suc n) (rows @ [r])"
  by (fastforce simp: ids_ok_def)

lemma alias_statement_keeps:
  assumes ok: "dis_db_ok db"
  shows "reinforce_alias i a db = Inr db' \<Longrightarrow> dis_db_ok db'"
    "insert_alias a db = Inr db' \<Longrightarrow> dis_db_ok db'"
    "absorb_aliases src tgt db = Inr db' \<Longrightarrow> dis_db_ok db'"
    "drop_absorbed src tgt db = Inr db' \<Longrightarrow> dis_db_ok db'"
    "move_aliases src tgt db = Inr db' \<Longrightarrow> dis_db_ok db'"
    "split_alias now old new h db = Inr db' \<Longrightarrow> dis_db_ok db'"
    "move_evidence src tgt db = Inr db' \<Longrightarrow> dis_db_ok db'"
    "insert_evidence e db = Inr db' \<Longrightarrow> dis_db_ok db'"
proof -
  have al: "dis_db_ok (db\<lparr>dd_aliases := rows\<rparr>)"
    if "ids_ok al_id (dd_alias_seq db) rows" "distinct (map al_unique rows)" for rows
    using ok that by (simp add: dis_db_ok_def)
  have ev: "dis_db_ok (db\<lparr>dd_evidence := rows\<rparr>)" if "ids_ok ev_id (dd_evidence_seq db) rows" for rows
    using ok that by (simp add: dis_db_ok_def)
  note ids = ok [unfolded dis_db_ok_def]
  have same: "dis_db_ok (db\<lparr>dd_aliases := map f (dd_aliases db)\<rparr>)"
    if "\<And>a. al_id (f a) = al_id a" "distinct (map al_unique (map f (dd_aliases db)))" for f
    using ids that by (intro al ids_map) auto
  have keyed: "dis_db_ok (db\<lparr>dd_aliases := map f (dd_aliases db)\<rparr>)"
    if "\<And>a. al_id (f a) = al_id a" "\<And>a. al_unique (f a) = al_unique a" for f
    using ids that by (intro same) (auto simp: o_def)
  show "reinforce_alias i a db = Inr db' \<Longrightarrow> dis_db_ok db'"
    by (auto simp: reinforce_alias_def al_unique_def al_key_def intro!: keyed)
  show "absorb_aliases src tgt db = Inr db' \<Longrightarrow> dis_db_ok db'"
    by (auto simp: absorb_aliases_def absorbed_alias_def al_unique_def al_key_def split: option.split intro!: keyed)
  show "drop_absorbed src tgt db = Inr db' \<Longrightarrow> dis_db_ok db'"
    using ids by (auto simp: drop_absorbed_def intro!: al ids_filter distinct_map_filter)
  have update: "update_aliases f db = Inr db' \<Longrightarrow> (\<And>a. al_id (f a) = al_id a) \<Longrightarrow> dis_db_ok db'" for f
    by (auto simp: update_aliases_def Let_def simp del: map_map split: if_splits intro!: same)
  show "move_aliases src tgt db = Inr db' \<Longrightarrow> dis_db_ok db'"
    unfolding move_aliases_def by (erule update) simp
  show "split_alias now old new h db = Inr db' \<Longrightarrow> dis_db_ok db'"
    unfolding split_alias_def by (erule update) simp
  show "move_evidence src tgt db = Inr db' \<Longrightarrow> dis_db_ok db'"
    using ids by (auto simp: move_evidence_def intro!: ev ids_map)
  show "insert_evidence e db = Inr db' \<Longrightarrow> dis_db_ok db'"
    using ids by (auto simp: insert_evidence_def dis_db_ok_def intro!: ids_snoc)
  show "insert_alias a db = Inr db' \<Longrightarrow> dis_db_ok db'"
    using ids by (auto simp: insert_alias_def dis_db_ok_def al_unique_def al_key_def split: if_splits intro!: ids_snoc)
qed

lemma keeps_alias_statement [db_inv]:
  "keeps dis_db_ok (exec (reinforce_alias i a))" "keeps dis_db_ok (exec (insert_alias a))"
  "keeps dis_db_ok (exec (absorb_aliases src tgt))" "keeps dis_db_ok (exec (drop_absorbed src tgt))"
  "keeps dis_db_ok (exec (move_aliases src tgt))" "keeps dis_db_ok (exec (split_alias now src tgt h))"
  "keeps dis_db_ok (exec (move_evidence src tgt))" "keeps dis_db_ok (exec (insert_evidence e))"
  by (rule keeps_exec, erule (1) alias_statement_keeps)+

lemma candidates_keep:
  assumes "dis_db_ok db" "\<And>r. cd_id (f r) = cd_id r" "\<And>r. cd_pair (f r) = cd_pair r"
  shows "dis_db_ok (db\<lparr>dd_candidates := map f (dd_candidates db)\<rparr>)"
  using assms by (auto simp: dis_db_ok_def o_def intro: ids_map)

lemma cd_pair_updates [simp]:
  "cd_pair (c\<lparr>cd_id := i\<rparr>) = cd_pair c"
  "cd_pair (c\<lparr>cd_probability := p, cd_ambiguous := b, cd_factors := fs, cd_updated := u\<rparr>) = cd_pair c"
  by (simp_all add: cd_pair_def)

lemma aliases_keep:
  assumes "dis_db_ok db" "\<And>r. al_id (f r) = al_id r" "\<And>r. al_unique (f r) = al_unique r"
  shows "dis_db_ok (db\<lparr>dd_aliases := map f (dd_aliases db)\<rparr>)"
  using assms by (auto simp: dis_db_ok_def o_def intro: ids_map)

lemma keeps_counting_statement [db_inv]:
  "keeps dis_db_ok (exec_counting (revoke_alias_row now p i))"
  "keeps dis_db_ok (exec_counting (put_candidate c))"
  "keeps dis_db_ok (exec_counting (transition i status (decided now st src note amb)))"
proof -
  show "keeps dis_db_ok (exec_counting (revoke_alias_row now p i))"
    by (rule keeps_exec_counting)
      (auto simp: revoke_alias_row_def Let_def al_unique_def al_key_def intro!: aliases_keep)
  show "keeps dis_db_ok (exec_counting (transition i status (decided now st src note amb)))"
    by (rule keeps_exec_counting)
      (auto simp: transition_def Let_def decided_def cd_pair_def intro!: candidates_keep)
  show "keeps dis_db_ok (exec_counting (put_candidate c))"
  proof (rule keeps_exec_counting)
    fix db assume ok: "dis_db_ok db"
    show "dis_db_ok (snd (put_candidate c db))"
    proof (cases "find (\<lambda>r. cd_pair r = cd_pair c) (dd_candidates db)")
      case None
      then have "\<forall>r \<in> set (dd_candidates db). cd_pair r \<noteq> cd_pair c" by (auto simp: find_None_iff)
      with ok None show ?thesis by (auto simp: put_candidate_def dis_db_ok_def intro!: ids_snoc)
    next
      case (Some r)
      with ok show ?thesis by (auto simp: put_candidate_def intro!: candidates_keep)
    qed
  qed
qed


lemma keeps_resolve [db_inv]: "keeps P (resolve_hops k seen p)"
  by (induction k arbitrary: seen p) (auto intro!: db_inv)

lemma device_operations_keep:
  "keeps dis_db_ok (save_device rnd ord d)" "keeps dis_db_ok (save_devices_batch rnd ord ds)"
  "keeps dis_db_ok (delete_stored_device p)" "keeps dis_db_ok (replace_device_pdid rnd ord p q d)"
  "keeps dis_db_ok (save_hostname_owner h p)" "keeps dis_db_ok (delete_hostname_owner h)"
  "keeps dis_db_ok (delete_pending_events_batch ks)"
  unfolding save_device_def save_devices_batch_def delete_stored_device_def replace_device_pdid_def
    save_hostname_owner_def delete_hostname_owner_def delete_pending_events_batch_def
  by (intro db_inv)+

lemma identity_operations_keep:
  "keeps dis_db_ok (upsert_identity_alias now a)" "keeps dis_db_ok (revoke_identity_alias now p i)"
  "keeps dis_db_ok (save_identity_evidence now e)" "keeps dis_db_ok (upsert_identity_candidate now c)"
  "keeps dis_db_ok (decide_identity_candidate now i st src notes)"
  "keeps dis_db_ok (reopen_identity_candidate now i src note)"
  "keeps dis_db_ok (merge_devices rnd ord d1 d2)" "keeps dis_db_ok (confirm_candidate_merge rnd ord now i d1 d2 note)"
  "keeps dis_db_ok (split_device rnd ord now d1 d2 h)"
  unfolding upsert_identity_alias_def revoke_identity_alias_def save_identity_evidence_def
    upsert_identity_candidate_def decide_identity_candidate_def reopen_identity_candidate_def
    merge_devices_def merge_devices_tx_def confirm_candidate_merge_def split_device_def Let_def
  by (intro db_inv)+


subsection \<open>Redirects\<close>

fun follow :: "(string \<rightharpoonup> string) \<Rightarrow> nat \<Rightarrow> string \<Rightarrow> string option" where
  "follow R 0 p = Some p"
| "follow R (Suc n) p = (case R p of None \<Rightarrow> None | Some q \<Rightarrow> follow R n q)"

lemma follow_add: "follow R (m + n) p = Option.bind (follow R m p) (follow R n)"
  by (induction m arbitrary: p) (auto split: option.split)

lemma cycle_never_ends:
  assumes c: "follow R (Suc c) p = Some p" and e: "R q = None"
  shows "follow R m p \<noteq> Some q"
proof (induction m rule: less_induct)
  case (less m)
  show ?case
  proof (cases "m \<le> c")
    case True
    show ?thesis
    proof
      assume "follow R m p = Some q"
      then have "follow R (m + Suc (c - m)) p = None" using e by (simp only: follow_add) simp
      then show False using c True by simp
    qed
  next
    case False
    then have "follow R m p = follow R (m - Suc c) p" using follow_add [of R "Suc c" "m - Suc c" p] c by simp
    then show ?thesis using less [of "m - Suc c"] False by simp
  qed
qed

lemma resolve_hops_exact:
  assumes "\<And>s. s \<in> seen \<Longrightarrow> \<exists>c. follow (dd_redirects db) c s = Some p"
  shows "\<exists>r n'. resolve_hops k seen p healthy (n, db) = (r, n', db)
    \<and> (r = Inr q \<longleftrightarrow> (\<exists>i < k. follow (dd_redirects db) i p = Some q \<and> dd_redirects db q = None))"
  using assms
proof (induction k arbitrary: seen p n)
  case 0
  then show ?case by (simp add: fail_io_def)
next
  case (Suc k)
  let ?R = "dd_redirects db"
  have unfold: "(\<exists>i < Suc k. follow ?R i p = Some q \<and> ?R q = None)
      \<longleftrightarrow> (p = q \<and> ?R q = None) \<or> (\<exists>i < k. follow ?R (Suc i) p = Some q \<and> ?R q = None)"
    by (auto simp: less_Suc_eq_0_disj)
  show ?case
  proof (cases "?R p")
    case None
    then show ?thesis unfolding unfold by (auto simp: bind_io_def query_healthy return_io_def)
  next
    case (Some nxt)
    show ?thesis
    proof (cases "nxt \<in> seen")
      case True
      then obtain c where "follow ?R c nxt = Some p" using Suc.prems by blast
      then have "follow ?R (Suc c) p = Some p" using Some by simp
      from cycle_never_ends [OF this] have "\<not> (\<exists>i < Suc k. follow ?R i p = Some q \<and> ?R q = None)" by blast
      then show ?thesis using True Some by (simp add: bind_io_def query_healthy fail_io_def)
    next
      case False
      have h: "\<exists>c. follow ?R c s = Some nxt" if "s \<in> insert nxt seen" for s
      proof (cases "s = nxt")
        case True
        then show ?thesis by (metis follow.simps(1))
      next
        case False
        with that Suc.prems obtain c where "follow ?R c s = Some p" by blast
        then have "follow ?R (c + 1) s = Some nxt" using Some by (simp only: follow_add) simp
        then show ?thesis by blast
      qed
      have "(\<exists>i < Suc k. follow ?R i p = Some q \<and> ?R q = None)
          \<longleftrightarrow> (\<exists>i < k. follow ?R i nxt = Some q \<and> ?R q = None)"
        unfolding unfold using Some by auto
      with Suc.IH [of "insert nxt seen" nxt "Suc n", OF h] show ?thesis
        using False Some by (simp add: bind_io_def query_healthy)
    qed
  qed
qed

text \<open>C22: Resolving a PDID ends after at most eight look-ups, changes nothing, and returns exactly the end of the
  chain of redirects that starts there, if the chain has at most seven; a cycle or a longer chain is an
  error, so what comes back is never itself redirected.\<close>

theorem resolve_pdid_exact:
  "\<exists>r. runs (resolve_stored_pdid p) db = (r, db)
    \<and> (r = Inr q \<longleftrightarrow> (\<exists>i < 8. follow (dd_redirects db) i p = Some q \<and> dd_redirects db q = None))"
proof -
  obtain r n' where "resolve_hops 8 {p} p healthy (0, db) = (r, n', db)"
    "r = Inr q \<longleftrightarrow> (\<exists>i < 8. follow (dd_redirects db) i p = Some q \<and> dd_redirects db q = None)"
    using resolve_hops_exact [of "{p}" db p 8 0 q] by (metis follow.simps(1) singletonD)
  then show ?thesis by (auto simp: runs_def resolve_stored_pdid_def)
qed


subsection \<open>What a merge leaves behind\<close>

text \<open>The tables outside the rows of the device \<open>p\<close>.\<close>

definition others_kept :: "string \<Rightarrow> dis_db \<Rightarrow> dis_db \<Rightarrow> bool" where
  "others_kept p db db' \<longleftrightarrow>
     filter (\<lambda>r. pdid r \<noteq> p) (dd_devices db') = filter (\<lambda>r. pdid r \<noteq> p) (dd_devices db)
   \<and> filter (\<lambda>r. snd r \<noteq> p) (dd_macs db') = filter (\<lambda>r. snd r \<noteq> p) (dd_macs db)
   \<and> filter (\<lambda>r. snd r \<noteq> p) (dd_ips db') = filter (\<lambda>r. snd r \<noteq> p) (dd_ips db)
   \<and> dd_owners db' = dd_owners db \<and> dd_pending db' = dd_pending db \<and> dd_aliases db' = dd_aliases db
   \<and> dd_evidence db' = dd_evidence db \<and> dd_candidates db' = dd_candidates db \<and> dd_redirects db' = dd_redirects db"

lemma others_kept_refl: "others_kept p db db"
  by (simp add: others_kept_def)

lemma filter_map_same: "(\<And>x. P (f x) \<longleftrightarrow> P x) \<Longrightarrow> (\<And>x. P x \<Longrightarrow> f x = x) \<Longrightarrow> filter P (map f xs) = filter P xs"
  by (induction xs) auto

lemma filter_upsert_other:
  "\<lbrakk>\<And>x. key (upd x r) = key r\<rbrakk> \<Longrightarrow> filter (\<lambda>x. key x \<noteq> key r) (upsert_row key upd r rows) = filter (\<lambda>x. key x \<noteq> key r) rows"
  by (auto simp: upsert_row_def intro!: filter_map_same)

lemma keeps_others [db_inv]:
  "keeps (others_kept (pdid d) db0) (exec (upsert_device_row d))"
  "keeps (others_kept p db0) (exec (insert_mac p a))" "keeps (others_kept p db0) (exec (insert_ip p a))"
  "keeps (others_kept p db0) (exec (\<lambda>db. Inr (db\<lparr>dd_macs := delete_address p a (dd_macs db)\<rparr>)))"
  "keeps (others_kept p db0) (exec (\<lambda>db. Inr (db\<lparr>dd_ips := delete_address p a (dd_ips db)\<rparr>)))"
proof -
  have "filter (\<lambda>r. pdid r \<noteq> pdid d) (upsert_row pdid updated_row (device_row d) rows)
      = filter (\<lambda>r. pdid r \<noteq> pdid d) rows" for rows
    using filter_upsert_other [of pdid updated_row "device_row d" rows]
    by (simp add: device_row_def updated_row_def)
  then show "keeps (others_kept (pdid d) db0) (exec (upsert_device_row d))"
    by (intro keeps_exec) (auto simp: others_kept_def upsert_device_row_def split: if_splits)
  have ins: "filter (\<lambda>r. snd r \<noteq> p) (insert_address p a rows) = filter (\<lambda>r. snd r \<noteq> p) rows" for rows
    by (simp add: insert_address_def)
  then show "keeps (others_kept p db0) (exec (insert_mac p a))" "keeps (others_kept p db0) (exec (insert_ip p a))"
    by (auto intro!: keeps_exec simp: others_kept_def insert_mac_def insert_ip_def split: if_splits)
  have "filter (\<lambda>r. snd r \<noteq> p) (delete_address p a rows) = filter (\<lambda>r. snd r \<noteq> p) rows" for rows
    by (auto simp: delete_address_def intro!: filter_cong)
  then show "keeps (others_kept p db0) (exec (\<lambda>db. Inr (db\<lparr>dd_macs := delete_address p a (dd_macs db)\<rparr>)))"
    "keeps (others_kept p db0) (exec (\<lambda>db. Inr (db\<lparr>dd_ips := delete_address p a (dd_ips db)\<rparr>)))"
    by (auto intro!: keeps_exec simp: others_kept_def)
qed

lemma keeps_bind_value:
  "keeps P m \<Longrightarrow> (\<And>x out n db s. m out (n, db) = (Inr x, s) \<Longrightarrow> keeps P (f x)) \<Longrightarrow> keeps P (bind_io m f)"
  unfolding keeps_def bind_io_def by (simp split: prod.split sum.split) (metis snd_conv)

lemma saved_device_id:
  assumes "(if device_id d \<noteq> [] then return_io d
     else (case new_permanent_identity (rnd (pdid d)) of
         None \<Rightarrow> fail_io NoEntropy | Some (i, _) \<Rightarrow> return_io (d\<lparr>device_id := i\<rparr>))) out s = (Inr x, s')"
  shows "pdid x = pdid d" "macs x = macs d" "ips x = ips d" "device_id d \<noteq> [] \<Longrightarrow> x = d" "s' = s"
  using assms by (auto simp: return_io_def fail_io_def split: if_splits option.splits)

lemma save_tx_keeps_others: "keeps (others_kept (pdid d) db0) (save_device_tx rnd ord d)"
proof (unfold save_device_tx_def, rule keeps_if [OF keeps_return], rule keeps_bind_value, goal_cases)
  case 1
  show ?case by (intro db_inv)
next
  case (2 x out n db s)
  then have "pdid d = pdid x" using saved_device_id(1) by (metis prod.collapse)
  then show ?case by (simp only:) (intro db_inv keeps_sync)
qed

lemma known_pdid_statements [db_inv]:
  "keeps (\<lambda>db. known_pdid db p) (exec (insert_mac q a))" "keeps (\<lambda>db. known_pdid db p) (exec (insert_ip q a))"
  "keeps (\<lambda>db. known_pdid db p) (exec (\<lambda>db. Inr (db\<lparr>dd_macs := delete_address q a (dd_macs db)\<rparr>)))"
  "keeps (\<lambda>db. known_pdid db p) (exec (\<lambda>db. Inr (db\<lparr>dd_ips := delete_address q a (dd_ips db)\<rparr>)))"
  by (auto intro!: keeps_exec simp: insert_mac_def insert_ip_def split: if_splits)

text \<open>A device that was saved is known.\<close>

lemma save_tx_succeeds:
  assumes "save_device_tx rnd ord d out (n, db) = (Inr t, n', db')" "pdid d \<noteq> []"
  shows "pdid t = pdid d" "device_id d \<noteq> [] \<Longrightarrow> t = d" "known_pdid db' (pdid d)" "others_kept (pdid d) db db'"
proof -
  from assms obtain x s1 where x: "(if device_id d \<noteq> [] then return_io d
     else (case new_permanent_identity (rnd (pdid d)) of
         None \<Rightarrow> fail_io NoEntropy | Some (i, _) \<Rightarrow> return_io (d\<lparr>device_id := i\<rparr>))) out (n, db) = (Inr x, s1)"
    and r: "then_io (exec (upsert_device_row x))
          (then_io (sync_addresses dd_macs insert_mac (\<lambda>p a db. Inr (db\<lparr>dd_macs := delete_address p a (dd_macs db)\<rparr>))
                      ord (pdid x) (macs x))
            (then_io (sync_addresses dd_ips insert_ip (\<lambda>p a db. Inr (db\<lparr>dd_ips := delete_address p a (dd_ips db)\<rparr>))
                        ord (pdid x) (ips x))
              (return_io x))) out s1 = (Inr t, n', db')"
    unfolding save_device_tx_def by (auto elim!: bind_succeeds simp del: if_split)
  note xs = saved_device_id [of d rnd out "(n, db)" x s1, OF x]
  from r obtain n2 db2 where u: "upsert_device_row x db = Inr db2"
    and r2: "then_io (sync_addresses dd_macs insert_mac (\<lambda>p a db. Inr (db\<lparr>dd_macs := delete_address p a (dd_macs db)\<rparr>))
                      ord (pdid x) (macs x))
            (then_io (sync_addresses dd_ips insert_ip (\<lambda>p a db. Inr (db\<lparr>dd_ips := delete_address p a (dd_ips db)\<rparr>))
                        ord (pdid x) (ips x))
              (return_io x)) out (n2, db2) = (Inr t, n', db')"
    unfolding xs(5) by (rule then_succeeds) (auto simp: exec_succeeds)
  then have "t = x" by (auto elim!: then_succeeds simp: return_io_def)
  with xs show "pdid t = pdid d" "device_id d \<noteq> [] \<Longrightarrow> t = d" by simp_all
  have known: "known_pdid db2 (pdid d)" using u xs(1)
    by (auto simp: upsert_device_row_def known_upsert split: if_splits)
  have kept: "keeps (\<lambda>db. known_pdid db (pdid d)) (then_io (sync_addresses dd_macs insert_mac (\<lambda>p a db. Inr (db\<lparr>dd_macs := delete_address p a (dd_macs db)\<rparr>))
                      ord (pdid x) (macs x))
            (then_io (sync_addresses dd_ips insert_ip (\<lambda>p a db. Inr (db\<lparr>dd_ips := delete_address p a (dd_ips db)\<rparr>))
                        ord (pdid x) (ips x))
              (return_io x)))"
    by (intro db_inv keeps_sync)
  show "known_pdid db' (pdid d)" by (rule keepsD [OF kept known r2])
  show "others_kept (pdid d) db db'"
    using keepsD [OF save_tx_keeps_others others_kept_refl assms(1)] .
qed


lemma alias_of_source:
  assumes ok: "distinct (map al_unique rows)" and a: "a \<in> set rows" "al_device a = src"
    and t: "al_key t = al_key a"
  shows "find (\<lambda>s. al_device s = src \<and> al_key s = al_key t) rows = Some a"
proof (cases "find (\<lambda>s. al_device s = src \<and> al_key s = al_key t) rows")
  case None
  with a t show ?thesis by (auto simp: find_None_iff)
next
  case (Some s)
  then have "s \<in> set rows" "al_unique s = al_unique a"
    using a t by (auto simp: find_Some_iff al_unique_def)
  with ok a(1) have "s = a" by (auto simp: distinct_map inj_on_def)
  with Some show ?thesis by simp
qed

lemma absorbed_alias_simps [simp]:
  "al_device (absorbed_alias src rows t) = al_device t" "al_key (absorbed_alias src rows t) = al_key t"
  "al_type (absorbed_alias src rows t) = al_type t" "al_hash (absorbed_alias src rows t) = al_hash t"
  by (simp_all add: absorbed_alias_def al_key_def split: option.split)

definition stronger :: "alias_row \<Rightarrow> alias_row \<Rightarrow> bool" where
  "stronger b a \<longleftrightarrow> al_key b = al_key a \<and> al_confidence a \<le> al_confidence b
     \<and> (al_verified a \<longrightarrow> al_verified b) \<and> al_last a \<le> al_last b"

definition merged_aliases :: "string \<Rightarrow> string \<Rightarrow> alias_row list \<Rightarrow> alias_row list" where
  "merged_aliases src tgt rows =
     (let rows1 = map (\<lambda>t. if al_device t = tgt then absorbed_alias src rows t else t) rows;
          rows2 = filter (\<lambda>s. \<not> (al_device s = src \<and> (\<exists>t \<in> set rows1. al_device t = tgt \<and> al_key t = al_key s))) rows1
      in map (\<lambda>a. if al_device a = src then a\<lparr>al_device := tgt\<rparr> else a) rows2)"

lemma alias_steps:
  assumes "absorb_aliases src tgt db1 = Inr db2" "drop_absorbed src tgt db2 = Inr db3" "move_aliases src tgt db3 = Inr db4"
  shows "db4 = db1\<lparr>dd_aliases := merged_aliases src tgt (dd_aliases db1)\<rparr>"
proof -
  have "db4 = db3\<lparr>dd_aliases := map (\<lambda>a. if al_device a = src then a\<lparr>al_device := tgt\<rparr> else a) (dd_aliases db3)\<rparr>"
    using assms(3) by (simp add: move_aliases_def update_aliases_def Let_def split: if_split_asm)
  moreover have "db3 = db2\<lparr>dd_aliases := filter (\<lambda>s. \<not> (al_device s = src
     \<and> (\<exists>t \<in> set (dd_aliases db2). al_device t = tgt \<and> al_key t = al_key s))) (dd_aliases db2)\<rparr>"
    using assms(2) unfolding drop_absorbed_def by (simp only: sum.inject)
  moreover have "db2 = db1\<lparr>dd_aliases := map (\<lambda>t. if al_device t = tgt then absorbed_alias src (dd_aliases db1) t else t) (dd_aliases db1)\<rparr>"
    using assms(1) unfolding absorb_aliases_def by (simp only: sum.inject)
  ultimately show ?thesis unfolding merged_aliases_def Let_def by simp
qed

lemma aliases_merged:
  assumes ok: "distinct (map al_unique rows)" and ne: "src \<noteq> tgt"
  shows "\<forall>b \<in> set (merged_aliases src tgt rows). al_device b \<noteq> src"
    "a \<in> set rows \<Longrightarrow> al_device a \<in> {src, tgt} \<Longrightarrow> \<exists>b \<in> set (merged_aliases src tgt rows). al_device b = tgt \<and> stronger b a"
    "filter (\<lambda>a. al_device a \<notin> {src, tgt}) (merged_aliases src tgt rows) = filter (\<lambda>a. al_device a \<notin> {src, tgt}) rows"
proof -
  define rows1 where r1: "rows1 = map (\<lambda>t. if al_device t = tgt then absorbed_alias src rows t else t) rows"
  define rows2 where r2: "rows2 = filter (\<lambda>s. \<not> (al_device s = src \<and> (\<exists>t \<in> set rows1. al_device t = tgt \<and> al_key t = al_key s))) rows1"
  define rows3 where r3: "rows3 = map (\<lambda>a. if al_device a = src then a\<lparr>al_device := tgt\<rparr> else a) rows2"
  have m: "merged_aliases src tgt rows = rows3" unfolding merged_aliases_def Let_def r3 r2 r1 ..
  show "\<forall>b \<in> set (merged_aliases src tgt rows). al_device b \<noteq> src" unfolding m using ne by (auto simp: r3)
  have tgt: "\<exists>b \<in> set rows3. al_device b = tgt \<and> b = absorbed_alias src rows t"
    if "t \<in> set rows" "al_device t = tgt" for t
  proof -
    have "absorbed_alias src rows t \<in> set rows2" using that ne by (force simp: r2 r1)
    then show ?thesis using that ne by (force simp: r3)
  qed
  show "\<exists>b \<in> set (merged_aliases src tgt rows). al_device b = tgt \<and> stronger b a" if a: "a \<in> set rows" "al_device a \<in> {src, tgt}"
  proof (cases "al_device a = tgt")
    case True
    moreover have "stronger (absorbed_alias src rows a) a"
      by (auto simp: stronger_def absorbed_alias_def al_key_def split: option.split)
    ultimately show ?thesis using tgt [OF a(1)] unfolding m by blast
  next
    case False
    then have s: "al_device a = src" using a by simp
    show ?thesis
    proof (cases "\<exists>t \<in> set rows. al_device t = tgt \<and> al_key t = al_key a")
      case True
      then obtain t where t: "t \<in> set rows" "al_device t = tgt" "al_key t = al_key a" by blast
      have "stronger (absorbed_alias src rows t) a"
        using alias_of_source [OF ok a(1) s t(3)] t(3) by (simp add: stronger_def absorbed_alias_def al_key_def)
      with tgt [OF t(1,2)] show ?thesis unfolding m by blast
    next
      case nt: False
      have "a \<in> set rows1" unfolding r1 set_map using a(1) False by (intro image_eqI [of _ _ a]) simp_all
      moreover have "t \<in> set rows1 \<Longrightarrow> al_device t = tgt \<Longrightarrow> al_key t \<noteq> al_key a" for t
      proof -
        assume "t \<in> set rows1" "al_device t = tgt"
        then obtain t0 where t0: "t0 \<in> set rows" "t = (if al_device t0 = tgt then absorbed_alias src rows t0 else t0)"
          unfolding r1 set_map by (elim imageE)
        then have "al_device t0 = al_device t" "al_key t0 = al_key t" by simp_all
        with nt t0(1) \<open>al_device t = tgt\<close> show "al_key t \<noteq> al_key a" by metis
      qed
      ultimately have "a \<in> set rows2" by (auto simp: r2)
      then have "a\<lparr>al_device := tgt\<rparr> \<in> set rows3" unfolding r3 set_map
        by (intro image_eqI [of _ _ a]) (simp_all add: s)
      then show ?thesis unfolding m
        by (intro bexI [of _ "a\<lparr>al_device := tgt\<rparr>"]) (simp_all add: stronger_def al_key_def)
    qed
  qed
  show "filter (\<lambda>a. al_device a \<notin> {src, tgt}) (merged_aliases src tgt rows) = filter (\<lambda>a. al_device a \<notin> {src, tgt}) rows"
  proof -
    have "filter (\<lambda>a. al_device a \<notin> {src, tgt}) rows3 = filter (\<lambda>a. al_device a \<notin> {src, tgt}) rows2"
      unfolding r3 by (rule filter_map_same) auto
    also have "\<dots> = filter (\<lambda>a. al_device a \<notin> {src, tgt}) rows1"
      unfolding r2 filter_filter by (rule filter_cong) auto
    also have "\<dots> = filter (\<lambda>a. al_device a \<notin> {src, tgt}) rows"
      unfolding r1 by (rule filter_map_same) auto
    finally show ?thesis unfolding m .
  qed
qed

lemma merge_tx_succeeds:
  assumes "merge_devices_tx rnd ord source target out (n, db) = (Inr u, n', db')"
  obtains n3 db3 t n4 where
    "save_device_tx rnd ord target out (n3, db\<lparr>dd_macs := filter (\<lambda>r. snd r \<noteq> pdid source) (dd_macs db),
       dd_ips := filter (\<lambda>r. snd r \<noteq> pdid source) (dd_ips db)\<rparr>) = (Inr t, n4, db3)"
    "delete_device_row (pdid source) (db3\<lparr>
       dd_aliases := merged_aliases (device_id source) (device_id t) (dd_aliases db3),
       dd_evidence := map (\<lambda>e. if ev_device e = device_id source then e\<lparr>ev_device := device_id t\<rparr> else e) (dd_evidence db3),
       dd_owners := filter (\<lambda>r. snd r \<noteq> pdid source) (dd_owners db3),
       dd_pending := (\<lambda>k. if fst k = pdid source then None else dd_pending db3 k),
       dd_redirects := (dd_redirects db3)(pdid source \<mapsto> pdid target)\<rparr>) = Inr db'"
proof -
  from assms obtain n3 t n4 db3 db4 db5 db6 db7 db8 db9 db10 where
    save: "save_device_tx rnd ord target out (n3, db\<lparr>dd_macs := filter (\<lambda>r. snd r \<noteq> pdid source) (dd_macs db),
       dd_ips := filter (\<lambda>r. snd r \<noteq> pdid source) (dd_ips db)\<rparr>) = (Inr t, n4, db3)"
    and al: "absorb_aliases (device_id source) (device_id t) db3 = Inr db4"
      "drop_absorbed (device_id source) (device_id t) db4 = Inr db5"
      "move_aliases (device_id source) (device_id t) db5 = Inr db6"
    and rest: "move_evidence (device_id source) (device_id t) db6 = Inr db7" "drop_owners_of (pdid source) db7 = Inr db8"
      "drop_pending_of (pdid source) db8 = Inr db9" "put_redirect (pdid source) (pdid target) db9 = Inr db10"
      "delete_device_row (pdid source) db10 = Inr db'"
    unfolding merge_devices_tx_def Let_def
    by (auto elim!: then_succeeds bind_succeeds simp: exec_succeeds drop_macs_of_def drop_ips_of_def)
  have "db10 = db3\<lparr>
       dd_aliases := merged_aliases (device_id source) (device_id t) (dd_aliases db3),
       dd_evidence := map (\<lambda>e. if ev_device e = device_id source then e\<lparr>ev_device := device_id t\<rparr> else e) (dd_evidence db3),
       dd_owners := filter (\<lambda>r. snd r \<noteq> pdid source) (dd_owners db3),
       dd_pending := (\<lambda>k. if fst k = pdid source then None else dd_pending db3 k),
       dd_redirects := (dd_redirects db3)(pdid source \<mapsto> pdid target)\<rparr>"
    using rest alias_steps [OF al]
    by (auto simp: move_evidence_def drop_owners_of_def drop_pending_of_def put_redirect_def cong: if_cong)
  with save rest(5) show ?thesis using that by simp
qed

lemma others_kept_devices:
  assumes "others_kept q db db'" "p \<noteq> q" shows "known_pdid db' p \<longleftrightarrow> known_pdid db p"
proof -
  have "{r \<in> set (dd_devices db'). pdid r \<noteq> q} = {r \<in> set (dd_devices db). pdid r \<noteq> q}"
    using assms(1) by (metis others_kept_def set_filter)
  with assms(2) show ?thesis by (auto simp: known_pdid_def)
qed

lemma others_kept_rows:
  assumes "others_kept q db db'" "p \<noteq> q"
  shows "(a, p) \<in> set (dd_macs db') \<longleftrightarrow> (a, p) \<in> set (dd_macs db)" "(a, p) \<in> set (dd_ips db') \<longleftrightarrow> (a, p) \<in> set (dd_ips db)"
proof -
  have "{r \<in> set (dd_macs db'). snd r \<noteq> q} = {r \<in> set (dd_macs db). snd r \<noteq> q}"
    "{r \<in> set (dd_ips db'). snd r \<noteq> q} = {r \<in> set (dd_ips db). snd r \<noteq> q}"
    using assms(1) unfolding others_kept_def set_filter [symmetric] by simp_all
  then have "(a, p) \<in> {r \<in> set (dd_macs db'). snd r \<noteq> q} \<longleftrightarrow> (a, p) \<in> {r \<in> set (dd_macs db). snd r \<noteq> q}"
    "(a, p) \<in> {r \<in> set (dd_ips db'). snd r \<noteq> q} \<longleftrightarrow> (a, p) \<in> {r \<in> set (dd_ips db). snd r \<noteq> q}" by (simp_all only:)
  with assms(2) show "(a, p) \<in> set (dd_macs db') \<longleftrightarrow> (a, p) \<in> set (dd_macs db)"
    "(a, p) \<in> set (dd_ips db') \<longleftrightarrow> (a, p) \<in> set (dd_ips db)" by simp_all
qed

lemma not_in_snd: "(\<And>a. (a, p) \<notin> X) \<Longrightarrow> p \<notin> snd ` X"
  by force

lemma deleted_device_row:
  assumes "delete_device_row p db = Inr db'"
  shows "known_pdid db' q \<longleftrightarrow> known_pdid db q \<and> q \<noteq> p"
    "dd_aliases db' = dd_aliases db" "dd_evidence db' = dd_evidence db" "dd_pending db' = dd_pending db"
    "dd_redirects db' = dd_redirects db" "set (dd_macs db') \<subseteq> set (dd_macs db)" "set (dd_ips db') \<subseteq> set (dd_ips db)"
    "set (dd_owners db') \<subseteq> set (dd_owners db)"
  using assms by (auto simp: delete_device_row_def split: if_splits)

text \<open>C23: A merge that is reported as done leaves no trace of the source: its device row, addresses, host names
  and pending events are gone, its PDID is redirected to the target, which is known, its evidence is the
  target's, and every alias of either device is now one of the target's, at least as confident, as verified
  and as recent. The aliases of all other devices are as they were.\<close>

theorem merge_leaves_no_trace:
  assumes ok: "dis_db_ok db" and run: "merge_devices rnd ord source target out (n, db) = (Inr u, n', db')"
    and ids: "device_id target \<noteq> []" "device_id source \<noteq> device_id target"
  shows "\<not> known_pdid db' (pdid source) \<and> known_pdid db' (pdid target)
    \<and> dd_redirects db' = (dd_redirects db)(pdid source \<mapsto> pdid target)
    \<and> pdid source \<notin> snd ` (set (dd_macs db') \<union> set (dd_ips db') \<union> set (dd_owners db'))
    \<and> dd_pending db' = (\<lambda>k. if fst k = pdid source then None else dd_pending db k)
    \<and> dd_evidence db' = map (\<lambda>e. if ev_device e = device_id source then e\<lparr>ev_device := device_id target\<rparr> else e) (dd_evidence db)
    \<and> (\<forall>a \<in> set (dd_aliases db'). al_device a \<noteq> device_id source)
    \<and> (\<forall>a \<in> set (dd_aliases db). al_device a \<in> {device_id source, device_id target} \<longrightarrow>
         (\<exists>b \<in> set (dd_aliases db'). al_device b = device_id target \<and> stronger b a))
    \<and> filter (\<lambda>a. al_device a \<notin> {device_id source, device_id target}) (dd_aliases db')
        = filter (\<lambda>a. al_device a \<notin> {device_id source, device_id target}) (dd_aliases db)"
proof -
  have p: "pdid source \<noteq> []" "pdid target \<noteq> []" "pdid source \<noteq> pdid target"
    using run by (auto simp: merge_devices_def fail_io_def split: if_splits)
  have "transaction (merge_devices_tx rnd ord source target) out (n, db) = (Inr u, n', db')"
    using run p by (simp add: merge_devices_def)
  from transaction_succeeds [OF this] obtain k
    where "merge_devices_tx rnd ord source target out (Suc n, db) = (Inr u, k, db')" by blast
  then obtain n3 db3 t n4 where
    save: "save_device_tx rnd ord target out (n3, db\<lparr>dd_macs := filter (\<lambda>r. snd r \<noteq> pdid source) (dd_macs db),
       dd_ips := filter (\<lambda>r. snd r \<noteq> pdid source) (dd_ips db)\<rparr>) = (Inr t, n4, db3)"
    and del: "delete_device_row (pdid source) (db3\<lparr>
       dd_aliases := merged_aliases (device_id source) (device_id t) (dd_aliases db3),
       dd_evidence := map (\<lambda>e. if ev_device e = device_id source then e\<lparr>ev_device := device_id t\<rparr> else e) (dd_evidence db3),
       dd_owners := filter (\<lambda>r. snd r \<noteq> pdid source) (dd_owners db3),
       dd_pending := (\<lambda>k. if fst k = pdid source then None else dd_pending db3 k),
       dd_redirects := (dd_redirects db3)(pdid source \<mapsto> pdid target)\<rparr>) = Inr db'" by (rule merge_tx_succeeds)
  note s = save_tx_succeeds [OF save p(2)]
  have t: "t = target" using s(2) ids by simp
  from s(4) have f: "dd_aliases db3 = dd_aliases db" "dd_evidence db3 = dd_evidence db" "dd_pending db3 = dd_pending db"
    "dd_redirects db3 = dd_redirects db" by (simp_all add: others_kept_def)
  note d = deleted_device_row [OF del, simplified, unfolded f t]
  have "distinct (map al_unique (dd_aliases db))" using ok by (simp add: dis_db_ok_def)
  note al = aliases_merged [OF this ids(2)]
  have "(a, pdid source) \<notin> set (dd_macs db3)" "(a, pdid source) \<notin> set (dd_ips db3)" for a
    using others_kept_rows [OF s(4) p(3)] by simp_all
  moreover have "(a, pdid source) \<notin> set (filter (\<lambda>r. snd r \<noteq> pdid source) (dd_owners db3))" for a by simp
  ultimately have "(a, pdid source) \<notin> set (dd_macs db') \<union> set (dd_ips db') \<union> set (dd_owners db')" for a
    using d(6-8) unfolding set_filter by blast
  then have "pdid source \<notin> snd ` (set (dd_macs db') \<union> set (dd_ips db') \<union> set (dd_owners db'))"
    by (rule not_in_snd)
  moreover have "\<forall>a \<in> set (dd_aliases db). al_device a \<in> {device_id source, device_id target} \<longrightarrow>
      (\<exists>b \<in> set (dd_aliases db'). al_device b = device_id target \<and> stronger b a)"
    using al(2) unfolding d(2) by blast
  moreover have "\<forall>a \<in> set (dd_aliases db'). al_device a \<noteq> device_id source" unfolding d(2) by (rule al(1))
  moreover have "\<not> known_pdid db' (pdid source)" "known_pdid db' (pdid target)" using d(1) s(3) p(3) by simp_all
  ultimately show ?thesis using al(3) unfolding d(2-5) by (intro conjI) (assumption | rule refl)+
qed


text \<open>A tablet that was seen with two network cards, before it is merged.\<close>

definition device_at :: "string \<Rightarrow> string \<Rightarrow> string \<Rightarrow> device" where
  "device_at i p a = empty_device\<lparr>device_id := i, pdid := p, macs := [a]\<rparr>"

definition mac_alias :: "nat \<Rightarrow> string \<Rightarrow> string \<Rightarrow> bool \<Rightarrow> time option \<Rightarrow> alias_row" where
  "mac_alias i d h v revoked = \<lparr>al_id = i, al_device = d, al_type = AliasMAC, al_hash = h, al_source = ''arp'',
     al_confidence = 1, al_verified = v, al_first = 0, al_last = 0, al_revoked = revoked\<rparr>"

definition two_cards :: dis_db where
  "two_cards = empty_dis_db\<lparr>dd_devices := [device_at ''d1'' ''p1'' ''m1'', device_at ''d2'' ''p2'' ''m2''],
     dd_macs := [(''m1'', ''p1''), (''m2'', ''p2'')], dd_aliases := [mac_alias 1 ''d1'' ''h'' True None], dd_alias_seq := 2\<rparr>"

lemma merge_leaves_no_trace_witness:
  "\<exists>db'. runs (merge_devices (\<lambda>_. None) sorted_list_of_set (device_at ''d1'' ''p1'' ''m1'') (device_at ''d2'' ''p2'' ''m2'')) two_cards
     = (Inr (), db') \<and> \<not> known_pdid db' ''p1'' \<and> dd_redirects db' ''p1'' = Some ''p2''"
proof -
  have ok: "dis_db_ok two_cards"
    by (simp add: two_cards_def dis_db_ok_def devices_ok_def references_ok_def ids_ok_def known_pdid_def
        empty_dis_db_def device_at_def mac_alias_def)
  have "case merge_devices (\<lambda>_. None) sorted_list_of_set (device_at ''d1'' ''p1'' ''m1'') (device_at ''d2'' ''p2'' ''m2'')
      healthy (0, two_cards) of (Inr (), _, _) \<Rightarrow> True | _ \<Rightarrow> False"
    by code_simp
  then obtain n' db' where run: "merge_devices (\<lambda>_. None) sorted_list_of_set (device_at ''d1'' ''p1'' ''m1'')
      (device_at ''d2'' ''p2'' ''m2'') healthy (0, two_cards) = (Inr (), n', db')"
    by (auto split: prod.splits sum.splits)
  from merge_leaves_no_trace [OF ok run] have "\<not> known_pdid db' ''p1''" "dd_redirects db' ''p1'' = Some ''p2''"
    by (simp_all add: device_at_def)
  with run show ?thesis by (simp add: runs_def)
qed

subsection \<open>Pages of candidates\<close>

lemma filter_strict_drop:
  fixes f :: "'a \<Rightarrow> 'b::linorder"
  assumes "sorted_wrt (<) (map f xs)" "i < length xs"
  shows "filter (\<lambda>x. f (xs ! i) < f x) xs = drop (Suc i) xs"
proof -
  have nth: "j < k \<Longrightarrow> k < length xs \<Longrightarrow> f (xs ! j) < f (xs ! k)" for j k
    using assms(1) by (simp add: sorted_wrt_iff_nth_less)
  have "\<not> f (xs ! i) < f x" if "x \<in> set (take (Suc i) xs)" for x
  proof -
    obtain j where "j \<le> i" "x = xs ! j" using \<open>x \<in> set (take (Suc i) xs)\<close> by (auto simp: in_set_conv_nth less_Suc_eq_le)
    then show ?thesis using nth [of j i] assms(2) by (cases "j = i") auto
  qed
  then have "filter (\<lambda>x. f (xs ! i) < f x) (take (Suc i) xs) = []" by (simp add: filter_empty_conv)
  moreover have "filter (\<lambda>x. f (xs ! i) < f x) (drop (Suc i) xs) = drop (Suc i) xs"
    using nth assms(2) by (intro filter_True) (auto simp: in_set_conv_nth)
  ultimately show ?thesis by (metis append_Nil append_take_drop_id filter_append)
qed

lemma page_key_strict:
  assumes "distinct (map cd_id rows)"
  shows "sorted_wrt (<) (map page_key (sort_key page_key rows))"
proof -
  have "distinct (map page_key rows)"
    using assms by (auto simp: distinct_map page_key_def inj_on_def)
  then have "distinct (map page_key (sort_key page_key rows))"
    by (simp add: distinct_map)
  then show ?thesis using strict_sorted_iff by (metis sorted_sort_key)
qed

lemma behind_cursor_key:
  "\<not> is_zero (cd_updated x) \<Longrightarrow> behind_cursor (cd_updated x) (int (cd_id x)) c \<longleftrightarrow> page_key x < page_key c"
  by (auto simp: behind_cursor_def page_key_def)

text \<open>The pages of the review list are the consecutive slices of one list, newest first: the first page is its
  beginning, and the page behind the cursor of any row starts at the row after it, so following the cursors
  visits every candidate of the status exactly once.\<close>

theorem pages_are_slices:
  assumes ok: "dis_db_ok db"
    and sorted: "S = sort_key page_key (filter (\<lambda>c. status = [] \<or> cd_status c = status) (dd_candidates db))"
    and row: "i < length S" "\<not> is_zero (cd_updated (S ! i))"
  shows "candidates_page status limit zero_time b db = take limit S
    \<and> candidates_page status limit (cd_updated (S ! i)) (int (cd_id (S ! i))) db = take limit (drop (Suc i) S)
    \<and> distinct S \<and> set S = {c \<in> set (dd_candidates db). status = [] \<or> cd_status c = status}"
proof -
  have d: "distinct (map cd_id (dd_candidates db))" using ok by (simp add: dis_db_ok_def ids_ok_def)
  then have "distinct (map cd_id (filter (\<lambda>c. status = [] \<or> cd_status c = status) (dd_candidates db)))"
    by (rule distinct_map_filter)
  note strict = page_key_strict [OF this, folded sorted]
  have "sort_key page_key (filter (\<lambda>c. (status = [] \<or> cd_status c = status)
      \<and> behind_cursor (cd_updated (S ! i)) (int (cd_id (S ! i))) c) (dd_candidates db))
    = filter (\<lambda>c. page_key (S ! i) < page_key c) S"
    unfolding sorted filter_sort filter_filter behind_cursor_key [OF row(2), unfolded sorted] by (simp add: conj_commute)
  then have "candidates_page status limit (cd_updated (S ! i)) (int (cd_id (S ! i))) db = take limit (drop (Suc i) S)"
    by (simp add: candidates_page_def filter_strict_drop [OF strict row(1)])
  moreover have "candidates_page status limit zero_time b db = take limit S"
    by (simp add: candidates_page_def sorted behind_cursor_def is_zero_def)
  moreover have "distinct (dd_candidates db)" using d by (simp add: distinct_map)
  ultimately show ?thesis by (auto simp: sorted)
qed

definition link :: "nat \<Rightarrow> string \<Rightarrow> string \<Rightarrow> string \<Rightarrow> time \<Rightarrow> candidate_row" where
  "link i s t status u = \<lparr>cd_id = i, cd_source = s, cd_target = t, cd_probability = 1/2, cd_ambiguous = True,
     cd_status = status, cd_factors = [], cd_created = 0, cd_updated = u, cd_decision_source = [], cd_decision_note = []\<rparr>"

definition three_links :: dis_db where
  "three_links = empty_dis_db\<lparr>dd_candidates := [link 1 ''a'' ''b'' ''pending'' 10, link 2 ''a'' ''c'' ''pending'' 30,
     link 3 ''b'' ''c'' ''pending'' 10], dd_candidate_seq := 4\<rparr>"

lemma pages_are_slices_witness:
  "map cd_id (candidates_page [] 2 zero_time 0 three_links) = [2, 3]
   \<and> map cd_id (candidates_page [] 2 10 3 three_links) = [1]"
proof -
  let ?S = "[link 2 ''a'' ''c'' ''pending'' 30, link 3 ''b'' ''c'' ''pending'' 10, link 1 ''a'' ''b'' ''pending'' 10]"
  have ok: "dis_db_ok three_links"
    by (simp add: three_links_def dis_db_ok_def devices_ok_def references_ok_def ids_ok_def cd_pair_def
        empty_dis_db_def link_def)
  have sorted: "?S = sort_key page_key (filter (\<lambda>c. [] = [] \<or> cd_status c = []) (dd_candidates three_links))"
    by (simp add: three_links_def link_def page_key_def insort_key_def)
  have row: "1 < length ?S" "\<not> is_zero (cd_updated (?S ! 1))"
    by (simp_all add: link_def is_zero_def zero_time_def second_def)
  have "candidates_page [] 2 zero_time 0 three_links = take 2 ?S
      \<and> candidates_page [] 2 (cd_updated (?S ! 1)) (int (cd_id (?S ! 1))) three_links = take 2 (drop (Suc 1) ?S)"
    using pages_are_slices [OF ok sorted row, of 2 0] by blast
  then show ?thesis by (simp add: link_def)
qed

subsection \<open>Review of candidates\<close>

text \<open>One call on the candidates, whatever the driver does.\<close>

inductive review_step :: "dis_db \<Rightarrow> dis_db \<Rightarrow> bool" where
  propose: "upsert_identity_candidate now c out (n, db) = (r, n', db') \<Longrightarrow> review_step db db'"
| decide: "decide_identity_candidate now i status src notes out (n, db) = (r, n', db') \<Longrightarrow> review_step db db'"
| reopen: "reopen_identity_candidate now i src note out (n, db) = (r, n', db') \<Longrightarrow> review_step db db'"
| confirm: "confirm_candidate_merge rnd ord now i d1 d2 note out (n, db) = (r, n', db') \<Longrightarrow> review_step db db'"
| other: "dd_candidates db' = dd_candidates db \<Longrightarrow> review_step db db'"

definition confirmed_link :: "nat \<Rightarrow> string \<times> string \<Rightarrow> dis_db \<Rightarrow> bool" where
  "confirmed_link i pr db \<longleftrightarrow>
     (\<exists>c \<in> set (dd_candidates db). cd_id c = i \<and> cd_pair c = pr \<and> cd_status c = ''confirmed'')"

lemma confirmed_link_map:
  assumes "confirmed_link i pr db" "\<And>c. cd_id (f c) = cd_id c" "\<And>c. cd_pair (f c) = cd_pair c"
    and "\<And>c. cd_status c = ''confirmed'' \<Longrightarrow> cd_status (f c) = ''confirmed''"
  shows "confirmed_link i pr (db\<lparr>dd_candidates := map f (dd_candidates db)\<rparr>)"
  using assms by (fastforce simp: confirmed_link_def)

lemma keeps_confirmed_transition [db_inv]:
  "from \<noteq> ''confirmed'' \<Longrightarrow> keeps (confirmed_link i pr) (exec_counting (transition j from (decided now st src note amb)))"
  by (rule keeps_exec_counting)
    (auto simp: transition_def Let_def decided_def cd_pair_def intro!: confirmed_link_map)

lemma keeps_confirmed_put [db_inv]: "keeps (confirmed_link i pr) (exec_counting (put_candidate c))"
proof (rule keeps_exec_counting)
  fix db assume "confirmed_link i pr db"
  then show "confirmed_link i pr (snd (put_candidate c db))"
    by (cases "find (\<lambda>r. cd_pair r = cd_pair c) (dd_candidates db)")
      (auto simp: put_candidate_def intro!: confirmed_link_map, auto simp: confirmed_link_def)
qed

definition same_candidates :: "dis_db \<Rightarrow> dis_db \<Rightarrow> bool" where
  "same_candidates db db' \<longleftrightarrow> dd_candidates db' = dd_candidates db"

lemma merge_tx_keeps_candidates: "keeps (same_candidates db0) (merge_devices_tx rnd ord source target)"
proof -
  have "keeps (same_candidates db0) (save_device_tx rnd ord target)"
    unfolding save_device_tx_def
    by (intro db_inv keeps_sync keeps_exec)
      (auto simp: same_candidates_def upsert_device_row_def insert_mac_def insert_ip_def split: if_splits)
  then show ?thesis unfolding merge_devices_tx_def Let_def
    by (intro db_inv keeps_exec)
      (auto simp: same_candidates_def drop_macs_of_def drop_ips_of_def absorb_aliases_def drop_absorbed_def
        move_aliases_def update_aliases_def move_evidence_def drop_owners_of_def drop_pending_of_def
        put_redirect_def delete_device_row_def Let_def split: if_splits)
qed

lemma keeps_confirmed_merge [db_inv]: "keeps (confirmed_link i pr) (merge_devices_tx rnd ord source target)"
  unfolding keeps_def
proof (intro allI impI)
  fix out n db assume "confirmed_link i pr db"
  moreover have "same_candidates db (snd (snd (merge_devices_tx rnd ord source target out (n, db))))"
    using merge_tx_keeps_candidates [of db rnd ord source target] by (simp add: keeps_def same_candidates_def)
  ultimately show "confirmed_link i pr (snd (snd (merge_devices_tx rnd ord source target out (n, db))))"
    by (simp add: confirmed_link_def same_candidates_def)
qed

lemma review_step_keeps_confirmed:
  assumes "review_step db db'" "confirmed_link i pr db" shows "confirmed_link i pr db'"
proof -
  have "keeps (confirmed_link i pr) (upsert_identity_candidate now c)"
    "keeps (confirmed_link i pr) (decide_identity_candidate now j status src nts)"
    "keeps (confirmed_link i pr) (reopen_identity_candidate now j src nt)"
    "keeps (confirmed_link i pr) (confirm_candidate_merge rnd ord now j d1 d2 nt)"
    for now c j status src nts nt rnd ord d1 d2
    unfolding upsert_identity_candidate_def decide_identity_candidate_def reopen_identity_candidate_def
      confirm_candidate_merge_def Let_def
    by (intro db_inv; simp)+
  note k = this [THEN keepsD, OF assms(2)]
  from assms(1) show ?thesis
    by cases (use k assms(2) in \<open>auto simp: confirmed_link_def\<close>)
qed

text \<open>A confirmed link between two devices stays confirmed: no later sighting, decision, reopening or merge, in
  any order and with any failures of the driver, takes the confirmation back.\<close>

theorem confirmed_is_final:
  assumes "review_step\<^sup>*\<^sup>* db db'" "confirmed_link i pr db"
  shows "confirmed_link i pr db'"
  using assms by (induction rule: rtranclp_induct) (auto intro: review_step_keeps_confirmed)

lemma confirmed_is_final_witness:
  "confirmed_link 1 (''a'', ''b'') (snd (runs (reopen_identity_candidate 50 1 ''admin'' ''again'')
     (empty_dis_db\<lparr>dd_candidates := [link 1 ''a'' ''b'' ''confirmed'' 10]\<rparr>)))"
proof -
  let ?db = "empty_dis_db\<lparr>dd_candidates := [link 1 ''a'' ''b'' ''confirmed'' 10]\<rparr>"
  let ?m = "reopen_identity_candidate 50 1 ''admin'' ''again''"
  obtain r n' db' where run: "?m healthy (0, ?db) = (r, n', db')" by (metis prod.collapse)
  have "confirmed_link 1 (''a'', ''b'') ?db" by (simp add: confirmed_link_def link_def cd_pair_def)
  with confirmed_is_final [of ?db db'] review_step.reopen [OF run] have "confirmed_link 1 (''a'', ''b'') db'" by blast
  with run show ?thesis by (simp add: runs_def)
qed

text \<open>Confirming a candidate is all or nothing. A call that fails leaves every table as it was. One that succeeds
  found the candidate pending for exactly these two devices, has confirmed it, has redirected the source to
  the target and has removed the source.\<close>

theorem confirm_is_atomic:
  assumes run: "confirm_candidate_merge rnd ord now i source target note out (n, db) = (r, n', db')"
  shows "case r of Inl e \<Rightarrow> db' = db
    | Inr c \<Rightarrow> (\<exists>c0 \<in> set (dd_candidates db). cd_id c0 = i \<and> cd_status c0 = ''pending'' \<and> cd_pair c0 = (pdid source, pdid target))
        \<and> confirmed_link i (pdid source, pdid target) db' \<and> cd_status c = ''confirmed''
        \<and> dd_redirects db' (pdid source) = Some (pdid target) \<and> \<not> known_pdid db' (pdid source)"
proof (cases r)
  case (Inl e)
  with run show ?thesis
    by (auto simp: confirm_candidate_merge_def fail_io_def dest: transaction_fails split: if_splits)
next
  case (Inr c)
  define confirm where "confirm = decided now ''confirmed'' ''manual_admin'' (trim_space note) False"
  have ne: "pdid source \<noteq> pdid target"
    using run Inr by (auto simp: confirm_candidate_merge_def fail_io_def)
  note t = run [unfolded confirm_candidate_merge_def Let_def confirm_def [symmetric] if_not_P [OF ne] Inr]
  from transaction_succeeds [OF t] obtain c0 m u m' where c0: "find (\<lambda>c. cd_id c = i) (dd_candidates db) = Some c0"
      "cd_status c0 = ''pending''" "cd_source c0 = pdid source" "cd_target c0 = pdid target"
    and merge: "merge_devices_tx rnd ord source target out (m, snd (transition i ''pending'' confirm db)) = (Inr u, m', db')"
    and c: "c = confirm c0"
    by (auto elim!: bind_succeeds then_succeeds simp: query_succeeds exec_counting_def fail_io_def return_io_def
        split: option.splits if_splits prod.splits)
  have in0: "c0 \<in> set (dd_candidates db)" "cd_id c0 = i" using c0(1) by (auto simp: find_Some_iff)
  have "confirm c0 \<in> set (dd_candidates (snd (transition i ''pending'' confirm db)))"
    using in0 c0(2) by (force simp: transition_def Let_def)
  moreover have "cd_id (confirm c0) = i" "cd_pair (confirm c0) = (pdid source, pdid target)" "cd_status (confirm c0) = ''confirmed''"
    using in0(2) c0(3,4) by (simp_all add: confirm_def decided_def cd_pair_def)
  ultimately have "confirmed_link i (pdid source, pdid target) (snd (transition i ''pending'' confirm db))"
    unfolding confirmed_link_def by (intro bexI [of _ "confirm c0"] conjI)
  from keepsD [where P = "confirmed_link i (pdid source, pdid target)" and m = "merge_devices_tx rnd ord source target"
      and out = out, OF keeps_confirmed_merge this merge]
  have "confirmed_link i (pdid source, pdid target) db'" .
  moreover from merge obtain db3 where "delete_device_row (pdid source) db3 = Inr db'"
      "dd_redirects db3 (pdid source) = Some (pdid target)"
    by (rule merge_tx_succeeds) (auto)
  then have "dd_redirects db' (pdid source) = Some (pdid target)" "\<not> known_pdid db' (pdid source)"
    by (simp_all add: deleted_device_row)
  ultimately show ?thesis using Inr in0 c0 c by (auto simp: cd_pair_def confirm_def decided_def)
qed

definition review_db :: dis_db where
  "review_db = two_cards\<lparr>dd_candidates := [link 1 ''p1'' ''p2'' ''pending'' 10], dd_candidate_seq := 2\<rparr>"

lemma confirm_is_atomic_witness:
  "\<exists>db'. snd (runs (confirm_candidate_merge (\<lambda>_. None) sorted_list_of_set 20 1 (device_at ''d1'' ''p1'' ''m1'')
      (device_at ''d2'' ''p2'' ''m2'') ''same'') review_db) = db' \<and> confirmed_link 1 (''p1'', ''p2'') db'
      \<and> dd_redirects db' ''p1'' = Some ''p2''"
proof -
  let ?m = "confirm_candidate_merge (\<lambda>_. None) sorted_list_of_set 20 1 (device_at ''d1'' ''p1'' ''m1'')
      (device_at ''d2'' ''p2'' ''m2'') ''same''"
  have "case ?m healthy (0, review_db) of (Inr _, _, _) \<Rightarrow> True | _ \<Rightarrow> False" by code_simp
  then obtain c n' db' where run: "?m healthy (0, review_db) = (Inr c, n', db')"
    by (auto split: prod.splits sum.splits)
  from confirm_is_atomic [OF run] have "confirmed_link 1 (''p1'', ''p2'') db'" "dd_redirects db' ''p1'' = Some ''p2''"
    by (simp_all add: device_at_def)
  with run show ?thesis by (simp add: runs_def)
qed

subsection \<open>What the stored identities do not keep\<close>

text \<open>The promise of the verified aliases: at most one device is proved by a value.\<close>

definition proofs_exclusive :: "dis_db \<Rightarrow> bool" where
  "proofs_exclusive db \<longleftrightarrow> (\<forall>a \<in> set (dd_aliases db). \<forall>b \<in> set (dd_aliases db).
     proves a \<longrightarrow> proves b \<longrightarrow> al_key a = al_key b \<longrightarrow> al_device a = al_device b)"

text \<open>A verified claim that succeeds keeps it; that is what the check for a conflict is for.\<close>

lemma proofs_exclusiveD:
  "proofs_exclusive db \<Longrightarrow> x \<in> set (dd_aliases db) \<Longrightarrow> y \<in> set (dd_aliases db) \<Longrightarrow> proves x \<Longrightarrow> proves y \<Longrightarrow>
   al_key x = al_key y \<Longrightarrow> al_device x = al_device y"
  unfolding proofs_exclusive_def by blast

lemma proofs_snoc:
  assumes "proofs_exclusive db" "\<not> claimed_elsewhere a db" "al_unique a' = al_unique a"
  shows "proofs_exclusive (db\<lparr>dd_aliases := dd_aliases db @ [a'], dd_alias_seq := n\<rparr>)"
proof -
  have k: "al_key a' = al_key a" "al_device a' = al_device a" using assms(3) by (simp_all add: al_unique_def)
  have own: "al_device r = al_device a" if "r \<in> set (dd_aliases db)" "proves r" "al_key r = al_key a" for r
    using assms(2) that unfolding claimed_elsewhere_def by blast
  have "al_device x = al_device y" if "x = a' \<or> x \<in> set (dd_aliases db)" "y = a' \<or> y \<in> set (dd_aliases db)"
    "proves x" "proves y" "al_key x = al_key y" for x y
  proof (cases "x = a'"; cases "y = a'")
    assume "x = a'" "y \<noteq> a'" then show ?thesis using that(2-5) own [of y] k by metis
  next
    assume "x \<noteq> a'" "y = a'" then show ?thesis using that(1,3-5) own [of x] k by metis
  next
    assume "x \<noteq> a'" "y \<noteq> a'" then show ?thesis using proofs_exclusiveD [OF assms(1) _ _ that(3-5)] that(1,2) by blast
  qed simp
  moreover have "set (dd_aliases (db\<lparr>dd_aliases := dd_aliases db @ [a'], dd_alias_seq := n\<rparr>)) = insert a' (set (dd_aliases db))"
    by simp
  ultimately show ?thesis unfolding proofs_exclusive_def by blast
qed

lemma proofs_reinforced:
  assumes ex: "proofs_exclusive db" and nc: "\<not> claimed_elsewhere a db"
    and r: "\<And>r. r \<in> set (dd_aliases db) \<Longrightarrow> al_id r = i \<Longrightarrow> al_unique r = al_unique a"
    and s: "reinforce_alias i a db = Inr db'"
  shows "proofs_exclusive db'"
proof -
  let ?f = "\<lambda>r. if al_id r = i then r\<lparr>al_source := al_source a, al_confidence := max (al_confidence r) (al_confidence a),
            al_verified := (al_verified r \<or> al_verified a), al_revoked := None\<rparr> else r"
  have k: "al_key (?f r) = al_key r" "al_device (?f r) = al_device r" for r by (auto simp: al_key_def)
  have own: "al_device r = al_device a \<and> al_key r = al_key a" if "r \<in> set (dd_aliases db)" "al_id r = i" for r
    using r [OF that] by (simp add: al_unique_def)
  have step: "al_device x = al_device y"
    if "x \<in> set (dd_aliases db)" "y \<in> set (dd_aliases db)" "proves (?f x)" "proves (?f y)" "al_key x = al_key y" for x y
  proof (cases "al_id x = i"; cases "al_id y = i")
    assume "al_id x = i" "al_id y = i" then show ?thesis using own that(1,2) by metis
  next
    assume xy: "al_id x = i" "al_id y \<noteq> i"
    then have "proves y" "al_key y = al_key a" using that own by auto
    then show ?thesis using nc own [OF that(1) xy(1)] that(2) by (auto simp: claimed_elsewhere_def)
  next
    assume xy: "al_id x \<noteq> i" "al_id y = i"
    then have "proves x" "al_key x = al_key a" using that own by auto
    then show ?thesis using nc own [OF that(2) xy(2)] that(1) by (auto simp: claimed_elsewhere_def)
  next
    assume "al_id x \<noteq> i" "al_id y \<noteq> i"
    then show ?thesis using proofs_exclusiveD [OF ex that(1,2)] that(3-5) by simp
  qed
  have "dd_aliases db' = map ?f (dd_aliases db)" using s by (auto simp: reinforce_alias_def)
  then show ?thesis unfolding proofs_exclusive_def
    by (intro ballI impI; simp only: set_map; elim imageE; simp only: k) (rule step)
qed

lemma transaction_if_cases:
  assumes "transaction_if m out (n, db) = (r, n', db')"
  obtains "db' = db" | x k where "m out (Suc n, db) = (Inr (True, x), k, db')" "r = Inr x"
  using assms by (auto simp: transaction_if_def split: if_splits prod.splits sum.splits bool.splits)

lemma alias_times_same [simp]:
  "al_unique (alias_times now a) = al_unique a" "al_verified (alias_times now a) = al_verified a"
  "claimed_elsewhere (alias_times now a) = claimed_elsewhere a"
  by (auto simp: alias_times_def Let_def al_unique_def al_key_def claimed_elsewhere_def fun_eq_iff)

text \<open>C24: No two devices are proved by one value as long as only verified claims are stored: a verified claim of an
  alias that proves another device is refused, and whatever such a claim does, with any failure of the
  driver, the proofs stay exclusive.\<close>

theorem verified_claims_exclusive:
  assumes ok: "dis_db_ok db" "proofs_exclusive db" and v: "al_verified a"
    and run: "upsert_identity_alias now a out (n, db) = (r, n', db')"
  shows "proofs_exclusive db' \<and> (claimed_elsewhere a db \<longrightarrow> (\<exists>e. r = Inl e) \<and> db' = db)"
proof (cases "al_device a = [] \<or> al_type a = AliasOther [] \<or> al_hash a = []")
  case True
  with run ok(2) show ?thesis by (auto simp: upsert_identity_alias_def fail_io_def)
next
  case False
  let ?a = "alias_times now a"
  let ?body = "then_io
          (if al_verified ?a then bind_io (query (claimed_elsewhere ?a))
             (\<lambda>taken. if taken then fail_io ErrAliasConflict else return_io ()) else return_io ())
          (bind_io (query (\<lambda>db. find (\<lambda>r. al_unique r = al_unique ?a) (dd_aliases db))) (\<lambda>old.
            case old of
              Some r \<Rightarrow>
                if al_source r = al_source ?a \<and> al_confidence ?a \<le> al_confidence r
                   \<and> (al_verified ?a \<longrightarrow> al_verified r) \<and> al_revoked r = None
                then return_io (False, al_id r)
                else then_io (exec (reinforce_alias (al_id r) ?a)) (return_io (True, al_id r))
            | None \<Rightarrow> bind_io (query dd_alias_seq) (\<lambda>i. then_io (exec (insert_alias ?a)) (return_io (True, i)))))"
  have t: "transaction_if ?body out (n, db) = (r, n', db')"
    using run False by (simp only: upsert_identity_alias_def Let_def if_False)
  have free: "\<not> claimed_elsewhere a db" if "?body out (Suc n, db) = (Inr x, k, s)" for x k s
    using that v by (auto elim!: then_succeeds bind_succeeds simp: query_succeeds fail_io_def split: if_splits)
  show ?thesis using t
  proof (cases rule: transaction_if_cases)
    case 1
    have "\<exists>e. r = Inl e" if "claimed_elsewhere a db"
      using t v that
      by (auto simp: transaction_if_def then_io_def bind_io_def query_def fail_io_def split: if_splits)
    with 1 ok(2) show ?thesis by simp
  next
    case (2 x k)
    note nc = free [OF 2(1)]
    from 2(1) v nc consider
      (old) o' where "find (\<lambda>r. al_unique r = al_unique a) (dd_aliases db) = Some o'" "reinforce_alias (al_id o') ?a db = Inr db'"
    | (new) "insert_alias ?a db = Inr db'"
      by (auto elim!: then_succeeds bind_succeeds simp: query_succeeds exec_succeeds fail_io_def return_io_def
          split: if_splits option.splits)
    then have "proofs_exclusive db'"
    proof cases
      case old
      then have o': "o' \<in> set (dd_aliases db)" "al_unique o' = al_unique a" by (auto simp: find_Some_iff)
      have same: "al_unique s = al_unique ?a" if "s \<in> set (dd_aliases db)" "al_id s = al_id o'" for s
      proof -
        have "s = o'" using ok(1) that o'(1) by (auto simp: dis_db_ok_def ids_ok_def distinct_map inj_on_def)
        with o'(2) show ?thesis by simp
      qed
      have "\<not> claimed_elsewhere ?a db" using nc by simp
      from proofs_reinforced [OF ok(2) this same old(2)] show ?thesis by assumption
    next
      case new
      then have "db' = db\<lparr>dd_aliases := dd_aliases db @ [?a\<lparr>al_id := dd_alias_seq db, al_revoked := None\<rparr>],
          dd_alias_seq := Suc (dd_alias_seq db)\<rparr>"
        by (simp add: insert_alias_def split: if_split_asm)
      moreover have "al_unique (?a\<lparr>al_id := dd_alias_seq db, al_revoked := None\<rparr>) = al_unique a"
        using alias_times_same(1) [of now a] by (simp add: al_unique_def al_key_def)
      ultimately show ?thesis using proofs_snoc [OF ok(2) nc] by simp
    qed
    with nc show ?thesis by simp
  qed
qed

lemma verified_claims_exclusive_witness:
  "\<not> proves (mac_alias 9 ''d2'' ''h'' True (Some 5)) \<and> (\<exists>e. fst (runs (upsert_identity_alias 7 (mac_alias 9 ''d2'' ''h'' True None)) two_cards) = Inl e)"
proof -
  let ?m = "upsert_identity_alias 7 (mac_alias 9 ''d2'' ''h'' True None)"
  obtain r n' db' where run: "?m healthy (0, two_cards) = (r, n', db')" by (metis prod.collapse)
  have "dis_db_ok two_cards" "proofs_exclusive two_cards"
    by (simp_all add: two_cards_def dis_db_ok_def devices_ok_def references_ok_def ids_ok_def known_pdid_def
        empty_dis_db_def device_at_def mac_alias_def proofs_exclusive_def)
  moreover have "claimed_elsewhere (mac_alias 9 ''d2'' ''h'' True None) two_cards"
    by (simp add: claimed_elsewhere_def two_cards_def empty_dis_db_def mac_alias_def al_key_def proves_def)
  ultimately have "\<exists>e. r = Inl e"
    using verified_claims_exclusive [OF _ _ _ run] by (simp add: mac_alias_def)
  with run show ?thesis by (simp add: runs_def proves_def mac_alias_def)
qed

text \<open>An unverified sighting is not checked for a conflict, and it clears the revocation of the row it meets. So a
  verified alias that an administrator revoked, and that proves another device by now, proves both after the
  next ordinary sighting.\<close>

definition revoked_db :: dis_db where
  "revoked_db = two_cards\<lparr>dd_aliases := [mac_alias 1 ''d1'' ''h'' True (Some 5), mac_alias 2 ''d2'' ''h'' True None],
     dd_alias_seq := 3\<rparr>"

lemma sighting_reinstates_revoked_alias:
  "proofs_exclusive revoked_db"
  "\<not> proofs_exclusive (snd (runs (upsert_identity_alias 7 (mac_alias 0 ''d1'' ''h'' False None)) revoked_db))"
  by code_simp+

text \<open>A merge takes the verified flag of the source's row but not its revocation: an alias revoked on the source
  becomes a proof for the target.\<close>

lemma merge_drops_revocation:
  "\<not> proves (mac_alias 1 ''d1'' ''h'' True (Some 5))"
  "\<not> proves (mac_alias 2 ''d2'' ''h'' False None)"
  "filter proves (merged_aliases ''d1'' ''d2'' [mac_alias 1 ''d1'' ''h'' True (Some 5), mac_alias 2 ''d2'' ''h'' False None])
    = [mac_alias 2 ''d2'' ''h'' True None]"
  by (simp_all add: proves_def mac_alias_def merged_aliases_def absorbed_alias_def al_key_def Let_def)

text \<open>The owner listener of the inventory runs before the device is saved, so the owner of a new device's name is
  refused by the foreign key.\<close>

lemma owner_of_unsaved_device_refused:
  "h \<noteq> [] \<Longrightarrow> p \<noteq> [] \<Longrightarrow> \<not> known_pdid db p \<Longrightarrow> runs (save_hostname_owner h p) db = (Inl ForeignKeyViolation, db)"
  by (simp add: save_hostname_owner_def runs_def exec_healthy put_owner_def)

end
