(* ===== verification/Dis_Engine_Props.thy ===== *)
theory Dis_Engine_Props
  imports Dis_Engine Dis_Store_Props
begin

text \<open>
  What the correlation engine keeps: the devices it holds in memory and the rows of the store never drift
  apart unnoticed, a device comes online only on evidence of presence, and passive evidence never gives a
  device another hardware address.
\<close>

subsection \<open>Steps that leave the devices alone\<close>

definition stored_rows :: "dis_engine \<Rightarrow> device list option" where
  "stored_rows e = map_option (dd_devices \<circ> snd) (en_store e)"

text \<open>The devices, their indices, the dirty marks and the rows are the same.\<close>

definition same_shelf :: "inventory \<Rightarrow> inventory \<Rightarrow> bool" where
  "same_shelf c c' \<longleftrightarrow> iv_heap c' = iv_heap c \<and> iv_next c' = iv_next c \<and> iv_devices c' = iv_devices c
     \<and> iv_device_ids c' = iv_device_ids c \<and> iv_macs c' = iv_macs c \<and> iv_ips c' = iv_ips c
     \<and> (inventory_ok c \<longrightarrow> inventory_ok c')"

definition frame :: "dis_engine \<Rightarrow> dis_engine \<Rightarrow> bool" where
  "frame e e' \<longleftrightarrow> same_shelf (en_cache e) (en_cache e') \<and> en_dirty e' = en_dirty e \<and> stored_rows e' = stored_rows e"

named_theorems frames "engine steps that leave the devices alone"

lemma frame_refl [frames]: "frame e e"
  by (simp add: frame_def same_shelf_def)

lemma frame_trans: "frame e e1 \<Longrightarrow> frame e1 e2 \<Longrightarrow> frame e e2"
  by (auto simp: frame_def same_shelf_def)

lemma frame_fields [frames]:
  "frame e (e\<lparr>en_sent := a\<rparr>)" "frame e (e\<lparr>en_debouncer := b\<rparr>)" "frame e (e\<lparr>en_seen := f\<rparr>)"
  "frame e (e\<lparr>en_deferred := f\<rparr>)" "frame e (e\<lparr>en_aliases := g\<rparr>)" "frame e (e\<lparr>en_enrich := h\<rparr>)"
  by (simp_all add: frame_def same_shelf_def stored_rows_def)

lemma frame_after: "frame e e1 \<Longrightarrow> frame e1 (f e1) \<Longrightarrow> frame e (f e1)"
  by (rule frame_trans)

lemma frame_fold: "(\<And>x e. frame e (f x e)) \<Longrightarrow> frame e (fold f xs e)"
  by (induction xs arbitrary: e) (auto intro: frames frame_trans)

abbreviation rows_kept :: "device list \<Rightarrow> dis_db \<Rightarrow> bool" where
  "rows_kept rows db \<equiv> dd_devices db = rows"

lemma frame_store:
  assumes "\<And>rows. keeps (rows_kept rows) m" "on_store w m e = (r, e')"
  shows "frame e e'"
proof (cases "en_store e")
  case (Some s)
  obtain r0 n' db' where m: "m (wd_out w) (fst s, snd s) = (r0, n', db')" by (metis prod.collapse)
  have "dd_devices db' = dd_devices (snd s)"
    using keepsD [OF assms(1) refl m] .
  with assms(2) Some m show ?thesis
    by (auto simp: on_store_def frame_def same_shelf_def stored_rows_def)
qed (use assms in \<open>simp add: on_store_def frames\<close>)

lemma frame_store_snd: "(\<And>rows. keeps (rows_kept rows) m) \<Longrightarrow> frame e (snd (on_store w m e))"
  by (rule frame_store [where w = w and m = m and r = "fst (on_store w m e)"]) simp_all

subsection \<open>Statements that leave the rows of the devices alone\<close>

lemma rows_kept_statements [db_inv]:
  "keeps (rows_kept rows) (exec (put_owner h p))" "keeps (rows_kept rows) (exec (remove_owner h))"
  "keeps (rows_kept rows) (exec (insert_mac p a))" "keeps (rows_kept rows) (exec (insert_ip p a))"
  "keeps (rows_kept rows) (exec (\<lambda>db. Inr (db\<lparr>dd_macs := delete_address p a (dd_macs db)\<rparr>)))"
  "keeps (rows_kept rows) (exec (\<lambda>db. Inr (db\<lparr>dd_ips := delete_address p a (dd_ips db)\<rparr>)))"
  "keeps (rows_kept rows) (exec (drop_macs_of p))" "keeps (rows_kept rows) (exec (drop_ips_of p))"
  "keeps (rows_kept rows) (exec (drop_owners_of p))" "keeps (rows_kept rows) (exec (drop_pending_of p))"
  "keeps (rows_kept rows) (exec (put_redirect p q))" "keeps (rows_kept rows) (exec (move_evidence p q))"
  "keeps (rows_kept rows) (exec (insert_evidence ev))" "keeps (rows_kept rows) (exec (insert_alias a1))"
  "keeps (rows_kept rows) (exec (reinforce_alias i a1))" "keeps (rows_kept rows) (exec (absorb_aliases p q))"
  "keeps (rows_kept rows) (exec (drop_absorbed p q))" "keeps (rows_kept rows) (exec (move_aliases p q))"
  "keeps (rows_kept rows) (exec (split_alias now p q h))"
  by (auto intro!: keeps_exec simp: address_defs move_evidence_def insert_evidence_def insert_alias_def
      reinforce_alias_def absorb_aliases_def drop_absorbed_def move_aliases_def split_alias_def
      update_aliases_def Let_def split: if_splits)

lemma rows_kept_counting [db_inv]:
  "keeps (rows_kept rows) (exec_counting (revoke_alias_row now p i))"
  "keeps (rows_kept rows) (exec_counting (put_candidate c))"
  "keeps (rows_kept rows) (exec_counting (transition i status f))"
  by (auto intro!: keeps_exec_counting simp: revoke_alias_row_def put_candidate_def transition_def Let_def
      split: option.splits)

lemma rows_kept_operations [db_inv]:
  "keeps (rows_kept rows) (save_hostname_owner h p)" "keeps (rows_kept rows) (delete_hostname_owner h)"
  "keeps (rows_kept rows) (upsert_identity_alias now a)" "keeps (rows_kept rows) (revoke_identity_alias now p i)"
  "keeps (rows_kept rows) (save_identity_evidence now ev)" "keeps (rows_kept rows) (upsert_identity_candidate now c)"
  "keeps (rows_kept rows) (decide_identity_candidate now i st src ns)"
  "keeps (rows_kept rows) (reopen_identity_candidate now i src n)"
  "keeps (rows_kept rows) (find_verified_alias_pdids t h)" "keeps (rows_kept rows) load_identity_aliases"
  "keeps (rows_kept rows) (get_identity_candidate i)" "keeps (rows_kept rows) (resolve_stored_pdid p)"
  "keeps (rows_kept rows) (list_identity_candidates_page st lm tm k)" "keeps (rows_kept rows) load_stored_owners"
  "keeps (rows_kept rows) (identity_profile_of p)" "keeps (rows_kept rows) (load_pending_events ks)"
  unfolding save_hostname_owner_def delete_hostname_owner_def upsert_identity_alias_def revoke_identity_alias_def
    save_identity_evidence_def upsert_identity_candidate_def decide_identity_candidate_def
    reopen_identity_candidate_def find_verified_alias_pdids_def load_identity_aliases_def
    get_identity_candidate_def resolve_stored_pdid_def list_identity_candidates_page_def load_stored_owners_def
    identity_profile_of_def list_identity_aliases_def list_identity_candidates_def list_identity_evidence_def
    load_pending_events_def Let_def
  by (intro db_inv)+

subsection \<open>The parts of an observation that leave the devices alone\<close>

lemma frame_parts [frames]:
  "frame e (broadcast_event w t p pl e)" "frame e (schedule_deferred w p dl e)"
  "frame e (snd (is_duplicate w key e))"
  by (auto simp: broadcast_event_def schedule_deferred_def is_duplicate_def Let_def frames split: option.split)

lemma frame_cache:
  "same_shelf (en_cache e) c \<Longrightarrow> frame e (e\<lparr>en_cache := c\<rparr>)"
  by (simp add: frame_def stored_rows_def)

lemma frame_tell_owners [frames]: "frame e (tell_owners w calls e)"
  unfolding tell_owners_def by (rule frame_fold) (auto simp: db_inv intro!: frame_store_snd split: prod.split)

lemma frame_acquire: "acquire w h p e = (r, e') \<Longrightarrow> frame e e'"
proof -
  obtain r0 calls c where a: "acquire_hostname (wd_now w) h p (en_cache e) = (r0, calls, c)"
    by (metis prod.collapse)
  have "same_shelf (en_cache e) c"
    using a inventory_ok_acquire [of "en_cache e" "wd_now w" h p]
    by (auto simp: same_shelf_def acquire_hostname_def Let_def split: if_splits option.splits)
  then have "frame e (tell_owners w calls (e\<lparr>en_cache := c\<rparr>))"
    by (blast intro: frames frame_trans frame_cache)
  then show "acquire w h p e = (r, e') \<Longrightarrow> frame e e'" by (simp add: acquire_def a)
qed

lemma frame_release: "frame e (release w h p e)"
proof -
  obtain calls c where a: "release_hostname h p (en_cache e) = (calls, c)"
    by (metis prod.collapse)
  have "same_shelf (en_cache e) c"
    using a inventory_ok_release [of "en_cache e" h p]
    by (auto simp: same_shelf_def release_hostname_def split: if_splits)
  then have "frame e (tell_owners w calls (e\<lparr>en_cache := c\<rparr>))"
    by (blast intro: frames frame_trans frame_cache)
  then show ?thesis by (simp add: release_def a)
qed

lemma frame_submit: "submit_change w p t obs pl e = Some e' \<Longrightarrow> frame e e'"
  by (auto simp: submit_change_def frames)

lemma frame_verified_owners: "verified_owners w ss own e = (r, e') \<Longrightarrow> frame e e'"
proof (induction ss arbitrary: own e)
  case (Cons s ss)
  show ?case
  proof (cases "\<not> (sig_type s \<noteq> AliasMAC \<and> \<not> sig_verified s) \<and> hash_alias (wd_sha w) (sig_type s) (sig_value s) \<noteq> None")
    case True
    then obtain h where h: "hash_alias (wd_sha w) (sig_type s) (sig_value s) = Some h" by auto
    obtain x e1 where x: "on_store w (find_verified_alias_pdids (sig_type s) h) e = (x, e1)" by fastforce
    then have "frame e e1" by (rule frame_store [rotated]) (rule db_inv)
    moreover have "frame e1 e'" using Cons True h x
      by (auto split: option.splits sum.splits if_splits)
    ultimately show ?thesis by (rule frame_trans)
  qed (use Cons in \<open>auto split: if_splits\<close>)
qed (simp add: frames)

lemma frame_resolve_verified: "resolve_verified w sigs e = (r, e') \<Longrightarrow> frame e e'"
  by (auto simp: resolve_verified_def frames split: if_splits prod.splits intro: frame_verified_owners)

lemma frame_claim_hostname: "claim_hostname w h d e = (r, e') \<Longrightarrow> frame e e'"
  by (auto simp: claim_hostname_def frames split: if_splits option.splits prod.splits intro: frame_acquire)

lemma frame_record_signal [frames]: "frame e (record_signal w d seen s e)"
proof (cases "hash_alias (wd_sha w) (sig_type s) (sig_value s)")
  case (Some h)
  define e1 where "e1 = e\<lparr>en_aliases := (en_aliases e)((device_id d, sig_type s, h) \<mapsto>
    sighted s seen (case en_aliases e (device_id d, sig_type s, h) of None \<Rightarrow> no_activity | Some a \<Rightarrow> a))\<rparr>"
  have 1: "frame e e1" by (simp add: e1_def frames)
  have "frame e1 (case on_store w (upsert_identity_alias (wd_now w) al) e1 of
      (Some (Inr i), e2) \<Rightarrow> e2\<lparr>en_aliases := (en_aliases e2)(k \<mapsto> g i)\<rparr> | (_, e2) \<Rightarrow> e2)" for al k g
  proof -
    obtain r e2 where o: "on_store w (upsert_identity_alias (wd_now w) al) e1 = (r, e2)" by fastforce
    then have "frame e1 e2" by (rule frame_store [rotated]) (rule db_inv)
    then show ?thesis using o by (auto split: option.split sum.split intro: frame_trans frames)
  qed
  from frame_trans [OF 1 this] show ?thesis
    unfolding record_signal_def Some option.case Let_def e1_def [symmetric] by (simp add: 1 split del: option.split)
qed (simp add: record_signal_def frames)

lemma frame_save_factor [frames]: "frame e (save_factor w d c seen f e)"
  unfolding save_factor_def by (auto simp: frames db_inv intro!: frame_store_snd)

lemma frame_record_identity_signals [frames]: "frame e (record_identity_signals w d sigs cand seen e)"
proof -
  have sig: "frame e (fold (record_signal w d seen) sigs e)" for e
    by (rule frame_fold) (rule frames)
  have fac: "frame e (fold (save_factor w d c seen) fs e)" for c fs e
    by (rule frame_fold) (rule frames)
  have cand: "frame e (fold (save_factor w d c seen) fs (case r of
      Some (Inr i) \<Rightarrow> broadcast_event w EventIdentityCandidateChanged (pdid d) (pl i) e2 | _ \<Rightarrow> e2))"
    if "on_store w (upsert_identity_candidate (wd_now w) cr) e = (r, e2)" for cr e r e2 c fs pl
  proof -
    have "frame e e2" using that by (rule frame_store [rotated]) (rule db_inv)
    then have "frame e (case r of Some (Inr i) \<Rightarrow>
        broadcast_event w EventIdentityCandidateChanged (pdid d) (pl i) e2 | _ \<Rightarrow> e2)"
      by (auto split: option.split sum.split intro: frame_trans frames)
    then show ?thesis using fac by (rule frame_trans)
  qed
  show ?thesis
  proof (cases "en_store e = None \<or> device_id d = [] \<or> (case cand of None \<Rightarrow> True
      | Some (c, dec) \<Rightarrow> dc_probability dec < candidate_threshold)")
    case True
    then show ?thesis
      using sig [of e]
      by (cases cand; cases "en_store e") (auto simp: record_identity_signals_def Let_def frames split: if_splits)
  next
    case False
    then obtain c dec s where c: "cand = Some (c, dec)" "\<not> dc_probability dec < candidate_threshold"
      "en_store e = Some s" "device_id d \<noteq> []"
      by (cases cand; cases "en_store e") auto
    define e1 where "e1 = fold (record_signal w d seen) sigs e"
    obtain r e2 where o: "on_store w (upsert_identity_candidate (wd_now w)
        \<lparr>cd_id = 0, cd_source = pdid d, cd_target = pdid c, cd_probability = dc_probability dec, cd_ambiguous = True,
         cd_status = ''pending'', cd_factors = dc_factors dec, cd_created = seen, cd_updated = zero_time,
         cd_decision_source = [], cd_decision_note = []\<rparr>) e1 = (r, e2)" by fastforce
    from frame_trans [OF sig [of e, folded e1_def] cand [OF o]] show ?thesis
      unfolding record_identity_signals_def Let_def e1_def [symmetric] c(1) by (simp add: c(2-) o)
  qed
qed

subsection \<open>The devices in memory\<close>

text \<open>The keys under which enrichment notes where a value came from are not names of providers.\<close>

definition enrichment_keys :: "string set" where
  "enrichment_keys = {''hostname'', ''manufacturer'', ''vendor'', ''model'', ''device_type''}"

definition provider_named :: "device \<Rightarrow> bool" where
  "provider_named d \<longleftrightarrow> (\<forall>s m. s \<notin> enrichment_keys \<longrightarrow> source_info d s = Some m \<longrightarrow> meta_source m = s)"

definition record_ok :: "device \<Rightarrow> bool" where
  "record_ok d \<longleftrightarrow> device_id d \<noteq> [] \<and> provider_named d"

text \<open>As long as nobody calls \<open>SetCurrentIP\<close> the address index is as sound as the other two.\<close>

definition shelf_ok :: "inventory \<Rightarrow> bool" where
  "shelf_ok c \<longleftrightarrow> inventory_ok c \<and> index_ok (\<lambda>d. trim_space (current_ip d)) (iv_ips c) c
     \<and> (\<forall>p d. get_device p c = Some d \<longrightarrow> record_ok d)"

lemma shelf_okD:
  assumes "shelf_ok c"
  shows "inventory_ok c" "get_device p c = Some d \<Longrightarrow> record_ok d \<and> pdid d = p \<and> p \<noteq> []"
    "iv_ips c a = Some r \<Longrightarrow> a \<noteq> [] \<and> trim_space (current_ip (obj c r)) = a \<and> iv_devices c (pdid (obj c r)) = Some r"
  using assms inventory_ok_device [of c p]
  by (auto simp: shelf_ok_def index_ok_def get_device_def)

lemma get_device_same_shelf: "same_shelf c c' \<Longrightarrow> get_device p c' = get_device p c"
  by (cases "iv_devices c p") (simp_all add: same_shelf_def get_device_def obj_def)

lemma shelf_ok_same: "same_shelf c c' \<Longrightarrow> shelf_ok c \<Longrightarrow> shelf_ok c'"
  by (simp add: shelf_ok_def get_device_same_shelf) (auto simp: same_shelf_def index_ok_def obj_def)

lemma shelf_ok_lookups:
  assumes "shelf_ok c"
  shows "get_by_mac m c = Some d \<Longrightarrow> get_device (pdid d) c = Some d"
    "get_by_ip a c = Some d \<Longrightarrow> get_device (pdid d) c = Some d"
  using inventory_ok_index(1) [OF shelf_okD(1) [OF assms]] shelf_okD(3) [OF assms]
  by (auto simp: get_by_mac_def get_by_ip_def get_device_def Let_def split: if_splits)

lemma get_device_upsert:
  assumes "shelf_ok c" "pdid d \<noteq> []"
  shows "get_device p (upsert d c) = (if p = pdid d then Some d else get_device p c)"
  using upsert_fields [OF assms(2), of c] inventory_ok_device [OF shelf_okD(1) [OF assms(1)], of p]
  by (cases "iv_devices c p") (auto simp: get_device_def)

lemma shelf_ok_upsert:
  assumes ok: "shelf_ok c" and d: "record_ok d" shows "shelf_ok (upsert d c)"
proof (cases "pdid d = []")
  case False
  note fields = upsert_fields [OF False, of c] and live = inventory_ok_device [OF shelf_okD(1) [OF ok]]
  have forget: "iv_ips c a = Some r \<and> (pdid (obj c r) = pdid d \<longrightarrow> a = trim_space (current_ip d))"
    if "iv_ips (forget_old_keys d c) a = Some r" for a r
    using that shelf_okD(3) [OF ok, of a r]
    by (auto simp: forget_old_keys_def Let_def drop_index_Some split: option.splits if_splits)
  have "index_ok (\<lambda>d. trim_space (current_ip d)) (iv_ips (upsert d c)) (upsert d c)"
    unfolding index_ok_def fields
  proof (intro allI impI)
    fix a r
    assume "(if trim_space (current_ip d) \<noteq> [] then (iv_ips (forget_old_keys d c))(trim_space (current_ip d) \<mapsto> iv_next c)
       else iv_ips (forget_old_keys d c)) a = Some r"
    then show "a \<noteq> [] \<and> trim_space (current_ip (if r = iv_next c then d else obj c r)) = a \<and>
        ((iv_devices c)(pdid d \<mapsto> iv_next c)) (pdid (if r = iv_next c then d else obj c r)) = Some r"
      using forget [of a r] shelf_okD(3) [OF ok, of a r] live [of "pdid (obj c r)" r] by (auto split: if_splits)
  qed
  moreover have "record_ok x" if "get_device p (upsert d c) = Some x" for p x
    using that d shelf_okD(2) [OF ok, of p x] by (simp add: get_device_upsert [OF ok False] split: if_splits)
  ultimately show ?thesis using inventory_ok_upsert [OF shelf_okD(1) [OF ok]] by (auto simp: shelf_ok_def)
qed (use ok in \<open>simp add: upsert_def\<close>)

lemma get_device_delete: "get_device q (snd (delete_device p c)) = (if q = p then None else get_device q c)"
proof (cases "iv_devices c p")
  case (Some r)
  then have "snd (delete_device p c) = snd (drop_device p r c)"
    by (simp add: delete_device_def split: prod.split)
  then show ?thesis using drop_device_fields(2,3) [of p r c] by (cases "iv_devices c q") (auto simp: get_device_def)
qed (simp add: delete_device_def get_device_def)

lemma shelf_ok_delete: assumes ok: "shelf_ok c" shows "shelf_ok (snd (delete_device p c))"
proof (cases "iv_devices c p")
  case (Some r)
  have "index_ok (\<lambda>d. trim_space (current_ip d)) (iv_ips (snd (drop_device p r c))) (snd (drop_device p r c))"
    unfolding index_ok_def drop_device_fields using shelf_okD(3) [OF ok] Some by fastforce
  moreover have "snd (delete_device p c) = snd (drop_device p r c)"
    using Some by (simp add: delete_device_def split: prod.split)
  ultimately show ?thesis
    using ok inventory_ok_delete [OF shelf_okD(1) [OF ok], of p] get_device_delete [of _ p c]
    by (auto simp: shelf_ok_def split: if_splits)
qed (use ok in \<open>simp add: delete_device_def\<close>)

text \<open>What taking an address out of the index does to its device.\<close>

definition without_ip :: "string \<Rightarrow> device \<Rightarrow> device" where
  "without_ip a d = (let d1 = d\<lparr>ips := filter (\<lambda>x. x \<noteq> a) (ips d)\<rparr>
     in if current_ip d1 = a then d1\<lparr>current_ip := (if ips d1 = [] then [] else last (ips d1))\<rparr> else d1)"

lemma remove_ip_alt: "remove_ip_index ip c = (let a = trim_space ip in if a = [] then c
     else (case iv_ips c a of None \<Rightarrow> c | Some r \<Rightarrow> (set_obj r (without_ip a (obj c r)) c)\<lparr>iv_ips := (iv_ips c)(a := None)\<rparr>))"
  by (simp add: remove_ip_index_def without_ip_def Let_def split: option.split)

lemma without_ip_fields [simp]:
  "pdid (without_ip a d) = pdid d" "device_id (without_ip a d) = device_id d" "source_info (without_ip a d) = source_info d"
  "current_mac (without_ip a d) = current_mac d" "macs (without_ip a d) = macs d" "online (without_ip a d) = online d"
  by (simp_all add: without_ip_def Let_def)

lemma remove_ip_effect:
  assumes ok: "shelf_ok c" and x: "get_by_ip ip c = Some x"
  shows "get_device p (remove_ip_index ip c) = (if p = pdid x then Some (without_ip (trim_space ip) x) else get_device p c)"
    "shelf_ok (remove_ip_index ip c)"
proof -
  let ?a = "trim_space ip"
  from x obtain r where r: "?a \<noteq> []" "iv_ips c ?a = Some r" "x = obj c r"
    by (auto simp: get_by_ip_def Let_def split: if_splits)
  note live = inventory_ok_device [OF shelf_okD(1) [OF ok]] and s = shelf_okD(3) [OF ok]
  have e: "remove_ip_index ip c = (set_obj r (without_ip ?a x) c)\<lparr>iv_ips := (iv_ips c)(?a := None)\<rparr>"
    using r by (simp add: remove_ip_alt Let_def)
  have own: "iv_devices c p = Some r \<longleftrightarrow> p = pdid x" for p
    using s [OF r(2)] live [of p r] unfolding r(3) by blast
  show get: "get_device p (remove_ip_index ip c) = (if p = pdid x then Some (without_ip ?a x) else get_device p c)" for p
    using own [of p] by (cases "iv_devices c p") (auto simp: e get_device_def obj_set_obj)
  have "index_ok (\<lambda>d. trim_space (current_ip d)) (iv_ips (remove_ip_index ip c)) (remove_ip_index ip c)"
    unfolding index_ok_def
  proof (intro allI impI)
    fix k r' assume "iv_ips (remove_ip_index ip c) k = Some r'"
    then have k: "iv_ips c k = Some r'" "k \<noteq> ?a" by (auto simp: e split: if_splits)
    with s [OF k(1)] s [OF r(2)] have "r' \<noteq> r" by auto
    with s [OF k(1)] show "k \<noteq> [] \<and> trim_space (current_ip (obj (remove_ip_index ip c) r')) = k \<and>
        iv_devices (remove_ip_index ip c) (pdid (obj (remove_ip_index ip c) r')) = Some r'"
      by (simp add: e obj_set_obj)
  qed
  moreover have "record_ok d" if "get_device p (remove_ip_index ip c) = Some d" for p d
    using that shelf_okD(2) [OF ok, of p d] shelf_okD(2) [OF ok shelf_ok_lookups(2) [OF ok x]]
    by (auto simp: get record_ok_def provider_named_def split: if_splits)
  ultimately show "shelf_ok (remove_ip_index ip c)"
    using inventory_ok_remove_ip [OF shelf_okD(1) [OF ok]] by (auto simp: shelf_ok_def)
qed

text \<open>The staleness pass takes devices offline and changes nothing else.\<close>

lemma get_device_set_obj:
  assumes "shelf_ok c" "iv_devices c k = Some r" "pdid d = pdid (obj c r)"
  shows "get_device p (set_obj r d c) = (if p = k then Some d else get_device p c)"
  using assms inventory_ok_device [OF shelf_okD(1) [OF assms(1)]]
  by (cases "iv_devices c p") (auto simp: get_device_def obj_set_obj)

lemma demote_effect:
  "shelf_ok c \<Longrightarrow> demote_stale now ks c = (ch, c') \<Longrightarrow>
   shelf_ok c' \<and> (\<forall>p. get_device p c' = map_option (\<lambda>d. if p \<in> set ch then d\<lparr>online := False\<rparr> else d) (get_device p c))"
proof (induction now ks c arbitrary: ch c' rule: demote_stale.induct)
  case (2 now k ks c)
  note ok = 2(4) and run = 2(5) and IH_on = 2(2) and IH_off = 2(1,3)
  show ?case
  proof (cases "\<exists>r. iv_devices c k = Some r \<and> online (obj c r) \<and> stale_threshold < time_sub now (last_seen (obj c r))")
    case True
    then obtain r where r: "iv_devices c k = Some r" "online (obj c r)" "stale_threshold < time_sub now (last_seen (obj c r))"
      by blast
    let ?d = "(obj c r)\<lparr>online := False\<rparr>"
    have get: "get_device p (set_obj r ?d c) = (if p = k then Some ?d else get_device p c)" for p
      by (rule get_device_set_obj [OF ok r(1)]) simp
    have rec: "record_ok ?d" using shelf_okD(2) [OF ok, of k "obj c r"] r(1)
      by (simp add: get_device_def record_ok_def provider_named_def)
    have shelf: "shelf_ok (set_obj r ?d c)"
      using shelf_okD(3) [OF ok] inventory_ok_set_obj [OF shelf_okD(1) [OF ok], of ?d r] rec shelf_okD(2) [OF ok]
      by (auto simp: shelf_ok_def get index_ok_def obj_set_obj split: if_splits)
    from r run obtain ch1 where l: "demote_stale now ks (set_obj r ?d c) = (ch1, c')" "ch = k # ch1"
      by (auto split: prod.splits)
    from IH_on [OF r(1) conjI [OF r(2,3)] shelf l(1)] r(1) l(2) get show ?thesis
      by (auto simp: get_device_def)
  next
    case False
    then have "demote_stale now ks c = (ch, c')" using run by (auto split: option.splits if_splits)
    then show ?thesis using IH_off ok False by (cases "iv_devices c k") auto
  qed
qed (auto simp: option.map_ident)

subsection \<open>Memory and store\<close>

text \<open>What a row keeps of a device, without the addresses, which have their own tables, and without presence
  and sighting times, which an update leaves alone.\<close>

definition material :: "device \<Rightarrow> device" where
  "material d = updated_row empty_device (device_row d)"

text \<open>The device has a row, and saving it again would not change its row.\<close>

definition settled :: "device \<Rightarrow> device list \<Rightarrow> bool" where
  "settled d rows \<longleftrightarrow> pdid d \<in> pdid ` set rows
     \<and> (\<forall>r \<in> set rows. pdid r = pdid d \<longrightarrow> updated_row r (device_row d) = r)"

definition stored_form :: "device \<Rightarrow> bool" where
  "stored_form r \<longleftrightarrow> device_row r = r \<and> record_ok r"

definition rows_ok :: "device list \<Rightarrow> bool" where
  "rows_ok rows \<longleftrightarrow> distinct (map pdid rows) \<and> (\<forall>r \<in> set rows. stored_form r)"

definition service_ok :: "dis_engine \<Rightarrow> bool" where
  "service_ok e \<longleftrightarrow> shelf_ok (en_cache e) \<and> (\<forall>rows. stored_rows e = Some rows \<longrightarrow>
     rows_ok rows
     \<and> (\<forall>p d. get_device p (en_cache e) = Some d \<longrightarrow> p \<in> en_dirty e \<or> settled d rows))"

lemma updated_row_material: "updated_row r (device_row d) = updated_row r (material d)"
  by (simp add: updated_row_def material_def)

lemma pdid_rows [simp]: "pdid (device_row d) = pdid d" "pdid (updated_row r d) = pdid d" "pdid (material d) = pdid d"
  by (simp_all add: device_row_def updated_row_def material_def)

lemma settled_material: "material d' = material d \<Longrightarrow> settled d' rows \<longleftrightarrow> settled d rows"
  unfolding settled_def updated_row_material [of _ d'] updated_row_material [of _ d] by (metis pdid_rows(3))

lemma service_okD:
  assumes "service_ok e"
  shows "shelf_ok (en_cache e)" "stored_rows e = Some rows \<Longrightarrow> rows_ok rows"
    "stored_rows e = Some rows \<Longrightarrow> get_device p (en_cache e) = Some d \<Longrightarrow> p \<in> en_dirty e \<or> settled d rows"
    "get_device p (en_cache e) = Some d \<Longrightarrow> record_ok d \<and> pdid d = p \<and> p \<noteq> []"
  using assms shelf_okD(2) [of "en_cache e" p d] by (auto simp: service_ok_def)

lemma frameD:
  assumes "frame e e'"
  shows "get_device p (en_cache e') = get_device p (en_cache e)" "en_dirty e' = en_dirty e" "stored_rows e' = stored_rows e"
    "get_by_mac m (en_cache e') = get_by_mac m (en_cache e)" "get_by_ip a (en_cache e') = get_by_ip a (en_cache e)"
proof -
  show "get_by_mac m (en_cache e') = get_by_mac m (en_cache e)" "get_by_ip a (en_cache e') = get_by_ip a (en_cache e)"
    using assms by (auto simp: frame_def same_shelf_def get_by_mac_def get_by_ip_def obj_def [abs_def] Let_def)
qed (use assms get_device_same_shelf in \<open>auto simp: frame_def\<close>)

lemma service_ok_frame: "frame e e' \<Longrightarrow> service_ok e \<Longrightarrow> service_ok e'"
  using shelf_ok_same [of "en_cache e" "en_cache e'"]
  by (simp add: service_ok_def frameD) (auto simp: frame_def)

lemma mark_dirty_fields [simp]:
  "en_cache (mark_dirty p e) = en_cache e" "stored_rows (mark_dirty p e) = stored_rows e"
  "en_store (mark_dirty p e) = en_store e"
  by (simp_all add: mark_dirty_def stored_rows_def)

lemma dirty_mark: "stored_rows e = Some rows \<Longrightarrow> p \<noteq> [] \<Longrightarrow> en_dirty (mark_dirty p e) = insert p (en_dirty e)"
  by (auto simp: mark_dirty_def stored_rows_def)

lemma dirty_subset: "en_dirty e \<subseteq> en_dirty (mark_dirty p e)"
  by (auto simp: mark_dirty_def)

lemma service_ok_mark: "service_ok e \<Longrightarrow> service_ok (mark_dirty p e)"
  using dirty_subset [of e p] unfolding service_ok_def mark_dirty_fields by blast

lemma put_device_fields [simp]:
  "en_cache (put_device d e) = upsert d (en_cache e)" "en_dirty (put_device d e) = en_dirty e"
  "stored_rows (put_device d e) = stored_rows e" "en_store (put_device d e) = en_store e"
  by (simp_all add: put_device_def stored_rows_def)

text \<open>A device may be put back if it is marked or nothing material changed.\<close>

lemma service_ok_put:
  assumes ok: "service_ok e" and d: "record_ok d" "pdid d \<noteq> []"
    and m: "b \<or> (\<exists>d0. get_device (pdid d) (en_cache e) = Some d0 \<and> material d = material d0)"
  shows "service_ok (if b then mark_dirty (pdid d) (put_device d e) else put_device d e)" (is "service_ok ?e")
proof -
  have c: "en_cache ?e = upsert d (en_cache e)" "stored_rows ?e = stored_rows e" by simp_all
  note get = get_device_upsert [OF service_okD(1) [OF ok] d(2)]
  have "p \<in> en_dirty ?e \<or> settled x rows"
    if "stored_rows e = Some rows" "get_device p (upsert d (en_cache e)) = Some x" for rows p x
  proof (cases "p = pdid d")
    case True
    with that get have x: "x = d" by simp
    show ?thesis
    proof (cases b)
      case True
      then show ?thesis using that(1) d(2) \<open>p = pdid d\<close> by (simp add: dirty_mark)
    next
      case False
      with m obtain d0 where "get_device p (en_cache e) = Some d0" "material d = material d0"
        using \<open>p = pdid d\<close> by blast
      with service_okD(3) [OF ok that(1), of p d0] settled_material [of d d0 rows] False x show ?thesis by auto
    qed
  qed (use that service_okD(3) [OF ok that(1), of p x] dirty_subset [of "put_device d e" "pdid d"] in \<open>auto simp: get\<close>)
  with service_okD(1,2) [OF ok] shelf_ok_upsert d show ?thesis
    unfolding service_ok_def c by auto
qed

text \<open>A part of an observation hands a device on: it keeps its identity and its addresses, comes online only if
  \<open>up\<close>, and \<open>b\<close> tells when something material changed.\<close>

definition flows :: "bool \<Rightarrow> device \<Rightarrow> bool \<Rightarrow> device \<Rightarrow> bool" where
  "flows up d b d' \<longleftrightarrow> pdid d' = pdid d \<and> macs d' = macs d \<and> (record_ok d \<longrightarrow> record_ok d')
     \<and> (\<not> b \<longrightarrow> record_ok d \<longrightarrow> material d' = material d) \<and> (online d' \<longrightarrow> online d \<or> up)"

lemma flows_refl: "flows up d False d"
  by (simp add: flows_def)

lemma flows_trans: "flows up d b d' \<Longrightarrow> flows up d' b' d'' \<Longrightarrow> flows up d (b \<or> b') d''"
  by (auto simp: flows_def)

text \<open>Only the kind, the name and the vendor differ.\<close>

definition unlabelled :: "device \<Rightarrow> device" where
  "unlabelled d = d\<lparr>device_type := [], friendly_name := [], vendor := []\<rparr>"

lemma unlabelled_same:
  assumes "unlabelled d' = unlabelled d" "device_type d' = device_type d" "friendly_name d' = friendly_name d"
    "vendor d' = vendor d"
  shows "d' = d"
  using assms by (cases d, cases d') (simp add: unlabelled_def)

lemma unlabelled_updates:
  "unlabelled (d\<lparr>device_type := t\<rparr>) = unlabelled d" "unlabelled (d\<lparr>vendor := v\<rparr>) = unlabelled d"
  "unlabelled (name_if_empty n d) = unlabelled d"
  by (simp_all add: unlabelled_def name_if_empty_def)

lemma apply_smart_fields:
  assumes "apply_smart d = (b, d')"
  shows "unlabelled d' = unlabelled d" "\<not> b \<Longrightarrow> d' = d"
proof -
  define d1 where "d1 = (if gateway_address (current_ip d)
    then name_if_empty ''Network Gateway Router'' (d\<lparr>device_type := ''infrastructure''\<rparr>) else d)"
  define d2 where "d2 = (if has_prefix (hostname d1) ''amzn.'' \<or> contains_sub (hostname d1) ''amzn.dmgr''
      then name_if_empty ''Amazon Alexa Device'' (d1\<lparr>vendor := ''Amazon Technologies Inc.'', device_type := ''iot''\<rparr>) else d1)"
  have "apply_smart d = (device_type d \<noteq> device_type d2 \<or> friendly_name d \<noteq> friendly_name d2 \<or> vendor d \<noteq> vendor d2, d2)"
    by (simp only: apply_smart_def Let_def d1_def [symmetric] d2_def [symmetric])
  with assms have b: "b \<longleftrightarrow> device_type d \<noteq> device_type d2 \<or> friendly_name d \<noteq> friendly_name d2 \<or> vendor d \<noteq> vendor d2"
    and d': "d' = d2" by auto
  have "unlabelled d1 = unlabelled d" unfolding d1_def by (simp add: unlabelled_updates)
  moreover have "unlabelled d2 = unlabelled d1" unfolding d2_def by (simp add: unlabelled_updates)
  ultimately show r: "unlabelled d' = unlabelled d" by (simp add: d')
  show "d' = d" if "\<not> b" using that b by (intro unlabelled_same [OF r]) (simp_all add: d')
qed

lemma unlabelled_fields:
  assumes "unlabelled d' = unlabelled d"
  shows "pdid d' = pdid d" "device_id d' = device_id d" "macs d' = macs d" "source_info d' = source_info d"
    "online d' = online d" "pending_online_obs d' = pending_online_obs d" "current_mac d' = current_mac d"
    "ips d' = ips d"
  using assms by (cases d, cases d', simp add: unlabelled_def)+

lemma confirm_presence_flows:
  assumes "confirm_presence w obs d e = (b, d', e')"
  shows "flows (obs_online obs \<and> can_trigger_online (obs_source obs)) d b d'" "frame e e'"
proof -
  obtain c x where x: "apply_smart (if obs_source obs \<in> set (pending_online_obs d) then d
      else d\<lparr>pending_online_obs := pending_online_obs d @ [obs_source obs]\<rparr>) = (c, x)" by fastforce
  note f = apply_smart_fields [OF x] unlabelled_fields [OF apply_smart_fields(1) [OF x]]
  have m: "material x = material d" if "\<not> c"
    using f(2) [OF that] by (simp add: material_def updated_row_def device_row_def)
  have r: "record_ok x \<longleftrightarrow> record_ok d"
    using f by (simp add: record_ok_def provider_named_def)
  have p: "material (x\<lparr>online := True, pending_online_obs := []\<rparr>) = material x"
    "record_ok (x\<lparr>online := True, pending_online_obs := []\<rparr>) = record_ok x"
    by (simp_all add: material_def updated_row_def device_row_def record_ok_def provider_named_def)
  show "flows (obs_online obs \<and> can_trigger_online (obs_source obs)) d b d'"
    using assms f m r p x
    by (auto simp: confirm_presence_def Let_def flows_def split: if_splits)
  show "frame e e'" using assms x
    by (auto simp: confirm_presence_def Let_def frames split: if_splits)
qed

lemma rename_flows:
  assumes "rename_device w obs h cl d e = Some (b, d', e')"
  shows "flows up d b d'" "frame e e'"
proof -
  show "flows up d b d'"
    using assms by (auto simp: rename_device_def Let_def flows_def record_ok_def provider_named_def split: if_splits)
  have acq: "frame e0 (snd (acquire w h0 p e0))" for h0 p e0
    by (rule frame_acquire [of w h0 p e0 "fst (acquire w h0 p e0)"]) simp
  show "frame e e'" using assms acq frame_release frame_submit
    by (auto simp: rename_device_def Let_def frames split: if_splits) (blast intro: frame_trans)+
qed

lemma readdress_flows:
  assumes "readdress_device w obs ip d e = Some (b, d', e')"
  shows "flows up d b d'" "frame e e'"
proof -
  show "flows up d b d'" using assms
    by (auto simp: readdress_device_def flows_def record_ok_def provider_named_def add_ip_def Let_def split: if_splits)
  show "frame e e'" using assms
    by (auto simp: readdress_device_def frames split: if_splits intro: frame_submit)
qed

lemma add_services_fields:
  "add_services ss d = (b, d') \<Longrightarrow> d' = d\<lparr>services := services d'\<rparr> \<and> (\<not> b \<longrightarrow> d' = d)"
proof (induction ss arbitrary: d b)
  case (Cons s ss)
  obtain b1 d1 where 1: "add_service d s = (b1, d1)" by fastforce
  then have "d1 = d\<lparr>services := services d1\<rparr> \<and> (\<not> b1 \<longrightarrow> d1 = d)"
    by (auto simp: add_service_def Let_def split: if_splits)
  moreover from 1 Cons.prems obtain b2 where 2: "add_services ss d1 = (b2, d')" "b \<longleftrightarrow> b1 \<or> b2"
    by (auto split: prod.splits)
  moreover note Cons.IH [OF 2(1)]
  moreover have "d'\<lparr>services := services d'\<rparr> = d'" by simp
  ultimately show ?case by (metis device.update_convs(16) device.surjective)
qed simp

lemma record_source_flows:
  assumes "record_observation_source obs seen d = (b, d')" and src: "obs_source obs \<notin> enrichment_keys"
  shows "flows up d b d'"
proof (cases "trim_space (obs_source obs) = []")
  case False
  let ?s = "obs_source obs"
  let ?m = "\<lparr>meta_source = ?s, meta_confidence = obs_confidence obs, meta_timestamp = seen, meta_raw = obs_raw obs\<rparr>"
  have d': "d' = d\<lparr>source_info := (source_info d)(?s \<mapsto> ?m)\<rparr>"
    and b: "\<not> b \<Longrightarrow> \<exists>p. source_info d ?s = Some p \<and> meta_confidence p = obs_confidence obs
      \<and> material_raw (meta_raw p) = material_raw (obs_raw obs)"
    using assms(1) False
    by (auto simp: record_observation_source_def Let_def material_raw_equal_def split: option.splits)
  have "material_source_info (source_info d') = material_source_info (source_info d)" if nb: "\<not> b" and ok: "record_ok d"
  proof -
    from b [OF nb] obtain p where p: "source_info d ?s = Some p" "meta_confidence p = obs_confidence obs"
      "material_raw (meta_raw p) = material_raw (obs_raw obs)" by blast
    moreover have "meta_source p = ?s"
      using ok src p(1) by (auto simp: record_ok_def provider_named_def)
    ultimately show ?thesis by (auto simp: d' material_source_info_def fun_eq_iff intro!: source_meta.equality)
  qed
  then show ?thesis
    by (auto simp: flows_def d' record_ok_def provider_named_def material_def updated_row_def device_row_def)
qed (use assms in \<open>simp add: record_observation_source_def flows_refl\<close>)

lemma describe_flows:
  assumes "describe_device w obs d = (b, d')" and src: "obs_source obs \<notin> enrichment_keys"
  shows "flows up d b d'"
proof -
  obtain b1 d1 where 1: "record_observation_source obs (seen_at w obs) d = (b1, d1)" by fastforce
  obtain b2 d2 where 2: "add_services (obs_services obs) d1 = (b2, d2)" by fastforce
  have f1: "flows up d b1 d1" using 1 src by (rule record_source_flows)
  have f2: "flows up d1 b2 d2"
    using add_services_fields [OF 2]
    by (cases d1, cases d2) (auto simp: flows_def record_ok_def provider_named_def material_def updated_row_def device_row_def)
  define c d3 where "c \<longleftrightarrow> vendor d2 = [] \<and> trim_space (obs_vendor obs) \<noteq> []"
    and "d3 = (if c then d2\<lparr>vendor := trim_space (obs_vendor obs)\<rparr> else d2)"
  define x d4 where "x \<longleftrightarrow> model d3 = [] \<and> trim_space (obs_model obs) \<noteq> []"
    and "d4 = (if x then d3\<lparr>model := trim_space (obs_model obs)\<rparr> else d3)"
  have f3: "flows up d2 c d3" and f4: "flows up d3 x d4"
    by (auto simp: d3_def d4_def flows_def record_ok_def provider_named_def)
  have f5: "flows up d4 False (if last_seen d4 < seen_at w obs then touch d4 (seen_at w obs) else d4)"
    by (auto simp: flows_def touch_def Let_def record_ok_def provider_named_def material_def updated_row_def device_row_def)
  have "b = (b1 \<or> b2 \<or> c \<or> x)" "d' = (if last_seen d4 < seen_at w obs then touch d4 (seen_at w obs) else d4)"
    using assms(1) 1 2 by (auto simp: describe_device_def Let_def c_def d3_def x_def d4_def split: if_splits)
  with flows_trans [OF f1 flows_trans [OF f2 flows_trans [OF f3 flows_trans [OF f4 f5]]]] show ?thesis by simp
qed

text \<open>A known device after an observation.\<close>

definition held :: "dis_engine \<Rightarrow> string \<Rightarrow> device option" where
  "held e p = get_device p (en_cache e)"

lemma promote_effect:
  assumes ok: "service_ok e" and d: "record_ok d" "pdid d \<noteq> []"
    and e': "e' = promote_device w tier anchor host d e"
  shows "service_ok e'" "\<exists>d'. pdid d' = pdid d \<and> macs d' = macs d \<and> online d' = online d
    \<and> held e' = (held e)(pdid d \<mapsto> d')"
proof -
  define d' where "d' = d\<lparr>identity_tier := tier, identity_anchor := anchor, canonical_hostname := host\<rparr>"
  have d': "record_ok d'" "pdid d' = pdid d" "macs d' = macs d" "online d' = online d"
    using d by (simp_all add: d'_def record_ok_def provider_named_def)
  define e1 where "e1 = mark_dirty (pdid d) (put_device d' e)"
  have 1: "service_ok e1" using service_ok_put [OF ok d'(1), of True] d d'(2) by (simp add: e1_def)
  have f: "frame e1 e'" unfolding e' promote_device_def Let_def d'_def [symmetric] e1_def by (rule frames)
  from service_ok_frame [OF f 1] show "service_ok e'" .
  have "held e' p = ((held e)(pdid d \<mapsto> d')) p" for p
    using get_device_upsert [OF service_okD(1) [OF ok], of d'] d d'(2) by (simp add: held_def frameD(1) [OF f] e1_def)
  with d' show "\<exists>d'. pdid d' = pdid d \<and> macs d' = macs d \<and> online d' = online d \<and> held e' = (held e)(pdid d \<mapsto> d')"
    by blast
qed

lemma held_frame: "frame e e' \<Longrightarrow> held e' = held e"
  by (simp add: held_def fun_eq_iff frameD)

text \<open>\<open>d\<close> is what the claims made of the device that is held as \<open>d0\<close>.\<close>

lemma update_known_effect:
  assumes ok: "service_ok e" and d0: "held e (pdid d) = Some d0" and d: "record_ok d" "dirty \<or> material d = material d0"
    and src: "obs_source obs \<notin> enrichment_keys"
    and run: "update_known w obs mac ip host clean sigs dirty d e = Some e'"
  shows "service_ok e'" "\<exists>d'. pdid d' = pdid d \<and> macs d' = macs d
    \<and> (online d' \<longrightarrow> online d \<or> obs_online obs \<and> can_trigger_online (obs_source obs)) \<and> held e' = (held e)(pdid d \<mapsto> d')"
proof -
  let ?up = "obs_online obs \<and> can_trigger_online (obs_source obs)"
  define e1 where "e1 = record_identity_signals w d sigs None (seen_at w obs) e"
  have f1: "frame e e1" unfolding e1_def by (rule frames)
  have ok1: "service_ok e1" using f1 ok by (rule service_ok_frame)
  have p: "pdid d \<noteq> []" using service_okD(4) [OF ok] d0 by (auto simp: held_def)
  obtain tier anchor where t: "derive_tier_and_anchor (wd_now w) mac host (obs_vendor obs) = (tier, anchor)" by fastforce
  have "service_ok e' \<and> (\<exists>d'. pdid d' = pdid d \<and> macs d' = macs d \<and> (online d' \<longrightarrow> online d \<or> ?up)
    \<and> held e' = (held e)(pdid d \<mapsto> d'))"
  proof (cases "can_promote (identity_tier d) tier")
    case True
    with run t have e': "e' = promote_device w tier anchor host d e1"
      by (simp add: update_known_def Let_def e1_def [symmetric])
    from promote_effect [OF ok1 d(1) p e'] show ?thesis by (auto simp: held_frame [OF f1])
  next
    case False
    obtain b1 d1 e2 where c: "confirm_presence w obs d e1 = (b1, d1, e2)" by (metis prod.collapse)
    from run False t c obtain b2 d2 e3 b3 d3 e4 where
      r: "rename_device w obs host clean d1 e2 = Some (b2, d2, e3)"
      and a: "readdress_device w obs ip d2 e3 = Some (b3, d3, e4)"
      and e0: "e' = (case describe_device w obs d3 of (b4, d4) \<Rightarrow>
        if dirty \<or> b1 \<or> b2 \<or> b3 \<or> b4 then mark_dirty (pdid d4) (put_device d4 e4) else put_device d4 e4)"
      by (auto simp: update_known_def Let_def e1_def [symmetric] bind_eq_Some_conv)
    obtain b4 d4 where b: "describe_device w obs d3 = (b4, d4)" by fastforce
    from e0 b have e': "e' = (if dirty \<or> b1 \<or> b2 \<or> b3 \<or> b4 then mark_dirty (pdid d4) (put_device d4 e4) else put_device d4 e4)"
      by simp
    have fl: "flows ?up d (b1 \<or> b2 \<or> b3 \<or> b4) d4"
      using flows_trans [OF confirm_presence_flows(1) [OF c] flows_trans [OF rename_flows(1) [OF r]
          flows_trans [OF readdress_flows(1) [OF a] describe_flows [OF b src]]]] .
    have f: "frame e e4"
      using f1 confirm_presence_flows(2) [OF c] rename_flows(2) [OF r] readdress_flows(2) [OF a] by (blast intro: frame_trans)
    have ok4: "service_ok e4" using f ok by (rule service_ok_frame)
    have d4: "record_ok d4" "pdid d4 = pdid d" using fl d by (auto simp: flows_def)
    have m: "(dirty \<or> b1 \<or> b2 \<or> b3 \<or> b4) \<or> (\<exists>x. get_device (pdid d4) (en_cache e4) = Some x \<and> material d4 = material x)"
      using d fl d0 by (auto simp: flows_def held_def frameD(1) [OF f] d4(2))
    have "service_ok e'" unfolding e' by (rule service_ok_put [OF ok4 d4(1) _ m]) (simp add: d4 p)
    moreover have "held e' = (held e)(pdid d \<mapsto> d4)"
      using get_device_upsert [OF service_okD(1) [OF ok4], of d4] p d4(2) held_frame [OF f]
      by (auto simp: e' held_def fun_eq_iff)
    ultimately show ?thesis using fl by (auto simp: flows_def)
  qed
  then show "service_ok e'" "\<exists>d'. pdid d' = pdid d \<and> macs d' = macs d \<and> (online d' \<longrightarrow> online d \<or> ?up)
    \<and> held e' = (held e)(pdid d \<mapsto> d')" by blast+
qed

subsection \<open>Saved devices\<close>

lemma keeps_rows_sync: "keeps (rows_kept rows) (sync_addresses dd_macs insert_mac
      (\<lambda>p a db. Inr (db\<lparr>dd_macs := delete_address p a (dd_macs db)\<rparr>)) ord p xs)"
  "keeps (rows_kept rows) (sync_addresses dd_ips insert_ip
      (\<lambda>p a db. Inr (db\<lparr>dd_ips := delete_address p a (dd_ips db)\<rparr>)) ord p xs)"
  by (intro keeps_sync db_inv)+

lemma saved_rows:
  assumes "save_device_tx rnd ord d out (n, db) = (Inr t, n', db')" "pdid d \<noteq> []" "device_id d \<noteq> []"
  shows "dd_devices db' = upsert_row pdid updated_row (device_row d) (dd_devices db)" "t = d"
proof -
  show "t = d" using save_tx_succeeds(2) [OF assms(1,2,3)] .
  from assms have run: "then_io (exec (upsert_device_row d))
          (then_io (sync_addresses dd_macs insert_mac (\<lambda>p a db. Inr (db\<lparr>dd_macs := delete_address p a (dd_macs db)\<rparr>))
                      ord (pdid d) (macs d))
            (then_io (sync_addresses dd_ips insert_ip (\<lambda>p a db. Inr (db\<lparr>dd_ips := delete_address p a (dd_ips db)\<rparr>))
                        ord (pdid d) (ips d))
              (return_io d))) out (n, db) = (Inr t, n', db')"
    by (simp add: save_device_tx_def bind_io_def return_io_def)
  then obtain n2 db2 where u: "upsert_device_row d db = Inr db2"
    and r: "then_io (sync_addresses dd_macs insert_mac (\<lambda>p a db. Inr (db\<lparr>dd_macs := delete_address p a (dd_macs db)\<rparr>))
                      ord (pdid d) (macs d))
            (then_io (sync_addresses dd_ips insert_ip (\<lambda>p a db. Inr (db\<lparr>dd_ips := delete_address p a (dd_ips db)\<rparr>))
                        ord (pdid d) (ips d))
              (return_io d)) out (n2, db2) = (Inr t, n', db')"
    by (rule then_succeeds) (auto simp: exec_succeeds)
  have "keeps (rows_kept (dd_devices db2)) (then_io (sync_addresses dd_macs insert_mac (\<lambda>p a db. Inr (db\<lparr>dd_macs := delete_address p a (dd_macs db)\<rparr>))
                      ord (pdid d) (macs d))
            (then_io (sync_addresses dd_ips insert_ip (\<lambda>p a db. Inr (db\<lparr>dd_ips := delete_address p a (dd_ips db)\<rparr>))
                        ord (pdid d) (ips d))
              (return_io d)))"
    by (intro keeps_then keeps_rows_sync db_inv)
  from keepsD [OF this refl r] u show "dd_devices db' = upsert_row pdid updated_row (device_row d) (dd_devices db)"
    by (auto simp: upsert_device_row_def split: if_splits)
qed

lemma material_raw_idem [simp]: "material_raw (material_raw r) = material_raw r"
  by (simp add: material_raw_def fun_eq_iff)

lemma material_source_info_idem [simp]: "material_source_info (material_source_info si) = material_source_info si"
  by (simp add: material_source_info_def fun_eq_iff option.map_comp o_def)

lemma material_source_named:
  "material_source_info si s = Some m \<Longrightarrow> \<exists>m0. si s = Some m0 \<and> meta_source m = meta_source m0"
  by (auto simp: material_source_info_def)

lemma stored_form_row: "record_ok d \<Longrightarrow> stored_form (device_row d)" "record_ok d \<Longrightarrow> stored_form (updated_row r (device_row d))"
  using material_source_named [of "source_info d"]
  by (auto simp: stored_form_def device_row_def updated_row_def record_ok_def provider_named_def)

lemma updated_row_again: "updated_row (updated_row r (device_row d)) (device_row d) = updated_row r (device_row d)"
  "updated_row (device_row d) (device_row d) = device_row d"
  by (simp_all add: updated_row_def device_row_def)

lemma settled_upserted:
  "settled d (upsert_row pdid updated_row (device_row d) rows)"
  using keys_upsert [of pdid "device_row d" updated_row rows]
  by (auto simp: settled_def upsert_row_def updated_row_again split: if_splits)

lemma settled_other:
  "settled x rows \<Longrightarrow> pdid x \<noteq> pdid d \<Longrightarrow> settled x (upsert_row pdid updated_row (device_row d) rows)"
  using keys_upsert [of pdid "device_row d" updated_row rows]
  by (auto simp: settled_def upsert_row_def split: if_splits)

lemma stored_upserted:
  "rows_ok rows \<Longrightarrow> record_ok d \<Longrightarrow> rows_ok (upsert_row pdid updated_row (device_row d) rows)"
  unfolding rows_ok_def by (intro conjI distinct_upsert_row) (auto simp: upsert_row_def stored_form_row)

subsection \<open>A new device\<close>

lemma new_identity_nonempty: "new_permanent_identity rnd = Some (i, p) \<Longrightarrow> i \<noteq> [] \<and> p \<noteq> []"
  by (auto simp: new_permanent_identity_def Let_def)

lemma save_device_outcome:
  assumes "on_store w (save_device rnd ord d) e = (r, e')" "pdid d \<noteq> []" "device_id d \<noteq> []"
  shows "en_cache e' = en_cache e" "en_dirty e' = en_dirty e"
    "r = Some (Inl err) \<Longrightarrow> stored_rows e' = stored_rows e"
    "r = None \<Longrightarrow> stored_rows e' = None"
    "r = Some (Inr u) \<Longrightarrow> stored_rows e' = map_option (upsert_row pdid updated_row (device_row d)) (stored_rows e)"
proof -
  show "en_cache e' = en_cache e" "en_dirty e' = en_dirty e"
    using assms(1) by (auto simp: on_store_def split: option.splits prod.splits)
  show "r = None \<Longrightarrow> stored_rows e' = None"
    using assms(1) by (auto simp: on_store_def stored_rows_def split: option.splits prod.splits)
  show "r = Some (Inl err) \<Longrightarrow> stored_rows e' = stored_rows e"
    using assms(1) transaction_fails [of "save_device_tx rnd ord d" "wd_out w"]
    by (fastforce simp: on_store_def stored_rows_def save_device_def split: option.splits prod.splits)
  assume "r = Some (Inr u)"
  with assms(1) obtain n db n' db' where s: "en_store e = Some (n, db)" "e' = e\<lparr>en_store := Some (n', db')\<rparr>"
    "transaction (save_device_tx rnd ord d) (wd_out w) (n, db) = (Inr u, n', db')"
    by (auto simp: on_store_def save_device_def split: option.splits prod.splits)
  from transaction_succeeds [OF s(3)] obtain k where "save_device_tx rnd ord d (wd_out w) (Suc n, db) = (Inr u, k, db')" by blast
  from saved_rows(1) [OF this assms(2,3)] s show "stored_rows e' = map_option (upsert_row pdid updated_row (device_row d)) (stored_rows e)"
    by (simp add: stored_rows_def)
qed

lemma forget_device_effect:
  assumes ok: "shelf_ok (en_cache e)"
  shows "shelf_ok (en_cache (forget_device w p e))" "held (forget_device w p e) = (held e)(p := None)"
    "en_dirty (forget_device w p e) = en_dirty e" "stored_rows (forget_device w p e) = stored_rows e"
proof -
  obtain calls c where c: "delete_device p (en_cache e) = (calls, c)" by fastforce
  then have c': "c = snd (delete_device p (en_cache e))" by simp
  have f: "frame (e\<lparr>en_cache := c\<rparr>) (forget_device w p e)" by (simp add: forget_device_def c frames)
  show "held (forget_device w p e) = (held e)(p := None)"
    unfolding held_frame [OF f] by (simp add: held_def fun_eq_iff c' get_device_delete)
  show "en_dirty (forget_device w p e) = en_dirty e" "stored_rows (forget_device w p e) = stored_rows e"
    using frameD(2,3) [OF f] by (simp_all add: stored_rows_def)
  show "shelf_ok (en_cache (forget_device w p e))"
    using shelf_ok_delete [OF ok, of p] f by (auto simp: frame_def c' intro: shelf_ok_same)
qed

lemma frame_announce [frames]: "frame e (announce_new w d e)"
proof -
  define e1 where "e1 = broadcast_event w EventDeviceAdded (pdid d) (DevicePayload d) e"
  define e2 where "e2 = (if online d then broadcast_event w EventDeviceOnline (pdid d) (DevicePayload d) e1
    else if pending_online_obs d \<noteq> [] then schedule_deferred w (pdid d) (30 * second) e1 else e1)"
  have "frame e e1" "frame e1 e2" by (simp_all add: e1_def e2_def frames)
  moreover have "frame e2 (announce_new w d e)"
    by (simp add: announce_new_def Let_def e1_def [symmetric] e2_def [symmetric] frames)
  ultimately show ?thesis by (blast intro: frame_trans)
qed

lemma add_services_same:
  assumes "add_services ss d = (b, d')"
  shows "pdid d' = pdid d" "device_id d' = device_id d" "macs d' = macs d" "online d' = online d" "source_info d' = source_info d"
proof -
  have x: "d' = d\<lparr>services := services d'\<rparr>" using add_services_fields [OF assms] by blast
  show "pdid d' = pdid d" by (subst x) simp
  show "device_id d' = device_id d" by (subst x) simp
  show "macs d' = macs d" by (subst x) simp
  show "online d' = online d" by (subst x) simp
  show "source_info d' = source_info d" by (subst x) simp
qed

lemma first_device_fields:
  fixes w obs mac ip host clean cand i p
  assumes "obs_source obs \<notin> enrichment_keys" "i \<noteq> []"
  defines "d \<equiv> first_device w obs mac ip host clean cand i p"
  shows "pdid d = p" "device_id d = i" "record_ok d" "set (macs d) \<subseteq> {clean_mac mac}"
    "online d \<Longrightarrow> obs_online obs \<and> can_trigger_online (obs_source obs)"
proof -
  obtain tier anchor assu prob amb where t: "derive_tier_and_anchor (wd_now w) mac host (obs_vendor obs) = (tier, anchor)"
    "new_assurance mac cand = (assu, prob, amb)" by (metis prod.collapse)
  define d1 where "d1 = add_mac (empty_device\<lparr>device_id := i, pdid := p, identity_tier := tier, identity_anchor := anchor,
     canonical_hostname := host, hostname := clean, vendor := obs_vendor obs, model := obs_model obs,
     confidence := obs_confidence obs, assurance := assu, probability := prob, ambiguous := amb\<rparr>) mac"
  define d2 where "d2 = (if obs_source obs \<noteq> ''pihole'' then add_ip d1 ip else d1)"
  obtain b2 x where x: "add_services (obs_services obs) d2 = (b2, x)" by fastforce
  define d3 where "d3 = touch x (seen_at w obs)"
  obtain b4 d4 where r: "record_observation_source obs (seen_at w obs) d3 = (b4, d4)" by fastforce
  obtain b5 d5 where s: "apply_smart (d4\<lparr>pending_online_obs := pending_online_obs d4 @ [obs_source obs]\<rparr>) = (b5, d5)" by fastforce
  have d: "d = (if obs_online obs \<and> can_trigger_online (obs_source obs)
      then if authoritative_l2 (obs_source obs) \<or> is_infra d5 then d5\<lparr>online := True, pending_online_obs := []\<rparr> else d5
      else d4)"
    by (simp only: d_def first_device_def t prod.case Let_def d1_def [symmetric] d2_def [symmetric] x snd_conv
        d3_def [symmetric] r s)
  define good where "good x \<longleftrightarrow> pdid x = p \<and> device_id x = i \<and> record_ok x \<and> set (macs x) \<subseteq> {clean_mac mac}" for x
  have 1: "pdid d1 = p" "device_id d1 = i" "source_info d1 = Map.empty" "set (macs d1) \<subseteq> {clean_mac mac}" "\<not> online d1"
    by (auto simp: d1_def add_mac_def Let_def empty_device_def max_historical_macs_def)
  have 2: "pdid d2 = p" "device_id d2 = i" "source_info d2 = Map.empty" "set (macs d2) \<subseteq> {clean_mac mac}" "\<not> online d2"
    using 1 by (auto simp: d2_def add_ip_def Let_def)
  have 3: "good d3" "\<not> online d3"
    using 2 add_services_same [OF x] assms(2)
    by (auto simp: good_def d3_def touch_def Let_def record_ok_def provider_named_def)
  have 4: "good d4" "\<not> online d4"
    using 3 record_source_flows [OF r assms(1), of False] r
    by (auto simp: good_def flows_def record_observation_source_def Let_def split: if_splits)
  note f = unlabelled_fields [OF apply_smart_fields(1) [OF s]]
  have 5: "good d5" using 4(1) f assms(2) by (simp add: good_def record_ok_def provider_named_def)
  have "good (d5\<lparr>online := True, pending_online_obs := []\<rparr>)"
    using 5 assms(2) by (simp add: good_def record_ok_def provider_named_def)
  with 4 5 have "good d" by (simp add: d)
  then show "pdid d = p" "device_id d = i" "record_ok d" "set (macs d) \<subseteq> {clean_mac mac}" by (simp_all add: good_def)
  show "online d \<Longrightarrow> obs_online obs \<and> can_trigger_online (obs_source obs)" using 4(2) by (auto simp: d split: if_splits)
qed

text \<open>A new device is kept, or it could not be stored and its PDID is not held afterwards.\<close>

lemma add_device_effect:
  assumes ok: "service_ok e" and src: "obs_source obs \<notin> enrichment_keys"
    and e': "e' = add_device w obs mac ip host clean sigs cand e"
  shows "service_ok e'"
    "held e' = held e \<or> (\<exists>i p. new_permanent_identity (wd_random w) = Some (i, p) \<and>
       (held e' = (held e)(p := None) \<or> (\<exists>d. pdid d = p \<and> set (macs d) \<subseteq> {clean_mac mac}
         \<and> (online d \<longrightarrow> obs_online obs \<and> can_trigger_online (obs_source obs)) \<and> held e' = (held e)(p \<mapsto> d))))"
proof -
  have "service_ok e' \<and> (held e' = held e \<or> (\<exists>i p. new_permanent_identity (wd_random w) = Some (i, p) \<and>
       (held e' = (held e)(p := None) \<or> (\<exists>d. pdid d = p \<and> set (macs d) \<subseteq> {clean_mac mac}
         \<and> (online d \<longrightarrow> obs_online obs \<and> can_trigger_online (obs_source obs)) \<and> held e' = (held e)(p \<mapsto> d)))))"
  proof (cases "new_permanent_identity (wd_random w)")
    case (Some ip0)
    obtain i p where ip: "new_permanent_identity (wd_random w) = Some (i, p)" using Some by (cases ip0) auto
    note ne = new_identity_nonempty [OF ip]
    define d where "d = first_device w obs mac ip host clean cand i p"
    note d = first_device_fields [OF src, of i w mac ip host clean cand p, folded d_def]
    define e1 where "e1 = put_device d e"
    define e2 where "e2 = (if host \<noteq> [] then snd (acquire w host p e1) else e1)"
    have run: "e' = (case on_store w (save_device (wd_save_random w) (wd_ord w) d) e2 of
        (Some (Inl _), e3) \<Rightarrow> forget_device w p e3
      | (_, e3) \<Rightarrow> announce_new w d (record_identity_signals w d sigs cand (seen_at w obs) e3))"
      by (simp only: e' add_device_def ip option.case prod.case Let_def d_def e1_def e2_def)
    have f2: "frame e1 e2" using frame_acquire [of w host p e1 "fst (acquire w host p e1)" "snd (acquire w host p e1)"]
      by (simp add: e2_def frames)
    obtain r e3 where s: "on_store w (save_device (wd_save_random w) (wd_ord w) d) e2 = (r, e3)" by fastforce
    note s = s save_device_outcome [OF s]
    have h1: "held e1 = (held e)(p \<mapsto> d)"
      using get_device_upsert [OF service_okD(1) [OF ok], of d] d(1) ne by (auto simp: held_def e1_def fun_eq_iff)
    have c3: "en_cache e3 = en_cache e2" "en_dirty e3 = en_dirty e" "held e3 = (held e)(p \<mapsto> d)"
      using s(2,3) d ne held_frame [OF f2] h1 frameD(2) [OF f2] by (simp_all add: held_def e1_def fun_eq_iff)
    have shelf: "shelf_ok (en_cache e3)"
      using shelf_ok_upsert [OF service_okD(1) [OF ok] d(3)] ne shelf_ok_same [of "en_cache e1" "en_cache e2"] f2 c3(1)
      by (simp add: e1_def frame_def)
    have rows: "stored_rows e2 = stored_rows e" using frameD(3) [OF f2] by (simp add: e1_def)
    show ?thesis
    proof (cases "\<exists>err. r = Some (Inl err)")
      case True
      then obtain err where r: "r = Some (Inl err)" ..
      have e'': "e' = forget_device w p e3"
        by (simp only: run s(1) r prod.case option.case sum.case)
      note rem = forget_device_effect [OF shelf, of w p, folded e'']
      have "stored_rows e' = stored_rows e" using rem(4) s(4) [OF _ _ r] d ne rows by simp
      moreover have "held e' = (held e)(p := None)" using rem(2) c3(3) by simp
      moreover have "en_dirty e' = en_dirty e" using rem(3) c3(2) by simp
      ultimately have "service_ok e'"
        using ok rem(1) unfolding service_ok_def held_def fun_eq_iff by (auto split: if_splits)
      with ip \<open>held e' = (held e)(p := None)\<close> show ?thesis by blast
    next
      case False
      define e4 where "e4 = record_identity_signals w d sigs cand (seen_at w obs) e3"
      have e'': "e' = announce_new w d e4"
        using False unfolding run s(1) e4_def by (auto split: option.split sum.split)
      have f: "frame e3 e'" unfolding e'' e4_def by (blast intro: frame_trans frames)
      have rows3: "stored_rows e3 = None \<or> stored_rows e3 = map_option (upsert_row pdid updated_row (device_row d)) (stored_rows e)"
        using False s(5,6) d ne rows by (cases r) (auto split: sum.splits, metis sum.exhaust)
      have kept: "q \<in> en_dirty e \<or> settled x (upsert_row pdid updated_row (device_row d) rows)"
        if "stored_rows e = Some rows" "held e3 q = Some x" for q x rows
        using that service_okD(3) [OF ok that(1), of q x] service_okD(4) [OF ok, of q x] settled_upserted [of d rows]
          settled_other [of x rows d] d(1) ne
        by (auto simp: c3(3) held_def split: if_splits)
      have "service_ok e3"
        unfolding service_ok_def held_def [symmetric] c3(2)
      proof (intro conjI allI impI shelf)
        fix rows' assume "stored_rows e3 = Some rows'"
        with rows3 obtain rs where rs: "stored_rows e = Some rs"
          "rows' = upsert_row pdid updated_row (device_row d) rs" by (cases "stored_rows e") auto
        show "rows_ok rows'"
          unfolding rs(2) using service_okD(2) [OF ok rs(1)] d(3) ne by (intro stored_upserted) blast+
        fix q x assume "held e3 q = Some x"
        with kept [OF rs(1)] show "q \<in> en_dirty e \<or> settled x rows'" unfolding rs(2) by blast
      qed
      then have "service_ok e'" using f by (blast intro: service_ok_frame)
      moreover have "held e' = (held e)(p \<mapsto> d)" using held_frame [OF f] c3(3) by simp
      ultimately show ?thesis using ip d ne by blast
    qed
  qed (use ok e' in \<open>simp add: add_device_def\<close>)
  then show "service_ok e'" "held e' = held e \<or> (\<exists>i p. new_permanent_identity (wd_random w) = Some (i, p) \<and>
       (held e' = (held e)(p := None) \<or> (\<exists>d. pdid d = p \<and> set (macs d) \<subseteq> {clean_mac mac}
         \<and> (online d \<longrightarrow> obs_online obs \<and> can_trigger_online (obs_source obs)) \<and> held e' = (held e)(p \<mapsto> d))))" by blast+
qed

subsection \<open>One observation\<close>

lemma address_reuse_effect:
  assumes ok: "service_ok e" and run: "address_reuse w obs mac ip host e = (cand, e')"
  shows "service_ok e'" "held e' = held e \<or>
    (\<exists>x a. held e (pdid x) = Some x \<and> held e' = (held e)(pdid x \<mapsto> without_ip a x))"
proof -
  have "service_ok e' \<and> (held e' = held e \<or> (\<exists>x a. held e (pdid x) = Some x \<and> held e' = (held e)(pdid x \<mapsto> without_ip a x)))"
  proof (cases "e' = e")
    case False
    with run obtain x where x: "get_by_ip ip (en_cache e) = Some x"
      and e': "e' = mark_dirty (pdid x) (e\<lparr>en_cache := remove_ip_index ip (en_cache e)\<rparr>)"
      by (auto simp: address_reuse_def split: if_splits option.splits)
    note rem = remove_ip_effect [OF service_okD(1) [OF ok] x] and hx = shelf_ok_lookups(2) [OF service_okD(1) [OF ok] x]
    have rows: "stored_rows e' = stored_rows e" "en_cache e' = remove_ip_index ip (en_cache e)"
      unfolding e' mark_dirty_fields by (simp_all add: stored_rows_def)
    have p: "pdid x \<noteq> []" using service_okD(4) [OF ok hx] by blast
    have dirty: "en_dirty e' = insert (pdid x) (en_dirty e)" if "stored_rows e = Some rs" for rs
      unfolding e' using that p by (subst dirty_mark) (auto simp: stored_rows_def)
    have "service_ok e'"
      unfolding service_ok_def rows using rem service_okD(2,3) [OF ok] dirty by (auto split: if_splits)
    moreover have "held e' = (held e)(pdid x \<mapsto> without_ip (trim_space ip) x)"
      by (simp add: held_def fun_eq_iff rows rem(1))
    ultimately show ?thesis using hx by (auto simp: held_def)
  qed (use ok in simp)
  then show "service_ok e'" "held e' = held e \<or> (\<exists>x a. held e (pdid x) = Some x \<and> held e' = (held e)(pdid x \<mapsto> without_ip a x))"
    by blast+
qed

text \<open>The device an observation is about: what the claim to its hardware address makes of the device that was
  found. A new address needs verified evidence.\<close>

lemma claim_mac_effect:
  assumes run: "claim_mac w obs mac ip host verified d e = Some (od, cand, dirty, e')"
  shows "frame e e'" "od = Some d' \<Longrightarrow> pdid d' = pdid d \<and> online d' = online d \<and> (record_ok d \<longrightarrow> record_ok d')
      \<and> (dirty \<or> d' = d) \<and> set (macs d') \<subseteq> set (macs d) \<union> (if verified then {clean_mac mac} else {})"
proof -
  show "frame e e'" using run
    by (auto simp: claim_mac_def frames split: if_splits intro: frame_submit)
  have m: "set (macs (add_mac d mac)) \<subseteq> insert (clean_mac mac) (set (macs d))"
    "online (add_mac d mac) = online d" "source_info (add_mac d mac) = source_info d"
    by (auto simp: add_mac_def Let_def dest: in_set_dropD)
  show "od = Some d' \<Longrightarrow> pdid d' = pdid d \<and> online d' = online d \<and> (record_ok d \<longrightarrow> record_ok d')
      \<and> (dirty \<or> d' = d) \<and> set (macs d') \<subseteq> set (macs d) \<union> (if verified then {clean_mac mac} else {})"
    using run m
    by (auto simp: claim_mac_def verified_assurance_def record_ok_def provider_named_def split: if_splits)
qed

text \<open>What an observation may do to the devices. \<open>up\<close>: a device may come online; \<open>gains p m\<close>: the device \<open>p\<close> may get
  the hardware address \<open>m\<close>. A fresh PDID is a new device, unless random bytes repeat.\<close>

definition fresh_pdid :: "world \<Rightarrow> string \<Rightarrow> bool" where
  "fresh_pdid w p \<longleftrightarrow> (\<exists>i. new_permanent_identity (wd_random w) = Some (i, p))"

definition evolves :: "world \<Rightarrow> bool \<Rightarrow> (string \<Rightarrow> string \<Rightarrow> bool) \<Rightarrow> (string \<rightharpoonup> device) \<Rightarrow> (string \<rightharpoonup> device) \<Rightarrow> bool" where
  "evolves w up gains h h' \<longleftrightarrow> (\<forall>p. (h p = None \<longleftrightarrow> h' p = None) \<or> fresh_pdid w p)
   \<and> (\<forall>p d'. h' p = Some d' \<longrightarrow>
       (online d' \<longrightarrow> up \<or> (\<exists>d. h p = Some d \<and> online d))
       \<and> (\<forall>m \<in> set (macs d'). fresh_pdid w p \<or> gains p m \<or> (\<exists>d. h p = Some d \<and> m \<in> set (macs d))))"

lemma evolves_refl: "evolves w up gains h h"
  by (auto simp: evolves_def)

lemma evolves_change:
  assumes "h p = Some d" "online d' \<longrightarrow> online d \<or> up" "\<forall>m \<in> set (macs d'). m \<in> set (macs d) \<or> gains p m"
  shows "evolves w up gains h (h(p \<mapsto> d'))"
  using assms by (auto simp: evolves_def)

lemma evolves_new:
  "fresh_pdid w p \<Longrightarrow> online d \<longrightarrow> up \<Longrightarrow> evolves w up gains h (h(p \<mapsto> d))"
  "fresh_pdid w p \<Longrightarrow> evolves w up gains h (h(p := None))"
  by (auto simp: evolves_def)

lemma evolves_trans:
  assumes "evolves w up g1 h h1" "evolves w up g2 h1 h2" "\<And>p m. g1 p m \<Longrightarrow> gains p m" "\<And>p m. g2 p m \<Longrightarrow> gains p m"
  shows "evolves w up gains h h2"
proof (unfold evolves_def, intro conjI allI impI ballI)
  note a = assms(1) [unfolded evolves_def] and b = assms(2) [unfolded evolves_def]
  fix p show "(h p = None \<longleftrightarrow> h2 p = None) \<or> fresh_pdid w p"
    using a [THEN conjunct1, rule_format, of p] b [THEN conjunct1, rule_format, of p] by auto
next
  fix p d' assume d': "h2 p = Some d'"
  note a = assms(1) [unfolded evolves_def, THEN conjunct2, rule_format, of p]
    and b = assms(2) [unfolded evolves_def, THEN conjunct2, rule_format, OF d']
  { assume "online d'"
    with b have "up \<or> (\<exists>d. h1 p = Some d \<and> online d)" by simp
    with a show "up \<or> (\<exists>d. h p = Some d \<and> online d)" by blast }
  fix m assume "m \<in> set (macs d')"
  with b have "fresh_pdid w p \<or> g2 p m \<or> (\<exists>d. h1 p = Some d \<and> m \<in> set (macs d))" by blast
  with a assms(3,4) show "fresh_pdid w p \<or> gains p m \<or> (\<exists>d. h p = Some d \<and> m \<in> set (macs d))" by blast
qed

text \<open>The device that verified evidence of the observation resolves to.\<close>

definition verified_device :: "world \<Rightarrow> observation \<Rightarrow> dis_engine \<Rightarrow> device option" where
  "verified_device w obs e = fst (resolve_verified w (observation_signals obs (mac_text obs)
     (canonicalize_hostname (unescape_hostname (obs_hostname obs)))) e)"

abbreviation gains_mac :: "world \<Rightarrow> observation \<Rightarrow> dis_engine \<Rightarrow> string \<Rightarrow> string \<Rightarrow> bool" where
  "gains_mac w obs e p m \<equiv> map_option pdid (verified_device w obs e) = Some p \<and> m = clean_mac (mac_text obs)"

abbreviation presence :: "observation \<Rightarrow> bool" where
  "presence obs \<equiv> obs_online obs \<and> can_trigger_online (obs_source obs)"

lemma resolve_verified_held:
  assumes ok: "service_ok e" and r: "resolve_verified w sigs e = (Some d, e')"
  shows "held e (pdid d) = Some d"
proof -
  have f: "frame e e'" using r by (rule frame_resolve_verified)
  from r obtain p where "get_device p (en_cache e') = Some d"
    by (auto simp: resolve_verified_def split: if_splits prod.splits)
  with frameD(1) [OF f] have "get_device p (en_cache e) = Some d" by simp
  with service_okD(4) [OF ok this] show ?thesis by (simp add: held_def)
qed

lemma correlate_effect:
  assumes ok: "service_ok e" and src: "obs_source obs \<notin> enrichment_keys"
    and run: "correlate w obs mac ip host clean e = Some e'"
  defines "v \<equiv> fst (resolve_verified w (observation_signals obs mac host) e)"
  shows "service_ok e' \<and> evolves w (presence obs) (\<lambda>p m. map_option pdid v = Some p \<and> m = clean_mac mac) (held e) (held e')"
proof -
  let ?g = "\<lambda>p m. map_option pdid v = Some p \<and> m = clean_mac mac"
  obtain e1 where r: "resolve_verified w (observation_signals obs mac host) e = (v, e1)"
    unfolding v_def by (metis prod.collapse)
  have f1: "frame e e1" using r by (rule frame_resolve_verified)
  have ok1: "service_ok e1" using f1 ok by (rule service_ok_frame)
  define found where "found = (case v of Some d \<Rightarrow> Some d | None \<Rightarrow>
     (case get_by_mac mac (en_cache e1) of Some d \<Rightarrow> Some d | None \<Rightarrow> if mac = [] then get_by_ip ip (en_cache e1) else None))"
  have found: "held e (pdid d) = Some d" if "found = Some d" for d
    using that resolve_verified_held [OF ok, of w _ d e1] r shelf_ok_lookups [OF service_okD(1) [OF ok1]] held_frame [OF f1]
    by (auto simp: found_def held_def fun_eq_iff split: option.splits if_splits)
  define claim where "claim = (case found of None \<Rightarrow> (case address_reuse w obs mac ip host e1 of (cand, e2) \<Rightarrow> Some (None, cand, False, e2))
       | Some d \<Rightarrow> claim_mac w obs mac ip host (v \<noteq> None) d e1)"
  define rest where "rest = (\<lambda>d2 cand dirty e2. case claim_hostname w host (map_option pdid d2) e2 of (granted, e3) \<Rightarrow>
     (case d2 of None \<Rightarrow> Some (add_device w obs mac ip (if granted then host else []) (if granted then clean else [])
            (observation_signals obs mac host) cand e3)
       | Some d \<Rightarrow> update_known w obs mac ip (if granted then host else []) (if granted then clean else [])
            (observation_signals obs mac host) dirty d e3))"
  have "Option.bind claim (\<lambda>(d2, cand, dirty, e2). rest d2 cand dirty e2) = Some e'"
    using run unfolding correlate_def Let_def r prod.case found_def [symmetric] claim_def rest_def .
  then obtain d2 cand dirty e2 where c: "claim = Some (d2, cand, dirty, e2)" and t: "rest d2 cand dirty e2 = Some e'"
    unfolding bind_eq_Some_conv by auto
  obtain granted e3 where h: "claim_hostname w host (map_option pdid d2) e2 = (granted, e3)" by fastforce
  have f3: "frame e2 e3" using h by (rule frame_claim_hostname)
  show ?thesis
  proof (cases d2)
    case None
    have 2: "service_ok e2 \<and> evolves w (presence obs) (\<lambda>_ _. False) (held e1) (held e2)"
    proof (cases found)
      case None
      then have a: "address_reuse w obs mac ip host e1 = (cand, e2)"
        using c by (simp add: claim_def split: prod.splits)
      from address_reuse_effect [OF ok1 a] show ?thesis
        by (auto simp: evolves_refl intro!: evolves_change)
    next
      case (Some d)
      then have "claim_mac w obs mac ip host (v \<noteq> None) d e1 = Some (d2, cand, dirty, e2)"
        using c by (simp add: claim_def)
      from claim_mac_effect(1) [OF this] show ?thesis
        using ok1 service_ok_frame held_frame evolves_refl by metis
    qed
    have ok3: "service_ok e3" using f3 2 by (blast intro: service_ok_frame)
    have e': "e' = add_device w obs mac ip (if granted then host else []) (if granted then clean else [])
            (observation_signals obs mac host) cand e3"
      using t None h by (simp add: rest_def)
    note add = add_device_effect [OF ok3 src e']
    have "evolves w (presence obs) (\<lambda>_ _. False) (held e3) (held e')"
      using add(2) by (auto simp: fresh_pdid_def evolves_refl intro!: evolves_new)
    with 2 have "evolves w (presence obs) ?g (held e1) (held e')"
      unfolding held_frame [OF f3] by (blast intro: evolves_trans)
    with add(1) show ?thesis unfolding held_frame [OF f1] by simp
  next
    case (Some d')
    have "found \<noteq> None" using c Some by (auto simp: claim_def split: option.splits prod.splits)
    then obtain d where d: "found = Some d" by blast
    then have cm: "claim_mac w obs mac ip host (v \<noteq> None) d e1 = Some (d2, cand, dirty, e2)"
      using c by (simp add: claim_def)
    note ce = claim_mac_effect(1) [OF cm] claim_mac_effect(2) [OF cm Some]
    have f: "frame e e3" using f1 ce(1) f3 by (blast intro: frame_trans)
    have ok3: "service_ok e3" using f ok by (rule service_ok_frame)
    have hd: "held e3 (pdid d') = Some d" using found [OF d] ce(2) held_frame [OF f] by simp
    have rec: "record_ok d'" using service_okD(4) [OF ok3, of "pdid d'" d] hd ce(2) by (simp add: held_def)
    have m: "dirty \<or> material d' = material d" using ce(2) by auto
    have u: "update_known w obs mac ip (if granted then host else []) (if granted then clean else [])
            (observation_signals obs mac host) dirty d' e3 = Some e'"
      using t Some h by (simp add: rest_def)
    note up = update_known_effect [OF ok3 hd rec m src u]
    from up(2) obtain x where x: "macs x = macs d'" "online x \<longrightarrow> online d' \<or> presence obs" "held e' = (held e3)(pdid d' \<mapsto> x)"
      by blast
    have v: "map_option pdid v = Some (pdid d')" if "v \<noteq> None"
      using that d ce(2) by (auto simp: found_def)
    have "evolves w (presence obs) ?g (held e3) (held e')"
      unfolding x(3) by (rule evolves_change [where h = "held e3" and d = d and p = "pdid d'", OF hd]) (use x ce(2) v in \<open>auto split: if_splits\<close>)
    with up(1) show ?thesis unfolding held_frame [OF f] by simp
  qed
qed

text \<open>The times of sightings play no part in the resolution.\<close>

lemma on_store_seen: "on_store w m (e\<lparr>en_seen := s\<rparr>) = (case on_store w m e of (r, e') \<Rightarrow> (r, e'\<lparr>en_seen := s\<rparr>))"
  by (simp add: on_store_def split: option.split prod.split)

lemma verified_owners_seen:
  "verified_owners w ss own (e\<lparr>en_seen := s\<rparr>) = (case verified_owners w ss own e of (r, e') \<Rightarrow> (r, e'\<lparr>en_seen := s\<rparr>))"
  by (induction w ss own e rule: verified_owners.induct)
    (auto simp: on_store_seen split: option.splits prod.splits sum.splits)

lemma resolve_verified_seen:
  "fst (resolve_verified w sigs (e\<lparr>en_seen := s\<rparr>)) = fst (resolve_verified w sigs e)"
  by (simp add: resolve_verified_def verified_owners_seen split: prod.split)

lemma observation_effect:
  assumes ok: "service_ok e" and src: "obs_source obs \<notin> enrichment_keys" and run: "process_observation w obs e = Some e'"
  shows "service_ok e' \<and> evolves w (presence obs) (gains_mac w obs e) (held e) (held e')"
proof -
  have pi: "service_ok (pihole_sighting a d e) \<and> evolves w (presence obs) (gains_mac w obs e) (held e) (held (pihole_sighting a d e))"
    if "get_by_ip b (en_cache e) = Some d" for a b d
  proof -
    from shelf_ok_lookups(2) [OF service_okD(1) [OF ok] that] have d: "get_device (pdid d) (en_cache e) = Some d" .
    with service_okD(4) [OF ok] have r: "record_ok d" "pdid d \<noteq> []" by blast+
    have x: "record_ok (add_ip d a)" "macs (add_ip d a) = macs d" "online (add_ip d a) = online d" "pdid (add_ip d a) = pdid d"
      using r by (auto simp: add_ip_def Let_def record_ok_def provider_named_def)
    have 1: "service_ok (mark_dirty (pdid d) (put_device (add_ip d a) e))"
      using service_ok_put [OF ok x(1), of True] x(4) r by simp
    have 2: "held (mark_dirty (pdid d) (put_device (add_ip d a) e)) = (held e)(pdid d \<mapsto> add_ip d a)"
      using get_device_upsert [OF service_okD(1) [OF ok], of "add_ip d a"] x(4) r by (auto simp: held_def fun_eq_iff)
    have 3: "evolves w (presence obs) (gains_mac w obs e) (held e) ((held e)(pdid d \<mapsto> add_ip d a))"
      by (rule evolves_change) (use d x in \<open>auto simp: held_def\<close>)
    show ?thesis unfolding pihole_sighting_def using ok 1 2 3 by (auto simp: evolves_refl)
  qed
  define mac ip clean where "mac = mac_text obs" and "ip = ip_text obs" and "clean = unescape_hostname (obs_hostname obs)"
  define key where "key = duplicate_key obs mac ip (canonicalize_hostname clean)"
  obtain dup e1 where dup: "is_duplicate w key e = (dup, e1)" by fastforce
  have f: "frame e e1" using frame_parts(3) [of e w key] dup by simp
  have ok1: "service_ok e1" using f ok by (rule service_ok_frame)
  have "e1 = e \<or> (\<exists>s. e1 = e\<lparr>en_seen := s\<rparr>)"
    using dup by (auto simp: is_duplicate_def split: option.splits if_splits)
  then have same: "fst (resolve_verified w sigs e1) = fst (resolve_verified w sigs e)" for sigs
    using resolve_verified_seen by auto
  define reported where "reported = (if obs_source obs = ''pihole'' \<and> ip \<noteq> [] then get_by_ip ip (en_cache e) else None)"
  have "(if is_multicast_or_broadcast (obs_mac obs) (obs_ip obs) then Some e
     else (case reported of Some d \<Rightarrow> Some (pihole_sighting ip d e)
       | None \<Rightarrow> if mac = [] \<and> canonicalize_hostname clean = [] then Some e
          else if dup then Some e1 else correlate w obs mac ip (canonicalize_hostname clean) clean e1)) = Some e'"
    using run unfolding process_observation_def Let_def mac_def [symmetric] ip_def [symmetric] clean_def [symmetric]
      key_def [symmetric] reported_def [symmetric] dup prod.case .
  then have "e' = e \<or> (\<exists>d. reported = Some d \<and> e' = pihole_sighting ip d e) \<or> e' = e1
      \<or> correlate w obs mac ip (canonicalize_hostname clean) clean e1 = Some e'"
    by (simp split: if_split_asm option.split_asm)
  moreover have "get_by_ip ip (en_cache e) = Some d" if "reported = Some d" for d
    using that by (simp add: reported_def split: if_split_asm)
  ultimately consider (noise) "e' = e"
    | (pihole) d where "get_by_ip ip (en_cache e) = Some d" "e' = pihole_sighting ip d e"
    | (repeated) "e' = e1" | (new) "correlate w obs mac ip (canonicalize_hostname clean) clean e1 = Some e'"
    by blast
  then show ?thesis
  proof cases
    case new
    from correlate_effect [OF ok1 src new] show ?thesis
      unfolding same held_frame [OF f] verified_device_def mac_def [symmetric] clean_def [symmetric] .
  next
    case pihole
    with pi show ?thesis by simp
  qed (simp_all add: ok ok1 evolves_refl held_frame [OF f])
qed

end
