(* ===== verification/Dis_Review.thy ===== *)
theory Dis_Review
  imports Dis_Engine
begin

text \<open>
  The identity review of the discovery service (\<open>internal/correlation/identity_engine.go\<close>): profiles, bound and
  revoked aliases, the list of candidates and its cursor, and the decisions that merge or split devices.
  Results are an error of \<open>review_error\<close> or a value; a panic is \<open>None\<close>. The cursor's text is base64 of JSON,
  so \<open>enc\<close> and \<open>dec\<close> are arguments.
\<close>

subsection \<open>Profiles and bindings\<close>

datatype review_error =
  NoPersistence | UnknownIdentity | InvalidAliasValue | InvalidCursor | CandidateNotFound | CandidateStale
| SplitNeedsOneMac | NoIdentity | StoreFailed db_error

definition engine_pdid :: "world \<Rightarrow> string \<Rightarrow> dis_engine \<Rightarrow> string \<times> dis_engine" where
  "engine_pdid w p e = (case on_store w (resolve_stored_pdid p) e of (Some (Inr q), e1) \<Rightarrow> (q, e1) | (_, e1) \<Rightarrow> (p, e1))"

definition overlaid :: "(alias_index \<rightharpoonup> alias_activity) \<Rightarrow> alias_row \<Rightarrow> alias_row" where
  "overlaid acts a = (case acts (al_device a, al_type a, al_hash a) of None \<Rightarrow> a
     | Some v \<Rightarrow> a\<lparr>al_last := max (al_last a) (aa_last v),
         al_source := (if aa_latest_source v \<noteq> [] then aa_latest_source v else al_source a),
         al_confidence := max (al_confidence a) (aa_latest_confidence v)\<rparr>)"

definition alias_rank :: "alias_row \<Rightarrow> nat \<times> int \<times> int" where
  "alias_rank a = (if al_verified a then 0 else 1, - al_last a, - int (al_id a))"

definition get_identity_profile :: "world \<Rightarrow> string \<Rightarrow> dis_engine \<Rightarrow> (review_error + identity_profile) \<times> dis_engine" where
  "get_identity_profile w p e =
     (if en_store e = None then (Inl NoPersistence, e)
      else (case engine_pdid w p e of (q, e1) \<Rightarrow>
        (case on_store w (identity_profile_of q) e1 of
           (Some (Inr pr), e2) \<Rightarrow>
             (Inr (pr\<lparr>ip_aliases := sort_key alias_rank (map (overlaid (en_aliases e2)) (ip_aliases pr))\<rparr>), e2)
         | (Some (Inl err), e2) \<Rightarrow> (Inl (StoreFailed err), e2)
         | (None, e2) \<Rightarrow> (Inl NoPersistence, e2))))"

definition bound_activity :: "alias_row \<Rightarrow> nat \<Rightarrow> alias_activity" where
  "bound_activity a i = \<lparr>aa_id = i, aa_first = al_first a, aa_last = al_last a, aa_latest_source = al_source a,
     aa_latest_confidence = al_confidence a, aa_durable_source = al_source a, aa_durable_confidence = al_confidence a,
     aa_durable_verified = True, aa_revoked = False\<rparr>"

definition bind_identity_alias ::
  "world \<Rightarrow> string \<Rightarrow> alias_type \<Rightarrow> string \<Rightarrow> string \<Rightarrow> dis_engine \<Rightarrow> (review_error + alias_row) \<times> dis_engine" where
  "bind_identity_alias w p t v src e =
     (if en_store e = None then (Inl NoPersistence, e)
      else (case engine_pdid w p e of (q, e1) \<Rightarrow>
        (case get_device q (en_cache e1) of None \<Rightarrow> (Inl UnknownIdentity, e1)
         | Some d \<Rightarrow>
          (case hash_alias (wd_sha w) t v of None \<Rightarrow> (Inl InvalidAliasValue, e1)
           | Some h \<Rightarrow>
              let s = trim_space src;
                  a = \<lparr>al_id = 0, al_device = device_id d, al_type = t, al_hash = h,
                       al_source = (if s = [] then ''manual_admin'' else s), al_confidence = 1, al_verified = True,
                       al_first = wd_now w, al_last = wd_now w, al_revoked = None\<rparr>
              in (case on_store w (upsert_identity_alias (wd_now w) a) e1 of
                   (Some (Inr i), e2) \<Rightarrow>
                     let e3 = e2\<lparr>en_aliases := (en_aliases e2)((device_id d, t, h) \<mapsto> bound_activity a i)\<rparr>;
                         e4 = mark_dirty (pdid d) (put_device (verified_assurance d) e3)
                     in (Inr (a\<lparr>al_id := i\<rparr>), broadcast_event w EventIdentityBindingChanged (pdid d) (BindingPayload
                          \<lparr>bp_pdid = pdid d, bp_alias = i, bp_type = Some t, bp_action = ''bound'', bp_timestamp = wd_now w\<rparr>) e4)
                 | (Some (Inl err), e2) \<Rightarrow> (Inl (StoreFailed err), e2)
                 | (None, e2) \<Rightarrow> (Inl NoPersistence, e2))))))"

text \<open>The loop stops at the first entry with the id; \<open>ks\<close> is the order of the map.\<close>

definition mark_revoked :: "alias_index list \<Rightarrow> nat \<Rightarrow> (alias_index \<rightharpoonup> alias_activity) \<Rightarrow> (alias_index \<rightharpoonup> alias_activity)" where
  "mark_revoked ks i acts =
     (case find (\<lambda>k. case acts k of None \<Rightarrow> False | Some v \<Rightarrow> aa_id v = i) ks of None \<Rightarrow> acts
      | Some k \<Rightarrow> acts(k := map_option (\<lambda>v. v\<lparr>aa_revoked := True\<rparr>) (acts k)))"

definition revoke_alias :: "world \<Rightarrow> alias_index list \<Rightarrow> string \<Rightarrow> nat \<Rightarrow> dis_engine \<Rightarrow> (review_error + unit) \<times> dis_engine" where
  "revoke_alias w ks p i e =
     (if en_store e = None then (Inl NoPersistence, e)
      else (case engine_pdid w p e of (q, e1) \<Rightarrow>
        (case on_store w (revoke_identity_alias (wd_now w) q i) e1 of
           (Some (Inr _), e2) \<Rightarrow> (Inr (), broadcast_event w EventIdentityBindingChanged q (BindingPayload
              \<lparr>bp_pdid = q, bp_alias = i, bp_type = None, bp_action = ''revoked'', bp_timestamp = wd_now w\<rparr>)
              (e2\<lparr>en_aliases := mark_revoked ks i (en_aliases e2)\<rparr>))
         | (Some (Inl err), e2) \<Rightarrow> (Inl (StoreFailed err), e2)
         | (None, e2) \<Rightarrow> (Inl NoPersistence, e2))))"

subsection \<open>Candidates\<close>

record device_summary =
  ds_pdid :: string
  ds_name :: string
  ds_mac :: string
  ds_online :: bool
  ds_last_seen :: time

record candidate_detail =
  cx_link :: candidate_row
  cx_factors :: "identity_factor list"
  cx_conflicts :: "identity_factor list"
  cx_source :: "device_summary option"
  cx_target :: "device_summary option"

definition candidate_device :: "device option \<Rightarrow> device_summary option" where
  "candidate_device = map_option (\<lambda>d. \<lparr>ds_pdid = pdid d, ds_name = display_name (Some d), ds_mac = current_mac d,
     ds_online = online d, ds_last_seen = last_seen d\<rparr>)"

text \<open>The fields of the link are copied; the factors are split into those that matched and the conflicts.\<close>

definition decorate :: "dis_engine \<Rightarrow> candidate_row \<Rightarrow> candidate_detail" where
  "decorate e c = \<lparr>cx_link = c, cx_factors = filter if_matched (cd_factors c),
     cx_conflicts = filter (\<lambda>f. \<not> if_matched f) (cd_factors c),
     cx_source = candidate_device (get_device (cd_source c) (en_cache e)),
     cx_target = candidate_device (get_device (cd_target c) (en_cache e))\<rparr>"

text \<open>A limit of zero with a candidate left indexes before the list, which panics.\<close>

definition list_candidates ::
  "(time \<times> int \<Rightarrow> string) \<Rightarrow> (string \<Rightarrow> (time \<times> int) option) \<Rightarrow> world \<Rightarrow> string \<Rightarrow> int \<Rightarrow> string \<Rightarrow> dis_engine \<Rightarrow>
   (review_error + candidate_detail list \<times> string) option \<times> dis_engine" where
  "list_candidates enc dec w status limit cursor e =
     (if en_store e = None then (Some (Inl NoPersistence), e)
      else (case (if cursor = [] then Some (zero_time, 0) else dec cursor) of
          None \<Rightarrow> (Some (Inl InvalidCursor), e)
        | Some (t, i) \<Rightarrow>
            if cursor \<noteq> [] \<and> (i < 1 \<or> is_zero t) then (Some (Inl InvalidCursor), e)
            else (case on_store w (list_identity_candidates_page status (limit + 1) t i) e of
                (Some (Inr links), e1) \<Rightarrow>
                  if limit < int (length links) \<and> limit < 1 then (None, e1)
                  else (Some (Inr (map (decorate e1) (take (nat limit) links),
                      if limit < int (length links)
                      then let l = links ! nat (limit - 1) in enc (cd_updated l, int (cd_id l)) else [])), e1)
              | (Some (Inl err), e1) \<Rightarrow> (Some (Inl (StoreFailed err)), e1)
              | (None, e1) \<Rightarrow> (Some (Inl NoPersistence), e1))))"

definition get_candidate :: "world \<Rightarrow> nat \<Rightarrow> dis_engine \<Rightarrow> (review_error + candidate_detail) \<times> dis_engine" where
  "get_candidate w i e =
     (case on_store w (get_identity_candidate i) e of
        (Some (Inr c), e1) \<Rightarrow> (Inr (decorate e1 c), e1)
      | (Some (Inl err), e1) \<Rightarrow> (Inl (if err = ErrIdentityNotFound then CandidateNotFound else StoreFailed err), e1)
      | (None, e1) \<Rightarrow> (Inl NoPersistence, e1))"

record decision_request =
  dr_source :: string
  dr_target :: string
  dr_updated :: "time option"
  dr_note :: string

definition decision_fits :: "candidate_row \<Rightarrow> decision_request \<Rightarrow> bool" where
  "decision_fits c r \<longleftrightarrow> \<not> (dr_source r \<noteq> [] \<and> dr_source r \<noteq> cd_source c)
     \<and> \<not> (dr_target r \<noteq> [] \<and> dr_target r \<noteq> cd_target c)
     \<and> (case dr_updated r of None \<Rightarrow> True | Some t \<Rightarrow> t = cd_updated c)"

definition candidate_event :: "world \<Rightarrow> event_type \<Rightarrow> candidate_row \<Rightarrow> dis_engine \<Rightarrow> dis_engine" where
  "candidate_event w t c = broadcast_event w t (cd_source c) (CandidatePayload
     \<lparr>cp_id = cd_id c, cp_source = cd_source c, cp_target = cd_target c, cp_status = cd_status c, cp_timestamp = wd_now w\<rparr>)"

definition no_candidate :: candidate_row where
  "no_candidate = \<lparr>cd_id = 0, cd_source = [], cd_target = [], cd_probability = 0, cd_ambiguous = False, cd_status = [],
     cd_factors = [], cd_created = zero_time, cd_updated = zero_time, cd_decision_source = [], cd_decision_note = []\<rparr>"

text \<open>The candidate is read again after the decision; the error of that read is dropped.\<close>

definition reread :: "world \<Rightarrow> nat \<Rightarrow> dis_engine \<Rightarrow> candidate_row \<times> dis_engine" where
  "reread w i e = (case on_store w (get_identity_candidate i) e of (Some (Inr c), e1) \<Rightarrow> (c, e1) | (_, e1) \<Rightarrow> (no_candidate, e1))"

text \<open>Rejecting and reopening do not test for the store: without one they panic.\<close>

definition reject_candidate ::
  "world \<Rightarrow> nat \<Rightarrow> decision_request \<Rightarrow> dis_engine \<Rightarrow> (review_error + candidate_detail) option \<times> dis_engine" where
  "reject_candidate w i r e =
     (case on_store w (get_identity_candidate i) e of
        (None, e1) \<Rightarrow> (None, e1)
      | (Some (Inl _), e1) \<Rightarrow> (Some (Inl CandidateNotFound), e1)
      | (Some (Inr c), e1) \<Rightarrow>
          if cd_status c = ''rejected'' then (Some (Inr (decorate e1 c)), e1)
          else if cd_status c \<noteq> ''pending'' \<or> \<not> decision_fits c r then (Some (Inl CandidateStale), e1)
          else (case on_store w (decide_identity_candidate (wd_now w) i ''rejected'' ''manual_admin'' [dr_note r]) e1 of
              (Some (Inr _), e2) \<Rightarrow>
                (case reread w i e2 of (c', e3) \<Rightarrow>
                   let e4 = candidate_event w EventIdentityCandidateDecided c' e3 in (Some (Inr (decorate e4 c')), e4))
            | (_, e2) \<Rightarrow> (Some (Inl CandidateStale), e2)))"

definition reopen_candidate ::
  "world \<Rightarrow> nat \<Rightarrow> decision_request \<Rightarrow> dis_engine \<Rightarrow> (review_error + candidate_detail) option \<times> dis_engine" where
  "reopen_candidate w i r e =
     (case on_store w (get_identity_candidate i) e of
        (None, e1) \<Rightarrow> (None, e1)
      | (Some (Inl _), e1) \<Rightarrow> (Some (Inl CandidateNotFound), e1)
      | (Some (Inr c), e1) \<Rightarrow>
          if cd_status c = ''confirmed'' \<or> \<not> decision_fits c r then (Some (Inl CandidateStale), e1)
          else if cd_status c = ''pending'' then (Some (Inr (decorate e1 c)), e1)
          else (case on_store w (reopen_identity_candidate (wd_now w) i ''manual_admin'' (dr_note r)) e1 of
              (Some (Inr _), e2) \<Rightarrow>
                (case reread w i e2 of (c', e3) \<Rightarrow>
                   let e4 = candidate_event w EventIdentityCandidateChanged (c'\<lparr>cd_id := i\<rparr>) e3
                   in (Some (Inr (decorate e4 c')), e4))
            | (_, e2) \<Rightarrow> (Some (Inl CandidateStale), e2)))"

subsection \<open>Merge and split\<close>

definition merged_seen :: "device \<Rightarrow> device \<Rightarrow> device" where
  "merged_seen src d =
     (let d1 = (if last_seen d < last_seen src then d\<lparr>last_seen := last_seen src\<rparr> else d)
      in if is_zero (first_seen d1) \<or> (\<not> is_zero (first_seen src) \<and> first_seen src < first_seen d1)
         then d1\<lparr>first_seen := first_seen src\<rparr> else d1)"

definition add_tag :: "string \<Rightarrow> device \<Rightarrow> device" where
  "add_tag t d = (if t \<in> set (dev_tags d) then d else d\<lparr>dev_tags := dev_tags d @ [t]\<rparr>)"

definition merge_device_data :: "device \<Rightarrow> device \<Rightarrow> device" where
  "merge_device_data src tgt =
     (let d1 = foldl add_mac tgt (macs src);
          d2 = foldl add_ip d1 (ips src);
          d3 = snd (add_services (services src) d2);
          d4 = fold add_tag (dev_tags src) d3
      in verified_assurance (merged_seen src d4))"

definition confirm_candidate ::
  "world \<Rightarrow> nat \<Rightarrow> decision_request \<Rightarrow> dis_engine \<Rightarrow> (review_error + device) \<times> dis_engine" where
  "confirm_candidate w i r e =
     (case on_store w (get_identity_candidate i) e of
        (None, e1) \<Rightarrow> (Inl NoPersistence, e1)
      | (Some (Inl _), e1) \<Rightarrow> (Inl CandidateNotFound, e1)
      | (Some (Inr c), e1) \<Rightarrow>
          if cd_status c = ''confirmed'' then
            (case engine_pdid w (cd_target c) e1 of (q, e2) \<Rightarrow>
               (case get_device q (en_cache e2) of None \<Rightarrow> (Inl CandidateStale, e2) | Some d \<Rightarrow> (Inr d, e2)))
          else if cd_status c \<noteq> ''pending'' \<or> \<not> decision_fits c r then (Inl CandidateStale, e1)
          else (case (get_device (cd_source c) (en_cache e1), get_device (cd_target c) (en_cache e1)) of
              (Some s, Some t) \<Rightarrow>
                if online s \<and> online t then (Inl CandidateStale, e1)
                else let d = merge_device_data s t
                  in (case on_store w (confirm_candidate_merge (wd_save_random w) (wd_ord w) (wd_now w) i s d (dr_note r)) e1 of
                      (Some (Inr c'), e2) \<Rightarrow>
                        let e3 = put_device d (forget_device w (pdid s) e2);
                            e4 = candidate_event w EventIdentityCandidateDecided c' e3
                        in (Inr d, broadcast_event w EventDeviceReidentified (pdid d) (ReidentifiedPayload
                             \<lparr>rp_old = pdid s, rp_new = pdid d, rp_reason = ''manual_candidate_confirmation'',
                              rp_macs = macs s, rp_timestamp = wd_now w\<rparr>) e4)
                    | (Some (Inl err), e2) \<Rightarrow> (Inl (StoreFailed err), e2)
                    | (None, e2) \<Rightarrow> (Inl NoPersistence, e2))
            | _ \<Rightarrow> (Inl CandidateStale, e1)))"

text \<open>The addresses that move to the split device, and what stays.\<close>

definition move_ip :: "string \<Rightarrow> device \<times> device \<Rightarrow> device \<times> device" where
  "move_ip ip = (\<lambda>(orig, split). let a = trim_space ip
     in if a = [] then (orig, split) else (orig\<lparr>ips := filter (\<lambda>x. x \<noteq> a) (ips orig)\<rparr>, add_ip split a))"

definition split_devices :: "time \<Rightarrow> string \<Rightarrow> string list \<Rightarrow> string \<Rightarrow> string \<Rightarrow> device \<Rightarrow> device \<times> device" where
  "split_devices now mac moved i p d =
     (let ms = filter (\<lambda>x. x \<noteq> mac) (macs d);
          orig = d\<lparr>macs := ms, current_mac := (if current_mac d = mac then (if ms = [] then [] else hd ms) else current_mac d)\<rparr>;
          split = empty_device\<lparr>device_id := i, pdid := p, current_mac := mac, macs := [mac], identity_tier := TierTentative,
                    identity_anchor := mac, assurance := IdentityVerified, probability := 1, vendor := vendor d,
                    model := model d, device_type := device_type d, first_seen := now, last_seen := now\<rparr>
      in fold move_ip moved (orig, split))"

definition split_identity ::
  "world \<Rightarrow> string \<Rightarrow> string \<Rightarrow> string list \<Rightarrow> dis_engine \<Rightarrow> (review_error + device) \<times> dis_engine" where
  "split_identity w p mac_in moved e =
     (if en_store e = None then (Inl NoPersistence, e)
      else (case engine_pdid w p e of (q, e1) \<Rightarrow>
        (case (get_device q (en_cache e1), normalize_alias AliasMAC mac_in) of
           (Some d, Some mac) \<Rightarrow>
             if \<not> has_mac d mac \<or> length (macs d) < 2 then (Inl SplitNeedsOneMac, e1)
             else (case new_permanent_identity (wd_random w) of None \<Rightarrow> (Inl NoIdentity, e1)
               | Some (i, np) \<Rightarrow>
                   (case split_devices (wd_now w) mac moved i np d of (orig, split) \<Rightarrow>
                      (case on_store w (split_device (wd_save_random w) (wd_ord w) (wd_now w) orig split
                          (case hash_alias (wd_sha w) AliasMAC mac of None \<Rightarrow> [] | Some h \<Rightarrow> h)) e1 of
                         (Some (Inr _), e2) \<Rightarrow> (Inr split, put_device split (put_device orig e2))
                       | (Some (Inl err), e2) \<Rightarrow> (Inl (StoreFailed err), e2)
                       | (None, e2) \<Rightarrow> (Inl NoPersistence, e2))))
         | _ \<Rightarrow> (Inl SplitNeedsOneMac, e1))))"

end
