(* ===== verification/Dis_Enrich.thy ===== *)
theory Dis_Enrich
  imports Dis_Engine
begin

text \<open>
  The enrichment of devices (\<open>internal/discovery/orchestrator.go\<close>). Requests wait in a bounded queue; a worker runs
  the primary enrichers and, if attributes are still missing, the fallback scan. An enricher is a function of
  the device it is given, with the instant at which its result is applied; \<open>None\<close> is an error or an empty
  result. A run takes long and works on a copy of the device, so it is three steps: taking the copy, the
  enrichers, and writing the result back; between them other steps of the service run.
\<close>

subsection \<open>What an enricher adds\<close>

record enrichment =
  nr_hostname :: string
  nr_friendly_name :: string
  nr_manufacturer :: string
  nr_vendor :: string
  nr_model :: string
  nr_device_type :: string
  nr_services :: "string list"
  nr_confidence :: real
  nr_source :: string

definition is_hex_lower :: "char \<Rightarrow> bool" where
  "is_hex_lower c \<longleftrightarrow> c \<in> set ''0123456789abcdef''"

definition is_decimal :: "char \<Rightarrow> bool" where
  "is_decimal c \<longleftrightarrow> c \<in> set ''0123456789''"

definition is_generic_hostname :: "string \<Rightarrow> bool" where
  "is_generic_hostname host =
     (let h = to_lower (trim_space host)
      in h = [] \<or> h = ''*'' \<or> has_prefix h ''android-'' \<or> has_prefix h ''iphone'' \<or> has_prefix h ''ipad''
         \<or> has_prefix h ''desktop-'' \<or> has_prefix h ''localhost'' \<or> contains_sub h ''unknown''
         \<or> (length h = 12 \<and> list_all is_hex_lower h) \<or> list_all is_decimal h)"

definition source_rank :: "string \<Rightarrow> nat" where
  "source_rank s =
     (if s = ''netlink'' then 100 else if s = ''avahi'' then 90 else if s = ''ssdp'' then 85
      else if s = ''tls'' \<or> s = ''tls_metadata'' then 80 else if s = ''dhcp'' then 70 else if s = ''netbios'' then 60
      else if s = ''nmap'' then 50 else if s = ''pihole'' then 40 else 0)"

text \<open>The source of a field: a missing entry is the zero value, whose source is the empty text.\<close>

definition field_rank :: "string \<Rightarrow> device \<Rightarrow> nat" where
  "field_rank key d = source_rank (case source_info d key of None \<Rightarrow> [] | Some m \<Rightarrow> meta_source m)"

definition note_source :: "time \<Rightarrow> enrichment \<Rightarrow> string \<Rightarrow> device \<Rightarrow> device" where
  "note_source now enr key d = d\<lparr>source_info := (source_info d)(key \<mapsto>
     \<lparr>meta_source = nr_source enr, meta_confidence = nr_confidence enr, meta_timestamp = now, meta_raw = Map.empty\<rparr>)\<rparr>"

definition apply_friendly :: "enrichment \<Rightarrow> device \<Rightarrow> bool \<times> device" where
  "apply_friendly enr d =
     (if nr_friendly_name enr \<noteq> [] \<and> friendly_name d \<noteq> nr_friendly_name enr
      then (True, d\<lparr>friendly_name := nr_friendly_name enr\<rparr>) else (False, d))"

definition apply_hostname :: "time \<Rightarrow> enrichment \<Rightarrow> device \<Rightarrow> bool \<times> device" where
  "apply_hostname now enr d =
     (if nr_hostname enr \<noteq> []
         \<and> (hostname d = [] \<or> (is_generic_hostname (hostname d) \<and> \<not> is_generic_hostname (nr_hostname enr))
            \<or> field_rank ''hostname'' d < source_rank (nr_source enr))
         \<and> hostname d \<noteq> nr_hostname enr
      then (True, note_source now enr ''hostname'' (d\<lparr>hostname := nr_hostname enr\<rparr>)) else (False, d))"

text \<open>The four fields that are treated alike: an empty one is filled, a better source overwrites.\<close>

definition apply_field ::
  "time \<Rightarrow> enrichment \<Rightarrow> string \<Rightarrow> string \<Rightarrow> (device \<Rightarrow> string) \<Rightarrow> (string \<Rightarrow> device \<Rightarrow> device) \<Rightarrow> device \<Rightarrow> bool \<times> device" where
  "apply_field now enr key new get put d =
     (if new \<noteq> [] \<and> (get d = [] \<or> field_rank key d < source_rank (nr_source enr)) \<and> get d \<noteq> new
      then (True, note_source now enr key (put new d)) else (False, d))"

definition apply_enrichment :: "time \<Rightarrow> enrichment \<Rightarrow> device \<Rightarrow> bool \<times> device" where
  "apply_enrichment now enr d =
     (let (b1, d1) = apply_friendly enr d;
          (b2, d2) = apply_hostname now enr d1;
          (b3, d3) = apply_field now enr ''manufacturer'' (nr_manufacturer enr) manufacturer (\<lambda>v d. d\<lparr>manufacturer := v\<rparr>) d2;
          (b4, d4) = apply_field now enr ''vendor'' (nr_vendor enr) vendor (\<lambda>v d. d\<lparr>vendor := v\<rparr>) d3;
          (b5, d5) = apply_field now enr ''model'' (nr_model enr) model (\<lambda>v d. d\<lparr>model := v\<rparr>) d4;
          (b6, d6) = apply_field now enr ''device_type'' (nr_device_type enr) device_type (\<lambda>v d. d\<lparr>device_type := v\<rparr>) d5;
          (b7, d7) = add_services (nr_services enr) d6
      in (b1 \<or> b2 \<or> b3 \<or> b4 \<or> b5 \<or> b6 \<or> b7, d7))"

subsection \<open>The queue\<close>

definition enrichment_cooldown :: duration where "enrichment_cooldown = 1 * hour"
definition nmap_cooldown :: duration where "nmap_cooldown = 24 * hour"
definition max_nmap_retries :: int where "max_nmap_retries = 3"

record orchestrator =
  or_last :: "string \<rightharpoonup> time"
  or_pending :: "string \<rightharpoonup> bool"
  or_queue :: "string list"
  or_capacity :: int
  or_workers :: int
  or_stopped :: bool

text \<open>\<open>NewOrchestratorWithOptions\<close>: sizes out of range are replaced.\<close>

definition clamped :: "int \<Rightarrow> int \<Rightarrow> int \<Rightarrow> int" where
  "clamped dflt most n = (let m = (if n \<le> 0 then dflt else n) in if most < m then most else m)"

definition new_orchestrator :: "int \<Rightarrow> int \<Rightarrow> orchestrator" where
  "new_orchestrator worker_count queue_size =
     \<lparr>or_last = Map.empty, or_pending = Map.empty, or_queue = [], or_capacity = clamped 128 4096 queue_size,
      or_workers = clamped 2 8 worker_count, or_stopped = False\<rparr>"

definition stop_orchestrator :: "orchestrator \<Rightarrow> orchestrator" where
  "stop_orchestrator o1 = o1\<lparr>or_stopped := True\<rparr>"

definition cooling_down :: "time \<Rightarrow> string \<Rightarrow> orchestrator \<Rightarrow> bool" where
  "cooling_down now p o1 = (case or_last o1 p of None \<Rightarrow> False | Some t \<Rightarrow> time_sub now t < enrichment_cooldown)"

definition clear_pending :: "string \<Rightarrow> orchestrator \<Rightarrow> orchestrator" where
  "clear_pending p o1 = o1\<lparr>or_pending := (or_pending o1)(p := None)\<rparr>"

text \<open>\<open>pick\<close>: a stopped orchestrator with room in the queue may take either case of the \<open>select\<close>.\<close>

definition trigger_enrichment :: "time \<Rightarrow> bool \<Rightarrow> inventory \<Rightarrow> string \<Rightarrow> bool \<Rightarrow> orchestrator \<Rightarrow> orchestrator" where
  "trigger_enrichment now pick c p force o1 =
     (if p = [] \<or> get_device p c = None \<or> (\<not> force \<and> cooling_down now p o1) then o1
      else (case or_pending o1 p of
          Some f \<Rightarrow> o1\<lparr>or_pending := (or_pending o1)(p \<mapsto> f \<or> force)\<rparr>
        | None \<Rightarrow>
            let o2 = o1\<lparr>or_pending := (or_pending o1)(p \<mapsto> force)\<rparr>
            in if int (length (or_queue o1)) < or_capacity o1 \<and> \<not> (or_stopped o1 \<and> pick)
               then o2\<lparr>or_queue := or_queue o2 @ [p]\<rparr> else clear_pending p o2))"

text \<open>The loops that run beside the workers; \<open>ks\<close> is the order of the devices.\<close>

definition forget_attempts :: "time \<Rightarrow> orchestrator \<Rightarrow> orchestrator" where
  "forget_attempts now o1 = o1\<lparr>or_last := (\<lambda>p. case or_last o1 p of None \<Rightarrow> None
     | Some t \<Rightarrow> if t < now - enrichment_cooldown * 2 then None else Some t)\<rparr>"

definition validation_sweep :: "time \<Rightarrow> bool \<Rightarrow> string list \<Rightarrow> inventory \<Rightarrow> orchestrator \<Rightarrow> orchestrator" where
  "validation_sweep now pick ks c o1 = fold (\<lambda>d. trigger_enrichment now pick c (pdid d) True) (list_devices ks c) o1"

subsection \<open>One run\<close>

text \<open>A worker takes the request at the head of the queue and looks at the device and the cooldown again.\<close>

definition take_request :: "orchestrator \<Rightarrow> (string \<times> bool option) option \<times> orchestrator" where
  "take_request o1 = (case or_queue o1 of [] \<Rightarrow> (None, o1)
     | p # ps \<Rightarrow> (Some (p, or_pending o1 p), o1\<lparr>or_queue := ps\<rparr>))"

definition begin_run :: "time \<Rightarrow> inventory \<Rightarrow> string \<Rightarrow> bool \<Rightarrow> orchestrator \<Rightarrow> device option \<times> orchestrator" where
  "begin_run now c p force o1 =
     (case get_device p c of None \<Rightarrow> (None, o1)
      | Some d \<Rightarrow> if \<not> force \<and> cooling_down now p o1 then (None, o1)
                  else (Some d, o1\<lparr>or_last := (or_last o1)(p \<mapsto> now)\<rparr>))"

type_synonym enricher_run = "time \<times> (device \<Rightarrow> enrichment option)"

fun run_primaries :: "enricher_run list \<Rightarrow> device \<Rightarrow> bool \<times> device" where
  "run_primaries [] d = (False, d)"
| "run_primaries ((now, enrich) # es) d =
     (let (b1, d1) = (case enrich d of None \<Rightarrow> (False, d) | Some r \<Rightarrow> apply_enrichment now r d);
          (b2, d2) = run_primaries es d1
      in (b1 \<or> b2, d2))"

definition identified :: "device \<Rightarrow> bool" where
  "identified d \<longleftrightarrow> vendor d \<noteq> [] \<and> device_type d \<noteq> [] \<and> (friendly_name d \<noteq> [] \<or> hostname d \<noteq> [])"

definition should_run_nmap :: "time \<Rightarrow> device \<Rightarrow> bool \<Rightarrow> bool" where
  "should_run_nmap now d force =
     (if is_fully_identified d \<or> identified d then False
      else if force then True
      else if max_nmap_retries \<le> nmap_attempt_count d then False
      else \<not> (\<not> is_zero (last_nmap_scan_at d) \<and> time_sub now (last_nmap_scan_at d) < nmap_cooldown))"

text \<open>The fallback counts an attempt however it ends; a run that changed something starts the count again.\<close>

definition run_fallback :: "enricher_run \<Rightarrow> bool \<Rightarrow> device \<Rightarrow> bool \<times> device" where
  "run_fallback scan changed d =
     (case scan of (now, enrich) \<Rightarrow>
        let res = enrich d; d1 = d\<lparr>last_nmap_scan_at := now, nmap_attempt_count := nmap_attempt_count d + 1\<rparr>
        in (case res of None \<Rightarrow> (changed, d1)
          | Some r \<Rightarrow>
              let (b, d2) = apply_enrichment now r d1; changed' = (b \<or> changed)
              in (changed', if changed' then d2\<lparr>nmap_attempt_count := 0\<rparr> else d2)))"

text \<open>The enrichers on the copy: was anything changed, was a scan counted, and the device.\<close>

definition enrich_copy ::
  "enricher_run list \<Rightarrow> enricher_run option \<Rightarrow> time \<Rightarrow> time \<Rightarrow> bool \<Rightarrow> device \<Rightarrow> bool \<times> bool \<times> device" where
  "enrich_copy primaries fallback gate_time end_time force d =
     (let (changed, d1) = run_primaries primaries d;
          (changed2, scanned, d2) = (case fallback of
              Some scan \<Rightarrow> if should_run_nmap gate_time d1 force
                           then (case run_fallback scan changed d1 of (b, x) \<Rightarrow> (b, True, x)) else (changed, False, d1)
            | None \<Rightarrow> (changed, False, d1))
      in (changed2, scanned, d2\<lparr>is_fully_identified := identified d2, last_enriched_at := end_time\<rparr>))"

text \<open>Writing the copy back; \<open>managed\<close>: a device manager (the engine) is set.\<close>

definition finish_run :: "world \<Rightarrow> bool \<Rightarrow> bool \<Rightarrow> bool \<Rightarrow> device \<Rightarrow> dis_engine \<Rightarrow> dis_engine" where
  "finish_run w managed changed scanned d e =
     (if \<not> changed \<and> \<not> scanned then e
      else let d1 = touch d (wd_now w);
               e1 = put_device d1 e;
               (promoted, e2) = (if managed then promote_identity w (pdid d1) e1 else (None, e1));
               final = (case promoted of Some x \<Rightarrow> x | None \<Rightarrow> d1);
               e3 = put_device final e2;
               e4 = (if managed then mark_dirty (pdid final) e3 else e3)
           in if changed then broadcast_event w EventFingerprintUpdated (pdid final) (DevicePayload final) e4 else e4)"

end
