(* ===== verification/Dis_Runs.thy ===== *)
theory Dis_Runs
  imports Dis_Engine_Props Dis_Review Dis_Enrich
begin

text \<open>
  The discovery service at run time: observations, the background passes, enrichment runs on copies of devices
  and the decisions of the administrator, in any order.
\<close>

subsection \<open>The background passes\<close>

lemma rows_ok_filter: "rows_ok rows \<Longrightarrow> rows_ok (filter P rows)"
  by (auto simp: rows_ok_def distinct_map_filter)

lemma service_ok_update:
  assumes ok: "service_ok e" and shelf: "shelf_ok (en_cache e')" and rows: "stored_rows e' = stored_rows e"
    and dirty: "en_dirty e \<subseteq> en_dirty e'"
    and held: "\<And>q x rs. held e' q = Some x \<Longrightarrow> stored_rows e = Some rs \<Longrightarrow> held e q = Some x \<or> q \<in> en_dirty e'"
  shows "service_ok e'"
  using service_okD(2,3) [OF ok] dirty held shelf unfolding service_ok_def rows held_def by blast

lemma promote_identity_shelf:
  assumes shelf: "shelf_ok (en_cache e)" and run: "promote_identity w p e = (od, e')"
  shows "shelf_ok (en_cache e')" "stored_rows e' = stored_rows e" "en_dirty e \<subseteq> en_dirty e'"
    "\<And>rs. stored_rows e = Some rs \<Longrightarrow> en_dirty e' = en_dirty e \<or> en_dirty e' = insert p (en_dirty e)"
    "q \<noteq> p \<Longrightarrow> held e' q = held e q" "od = held e' p"
    "\<And>rs. stored_rows e = Some rs \<Longrightarrow> held e' p = held e p \<or> p \<in> en_dirty e'"
proof -
  have "shelf_ok (en_cache e') \<and> stored_rows e' = stored_rows e \<and> en_dirty e \<subseteq> en_dirty e'
    \<and> (\<forall>rs. stored_rows e = Some rs \<longrightarrow> en_dirty e' = en_dirty e \<or> en_dirty e' = insert p (en_dirty e))
    \<and> (\<forall>q. q \<noteq> p \<longrightarrow> held e' q = held e q) \<and> od = held e' p
    \<and> (\<forall>rs. stored_rows e = Some rs \<longrightarrow> held e' p = held e p \<or> p \<in> en_dirty e')"
  proof (cases "e' = e")
    case True
    with run show ?thesis using shelf shelf_okD(2) [OF shelf, of p]
      by (auto simp: promote_identity_def held_def Let_def split: option.splits prod.splits if_splits)
  next
    case False
    with run obtain d tier anchor where d: "get_device p (en_cache e) = Some d"
      and e': "e' = promote_device w tier anchor (canonical_hostname d) d e" "od = get_device (pdid d) (en_cache e')"
      by (auto simp: promote_identity_def Let_def split: option.splits prod.splits if_splits)
    from shelf_okD(2) [OF shelf d] have r: "record_ok d" "pdid d = p" "p \<noteq> []" by blast+
    define d' where "d' = d\<lparr>identity_tier := tier, identity_anchor := anchor, canonical_hostname := canonical_hostname d\<rparr>"
    have d': "record_ok d'" "pdid d' = p" using r by (simp_all add: d'_def record_ok_def provider_named_def)
    have f: "frame (mark_dirty p (put_device d' e)) e'"
      unfolding e' promote_device_def Let_def r(2) d'_def by (rule frames)
    note ff = frameD [OF f]
    have "shelf_ok (en_cache e')"
      using shelf_ok_upsert [OF shelf d'(1)] f shelf_ok_same by (auto simp: frame_def)
    moreover have "held e' = (held e)(p \<mapsto> d')"
      using get_device_upsert [OF shelf, of d'] d' r(3) unfolding held_def fun_eq_iff by (simp add: ff)
    moreover have "en_dirty e' = insert p (en_dirty e)" if "stored_rows e = Some rs" for rs
      using that r(3) by (simp add: ff dirty_mark)
    moreover have "en_dirty e \<subseteq> en_dirty e'" using dirty_subset [of "put_device d' e" p] by (simp add: ff)
    ultimately show ?thesis using e'(2) r(2) by (simp add: ff held_def fun_eq_iff)
  qed
  then show "shelf_ok (en_cache e')" "stored_rows e' = stored_rows e" "en_dirty e \<subseteq> en_dirty e'"
    "\<And>rs. stored_rows e = Some rs \<Longrightarrow> en_dirty e' = en_dirty e \<or> en_dirty e' = insert p (en_dirty e)"
    "q \<noteq> p \<Longrightarrow> held e' q = held e q" "od = held e' p"
    "\<And>rs. stored_rows e = Some rs \<Longrightarrow> held e' p = held e p \<or> p \<in> en_dirty e'" by blast+
qed

lemma finish_run_effect:
  assumes ok: "service_ok e" and d: "record_ok d" "pdid d \<noteq> []" and e': "e' = finish_run w True changed scanned d e"
  shows "service_ok e'" "q \<noteq> pdid d \<Longrightarrow> held e' q = held e q"
proof -
  have "service_ok e' \<and> (\<forall>q. q \<noteq> pdid d \<longrightarrow> held e' q = held e q)"
  proof (cases "\<not> changed \<and> \<not> scanned")
    case False
    define d1 where "d1 = touch d (wd_now w)"
    have d1: "record_ok d1" "pdid d1 = pdid d"
      using d by (auto simp: d1_def touch_def Let_def record_ok_def provider_named_def)
    define e1 where "e1 = put_device d1 e"
    have s1: "shelf_ok (en_cache e1)" using shelf_ok_upsert [OF service_okD(1) [OF ok] d1(1)] by (simp add: e1_def)
    have h1: "held e1 = (held e)(pdid d \<mapsto> d1)"
      using get_device_upsert [OF service_okD(1) [OF ok], of d1] d1 d(2) by (auto simp: held_def fun_eq_iff e1_def)
    obtain od e2 where p: "promote_identity w (pdid d) e1 = (od, e2)" by fastforce
    note pr = promote_identity_shelf [OF s1 p]
    define x where "x = (case od of Some x \<Rightarrow> x | None \<Rightarrow> d1)"
    have x: "record_ok x" "pdid x = pdid d"
      using pr(1,6) shelf_okD(2) [of "en_cache e2" "pdid d"] d1
      by (auto simp: x_def held_def split: option.split)
    define e4 where "e4 = mark_dirty (pdid d) (put_device x e2)"
    have run: "e' = (if changed then broadcast_event w EventFingerprintUpdated (pdid d) (DevicePayload x) e4 else e4)"
      using False unfolding e' finish_run_def Let_def d1_def [symmetric] e1_def [symmetric]
      by (auto simp: d1(2) p x_def [symmetric] x(2) e4_def)
    have f: "frame e4 e'" unfolding run by (simp add: frames)
    have h4: "held e4 = (held e2)(pdid d \<mapsto> x)"
      using get_device_upsert [OF pr(1), of x] x d(2) by (auto simp: held_def fun_eq_iff e4_def)
    have others: "held e4 q = held e q" if "q \<noteq> pdid d" for q
      using that pr(5) h1 by (simp add: h4)
    have "service_ok e4"
    proof (rule service_ok_update [OF ok])
      show "shelf_ok (en_cache e4)" using shelf_ok_upsert [OF pr(1) x(1)] by (simp add: e4_def)
      show "stored_rows e4 = stored_rows e" using pr(2) by (simp add: e4_def e1_def)
      show "en_dirty e \<subseteq> en_dirty e4"
        using pr(3) dirty_subset [of "put_device x e2" "pdid d"] by (auto simp: e4_def e1_def)
      fix q y rs assume q: "held e4 q = Some y" and rs: "stored_rows e = Some rs"
      show "held e q = Some y \<or> q \<in> en_dirty e4"
      proof (cases "q = pdid d")
        case True
        have "stored_rows (put_device x e2) = Some rs" using pr(2) rs by (simp add: e1_def)
        from dirty_mark [OF this d(2)] True show ?thesis by (simp add: e4_def)
      qed (use q others in simp)
    qed
    then have "service_ok e'" using f by (blast intro: service_ok_frame)
    then show ?thesis using others held_frame [OF f] by simp
  qed (use ok e' in \<open>simp add: finish_run_def\<close>)
  then show "service_ok e'" "q \<noteq> pdid d \<Longrightarrow> held e' q = held e q" by blast+
qed

text \<open>Enrichment keeps the identity of its copy, and names the sources of fields only.\<close>

lemma record_ok_updates [simp]:
  "record_ok (d\<lparr>friendly_name := v\<rparr>) = record_ok d" "record_ok (d\<lparr>hostname := v\<rparr>) = record_ok d"
  "record_ok (d\<lparr>manufacturer := v\<rparr>) = record_ok d" "record_ok (d\<lparr>vendor := v\<rparr>) = record_ok d"
  "record_ok (d\<lparr>model := v\<rparr>) = record_ok d" "record_ok (d\<lparr>device_type := v\<rparr>) = record_ok d"
  "record_ok (d\<lparr>last_nmap_scan_at := ts, nmap_attempt_count := n\<rparr>) = record_ok d"
  "record_ok (d\<lparr>nmap_attempt_count := n\<rparr>) = record_ok d" "record_ok (d\<lparr>last_nmap_scan_at := ts\<rparr>) = record_ok d"
  "record_ok (d\<lparr>is_fully_identified := b, last_enriched_at := ts\<rparr>) = record_ok d"
  "record_ok (d\<lparr>online := b, pending_online_obs := ps\<rparr>) = record_ok d" "record_ok (d\<lparr>online := b\<rparr>) = record_ok d"
  "record_ok (verified_assurance d) = record_ok d"
  by (simp_all add: record_ok_def provider_named_def verified_assurance_def)

lemma add_services_record: "add_services ss d = (b, d') \<Longrightarrow> record_ok d' \<longleftrightarrow> record_ok d"
  by (simp add: record_ok_def provider_named_def add_services_same)

lemma note_source_record:
  assumes "key \<in> enrichment_keys"
  shows "record_ok (note_source now r key d) \<longleftrightarrow> record_ok d" "pdid (note_source now r key d) = pdid d"
proof -
  have "s \<notin> enrichment_keys \<Longrightarrow> source_info (note_source now r key d) s = source_info d s" for s
    using assms by (auto simp: note_source_def)
  moreover have "device_id (note_source now r key d) = device_id d" by (simp add: note_source_def)
  ultimately show "record_ok (note_source now r key d) \<longleftrightarrow> record_ok d" by (simp add: record_ok_def provider_named_def)
qed (simp add: note_source_def)

lemma apply_enrichment_record:
  assumes "apply_enrichment now r d = (b, d')"
  shows "pdid d' = pdid d" "record_ok d \<Longrightarrow> record_ok d'"
proof -
  define good where "good x \<longleftrightarrow> pdid x = pdid d \<and> (record_ok d \<longrightarrow> record_ok x)" for x
  have src: "good x \<Longrightarrow> key \<in> enrichment_keys \<Longrightarrow> good (note_source now r key x)" for x key
    by (simp add: good_def note_source_record)
  have keys: "''hostname'' \<in> enrichment_keys" "''manufacturer'' \<in> enrichment_keys" "''vendor'' \<in> enrichment_keys"
    "''model'' \<in> enrichment_keys" "''device_type'' \<in> enrichment_keys" by (simp_all add: enrichment_keys_def)
  have fr: "good x \<Longrightarrow> good (snd (apply_friendly r x))" for x
    by (simp add: apply_friendly_def good_def)
  have ho: "good x \<Longrightarrow> good (snd (apply_hostname now r x))" for x
    by (auto simp: apply_hostname_def intro!: src keys) (simp_all add: good_def)
  have fi: "good (snd (apply_field now r key v get put x))"
    if "good x" "key \<in> enrichment_keys" "\<And>v y. good y \<Longrightarrow> good (put v y)" for key v get put x
    using that by (auto simp: apply_field_def intro!: src)
  have sv: "good x \<Longrightarrow> add_services ss x = (c, y) \<Longrightarrow> good y" for ss x c y
    by (simp add: good_def add_services_same add_services_record)
  have put: "good y \<Longrightarrow> good (y\<lparr>manufacturer := v\<rparr>)" "good y \<Longrightarrow> good (y\<lparr>vendor := v\<rparr>)" "good y \<Longrightarrow> good (y\<lparr>model := v\<rparr>)"
    "good y \<Longrightarrow> good (y\<lparr>device_type := v\<rparr>)" for y v
    by (simp_all add: good_def)
  define d1 where "d1 = snd (apply_friendly r d)"
  define d2 where "d2 = snd (apply_hostname now r d1)"
  define d3 where "d3 = snd (apply_field now r ''manufacturer'' (nr_manufacturer r) manufacturer (\<lambda>v d. d\<lparr>manufacturer := v\<rparr>) d2)"
  define d4 where "d4 = snd (apply_field now r ''vendor'' (nr_vendor r) vendor (\<lambda>v d. d\<lparr>vendor := v\<rparr>) d3)"
  define d5 where "d5 = snd (apply_field now r ''model'' (nr_model r) model (\<lambda>v d. d\<lparr>model := v\<rparr>) d4)"
  define d6 where "d6 = snd (apply_field now r ''device_type'' (nr_device_type r) device_type (\<lambda>v d. d\<lparr>device_type := v\<rparr>) d5)"
  have "good d" by (simp add: good_def)
  then have "good d6"
    unfolding d6_def d5_def d4_def d3_def d2_def d1_def by (intro fi put fr ho keys)
  moreover have "d' = snd (add_services (nr_services r) d6)"
    using assms by (simp add: apply_enrichment_def Let_def d1_def d2_def d3_def d4_def d5_def d6_def split: prod.splits)
  ultimately have "good d'" using sv [of d6 "nr_services r"] by (metis prod.collapse)
  then show "pdid d' = pdid d" "record_ok d \<Longrightarrow> record_ok d'" by (auto simp: good_def)
qed

lemma run_primaries_record: "run_primaries es d = (b, d') \<Longrightarrow> pdid d' = pdid d \<and> (record_ok d \<longrightarrow> record_ok d')"
proof (induction es d arbitrary: b d' rule: run_primaries.induct)
  case (2 now enrich es d)
  obtain b1 d1 where 1: "(case enrich d of None \<Rightarrow> (False, d) | Some r \<Rightarrow> apply_enrichment now r d) = (b1, d1)" by fastforce
  have "pdid d1 = pdid d \<and> (record_ok d \<longrightarrow> record_ok d1)"
    using 1 apply_enrichment_record [of now _ d b1 d1] by (auto split: option.splits)
  moreover obtain b2 d2 where 2: "run_primaries es d1 = (b2, d2)" by fastforce
  moreover have "d' = d2" using "2.prems" 1 2 by simp
  ultimately show ?case using "2.IH" [OF 1 [symmetric] refl 2] by auto
qed simp

lemma enrich_copy_record:
  assumes "enrich_copy es fb t1 t2 force d = (b, s, d')" "record_ok d"
  shows "pdid d' = pdid d" "record_ok d'"
proof -
  obtain b1 d1 where 1: "run_primaries es d = (b1, d1)" by fastforce
  have d1: "pdid d1 = pdid d" "record_ok d1" using run_primaries_record [OF 1] assms(2) by blast+
  have fb: "pdid x = pdid d \<and> record_ok x" if "run_fallback scan b1 d1 = (c, x)" for scan c x
  proof (cases "snd scan d1")
    case (Some r)
    obtain c2 y where y: "apply_enrichment (fst scan) r (d1\<lparr>last_nmap_scan_at := fst scan, nmap_attempt_count := nmap_attempt_count d1 + 1\<rparr>) = (c2, y)"
      by fastforce
    from apply_enrichment_record [OF y] d1 have "pdid y = pdid d" "record_ok y" by simp_all
    then show ?thesis using that Some y by (cases scan) (auto simp: run_fallback_def Let_def split: if_splits)
  qed (use that d1 in \<open>auto simp: run_fallback_def Let_def split: prod.splits\<close>)
  have "\<exists>x. pdid x = pdid d \<and> record_ok x \<and> d' = x\<lparr>is_fully_identified := identified x, last_enriched_at := t2\<rparr>"
    using assms(1) 1 d1
    by (cases fb) (auto simp: enrich_copy_def Let_def split: if_splits prod.splits dest!: fb)
  then show "pdid d' = pdid d" "record_ok d'" by auto
qed

subsection \<open>The passes keep memory and store together\<close>

lemma service_ok_sweep:
  assumes ok: "service_ok e" shows "service_ok (staleness_sweep w ks e)"
proof -
  obtain ch c where d: "demote_stale (wd_now w) ks (en_cache e) = (ch, c)" by fastforce
  note eff = demote_effect [OF service_okD(1) [OF ok] d]
  have m: "settled (x\<lparr>online := False\<rparr>) rows = settled x rows" for x rows
    by (rule settled_material) (simp add: material_def updated_row_def device_row_def)
  have "service_ok (e\<lparr>en_cache := c\<rparr>)"
    unfolding service_ok_def
  proof (intro conjI allI impI)
    fix rows assume "stored_rows (e\<lparr>en_cache := c\<rparr>) = Some rows"
    then have rows: "stored_rows e = Some rows" by (simp add: stored_rows_def)
    show "rows_ok rows" using service_okD(2) [OF ok rows] by blast
    fix p x assume "get_device p (en_cache (e\<lparr>en_cache := c\<rparr>)) = Some x"
    then obtain d where "get_device p (en_cache e) = Some d" "x = d \<or> x = d\<lparr>online := False\<rparr>"
      using eff by (auto split: if_splits)
    with service_okD(3) [OF ok rows, of p d] m [of d rows]
    show "p \<in> en_dirty (e\<lparr>en_cache := c\<rparr>) \<or> settled x rows" by auto
  qed (use eff in simp)
  moreover have "frame (e\<lparr>en_cache := c\<rparr>) (staleness_sweep w ks e)"
    unfolding staleness_sweep_def d prod.case
    by (rule frame_fold) (auto simp: frames split: option.split)
  ultimately show ?thesis by (blast intro: service_ok_frame)
qed

lemma service_ok_put_presence:
  assumes ok: "service_ok e" and d: "get_device p (en_cache e) = Some d"
  shows "service_ok (put_device (d\<lparr>online := b, pending_online_obs := ps\<rparr>) e)"
proof -
  from service_okD(4) [OF ok d] have r: "record_ok d" "pdid d = p" "p \<noteq> []" by blast+
  have m: "material (d\<lparr>online := b, pending_online_obs := ps\<rparr>) = material d"
    by (simp add: material_def updated_row_def device_row_def)
  show ?thesis
    using service_ok_put [OF ok, of "d\<lparr>online := b, pending_online_obs := ps\<rparr>" False] r d m by simp
qed

lemma service_ok_come_online: "service_ok e \<Longrightarrow> service_ok (come_online w p e)"
  using service_ok_put_presence [of e p]
  by (auto simp: come_online_def Let_def split: option.split intro: service_ok_frame [OF frame_parts(1)])

lemma service_ok_fold: "(\<And>x e. service_ok e \<Longrightarrow> service_ok (f x e)) \<Longrightarrow> service_ok e \<Longrightarrow> service_ok (fold f xs e)"
  by (induction xs arbitrary: e) auto

lemma service_ok_deferred: "service_ok e \<Longrightarrow> service_ok (flush_deferred w ks e)"
  unfolding flush_deferred_def Let_def
  by (intro service_ok_fold service_ok_come_online) (auto intro: service_ok_frame [OF frame_fields(4)])

lemma frame_flush_changes: "frame e (flush_changes enc clk fails bf w ks e)"
  by (cases "en_store e") (auto simp: flush_changes_def frame_def same_shelf_def stored_rows_def split: prod.split option.split)

text \<open>A batch that was stored settles all its devices.\<close>

lemma batch_saved:
  "for_each (\<lambda>d done. bind_io (save_device_tx rnd ord d) (\<lambda>d'. return_io (done @ [d']))) ds acc out (n, db) = (Inr r, n', db') \<Longrightarrow>
   (\<forall>d \<in> set ds. pdid d \<noteq> [] \<and> record_ok d) \<Longrightarrow> distinct (map pdid ds) \<Longrightarrow> (rows_ok (dd_devices db)) \<Longrightarrow>
   (rows_ok (dd_devices db')) \<and> (\<forall>d \<in> set ds. settled d (dd_devices db'))
   \<and> (\<forall>x. pdid x \<notin> pdid ` set ds \<longrightarrow> settled x (dd_devices db) \<longrightarrow> settled x (dd_devices db'))"
proof (induction ds arbitrary: acc n db)
  case (Cons d ds)
  from Cons.prems(1) obtain t n1 db1 where s: "save_device_tx rnd ord d out (n, db) = (Inr t, n1, db1)"
    and r: "for_each (\<lambda>d done. bind_io (save_device_tx rnd ord d) (\<lambda>d'. return_io (done @ [d']))) ds (acc @ [t]) out (n1, db1)
      = (Inr r, n', db')"
    by (auto simp: return_io_def elim!: bind_succeeds)
  from Cons.prems(2) have d: "pdid d \<noteq> []" "device_id d \<noteq> []" "record_ok d" by (auto simp: record_ok_def)
  note rows = saved_rows(1) [OF s d(1,2)]
  have "rows_ok (dd_devices db1)" unfolding rows using Cons.prems(4) d(3) by (rule stored_upserted)
  from Cons.IH [OF r _ _ this] Cons.prems(2,3) have IH: "rows_ok (dd_devices db')"
    "\<forall>d \<in> set ds. settled d (dd_devices db')"
    "\<And>x. pdid x \<notin> pdid ` set ds \<Longrightarrow> settled x (dd_devices db1) \<Longrightarrow> settled x (dd_devices db')" by auto
  have "settled d (dd_devices db')" using IH(3) [of d] settled_upserted [of d] Cons.prems(3) by (auto simp: rows)
  with IH settled_other show ?case by (auto simp: rows)
qed (auto simp: return_io_def)

lemma set_map_filter_Some: "x \<in> set (List.map_filter f xs) \<longleftrightarrow> (\<exists>y \<in> set xs. f y = Some x)"
  by (induction xs) (auto simp: List.map_filter_simps split: option.splits)

lemma cached_devices:
  assumes ok: "service_ok e" and ps: "distinct ps"
  defines "ds \<equiv> List.map_filter (\<lambda>p. get_device p (en_cache e)) ps"
  shows "d \<in> set ds \<longleftrightarrow> pdid d \<in> set ps \<and> get_device (pdid d) (en_cache e) = Some d" "distinct (map pdid ds)"
proof -
  have p: "get_device p (en_cache e) = Some d \<Longrightarrow> pdid d = p" for p d using service_okD(4) [OF ok] by blast
  show "d \<in> set ds \<longleftrightarrow> pdid d \<in> set ps \<and> get_device (pdid d) (en_cache e) = Some d"
    unfolding ds_def set_map_filter_Some using p by blast
  have "map pdid ds = filter (\<lambda>p. get_device p (en_cache e) \<noteq> None) ps"
    unfolding ds_def using p by (induction ps) (auto simp: List.map_filter_simps split: option.split)
  then show "distinct (map pdid ds)" using ps by simp
qed

lemma save_batch_outcome:
  assumes run: "on_store w (save_devices_batch rnd ord ds) e = (r, e')"
    and ds: "\<forall>d \<in> set ds. pdid d \<noteq> [] \<and> record_ok d" "distinct (map pdid ds)"
    and form: "\<And>rows. stored_rows e = Some rows \<Longrightarrow> rows_ok rows"
  shows "en_cache e' = en_cache e" "en_dirty e' = en_dirty e" "r = None \<Longrightarrow> stored_rows e' = None"
    "r = Some (Inl err) \<Longrightarrow> stored_rows e' = stored_rows e"
    "r = Some (Inr u) \<Longrightarrow> \<exists>old rows. stored_rows e = Some old \<and> stored_rows e' = Some rows
       \<and> rows_ok rows \<and> (\<forall>d \<in> set ds. settled d rows)
       \<and> (\<forall>x. pdid x \<notin> pdid ` set ds \<longrightarrow> settled x old \<longrightarrow> settled x rows)"
proof -
  show "en_cache e' = en_cache e" "en_dirty e' = en_dirty e" "r = None \<Longrightarrow> stored_rows e' = None"
    using run by (auto simp: on_store_def stored_rows_def split: option.splits prod.splits)
  show "r = Some (Inl err) \<Longrightarrow> stored_rows e' = stored_rows e"
    using run transaction_fails
    by (fastforce simp: on_store_def stored_rows_def save_devices_batch_def split: option.splits prod.splits)
  assume "r = Some (Inr u)"
  with run obtain n db n' db' where s: "en_store e = Some (n, db)" "e' = e\<lparr>en_store := Some (n', db')\<rparr>"
    "save_devices_batch rnd ord ds (wd_out w) (n, db) = (Inr u, n', db')"
    by (auto simp: on_store_def split: option.splits prod.splits)
  from transaction_succeeds [OF s(3) [unfolded save_devices_batch_def]] obtain k where
    "for_each (\<lambda>d done. bind_io (save_device_tx rnd ord d) (\<lambda>d'. return_io (done @ [d']))) ds [] (wd_out w) (Suc n, db)
      = (Inr u, k, db')" by blast
  from batch_saved [OF this ds form] s show "\<exists>old rows. stored_rows e = Some old \<and> stored_rows e' = Some rows
       \<and> rows_ok rows \<and> (\<forall>d \<in> set ds. settled d rows)
       \<and> (\<forall>x. pdid x \<notin> pdid ` set ds \<longrightarrow> settled x old \<longrightarrow> settled x rows)"
    by (simp add: stored_rows_def)
qed

text \<open>A flush of all dirty devices either stores them all or leaves them dirty.\<close>

lemma flush_dirty_effect:
  assumes ok: "service_ok e" and ps: "distinct ps" "set ps = en_dirty e"
  shows "service_ok (flush_dirty w ps e)" "held (flush_dirty w ps e) = held e"
    "en_dirty (flush_dirty w ps e) \<subseteq> en_dirty e"
proof -
  define ds where "ds = List.map_filter (\<lambda>p. get_device p (en_cache e)) ps"
  note cd = cached_devices [OF ok ps(1), folded ds_def]
  have dd: "\<forall>d \<in> set ds. pdid d \<noteq> [] \<and> record_ok d" using cd(1) service_okD(4) [OF ok] by blast
  obtain r e2 where s: "on_store w (save_devices_batch (wd_save_random w) (wd_ord w) ds) (e\<lparr>en_dirty := {}\<rparr>) = (r, e2)" by fastforce
  have form: "\<And>rows. stored_rows (e\<lparr>en_dirty := {}\<rparr>) = Some rows \<Longrightarrow> rows_ok rows"
    using service_okD(2) [OF ok] by (auto simp: stored_rows_def)
  note out = save_batch_outcome [OF s dd cd(2) form]
  have sr: "stored_rows (e\<lparr>en_dirty := {}\<rparr>) = stored_rows e" by (simp add: stored_rows_def)
  have "service_ok (flush_dirty w ps e) \<and> held (flush_dirty w ps e) = held e \<and> en_dirty (flush_dirty w ps e) \<subseteq> en_dirty e"
  proof (cases "en_dirty e = {}")
    case False
    show ?thesis
    proof (cases "ds = []")
      case True
      then have fl: "flush_dirty w ps e = e\<lparr>en_dirty := {}\<rparr>"
        using False by (simp add: flush_dirty_def ds_def [symmetric])
      have "q \<notin> en_dirty e" if "get_device q (en_cache e) = Some d" for q d
        using that cd(1) [of d] True ps(2) service_okD(4) [OF ok that] by auto
      with ok show ?thesis unfolding fl service_ok_def sr by (auto simp: held_def fun_eq_iff)
    next
      case ne: False
      have fl: "flush_dirty w ps e = (case r of Some (Inl _) \<Rightarrow> e2\<lparr>en_dirty := en_dirty e2 \<union> pdid ` set ds\<rparr> | _ \<Rightarrow> e2)"
        using False ne by (auto simp: flush_dirty_def ds_def [symmetric] Let_def s split: option.split sum.split)
      show ?thesis
      proof (cases r)
        case None
        then have "flush_dirty w ps e = e2" by (simp add: fl)
        then show ?thesis using out(1-3) None service_okD(1) [OF ok] by (auto simp: service_ok_def held_def fun_eq_iff)
      next
        case (Some x)
        show ?thesis
        proof (cases x)
          case (Inl err)
          let ?e = "e2\<lparr>en_dirty := en_dirty e2 \<union> pdid ` set ds\<rparr>"
          have fe: "flush_dirty w ps e = ?e" using Some Inl by (simp add: fl)
          have rows: "stored_rows ?e = stored_rows e" using out(4) Some Inl sr by (simp add: stored_rows_def)
          have hold: "held ?e = held e" using out(1) by (simp add: held_def fun_eq_iff)
          have "q \<in> pdid ` set ds" if "held e q = Some d" "q \<in> en_dirty e" for q d
            using that cd(1) [of d] ps(2) service_okD(4) [OF ok, of q d] by (auto simp: held_def)
          then have "q \<in> en_dirty ?e \<or> settled d rs" if "stored_rows e = Some rs" "held e q = Some d" for rs q d
            using that service_okD(3) [OF ok that(1), of q d] by (auto simp: held_def)
          then have "service_ok ?e"
            using service_okD(1,2) [OF ok] out(1)
            unfolding service_ok_def rows held_def [symmetric] hold by simp
          then show ?thesis using hold out(2) cd(1) ps(2) unfolding fe by auto
        next
          case (Inr u)
          have fe: "flush_dirty w ps e = e2" using Some Inr by (simp add: fl)
          from out(5) Some Inr obtain old rows where o: "stored_rows e = Some old" "stored_rows e2 = Some rows"
            "rows_ok rows" "\<forall>d \<in> set ds. settled d rows"
            "\<And>x. pdid x \<notin> pdid ` set ds \<Longrightarrow> settled x old \<Longrightarrow> settled x rows" unfolding sr by blast
          have "settled d rows" if "get_device q (en_cache e) = Some d" for q d
          proof (cases "q \<in> en_dirty e")
            case True
            with cd(1) [of d] ps(2) service_okD(4) [OF ok that] that o(4) show ?thesis by auto
          next
            case False
            with cd(1) ps(2) service_okD(4) [OF ok that] have "pdid d \<notin> pdid ` set ds" by auto
            with o(5) service_okD(3) [OF ok o(1) that] False show ?thesis by blast
          qed
          with o(2,3) service_okD(1) [OF ok] out(1,2) show ?thesis
            unfolding fe by (auto simp: service_ok_def held_def fun_eq_iff)
        qed
      qed
    qed
  qed (use ok in \<open>simp add: flush_dirty_def\<close>)
  then show "service_ok (flush_dirty w ps e)" "held (flush_dirty w ps e) = held e"
    "en_dirty (flush_dirty w ps e) \<subseteq> en_dirty e" by blast+
qed

subsection \<open>The review keeps memory and store together\<close>

lemma frame_engine_pdid: "engine_pdid w p e = (q, e') \<Longrightarrow> frame e e'"
proof -
  assume run: "engine_pdid w p e = (q, e')"
  obtain r e1 where s: "on_store w (resolve_stored_pdid p) e = (r, e1)" by fastforce
  then have "frame e e1" by (rule frame_store [rotated]) (rule db_inv)
  moreover have "e' = e1" using run s by (auto simp: engine_pdid_def split: option.splits sum.splits)
  ultimately show ?thesis by simp
qed

lemma frame_reread: "reread w i e = (c, e') \<Longrightarrow> frame e e'"
proof -
  assume run: "reread w i e = (c, e')"
  obtain r e1 where s: "on_store w (get_identity_candidate i) e = (r, e1)" by fastforce
  then have "frame e e1" by (rule frame_store [rotated]) (rule db_inv)
  moreover have "e' = e1" using run s by (auto simp: reread_def split: option.splits sum.splits)
  ultimately show ?thesis by simp
qed

lemma frame_candidate_event: "frame e (candidate_event w t c e)"
  unfolding candidate_event_def by (rule frames)

lemma frame_review_reads:
  "get_identity_profile w p e = (r1, e') \<Longrightarrow> frame e e'"
  "get_candidate w i e = (r2, e') \<Longrightarrow> frame e e'"
  "list_candidates enc dec w status limit cursor e = (r3, e') \<Longrightarrow> frame e e'"
proof -
  { assume run: "get_identity_profile w p e = (r1, e')"
    obtain q e1 where q: "engine_pdid w p e = (q, e1)" by fastforce
    obtain r e2 where s: "on_store w (identity_profile_of q) e1 = (r, e2)" by fastforce
    have "frame e1 e2" using s by (rule frame_store [rotated]) (rule db_inv)
    moreover have "e' = e \<or> e' = e2" using run q s
      by (auto simp: get_identity_profile_def split: if_splits option.splits sum.splits)
    ultimately show "frame e e'" using frame_engine_pdid [OF q] by (auto intro: frame_trans frames) }
  { assume run: "get_candidate w i e = (r2, e')"
    obtain r e2 where s: "on_store w (get_identity_candidate i) e = (r, e2)" by fastforce
    have "frame e e2" using s by (rule frame_store [rotated]) (rule db_inv)
    moreover have "e' = e2" using run s by (auto simp: get_candidate_def split: option.splits sum.splits)
    ultimately show "frame e e'" by simp }
  { assume run: "list_candidates enc dec w status limit cursor e = (r3, e')"
    show "frame e e'"
    proof (cases "if cursor = [] then Some (zero_time, 0) else dec cursor")
      case (Some ti)
      obtain t i where ti: "ti = (t, i)" by fastforce
      obtain x e2 where s: "on_store w (list_identity_candidates_page status (limit + 1) t i) e = (x, e2)" by fastforce
      have "frame e e2" using s by (rule frame_store [rotated]) (rule db_inv)
      moreover have "e' = e \<or> e' = e2"
        using run s unfolding list_candidates_def Some ti
        by (simp add: Let_def split: if_split_asm option.split_asm sum.split_asm)
      ultimately show ?thesis by (auto intro: frames)
    qed (use run in \<open>auto simp: list_candidates_def frames split: if_split_asm\<close>) }
qed

lemma frame_decisions:
  "reject_candidate w i rq e = (r1, e') \<Longrightarrow> frame e e'" "reopen_candidate w i rq e = (r2, e') \<Longrightarrow> frame e e'"
proof -
  obtain r e1 where g: "on_store w (get_identity_candidate i) e = (r, e1)" by fastforce
  have f1: "frame e e1" using g by (rule frame_store [rotated]) (rule db_inv)
  { assume run: "reject_candidate w i rq e = (r1, e')"
    obtain x e2 where d: "on_store w (decide_identity_candidate (wd_now w) i ''rejected'' ''manual_admin'' [dr_note rq]) e1 = (x, e2)"
      by fastforce
    have f2: "frame e1 e2" using d by (rule frame_store [rotated]) (rule db_inv)
    obtain c e3 where c: "reread w i e2 = (c, e3)" by fastforce
    have "e' = e1 \<or> e' = e2 \<or> e' = candidate_event w EventIdentityCandidateDecided c e3"
      using run g d c by (auto simp: reject_candidate_def Let_def split: if_splits option.splits sum.splits)
    moreover have "frame e e2" using f1 f2 by (rule frame_trans)
    moreover have "frame e (candidate_event w ty c' e3)" for ty c'
      by (rule frame_trans [OF frame_trans [OF \<open>frame e e2\<close> frame_reread [OF c]] frame_candidate_event])
    ultimately show "frame e e'" using f1 by auto }
  { assume run: "reopen_candidate w i rq e = (r2, e')"
    obtain x e2 where d: "on_store w (reopen_identity_candidate (wd_now w) i ''manual_admin'' (dr_note rq)) e1 = (x, e2)"
      by fastforce
    have f2: "frame e1 e2" using d by (rule frame_store [rotated]) (rule db_inv)
    obtain c e3 where c: "reread w i e2 = (c, e3)" by fastforce
    have "e' = e1 \<or> e' = e2 \<or> (\<exists>c. e' = candidate_event w EventIdentityCandidateChanged c e3)"
      using run g d c by (auto simp: reopen_candidate_def Let_def split: if_splits option.splits sum.splits)
    moreover have "frame e e2" using f1 f2 by (rule frame_trans)
    moreover have "frame e (candidate_event w ty c' e3)" for ty c'
      by (rule frame_trans [OF frame_trans [OF \<open>frame e e2\<close> frame_reread [OF c]] frame_candidate_event])
    ultimately show "frame e e'" using f1 by auto }
qed

lemma frame_revoke: "revoke_alias w ks p i e = (r, e') \<Longrightarrow> frame e e'"
proof -
  assume run: "revoke_alias w ks p i e = (r, e')"
  obtain q e1 where q: "engine_pdid w p e = (q, e1)" by fastforce
  obtain x e2 where s: "on_store w (revoke_identity_alias (wd_now w) q i) e1 = (x, e2)" by fastforce
  have f: "frame e e2" using s frame_engine_pdid [OF q] by (blast intro: frame_trans frame_store db_inv)
  have "e' = e \<or> e' = e2 \<or> (\<exists>pl. e' = broadcast_event w EventIdentityBindingChanged q pl
      (e2\<lparr>en_aliases := mark_revoked ks i (en_aliases e2)\<rparr>))"
    using run q s by (auto simp: revoke_alias_def split: if_splits option.splits sum.splits)
  then show ?thesis using f frame_parts(1) frame_fields(5) by (auto intro: frames) (blast intro: frame_trans)
qed

lemma service_ok_bind:
  assumes ok: "service_ok e" and run: "bind_identity_alias w p t v src e = (r, e')"
  shows "service_ok e'"
proof -
  obtain q e1 where q: "engine_pdid w p e = (q, e1)" by fastforce
  note f1 = frame_engine_pdid [OF q]
  show ?thesis
  proof (cases "e' = e \<or> e' = e1")
    case False
    with run q obtain d h where d: "get_device q (en_cache e1) = Some d" and h: "hash_alias (wd_sha w) t v = Some h"
      by (simp add: bind_identity_alias_def split: if_split_asm option.split_asm)
    define a where "a = \<lparr>al_id = 0, al_device = device_id d, al_type = t, al_hash = h,
       al_source = (if trim_space src = [] then ''manual_admin'' else trim_space src), al_confidence = 1, al_verified = True,
       al_first = wd_now w, al_last = wd_now w, al_revoked = None\<rparr>"
    obtain r2 e2 where s: "on_store w (upsert_identity_alias (wd_now w) a) e1 = (r2, e2)" by fastforce
    have e': "e' = e2 \<or> (\<exists>al pl. e' = broadcast_event w EventIdentityBindingChanged (pdid d) pl
          (mark_dirty (pdid d) (put_device (verified_assurance d) (e2\<lparr>en_aliases := al\<rparr>))))"
      using run False unfolding bind_identity_alias_def q prod.case d h option.case Let_def a_def [symmetric] s
      by (auto split: if_split_asm option.split_asm sum.split_asm)
    have f2: "frame e1 e2" using s by (rule frame_store [rotated]) (rule db_inv)
    have f: "frame e e2" using f1 f2 by (rule frame_trans)
    have put: "service_ok (mark_dirty (pdid d) (put_device (verified_assurance d) (e2\<lparr>en_aliases := al\<rparr>)))" for al
    proof -
      have ok2: "service_ok (e2\<lparr>en_aliases := al\<rparr>)"
        using ok f frame_fields(5) by (blast intro: service_ok_frame frame_trans)
      have d2: "get_device q (en_cache (e2\<lparr>en_aliases := al\<rparr>)) = Some d" using d frameD(1) [OF f2] by simp
      from service_okD(4) [OF ok2 d2] have "record_ok (verified_assurance d)" "pdid (verified_assurance d) = pdid d" "pdid d \<noteq> []"
        by (auto simp: verified_assurance_def record_ok_def provider_named_def)
      with service_ok_put [OF ok2, of "verified_assurance d" True] show ?thesis by simp
    qed
    from e' show ?thesis using service_ok_frame [OF f ok] put by (auto intro: service_ok_frame [OF frame_parts(1)])
  qed (use ok f1 in \<open>auto intro: service_ok_frame\<close>)
qed

text \<open>A confirmed merge stores the target and deletes the source in one transaction.\<close>

lemma merged_rows:
  assumes run: "confirm_candidate_merge rnd ord now i s d note out (n, db) = (r, n', db')"
    and d: "pdid d \<noteq> []" "device_id d \<noteq> []"
  shows "r = Inl err \<Longrightarrow> dd_devices db' = dd_devices db"
    "r = Inr c \<Longrightarrow> pdid s \<noteq> pdid d \<and> dd_devices db' =
       filter (\<lambda>x. pdid x \<noteq> pdid s) (upsert_row pdid updated_row (device_row d) (dd_devices db))"
proof -
  show "r = Inl err \<Longrightarrow> dd_devices db' = dd_devices db"
    using run by (auto simp: confirm_candidate_merge_def fail_io_def dest!: transaction_fails split: if_splits)
  assume r: "r = Inr c"
  from run r have ne: "pdid s \<noteq> pdid d" by (auto simp: confirm_candidate_merge_def fail_io_def split: if_splits)
  define body where "body = bind_io (query (\<lambda>db. find (\<lambda>c. cd_id c = i) (dd_candidates db))) (\<lambda>row.
        case row of None \<Rightarrow> fail_io ErrIdentityNotFound
        | Some c \<Rightarrow>
            if cd_status c \<noteq> ''pending'' \<or> cd_source c \<noteq> pdid s \<or> cd_target c \<noteq> pdid d
            then fail_io ErrCandidateChanged
            else let confirm = decided now ''confirmed'' ''manual_admin'' (trim_space note) False
              in bind_io (exec_counting (transition i ''pending'' confirm)) (\<lambda>changed.
                if changed \<noteq> 1 then fail_io ErrCandidateChanged
                else then_io (merge_devices_tx rnd ord s d) (return_io (confirm c))))"
  have "transaction body out (n, db) = (Inr c, n', db')"
    using run ne r unfolding confirm_candidate_merge_def body_def by simp
  from transaction_succeeds [OF this] obtain k where "body out (Suc n, db) = (Inr c, k, db')" by blast
  then obtain n1 db1 u n2 where t: "transition i ''pending'' (decided now ''confirmed'' ''manual_admin'' (trim_space note) False) db = (1, db1)"
    and m: "merge_devices_tx rnd ord s d out (n1, db1) = (Inr u, n2, db')"
    unfolding body_def
    by (auto simp: query_def exec_counting_def fail_io_def return_io_def Let_def split: option.splits if_splits prod.splits
        elim!: bind_succeeds then_succeeds)
  have 1: "dd_devices db1 = dd_devices db" using t by (auto simp: transition_def Let_def)
  obtain n3 db3 t' n4 where
    sv: "save_device_tx rnd ord d out (n3, db1\<lparr>dd_macs := filter (\<lambda>r. snd r \<noteq> pdid s) (dd_macs db1),
       dd_ips := filter (\<lambda>r. snd r \<noteq> pdid s) (dd_ips db1)\<rparr>) = (Inr t', n4, db3)"
    and del: "\<exists>x. delete_device_row (pdid s) x = Inr db' \<and> dd_devices x = dd_devices db3"
    by (rule merge_tx_succeeds [OF m]) (rule that, assumption, rule exI, rule conjI, assumption, simp)
  have 3: "dd_devices db3 = upsert_row pdid updated_row (device_row d) (dd_devices db)"
    using saved_rows(1) [OF sv d] 1 by simp
  from del obtain x where x: "delete_device_row (pdid s) x = Inr db'" "dd_devices x = dd_devices db3" by blast
  have "dd_devices db' = filter (\<lambda>y. pdid y \<noteq> pdid s) (dd_devices x)"
    using x(1) by (auto simp: delete_device_row_def known_pdid_def filter_id_conv split: if_splits)
  with 3 x(2) ne show "pdid s \<noteq> pdid d \<and> dd_devices db' =
       filter (\<lambda>x. pdid x \<noteq> pdid s) (upsert_row pdid updated_row (device_row d) (dd_devices db))" by simp
qed

lemma merge_data_record:
  "pdid (merge_device_data s t) = pdid t" "record_ok (merge_device_data s t) \<longleftrightarrow> record_ok t"
proof -
  have mac: "pdid (foldl add_mac x ms) = pdid x \<and> device_id (foldl add_mac x ms) = device_id x
      \<and> source_info (foldl add_mac x ms) = source_info x" for x ms
    by (induction ms arbitrary: x) (simp_all add: add_mac_def Let_def)
  have ip: "pdid (foldl add_ip x as) = pdid x \<and> device_id (foldl add_ip x as) = device_id x
      \<and> source_info (foldl add_ip x as) = source_info x" for x as
    by (induction as arbitrary: x) (simp_all add: add_ip_def Let_def)
  have sv: "pdid (snd (add_services ss x)) = pdid x \<and> device_id (snd (add_services ss x)) = device_id x
      \<and> source_info (snd (add_services ss x)) = source_info x" for x ss
    using add_services_same [of ss x] by (metis prod.collapse)
  have tg: "pdid (fold add_tag ts x) = pdid x \<and> device_id (fold add_tag ts x) = device_id x
      \<and> source_info (fold add_tag ts x) = source_info x" for x ts
    by (induction ts arbitrary: x) (simp_all add: add_tag_def)
  have se: "pdid (merged_seen s x) = pdid x \<and> device_id (merged_seen s x) = device_id x
      \<and> source_info (merged_seen s x) = source_info x" for x
    by (simp add: merged_seen_def Let_def)
  show "pdid (merge_device_data s t) = pdid t" "record_ok (merge_device_data s t) \<longleftrightarrow> record_ok t"
    by (simp_all add: merge_device_data_def Let_def verified_assurance_def record_ok_def provider_named_def mac ip sv tg se)
qed

text \<open>A confirmation leaves every device as it was, or it removes the source and keeps the merged target.\<close>

definition confirm_outcome :: "dis_engine \<Rightarrow> review_error + device \<Rightarrow> dis_engine \<Rightarrow> bool" where
  "confirm_outcome e r e' = (case r of
     Inl _ \<Rightarrow> held e' = held e \<and> stored_rows e' = stored_rows e
   | Inr d \<Rightarrow> held e' = held e \<and> held e (pdid d) = Some d
      \<or> (\<exists>s t. held e (pdid s) = Some s \<and> held e (pdid t) = Some t \<and> pdid s \<noteq> pdid t \<and> \<not> (online s \<and> online t)
          \<and> d = merge_device_data s t \<and> held e' = (held e)(pdid s := None, pdid t \<mapsto> d)
          \<and> (\<exists>rows. stored_rows e' = Some rows \<and> pdid s \<notin> pdid ` set rows)))"

lemma confirm_effect:
  assumes ok: "service_ok e" and run: "confirm_candidate w i rq e = (r, e')"
  shows "service_ok e' \<and> confirm_outcome e r e'"
proof -
  obtain x e1 where g: "on_store w (get_identity_candidate i) e = (x, e1)" by fastforce
  have f1: "frame e e1" using g by (rule frame_store [rotated]) (rule db_inv)
  have ok1: "service_ok e1" using f1 ok by (rule service_ok_frame)
  note same_e = held_frame [OF f1] frameD(3) [OF f1]
  consider (same) err where "e' = e1" "r = Inl err"
    | (known) p q where "engine_pdid w p e1 = (q, e')" "r = (case get_device q (en_cache e') of None \<Rightarrow> Inl CandidateStale | Some d \<Rightarrow> Inr d)"
    | (merge) c s t where "x = Some (Inr c)" "get_device (cd_source c) (en_cache e1) = Some s"
      "get_device (cd_target c) (en_cache e1) = Some t" "\<not> (online s \<and> online t)"
      "cd_status c = ''pending''" "decision_fits c rq"
  proof (cases "\<exists>c. x = Some (Inr c)")
    case True
    then obtain c where x: "x = Some (Inr c)" ..
    show ?thesis
    proof (cases "cd_status c = ''confirmed''")
      case True
      obtain q eq where "engine_pdid w (cd_target c) e1 = (q, eq)" by fastforce
      moreover from this run True have "e' = eq"
        "r = (case get_device q (en_cache eq) of None \<Rightarrow> Inl CandidateStale | Some d \<Rightarrow> Inr d)"
        by (auto simp: confirm_candidate_def g x split: option.splits)
      ultimately show ?thesis using known by blast
    next
      case False
      then show ?thesis using run same merge [OF x]
        unfolding confirm_candidate_def g x by (auto split: if_split_asm option.split_asm)
    qed
  next
    case False
    then have "e' = e1 \<and> (\<exists>err. r = Inl err)"
      using run unfolding confirm_candidate_def g by (auto split: option.split_asm sum.split_asm)
    then show ?thesis using same by blast
  qed
  then show ?thesis
  proof cases
    case (merge c s t)
    define d where "d = merge_device_data s t"
    obtain y e2 where m: "on_store w (confirm_candidate_merge (wd_save_random w) (wd_ord w) (wd_now w) i s d (dr_note rq)) e1 = (y, e2)"
      by fastforce
    have "record_ok t" "pdid t = cd_target c" "cd_target c \<noteq> []" using service_okD(4) [OF ok1 merge(3)] by blast+
    then have d: "record_ok d" "pdid d = cd_target c" "pdid d \<noteq> []" "device_id d \<noteq> []"
      using merge_data_record [of s t] by (simp_all add: d_def record_ok_def)
    have s: "pdid s = cd_source c" using service_okD(4) [OF ok1 merge(2)] by blast
    have step: "(r, e') = (case y of Some (Inr c') \<Rightarrow>
          let e3 = put_device d (forget_device w (pdid s) e2);
              e4 = candidate_event w EventIdentityCandidateDecided c' e3
          in (Inr d, broadcast_event w EventDeviceReidentified (pdid d) (ReidentifiedPayload
               \<lparr>rp_old = pdid s, rp_new = pdid d, rp_reason = ''manual_candidate_confirmation'',
                rp_macs = macs s, rp_timestamp = wd_now w\<rparr>) e4)
        | Some (Inl err) \<Rightarrow> (Inl (StoreFailed err), e2) | None \<Rightarrow> (Inl NoPersistence, e2))"
      using run merge unfolding confirm_candidate_def g merge(1) d_def Let_def
      by (intro sym [of _ "(r, e')"]) (simp add: m [unfolded d_def])
    have keep: "en_cache e2 = en_cache e1" "en_dirty e2 = en_dirty e1"
      using m by (auto simp: on_store_def split: option.splits prod.splits)
    show ?thesis
    proof (cases "\<exists>c'. y = Some (Inr c')")
      case False
      have "stored_rows e2 = stored_rows e1"
      proof (cases "en_store e1")
        case (Some st)
        obtain rr n' db' where rr: "confirm_candidate_merge (wd_save_random w) (wd_ord w) (wd_now w) i s d (dr_note rq)
            (wd_out w) (fst st, snd st) = (rr, n', db')" by (metis prod.collapse)
        with m Some have "y = Some rr" "e2 = e1\<lparr>en_store := Some (n', db')\<rparr>" by (auto simp: on_store_def)
        moreover from this False obtain err where "rr = Inl err" by (cases rr) auto
        ultimately show ?thesis using merged_rows(1) [OF rr d(3,4)] Some by (simp add: stored_rows_def)
      qed (use m in \<open>auto simp: on_store_def stored_rows_def\<close>)
      moreover have "e' = e2 \<and> (\<exists>err. r = Inl err)" using step False by (auto split: option.splits sum.splits)
      ultimately show ?thesis using keep ok1 same_e by (auto simp: service_ok_def confirm_outcome_def held_def fun_eq_iff)
    next
      case True
      then obtain c' where y: "y = Some (Inr c')" ..
      define e3 where "e3 = put_device d (forget_device w (pdid s) e2)"
      have e': "frame e3 e'" using step
        by (auto simp: y Let_def e3_def [symmetric] intro: frame_trans frame_candidate_event frames)
      from m y obtain n db n' db' where st: "en_store e1 = Some (n, db)" "e2 = e1\<lparr>en_store := Some (n', db')\<rparr>"
        "confirm_candidate_merge (wd_save_random w) (wd_ord w) (wd_now w) i s d (dr_note rq) (wd_out w) (n, db) = (Inr c', n', db')"
        by (auto simp: on_store_def split: option.splits prod.splits)
      from merged_rows(2) [OF st(3) d(3,4) refl] have ne: "pdid s \<noteq> pdid d"
        and rows: "dd_devices db' = filter (\<lambda>x. pdid x \<noteq> pdid s) (upsert_row pdid updated_row (device_row d) (dd_devices db))"
        by blast+
      have r1: "stored_rows e1 = Some (dd_devices db)" using st(1) by (simp add: stored_rows_def)
      have shelf2: "shelf_ok (en_cache e2)" using service_okD(1) [OF ok1] keep by simp
      note rem = forget_device_effect [OF shelf2, of w "pdid s"]
      have r3: "stored_rows e3 = Some (dd_devices db')" using rem(4) st(2) by (simp add: e3_def stored_rows_def)
      have h3: "held e3 = ((held e1)(pdid s := None))(pdid d \<mapsto> d)"
        using get_device_upsert [OF rem(1) d(3)] rem(2) keep(1) by (auto simp: e3_def held_def fun_eq_iff)
      have kept: "settled z (dd_devices db')" if "settled z (upsert_row pdid updated_row (device_row d) (dd_devices db))"
        "pdid z \<noteq> pdid s" for z
        using that unfolding rows settled_def by auto
      have "service_ok e3"
        unfolding service_ok_def r3 held_def [symmetric]
      proof (intro conjI allI impI)
        show "shelf_ok (en_cache e3)" using shelf_ok_upsert [OF rem(1) d(1)] by (simp add: e3_def)
        fix rows' assume r': "Some (dd_devices db') = Some rows'"
        have "rows_ok (dd_devices db)" using service_okD(2) [OF ok1 r1] by blast
        with r' show "rows_ok rows'" using stored_upserted [OF _ d(1)] by (auto simp: rows intro: rows_ok_filter)
        fix q z assume z: "held e3 q = Some z"
        show "q \<in> en_dirty e3 \<or> settled z rows'"
        proof (cases "q = pdid d")
          case True
          then show ?thesis using z kept [OF settled_upserted] ne r' by (auto simp: h3)
        next
          case False
          with z have "held e1 q = Some z" "q \<noteq> pdid s" by (auto simp: h3 split: if_splits)
          moreover from this service_okD(4) [OF ok1] have "pdid z = q" by (auto simp: held_def)
          ultimately show ?thesis
            using service_okD(3) [OF ok1 r1, of q z] kept [of z] settled_other [of z "dd_devices db" d] False r' rem(3) keep(2)
            by (auto simp: held_def e3_def)
        qed
      qed
      then have "service_ok e'" using e' by (blast intro: service_ok_frame)
      moreover have "confirm_outcome e r e'"
      proof -
        have "r = Inr d" using step by (simp add: y Let_def)
        moreover have "held e (pdid s) = Some s" "held e (pdid t) = Some t"
          using merge(2,3) s \<open>pdid t = cd_target c\<close> same_e(1) by (simp_all add: held_def fun_eq_iff)
        moreover have "held e' = (held e)(pdid s := None, pdid t \<mapsto> d)"
          using h3 same_e(1) held_frame [OF e'] d(2) \<open>pdid t = cd_target c\<close> by simp
        moreover have "stored_rows e' = Some (dd_devices db')" using r3 frameD(3) [OF e'] by simp
        moreover have "pdid s \<notin> pdid ` set (dd_devices db')" by (auto simp: rows)
        ultimately show ?thesis using merge(4) ne d(2) \<open>pdid t = cd_target c\<close>
          unfolding confirm_outcome_def
          by (simp only: sum.case) (intro disjI2 exI [of _ s] exI [of _ t], simp add: d_def)
      qed
      ultimately show ?thesis ..
    qed
  next
    case (known p q)
    have f: "frame e e'" using f1 frame_engine_pdid [OF known(1)] by (rule frame_trans)
    have "d = x" if "get_device q (en_cache e') = Some d" "held e (pdid d) = Some x" for d x
      using that service_okD(4) [OF ok, of q d] held_frame [OF f] by (simp add: held_def fun_eq_iff frameD [OF f])
    with known(2) service_ok_frame [OF f ok] held_frame [OF f] frameD(3) [OF f] service_okD(4) [OF ok, of q] show ?thesis
      by (auto simp: confirm_outcome_def held_def frameD [OF f] split: option.splits)
  qed (use ok1 same_e in \<open>auto simp: confirm_outcome_def\<close>)
qed

lemmas service_ok_confirm = confirm_effect [THEN conjunct1]

lemma split_rows:
  assumes run: "split_device rnd ord now o1 s1 h out (n, db) = (r, n', db')"
    and o1: "pdid o1 \<noteq> []" "device_id o1 \<noteq> []" and s1: "pdid s1 \<noteq> []" "device_id s1 \<noteq> []"
  shows "r = Inl err \<Longrightarrow> dd_devices db' = dd_devices db"
    "r = Inr u \<Longrightarrow> pdid o1 \<noteq> pdid s1 \<and> dd_devices db' =
       upsert_row pdid updated_row (device_row s1) (upsert_row pdid updated_row (device_row o1) (dd_devices db))"
proof -
  show "r = Inl err \<Longrightarrow> dd_devices db' = dd_devices db"
    using run by (auto simp: split_device_def fail_io_def dest!: transaction_fails split: if_splits)
  assume r: "r = Inr u"
  define body where "body = bind_io (save_device_tx rnd ord o1) (\<lambda>o'.
        bind_io (save_device_tx rnd ord s1) (\<lambda>s'.
          if h \<noteq> [] then exec (split_alias now (device_id o') (device_id s') h) else return_io ()))"
  from run r have ne: "pdid o1 \<noteq> pdid s1" and "transaction body out (n, db) = (Inr u, n', db')"
    by (auto simp: split_device_def fail_io_def body_def split: if_splits)
  from transaction_succeeds [OF this(2)] obtain k where "body out (Suc n, db) = (Inr u, k, db')" by blast
  then obtain t1 n1 db1 t2 n2 db2 where 1: "save_device_tx rnd ord o1 out (Suc n, db) = (Inr t1, n1, db1)"
    and 2: "save_device_tx rnd ord s1 out (n1, db1) = (Inr t2, n2, db2)"
    and 3: "(if h \<noteq> [] then exec (split_alias now (device_id t1) (device_id t2) h) else return_io ()) out (n2, db2) = (Inr u, k, db')"
    unfolding body_def by (auto elim!: bind_succeeds simp del: if_split)
  have "keeps (rows_kept (dd_devices db2)) (if h \<noteq> [] then exec (split_alias now (device_id t1) (device_id t2) h) else return_io ())"
    by (intro db_inv)
  from keepsD [OF this refl 3] saved_rows(1) [OF 1 o1] saved_rows(1) [OF 2 s1] ne
  show "pdid o1 \<noteq> pdid s1 \<and> dd_devices db' =
       upsert_row pdid updated_row (device_row s1) (upsert_row pdid updated_row (device_row o1) (dd_devices db))" by simp
qed

lemma split_devices_record:
  assumes "split_devices now mac moved i p d = (o1, s1)" "record_ok d" "i \<noteq> []"
  shows "pdid o1 = pdid d" "record_ok o1" "pdid s1 = p" "record_ok s1"
proof -
  have mv: "fold move_ip as (x, y) = (x', y') \<Longrightarrow> pdid x' = pdid x \<and> record_ok x' = record_ok x \<and> pdid y' = pdid y
      \<and> record_ok y' = record_ok y" for as x y x' y'
  proof (induction as arbitrary: x y)
    case (Cons a as)
    obtain x1 y1 where m: "move_ip a (x, y) = (x1, y1)" by fastforce
    then have "pdid x1 = pdid x \<and> record_ok x1 = record_ok x \<and> pdid y1 = pdid y \<and> record_ok y1 = record_ok y"
      by (auto simp: move_ip_def Let_def add_ip_def record_ok_def provider_named_def split: if_splits)
    with Cons.IH [of x1 y1] Cons.prems m show ?case by simp
  qed simp
  from mv [OF assms(1) [unfolded split_devices_def Let_def]] assms(2,3)
  show "pdid o1 = pdid d" "record_ok o1" "pdid s1 = p" "record_ok s1"
    by (simp_all add: record_ok_def provider_named_def empty_device_def)
qed

lemma service_ok_split:
  assumes ok: "service_ok e" and run: "split_identity w p mac_in moved e = (r, e')"
  shows "service_ok e'"
proof -
  obtain q e1 where q: "engine_pdid w p e = (q, e1)" by fastforce
  have ok1: "service_ok e1" using frame_engine_pdid [OF q] ok by (rule service_ok_frame)
  show ?thesis
  proof (cases "e' = e \<or> e' = e1")
    case False
    with run q obtain d mac i np where d: "get_device q (en_cache e1) = Some d" and mac: "normalize_alias AliasMAC mac_in = Some mac"
      and fresh: "new_permanent_identity (wd_random w) = Some (i, np)" and guard: "\<not> (\<not> has_mac d mac \<or> length (macs d) < 2)"
      by (auto simp: split_identity_def split: if_split_asm option.split_asm)
    obtain o1 s1 where sd: "split_devices (wd_now w) mac moved i np d = (o1, s1)" by fastforce
    note ne = new_identity_nonempty [OF fresh]
    have rd: "record_ok d" "pdid d = q" "q \<noteq> []" using service_okD(4) [OF ok1 d] by blast+
    note rec = split_devices_record [OF sd rd(1)]
    have o1: "pdid o1 = q" "pdid o1 \<noteq> []" "device_id o1 \<noteq> []" "record_ok o1"
      and s1: "pdid s1 = np" "pdid s1 \<noteq> []" "device_id s1 \<noteq> []" "record_ok s1"
      using rec rd ne by (auto simp: record_ok_def)
    define m where "m = split_device (wd_save_random w) (wd_ord w) (wd_now w) o1 s1
      (case hash_alias (wd_sha w) AliasMAC mac of None \<Rightarrow> [] | Some h \<Rightarrow> h)"
    obtain y e2 where st: "on_store w m e1 = (y, e2)" by fastforce
    have step: "(case y of Some (Inr _) \<Rightarrow> (Inr s1, put_device s1 (put_device o1 e2))
        | Some (Inl err) \<Rightarrow> (Inl (StoreFailed err), e2) | None \<Rightarrow> (Inl NoPersistence, e2)) = (r, e')"
      using run False guard unfolding split_identity_def q prod.case d mac option.case fresh sd m_def [symmetric] st
      by (simp split: if_split_asm)
    have keep: "en_cache e2 = en_cache e1" "en_dirty e2 = en_dirty e1"
      using st by (auto simp: on_store_def split: option.splits prod.splits)
    show ?thesis
    proof (cases "en_store e1")
      case None
      then have "e' = e2" "e2 = e1" using st step by (auto simp: on_store_def)
      then show ?thesis using ok1 by simp
    next
      case (Some ns)
      obtain rr n' db' where rr: "m (wd_out w) (fst ns, snd ns) = (rr, n', db')" by (metis prod.collapse)
      with st Some have y: "y = Some rr" "e2 = e1\<lparr>en_store := Some (n', db')\<rparr>" by (auto simp: on_store_def)
      note rows = split_rows [OF rr [unfolded m_def] o1(2,3) s1(2,3)]
      have r1: "stored_rows e1 = Some (dd_devices (snd ns))" using Some by (simp add: stored_rows_def)
      show ?thesis
      proof (cases rr)
        case (Inl err)
        then have "stored_rows e2 = stored_rows e1" "e' = e2"
          using rows(1) y step Some by (auto simp: stored_rows_def)
        then show ?thesis using ok1 keep by (simp add: service_ok_def)
      next
        case (Inr u)
        define e3 where "e3 = put_device s1 (put_device o1 e2)"
        have e': "e' = e3" using step y Inr by (simp add: e3_def)
        from rows(2) [OF Inr] have nq: "pdid o1 \<noteq> pdid s1" and rw: "dd_devices db' =
          upsert_row pdid updated_row (device_row s1) (upsert_row pdid updated_row (device_row o1) (dd_devices (snd ns)))"
          by blast+
        have shelf: "shelf_ok (upsert o1 (en_cache e2))"
          using shelf_ok_upsert [OF service_okD(1) [OF ok1] o1(4)] keep by simp
        have h3: "held e3 = (held e1)(q \<mapsto> o1, np \<mapsto> s1)"
          using get_device_upsert [OF shelf s1(2)] get_device_upsert [OF service_okD(1) [OF ok1] o1(2)] o1(1) s1(1) keep(1)
          by (auto simp: e3_def held_def fun_eq_iff)
        have r3: "stored_rows e3 = Some (dd_devices db')" using y(2) by (simp add: e3_def stored_rows_def)
        have "service_ok e3"
          unfolding service_ok_def r3 held_def [symmetric]
        proof (intro conjI allI impI)
          show "shelf_ok (en_cache e3)" using shelf_ok_upsert [OF shelf s1(4)] by (simp add: e3_def)
          fix rows' assume r': "Some (dd_devices db') = Some rows'"
          have "rows_ok (dd_devices (snd ns))" using service_okD(2) [OF ok1 r1] by blast
          with r' show "rows_ok rows'"
            using stored_upserted [OF stored_upserted [OF _ o1(4)] s1(4)] by (auto simp: rw)
          fix k z assume z: "held e3 k = Some z"
          consider "k = np" "z = s1" | "k = q" "k \<noteq> np" "z = o1" | "k \<noteq> np" "k \<noteq> q" "held e1 k = Some z"
            using z by (auto simp: h3 split: if_splits)
          then show "k \<in> en_dirty e3 \<or> settled z rows'"
          proof cases
            case 1
            then show ?thesis using r' settled_upserted by (auto simp: rw)
          next
            case 2
            then show ?thesis using r' settled_other [OF settled_upserted, of o1 s1] nq by (auto simp: rw)
          next
            case 3
            then have "pdid z = k" using service_okD(4) [OF ok1, of k z] by (simp add: held_def)
            with 3 service_okD(3) [OF ok1 r1, of k z] settled_other [of z "dd_devices (snd ns)" o1]
              settled_other [of z _ s1] r' keep(2) o1(1) s1(1)
            show ?thesis by (auto simp: rw held_def e3_def)
          qed
        qed
        then show ?thesis by (simp add: e')
      qed
    qed
  qed (use ok ok1 in auto)
qed

subsection \<open>The start\<close>

lemma frame_set_storage: "frame (e\<lparr>en_store := st\<rparr>) (set_storage dec w ks st e)"
proof (cases "st = None")
  case False
  define e0 where "e0 = e\<lparr>en_store := st, en_debouncer := set_store (map_option (dd_pending \<circ> snd) st) (en_debouncer e)\<rparr>"
  have 0: "frame (e\<lparr>en_store := st\<rparr>) e0" by (simp add: e0_def frame_def same_shelf_def stored_rows_def)
  define e1 where "e1 = load_alias_activity w e0"
  have 1: "frame e0 e1"
  proof -
    obtain r x where s: "on_store w load_identity_aliases e0 = (r, x)" by fastforce
    then have f: "frame e0 x" by (rule frame_store [rotated]) (rule db_inv)
    show ?thesis unfolding e1_def load_alias_activity_def s
      by (auto split: option.split sum.split intro: f frame_trans [OF f frame_fields(5)])
  qed
  define e2 where "e2 = (case on_store w load_stored_owners e1 of
    (Some (Inr own), e') \<Rightarrow> e'\<lparr>en_cache := load_hostname_owners own (en_cache e')\<rparr> | (_, e') \<Rightarrow> e')"
  have 2: "frame e1 e2"
  proof -
    obtain r x where s: "on_store w load_stored_owners e1 = (r, x)" by fastforce
    then have f: "frame e1 x" by (rule frame_store [rotated]) (rule db_inv)
    have "frame x (x\<lparr>en_cache := load_hostname_owners own (en_cache x)\<rparr>)" for own
      using inventory_ok_load_owners [of "en_cache x" own]
      by (intro frame_cache) (auto simp: same_shelf_def load_hostname_owners_def)
    then show ?thesis unfolding e2_def s using f by (auto split: option.split sum.split intro: frame_trans)
  qed
  define e3 where "e3 = e2\<lparr>en_cache := set_owner_listener True (en_cache e2)\<rparr>"
  have 3: "frame e2 e3" unfolding e3_def using inventory_ok_listener [of "en_cache e2" True]
    by (intro frame_cache) (auto simp: same_shelf_def set_owner_listener_def)
  obtain r x where s: "on_store w (load_pending_events ks) e3 = (r, x)" by fastforce
  then have f: "frame e3 x" by (rule frame_store [rotated]) (rule db_inv)
  have run: "set_storage dec w ks st e = (case r of Some (Inr rows) \<Rightarrow> x\<lparr>en_debouncer := load_pending dec rows (en_debouncer x)\<rparr> | _ \<Rightarrow> x)"
    using False unfolding set_storage_def Let_def e0_def [symmetric] e1_def [symmetric] e2_def [symmetric] e3_def [symmetric] s
    by (auto split: option.split sum.split)
  have "frame x (set_storage dec w ks st e)" unfolding run by (auto split: option.split sum.split intro: frames)
  with f 0 1 2 3 show ?thesis by (blast intro: frame_trans)
qed (simp add: set_storage_def Let_def frame_def same_shelf_def stored_rows_def)

lemma shelf_ok_empty: "shelf_ok new_inventory"
  using inventory_ok_new by (simp add: shelf_ok_def index_ok_def new_inventory_def get_device_def)

lemma shelf_ok_fold_upsert:
  "shelf_ok c \<Longrightarrow> \<forall>d \<in> set ds. record_ok d \<Longrightarrow> shelf_ok (fold upsert ds c)
     \<and> (\<forall>p d. get_device p (fold upsert ds c) = Some d \<longrightarrow> d \<in> set ds \<or> get_device p c = Some d)
     \<and> (\<forall>p. p \<noteq> [] \<longrightarrow> p \<in> pdid ` set ds \<longrightarrow> get_device p (fold upsert ds c) \<noteq> None)"
proof (induction ds rule: rev_induct)
  case (snoc d ds)
  then have ok: "shelf_ok (fold upsert ds c)" by simp
  have "get_device p (upsert d (fold upsert ds c)) = (if p = pdid d \<and> p \<noteq> [] then Some d else get_device p (fold upsert ds c))" for p
  proof (cases "pdid d = []")
    case True
    then show ?thesis by (auto simp: upsert_def)
  qed (use get_device_upsert [OF ok, of d] in auto)
  with snoc shelf_ok_upsert [OF ok, of d] show ?case by auto
qed auto

text \<open>Devices that come back from the store need no saving.\<close>

lemma hydrated_settled:
  assumes rows: "rows_ok rows" and mem: "r \<in> set rows"
  shows "settled (hydrated_device db r) rows" "record_ok (hydrated_device db r)"
proof -
  have e: "device_row r = r" and rec: "record_ok r" using rows mem by (simp_all add: rows_ok_def stored_form_def)
  have "macs (device_row r) = []" "ips (device_row r) = []"
    "source_info (device_row r) = material_source_info (source_info r)" by (simp_all add: device_row_def)
  then have f: "macs r = []" "ips r = []" "material_source_info (source_info r) = source_info r" by (simp_all add: e)
  have u: "updated_row r (device_row (hydrated_device db r)) = r"
    using f by (simp add: hydrated_device_def device_row_def updated_row_def)
  have "x = r" if "x \<in> set rows" "pdid x = pdid r" for x
    using that mem rows by (auto simp: rows_ok_def distinct_map inj_on_def)
  with u mem show "settled (hydrated_device db r) rows" by (auto simp: settled_def hydrated_device_def)
  show "record_ok (hydrated_device db r)" using rec by (simp add: record_ok_def provider_named_def hydrated_device_def)
qed

lemma settled_same_material:
  assumes "settled d rows" "settled d' rows" "pdid d' = pdid d"
  shows "material d' = material d"
proof -
  from assms obtain r where r: "updated_row r (device_row d) = r" "updated_row r (device_row d') = r"
    by (auto simp: settled_def)
  have m: "material x = updated_row empty_device (updated_row r (device_row x))" for x
    by (simp add: material_def updated_row_def)
  show ?thesis unfolding m r ..
qed

lemma keeps_load [db_inv]: "keeps (rows_kept rows) load_devices"
  unfolding load_devices_def by (intro db_inv)

lemma loaded_devices:
  assumes "on_store w load_devices e = (r, e')"
  shows "r = Some (Inr ds) \<Longrightarrow> \<exists>rows db. stored_rows e = Some rows \<and> ds = map (hydrated_device db) rows"
    "en_store e = Some (n, db0) \<Longrightarrow> \<not> wd_out w n \<Longrightarrow> \<exists>ds. r = Some (Inr ds)"
  using assms
  by (auto simp: on_store_def stored_rows_def load_devices_def return_io_def query_def bind_io_def attempt_def
      split: option.splits prod.splits if_splits sum.splits)

lemma start_effect:
  fixes dec w ks st
  defines "e \<equiv> start_service dec w ks st"
  assumes rows: "\<And>rows. map_option (dd_devices \<circ> snd) st = Some rows \<Longrightarrow> rows_ok rows"
  shows "service_ok e" "en_dirty e = {}" "stored_rows e = map_option (dd_devices \<circ> snd) st"
    "held e p = Some d \<Longrightarrow> \<not> online d"
    "\<And>n db rows. st = Some (n, db) \<Longrightarrow> \<not> wd_out w n \<Longrightarrow> p \<noteq> [] \<Longrightarrow> p \<in> pdid ` set (dd_devices db) \<Longrightarrow> held e p \<noteq> None"
proof -
  let ?n = "new_dis_engine\<lparr>en_store := st\<rparr>"
  obtain r e1 where l: "on_store w load_devices ?n = (r, e1)" by fastforce
  have f1: "frame ?n e1" using l by (rule frame_store [rotated]) (rule db_inv)
  have s0: "stored_rows ?n = map_option (dd_devices \<circ> snd) st" by (simp add: stored_rows_def)
  define ds where "ds = (case r of Some (Inr ds) \<Rightarrow> ds | _ \<Rightarrow> [])"
  define c where "c = fold upsert ds new_inventory"
  define e2 where "e2 = (new_dis_engine\<lparr>en_cache := c\<rparr>)\<lparr>en_store := en_store e1\<rparr>"
  have c: "(case r of Some (Inr ds) \<Rightarrow> fold upsert ds new_inventory | _ \<Rightarrow> new_inventory) = c"
    by (simp add: c_def ds_def split: option.split sum.split)
  have e: "e = (set_storage dec w ks (en_store e1) (new_dis_engine\<lparr>en_cache := c\<rparr>))\<lparr>en_orchestrated := True\<rparr>"
    unfolding e_def start_service_def l by (simp add: Let_def c)
  have "frame x (x\<lparr>en_orchestrated := True\<rparr>)" for x by (simp add: frame_def same_shelf_def stored_rows_def)
  then have f: "frame e2 e" unfolding e e2_def using frame_set_storage by (blast intro: frame_trans)
  have s2: "stored_rows e2 = map_option (dd_devices \<circ> snd) st"
    using frameD(3) [OF f1] s0 by (simp add: e2_def stored_rows_def)
  have d2: "en_dirty e2 = {}" "en_cache e2 = c" by (simp_all add: e2_def new_dis_engine_def)
  have ds: "settled x rs \<and> record_ok x \<and> \<not> online x" if "map_option (dd_devices \<circ> snd) st = Some rs" "x \<in> set ds" for x rs
  proof -
    from that(2) obtain ds' where r: "r = Some (Inr ds')" "ds = ds'" by (auto simp: ds_def split: option.splits sum.splits)
    from loaded_devices(1) [OF l r(1)] s0 that(1) obtain db where "ds' = map (hydrated_device db) rs" by auto
    with that(2) r obtain y where "y \<in> set rs" "x = hydrated_device db y" by auto
    with hydrated_settled [OF rows [OF that(1)]] show ?thesis by (auto simp: hydrated_device_def)
  qed
  have empty: "ds = []" if "map_option (dd_devices \<circ> snd) st = None"
    using that l by (auto simp: ds_def on_store_def)
  have "\<forall>x \<in> set ds. record_ok x" using ds empty by (cases "map_option (dd_devices \<circ> snd) st") auto
  from shelf_ok_fold_upsert [OF shelf_ok_empty this, folded c_def]
  have sh: "shelf_ok c" "\<And>p x. get_device p c = Some x \<Longrightarrow> x \<in> set ds"
    "\<And>p. p \<noteq> [] \<Longrightarrow> p \<in> pdid ` set ds \<Longrightarrow> get_device p c \<noteq> None"
    by (auto simp: new_inventory_def get_device_def)
  have "service_ok e2"
    unfolding service_ok_def d2 s2 using sh(1,2) rows ds by blast
  then show "service_ok e" using f by (blast intro: service_ok_frame)
  show "en_dirty e = {}" "stored_rows e = map_option (dd_devices \<circ> snd) st"
    using frameD(2,3) [OF f] d2 s2 by simp_all
  have h: "held e p = get_device p c" for p using held_frame [OF f] d2(2) by (simp add: held_def)
  show "\<not> online d" if "held e p = Some d"
    using that sh(2) ds empty unfolding h by (cases "map_option (dd_devices \<circ> snd) st") fastforce+
  fix n db assume st: "st = Some (n, db)" "\<not> wd_out w n" and p: "p \<noteq> []" "p \<in> pdid ` set (dd_devices db)"
  from loaded_devices(2) [OF l, of n db] st obtain ds' where r: "r = Some (Inr ds')" by auto
  from loaded_devices(1) [OF l r] s0 st obtain db' where "ds' = map (hydrated_device db') (dd_devices db)" by auto
  then have "pdid ` set ds = pdid ` set (dd_devices db)" using r by (auto simp: ds_def hydrated_device_def image_iff)
  with p sh(3) show "held e p \<noteq> None" unfolding h by blast
qed

subsection \<open>Runs of the service\<close>

text \<open>\<open>J\<close> holds the copies of devices that enrichment works on. Each step has a world of its own.\<close>

inductive service_run :: "dis_engine \<Rightarrow> device set \<Rightarrow> bool" where
  run_start: "(\<And>rows. map_option (dd_devices \<circ> snd) st = Some rows \<Longrightarrow> rows_ok rows) \<Longrightarrow>
     service_run (start_service dec w ks st) {}"
| run_observe: "service_run e J \<Longrightarrow> obs_source obs \<notin> enrichment_keys \<Longrightarrow> process_observation w obs e = Some e' \<Longrightarrow>
     service_run e' J"
| run_flush: "service_run e J \<Longrightarrow> distinct ps \<Longrightarrow> set ps = en_dirty e \<Longrightarrow> service_run (flush_dirty w ps e) J"
| run_stale: "service_run e J \<Longrightarrow> service_run (staleness_sweep w ks e) J"
| run_deferred: "service_run e J \<Longrightarrow> service_run (flush_deferred w ks e) J"
| run_changes: "service_run e J \<Longrightarrow> service_run (flush_changes enc clk fails bf w ks e) J"
| run_forget: "service_run e J \<Longrightarrow> service_run (forget_sightings now e) J"
| run_enrich: "service_run e J \<Longrightarrow> begin_run now (en_cache e) p force o1 = (Some d, o2) \<Longrightarrow> service_run e (insert d J)"
| run_finish: "service_run e J \<Longrightarrow> d \<in> J \<Longrightarrow> enrich_copy es fb t1 t2 force d = (changed, scanned, d') \<Longrightarrow>
     service_run (finish_run w True changed scanned d' e) (J - {d})"
| run_resolve: "service_run e J \<Longrightarrow> engine_pdid w p e = (q, e') \<Longrightarrow> service_run e' J"
| run_profile: "service_run e J \<Longrightarrow> get_identity_profile w p e = (r1, e') \<Longrightarrow> service_run e' J"
| run_bind: "service_run e J \<Longrightarrow> bind_identity_alias w p t v src e = (r2, e') \<Longrightarrow> service_run e' J"
| run_revoke: "service_run e J \<Longrightarrow> revoke_alias w as p i e = (r3, e') \<Longrightarrow> service_run e' J"
| run_list: "service_run e J \<Longrightarrow> list_candidates enc2 dec2 w status lm cursor e = (r4, e') \<Longrightarrow> service_run e' J"
| run_get: "service_run e J \<Longrightarrow> get_candidate w i e = (r5, e') \<Longrightarrow> service_run e' J"
| run_reject: "service_run e J \<Longrightarrow> reject_candidate w i rq e = (r6, e') \<Longrightarrow> service_run e' J"
| run_reopen: "service_run e J \<Longrightarrow> reopen_candidate w i rq e = (r6, e') \<Longrightarrow> service_run e' J"
| run_confirm: "service_run e J \<Longrightarrow> confirm_candidate w i rq e = (r7, e') \<Longrightarrow> service_run e' J"
| run_split: "service_run e J \<Longrightarrow> split_identity w p mac moved e = (r7, e') \<Longrightarrow> service_run e' J"

lemma service_run_ok: "service_run e J \<Longrightarrow> service_ok e \<and> (\<forall>d \<in> J. record_ok d \<and> pdid d \<noteq> [])"
proof (induction rule: service_run.induct)
  case (run_start st dec w ks)
  then show ?case using start_effect(1) by auto
next
  case (run_enrich e J now p force o1 d o2)
  then have "get_device p (en_cache e) = Some d" by (auto simp: begin_run_def split: option.splits if_splits)
  with run_enrich.IH service_okD(4) [of e p d] show ?case by auto
next
  case (run_finish e J d es fb t1 t2 force changed scanned d' w)
  then have d: "record_ok d" "pdid d \<noteq> []" by auto
  note r = enrich_copy_record [OF run_finish(3) d(1)]
  show ?case using finish_run_effect(1) [OF _ r(2), of e _ w changed scanned] run_finish.IH d r by auto
next
  case (run_observe e J obs w e')
  then show ?case using observation_effect by blast
next
  case (run_forget e J now)
  then show ?case using service_ok_frame [OF frame_fields(3)] by (auto simp: forget_sightings_def)
qed (auto intro: flush_dirty_effect(1) service_ok_sweep service_ok_deferred service_ok_frame [OF frame_flush_changes]
    service_ok_bind service_ok_confirm service_ok_split
    dest!: frame_engine_pdid frame_review_reads frame_decisions frame_revoke dest: service_ok_frame)

end
