(* ===== verification/Dis_Run_Props.thy ===== *)
theory Dis_Run_Props
  imports Dis_Runs
begin

text \<open>
  What holds of every run of the discovery service: memory and store stay together, a restart loses nothing,
  presence comes from sources that can know, and passive evidence never merges devices.
\<close>

subsection \<open>What holds of every run\<close>

text \<open>A small case: a store with one device, and a television that an access point reports.\<close>

definition sample_world :: world where
  "sample_world = \<lparr>wd_now = 1000 * hour, wd_random = Some (replicate 16 7), wd_save_random = (\<lambda>_. None), wd_out = healthy,
     wd_ord = sorted_list_of_set, wd_sha = (\<lambda>_. [1, 2, 3])\<rparr>"

definition lamp :: device where
  "lamp = empty_device\<lparr>pdid := ''p1'', device_id := ''d1'', current_mac := ''0a:00:00:00:00:09''\<rparr>"

definition lamp_db :: dis_db where
  "lamp_db = empty_dis_db\<lparr>dd_devices := [lamp], dd_macs := [(''0a:00:00:00:00:09'', ''p1'')]\<rparr>"

abbreviation lamp_start :: dis_engine where
  "lamp_start \<equiv> start_service (\<lambda>_. None) sample_world [] (Some (0, lamp_db))"

lemma lamp_rows: "map_option (dd_devices \<circ> snd) (Some (0, lamp_db)) = Some rows \<Longrightarrow> rows_ok rows"
  by (auto simp: lamp_db_def rows_ok_def lamp_def stored_form_def device_row_def material_source_info_def empty_device_def
      record_ok_def provider_named_def)

lemma lamp_held: "held lamp_start ''p1'' \<noteq> None" "en_dirty lamp_start = {}"
  "stored_rows lamp_start = Some [lamp]" "service_run lamp_start {}"
proof -
  note s = start_effect [where st = "Some (0, lamp_db)", OF lamp_rows]
  show "held lamp_start ''p1'' \<noteq> None"
    by (rule s(5)) (auto simp: sample_world_def healthy_def lamp_db_def lamp_def)
  show "en_dirty lamp_start = {}" "stored_rows lamp_start = Some [lamp]" using s(2,3) by (simp_all add: lamp_db_def)
  show "service_run lamp_start {}" by (rule run_start [OF lamp_rows])
qed

definition tv_seen :: observation where
  "tv_seen = \<lparr>obs_source = ''openwrt_ap'', obs_group = ''A'', obs_mac = Some [10, 0, 0, 0, 0, 1], obs_ip = None,
     obs_hostname = [], obs_vendor = [], obs_model = [], obs_services = [], obs_confidence = 1,
     obs_timestamp = 1000 * hour, obs_online = True, obs_raw = Map.empty\<rparr>"

lemma tv_texts: "mac_text tv_seen = ''0a:00:00:00:00:01''" "ip_text tv_seen = []"
  "canonicalize_hostname (unescape_hostname (obs_hostname tv_seen)) = []"
  "\<not> is_multicast_or_broadcast (obs_mac tv_seen) (obs_ip tv_seen)"
  unfolding tv_seen_def by code_simp+


lemma lamp_store: obtains n db where "en_store lamp_start = Some (n, db)" "dd_devices db = [lamp]"
  using lamp_held(3) by (auto simp: stored_rows_def)




text \<open>The first sighting of the television by a service without a store.\<close>

abbreviation bare_start :: dis_engine where
  "bare_start \<equiv> start_service (\<lambda>_. None) sample_world [] None"

lemma bare_run: "service_run bare_start {}"
  by (rule run_start) simp

lemma bare_start_value: "bare_start = new_dis_engine\<lparr>en_orchestrated := True, en_debouncer := set_store None new_debouncer\<rparr>"
  by (simp add: start_service_def set_storage_def on_store_def new_dis_engine_def)

lemma first_device_online:
  "obs_online obs \<Longrightarrow> authoritative_l2 (obs_source obs) \<Longrightarrow> online (first_device w obs mac ip host clean cand i p)"
  by (simp add: first_device_def Let_def authoritative_l2_def can_trigger_online_def split: prod.split)

lemma station_first_seen:
  assumes texts: "mac_text obs = ''0a:00:00:00:00:01''" "ip_text obs = []" "canonicalize_hostname (unescape_hostname (obs_hostname obs)) = []"
    "\<not> is_multicast_or_broadcast (obs_mac obs) (obs_ip obs)" and s: "obs_source obs = ''openwrt_ap''" "obs_online obs"
  obtains e' p d where "process_observation sample_world obs bare_start = Some e'"
    and "held e' p = Some d" "en_store e' = None" "online d" "held bare_start p = None" "dom (held e') = {p}"
proof -
  have bare: "held bare_start q = None" "get_by_mac m (en_cache bare_start) = None" "en_seen bare_start k = None"
    "en_store bare_start = None" for q m k
    by (simp_all add: bare_start_value new_dis_engine_def held_def get_device_def get_by_mac_def new_inventory_def Let_def)
  define w where "w = sample_world"
  define sigs where "sigs = observation_signals obs (mac_text obs) []"
  define e1 where "e1 = bare_start\<lparr>en_seen := (en_seen bare_start)(duplicate_key obs (mac_text obs) [] [] \<mapsto> wd_now w)\<rparr>"
  obtain i p where ip: "new_permanent_identity (wd_random w) = Some (i, p)"
    by (simp add: w_def sample_world_def new_permanent_identity_def Let_def)
  note ne = new_identity_nonempty [OF ip]
  define d where "d = first_device w obs (mac_text obs) [] [] (unescape_hostname (obs_hostname obs)) None i p"
  have d: "online d" "pdid d = p" "device_id d = i"
    using first_device_online [of obs] first_device_fields [of obs i] ne s
    by (simp_all add: d_def authoritative_l2_def enrichment_keys_def)
  define e2 where "e2 = announce_new w d (record_identity_signals w d sigs None (seen_at w obs) (put_device d e1))"
  have e1: "en_store e1 = None" "held e1 = held bare_start" "get_by_mac m (en_cache e1) = get_by_mac m (en_cache bare_start)" for m
    by (simp_all add: e1_def bare(4) held_def fun_eq_iff)
  have c: "correlate w obs (mac_text obs) [] [] (unescape_hostname (obs_hostname obs)) e1 = Some e2"
    using ip bare e1 texts(1)
    by (simp add: correlate_def Let_def resolve_verified_def address_reuse_def claim_hostname_def add_device_def
        on_store_def put_device_def sigs_def e2_def d_def)
  have "process_observation w obs bare_start = Some e2"
    using texts(1,3,4) bare(3) s(1) c
    by (simp add: process_observation_def Let_def is_duplicate_def texts(2) e1_def)
  moreover have f: "frame (put_device d e1) e2"
    unfolding e2_def by (intro frame_trans [OF frame_record_identity_signals frame_announce])
  then have "en_store e2 = None" using frameD(3) [OF f] e1(1) by (simp add: stored_rows_def put_device_def)
  moreover have h: "held e2 q = (if q = p then Some d else None)" for q
    using get_device_upsert [of "en_cache e1" d q] bare(1) service_okD(1) [OF conjunct1 [OF service_run_ok [OF bare_run]]] d(2) ne
    by (simp add: held_frame [OF f] held_def put_device_def e1_def)
  moreover have "dom (held e2) = {p}" using h by (auto simp: dom_def split: if_splits)
  ultimately show ?thesis using that [of e2 p d] d(1) bare(1) h [of p] by (simp add: w_def)
qed

lemma tv_first_seen:
  obtains e' p d where "process_observation sample_world tv_seen bare_start = Some e'"
    and "held e' p = Some d" "en_store e' = None" "online d" "held bare_start p = None" "dom (held e') = {p}"
  by (rule station_first_seen [OF tv_texts]) (simp_all add: tv_seen_def)

text \<open>An observation takes a device online only if it reports presence and comes from a source that can know:
  the kernel's neighbour table, an access point or the router's neighbour table. A lease or a DNS query never does.\<close>

theorem online_needs_presence:
  assumes run: "service_run e J" and src: "obs_source obs \<notin> enrichment_keys" and step: "process_observation w obs e = Some e'"
    and after: "held e' p = Some d'" "online d'" and before: "\<And>d. held e p = Some d \<Longrightarrow> \<not> online d"
  shows "obs_online obs \<and> obs_source obs \<in> {''netlink'', ''openwrt_ap'', ''openwrt_neigh''}"
  using observation_effect [OF conjunct1 [OF service_run_ok [OF run]] src step] after before
  unfolding evolves_def can_trigger_online_def by blast

theorem online_needs_presence_witness: "\<exists>e' p d. process_observation sample_world tv_seen bare_start = Some e' \<and> held e' p = Some d \<and> online d
   \<and> obs_source tv_seen \<in> {''netlink'', ''openwrt_ap'', ''openwrt_neigh''}"
proof -
  obtain e' p d where s: "process_observation sample_world tv_seen bare_start = Some e'"
    "held e' p = Some d" "en_store e' = None" "online d" "held bare_start p = None" by (rule tv_first_seen)
  have "obs_source tv_seen \<notin> enrichment_keys" by (simp add: tv_seen_def enrichment_keys_def)
  from online_needs_presence [OF bare_run this s(1,2,4)] s show ?thesis by auto
qed

text \<open>The evidence an observation has for the device \<open>p\<close>: one of its signals is an alias of \<open>p\<close> that was verified
  and not revoked, and the signal itself is a hardware address or authenticated.\<close>

definition evidence_for :: "world \<Rightarrow> observation \<Rightarrow> dis_db \<Rightarrow> string \<Rightarrow> bool" where
  "evidence_for w obs db p \<longleftrightarrow> (\<exists>s \<in> set (observation_signals obs (mac_text obs)
      (canonicalize_hostname (unescape_hostname (obs_hostname obs)))). \<exists>h.
     (sig_type s = AliasMAC \<or> sig_verified s) \<and> hash_alias (wd_sha w) (sig_type s) (sig_value s) = Some h
     \<and> p \<in> set (verified_pdids (sig_type s) h db))"

lemma verified_owners_evidence:
  "verified_owners w ss own e = (r, e') \<Longrightarrow> p \<in> r \<Longrightarrow> p \<notin> own \<Longrightarrow> en_store e = Some (n, db) \<Longrightarrow>
   \<exists>s \<in> set ss. \<exists>h. (sig_type s = AliasMAC \<or> sig_verified s) \<and> hash_alias (wd_sha w) (sig_type s) (sig_value s) = Some h
     \<and> p \<in> set (verified_pdids (sig_type s) h db)"
proof (induction ss arbitrary: own e n)
  case (Cons s ss)
  show ?case
  proof (cases "\<not> (sig_type s \<noteq> AliasMAC \<and> \<not> sig_verified s) \<and> hash_alias (wd_sha w) (sig_type s) (sig_value s) \<noteq> None")
    case True
    then obtain h where h: "hash_alias (wd_sha w) (sig_type s) (sig_value s) = Some h" by auto
    obtain x e1 where x: "on_store w (find_verified_alias_pdids (sig_type s) h) e = (x, e1)" by fastforce
    then have st: "en_store e1 = Some (Suc n, db)" "\<And>ps. x = Some (Inr ps) \<Longrightarrow> ps = verified_pdids (sig_type s) h db"
      using Cons.prems(4) by (auto simp: on_store_def find_verified_alias_pdids_def query_def split: if_splits)
    define own1 where "own1 = (case x of Some (Inr ps) \<Rightarrow> own \<union> set ps | _ \<Rightarrow> own)"
    have "verified_owners w ss own1 e1 = (r, e')" using Cons.prems(1) True h x
      by (auto simp: own1_def split: option.splits sum.splits)
    with Cons.IH [OF this Cons.prems(2) _ st(1)] st(2) True h show ?thesis
      by (cases "p \<in> own1") (auto simp: own1_def Cons.prems(3) split: option.splits sum.splits)
  next
    case False
    then have "verified_owners w ss own e = (r, e')" using Cons.prems(1) by (auto split: if_splits)
    from Cons.IH [OF this Cons.prems(2-4)] show ?thesis by auto
  qed
qed simp

lemma verified_device_evidence:
  assumes ok: "service_ok e" and v: "map_option pdid (verified_device w obs e) = Some p"
  shows "\<exists>n db. en_store e = Some (n, db) \<and> evidence_for w obs db p"
proof -
  let ?ss = "observation_signals obs (mac_text obs) (canonicalize_hostname (unescape_hostname (obs_hostname obs)))"
  obtain own e1 where o: "verified_owners w ?ss {} e = (own, e1)" by fastforce
  from v o obtain d where s: "en_store e \<noteq> None" and c: "card own = 1" "get_device (the_elem own) (en_cache e1) = Some d" "pdid d = p"
    by (auto simp: verified_device_def resolve_verified_def split: if_splits)
  from c(1) obtain q where q: "own = {q}" by (auto simp: card_1_singleton_iff)
  with c(2) frameD(1) [OF frame_verified_owners [OF o]] have "get_device q (en_cache e) = Some d" by simp
  with service_okD(4) [OF ok this] c(3) have "q = p" by blast
  from s obtain n db where "en_store e = Some (n, db)" by auto
  with verified_owners_evidence [OF o, of p n db] q \<open>q = p\<close> show ?thesis by (auto simp: evidence_for_def)
qed

text \<open>C6: Passive evidence never merges devices and never loses one: an observation gives a known device another
  hardware address only if it is the observed one and the store has verified evidence that the observation is
  about this very device; and apart from the PDID it draws, no device appears or disappears.\<close>

theorem passive_never_merges:
  assumes run: "service_run e J" and src: "obs_source obs \<notin> enrichment_keys" and step: "process_observation w obs e = Some e'"
    and p: "\<not> fresh_pdid w p"
  shows "(held e p = None \<longleftrightarrow> held e' p = None) \<and>
    (\<forall>d d' m. held e p = Some d \<longrightarrow> held e' p = Some d' \<longrightarrow> m \<in> set (macs d') - set (macs d) \<longrightarrow>
       m = clean_mac (mac_text obs) \<and> (\<exists>n db. en_store e = Some (n, db) \<and> evidence_for w obs db p))"
proof -
  have ok: "service_ok e" using service_run_ok [OF run] by blast
  have ev: "evolves w (presence obs) (gains_mac w obs e) (held e) (held e')"
    using observation_effect [OF ok src step] by blast
  have "m = clean_mac (mac_text obs) \<and> (\<exists>n db. en_store e = Some (n, db) \<and> evidence_for w obs db p)"
    if "held e p = Some d" "held e' p = Some d'" "m \<in> set (macs d') - set (macs d)" for d d' m
  proof -
    have "gains_mac w obs e p m" using ev [unfolded evolves_def, THEN conjunct2, rule_format, OF that(2)] that p by auto
    with verified_device_evidence [OF ok] show ?thesis by blast
  qed
  with ev p show ?thesis unfolding evolves_def by blast
qed

text \<open>The television is seen again, by a service that can draw no PDID.\<close>

abbreviation later_world :: world where
  "later_world \<equiv> sample_world\<lparr>wd_now := 1000 * hour + minute, wd_random := None\<rparr>"

lemma tv_seen_again:
  assumes "en_store e = None"
  shows "process_observation w tv_seen e \<noteq> None"
proof -
  have "correlate w tv_seen m [] [] c e1 \<noteq> None" if "en_store e1 = None" "c = []" "m \<noteq> []" for m c e1
    using that
    by (auto simp: correlate_def Let_def resolve_verified_def address_reuse_def claim_mac_def claim_hostname_def
        update_known_def rename_device_def readdress_device_def split: option.splits prod.splits)
  moreover have "unescape_hostname (obs_hostname tv_seen) = []" "obs_source tv_seen = ''openwrt_ap''"
    unfolding tv_seen_def by code_simp+
  ultimately show ?thesis
    using assms tv_texts unfolding process_observation_def Let_def
    by (auto simp: is_duplicate_def split: option.splits prod.splits if_splits)
qed

theorem passive_never_merges_witness:
  "\<exists>e1 e2 p d d'. process_observation sample_world tv_seen bare_start = Some e1 \<and>
     process_observation later_world tv_seen e1 = Some e2 \<and> held e1 p = Some d \<and> held e2 p = Some d' \<and>
     set (macs d') - set (macs d) = {}"
proof -
  obtain e1 p d where 1: "process_observation sample_world tv_seen bare_start = Some e1" "held e1 p = Some d" "en_store e1 = None"
    by (rule tv_first_seen)
  have src: "obs_source tv_seen \<notin> enrichment_keys" by (simp add: tv_seen_def enrichment_keys_def)
  have run: "service_run e1 {}" by (rule run_observe [OF bare_run src 1(1)])
  obtain e2 where 2: "process_observation later_world tv_seen e1 = Some e2" using tv_seen_again [OF 1(3)] by auto
  have "\<not> fresh_pdid later_world p" by (simp add: fresh_pdid_def new_permanent_identity_def)
  from passive_never_merges [OF run src 2 this] 1 obtain d' where "held e2 p = Some d'" "set (macs d') - set (macs d) = {}"
    by auto
  with 1 2 show ?thesis by blast
qed



subsection \<open>Copies written back\<close>

text \<open>A run writes its copy of the device back whatever happened meanwhile: the presence of the copy wins, and a
  device that was deleted or merged away comes back and is marked for saving.\<close>

lemma finish_writes_copy:
  assumes ok: "service_ok e" and d: "record_ok d" "pdid d \<noteq> []" and st: "stored_rows e = Some rows"
  shows "\<exists>x. held (finish_run w True True scanned d e) (pdid d) = Some x \<and> online x = online d \<and> macs x = macs d
    \<and> pdid d \<in> en_dirty (finish_run w True True scanned d e)"
proof -
  define d1 where "d1 = touch d (wd_now w)"
  have d1: "record_ok d1" "pdid d1 = pdid d" "online d1 = online d" "macs d1 = macs d"
    using d by (auto simp: d1_def touch_def Let_def record_ok_def provider_named_def)
  define e1 where "e1 = put_device d1 e"
  have s1: "shelf_ok (en_cache e1)" using shelf_ok_upsert [OF service_okD(1) [OF ok] d1(1)] by (simp add: e1_def)
  have h1: "get_device (pdid d) (en_cache e1) = Some d1"
    using get_device_upsert [OF service_okD(1) [OF ok], of d1] d1 d(2) by (auto simp: e1_def)
  obtain od e2 where p: "promote_identity w (pdid d) e1 = (od, e2)" by fastforce
  note pr = promote_identity_shelf [OF s1 p]
  obtain x where x: "od = Some x" "record_ok x" "pdid x = pdid d" "online x = online d" "macs x = macs d"
  proof (cases "e2 = e1")
    case True
    with p h1 show ?thesis using that [of d1] d1 pr(6) by (simp add: held_def)
  next
    case False
    with p h1 obtain tier anchor where e2: "e2 = promote_device w tier anchor (canonical_hostname d1) d1 e1"
      by (auto simp: promote_identity_def Let_def split: option.splits prod.splits if_splits)
    define d' where "d' = d1\<lparr>identity_tier := tier, identity_anchor := anchor, canonical_hostname := canonical_hostname d1\<rparr>"
    have f: "frame (mark_dirty (pdid d) (put_device d' e1)) e2"
      unfolding e2 promote_device_def Let_def d1(2) d'_def by (rule frames)
    have "pdid d' = pdid d" by (simp add: d'_def d1)
    then have "od = Some d'"
      using pr(6) get_device_upsert [OF s1, of d'] d(2) by (simp add: held_def frameD [OF f])
    moreover have "record_ok d'" using d1(1) by (simp add: d'_def record_ok_def provider_named_def)
    ultimately show ?thesis using that [of d'] d1 by (simp add: d'_def)
  qed
  define e4 where "e4 = mark_dirty (pdid d) (put_device x e2)"
  have run: "finish_run w True True scanned d e = broadcast_event w EventFingerprintUpdated (pdid d) (DevicePayload x) e4"
    unfolding finish_run_def Let_def d1_def [symmetric] e1_def [symmetric]
    by (simp add: d1(2) p x(1,3) e4_def)
  have f: "frame e4 (finish_run w True True scanned d e)" unfolding run by (simp add: frames)
  have "held e4 (pdid d) = Some x"
    using get_device_upsert [OF pr(1), of x] x d(2) by (simp add: held_def e4_def)
  moreover have "pdid d \<in> en_dirty e4"
  proof -
    have "stored_rows (put_device x e2) = Some rows" using pr(2) st by (simp add: e1_def)
    from dirty_mark [OF this d(2)] show ?thesis by (simp add: e4_def)
  qed
  ultimately show ?thesis using x(4,5) by (simp add: held_frame [OF f] frameD [OF f])
qed

text \<open>After a merge the target carries the last hardware address of the source, so that the address it had is no
  longer in the index: its next sighting by that address alone is not recognised.\<close>

lemma merged_current_mac:
  assumes "macs s = ms @ [m]" "m \<noteq> []"
  shows "current_mac (merge_device_data s t) = clean_mac m"
proof -
  have ip: "current_mac (foldl add_ip d xs) = current_mac d" for d xs
    by (induction xs arbitrary: d) (simp_all add: add_ip_def Let_def)
  have sv: "current_mac (snd (add_services ss d)) = current_mac d" for d ss
  proof -
    have "snd (add_services ss d) = d\<lparr>services := services (snd (add_services ss d))\<rparr>"
      using add_services_fields [of ss d] by (metis prod.collapse)
    then have "current_mac (snd (add_services ss d)) = current_mac (d\<lparr>services := services (snd (add_services ss d))\<rparr>)" by simp
    then show ?thesis by simp
  qed
  have tg: "current_mac (fold add_tag ts d) = current_mac d" for d ts
    by (induction ts arbitrary: d) (simp_all add: add_tag_def)
  have "current_mac (foldl add_mac t (macs s)) = clean_mac m"
    using assms by (simp add: add_mac_def Let_def)
  then show ?thesis
    by (simp add: merge_device_data_def Let_def verified_assurance_def merged_seen_def tg sv ip)
qed

end
