(* ===== verification/Lias_Handlers.thy ===== *)
theory Lias_Handlers
  imports Lias_Storage Dis_Names Go_Strconv
begin

text \<open>
  The REST handlers of the scheduler that act on one device or tag group
  (\<open>apps/lias/internal/api/handlers.go\<close>): tags, pause and extension, the status shown, the vacation switch and
  names. A handler is a function of the service's state; the reply is the status with what the body is made of.
  The body of a request arrives decoded, \<open>None\<close> when \<open>encoding/json\<close> refuses it. A moment holds what the code
  takes from outside while it serves one request: the clock, the bytes of \<open>crypto/rand\<close>, the driver's failures,
  the time-zone database and the orders in which loops visit maps. The text of an instant in a reply and the
  field \<open>details\<close> of an error are left out.
\<close>

subsection \<open>The service\<close>

record lias =
  li_cache :: cache
  li_tags :: "tag list"
  li_policies :: policies
  li_schedules :: engine
  li_store :: "(nat \<times> database) option"
  li_users :: "string \<rightharpoonup> string"
  li_triggered :: bool
  li_sent :: "(string \<times> string) list"

record moment =
  mo_now :: time
  mo_random :: "u8 list"
  mo_out :: outage
  mo_tzdb :: tzdb
  mo_orders :: orders
  mo_policies :: "string list"
  mo_schedules :: "string list"
  mo_devices :: "string list"
  mo_users :: "string list"

datatype status_source =
  SourceNone | SourceInfrastructure | SourceGlobal | SourceDevicePolicy | SourceTagPolicy | SourceSchedule | SourceFallback

record extension_info =
  ei_expires :: time
  ei_minutes_left :: int
  ei_reason :: string

record effective_status =
  es_action :: action
  es_source :: status_source
  es_extend :: bool
  es_pause :: bool
  es_extension :: "extension_info option"

datatype rule_fault = NoDays | SameTimes | BadStartTime | BadEndTime | BadStartDate | BadEndDate

datatype user = User (user_key: string) (user_name: string)

record snapshot =
  sn_revision :: "64 word"
  sn_devices :: "device list"
  sn_tags :: "tag list"
  sn_policies :: "policy list"
  sn_schedules :: "schedule list"
  sn_users :: "user list"
  sn_device_status :: "string \<rightharpoonup> effective_status"
  sn_tag_status :: "string \<rightharpoonup> effective_status"

datatype reply_body =
  NoBody | Problem string | BadRule nat rule_fault | BadTag tag_error | StoreProblem db_error
| ConflictBody "conflict list" | MessageBody string | ExtendedBody time int | VacationBody bool
| StatusBody effective_status | DeviceBody device | DevicesBody "device list" | TagBody tag | TagsBody "tag list"
| PolicyBody policy | PoliciesBody "policy list" | ExportBody "policy document list"
| ScheduleBody schedule | SchedulesBody "schedule list" | UserBody user | UsersBody "user list" | SnapshotBody snapshot

datatype reply = Reply (status: nat) (body: reply_body)

text \<open>\<open>h.store != nil\<close> guards every statement: without a store there is no error.\<close>

definition persist :: "moment \<Rightarrow> unit io \<Rightarrow> lias \<Rightarrow> db_error option \<times> lias" where
  "persist mo m l = (case li_store l of None \<Rightarrow> (None, l)
     | Some s \<Rightarrow> (case m (mo_out mo) s of (r, s') \<Rightarrow>
         ((case r of Inl e \<Rightarrow> Some e | Inr _ \<Rightarrow> None), l\<lparr>li_store := Some s'\<rparr>)))"

text \<open>A statement whose error the code drops.\<close>

definition persist_quietly :: "moment \<Rightarrow> unit io \<Rightarrow> lias \<Rightarrow> lias" where
  "persist_quietly mo m l = snd (persist mo m l)"

definition generate_id :: "moment \<Rightarrow> string" where
  "generate_id mo = hex_string (mo_random mo)"

text \<open>The trigger channel has room for one signal.\<close>

definition try_trigger :: "lias \<Rightarrow> lias" where
  "try_trigger l = l\<lparr>li_cache := bump_revision (li_cache l), li_triggered := True\<rparr>"

definition tell_status :: "string \<Rightarrow> string \<Rightarrow> lias \<Rightarrow> lias" where
  "tell_status kind i l = l\<lparr>li_sent := li_sent l @ [(kind, i)]\<rparr>"

definition put_policy :: "policy \<Rightarrow> lias \<Rightarrow> lias" where
  "put_policy p l = l\<lparr>li_policies := upsert_policy p (li_policies l)\<rparr>"

definition drop_policy :: "string \<Rightarrow> lias \<Rightarrow> lias" where
  "drop_policy i l = l\<lparr>li_policies := delete_policy i (li_policies l)\<rparr>"

definition put_schedule :: "schedule \<Rightarrow> lias \<Rightarrow> lias" where
  "put_schedule s l = l\<lparr>li_schedules := upsert_schedule s (li_schedules l)\<rparr>"

definition drop_schedule :: "string \<Rightarrow> lias \<Rightarrow> lias" where
  "drop_schedule i l = l\<lparr>li_schedules := delete_schedule i (li_schedules l)\<rparr>"

subsection \<open>Devices and their tags\<close>

definition shown_device :: "local_device \<Rightarrow> device" where
  "shown_device d = (dev d)\<lparr>dev_tags := local_tags d\<rparr>"

definition list_devices_reply :: "moment \<Rightarrow> lias \<Rightarrow> reply" where
  "list_devices_reply mo l = Reply 200 (DevicesBody (map shown_device (cache_list (mo_devices mo) (li_cache l))))"

definition get_device_reply :: "string \<Rightarrow> lias \<Rightarrow> reply" where
  "get_device_reply p l = (case cache_get (li_cache l) p of
     None \<Rightarrow> Reply 404 (Problem ''device not found'') | Some d \<Rightarrow> Reply 200 (DeviceBody (shown_device d)))"

text \<open>The members of the JSON object; a null leaves the zero value.\<close>

datatype tag_json = JsonNull | JsonText string | JsonTexts "string list" | JsonOther

definition requested_tags :: "(string \<times> tag_json) list \<Rightarrow> string + string list" where
  "requested_tags b =
     (case map_of b ''tag_ids'' of
        Some v \<Rightarrow> (case v of JsonNull \<Rightarrow> Inr [] | JsonTexts ts \<Rightarrow> Inr ts | _ \<Rightarrow> Inl ''invalid tag_ids format'')
      | None \<Rightarrow>
          (case map_of b ''tag_id'' of
             Some v \<Rightarrow> (case v of JsonNull \<Rightarrow> Inr [[]] | JsonText t \<Rightarrow> Inr [t] | _ \<Rightarrow> Inl ''invalid tag_id format'')
           | None \<Rightarrow> Inr []))"

definition assign_device_tag :: "moment \<Rightarrow> string \<Rightarrow> (string \<times> tag_json) list option \<Rightarrow> lias \<Rightarrow> reply \<times> lias" where
  "assign_device_tag mo p b l =
     (case b of None \<Rightarrow> (Reply 400 (Problem ''invalid request''), l)
      | Some members \<Rightarrow>
          if \<exists>(k, _) \<in> set members. k \<noteq> ''tag_ids'' \<and> k \<noteq> ''tag_id''
          then (Reply 400 (Problem ''invalid_request''), l)
          else (case requested_tags members of Inl m \<Rightarrow> (Reply 400 (Problem m), l)
            | Inr ts0 \<Rightarrow>
                let ts = (if ts0 = [] then [''generic''] else ts0);
                    l1 = l\<lparr>li_cache := set_tags p ts (li_cache l)\<rparr>;
                    mac = (case cache_get (li_cache l1) p of None \<Rightarrow> [] | Some d \<Rightarrow> current_mac (dev d))
                in (case persist mo (save_device_tags p ts mac) l1 of
                      (Some _, l2) \<Rightarrow> (Reply 500 (Problem ''failed to persist device tags''), l2)
                    | (None, l2) \<Rightarrow> (Reply 204 NoBody, try_trigger l2))))"

subsection \<open>Pause\<close>

text \<open>\<open>t.UTC().Format("15:04")\<close>\<close>

definition clock_text :: "time \<Rightarrow> string" where
  "clock_text t = (let m = t div minute mod 1440 in two_digits (m div 60) @ '':'' @ two_digits (m mod 60))"

definition all_days :: "string list" where
  "all_days = [''sun'', ''mon'', ''tue'', ''wed'', ''thu'', ''fri'', ''sat'']"

definition pause_policy_id :: "string \<Rightarrow> string" where "pause_policy_id p = ''pol_pause_'' @ p"

definition pause_schedule :: "string \<Rightarrow> time \<Rightarrow> schedule" where
  "pause_schedule sid now = \<lparr>sched_id = sid, sched_name = ''Temporary Pause'', sched_mode = ScheduleModeDowntime,
     sched_timezone = ''UTC'',
     sched_rules = [\<lparr>rule_days = all_days, rule_start = clock_text now, rule_end = clock_text (now + 1 * hour),
       rule_action = ActionBlock, rule_start_date = [], rule_end_date = []\<rparr>]\<rparr>"

definition pause_policy_for :: "string \<Rightarrow> string \<Rightarrow> time \<Rightarrow> policy" where
  "pause_policy_for p sid now = empty_policy\<lparr>pol_id := pause_policy_id p, pol_name := ''Paused Internet'',
     pol_type := PolicyTypeDevice, pol_target := p, pol_action := ActionSchedule, pol_schedule_ids := [sid],
     pol_priority := 1000, pol_enabled := True, pol_expires_at := Some (now + 1 * hour), pol_reason_tag := ''pause'',
     pol_created_at := now, pol_updated_at := now\<rparr>"

definition pause_device_internet :: "moment \<Rightarrow> string \<Rightarrow> lias \<Rightarrow> reply \<times> lias" where
  "pause_device_internet mo p l =
     (case cache_get (li_cache l) p of None \<Rightarrow> (Reply 404 (Problem ''device not found''), l)
      | Some d \<Rightarrow>
          if ''infrastructure'' \<in> set (local_tags d)
          then (Reply 409 (Problem ''infrastructure devices are always allowed; pause not applicable''), l)
          else
            let sid = ''sched_pause_'' @ generate_id mo;
                s = pause_schedule sid (mo_now mo);
                l1 = persist_quietly mo (save_schedule s) (put_schedule s l);
                pol = pause_policy_for p sid (mo_now mo);
                l2 = persist_quietly mo (save_policy pol) (put_policy pol l1)
            in (Reply 202 (MessageBody ''paused for 1 hour''), tell_status ''device'' p (try_trigger l2)))"

fun delete_schedules :: "moment \<Rightarrow> string list \<Rightarrow> lias \<Rightarrow> lias" where
  "delete_schedules mo [] l = l"
| "delete_schedules mo (i # is) l =
     delete_schedules mo is (persist_quietly mo (remove_schedule i) (drop_schedule i l))"

definition unpause_device_internet :: "moment \<Rightarrow> string \<Rightarrow> lias \<Rightarrow> reply \<times> lias" where
  "unpause_device_internet mo p l =
     (case get_policy (pause_policy_id p) (li_policies l) of None \<Rightarrow> (Reply 204 NoBody, l)
      | Some pol \<Rightarrow>
          let l1 = persist_quietly mo (remove_policy (pause_policy_id p)) (drop_policy (pause_policy_id p) l);
              l2 = delete_schedules mo (get_schedule_ids pol) l1
          in (Reply 204 NoBody, tell_status ''device'' p (try_trigger l2)))"

subsection \<open>Extension\<close>

definition global_blocks :: "lias \<Rightarrow> bool" where
  "global_blocks l = (case get_policy global_default (li_policies l) of None \<Rightarrow> False
     | Some g \<Rightarrow> pol_enabled g \<and> pol_action g = ActionBlock)"

definition extension_policy :: "string \<Rightarrow> string \<Rightarrow> policy_type \<Rightarrow> string \<Rightarrow> time \<Rightarrow> int \<Rightarrow> policy" where
  "extension_policy i name ty target now minutes = empty_policy\<lparr>pol_id := i, pol_name := name, pol_type := ty,
     pol_target := target, pol_action := ActionAllow, pol_priority := 2000, pol_enabled := True,
     pol_expires_at := Some (now + minutes * minute), pol_reason_tag := ''extend_access'',
     pol_created_at := now, pol_updated_at := now\<rparr>"

text \<open>What both handlers do once the target is known to be extendable. \<open>kind\<close> is \<open>device\<close> or \<open>tag\<close>; the body is the
  number of minutes.\<close>

definition grant_extension ::
  "moment \<Rightarrow> string \<Rightarrow> string \<Rightarrow> policy_type \<Rightarrow> string \<Rightarrow> string \<Rightarrow> int option \<Rightarrow> lias \<Rightarrow> reply \<times> lias" where
  "grant_extension mo i name ty kind target b l =
     (case b of None \<Rightarrow> (Reply 400 (Problem ''invalid request body''), l)
      | Some minutes \<Rightarrow>
          if minutes < 1 \<or> 120 < minutes then (Reply 400 (Problem ''minutes must be between 1 and 120''), l)
          else if global_blocks l
          then (Reply 409 (Problem (''global access switch is set to Block; per-'' @ kind @ '' extension is not available'')), l)
          else let pol = extension_policy i name ty target (mo_now mo) minutes
            in (case persist mo (save_policy pol) (put_policy pol l) of
                  (Some _, l1) \<Rightarrow> (Reply 500 (Problem ''failed to persist extension''), l1)
                | (None, l1) \<Rightarrow> (Reply 202 (ExtendedBody (mo_now mo + minutes * minute) minutes),
                    tell_status kind target (try_trigger l1))))"

definition device_extension_id :: "string \<Rightarrow> string" where "device_extension_id p = ''pol_extend_device_'' @ p"
definition tag_extension_id :: "string \<Rightarrow> string" where "tag_extension_id t = ''pol_extend_tag_'' @ t"

definition extend_device_access :: "moment \<Rightarrow> string \<Rightarrow> int option \<Rightarrow> lias \<Rightarrow> reply \<times> lias" where
  "extend_device_access mo p b l =
     (case cache_get (li_cache l) p of None \<Rightarrow> (Reply 404 (Problem ''device not found''), l)
      | Some d \<Rightarrow>
          if ''infrastructure'' \<in> set (local_tags d)
          then (Reply 409 (Problem ''infrastructure devices are always allowed; extension not applicable''), l)
          else grant_extension mo (device_extension_id p) ''Extended Access'' PolicyTypeDevice ''device'' p b l)"

definition known_tag :: "string \<Rightarrow> lias \<Rightarrow> bool" where
  "known_tag t l \<longleftrightarrow> (\<exists>x \<in> set (list_tags (li_tags l)). tag_id x = t)"

definition extend_tag_access :: "moment \<Rightarrow> string \<Rightarrow> int option \<Rightarrow> lias \<Rightarrow> reply \<times> lias" where
  "extend_tag_access mo t b l =
     (if \<not> known_tag t l then (Reply 404 (Problem ''tag not found''), l)
      else if t = ''infrastructure''
      then (Reply 409 (Problem ''infrastructure tag is always allowed; extension not applicable''), l)
      else grant_extension mo (tag_extension_id t) ''Extended Access (Tag)'' PolicyTypeTag ''tag'' t b l)"

definition cancel_extension :: "moment \<Rightarrow> string \<Rightarrow> string \<Rightarrow> string \<Rightarrow> lias \<Rightarrow> reply \<times> lias" where
  "cancel_extension mo i kind target l =
     (if get_policy i (li_policies l) = None then (Reply 204 NoBody, l)
      else (Reply 204 NoBody,
        tell_status kind target (try_trigger (persist_quietly mo (remove_policy i) (drop_policy i l)))))"

definition cancel_device_extension :: "moment \<Rightarrow> string \<Rightarrow> lias \<Rightarrow> reply \<times> lias" where
  "cancel_device_extension mo p = cancel_extension mo (device_extension_id p) ''device'' p"

definition cancel_tag_extension :: "moment \<Rightarrow> string \<Rightarrow> lias \<Rightarrow> reply \<times> lias" where
  "cancel_tag_extension mo t = cancel_extension mo (tag_extension_id t) ''tag'' t"

subsection \<open>The status shown\<close>

definition no_status :: effective_status where
  "no_status = \<lparr>es_action = ActionOther [], es_source = SourceNone, es_extend = False, es_pause = False, es_extension = None\<rparr>"

text \<open>\<open>int(time.Until(t).Minutes())\<close>, and the countdown shown for a temporary policy.\<close>

definition minutes_left :: "time \<Rightarrow> time \<Rightarrow> int" where
  "minutes_left now t = (let d = time_sub t now in if d < 0 then 0 else d div minute)"

definition countdown :: "time \<Rightarrow> policy \<Rightarrow> extension_info option" where
  "countdown now p = map_option (\<lambda>t. \<lparr>ei_expires = t, ei_minutes_left = minutes_left now t, ei_reason = pol_reason_tag p\<rparr>)
     (pol_expires_at p)"

text \<open>A loop that keeps the last policy with the property.\<close>

definition last_policy :: "(policy \<Rightarrow> bool) \<Rightarrow> policy list \<Rightarrow> policy option" where
  "last_policy P ps = foldl (\<lambda>r p. if P p then Some p else r) None ps"

definition run_bundle :: "moment \<Rightarrow> string list \<Rightarrow> lias \<Rightarrow> action \<times> lias" where
  "run_bundle mo ids l = (case evaluate_bundle (mo_tzdb mo) (mo_now mo) ids (li_schedules l) of
     (a, e) \<Rightarrow> (a, l\<lparr>li_schedules := e\<rparr>))"

definition enabled_global :: "lias \<Rightarrow> action option" where
  "enabled_global l = (case get_policy global_default (li_policies l) of None \<Rightarrow> None
     | Some g \<Rightarrow> if pol_enabled g then Some (pol_action g) else None)"

text \<open>The part after the temporary policies: the policy engine's choice.\<close>

definition ruled_status :: "moment \<Rightarrow> local_device \<Rightarrow> lias \<Rightarrow> effective_status \<times> lias" where
  "ruled_status mo d l =
     (let pol = get_effective_policy (mo_orders mo) (li_policies l) (Some d);
          (res, l1) = (if pol_action pol = ActionSchedule
            then (case run_bundle mo (get_schedule_ids pol) l of (a, l1) \<Rightarrow>
                   (no_status\<lparr>es_action := a, es_source := SourceSchedule\<rparr>, l1))
            else (no_status\<lparr>es_action := pol_action pol, es_source :=
                   (if pol_type pol = PolicyTypeDevice then SourceDevicePolicy
                    else if pol_type pol = PolicyTypeTag then SourceTagPolicy else SourceFallback)\<rparr>, l))
      in (if es_action res = ActionBlock then res\<lparr>es_extend := True\<rparr> else res\<lparr>es_pause := True\<rparr>, l1))"

definition device_effective_status :: "moment \<Rightarrow> local_device \<Rightarrow> lias \<Rightarrow> effective_status \<times> lias" where
  "device_effective_status mo d l =
     (if local_has_tag d ''infrastructure''
      then (no_status\<lparr>es_action := ActionAllow, es_source := SourceInfrastructure\<rparr>, l)
      else if enabled_global l = Some ActionBlock
      then (no_status\<lparr>es_action := ActionBlock, es_source := SourceGlobal\<rparr>, l)
      else if enabled_global l = Some ActionAllow
      then (no_status\<lparr>es_action := ActionAllow, es_source := SourceGlobal, es_pause := True\<rparr>, l)
      else
        let mine = filter (\<lambda>p. pol_enabled p \<and> pol_target p = local_pdid d \<and> pol_type p = PolicyTypeDevice)
              (list_policies (mo_policies mo) (li_policies l))
        in (case last_policy (\<lambda>p. pol_id p = device_extension_id (local_pdid d)) mine of
              Some x \<Rightarrow> (no_status\<lparr>es_action := ActionAllow, es_source := SourceDevicePolicy,
                 es_extension := countdown (mo_now mo) x\<rparr>, l)
            | None \<Rightarrow>
                (case last_policy (\<lambda>p. pol_id p = pause_policy_id (local_pdid d)) mine of
                   Some x \<Rightarrow> (no_status\<lparr>es_action := ActionBlock, es_source := SourceDevicePolicy, es_extend := True,
                      es_extension := countdown (mo_now mo) x\<rparr>, l)
                 | None \<Rightarrow> ruled_status mo d l)))"

definition best_tag_policy :: "policy list \<Rightarrow> policy option" where
  "best_tag_policy ps = foldl (\<lambda>b p. case b of None \<Rightarrow> Some p
     | Some x \<Rightarrow> if pol_priority x < pol_priority p then Some p else b) None ps"

definition tag_effective_status :: "moment \<Rightarrow> string \<Rightarrow> lias \<Rightarrow> effective_status \<times> lias" where
  "tag_effective_status mo t l =
     (if t = ''infrastructure'' then (no_status\<lparr>es_action := ActionAllow, es_source := SourceInfrastructure\<rparr>, l)
      else if enabled_global l = Some ActionBlock then (no_status\<lparr>es_action := ActionBlock, es_source := SourceGlobal\<rparr>, l)
      else if enabled_global l = Some ActionAllow then (no_status\<lparr>es_action := ActionAllow, es_source := SourceGlobal\<rparr>, l)
      else
        let mine = filter (\<lambda>p. pol_enabled p \<and> pol_target p = t \<and> pol_type p = PolicyTypeTag)
              (list_policies (mo_policies mo) (li_policies l))
        in (case last_policy (\<lambda>p. pol_id p = tag_extension_id t) mine of
              Some x \<Rightarrow> (no_status\<lparr>es_action := ActionAllow, es_source := SourceTagPolicy,
                 es_extension := countdown (mo_now mo) x\<rparr>, l)
            | None \<Rightarrow>
                let scheduled = (\<lambda>ids. case run_bundle mo ids l of (a, l1) \<Rightarrow>
                      (no_status\<lparr>es_action := a, es_source := SourceSchedule\<rparr>, l1));
                    (res, l1) = (case best_tag_policy (filter (\<lambda>p. pol_id p \<noteq> tag_extension_id t) mine) of
                        Some p \<Rightarrow> if pol_action p = ActionSchedule then scheduled (get_schedule_ids p)
                          else (no_status\<lparr>es_action := pol_action p, es_source := SourceTagPolicy\<rparr>, l)
                      | None \<Rightarrow>
                          (case get_policy global_default (li_policies l) of
                             Some g \<Rightarrow> if pol_enabled g \<and> pol_action g = ActionSchedule then scheduled (get_schedule_ids g)
                               else (no_status\<lparr>es_action := ActionAllow, es_source := SourceFallback\<rparr>, l)
                           | None \<Rightarrow> (no_status\<lparr>es_action := ActionAllow, es_source := SourceFallback\<rparr>, l)))
                in (if es_action res = ActionBlock then res\<lparr>es_extend := True\<rparr> else res, l1)))"

definition get_device_effective_status :: "moment \<Rightarrow> string \<Rightarrow> lias \<Rightarrow> reply \<times> lias" where
  "get_device_effective_status mo p l =
     (case cache_get (li_cache l) p of None \<Rightarrow> (Reply 404 (Problem ''device not found''), l)
      | Some d \<Rightarrow> (case device_effective_status mo d l of (st, l1) \<Rightarrow> (Reply 200 (StatusBody st), l1)))"

definition get_tag_effective_status :: "moment \<Rightarrow> string \<Rightarrow> lias \<Rightarrow> reply \<times> lias" where
  "get_tag_effective_status mo t l =
     (if \<not> known_tag t l then (Reply 404 (Problem ''tag not found''), l)
      else (case tag_effective_status mo t l of (st, l1) \<Rightarrow> (Reply 200 (StatusBody st), l1)))"

subsection \<open>The vacation switch and names\<close>

definition toggle_vacation_mode :: "moment \<Rightarrow> bool option \<Rightarrow> lias \<Rightarrow> reply \<times> lias" where
  "toggle_vacation_mode mo b l =
     (case b of None \<Rightarrow> (Reply 400 (Problem ''invalid request''), l)
      | Some on \<Rightarrow>
          let g0 = (case get_policy global_default (li_policies l) of Some g \<Rightarrow> g
                | None \<Rightarrow> empty_policy\<lparr>pol_id := global_default, pol_name := ''Global Access Switch'',
                    pol_type := PolicyTypeGlobal, pol_priority := 0, pol_enabled := True\<rparr>);
              g = g0\<lparr>pol_action := (if on then ActionBlock else ActionSchedule)\<rparr>
          in (Reply 200 (VacationBody on), try_trigger (persist_quietly mo (save_policy g) (put_policy g l))))"

definition rename_local_device :: "moment \<Rightarrow> string \<Rightarrow> string option \<Rightarrow> lias \<Rightarrow> reply \<times> lias" where
  "rename_local_device mo p b l =
     (case b of None \<Rightarrow> (Reply 400 (Problem ''invalid request''), l)
      | Some raw \<Rightarrow>
          let name = trim_space raw in
          if cache_get (li_cache l) p = None then (Reply 404 (Problem ''device_not_found''), l)
          else if name = [] \<or> 128 < length name then (Reply 400 (Problem ''invalid_name''), l)
          else (case persist mo (save_device_override p name) l of
                  (Some _, l1) \<Rightarrow> (Reply 500 (Problem ''failed to save rename''), l1)
                | (None, l1) \<Rightarrow> (Reply 204 NoBody, try_trigger (l1\<lparr>li_cache := set_friendly_name p name (li_cache l1)\<rparr>))))"

subsection \<open>The calls to the discovery service\<close>

text \<open>The identity review is forwarded to a gateway, an argument of the model: its answer to a call is a
  status and a body. The code checks what it forwards.\<close>

datatype gateway_call =
  GatewayCandidates "string option" "int option" "string option" | GatewayCandidate int | GatewayDecide int string string
| GatewayProfile string | GatewayBind string string | GatewayRevoke string int | GatewaySplit string string

datatype gateway_reply = Refused nat string | Forwarded nat string

definition gateway_answer :: "nat \<times> string \<Rightarrow> gateway_reply" where
  "gateway_answer = (\<lambda>(st, b). Forwarded (if st = 0 then 502 else st) b)"

definition unsupported :: gateway_reply where "unsupported = Refused 501 ''feature_not_supported''"

text \<open>The query as the keys that occur with their first values.\<close>

definition list_identity_candidates_call :: "(gateway_call \<Rightarrow> nat \<times> string) option \<Rightarrow> (string \<times> string) list \<Rightarrow> gateway_reply" where
  "list_identity_candidates_call gw q =
     (case gw of None \<Rightarrow> unsupported
      | Some g \<Rightarrow>
          if \<exists>(k, _) \<in> set q. k \<noteq> ''status'' \<and> k \<noteq> ''limit'' \<and> k \<noteq> ''cursor'' then Refused 400 ''invalid_query''
          else
            let get = (\<lambda>k. case map_of q k of None \<Rightarrow> [] | Some v \<Rightarrow> v);
                st = trim_space (get ''status''); raw = get ''limit''; cur = get ''cursor'';
                lm = (case parse_int raw of (n, good) \<Rightarrow> if good then Some n else None)
            in if st \<noteq> [] \<and> st \<notin> {''pending'', ''confirmed'', ''rejected''} then Refused 400 ''invalid_status''
               else if raw \<noteq> [] \<and> (case lm of None \<Rightarrow> True | Some n \<Rightarrow> n < 1 \<or> 100 < n) then Refused 400 ''invalid_limit''
               else if 1024 < length cur then Refused 400 ''invalid_cursor''
               else gateway_answer (g (GatewayCandidates (if st = [] then None else Some st)
                      (if raw = [] then None else lm) (if cur = [] then None else Some cur))))"

definition identity_path_id :: "string \<Rightarrow> int option" where
  "identity_path_id s = (case parse_int s of (n, good) \<Rightarrow> if \<not> good \<or> n < 1 then None else Some n)"

definition no_record :: gateway_reply where "no_record = Refused 404 ''identity_record_not_found''"

text \<open>Without a gateway and with an id that is none, the answer of the id check and the one of the gateway check
  are both written; the first one wins.\<close>

definition get_identity_candidate_call :: "(gateway_call \<Rightarrow> nat \<times> string) option \<Rightarrow> string \<Rightarrow> gateway_reply" where
  "get_identity_candidate_call gw s =
     (case identity_path_id s of None \<Rightarrow> no_record
      | Some i \<Rightarrow> (case gw of None \<Rightarrow> unsupported | Some g \<Rightarrow> gateway_answer (g (GatewayCandidate i))))"

text \<open>The decoded body of a decision: its note and the text it is marshalled to again.\<close>

definition decide_identity_candidate_call ::
  "(gateway_call \<Rightarrow> nat \<times> string) option \<Rightarrow> string \<Rightarrow> (string \<times> string) option \<Rightarrow> string \<Rightarrow> gateway_reply" where
  "decide_identity_candidate_call gw s b act =
     (case identity_path_id s of None \<Rightarrow> no_record
      | Some i \<Rightarrow> (case gw of None \<Rightarrow> unsupported
          | Some g \<Rightarrow> (case b of None \<Rightarrow> Refused 400 ''invalid_request''
              | Some (dec_note, text) \<Rightarrow> if 1024 < length dec_note then Refused 400 ''invalid_request''
                  else gateway_answer (g (GatewayDecide i act text)))))"

definition get_identity_profile_call :: "(gateway_call \<Rightarrow> nat \<times> string) option \<Rightarrow> string \<Rightarrow> gateway_reply" where
  "get_identity_profile_call gw p = (case gw of None \<Rightarrow> unsupported | Some g \<Rightarrow> gateway_answer (g (GatewayProfile p)))"

definition bind_identity_call :: "(gateway_call \<Rightarrow> nat \<times> string) option \<Rightarrow> string \<Rightarrow> string option \<Rightarrow> gateway_reply" where
  "bind_identity_call gw p b = (case gw of None \<Rightarrow> unsupported
     | Some g \<Rightarrow> (case b of None \<Rightarrow> Refused 400 ''invalid_request'' | Some t \<Rightarrow> gateway_answer (g (GatewayBind p t))))"

definition revoke_identity_call :: "(gateway_call \<Rightarrow> nat \<times> string) option \<Rightarrow> string \<Rightarrow> string \<Rightarrow> gateway_reply" where
  "revoke_identity_call gw p s = (case gw of None \<Rightarrow> unsupported
     | Some g \<Rightarrow> (case identity_path_id s of None \<Rightarrow> no_record | Some i \<Rightarrow> gateway_answer (g (GatewayRevoke p i))))"

definition split_identity_call :: "(gateway_call \<Rightarrow> nat \<times> string) option \<Rightarrow> string \<Rightarrow> string option \<Rightarrow> gateway_reply" where
  "split_identity_call gw p b = (case gw of None \<Rightarrow> unsupported
     | Some g \<Rightarrow> (case b of None \<Rightarrow> Refused 400 ''invalid_request'' | Some t \<Rightarrow> gateway_answer (g (GatewaySplit p t))))"

end
