(* ===== verification/Lias_Rest.thy ===== *)
theory Lias_Rest
  imports Lias_Handlers
begin

text \<open>
  The REST handlers of the scheduler that manage its configuration (\<open>apps/lias/internal/api/handlers.go\<close>): users,
  tag groups, policies, schedules, the snapshot, and the dispatch of a request to its handler.
\<close>

subsection \<open>Users\<close>

definition sorted_users :: "(user \<Rightarrow> 'k :: linorder) \<Rightarrow> moment \<Rightarrow> lias \<Rightarrow> user list" where
  "sorted_users key mo l = sort_key key (map (\<lambda>(i, n). User i n) (range_entries (li_users l) (mo_users mo)))"

definition users_snapshot :: "moment \<Rightarrow> lias \<Rightarrow> user list" where
  "users_snapshot = sorted_users user_key"

definition list_users_reply :: "moment \<Rightarrow> lias \<Rightarrow> reply" where
  "list_users_reply mo l = Reply 200 (UsersBody (sorted_users (\<lambda>u. (user_name u, user_key u)) mo l))"

definition get_user_reply :: "string \<Rightarrow> lias \<Rightarrow> reply" where
  "get_user_reply i l = (case li_users l i of None \<Rightarrow> Reply 404 (Problem ''user_not_found'')
     | Some n \<Rightarrow> Reply 200 (UserBody (User i n)))"

definition remember_user :: "string \<Rightarrow> string \<Rightarrow> lias \<Rightarrow> lias" where
  "remember_user i n l = l\<lparr>li_users := (li_users l)(i \<mapsto> n), li_cache := bump_revision (li_cache l)\<rparr>"

definition create_user :: "moment \<Rightarrow> user option \<Rightarrow> lias \<Rightarrow> reply \<times> lias" where
  "create_user mo b l =
     (case b of None \<Rightarrow> (Reply 400 (Problem ''invalid_request''), l)
      | Some u \<Rightarrow>
          let n = trim_space (user_name u); i0 = trim_space (user_key u) in
          if n = [] \<or> 128 < length n \<or> 128 < length i0 then (Reply 400 (Problem ''invalid_user''), l)
          else let i = (if i0 = [] then ''user_'' @ generate_id mo else i0)
            in (case persist mo (save_user i n) l of
                  (Some _, l1) \<Rightarrow> (Reply 500 (Problem ''failed to save user''), l1)
                | (None, l1) \<Rightarrow> (Reply 201 (UserBody (User i n)), remember_user i n l1)))"

definition update_user :: "moment \<Rightarrow> string \<Rightarrow> user option \<Rightarrow> lias \<Rightarrow> reply \<times> lias" where
  "update_user mo i b l =
     (case b of None \<Rightarrow> (Reply 400 (Problem ''invalid_request''), l)
      | Some u \<Rightarrow>
          let n = trim_space (user_name u) in
          if n = [] \<or> 128 < length n then (Reply 400 (Problem ''invalid_user''), l)
          else if li_users l i = None then (Reply 404 (Problem ''user_not_found''), l)
          else (case persist mo (save_user i n) l of
                  (Some _, l1) \<Rightarrow> (Reply 500 (Problem ''storage_error''), l1)
                | (None, l1) \<Rightarrow> (Reply 200 (UserBody (User i n)), remember_user i n l1)))"

definition delete_user_handler :: "moment \<Rightarrow> string \<Rightarrow> lias \<Rightarrow> reply \<times> lias" where
  "delete_user_handler mo i l =
     (if li_users l i = None then (Reply 404 (Problem ''user_not_found''), l)
      else if \<exists>d \<in> set (cache_list (mo_devices mo) (li_cache l)). user_id (dev d) = i
      then (Reply 409 (Problem ''user_is_assigned''), l)
      else (case persist mo (delete_user_if_unassigned i) l of
              (Some e, l1) \<Rightarrow> (if e = ErrUserAssigned then Reply 409 (Problem ''user_is_assigned'')
                 else Reply 500 (Problem ''storage_error''), l1)
            | (None, l1) \<Rightarrow> (Reply 204 NoBody,
                l1\<lparr>li_users := (li_users l1)(i := None), li_cache := bump_revision (li_cache l1)\<rparr>)))"

definition show_user :: "string \<Rightarrow> string \<Rightarrow> lias \<Rightarrow> lias" where
  "show_user p u l = try_trigger (l\<lparr>li_cache := set_user_id p u (li_cache l)\<rparr>)"

definition unassign_user :: "moment \<Rightarrow> string \<Rightarrow> lias \<Rightarrow> reply \<times> lias" where
  "unassign_user mo p l =
     (case persist mo (unassign_device_user p) l of
        (Some _, l1) \<Rightarrow> (Reply 500 (Problem ''storage_error''), l1)
      | (None, l1) \<Rightarrow> (Reply 204 NoBody, show_user p [] l1))"

definition assign_device_user :: "moment \<Rightarrow> string \<Rightarrow> string option \<Rightarrow> lias \<Rightarrow> reply \<times> lias" where
  "assign_device_user mo p b l =
     (case b of None \<Rightarrow> (Reply 400 (Problem ''invalid_request''), l)
      | Some u \<Rightarrow>
          if cache_get (li_cache l) p = None then (Reply 404 (Problem ''device_not_found''), l)
          else if u = [] then unassign_user mo p l
          else if li_users l u = None then (Reply 404 (Problem ''user_not_found''), l)
          else (case persist mo (assign_device_to_user p u) l of
                  (Some e, l1) \<Rightarrow> (if e = ErrUserNotFound then Reply 404 (Problem ''user_not_found'')
                     else Reply 500 (Problem ''failed to map user''), l1)
                | (None, l1) \<Rightarrow> (Reply 204 NoBody, show_user p u l1)))"

definition unassign_device_user_handler :: "moment \<Rightarrow> string \<Rightarrow> lias \<Rightarrow> reply \<times> lias" where
  "unassign_device_user_handler mo p l =
     (if cache_get (li_cache l) p = None then (Reply 404 (Problem ''device_not_found''), l) else unassign_user mo p l)"

subsection \<open>Tag groups\<close>

text \<open>The manager changes first, then the store.\<close>

definition store_change :: "moment \<Rightarrow> unit io \<Rightarrow> string \<Rightarrow> reply \<Rightarrow> lias \<Rightarrow> reply \<times> lias" where
  "store_change mo m failure good l =
     (case persist mo m l of (Some _, l1) \<Rightarrow> (Reply 500 (Problem failure), l1) | (None, l1) \<Rightarrow> (good, try_trigger l1))"

definition create_tag_handler :: "moment \<Rightarrow> (string \<times> string) option \<Rightarrow> lias \<Rightarrow> reply \<times> lias" where
  "create_tag_handler mo b l =
     (case b of None \<Rightarrow> (Reply 400 (Problem ''invalid request''), l)
      | Some (name, color) \<Rightarrow>
          (case create_tag name color (li_tags l) of
             (Inl e, _) \<Rightarrow> (Reply 400 (BadTag e), l)
           | (Inr t, ts) \<Rightarrow> store_change mo (save_tag t) ''failed to persist tag to storage'' (Reply 201 (TagBody t)) (l\<lparr>li_tags := ts\<rparr>)))"

definition update_tag_handler :: "moment \<Rightarrow> string \<Rightarrow> (string \<times> string) option \<Rightarrow> lias \<Rightarrow> reply \<times> lias" where
  "update_tag_handler mo i b l =
     (case b of None \<Rightarrow> (Reply 400 (Problem ''invalid request''), l)
      | Some (name, color) \<Rightarrow>
          (case update_tag i name color (li_tags l) of
             (Inl e, ts) \<Rightarrow> (Reply 400 (BadTag e), l\<lparr>li_tags := ts\<rparr>)
           | (Inr t, ts) \<Rightarrow> store_change mo (save_tag t) ''failed to update tag in storage'' (Reply 200 (TagBody t)) (l\<lparr>li_tags := ts\<rparr>)))"

definition delete_tag_handler :: "moment \<Rightarrow> string \<Rightarrow> lias \<Rightarrow> reply \<times> lias" where
  "delete_tag_handler mo i l =
     (case delete_tag i (li_tags l) of
        (Some e, ts) \<Rightarrow> (Reply 400 (BadTag e), l\<lparr>li_tags := ts\<rparr>)
      | (None, ts) \<Rightarrow> store_change mo (delete_tag_row i) ''failed to delete tag from storage'' (Reply 204 NoBody) (l\<lparr>li_tags := ts\<rparr>))"

subsection \<open>Policies\<close>

datatype bundle_check = BundleFine | BundleConflicts "conflict list" | BundleMissing string | BundleError merge_error

text \<open>The schedules of a list of ids, or the first id that names none.\<close>

fun resolve_schedules :: "string list \<Rightarrow> engine \<Rightarrow> string + schedule list" where
  "resolve_schedules [] e = Inr []"
| "resolve_schedules (i # is) e =
     (case get_schedule i e of None \<Rightarrow> Inl i
      | Some s \<Rightarrow> (case resolve_schedules is e of Inl j \<Rightarrow> Inl j | Inr ss \<Rightarrow> Inr (s # ss)))"

definition check_policy_schedules :: "policy \<Rightarrow> engine \<Rightarrow> bundle_check" where
  "check_policy_schedules p e =
     (if pol_action p \<noteq> ActionSchedule \<or> get_schedule_ids p = [] then BundleFine
      else (case resolve_schedules (get_schedule_ids p) e of Inl i \<Rightarrow> BundleMissing i
        | Inr ss \<Rightarrow> (case merge_schedules ss of (_, cs, err) \<Rightarrow>
            if cs \<noteq> [] then BundleConflicts cs else (case err of None \<Rightarrow> BundleFine | Some x \<Rightarrow> BundleError x))))"

text \<open>What creation and update share. An error of the merge that names no conflict is not answered.\<close>

definition accept_policy :: "moment \<Rightarrow> policy \<Rightarrow> nat \<Rightarrow> string \<Rightarrow> lias \<Rightarrow> reply \<times> lias" where
  "accept_policy mo p good failure l =
     (if pol_type p = PolicyTypeTag \<and> pol_target p = ''infrastructure''
      then (Reply 400 (Problem ''policy_immutable_target''), l)
      else (case check_policy_schedules p (li_schedules l) of
          BundleMissing i \<Rightarrow> (Reply 400 (Problem (''referenced schedule '' @ [CHR 0x27] @ i @ [CHR 0x27] @ '' does not exist'')), l)
        | BundleConflicts cs \<Rightarrow> (Reply 409 (ConflictBody cs), l)
        | _ \<Rightarrow> store_change mo (save_policy p) failure (Reply good (PolicyBody p)) (put_policy p l)))"

definition create_policy :: "moment \<Rightarrow> policy option \<Rightarrow> lias \<Rightarrow> reply \<times> lias" where
  "create_policy mo b l =
     (case b of None \<Rightarrow> (Reply 400 (Problem ''invalid request''), l)
      | Some p0 \<Rightarrow>
          accept_policy mo (if pol_id p0 = [] then p0\<lparr>pol_id := ''pol_'' @ generate_id mo\<rparr> else p0) 201
            ''failed to persist policy to storage'' l)"

definition update_policy :: "moment \<Rightarrow> string \<Rightarrow> policy option \<Rightarrow> lias \<Rightarrow> reply \<times> lias" where
  "update_policy mo i b l =
     (case b of None \<Rightarrow> (Reply 400 (Problem ''invalid request''), l)
      | Some p0 \<Rightarrow>
          let p1 = p0\<lparr>pol_id := i\<rparr>; p = (if i = global_default then p1\<lparr>pol_enabled := True\<rparr> else p1)
          in accept_policy mo p 200 ''failed to update policy in storage'' l)"

definition delete_policy_handler :: "moment \<Rightarrow> string \<Rightarrow> lias \<Rightarrow> reply \<times> lias" where
  "delete_policy_handler mo i l =
     store_change mo (remove_policy i) ''failed to delete policy from storage'' (Reply 204 NoBody) (drop_policy i l)"

definition validate_policy :: "string list option \<Rightarrow> lias \<Rightarrow> reply" where
  "validate_policy b l =
     (case b of None \<Rightarrow> Reply 400 (Problem ''invalid request'')
      | Some ids \<Rightarrow>
          if ids = [] then Reply 200 (ConflictBody [])
          else (case resolve_schedules ids (li_schedules l) of
              Inl i \<Rightarrow> Reply 400 (Problem (''referenced schedule '' @ [CHR 0x27] @ i @ [CHR 0x27] @ '' does not exist''))
            | Inr ss \<Rightarrow> Reply 200 (ConflictBody (fst (snd (merge_schedules ss))))))"

definition export_policies_handler :: "moment \<Rightarrow> lias \<Rightarrow> reply \<times> lias" where
  "export_policies_handler mo l =
     (case li_store l of None \<Rightarrow> (Reply 503 (Problem ''storage unavailable''), l)
      | Some s \<Rightarrow> (case export_policies (mo_out mo) s of
          (Inl _, s') \<Rightarrow> (Reply 500 (Problem ''failed to export policies''), l\<lparr>li_store := Some s'\<rparr>)
        | (Inr docs, s') \<Rightarrow> (Reply 200 (ExportBody docs), l\<lparr>li_store := Some s'\<rparr>)))"

definition importable :: "policy \<Rightarrow> bool" where
  "importable p \<longleftrightarrow> pol_id p \<noteq> [] \<and> length (pol_id p) \<le> 128 \<and> length (pol_name p) \<le> 256
     \<and> pol_type p \<in> {PolicyTypeGlobal, PolicyTypeTag, PolicyTypeDevice}
     \<and> pol_action p \<in> {ActionAllow, ActionBlock, ActionSchedule}"

definition import_policies_handler :: "moment \<Rightarrow> policy list option \<Rightarrow> lias \<Rightarrow> reply \<times> lias" where
  "import_policies_handler mo b l =
     (if li_store l = None then (Reply 503 (Problem ''storage unavailable''), l)
      else (case b of None \<Rightarrow> (Reply 400 (Problem ''invalid_policy_import''), l)
        | Some ps \<Rightarrow>
            if \<exists>p \<in> set ps. \<not> importable p then (Reply 400 (Problem ''invalid_policy_import''), l)
            else (case persist mo (import_policies (Document ps)) l of
                (Some e, l1) \<Rightarrow> (Reply 400 (StoreProblem e), l1)
              | (None, l1) \<Rightarrow> (Reply 200 (MessageBody ''import successful''), try_trigger (fold put_policy ps l1)))))"

subsection \<open>Schedules\<close>

definition is_supported_timezone :: "tzdb \<Rightarrow> string \<Rightarrow> bool" where
  "is_supported_timezone tz z \<longleftrightarrow> z \<noteq> [] \<and> load_location tz z \<noteq> None"

definition rule_problem :: "schedule_rule \<Rightarrow> rule_fault option" where
  "rule_problem r =
     (if rule_days r = [] \<and> (rule_start_date r = [] \<or> rule_end_date r = []) then Some NoDays
      else if rule_start r = rule_end r then Some SameTimes
      else if parse_hhmm (rule_start r) = None then Some BadStartTime
      else if parse_hhmm (rule_end r) = None then Some BadEndTime
      else if rule_start_date r \<noteq> [] \<and> parse_date (rule_start_date r) = None then Some BadStartDate
      else if rule_end_date r \<noteq> [] \<and> parse_date (rule_end_date r) = None then Some BadEndDate
      else None)"

fun validate_schedule_rules :: "nat \<Rightarrow> schedule_rule list \<Rightarrow> (nat \<times> rule_fault) option" where
  "validate_schedule_rules i [] = None"
| "validate_schedule_rules i (r # rs) =
     (case rule_problem r of Some f \<Rightarrow> Some (Suc i, f) | None \<Rightarrow> validate_schedule_rules (Suc i) rs)"

definition with_mode :: "schedule \<Rightarrow> schedule" where
  "with_mode s = (if sched_mode s = ScheduleModeOther []
     then s\<lparr>sched_mode := (if \<exists>r \<in> set (sched_rules s). rule_action r = ActionAllow then ScheduleModeWhitelist
                           else ScheduleModeDowntime)\<rparr> else s)"

text \<open>What creation and update share.\<close>

definition accept_schedule :: "moment \<Rightarrow> schedule \<Rightarrow> nat \<Rightarrow> string \<Rightarrow> lias \<Rightarrow> reply \<times> lias" where
  "accept_schedule mo s0 good failure l =
     (let s = with_mode s0 in
      case validate_schedule_rules 0 (sched_rules s) of Some (i, f) \<Rightarrow> (Reply 400 (BadRule i f), l)
      | None \<Rightarrow>
          if \<not> is_supported_timezone (mo_tzdb mo) (sched_timezone s)
          then (Reply 400 (Problem ''unsupported or invalid timezone''), l)
          else (case merge_schedules [s] of (_, cs, err) \<Rightarrow>
            if err \<noteq> None \<or> 0 < length cs then (Reply 409 (ConflictBody cs), l)
            else store_change mo (save_schedule s) failure (Reply good (ScheduleBody s)) (put_schedule s l)))"

definition create_schedule :: "moment \<Rightarrow> schedule option \<Rightarrow> lias \<Rightarrow> reply \<times> lias" where
  "create_schedule mo b l =
     (case b of None \<Rightarrow> (Reply 400 (Problem ''invalid request''), l)
      | Some s \<Rightarrow> accept_schedule mo (if sched_id s = [] then s\<lparr>sched_id := ''sched_'' @ generate_id mo\<rparr> else s) 201
          ''failed to persist schedule to storage'' l)"

definition update_schedule :: "moment \<Rightarrow> string \<Rightarrow> schedule option \<Rightarrow> lias \<Rightarrow> reply \<times> lias" where
  "update_schedule mo i b l =
     (case b of None \<Rightarrow> (Reply 400 (Problem ''invalid request''), l)
      | Some s \<Rightarrow> accept_schedule mo (s\<lparr>sched_id := i\<rparr>) 200 ''failed to update schedule in storage'' l)"

definition delete_schedule_handler :: "moment \<Rightarrow> string \<Rightarrow> lias \<Rightarrow> reply \<times> lias" where
  "delete_schedule_handler mo i l =
     store_change mo (remove_schedule i) ''failed to delete schedule from storage'' (Reply 204 NoBody) (drop_schedule i l)"

subsection \<open>The snapshot\<close>

text \<open>The status of every device or tag, evaluated in turn.\<close>

fun device_statuses :: "moment \<Rightarrow> local_device list \<Rightarrow> lias \<Rightarrow> (string \<rightharpoonup> effective_status) \<Rightarrow> (string \<rightharpoonup> effective_status) \<times> lias" where
  "device_statuses mo [] l m = (m, l)"
| "device_statuses mo (d # ds) l m =
     (case device_effective_status mo d l of (st, l1) \<Rightarrow> device_statuses mo ds l1 (m(local_pdid d \<mapsto> st)))"

fun tag_statuses :: "moment \<Rightarrow> tag list \<Rightarrow> lias \<Rightarrow> (string \<rightharpoonup> effective_status) \<Rightarrow> (string \<rightharpoonup> effective_status) \<times> lias" where
  "tag_statuses mo [] l m = (m, l)"
| "tag_statuses mo (t # ts) l m =
     (case tag_effective_status mo (tag_id t) l of (st, l1) \<Rightarrow> tag_statuses mo ts l1 (m(tag_id t \<mapsto> st)))"

definition take_snapshot :: "moment \<Rightarrow> lias \<Rightarrow> snapshot \<times> lias" where
  "take_snapshot mo l =
     (let ds = cache_list (mo_devices mo) (li_cache l);
          (dst, l1) = device_statuses mo ds l Map.empty;
          ts = list_tags (li_tags l1);
          (tst, l2) = tag_statuses mo ts l1 Map.empty
      in (\<lparr>sn_revision = revision (li_cache l), sn_devices = map shown_device ds, sn_tags = ts,
           sn_policies = list_policies (mo_policies mo) (li_policies l2),
           sn_schedules = list_schedules (mo_schedules mo) (li_schedules l2), sn_users = users_snapshot mo l2,
           sn_device_status = dst, sn_tag_status = tst\<rparr>, l2))"

text \<open>\<open>meanwhile\<close> is what other requests do to the service before the revision is read again; the client's tag, if it
  sends one, is a revision.\<close>

fun snapshot_attempts :: "nat \<Rightarrow> moment \<Rightarrow> (nat \<Rightarrow> lias \<Rightarrow> lias) \<Rightarrow> 64 word option \<Rightarrow> lias \<Rightarrow> reply \<times> lias" where
  "snapshot_attempts 0 mo meanwhile known l = (Reply 503 (Problem ''snapshot_busy''), l)"
| "snapshot_attempts (Suc n) mo meanwhile known l =
     (if known = Some (revision (li_cache l)) then (Reply 304 NoBody, l)
      else (case take_snapshot mo l of (s, l1) \<Rightarrow>
        let l2 = meanwhile n l1 in
        if revision (li_cache l2) \<noteq> sn_revision s then snapshot_attempts n mo meanwhile known l2
        else (Reply 200 (SnapshotBody s), l2)))"

definition snapshot_handler :: "moment \<Rightarrow> (nat \<Rightarrow> lias \<Rightarrow> lias) \<Rightarrow> 64 word option \<Rightarrow> lias \<Rightarrow> reply \<times> lias" where
  "snapshot_handler = snapshot_attempts 3"

subsection \<open>The dispatch\<close>

text \<open>A request that reached its handler: the route with its path values and the decoded body (\<open>RegisterRoutes\<close>).
  The snapshot and the calls to the gateway are apart.\<close>

datatype call =
  ListDevices | GetDevice string | AssignDeviceTag string "(string \<times> tag_json) list option"
| PauseDevice string | UnpauseDevice string | ExtendDevice string "int option" | CancelDeviceExtension string
| DeviceStatus string | RenameDevice string "string option" | AssignDeviceUser string "string option" | UnassignDeviceUser string
| ListTags | CreateTag "(string \<times> string) option" | UpdateTag string "(string \<times> string) option" | DeleteTag string
| ExtendTag string "int option" | CancelTagExtension string | TagStatus string
| ListPolicies | CreatePolicy "policy option" | ValidatePolicy "string list option" | UpdatePolicy string "policy option"
| DeletePolicy string | ExportPolicies | ImportPolicies "policy list option"
| ListSchedules | CreateSchedule "schedule option" | UpdateSchedule string "schedule option" | DeleteSchedule string
| ListUsers | CreateUser "user option" | GetUser string | UpdateUser string "user option" | DeleteUser string
| ToggleVacation "bool option"

fun serve :: "moment \<Rightarrow> call \<Rightarrow> lias \<Rightarrow> reply \<times> lias" where
  "serve mo ListDevices l = (list_devices_reply mo l, l)"
| "serve mo (GetDevice p) l = (get_device_reply p l, l)"
| "serve mo (AssignDeviceTag p b) l = assign_device_tag mo p b l"
| "serve mo (PauseDevice p) l = pause_device_internet mo p l"
| "serve mo (UnpauseDevice p) l = unpause_device_internet mo p l"
| "serve mo (ExtendDevice p b) l = extend_device_access mo p b l"
| "serve mo (CancelDeviceExtension p) l = cancel_device_extension mo p l"
| "serve mo (DeviceStatus p) l = get_device_effective_status mo p l"
| "serve mo (RenameDevice p b) l = rename_local_device mo p b l"
| "serve mo (AssignDeviceUser p b) l = assign_device_user mo p b l"
| "serve mo (UnassignDeviceUser p) l = unassign_device_user_handler mo p l"
| "serve mo ListTags l = (Reply 200 (TagsBody (list_tags (li_tags l))), l)"
| "serve mo (CreateTag b) l = create_tag_handler mo b l"
| "serve mo (UpdateTag i b) l = update_tag_handler mo i b l"
| "serve mo (DeleteTag i) l = delete_tag_handler mo i l"
| "serve mo (ExtendTag t b) l = extend_tag_access mo t b l"
| "serve mo (CancelTagExtension t) l = cancel_tag_extension mo t l"
| "serve mo (TagStatus t) l = get_tag_effective_status mo t l"
| "serve mo ListPolicies l = (Reply 200 (PoliciesBody (list_policies (mo_policies mo) (li_policies l))), l)"
| "serve mo (CreatePolicy b) l = create_policy mo b l"
| "serve mo (ValidatePolicy b) l = (validate_policy b l, l)"
| "serve mo (UpdatePolicy i b) l = update_policy mo i b l"
| "serve mo (DeletePolicy i) l = delete_policy_handler mo i l"
| "serve mo ExportPolicies l = export_policies_handler mo l"
| "serve mo (ImportPolicies b) l = import_policies_handler mo b l"
| "serve mo ListSchedules l = (Reply 200 (SchedulesBody (list_schedules (mo_schedules mo) (li_schedules l))), l)"
| "serve mo (CreateSchedule b) l = create_schedule mo b l"
| "serve mo (UpdateSchedule i b) l = update_schedule mo i b l"
| "serve mo (DeleteSchedule i) l = delete_schedule_handler mo i l"
| "serve mo ListUsers l = (list_users_reply mo l, l)"
| "serve mo (CreateUser b) l = create_user mo b l"
| "serve mo (GetUser i) l = (get_user_reply i l, l)"
| "serve mo (UpdateUser i b) l = update_user mo i b l"
| "serve mo (DeleteUser i) l = delete_user_handler mo i l"
| "serve mo (ToggleVacation b) l = toggle_vacation_mode mo b l"

text \<open>\<open>NewHandlers\<close>: the users come from the store, if the query succeeds.\<close>

definition new_handlers :: "moment \<Rightarrow> cache \<Rightarrow> tag list \<Rightarrow> policies \<Rightarrow> engine \<Rightarrow> (nat \<times> database) option \<Rightarrow> lias" where
  "new_handlers mo c ts ps e st =
     (let l = \<lparr>li_cache = c, li_tags = ts, li_policies = ps, li_schedules = e, li_store = st, li_users = Map.empty,
            li_triggered = False, li_sent = []\<rparr>
      in case st of None \<Rightarrow> l
         | Some s \<Rightarrow> (case list_users (mo_out mo) s of
             (Inl _, s') \<Rightarrow> l\<lparr>li_store := Some s'\<rparr>
           | (Inr us, s') \<Rightarrow> l\<lparr>li_store := Some s', li_users := map_of us\<rparr>))"

end
