(* ===== verification/Lias_Rest_Props.thy ===== *)
theory Lias_Rest_Props
  imports Lias_Rest
begin

text \<open>
  What holds of every request the scheduler serves.
\<close>

subsection \<open>Refused requests\<close>

text \<open>Nothing changed but the number of statements the store has run.\<close>

definition untouched :: "lias \<Rightarrow> lias \<Rightarrow> bool" where
  "untouched l l' \<longleftrightarrow> (\<exists>st. l' = l\<lparr>li_store := st\<rparr> \<and> map_option snd st = map_option snd (li_store l))"

lemma untouched_refl [simp]: "untouched l l"
  unfolding untouched_def by (rule exI [of _ "li_store l"]) simp

lemma persist_untouched:
  assumes "\<And>out n db e n' db'. m out (n, db) = (Inl e, n', db') \<Longrightarrow> db' = db"
  shows "persist mo m l = (Some e, l') \<Longrightarrow> untouched l l'"
  using assms by (fastforce simp: persist_def untouched_def split: option.splits sum.splits prod.splits)

lemma update_tag_fails: "update_tag i n c ts = (Inl e, ts') \<Longrightarrow> ts' = ts"
  by (induction ts arbitrary: ts') (auto split: if_splits prod.splits)

lemma delete_tag_fails: "delete_tag i ts = (Some e, ts') \<Longrightarrow> ts' = ts"
  by (induction ts arbitrary: ts') (auto split: if_splits prod.splits)

lemma user_statement_fails:
  "delete_user_if_unassigned i out (n, db) = (Inl e, n', db') \<Longrightarrow> db' = db"
  "assign_device_to_user p u out (n, db) = (Inl e, n', db') \<Longrightarrow> db' = db"
  "import_policies doc out (n, db) = (Inl e, n', db') \<Longrightarrow> db' = db"
  by (auto simp: delete_user_if_unassigned_def assign_device_to_user_def bind_io_def exec_counting_def query_def
      fail_io_def return_io_def import_policies_def split: if_splits sum.splits prod.splits option.splits
      dest!: transaction_fails)

definition refusal :: "reply \<Rightarrow> bool" where
  "refusal r \<longleftrightarrow> 400 \<le> status r \<and> status r < 500 \<or> status r = 503"

lemma store_change_refusal: "store_change mo m f good l = (r, l') \<Longrightarrow> \<not> refusal good \<Longrightarrow> \<not> refusal r"
  by (auto simp: store_change_def refusal_def split: option.splits prod.splits)

lemma refused_handler:
  "assign_device_tag mo p b0 l = (r, l') \<Longrightarrow> refusal r \<Longrightarrow> untouched l l'"
  "pause_device_internet mo p l = (r, l') \<Longrightarrow> refusal r \<Longrightarrow> untouched l l'"
  "unpause_device_internet mo p l = (r, l') \<Longrightarrow> refusal r \<Longrightarrow> untouched l l'"
  by (auto simp: assign_device_tag_def pause_device_internet_def unpause_device_internet_def Let_def refusal_def
      split: option.splits prod.splits sum.splits if_splits)

lemma refused_policy_handler:
  "grant_extension mo i n ty k t b1 l = (r, l') \<Longrightarrow> refusal r \<Longrightarrow> untouched l l'"
  "cancel_extension mo i k t l = (r, l') \<Longrightarrow> refusal r \<Longrightarrow> untouched l l'"
  "toggle_vacation_mode mo b2 l = (r, l') \<Longrightarrow> refusal r \<Longrightarrow> untouched l l'"
  "accept_policy mo p 201 f l = (r, l') \<Longrightarrow> refusal r \<Longrightarrow> untouched l l'"
  "accept_policy mo p 200 f l = (r, l') \<Longrightarrow> refusal r \<Longrightarrow> untouched l l'"
  "export_policies_handler mo l = (r, l') \<Longrightarrow> refusal r \<Longrightarrow> untouched l l'"
  by (auto simp: grant_extension_def cancel_extension_def toggle_vacation_mode_def accept_policy_def
      export_policies_handler_def store_change_def Let_def refusal_def
      split: option.splits prod.splits sum.splits if_splits bundle_check.splits)

lemma refused_user_handler:
  "rename_local_device mo p b3 l = (r, l') \<Longrightarrow> refusal r \<Longrightarrow> untouched l l'"
  "create_user mo b4 l = (r, l') \<Longrightarrow> refusal r \<Longrightarrow> untouched l l'"
  "update_user mo i b4 l = (r, l') \<Longrightarrow> refusal r \<Longrightarrow> untouched l l'"
  "unassign_user mo p l = (r, l') \<Longrightarrow> refusal r \<Longrightarrow> untouched l l'"
  by (auto simp: rename_local_device_def create_user_def update_user_def unassign_user_def Let_def refusal_def
      split: option.splits prod.splits if_splits)

lemma refused_user_statement:
  assumes "refusal r"
  shows "delete_user_handler mo i l = (r, l') \<Longrightarrow> untouched l l'" "assign_device_user mo p b3 l = (r, l') \<Longrightarrow> untouched l l'"
    "import_policies_handler mo b5 l = (r, l') \<Longrightarrow> untouched l l'"
  using assms persist_untouched [OF user_statement_fails(1)] persist_untouched [OF user_statement_fails(2)]
    persist_untouched [OF user_statement_fails(3)] refused_user_handler(4)
  by (auto simp: delete_user_handler_def assign_device_user_def import_policies_handler_def Let_def refusal_def
      split: option.splits prod.splits if_splits)

lemma refused_tag_handler:
  assumes "refusal r"
  shows "create_tag_handler mo b6 l = (r, l') \<Longrightarrow> untouched l l'" "update_tag_handler mo i b6 l = (r, l') \<Longrightarrow> untouched l l'"
    "delete_tag_handler mo i l = (r, l') \<Longrightarrow> untouched l l'"
  using assms
  by (auto simp: create_tag_handler_def update_tag_handler_def delete_tag_handler_def store_change_def refusal_def
      split: option.splits prod.splits sum.splits dest!: update_tag_fails delete_tag_fails)

lemma refused_schedule_handler:
  assumes "refusal r" "n \<in> {200, 201}"
  shows "accept_schedule mo s n f l = (r, l') \<Longrightarrow> untouched l l'"
    "store_change mo m f (Reply 204 NoBody) l1 = (r, l') \<Longrightarrow> untouched l l'"
  using assms by (auto simp: accept_schedule_def store_change_def Let_def refusal_def split: option.splits prod.splits if_splits)

lemma refused_status:
  "get_device_effective_status mo p l = (r, l') \<Longrightarrow> refusal r \<Longrightarrow> untouched l l'"
  "get_tag_effective_status mo t l = (r, l') \<Longrightarrow> refusal r \<Longrightarrow> untouched l l'"
  by (auto simp: get_device_effective_status_def get_tag_effective_status_def refusal_def
      split: option.splits prod.splits if_splits)

lemmas refused_all = refused_handler refused_policy_handler refused_user_handler refused_user_statement refused_tag_handler
  refused_schedule_handler refused_status

text \<open>C8: A request the scheduler refuses changes nothing: after a reply with a status of the 400s or 503 the devices,
  tags, policies, schedules and users in memory and all tables are as before, no signal was raised and no event sent.\<close>

theorem refused_requests_change_nothing:
  assumes run: "serve mo c l = (r, l')" and refused: "400 \<le> status r \<and> status r < 500 \<or> status r = 503"
  shows "\<exists>st. l' = l\<lparr>li_store := st\<rparr> \<and> map_option snd st = map_option snd (li_store l)"
proof -
  have ref: "refusal r" using refused by (simp add: refusal_def)
  have "untouched l l'"
  proof (cases c)
    case (ExtendDevice p b)
    then show ?thesis using run ref refused_policy_handler(1)
      by (auto simp: extend_device_access_def split: option.splits if_splits)
  next
    case (ExtendTag p b)
    then show ?thesis using run ref refused_policy_handler(1) by (auto simp: extend_tag_access_def split: if_splits)
  next
    case (CreatePolicy b)
    then show ?thesis using run ref refused_policy_handler(4) by (auto simp: create_policy_def split: option.splits)
  next
    case (UpdatePolicy i b)
    then show ?thesis using run ref refused_policy_handler(5) by (auto simp: update_policy_def Let_def split: option.splits)
  next
    case (CreateSchedule b)
    then show ?thesis using run refused_schedule_handler(1) [OF ref, of 201] by (auto simp: create_schedule_def split: option.splits)
  next
    case (UpdateSchedule i b)
    then show ?thesis using run refused_schedule_handler(1) [OF ref, of 200] by (auto simp: update_schedule_def split: option.splits)
  next
    case (UnassignDeviceUser p)
    then show ?thesis using run ref refused_user_handler(4) by (auto simp: unassign_device_user_handler_def split: if_splits)
  qed (use run ref in \<open>auto simp: cancel_device_extension_def cancel_tag_extension_def delete_policy_handler_def
      delete_schedule_handler_def refusal_def store_change_def split: option.splits prod.splits dest: refused_all [rotated]
      dest: refused_handler refused_policy_handler refused_user_handler refused_user_statement refused_tag_handler refused_status\<close>)
  then show ?thesis unfolding untouched_def .
qed

definition noon :: moment where
  "noon = \<lparr>mo_now = 20000 * 86400 * second + 12 * hour, mo_random = [1, 2, 3, 4, 5, 6, 7, 8], mo_out = healthy,
     mo_tzdb = (\<lambda>_. None), mo_orders = (\<lambda>_. [global_default, ''pol_a'']), mo_policies = [global_default], mo_schedules = [], mo_devices = [''p1''],
     mo_users = [''u1'']\<rparr>"

definition lamp_device :: local_device where
  "lamp_device = \<lparr>dev = empty_device\<lparr>pdid := ''p1'', macs := [''0a:00:00:00:00:01'']\<rparr>, local_tags = [''kids''],
     local_policy = None, local_next = None\<rparr>"

definition house :: lias where
  "house = new_handlers noon (new_cache\<lparr>devices := [''p1'' \<mapsto> lamp_device]\<rparr>)
     new_manager new_policies new_engine (Some (0, empty_database\<lparr>tbl_users := [(''u1'', ''Ann'')]\<rparr>))"

lemma house_fields:
  "devices (li_cache house) = [''p1'' \<mapsto> lamp_device]" "li_users house = [''u1'' \<mapsto> ''Ann'']"
  "li_store house = Some (1, empty_database\<lparr>tbl_users := [(''u1'', ''Ann'')]\<rparr>)" "li_policies house = new_policies"
  "li_schedules house = new_engine" "li_tags house = new_manager" "li_triggered house = False" "li_sent house = []"
  by (simp_all add: house_def new_handlers_def list_users_def query_def noon_def healthy_def empty_database_def)

theorem refused_requests_change_nothing_witness:
  "\<exists>st. serve noon (AssignDeviceUser ''p1'' (Some ''u2'')) house =
     (Reply 404 (Problem ''user_not_found''), house\<lparr>li_store := st\<rparr>)"
proof -
  obtain r l' where run: "serve noon (AssignDeviceUser ''p1'' (Some ''u2'')) house = (r, l')" by fastforce
  then have "r = Reply 404 (Problem ''user_not_found'')"
    by (simp add: assign_device_user_def cache_get_def house_fields)
  with refused_requests_change_nothing [OF run] run show ?thesis by auto
qed

end
