(* ===== verification/Lias_Service.thy ===== *)
theory Lias_Service
  imports Lias_Rest_Props Identity_Migration
begin

text \<open>
  The scheduler as a whole (\<open>cmd/lias/main.go\<close>): the start from the store, the pass that removes expired
  temporary policies, and the runs of the service: requests, passes, reports of the discovery service and
  identity migrations in any order.
\<close>

subsection \<open>The start and the passes\<close>

text \<open>The result of a query whose error is dropped.\<close>

definition loaded :: "outage \<Rightarrow> 'a io \<Rightarrow> 'a \<Rightarrow> nat \<times> database \<Rightarrow> 'a \<times> nat \<times> database" where
  "loaded out m dflt s = (case m out s of (Inr x, s') \<Rightarrow> (x, s') | (Inl _, s') \<Rightarrow> (dflt, s'))"

text \<open>\<open>ks i\<close> is the order of the \<open>i\<close>-th loop over a map.\<close>

definition start_lias :: "moment \<Rightarrow> (nat \<Rightarrow> string list) \<Rightarrow> (nat \<times> database) option \<Rightarrow> lias" where
  "start_lias mo ks st =
     (case st of None \<Rightarrow> new_handlers mo new_cache new_manager new_policies new_engine None
      | Some s \<Rightarrow>
          let (h, s1) = loaded (mo_out mo) (load_hydrate (mo_now mo) new_manager new_policies new_engine)
                \<lparr>hy_tags = new_manager, hy_policies = new_policies, hy_engine = new_engine, hy_device_tags = Map.empty,
                 hy_mac_tags = Map.empty\<rparr> s;
              c1 = load_sticky_tags (ks 0) (ks 1) [] (hy_device_tags h) (hy_mac_tags h) new_cache;
              (ovr, s2) = loaded (mo_out mo) load_device_overrides Map.empty s1;
              (asg, s3) = loaded (mo_out mo) load_user_assignments Map.empty s2;
              c2 = load_local_metadata (ks 2) (ks 3) [] ovr asg c1
          in new_handlers mo c2 (hy_tags h) (hy_policies h) (hy_engine h) (Some s3))"

text \<open>The event for an expired temporary policy goes to the target its id names.\<close>

definition tell_expired :: "string \<Rightarrow> lias \<Rightarrow> lias" where
  "tell_expired i l =
     (if has_prefix i ''pol_extend_device_'' \<or> has_prefix i ''pol_pause_''
      then tell_status ''device'' (trim_prefix (trim_prefix i ''pol_extend_device_'') ''pol_pause_'') l
      else if has_prefix i ''pol_extend_tag_'' then tell_status ''tag'' (trim_prefix i ''pol_extend_tag_'') l else l)"

fun forget_policies :: "moment \<Rightarrow> string list \<Rightarrow> lias \<Rightarrow> lias" where
  "forget_policies mo [] l = l"
| "forget_policies mo (i # is) l = forget_policies mo is (tell_expired i (persist_quietly mo (remove_policy i) l))"

definition sweep_pass :: "moment \<Rightarrow> lias \<Rightarrow> lias" where
  "sweep_pass mo l =
     (case sweep_expired (mo_policies mo) (mo_now mo) (li_policies l) of (ps, gone, owned) \<Rightarrow>
        let l1 = l\<lparr>li_policies := ps\<rparr> in
        if gone = [] then l1
        else let l2 = l1\<lparr>li_cache := bump_revision (li_cache l1)\<rparr>;
                 l3 = delete_schedules mo owned (forget_policies mo gone l2)
             in l3\<lparr>li_triggered := True\<rparr>)"

text \<open>The coordinator works on the parts of the service; \<open>lk\<close> and \<open>pk\<close> are the orders of its loops.\<close>

definition coordinate ::
  "moment \<Rightarrow> string list \<Rightarrow> string list \<Rightarrow> string \<Rightarrow> string \<Rightarrow> string list \<Rightarrow> lias \<Rightarrow> (db_error + nat \<times> bool) \<times> lias" where
  "coordinate mo lk pk old new mms l =
     (case migrate_identity (mo_out mo) (mo_now mo) (mo_policies mo) lk pk old new mms
         \<lparr>co_store = map_option snd (li_store l), co_policies = li_policies l, co_cache = li_cache l\<rparr> of
        (r, co) \<Rightarrow> (r, l\<lparr>li_store := (case (li_store l, co_store co) of (Some (n, _), Some db) \<Rightarrow> Some (n, db) | _ \<Rightarrow> li_store l),
           li_policies := co_policies co, li_cache := co_cache co\<rparr>))"

definition migrate_devices :: "moment \<Rightarrow> string list \<Rightarrow> string list \<Rightarrow> string \<Rightarrow> string \<Rightarrow> string list \<Rightarrow> lias \<Rightarrow> lias" where
  "migrate_devices mo lk pk old new mms l = snd (coordinate mo lk pk old new mms l)"

subsection \<open>Runs\<close>

text \<open>What the tables of users promise: ids are unique, and a device is assigned to a user that exists.\<close>

definition user_tables_ok :: "database \<Rightarrow> bool" where
  "user_tables_ok db \<longleftrightarrow> distinct (map fst (tbl_users db)) \<and> distinct (map fst (tbl_device_users db))
     \<and> snd ` set (tbl_device_users db) \<subseteq> fst ` set (tbl_users db)"

inductive lias_run :: "lias \<Rightarrow> bool" where
  lias_start: "(\<And>n db. st = Some (n, db) \<Longrightarrow> user_tables_ok db) \<Longrightarrow> mo_out mo = healthy \<Longrightarrow> lias_run (start_lias mo ks st)"
| lias_request: "lias_run l \<Longrightarrow> serve mo c l = (r, l') \<Longrightarrow> lias_run l'"
| lias_sweep: "lias_run l \<Longrightarrow> lias_run (sweep_pass mo l)"
| lias_report: "lias_run l \<Longrightarrow> lias_run (l\<lparr>li_cache := upsert_device empties d (li_cache l)\<rparr>)"
| lias_removal: "lias_run l \<Longrightarrow> lias_run (l\<lparr>li_cache := remove_device p (li_cache l)\<rparr>)"
| lias_patch: "lias_run l \<Longrightarrow> lias_run (l\<lparr>li_cache := patch_device_online p on (li_cache l)\<rparr>)"
| lias_trigger: "lias_run l \<Longrightarrow> lias_run (l\<lparr>li_triggered := True\<rparr>)"
| lias_migration: "lias_run l \<Longrightarrow> lias_run (migrate_devices mo lk pk old new mms l)"
| lias_sync: "lias_run l \<Longrightarrow> lias_run (l\<lparr>li_triggered := False\<rparr>)"

end
