(* ===== verification/Lias_Users.thy ===== *)
theory Lias_Users
  imports Lias_Service Migration_Props
begin

text \<open>
  The users of the scheduler are kept twice, in the memory of the handlers and in the store. What every request,
  pass and migration does to both.
\<close>

subsection \<open>Users in memory and in the store\<close>

definition user_part :: "database \<Rightarrow> (string \<times> string) list \<times> (string \<times> string) list" where
  "user_part db = (tbl_users db, tbl_device_users db)"

definition users_of :: "lias \<Rightarrow> (string \<rightharpoonup> string) \<times> ((string \<times> string) list \<times> (string \<times> string) list) option" where
  "users_of l = (li_users l, map_option (user_part \<circ> snd) (li_store l))"

definition neutral :: "'a io \<Rightarrow> bool" where
  "neutral m \<longleftrightarrow> (\<forall>u. keeps (\<lambda>db. user_part db = u) m)"

named_theorems user_neutral "statements that leave the tables of users alone"

lemma neutral_rules [user_neutral]:
  "neutral m \<Longrightarrow> (\<And>x. neutral (f x)) \<Longrightarrow> neutral (bind_io m f)" "neutral k1 \<Longrightarrow> neutral k2 \<Longrightarrow> neutral (then_io k1 k2)"
  "neutral m \<Longrightarrow> neutral (transaction m)" "neutral (query sel)" "neutral (fail_io e)" "neutral (return_io x)"
  "(\<And>x s. neutral (body1 x s)) \<Longrightarrow> neutral (for_each body1 xs s)" "neutral m \<Longrightarrow> neutral (attempt d m)"
  unfolding neutral_def by (auto intro: db_inv)

lemma neutral_exec: "(\<And>db db'. stmt db = Inr db' \<Longrightarrow> user_part db' = user_part db) \<Longrightarrow> neutral (exec stmt)"
  unfolding neutral_def by (auto intro: keeps_exec)

lemma neutral_statements [user_neutral]:
  "neutral (exec (delete_device_tags p))" "neutral (exec (insert_device_tag p t mac))" "neutral (exec (upsert_policy_row pol))"
  "neutral (exec (delete_policy_row i))" "neutral (exec (upsert_tag_row tg))" "neutral (exec delete_temporary_schedules)"
  by (rule neutral_exec; auto simp: user_part_def delete_device_tags_def insert_device_tag_def upsert_policy_row_def
      delete_policy_row_def upsert_tag_row_def delete_temporary_schedules_def split: sum.splits)+

lemma neutral_operations [user_neutral]:
  "neutral (save_device_tags p ts mac)" "neutral (save_schedule s)" "neutral (save_policy pol)" "neutral (remove_schedule i)"
  "neutral (remove_policy i)" "neutral (save_device_override p name)" "neutral (save_tag tg)" "neutral (delete_tag_row i)"
  "neutral export_policies" "neutral (import_policies doc)" "neutral (load_hydrate now tags ps e)"
  "neutral load_device_overrides" "neutral load_user_assignments" "neutral list_users"
  unfolding save_device_tags_def save_policy_def remove_policy_def save_tag_def export_policies_def import_policies_def
    load_hydrate_def purge_expired_def load_device_overrides_def load_user_assignments_def list_users_def
    save_schedule_def remove_schedule_def save_device_override_def delete_tag_row_def
  by (auto simp: Let_def user_part_def split: option.split prod.split intro!: user_neutral neutral_exec)

text \<open>A migration moves assignments, but no user appears or disappears.\<close>

definition tenants :: "(string \<times> string) list \<Rightarrow> database \<Rightarrow> bool" where
  "tenants us db \<longleftrightarrow> tbl_users db = us \<and> user_tables_ok db"

lemma tenants_same: "user_part db' = user_part db \<Longrightarrow> tenants us db' = tenants us db"
  by (simp add: user_part_def tenants_def user_tables_ok_def)

lemma keeps_neutral: "neutral m \<Longrightarrow> keeps (tenants us) m"
  unfolding neutral_def keeps_def using tenants_same by blast

lemma update_values: "snd ` set (AList.update k v xs) \<subseteq> insert v (snd ` set xs)"
  by (induction xs) auto

lemma adopt_values: "snd ` set (adopt old new rows) \<subseteq> snd ` set rows"
proof (cases "map_of rows old")
  case (Some s)
  have in_rows: "v \<in> snd ` set rows" if "map_of rows k = Some v" for k v
    using map_of_SomeD [OF that] by force
  define v where "v = (case map_of rows new of Some t \<Rightarrow> if t \<noteq> [] then t else s | None \<Rightarrow> s)"
  have "v \<in> snd ` set rows" using in_rows Some by (auto simp: v_def split: option.split)
  moreover have "adopt old new rows = AList.update new v rows" by (simp add: adopt_def Some v_def)
  ultimately show ?thesis using update_values [of new v rows] by auto
qed (simp add: adopt_def)

lemma tenants_statements:
  "tenants us db \<Longrightarrow> adopt_user old new db = Inr db' \<Longrightarrow> tenants us db'"
  "tenants us db \<Longrightarrow> delete_device_user p db = Inr db' \<Longrightarrow> tenants us db'"
proof -
  have "distinct (map fst (adopt old new xs))" if "distinct (map fst xs)" for xs :: "(string \<times> string) list"
    using that by (auto simp: adopt_def distinct_update split: option.split)
  moreover have "snd ` set (adopt old new (tbl_device_users db)) \<subseteq> A" if "snd ` set (tbl_device_users db) \<subseteq> A" for A
    using adopt_values that by (rule order_trans)
  ultimately show "tenants us db \<Longrightarrow> adopt_user old new db = Inr db' \<Longrightarrow> tenants us db'"
    unfolding tenants_def user_tables_ok_def adopt_user_def by clarsimp
  have "snd ` set (AList.delete p (tbl_device_users db)) \<subseteq> A" if "snd ` set (tbl_device_users db) \<subseteq> A" for A
    using that by (auto simp: AList.delete_eq)
  then show "tenants us db \<Longrightarrow> delete_device_user p db = Inr db' \<Longrightarrow> tenants us db'"
    unfolding tenants_def user_tables_ok_def delete_device_user_def by (clarsimp simp: distinct_delete)
qed

lemma neutral_migration [user_neutral]:
  "neutral (exec (delete_policies i j))" "neutral (exec (insert_policy p))" "neutral (exec (move_flows old new))"
  "neutral (exec (compress_redirects old new))" "neutral (exec (upsert_redirect old new))"
  "neutral (exec (record_migration now old new))" "neutral (exec (record_conflict now old new c))"
  "neutral (exec (copy_device_tags old new))" "neutral (exec (adopt_override old new))" "neutral (exec (delete_override old))"
  by (rule neutral_exec; auto simp: user_part_def delete_policies_def insert_policy_def move_flows_def compress_redirects_def
      upsert_redirect_def record_migration_def record_conflict_def copy_device_tags_def adopt_override_def delete_override_def
      split: sum.splits if_splits)+

lemma keeps_tenants_migration: "keeps (tenants us) (migrate_identity_state now ks old new)"
proof -
  have pol: "neutral (migrate_policies_tx now ks old new)"
    unfolding migrate_policies_tx_def migrate_policy_def save_policy_tx_def
    by (auto simp: Let_def split: option.split prod.split intro!: user_neutral)
  have hist: "neutral (record_history now old new cs)" for cs
    unfolding record_history_def by (intro user_neutral)
  have load: "neutral (load_migration_state res)" for res
    unfolding load_migration_state_def by (auto simp: Let_def split: option.split intro!: user_neutral)
  have move: "keeps (tenants us) (move_metadata old new)"
    unfolding move_metadata_def
    by (intro db_inv keeps_exec [OF tenants_statements(1)] keeps_exec [OF tenants_statements(2)] keeps_neutral user_neutral)
  show ?thesis
    unfolding migrate_identity_state_def
    by (auto simp: split: option.split prod.split
        intro!: keeps_transaction keeps_bind keeps_then move keeps_neutral [OF pol] keeps_neutral [OF hist]
          keeps_neutral [OF load] keeps_query keeps_fail)
qed


subsection \<open>Every step keeps the users in step with the store\<close>

definition users_in_step :: "lias \<Rightarrow> bool" where
  "users_in_step l \<longleftrightarrow> (\<forall>n db. li_store l = Some (n, db) \<longrightarrow> li_users l = map_of (tbl_users db) \<and> user_tables_ok db)"

lemma user_part_same: "user_part db' = user_part db \<Longrightarrow> user_tables_ok db' = user_tables_ok db \<and> tbl_users db' = tbl_users db"
  by (simp add: user_part_def user_tables_ok_def)

lemma users_in_step_cong: "users_of l' = users_of l \<Longrightarrow> users_in_step l' = users_in_step l"
  unfolding users_in_step_def users_of_def by (cases "li_store l'"; cases "li_store l") (auto dest: user_part_same)

lemma users_of_fields [simp]:
  "users_of (l\<lparr>li_cache := c\<rparr>) = users_of l" "users_of (l\<lparr>li_tags := ts\<rparr>) = users_of l"
  "users_of (l\<lparr>li_policies := ps\<rparr>) = users_of l" "users_of (l\<lparr>li_schedules := e\<rparr>) = users_of l"
  "users_of (l\<lparr>li_triggered := b\<rparr>) = users_of l" "users_of (l\<lparr>li_sent := s\<rparr>) = users_of l"
  by (simp_all add: users_of_def)

lemma users_of_helpers [simp]:
  "users_of (try_trigger l) = users_of l" "users_of (tell_status k i l) = users_of l" "users_of (put_policy p l) = users_of l"
  "users_of (drop_policy i l) = users_of l" "users_of (put_schedule s l) = users_of l" "users_of (drop_schedule i l) = users_of l"
  "users_of (tell_expired i l) = users_of l"
  by (simp_all add: users_of_def try_trigger_def tell_status_def put_policy_def drop_policy_def put_schedule_def drop_schedule_def
      tell_expired_def)

lemma neutralD: "neutral m \<Longrightarrow> m out (n, db) = (r, n', db') \<Longrightarrow> user_part db' = user_part db"
  unfolding neutral_def by (erule allE, rule keepsD, assumption, rule refl)

lemma persist_users: "neutral m \<Longrightarrow> persist mo m l = (r, l') \<Longrightarrow> users_of l' = users_of l"
  by (auto simp: persist_def users_of_def split: option.splits prod.splits dest: neutralD)

lemma persist_quietly_users [simp]: "neutral m \<Longrightarrow> users_of (persist_quietly mo m l) = users_of l"
  unfolding persist_quietly_def using persist_users by (metis prod.collapse)

lemma users_of_loops [simp]:
  "users_of (delete_schedules mo is l) = users_of l" "users_of (forget_policies mo is l) = users_of l"
  by (induction "is" arbitrary: l) (simp_all add: user_neutral)

lemma store_change_users: "store_change mo m f good l = (r, l') \<Longrightarrow> neutral m \<Longrightarrow> users_of l' = users_of l"
  by (auto simp: store_change_def split: option.splits prod.splits dest: persist_users)

lemma run_bundle_users [simp]: "run_bundle mo ids l = (a, l') \<Longrightarrow> users_of l' = users_of l"
  by (auto simp: run_bundle_def split: prod.splits)

lemma users_of_fold [simp]: "users_of (fold put_policy ps l) = users_of l"
  by (induction ps arbitrary: l) simp_all

lemma other_handlers:
  "assign_device_tag mo p b l = (r, l') \<Longrightarrow> users_of l' = users_of l"
  "pause_device_internet mo p l = (r, l') \<Longrightarrow> users_of l' = users_of l"
  "unpause_device_internet mo p l = (r, l') \<Longrightarrow> users_of l' = users_of l"
  "grant_extension mo i nm ty k t b1 l = (r, l') \<Longrightarrow> users_of l' = users_of l"
  "cancel_extension mo i k t l = (r, l') \<Longrightarrow> users_of l' = users_of l"
  "toggle_vacation_mode mo b2 l = (r, l') \<Longrightarrow> users_of l' = users_of l"
  "rename_local_device mo p b3 l = (r, l') \<Longrightarrow> users_of l' = users_of l"
  by (auto simp: assign_device_tag_def pause_device_internet_def unpause_device_internet_def grant_extension_def
      cancel_extension_def toggle_vacation_mode_def rename_local_device_def Let_def user_neutral
      split: option.splits prod.splits sum.splits if_splits dest!: persist_users [rotated])

lemma configuration_handlers:
  "create_tag_handler mo b4 l = (r, l') \<Longrightarrow> users_of l' = users_of l"
  "update_tag_handler mo i b4 l = (r, l') \<Longrightarrow> users_of l' = users_of l"
  "delete_tag_handler mo i l = (r, l') \<Longrightarrow> users_of l' = users_of l"
  "accept_policy mo p good f l = (r, l') \<Longrightarrow> users_of l' = users_of l"
  "accept_schedule mo s good f l = (r, l') \<Longrightarrow> users_of l' = users_of l"
  "import_policies_handler mo b5 l = (r, l') \<Longrightarrow> users_of l' = users_of l"
  by (auto simp: create_tag_handler_def update_tag_handler_def delete_tag_handler_def accept_policy_def accept_schedule_def
      import_policies_handler_def Let_def user_neutral
      split: option.splits prod.splits sum.splits if_splits bundle_check.splits
      dest!: store_change_users persist_users [rotated])

lemma export_users: "export_policies_handler mo l = (r, l') \<Longrightarrow> users_of l' = users_of l"
  by (auto simp: export_policies_handler_def users_of_def split: option.splits prod.splits sum.splits
      dest!: neutralD [OF neutral_operations(9)])

lemma status_users: "device_effective_status mo d l = (st, l') \<Longrightarrow> users_of l' = users_of l"
  "tag_effective_status mo t l = (st, l') \<Longrightarrow> users_of l' = users_of l"
  by (auto simp: device_effective_status_def tag_effective_status_def ruled_status_def Let_def
      split: option.splits prod.splits if_splits)

lemma update_keys: "fst ` set (AList.update k v xs) = insert k (fst ` set xs)"
  by (induction xs) auto

lemma deleted_keys: "fst ` set (AList.delete k xs) = fst ` set xs - {k}"
  by (induction xs) auto

lemma tables_after_save: "user_tables_ok db \<Longrightarrow> user_tables_ok (db\<lparr>tbl_users := AList.update i nm (tbl_users db)\<rparr>)"
  by (simp add: user_tables_ok_def distinct_update update_keys subset_insertI2)

lemma tables_after_delete:
  assumes "user_tables_ok db" "assigned_to i db = []"
  shows "user_tables_ok (db\<lparr>tbl_users := AList.delete i (tbl_users db)\<rparr>)"
proof -
  have "i \<notin> snd ` set (tbl_device_users db)"
    using assms(2) by (auto simp: assigned_to_def filter_empty_conv)
  with assms(1) show ?thesis
    by (auto simp: user_tables_ok_def distinct_delete deleted_keys)
qed

lemma tables_after_assign:
  "user_tables_ok db \<Longrightarrow> u \<in> fst ` set (tbl_users db) \<Longrightarrow>
   user_tables_ok (db\<lparr>tbl_device_users := AList.update p u (tbl_device_users db)\<rparr>)"
  using update_values [of p u "tbl_device_users db"] by (auto simp: user_tables_ok_def distinct_update)

lemma tables_after_unassign:
  assumes "user_tables_ok db"
  shows "user_tables_ok (db\<lparr>tbl_device_users := AList.delete p (tbl_device_users db)\<rparr>)"
proof -
  have "snd ` set (AList.delete p (tbl_device_users db)) \<subseteq> snd ` set (tbl_device_users db)" by (auto simp: AList.delete_eq)
  with assms show ?thesis unfolding user_tables_ok_def by (auto simp: distinct_delete)
qed

text \<open>What the four statements on users do to the tables, whether or not the driver fails.\<close>

lemma user_statements:
  assumes "user_tables_ok db"
  shows "save_user i nm out (n, db) = (r, n', db') \<Longrightarrow>
      user_tables_ok db' \<and> map_of (tbl_users db') = (case r of Inl _ \<Rightarrow> map_of (tbl_users db) | Inr _ \<Rightarrow> (map_of (tbl_users db))(i \<mapsto> nm))"
    "delete_user_if_unassigned i out (n, db) = (r, n', db') \<Longrightarrow>
      user_tables_ok db' \<and> map_of (tbl_users db') = (case r of Inl _ \<Rightarrow> map_of (tbl_users db) | Inr _ \<Rightarrow> (map_of (tbl_users db))(i := None))"
    "assign_device_to_user p u out (n, db) = (r, n', db') \<Longrightarrow> user_tables_ok db' \<and> tbl_users db' = tbl_users db"
    "unassign_device_user p out (n, db) = (r, n', db') \<Longrightarrow> user_tables_ok db' \<and> tbl_users db' = tbl_users db"
proof -
  show "save_user i nm out (n, db) = (r, n', db') \<Longrightarrow>
      user_tables_ok db' \<and> map_of (tbl_users db') = (case r of Inl _ \<Rightarrow> map_of (tbl_users db) | Inr _ \<Rightarrow> (map_of (tbl_users db))(i \<mapsto> nm))"
    using assms tables_after_save by (auto simp: save_user_def exec_def update_conv' split: if_splits)
  show "delete_user_if_unassigned i out (n, db) = (r, n', db') \<Longrightarrow>
      user_tables_ok db' \<and> map_of (tbl_users db') = (case r of Inl _ \<Rightarrow> map_of (tbl_users db) | Inr _ \<Rightarrow> (map_of (tbl_users db))(i := None))"
    using assms tables_after_delete
    by (auto simp: delete_user_if_unassigned_def bind_io_def exec_counting_def query_def return_io_def fail_io_def
        delete_conv' split: if_splits)
  show "assign_device_to_user p u out (n, db) = (r, n', db') \<Longrightarrow> user_tables_ok db' \<and> tbl_users db' = tbl_users db"
    using assms tables_after_assign
    by (auto simp: assign_device_to_user_def bind_io_def exec_counting_def return_io_def fail_io_def split: if_splits)
  show "unassign_device_user p out (n, db) = (r, n', db') \<Longrightarrow> user_tables_ok db' \<and> tbl_users db' = tbl_users db"
    using assms tables_after_unassign by (auto simp: unassign_device_user_def exec_def split: if_splits)
qed

lemma user_handlers:
  assumes "users_in_step l"
  shows "create_user mo b l = (r, l') \<Longrightarrow> users_in_step l'" "update_user mo i b l = (r, l') \<Longrightarrow> users_in_step l'"
    "delete_user_handler mo i l = (r, l') \<Longrightarrow> users_in_step l'"
    "assign_device_user mo p b1 l = (r, l') \<Longrightarrow> users_in_step l'" "unassign_user mo p l = (r, l') \<Longrightarrow> users_in_step l'"
proof -
  have save: "users_in_step (case e of None \<Rightarrow> remember_user i nm l1 | Some _ \<Rightarrow> l1)"
    if "persist mo (save_user i nm) l = (e, l1)" for i nm e l1
    using that assms
    by (auto simp: persist_def users_in_step_def remember_user_def split: option.splits prod.splits sum.splits
        dest: user_statements(1) [rotated])
  show create: "create_user mo b l = (r, l') \<Longrightarrow> users_in_step l'"
    using assms save by (fastforce simp: create_user_def Let_def split: option.splits prod.splits if_splits)
  show "update_user mo i b l = (r, l') \<Longrightarrow> users_in_step l'"
    using assms save by (fastforce simp: update_user_def Let_def split: option.splits prod.splits if_splits)
  show "delete_user_handler mo i l = (r, l') \<Longrightarrow> users_in_step l'"
    using assms
    by (auto simp: delete_user_handler_def persist_def users_in_step_def split: option.splits prod.splits sum.splits if_splits
        dest: user_statements(2) [rotated])
  show un: "unassign_user mo p l = (r, l') \<Longrightarrow> users_in_step l'"
    using assms
    by (auto simp: unassign_user_def persist_def users_in_step_def show_user_def try_trigger_def
        split: option.splits prod.splits sum.splits if_splits dest: user_statements(4) [rotated])
  show "assign_device_user mo p b1 l = (r, l') \<Longrightarrow> users_in_step l'"
    using assms un
    by (auto simp: assign_device_user_def persist_def users_in_step_def show_user_def try_trigger_def
        split: option.splits prod.splits sum.splits if_splits dest: user_statements(3) [rotated])
qed

lemma wrapped_handlers:
  "create_policy mo b l = (r, l') \<Longrightarrow> users_of l' = users_of l" "update_policy mo i b l = (r, l') \<Longrightarrow> users_of l' = users_of l"
  "create_schedule mo b1 l = (r, l') \<Longrightarrow> users_of l' = users_of l" "update_schedule mo i b1 l = (r, l') \<Longrightarrow> users_of l' = users_of l"
  "extend_device_access mo p b2 l = (r, l') \<Longrightarrow> users_of l' = users_of l" "extend_tag_access mo t b2 l = (r, l') \<Longrightarrow> users_of l' = users_of l"
  "get_device_effective_status mo p l = (r, l') \<Longrightarrow> users_of l' = users_of l"
  "get_tag_effective_status mo t l = (r, l') \<Longrightarrow> users_of l' = users_of l"
  by (auto simp: create_policy_def update_policy_def create_schedule_def update_schedule_def extend_device_access_def
      extend_tag_access_def get_device_effective_status_def get_tag_effective_status_def Let_def
      split: option.splits prod.splits if_splits dest: configuration_handlers(4,5) other_handlers(4) status_users)

lemma requests_in_step:
  assumes "users_in_step l" "serve mo c l = (r, l')"
  shows "users_in_step l'"
proof (cases c)
  case (CreateUser b) with assms user_handlers(1) show ?thesis by simp
next
  case (UpdateUser i b) with assms user_handlers(2) show ?thesis by simp
next
  case (DeleteUser i) with assms user_handlers(3) show ?thesis by simp
next
  case (AssignDeviceUser p b) with assms user_handlers(4) show ?thesis by simp
next
  case (UnassignDeviceUser p)
  with assms user_handlers(5) show ?thesis by (auto simp: unassign_device_user_handler_def split: if_splits)
qed (use assms(2) in \<open>auto intro!: iffD2 [OF users_in_step_cong assms(1)] simp: cancel_device_extension_def
      cancel_tag_extension_def delete_policy_handler_def delete_schedule_handler_def user_neutral
      dest: wrapped_handlers other_handlers configuration_handlers export_users store_change_users\<close>)

lemma start_in_step:
  assumes "\<And>n db. st = Some (n, db) \<Longrightarrow> user_tables_ok db" "mo_out mo = healthy"
  shows "users_in_step (start_lias mo ks st)"
proof (cases st)
  case (Some s)
  obtain n db where s: "s = (n, db)" by (cases s)
  have ok: "user_tables_ok db" using assms(1) Some s by simp
  have kept: "user_part db2 = user_part db1" if "loaded out m dflt (n1, db1) = (x, n2, db2)" "neutral m" for out m dflt n1 db1 x n2 db2
    using that by (auto simp: loaded_def split: prod.splits sum.splits dest: neutralD)
  obtain h n1 db1 where l1: "loaded (mo_out mo) (load_hydrate (mo_now mo) new_manager new_policies new_engine)
      \<lparr>hy_tags = new_manager, hy_policies = new_policies, hy_engine = new_engine, hy_device_tags = Map.empty,
       hy_mac_tags = Map.empty\<rparr> s = (h, n1, db1)" by (metis prod_cases3)
  obtain ovr n2 db2 where l2: "loaded (mo_out mo) load_device_overrides Map.empty (n1, db1) = (ovr, n2, db2)" by (metis prod_cases3)
  obtain asg n3 db3 where l3: "loaded (mo_out mo) load_user_assignments Map.empty (n2, db2) = (asg, n3, db3)" by (metis prod_cases3)
  have same: "user_part db3 = user_part db"
    using kept [OF l1 [unfolded s]] kept [OF l2] kept [OF l3] by (simp add: user_neutral)
  then have ok3: "user_tables_ok db3" using ok user_part_same by blast
  have "map_of (sort_key (\<lambda>(i, name). (name, i)) (tbl_users db3)) = map_of (tbl_users db3)"
    using ok3 by (subst map_of_inject_set) (auto simp: user_tables_ok_def distinct_map)
  then show ?thesis using Some l1 l2 l3 ok3 assms(2)
    by (simp add: start_lias_def users_in_step_def new_handlers_def Let_def list_users_def query_def healthy_def)
qed (simp add: start_lias_def new_handlers_def users_in_step_def)

lemma migration_in_step:
  assumes "users_in_step l"
  shows "users_in_step (migrate_devices mo lk pk old new mms l)"
proof (cases "li_store l")
  case (Some s)
  obtain n db where s: "s = (n, db)" by (cases s)
  have "tenants (tbl_users db) db" using assms Some s by (simp add: users_in_step_def tenants_def)
  then have "tenants (tbl_users db) (snd (snd (migrate_identity_state (mo_now mo) (mo_policies mo) old new (mo_out mo) (0, db))))"
    using keeps_tenants_migration unfolding keeps_def by blast
  then show ?thesis using assms Some s
    by (auto simp: migrate_devices_def coordinate_def migrate_identity_def users_in_step_def tenants_def Let_def
        split: prod.splits sum.splits option.splits)
qed (auto simp: migrate_devices_def coordinate_def migrate_identity_def users_in_step_def split: prod.splits sum.splits option.splits)

lemma runs_in_step: "lias_run l \<Longrightarrow> users_in_step l"
proof (induction rule: lias_run.induct)
  case (lias_start st mo ks)
  then show ?case by (rule start_in_step)
next
  case (lias_request l mo c r l')
  then show ?case by (blast intro: requests_in_step)
next
  case (lias_sweep l mo)
  have "users_of (sweep_pass mo l) = users_of l" by (auto simp: sweep_pass_def Let_def split: prod.splits)
  then show ?case using users_in_step_cong lias_sweep.IH by blast
next
  case (lias_migration l mo lk pk old new mms)
  then show ?case by (blast intro: migration_in_step)
qed (simp_all add: users_in_step_def)


lemma started_store: "\<exists>s. li_store (start_lias noon (\<lambda>_. []) (Some (0, empty_database))) = Some s"
  by (auto simp: start_lias_def new_handlers_def Let_def split: prod.splits sum.splits)


end
