(* ===== verification/Lias_Access.thy ===== *)
theory Lias_Access
  imports Lias_Service
begin

text \<open>
  What the buttons of the dashboard do to the traffic: an extension opens the internet for a device and ends, a
  pause closes it for an hour, and the status shown is the verdict enforced. Each statement runs a handler and then
  the policy engine's decision on the state it leaves.
\<close>

subsection \<open>One policy above all others of a device\<close>

lemma top_policy_decides:
  assumes "orders_ok ps ord" "unruled ps d" "x \<in> device_policies ps d"
    and "\<And>q. q \<in> device_policies ps d \<Longrightarrow> q = x \<or> pol_priority q < pol_priority x"
  shows "evaluate_action ord ps (Some d) (Some evalb) s = run_decision evalb (of_policy x) s"
proof -
  have "top_of (device_policies ps d) (best_device_policy (ord 0) ps d)"
    by (rule best_device_policy_spec [OF orders_okD [OF assms(1)]])
  then obtain b where b: "best_device_policy (ord 0) ps d = Some b" "b \<in> device_policies ps d"
      "pol_priority x \<le> pol_priority b"
    using assms(3) by (cases "best_device_policy (ord 0) ps d") (auto simp: top_of_def)
  then have "b = x" using assms(4) [of b] by auto
  with b assms(2) show ?thesis by (simp add: evaluate_action_decision decision_of_def unruled_def)
qed

lemma policies_persist:
  "persist mo m l = (e, l') \<Longrightarrow> li_policies l' = li_policies l \<and> li_schedules l' = li_schedules l \<and> li_cache l' = li_cache l"
  by (auto simp: persist_def split: option.splits prod.splits)

lemma policies_quietly [simp]:
  "li_policies (persist_quietly mo m l) = li_policies l" "li_schedules (persist_quietly mo m l) = li_schedules l"
  "li_cache (persist_quietly mo m l) = li_cache l"
  by (simp_all add: persist_quietly_def persist_def split: option.split prod.split)

subsection \<open>Extension\<close>

lemma extension_granted:
  assumes "serve mo (ExtendDevice p b) l = (r, l')" "status r = 202"
  obtains minutes where "b = Some minutes" "1 \<le> minutes" "minutes \<le> 120" "\<not> global_blocks l"
    "r = Reply 202 (ExtendedBody (mo_now mo + minutes * minute) minutes)"
    "li_policies l' = (li_policies l)(device_extension_id p \<mapsto>
       extension_policy (device_extension_id p) ''Extended Access'' PolicyTypeDevice p (mo_now mo) minutes)"
proof -
  have "\<exists>minutes. b = Some minutes \<and> 1 \<le> minutes \<and> minutes \<le> 120 \<and> \<not> global_blocks l
      \<and> r = Reply 202 (ExtendedBody (mo_now mo + minutes * minute) minutes)
      \<and> li_policies l' = (li_policies l)(device_extension_id p \<mapsto>
       extension_policy (device_extension_id p) ''Extended Access'' PolicyTypeDevice p (mo_now mo) minutes)"
    using assms
    by (auto simp: extend_device_access_def grant_extension_def Let_def try_trigger_def tell_status_def put_policy_def
        upsert_policy_def extension_policy_def split: option.splits if_splits prod.splits dest: policies_persist)
  then show thesis using that by blast
qed

lemma global_not_extension: "device_extension_id p \<noteq> global_default" "pause_policy_id p \<noteq> global_default"
  by (simp_all add: device_extension_id_def pause_policy_id_def global_default_def)

lemma global_blocks_overriding: "global_blocks l = overriding (li_policies l) ActionBlock"
  by (auto simp: global_blocks_def overriding_def get_policy_def split: option.splits)

lemma sweep_policies: "li_policies (sweep_pass mo l) = fst (sweep_expired (mo_policies mo) (mo_now mo) (li_policies l))"
proof -
  have d: "li_policies (delete_schedules m is x) = li_policies x" for m "is" x
    by (induction m "is" x rule: delete_schedules.induct) (simp_all add: drop_schedule_def)
  have f: "li_policies (forget_policies m is x) = li_policies x" for m "is" x
    by (induction m "is" x rule: forget_policies.induct) (simp_all add: tell_expired_def tell_status_def)
  show ?thesis by (auto simp: sweep_pass_def Let_def d f split: prod.splits)
qed

lemma swept:
  assumes "range_order ps ks" "ps i = Some x" "expired now x"
  shows "fst (sweep_expired ks now ps) i = None"
proof -
  have "(i, x) \<in> set (range_entries ps ks)" using entries_iff [OF assms(1)] assms(2) by blast
  then show ?thesis using assms(3) sweep_step_fold [of now ps "[]" "[]" "range_entries ps ks"]
    by (auto simp: sweep_expired_def foldl_delete_entries)
qed

text \<open>C7: Granting an extension opens the internet: once the scheduler has accepted it the device is allowed, whatever
  its tags, their policies and the schedules say, unless another policy of the device itself has a priority as high;
  the reply names the minutes granted, and any sweep after two hours has removed it.\<close>

theorem extension_opens_and_ends:
  assumes "serve mo (ExtendDevice p b) l = (r, l')" "status r = 202"
    and "local_pdid d = p" "orders_ok (li_policies l') ord"
    and "\<And>i q. li_policies l i = Some q \<Longrightarrow> i \<noteq> device_extension_id p \<Longrightarrow> own_policy d q \<Longrightarrow> pol_priority q < 2000"
    and "range_order (li_policies l') (mo_policies mo')" "mo_now mo + 2 * hour < mo_now mo'"
  shows "evaluate_action ord (li_policies l') (Some d) (Some evalb) s = (ActionAllow, s)
     \<and> (\<exists>m. b = Some m \<and> r = Reply 202 (ExtendedBody (mo_now mo + m * minute) m))
     \<and> li_policies (sweep_pass mo' l') (device_extension_id p) = None"
proof -
  obtain m where m: "b = Some m" "m \<le> 120" "\<not> global_blocks l" "r = Reply 202 (ExtendedBody (mo_now mo + m * minute) m)"
      and pol: "li_policies l' = (li_policies l)(device_extension_id p \<mapsto>
        extension_policy (device_extension_id p) ''Extended Access'' PolicyTypeDevice p (mo_now mo) m)"
    using extension_granted [OF assms(1,2)] by metis
  define x where "x = extension_policy (device_extension_id p) ''Extended Access'' PolicyTypeDevice p (mo_now mo) m"
  have x: "own_policy d x" "of_policy x = Fixed ActionAllow" "pol_priority x = 2000" "pol_expires_at x = Some (mo_now mo + m * minute)"
    using assms(3) by (simp_all add: x_def extension_policy_def own_policy_def of_policy_def)
  have nb: "\<not> overriding (li_policies l') ActionBlock"
    using m(3) global_not_extension(1) [of p] unfolding global_blocks_overriding by (auto simp: overriding_def pol)
  have allow: "evaluate_action ord (li_policies l') (Some d) (Some evalb) s = (ActionAllow, s)"
  proof (cases "unruled (li_policies l') d")
    case True
    have mem: "x \<in> device_policies (li_policies l') d" using x(1) by (auto simp: device_policies_def own_policy_def pol x_def ran_def)
    have top: "q = x \<or> pol_priority q < pol_priority x" if "q \<in> device_policies (li_policies l') d" for q
      using that assms(5) x(3) by (auto simp: device_policies_def own_policy_def pol x_def ran_def split: if_splits)
    show ?thesis using top_policy_decides [OF assms(4) True mem top] x(2) by (simp add: run_decision_def)
  next
    case False
    then show ?thesis using nb by (auto simp: unruled_def evaluate_action_decision decision_of_def run_decision_def)
  qed
  have "m * minute \<le> 120 * minute" using m(2) by (simp add: duration_defs)
  then have "expired (mo_now mo') x" using assms(7) x(4) by (simp add: expired_def duration_defs)
  then have "li_policies (sweep_pass mo' l') (device_extension_id p) = None"
    unfolding sweep_policies using swept [OF assms(6)] by (simp add: pol x_def)
  with allow m show ?thesis by blast
qed

definition evening :: moment where "evening = noon\<lparr>mo_now := mo_now noon + 9 * hour, mo_policies := [global_default, ''pol_extend_device_p1'']\<rparr>"

theorem extension_opens_and_ends_witness:
  "\<exists>l'. fst (evaluate_action (\<lambda>_. [global_default, ''pol_extend_device_p1'']) (li_policies l') (Some lamp_device)
        (Some (\<lambda>ids u. (ActionBlock, ()))) ()) = ActionAllow
     \<and> li_policies (sweep_pass evening l') ''pol_extend_device_p1'' = None"
proof -
  obtain r l' where run: "serve noon (ExtendDevice ''p1'' (Some 30)) house = (r, l')" by fastforce
  have st: "status r = 202"
    using run by (auto simp: extend_device_access_def cache_get_def house_fields lamp_device_def grant_extension_def
        global_blocks_def get_policy_def new_policies_def global_default_def persist_def save_policy_def exec_def
        upsert_policy_row_def empty_database_def Let_def noon_def healthy_def put_policy_def split: prod.splits sum.splits)
  have pol: "li_policies l' = new_policies(''pol_extend_device_p1'' \<mapsto>
      extension_policy ''pol_extend_device_p1'' ''Extended Access'' PolicyTypeDevice ''p1'' (mo_now noon) 30)"
    using extension_granted [OF run st] by (simp add: device_extension_id_def house_fields)
  have ord: "orders_ok (li_policies l') (\<lambda>_. [global_default, ''pol_extend_device_p1''])"
    by (auto simp: pol orders_ok_def range_order_def new_policies_def global_default_def)
  have "evaluate_action (\<lambda>_. [global_default, ''pol_extend_device_p1'']) (li_policies l') (Some lamp_device)
        (Some (\<lambda>ids u. (ActionBlock, ()))) () = (ActionAllow, ())
     \<and> (\<exists>m. Some 30 = Some m \<and> r = Reply 202 (ExtendedBody (mo_now noon + m * minute) m))
     \<and> li_policies (sweep_pass evening l') (device_extension_id ''p1'') = None"
    by (rule extension_opens_and_ends [OF run st _ ord])
      (use ord in \<open>auto simp: lamp_device_def local_pdid_def house_fields new_policies_def own_policy_def evening_def orders_ok_def duration_defs
        split: if_splits\<close>)
  then show ?thesis by (intro exI [of _ l']) (simp add: device_extension_id_def)
qed

subsection \<open>Pause\<close>

lemma clock_digit: "k < 10 \<Longrightarrow> is_digit (digit_char k) \<and> digit_val (digit_char k) = int k"
  by (simp add: digit_char_facts digit_val_def)

lemma two_digits_chars:
  assumes "0 \<le> n" "n < 100"
  shows "two_digits n = [digit_char (nat n div 10), digit_char (nat n mod 10)]"
proof (cases "n < 10")
  case True
  then have "nat n < 10" "nat n div 10 = 0" by simp_all
  moreover have "CHR ''0'' = digit_char 0" by code_simp
  ultimately show ?thesis using assms True by (simp add: two_digits_def decimal_nat.simps [of "nat n"])
next
  case False
  then have "\<not> nat n < 10" "nat n div 10 < 10" using assms by (simp_all add: less_mult_imp_div_less nat_less_iff)
  then show ?thesis using False by (simp add: two_digits_def decimal_nat.simps [of "nat n"] decimal_nat.simps [of "nat n div 10"])
qed

lemma getnum_two_digits:
  assumes "0 \<le> n" "n < 100"
  shows "getnum fixed (two_digits n @ rest) = Some (n, rest)"
proof -
  have "nat n div 10 < 10" using assms by (simp add: less_mult_imp_div_less nat_less_iff)
  moreover have "int (nat n div 10) * 10 + int (nat n mod 10) = n" using assms by (simp add: zdiv_int zmod_int)
  ultimately show ?thesis
    using assms clock_digit [of "nat n div 10"] clock_digit [of "nat n mod 10"] by (simp add: two_digits_chars)
qed

lemma parse_clock:
  "0 \<le> h \<Longrightarrow> h < 24 \<Longrightarrow> 0 \<le> m \<Longrightarrow> m < 60 \<Longrightarrow> parse_hhmm (two_digits h @ '':'' @ two_digits m) = Some (h, m)"
  using getnum_two_digits [of h False "'':'' @ two_digits m"] getnum_two_digits [of m True "[]"] by (simp add: parse_hhmm_def)

lemma parse_clock_text: "\<exists>h m. parse_hhmm (clock_text t) = Some (h, m) \<and> h * 60 + m = t div minute mod 1440"
proof -
  define M where "M = t div minute mod 1440"
  have "0 \<le> M" "M < 1440" by (simp_all add: M_def)
  then have "0 \<le> M div 60" "M div 60 < 24" "0 \<le> M mod 60" "M mod 60 < 60" by simp_all
  then have "parse_hhmm (clock_text t) = Some (M div 60, M mod 60)"
    unfolding clock_text_def Let_def M_def [symmetric] by (rule parse_clock)
  moreover have "M div 60 * 60 + M mod 60 = M" by simp
  ultimately show ?thesis unfolding M_def by blast
qed

lemma day_map_all: "0 \<le> wd \<Longrightarrow> wd < 7 \<Longrightarrow> \<exists>d \<in> set all_days. day_map (to_lower (trim_space d)) = Some wd"
proof -
  assume "0 \<le> wd" "wd < 7"
  then have "wd \<in> {0, 1, 2, 3, 4, 5, 6}" by auto
  moreover have "map (\<lambda>d. day_map (to_lower (trim_space d))) all_days = map Some [0, 1, 2, 3, 4, 5, 6]" by code_simp
  ultimately show ?thesis unfolding all_days_def by auto
qed

lemma week_minute_utc: "week_minute 0 t = (t div minute + 5760) mod 10080"
proof -
  define M where "M = t div minute"
  have M: "t div second div 60 = M" by (simp add: M_def minute_def zdiv_zmult2_eq mult.commute)
  have d: "t div second div 86400 = M div 1440" using zdiv_zmult2_eq [of 1440 "t div second" 60] by (simp add: M [symmetric])
  have s: "t div second mod 86400 div 60 = M mod 1440"
    using zmod_zmult2_eq [of 1440 "t div second" 60] by (simp add: M [symmetric])
  have "week_minute 0 t = (M div 1440 + 4) mod 7 * 1440 + M mod 1440"
    by (simp add: week_minute_def local_weekday_def local_day_def local_sec_fixed weekday_of_day_def d s)
  also have "\<dots> = (M + 5760) mod 10080"
  proof -
    have "(M + 5760) mod (1440 * 7) = 1440 * ((M + 5760) div 1440 mod 7) + (M + 5760) mod 1440"
      by (rule zmod_zmult2_eq) simp
    moreover have "(M + 5760) div 1440 = M div 1440 + 4" "(M + 5760) mod 1440 = M mod 1440"
      using div_mult_self1 [of 1440 M 4] mod_mult_self1 [of M 4 1440] by simp_all
    ultimately show ?thesis by simp
  qed
  finally show ?thesis by (simp add: M_def)
qed

definition pause_rule :: "time \<Rightarrow> schedule_rule" where
  "pause_rule now = hd (sched_rules (pause_schedule [] now))"

lemma pause_schedule_rules: "sched_rules (pause_schedule sid now) = [pause_rule now]"
  by (simp add: pause_rule_def pause_schedule_def)

lemma pause_rule_minutes:
  "rule_minutes (pause_rule now) = Some (now div minute mod 1440, (now div minute + 60) mod 1440)"
proof -
  have h: "(now + 1 * hour) div minute = now div minute + 60"
    using div_mult_self1 [of minute now 60] by (simp add: hour_def minute_def second_def)
  obtain a b c d where "parse_hhmm (clock_text now) = Some (a, b)" "a * 60 + b = now div minute mod 1440"
      "parse_hhmm (clock_text (now + 1 * hour)) = Some (c, d)" "c * 60 + d = (now div minute + 60) mod 1440"
    using parse_clock_text [of now] parse_clock_text [of "now + 1 * hour"] unfolding h by blast
  then show ?thesis by (simp add: rule_minutes_def pause_rule_def pause_schedule_def)
qed

lemma pause_rule_active:
  assumes "0 \<le> t div minute - now div minute" "t div minute - now div minute < 60"
  shows "rule_active (pause_rule now) (week_minute 0 t)"
proof -
  define M where "M = now div minute"
  let ?wd = "local_weekday (fixed_zone 0) now"
  have wd: "0 \<le> ?wd" "?wd < 7" by (rule week_minute_parts)+
  have day: "t div second div 60 = t div minute" for t by (simp add: minute_def zdiv_zmult2_eq mult.commute)
  have "local_sec (fixed_zone 0) now mod 86400 div 60 = M mod 1440"
    using zmod_zmult2_eq [of 1440 "now div second" 60] by (simp add: local_sec_fixed day M_def)
  then have start: "?wd * 1440 + M mod 1440 = (M + 5760) mod 10080"
    using week_minute_utc [of now] by (simp add: week_minute_def M_def)
  have "(week_minute 0 t - (?wd * 1440 + M mod 1440)) mod 10080 = (t div minute - M) mod 10080"
    unfolding start week_minute_utc mod_diff_eq by simp
  also have "\<dots> = t div minute - M" using assms by (intro mod_pos_pos_trivial) (simp_all add: M_def)
  finally have dist: "(week_minute 0 t - (?wd * 1440 + M mod 1440)) mod 10080 < 60" using assms by (simp add: M_def)
  have "((M + 60) mod 1440 - M mod 1440) mod 1440 = 60 mod 1440" unfolding mod_diff_eq by simp
  then have len: "60 \<le> window_minutes (pause_rule now) (M mod 1440) ((M + 60) mod 1440)"
    by (simp add: window_minutes_def)
  obtain d where "d \<in> set all_days" "day_map (to_lower (trim_space d)) = Some ?wd" using day_map_all [OF wd] by blast
  then have "matches_day (pause_rule now) ?wd" by (auto simp: matches_day_def pause_rule_def pause_schedule_def)
  then show ?thesis unfolding rule_active_def pause_rule_minutes option.case prod.case
    using wd dist len by (intro bexI [of _ ?wd]) (auto simp: M_def)
qed

lemma pause_schedule_blocks:
  assumes "sane 0 t" "0 \<le> t div minute - now div minute" "t div minute - now div minute < 60"
  shows "verdict tzdb t (compose_schedules [pause_schedule sid now]) = ActionBlock"
proof -
  let ?s = "compose_schedules [pause_schedule sid now]"
  have r: "sched_rules ?s = [pause_rule now]" by (simp add: compose_schedules_def pause_schedule_rules)
  have z: "eval_location tzdb ?s = fixed_zone 0"
    by (simp add: eval_location_def compose_schedules_def pause_schedule_def load_location_def utc_fixed_zone)
  have w: "weekly ?s" by (simp add: weekly_def r) (simp add: has_dates_def pause_rule_def pause_schedule_def)
  have a: "rule_action (pause_rule now) = ActionBlock" by (simp add: pause_rule_def pause_schedule_def)
  show ?thesis
    unfolding verdict_def evaluate_weekly_rules [OF assms(1) z w] r using pause_rule_active [OF assms(2,3)] a by simp
qed

lemma pause_schedule_merges: "snd (snd (merge_schedules [pause_schedule sid now])) = None"
proof -
  have "times_parse (pause_rule now)"
    using pause_rule_minutes [of now] by (auto simp: rule_minutes_def times_parse_def split: option.splits)
  then have "bundle_consistent [pause_schedule sid now]"
    by (simp add: bundle_consistent_def agree_at_def pause_schedule_rules)
  then show ?thesis using merge_error_consistent [of "[pause_schedule sid now]"] by (simp add: ids_unique_def)
qed

lemma join_plain: "CHR ''+'' \<notin> set (join ''+'' xs) \<Longrightarrow> xs \<noteq> [] \<Longrightarrow> xs = [join ''+'' xs]"
  by (induction "''+''" xs rule: join.induct) auto

lemma bundle_of_one:
  assumes "bundle_key ids = bundle_key [sid]" "ids \<noteq> []" "CHR ''+'' \<notin> set sid"
  shows "ids = [sid]"
proof -
  have k: "join ''+'' (sort ids) = sid" using assms(1) by (simp add: bundle_key_def)
  then have "sort ids = [sid]" using join_plain [of "sort ids"] assms(2,3) by simp
  then have "length ids = 1" "set ids = {sid}" by (metis length_sort One_nat_def length_Cons list.size(3), metis set_sort list.set(1,2))
  then show ?thesis by (cases ids) auto
qed

lemma hex_no_plus: "CHR ''+'' \<notin> set (hex_string bs)"
proof -
  have "digit_char k \<noteq> CHR ''+''" if "k < 16" for k
  proof
    assume "digit_char k = CHR ''+''"
    then have "hex_val (digit_char k) = hex_val (CHR ''+'')" by simp
    moreover have "hex_val (CHR ''+'') = None" by code_simp
    ultimately show False using hex_val_digit_char [OF that] by simp
  qed
  note plain = this [symmetric]
  have "unat w div 16 < 16" for w :: u8 using unsigned_less [of w, where ?'a = nat] by (simp add: less_mult_imp_div_less)
  then show ?thesis using plain by (induction bs) (auto simp: hex_string_def hex_byte_def)
qed

lemma paused_bundle_blocks:
  assumes "engine_ok e" "sid = ''sched_pause_'' @ hex_string bs"
    and "sane 0 t" "0 \<le> t div minute - now div minute" "t div minute - now div minute < 60"
  shows "fst (evaluate_bundle tzdb t [sid] (upsert_schedule (pause_schedule sid now) e)) = ActionBlock"
proof -
  let ?s = "pause_schedule sid now"
  let ?e = "upsert_schedule ?s e"
  have s: "eng_schedules ?e sid = Some ?s" by (simp add: upsert_schedule_def) (simp add: pause_schedule_def)
  note v = pause_schedule_blocks [OF assms(3-5), of tzdb sid]
  show ?thesis
  proof (cases "eng_merged ?e (bundle_key [sid])")
    case None
    then have "fst (evaluate_bundle tzdb t [sid] ?e) = bundle_spec tzdb t (eng_schedules ?e) [sid]"
      by (intro evaluate_bundle_uncached) simp_all
    then show ?thesis using s v pause_schedule_merges [of sid now] by (simp add: bundle_spec_def)
  next
    case (Some m)
    then obtain ids where c: "cached_from ?e (bundle_key [sid]) m ids"
      using engine_okD(2) [OF engine_ok_upsert [OF assms(1)]] by blast
    have "CHR ''+'' \<notin> set sid" using hex_no_plus [of bs] assms(2) by simp
    then have "ids = [sid]" using c bundle_of_one unfolding cached_from_def by blast
    then have "merge_schedules [?s] = (m, [], None)" using c s by (auto simp: cached_from_def)
    then have "m = compose_schedules [?s]" by (intro merge_result(1)) simp_all
    then show ?thesis using Some v by (simp add: evaluate_bundle_def)
  qed
qed

lemma paused:
  assumes "serve mo (PauseDevice p) l = (r, l')" "status r = 202"
  defines "sid \<equiv> ''sched_pause_'' @ hex_string (mo_random mo)"
  shows "li_policies l' = (li_policies l)(pause_policy_id p \<mapsto> pause_policy_for p sid (mo_now mo))"
    "li_schedules l' = upsert_schedule (pause_schedule sid (mo_now mo)) (li_schedules l)"
    "li_sent l' = li_sent l @ [(''device'', p)]" "li_triggered l'"
proof -
  have sent: "li_sent (persist_quietly mo m x) = li_sent x" for m x
    by (simp add: persist_quietly_def persist_def split: option.split prod.split)
  show "li_policies l' = (li_policies l)(pause_policy_id p \<mapsto> pause_policy_for p sid (mo_now mo))"
    "li_schedules l' = upsert_schedule (pause_schedule sid (mo_now mo)) (li_schedules l)"
    "li_sent l' = li_sent l @ [(''device'', p)]" "li_triggered l'"
    using assms
    by (auto simp: pause_device_internet_def Let_def generate_id_def try_trigger_def tell_status_def put_policy_def
        put_schedule_def upsert_policy_def pause_policy_for_def sent split: option.splits if_splits)
qed



subsection \<open>The status shown\<close>

lemma last_policy_snoc: "last_policy P (ps @ [p]) = (if P p then Some p else last_policy P ps)"
  by (simp add: last_policy_def)

lemma last_policy_spec: "case last_policy P ps of None \<Rightarrow> \<forall>p \<in> set ps. \<not> P p | Some x \<Rightarrow> x \<in> set ps \<and> P x"
proof (induction ps rule: rev_induct)
  case (snoc p ps)
  then show ?case by (auto simp: last_policy_snoc split: option.splits)
qed (simp add: last_policy_def)

lemma enabled_global_overriding: "enabled_global l = Some a \<longleftrightarrow> overriding (li_policies l) a"
  by (auto simp: enabled_global_def overriding_def get_policy_def split: option.splits)

definition temporary_policies_ok :: "string \<Rightarrow> policies \<Rightarrow> local_device \<Rightarrow> bool" where
  "temporary_policies_ok p ps d \<longleftrightarrow> (\<forall>i q. ps i = Some q \<longrightarrow> pol_id q = i) \<and>
     (\<forall>x. ps (pause_policy_id p) = Some x \<longrightarrow> \<not> own_policy d x) \<and>
     (\<forall>x. ps (device_extension_id p) = Some x \<longrightarrow> own_policy d x \<longrightarrow> pol_action x = ActionAllow \<and>
        (\<forall>i q. ps i = Some q \<longrightarrow> i \<noteq> device_extension_id p \<longrightarrow> own_policy d q \<longrightarrow> pol_priority q < pol_priority x))"

lemma ruled_status_action:
  assumes "''infrastructure'' \<in> set (local_tags d) \<longleftrightarrow> local_has_tag d ''infrastructure''"
    and "\<forall>g. li_policies l global_default = Some g \<longrightarrow> pol_enabled g" "ruled_status mo d l = (st, l1)"
  shows "es_action st = fst (evaluate_action (mo_orders mo) (li_policies l) (Some d)
      (Some (evaluate_bundle (mo_tzdb mo) (mo_now mo))) (li_schedules l)) \<and> (es_extend st \<longleftrightarrow> es_action st = ActionBlock)"
proof -
  have "of_policy (get_effective_policy (mo_orders mo) (li_policies l) (Some d)) = decision_of (mo_orders mo) (li_policies l) d"
    by (rule effective_decision) (use assms(1,2) in blast)+
  then show ?thesis using assms(3)
    unfolding evaluate_action_decision
    by (auto simp: ruled_status_def Let_def run_bundle_def no_status_def run_decision_def of_policy_def
        split: prod.splits if_splits dest!: sym [of "Bundle _"] sym [of "Fixed _"])
qed

text \<open>C27: The status the dashboard shows for a device is the verdict enforced on it at that moment, and an extension is
  offered exactly when the device is blocked by something an extension can lift: provided its two copies of tags agree,
  the global switch is not disabled, no pause is active and a running extension is the highest policy of the device.\<close>

theorem status_shown_is_enforced:
  assumes "device_effective_status mo d l = (st, l1)"
    and "''infrastructure'' \<in> set (local_tags d) \<longleftrightarrow> local_has_tag d ''infrastructure''"
    and "\<forall>g. li_policies l global_default = Some g \<longrightarrow> pol_enabled g"
    and "temporary_policies_ok (local_pdid d) (li_policies l) d"
    and "orders_ok (li_policies l) (mo_orders mo)" "range_order (li_policies l) (mo_policies mo)"
  shows "es_action st = fst (evaluate_action (mo_orders mo) (li_policies l) (Some d)
      (Some (evaluate_bundle (mo_tzdb mo) (mo_now mo))) (li_schedules l))
    \<and> (es_extend st \<longleftrightarrow> es_action st = ActionBlock \<and> \<not> global_blocks l)"
proof (cases "unruled (li_policies l) d")
  case False
  then show ?thesis using assms(1)
    by (auto simp: device_effective_status_def enabled_global_overriding unruled_def evaluate_action_decision decision_of_def
        run_decision_def no_status_def global_blocks_overriding split: if_splits)
next
  case True
  let ?p = "local_pdid d"
  define mine where "mine = filter (\<lambda>q. pol_enabled q \<and> pol_target q = ?p \<and> pol_type q = PolicyTypeDevice)
      (list_policies (mo_policies mo) (li_policies l))"
  have known: "own_policy d q \<and> li_policies l (pol_id q) = Some q" if "q \<in> set mine" for q
    using that assms(4,6) by (auto simp: mine_def own_policy_def list_policies_def range_order_values ran_def temporary_policies_ok_def)
  have st: "(st, l1) = (case last_policy (\<lambda>q. pol_id q = device_extension_id ?p) mine of
      Some x \<Rightarrow> (no_status\<lparr>es_action := ActionAllow, es_source := SourceDevicePolicy, es_extension := countdown (mo_now mo) x\<rparr>, l)
    | None \<Rightarrow> (case last_policy (\<lambda>q. pol_id q = pause_policy_id ?p) mine of
        Some x \<Rightarrow> (no_status\<lparr>es_action := ActionBlock, es_source := SourceDevicePolicy, es_extend := True,
          es_extension := countdown (mo_now mo) x\<rparr>, l)
      | None \<Rightarrow> ruled_status mo d l))"
    using assms(1) True
    by (simp add: device_effective_status_def enabled_global_overriding unruled_def mine_def Let_def split: option.splits)
  have free: "\<not> global_blocks l" using True by (simp add: unruled_def global_blocks_overriding)
  show ?thesis
  proof (cases "last_policy (\<lambda>q. pol_id q = device_extension_id ?p) mine")
    case (Some x)
    then have "x \<in> set mine" and i: "pol_id x = device_extension_id ?p"
      using last_policy_spec [where P = "\<lambda>q. pol_id q = device_extension_id ?p" and ps = mine] by auto
    then have own: "own_policy d x" "li_policies l (device_extension_id ?p) = Some x" using known [of x] by auto
    then have mem: "x \<in> device_policies (li_policies l) d" by (auto simp: device_policies_def own_policy_def ran_def)
    have allow: "pol_action x = ActionAllow"
      and high: "\<And>i q. li_policies l i = Some q \<Longrightarrow> i \<noteq> device_extension_id ?p \<Longrightarrow> own_policy d q \<Longrightarrow> pol_priority q < pol_priority x"
      using assms(4) own unfolding temporary_policies_ok_def by blast+
    have top: "q = x \<or> pol_priority q < pol_priority x" if mine: "q \<in> device_policies (li_policies l) d" for q
    proof -
      obtain i where "li_policies l i = Some q" "own_policy d q" using mine by (auto simp: device_policies_def own_policy_def ran_def)
      then show ?thesis using high [of i q] own(2) by (cases "i = device_extension_id ?p") auto
    qed
    show ?thesis
      using st Some free allow
        top_policy_decides [OF assms(5) True mem top, where evalb = "evaluate_bundle (mo_tzdb mo) (mo_now mo)"]
      by (simp add: no_status_def run_decision_def of_policy_def)
  next
    case None
    have "pol_id q \<noteq> pause_policy_id ?p" if "q \<in> set mine" for q
      using known [OF that] assms(4) unfolding temporary_policies_ok_def by metis
    then have "last_policy (\<lambda>q. pol_id q = pause_policy_id ?p) mine = None"
      using last_policy_spec [where P = "\<lambda>q. pol_id q = pause_policy_id ?p" and ps = mine] by (auto split: option.splits)
    then have "ruled_status mo d l = (st, l1)" using st None by simp
    from ruled_status_action [OF assms(2,3) this] free show ?thesis by simp
  qed
qed

theorem status_shown_is_enforced_witness:
  "es_action (fst (device_effective_status (noon\<lparr>mo_orders := \<lambda>_. [global_default]\<rparr>) lamp_device house)) = ActionAllow"
proof -
  let ?mo = "noon\<lparr>mo_orders := \<lambda>_. [global_default]\<rparr>"
  obtain st l1 where run: "device_effective_status ?mo lamp_device house = (st, l1)" by fastforce
  have ord: "orders_ok (li_policies house) (\<lambda>_. [global_default])" "range_order (li_policies house) [global_default]"
    by (auto simp: house_fields orders_ok_def range_order_def new_policies_def)
  have "es_action st = fst (evaluate_action (mo_orders ?mo) (li_policies house) (Some lamp_device)
      (Some (evaluate_bundle (mo_tzdb ?mo) (mo_now ?mo))) (li_schedules house))
    \<and> (es_extend st \<longleftrightarrow> es_action st = ActionBlock \<and> \<not> global_blocks house)"
    by (rule status_shown_is_enforced [OF run])
      (use ord in \<open>auto simp: house_fields lamp_device_def local_has_tag_def has_tag_def new_policies_def temporary_policies_ok_def
        noon_def empty_device_def empty_policy_def own_policy_def split: if_splits\<close>)
  then have "es_action st = ActionAllow"
    using schedules.initially_open [OF ord(1) [unfolded house_fields]] by (simp add: house_fields)
  with run show ?thesis by simp
qed

subsection \<open>Accepted schedules\<close>

definition well_formed_schedule :: "tzdb \<Rightarrow> schedule \<Rightarrow> bool" where
  "well_formed_schedule tz s \<longleftrightarrow> sched_mode s \<noteq> ScheduleModeOther [] \<and> is_supported_timezone tz (sched_timezone s)
     \<and> (\<forall>rl \<in> set (sched_rules s). rule_problem rl = None) \<and> bundle_consistent [s]"

definition schedules_fine :: "tzdb \<Rightarrow> lias \<Rightarrow> bool" where
  "schedules_fine tz l \<longleftrightarrow> (\<forall>i s. eng_schedules (li_schedules l) i = Some s \<longrightarrow> well_formed_schedule tz s)"

lemma validated: "validate_schedule_rules k rs = None \<Longrightarrow> \<forall>rl \<in> set rs. rule_problem rl = None"
  by (induction k rs rule: validate_schedule_rules.induct) (auto split: option.splits)

lemma fine_fields [simp]:
  "schedules_fine tz (l\<lparr>li_cache := c\<rparr>) = schedules_fine tz l" "schedules_fine tz (l\<lparr>li_tags := ts\<rparr>) = schedules_fine tz l"
  "schedules_fine tz (l\<lparr>li_store := st\<rparr>) = schedules_fine tz l" "schedules_fine tz (l\<lparr>li_users := u\<rparr>) = schedules_fine tz l"
  "schedules_fine tz (try_trigger l) = schedules_fine tz l" "schedules_fine tz (tell_status k t l) = schedules_fine tz l"
  "schedules_fine tz (put_policy p l) = schedules_fine tz l" "schedules_fine tz (drop_policy j l) = schedules_fine tz l"
  "schedules_fine tz (persist_quietly mo m l) = schedules_fine tz l"
  "schedules_fine tz (remember_user i n l) = schedules_fine tz l" "schedules_fine tz (show_user i n l) = schedules_fine tz l"
  by (simp_all add: schedules_fine_def try_trigger_def tell_status_def put_policy_def drop_policy_def remember_user_def show_user_def)

lemma fine_fold [simp]: "schedules_fine tz (fold put_policy ps l) = schedules_fine tz l"
  by (induction ps arbitrary: l) simp_all

lemma fine_persist: "persist mo m l = (e, l') \<Longrightarrow> schedules_fine tz l' = schedules_fine tz l"
  using policies_persist [of mo m l e l'] by (simp add: schedules_fine_def)

lemma fine_drop [simp]: "schedules_fine tz l \<Longrightarrow> schedules_fine tz (drop_schedule i l)"
  by (simp add: schedules_fine_def drop_schedule_def delete_schedule_def)

lemma fine_deletes: "schedules_fine tz l \<Longrightarrow> schedules_fine tz (delete_schedules mo is l)"
  by (induction mo "is" l rule: delete_schedules.induct) simp_all

lemma fine_put: "schedules_fine tz l \<Longrightarrow> well_formed_schedule tz s \<Longrightarrow> schedules_fine tz (put_schedule s l)"
  by (simp add: schedules_fine_def put_schedule_def upsert_schedule_def)

lemma fine_bundle: "run_bundle mo ids l = (a, l') \<Longrightarrow> schedules_fine tz l' = schedules_fine tz l"
  using schedules_evaluate_bundle [of "mo_tzdb mo" "mo_now mo" ids "li_schedules l"]
  by (cases "evaluate_bundle (mo_tzdb mo) (mo_now mo) ids (li_schedules l)") (auto simp: run_bundle_def schedules_fine_def)

lemma fine_store_change: "store_change mo m f good l = (r, l') \<Longrightarrow> schedules_fine tz l' = schedules_fine tz l"
  using fine_persist [of mo m l "fst (persist mo m l)" "snd (persist mo m l)" tz]
  by (cases "persist mo m l") (auto simp: store_change_def split: option.splits)

lemma pause_well_formed: "well_formed_schedule tz (pause_schedule sid now)"
proof -
  obtain h m where a: "parse_hhmm (clock_text now) = Some (h, m)" "h * 60 + m = now div minute mod 1440"
    using parse_clock_text by blast
  have "(now + 1 * hour) div minute = now div minute + 60"
    using div_mult_self1 [of minute now 60] by (simp add: hour_def minute_def second_def)
  then obtain h' m' where b: "parse_hhmm (clock_text (now + 1 * hour)) = Some (h', m')" "h' * 60 + m' = (now div minute + 60) mod 1440"
    using parse_clock_text [of "now + 1 * hour"] by metis
  have "(now div minute + 60) mod 1440 \<noteq> now div minute mod 1440" unfolding mod_eq_dvd_iff by simp
  then have "clock_text now \<noteq> clock_text (now + 1 * hour)" using a b by auto
  then have "rule_problem (pause_rule now) = None"
    using a b by (simp add: rule_problem_def pause_rule_def pause_schedule_def all_days_def)
  moreover have "bundle_consistent [pause_schedule sid now]"
    using pause_schedule_merges merge_error_consistent [of "[pause_schedule sid now]"] by (simp add: ids_unique_def)
  ultimately show ?thesis
    by (simp add: well_formed_schedule_def pause_schedule_rules)
      (simp add: pause_schedule_def is_supported_timezone_def load_location_def)
qed

lemma accepted_well_formed:
  assumes "accept_schedule mo s good f l = (r, l')" "schedules_fine (mo_tzdb mo) l"
  shows "schedules_fine (mo_tzdb mo) l'"
proof -
  let ?s = "with_mode s"
  have c: "merge_schedules [?s] = (m, cs, None) \<Longrightarrow> bundle_consistent [?s]" for m cs
    using merge_error_consistent [of "[?s]"] by (simp add: ids_unique_def)
  have m: "sched_mode ?s \<noteq> ScheduleModeOther []" by (simp add: with_mode_def)
  show ?thesis
  proof (cases "validate_schedule_rules 0 (sched_rules ?s) = None \<and> is_supported_timezone (mo_tzdb mo) (sched_timezone ?s)
      \<and> snd (snd (merge_schedules [?s])) = None")
    case True
    then have "well_formed_schedule (mo_tzdb mo) ?s"
      using validated m c by (cases "merge_schedules [?s]") (auto simp: well_formed_schedule_def)
    then have "schedules_fine (mo_tzdb mo) (put_schedule ?s l)" by (rule fine_put [OF assms(2)])
    then show ?thesis using assms
      by (auto simp: accept_schedule_def Let_def split: option.splits if_splits prod.splits dest!: fine_store_change)
  next
    case False
    then show ?thesis using assms by (auto simp: accept_schedule_def Let_def split: option.splits if_splits prod.splits)
  qed
qed

lemma fine_handlers:
  assumes "schedules_fine (mo_tzdb mo) l"
  shows "assign_device_tag mo p b l = (r, l') \<Longrightarrow> schedules_fine (mo_tzdb mo) l'"
    "pause_device_internet mo p l = (r, l') \<Longrightarrow> schedules_fine (mo_tzdb mo) l'"
    "unpause_device_internet mo p l = (r, l') \<Longrightarrow> schedules_fine (mo_tzdb mo) l'"
    "grant_extension mo i nm ty k t b1 l = (r, l') \<Longrightarrow> schedules_fine (mo_tzdb mo) l'"
    "cancel_extension mo i k t l = (r, l') \<Longrightarrow> schedules_fine (mo_tzdb mo) l'"
    "toggle_vacation_mode mo b2 l = (r, l') \<Longrightarrow> schedules_fine (mo_tzdb mo) l'"
    "rename_local_device mo p b3 l = (r, l') \<Longrightarrow> schedules_fine (mo_tzdb mo) l'"
  using assms fine_put [OF _ pause_well_formed]
  by (auto simp: assign_device_tag_def pause_device_internet_def unpause_device_internet_def grant_extension_def
      cancel_extension_def toggle_vacation_mode_def rename_local_device_def Let_def fine_deletes
      split: option.splits prod.splits sum.splits if_splits dest!: fine_persist [where tz = "mo_tzdb mo"])

lemma fine_configuration:
  assumes "schedules_fine (mo_tzdb mo) l"
  shows "create_tag_handler mo b4 l = (r, l') \<Longrightarrow> schedules_fine (mo_tzdb mo) l'"
    "update_tag_handler mo i b4 l = (r, l') \<Longrightarrow> schedules_fine (mo_tzdb mo) l'"
    "delete_tag_handler mo i l = (r, l') \<Longrightarrow> schedules_fine (mo_tzdb mo) l'"
    "accept_policy mo p code f l = (r, l') \<Longrightarrow> schedules_fine (mo_tzdb mo) l'"
    "import_policies_handler mo b5 l = (r, l') \<Longrightarrow> schedules_fine (mo_tzdb mo) l'"
    "export_policies_handler mo l = (r, l') \<Longrightarrow> schedules_fine (mo_tzdb mo) l'"
    "store_change mo m f good (drop_schedule i l) = (r, l') \<Longrightarrow> schedules_fine (mo_tzdb mo) l'"
    "store_change mo m f good (drop_policy i l) = (r, l') \<Longrightarrow> schedules_fine (mo_tzdb mo) l'"
  using assms
  by (auto simp: create_tag_handler_def update_tag_handler_def delete_tag_handler_def accept_policy_def
      import_policies_handler_def export_policies_handler_def Let_def
      split: option.splits prod.splits sum.splits if_splits bundle_check.splits
      dest!: fine_store_change [where tz = "mo_tzdb mo"] fine_persist [where tz = "mo_tzdb mo"])

lemma fine_users:
  assumes "schedules_fine (mo_tzdb mo) l"
  shows "create_user mo b6 l = (r, l') \<Longrightarrow> schedules_fine (mo_tzdb mo) l'"
    "update_user mo i b6 l = (r, l') \<Longrightarrow> schedules_fine (mo_tzdb mo) l'"
    "delete_user_handler mo i l = (r, l') \<Longrightarrow> schedules_fine (mo_tzdb mo) l'"
    "unassign_user mo p l = (r, l') \<Longrightarrow> schedules_fine (mo_tzdb mo) l'"
    "assign_device_user mo p b7 l = (r, l') \<Longrightarrow> schedules_fine (mo_tzdb mo) l'"
  using assms
  by (auto simp: create_user_def update_user_def delete_user_handler_def unassign_user_def assign_device_user_def Let_def
      split: option.splits prod.splits if_splits dest!: fine_persist [where tz = "mo_tzdb mo"])

lemma fine_status:
  assumes "schedules_fine tz l"
  shows "device_effective_status mo d l = (st, l') \<Longrightarrow> schedules_fine tz l'"
    "tag_effective_status mo t l = (st, l') \<Longrightarrow> schedules_fine tz l'"
  using assms
  by (auto simp: device_effective_status_def tag_effective_status_def ruled_status_def Let_def
      split: option.splits prod.splits if_splits dest!: fine_bundle [where tz = tz])

lemma fine_wrapped:
  assumes "schedules_fine (mo_tzdb mo) l"
  shows "create_policy mo b l = (r, l') \<Longrightarrow> schedules_fine (mo_tzdb mo) l'"
    "update_policy mo i b l = (r, l') \<Longrightarrow> schedules_fine (mo_tzdb mo) l'"
    "create_schedule mo b1 l = (r, l') \<Longrightarrow> schedules_fine (mo_tzdb mo) l'"
    "update_schedule mo i b1 l = (r, l') \<Longrightarrow> schedules_fine (mo_tzdb mo) l'"
    "extend_device_access mo p b2 l = (r, l') \<Longrightarrow> schedules_fine (mo_tzdb mo) l'"
    "extend_tag_access mo t b2 l = (r, l') \<Longrightarrow> schedules_fine (mo_tzdb mo) l'"
    "get_device_effective_status mo p l = (r, l') \<Longrightarrow> schedules_fine (mo_tzdb mo) l'"
    "get_tag_effective_status mo t l = (r, l') \<Longrightarrow> schedules_fine (mo_tzdb mo) l'"
    "unassign_device_user_handler mo p l = (r, l') \<Longrightarrow> schedules_fine (mo_tzdb mo) l'"
  using assms
  by (auto simp: create_policy_def update_policy_def create_schedule_def update_schedule_def extend_device_access_def
      extend_tag_access_def get_device_effective_status_def get_tag_effective_status_def unassign_device_user_handler_def Let_def
      split: option.splits prod.splits if_splits
      dest: fine_configuration(4) fine_handlers(4) fine_status accepted_well_formed fine_users(4))



subsection \<open>Unpausing\<close>

text \<open>The tables of the store, if there is one.\<close>

definition tables_of :: "lias \<Rightarrow> database option" where
  "tables_of l = map_option snd (li_store l)"

definition statement_effect :: "(database \<Rightarrow> db_error + database) \<Rightarrow> database \<Rightarrow> database" where
  "statement_effect stmt db = (case stmt db of Inl _ \<Rightarrow> db | Inr db' \<Rightarrow> db')"

lemma tables_quietly: "mo_out mo = healthy \<Longrightarrow> tables_of (persist_quietly mo (exec stmt) l) = map_option (statement_effect stmt) (tables_of l)"
  by (cases "li_store l")
    (auto simp: tables_of_def persist_quietly_def persist_def exec_def healthy_def statement_effect_def split: sum.split)

lemma tables_fields [simp]:
  "tables_of (try_trigger l) = tables_of l" "tables_of (tell_status k t l) = tables_of l" "tables_of (put_policy p l) = tables_of l"
  "tables_of (drop_policy i l) = tables_of l" "tables_of (put_schedule s l) = tables_of l" "tables_of (drop_schedule i l) = tables_of l"
  by (simp_all add: tables_of_def try_trigger_def tell_status_def put_policy_def drop_policy_def put_schedule_def drop_schedule_def)

lemma upserted_then_deleted: "key r \<notin> key ` set rows \<Longrightarrow> filter (\<lambda>x. key x \<noteq> key r) (upsert_row key upd r rows) = rows"
  by (auto simp: upsert_row_def filter_id_conv) (metis (mono_tags, lifting) filter_True image_eqI)+

lemma unpaused:
  assumes "serve mo (UnpauseDevice p) l = (r, l')" "get_policy (pause_policy_id p) (li_policies l) = Some x"
    and "get_schedule_ids x = [sid]"
  shows "r = Reply 204 NoBody" "li_policies l' = (li_policies l)(pause_policy_id p := None)"
    "li_schedules l' = delete_schedule sid (li_schedules l)"
  using assms
  by (auto simp: unpause_device_internet_def Let_def try_trigger_def tell_status_def drop_policy_def drop_schedule_def
      delete_policy_def)

lemma unpaused_tables:
  assumes "serve mo (UnpauseDevice p) l = (r, l')" "get_policy (pause_policy_id p) (li_policies l) = Some x"
    and "get_schedule_ids x = [sid]" "mo_out mo = healthy"
  shows "tables_of l' = map_option (\<lambda>db. db\<lparr>tbl_policies := filter (\<lambda>q. row_id q \<noteq> pause_policy_id p) (tbl_policies db),
       tbl_schedules := filter (\<lambda>q. sr_id q \<noteq> sid) (tbl_schedules db)\<rparr>) (tables_of l)"
proof -
  have "l' = tell_status ''device'' p (try_trigger (persist_quietly mo (remove_schedule sid) (drop_schedule sid
      (persist_quietly mo (remove_policy (pause_policy_id p)) (drop_policy (pause_policy_id p) l)))))"
    using assms(1-3) by (simp add: unpause_device_internet_def Let_def)
  then show ?thesis using assms(4)
    by (simp add: remove_policy_def remove_schedule_def tables_quietly statement_effect_def delete_policy_row_def
        option.map_comp comp_def)
qed

lemma paused_tables:
  assumes "serve mo (PauseDevice p) l = (r, l')" "status r = 202" "mo_out mo = healthy"
  defines "sid \<equiv> ''sched_pause_'' @ hex_string (mo_random mo)"
  shows "tables_of l' = map_option (\<lambda>db. db\<lparr>
     tbl_schedules := upsert_row sr_id (\<lambda>old new. new) \<lparr>sr_id = sid, sr_name = ''Temporary Pause'', sr_mode = ScheduleModeDowntime,
       sr_timezone = ''UTC'', sr_rules = Document [pause_rule (mo_now mo)]\<rparr> (tbl_schedules db),
     tbl_policies := upsert_row row_id (\<lambda>old new. new) (policy_row_of (pause_policy_for p sid (mo_now mo))) (tbl_policies db)\<rparr>) (tables_of l)"
  using assms
  by (auto simp: pause_device_internet_def Let_def generate_id_def save_policy_def save_schedule_def tables_quietly
      statement_effect_def upsert_policy_row_def pause_schedule_rules option.map_comp comp_def split: option.splits if_splits)
    (simp_all add: pause_schedule_def)

text \<open>Unpausing takes a pause back: the policies and schedules in memory and every table of the store are again what
  they were before the pause, if the device was not paused already and the random id was new.\<close>

theorem unpause_undoes_pause:
  assumes "serve mo (PauseDevice p) l = (r, l1)" "status r = 202" "serve mo' (UnpauseDevice p) l1 = (r', l2)"
    and "mo_out mo = healthy" "mo_out mo' = healthy"
    and "sid = ''sched_pause_'' @ hex_string (mo_random mo)"
    and "li_policies l (pause_policy_id p) = None" "eng_schedules (li_schedules l) sid = None"
    and "\<And>n db. li_store l = Some (n, db) \<Longrightarrow> pause_policy_id p \<notin> row_id ` set (tbl_policies db) \<and> sid \<notin> sr_id ` set (tbl_schedules db)"
  shows "status r' = 204 \<and> li_policies l2 = li_policies l \<and> eng_schedules (li_schedules l2) = eng_schedules (li_schedules l)
     \<and> map_option snd (li_store l2) = map_option snd (li_store l)"
proof -
  let ?x = "pause_policy_for p sid (mo_now mo)"
  note on = paused [OF assms(1,2), folded assms(6)]
  have x: "get_policy (pause_policy_id p) (li_policies l1) = Some ?x" unfolding on(1) by (simp add: get_policy_def)
  have ids: "get_schedule_ids ?x = [sid]" by (simp add: pause_policy_for_def get_schedule_ids_def)
  note off = unpaused [OF assms(3) x ids] unpaused_tables [OF assms(3) x ids assms(5)]
  have "li_policies l2 = li_policies l" unfolding off(2) on(1) using assms(7) by (auto simp: fun_eq_iff)
  moreover have "eng_schedules (li_schedules l2) = eng_schedules (li_schedules l)"
    unfolding off(3) on(2) using assms(8)
    by (simp add: delete_schedule_def upsert_schedule_def) (auto simp: fun_eq_iff pause_schedule_def)
  moreover have "tables_of l2 = tables_of l"
  proof (cases "li_store l")
    case (Some s)
    obtain n db where s: "s = (n, db)" by (cases s)
    have free: "row_id (policy_row_of ?x) = pause_policy_id p" "pause_policy_id p \<notin> row_id ` set (tbl_policies db)"
        "sid \<notin> sr_id ` set (tbl_schedules db)"
      using assms(9) Some s by (simp_all add: policy_row_of_def pause_policy_for_def)
    have t: "tables_of l = Some db" using Some s by (simp add: tables_of_def)
    show ?thesis unfolding off(4) paused_tables [OF assms(1,2,4), folded assms(6)] t
      using upserted_then_deleted [of row_id "policy_row_of ?x" "tbl_policies db"] free
        upserted_then_deleted [of sr_id "\<lparr>sr_id = sid, sr_name = ''Temporary Pause'', sr_mode = ScheduleModeDowntime,
       sr_timezone = ''UTC'', sr_rules = Document [pause_rule (mo_now mo)]\<rparr>" "tbl_schedules db"]
      by simp
  next
    case None
    then have "tables_of l = None" by (simp add: tables_of_def)
    then show ?thesis unfolding off(4) paused_tables [OF assms(1,2,4), folded assms(6)] by simp
  qed
  ultimately show ?thesis using off(1) by (simp add: tables_of_def)
qed

theorem unpause_undoes_pause_witness:
  "\<exists>(l1 :: lias) l2 r'. serve noon (PauseDevice ''p1'') house = (Reply 202 (MessageBody ''paused for 1 hour''), l1)
     \<and> serve evening (UnpauseDevice ''p1'') l1 = (r', l2) \<and> li_policies l1 \<noteq> li_policies house \<and> li_policies l2 = li_policies house"
proof -
  obtain r l1 where run: "serve noon (PauseDevice ''p1'') house = (r, l1)" by fastforce
  obtain r' l2 where run2: "serve evening (UnpauseDevice ''p1'') l1 = (r', l2)" by fastforce
  have r: "r = Reply 202 (MessageBody ''paused for 1 hour'')"
    using run by (auto simp: pause_device_internet_def cache_get_def house_fields lamp_device_def Let_def)
  then have st: "status r = 202" by simp
  have "status r' = 204 \<and> li_policies l2 = li_policies house \<and> eng_schedules (li_schedules l2) = eng_schedules (li_schedules house)
     \<and> map_option snd (li_store l2) = map_option snd (li_store house)"
    by (rule unpause_undoes_pause [OF run st run2 _ _ refl])
      (auto simp: noon_def evening_def house_fields new_policies_def global_default_def pause_policy_id_def new_engine_def empty_database_def)
  moreover have "li_policies l1 ''pol_pause_p1'' \<noteq> None" "li_policies house ''pol_pause_p1'' = None"
    using paused(1) [OF run st] by (simp_all add: pause_policy_id_def house_fields new_policies_def global_default_def)
  then have "li_policies l1 \<noteq> li_policies house" by metis
  ultimately show ?thesis using run run2 r by blast
qed

end
