(* ===== verification/Go_Text.thy ===== *)
theory Go_Text
  imports Go_Strings Go_Strconv Go_Time
begin

text \<open>
  Reading texts the way Go's \<open>bufio\<close>, \<open>strings\<close>, \<open>encoding/csv\<close> and \<open>time\<close> do: lines, white-space fields, comma
  separated records with quoted fields, and instants in the format of RFC 3339.
\<close>

subsection \<open>Lines and words\<close>

definition newline :: char where "newline = CHR 0x0A"

text \<open>\<open>bufio.ScanLines\<close>: a final line without its end is a line unless it is empty; one carriage return is cut. The
  scanner stops at a line that does not fit its buffer.\<close>

definition stream_lines :: "string \<Rightarrow> string list" where
  "stream_lines s = (let ps = split_char newline s in butlast ps @ (if last ps = [] then [] else [last ps]))"

definition drop_cr :: "string \<Rightarrow> string" where
  "drop_cr s = (if s \<noteq> [] \<and> last s = CHR 0x0D then butlast s else s)"

lemma split_char_line: "c \<notin> set a \<Longrightarrow> split_char c (a @ c # s) = a # split_char c s"
  by (induction a) auto

lemma stream_lines_line: "newline \<notin> set a \<Longrightarrow> stream_lines (a @ newline # s) = a # stream_lines s"
  by (simp add: stream_lines_def Let_def split_char_line split_char_not_Nil)

lemma stream_lines_Nil: "stream_lines [] = []"
  by (simp add: stream_lines_def)

text \<open>\<open>strings.Fields\<close>.\<close>

fun split_spaces :: "string \<Rightarrow> string list" where
  "split_spaces [] = [[]]"
| "split_spaces (x # s) =
     (if is_space x then [] # split_spaces s
      else (case split_spaces s of [] \<Rightarrow> [[x]] | p # ps \<Rightarrow> (x # p) # ps))"

definition words_of :: "string \<Rightarrow> string list" where
  "words_of s = filter (\<lambda>w. w \<noteq> []) (split_spaces s)"

text \<open>\<open>strings.Cut\<close> at a byte.\<close>

definition cut_char :: "char \<Rightarrow> string \<Rightarrow> (string \<times> string) option" where
  "cut_char c s = (if c \<in> set s then Some (takeWhile (\<lambda>x. x \<noteq> c) s, tl (dropWhile (\<lambda>x. x \<noteq> c) s)) else None)"

text \<open>A map of strings gives the empty string for a key it lacks.\<close>

definition or_empty :: "string option \<Rightarrow> string" where
  "or_empty v = (case v of None \<Rightarrow> [] | Some s \<Rightarrow> s)"

lemma cut_char_length: "cut_char c s = Some (a, b) \<Longrightarrow> length a + length b < length s"
proof -
  assume "cut_char c s = Some (a, b)"
  then have c: "c \<in> set s" and ab: "a = takeWhile (\<lambda>x. x \<noteq> c) s" "b = tl (dropWhile (\<lambda>x. x \<noteq> c) s)"
    by (auto simp: cut_char_def split: if_splits)
  have "dropWhile (\<lambda>x. x \<noteq> c) s \<noteq> []" using c by auto
  moreover have "length (takeWhile (\<lambda>x. x \<noteq> c) s) + length (dropWhile (\<lambda>x. x \<noteq> c) s) = length s"
    by (metis length_append takeWhile_dropWhile_id)
  ultimately show ?thesis using ab by (cases "dropWhile (\<lambda>x. x \<noteq> c) s") auto
qed

subsection \<open>Comma separated values\<close>

text \<open>The reader of \<open>encoding/csv\<close> with its defaults, any number of fields per record. A line keeps its end; a carriage
  return before the end of the line or of the file is dropped.\<close>

definition csv_lines :: "string \<Rightarrow> string list" where
  "csv_lines s = (let ps = split_char newline s in
     map (\<lambda>l. drop_cr l @ [newline]) (butlast ps) @ (if last ps = [] then [] else [drop_cr (last ps)]))"

abbreviation comma :: char where "comma \<equiv> CHR 0x2C"
abbreviation dquote :: char where "dquote \<equiv> CHR 0x22"

abbreviation csv_size :: "string \<Rightarrow> string list \<Rightarrow> nat" where
  "csv_size line rest \<equiv> length line + sum_list (map (\<lambda>l. Suc (length l)) rest)"

text \<open>The fields of one record, from the current line and the lines after it: \<open>None\<close> is a syntax error.\<close>

function csv_fields :: "string \<Rightarrow> string list \<Rightarrow> (string list \<times> string list) option"
  and csv_quoted :: "string \<Rightarrow> string list \<Rightarrow> string \<Rightarrow> (string list \<times> string list) option" where
  "csv_fields line rest =
     (if line \<noteq> [] \<and> hd line = dquote then csv_quoted (tl line) rest []
      else case cut_char comma line of
        Some (f, tail) \<Rightarrow> if dquote \<in> set f then None else map_option (apfst ((#) f)) (csv_fields tail rest)
      | None \<Rightarrow>
          let f = if line \<noteq> [] \<and> last line = newline then butlast line else line
          in if dquote \<in> set f then None else Some ([f], rest))"
| "csv_quoted line rest buf =
     (case cut_char dquote line of
        Some (a, tail) \<Rightarrow>
          if tail \<noteq> [] \<and> hd tail = dquote then csv_quoted (tl tail) rest (buf @ a @ [dquote])
          else if tail \<noteq> [] \<and> hd tail = comma then map_option (apfst ((#) (buf @ a))) (csv_fields (tl tail) rest)
          else if tail = [] \<or> tail = [newline] then Some ([buf @ a], rest)
          else None
      | None \<Rightarrow>
          if line = [] then None
          else (case rest of [] \<Rightarrow> csv_quoted [] [] (buf @ line) | l # ls \<Rightarrow> csv_quoted l ls (buf @ line)))"
  by pat_completeness auto
termination
  by (relation "measure (case_sum (\<lambda>(l, r). csv_size l r) (\<lambda>(l, r, b). csv_size l r))")
    (auto dest!: cut_char_length simp: neq_Nil_conv)

declare csv_fields.simps [simp del] csv_quoted.simps [simp del]

lemma csv_rest_shrinks:
  "csv_fields line rest = Some (fs, rest') \<Longrightarrow> length rest' \<le> length rest"
  "csv_quoted line rest buf = Some (fs, rest') \<Longrightarrow> length rest' \<le> length rest"
proof (induction line rest and line rest buf arbitrary: fs rest' and fs rest' rule: csv_fields_csv_quoted.induct)
  case (1 line rest)
  show ?case
  proof (cases "line \<noteq> [] \<and> hd line = dquote")
    case True
    then show ?thesis using "1.IH"(1) "1.prems" by (simp add: csv_fields.simps [of line rest])
  next
    case False
    note ih = "1.IH"(2) [OF this]
    show ?thesis
    proof (cases "cut_char comma line")
      case None
      with False "1.prems" show ?thesis by (auto simp: csv_fields.simps [of line rest] Let_def split: if_splits)
    next
      case (Some x)
      with False "1.prems" show ?thesis using ih [OF Some]
        by (cases x) (auto simp: csv_fields.simps [of line rest] split: if_splits)
    qed
  qed
next
  case (2 line rest buf)
  show ?case
  proof (cases "cut_char dquote line")
    case None
    with "2.prems" show ?thesis using "2.IH"
      by (fastforce simp: csv_quoted.simps [of line rest] split: if_splits list.splits)
  next
    case (Some x)
    with "2.prems" show ?thesis using "2.IH"
      by (cases x) (fastforce simp: csv_quoted.simps [of line rest] split: if_splits)
  qed
qed

text \<open>The records in order; the reader stops at the first error, which is the entry \<open>None\<close>. Empty lines are skipped.\<close>

function csv_records :: "string list \<Rightarrow> string list option list" where
  "csv_records [] = []"
| "csv_records (l # ls) =
     (if l = [] \<or> l = [newline] then csv_records ls
      else (case csv_fields l ls of None \<Rightarrow> [None] | Some (r, ls') \<Rightarrow> Some r # csv_records ls'))"
  by pat_completeness auto
termination
  by (relation "measure length") (auto dest: csv_rest_shrinks)

definition csv_read :: "string \<Rightarrow> string list option list" where
  "csv_read s = csv_records (csv_lines s)"

subsection \<open>Instants as text\<close>

text \<open>The civil date of a day number, the inverse of \<open>civil_day\<close>.\<close>

definition date_of_day :: "int \<Rightarrow> int \<times> int \<times> int" where
  "date_of_day n =
     (let z = n + 719468; era = z div 146097; doe = z mod 146097;
          yoe = (doe - doe div 1460 + doe div 36524 - doe div 146096) div 365;
          doy = doe - (365 * yoe + yoe div 4 - yoe div 100);
          mp = (5 * doy + 2) div 153;
          d = doy - (153 * mp + 2) div 5 + 1;
          m = if mp < 10 then mp + 3 else mp - 9;
          y = yoe + era * 400 + (if m \<le> 2 then 1 else 0)
      in (y, m, d))"

definition four_digits :: "int \<Rightarrow> string" where
  "four_digits n = (let s = decimal_nat (nat \<bar>n\<bar>) in (if n < 0 then ''-'' else []) @ replicate (4 - length s) (CHR ''0'') @ s)"

text \<open>\<open>time.Unix(sec, 0).UTC().Format(time.RFC3339)\<close>.\<close>

definition rfc3339_utc :: "int \<Rightarrow> string" where
  "rfc3339_utc sec =
     (case date_of_day (sec div 86400) of (y, m, d) \<Rightarrow>
        let s = sec mod 86400 in
        four_digits y @ ''-'' @ two_digits m @ ''-'' @ two_digits d @ ''T'' @ two_digits (s div 3600) @ '':''
        @ two_digits (s div 60 mod 60) @ '':'' @ two_digits (s mod 60) @ ''Z'')"

end
