(* ===== verification/Dis_Client.thy ===== *)
theory Dis_Client
  imports Lias_Service Sse_Broker Go_Text
begin

text \<open>
  The scheduler's client of the discovery service (\<open>apps/lias/internal/sync/dis_client.go\<close>,
  \<open>identity_gateway.go\<close>): the poll of the inventory, the event stream, what every event does to the mirror, and the
  gateway for the identity review. What the network gives back is an argument: no request, no answer, or a status with
  the decoded body. The text of a payload is decoded by the functions of a view, the part of \<open>encoding/json\<close> the
  client relies on. A goroutine started for one event is one step.
\<close>

subsection \<open>State\<close>

datatype 'a answer = Unsendable | Unreachable | Answered nat "'a option"

record capabilities =
  ca_api_version :: string
  ca_schema_version :: int
  ca_min_client :: string
  ca_device_key :: string
  ca_compatibility :: string
  ca_features :: "string list"

record upstream =
  up_reachable :: bool
  up_legacy :: bool
  up_checked :: time
  up_synced :: time
  up_event :: time
  up_error :: string

datatype client_payload = RawText string | DeviceRecord device | Presence device_event_payload

record dis_client =
  dc_lias :: lias
  dc_seen :: "string \<rightharpoonup> time"
  dc_capabilities :: "capabilities option"
  dc_upstream :: upstream
  dc_broker :: "client_payload broker option"

definition new_dis_client :: "lias \<Rightarrow> client_payload broker option \<Rightarrow> dis_client" where
  "new_dis_client l b = \<lparr>dc_lias = l, dc_seen = Map.empty, dc_capabilities = None,
     dc_upstream = \<lparr>up_reachable = False, up_legacy = False, up_checked = zero_time, up_synced = zero_time,
       up_event = zero_time, up_error = []\<rparr>, dc_broker = b\<rparr>"

definition client_trigger :: "dis_client \<Rightarrow> dis_client" where
  "client_trigger c = c\<lparr>dc_lias := (dc_lias c)\<lparr>li_triggered := True\<rparr>\<rparr>"

definition on_cache :: "(cache \<Rightarrow> cache) \<Rightarrow> dis_client \<Rightarrow> dis_client" where
  "on_cache f c = c\<lparr>dc_lias := (dc_lias c)\<lparr>li_cache := f (li_cache (dc_lias c))\<rparr>\<rparr>"

definition client_cache :: "dis_client \<Rightarrow> cache" where
  "client_cache c = li_cache (dc_lias c)"

text \<open>\<open>if c.broker != nil { c.broker.Broadcast(...) }\<close>\<close>

definition relay :: "client_payload event \<Rightarrow> dis_client \<Rightarrow> dis_client" where
  "relay e c = c\<lparr>dc_broker := map_option (broadcast e) (dc_broker c)\<rparr>"

definition record_upstream_error :: "dis_client \<Rightarrow> dis_client" where
  "record_upstream_error c = c\<lparr>dc_upstream := (dc_upstream c)\<lparr>up_reachable := False, up_error := ''discovery_unavailable''\<rparr>\<rparr>"

subsection \<open>The poll\<close>

definition grace :: duration where "grace = 5 * minute"

definition note_listed :: "time \<Rightarrow> device list \<Rightarrow> (string \<rightharpoonup> time) \<Rightarrow> (string \<rightharpoonup> time)" where
  "note_listed now ds m = foldl (\<lambda>m d. m(pdid d \<mapsto> now)) m ds"

definition forget_stale :: "time \<Rightarrow> string set \<Rightarrow> dis_client \<Rightarrow> string \<Rightarrow> dis_client" where
  "forget_stale now active c p =
     (if p \<in> active then c
      else if (case dc_seen c p of Some t \<Rightarrow> time_sub now t < grace | None \<Rightarrow> False) then c
      else (on_cache (remove_device p) c)\<lparr>dc_seen := (dc_seen c)(p := None)\<rparr>)"

definition presence_event :: "time \<Rightarrow> device \<Rightarrow> client_payload event" where
  "presence_event now d = new_event now (if online d then EventDeviceOnline else EventDeviceOffline) (pdid d)
     (Presence \<lparr>ep_pdid = pdid d, ep_mac = current_mac d, ep_ip = current_ip d, ep_hostname = [], ep_canonical_hostname = [],
       ep_old_mac = [], ep_old_ip = [], ep_old_host = [], ep_old_canonical_hostname = [], ep_confirmed_by = [],
       ep_timestamp = now\<rparr>)"

text \<open>\<open>em\<close> says which stored records have empty slices that are not nil.\<close>

definition mirror_device :: "(string \<Rightarrow> bool) \<Rightarrow> time \<Rightarrow> dis_client \<Rightarrow> device \<Rightarrow> dis_client" where
  "mirror_device em now c d =
     (let prev = cache_get (client_cache c) (pdid d);
          c1 = on_cache (upsert_device (em (pdid d)) d) c
      in case prev of
           None \<Rightarrow> relay (new_event now EventDeviceAdded (pdid d) (DeviceRecord d)) c1
         | Some x \<Rightarrow> if online (dev x) \<noteq> online d then relay (presence_event now d) c1 else c1)"

text \<open>\<open>ks\<close> is the order of \<open>ListPDIDs\<close>.\<close>

definition apply_poll :: "(string \<Rightarrow> bool) \<Rightarrow> time \<Rightarrow> string list \<Rightarrow> device list \<Rightarrow> dis_client \<Rightarrow> dis_client" where
  "apply_poll em now ks ds c =
     (let c1 = c\<lparr>dc_seen := note_listed now ds (dc_seen c)\<rparr>;
          c2 = foldl (forget_stale now (pdid ` set ds)) c1 ks;
          c3 = foldl (mirror_device em now) c2 ds
      in c3\<lparr>dc_upstream := (dc_upstream c3)\<lparr>up_reachable := True, up_synced := now, up_error := []\<rparr>\<rparr>)"

definition poll_devices :: "(string \<Rightarrow> bool) \<Rightarrow> time \<Rightarrow> string list \<Rightarrow> device list answer \<Rightarrow> dis_client \<Rightarrow> dis_client" where
  "poll_devices em now ks ans c =
     (case ans of
        Unsendable \<Rightarrow> c
      | Unreachable \<Rightarrow> record_upstream_error c
      | Answered st dec \<Rightarrow> if st \<noteq> 200 then record_upstream_error c
          else (case dec of None \<Rightarrow> record_upstream_error c | Some ds \<Rightarrow> apply_poll em now ks ds c))"

definition fetch_single_device :: "(string \<Rightarrow> bool) \<Rightarrow> device answer \<Rightarrow> dis_client \<Rightarrow> bool \<times> dis_client" where
  "fetch_single_device em ans c =
     (case ans of Answered st (Some d) \<Rightarrow> if st = 200 then (True, on_cache (upsert_device (em (pdid d)) d) c) else (False, c)
      | _ \<Rightarrow> (False, c))"

subsection \<open>The stream\<close>

definition max_sse_event_bytes :: nat where "max_sse_event_bytes = 1048576"

datatype stream_end = ClosedByServer | LineTooLong | EventTooLarge

text \<open>The pairs of type and data handed on, and why the loop ends.\<close>

fun scan_events :: "string list \<Rightarrow> string \<Rightarrow> string \<Rightarrow> (string \<times> string) list \<times> stream_end" where
  "scan_events [] ty buf = ([], ClosedByServer)"
| "scan_events (raw # ls) ty buf =
     (if max_sse_event_bytes \<le> length raw then ([], LineTooLong)
      else let line = drop_cr raw in
        if line = [] then
          (if buf \<noteq> [] then (case scan_events ls [] [] of (es, x) \<Rightarrow> ((ty, buf) # es, x)) else scan_events ls ty buf)
        else if has_prefix line ''event: '' then scan_events ls (trim_prefix line ''event: '') buf
        else if has_prefix line ''data: '' then
          (let data = trim_prefix line ''data: ''; sep = (if buf \<noteq> [] then [newline] else []) in
           if max_sse_event_bytes < length buf + length sep + length data then ([], EventTooLarge)
           else scan_events ls ty (buf @ sep @ data))
        else scan_events ls ty buf)"

definition event_type_of :: "string \<Rightarrow> event_type" where
  "event_type_of s =
     (if s = ''device.added'' then EventDeviceAdded else if s = ''device.removed'' then EventDeviceRemoved
      else if s = ''device.online'' then EventDeviceOnline else if s = ''device.offline'' then EventDeviceOffline
      else if s = ''device.hostname_changed'' then EventHostnameChanged
      else if s = ''device.fingerprint_updated'' then EventFingerprintUpdated
      else if s = ''device.ip_changed'' then EventIPChanged else if s = ''device.mac_changed'' then EventMACChanged
      else if s = ''device.reidentified'' then EventDeviceReidentified
      else if s = ''identity.candidate.changed'' then EventIdentityCandidateChanged
      else if s = ''identity.binding.changed'' then EventIdentityBindingChanged
      else if s = ''identity.candidate.decided'' then EventIdentityCandidateDecided
      else if s = ''security.alert'' then EventSecurityAlert
      else if s = ''effective.status_changed'' then EventEffectiveStatusChanged else EventOther s)"

subsection \<open>The events\<close>

text \<open>What a payload says: its three identities (none when it is malformed), the device it decodes to, and the old and
  the new identity with the addresses moved.\<close>

record json_view =
  jv_identities :: "string \<Rightarrow> (string \<times> string \<times> string) option"
  jv_device :: "string \<Rightarrow> device option"
  jv_reidentified :: "string \<Rightarrow> string \<times> string \<times> string list"

definition resolve_event_pdid :: "json_view \<Rightarrow> event_type \<Rightarrow> string \<Rightarrow> string" where
  "resolve_event_pdid jv ty payload =
     (if payload = [] then []
      else (case jv_identities jv payload of None \<Rightarrow> []
        | Some (p, legacy, fresh) \<Rightarrow>
            if p \<noteq> [] then p else if ty = EventDeviceReidentified \<and> fresh \<noteq> [] then fresh else legacy))"

type_synonym migrator = "string \<Rightarrow> string \<Rightarrow> string list \<Rightarrow> lias \<Rightarrow> (db_error + nat \<times> bool) \<times> lias"

definition payload_text :: "client_payload event \<Rightarrow> string" where
  "payload_text e = (case ev_payload e of RawText t \<Rightarrow> t | _ \<Rightarrow> [])"

definition removed_event :: "string \<Rightarrow> client_payload event \<Rightarrow> dis_client \<Rightarrow> dis_client" where
  "removed_event p e c =
     (if p = [] then c
      else relay e (client_trigger ((on_cache (remove_device p) c)\<lparr>dc_seen := (dc_seen c)(p := None)\<rparr>)))"

definition reidentified_event ::
  "json_view \<Rightarrow> migrator option \<Rightarrow> (string \<Rightarrow> bool) \<Rightarrow> (string \<Rightarrow> device answer) \<Rightarrow> client_payload event \<Rightarrow> dis_client \<Rightarrow> dis_client" where
  "reidentified_event jv mig em fetch e c =
     (case (if payload_text e \<noteq> [] then jv_reidentified jv (payload_text e) else ([], [], [])) of (old, fresh, mms) \<Rightarrow>
        if old = [] \<or> fresh = [] then c
        else
          let e1 = set_target_pdid e fresh;
              after = (\<lambda>c1. case fetch_single_device em (fetch fresh) c1 of (ok, c2) \<Rightarrow>
                relay e1 (if ok then client_trigger c2 else c2))
          in (case mig of
                None \<Rightarrow> after (on_cache (migrate_device_identity old fresh) c)
              | Some m \<Rightarrow> (case m old fresh mms (dc_lias c) of
                    (Inl _, l) \<Rightarrow> c\<lparr>dc_lias := l\<rparr>
                  | (Inr _, l) \<Rightarrow> after (c\<lparr>dc_lias := l\<rparr>))))"

definition record_event :: "json_view \<Rightarrow> (string \<Rightarrow> bool) \<Rightarrow> (string \<Rightarrow> device answer) \<Rightarrow> string \<Rightarrow> client_payload event \<Rightarrow> dis_client \<Rightarrow> dis_client" where
  "record_event jv em fetch p e c =
     (if p = [] then c
      else
        let new_one = (cache_get (client_cache c) p = None \<or> ev_type e = EventDeviceAdded);
            inline = (if payload_text e = [] then None else (case jv_device jv (payload_text e) of None \<Rightarrow> None
              | Some d \<Rightarrow> if pdid d = p \<and> current_mac d \<noteq> [] then Some d else None));
            c1 = (case inline of Some d \<Rightarrow> client_trigger (on_cache (upsert_device (em p) d) c)
              | None \<Rightarrow> (case fetch_single_device em (fetch p) c of (ok, c2) \<Rightarrow> if ok then client_trigger c2 else c2))
        in relay (if new_one then e\<lparr>ev_type := EventDeviceAdded\<rparr> else e) c1)"

definition presence_changed :: "(string \<Rightarrow> bool) \<Rightarrow> (string \<Rightarrow> device answer) \<Rightarrow> string \<Rightarrow> client_payload event \<Rightarrow> dis_client \<Rightarrow> dis_client" where
  "presence_changed em fetch p e c =
     (if p = [] then c
      else
        let c1 = client_trigger (on_cache (patch_device_online p (ev_type e = EventDeviceOnline)) c)
        in snd (fetch_single_device em (fetch p) (relay e c1)))"

definition partial_event :: "(string \<Rightarrow> bool) \<Rightarrow> (string \<Rightarrow> device answer) \<Rightarrow> string \<Rightarrow> client_payload event \<Rightarrow> dis_client \<Rightarrow> dis_client" where
  "partial_event em fetch p e c =
     (if p = [] then c
      else (case fetch_single_device em (fetch p) c of (ok, c1) \<Rightarrow> relay e (if ok then client_trigger c1 else c1)))"

definition handle_event ::
  "json_view \<Rightarrow> migrator option \<Rightarrow> (string \<Rightarrow> bool) \<Rightarrow> time \<Rightarrow> (string \<Rightarrow> device answer) \<Rightarrow> client_payload event \<Rightarrow> dis_client \<Rightarrow> dis_client" where
  "handle_event jv mig em now fetch e0 c0 =
     (let c = c0\<lparr>dc_upstream := (dc_upstream c0)\<lparr>up_reachable := True, up_event := now, up_error := []\<rparr>\<rparr>;
          p = target_pdid e0;
          e = set_target_pdid e0 p
      in case ev_type e of
           EventDeviceRemoved \<Rightarrow> removed_event p e c
         | EventDeviceReidentified \<Rightarrow> reidentified_event jv mig em fetch e c
         | EventDeviceAdded \<Rightarrow> record_event jv em fetch p e c
         | EventFingerprintUpdated \<Rightarrow> record_event jv em fetch p e c
         | EventDeviceOnline \<Rightarrow> presence_changed em fetch p e c
         | EventDeviceOffline \<Rightarrow> presence_changed em fetch p e c
         | EventIPChanged \<Rightarrow> partial_event em fetch p e c
         | EventMACChanged \<Rightarrow> partial_event em fetch p e c
         | EventHostnameChanged \<Rightarrow> partial_event em fetch p e c
         | _ \<Rightarrow> relay e c)"

text \<open>An event read from the stream has no timestamp.\<close>

definition stream_event :: "json_view \<Rightarrow> string \<times> string \<Rightarrow> client_payload event" where
  "stream_event jv = (\<lambda>(ty, data).
     set_target_pdid \<lparr>ev_type = event_type_of ty, ev_device_id = [], ev_pdid = [], ev_payload = RawText data, ev_timestamp = zero_time\<rparr>
       (resolve_event_pdid jv (event_type_of ty) data))"

text \<open>One life of the stream: the answer to the request for it, then what the connection carries. \<open>clock i\<close> and \<open>fetch i\<close>
  are the clock and the answers while the \<open>i\<close>-th event is handled.\<close>

fun handle_stream ::
  "json_view \<Rightarrow> migrator option \<Rightarrow> (string \<Rightarrow> bool) \<Rightarrow> (nat \<Rightarrow> time) \<Rightarrow> (nat \<Rightarrow> string \<Rightarrow> device answer) \<Rightarrow> nat \<Rightarrow>
   (string \<times> string) list \<Rightarrow> dis_client \<Rightarrow> dis_client" where
  "handle_stream jv mig em clock fetch i [] c = c"
| "handle_stream jv mig em clock fetch i (x # xs) c =
     handle_stream jv mig em clock fetch (Suc i) xs (handle_event jv mig em (clock i) (fetch i) (stream_event jv x) c)"

definition max_backoff :: duration where "max_backoff = 30 * second"

definition next_backoff :: "duration \<Rightarrow> duration" where
  "next_backoff b = (if max_backoff < b * 2 then max_backoff else b * 2)"

subsection \<open>Capabilities\<close>

definition api_version_v1 :: string where "api_version_v1 = ''v1''"
definition api_schema_version :: int where "api_schema_version = 2"

definition feature_device_inventory :: string where "feature_device_inventory = ''device_inventory''"
definition feature_sse_events :: string where "feature_sse_events = ''sse_events''"
definition feature_sse_replay :: string where "feature_sse_replay = ''sse_replay''"
definition feature_identity_bindings :: string where "feature_identity_bindings = ''identity_bindings''"
definition feature_identity_candidates :: string where "feature_identity_candidates = ''identity_candidates''"
definition feature_identity_candidate_queue :: string where "feature_identity_candidate_queue = ''identity_candidate_queue''"
definition feature_identity_candidate_reopen :: string where "feature_identity_candidate_reopen = ''identity_candidate_reopen''"
definition feature_identity_split :: string where "feature_identity_split = ''identity_split''"
definition feature_authenticated_identity :: string where "feature_authenticated_identity = ''authenticated_identity''"
definition feature_snapshot :: string where "feature_snapshot = ''snapshot_v1''"

definition dis_capabilities :: capabilities where
  "dis_capabilities = \<lparr>ca_api_version = api_version_v1, ca_schema_version = api_schema_version,
     ca_min_client = api_version_v1, ca_device_key = ''pdid'', ca_compatibility = ''additive'',
     ca_features = [feature_authenticated_identity, feature_device_inventory, feature_identity_bindings,
       feature_identity_candidate_queue, feature_identity_candidate_reopen, feature_identity_candidates,
       feature_identity_split, feature_sse_events, feature_sse_replay]\<rparr>"

definition refresh_capabilities :: "time \<Rightarrow> capabilities answer \<Rightarrow> dis_client \<Rightarrow> dis_client" where
  "refresh_capabilities now ans c =
     (case ans of
        Unsendable \<Rightarrow> record_upstream_error c
      | Unreachable \<Rightarrow> (let c1 = record_upstream_error c in c1\<lparr>dc_upstream := (dc_upstream c1)\<lparr>up_checked := now\<rparr>\<rparr>)
      | Answered st dec \<Rightarrow>
          let u = (dc_upstream c)\<lparr>up_checked := now\<rparr> in
          if st = 404 then c\<lparr>dc_capabilities := None, dc_upstream := u\<lparr>up_reachable := True, up_legacy := True, up_error := []\<rparr>\<rparr>
          else if st \<noteq> 200
          then c\<lparr>dc_upstream := u\<lparr>up_reachable := False, up_error := ''capabilities status '' @ decimal_nat st\<rparr>\<rparr>
          else (case dec of
              None \<Rightarrow> c\<lparr>dc_upstream := u\<lparr>up_reachable := False, up_error := ''invalid capabilities response''\<rparr>\<rparr>
            | Some ca \<Rightarrow> c\<lparr>dc_capabilities := Some ca, dc_upstream := u\<lparr>up_reachable := True, up_legacy := False, up_error := []\<rparr>\<rparr>))"

definition forwarded_features :: "string list" where
  "forwarded_features = [feature_authenticated_identity, feature_identity_bindings, feature_identity_candidates,
     feature_identity_candidate_queue, feature_identity_candidate_reopen, feature_identity_split]"

definition capabilities_snapshot :: "dis_client \<Rightarrow> capabilities \<times> capabilities option \<times> upstream" where
  "capabilities_snapshot c =
     (let more = (case dc_capabilities c of None \<Rightarrow> []
            | Some ca \<Rightarrow> filter (\<lambda>f. f \<in> set forwarded_features) (ca_features ca))
      in (\<lparr>ca_api_version = api_version_v1, ca_schema_version = api_schema_version, ca_min_client = api_version_v1,
            ca_device_key = ''pdid'', ca_compatibility = ''additive'',
            ca_features = [feature_device_inventory, feature_snapshot, feature_sse_events, feature_sse_replay] @ more\<rparr>,
          dc_capabilities c, dc_upstream c))"

definition system_status :: "dis_client \<Rightarrow> string \<times> upstream" where
  "system_status c = (case capabilities_snapshot c of (_, _, u) \<Rightarrow> (if up_reachable u then ''ok'' else ''degraded'', u))"

text \<open>Whether the feature is available, and whether the service is reachable.\<close>

definition feature_availability :: "string \<Rightarrow> dis_client \<Rightarrow> bool \<times> bool" where
  "feature_availability f c =
     (if \<not> up_reachable (dc_upstream c) \<and> \<not> up_legacy (dc_upstream c) then (False, False)
      else if up_legacy (dc_upstream c) then (False, True)
      else (case dc_capabilities c of None \<Rightarrow> (False, True) | Some ca \<Rightarrow> (f \<in> set (ca_features ca), True)))"

subsection \<open>The gateway for the identity review\<close>

datatype http_method = GET | POST | DELETE

record gateway_request =
  gr_method :: http_method
  gr_path :: string
  gr_query :: "(string \<times> string) list"
  gr_body :: string

text \<open>The answer to a forwarded request, its body as text; \<open>None\<close> when reading it fails.\<close>

datatype gateway_response = GatewayError nat string bool | GatewayResponse nat string string

definition max_identity_gateway_response_bytes :: nat where "max_identity_gateway_response_bytes = 2097152"

definition identity_request ::
  "(gateway_request \<Rightarrow> (string \<times> string) answer) \<Rightarrow> gateway_request \<Rightarrow> string \<Rightarrow> dis_client \<Rightarrow> gateway_response \<times> dis_client" where
  "identity_request world rq feature c =
     (case feature_availability feature c of (available, reachable) \<Rightarrow>
        if \<not> reachable then (GatewayError 503 ''discovery_unavailable'' True, c)
        else if \<not> available then (GatewayError 501 ''feature_not_supported'' False, c)
        else (case world rq of
            Unsendable \<Rightarrow> (GatewayError 502 ''discovery_request_failed'' True, c)
          | Unreachable \<Rightarrow> (GatewayError 503 ''discovery_unavailable'' True, record_upstream_error c)
          | Answered st None \<Rightarrow> (GatewayError 502 ''invalid_discovery_response'' True, c)
          | Answered st (Some (kind, text)) \<Rightarrow>
              if max_identity_gateway_response_bytes < length text then (GatewayError 502 ''invalid_discovery_response'' True, c)
              else (GatewayResponse st (if kind = [] \<and> text \<noteq> [] then ''application/json'' else kind) text, c)))"

text \<open>\<open>url.PathEscape\<close>.\<close>

definition path_safe :: "char \<Rightarrow> bool" where
  "path_safe c \<longleftrightarrow> is_digit c \<or> 65 \<le> byte c \<and> byte c \<le> 90 \<or> 97 \<le> byte c \<and> byte c \<le> 122
     \<or> c \<in> {CHR ''-'', CHR ''_'', CHR ''.'', CHR ''~'', CHR ''$'', CHR ''&'', CHR ''+'', CHR '':'', CHR ''='', CHR ''@''}"

definition path_escape :: "string \<Rightarrow> string" where
  "path_escape s = concat (map (\<lambda>c. if path_safe c then [c]
     else CHR ''%'' # map upper_char [digit_char (byte c div 16), digit_char (byte c mod 16)]) s)"

definition device_path :: "string \<Rightarrow> string" where
  "device_path p = ''/api/v1/devices/'' @ path_escape p @ ''/identity''"

definition candidate_path :: "int \<Rightarrow> string" where
  "candidate_path i = ''/api/v1/identity/candidates/'' @ decimal_int i"

text \<open>The request and the feature it needs.\<close>

fun gateway_request_of :: "gateway_call \<Rightarrow> gateway_request \<times> string" where
  "gateway_request_of (GatewayCandidates st lm cur) =
     (\<lparr>gr_method = GET, gr_path = ''/api/v1/identity/candidates'', gr_query =
         (case cur of None \<Rightarrow> [] | Some x \<Rightarrow> [(''cursor'', x)]) @ (case lm of None \<Rightarrow> [] | Some n \<Rightarrow> [(''limit'', decimal_int n)])
         @ (case st of None \<Rightarrow> [] | Some x \<Rightarrow> [(''status'', x)]), gr_body = []\<rparr>, feature_identity_candidate_queue)"
| "gateway_request_of (GatewayCandidate i) =
     (\<lparr>gr_method = GET, gr_path = candidate_path i, gr_query = [], gr_body = []\<rparr>, feature_identity_candidate_queue)"
| "gateway_request_of (GatewayDecide i act b) =
     (\<lparr>gr_method = POST, gr_path = candidate_path i @ ''/'' @ act, gr_query = [], gr_body = b\<rparr>,
      if act = ''reopen'' then feature_identity_candidate_reopen else feature_identity_candidates)"
| "gateway_request_of (GatewayProfile p) =
     (\<lparr>gr_method = GET, gr_path = device_path p, gr_query = [], gr_body = []\<rparr>, feature_identity_candidates)"
| "gateway_request_of (GatewayBind p b) =
     (\<lparr>gr_method = POST, gr_path = device_path p @ ''/bindings'', gr_query = [], gr_body = b\<rparr>, feature_identity_bindings)"
| "gateway_request_of (GatewayRevoke p i) =
     (\<lparr>gr_method = DELETE, gr_path = device_path p @ ''/bindings/'' @ decimal_int i, gr_query = [], gr_body = []\<rparr>, feature_identity_bindings)"
| "gateway_request_of (GatewaySplit p b) =
     (\<lparr>gr_method = POST, gr_path = device_path p @ ''/split'', gr_query = [], gr_body = b\<rparr>, feature_identity_split)"

definition call_gateway ::
  "(gateway_request \<Rightarrow> (string \<times> string) answer) \<Rightarrow> gateway_call \<Rightarrow> dis_client \<Rightarrow> gateway_response \<times> dis_client" where
  "call_gateway world g c = (case gateway_request_of g of (rq, feature) \<Rightarrow> identity_request world rq feature c)"

subsection \<open>Runs of the client\<close>

inductive client_run :: "dis_client \<Rightarrow> bool" where
  client_start: "lias_run l \<Longrightarrow> client_run (new_dis_client l b)"
| client_poll: "client_run c \<Longrightarrow> range_order (devices (client_cache c)) ks \<Longrightarrow> client_run (poll_devices em now ks ans c)"
| client_event: "client_run c \<Longrightarrow> mig = Some (\<lambda>old new mms l. coordinate mo lk pk old new mms l) \<Longrightarrow>
    client_run (handle_event jv mig em now fetch e c)"
| client_capabilities: "client_run c \<Longrightarrow> client_run (refresh_capabilities now ca c)"
| client_gateway: "client_run c \<Longrightarrow> call_gateway world g c = (r, c') \<Longrightarrow> client_run c'"
| client_request: "client_run c \<Longrightarrow> serve mo q (dc_lias c) = (r, l) \<Longrightarrow> client_run (c\<lparr>dc_lias := l\<rparr>)"
| client_sweep: "client_run c \<Longrightarrow> client_run (c\<lparr>dc_lias := sweep_pass mo (dc_lias c)\<rparr>)"
| client_sync: "client_run c \<Longrightarrow> client_run (c\<lparr>dc_lias := (dc_lias c)\<lparr>li_triggered := False\<rparr>\<rparr>)"

end
