(* ===== verification/Dis_Api.thy ===== *)
theory Dis_Api
  imports Dis_Review Dis_Enrich Browser_Session Dis_Client
begin

text \<open>
  The HTTP interface of the discovery service (\<open>internal/api/handlers.go\<close>, \<open>middleware.go\<close>): the bearer token, the
  routes, every handler as a function of the request and the service's state, and the answers. A body is given as
  the JSON decoder finds it; the value of an answer stands for its encoding. The event stream itself is in the
  theory of the event brokers.
\<close>

subsection \<open>Requests and answers\<close>

datatype 'a json_input = NoInput | BadInput | OneValue 'a | FollowedValue 'a

datatype dis_call =
  DisCapabilities
| DisListDevices string string
| DisGetDevice string
| DisRefresh string
| DisProfile string
| DisBind string "(alias_type \<times> string \<times> string) json_input"
| DisRevoke string string
| DisCandidates "(string \<times> string) list"
| DisCandidate string
| DisConfirm string "decision_request json_input"
| DisReject string "decision_request json_input"
| DisReopen string "decision_request json_input"
| DisSplit string "(string \<times> string list) json_input"

datatype dis_body =
  CapabilitiesBody capabilities | InventoryBody "device list" nat | RecordBody device | AcceptedBody
| ProfileBody identity_profile | AliasBody alias_row | CandidateBody candidate_detail
| CandidatesBody "candidate_detail list" string | EmptyBody | ApiError string bool | PlainError string
| ReviewError review_error | HealthBody

text \<open>A handler that panics is cut off by the server; what the multiplexer answers itself (not found, another method, a
  redirect to the clean path) and the event stream are \<open>MuxReply\<close>.\<close>

datatype dis_reply = DisReply (reply_status: nat) (reply_body: dis_body) | CutOff | MuxReply

record dis_api =
  da_engine :: dis_engine
  da_orch :: "orchestrator option"
  da_managed :: bool

definition empty_decision :: decision_request where
  "empty_decision = \<lparr>dr_source = [], dr_target = [], dr_updated = None, dr_note = []\<rparr>"

definition decode_identity_json :: "'a option \<Rightarrow> 'a json_input \<Rightarrow> 'a option" where
  "decode_identity_json dflt b =
     (case b of NoInput \<Rightarrow> dflt | BadInput \<Rightarrow> None | OneValue v \<Rightarrow> Some v | FollowedValue _ \<Rightarrow> None)"

definition decision_body :: "decision_request json_input \<Rightarrow> decision_request option" where
  "decision_body b = (case decode_identity_json (Some empty_decision) b of None \<Rightarrow> None
     | Some q \<Rightarrow> if 1024 < length (dr_note q) then None else Some q)"

definition write_candidate_result :: "(review_error + dis_body) \<Rightarrow> nat \<Rightarrow> dis_reply" where
  "write_candidate_result r st =
     (case r of
        Inl CandidateNotFound \<Rightarrow> DisReply 404 (ApiError ''candidate_not_found'' False)
      | Inl CandidateStale \<Rightarrow> DisReply 409 (ApiError ''candidate_stale_or_conflicting'' False)
      | Inl _ \<Rightarrow> DisReply 400 (ApiError ''invalid_request'' False)
      | Inr b \<Rightarrow> DisReply st b)"

definition write_identity_result :: "(review_error + dis_body) \<Rightarrow> nat \<Rightarrow> dis_reply" where
  "write_identity_result r st = (case r of Inl err \<Rightarrow> DisReply 400 (ReviewError err) | Inr b \<Rightarrow> DisReply st b)"

definition unavailable_review :: dis_reply where
  "unavailable_review = DisReply 503 (PlainError ''identity persistence unavailable'')"

definition candidate_missing :: dis_reply where
  "candidate_missing = DisReply 404 (ApiError ''candidate_not_found'' False)"

definition bad_decision :: dis_reply where
  "bad_decision = DisReply 400 (ApiError ''invalid_request'' False)"

subsection \<open>Devices\<close>

definition listed_device :: "string \<Rightarrow> string \<Rightarrow> device \<Rightarrow> bool" where
  "listed_device on_filter type_filter d \<longleftrightarrow>
     (on_filter \<noteq> [] \<longrightarrow> online d = (on_filter = ''true'' \<or> on_filter = ''1''))
     \<and> (to_lower (trim_space type_filter) \<noteq> [] \<longrightarrow> to_lower (device_type d) = to_lower (trim_space type_filter))"

text \<open>\<open>ks\<close> is the order of the device map.\<close>

definition dis_list_devices :: "string list \<Rightarrow> string \<Rightarrow> string \<Rightarrow> dis_api \<Rightarrow> dis_reply" where
  "dis_list_devices ks on_filter type_filter a =
     (let ds = filter (listed_device on_filter type_filter) (list_devices ks (en_cache (da_engine a)))
      in DisReply 200 (InventoryBody ds (length ds)))"

definition resolved :: "world \<Rightarrow> string \<Rightarrow> dis_api \<Rightarrow> string \<times> dis_api" where
  "resolved w p a = (if da_managed a then (case engine_pdid w p (da_engine a) of (q, e) \<Rightarrow> (q, a\<lparr>da_engine := e\<rparr>)) else (p, a))"

definition no_device :: dis_reply where "no_device = DisReply 404 (PlainError ''device not found'')"

definition dis_get_device :: "world \<Rightarrow> string \<Rightarrow> dis_api \<Rightarrow> dis_reply \<times> dis_api" where
  "dis_get_device w p a = (case resolved w p a of (q, a1) \<Rightarrow>
     (case get_device q (en_cache (da_engine a1)) of None \<Rightarrow> (no_device, a1) | Some d \<Rightarrow> (DisReply 200 (RecordBody d), a1)))"

definition dis_refresh :: "world \<Rightarrow> bool \<Rightarrow> string \<Rightarrow> dis_api \<Rightarrow> dis_reply \<times> dis_api" where
  "dis_refresh w pick p a = (case resolved w p a of (q, a1) \<Rightarrow>
     (case get_device q (en_cache (da_engine a1)) of None \<Rightarrow> (no_device, a1)
      | Some _ \<Rightarrow> (DisReply 202 AcceptedBody,
          a1\<lparr>da_orch := map_option (trigger_enrichment (wd_now w) pick (en_cache (da_engine a1)) q True) (da_orch a1)\<rparr>)))"

subsection \<open>The identity review\<close>

definition dis_profile :: "world \<Rightarrow> string \<Rightarrow> dis_api \<Rightarrow> dis_reply \<times> dis_api" where
  "dis_profile w p a =
     (if \<not> da_managed a then (unavailable_review, a)
      else (case get_identity_profile w p (da_engine a) of
          (r, e) \<Rightarrow> (write_identity_result (map_sum id ProfileBody r) 200, a\<lparr>da_engine := e\<rparr>)))"

definition dis_bind :: "world \<Rightarrow> string \<Rightarrow> (alias_type \<times> string \<times> string) json_input \<Rightarrow> dis_api \<Rightarrow> dis_reply \<times> dis_api" where
  "dis_bind w p b a =
     (if \<not> da_managed a then (unavailable_review, a)
      else (case decode_identity_json None b of
          None \<Rightarrow> (DisReply 400 (PlainError ''invalid request''), a)
        | Some (t, v, src) \<Rightarrow> (case bind_identity_alias w p t v src (da_engine a) of
            (r, e) \<Rightarrow> (write_identity_result (map_sum id AliasBody r) 201, a\<lparr>da_engine := e\<rparr>))))"

text \<open>Ids of the tables start at one, so a negative id is that of no row, as zero is.\<close>

definition dis_revoke :: "world \<Rightarrow> alias_index list \<Rightarrow> string \<Rightarrow> string \<Rightarrow> dis_api \<Rightarrow> dis_reply \<times> dis_api" where
  "dis_revoke w ks p s a =
     (let missing = DisReply 404 (PlainError ''identity alias not found'') in
      case parse_int s of (i, good) \<Rightarrow>
        if \<not> good \<or> \<not> da_managed a then (missing, a)
        else (case revoke_alias w ks p (nat i) (da_engine a) of
            (Inl _, e) \<Rightarrow> (missing, a\<lparr>da_engine := e\<rparr>)
          | (Inr _, e) \<Rightarrow> (DisReply 204 EmptyBody, a\<lparr>da_engine := e\<rparr>)))"

definition dis_confirm :: "world \<Rightarrow> string \<Rightarrow> decision_request json_input \<Rightarrow> dis_api \<Rightarrow> dis_reply \<times> dis_api" where
  "dis_confirm w s b a =
     (case parse_int s of (i, good) \<Rightarrow>
        if \<not> good \<or> \<not> da_managed a then (DisReply 404 (PlainError ''candidate not found''), a)
        else (case decision_body b of None \<Rightarrow> (bad_decision, a)
          | Some q \<Rightarrow> (case confirm_candidate w (nat i) q (da_engine a) of
              (r, e) \<Rightarrow> (write_candidate_result (map_sum id RecordBody r) 200, a\<lparr>da_engine := e\<rparr>))))"

definition dis_reject :: "world \<Rightarrow> string \<Rightarrow> decision_request json_input \<Rightarrow> dis_api \<Rightarrow> dis_reply \<times> dis_api" where
  "dis_reject w s b a =
     (case parse_int s of (i, good) \<Rightarrow>
        if \<not> good \<or> \<not> da_managed a then (candidate_missing, a)
        else (case decision_body b of None \<Rightarrow> (bad_decision, a)
          | Some q \<Rightarrow> (case reject_candidate w (nat i) q (da_engine a) of
              (None, e) \<Rightarrow> (CutOff, a\<lparr>da_engine := e\<rparr>)
            | (Some (Inl err), e) \<Rightarrow> (write_candidate_result (Inl err) 200, a\<lparr>da_engine := e\<rparr>)
            | (Some (Inr _), e) \<Rightarrow> (DisReply 204 EmptyBody, a\<lparr>da_engine := e\<rparr>))))"

definition dis_reopen :: "world \<Rightarrow> string \<Rightarrow> decision_request json_input \<Rightarrow> dis_api \<Rightarrow> dis_reply \<times> dis_api" where
  "dis_reopen w s b a =
     (case parse_int s of (i, good) \<Rightarrow>
        if \<not> good \<or> i < 1 \<or> \<not> da_managed a then (candidate_missing, a)
        else (case decision_body b of None \<Rightarrow> (bad_decision, a)
          | Some q \<Rightarrow> (case reopen_candidate w (nat i) q (da_engine a) of
              (None, e) \<Rightarrow> (CutOff, a\<lparr>da_engine := e\<rparr>)
            | (Some r, e) \<Rightarrow> (write_candidate_result (map_sum id CandidateBody r) 200, a\<lparr>da_engine := e\<rparr>))))"

definition dis_candidate :: "world \<Rightarrow> string \<Rightarrow> dis_api \<Rightarrow> dis_reply \<times> dis_api" where
  "dis_candidate w s a =
     (case parse_int s of (i, good) \<Rightarrow>
        if \<not> good \<or> i < 1 \<or> \<not> da_managed a then (candidate_missing, a)
        else (case get_candidate w (nat i) (da_engine a) of
            (r, e) \<Rightarrow> (write_candidate_result (map_sum id CandidateBody r) 200, a\<lparr>da_engine := e\<rparr>)))"

text \<open>The query as the keys that occur with their first values; \<open>enc\<close> and \<open>dec\<close> are the text of a cursor.\<close>

definition query_value :: "(string \<times> string) list \<Rightarrow> string \<Rightarrow> string" where
  "query_value q k = (case map_of q k of None \<Rightarrow> [] | Some v \<Rightarrow> v)"

definition dis_candidates ::
  "(time \<times> int \<Rightarrow> string) \<Rightarrow> (string \<Rightarrow> (time \<times> int) option) \<Rightarrow> world \<Rightarrow> (string \<times> string) list \<Rightarrow> dis_api \<Rightarrow> dis_reply \<times> dis_api" where
  "dis_candidates enc dec w q a =
     (if \<not> da_managed a then (DisReply 503 (ApiError ''identity_unavailable'' True), a)
      else if \<exists>k \<in> fst ` set q. k \<noteq> ''status'' \<and> k \<noteq> ''limit'' \<and> k \<noteq> ''cursor'' then (DisReply 400 (ApiError ''invalid_query'' False), a)
      else
        let st = trim_space (query_value q ''status''); raw = query_value q ''limit'' in
        if st \<noteq> [] \<and> st \<notin> {''pending'', ''rejected'', ''confirmed''} then (DisReply 400 (ApiError ''invalid_status'' False), a)
        else (case (if raw = [] then (50, True) else parse_int raw) of (n, good) \<Rightarrow>
          if \<not> good \<or> n < 1 \<or> 100 < n then (DisReply 400 (ApiError ''invalid_limit'' False), a)
          else (case list_candidates enc dec w st n (query_value q ''cursor'') (da_engine a) of
              (None, e) \<Rightarrow> (CutOff, a\<lparr>da_engine := e\<rparr>)
            | (Some r, e) \<Rightarrow>
                (write_candidate_result (map_sum id (\<lambda>(cs, next). CandidatesBody cs next) r) 200, a\<lparr>da_engine := e\<rparr>))))"

definition dis_split :: "world \<Rightarrow> string \<Rightarrow> (string \<times> string list) json_input \<Rightarrow> dis_api \<Rightarrow> dis_reply \<times> dis_api" where
  "dis_split w p b a =
     (if \<not> da_managed a then (unavailable_review, a)
      else (case decode_identity_json None b of
          None \<Rightarrow> (DisReply 400 (PlainError ''invalid request''), a)
        | Some (mac, moved) \<Rightarrow> (case split_identity w p mac moved (da_engine a) of
            (r, e) \<Rightarrow> (write_identity_result (map_sum id RecordBody r) 201, a\<lparr>da_engine := e\<rparr>))))"

text \<open>What the service is given beside the request: the world, the orders of its maps, the choice of the
  orchestrator's \<open>select\<close>, and the text of a cursor.\<close>

record setting =
  st_world :: world
  st_devices :: "string list"
  st_aliases :: "alias_index list"
  st_pick :: bool
  st_enc :: "time \<times> int \<Rightarrow> string"
  st_dec :: "string \<Rightarrow> (time \<times> int) option"

fun dis_serve :: "setting \<Rightarrow> dis_call \<Rightarrow> dis_api \<Rightarrow> dis_reply \<times> dis_api" where
  "dis_serve s DisCapabilities a = (DisReply 200 (CapabilitiesBody dis_capabilities), a)"
| "dis_serve s (DisListDevices on_filter type_filter) a = (dis_list_devices (st_devices s) on_filter type_filter a, a)"
| "dis_serve s (DisGetDevice p) a = dis_get_device (st_world s) p a"
| "dis_serve s (DisRefresh p) a = dis_refresh (st_world s) (st_pick s) p a"
| "dis_serve s (DisProfile p) a = dis_profile (st_world s) p a"
| "dis_serve s (DisBind p b) a = dis_bind (st_world s) p b a"
| "dis_serve s (DisRevoke p i) a = dis_revoke (st_world s) (st_aliases s) p i a"
| "dis_serve s (DisCandidates q) a = dis_candidates (st_enc s) (st_dec s) (st_world s) q a"
| "dis_serve s (DisCandidate i) a = dis_candidate (st_world s) i a"
| "dis_serve s (DisConfirm i b) a = dis_confirm (st_world s) i b a"
| "dis_serve s (DisReject i b) a = dis_reject (st_world s) i b a"
| "dis_serve s (DisReopen i b) a = dis_reopen (st_world s) i b a"
| "dis_serve s (DisSplit p b) a = dis_split (st_world s) p b a"

subsection \<open>The token\<close>

definition bearer_matches :: "string \<Rightarrow> string \<Rightarrow> bool" where
  "bearer_matches token header =
     (case split_once header of None \<Rightarrow> False | Some (scheme, provided) \<Rightarrow> equal_fold scheme ''Bearer'' \<and> provided = token)"

definition dis_guard :: "string \<Rightarrow> string \<Rightarrow> dis_reply option" where
  "dis_guard token header =
     (if token = [] then None
      else if header = [] then Some (DisReply 401 (PlainError ''missing authorization header''))
      else if \<not> bearer_matches token header then Some (DisReply 401 (PlainError ''invalid or malformed authorization token''))
      else None)"

subsection \<open>The routes\<close>

text \<open>\<open>url.PathUnescape\<close>; \<open>None\<close> is an error.\<close>

fun path_unescape :: "string \<Rightarrow> string option" where
  "path_unescape [] = Some []"
| "path_unescape (c # s) =
     (if c = CHR ''%'' then
        (case s of a # b # r \<Rightarrow>
           (case (hex_val a, hex_val b) of (Some x, Some y) \<Rightarrow> map_option ((#) (char_of (16 * x + y))) (path_unescape r)
            | _ \<Rightarrow> None)
         | _ \<Rightarrow> None)
      else map_option ((#) c) (path_unescape s))"

text \<open>A path that is not clean is redirected. A segment that cannot be decoded stands for itself, and one that decodes
  to a slash matches no wildcard.\<close>

definition clean_path :: "string \<Rightarrow> bool" where
  "clean_path s = (case split_char (CHR ''/'') s of
     [] # segs \<Rightarrow> segs \<noteq> [] \<and> [] \<notin> set (butlast segs) \<and> ''.'' \<notin> set segs \<and> ''..'' \<notin> set segs | _ \<Rightarrow> False)"

definition path_segments :: "string \<Rightarrow> string list option" where
  "path_segments s =
     (if clean_path s \<and> [] \<notin> set (tl (split_char (CHR ''/'') s))
      then Some (map (\<lambda>x. case path_unescape x of None \<Rightarrow> x | Some y \<Rightarrow> y) (tl (split_char (CHR ''/'') s))) else None)"

text \<open>The bodies of a request, as the handler that wants one finds it.\<close>

record body_view =
  bv_binding :: "string \<Rightarrow> (alias_type \<times> string \<times> string) json_input"
  bv_decision :: "string \<Rightarrow> decision_request json_input"
  bv_split :: "string \<Rightarrow> (string \<times> string list) json_input"

definition api_rest :: "string list \<Rightarrow> string list option" where
  "api_rest segs = (case segs of x # y # r \<Rightarrow> if x = ''api'' \<and> y = ''v1'' then Some r else None | _ \<Rightarrow> None)"

definition route_get :: "string list \<Rightarrow> (string \<times> string) list \<Rightarrow> dis_call option" where
  "route_get segs q =
     (case segs of
        [x] \<Rightarrow> if x = ''capabilities'' then Some DisCapabilities
               else if x = ''devices'' then Some (DisListDevices (query_value q ''online'') (query_value q ''type'')) else None
      | [x, y] \<Rightarrow> if x = ''devices'' \<and> y \<noteq> ''/'' then Some (DisGetDevice y)
               else if x = ''identity'' \<and> y = ''candidates'' then Some (DisCandidates q) else None
      | [x, y, z] \<Rightarrow> if x = ''devices'' \<and> y \<noteq> ''/'' \<and> z = ''identity'' then Some (DisProfile y)
               else if x = ''identity'' \<and> y = ''candidates'' \<and> z \<noteq> ''/'' then Some (DisCandidate z) else None
      | _ \<Rightarrow> None)"

definition route_post :: "body_view \<Rightarrow> string list \<Rightarrow> string \<Rightarrow> dis_call option" where
  "route_post v segs b =
     (case segs of
        [x, y, z] \<Rightarrow> if x = ''devices'' \<and> y \<noteq> ''/'' \<and> z = ''refresh'' then Some (DisRefresh y) else None
      | [x, y, z, t] \<Rightarrow>
          if x = ''devices'' \<and> y \<noteq> ''/'' \<and> z = ''identity'' \<and> t = ''bindings'' then Some (DisBind y (bv_binding v b))
          else if x = ''devices'' \<and> y \<noteq> ''/'' \<and> z = ''identity'' \<and> t = ''split'' then Some (DisSplit y (bv_split v b))
          else if x = ''identity'' \<and> y = ''candidates'' \<and> z \<noteq> ''/'' then
            (if t = ''confirm'' then Some (DisConfirm z (bv_decision v b))
             else if t = ''reject'' then Some (DisReject z (bv_decision v b))
             else if t = ''reopen'' then Some (DisReopen z (bv_decision v b)) else None)
          else None
      | _ \<Rightarrow> None)"

definition route_delete :: "string list \<Rightarrow> dis_call option" where
  "route_delete segs =
     (case segs of [x, y, z, t, u] \<Rightarrow>
        if x = ''devices'' \<and> y \<noteq> ''/'' \<and> z = ''identity'' \<and> t = ''bindings'' \<and> u \<noteq> ''/'' then Some (DisRevoke y u) else None
      | _ \<Rightarrow> None)"

text \<open>\<open>None\<close>: no handler of this theory (an unknown path, another method, or the event stream).\<close>

definition route :: "body_view \<Rightarrow> gateway_request \<Rightarrow> dis_call option" where
  "route v rq =
     (case Option.bind (path_segments (gr_path rq)) api_rest of None \<Rightarrow> None
      | Some segs \<Rightarrow> (case gr_method rq of GET \<Rightarrow> route_get segs (gr_query rq) | POST \<Rightarrow> route_post v segs (gr_body rq)
          | DELETE \<Rightarrow> route_delete segs))"

text \<open>The outer multiplexer: the health check needs no token.\<close>

definition dis_http :: "string \<Rightarrow> string \<Rightarrow> body_view \<Rightarrow> setting \<Rightarrow> gateway_request \<Rightarrow> dis_api \<Rightarrow> dis_reply \<times> dis_api" where
  "dis_http token header v s rq a =
     (if \<not> clean_path (gr_path rq) then (MuxReply, a)
      else if gr_method rq = GET \<and> path_segments (gr_path rq) = Some [''health''] then (DisReply 200 HealthBody, a)
      else (case dis_guard token header of
          Some r \<Rightarrow> (r, a)
        | None \<Rightarrow> (case route v rq of None \<Rightarrow> (MuxReply, a) | Some c \<Rightarrow> dis_serve s c a)))"

end
