(* ===== verification/Dis_Client_Props.thy ===== *)
theory Dis_Client_Props
  imports Dis_Client Lias_Users
begin

text \<open>
  What the client of the discovery service keeps and what it never does.
\<close>

subsection \<open>The frames of one service are the events of the other\<close>

definition frame_data :: "('p \<Rightarrow> string) \<Rightarrow> 'p event \<Rightarrow> string" where
  "frame_data enc e = (if enc (ev_payload e) \<noteq> [] then enc (ev_payload e) else ''{}'')"

text \<open>The texts fit into a line of the stream.\<close>

definition fits_line :: "string \<Rightarrow> bool" where
  "fits_line s \<longleftrightarrow> newline \<notin> set s \<and> (s \<noteq> [] \<longrightarrow> last s \<noteq> CHR 0x0D) \<and> length s + 7 < max_sse_event_bytes"

definition sendable :: "('p \<Rightarrow> string) \<Rightarrow> 'p event \<Rightarrow> bool" where
  "sendable enc e \<longleftrightarrow> fits_line (event_name (ev_type e)) \<and> fits_line (enc (ev_payload e))
     \<and> (\<forall>s. ev_type e = EventOther s \<longrightarrow> event_type_of s = EventOther s)"

lemma length_decimal_nat: "n < 10 ^ Suc k \<Longrightarrow> length (decimal_nat n) \<le> Suc k"
proof (induction k arbitrary: n)
  case (Suc k)
  show ?case
  proof (cases "n < 10")
    case False
    have "n div 10 < 10 ^ Suc k" using Suc.prems by (simp add: less_mult_imp_div_less mult.commute)
    with Suc.IH [of "n div 10"] False show ?thesis by (simp add: decimal_nat.simps [of n])
  qed (subst decimal_nat.simps, simp)
qed (subst decimal_nat.simps, simp)

lemma digit_not_newline: "is_digit c \<Longrightarrow> c \<noteq> newline \<and> c \<noteq> CHR 0x0D"
  by (auto simp: is_digit_def newline_def byte_def)

lemma decimal_int_fits: "\<bar>n\<bar> < 10 ^ 20 \<Longrightarrow> fits_line (decimal_int n)"
proof -
  assume n: "\<bar>n\<bar> < 10 ^ 20"
  define m where "m = nat \<bar>n\<bar>"
  have "m < 10 ^ Suc 19" using n by (simp add: m_def nat_less_iff)
  then have len: "length (decimal_nat m) \<le> 20" using length_decimal_nat by fastforce
  have dig: "\<forall>c \<in> set (decimal_nat m). is_digit c" "decimal_nat m \<noteq> []" by (rule decimal_nat_digits)+
  have "last (decimal_nat m) \<in> set (decimal_nat m)" using dig(2) by simp
  then have l: "last (decimal_nat m) \<noteq> CHR 0x0D" using dig(1) digit_not_newline by blast
  have nl: "newline \<notin> set (decimal_nat m)" using dig(1) digit_not_newline by blast
  have "decimal_int n = decimal_nat m \<or> decimal_int n = CHR ''-'' # decimal_nat m" by (auto simp: decimal_int_def m_def)
  then show ?thesis using len l nl dig(2) by (auto simp: fits_line_def max_sse_event_bytes_def newline_def)
qed

lemma event_id_fits: "fits_line (event_id e)"
proof -
  have "- (2 ^ 63) \<le> unix_nano (ev_timestamp e)" "unix_nano (ev_timestamp e) < 2 ^ 63" by (simp_all add: unix_nano_def)
  then have "\<bar>unix_nano (ev_timestamp e)\<bar> < 10 ^ 20" by simp
  then show ?thesis unfolding event_id_def by (rule decimal_int_fits)
qed

lemma scan_line:
  assumes "fits_line s" "length p \<le> 7" "p \<noteq> []" "last p \<noteq> CHR 0x0D"
  shows "drop_cr (p @ s) = p @ s" "\<not> max_sse_event_bytes \<le> length (p @ s)"
  using assms by (auto simp: drop_cr_def fits_line_def last_append)

lemma event_type_name: "event_type_of (event_name t) = t \<longleftrightarrow> (\<forall>s. t = EventOther s \<longrightarrow> event_type_of s = EventOther s)"
  by (cases t) (simp_all add: event_name_def event_type_of_def)

lemma name_ne: "event_name (ev_type e) \<noteq> [] \<or> ev_type e = EventOther []"
  by (cases "ev_type e") (simp_all add: event_name_def)

lemma scan_type: "fits_line s \<Longrightarrow> scan_events ((''event: '' @ s) # ls) ty buf = scan_events ls s buf"
  using scan_line [of s "''event: ''"] by (simp add: Let_def has_prefix_def trim_prefix_def)

lemma scan_id: "fits_line s \<Longrightarrow> scan_events ((''id: '' @ s) # ls) ty buf = scan_events ls ty buf"
  using scan_line [of s "''id: ''"] by (simp add: Let_def has_prefix_def trim_prefix_def)

lemma scan_data:
  "fits_line s \<Longrightarrow> s \<noteq> [] \<Longrightarrow> scan_events ((''data: '' @ s) # [] # ls) ty [] =
     (case scan_events ls [] [] of (es, x) \<Rightarrow> ((ty, s) # es, x))"
  using scan_line [of s "''data: ''"]
  by (auto simp: Let_def has_prefix_def trim_prefix_def drop_cr_def fits_line_def max_sse_event_bytes_def)

lemma frame_lines:
  assumes "sendable enc e"
  shows "stream_lines (sse_frame enc e @ rest) =
     (''event: '' @ event_name (ev_type e)) # (if is_zero (ev_timestamp e) then [] else [''id: '' @ event_id e])
     @ (''data: '' @ frame_data enc e) # [] # stream_lines rest"
proof -
  have nl: "newline \<notin> set (''event: '' @ event_name (ev_type e))" "newline \<notin> set (''data: '' @ frame_data enc e)"
      "newline \<notin> set (''id: '' @ event_id e)"
    using assms event_id_fits [of e] by (auto simp: sendable_def fits_line_def frame_data_def newline_def)
  have c: "''\<newline>'' = [newline]" by (simp add: newline_def)
  have "sse_frame enc e @ rest = (''event: '' @ event_name (ev_type e)) @ newline #
      ((if is_zero (ev_timestamp e) then [] else (''id: '' @ event_id e) @ [newline])
      @ (''data: '' @ frame_data enc e) @ newline # ([] @ newline # rest))"
    by (simp add: sse_frame_def frame_data_def newline_def)
  then show ?thesis
    using stream_lines_line [OF nl(1)] stream_lines_line [OF nl(2)] stream_lines_line [OF nl(3)]
      stream_lines_line [of "[]" rest]
    by simp
qed

lemma scan_frame:
  assumes "sendable enc e"
  shows "scan_events (stream_lines (sse_frame enc e @ rest)) [] [] =
     (case scan_events (stream_lines rest) [] [] of (es, x) \<Rightarrow> ((event_name (ev_type e), frame_data enc e) # es, x))"
proof -
  have fits: "fits_line (event_name (ev_type e))" "fits_line (frame_data enc e)" "frame_data enc e \<noteq> []"
    using assms by (auto simp: sendable_def frame_data_def fits_line_def max_sse_event_bytes_def newline_def)
  show ?thesis unfolding frame_lines [OF assms]
    using scan_type [OF fits(1)] scan_data [OF fits(2,3)] scan_id [OF event_id_fits [of e]] by (simp del: scan_events.simps)
qed

text \<open>C29: Every event the discovery service streams arrives: the client reads from the frames of any sequence of events
  exactly these events, in order, with their types and payloads, as long as no text has a line break or is longer
  than a line may be.\<close>

theorem streamed_events_arrive:
  assumes "\<forall>e \<in> set es. sendable enc e"
  shows "scan_events (stream_lines (concat (map (sse_frame enc) es))) [] [] =
       (map (\<lambda>e. (event_name (ev_type e), frame_data enc e)) es, ClosedByServer)
     \<and> map (\<lambda>e. ev_type (stream_event jv (event_name (ev_type e), frame_data enc e))) es = map ev_type es"
proof -
  have "scan_events (stream_lines (concat (map (sse_frame enc) es))) [] [] =
       (map (\<lambda>e. (event_name (ev_type e), frame_data enc e)) es, ClosedByServer)"
    using assms by (induction es) (simp_all add: stream_lines_Nil scan_frame)
  moreover have "ev_type (stream_event jv (event_name (ev_type e), d)) = ev_type e" if "e \<in> set es" for e d
    using that assms event_type_name [of "ev_type e"] by (auto simp: stream_event_def set_target_pdid_def sendable_def)
  ultimately show ?thesis by simp
qed

definition two_events :: "string event list" where
  "two_events = [new_event (7 * second) EventDeviceOnline ''p1'' ''{\"pdid\":1}'', new_event (8 * second) (EventOther ''future'') ''p1'' []]"

theorem streamed_events_arrive_witness:
  "scan_events (stream_lines (concat (map (sse_frame id) two_events))) [] [] =
     ([(''device.online'', ''{\"pdid\":1}''), (''future'', ''{}'')], ClosedByServer)"
proof -
  have "\<forall>e \<in> set two_events. sendable id e"
    by (auto simp: two_events_def sendable_def new_event_def event_name_def fits_line_def newline_def max_sse_event_bytes_def
        event_type_of_def)
  from streamed_events_arrive [OF this] show ?thesis
    by (simp add: two_events_def new_event_def event_name_def frame_data_def)
qed

subsection \<open>The poll makes the mirror the inventory\<close>

text \<open>The record shown is the one listed, up to the names, owners and tags the scheduler lays over it.\<close>

definition shows_record :: "local_device \<Rightarrow> device \<Rightarrow> bool" where
  "shows_record x d \<longleftrightarrow> (dev x)\<lparr>dev_tags := dev_tags d, friendly_name := friendly_name d, user_id := user_id d\<rparr> = d"

definition seen_lately :: "time \<Rightarrow> (string \<rightharpoonup> time) \<Rightarrow> string \<Rightarrow> bool" where
  "seen_lately now m p \<longleftrightarrow> (case m p of Some t \<Rightarrow> time_sub now t < grace | None \<Rightarrow> False)"

lemma shows_record_layers:
  "shows_record x d \<Longrightarrow> shows_record (set_local_tags ts x) d" "shows_record x d \<Longrightarrow> shows_record (default_tags x) d"
  "shows_record x d \<Longrightarrow> shows_record (apply_local_metadata c x) d"
  by (auto simp: shows_record_def set_local_tags_def default_tags_def apply_local_metadata_def Let_def split: option.split)

lemma upsert_mirrored:
  assumes "pdid d \<noteq> []"
  obtains x where "devices (upsert_device em d c) = (devices c)(pdid d \<mapsto> x)" "shows_record x d"
proof -
  have sticky: "devices (fst (apply_sticky_tag c y)) = devices c \<and> (shows_record y d \<longrightarrow> shows_record (snd (apply_sticky_tag c y)) d)" for y
    by (cases rule: apply_sticky_cases [of c y]) (simp_all add: shows_record_layers)
  have base: "shows_record \<lparr>dev = d, local_tags = t, local_policy = p, local_next = n\<rparr> d" "shows_record (e\<lparr>dev := d\<rparr>) d" for t p n e
    by (simp_all add: shows_record_def)
  have "\<exists>x. devices (upsert_device em d c) = (devices c)(pdid d \<mapsto> x) \<and> shows_record x d"
  proof (cases "devices c (pdid d)")
    case None
    then show ?thesis using assms sticky [of "\<lparr>dev = d, local_tags = [], local_policy = None, local_next = None\<rparr>"] base(1)
      by (auto simp: upsert_device_def Let_def bump_revision_def shows_record_layers(3) split: prod.splits)
  next
    case (Some e)
    then show ?thesis using assms sticky [of "e\<lparr>dev := d\<rparr>"] base(2) [of e]
      by (auto simp: upsert_device_def Let_def bump_revision_def shows_record_layers(3) split: prod.splits)
  qed
  then show thesis using that by blast
qed

lemma forgotten_devices:
  "devices (client_cache (forget_stale now A c p)) =
     (if p \<in> A \<or> seen_lately now (dc_seen c) p then devices (client_cache c) else (devices (client_cache c))(p := None))"
  by (auto simp: forget_stale_def seen_lately_def client_cache_def on_cache_def remove_device_def bump_revision_def fun_upd_idem
      split: option.splits)

lemma forgotten_seen: "q \<noteq> p \<Longrightarrow> dc_seen (forget_stale now A c p) q = dc_seen c q"
  by (simp add: forget_stale_def on_cache_def)

lemma forgotten_all:
  "distinct ks \<Longrightarrow> devices (client_cache (foldl (forget_stale now A) c ks)) q =
     (if q \<in> set ks \<and> q \<notin> A \<and> \<not> seen_lately now (dc_seen c) q then None else devices (client_cache c) q)"
proof (induction ks arbitrary: c)
  case (Cons p ks)
  have "seen_lately now (dc_seen (forget_stale now A c p)) q = seen_lately now (dc_seen c) q" if "q \<noteq> p"
    using forgotten_seen [OF that] by (simp add: seen_lately_def)
  with Cons show ?case by (cases "q = p") (simp_all add: forgotten_devices)
qed simp

lemma mirrored_devices:
  assumes "pdid d \<noteq> []"
  obtains x where "devices (client_cache (mirror_device em now c d)) = (devices (client_cache c))(pdid d \<mapsto> x)" "shows_record x d"
proof -
  obtain x where x: "devices (upsert_device (em (pdid d)) d (client_cache c)) = (devices (client_cache c))(pdid d \<mapsto> x)"
      "shows_record x d" using upsert_mirrored [OF assms] .
  have "client_cache (mirror_device em now c d) = upsert_device (em (pdid d)) d (client_cache c)"
    by (auto simp: mirror_device_def Let_def relay_def on_cache_def client_cache_def split: option.split)
  with x that show thesis by simp
qed

lemma mirrored_all:
  assumes "distinct (map pdid ds)" "[] \<notin> pdid ` set ds"
  shows "(\<forall>d \<in> set ds. \<exists>x. devices (client_cache (foldl (mirror_device em now) c ds)) (pdid d) = Some x \<and> shows_record x d)
     \<and> (\<forall>p. p \<notin> pdid ` set ds \<longrightarrow> devices (client_cache (foldl (mirror_device em now) c ds)) p = devices (client_cache c) p)"
  using assms
proof (induction ds arbitrary: c)
  case (Cons d ds)
  then have "pdid d \<noteq> []" by auto
  then obtain x where x: "devices (client_cache (mirror_device em now c d)) = (devices (client_cache c))(pdid d \<mapsto> x)"
      "shows_record x d" using mirrored_devices by blast
  have "pdid d \<notin> pdid ` set ds" using Cons.prems by auto
  then show ?case using Cons.IH [of "mirror_device em now c d"] Cons.prems x by auto
qed simp

lemma note_listed_other: "p \<notin> pdid ` set ds \<Longrightarrow> note_listed now ds m p = m p"
  unfolding note_listed_def by (induction ds arbitrary: m) auto

lemma poll_mirrors:
  assumes "range_order (devices (client_cache c)) ks" "distinct (map pdid ds)" "[] \<notin> pdid ` set ds"
    and "after = poll_devices em now ks (Answered 200 (Some ds)) c"
  shows "(\<forall>d \<in> set ds. \<exists>x. devices (client_cache after) (pdid d) = Some x
          \<and> (dev x)\<lparr>dev_tags := dev_tags d, friendly_name := friendly_name d, user_id := user_id d\<rparr> = d)
     \<and> (\<forall>p. p \<notin> pdid ` set ds \<longrightarrow> devices (client_cache after) p =
          (if \<exists>t. dc_seen c p = Some t \<and> time_sub now t < 5 * minute then devices (client_cache c) p else None))
     \<and> up_reachable (dc_upstream after) \<and> up_synced (dc_upstream after) = now"
proof -
  define c1 where "c1 = c\<lparr>dc_seen := note_listed now ds (dc_seen c)\<rparr>"
  define c2 where "c2 = foldl (forget_stale now (pdid ` set ds)) c1 ks"
  define c3 where "c3 = foldl (mirror_device em now) c2 ds"
  have ks: "distinct ks" "set ks = dom (devices (client_cache c))" using assms(1) by (simp_all add: range_order_def)
  have after: "client_cache after = client_cache c3" "up_reachable (dc_upstream after)" "up_synced (dc_upstream after) = now"
    by (simp_all add: assms(4) poll_devices_def apply_poll_def Let_def c1_def c2_def c3_def client_cache_def)
  have "(\<forall>d \<in> set ds. \<exists>x. devices (client_cache c3) (pdid d) = Some x \<and> shows_record x d)"
    and rest: "\<forall>p. p \<notin> pdid ` set ds \<longrightarrow> devices (client_cache c3) p = devices (client_cache c2) p"
    unfolding c3_def using mirrored_all [OF assms(2,3)] by blast+
  moreover have "devices (client_cache c2) p =
      (if \<exists>t. dc_seen c p = Some t \<and> time_sub now t < 5 * minute then devices (client_cache c) p else None)"
    if "p \<notin> pdid ` set ds" for p
  proof -
    have "seen_lately now (dc_seen c1) p \<longleftrightarrow> (\<exists>t. dc_seen c p = Some t \<and> time_sub now t < 5 * minute)"
      using note_listed_other [OF that] by (auto simp: c1_def seen_lately_def grace_def split: option.split)
    moreover have "client_cache c1 = client_cache c" by (simp add: c1_def client_cache_def)
    ultimately show ?thesis
      unfolding c2_def forgotten_all [OF ks(1)] using that ks(2) by (auto simp: dom_def)
  qed
  ultimately show ?thesis using after unfolding shows_record_def by simp
qed

text \<open>A successful poll makes the mirror the inventory of the discovery service: every listed device is shown with the
  record listed, under the scheduler's own names, owners and tags; a device that is not listed stays exactly as it is for
  five minutes after it was last listed and is gone after that.\<close>

theorem poll_mirrors_inventory:
  assumes "range_order (devices (client_cache c)) ks" "distinct (map pdid ds)" "[] \<notin> pdid ` set ds"
    and "after = poll_devices em now ks (Answered 200 (Some ds)) c"
  shows "(\<forall>d \<in> set ds. \<exists>x. devices (client_cache after) (pdid d) = Some x
          \<and> (dev x)\<lparr>dev_tags := dev_tags d, friendly_name := friendly_name d, user_id := user_id d\<rparr> = d)
     \<and> (\<forall>p. p \<notin> pdid ` set ds \<longrightarrow> devices (client_cache after) p =
          (if \<exists>t. dc_seen c p = Some t \<and> time_sub now t < 5 * minute then devices (client_cache c) p else None))
     \<and> up_reachable (dc_upstream after) \<and> up_synced (dc_upstream after) = now"
  using poll_mirrors [OF assms] .

definition polled_tv :: device where
  "polled_tv = empty_device\<lparr>pdid := ''p2'', current_mac := ''0a:00:00:00:00:02'', online := True\<rparr>"

definition client_polled :: dis_client where
  "client_polled = poll_devices (\<lambda>_. False) (mo_now noon) [''p1''] (Answered 200 (Some [polled_tv])) (new_dis_client house None)"

theorem poll_mirrors_inventory_witness:
  "(\<exists>x. devices (client_cache client_polled) ''p2'' = Some x \<and> online (dev x)) \<and> devices (client_cache client_polled) ''p1'' = None"
proof -
  let ?c = "new_dis_client house None"
  have ord: "range_order (devices (client_cache ?c)) [''p1'']"
    by (simp add: client_cache_def new_dis_client_def house_fields range_order_def)
  have polled_tv: "pdid polled_tv = ''p2''" "online polled_tv" by (simp_all add: polled_tv_def)
  have dist: "distinct (map pdid [polled_tv])" "[] \<notin> pdid ` set [polled_tv]" by (simp_all add: polled_tv)
  have seen: "dc_seen ?c ''p1'' = None" by (simp add: new_dis_client_def)
  note poll = poll_mirrors_inventory [OF ord dist client_polled_def]
  obtain x where x: "devices (client_cache client_polled) ''p2'' = Some x"
      "(dev x)\<lparr>dev_tags := dev_tags polled_tv, friendly_name := friendly_name polled_tv, user_id := user_id polled_tv\<rparr> = polled_tv"
    using conjunct1 [OF poll] unfolding list.set ball_simps polled_tv(1) by blast
  have "online (dev x)" using arg_cong [where f = online, OF x(2)] polled_tv(2) by simp
  moreover have "devices (client_cache client_polled) ''p1'' = None"
    using conjunct1 [OF conjunct2 [OF poll], THEN spec [of _ "''p1''"]] seen by (simp add: polled_tv(1))
  ultimately show ?thesis using x(1) by blast
qed

subsection \<open>Relayed events are not replayed\<close>

text \<open>An event of the discovery service is relayed without a timestamp: its frame has no id, and no reconnecting
  browser is sent it again.\<close>

lemma relayed_event_untimed:
  "ev_timestamp (stream_event jv x) = zero_time" "ev_timestamp (set_target_pdid e p) = ev_timestamp e"
  by (simp_all add: stream_event_def set_target_pdid_def split: prod.split)

lemma zero_time_before: "0 < seen \<Longrightarrow> \<not> seen < unix_nano zero_time"
  by (simp add: unix_nano_def zero_time_def second_def)

lemma relayed_never_replayed:
  assumes "0 < seen" "\<forall>e \<in> set es. ev_timestamp e = zero_time"
  shows "replay_events seen es c = c"
  using assms(2) by (induction es) (simp_all add: zero_time_before [OF assms(1)])

subsection \<open>A migration that fails\<close>

lemma failed_coordination:
  assumes "coordinate mo lk pk old new mms l = (Inl e, l')"
  shows "l' = l"
proof -
  let ?co = "\<lparr>co_store = map_option snd (li_store l), co_policies = li_policies l, co_cache = li_cache l\<rparr>"
  obtain r co where m: "migrate_identity (mo_out mo) (mo_now mo) (mo_policies mo) lk pk old new mms ?co = (r, co)"
    by (metis prod.collapse)
  have r: "r = Inl e" using assms m by (simp add: coordinate_def)
  have "co = ?co"
  proof (cases "li_store l")
    case (Some s)
    obtain r0 k db where "migrate_identity_state (mo_now mo) (mo_policies mo) old new (mo_out mo) (0, snd s) = (r0, k, db)"
      by (metis prod.collapse)
    with Some show ?thesis using m r migrate_fails_unchanged
      by (cases r0) (auto simp: migrate_identity_def split: if_splits)
  qed (use m r in \<open>auto simp: migrate_identity_def split: if_splits\<close>)
  then show ?thesis using assms m by (cases l) (auto simp: coordinate_def split: option.splits prod.splits)
qed

text \<open>When the migration of a re-identified device fails, the client stops there: the cache, the policies, the stored
  tables, the firewall trigger, the sightings and the browsers' event stream are as they were, so the same event can be
  delivered again and then has its full effect.\<close>

theorem failed_migration_is_silent:
  assumes "ev_type e = EventDeviceReidentified" "payload_text e \<noteq> []"
    and "jv_reidentified jv (payload_text e) = (old, fresh, mms)" "old \<noteq> []" "fresh \<noteq> []"
    and "coordinate mo lk pk old fresh mms (dc_lias c) = (Inl err, l')"
    and "after = handle_event jv (Some (coordinate mo lk pk)) em now fetch e c"
  shows "dc_lias after = dc_lias c \<and> dc_seen after = dc_seen c \<and> dc_broker after = dc_broker c
     \<and> dc_capabilities after = dc_capabilities c \<and> up_event (dc_upstream after) = now"
proof -
  have "l' = dc_lias c" using failed_coordination [OF assms(6)] .
  then show ?thesis using assms
    by (simp add: handle_event_def Let_def reidentified_event_def payload_text_def set_target_pdid_def)
qed

theorem failed_migration_is_silent_witness:
  "dc_lias (handle_event \<lparr>jv_identities = \<lambda>_. None, jv_device = \<lambda>_. None, jv_reidentified = \<lambda>_. (''p1'', ''p1'', [])\<rparr>
      (Some (coordinate noon [] [])) (\<lambda>_. False) (mo_now noon) (\<lambda>_. Unreachable)
      (stream_event \<lparr>jv_identities = \<lambda>_. None, jv_device = \<lambda>_. None, jv_reidentified = \<lambda>_. (''p1'', ''p1'', [])\<rparr>
        (''device.reidentified'', ''{}'')) (new_dis_client house None)) = house"
proof -
  let ?jv = "\<lparr>jv_identities = \<lambda>_. None, jv_device = \<lambda>_. None, jv_reidentified = \<lambda>_. (''p1'', ''p1'', [])\<rparr>"
  let ?e = "stream_event ?jv (''device.reidentified'', ''{}'')"
  have e: "ev_type ?e = EventDeviceReidentified" "payload_text ?e \<noteq> []"
    by (simp_all add: stream_event_def event_type_of_def set_target_pdid_def payload_text_def)
  have l: "dc_lias (new_dis_client house None) = house" by (simp add: new_dis_client_def)
  have m: "jv_reidentified ?jv (payload_text ?e) = (''p1'', ''p1'', [])" "''p1'' \<noteq> []" by simp_all
  obtain l' where c: "coordinate noon [] [] ''p1'' ''p1'' [] (dc_lias (new_dis_client house None)) = (Inl InvalidMigration, l')"
    by (simp add: coordinate_def migrate_identity_def)
  show ?thesis using failed_migration_is_silent [OF e m(1) m(2) m(2) c refl] l by metis
qed

subsection \<open>The gateway\<close>

text \<open>The scheduler asks the discovery service to review an identity only when that service is reachable and has
  announced the feature: otherwise the answer is 501 or 503 whatever the service would say, and nothing of the client
  changes.\<close>

theorem gateway_asks_only_when_announced:
  assumes "up_reachable (dc_upstream c) \<longrightarrow> up_legacy (dc_upstream c) \<or>
      (\<forall>ca. dc_capabilities c = Some ca \<longrightarrow> snd (gateway_request_of g) \<notin> set (ca_features ca))"
  shows "call_gateway world g c =
     ((if up_reachable (dc_upstream c) \<or> up_legacy (dc_upstream c) then GatewayError 501 ''feature_not_supported'' False
       else GatewayError 503 ''discovery_unavailable'' True), c)"
  using assms
  by (cases "gateway_request_of g") (auto simp: call_gateway_def identity_request_def feature_availability_def split: option.splits)

theorem gateway_asks_only_when_announced_witness:
  "fst (call_gateway (\<lambda>_. Answered 200 None) (GatewayCandidate 3)
      (refresh_capabilities (mo_now noon) (Answered 404 None) (new_dis_client house None))) =
     GatewayError 501 ''feature_not_supported'' False"
proof -
  let ?c = "refresh_capabilities (mo_now noon) (Answered 404 None) (new_dis_client house None)"
  have c: "up_legacy (dc_upstream ?c)" by (simp add: refresh_capabilities_def)
  then show ?thesis using gateway_asks_only_when_announced [of ?c "GatewayCandidate 3"] by simp
qed

subsection \<open>The client drives the service by its steps\<close>

lemma step_mirror:
  "lias_run (dc_lias c) \<Longrightarrow> lias_run (dc_lias (on_cache (upsert_device em d) c))"
  "lias_run (dc_lias c) \<Longrightarrow> lias_run (dc_lias (on_cache (remove_device p) c))"
  "lias_run (dc_lias c) \<Longrightarrow> lias_run (dc_lias (on_cache (patch_device_online p on) c))"
  "lias_run (dc_lias c) \<Longrightarrow> lias_run (dc_lias (client_trigger c))"
  "lias_run (dc_lias c) \<Longrightarrow> lias_run (dc_lias (relay e c))"
  "lias_run (dc_lias c) \<Longrightarrow> lias_run (dc_lias (record_upstream_error c))"
  by (simp_all add: on_cache_def client_trigger_def relay_def record_upstream_error_def lias_report lias_removal lias_patch lias_trigger)

lemma step_fetch: "lias_run (dc_lias c) \<Longrightarrow> lias_run (dc_lias (snd (fetch_single_device em ans c)))"
  by (auto simp: fetch_single_device_def step_mirror split: answer.split option.split)

lemma step_forget: "lias_run (dc_lias c) \<Longrightarrow> lias_run (dc_lias (foldl (forget_stale now A) c ks))"
  by (induction ks arbitrary: c) (simp_all add: forget_stale_def step_mirror)

lemma step_mirror_all: "lias_run (dc_lias c) \<Longrightarrow> lias_run (dc_lias (foldl (mirror_device em now) c ds))"
  by (induction ds arbitrary: c) (auto simp: mirror_device_def Let_def step_mirror split: option.split)

lemma step_poll: "lias_run (dc_lias c) \<Longrightarrow> lias_run (dc_lias (poll_devices em now ks ans c))"
  by (simp add: poll_devices_def apply_poll_def Let_def step_mirror step_forget step_mirror_all split: answer.split option.split)

lemma step_migration:
  "lias_run l \<Longrightarrow> coordinate mo lk pk old new mms l = (r, l') \<Longrightarrow> lias_run l'"
  using lias_migration [of l mo lk pk old new mms] by (simp add: migrate_devices_def)

lemma step_event:
  assumes "lias_run (dc_lias c)"
  shows "lias_run (dc_lias (handle_event jv (Some (coordinate mo lk pk)) em now fetch e c))"
proof -
  let ?c = "c\<lparr>dc_upstream := (dc_upstream c)\<lparr>up_reachable := True, up_event := now, up_error := []\<rparr>\<rparr>"
  have c: "lias_run (dc_lias ?c)" using assms by simp
  have removed: "lias_run (dc_lias (removed_event p e' ?c))" for p e'
    using c by (simp add: removed_event_def step_mirror)
  have fetched: "lias_run (dc_lias (case fetch_single_device em' ans c' of (ok, c2) \<Rightarrow> relay e' (if ok then client_trigger c2 else c2)))"
    if "lias_run (dc_lias c')" for em' ans e' c'
    using step_fetch [OF that, of em' ans]
    by (cases "fetch_single_device em' ans c'") (simp add: step_mirror)
  have again: "lias_run (dc_lias (reidentified_event jv (Some (coordinate mo lk pk)) em fetch e' ?c))" for e'
  proof -
    obtain old fresh mms where j: "(if payload_text e' \<noteq> [] then jv_reidentified jv (payload_text e') else ([], [], [])) = (old, fresh, mms)"
      by (metis prod.collapse)
    obtain r l' where m: "coordinate mo lk pk old fresh mms (dc_lias c) = (r, l')" by (metis prod.collapse)
    have "lias_run (dc_lias (?c\<lparr>dc_lias := l'\<rparr>))" using step_migration [OF assms m] by simp
    from this fetched [OF this, where em' = em and ans = "fetch fresh" and e' = "set_target_pdid e' fresh"] show ?thesis
      using c m unfolding reidentified_event_def j by (cases r) (simp_all add: Let_def)
  qed
  have rec: "lias_run (dc_lias (record_event jv em fetch p e' ?c))" for p e'
    using c step_fetch [OF c, of em "fetch p"]
    by (auto simp: record_event_def Let_def split: prod.split option.split intro!: step_mirror)
  have pres: "lias_run (dc_lias (presence_changed em fetch p e' ?c))" for p e'
    using c by (simp add: presence_changed_def Let_def step_mirror step_fetch)
  have part: "lias_run (dc_lias (partial_event em fetch p e' ?c))" for p e'
    using c fetched [OF c, where em' = em and ans = "fetch p" and e' = e'] by (simp add: partial_event_def)
  show ?thesis
    by (simp add: handle_event_def Let_def removed again rec pres part step_mirror(5) [OF c] split: event_type.split)
qed

lemma step_gateway: "dc_lias (snd (call_gateway world g c)) = dc_lias c"
  by (auto simp: call_gateway_def identity_request_def record_upstream_error_def split: prod.split answer.split option.split)

lemma step_capabilities: "dc_lias (refresh_capabilities now ans c) = dc_lias c"
  by (auto simp: refresh_capabilities_def record_upstream_error_def Let_def split: answer.split option.split)



end
