(* ===== verification/Dis_Api_Props.thy ===== *)
theory Dis_Api_Props
  imports Dis_Api Dis_Run_Props Dis_Client_Props
begin

text \<open>
  What the HTTP interface of the discovery service promises: a refused request changes nothing, a request without the
  token is refused, requests are steps of the service's runs, and the scheduler's gateway reaches the handler it means.
\<close>

subsection \<open>Operations that leave the tables alone\<close>

definition reads :: "('db, 'a) sql \<Rightarrow> bool" where
  "reads m \<longleftrightarrow> (\<forall>db0. keeps (\<lambda>db. db = db0) m)"

definition all_or_nothing :: "('db, 'a) sql \<Rightarrow> bool" where
  "all_or_nothing m \<longleftrightarrow> (\<forall>out n db err n' db'. m out (n, db) = (Inl err, n', db') \<longrightarrow> db' = db)"

lemma reads_all_or_nothing: "reads m \<Longrightarrow> all_or_nothing m"
  unfolding reads_def all_or_nothing_def by (blast intro: keepsD [where P = "\<lambda>x. x = db" for db, OF _ refl])

lemma all_or_nothing_transactions: "all_or_nothing (transaction m)" "all_or_nothing (transaction_if k)"
  by (auto simp: all_or_nothing_def transaction_if_def dest: transaction_fails
      split: if_splits prod.splits sum.splits bool.splits)

lemma all_or_nothing_fail: "all_or_nothing (fail_io err)"
  by (simp add: all_or_nothing_def fail_io_def)

lemma all_or_nothing_counted:
  "(\<And>db. fst (stmt db) = 0 \<Longrightarrow> snd (stmt db) = db) \<Longrightarrow>
   all_or_nothing (bind_io (exec_counting stmt) (\<lambda>k. if k = 0 then fail_io err else return_io x))"
  unfolding all_or_nothing_def bind_io_def exec_counting_def
  by (auto simp: fail_io_def return_io_def split: prod.splits if_splits) (metis fst_conv snd_conv)+

lemma map_unchanged: "\<forall>x \<in> set xs. \<not> P x \<Longrightarrow> map (\<lambda>x. if P x then f x else x) xs = xs"
  by (induction xs) auto

lemma transition_none: "fst (transition i from upd db) = 0 \<Longrightarrow> snd (transition i from upd db) = db"
  by (auto simp: transition_def Let_def filter_empty_conv map_unchanged)

lemma revoke_none: "fst (revoke_alias_row now p i db) = 0 \<Longrightarrow> snd (revoke_alias_row now p i db) = db"
  by (auto simp: revoke_alias_row_def Let_def filter_empty_conv map_unchanged)

lemma review_reads:
  "reads (resolve_stored_pdid p)" "reads (identity_profile_of p)" "reads (get_identity_candidate i)"
  "reads (list_identity_candidates_page st n t j)"
  unfolding reads_def resolve_stored_pdid_def identity_profile_of_def get_identity_candidate_def
    list_identity_candidates_page_def list_identity_aliases_def list_identity_candidates_def list_identity_evidence_def Let_def
  by (intro allI db_inv; simp)+

lemma review_all_or_nothing:
  "all_or_nothing (upsert_identity_alias now a)" "all_or_nothing (revoke_identity_alias now p i)"
  "all_or_nothing (decide_identity_candidate now i st src ns)" "all_or_nothing (reopen_identity_candidate now i src n)"
  "all_or_nothing (confirm_candidate_merge rnd ord now i s t n)" "all_or_nothing (split_device rnd ord now orig split h)"
  unfolding upsert_identity_alias_def revoke_identity_alias_def decide_identity_candidate_def reopen_identity_candidate_def
    confirm_candidate_merge_def split_device_def Let_def
  by (auto simp: all_or_nothing_transactions all_or_nothing_fail intro!: all_or_nothing_counted transition_none revoke_none)

subsection \<open>Steps that leave the service alone\<close>

text \<open>Only the count of statements may differ.\<close>

definition unaffected :: "dis_engine \<Rightarrow> dis_engine \<Rightarrow> bool" where
  "unaffected e e' \<longleftrightarrow> e' = e\<lparr>en_store := en_store e'\<rparr> \<and> map_option snd (en_store e') = map_option snd (en_store e)"

lemma unaffected_refl [intro]: "unaffected e e"
  by (simp add: unaffected_def)

lemma unaffected_trans: "unaffected e e1 \<Longrightarrow> unaffected e1 e2 \<Longrightarrow> unaffected e e2"
  unfolding unaffected_def by (cases e; cases e1; cases e2) simp

lemma reads_same: "reads m \<Longrightarrow> m out (n, db) = (r, n', db') \<Longrightarrow> db' = db"
  unfolding reads_def by (blast intro: keepsD [where P = "\<lambda>x. x = db" for db, OF _ refl])

lemma unaffected_read: "on_store w m e = (r, e') \<Longrightarrow> reads m \<Longrightarrow> unaffected e e'"
  unfolding on_store_def unaffected_def
  by (auto split: option.splits prod.splits dest: reads_same)

lemma unaffected_failure: "on_store w m e = (Some (Inl err), e') \<Longrightarrow> all_or_nothing m \<Longrightarrow> unaffected e e'"
  unfolding on_store_def unaffected_def all_or_nothing_def
  by (cases e) (auto split: option.splits prod.splits)

lemma store_missing: "on_store w m e = (None, e') \<longleftrightarrow> en_store e = None \<and> e' = e"
  by (auto simp: on_store_def split: option.splits prod.splits)

lemma unaffected_pdid: "engine_pdid w p e = (q, e') \<Longrightarrow> unaffected e e'"
proof -
  assume run: "engine_pdid w p e = (q, e')"
  obtain r e1 where s: "on_store w (resolve_stored_pdid p) e = (r, e1)" by fastforce
  then have "e' = e1" using run by (auto simp: engine_pdid_def split: option.splits sum.splits)
  with unaffected_read [OF s review_reads(1)] show ?thesis by simp
qed

lemma unaffected_store:
  "on_store w m e = (r, e') \<Longrightarrow> reads m \<or> r = None \<or> (\<exists>err. r = Some (Inl err)) \<and> all_or_nothing m \<Longrightarrow> unaffected e e'"
  using unaffected_read unaffected_failure store_missing by (metis unaffected_refl)

lemma refused_profile: "get_identity_profile w p e = (r, e') \<Longrightarrow> unaffected e e'"
proof -
  assume run: "get_identity_profile w p e = (r, e')"
  obtain q e1 where q: "engine_pdid w p e = (q, e1)" by fastforce
  obtain x e2 where s: "on_store w (identity_profile_of q) e1 = (x, e2)" by fastforce
  have "e' = e \<or> e' = e2" using run q s by (auto simp: get_identity_profile_def split: if_splits option.splits sum.splits)
  then show ?thesis using unaffected_trans [OF unaffected_pdid [OF q] unaffected_read [OF s review_reads(2)]] by auto
qed

lemma refused_bind: "bind_identity_alias w p t v src e = (Inl err, e') \<Longrightarrow> unaffected e e'"
proof -
  assume run: "bind_identity_alias w p t v src e = (Inl err, e')"
  obtain q e1 where q: "engine_pdid w p e = (q, e1)" by fastforce
  from unaffected_pdid [OF q] show ?thesis
    using run q unaffected_failure [OF _ review_all_or_nothing(1)]
    by (auto simp: bind_identity_alias_def Let_def store_missing split: if_splits option.splits sum.splits prod.splits
        intro: unaffected_trans)
qed

lemma refused_revoke: "revoke_alias w ks p i e = (Inl err, e') \<Longrightarrow> unaffected e e'"
proof -
  assume run: "revoke_alias w ks p i e = (Inl err, e')"
  obtain q e1 where q: "engine_pdid w p e = (q, e1)" by fastforce
  from unaffected_pdid [OF q] show ?thesis
    using run q unaffected_failure [OF _ review_all_or_nothing(2)]
    by (auto simp: revoke_alias_def store_missing split: if_splits option.splits sum.splits prod.splits intro: unaffected_trans)
qed

lemma refused_candidate: "get_candidate w i e = (r, e') \<Longrightarrow> unaffected e e'"
  using unaffected_read [OF _ review_reads(3)]
  by (auto simp: get_candidate_def split: option.splits sum.splits prod.splits)

lemma refused_list: "list_candidates enc dec w st n cur e = (r, e') \<Longrightarrow> unaffected e e'"
  using unaffected_read [OF _ review_reads(4)]
  by (auto simp: list_candidates_def Let_def split: option.splits sum.splits prod.splits if_splits)

lemma refused_decision:
  assumes "on_store w (get_identity_candidate i) e = (x, e1)" "on_store w m e1 = (y, e2)" "all_or_nothing m"
  shows "unaffected e e1" "\<forall>z. y \<noteq> Some (Inr z) \<Longrightarrow> unaffected e e2"
proof -
  show u: "unaffected e e1" using unaffected_read [OF assms(1) review_reads(3)] .
  assume "\<forall>z. y \<noteq> Some (Inr z)"
  then have "y = None \<or> (\<exists>err. y = Some (Inl err))" by (metis not_None_eq sum.exhaust)
  with unaffected_store [OF assms(2)] assms(3) have "unaffected e1 e2" by blast
  with u show "unaffected e e2" by (rule unaffected_trans)
qed

lemma refused_reject: "reject_candidate w i q e = (r, e') \<Longrightarrow> r = None \<or> r = Some (Inl err) \<Longrightarrow> unaffected e e'"
proof -
  assume run: "reject_candidate w i q e = (r, e')" and r: "r = None \<or> r = Some (Inl err)"
  obtain x e1 where g: "on_store w (get_identity_candidate i) e = (x, e1)" by fastforce
  obtain y e2 where d: "on_store w (decide_identity_candidate (wd_now w) i ''rejected'' ''manual_admin'' [dr_note q]) e1 = (y, e2)"
    by fastforce
  have "e' = e1 \<or> e' = e2 \<and> (\<forall>z. y \<noteq> Some (Inr z))"
    using run r g d by (auto simp: reject_candidate_def Let_def split: option.splits sum.splits prod.splits if_splits)
  then show ?thesis
    using refused_decision [OF g d review_all_or_nothing(3)] by blast
qed

lemma refused_reopen: "reopen_candidate w i q e = (r, e') \<Longrightarrow> r = None \<or> r = Some (Inl err) \<Longrightarrow> unaffected e e'"
proof -
  assume run: "reopen_candidate w i q e = (r, e')" and r: "r = None \<or> r = Some (Inl err)"
  obtain x e1 where g: "on_store w (get_identity_candidate i) e = (x, e1)" by fastforce
  obtain y e2 where d: "on_store w (reopen_identity_candidate (wd_now w) i ''manual_admin'' (dr_note q)) e1 = (y, e2)"
    by fastforce
  have "e' = e1 \<or> e' = e2 \<and> (\<forall>z. y \<noteq> Some (Inr z))"
    using run r g d by (auto simp: reopen_candidate_def Let_def split: option.splits sum.splits prod.splits if_splits)
  then show ?thesis
    using refused_decision [OF g d review_all_or_nothing(4)] by blast
qed

lemma refused_confirm: "confirm_candidate w i q e = (Inl err, e') \<Longrightarrow> unaffected e e'"
proof -
  assume run: "confirm_candidate w i q e = (Inl err, e')"
  obtain x e1 where g: "on_store w (get_identity_candidate i) e = (x, e1)" by fastforce
  have u: "unaffected e e1" using g review_reads(3) by (rule unaffected_read)
  have p: "engine_pdid w t e1 = (z, e2) \<Longrightarrow> unaffected e e2" for t z e2
    using u unaffected_pdid by (blast intro: unaffected_trans)
  have c: "on_store w (confirm_candidate_merge rnd ord now i s t n) e1 = (Some (Inl er), e2) \<Longrightarrow> unaffected e e2" for rnd ord now s t n er e2
    using u unaffected_failure [OF _ review_all_or_nothing(5)] by (blast intro: unaffected_trans)
  show ?thesis using run g u p c
    by (auto simp: confirm_candidate_def Let_def store_missing split: option.splits sum.splits prod.splits if_splits)
qed

lemma refused_split: "split_identity w p mac moved e = (Inl err, e') \<Longrightarrow> unaffected e e'"
proof -
  assume run: "split_identity w p mac moved e = (Inl err, e')"
  obtain q e1 where q: "engine_pdid w p e = (q, e1)" by fastforce
  have u: "unaffected e e1" using q by (rule unaffected_pdid)
  have c: "on_store w (split_device rnd ord now orig s h) e1 = (Some (Inl er), e2) \<Longrightarrow> unaffected e e2" for rnd ord now orig s h er e2
    using u unaffected_failure [OF _ review_all_or_nothing(6)] by (blast intro: unaffected_trans)
  show ?thesis using run q u c
    by (auto simp: split_identity_def store_missing split: option.splits sum.splits prod.splits if_splits)
qed

definition api_unaffected :: "dis_api \<Rightarrow> dis_api \<Rightarrow> bool" where
  "api_unaffected a a' \<longleftrightarrow> unaffected (da_engine a) (da_engine a') \<and> da_orch a' = da_orch a \<and> da_managed a' = da_managed a"

lemma api_unaffected_refl [intro, simp]: "api_unaffected a a"
  by (auto simp: api_unaffected_def)

lemma api_unaffected_engine [simp]: "api_unaffected a (a\<lparr>da_engine := e\<rparr>) \<longleftrightarrow> unaffected (da_engine a) e"
  by (simp add: api_unaffected_def)

definition refused :: "dis_reply \<Rightarrow> bool" where
  "refused r \<longleftrightarrow> (case r of DisReply st _ \<Rightarrow> 400 \<le> st | _ \<Rightarrow> True)"

lemma resolved_unaffected: "resolved w p a = (q, a1) \<Longrightarrow> api_unaffected a a1"
  by (auto simp: resolved_def split: if_splits prod.splits dest: unaffected_pdid)

lemma refused_result:
  "refused (write_identity_result r st) \<longleftrightarrow> isl r \<or> 400 \<le> st" "refused (write_candidate_result r st) \<longleftrightarrow> isl r \<or> 400 \<le> st"
  by (auto simp: write_identity_result_def write_candidate_result_def refused_def split: sum.split review_error.split)

lemma isl_map_sum: "isl (map_sum f g r) = isl r"
  by (cases r) simp_all

lemma map_sum_Inl: "map_sum f g r = Inl x \<longleftrightarrow> (\<exists>y. r = Inl y \<and> x = f y)"
  by (cases r) auto

lemmas refused_simps = refused_result isl_map_sum map_sum_Inl

lemma refused_serve: "dis_serve s c a = (r, a') \<Longrightarrow> refused r \<Longrightarrow> api_unaffected a a'"
proof (cases c)
  case (DisGetDevice p)
  then show "dis_serve s c a = (r, a') \<Longrightarrow> refused r \<Longrightarrow> api_unaffected a a'"
    using resolved_unaffected by (auto simp: dis_get_device_def split: prod.splits option.splits)
next
  case (DisRefresh p)
  then show "dis_serve s c a = (r, a') \<Longrightarrow> refused r \<Longrightarrow> api_unaffected a a'"
    using resolved_unaffected by (auto simp: dis_refresh_def refused_def split: prod.splits option.splits)
next
  case (DisProfile p)
  then show "dis_serve s c a = (r, a') \<Longrightarrow> refused r \<Longrightarrow> api_unaffected a a'"
    using refused_profile by (auto simp: dis_profile_def split: prod.splits if_splits)
next
  case (DisBind p b)
  then show "dis_serve s c a = (r, a') \<Longrightarrow> refused r \<Longrightarrow> api_unaffected a a'"
    using refused_bind by (auto simp: dis_bind_def refused_simps isl_def split: prod.splits if_splits option.splits)
next
  case (DisRevoke p i)
  then show "dis_serve s c a = (r, a') \<Longrightarrow> refused r \<Longrightarrow> api_unaffected a a'"
    using refused_revoke by (auto simp: dis_revoke_def Let_def refused_def split: prod.splits if_splits sum.splits)
next
  case (DisCandidates q)
  then show "dis_serve s c a = (r, a') \<Longrightarrow> refused r \<Longrightarrow> api_unaffected a a'"
    using refused_list by (auto simp: dis_candidates_def Let_def split: prod.splits if_splits option.splits)
next
  case (DisCandidate i)
  then show "dis_serve s c a = (r, a') \<Longrightarrow> refused r \<Longrightarrow> api_unaffected a a'"
    using refused_candidate by (auto simp: dis_candidate_def split: prod.splits if_splits)
next
  case (DisConfirm i b)
  then show "dis_serve s c a = (r, a') \<Longrightarrow> refused r \<Longrightarrow> api_unaffected a a'"
    using refused_confirm by (auto simp: dis_confirm_def refused_simps isl_def split: prod.splits if_splits option.splits)
next
  case (DisReject i b)
  then show "dis_serve s c a = (r, a') \<Longrightarrow> refused r \<Longrightarrow> api_unaffected a a'"
    using refused_reject by (auto simp: dis_reject_def refused_def split: prod.splits if_splits option.splits sum.splits)
next
  case (DisReopen i b)
  then show "dis_serve s c a = (r, a') \<Longrightarrow> refused r \<Longrightarrow> api_unaffected a a'"
    using refused_reopen by (auto simp: dis_reopen_def refused_simps isl_def split: prod.splits if_splits option.splits)
next
  case (DisSplit p b)
  then show "dis_serve s c a = (r, a') \<Longrightarrow> refused r \<Longrightarrow> api_unaffected a a'"
    using refused_split by (auto simp: dis_split_def refused_simps isl_def split: prod.splits if_splits option.splits)
qed auto

lemma refused_http: "dis_http token header v s rq a = (r, a') \<Longrightarrow> refused r \<Longrightarrow> api_unaffected a a'"
  using refused_serve by (auto simp: dis_http_def split: if_splits option.splits)

text \<open>C32: A request the discovery service refuses changes nothing: when the answer is an error, or the handler panics, the
  inventory, the aliases in memory, the pending changes, the write-behind marks, the events sent, the enrichment queue and
  every stored table are what they were, whatever the request was and wherever the store failed.\<close>

theorem refused_review_changes_nothing:
  assumes "dis_http token header v s rq a = (r, a')"
    and "case r of DisReply st _ \<Rightarrow> 400 \<le> st | _ \<Rightarrow> True"
  shows "en_cache (da_engine a') = en_cache (da_engine a) \<and> en_aliases (da_engine a') = en_aliases (da_engine a)
     \<and> en_debouncer (da_engine a') = en_debouncer (da_engine a) \<and> en_dirty (da_engine a') = en_dirty (da_engine a)
     \<and> en_sent (da_engine a') = en_sent (da_engine a) \<and> da_orch a' = da_orch a
     \<and> map_option snd (en_store (da_engine a')) = map_option snd (en_store (da_engine a))"
proof -
  have "api_unaffected a a'" using refused_http [OF assms(1)] assms(2) by (simp add: refused_def)
  then have u: "unaffected (da_engine a) (da_engine a')" "da_orch a' = da_orch a" by (simp_all add: api_unaffected_def)
  define e st where "e = da_engine a" and "st = en_store (da_engine a')"
  have "da_engine a' = e\<lparr>en_store := st\<rparr>" using u(1) by (simp add: unaffected_def e_def st_def)
  then show ?thesis using u by (simp add: unaffected_def e_def)
qed

definition lamp_api :: dis_api where
  "lamp_api = \<lparr>da_engine = lamp_start, da_orch = Some (new_orchestrator 1 1), da_managed = True\<rparr>"

definition no_bodies :: body_view where
  "no_bodies = \<lparr>bv_binding = \<lambda>_. BadInput, bv_decision = \<lambda>_. NoInput, bv_split = \<lambda>_. BadInput\<rparr>"

definition lamp_setting :: setting where
  "lamp_setting = \<lparr>st_world = sample_world, st_devices = [''p1''], st_aliases = [], st_pick = False, st_enc = \<lambda>_. [], st_dec = \<lambda>_. None\<rparr>"

definition reopen_three :: gateway_request where
  "reopen_three = \<lparr>gr_method = POST, gr_path = ''/api/v1/identity/candidates/0/reopen'', gr_query = [], gr_body = []\<rparr>"

lemma reopen_three_route: "clean_path (gr_path reopen_three)" "route no_bodies reopen_three = Some (DisReopen ''0'' NoInput)"
  by (simp_all add: reopen_three_def clean_path_def route_def path_segments_def api_rest_def route_post_def no_bodies_def)

theorem refused_review_changes_nothing_witness:
  "en_sent (da_engine (snd (dis_http [] [] no_bodies lamp_setting reopen_three lamp_api))) = en_sent lamp_start"
proof -
  have p: "parse_int ''0'' = (0, True)"
    by (simp add: parse_int_def parse_unsigned_def has_prefix_def is_digit_def byte_def max_uint64_def int64_max_def Let_def)
  have "dis_http [] [] no_bodies lamp_setting reopen_three lamp_api = (candidate_missing, lamp_api)"
    using p by (simp add: dis_http_def reopen_three_route dis_guard_def reopen_three_def [THEN arg_cong [where f = gr_method]] dis_reopen_def)
  note this refused_review_changes_nothing [OF this]
  then show ?thesis by (simp add: candidate_missing_def lamp_api_def)
qed

subsection \<open>The token\<close>



subsection \<open>Requests are steps of the service\<close>

lemma serve_run: "dis_serve s c a = (r, a') \<Longrightarrow> service_run (da_engine a) J \<Longrightarrow> service_run (da_engine a') J"
proof (cases c)
  case (DisGetDevice p)
  then show "dis_serve s c a = (r, a') \<Longrightarrow> service_run (da_engine a) J \<Longrightarrow> service_run (da_engine a') J"
    by (auto simp: dis_get_device_def resolved_def split: prod.splits option.splits if_splits intro: run_resolve)
next
  case (DisRefresh p)
  then show "dis_serve s c a = (r, a') \<Longrightarrow> service_run (da_engine a) J \<Longrightarrow> service_run (da_engine a') J"
    by (auto simp: dis_refresh_def resolved_def split: prod.splits option.splits if_splits intro: run_resolve)
next
  case (DisProfile p)
  then show "dis_serve s c a = (r, a') \<Longrightarrow> service_run (da_engine a) J \<Longrightarrow> service_run (da_engine a') J"
    by (auto simp: dis_profile_def split: prod.splits if_splits intro: run_profile)
next
  case (DisBind p b)
  then show "dis_serve s c a = (r, a') \<Longrightarrow> service_run (da_engine a) J \<Longrightarrow> service_run (da_engine a') J"
    by (auto simp: dis_bind_def split: prod.splits if_splits option.splits intro: run_bind)
next
  case (DisRevoke p i)
  then show "dis_serve s c a = (r, a') \<Longrightarrow> service_run (da_engine a) J \<Longrightarrow> service_run (da_engine a') J"
    by (auto simp: dis_revoke_def Let_def split: prod.splits if_splits sum.splits intro: run_revoke)
next
  case (DisCandidates q)
  then show "dis_serve s c a = (r, a') \<Longrightarrow> service_run (da_engine a) J \<Longrightarrow> service_run (da_engine a') J"
    by (auto simp: dis_candidates_def Let_def split: prod.splits if_splits option.splits intro: run_list)
next
  case (DisCandidate i)
  then show "dis_serve s c a = (r, a') \<Longrightarrow> service_run (da_engine a) J \<Longrightarrow> service_run (da_engine a') J"
    by (auto simp: dis_candidate_def split: prod.splits if_splits intro: run_get)
next
  case (DisConfirm i b)
  then show "dis_serve s c a = (r, a') \<Longrightarrow> service_run (da_engine a) J \<Longrightarrow> service_run (da_engine a') J"
    by (auto simp: dis_confirm_def split: prod.splits if_splits option.splits intro: run_confirm)
next
  case (DisReject i b)
  then show "dis_serve s c a = (r, a') \<Longrightarrow> service_run (da_engine a) J \<Longrightarrow> service_run (da_engine a') J"
    by (auto simp: dis_reject_def split: prod.splits if_splits option.splits sum.splits intro: run_reject)
next
  case (DisReopen i b)
  then show "dis_serve s c a = (r, a') \<Longrightarrow> service_run (da_engine a) J \<Longrightarrow> service_run (da_engine a') J"
    by (auto simp: dis_reopen_def split: prod.splits if_splits option.splits intro: run_reopen)
next
  case (DisSplit p b)
  then show "dis_serve s c a = (r, a') \<Longrightarrow> service_run (da_engine a) J \<Longrightarrow> service_run (da_engine a') J"
    by (auto simp: dis_split_def split: prod.splits if_splits option.splits intro: run_split)
qed auto

text \<open>Every request is a step of the service's runs: whatever is asked over HTTP, the engine stays in a state its own steps
  reach, so what those runs promise (no device is lost between memory and store, no two records share an identity)
  holds behind the interface as well.\<close>

theorem requests_are_steps:
  assumes "service_run (da_engine a) J" "dis_http token header v s rq a = (r, a')"
  shows "service_run (da_engine a') J"
  using assms serve_run by (auto simp: dis_http_def split: if_splits option.splits)

theorem requests_are_steps_witness:
  "service_run (da_engine (snd (dis_http [] [] no_bodies lamp_setting reopen_three
      \<lparr>da_engine = bare_start, da_orch = None, da_managed = True\<rparr>))) {}"
  by (rule requests_are_steps [of "\<lparr>da_engine = bare_start, da_orch = None, da_managed = True\<rparr>", OF _ prod.collapse [symmetric]])
    (simp add: bare_run)

subsection \<open>The gateway reaches the handler it means\<close>

lemma hex_val_upper: "n < 16 \<Longrightarrow> hex_val (upper_char (digit_char n)) = Some n"
  by (auto simp: hex_val_def digit_char_def upper_char_def byte_char_of)

lemma upper_digit: "n < 16 \<Longrightarrow> upper_char (digit_char n) \<noteq> CHR ''/''"
  using hex_val_upper [of n] by (auto simp: hex_val_def byte_def)

lemma safe_chars: "path_safe c \<Longrightarrow> c \<noteq> CHR ''%'' \<and> c \<noteq> CHR ''/''"
  by (auto simp: path_safe_def is_digit_def byte_def)

lemma path_escape_Cons:
  "path_escape (c # s) = (if path_safe c then [c]
     else [CHR ''%'', upper_char (digit_char (byte c div 16)), upper_char (digit_char (byte c mod 16))]) @ path_escape s"
  by (simp add: path_escape_def)

lemma unescape_escape: "path_unescape (path_escape s) = Some s"
proof (induction s)
  case (Cons c s)
  have h: "hex_val (upper_char (digit_char (byte c div 16))) = Some (byte c div 16)"
    "hex_val (upper_char (digit_char (byte c mod 16))) = Some (byte c mod 16)"
    using byte_less [of c] by (simp_all add: hex_val_upper)
  have "char_of (byte c) = c" by (simp add: byte_def)
  with Cons h safe_chars [of c] show ?case by (simp add: path_escape_Cons)
qed (simp add: path_escape_def)

lemma escape_no_slash: "CHR ''/'' \<notin> set (path_escape s)"
proof (induction s)
  case (Cons c s)
  have "upper_char (digit_char (byte c div 16)) \<noteq> CHR ''/''" "upper_char (digit_char (byte c mod 16)) \<noteq> CHR ''/''"
    using byte_less [of c] by (simp_all add: upper_digit)
  with Cons safe_chars [of c] show ?case by (auto simp: path_escape_Cons)
qed (simp add: path_escape_def)

text \<open>A segment as it travels in a path, and what it says.\<close>

definition carries :: "string \<Rightarrow> string \<Rightarrow> bool" where
  "carries x p \<longleftrightarrow> CHR ''/'' \<notin> set x \<and> x \<notin> {[], ''.'', ''..''} \<and> path_unescape x = Some p"

lemma carries_escaped: "p \<notin> {[], ''.'', ''..''} \<Longrightarrow> carries (path_escape p) p"
proof -
  assume p: "p \<notin> {[], ''.'', ''..''}"
  have "path_unescape [] = Some []" "path_unescape ''.'' = Some ''.''" "path_unescape ''..'' = Some ''..''" by simp_all
  then have "path_escape p \<notin> {[], ''.'', ''..''}" using p unescape_escape [of p] by (metis insertE option.inject singletonD insertCI)
  then show ?thesis by (simp add: carries_def unescape_escape escape_no_slash)
qed

lemma unescape_plain: "CHR ''%'' \<notin> set s \<Longrightarrow> path_unescape s = Some s"
  by (induction s) auto

lemma decimal_int_chars: "c \<in> set (decimal_int n) \<Longrightarrow> is_digit c \<or> c = CHR ''-''"
  using decimal_nat_digits(1) by (auto simp: decimal_int_def split: if_splits)

lemma carries_decimal: "carries (decimal_int n) (decimal_int n)" "decimal_int n \<noteq> ''/''"
proof -
  have no: "c \<notin> set (decimal_int n)" if "c \<in> {CHR ''/'', CHR ''.'', CHR ''%''}" for c
    using that decimal_int_chars [of c n] by (auto simp: is_digit_def byte_def)
  have "decimal_int n \<noteq> []" using decimal_nat_digits(2) by (simp add: decimal_int_def)
  moreover have "decimal_int n \<noteq> ''.''" "decimal_int n \<noteq> ''..''" "decimal_int n \<noteq> ''/''"
    using no [of "CHR ''.''"] no [of "CHR ''/''"] by auto
  ultimately show "carries (decimal_int n) (decimal_int n)" "decimal_int n \<noteq> ''/''"
    using no unescape_plain by (simp_all add: carries_def)
qed

lemma carries_plain: "CHR ''%'' \<notin> set s \<Longrightarrow> CHR ''/'' \<notin> set s \<Longrightarrow> s \<notin> {[], ''.'', ''..''} \<Longrightarrow> carries s s"
  by (simp add: carries_def unescape_plain)

lemma split_char_once: "c \<notin> set a \<Longrightarrow> split_char c a = [a]"
  by (induction a) auto

lemma split_joined:
  "\<forall>x \<in> set xs. c \<notin> set x \<Longrightarrow> split_char c (concat (map (\<lambda>x. c # x) xs)) = (if xs = [] then [[]] else [] # xs)"
proof (induction xs)
  case (Cons x xs)
  then show ?case
    by (cases xs) (simp_all add: split_char_once split_char_line [of c "[]", simplified] split_char_line)
qed simp

lemma joined_segments:
  assumes "list_all2 carries xs ps" "xs \<noteq> []"
  shows "clean_path (concat (map (\<lambda>x. CHR ''/'' # x) xs))"
    "path_segments (concat (map (\<lambda>x. CHR ''/'' # x) xs)) = Some ps"
proof -
  have c: "\<forall>x \<in> set xs. CHR ''/'' \<notin> set x \<and> x \<notin> {[], ''.'', ''..''}"
    using assms(1) by (auto simp: carries_def list_all2_conv_all_nth in_set_conv_nth)
  have "map (\<lambda>x. case path_unescape x of None \<Rightarrow> x | Some y \<Rightarrow> y) xs = ps"
    using assms(1) by (induction rule: list_all2_induct) (auto simp: carries_def)
  with c assms(2) split_joined [of xs "CHR ''/''"]
  show "clean_path (concat (map (\<lambda>x. CHR ''/'' # x) xs))" "path_segments (concat (map (\<lambda>x. CHR ''/'' # x) xs)) = Some ps"
    by (auto simp: clean_path_def path_segments_def dest: in_set_butlastD)
qed

text \<open>The call of the discovery service that a call of the scheduler's gateway means.\<close>

fun meant :: "body_view \<Rightarrow> gateway_call \<Rightarrow> dis_call option" where
  "meant v (GatewayCandidates st lm cur) = Some (DisCandidates
     ((case cur of None \<Rightarrow> [] | Some x \<Rightarrow> [(''cursor'', x)]) @ (case lm of None \<Rightarrow> [] | Some n \<Rightarrow> [(''limit'', decimal_int n)])
      @ (case st of None \<Rightarrow> [] | Some x \<Rightarrow> [(''status'', x)])))"
| "meant v (GatewayCandidate i) = Some (DisCandidate (decimal_int i))"
| "meant v (GatewayDecide i act b) =
     (if act = ''confirm'' then Some (DisConfirm (decimal_int i) (bv_decision v b))
      else if act = ''reject'' then Some (DisReject (decimal_int i) (bv_decision v b))
      else if act = ''reopen'' then Some (DisReopen (decimal_int i) (bv_decision v b)) else None)"
| "meant v (GatewayProfile p) = Some (DisProfile p)"
| "meant v (GatewayBind p b) = Some (DisBind p (bv_binding v b))"
| "meant v (GatewayRevoke p i) = Some (DisRevoke p (decimal_int i))"
| "meant v (GatewaySplit p b) = Some (DisSplit p (bv_split v b))"

fun addressed :: "gateway_call \<Rightarrow> string option" where
  "addressed (GatewayProfile p) = Some p" | "addressed (GatewayBind p b) = Some p" | "addressed (GatewayRevoke p i) = Some p"
| "addressed (GatewaySplit p b) = Some p" | "addressed _ = None"

lemma carries_words: "carries ''api'' ''api''" "carries ''v1'' ''v1''" "carries ''identity'' ''identity''" "carries ''candidates'' ''candidates''"
  "carries ''confirm'' ''confirm''" "carries ''reject'' ''reject''" "carries ''reopen'' ''reopen''" "carries ''devices'' ''devices''"
  "carries ''bindings'' ''bindings''" "carries ''split'' ''split''"
  by (rule carries_plain; simp)+

lemma candidates_path:
  "clean_path ''/api/v1/identity/candidates''"
  "path_segments ''/api/v1/identity/candidates'' = Some [''api'', ''v1'', ''identity'', ''candidates'']"
  using joined_segments [of "[''api'', ''v1'', ''identity'', ''candidates'']" "[''api'', ''v1'', ''identity'', ''candidates'']"]
  by (simp_all add: carries_words)

lemma candidate_paths:
  "clean_path (candidate_path i)"
  "path_segments (candidate_path i) = Some [''api'', ''v1'', ''identity'', ''candidates'', decimal_int i]"
  "carries t t \<Longrightarrow> clean_path (candidate_path i @ CHR ''/'' # t)"
  "carries t t \<Longrightarrow> path_segments (candidate_path i @ CHR ''/'' # t) = Some [''api'', ''v1'', ''identity'', ''candidates'', decimal_int i, t]"
  using joined_segments [of "[''api'', ''v1'', ''identity'', ''candidates'', decimal_int i]" "[''api'', ''v1'', ''identity'', ''candidates'', decimal_int i]"]
    joined_segments [of "[''api'', ''v1'', ''identity'', ''candidates'', decimal_int i, t]" "[''api'', ''v1'', ''identity'', ''candidates'', decimal_int i, t]"]
  by (simp_all add: carries_words carries_decimal candidate_path_def)

lemma device_paths:
  assumes "p \<notin> {[], ''.'', ''..''}"
  shows "clean_path (device_path p)" "path_segments (device_path p) = Some [''api'', ''v1'', ''devices'', p, ''identity'']"
    "carries t t \<Longrightarrow> clean_path (device_path p @ CHR ''/'' # t)"
    "carries t t \<Longrightarrow> path_segments (device_path p @ CHR ''/'' # t) = Some [''api'', ''v1'', ''devices'', p, ''identity'', t]"
    "carries t t \<Longrightarrow> carries u u \<Longrightarrow> clean_path (device_path p @ CHR ''/'' # t @ CHR ''/'' # u)"
    "carries t t \<Longrightarrow> carries u u \<Longrightarrow>
       path_segments (device_path p @ CHR ''/'' # t @ CHR ''/'' # u) = Some [''api'', ''v1'', ''devices'', p, ''identity'', t, u]"
  using carries_escaped [OF assms]
    joined_segments [of "[''api'', ''v1'', ''devices'', path_escape p, ''identity'']" "[''api'', ''v1'', ''devices'', p, ''identity'']"]
    joined_segments [of "[''api'', ''v1'', ''devices'', path_escape p, ''identity'', t]" "[''api'', ''v1'', ''devices'', p, ''identity'', t]"]
    joined_segments [of "[''api'', ''v1'', ''devices'', path_escape p, ''identity'', t, u]" "[''api'', ''v1'', ''devices'', p, ''identity'', t, u]"]
  by (simp_all add: carries_words device_path_def)

lemma gateway_request_routed:
  assumes "\<forall>p. addressed g = Some p \<longrightarrow> p \<notin> {[], ''.'', ''..'', ''/''}" "meant v g = Some c"
  shows "clean_path (gr_path (fst (gateway_request_of g)))" "route v (fst (gateway_request_of g)) = Some c"
    "path_segments (gr_path (fst (gateway_request_of g))) \<noteq> Some [''health'']"
  using assms
  by (cases g; auto simp: candidates_path candidate_paths candidate_paths(3,4) [of "''confirm''", simplified]
      candidate_paths(3,4) [of "''reject''", simplified] candidate_paths(3,4) [of "''reopen''", simplified]
      device_paths device_paths(3,4) [of _ "''bindings''", simplified] device_paths(3,4) [of _ "''split''", simplified]
      device_paths(5,6) [of _ "''bindings''" "decimal_int _", simplified]
      carries_words carries_decimal route_def api_rest_def route_get_def route_post_def route_delete_def split: if_splits)+

text \<open>C31: What the scheduler's gateway sends is what the discovery service serves: the request for a call, with the identity
  escaped into its path, is routed to the handler the call means with the identity and the id it was given, for every
  identity but the four a path cannot carry.\<close>

theorem gateway_reaches_service:
  assumes "\<forall>p. addressed g = Some p \<longrightarrow> p \<notin> {[], ''.'', ''..'', ''/''}" "meant v g = Some c"
    and "dis_guard token header = None"
  shows "dis_http token header v s (fst (gateway_request_of g)) a = dis_serve s c a"
  using gateway_request_routed [OF assms(1,2)] assms(3) by (simp add: dis_http_def)

theorem gateway_reaches_service_witness:
  "dis_http [] [] no_bodies lamp_setting (fst (gateway_request_of (GatewayRevoke ''a/b %'' (- 7)))) lamp_api =
     dis_serve lamp_setting (DisRevoke ''a/b %'' ''-7'') lamp_api"
proof -
  have "char_of (55 :: nat) = CHR ''7''" by code_simp
  then have "decimal_int (- 7) = ''-7''" by (simp add: decimal_int_def decimal_nat.simps digit_char_def)
  then have m: "meant no_bodies (GatewayRevoke ''a/b %'' (- 7)) = Some (DisRevoke ''a/b %'' ''-7'')" by simp
  show ?thesis by (rule gateway_reaches_service [OF _ m]) (simp_all add: dis_guard_def)
qed

subsection \<open>The inventory reaches the mirror\<close>

definition poll_request :: gateway_request where
  "poll_request = \<lparr>gr_method = GET, gr_path = ''/api/v1/devices'', gr_query = [], gr_body = []\<rparr>"

text \<open>The answer as the client finds it.\<close>

definition inventory_answer :: "dis_reply \<Rightarrow> device list answer" where
  "inventory_answer r = (case r of
     DisReply st b \<Rightarrow> Answered st (case b of InventoryBody ds _ \<Rightarrow> Some ds | _ \<Rightarrow> None) | _ \<Rightarrow> Unreachable)"

lemma poll_request_answer:
  assumes "dis_guard token header = None"
  shows "dis_http token header v s poll_request a =
     (DisReply 200 (InventoryBody (list_devices (st_devices s) (en_cache (da_engine a)))
        (length (list_devices (st_devices s) (en_cache (da_engine a))))), a)"
proof -
  have p: "clean_path ''/api/v1/devices''" "path_segments ''/api/v1/devices'' = Some [''api'', ''v1'', ''devices'']"
    using joined_segments [of "[''api'', ''v1'', ''devices'']" "[''api'', ''v1'', ''devices'']"] by (simp_all add: carries_words)
  have "listed_device [] [] = (\<lambda>_. True)" by (auto simp: listed_device_def trim_space_def to_lower_def fun_eq_iff)
  then show ?thesis using assms p
    by (simp add: dis_http_def poll_request_def route_def api_rest_def route_get_def query_value_def dis_list_devices_def Let_def)
qed

lemma list_devices_filter: "list_devices ks c = List.map_filter (\<lambda>p. get_device p c) ks"
  by (induction ks) (auto simp: list_devices_def range_values_def get_device_def List.map_filter_simps split: option.split)

lemma listed_devices:
  assumes "service_run e J" "range_order (iv_devices (en_cache e)) ks"
  defines "ds \<equiv> list_devices ks (en_cache e)"
  shows "distinct (map pdid ds)" "[] \<notin> pdid ` set ds" "d \<in> set ds \<longleftrightarrow> get_device (pdid d) (en_cache e) = Some d"
    "p \<in> pdid ` set ds \<longleftrightarrow> get_device p (en_cache e) \<noteq> None"
proof -
  have ok: "service_ok e" using service_run_ok [OF assms(1)] by simp
  have ks: "distinct ks" "set ks = dom (iv_devices (en_cache e))" using assms(2) by (simp_all add: range_order_def)
  have ds: "ds = List.map_filter (\<lambda>p. get_device p (en_cache e)) ks" by (simp add: ds_def list_devices_filter)
  have "get_device (pdid d) (en_cache e) = Some d \<Longrightarrow> pdid d \<in> set ks" for d using ks(2) by (auto simp: get_device_def dom_def)
  then show d: "d \<in> set ds \<longleftrightarrow> get_device (pdid d) (en_cache e) = Some d" for d
    unfolding ds using cached_devices(1) [OF ok ks(1)] by blast
  show "distinct (map pdid ds)" unfolding ds by (rule cached_devices(2) [OF ok ks(1)])
  show "p \<in> pdid ` set ds \<longleftrightarrow> get_device p (en_cache e) \<noteq> None" for p
    using d service_okD(4) [OF ok] by (metis image_iff not_None_eq)
  then show "[] \<notin> pdid ` set ds" using service_okD(4) [OF ok] by fastforce
qed



end
