(* ===== verification/Dis_Netbios.thy ===== *)
theory Dis_Netbios
  imports Dis_Enrich
begin

text \<open>
  The NetBIOS node status query (\<open>internal/discovery/netbios_enricher.go\<close>): the request of 50 bytes, the parser of
  an answer that any host of the network may send, and what the answer adds to a device. A packet is a list of bytes.
  Reading outside it would panic, so every read is an option and the outer \<open>None\<close> is a panic; an error of the code
  is \<open>Inl\<close>. The theorems show that no packet makes the parser panic and that the answer of a host is read as the
  names it carries.
\<close>

subsection \<open>Reading bytes\<close>

type_synonym datagram = "u8 list"
type_synonym u16 = "16 word"

datatype nb_error =
  PacketTooShort | TransactionMismatch | NotAResponse | UnexpectedOpcode | ResponseCode | TooManyRecords
| MalformedQuestion | MalformedAnswer | RdataExceedsPacket | NoStatusAnswer | EmptyRdata | TableExceedsRdata | ControlBytes
| NameOutOfBounds | TruncatedName | CompressionLoop | TruncatedPointer | PointerOutOfBounds | InvalidLabel | TruncatedLabel
| PointerLimit

type_synonym 'a parse = "(nb_error + 'a) option"

abbreviation reject :: "nb_error \<Rightarrow> 'a parse" where "reject e \<equiv> Some (Inl e)"
abbreviation accept :: "'a \<Rightarrow> 'a parse" where "accept x \<equiv> Some (Inr x)"

definition then_parse :: "'a parse \<Rightarrow> ('a \<Rightarrow> 'b parse) \<Rightarrow> 'b parse" where
  "then_parse m f = (case m of None \<Rightarrow> None | Some (Inl e) \<Rightarrow> reject e | Some (Inr x) \<Rightarrow> f x)"

definition read_byte :: "datagram \<Rightarrow> nat \<Rightarrow> u8 parse" where
  "read_byte data i = (if i < length data then accept (data ! i) else None)"

definition read_slice :: "datagram \<Rightarrow> nat \<Rightarrow> nat \<Rightarrow> datagram parse" where
  "read_slice data a b = (if a \<le> b \<and> b \<le> length data then accept (take (b - a) (drop a data)) else None)"

text \<open>\<open>binary.BigEndian.Uint16\<close>.\<close>

definition be16 :: "u8 \<Rightarrow> u8 \<Rightarrow> u16" where
  "be16 hi lo = push_bit 8 (ucast hi) OR ucast lo"

definition read_u16 :: "datagram \<Rightarrow> nat \<Rightarrow> u16 parse" where
  "read_u16 data i = then_parse (read_byte data i) (\<lambda>h. then_parse (read_byte data (i + 1)) (\<lambda>l. accept (be16 h l)))"

subsection \<open>Names\<close>

text \<open>One step of the loop reads a label or follows a pointer; \<open>consumed\<close> is where the name ended before the first
  pointer.\<close>

fun skip_labels :: "nat \<Rightarrow> datagram \<Rightarrow> nat set \<Rightarrow> nat \<Rightarrow> nat option \<Rightarrow> nat parse" where
  "skip_labels 0 data seen position consumed = reject PointerLimit"
| "skip_labels (Suc k) data seen position consumed =
     (if length data \<le> position then reject TruncatedName
      else if position \<in> seen then reject CompressionLoop
      else then_parse (read_byte data position) (\<lambda>b.
        if b AND 0xC0 = 0xC0 then
          (if length data \<le> position + 1 then reject TruncatedPointer
           else then_parse (read_byte data (position + 1)) (\<lambda>lo.
             let pointer = push_bit 8 (unat (b AND 0x3F)) OR unat lo in
             if length data \<le> pointer then reject PointerOutOfBounds
             else skip_labels k data (insert position seen) pointer
               (case consumed of None \<Rightarrow> Some (position + 2) | Some c \<Rightarrow> Some c)))
        else if b AND 0xC0 \<noteq> 0 \<or> 63 < unat b then reject InvalidLabel
        else if unat b = 0 then accept (case consumed of None \<Rightarrow> position + 1 | Some c \<Rightarrow> c)
        else if length data < position + 1 + unat b then reject TruncatedLabel
        else skip_labels k data (insert position seen) (position + 1 + unat b) consumed))"

definition skip_dns_name :: "datagram \<Rightarrow> nat \<Rightarrow> nat parse" where
  "skip_dns_name data offset = (if length data \<le> offset then reject NameOutOfBounds else skip_labels 128 data {} offset None)"

subsection \<open>The answer\<close>

record netbios_name =
  nb_name :: string
  nb_suffix :: u8
  nb_flags :: u16

definition byte_char :: "u8 \<Rightarrow> char" where "byte_char b = char_of (unat b)"

definition trim_name :: "string \<Rightarrow> string" where
  "trim_name s = rev (dropWhile (\<lambda>c. c = CHR '' '' \<or> c = CHR 0x00) (rev s))"

fun read_names :: "nat \<Rightarrow> datagram \<Rightarrow> nat \<Rightarrow> netbios_name list parse" where
  "read_names 0 data offset = accept []"
| "read_names (Suc k) data offset =
     then_parse (read_slice data offset (offset + 18)) (\<lambda>entry.
     then_parse (read_slice entry 0 15) (\<lambda>text.
     if \<exists>v \<in> set text. v \<noteq> 0 \<and> (v < 0x20 \<or> 0x7E < v) then reject ControlBytes
     else then_parse (read_byte entry 15) (\<lambda>suffix. then_parse (read_u16 entry 16) (\<lambda>flags.
       then_parse (read_names k data (offset + 18)) (\<lambda>names.
         accept (\<lparr>nb_name = trim_name (map byte_char text), nb_suffix = suffix, nb_flags = flags\<rparr> # names))))))"

definition parse_status_rdata :: "datagram \<Rightarrow> netbios_name list parse" where
  "parse_status_rdata data =
     (if length data < 1 then reject EmptyRdata
      else then_parse (read_byte data 0) (\<lambda>b.
        if 100 < unat b \<or> length data < 1 + unat b * 18 then reject TableExceedsRdata else read_names (unat b) data 1))"

fun skip_questions :: "nat \<Rightarrow> datagram \<Rightarrow> nat \<Rightarrow> nat parse" where
  "skip_questions 0 data offset = accept offset"
| "skip_questions (Suc k) data offset =
     (case skip_dns_name data offset of
        None \<Rightarrow> None
      | Some (Inl _) \<Rightarrow> reject MalformedQuestion
      | Some (Inr o') \<Rightarrow> if length data < o' + 4 then reject MalformedQuestion else skip_questions k data (o' + 4))"

definition node_status_type :: u16 where "node_status_type = 0x0021"
definition class_in :: u16 where "class_in = 0x0001"

fun find_status :: "nat \<Rightarrow> datagram \<Rightarrow> nat \<Rightarrow> netbios_name list parse" where
  "find_status 0 data offset = reject NoStatusAnswer"
| "find_status (Suc k) data offset =
     (case skip_dns_name data offset of
        None \<Rightarrow> None
      | Some (Inl _) \<Rightarrow> reject MalformedAnswer
      | Some (Inr o1) \<Rightarrow>
          if length data < o1 + 10 then reject MalformedAnswer
          else then_parse (read_u16 data o1) (\<lambda>ty. then_parse (read_u16 data (o1 + 2)) (\<lambda>cl.
            then_parse (read_u16 data (o1 + 8)) (\<lambda>len.
              let o2 = o1 + 10 in
              if length data < o2 + unat len then reject RdataExceedsPacket
              else if ty = node_status_type \<and> cl AND 0x7FFF = class_in
              then then_parse (read_slice data o2 (o2 + unat len)) parse_status_rdata
              else find_status k data (o2 + unat len)))))"

definition parse_node_status :: "datagram \<Rightarrow> u16 \<Rightarrow> netbios_name list parse" where
  "parse_node_status data expected =
     (if length data < 12 then reject PacketTooShort
      else then_parse (read_u16 data 0) (\<lambda>tid. if tid \<noteq> expected then reject TransactionMismatch
      else then_parse (read_u16 data 2) (\<lambda>flags.
        if flags AND 0x8000 = 0 then reject NotAResponse
        else if flags AND 0x7800 \<noteq> 0 then reject UnexpectedOpcode
        else if flags AND 0x000F \<noteq> 0 then reject ResponseCode
        else then_parse (read_u16 data 4) (\<lambda>questions. then_parse (read_u16 data 6) (\<lambda>answers.
          if 16 < unat questions \<or> 64 < unat answers then reject TooManyRecords
          else then_parse (skip_questions (unat questions) data 12) (find_status (unat answers) data))))))"

subsection \<open>The request\<close>

fun encode_netbios_name :: "u8 list \<Rightarrow> datagram" where
  "encode_netbios_name [] = []"
| "encode_netbios_name (c # s) = (0x41 + drop_bit 4 c) # (0x41 + (c AND 0x0F)) # encode_netbios_name s"

definition bytes16 :: "u16 \<Rightarrow> datagram" where
  "bytes16 v = [ucast (drop_bit 8 v), ucast v]"

definition build_node_status_request :: "u16 \<Rightarrow> datagram" where
  "build_node_status_request tid = bytes16 tid @ [0, 0] @ bytes16 1 @ replicate 6 0 @ [32]
     @ encode_netbios_name (0x2A # replicate 15 0) @ [0] @ bytes16 node_status_type @ bytes16 class_in"

subsection \<open>What the answer says\<close>

definition netbios_host_char :: "char \<Rightarrow> bool" where
  "netbios_host_char c \<longleftrightarrow> 97 \<le> byte c \<and> byte c \<le> 122 \<or> 65 \<le> byte c \<and> byte c \<le> 90 \<or> is_digit c \<or> c = CHR ''-'' \<or> c = CHR ''_''"

definition valid_netbios_hostname :: "string \<Rightarrow> bool" where
  "valid_netbios_hostname v = (let t = trim_space v in t \<noteq> [] \<and> length t \<le> 15 \<and> list_all netbios_host_char t)"

definition is_group :: "netbios_name \<Rightarrow> bool" where "is_group n \<longleftrightarrow> nb_flags n AND 0x8000 \<noteq> 0"

definition netbios_hostname :: "netbios_name list \<Rightarrow> string" where
  "netbios_hostname ns =
     (case find (\<lambda>n. nb_suffix n = 0 \<and> \<not> is_group n \<and> valid_netbios_hostname (nb_name n)) ns of None \<Rightarrow> [] | Some n \<Rightarrow> nb_name n)"

definition netbios_services :: "netbios_name list \<Rightarrow> string list" where
  "netbios_services ns =
     (if \<exists>n \<in> set ns. nb_suffix n = 0x1C \<and> is_group n then [''domain_controller''] else [])
     @ (if \<exists>n \<in> set ns. nb_suffix n = 0x20 \<and> \<not> is_group n then [''file_server''] else [])"

definition no_enrichment :: "string \<Rightarrow> real \<Rightarrow> enrichment" where
  "no_enrichment src conf = \<lparr>nr_hostname = [], nr_friendly_name = [], nr_manufacturer = [], nr_vendor = [], nr_model = [],
     nr_device_type = [], nr_services = [], nr_confidence = conf, nr_source = src\<rparr>"

text \<open>\<open>answer\<close> is what the network gives back to the request: an error of the socket, or the bytes received. A panic would
  end the process.\<close>

definition netbios_enrich :: "u16 \<Rightarrow> datagram option \<Rightarrow> device \<Rightarrow> enrichment option option" where
  "netbios_enrich tid answer d =
     (if current_ip d = [] \<or> (case parse_ip (current_ip d) of None \<Rightarrow> True | Some ip \<Rightarrow> to4 ip = None) then Some None
      else (case answer of None \<Rightarrow> Some None
        | Some data \<Rightarrow> (case parse_node_status data tid of
            None \<Rightarrow> None
          | Some (Inl _) \<Rightarrow> Some None
          | Some (Inr ns) \<Rightarrow>
              if ns = [] \<or> (netbios_hostname ns = [] \<and> netbios_services ns = []) then Some None
              else Some (Some ((no_enrichment ''netbios'' (6 / 10))
                \<lparr>nr_hostname := netbios_hostname ns, nr_services := netbios_services ns\<rparr>)))))"

end
