(* ===== verification/Dis_Netbios_Props.thy ===== *)
theory Dis_Netbios_Props
  imports Dis_Netbios
begin

text \<open>
  The parser of node status answers: no packet makes it panic, what it accepts is bounded and printable, and the
  answer a host builds is read as the names it carries.
\<close>

subsection \<open>No packet panics\<close>

definition safe :: "'a parse \<Rightarrow> bool" where
  "safe m \<longleftrightarrow> m \<noteq> None"

named_theorems no_panic "parsers that do not read outside the packet"

lemma safe_result [simp]: "safe (Some r)" "\<not> safe None"
  by (simp_all add: safe_def)

lemma then_parse_safe [no_panic]: "safe m \<Longrightarrow> (\<And>x. m = accept x \<Longrightarrow> safe (f x)) \<Longrightarrow> safe (then_parse m f)"
  by (cases m) (auto simp: then_parse_def split: sum.split)

lemma read_safe [no_panic]:
  "i < length data \<Longrightarrow> safe (read_byte data i)"
  "a \<le> b \<Longrightarrow> b \<le> length data \<Longrightarrow> safe (read_slice data a b)"
  "i + 2 \<le> length data \<Longrightarrow> safe (read_u16 data i)"
  by (simp_all add: read_byte_def read_slice_def read_u16_def then_parse_def)

lemma slice_length: "read_slice data a b = accept s \<Longrightarrow> length s = b - a"
  by (auto simp: read_slice_def split: if_splits)

lemma skip_labels_safe: "safe (skip_labels k data seen position consumed)"
  by (induction k data seen position consumed rule: skip_labels.induct) (auto simp: Let_def intro!: no_panic)

lemma skip_name_safe: "safe (skip_dns_name data offset)"
  by (simp add: skip_dns_name_def skip_labels_safe)

lemma skip_questions_safe: "safe (skip_questions k data offset)"
proof (induction k data offset rule: skip_questions.induct)
  case (2 k data offset)
  obtain r where "skip_dns_name data offset = Some r" using skip_name_safe [of data offset] by (auto simp: safe_def)
  with 2 show ?case by (cases r) auto
qed simp

lemma read_names_safe: "offset + 18 * k \<le> length data \<Longrightarrow> safe (read_names k data offset)"
  by (induction k data offset rule: read_names.induct) (auto intro!: no_panic dest!: slice_length)

lemma status_rdata_safe: "safe (parse_status_rdata data)"
  unfolding parse_status_rdata_def by (auto intro!: no_panic read_names_safe simp: Suc_le_eq)

lemma find_status_safe: "safe (find_status k data offset)"
proof (induction k data offset rule: find_status.induct)
  case (2 k data offset)
  obtain r where "skip_dns_name data offset = Some r" using skip_name_safe [of data offset] by (auto simp: safe_def)
  with 2 show ?case by (cases r) (auto simp: Let_def intro!: no_panic status_rdata_safe)
qed simp

text \<open>C34: No packet a host of the network sends makes the parser of node status answers read outside it: whatever the
  bytes, and whatever compression pointers they hold, the result is an error or a list of names, never a panic.\<close>

theorem netbios_never_panics: "parse_node_status data tid \<noteq> None"
proof -
  have "safe (parse_node_status data tid)"
    unfolding parse_node_status_def by (auto intro!: no_panic skip_questions_safe find_status_safe)
  then show ?thesis by (simp add: safe_def)
qed

subsection \<open>What is accepted\<close>

lemma then_parse_accepts: "then_parse m f = accept y \<longleftrightarrow> (\<exists>x. m = accept x \<and> f x = accept y)"
  by (cases m) (auto simp: then_parse_def split: sum.splits)

definition decent_name :: "netbios_name \<Rightarrow> bool" where
  "decent_name n \<longleftrightarrow> length (nb_name n) \<le> 15 \<and> (\<forall>c \<in> set (nb_name n). c = CHR 0x00 \<or> 32 \<le> byte c \<and> byte c \<le> 126)
     \<and> (nb_name n \<noteq> [] \<longrightarrow> last (nb_name n) \<noteq> CHR '' '' \<and> last (nb_name n) \<noteq> CHR 0x00)"

lemma trim_name_facts:
  "length (trim_name s) \<le> length s" "set (trim_name s) \<subseteq> set s"
  "trim_name s \<noteq> [] \<Longrightarrow> last (trim_name s) \<noteq> CHR '' '' \<and> last (trim_name s) \<noteq> CHR 0x00"
proof -
  let ?P = "\<lambda>c. c = CHR '' '' \<or> c = CHR 0x00"
  show "length (trim_name s) \<le> length s" using length_dropWhile_le [of ?P "rev s"] by (simp add: trim_name_def)
  show "set (trim_name s) \<subseteq> set s" unfolding trim_name_def using set_dropWhileD by fastforce
  assume "trim_name s \<noteq> []"
  then have "dropWhile ?P (rev s) \<noteq> []" by (simp add: trim_name_def)
  from hd_dropWhile [OF this] this show "last (trim_name s) \<noteq> CHR '' '' \<and> last (trim_name s) \<noteq> CHR 0x00"
    by (simp add: trim_name_def last_rev)
qed

lemma byte_of_char: "byte (byte_char b) = unat b"
proof -
  have "unat b < 2 ^ LENGTH(8)" by (rule unsigned_less)
  then show ?thesis by (simp add: byte_char_def byte_char_of)
qed

lemma byte_char_zero: "byte_char 0 = CHR 0x00"
  by code_simp

lemma read_names_decent: "read_names k data offset = accept ns \<Longrightarrow> length ns = k \<and> list_all decent_name ns"
proof (induction k data offset arbitrary: ns rule: read_names.induct)
  case (2 k data offset)
  from 2(2) obtain entry ps suffix flags names where r:
    "read_slice entry 0 15 = accept ps" "\<forall>v \<in> set ps. v = 0 \<or> \<not> v < 0x20 \<and> \<not> 0x7E < v"
    "read_names k data (offset + 18) = accept names"
    "ns = \<lparr>nb_name = trim_name (map byte_char ps), nb_suffix = suffix, nb_flags = flags\<rparr> # names"
    by (auto simp: then_parse_accepts split: if_splits)
  have ih: "length names = k \<and> list_all decent_name names"
    using 2(1) r 2(2) by (auto simp: then_parse_accepts split: if_splits)
  let ?s = "map byte_char ps"
  have "length ?s = 15" using slice_length [OF r(1)] by simp
  moreover have "c = CHR 0x00 \<or> 32 \<le> byte c \<and> byte c \<le> 126" if c: "c \<in> set ?s" for c
  proof -
    obtain v where v: "v \<in> set ps" "c = byte_char v" using c by auto
    show ?thesis
    proof (cases "v = 0")
      case True
      then show ?thesis using v byte_char_zero by simp
    next
      case False
      then have "0x20 \<le> v" "v \<le> 0x7E" using r(2) v(1) by (auto simp: not_less)
      then show ?thesis using v(2) by (simp add: byte_of_char word_le_nat_alt)
    qed
  qed
  ultimately have "\<forall>c \<in> set (trim_name ?s). c = CHR 0x00 \<or> 32 \<le> byte c \<and> byte c \<le> 126" "length (trim_name ?s) \<le> 15"
    using trim_name_facts(1,2) [of ?s] by (blast, simp)
  then have "decent_name \<lparr>nb_name = trim_name ?s, nb_suffix = suffix, nb_flags = flags\<rparr>"
    using trim_name_facts(3) [of ?s] by (simp add: decent_name_def)
  with ih r(4) show ?case by simp
qed auto

lemma status_decent: "parse_status_rdata data = accept ns \<Longrightarrow> length ns \<le> 100 \<and> list_all decent_name ns"
  by (auto simp: parse_status_rdata_def then_parse_accepts split: if_splits dest!: read_names_decent)

lemma find_status_decent: "find_status k data offset = accept ns \<Longrightarrow> length ns \<le> 100 \<and> list_all decent_name ns"
  by (induction k arbitrary: offset)
    (auto simp: then_parse_accepts Let_def split: option.splits sum.splits if_splits dest: status_decent)

text \<open>What the parser accepts is bounded and printable: an accepted answer carries the transaction of the request and
  at most 100 names, each of at most 15 characters that are printable or zero, with no padding left at its end.\<close>

theorem netbios_accepts_decent_names:
  assumes "parse_node_status data tid = accept ns"
  shows "length ns \<le> 100 \<and> read_u16 data 0 = accept tid
     \<and> (\<forall>n \<in> set ns. length (nb_name n) \<le> 15 \<and> (\<forall>c \<in> set (nb_name n). c = CHR 0x00 \<or> 32 \<le> byte c \<and> byte c \<le> 126)
       \<and> (nb_name n \<noteq> [] \<longrightarrow> last (nb_name n) \<noteq> CHR '' '' \<and> last (nb_name n) \<noteq> CHR 0x00))"
proof -
  have "length ns \<le> 100 \<and> list_all decent_name ns" "read_u16 data 0 = accept tid"
    using assms by (auto simp: parse_node_status_def then_parse_accepts split: if_splits dest: find_status_decent)
  then show ?thesis by (auto simp: list_all_iff decent_name_def)
qed

subsection \<open>The answer of a host is read as its names\<close>

text \<open>The answer of RFC 1002, 4.2.18: the header, the queried name, type and class, a lifetime, and the table of names
  followed by the statistics.\<close>

definition name_bytes :: "string \<Rightarrow> datagram" where
  "name_bytes s = map (\<lambda>c. of_nat (byte c)) s @ replicate (15 - length s) 0x20"

definition name_entry :: "netbios_name \<Rightarrow> datagram" where
  "name_entry n = name_bytes (nb_name n) @ [nb_suffix n] @ bytes16 (nb_flags n)"

definition status_rdata :: "netbios_name list \<Rightarrow> datagram \<Rightarrow> datagram" where
  "status_rdata ns stats = of_nat (length ns) # concat (map name_entry ns) @ stats"

definition status_answer :: "u16 \<Rightarrow> netbios_name list \<Rightarrow> datagram \<Rightarrow> datagram" where
  "status_answer tid ns stats = bytes16 tid @ bytes16 0x8400 @ bytes16 0 @ bytes16 1 @ bytes16 0 @ bytes16 0
     @ [32] @ encode_netbios_name (0x2A # replicate 15 0) @ [0] @ bytes16 node_status_type @ bytes16 class_in
     @ [0, 0, 0, 0] @ bytes16 (of_nat (length (status_rdata ns stats))) @ status_rdata ns stats"

definition proper_name :: "netbios_name \<Rightarrow> bool" where
  "proper_name n \<longleftrightarrow> length (nb_name n) \<le> 15 \<and> (\<forall>c \<in> set (nb_name n). 32 \<le> byte c \<and> byte c \<le> 126)
     \<and> (nb_name n \<noteq> [] \<longrightarrow> last (nb_name n) \<noteq> CHR '' '')"

lemma be16_bytes: "be16 (ucast (drop_bit 8 v)) (ucast v) = v"
  unfolding be16_def by (rule bit_word_eqI) (auto simp: bit_simps)

lemma read_u16_at: "drop i data = bytes16 v @ rest \<Longrightarrow> read_u16 data i = accept v"
proof -
  assume d: "drop i data = bytes16 v @ rest"
  from arg_cong [where f = length, OF d] have "i + 1 < length data" by (simp add: bytes16_def)
  moreover have "data ! i = ucast (drop_bit 8 v)" "data ! (i + 1) = ucast v"
    using arg_cong [where f = "\<lambda>x. x ! 0", OF d] arg_cong [where f = "\<lambda>x. x ! 1", OF d] calculation
    by (simp_all add: bytes16_def)
  ultimately show ?thesis by (simp add: read_u16_def read_byte_def then_parse_def be16_bytes)
qed

lemma read_byte_at: "drop i data = b # rest \<Longrightarrow> read_byte data i = accept b"
  by (metis drop_eq_Nil hd_drop_conv_nth leI list.distinct(1) list.sel(1) read_byte_def)

lemma read_slice_at:
  "drop i data = s @ rest \<Longrightarrow> i \<le> length data \<Longrightarrow> read_slice data i (i + length s) = accept s"
proof -
  assume d: "drop i data = s @ rest" and i: "i \<le> length data"
  from arg_cong [where f = length, OF d] i have "i + length s \<le> length data" by auto
  then show ?thesis using d by (simp add: read_slice_def)
qed

lemma byte_of_byte: "unat (of_nat (byte c) :: u8) = byte c" "byte_char (of_nat (byte c)) = c"
proof -
  show u: "unat (of_nat (byte c) :: u8) = byte c" using byte_less [of c] by (simp add: unat_of_nat)
  show "byte_char (of_nat (byte c)) = c" unfolding byte_char_def u by (simp add: byte_def)
qed

lemma trim_padded: "s \<noteq> [] \<longrightarrow> last s \<noteq> CHR '' '' \<and> last s \<noteq> CHR 0x00 \<Longrightarrow> trim_name (s @ replicate k (CHR '' '')) = s"
proof -
  assume l: "s \<noteq> [] \<longrightarrow> last s \<noteq> CHR '' '' \<and> last s \<noteq> CHR 0x00"
  have "dropWhile (\<lambda>c. c = CHR '' '' \<or> c = CHR 0x00) (replicate k (CHR '' '') @ rev s) = rev s"
    using l by (induction k) (cases "rev s"; auto simp: last_rev [symmetric] hd_rev)+
  then show ?thesis by (simp add: trim_name_def)
qed

lemma name_entry_length: "length (nb_name n) \<le> 15 \<Longrightarrow> length (name_entry n) = 18"
  by (simp add: name_entry_def name_bytes_def bytes16_def)

lemma name_entry_read:
  assumes "proper_name n"
  shows "read_slice (name_entry n) 0 15 = accept (name_bytes (nb_name n))"
    "\<forall>v \<in> set (name_bytes (nb_name n)). v = 0 \<or> \<not> v < 0x20 \<and> \<not> 0x7E < v"
    "trim_name (map byte_char (name_bytes (nb_name n))) = nb_name n"
    "read_byte (name_entry n) 15 = accept (nb_suffix n)" "read_u16 (name_entry n) 16 = accept (nb_flags n)"
proof -
  have n: "length (nb_name n) \<le> 15" "\<forall>c \<in> set (nb_name n). 32 \<le> byte c \<and> byte c \<le> 126"
    "nb_name n \<noteq> [] \<longrightarrow> last (nb_name n) \<noteq> CHR '' ''" using assms by (simp_all add: proper_name_def)
  have len: "length (name_bytes (nb_name n)) = 15" using n(1) by (simp add: name_bytes_def)
  show "read_slice (name_entry n) 0 15 = accept (name_bytes (nb_name n))"
    using read_slice_at [of 0 "name_entry n" "name_bytes (nb_name n)"] len by (simp add: name_entry_def)
  show "\<forall>v \<in> set (name_bytes (nb_name n)). v = 0 \<or> \<not> v < 0x20 \<and> \<not> 0x7E < v"
    using n(2) by (auto simp: name_bytes_def word_less_nat_alt byte_of_byte not_less)
  have "nb_name n \<noteq> [] \<longrightarrow> last (nb_name n) \<noteq> CHR 0x00"
  proof
    assume ne: "nb_name n \<noteq> []"
    have "byte (CHR 0x00) = 0" by code_simp
    then show "last (nb_name n) \<noteq> CHR 0x00" using n(2) last_in_set [OF ne] by fastforce
  qed
  then have "trim_name (nb_name n @ replicate (15 - length (nb_name n)) (CHR '' '')) = nb_name n"
    using n(3) trim_padded by blast
  moreover have "byte_char 0x20 = CHR '' ''" by code_simp
  ultimately show "trim_name (map byte_char (name_bytes (nb_name n))) = nb_name n"
    by (simp add: name_bytes_def o_def byte_of_byte)
  have "drop 15 (name_entry n) = nb_suffix n # bytes16 (nb_flags n)" "drop 16 (name_entry n) = bytes16 (nb_flags n) @ []"
    using len by (simp_all add: name_entry_def)
  then show "read_byte (name_entry n) 15 = accept (nb_suffix n)" "read_u16 (name_entry n) 16 = accept (nb_flags n)"
    using read_byte_at read_u16_at by blast+
qed

lemma read_names_entries:
  "list_all proper_name ns \<Longrightarrow> drop offset data = concat (map name_entry ns) @ rest \<Longrightarrow> read_names (length ns) data offset = accept ns"
proof (induction ns arbitrary: offset)
  case (Cons n ns)
  then have n: "proper_name n" and len: "length (name_entry n) = 18" by (simp_all add: name_entry_length proper_name_def)
  have d: "drop offset data = name_entry n @ concat (map name_entry ns) @ rest" using Cons.prems by simp
  have "drop (offset + 18) data = concat (map name_entry ns) @ rest"
    using arg_cong [where f = "drop 18", OF d] len by (simp add: add.commute)
  with Cons have "read_names (length ns) data (offset + 18) = accept ns" by simp
  moreover have "offset \<le> length data" using arg_cong [where f = length, OF d] len by simp
  then have "read_slice data offset (offset + 18) = accept (name_entry n)" using read_slice_at [OF d] len by simp
  ultimately show ?case using name_entry_read [OF n] by (auto simp: then_parse_def)
qed simp

lemma skip_first_name:
  assumes "drop 12 data = 32 # e @ 0 # rest" "length e = 32"
  shows "skip_dns_name data 12 = accept 46"
proof -
  have d: "drop 45 data = 0 # rest" using arg_cong [where f = "drop 33", OF assms(1)] assms(2) by simp
  have len: "46 \<le> length data" using arg_cong [where f = length, OF d] by simp
  have b: "read_byte data 12 = accept 32" "read_byte data 45 = accept 0" using assms(1) d by (auto intro: read_byte_at)
  have "skip_labels (Suc (Suc k)) data {} 12 None = accept 46" for k using len b by (simp add: then_parse_def)
  from this [of 126] show ?thesis using len by (simp add: skip_dns_name_def)
qed

lemma rdata_read:
  assumes "list_all proper_name ns" "length ns \<le> 100"
  shows "parse_status_rdata (status_rdata ns stats) = accept ns"
proof -
  have u: "unat (of_nat (length ns) :: u8) = length ns" using assms(2) by (simp add: unat_of_nat)
  have "\<forall>n \<in> set ns. length (name_entry n) = 18" using assms(1) by (auto simp: list_all_iff proper_name_def name_entry_length)
  then have "length (concat (map name_entry ns)) = length ns * 18" by (induction ns) auto
  then have len: "\<not> length (status_rdata ns stats) < 1 + length ns * 18" by (simp add: status_rdata_def)
  have "read_byte (status_rdata ns stats) 0 = accept (of_nat (length ns))"
    by (rule read_byte_at) (simp add: status_rdata_def)
  moreover have "read_names (length ns) (status_rdata ns stats) 1 = accept ns"
    by (rule read_names_entries [OF assms(1)]) (simp add: status_rdata_def)
  moreover have "status_rdata ns stats \<noteq> []" by (simp add: status_rdata_def)
  ultimately show ?thesis using len u assms(2) by (simp add: parse_status_rdata_def then_parse_def)
qed

lemma length_encoded: "length (encode_netbios_name s) = 2 * length s"
  by (induction s) simp_all

text \<open>C35: The answer a host gives is read as what it says: the bytes RFC 1002 prescribes for a table of at most 100 names, of
  at most 15 printable characters each, followed by any statistics that fit, are parsed to exactly these names with their
  suffixes and flags, when the answer carries the transaction asked for.\<close>

theorem netbios_answer_read:
  assumes "length ns \<le> 100" "length stats \<le> 60000"
    and "\<forall>n \<in> set ns. length (nb_name n) \<le> 15 \<and> (\<forall>c \<in> set (nb_name n). 32 \<le> byte c \<and> byte c \<le> 126)
       \<and> (nb_name n \<noteq> [] \<longrightarrow> last (nb_name n) \<noteq> CHR '' '')"
  shows "parse_node_status (status_answer tid ns stats) tid = accept ns"
proof -
  let ?d = "status_answer tid ns stats" and ?r = "status_rdata ns stats"
  have ns: "list_all proper_name ns" using assms(3) by (simp add: list_all_iff proper_name_def)
  have "\<forall>n \<in> set ns. length (name_entry n) = 18" using ns by (auto simp: list_all_iff proper_name_def name_entry_length)
  then have "length (concat (map name_entry ns)) = length ns * 18" by (induction ns) auto
  then have "length ?r < 2 ^ LENGTH(16)" using assms(1,2) by (simp add: status_rdata_def)
  then have rlen: "unat (of_nat (length ?r) :: u16) = length ?r" by (simp add: unat_of_nat)
  have e: "length (encode_netbios_name (0x2A # replicate 15 0)) = 32" by (simp add: length_encoded)
  have len: "length ?d = 56 + length ?r" by (simp add: status_answer_def bytes16_def length_encoded)
  have h: "read_u16 ?d 0 = accept tid" "read_u16 ?d 2 = accept 0x8400" "read_u16 ?d 4 = accept 0" "read_u16 ?d 6 = accept 1"
    by (rule read_u16_at, simp add: status_answer_def bytes16_def)+
  have q: "drop 12 ?d = 32 # encode_netbios_name (0x2A # replicate 15 0) @ 0 # bytes16 node_status_type @ bytes16 class_in
      @ [0, 0, 0, 0] @ bytes16 (of_nat (length ?r)) @ ?r"
    by (simp add: status_answer_def bytes16_def)
  have d46: "drop 46 ?d = bytes16 node_status_type @ bytes16 class_in @ [0, 0, 0, 0] @ bytes16 (of_nat (length ?r)) @ ?r"
    using arg_cong [where f = "drop 34", OF q] e by simp
  have "drop 48 ?d = drop 2 (drop 46 ?d)" by (simp only: drop_drop) simp
  then have d48: "drop 48 ?d = bytes16 class_in @ [0, 0, 0, 0] @ bytes16 (of_nat (length ?r)) @ ?r"
    unfolding d46 by (simp add: bytes16_def)
  have "drop 54 ?d = drop 6 (drop 48 ?d)" by (simp only: drop_drop) simp
  then have d54: "drop 54 ?d = bytes16 (of_nat (length ?r)) @ ?r" unfolding d48 by (simp add: bytes16_def)
  have "drop 56 ?d = drop 2 (drop 54 ?d)" by (simp only: drop_drop) simp
  then have d56: "drop 56 ?d = ?r @ []" unfolding d54 by (simp add: bytes16_def)
  have r: "read_u16 ?d 46 = accept node_status_type" "read_u16 ?d 48 = accept class_in" "read_u16 ?d 54 = accept (of_nat (length ?r))"
    using read_u16_at [OF d46] read_u16_at [OF d48] read_u16_at [OF d54] by simp_all
  have "find_status 1 ?d 12 = accept ns"
    using skip_first_name [OF q e] r rlen len read_slice_at [OF d56] rdata_read [OF ns assms(1)]
    by (simp add: then_parse_def class_in_def)
  then show ?thesis using h len by (simp add: parse_node_status_def then_parse_def)
qed

definition printer_names :: "netbios_name list" where
  "printer_names = [\<lparr>nb_name = ''PRINTER-1'', nb_suffix = 0, nb_flags = 0x0400\<rparr>, \<lparr>nb_name = ''WORKGROUP'', nb_suffix = 0, nb_flags = 0x8400\<rparr>]"

theorem netbios_answer_read_witness:
  "parse_node_status (status_answer 0x1234 printer_names (replicate 46 0)) 0x1234 = accept printer_names"
  by (rule netbios_answer_read) (auto simp: printer_names_def byte_def)

theorem netbios_accepts_decent_names_witness: "length printer_names \<le> 100"
proof -
  have "parse_node_status (status_answer 0x1234 printer_names []) 0x1234 = accept printer_names" by code_simp
  from netbios_accepts_decent_names [OF this] show ?thesis by blast
qed

end
