(* ===== verification/Dis_Dhcp.thy ===== *)
theory Dis_Dhcp
  imports Dis_Engine Go_Text
begin

text \<open>
  The lease provider (\<open>internal/discovery/dhcp_provider.go\<close>): where the leases come from, the three sections of the
  payload, the leases of dnsmasq and Kea, the stations of an access point and the neighbours of the router, and what is
  handed on. What a source gives back is an argument: nothing, or a status and a text. The clock is read once per
  poll; the log is left out.
\<close>

subsection \<open>The provider\<close>

definition max_dhcp_payload_bytes :: nat where "max_dhcp_payload_bytes = 4194304"
definition max_dhcp_records :: nat where "max_dhcp_records = 4096"

record dhcp_config =
  dc_type :: string
  dc_lease_file :: string
  dc_lease_url :: string
  dc_ssh_host :: string
  dc_ssh_user :: string
  dc_ap_enabled :: bool
  dc_neighbors_enabled :: bool
  dc_arp_enabled :: bool

text \<open>The queue to the correlation engine holds 256 observations.\<close>

record dhcp_provider =
  dp_config :: dhcp_config
  dp_events :: "observation list"
  dp_seen :: "string \<rightharpoonup> string"

definition new_dhcp_provider :: "dhcp_config \<Rightarrow> dhcp_provider" where
  "new_dhcp_provider cfg = \<lparr>dp_config = cfg, dp_events = [], dp_seen = Map.empty\<rparr>"

definition dhcp_emit :: "observation \<Rightarrow> dhcp_provider \<Rightarrow> dhcp_provider" where
  "dhcp_emit obs p = (if length (dp_events p) < 256 then p\<lparr>dp_events := dp_events p @ [obs]\<rparr> else p)"

definition normalize_lease_type :: "string \<Rightarrow> string option" where
  "normalize_lease_type v =
     (let t = to_lower (trim_space v) in
      if t \<in> {[], ''router'', ''openwrt'', ''pihole'', ''dnsmasq''} then Some ''dnsmasq''
      else if t = ''kea'' then Some ''kea'' else None)"

subsection \<open>Where the payload comes from\<close>

definition shell_quote :: "string \<Rightarrow> string" where
  "shell_quote v = [CHR 0x27] @ replace_all [CHR 0x27] [CHR 0x27, CHR 0x22, CHR 0x27, CHR 0x22, CHR 0x27] v @ [CHR 0x27]"

text \<open>The two optional parts of the remote script, after their marker lines.\<close>

definition quoted :: "string \<Rightarrow> string" where "quoted s = [CHR 0x27] @ s @ [CHR 0x27]"
definition dquoted :: "string \<Rightarrow> string" where "dquoted s = [CHR 0x22] @ s @ [CHR 0x22]"
definition esc_n :: string where "esc_n = [CHR 0x5C, CHR ''n'']"

definition print_marker :: "string \<Rightarrow> string" where
  "print_marker name = ''; printf '' @ quoted (esc_n @ ''==='' @ name @ ''==='' @ esc_n) @ ''; ''"

definition ap_script :: string where
  "ap_script = print_marker ''AP_ASSOC'' @ ''for iface in $(iw dev 2>/dev/null | awk ''
     @ quoted (''$1=='' @ dquoted ''Interface'' @ ''{print $2}'') @ ''); do iw dev '' @ dquoted ''$iface'' @ '' station dump 2>/dev/null | awk -v iface=''
     @ dquoted ''$iface'' @ '' '' @ quoted (''$1=='' @ dquoted ''Station'' @ ''{print iface, $2}'') @ ''; done''"

definition neighbor_script :: string where
  "neighbor_script = print_marker ''NEIGH_REACHABLE'' @ ''ip -o neigh show nud reachable 2>/dev/null | awk ''
     @ quoted (''$0 ~ /lladdr/ {for(i=1;i<=NF;i++) if($i=='' @ dquoted ''lladdr'' @ '') {print $1, $(i+1), '' @ dquoted ''REACHABLE'' @ ''}}'')"

definition remote_script :: "dhcp_config \<Rightarrow> string" where
  "remote_script cfg =
     ''cat -- '' @ shell_quote (if dc_lease_file cfg = [] then ''/tmp/dhcp.leases'' else dc_lease_file cfg)
     @ (if dc_ap_enabled cfg then ap_script else [])
     @ (if dc_neighbors_enabled cfg \<or> dc_arp_enabled cfg then neighbor_script else [])"

definition ssh_options :: "bool \<Rightarrow> string list" where
  "ssh_options run_dir =
     [''-o'', ''BatchMode=yes'', ''-o'', ''StrictHostKeyChecking=accept-new'', ''-o'', ''UserKnownHostsFile=/etc/dis/known_hosts'',
      ''-o'', ''ConnectTimeout=5'']
     @ (if run_dir then [''-o'', ''ControlMaster=auto'', ''-o'', ''ControlPersist=5m'', ''-o'', ''ControlPath=/run/dis/ssh-%C''] else [])"

definition ssh_target :: "dhcp_config \<Rightarrow> string" where
  "ssh_target cfg = (if dc_ssh_user cfg = [] then ''root'' else dc_ssh_user cfg) @ ''@'' @ dc_ssh_host cfg"

definition ssh_args :: "bool \<Rightarrow> dhcp_config \<Rightarrow> string list" where
  "ssh_args run_dir cfg = ssh_options run_dir @ [ssh_target cfg, ''sh'', ''-c'', shell_quote (remote_script cfg)]"

datatype lease_source = OverSsh "string list" | FromUrl string | FromFile string

definition lease_source_of :: "bool \<Rightarrow> dhcp_config \<Rightarrow> lease_source option" where
  "lease_source_of run_dir cfg =
     (if dc_ssh_host cfg \<noteq> [] then Some (OverSsh (ssh_args run_dir cfg))
      else if dc_lease_url cfg \<noteq> [] then Some (FromUrl (dc_lease_url cfg))
      else if dc_lease_file cfg = [] then None
      else Some (FromFile (dc_lease_file cfg)))"

definition read_bounded :: "nat \<Rightarrow> string \<Rightarrow> string option" where
  "read_bounded limit s = (if limit < length s then None else Some s)"

text \<open>A command or a file answers with its text, a server with a status too.\<close>

definition fetch_payload :: "bool \<Rightarrow> (lease_source \<Rightarrow> (nat \<times> string) option) \<Rightarrow> dhcp_config \<Rightarrow> string option" where
  "fetch_payload run_dir outside cfg =
     (case lease_source_of run_dir cfg of None \<Rightarrow> None
      | Some src \<Rightarrow>
          (case outside src of None \<Rightarrow> None
           | Some (st, s) \<Rightarrow> 
               if (case src of FromUrl _ \<Rightarrow> st \<noteq> 200 | _ \<Rightarrow> False) then None else read_bounded max_dhcp_payload_bytes s))"

subsection \<open>The sections\<close>

definition max_lease_line :: nat where "max_lease_line = 262144"

datatype payload_section = LeaseSection | ApSection | NeighSection

record dhcp_payload =
  py_lease :: string
  py_ap :: "string list"
  py_neigh :: "string list"

fun split_lines :: "payload_section \<Rightarrow> string list \<Rightarrow> dhcp_payload \<Rightarrow> dhcp_payload option" where
  "split_lines sec [] y = Some y"
| "split_lines sec (raw # ls) y =
     (if max_lease_line \<le> length raw then None
      else let scanned = drop_cr raw; line = trim_space scanned in
        if line = ''===AP_ASSOC==='' then split_lines ApSection ls y
        else if line = ''===NEIGH_REACHABLE==='' \<or> line = ''===ARP_TABLE==='' then split_lines NeighSection ls y
        else (case sec of
            LeaseSection \<Rightarrow> split_lines sec ls (y\<lparr>py_lease := py_lease y @ scanned @ [newline]\<rparr>)
          | ApSection \<Rightarrow>
              if line = [] then split_lines sec ls y
              else if max_dhcp_records \<le> length (py_ap y) then None else split_lines sec ls (y\<lparr>py_ap := py_ap y @ [line]\<rparr>)
          | NeighSection \<Rightarrow>
              if line = [] then split_lines sec ls y
              else if max_dhcp_records \<le> length (py_neigh y) then None
              else split_lines sec ls (y\<lparr>py_neigh := py_neigh y @ [line]\<rparr>)))"

definition split_dhcp_payload :: "string \<Rightarrow> dhcp_payload option" where
  "split_dhcp_payload s = split_lines LeaseSection (stream_lines s) \<lparr>py_lease = [], py_ap = [], py_neigh = []\<rparr>"

subsection \<open>Leases\<close>

definition group_a :: string where "group_a = ''L2_netlink''"
definition group_b :: string where "group_b = ''L3_dhcp''"

definition hash_credential :: "(string \<Rightarrow> u8 list) \<Rightarrow> string \<Rightarrow> string" where
  "hash_credential sha v = hex_string (sha (''dhcp-client-id'' @ [CHR 0x00] @ trim_space v))"

definition lease_observation :: "time \<Rightarrow> hwaddr \<Rightarrow> ip_addr \<Rightarrow> string \<Rightarrow> (string \<rightharpoonup> raw_value) \<Rightarrow> observation" where
  "lease_observation now mac ip host raw =
     \<lparr>obs_source = ''dhcp'', obs_group = group_b, obs_mac = Some mac, obs_ip = Some ip, obs_hostname = host, obs_vendor = [],
      obs_model = [], obs_services = [], obs_confidence = 60 / 100, obs_timestamp = now, obs_online = False, obs_raw = raw\<rparr>"

text \<open>\<open>net.ParseMAC\<close> and \<open>net.ParseIP\<close> with the tests for six bytes and IPv4.\<close>

definition lease_mac :: "string \<Rightarrow> hwaddr option" where
  "lease_mac s = (case parse_mac s of Some m \<Rightarrow> if length m = 6 then Some m else None | None \<Rightarrow> None)"

definition lease_ip :: "string \<Rightarrow> ip_addr option" where
  "lease_ip s = (case parse_ip s of Some ip \<Rightarrow> if to4 ip = None then None else Some ip | None \<Rightarrow> None)"

definition unix :: "time \<Rightarrow> int" where "unix t = t div second"

definition dnsmasq_lease :: "(string \<Rightarrow> u8 list) \<Rightarrow> time \<Rightarrow> string \<Rightarrow> observation option" where
  "dnsmasq_lease sha now raw_line =
     (let line = trim_space raw_line in
      if line = [] \<or> has_prefix line ''duid '' then None
      else (case words_of line of
          [f0, f1, f2, f3, f4] \<Rightarrow>
            (case (parse_int f0, lease_mac f1, lease_ip f2) of
               ((expires, ok), Some mac, Some ip) \<Rightarrow>
                 if \<not> ok \<or> (expires \<noteq> 0 \<and> expires \<le> unix now) then None
                 else
                   let r0 = [''lease_format'' \<mapsto> RawString ''dnsmasq''];
                       r1 = (if expires \<noteq> 0 then r0(''lease_expires_at'' \<mapsto> RawString (rfc3339_utc expires)) else r0);
                       r2 = (if f4 \<noteq> ''*'' then r1(''dhcp_client_id_hash'' \<mapsto> RawString (hash_credential sha f4)) else r1)
                   in Some (lease_observation now mac ip (if f3 = ''*'' then [] else f3) r2)
             | _ \<Rightarrow> None)
        | _ \<Rightarrow> None))"

fun dnsmasq_lines :: "(string \<Rightarrow> u8 list) \<Rightarrow> time \<Rightarrow> string list \<Rightarrow> observation list \<Rightarrow> observation list option" where
  "dnsmasq_lines sha now [] found = Some found"
| "dnsmasq_lines sha now (raw # ls) found =
     (if max_lease_line \<le> length raw then None
      else (case dnsmasq_lease sha now (drop_cr raw) of
          None \<Rightarrow> dnsmasq_lines sha now ls found
        | Some obs \<Rightarrow>
            if max_dhcp_records < Suc (length found) then None else dnsmasq_lines sha now ls (found @ [obs])))"

definition parse_dnsmasq_leases :: "(string \<Rightarrow> u8 list) \<Rightarrow> string \<Rightarrow> time \<Rightarrow> observation list option" where
  "parse_dnsmasq_leases sha data now = dnsmasq_lines sha now (stream_lines data) []"

text \<open>Kea appends to its file: of the rows for an address the last one counts. The rows kept so far are listed by their
  key.\<close>

definition kea_columns :: "string list \<Rightarrow> string \<rightharpoonup> nat" where
  "kea_columns header = map_of (rev (zip (map (\<lambda>n. to_lower (trim_space n)) header) [0 ..< length header]))"

definition kea_field :: "(string \<rightharpoonup> nat) \<Rightarrow> string list \<Rightarrow> string \<Rightarrow> string" where
  "kea_field columns row name =
     (case columns name of None \<Rightarrow> [] | Some i \<Rightarrow> if length row \<le> i then [] else trim_space (row ! i))"

text \<open>The address a row is about, and the lease it grants: \<open>None\<close> is the tombstone.\<close>

definition kea_row :: "(string \<Rightarrow> u8 list) \<Rightarrow> time \<Rightarrow> (string \<rightharpoonup> nat) \<Rightarrow> string list \<Rightarrow> (string \<times> observation option) option" where
  "kea_row sha now columns row =
     (let field = kea_field columns row in
      case (lease_mac (field ''hwaddr''), lease_ip (field ''address'')) of
        (Some mac, Some ip) \<Rightarrow>
          (case parse_int (field ''expire'') of (expires, ok) \<Rightarrow>
            Some (ip_string ip,
              if \<not> ok \<or> expires \<le> unix now \<or> (field ''state'' \<noteq> [] \<and> field ''state'' \<noteq> ''0'') then None
              else
                let r0 = [''lease_format'' \<mapsto> RawString ''kea'', ''lease_expires_at'' \<mapsto> RawString (rfc3339_utc expires)];
                    r1 = (if field ''client_id'' \<noteq> [] then r0(''dhcp_client_id_hash'' \<mapsto> RawString (hash_credential sha (field ''client_id''))) else r0)
                in Some (lease_observation now mac ip (field ''hostname'') r1)))
      | _ \<Rightarrow> None)"

fun kea_rows :: "(string \<Rightarrow> u8 list) \<Rightarrow> time \<Rightarrow> (string \<rightharpoonup> nat) \<Rightarrow> string list option list \<Rightarrow> (string \<times> observation) list
    \<Rightarrow> (string \<times> observation) list option" where
  "kea_rows sha now columns [] latest = Some latest"
| "kea_rows sha now columns (None # rs) latest = None"
| "kea_rows sha now columns (Some row # rs) latest =
     (case kea_row sha now columns row of
        None \<Rightarrow> kea_rows sha now columns rs latest
      | Some (key, None) \<Rightarrow> kea_rows sha now columns rs (AList.delete key latest)
      | Some (key, Some obs) \<Rightarrow>
          if map_of latest key = None \<and> max_dhcp_records \<le> length latest then None
          else kea_rows sha now columns rs (AList.update key obs latest))"

definition parse_kea_leases :: "(string \<Rightarrow> u8 list) \<Rightarrow> string \<Rightarrow> time \<Rightarrow> observation list option" where
  "parse_kea_leases sha data now =
     (case csv_read data of
        [] \<Rightarrow> Some []
      | None # _ \<Rightarrow> None
      | Some header # rows \<Rightarrow>
          let columns = kea_columns header in
          if \<exists>r \<in> {''address'', ''hwaddr'', ''expire''}. columns r = None then None
          else map_option (\<lambda>latest. map snd (sort_key fst latest)) (kea_rows sha now columns rows []))"

definition parse_lease_payload :: "(string \<Rightarrow> u8 list) \<Rightarrow> string \<Rightarrow> string \<Rightarrow> time \<Rightarrow> observation list option" where
  "parse_lease_payload sha ty data now =
     (if ty = ''dnsmasq'' then parse_dnsmasq_leases sha data now
      else if ty = ''kea'' then parse_kea_leases sha data now else None)"

subsection \<open>What is handed on\<close>

text \<open>\<open>fmt.Sprint\<close> of a value that is absent or a string.\<close>

definition raw_text :: "raw_value option \<Rightarrow> string" where
  "raw_text v = (case v of Some (RawString s) \<Rightarrow> s | _ \<Rightarrow> ''<nil>'')"

definition lease_key :: "observation \<Rightarrow> string" where
  "lease_key obs = (case obs_mac obs of None \<Rightarrow> [] | Some m \<Rightarrow> mac_string m) @ ''|''
     @ (case obs_ip obs of None \<Rightarrow> ''<nil>'' | Some ip \<Rightarrow> ip_string ip)"

definition lease_signature :: "observation \<Rightarrow> string" where
  "lease_signature obs = obs_hostname obs @ ''|'' @ raw_text (obs_raw obs ''lease_expires_at'') @ ''|''
     @ raw_text (obs_raw obs ''dhcp_client_id_hash'')"

definition emit_lease :: "observation \<Rightarrow> (string \<rightharpoonup> string) \<times> dhcp_provider \<Rightarrow> (string \<rightharpoonup> string) \<times> dhcp_provider" where
  "emit_lease obs = (\<lambda>(current, p).
     (current(lease_key obs \<mapsto> lease_signature obs),
      if or_empty (dp_seen p (lease_key obs)) \<noteq> lease_signature obs then dhcp_emit obs p else p))"

definition emit_changed_leases :: "observation list \<Rightarrow> dhcp_provider \<Rightarrow> dhcp_provider" where
  "emit_changed_leases leases p = (case fold emit_lease leases (Map.empty, p) of (current, p') \<Rightarrow> p'\<lparr>dp_seen := current\<rparr>)"

definition presence_observation :: "string \<Rightarrow> real \<Rightarrow> time \<Rightarrow> hwaddr \<Rightarrow> ip_addr option \<Rightarrow> (string \<rightharpoonup> raw_value) \<Rightarrow> observation" where
  "presence_observation src conf now mac ip raw =
     \<lparr>obs_source = src, obs_group = group_a, obs_mac = Some mac, obs_ip = ip, obs_hostname = [], obs_vendor = [],
      obs_model = [], obs_services = [], obs_confidence = conf, obs_timestamp = now, obs_online = True, obs_raw = raw\<rparr>"

definition parse_station_line :: "time \<Rightarrow> string \<Rightarrow> observation option" where
  "parse_station_line now line =
     (case words_of line of
        [f0, f1] \<Rightarrow> (case lease_mac f1 of None \<Rightarrow> None
          | Some mac \<Rightarrow> Some (presence_observation ''openwrt_ap'' (99 / 100) now mac None [''wifi_interface'' \<mapsto> RawString f0]))
      | _ \<Rightarrow> None)"

definition parse_neighbor_line :: "time \<Rightarrow> string \<Rightarrow> observation option" where
  "parse_neighbor_line now line =
     (case words_of line of
        [f0, f1, f2] \<Rightarrow>
          if \<not> equal_fold f2 ''REACHABLE'' then None
          else (case (parse_ip f0, lease_mac f1) of
            (Some ip, Some mac) \<Rightarrow>
              Some (presence_observation ''openwrt_neigh'' (95 / 100) now mac (Some ip) [''nud_state'' \<mapsto> RawString ''reachable''])
          | _ \<Rightarrow> None)
      | _ \<Rightarrow> None)"

definition emit_lines :: "(string \<Rightarrow> observation option) \<Rightarrow> string list \<Rightarrow> dhcp_provider \<Rightarrow> dhcp_provider" where
  "emit_lines parse ls p = fold dhcp_emit (List.map_filter parse ls) p"

definition dhcp_poll :: "(string \<Rightarrow> u8 list) \<Rightarrow> bool \<Rightarrow> (lease_source \<Rightarrow> (nat \<times> string) option) \<Rightarrow> time \<Rightarrow> dhcp_provider \<Rightarrow> dhcp_provider" where
  "dhcp_poll sha run_dir outside now p =
     (case fetch_payload run_dir outside (dp_config p) of None \<Rightarrow> p
      | Some payload \<Rightarrow>
          (case split_dhcp_payload payload of None \<Rightarrow> p
           | Some y \<Rightarrow>
               (case parse_lease_payload sha (or_empty (normalize_lease_type (dc_type (dp_config p)))) (py_lease y) now of None \<Rightarrow> p
                | Some leases \<Rightarrow>
                    emit_lines (parse_neighbor_line now) (py_neigh y)
                      (emit_lines (parse_station_line now) (py_ap y) (emit_changed_leases leases p)))))"

text \<open>The start refuses an unknown type and then polls at once.\<close>

definition dhcp_start :: "(string \<Rightarrow> u8 list) \<Rightarrow> bool \<Rightarrow> (lease_source \<Rightarrow> (nat \<times> string) option) \<Rightarrow> time \<Rightarrow> dhcp_provider \<Rightarrow> dhcp_provider option" where
  "dhcp_start sha run_dir outside now p =
     (if normalize_lease_type (dc_type (dp_config p)) = None then None else Some (dhcp_poll sha run_dir outside now p))"

end
