(* ===== verification/Dis_Sources.thy ===== *)
theory Dis_Sources
  imports Dis_Dhcp
begin

text \<open>
  The other providers of observations: the Pi-hole's list of clients (\<open>internal/discovery/pihole_provider.go\<close>), the
  kernel's neighbour table (\<open>netlink_provider.go\<close>), and the vendor table it asks (\<open>pkg/oui/oui.go\<close>). What a server
  answers is an argument; the texts it sends are decoded by the functions of a view, the part of \<open>encoding/json\<close>
  the provider relies on. The data set of the vendor table is the parameter \<open>ieee\<close>.
\<close>

subsection \<open>Pi-hole\<close>

definition max_pihole_clients :: nat where "max_pihole_clients = 4096"
definition max_pihole_body :: nat where "max_pihole_body = 1048576"

record pihole_provider =
  ph_url :: string
  ph_password :: string
  ph_events :: "observation list"
  ph_sid :: string
  ph_sid_valid :: bool
  ph_no_auth :: bool

definition new_pihole_provider :: "string \<Rightarrow> string \<Rightarrow> pihole_provider" where
  "new_pihole_provider url pw = \<lparr>ph_url = url, ph_password = pw, ph_events = [], ph_sid = [], ph_sid_valid = False, ph_no_auth = False\<rparr>"

record pihole_client =
  pl_ip :: string
  pl_name :: string
  pl_mac :: string
  pl_vendor :: string

record pihole_session =
  pe_sid :: string
  pe_valid :: bool
  pe_message :: string
  pe_validity :: int

text \<open>A device of the network list has a hardware address, a vendor, and addresses with names; the other lists have
  addresses with names only.\<close>

record pihole_view =
  pv_network :: "string \<Rightarrow> (string \<times> string \<times> (string \<times> string) list) list option"
  pv_clients :: "string \<Rightarrow> (string \<times> string) list option"
  pv_session :: "string \<Rightarrow> pihole_session"

definition parse_pihole_clients :: "pihole_view \<Rightarrow> string \<Rightarrow> string \<Rightarrow> pihole_client list option" where
  "parse_pihole_clients v endpoint content =
     (if max_pihole_body < length content then None
      else
        let found =
          (if has_prefix endpoint ''/api/network/devices''
           then map_option (\<lambda>ds. concat (map (\<lambda>(hw, maker, ips).
                  map (\<lambda>(ip, name). \<lparr>pl_ip = ip, pl_name = name, pl_mac = hw, pl_vendor = maker\<rparr>) ips) ds)) (pv_network v content)
           else map_option (map (\<lambda>(ip, name). \<lparr>pl_ip = ip, pl_name = name, pl_mac = [], pl_vendor = []\<rparr>)) (pv_clients v content))
        in case found of None \<Rightarrow> None | Some cs \<Rightarrow> if max_pihole_clients < length cs then None else Some cs)"

definition normalize_pihole_url :: "string \<Rightarrow> string" where
  "normalize_pihole_url raw =
     (let u = trim_space raw in
      if u = [] then []
      else trim_right_char (CHR ''/'')
        (if \<not> has_prefix u ''http://'' \<and> \<not> has_prefix u ''https://'' then ''http://'' @ u else u))"

text \<open>A request that cannot be built, one without an answer, or a status with a body that may fail to arrive.\<close>

datatype pihole_reply = NoRequest | NoReply | Reply nat "string option"

datatype pihole_round = SessionRefused | ClientList string "pihole_client list" | NoClients

definition pihole_endpoints :: "string list" where
  "pihole_endpoints = [''/api/network/devices'', ''/api/stats/top_clients?count=100'', ''/api/stats/clients'']"

fun try_endpoints :: "pihole_view \<Rightarrow> (string \<Rightarrow> pihole_reply) \<Rightarrow> string list \<Rightarrow> pihole_round" where
  "try_endpoints v get [] = NoClients"
| "try_endpoints v get (ep # eps) =
     (case get ep of
        NoRequest \<Rightarrow> try_endpoints v get eps
      | NoReply \<Rightarrow> try_endpoints v get eps
      | Reply st content \<Rightarrow>
          if st = 401 then SessionRefused
          else if st \<noteq> 200 then try_endpoints v get eps
          else (case content of None \<Rightarrow> try_endpoints v get eps
            | Some s \<Rightarrow>
                (case parse_pihole_clients v ep (take max_pihole_body s) of
                   Some cs \<Rightarrow> if cs = [] then try_endpoints v get eps else ClientList ep cs
                 | None \<Rightarrow> try_endpoints v get eps)))"

definition group_c :: string where "group_c = ''L3_pihole''"

definition client_observation :: "time \<Rightarrow> string \<Rightarrow> pihole_client \<Rightarrow> observation option" where
  "client_observation now ep c =
     (if pl_ip c = [] then None
      else
        let ip = parse_ip (pl_ip c);
            mac = (if pl_mac c \<noteq> [] \<and> pl_mac c \<noteq> ''00:00:00:00:00:00'' then parse_mac (pl_mac c) else None)
        in if is_multicast_or_broadcast mac ip then None
           else Some \<lparr>obs_source = ''pihole'', obs_group = group_c, obs_mac = mac, obs_ip = ip,
             obs_hostname = unescape_hostname (pl_name c), obs_vendor = pl_vendor c, obs_model = [], obs_services = [],
             obs_confidence = 30 / 100, obs_timestamp = now, obs_online = False, obs_raw = [''endpoint'' \<mapsto> RawString ep]\<rparr>)"

definition pihole_emit :: "observation \<Rightarrow> pihole_provider \<Rightarrow> pihole_provider" where
  "pihole_emit obs p = (if length (ph_events p) < 128 then p\<lparr>ph_events := ph_events p @ [obs]\<rparr> else p)"

text \<open>The network is asked with the base address, the session sent along and the endpoint.\<close>

type_synonym pihole_net = "string \<Rightarrow> string \<Rightarrow> string \<Rightarrow> pihole_reply"

definition session_sent :: "pihole_provider \<Rightarrow> string" where
  "session_sent p = (if \<not> ph_no_auth p \<and> ph_sid p \<noteq> [] then ph_sid p else [])"

text \<open>The flag tells whether the session was refused.\<close>

definition pihole_poll :: "pihole_view \<Rightarrow> pihole_net \<Rightarrow> time \<Rightarrow> pihole_provider \<Rightarrow> bool \<times> pihole_provider" where
  "pihole_poll v net now p =
     (let base = normalize_pihole_url (ph_url p) in
      if base = [] then (False, p)
      else (case try_endpoints v (net base (session_sent p)) pihole_endpoints of
          SessionRefused \<Rightarrow> (True, p\<lparr>ph_sid_valid := False\<rparr>)
        | NoClients \<Rightarrow> (False, p)
        | ClientList ep cs \<Rightarrow> (False, fold pihole_emit (List.map_filter (client_observation now ep) cs) p)))"

definition pihole_login :: "pihole_view \<Rightarrow> (string \<Rightarrow> string \<Rightarrow> (nat \<times> string) option) \<Rightarrow> pihole_provider \<Rightarrow> bool \<times> pihole_provider" where
  "pihole_login v post p =
     (let base = normalize_pihole_url (ph_url p) in
      if base = [] then (False, p)
      else (case post (base @ ''/api/auth'') (ph_password p) of
          None \<Rightarrow> (False, p)
        | Some (st, content) \<Rightarrow>
            let s = pv_session v (take 65536 content) in
            if st \<noteq> 200 then (False, p)
            else if pe_message s = ''no password set'' \<or> (pe_valid s \<and> pe_sid s = [] \<and> pe_validity s = -1)
            then (True, p\<lparr>ph_no_auth := True, ph_sid_valid := True, ph_sid := []\<rparr>)
            else if \<not> pe_valid s \<or> pe_sid s = [] \<or> pe_sid s = ''null''
            then (False, p\<lparr>ph_no_auth := False, ph_sid_valid := False\<rparr>)
            else (True, p\<lparr>ph_no_auth := False, ph_sid := pe_sid s, ph_sid_valid := True\<rparr>)))"

text \<open>One tick of the loop, with the wait before the next one after a failed login; the network may answer the second
  poll differently.\<close>

definition pihole_min_backoff :: duration where "pihole_min_backoff = 10 * second"
definition pihole_max_backoff :: duration where "pihole_max_backoff = 5 * minute"

definition pihole_tick ::
    "pihole_view \<Rightarrow> pihole_net \<Rightarrow> (string \<Rightarrow> string \<Rightarrow> (nat \<times> string) option) \<Rightarrow> pihole_net \<Rightarrow> time \<Rightarrow> duration \<times> pihole_provider
     \<Rightarrow> duration \<times> pihole_provider" where
  "pihole_tick v net post net' now = (\<lambda>(backoff, p).
     case pihole_poll v net now p of (refused, p1) \<Rightarrow>
       if \<not> refused then (backoff, p1)
       else (case pihole_login v post p1 of (ok, p2) \<Rightarrow>
         if \<not> ok then (if pihole_max_backoff < backoff * 2 then pihole_max_backoff else backoff * 2, p2)
         else (pihole_min_backoff, snd (pihole_poll v net' now p2))))"

text \<open>The first round keeps the backoff as it is.\<close>

definition pihole_start ::
    "pihole_view \<Rightarrow> pihole_net \<Rightarrow> (string \<Rightarrow> string \<Rightarrow> (nat \<times> string) option) \<Rightarrow> pihole_net \<Rightarrow> time \<Rightarrow> pihole_provider
     \<Rightarrow> duration \<times> pihole_provider" where
  "pihole_start v net post net' now p = (pihole_min_backoff, snd (pihole_tick v net post net' now (pihole_min_backoff, p)))"

subsection \<open>The vendor table\<close>

definition normalize_hex :: "string \<Rightarrow> string" where
  "normalize_hex s = List.map_filter (\<lambda>c.
     if is_digit c \<or> 65 \<le> byte c \<and> byte c \<le> 90 then Some c
     else if 97 \<le> byte c \<and> byte c \<le> 122 then Some (char_of (byte c - 32))
     else None) s"

type_synonym oui_db = "string \<rightharpoonup> string"

definition oui_lookup :: "(string \<Rightarrow> string) \<Rightarrow> oui_db \<Rightarrow> string \<Rightarrow> string" where
  "oui_lookup ieee db mac =
     (let clean = normalize_hex mac in
      if length clean < 6 then []
      else (case db (take 6 clean) of Some maker \<Rightarrow> maker | None \<Rightarrow> ieee mac))"

definition add_prefix :: "string \<Rightarrow> string \<Rightarrow> oui_db \<Rightarrow> oui_db" where
  "add_prefix prefix maker db =
     (let clean = normalize_hex prefix in if length clean \<noteq> 6 \<or> maker = [] then db else db(clean \<mapsto> maker))"

text \<open>\<open>fmt.Sscanf\<close> with \<open>%02x\<close> reads one or two hexadecimal digits.\<close>

definition scan_hex_byte :: "char \<Rightarrow> char \<Rightarrow> u8 option" where
  "scan_hex_byte a b =
     (case hex_val a of None \<Rightarrow> None
      | Some x \<Rightarrow> (case hex_val b of None \<Rightarrow> Some (of_nat x) | Some y \<Rightarrow> Some (of_nat (16 * x + y))))"

definition is_randomized_mac :: "string \<Rightarrow> bool" where
  "is_randomized_mac mac =
     (case normalize_hex mac of
        a # b # _ \<Rightarrow> (case scan_hex_byte a b of None \<Rightarrow> False | Some v \<Rightarrow> v AND 0x02 \<noteq> 0)
      | _ \<Rightarrow> False)"

subsection \<open>The kernel's neighbour table\<close>

record neigh_update =
  nu_deleted :: bool
  nu_link :: int
  nu_state :: int
  nu_mac :: "hwaddr option"
  nu_ip :: "ip_addr option"

definition nud_reachable :: int where "nud_reachable = 2"

definition globally_administered_unicast :: "hwaddr \<Rightarrow> bool" where
  "globally_administered_unicast mac \<longleftrightarrow> length mac = 6 \<and> mac ! 0 AND 0x01 = 0 \<and> mac ! 0 AND 0x02 = 0"

definition neighbor_observation :: "(string \<Rightarrow> string) \<Rightarrow> time \<Rightarrow> int \<Rightarrow> neigh_update \<Rightarrow> observation option" where
  "neighbor_observation vendor_of now idx n =
     (if 0 < idx \<and> nu_link n \<noteq> idx then None
      else (case nu_mac n of None \<Rightarrow> None
        | Some mac \<Rightarrow>
            if length mac \<noteq> 6 then None
            else if is_multicast_or_broadcast (Some mac) (nu_ip n) then None
            else if nu_deleted n \<or> nu_state n \<noteq> nud_reachable then None
            else Some \<lparr>obs_source = ''netlink'', obs_group = group_a, obs_mac = Some mac, obs_ip = nu_ip n, obs_hostname = [],
              obs_vendor = (if globally_administered_unicast mac then vendor_of (mac_string mac) else []),
              obs_model = [], obs_services = [], obs_confidence = 95 / 100, obs_timestamp = now, obs_online = True,
              obs_raw = [''nud_state'' \<mapsto> RawString ''reachable'']\<rparr>))"

definition handle_neigh_update :: "(string \<Rightarrow> string) \<Rightarrow> time \<Rightarrow> int \<Rightarrow> neigh_update \<Rightarrow> observation list \<Rightarrow> observation list" where
  "handle_neigh_update vendor_of now idx n q =
     (case neighbor_observation vendor_of now idx n of None \<Rightarrow> q | Some obs \<Rightarrow> if length q < 256 then q @ [obs] else q)"

end
