(* ===== verification/Dis_Dhcp_Props.thy ===== *)
theory Dis_Dhcp_Props
  imports Dis_Dhcp Dis_Run_Props
begin

text \<open>
  The lease provider: the last row of an address decides, a lease is reported when it changes, the remote command
  reads back as it was meant, the sections of a payload are told apart, and only a station or a reachable neighbour
  can take a device online.
\<close>

subsection \<open>Kea: the last row of an address decides\<close>

lemma alist_update_keys:
  "distinct (map fst al) \<Longrightarrow> distinct (map fst (AList.update k v al))"
  "distinct (map fst al) \<Longrightarrow> distinct (map fst (AList.delete k al))"
  "length (AList.delete k al) \<le> length al"
  by (auto simp: distinct_update distinct_delete length_delete_le)

lemma length_alist_update: "length (AList.update k v al) = (if map_of al k = None then Suc (length al) else length al)"
  by (induction al) auto

text \<open>\<open>verdicts\<close>: what the rows say of their addresses, in the order of the file.\<close>

abbreviation verdicts :: "(string \<Rightarrow> u8 list) \<Rightarrow> time \<Rightarrow> (string \<rightharpoonup> nat) \<Rightarrow> string list list \<Rightarrow> (string \<times> observation option) list" where
  "verdicts sha now columns rows \<equiv> List.map_filter (kea_row sha now columns) rows"

lemma kea_rows_effect:
  "kea_rows sha now columns (map Some rows) latest = Some al \<Longrightarrow> distinct (map fst latest) \<Longrightarrow> length latest \<le> max_dhcp_records \<Longrightarrow>
   distinct (map fst al) \<and> length al \<le> max_dhcp_records
   \<and> (\<forall>k. map_of al k = (case map_of (rev (verdicts sha now columns rows)) k of None \<Rightarrow> map_of latest k | Some v \<Rightarrow> v))"
proof (induction rows arbitrary: latest)
  case (Cons row rows)
  let ?vs = "verdicts sha now columns rows"
  show ?case
  proof (cases "kea_row sha now columns row")
    case None
    with Cons show ?thesis by (simp add: List.map_filter_simps)
  next
    case (Some x)
    obtain key v where x: "x = (key, v)" by (cases x)
    define latest' where "latest' = (case v of None \<Rightarrow> AList.delete key latest | Some obs \<Rightarrow> AList.update key obs latest)"
    have "kea_rows sha now columns (map Some rows) latest' = Some al" and fits: "length latest' \<le> max_dhcp_records"
      using Cons.prems Some x alist_update_keys(3) [of key latest]
      by (auto simp: latest'_def length_alist_update split: option.splits if_splits)
    moreover have "distinct (map fst latest')"
      using Cons.prems(2) by (auto simp: latest'_def alist_update_keys split: option.splits)
    ultimately have ih: "distinct (map fst al) \<and> length al \<le> max_dhcp_records
        \<and> (\<forall>k. map_of al k = (case map_of (rev ?vs) k of None \<Rightarrow> map_of latest' k | Some v \<Rightarrow> v))" using Cons.IH [of latest'] by blast
    have l: "map_of latest' k = (if k = key then v else map_of latest k)" for k
      by (cases v) (auto simp: latest'_def update_conv' delete_conv')
    have "map_of (rev (verdicts sha now columns (row # rows))) k
        = (case map_of (rev ?vs) k of None \<Rightarrow> if k = key then Some v else None | Some u \<Rightarrow> Some u)" for k
      using Some x by (auto simp: List.map_filter_simps map_add_def split: option.splits)
    with ih l show ?thesis by (auto split: option.splits)
  qed
qed simp

lemma kea_verdict_key: "kea_row sha now columns row = Some (k, Some obs) \<Longrightarrow> k = ip_string (the (obs_ip obs))"
  by (auto simp: kea_row_def Let_def lease_observation_def split: option.splits prod.splits if_splits)

lemma kea_rows_succeed:
  "length latest + length rows \<le> max_dhcp_records \<Longrightarrow> \<exists>al. kea_rows sha now columns (map Some rows) latest = Some al"
proof (induction rows arbitrary: latest)
  case (Cons row rows)
  then have "\<exists>al. kea_rows sha now columns (map Some rows) l = Some al" if "length l \<le> Suc (length latest)" for l
    using that by simp
  moreover have "length (AList.delete k latest) \<le> Suc (length latest)" "length (AList.update k v latest) \<le> Suc (length latest)" for k v
    using length_delete_le [of k latest] by (simp_all add: length_alist_update le_SucI)
  ultimately show ?case using Cons.prems by (auto split: option.split)
qed simp

lemma kea_parse_succeeds:
  "csv_read data = Some header # map Some rows \<Longrightarrow> \<forall>r \<in> {''address'', ''hwaddr'', ''expire''}. kea_columns header r \<noteq> None
   \<Longrightarrow> length rows \<le> max_dhcp_records \<Longrightarrow> \<exists>os. parse_kea_leases sha data now = Some os"
  using kea_rows_succeed [of "[]" rows sha now "kea_columns header"] by (auto simp: parse_kea_leases_def)


definition kea_file :: string where
  "kea_file = ''address,hwaddr,expire,hostname,state'' @ [newline]
     @ ''192.168.1.5,aa:bb:cc:dd:ee:01,9000,tv,0'' @ [newline] @ ''192.168.1.6,aa:bb:cc:dd:ee:02,9000,pc,0'' @ [newline]
     @ ''192.168.1.5,aa:bb:cc:dd:ee:01,9000,tv,2'' @ [newline]"


subsection \<open>A lease is reported when it changes\<close>

lemma dhcp_emit_state [simp]: "dp_seen (dhcp_emit obs p) = dp_seen p" "dp_config (dhcp_emit obs p) = dp_config p"
  by (simp_all add: dhcp_emit_def)

lemma lease_signature_given: "or_empty v \<noteq> lease_signature obs \<longleftrightarrow> v \<noteq> Some (lease_signature obs)"
  by (auto simp: or_empty_def lease_signature_def split: option.split)

abbreviation lease_changed :: "(string \<rightharpoonup> string) \<Rightarrow> observation \<Rightarrow> bool" where
  "lease_changed seen obs \<equiv> seen (lease_key obs) \<noteq> Some (lease_signature obs)"

lemma emit_leases_fold:
  "fold emit_lease os (current, p) =
     (current ++ map_of (rev (map (\<lambda>obs. (lease_key obs, lease_signature obs)) os)), fold dhcp_emit (filter (lease_changed (dp_seen p)) os) p)"
proof (induction os arbitrary: current p)
  case (Cons obs os)
  then show ?case by (simp add: emit_lease_def lease_signature_given map_add_def fun_upd_def split: option.split) (auto split: option.split)
qed simp

lemma emit_all_state:
  "dp_seen (fold dhcp_emit os p) = dp_seen p"
  "length (dp_events p) + length os \<le> 256 \<Longrightarrow> dp_events (fold dhcp_emit os p) = dp_events p @ os"
  "256 \<le> length (dp_events p) \<Longrightarrow> dp_events (fold dhcp_emit os p) = dp_events p"
  by (induction os arbitrary: p) (auto simp: dhcp_emit_def split: if_splits)

lemma emit_all_events: "set (dp_events (fold dhcp_emit os p)) \<subseteq> set (dp_events p) \<union> set os"
  by (induction os arbitrary: p) (fastforce simp: dhcp_emit_def split: if_splits)+

lemma emit_changed_state:
  "emit_changed_leases os p =
     fold dhcp_emit (filter (lease_changed (dp_seen p)) os) p\<lparr>dp_seen := map_of (rev (map (\<lambda>obs. (lease_key obs, lease_signature obs)) os))\<rparr>"
  by (simp add: emit_changed_leases_def emit_leases_fold)

lemma seen_after: "distinct (map lease_key os) \<Longrightarrow> obs \<in> set os \<Longrightarrow> dp_seen q = dp_seen (emit_changed_leases os p) \<Longrightarrow> \<not> lease_changed (dp_seen q) obs"
proof -
  assume a: "distinct (map lease_key os)" "obs \<in> set os" "dp_seen q = dp_seen (emit_changed_leases os p)"
  have "distinct (map fst (rev (map (\<lambda>obs. (lease_key obs, lease_signature obs)) os)))"
    using a(1) by (simp add: rev_map [symmetric] o_def)
  from map_of_is_SomeI [OF this, of "lease_key obs" "lease_signature obs"] a(2,3) show ?thesis by (auto simp: emit_changed_state)
qed

text \<open>A lease is reported when it is new or its host name, expiry or client changed, and only then: while the queue
  has room, a poll hands on exactly the leases whose signature differs from the last poll, in order, and the next poll
  that finds the same leases hands on nothing.\<close>

theorem changed_leases_reported:
  assumes "length (dp_events p) + length os \<le> 256"
  shows "dp_events (emit_changed_leases os p) = dp_events p @ filter (\<lambda>obs. dp_seen p (lease_key obs) \<noteq> Some (lease_signature obs)) os
    \<and> (distinct (map lease_key os) \<and> dp_seen q = dp_seen (emit_changed_leases os p) \<longrightarrow> dp_events (emit_changed_leases os q) = dp_events q)"
proof -
  have "length (dp_events p) + length (filter (lease_changed (dp_seen p)) os) \<le> 256"
    using assms length_filter_le [of "lease_changed (dp_seen p)" os] by linarith
  moreover have "filter (lease_changed (dp_seen q)) os = []"
    if "distinct (map lease_key os)" "dp_seen q = dp_seen (emit_changed_leases os p)"
    using seen_after [OF that(1) _ that(2)] by (simp add: filter_empty_conv)
  ultimately show ?thesis by (auto simp: emit_changed_state emit_all_state(2))
qed

theorem changed_leases_reported_witness:
  "\<exists>q. dp_events q = [tv_seen] \<and> dp_events (emit_changed_leases [tv_seen] (q\<lparr>dp_events := []\<rparr>)) = []"
proof -
  let ?p = "new_dhcp_provider undefined" and ?q = "emit_changed_leases [tv_seen] (new_dhcp_provider undefined)"
  have "length (dp_events ?p) + length [tv_seen] \<le> 256" by (simp add: new_dhcp_provider_def)
  from changed_leases_reported [OF this, of "?q\<lparr>dp_events := []\<rparr>"] show ?thesis
    by (intro exI [of _ ?q]) (simp add: new_dhcp_provider_def)
qed

text \<open>What does not fit into the queue is lost for as long as the lease stays as it is: it is remembered as seen.\<close>

lemma full_queue_loses_leases:
  assumes "256 \<le> length (dp_events p)" "distinct (map lease_key os)"
  shows "dp_events (emit_changed_leases os p) = dp_events p"
    "dp_events (emit_changed_leases os (emit_changed_leases os p\<lparr>dp_events := []\<rparr>)) = []"
proof -
  show "dp_events (emit_changed_leases os p) = dp_events p" using assms(1) by (simp add: emit_changed_state emit_all_state(3))
  have "filter (lease_changed (dp_seen (emit_changed_leases os p\<lparr>dp_events := []\<rparr>))) os = []"
    using seen_after [OF assms(2), of _ "emit_changed_leases os p\<lparr>dp_events := []\<rparr>" p] by (simp add: filter_empty_conv)
  then show "dp_events (emit_changed_leases os (emit_changed_leases os p\<lparr>dp_events := []\<rparr>)) = []" by (simp add: emit_changed_state)
qed

subsection \<open>Who can take a device online\<close>

text \<open>What a lease is: offline, of an IPv4 address and a hardware address of six bytes, and not expired.\<close>

definition lease_facts :: "time \<Rightarrow> observation \<Rightarrow> bool" where
  "lease_facts now obs \<longleftrightarrow> obs_source obs = ''dhcp'' \<and> \<not> obs_online obs \<and> (\<exists>mac. obs_mac obs = Some mac \<and> length mac = 6)
     \<and> (\<exists>ip. obs_ip obs = Some ip \<and> to4 ip \<noteq> None)
     \<and> (\<forall>v. obs_raw obs ''lease_expires_at'' = Some v \<longrightarrow> (\<exists>e. unix now < e \<and> v = RawString (rfc3339_utc e)))"

lemma lease_address_facts:
  "lease_mac s = Some m \<Longrightarrow> length m = 6" "lease_ip s = Some ip \<Longrightarrow> \<exists>v. to4 ip = Some v"
  by (auto simp: lease_mac_def lease_ip_def split: option.splits if_splits)

lemma dnsmasq_lease_facts: "dnsmasq_lease sha now l = Some obs \<Longrightarrow> lease_facts now obs"
  by (auto simp: dnsmasq_lease_def Let_def lease_facts_def lease_observation_def lease_address_facts not_le
      split: if_splits list.splits option.splits prod.splits)

lemma kea_row_facts: "kea_row sha now columns row = Some (k, Some obs) \<Longrightarrow> lease_facts now obs"
  by (auto simp: kea_row_def Let_def lease_facts_def lease_observation_def lease_address_facts not_le
      split: if_splits option.splits prod.splits)

lemma dnsmasq_lines_facts:
  "dnsmasq_lines sha now ls found = Some os \<Longrightarrow> list_all (lease_facts now) found \<Longrightarrow> length found \<le> max_dhcp_records
   \<Longrightarrow> list_all (lease_facts now) os \<and> length os \<le> max_dhcp_records"
  by (induction sha now ls found rule: dnsmasq_lines.induct) (auto split: if_splits option.splits dest: dnsmasq_lease_facts)

lemma kea_rows_facts:
  "kea_rows sha now columns rs latest = Some al \<Longrightarrow> list_all (lease_facts now \<circ> snd) latest \<Longrightarrow> length latest \<le> max_dhcp_records
   \<Longrightarrow> list_all (lease_facts now \<circ> snd) al \<and> length al \<le> max_dhcp_records"
proof (induction sha now columns rs latest rule: kea_rows.induct)
  case (3 sha now columns row rs latest)
  have "set (AList.delete k latest) \<subseteq> set latest" for k by (auto simp: AList.delete_eq)
  moreover have "set (AList.update k v latest) \<subseteq> insert (k, v) (set latest)" for k v by (induction latest) auto
  ultimately have u: "list_all (lease_facts now \<circ> snd) (AList.delete k latest)" "lease_facts now v \<Longrightarrow> list_all (lease_facts now \<circ> snd) (AList.update k v latest)" for k v
    using "3.prems"(2) unfolding list_all_iff by fastforce+
  consider "kea_row sha now columns row = None" | key where "kea_row sha now columns row = Some (key, None)"
    | key obs where "kea_row sha now columns row = Some (key, Some obs)" by (metis option.exhaust surj_pair)
  then show ?case
  proof cases
    case 1
    with "3.IH"(1) "3.prems" show ?thesis by simp
  next
    case (2 key)
    then show ?thesis using "3.IH"(2) [OF 2] "3.prems" u(1) [unfolded o_def] length_delete_le [of key latest] by simp
  next
    case (3 key obs)
    then show ?thesis using "3.IH"(3) [OF 3] "3.prems" u(2) [OF kea_row_facts [OF 3], unfolded o_def]
      by (cases "map_of latest key") (auto simp: length_alist_update split: if_splits)
  qed
qed simp_all

lemma leases_facts:
  assumes "parse_lease_payload sha ty data now = Some os"
  shows "list_all (lease_facts now) os \<and> length os \<le> max_dhcp_records"
proof (cases "ty = ''dnsmasq''")
  case True
  with assms show ?thesis using dnsmasq_lines_facts [of sha now "stream_lines data" "[]" os]
    by (simp add: parse_lease_payload_def parse_dnsmasq_leases_def)
next
  case False
  with assms have k: "parse_kea_leases sha data now = Some os" by (simp add: parse_lease_payload_def split: if_splits)
  show ?thesis
  proof (cases "os = []")
    case ne: False
    then obtain header rows al where "kea_rows sha now (kea_columns header) rows [] = Some al" "os = map snd (sort_key fst al)"
      using k by (auto simp: parse_kea_leases_def Let_def split: list.splits option.splits if_splits)
    with kea_rows_facts [OF this(1)] show ?thesis by (simp add: list_all_iff)
  qed simp
qed

lemma lines_emitted:
  "dp_config (emit_lines f ls p) = dp_config p"
  "obs \<in> set (dp_events (emit_lines f ls p)) \<Longrightarrow> obs \<in> set (dp_events p) \<or> (\<exists>l \<in> set ls. f l = Some obs)"
proof -
  have "dp_config (fold dhcp_emit os q) = dp_config q" for os q by (induction os arbitrary: q) simp_all
  then show "dp_config (emit_lines f ls p) = dp_config p" by (simp add: emit_lines_def)
  show "obs \<in> set (dp_events (emit_lines f ls p)) \<Longrightarrow> obs \<in> set (dp_events p) \<or> (\<exists>l \<in> set ls. f l = Some obs)"
    using emit_all_events [of "List.map_filter f ls" p] by (auto simp: emit_lines_def List.map_filter_def)
qed

lemma dhcp_poll_events:
  assumes "obs \<in> set (dp_events (dhcp_poll sha run_dir outside now p))" "obs \<notin> set (dp_events p)"
  obtains payload y where "fetch_payload run_dir outside (dp_config p) = Some payload" "split_dhcp_payload payload = Some y"
    "lease_facts now obs \<or> (\<exists>l \<in> set (py_ap y). parse_station_line now l = Some obs)
     \<or> (\<exists>l \<in> set (py_neigh y). parse_neighbor_line now l = Some obs)"
proof -
  from assms obtain payload y os where y: "fetch_payload run_dir outside (dp_config p) = Some payload" "split_dhcp_payload payload = Some y"
    "parse_lease_payload sha (or_empty (normalize_lease_type (dc_type (dp_config p)))) (py_lease y) now = Some os"
    by (auto simp: dhcp_poll_def split: option.splits)
  then have "obs \<in> set (dp_events (emit_lines (parse_neighbor_line now) (py_neigh y)
      (emit_lines (parse_station_line now) (py_ap y) (emit_changed_leases os p))))"
    using assms(1) by (simp add: dhcp_poll_def)
  then have "obs \<in> set (dp_events (emit_changed_leases os p)) \<or> (\<exists>l \<in> set (py_ap y). parse_station_line now l = Some obs)
     \<or> (\<exists>l \<in> set (py_neigh y). parse_neighbor_line now l = Some obs)"
    using lines_emitted(2) by blast
  moreover have "lease_facts now obs" if "obs \<in> set (dp_events (emit_changed_leases os p))"
    using that assms(2) leases_facts [OF y(3)] emit_all_events [of "filter (lease_changed (dp_seen p)) os" p]
    by (auto simp: emit_changed_state list_all_iff)
  ultimately show ?thesis using that y by blast
qed

lemma line_sources:
  "parse_station_line now l = Some obs \<Longrightarrow> obs_source obs = ''openwrt_ap''"
  "parse_neighbor_line now l = Some obs \<Longrightarrow> obs_source obs = ''openwrt_neigh''"
  by (auto simp: parse_station_line_def parse_neighbor_line_def presence_observation_def split: list.splits option.splits if_splits)

lemma dhcp_presence:
  assumes poll: "obs \<in> set (dp_events (dhcp_poll sha run_dir outside now (new_dhcp_provider cfg)))" and up: "obs_online obs"
  shows "\<exists>payload y. fetch_payload run_dir outside cfg = Some payload \<and> split_dhcp_payload payload = Some y
    \<and> ((\<exists>l \<in> set (py_ap y). parse_station_line now l = Some obs) \<or> (\<exists>l \<in> set (py_neigh y). parse_neighbor_line now l = Some obs))"
    "obs_source obs \<in> {''openwrt_ap'', ''openwrt_neigh''}"
proof -
  have new: "obs \<notin> set (dp_events (new_dhcp_provider cfg))" "dp_config (new_dhcp_provider cfg) = cfg"
    by (simp_all add: new_dhcp_provider_def)
  obtain payload y where y: "fetch_payload run_dir outside cfg = Some payload" "split_dhcp_payload payload = Some y" and
    "lease_facts now obs \<or> (\<exists>l \<in> set (py_ap y). parse_station_line now l = Some obs)
      \<or> (\<exists>l \<in> set (py_neigh y). parse_neighbor_line now l = Some obs)"
    by (rule dhcp_poll_events [OF poll new(1), unfolded new(2)])
  then have "(\<exists>l \<in> set (py_ap y). parse_station_line now l = Some obs) \<or> (\<exists>l \<in> set (py_neigh y). parse_neighbor_line now l = Some obs)"
    using up by (auto simp: lease_facts_def)
  with y line_sources show "\<exists>payload y. fetch_payload run_dir outside cfg = Some payload \<and> split_dhcp_payload payload = Some y
      \<and> ((\<exists>l \<in> set (py_ap y). parse_station_line now l = Some obs) \<or> (\<exists>l \<in> set (py_neigh y). parse_neighbor_line now l = Some obs))"
    "obs_source obs \<in> {''openwrt_ap'', ''openwrt_neigh''}" by blast+
qed

lemma dhcp_sources:
  assumes "obs \<in> set (dp_events (dhcp_poll sha run_dir outside now (new_dhcp_provider cfg)))"
  shows "obs_source obs \<in> {''dhcp'', ''openwrt_ap'', ''openwrt_neigh''}"
proof -
  have "obs \<notin> set (dp_events (new_dhcp_provider cfg))" by (simp add: new_dhcp_provider_def)
  from assms this show ?thesis by (rule dhcp_poll_events) (auto simp: lease_facts_def dest: line_sources)
qed

definition station_router :: "lease_source \<Rightarrow> (nat \<times> string) option" where
  "station_router src = Some (200, ''===AP_ASSOC==='' @ [newline] @ ''wlan0 0a:00:00:00:00:01'' @ [newline])"

definition router_config :: dhcp_config where
  "router_config = \<lparr>dc_type = ''openwrt'', dc_lease_file = ''/tmp/dhcp.leases'', dc_lease_url = [], dc_ssh_host = ''192.168.1.1'',
     dc_ssh_user = [], dc_ap_enabled = True, dc_neighbors_enabled = False, dc_arp_enabled = False\<rparr>"

definition seen_station :: observation where
  "seen_station = presence_observation ''openwrt_ap'' (99 / 100) (1000 * hour) [10, 0, 0, 0, 0, 1] None [''wifi_interface'' \<mapsto> RawString ''wlan0'']"

lemma station_payload:
  "fetch_payload True station_router router_config = Some (''===AP_ASSOC==='' @ [newline] @ ''wlan0 0a:00:00:00:00:01'' @ [newline])"
  by (simp add: fetch_payload_def lease_source_of_def router_config_def station_router_def read_bounded_def max_dhcp_payload_bytes_def)

lemma station_poll: "dp_events (dhcp_poll (\<lambda>_. []) True station_router (1000 * hour) (new_dhcp_provider router_config)) = [seen_station]"
proof -
  have "fetch_payload True station_router router_config = Some (''===AP_ASSOC==='' @ [newline] @ ''wlan0 0a:00:00:00:00:01'' @ [newline])"
    by (rule station_payload)
  moreover have "stream_lines (''===AP_ASSOC==='' @ [newline] @ ''wlan0 0a:00:00:00:00:01'' @ [newline]) = [''===AP_ASSOC==='', ''wlan0 0a:00:00:00:00:01'']"
    "trim_space (drop_cr ''===AP_ASSOC==='') = ''===AP_ASSOC===''" "trim_space (drop_cr ''wlan0 0a:00:00:00:00:01'') = ''wlan0 0a:00:00:00:00:01''"
    by code_simp+
  then have "split_dhcp_payload (''===AP_ASSOC==='' @ [newline] @ ''wlan0 0a:00:00:00:00:01'' @ [newline])
      = Some \<lparr>py_lease = [], py_ap = [''wlan0 0a:00:00:00:00:01''], py_neigh = []\<rparr>"
    by (simp add: split_dhcp_payload_def max_lease_line_def max_dhcp_records_def Let_def)
  moreover have "or_empty (normalize_lease_type (dc_type router_config)) = ''dnsmasq''" by code_simp
  moreover have "words_of ''wlan0 0a:00:00:00:00:01'' = [''wlan0'', ''0a:00:00:00:00:01'']" "lease_mac ''0a:00:00:00:00:01'' = Some [10, 0, 0, 0, 0, 1]"
    by code_simp+
  then have "parse_station_line (1000 * hour) ''wlan0 0a:00:00:00:00:01'' = Some seen_station"
    by (simp add: parse_station_line_def seen_station_def)
  ultimately show ?thesis
    by (simp add: dhcp_poll_def new_dhcp_provider_def parse_lease_payload_def parse_dnsmasq_leases_def stream_lines_Nil
        emit_changed_leases_def emit_lines_def dhcp_emit_def List.map_filter_simps)
qed

lemma seen_station_texts: "mac_text seen_station = ''0a:00:00:00:00:01''" "ip_text seen_station = []"
  "canonicalize_hostname (unescape_hostname (obs_hostname seen_station)) = []"
  "\<not> is_multicast_or_broadcast (obs_mac seen_station) (obs_ip seen_station)"
  unfolding seen_station_def by code_simp+

subsection \<open>The remote command reads back as it was meant\<close>

text \<open>How a POSIX shell reads the first command of a text: words separated by blanks, single and double quotes. It gives
  the words and what follows the semicolon that ends the command; where the meaning of a character would be special, the
  answer is \<open>None\<close>.\<close>

datatype quoting = Bare | Single | Double

definition plain_char :: "char \<Rightarrow> bool" where
  "plain_char c \<longleftrightarrow> is_word_char c \<or> c \<in> set ''-./:,@%+=''"

definition end_word :: "string option \<Rightarrow> string list" where
  "end_word w = (case w of None \<Rightarrow> [] | Some x \<Rightarrow> [x])"

fun read_words :: "quoting \<Rightarrow> string option \<Rightarrow> string \<Rightarrow> (string list \<times> string) option" where
  "read_words Bare w [] = Some (end_word w, [])"
| "read_words q w [] = None"
| "read_words Single w (c # s) =
     (if c = CHR 0x27 then read_words Bare w s else read_words Single (Some (or_empty w @ [c])) s)"
| "read_words Double w (c # s) =
     (if c = CHR 0x22 then read_words Bare w s
      else if c \<in> {CHR ''$'', CHR 0x60, CHR 0x5C} then None
      else read_words Double (Some (or_empty w @ [c])) s)"
| "read_words Bare w (c # s) =
     (if c = CHR 0x27 then read_words Single (Some (or_empty w)) s
      else if c = CHR 0x22 then read_words Double (Some (or_empty w)) s
      else if c = CHR '' '' then map_option (apfst ((@) (end_word w))) (read_words Bare None s)
      else if c = CHR '';'' then Some (end_word w, s)
      else if plain_char c then read_words Bare (Some (or_empty w @ [c])) s
      else None)"

lemma replace_quote:
  "replace_all [CHR 0x27] new [] = []"
  "replace_all [CHR 0x27] new (c # s) = (if c = CHR 0x27 then new else [c]) @ replace_all [CHR 0x27] new s"
  by (subst replace_all.simps, simp add: has_prefix_def)+

lemma read_single:
  "read_words Single (Some w) (replace_all [CHR 0x27] [CHR 0x27, CHR 0x22, CHR 0x27, CHR 0x22, CHR 0x27] v @ CHR 0x27 # s)
   = read_words Bare (Some (w @ v)) s"
  by (induction v arbitrary: w) (simp_all add: replace_quote or_empty_def)

lemma read_quoted: "read_words Bare w (shell_quote v @ s) = read_words Bare (Some (or_empty w @ v)) s"
  by (simp add: shell_quote_def read_single)

text \<open>The command sent to the router does what it says whatever the configured file is called: the remote shell reads
  three words, the program, its option and the script as it was built; and the shell that runs the script reads the name of
  the lease file as one word, with quotes, blanks, semicolons or substitutions in it as they are.\<close>

theorem lease_file_is_one_word:
  "\<exists>opts target cmd rest. ssh_args run_dir cfg = opts @ [target] @ cmd
     \<and> read_words Bare None (join '' '' cmd) = Some ([''sh'', ''-c'', remote_script cfg], [])
     \<and> read_words Bare None (remote_script cfg) =
         Some ([''cat'', ''--'', if dc_lease_file cfg = [] then ''/tmp/dhcp.leases'' else dc_lease_file cfg], rest)"
proof -
  define f where "f = (if dc_lease_file cfg = [] then ''/tmp/dhcp.leases'' else dc_lease_file cfg)"
  define more_parts where "more_parts = (if dc_ap_enabled cfg then ap_script else [])
     @ (if dc_neighbors_enabled cfg \<or> dc_arp_enabled cfg then neighbor_script else [])"
  have w: "plain_char CHR ''s''" "plain_char CHR ''h''" "plain_char CHR ''-''" "plain_char CHR ''c''" "plain_char CHR ''a''" "plain_char CHR ''t''"
    by code_simp+
  have end_or_semicolon: "more_parts = [] \<or> (\<exists>s. more_parts = CHR '';'' # s)"
    by (auto simp: more_parts_def ap_script_def neighbor_script_def print_marker_def)
  then obtain rest where "read_words Bare (Some f) more_parts = Some ([f], rest)" by (auto simp: end_word_def)
  moreover have "read_words Bare None (remote_script cfg) = map_option (apfst (\<lambda>x. ''cat'' # ''--'' # x)) (read_words Bare (Some f) more_parts)"
    by (simp add: remote_script_def f_def [symmetric] more_parts_def [symmetric] w or_empty_def end_word_def read_quoted option.map_comp o_def apfst_compose)
  moreover have "read_words Bare None (join '' '' [''sh'', ''-c'', shell_quote (remote_script cfg)]) = Some ([''sh'', ''-c'', remote_script cfg], [])"
    using read_quoted [of None "remote_script cfg" "[]"] by (simp add: w or_empty_def end_word_def)
  moreover have "\<exists>opts target. ssh_args run_dir cfg = opts @ [target] @ [''sh'', ''-c'', shell_quote (remote_script cfg)]"
    by (simp add: ssh_args_def)
  ultimately show ?thesis unfolding f_def by fastforce
qed

subsection \<open>The sections of a payload\<close>

definition text_lines :: "string list \<Rightarrow> string" where
  "text_lines ls = concat (map (\<lambda>l. l @ [newline]) ls)"

lemma stream_text_lines: "\<forall>l \<in> set ls. newline \<notin> set l \<Longrightarrow> stream_lines (text_lines ls) = ls"
  by (induction ls) (simp_all add: text_lines_def stream_lines_Nil stream_lines_line)

text \<open>A line that is scanned as it is and is no marker.\<close>

definition payload_line :: "string \<Rightarrow> bool" where
  "payload_line l \<longleftrightarrow> newline \<notin> set l \<and> length l < max_lease_line \<and> drop_cr l = l
     \<and> trim_space l \<notin> {''===AP_ASSOC==='', ''===NEIGH_REACHABLE==='', ''===ARP_TABLE===''}"

lemma split_lease_lines:
  "list_all payload_line ls \<Longrightarrow> split_lines LeaseSection (ls @ rest) y = split_lines LeaseSection rest (y\<lparr>py_lease := py_lease y @ text_lines ls\<rparr>)"
proof (induction ls arbitrary: y)
  case (Cons l ls)
  then show ?case by (simp add: payload_line_def Let_def text_lines_def)
qed (simp add: text_lines_def)

lemma split_ap_lines:
  "list_all payload_line ls \<Longrightarrow> \<forall>l \<in> set ls. trim_space l = l \<and> l \<noteq> [] \<Longrightarrow> length (py_ap y) + length ls \<le> max_dhcp_records
   \<Longrightarrow> split_lines ApSection (ls @ rest) y = split_lines ApSection rest (y\<lparr>py_ap := py_ap y @ ls\<rparr>)"
  by (induction ls arbitrary: y) (simp_all add: payload_line_def Let_def)

lemma split_neigh_lines:
  "list_all payload_line ls \<Longrightarrow> \<forall>l \<in> set ls. trim_space l = l \<and> l \<noteq> [] \<Longrightarrow> length (py_neigh y) + length ls \<le> max_dhcp_records
   \<Longrightarrow> split_lines NeighSection ls y = Some (y\<lparr>py_neigh := py_neigh y @ ls\<rparr>)"
  by (induction ls arbitrary: y) (simp_all add: payload_line_def Let_def)

text \<open>What the router prints: the lease file, then each part after an empty line and its marker.\<close>

definition router_output :: "string list \<Rightarrow> string list \<Rightarrow> string list \<Rightarrow> string" where
  "router_output ls aps ns =
     text_lines (ls @ [[], ''===AP_ASSOC===''] @ aps @ [[], ''===NEIGH_REACHABLE===''] @ ns)"

text \<open>The three parts of the router's answer are told apart: the lines of the lease file, the stations and the
  neighbours, each printed after its marker, are read back as they were printed, as long as no line is a marker itself,
  none is over-long, and no part has more than 4096 entries.\<close>

theorem sections_read_back:
  assumes "\<forall>l \<in> set (ls @ aps @ ns). newline \<notin> set l \<and> length l < 262144 \<and> drop_cr l = l
      \<and> trim_space l \<notin> {''===AP_ASSOC==='', ''===NEIGH_REACHABLE==='', ''===ARP_TABLE===''}"
    and "\<forall>l \<in> set (aps @ ns). trim_space l = l \<and> l \<noteq> []" and "length aps \<le> 4096" "length ns \<le> 4096"
  shows "split_dhcp_payload (router_output ls aps ns) = Some \<lparr>py_lease = text_lines (ls @ [[]]), py_ap = aps, py_neigh = ns\<rparr>"
proof -
  have ok: "list_all payload_line ls" "list_all payload_line aps" "list_all payload_line ns"
    using assms(1) by (auto simp: list_all_iff payload_line_def max_lease_line_def)
  have m: "trim_space (drop_cr ''===AP_ASSOC==='') = ''===AP_ASSOC===''" "trim_space (drop_cr ''===NEIGH_REACHABLE==='') = ''===NEIGH_REACHABLE===''"
    "trim_space (drop_cr []) = []" "drop_cr [] = []" by code_simp+
  have nl: "newline \<notin> set ''===AP_ASSOC===''" "newline \<notin> set ''===NEIGH_REACHABLE===''" by code_simp+
  have "stream_lines (router_output ls aps ns) = ls @ [[], ''===AP_ASSOC===''] @ aps @ [[], ''===NEIGH_REACHABLE===''] @ ns"
    unfolding router_output_def using assms(1) nl by (intro stream_text_lines) auto
  then show ?thesis using assms(2-4) m
    by (simp add: split_dhcp_payload_def split_lease_lines [OF ok(1)] split_ap_lines [OF ok(2)] split_neigh_lines [OF ok(3)]
        max_lease_line_def max_dhcp_records_def Let_def text_lines_def)
qed

theorem sections_read_back_witness:
  "split_dhcp_payload (router_output [''1000 0a:00:00:00:00:01 192.168.1.2 tv *''] [''wlan0 0a:00:00:00:00:01''] [])
   = Some \<lparr>py_lease = text_lines [''1000 0a:00:00:00:00:01 192.168.1.2 tv *'', []], py_ap = [''wlan0 0a:00:00:00:00:01''], py_neigh = []\<rparr>"
proof -
  have "newline \<notin> set ''1000 0a:00:00:00:00:01 192.168.1.2 tv *''" "newline \<notin> set ''wlan0 0a:00:00:00:00:01''"
    "drop_cr ''1000 0a:00:00:00:00:01 192.168.1.2 tv *'' = ''1000 0a:00:00:00:00:01 192.168.1.2 tv *''"
    "drop_cr ''wlan0 0a:00:00:00:00:01'' = ''wlan0 0a:00:00:00:00:01''"
    "trim_space ''1000 0a:00:00:00:00:01 192.168.1.2 tv *'' = ''1000 0a:00:00:00:00:01 192.168.1.2 tv *''"
    "trim_space ''wlan0 0a:00:00:00:00:01'' = ''wlan0 0a:00:00:00:00:01''" by code_simp+
  then show ?thesis
    using sections_read_back [of "[''1000 0a:00:00:00:00:01 192.168.1.2 tv *'']" "[''wlan0 0a:00:00:00:00:01'']" "[]"] by simp
qed

end
