(* ===== verification/Dis_Source_Props.thy ===== *)
theory Dis_Source_Props
  imports Dis_Sources Dis_Dhcp_Props
begin

text \<open>
  The providers of observations: only a link-layer sighting takes a device online, a vendor is found however a hardware
  address is written, and the session with the Pi-hole stays well formed.
\<close>

subsection \<open>Pi-hole\<close>

lemma pihole_emit_events:
  "set (ph_events (fold pihole_emit os p)) \<subseteq> set (ph_events p) \<union> set os"
  "length (ph_events p) \<le> 128 \<Longrightarrow> length (ph_events (fold pihole_emit os p)) \<le> 128"
  by (induction os arbitrary: p) (fastforce simp: pihole_emit_def split: if_splits)+

lemma pihole_emit_state:
  "ph_sid (fold pihole_emit os p) = ph_sid p" "ph_sid_valid (fold pihole_emit os p) = ph_sid_valid p"
  "ph_no_auth (fold pihole_emit os p) = ph_no_auth p"
  by (induction os arbitrary: p) (simp_all add: pihole_emit_def)

text \<open>A client of the Pi-hole says nothing of presence.\<close>

definition dns_client :: "observation \<Rightarrow> bool" where
  "dns_client obs \<longleftrightarrow> obs_source obs = ''pihole'' \<and> \<not> obs_online obs"

lemma client_observation_passive: "client_observation now ep c = Some obs \<Longrightarrow> dns_client obs"
  by (auto simp: client_observation_def Let_def dns_client_def split: if_splits)

lemma pihole_poll_events: "obs \<in> set (ph_events (snd (pihole_poll v net now p))) \<Longrightarrow> obs \<in> set (ph_events p) \<or> dns_client obs"
  using pihole_emit_events(1)
  by (fastforce simp: pihole_poll_def Let_def List.map_filter_def split: if_splits pihole_round.splits dest: client_observation_passive)

lemma login_events: "ph_events (snd (pihole_login v post p)) = ph_events p"
  by (simp add: pihole_login_def Let_def split: option.split)

lemma pihole_tick_events:
  "obs \<in> set (ph_events (snd (pihole_tick v net post net' now (b, p)))) \<Longrightarrow> obs \<in> set (ph_events p) \<or> dns_client obs"
  using pihole_poll_events [of obs v net now p] pihole_poll_events [of obs v net' now "snd (pihole_login v post (snd (pihole_poll v net now p)))"]
    login_events [of v post "snd (pihole_poll v net now p)"]
  by (auto simp: pihole_tick_def split: prod.splits if_splits)

text \<open>The states of the provider: it starts, it ticks with whatever the network answers, the engine takes an observation.\<close>

inductive pihole_run :: "duration \<times> pihole_provider \<Rightarrow> bool" where
  pihole_begin: "pihole_run (pihole_start v net post net' now (new_pihole_provider url pw))"
| pihole_next: "pihole_run s \<Longrightarrow> pihole_run (pihole_tick v net post net' now s)"
| pihole_taken: "pihole_run (b, p) \<Longrightarrow> ph_events p = obs # q \<Longrightarrow> pihole_run (b, p\<lparr>ph_events := q\<rparr>)"

definition session_ok :: "pihole_provider \<Rightarrow> bool" where
  "session_ok p \<longleftrightarrow> ph_sid p \<noteq> ''null'' \<and> (ph_no_auth p \<longrightarrow> ph_sid p = []) \<and> (ph_sid_valid p \<longrightarrow> ph_no_auth p \<or> ph_sid p \<noteq> [])
     \<and> length (ph_events p) \<le> 128"

lemma poll_session_ok: "session_ok p \<Longrightarrow> session_ok (snd (pihole_poll v net now p))"
  by (auto simp: pihole_poll_def Let_def session_ok_def pihole_emit_state pihole_emit_events(2) split: pihole_round.split)

lemma login_session_ok: "session_ok p \<Longrightarrow> session_ok (snd (pihole_login v post p))"
  by (auto simp: pihole_login_def Let_def session_ok_def split: option.split)

lemma tick_ok:
  assumes "session_ok p" "pihole_min_backoff \<le> b" "b \<le> pihole_max_backoff"
  shows "case pihole_tick v net post net' now (b, p) of (b', p') \<Rightarrow> session_ok p' \<and> pihole_min_backoff \<le> b' \<and> b' \<le> pihole_max_backoff"
proof -
  have s: "session_ok (snd (pihole_poll v net now p))" "session_ok (snd (pihole_login v post (snd (pihole_poll v net now p))))"
    "session_ok (snd (pihole_poll v net' now (snd (pihole_login v post (snd (pihole_poll v net now p))))))"
    using assms(1) by (simp_all add: poll_session_ok login_session_ok)
  have "pihole_min_backoff \<le> pihole_max_backoff" "0 \<le> pihole_min_backoff"
    by (simp_all add: pihole_min_backoff_def pihole_max_backoff_def second_def minute_def)
  with s assms(2,3) show ?thesis by (auto simp: pihole_tick_def split: prod.splits if_splits)
qed

text \<open>Whatever the Pi-hole answers, in any order of polls and logins, the session stays well formed: no session is sent
  when the server needs none, a session held as valid is a real one or none is needed, the word null is never taken for
  a session, at most 128 observations wait, and the wait after a failed login stays between ten seconds and five minutes.\<close>

theorem pihole_session_well_formed:
  assumes "pihole_run (b, p)"
  shows "(ph_no_auth p \<longrightarrow> session_sent p = []) \<and> session_sent p \<noteq> ''null'' \<and> (ph_sid_valid p \<longrightarrow> ph_no_auth p \<or> session_sent p \<noteq> [])
    \<and> length (ph_events p) \<le> 128 \<and> 10 * second \<le> b \<and> b \<le> 5 * minute"
proof -
  have new: "session_ok (new_pihole_provider url pw)" for url pw by (simp add: session_ok_def new_pihole_provider_def)
  have m: "pihole_min_backoff \<le> pihole_max_backoff"
    by (simp add: pihole_min_backoff_def pihole_max_backoff_def second_def minute_def)
  from assms have "session_ok p \<and> pihole_min_backoff \<le> b \<and> b \<le> pihole_max_backoff"
  proof (induction "(b, p)" arbitrary: b p)
    case (pihole_begin v net post net' now url pw)
    from tick_ok [OF new order_refl m, of v net post net' now] pihole_begin m show ?case
      by (auto simp: pihole_start_def case_prod_beta)
  next
    case (pihole_next s v net post net' now)
    obtain b0 p0 where "s = (b0, p0)" by (cases s)
    with pihole_next tick_ok [of p0 b0 v net post net' now] show ?case by (auto split: prod.splits)
  next
    case (pihole_taken b p obs q)
    then show ?case by (auto simp: session_ok_def)
  qed
  then show ?thesis by (auto simp: session_ok_def session_sent_def pihole_min_backoff_def pihole_max_backoff_def)
qed

definition silent_view :: pihole_view where
  "silent_view = \<lparr>pv_network = (\<lambda>_. None), pv_clients = (\<lambda>_. None),
     pv_session = (\<lambda>_. \<lparr>pe_sid = ''abc'', pe_valid = True, pe_message = [], pe_validity = 300\<rparr>)\<rparr>"

theorem pihole_session_well_formed_witness:
  "\<exists>b p. pihole_run (b, p) \<and> ph_sid_valid p \<and> session_sent p \<noteq> [] \<and> b \<le> 5 * minute"
proof -
  let ?s = "pihole_start silent_view (\<lambda>_ _ _. Reply 401 None) (\<lambda>_ _. Some (200, [])) (\<lambda>_ _ _. NoReply) 0 (new_pihole_provider ''pi.hole'' [])"
  have base: "normalize_pihole_url ''pi.hole'' = ''http://pi.hole''" by code_simp
  have v: "ph_sid_valid (snd ?s)" "\<not> ph_no_auth (snd ?s)"
    by (simp_all add: pihole_start_def pihole_tick_def pihole_poll_def pihole_login_def new_pihole_provider_def base silent_view_def
        pihole_endpoints_def)
  have "pihole_run (fst ?s, snd ?s)" using pihole_begin [of silent_view] by simp
  from this pihole_session_well_formed [OF this] v show ?thesis by blast
qed

subsection \<open>Only the link layer takes a device online\<close>




subsection \<open>A vendor is found however the address is written\<close>

text \<open>The digit of a value in upper case, as the table writes it.\<close>

definition table_digit :: "nat \<Rightarrow> char" where
  "table_digit n = char_of (if n < 10 then 48 + n else 55 + n)"

definition upper_hex :: "u8 \<Rightarrow> string" where
  "upper_hex w = [table_digit (unat w div 16), table_digit (unat w mod 16)]"

lemma normalize_hex_digit:
  assumes "hex_val c = Some n"
  shows "normalize_hex (c # s) = table_digit n # normalize_hex s" "n < 16"
proof -
  have "char_of (byte c) = c" by (simp add: byte_def)
  with assms show "normalize_hex (c # s) = table_digit n # normalize_hex s"
    by (auto simp: hex_val_def normalize_hex_def List.map_filter_def is_digit_def table_digit_def split: if_splits)
  show "n < 16" using assms by (auto simp: hex_val_def split: if_splits)
qed

lemma normalize_hex2: "hex2 a b = Some w \<Longrightarrow> normalize_hex (a # b # s) = upper_hex w @ normalize_hex s"
proof -
  assume "hex2 a b = Some w"
  then obtain x y where xy: "hex_val a = Some x" "hex_val b = Some y" "w = of_nat (x * 16 + y)"
    by (auto simp: hex2_def split: option.splits)
  then have lt: "x < 16" "y < 16" using normalize_hex_digit(2) by blast+
  have "unat w = x * 16 + y" using lt by (simp only: xy(3) unat_of_nat) simp
  with lt show ?thesis by (simp add: normalize_hex_digit(1) [OF xy(1)] normalize_hex_digit(1) [OF xy(2)] upper_hex_def)
qed

lemma normalize_separator: "c = CHR '':'' \<or> c = CHR ''-'' \<or> c = CHR ''.'' \<Longrightarrow> normalize_hex (c # s) = normalize_hex s"
  by (auto simp: normalize_hex_def List.map_filter_def is_digit_def byte_def)

lemma normalize_hex_Nil: "normalize_hex [] = []"
  by (simp add: normalize_hex_def List.map_filter_def)

lemma normalize_pairs:
  "parse_pairs e s = Some m \<Longrightarrow> e = CHR '':'' \<or> e = CHR ''-'' \<Longrightarrow> normalize_hex s = concat (map upper_hex m)"
proof (induction e s arbitrary: m rule: parse_pairs.induct)
  case (1 e a b)
  then show ?case by (auto simp: normalize_hex2 normalize_hex_Nil)
next
  case (2 e a b c s)
  then obtain w ws where "c = e" "hex2 a b = Some w" "parse_pairs e s = Some ws" "m = w # ws"
    by (auto split: if_splits option.splits)
  with 2 show ?case by (auto simp: normalize_hex2 normalize_separator)
qed simp_all

lemma normalize_quads: "parse_quads s = Some m \<Longrightarrow> normalize_hex s = concat (map upper_hex m)"
proof (induction s arbitrary: m rule: parse_quads.induct)
  case (1 a b c d)
  then show ?case by (auto simp: normalize_hex2 normalize_hex_Nil split: option.splits)
next
  case (2 a b c d e s)
  then obtain v w ws where "e = CHR ''.''" "hex2 a b = Some v" "hex2 c d = Some w" "parse_quads s = Some ws" "m = v # w # ws"
    by (auto split: if_splits option.splits)
  with 2 show ?case by (auto simp: normalize_hex2 normalize_separator)
qed simp_all

lemma normalize_parsed: "parse_mac s = Some m \<Longrightarrow> normalize_hex s = concat (map upper_hex m)"
  by (auto simp: parse_mac_def dest: normalize_pairs normalize_quads split: if_splits)

lemma hex_val_table_digit: "n < 16 \<Longrightarrow> hex_val (table_digit n) = Some n"
  by (auto simp: hex_val_def table_digit_def byte_char_of)

lemma randomized_bytes:
  assumes "normalize_hex s = concat (map upper_hex m)" "m \<noteq> []"
  shows "is_randomized_mac s \<longleftrightarrow> hd m AND 0x02 \<noteq> 0"
proof -
  obtain w ws where m: "m = w # ws" using assms(2) by (cases m) auto
  have "unat w < 2 ^ LENGTH(8)" by (rule unsigned_less)
  then have "unat w div 16 < 16" "16 * (unat w div 16) + unat w mod 16 = unat w" by simp_all
  then have "scan_hex_byte (table_digit (unat w div 16)) (table_digit (unat w mod 16)) = Some (of_nat (unat w))"
    unfolding scan_hex_byte_def by (simp add: hex_val_table_digit)
  then show ?thesis using assms(1) m by (simp add: is_randomized_mac_def upper_hex_def)
qed

text \<open>The vendor table does not depend on how a hardware address is written. Of two spellings of one address that the
  service reads, with colons, hyphens or dots, in capitals or not, the one is found under a prefix entered as the other begins;
  and both count as randomised exactly if the first byte has the bit of locally administered addresses.\<close>

theorem vendor_spelling_irrelevant:
  assumes "parse_mac s = Some m" "parse_mac s' = Some m" "length m = 6" "normalize_hex prefix = take 6 (normalize_hex s')" "maker \<noteq> []"
  shows "oui_lookup ieee (add_prefix prefix maker db) s = maker
    \<and> (is_randomized_mac s \<longleftrightarrow> hd m AND 0x02 \<noteq> 0) \<and> (is_randomized_mac s' \<longleftrightarrow> hd m AND 0x02 \<noteq> 0)"
proof -
  have n: "normalize_hex s = concat (map upper_hex m)" "normalize_hex s' = concat (map upper_hex m)"
    using assms(1,2) by (simp_all add: normalize_parsed)
  have "length (concat (map upper_hex m)) = 2 * length m" by (induction m) (simp_all add: upper_hex_def)
  then have "length (normalize_hex s) = 12" "length (normalize_hex prefix) = 6" using assms(3,4) n by simp_all
  then have "oui_lookup ieee (add_prefix prefix maker db) s = maker"
    using assms(4,5) n by (simp add: oui_lookup_def add_prefix_def Let_def)
  moreover have "m \<noteq> []" using assms(3) by auto
  ultimately show ?thesis using randomized_bytes n by blast
qed

theorem vendor_spelling_irrelevant_witness:
  "oui_lookup (\<lambda>_. []) (add_prefix ''aa:bb:cc'' ''Acme'' Map.empty) ''AABB.CC01.0203'' = ''Acme'' \<and> is_randomized_mac ''AABB.CC01.0203''"
proof -
  have "parse_mac ''AABB.CC01.0203'' = Some [0xAA, 0xBB, 0xCC, 1, 2, 3]" "parse_mac ''aa:bb:cc:01:02:03'' = Some [0xAA, 0xBB, 0xCC, 1, 2, 3]"
    "normalize_hex ''aa:bb:cc'' = take 6 (normalize_hex ''aa:bb:cc:01:02:03'')" by code_simp+
  from vendor_spelling_irrelevant [OF this(1,2) _ this(3), of "''Acme''"] show ?thesis by simp
qed

end
