(* ===== verification/Dis_Ssdp.thy ===== *)
theory Dis_Ssdp
  imports Dis_Netbios Go_Text
begin

text \<open>
  The SSDP enricher (\<open>internal/discovery/ssdp_enricher.go\<close>): the parser of a datagram any host may send, what an
  advertisement leaves in the table and in the queue, the loop that asks for an enrichment, and the descriptor, which is only
  fetched from the host that advertised it. Parsing an address with \<open>net/url\<close> and decoding XML are parameters; what the
  network gives back is an argument. A text of more bytes than a limit is cut at the byte, as the code does.
\<close>

subsection \<open>Datagrams\<close>

definition max_ssdp_datagram :: nat where "max_ssdp_datagram = 8192"
definition max_ssdp_headers :: nat where "max_ssdp_headers = 64"
definition max_ssdp_header_line :: nat where "max_ssdp_header_line = 1024"
definition max_ssdp_records :: nat where "max_ssdp_records = 2048"
definition max_descriptor_bytes :: nat where "max_descriptor_bytes = 1048576"
definition ssdp_trigger_cooldown :: duration where "ssdp_trigger_cooldown = 5 * minute"

text \<open>\<open>bytes.Index\<close> and \<open>strings.Split\<close> at a separator that is not empty.\<close>

fun cut_text :: "string \<Rightarrow> string \<Rightarrow> (string \<times> string) option" where
  "cut_text sep [] = None"
| "cut_text sep (c # s) =
     (if has_prefix (c # s) sep then Some ([], drop (length sep) (c # s))
      else map_option (apfst ((#) c)) (cut_text sep s))"

lemma cut_text_length: "sep \<noteq> [] \<Longrightarrow> cut_text sep s = Some (a, b) \<Longrightarrow> length a + length b < length s"
proof (induction s arbitrary: a)
  case (Cons c s)
  then show ?case by (cases sep) (auto split: if_splits)
qed simp

function split_text :: "string \<Rightarrow> string \<Rightarrow> string list" where
  "split_text sep s =
     (if sep = [] then [s] else case cut_text sep s of None \<Rightarrow> [s] | Some (a, b) \<Rightarrow> a # split_text sep b)"
  by pat_completeness auto
termination
  by (relation "measure (\<lambda>(sep, s). length s)") (auto dest: cut_text_length)

declare split_text.simps [simp del]

definition crlf :: string where "crlf = [CHR 0x0D, CHR 0x0A]"

record ssdp_message =
  sm_start :: string
  sm_headers :: "string \<rightharpoonup> string"

text \<open>The header lines up to an empty one; \<open>n\<close> counts those read before.\<close>

fun read_headers :: "nat \<Rightarrow> (string \<rightharpoonup> string) \<Rightarrow> string list \<Rightarrow> (string \<rightharpoonup> string) option" where
  "read_headers n hs [] = Some hs"
| "read_headers n hs (line # ls) =
     (if line = [] then Some hs
      else if max_ssdp_headers < Suc n \<or> max_ssdp_header_line < length line then None
      else (case cut_char (CHR '':'') line of
          None \<Rightarrow> None
        | Some (name, v) \<Rightarrow>
            if trim_space name = [] then None
            else let key = to_lower (trim_space name) in
              if hs key \<noteq> None then None else read_headers (Suc n) (hs(key \<mapsto> trim_space v)) ls))"

definition parse_ssdp_message :: "string \<Rightarrow> ssdp_message option" where
  "parse_ssdp_message data =
     (if data = [] \<or> max_ssdp_datagram < length data \<or> CHR 0x00 \<in> set data then None
      else (case cut_text (crlf @ crlf) data of
          None \<Rightarrow> None
        | Some (head, rest) \<Rightarrow>
            if trim_space rest \<noteq> [] then None
            else (case split_text crlf head of
                l0 # l1 # ls \<Rightarrow>
                  let start = trim_space l0 in
                  if start \<noteq> ''HTTP/1.1 200 OK'' \<and> start \<noteq> ''NOTIFY * HTTP/1.1'' then None
                  else map_option (\<lambda>hs. \<lparr>sm_start = start, sm_headers = hs\<rparr>) (read_headers 0 Map.empty (l1 # ls))
              | _ \<Rightarrow> None)))"

definition header :: "ssdp_message \<Rightarrow> string \<Rightarrow> string" where
  "header msg name = or_empty (sm_headers msg name)"

text \<open>The lifetime a \<open>Cache-Control\<close> header grants, between half a minute and a day; zero when it grants none.\<close>

fun cache_ttl :: "string list \<Rightarrow> duration" where
  "cache_ttl [] = 0"
| "cache_ttl (part # ps) =
     (case cut_char (CHR ''='') (trim_space part) of
        None \<Rightarrow> cache_ttl ps
      | Some (name, raw) \<Rightarrow>
          if \<not> equal_fold (trim_space name) ''max-age'' then cache_ttl ps
          else (case parse_int (trim_by (\<lambda>c. c = CHR 0x22) (trim_space raw)) of (seconds, ok) \<Rightarrow>
            if \<not> ok \<or> seconds \<le> 0 then 0
            else (if seconds < 30 then 30 else if 86400 < seconds then 86400 else seconds) * second))"

definition parse_ssdp_cache_ttl :: "string \<Rightarrow> duration" where
  "parse_ssdp_cache_ttl v = cache_ttl (split_char (CHR '','') v)"

subsection \<open>Addresses\<close>

definition is_private_ip :: "ip_addr \<Rightarrow> bool" where
  "is_private_ip ip =
     (case to4 ip of
        Some v \<Rightarrow> v ! 0 = 10 \<or> (v ! 0 = 172 \<and> v ! 1 AND 0xF0 = 16) \<or> (v ! 0 = 192 \<and> v ! 1 = 168)
      | None \<Rightarrow> length ip = 16 \<and> ip ! 0 AND 0xFE = 0xFC)"

definition is_link_local_ip :: "ip_addr \<Rightarrow> bool" where
  "is_link_local_ip ip =
     (case to4 ip of
        Some v \<Rightarrow> v ! 0 = 169 \<and> v ! 1 = 254
      | None \<Rightarrow> length ip = 16 \<and> ip ! 0 = 0xFE \<and> ip ! 1 AND 0xC0 = 0x80)"

definition is_lan_address :: "ip_addr option \<Rightarrow> bool" where
  "is_lan_address x =
     (case x of None \<Rightarrow> False
      | Some ip \<Rightarrow> \<not> is_unspecified_ip ip \<and> \<not> is_loopback_ip ip \<and> \<not> is_multicast_ip ip \<and> (is_private_ip ip \<or> is_link_local_ip ip))"

text \<open>What \<open>url.Parse\<close> gives: an address without a scheme is not absolute.\<close>

record url =
  u_scheme :: string
  u_user :: bool
  u_hostname :: string
  u_port :: string
  u_fragment :: string

type_synonym url_parser = "string \<Rightarrow> url option"

definition descriptor_port_ok :: "string \<Rightarrow> bool" where
  "descriptor_port_ok port \<longleftrightarrow> port = [] \<or> (case parse_int port of (p, ok) \<Rightarrow> ok \<and> 1 \<le> p \<and> p \<le> 65535)"

definition validate_descriptor_url :: "url_parser \<Rightarrow> string \<Rightarrow> ip_addr option \<Rightarrow> url option" where
  "validate_descriptor_url pu raw expected =
     (case pu (trim_space raw) of
        None \<Rightarrow> None
      | Some u \<Rightarrow>
          if u_scheme u = [] then None
          else if u_scheme u \<noteq> ''http'' \<and> u_scheme u \<noteq> ''https'' then None
          else if u_user u \<or> u_hostname u = [] \<or> u_fragment u \<noteq> [] then None
          else (case (parse_ip (u_hostname u), expected) of
              (Some host, Some e) \<Rightarrow>
                if \<not> ip_equal host e \<or> \<not> is_lan_address (Some host) then None
                else if \<not> descriptor_port_ok (u_port u) then None else Some u
            | _ \<Rightarrow> None))"

subsection \<open>Advertisements\<close>

record ssdp_record =
  sr_location :: string
  sr_source_ip :: string
  sr_expires_at :: time

text \<open>The table by name of the service, the queue of addresses to look at (64 places), and when an address was last asked
  for.\<close>

record ssdp_enricher =
  se_records :: "(string \<times> ssdp_record) list"
  se_queue :: "string list"
  se_last_trigger :: "string \<rightharpoonup> time"

definition new_ssdp_enricher :: ssdp_enricher where
  "new_ssdp_enricher = \<lparr>se_records = [], se_queue = [], se_last_trigger = Map.empty\<rparr>"

definition evict_expired :: "time \<Rightarrow> ssdp_enricher \<Rightarrow> ssdp_enricher" where
  "evict_expired now e = e\<lparr>se_records := filter (\<lambda>(usn, r). now < sr_expires_at r) (se_records e)\<rparr>"

definition handle_notify :: "url_parser \<Rightarrow> time \<Rightarrow> ssdp_message \<Rightarrow> ip_addr \<Rightarrow> ssdp_enricher \<Rightarrow> ssdp_enricher" where
  "handle_notify pu now msg source e =
     (let nts = to_lower (header msg ''nts''); usn = trim_space (header msg ''usn'') in
      if usn = [] then e
      else if nts = ''ssdp:byebye'' then e\<lparr>se_records := AList.delete usn (se_records e)\<rparr>
      else if nts \<noteq> ''ssdp:alive'' \<and> nts \<noteq> ''ssdp:update'' then e
      else
        let location = header msg ''location''; ttl = parse_ssdp_cache_ttl (header msg ''cache-control'') in
        if validate_descriptor_url pu location (Some source) = None then e
        else if ttl = 0 then e
        else
          let e1 = (if max_ssdp_records \<le> length (se_records e) then evict_expired now e else e) in
          if length (se_records e1) < max_ssdp_records then
            let e2 = e1\<lparr>se_records := AList.update usn
                  \<lparr>sr_location = location, sr_source_ip = ip_string source, sr_expires_at = now + ttl\<rparr> (se_records e1)\<rparr>
            in if length (se_queue e2) < 64 then e2\<lparr>se_queue := se_queue e2 @ [ip_string source]\<rparr> else e2
          else e1)"

text \<open>One read of the listener: datagrams that are too long or from outside the LAN are dropped.\<close>

definition receive_datagram :: "url_parser \<Rightarrow> time \<Rightarrow> string \<Rightarrow> ip_addr \<Rightarrow> ssdp_enricher \<Rightarrow> ssdp_enricher" where
  "receive_datagram pu now data source e =
     (if max_ssdp_datagram < length data \<or> \<not> is_lan_address (Some source) then e
      else (case parse_ssdp_message data of
          None \<Rightarrow> e
        | Some msg \<Rightarrow> if sm_start msg \<noteq> ''NOTIFY * HTTP/1.1'' then e else handle_notify pu now msg source e))"

text \<open>\<open>time.Since\<close> of an address never asked for is measured from the zero instant.\<close>

definition since_trigger :: "time \<Rightarrow> string \<Rightarrow> ssdp_enricher \<Rightarrow> duration" where
  "since_trigger now ip e = time_sub now (case se_last_trigger e ip of None \<Rightarrow> zero_time | Some t \<Rightarrow> t)"

text \<open>One notice of the queue: the identity an enrichment is asked for, if any.\<close>

definition take_notice :: "time \<Rightarrow> inventory \<Rightarrow> ssdp_enricher \<Rightarrow> string option \<times> ssdp_enricher" where
  "take_notice now c e =
     (case se_queue e of
        [] \<Rightarrow> (None, e)
      | ip # q \<Rightarrow>
          let e1 = e\<lparr>se_queue := q\<rparr> in
          if since_trigger now ip e1 < ssdp_trigger_cooldown then (None, e1)
          else (case get_by_ip ip c of
              None \<Rightarrow> (None, e1)
            | Some d \<Rightarrow>
                if is_fully_identified d \<or> (vendor d \<noteq> [] \<and> device_type d \<noteq> [] \<and> (friendly_name d \<noteq> [] \<or> hostname d \<noteq> []))
                then (None, e1)
                else (Some (pdid d), e1\<lparr>se_last_trigger := (se_last_trigger e1)(ip \<mapsto> now)\<rparr>)))"

definition ssdp_cleanup :: "time \<Rightarrow> ssdp_enricher \<Rightarrow> ssdp_enricher" where
  "ssdp_cleanup now e = (evict_expired now e)\<lparr>se_last_trigger :=
     (\<lambda>ip. case se_last_trigger e ip of None \<Rightarrow> None
       | Some t \<Rightarrow> if 2 * ssdp_trigger_cooldown \<le> time_sub now t then None else Some t)\<rparr>"

subsection \<open>Enrichment\<close>

text \<open>The replies to a search, in the order they arrive: a datagram and its sender. The first usable one gives the location;
  when none does the search ends without one.\<close>

fun search_ssdp :: "url_parser \<Rightarrow> ip_addr \<Rightarrow> (string \<times> ip_addr) list \<Rightarrow> string" where
  "search_ssdp pu target [] = []"
| "search_ssdp pu target ((data, source) # rs) =
     (if max_ssdp_datagram < length data \<or> \<not> ip_equal source target then search_ssdp pu target rs
      else (case parse_ssdp_message data of
          None \<Rightarrow> search_ssdp pu target rs
        | Some msg \<Rightarrow>
            if sm_start msg \<noteq> ''HTTP/1.1 200 OK'' then search_ssdp pu target rs
            else if validate_descriptor_url pu (header msg ''location'') (Some target) = None then search_ssdp pu target rs
            else header msg ''location''))"

record ssdp_descriptor =
  sd_friendly_name :: string
  sd_manufacturer :: string
  sd_model_name :: string
  sd_model_number :: string
  sd_device_type :: string

definition bounded_text :: "string \<Rightarrow> nat \<Rightarrow> string" where
  "bounded_text v k = take k (trim_space v)"

definition to_upper :: "string \<Rightarrow> string" where "to_upper s = map upper_char s"

definition parse_ssdp_descriptor :: "(string \<Rightarrow> ssdp_descriptor option) \<Rightarrow> string \<Rightarrow> enrichment option" where
  "parse_ssdp_descriptor xml content =
     (if max_descriptor_bytes < length content then None
      else if contains_sub (to_upper content) ''<!DOCTYPE'' \<or> contains_sub (to_upper content) ''<!ENTITY'' then None
      else (case xml content of
          None \<Rightarrow> None
        | Some d \<Rightarrow>
            let ty = bounded_text (sd_device_type d) 512 in
            Some ((no_enrichment ''ssdp'' (85 / 100))
              \<lparr>nr_friendly_name := bounded_text (sd_friendly_name d) 256, nr_manufacturer := bounded_text (sd_manufacturer d) 256,
               nr_model := bounded_text (sd_model_name d) 256,
               nr_device_type := (if contains_sub ty ''MediaRenderer'' then ''tv'' else if contains_sub ty ''MediaServer'' then ''server'' else [])\<rparr>)))"

text \<open>The connection goes to the advertising address whatever the location resolves to; redirects are not followed.\<close>

record descriptor_request =
  dr_url :: url
  dr_address :: string
  dr_port :: string

definition descriptor_request_of :: "url \<Rightarrow> ip_addr \<Rightarrow> descriptor_request" where
  "descriptor_request_of u expected =
     \<lparr>dr_url = u, dr_address = ip_string expected,
      dr_port = (if u_port u \<noteq> [] then u_port u else if u_scheme u = ''https'' then ''443'' else ''80'')\<rparr>"

text \<open>The requests that are sent, and the result.\<close>

definition fetch_descriptor ::
    "url_parser \<Rightarrow> (string \<Rightarrow> ssdp_descriptor option) \<Rightarrow> (descriptor_request \<Rightarrow> (nat \<times> string) option) \<Rightarrow> string \<Rightarrow> ip_addr
     \<Rightarrow> descriptor_request list \<times> enrichment option" where
  "fetch_descriptor pu xml get raw expected =
     (case validate_descriptor_url pu raw (Some expected) of
        None \<Rightarrow> ([], None)
      | Some u \<Rightarrow>
          let r = descriptor_request_of u expected in
          ([r], case get r of
             None \<Rightarrow> None
           | Some (st, content) \<Rightarrow> if st \<noteq> 200 then None else parse_ssdp_descriptor xml (take (Suc max_descriptor_bytes) content)))"

definition ssdp_enrich ::
    "url_parser \<Rightarrow> (string \<Rightarrow> ssdp_descriptor option) \<Rightarrow> (ip_addr \<Rightarrow> (string \<times> ip_addr) list) \<Rightarrow> (descriptor_request \<Rightarrow> (nat \<times> string) option)
     \<Rightarrow> device \<Rightarrow> descriptor_request list \<times> enrichment option" where
  "ssdp_enrich pu xml replies get d =
     (if current_ip d = [] then ([], None)
      else (case parse_ip (trim_space (current_ip d)) of
          None \<Rightarrow> ([], None)
        | Some target \<Rightarrow>
            if \<not> is_lan_address (Some target) then ([], None)
            else let location = search_ssdp pu target (replies target) in
              if location = [] then ([], None) else fetch_descriptor pu xml get location target))"

end
