(* ===== verification/Dis_Nmap.thy ===== *)
theory Dis_Nmap
  imports Dis_Ssdp
begin

text \<open>
  The nmap enricher (\<open>internal/discovery/nmap_enricher.go\<close>): its options and their limits, the command, the buffer that
  holds at most so many bytes of its output, what the report says of a device, and the classification. What the command
  writes and how it ends is an argument; decoding the XML of the report is a parameter.
\<close>

subsection \<open>Options and command\<close>

record nmap_options =
  no_host_timeout :: duration
  no_process_timeout :: duration
  no_max_rate :: int
  no_max_output :: int
  no_os_detection :: bool

definition new_nmap_options :: "nmap_options \<Rightarrow> nmap_options" where
  "new_nmap_options o1 =
     (let o2 = (if no_host_timeout o1 \<le> 0 then o1\<lparr>no_host_timeout := 10 * second\<rparr> else o1);
          o3 = (if no_process_timeout o2 \<le> 0 then o2\<lparr>no_process_timeout := 15 * second\<rparr> else o2);
          o4 = (if no_max_rate o3 \<le> 0 then o3\<lparr>no_max_rate := 50\<rparr> else o3);
          o5 = (if 1000 < no_max_rate o4 then o4\<lparr>no_max_rate := 1000\<rparr> else o4);
          o6 = (if no_max_output o5 \<le> 0 then o5\<lparr>no_max_output := 1048576\<rparr> else o5)
      in if 16777216 < no_max_output o6 then o6\<lparr>no_max_output := 16777216\<rparr> else o6)"

text \<open>\<open>Duration.Round(time.Second)\<close> of a positive duration: half a second is rounded up.\<close>

definition round_second :: "duration \<Rightarrow> duration" where
  "round_second v = (let r = v mod second in
     if r + r < second then v - r else if max_duration < v + (second - r) then max_duration else v + (second - r))"

definition nmap_duration :: "duration \<Rightarrow> string" where
  "nmap_duration v = (let s = round_second v div second in decimal_int (if s < 1 then 1 else s) @ ''s'')"

definition nmap_args :: "nmap_options \<Rightarrow> string \<Rightarrow> string list" where
  "nmap_args os ip =
     [''-Pn'', ''-n'', ''-sT'', ''-sV'', ''--version-light'', ''--max-retries'', ''1'',
      ''--host-timeout'', nmap_duration (no_host_timeout os), ''--max-rate'', decimal_int (no_max_rate os), ''-F'', ''-oX'', ''-'']
     @ (if no_os_detection os then [''-O'', ''--osscan-limit''] else []) @ [ip]"

subsection \<open>The output\<close>

record limited_buffer =
  lb_buf :: string
  lb_limit :: int
  lb_exceeded :: bool

text \<open>The number of bytes taken, and whether the writer is told to stop.\<close>

definition lb_write :: "string \<Rightarrow> limited_buffer \<Rightarrow> (nat \<times> bool) \<times> limited_buffer" where
  "lb_write p w =
     (let remaining = lb_limit w - int (length (lb_buf w)) in
      if remaining \<le> 0 then ((0, True), w\<lparr>lb_exceeded := True\<rparr>)
      else if remaining < int (length p)
      then ((nat remaining, True), w\<lparr>lb_buf := lb_buf w @ take (nat remaining) p, lb_exceeded := True\<rparr>)
      else ((length p, False), w\<lparr>lb_buf := lb_buf w @ p\<rparr>))"

text \<open>The command's output in the pieces it is copied in; after an error no more is written.\<close>

fun lb_copy :: "string list \<Rightarrow> limited_buffer \<Rightarrow> limited_buffer" where
  "lb_copy [] w = w"
| "lb_copy (p # ps) w = (case lb_write p w of ((n, stop), w') \<Rightarrow> if stop then w' else lb_copy ps w')"

subsection \<open>The report\<close>

record nmap_port =
  np_id :: string
  np_state :: string
  np_service :: string

record nmap_host =
  nh_state :: string
  nh_addresses :: "(string \<times> string) list"
  nh_hostnames :: "string list"
  nh_os_names :: "string list"
  nh_ports :: "nmap_port list"

definition any_of :: "string \<Rightarrow> string list \<Rightarrow> bool" where
  "any_of s ws \<longleftrightarrow> list_ex (contains_sub s) ws"

definition classify_device :: "string \<Rightarrow> string list \<Rightarrow> string list \<Rightarrow> string" where
  "classify_device os_name ports svcs =
     (let os = to_lower os_name; svc = to_lower (join '' '' svcs); port = '' '' @ join '' '' ports @ '' '' in
      if any_of os [''ios'', ''iphone'', ''ipod''] then ''phone''
      else if any_of os [''ipad''] then ''tablet''
      else if any_of os [''android''] then
        (if any_of os [''tv'', ''shield''] then ''tv'' else if any_of os [''tablet''] then ''tablet'' else ''phone'')
      else if any_of os [''playstation'', ''xbox'', ''nintendo''] \<or> any_of svc [''playstation''] then ''console''
      else if any_of os [''webos'', ''tizen'', ''bravia'', ''apple tv'', ''roku'', ''chromecast''] then ''tv''
      else if any_of os [''printer'', ''jetdirect''] \<or> any_of port ['' 631 '', '' 9100 ''] \<or> any_of svc [''ipp'', ''printer''] then ''printer''
      else if any_of os [''routeros'', ''openwrt'', ''cisco'', ''juniper'', ''access point'', ''edgeos'', ''pfsense'', ''opnsense''] then ''infrastructure''
      else if any_of os [''windows 10'', ''windows 11'', ''windows 8'', ''windows 7''] then ''pc''
      else if any_of os [''mac os x'', ''macos''] then ''mac''
      else if any_of os [''espressif'', ''freertos'', ''embedded'', ''tuya''] \<or> any_of svc [''mqtt''] \<or> any_of port ['' 1883 ''] then ''iot''
      else if any_of os [''synology'', ''qnap''] \<or> any_of svc [''nfs'', ''iscsi''] then ''server''
      else if any_of os [''linux'', ''bsd''] then (if any_of port ['' 22 '', '' 443 ''] then ''server'' else ''iot'')
      else [])"

text \<open>An address of the report is its kind and vendor.\<close>

definition parse_nmap_xml :: "(string \<Rightarrow> nmap_host list option) \<Rightarrow> string \<Rightarrow> enrichment option" where
  "parse_nmap_xml xml data =
     (if 1048576 < length data then None
      else (case xml data of
          None \<Rightarrow> None
        | Some [] \<Rightarrow> None
        | Some (host # _) \<Rightarrow>
            if nh_state host \<noteq> ''up'' then None
            else
              let open_ports = filter (\<lambda>p. np_state p = ''open'' \<and> np_service p \<noteq> []) (nh_ports host);
                  svcs = map np_service open_ports; ids = map np_id open_ports;
                  makers = map snd (filter (\<lambda>(ty, maker). ty = ''mac'' \<and> maker \<noteq> []) (nh_addresses host));
                  e = (no_enrichment ''nmap'' (8 / 10))\<lparr>nr_vendor := (if makers = [] then [] else List.last makers),
                        nr_hostname := (case nh_hostnames host of [] \<Rightarrow> [] | n # _ \<Rightarrow> n), nr_services := svcs\<rparr>
              in Some (case nh_os_names host of
                    os # _ \<Rightarrow> e\<lparr>nr_model := os, nr_device_type := classify_device os ids svcs\<rparr>
                  | [] \<Rightarrow> if svcs \<noteq> [] then e\<lparr>nr_device_type := classify_device [] ids svcs\<rparr> else e)))"

datatype nmap_error = NoAddress | NotLan | NotStarted | OutputLimit | NmapFailed | NoResults

text \<open>The command's output and whether it ended well; a write that is refused ends it badly. The second result is the command
  that was run, if any.\<close>

definition run_nmap ::
    "(string \<Rightarrow> nmap_host list option) \<Rightarrow> (string list \<Rightarrow> string list \<times> bool) \<Rightarrow> nmap_options \<Rightarrow> string
     \<Rightarrow> (nmap_error + enrichment option) \<times> string list" where
  "run_nmap xml prog os ip =
     (let args = nmap_args os ip in
      case prog args of (pieces, ended) \<Rightarrow>
        let w = lb_copy pieces \<lparr>lb_buf = [], lb_limit = no_max_output os, lb_exceeded = False\<rparr> in
        (if lb_exceeded w then Inl OutputLimit else if \<not> ended then Inl NmapFailed else Inr (parse_nmap_xml xml (lb_buf w)), args))"

definition nmap_enrich ::
    "(string \<Rightarrow> nmap_host list option) \<Rightarrow> (string list \<Rightarrow> string list \<times> bool) \<Rightarrow> bool \<Rightarrow> nmap_options \<Rightarrow> device
     \<Rightarrow> (nmap_error + enrichment) \<times> string list option" where
  "nmap_enrich xml prog started os d =
     (if current_ip d = [] then (Inl NoAddress, None)
      else (case parse_ip (trim_space (current_ip d)) of
          None \<Rightarrow> (Inl NotLan, None)
        | Some ip \<Rightarrow>
            if \<not> is_lan_address (Some ip) then (Inl NotLan, None)
            else if \<not> started then (Inl NotStarted, None)
            else (case run_nmap xml prog os (ip_string ip) of
                (Inl e, args) \<Rightarrow> (Inl e, Some args)
              | (Inr (Some r), args) \<Rightarrow>
                  (if nr_vendor r \<noteq> [] \<or> nr_device_type r \<noteq> [] \<or> nr_hostname r \<noteq> [] \<or> nr_services r \<noteq> [] then Inr r else Inl NoResults, Some args)
              | (Inr None, args) \<Rightarrow> (Inl NoResults, Some args))))"

end
