(* ===== verification/Dis_Mdns.thy ===== *)
theory Dis_Mdns
  imports Dis_Nmap
begin

text \<open>
  The Avahi enricher (\<open>internal/discovery/avahi_enricher.go\<close>): the lines the browser prints, the table they keep, and what
  the table says of a device; and the TLS enricher (\<open>tls_fingerprinter.go\<close>): what it connects to. The table is listed in an
  order of its keys; where the code goes through the map in any order, the order is the argument \<open>ord\<close>. The raw details of an
  enrichment, text records and certificates among them, are left out.
\<close>

subsection \<open>Lines of the browser\<close>

definition max_avahi_records :: nat where "max_avahi_records = 4096"

record avahi_record =
  ar_interface :: string
  ar_protocol :: string
  ar_friendly_name :: string
  ar_hostname :: string
  ar_service_type :: string
  ar_domain :: string
  ar_ip :: string
  ar_port :: nat
  ar_txt :: "(string \<times> string) list"
  ar_timestamp :: time

definition avahi_field :: "string \<Rightarrow> string" where
  "avahi_field v = trim_space (unescape (trim_space v))"

definition normalize_domain :: "string \<Rightarrow> string" where
  "normalize_domain domain = trim_suffix (trim_suffix (to_lower (trim_space domain)) ''.'') ''.local''"

text \<open>At most sixteen pairs; a later one replaces an earlier one of the same key.\<close>

fun txt_pairs :: "string list \<Rightarrow> (string \<times> string) list \<Rightarrow> (string \<times> string) list" where
  "txt_pairs [] found = found"
| "txt_pairs (t # ts) found =
     (if 16 \<le> length found then found
      else
        let token = avahi_field (trim_by (\<lambda>c. c = CHR 0x22) t);
            (k, v) = (case cut_char (CHR ''='') token of None \<Rightarrow> (token, []) | Some kv \<Rightarrow> kv);
            key = to_lower (trim_space k)
        in if key = [] \<or> 64 < length key then txt_pairs ts found
           else txt_pairs ts (AList.update key (take 256 v) found))"

definition parse_avahi_txt :: "string \<Rightarrow> (string \<times> string) list" where
  "parse_avahi_txt v = (if v = [] \<or> 1300 < length v then [] else txt_pairs (words_of v) [])"

text \<open>\<open>net.SplitHostPort\<close>: the host, where the text has a port.\<close>

definition split_host :: "string \<Rightarrow> string option" where
  "split_host s =
     (if CHR '':'' \<notin> set s then None
      else
        let port = rev (takeWhile (\<lambda>c. c \<noteq> CHR '':'') (rev s)); before = take (length s - length port - 1) s in
        if hd s = CHR ''['' then
          (case cut_char (CHR '']'') s of
             None \<Rightarrow> None
           | Some (a, rest) \<Rightarrow>
               if rest = [] \<or> length a + 1 \<noteq> length before then None
               else if CHR ''['' \<in> set (tl s) \<or> CHR '']'' \<in> set rest then None
               else Some (tl a))
        else if CHR '':'' \<in> set before then None
        else if CHR ''['' \<in> set s \<or> CHR '']'' \<in> set s then None
        else Some before)"

text \<open>\<open>strings.LastIndexByte\<close> of the percent sign.\<close>

definition cut_zone :: "string \<Rightarrow> string" where
  "cut_zone s = (if CHR ''%'' \<in> set s then rev (tl (dropWhile (\<lambda>c. c \<noteq> CHR ''%'') (rev s))) else s)"

definition normalize_scoped_ip :: "string \<Rightarrow> string" where
  "normalize_scoped_ip v =
     (let host = cut_zone (case split_host v of Some h \<Rightarrow> h | None \<Rightarrow> v) in
      case parse_ip (trim_by (\<lambda>c. c = CHR ''['' \<or> c = CHR '']'') host) of None \<Rightarrow> [] | Some ip \<Rightarrow> ip_string ip)"

text \<open>\<open>strconv.ParseUint\<close> with 16 bits.\<close>

definition parse_port :: "string \<Rightarrow> nat option" where
  "parse_port s = (case parse_unsigned s of Some (n, True) \<Rightarrow> if n < 65536 then Some n else None | _ \<Rightarrow> None)"

text \<open>A line says that a service of a key is there or has gone.\<close>

definition avahi_key :: "string list \<Rightarrow> string" where
  "avahi_key parts = join [CHR 0x00] [avahi_field (parts ! 1), avahi_field (parts ! 2), avahi_field (parts ! 3),
     to_lower (avahi_field (parts ! 4)), normalize_domain (avahi_field (parts ! 5))]"

definition parse_avahi_line :: "string \<Rightarrow> time \<Rightarrow> (string \<times> avahi_record option) option" where
  "parse_avahi_line line now =
     (let parts = split_char (CHR '';'') line in
      if 4096 < length line \<or> length parts < 6 then None
      else if parts ! 0 \<noteq> ''='' \<and> parts ! 0 \<noteq> ''-'' then None
      else if avahi_field (parts ! 1) = [] \<or> avahi_field (parts ! 3) = [] \<or> to_lower (avahi_field (parts ! 4)) = [] then None
      else if parts ! 0 = ''-'' then Some (avahi_key parts, None)
      else if length parts < 9 then None
      else
        let ip = normalize_scoped_ip (avahi_field (parts ! 7)) in
        if ip = [] then None
        else (case parse_port (parts ! 8) of
            None \<Rightarrow> None
          | Some port \<Rightarrow>
              Some (avahi_key parts, Some
                \<lparr>ar_interface = avahi_field (parts ! 1), ar_protocol = avahi_field (parts ! 2), ar_friendly_name = avahi_field (parts ! 3),
                 ar_hostname = normalize_domain (avahi_field (parts ! 6)), ar_service_type = to_lower (avahi_field (parts ! 4)),
                 ar_domain = normalize_domain (avahi_field (parts ! 5)), ar_ip = ip, ar_port = port,
                 ar_txt = (if 9 < length parts then parse_avahi_txt (join '';'' (drop 9 parts)) else []), ar_timestamp = now\<rparr>)))"

subsection \<open>The table\<close>

type_synonym avahi_table = "(string \<times> avahi_record) list"

text \<open>The entry with the least timestamp, the first of several in the order of the loop.\<close>

fun oldest_entry :: "avahi_table \<Rightarrow> (string \<times> time) option \<Rightarrow> (string \<times> time) option" where
  "oldest_entry [] best = best"
| "oldest_entry ((k, r) # es) best =
     oldest_entry es (case best of None \<Rightarrow> Some (k, ar_timestamp r)
       | Some (k', t) \<Rightarrow> if k' = [] \<or> ar_timestamp r < t then Some (k, ar_timestamp r) else best)"

definition upsert_record :: "(avahi_table \<Rightarrow> avahi_table) \<Rightarrow> string \<Rightarrow> avahi_record \<Rightarrow> avahi_table \<Rightarrow> avahi_table" where
  "upsert_record ord key r t =
     (let t1 = (if map_of t key = None \<and> max_avahi_records \<le> length t
                then (case oldest_entry (ord t) None of None \<Rightarrow> t | Some (k, _) \<Rightarrow> AList.delete k t) else t)
      in AList.update key r t1)"

definition apply_avahi :: "(avahi_table \<Rightarrow> avahi_table) \<Rightarrow> string \<times> avahi_record option \<Rightarrow> avahi_table \<Rightarrow> avahi_table" where
  "apply_avahi ord ev t = (case ev of (key, Some r) \<Rightarrow> upsert_record ord key r t | (key, None) \<Rightarrow> AList.delete key t)"

text \<open>The output of one browser: lines with the moments they are read; a line that is too long ends the scan. When the browser
  ends the table is emptied.\<close>

fun avahi_lines :: "(avahi_table \<Rightarrow> avahi_table) \<Rightarrow> (string \<times> time) list \<Rightarrow> avahi_table \<Rightarrow> avahi_table" where
  "avahi_lines ord [] t = t"
| "avahi_lines ord ((raw, now) # ls) t =
     (if 262144 \<le> length raw then t
      else (case parse_avahi_line (drop_cr raw) now of
          None \<Rightarrow> avahi_lines ord ls t
        | Some ev \<Rightarrow> avahi_lines ord ls (apply_avahi ord ev t)))"

definition avahi_browser_ended :: "avahi_table \<Rightarrow> avahi_table" where
  "avahi_browser_ended t = []"

subsection \<open>Enrichment\<close>

fun classify_mdns :: "string list \<Rightarrow> string" where
  "classify_mdns [] = []"
| "classify_mdns (s # ss) =
     (let svc = to_lower s in
      if any_of svc [''_ipp'', ''_printer'', ''_pdl-datastream''] then ''printer''
      else if any_of svc [''_airplay'', ''_googlecast'', ''_raop''] then ''tv''
      else if any_of svc [''_hap'', ''_homekit'', ''_matter''] then ''iot''
      else if any_of svc [''_sonos'', ''_spotify-connect'', ''_soundtouch''] then ''audio''
      else if any_of svc [''_smb'', ''_afpovertcp'', ''_nfs''] then ''server''
      else classify_mdns ss)"

definition target_ips :: "device \<Rightarrow> string list" where
  "target_ips d = filter (\<lambda>ip. ip \<noteq> []) (map normalize_scoped_ip (ips d @ [current_ip d]))"

definition avahi_matches :: "device \<Rightarrow> avahi_record \<Rightarrow> bool" where
  "avahi_matches d r \<longleftrightarrow> ar_ip r \<in> set (target_ips d) \<or> (normalize_domain (hostname d) \<noteq> [] \<and> ar_hostname r = normalize_domain (hostname d))"

definition first_text :: "string list \<Rightarrow> string" where
  "first_text ss = (case filter (\<lambda>s. s \<noteq> []) ss of [] \<Rightarrow> [] | s # _ \<Rightarrow> s)"

definition avahi_enrich :: "(avahi_table \<Rightarrow> avahi_table) \<Rightarrow> avahi_table \<Rightarrow> device \<Rightarrow> enrichment option" where
  "avahi_enrich ord t d =
     (if current_ip d = [] \<and> hostname d = [] then None
      else
        let found = sort_key ar_service_type (filter (avahi_matches d) (map snd (ord t))) in
        if found = [] then None
        else
          let svcs = sort (remdups (map ar_service_type found)) in
          Some ((no_enrichment ''avahi'' (75 / 100))
            \<lparr>nr_friendly_name := first_text (map ar_friendly_name found), nr_hostname := first_text (map ar_hostname found),
             nr_services := svcs, nr_device_type := classify_mdns svcs\<rparr>))"

subsection \<open>TLS metadata\<close>

definition tls_server_name :: "string \<Rightarrow> string" where
  "tls_server_name h =
     (let name = trim_suffix (trim_space h) ''.'' in
      if name = [] \<or> parse_ip name \<noteq> None \<or> is_generic_hostname name then []
      else if 253 < length name \<or> (\<exists>c \<in> set name. c \<in> {CHR '' '', CHR ''/'', CHR 0x5C, CHR 0x09, CHR 0x0D, CHR 0x0A}) then []
      else name)"

text \<open>The address, port and server name that are dialled, and the result when the handshake succeeds.\<close>

definition tls_enrich :: "(string \<times> string \<times> string \<Rightarrow> bool) \<Rightarrow> device \<Rightarrow> (string \<times> string \<times> string) option \<times> enrichment option" where
  "tls_enrich handshake d =
     (if current_ip d = [] then (None, None)
      else (case parse_ip (trim_space (current_ip d)) of
          None \<Rightarrow> (None, None)
        | Some ip \<Rightarrow>
            if \<not> is_lan_address (Some ip) then (None, None)
            else let dial = (ip_string ip, ''443'', tls_server_name (hostname d)) in
              (Some dial, if handshake dial then Some (no_enrichment ''tls_metadata'' (35 / 100)) else None)))"

end
