(* ===== verification/Dis_Ssdp_Props.thy ===== *)
theory Dis_Ssdp_Props
  imports Dis_Ssdp
begin

text \<open>
  The SSDP enricher: a descriptor is only fetched from the host that advertised it, on the LAN; what advertisements leave
  behind is bounded, and no address is asked for twice within five minutes.
\<close>

subsection \<open>The descriptor stays with its advertiser\<close>

lemma search_ssdp_reply:
  "search_ssdp pu target rs = location \<Longrightarrow> location \<noteq> [] \<Longrightarrow>
   \<exists>data source msg. (data, source) \<in> set rs \<and> ip_equal source target \<and> parse_ssdp_message data = Some msg \<and> header msg ''location'' = location"
proof (induction rs)
  case (Cons x rs)
  obtain data source where x: "x = (data, source)" by (cases x)
  have "search_ssdp pu target (x # rs) = search_ssdp pu target rs
     \<or> ip_equal source target \<and> (\<exists>msg. parse_ssdp_message data = Some msg \<and> header msg ''location'' = search_ssdp pu target (x # rs))"
    by (simp add: x split: option.split)
  with Cons x show ?case by (metis list.set_intros)
qed simp

lemma validated_url:
  assumes "validate_descriptor_url pu raw (Some e) = Some u"
  shows "pu (trim_space raw) = Some u" "u_scheme u \<in> {''http'', ''https''}" "\<not> u_user u" "descriptor_port_ok (u_port u)"
    "\<exists>host. parse_ip (u_hostname u) = Some host \<and> ip_equal host e \<and> is_lan_address (Some host)"
  using assms by (auto simp: validate_descriptor_url_def split: option.splits if_splits)

text \<open>C38: A host of the network cannot make the service fetch a page from anywhere else. Whatever the replies to a search
  say, at most one request is sent, to the address of the device that is enriched, which is a private or link-local one; the
  location names that address with scheme http or https, without credentials and with a port in range; and a datagram from
  that device announced it.\<close>

theorem descriptor_stays_on_advertiser:
  assumes "ssdp_enrich pu xml replies get d = (rs, res)" "r \<in> set rs"
  shows "\<exists>target. parse_ip (trim_space (current_ip d)) = Some target \<and> rs = [r] \<and> dr_address r = ip_string target
    \<and> (is_private_ip target \<or> is_link_local_ip target) \<and> \<not> is_loopback_ip target
    \<and> (\<exists>host. parse_ip (u_hostname (dr_url r)) = Some host \<and> ip_equal host target)
    \<and> u_scheme (dr_url r) \<in> {''http'', ''https''} \<and> \<not> u_user (dr_url r)
    \<and> (case parse_int (dr_port r) of (p, ok) \<Rightarrow> ok \<and> 1 \<le> p \<and> p \<le> 65535)
    \<and> (\<exists>data source msg. (data, source) \<in> set (replies target) \<and> ip_equal source target
         \<and> parse_ssdp_message data = Some msg \<and> pu (trim_space (header msg ''location'')) = Some (dr_url r))"
proof -
  from assms obtain target where t: "parse_ip (trim_space (current_ip d)) = Some target" "is_lan_address (Some target)" and
    loc: "search_ssdp pu target (replies target) \<noteq> []" and
    f: "fetch_descriptor pu xml get (search_ssdp pu target (replies target)) target = (rs, res)"
    by (auto simp: ssdp_enrich_def Let_def split: if_splits option.splits)
  from f assms(2) obtain u where u: "validate_descriptor_url pu (search_ssdp pu target (replies target)) (Some target) = Some u"
    and r: "rs = [r]" "r = descriptor_request_of u target"
    by (auto simp: fetch_descriptor_def Let_def split: option.splits)
  note v = validated_url [OF u]
  have "parse_int ''443'' = (443, True)" "parse_int ''80'' = (80, True)"
    by (simp_all add: parse_int_def has_prefix_def parse_unsigned_def is_digit_def byte_def max_uint64_def int64_max_def)
  then have port: "case parse_int (dr_port r) of (p, ok) \<Rightarrow> ok \<and> 1 \<le> p \<and> p \<le> 65535"
    using v(4) by (auto simp: r(2) descriptor_request_of_def descriptor_port_ok_def)
  have d: "dr_url r = u" "dr_address r = ip_string target" by (simp_all add: r(2) descriptor_request_of_def)
  have lan: "is_private_ip target \<or> is_link_local_ip target" "\<not> is_loopback_ip target" using t(2) by (simp_all add: is_lan_address_def)
  have host: "\<exists>host. parse_ip (u_hostname u) = Some host \<and> ip_equal host target" using v(5) by blast
  have advertised: "\<exists>data source msg. (data, source) \<in> set (replies target) \<and> ip_equal source target
      \<and> parse_ssdp_message data = Some msg \<and> pu (trim_space (header msg ''location'')) = Some u"
    using search_ssdp_reply [OF refl loc] v(1) by metis
  show ?thesis unfolding d by (intro exI [of _ target] conjI t(1) r(1) refl lan host v(2,3) port advertised)
qed

subsection \<open>Runs of the enricher\<close>

text \<open>The list says when which address was asked for.\<close>

inductive ssdp_run :: "url_parser \<Rightarrow> time \<Rightarrow> ssdp_enricher \<Rightarrow> (time \<times> string) list \<Rightarrow> bool" for pu where
  ssdp_begin: "ssdp_run pu now new_ssdp_enricher []"
| ssdp_datagram: "ssdp_run pu t e asked \<Longrightarrow> t \<le> now \<Longrightarrow> ssdp_run pu now (receive_datagram pu now data source e) asked"
| ssdp_quiet: "ssdp_run pu t e asked \<Longrightarrow> t \<le> now \<Longrightarrow> take_notice now c e = (None, e') \<Longrightarrow> ssdp_run pu now e' asked"
| ssdp_trigger: "ssdp_run pu t e asked \<Longrightarrow> t \<le> now \<Longrightarrow> take_notice now c e = (Some p, e') \<Longrightarrow> se_queue e = ip # q
    \<Longrightarrow> ssdp_run pu now e' (asked @ [(now, ip)])"
| ssdp_tick: "ssdp_run pu t e asked \<Longrightarrow> t \<le> now \<Longrightarrow> ssdp_run pu now (ssdp_cleanup now e) asked"

text \<open>A record is of a host of the LAN, its location points there, and it lives for a day at most.\<close>

definition record_fit :: "url_parser \<Rightarrow> time \<Rightarrow> ssdp_record \<Rightarrow> bool" where
  "record_fit pu now r \<longleftrightarrow> sr_expires_at r \<le> now + 86400 * second
     \<and> (\<exists>source. sr_source_ip r = ip_string source \<and> is_lan_address (Some source) \<and> validate_descriptor_url pu (sr_location r) (Some source) \<noteq> None)"

definition table_fit :: "url_parser \<Rightarrow> time \<Rightarrow> ssdp_enricher \<Rightarrow> bool" where
  "table_fit pu now e \<longleftrightarrow> distinct (map fst (se_records e)) \<and> length (se_records e) \<le> max_ssdp_records
     \<and> (\<forall>(usn, r) \<in> set (se_records e). record_fit pu now r) \<and> length (se_queue e) \<le> 64"

text \<open>Every entry of the list is remembered, or older than the pause.\<close>

definition log_fit :: "time \<Rightarrow> ssdp_enricher \<Rightarrow> (time \<times> string) list \<Rightarrow> bool" where
  "log_fit now e asked \<longleftrightarrow> sorted_wrt (\<lambda>(t, ip) (t', ip'). ip = ip' \<longrightarrow> t + ssdp_trigger_cooldown \<le> t') asked
     \<and> (\<forall>(t, ip) \<in> set asked. t + ssdp_trigger_cooldown \<le> now \<or> (\<exists>t'. se_last_trigger e ip = Some t' \<and> t \<le> t' \<and> t' \<le> now))"

lemma cache_ttl_bounds: "0 \<le> cache_ttl ps \<and> cache_ttl ps \<le> 86400 * second"
proof -
  have s: "0 \<le> second" by (rule less_imp_le [OF second_pos])
  show ?thesis by (induction ps) (auto simp: s mult_right_mono split: option.split prod.splits)
qed

lemma evict_fit: "table_fit pu now e \<Longrightarrow> table_fit pu now (evict_expired now e)"
  by (auto simp: table_fit_def evict_expired_def distinct_map_filter intro: le_trans [OF length_filter_le])

lemma table_fit_later: "table_fit pu t e \<Longrightarrow> t \<le> now \<Longrightarrow> table_fit pu now e"
  by (fastforce simp: table_fit_def record_fit_def)

lemma set_delete_subset: "x \<in> set (AList.delete k al) \<Longrightarrow> x \<in> set al"
  by (simp add: AList.delete_eq)

lemma notify_fit:
  assumes fit: "table_fit pu now e" and lan: "is_lan_address (Some source)"
  shows "table_fit pu now (handle_notify pu now msg source e)" "se_last_trigger (handle_notify pu now msg source e) = se_last_trigger e"
proof -
  define e1 where "e1 = (if max_ssdp_records \<le> length (se_records e) then evict_expired now e else e)"
  define r where "r = \<lparr>sr_location = header msg ''location'', sr_source_ip = ip_string source,
    sr_expires_at = now + parse_ssdp_cache_ttl (header msg ''cache-control'')\<rparr>"
  have e1: "table_fit pu now e1" "se_last_trigger e1 = se_last_trigger e" "se_queue e1 = se_queue e"
    using fit evict_fit [OF fit] by (auto simp: e1_def evict_expired_def)
  have del: "table_fit pu now (e\<lparr>se_records := AList.delete usn (se_records e)\<rparr>)" for usn
    using fit length_delete_le [of usn "se_records e"] by (fastforce simp: table_fit_def distinct_delete dest: set_delete_subset)
  have upd: "table_fit pu now (e1\<lparr>se_records := AList.update usn r (se_records e1)\<rparr>)"
    if "length (se_records e1) < max_ssdp_records" "validate_descriptor_url pu (header msg ''location'') (Some source) \<noteq> None" for usn
  proof -
    have "record_fit pu now r"
      using that(2) lan cache_ttl_bounds by (auto simp: record_fit_def r_def parse_ssdp_cache_ttl_def)
    moreover have "set (AList.update usn r al) \<subseteq> insert (usn, r) (set al)" for al by (induction al) auto
    moreover have "length (AList.update usn r al) \<le> Suc (length al)" for al by (induction al) auto
    ultimately show ?thesis using e1(1) that(1) unfolding table_fit_def
      by (fastforce simp: distinct_update intro: le_trans Suc_leI)
  qed
  show "table_fit pu now (handle_notify pu now msg source e)"
    using fit e1(1) del upd by (auto simp: handle_notify_def Let_def e1_def [symmetric] r_def [symmetric] table_fit_def)
  show "se_last_trigger (handle_notify pu now msg source e) = se_last_trigger e"
    by (auto simp: handle_notify_def Let_def evict_expired_def)
qed

lemma datagram_fit:
  assumes "table_fit pu now e"
  shows "table_fit pu now (receive_datagram pu now data source e)" "se_last_trigger (receive_datagram pu now data source e) = se_last_trigger e"
  using assms notify_fit by (auto simp: receive_datagram_def split: option.split)

lemma quiet_since:
  "\<not> time_sub now t < ssdp_trigger_cooldown \<Longrightarrow> t + ssdp_trigger_cooldown \<le> now"
  "2 * ssdp_trigger_cooldown \<le> time_sub now t \<Longrightarrow> t + ssdp_trigger_cooldown \<le> now"
  by (simp_all add: time_sub_def ssdp_trigger_cooldown_def minute_def second_def max_duration_def min_duration_def split: if_splits)

lemma notice_fit:
  assumes "table_fit pu now e" "take_notice now c e = (x, e')"
  shows "table_fit pu now e'" "x = None \<Longrightarrow> se_last_trigger e' = se_last_trigger e"
    "x = Some p \<Longrightarrow> se_queue e = ip # q \<Longrightarrow> se_last_trigger e' = (se_last_trigger e)(ip \<mapsto> now) \<and> \<not> since_trigger now ip e < ssdp_trigger_cooldown"
  using assms by (auto simp: take_notice_def Let_def table_fit_def since_trigger_def split: list.splits if_splits option.splits)

lemma log_fit_later: "log_fit t e asked \<Longrightarrow> t \<le> now \<Longrightarrow> se_last_trigger e' = se_last_trigger e \<Longrightarrow> log_fit now e' asked"
  by (fastforce simp: log_fit_def)

lemma log_fit_asked:
  assumes fit: "log_fit t e asked" "t \<le> now" and e': "se_last_trigger e' = (se_last_trigger e)(ip \<mapsto> now)"
    and quiet: "\<not> since_trigger now ip e < ssdp_trigger_cooldown"
  shows "log_fit now e' (asked @ [(now, ip)])"
proof -
  have "s + ssdp_trigger_cooldown \<le> now" if "(s, ip) \<in> set asked" for s
  proof -
    from fit(1) that consider "s + ssdp_trigger_cooldown \<le> t" | t' where "se_last_trigger e ip = Some t'" "s \<le> t'"
      by (fastforce simp: log_fit_def)
    then show ?thesis
    proof cases
      case 2
      with quiet have "\<not> time_sub now t' < ssdp_trigger_cooldown" by (simp add: since_trigger_def)
      from quiet_since(1) [OF this] 2(2) show ?thesis by simp
    qed (use fit(2) in simp)
  qed
  with fit e' show ?thesis by (fastforce simp: log_fit_def sorted_wrt_append)
qed

lemma log_fit_cleanup:
  assumes "log_fit t e asked" "t \<le> now"
  shows "log_fit now (ssdp_cleanup now e) asked"
proof -
  have "s + ssdp_trigger_cooldown \<le> now \<or> (\<exists>t'. se_last_trigger (ssdp_cleanup now e) ip = Some t' \<and> s \<le> t' \<and> t' \<le> now)"
    if "(s, ip) \<in> set asked" for s ip
  proof -
    from assms(1) that consider "s + ssdp_trigger_cooldown \<le> t" | t' where "se_last_trigger e ip = Some t'" "s \<le> t'" "t' \<le> t"
      by (fastforce simp: log_fit_def)
    then show ?thesis
    proof cases
      case 2
      then show ?thesis using quiet_since(2) [of now t'] assms(2) by (fastforce simp: ssdp_cleanup_def)
    qed (use assms(2) in simp)
  qed
  with assms(1) show ?thesis by (auto simp: log_fit_def)
qed

lemma ssdp_run_fit: "ssdp_run pu now e asked \<Longrightarrow> table_fit pu now e \<and> log_fit now e asked"
proof (induction rule: ssdp_run.induct)
  case (ssdp_begin now)
  show ?case by (simp add: table_fit_def log_fit_def new_ssdp_enricher_def)
next
  case (ssdp_datagram t e asked now data source)
  then show ?case using datagram_fit [of pu now e data source] table_fit_later log_fit_later by blast
next
  case (ssdp_quiet t e asked now c e')
  then show ?case using notice_fit(1,2) [of pu now e c None e'] table_fit_later log_fit_later by blast
next
  case (ssdp_trigger t e asked now c p e' ip q)
  then have "table_fit pu now e" using table_fit_later by blast
  from notice_fit(1,3) [OF this ssdp_trigger(3)] ssdp_trigger log_fit_asked show ?case by blast
next
  case (ssdp_tick t e asked now)
  then have "table_fit pu now (evict_expired now e)" using evict_fit table_fit_later by blast
  then have "table_fit pu now (ssdp_cleanup now e)" by (simp add: ssdp_cleanup_def table_fit_def)
  with ssdp_tick log_fit_cleanup show ?case by blast
qed

text \<open>C39: Whatever datagrams arrive, the table of advertisements stays within 2048 entries and the queue within 64; every entry
  is of a host of the LAN, with a location at that host, and expires within a day; and no address is asked for twice within
  five minutes.\<close>

theorem ssdp_stays_bounded:
  assumes "ssdp_run pu now e asked"
  shows "length (se_records e) \<le> 2048 \<and> length (se_queue e) \<le> 64
    \<and> (\<forall>(usn, r) \<in> set (se_records e). sr_expires_at r \<le> now + 86400 * second \<and> (\<exists>source. sr_source_ip r = ip_string source
        \<and> is_lan_address (Some source) \<and> validate_descriptor_url pu (sr_location r) (Some source) \<noteq> None))
    \<and> sorted_wrt (\<lambda>(t, ip) (t', ip'). ip = ip' \<longrightarrow> t + 5 * minute \<le> t') asked"
  using ssdp_run_fit [OF assms]
  by (simp add: table_fit_def log_fit_def record_fit_def max_ssdp_records_def ssdp_trigger_cooldown_def)

definition advert :: string where
  "advert = ''NOTIFY * HTTP/1.1'' @ crlf @ ''USN: uuid:1'' @ crlf @ ''NTS: ssdp:alive'' @ crlf
     @ ''LOCATION: http://192.168.1.9/d.xml'' @ crlf @ ''Cache-Control: max-age=60'' @ crlf @ crlf"

definition tv_url :: url_parser where
  "tv_url s = (if s = ''http://192.168.1.9/d.xml'' then
     Some \<lparr>u_scheme = ''http'', u_user = False, u_hostname = ''192.168.1.9'', u_port = [], u_fragment = []\<rparr> else None)"

abbreviation tv_ip :: ip_addr where "tv_ip \<equiv> v4_prefix @ [192, 168, 1, 9]"

lemma advert_parsed:
  "map_option (\<lambda>m. (sm_start m, map (header m) [''usn'', ''nts'', ''location'', ''cache-control''])) (parse_ssdp_message advert)
   = Some (''NOTIFY * HTTP/1.1'', [''uuid:1'', ''ssdp:alive'', ''http://192.168.1.9/d.xml'', ''max-age=60''])"
  by code_simp

lemma tv_located: "validate_descriptor_url tv_url ''http://192.168.1.9/d.xml'' (Some tv_ip) \<noteq> None" 
  by code_simp

lemma tv_lan: "is_lan_address (Some tv_ip)" "ip_string tv_ip = ''192.168.1.9''" "parse_ip ''192.168.1.9'' = Some tv_ip"
  by code_simp+

lemma advert_ttl: "parse_ssdp_cache_ttl ''max-age=60'' = 60 * second"
proof -
  have "split_char (CHR '','') ''max-age=60'' = [''max-age=60'']" "cut_char (CHR ''='') (trim_space ''max-age=60'') = Some (''max-age'', ''60'')"
    "equal_fold (trim_space ''max-age'') ''max-age''" "trim_by (\<lambda>c. c = CHR 0x22) (trim_space ''60'') = ''60''" by code_simp+
  moreover have "parse_int ''60'' = (60, True)"
    by (simp add: parse_int_def has_prefix_def parse_unsigned_def is_digit_def byte_def max_uint64_def int64_max_def)
  ultimately show ?thesis by (simp add: parse_ssdp_cache_ttl_def)
qed

lemma advert_received:
  "receive_datagram tv_url 0 advert tv_ip new_ssdp_enricher = \<lparr>se_records = [(''uuid:1'',
     \<lparr>sr_location = ''http://192.168.1.9/d.xml'', sr_source_ip = ''192.168.1.9'', sr_expires_at = 60 * second\<rparr>)],
     se_queue = [''192.168.1.9''], se_last_trigger = Map.empty\<rparr>"
proof -
  from advert_parsed obtain m where m: "parse_ssdp_message advert = Some m" "sm_start m = ''NOTIFY * HTTP/1.1''"
    "header m ''usn'' = ''uuid:1''" "header m ''nts'' = ''ssdp:alive''" "header m ''location'' = ''http://192.168.1.9/d.xml''"
    "header m ''cache-control'' = ''max-age=60''" by auto
  have "to_lower ''ssdp:alive'' = ''ssdp:alive''" "trim_space ''uuid:1'' = ''uuid:1''" "length advert = 114" by code_simp+
  then show ?thesis using tv_located tv_lan(1,2) m less_imp_neq [OF second_pos]
    by (auto simp: receive_datagram_def handle_notify_def Let_def advert_ttl new_ssdp_enricher_def max_ssdp_records_def max_ssdp_datagram_def)
qed

theorem ssdp_stays_bounded_witness:
  "\<exists>e. ssdp_run tv_url 0 e [] \<and> se_queue e = [''192.168.1.9''] \<and> length (se_records e) \<le> 2048"
proof -
  let ?e = "receive_datagram tv_url 0 advert tv_ip new_ssdp_enricher"
  have "ssdp_run tv_url 0 ?e []" by (rule ssdp_datagram [OF ssdp_begin order_refl])
  with ssdp_stays_bounded [OF this] show ?thesis by (intro exI [of _ ?e]) (simp add: advert_received)
qed

definition search_reply :: string where
  "search_reply = ''HTTP/1.1 200 OK'' @ crlf @ ''LOCATION: http://192.168.1.9/d.xml'' @ crlf @ crlf"

theorem descriptor_stays_on_advertiser_witness:
  "\<exists>r. fst (ssdp_enrich tv_url (\<lambda>_. None) (\<lambda>_. [(search_reply, tv_ip)]) (\<lambda>_. None) (empty_device\<lparr>current_ip := ''192.168.1.9''\<rparr>)) = [r]
     \<and> dr_address r = ''192.168.1.9''"
proof -
  let ?d = "empty_device\<lparr>current_ip := ''192.168.1.9''\<rparr>" and ?r = "descriptor_request_of (the (tv_url ''http://192.168.1.9/d.xml'')) tv_ip"
  have "map_option (\<lambda>m. (sm_start m, header m ''location'')) (parse_ssdp_message search_reply)
      = Some (''HTTP/1.1 200 OK'', ''http://192.168.1.9/d.xml'')" by code_simp
  then obtain m where m: "parse_ssdp_message search_reply = Some m" "sm_start m = ''HTTP/1.1 200 OK''" "header m ''location'' = ''http://192.168.1.9/d.xml''"
    by auto
  have x: "trim_space ''192.168.1.9'' = ''192.168.1.9''" "length search_reply = 55" "ip_equal tv_ip tv_ip"
    "validate_descriptor_url tv_url ''http://192.168.1.9/d.xml'' (Some tv_ip) = Some (the (tv_url ''http://192.168.1.9/d.xml''))"
    by code_simp+
  then have e: "ssdp_enrich tv_url (\<lambda>_. None) (\<lambda>_. [(search_reply, tv_ip)]) (\<lambda>_. None) ?d = ([?r], None)"
    using m tv_lan(1,3) by (simp add: ssdp_enrich_def fetch_descriptor_def max_ssdp_datagram_def)
  from descriptor_stays_on_advertiser [OF this, of ?r] have "dr_address ?r = ip_string tv_ip" using x(1) tv_lan(3) by auto
  with e tv_lan(2) show ?thesis by simp
qed

text \<open>A full table keeps out the renewal of an entry it has, so the entry runs out although its host is alive.\<close>

lemma full_table_refuses_renewal:
  assumes "max_ssdp_records \<le> length (se_records e)" "\<forall>(usn, r) \<in> set (se_records e). now < sr_expires_at r"
    and "to_lower (header msg ''nts'') = ''ssdp:alive''"
  shows "handle_notify pu now msg source e = e"
proof -
  have "evict_expired now e = e" using assms(2) by (simp add: evict_expired_def case_prod_beta filter_id_conv)
  with assms(1,3) show ?thesis by (simp add: handle_notify_def Let_def)
qed

end
