(* ===== verification/Dis_Nmap_Props.thy ===== *)
theory Dis_Nmap_Props
  imports Dis_Nmap Dis_Ssdp_Props
begin

text \<open>
  The nmap enricher: what it scans and how hard is limited whatever the configuration says, and a report is read in full or
  not at all.
\<close>

subsection \<open>The output buffer\<close>

lemma lb_write_stop:
  "lb_write p w = ((n, True), w') \<Longrightarrow> lb_exceeded w'"
  "lb_write p w = ((n, False), w') \<Longrightarrow> lb_buf w' = lb_buf w @ p \<and> lb_exceeded w' = lb_exceeded w \<and> lb_limit w' = lb_limit w
     \<and> int (length (lb_buf w')) \<le> lb_limit w"
  by (auto simp: lb_write_def Let_def split: if_splits)

lemma lb_write_bound: "int (length (lb_buf w)) \<le> lb_limit w \<Longrightarrow> int (length (lb_buf (snd (lb_write p w)))) \<le> lb_limit w"
  by (auto simp: lb_write_def Let_def)

lemma lb_copy_whole: "\<not> lb_exceeded (lb_copy ps w) \<Longrightarrow> lb_buf (lb_copy ps w) = lb_buf w @ concat ps"
proof (induction ps arbitrary: w)
  case (Cons p ps)
  obtain n stop w' where s: "lb_write p w = ((n, stop), w')" by (metis surj_pair)
  then show ?case using Cons lb_write_stop by (cases stop) fastforce+
qed simp

lemma lb_copy_bound: "int (length (lb_buf w)) \<le> lb_limit w \<Longrightarrow> int (length (lb_buf (lb_copy ps w))) \<le> lb_limit w"
proof (induction ps arbitrary: w)
  case (Cons p ps)
  obtain n stop w' where s: "lb_write p w = ((n, stop), w')" by (metis surj_pair)
  then show ?case using Cons.IH [of w'] lb_write_bound [OF Cons.prems, of p] lb_write_stop(2) [of p w n w'] by (cases stop) auto
qed simp

subsection \<open>What is scanned\<close>

lemma options_limits:
  "1 \<le> no_max_rate (new_nmap_options o1)" "no_max_rate (new_nmap_options o1) \<le> 1000"
  "0 < no_max_output (new_nmap_options o1)" "no_max_output (new_nmap_options o1) \<le> 16777216"
  by (auto simp: new_nmap_options_def Let_def)

text \<open>Whatever the configuration says, a scan is aimed at the device's own address, which is a private or link-local one,
  as the last word of a command that sends between one and a thousand packets a second and gives a host at least a second; at
  most 16 MiB of its output are kept; and a result rests on the whole output of the command, never on a part of it.\<close>

theorem nmap_scan_limited:
  assumes "nmap_enrich xml prog started (new_nmap_options o1) d = (res, Some args)"
  shows "(\<exists>ip pre post rate k. parse_ip (trim_space (current_ip d)) = Some ip \<and> (is_private_ip ip \<or> is_link_local_ip ip) \<and> \<not> is_loopback_ip ip
      \<and> args = pre @ [''--host-timeout'', decimal_int k @ ''s'', ''--max-rate'', decimal_int rate] @ post @ [ip_string ip]
      \<and> 1 \<le> k \<and> 1 \<le> rate \<and> rate \<le> 1000)
    \<and> int (length (lb_buf (lb_copy (fst (prog args)) \<lparr>lb_buf = [], lb_limit = no_max_output (new_nmap_options o1), lb_exceeded = False\<rparr>))) \<le> 16777216
    \<and> (\<forall>r. res = Inr r \<longrightarrow> snd (prog args) \<and> parse_nmap_xml xml (concat (fst (prog args))) = Some r)"
proof -
  let ?os = "new_nmap_options o1" and ?w = "\<lparr>lb_buf = [], lb_limit = no_max_output (new_nmap_options o1), lb_exceeded = False\<rparr>"
  from assms obtain ip where ip: "parse_ip (trim_space (current_ip d)) = Some ip" "is_lan_address (Some ip)" and
    args: "args = nmap_args ?os (ip_string ip)"
    by (auto simp: nmap_enrich_def run_nmap_def Let_def split: if_splits option.splits prod.splits sum.splits)
  define k where "k = (let s = round_second (no_host_timeout ?os) div second in if s < 1 then 1 else s)"
  have k: "nmap_duration (no_host_timeout ?os) = decimal_int k @ ''s''" "1 \<le> k" by (simp_all add: nmap_duration_def k_def Let_def)
  have shape: "args = [''-Pn'', ''-n'', ''-sT'', ''-sV'', ''--version-light'', ''--max-retries'', ''1'']
     @ [''--host-timeout'', decimal_int k @ ''s'', ''--max-rate'', decimal_int (no_max_rate ?os)]
     @ ([''-F'', ''-oX'', ''-''] @ (if no_os_detection ?os then [''-O'', ''--osscan-limit''] else [])) @ [ip_string ip]"
    by (simp add: args nmap_args_def k(1))
  have lan: "is_private_ip ip \<or> is_link_local_ip ip" "\<not> is_loopback_ip ip" using ip(2) by (simp_all add: is_lan_address_def)
  have "int (length (lb_buf (lb_copy (fst (prog args)) ?w))) \<le> no_max_output ?os"
    using lb_copy_bound [of ?w "fst (prog args)"] options_limits(3) [of o1] by simp
  moreover have "snd (prog args) \<and> parse_nmap_xml xml (concat (fst (prog args))) = Some r" if "res = Inr r" for r
  proof -
    have "\<not> lb_exceeded (lb_copy (fst (prog args)) ?w)" "snd (prog args)" "parse_nmap_xml xml (lb_buf (lb_copy (fst (prog args)) ?w)) = Some r"
      using assms that ip args
      by (auto simp: nmap_enrich_def run_nmap_def Let_def case_prod_beta split: if_splits option.splits sum.splits)
    with lb_copy_whole [OF this(1)] show ?thesis by simp
  qed
  moreover have "\<exists>ip pre post rate k. parse_ip (trim_space (current_ip d)) = Some ip \<and> (is_private_ip ip \<or> is_link_local_ip ip) \<and> \<not> is_loopback_ip ip
      \<and> args = pre @ [''--host-timeout'', decimal_int k @ ''s'', ''--max-rate'', decimal_int rate] @ post @ [ip_string ip]
      \<and> 1 \<le> k \<and> 1 \<le> rate \<and> rate \<le> 1000"
    using ip(1) lan shape k(2) options_limits(1,2) [of o1] by blast
  ultimately show ?thesis using options_limits(4) [of o1] order_trans by blast
qed

lemma nmap_enrich_args:
  "current_ip d \<noteq> [] \<Longrightarrow> parse_ip (trim_space (current_ip d)) = Some ip \<Longrightarrow> is_lan_address (Some ip)
   \<Longrightarrow> snd (nmap_enrich xml prog True os d) = Some (nmap_args os (ip_string ip))"
  by (auto simp: nmap_enrich_def run_nmap_def Let_def split: prod.split sum.split option.split)

definition lax_options :: nmap_options where
  "lax_options = \<lparr>no_host_timeout = 0, no_process_timeout = 0, no_max_rate = 5000, no_max_output = 0, no_os_detection = False\<rparr>"

theorem nmap_scan_limited_witness:
  "\<exists>args. snd (nmap_enrich (\<lambda>_. None) (\<lambda>_. ([''<nmaprun/>''], True)) True (new_nmap_options lax_options) (empty_device\<lparr>current_ip := ''192.168.1.9''\<rparr>)) = Some args
     \<and> (\<exists>pre post rate. args = pre @ [''--max-rate'', decimal_int rate] @ post @ [''192.168.1.9''] \<and> rate \<le> 1000)"
proof -
  let ?r = "nmap_enrich (\<lambda>_. None) (\<lambda>_. ([''<nmaprun/>''], True)) True (new_nmap_options lax_options) (empty_device\<lparr>current_ip := ''192.168.1.9''\<rparr>)"
  have t: "trim_space ''192.168.1.9'' = ''192.168.1.9''" by code_simp
  then obtain args where "snd ?r = Some args"
    using nmap_enrich_args [of "empty_device\<lparr>current_ip := ''192.168.1.9''\<rparr>" tv_ip] tv_lan(1,3) by (auto simp: empty_device_def)
  then have r: "?r = (fst ?r, Some args)" by (metis prod.collapse)
  obtain pre post rate k where "args = pre @ [''--host-timeout'', decimal_int k @ ''s'', ''--max-rate'', decimal_int rate] @ post @ [''192.168.1.9'']" "rate \<le> 1000"
    using nmap_scan_limited [OF r] t tv_lan(2,3) by auto
  then have "args = (pre @ [''--host-timeout'', decimal_int k @ ''s'']) @ [''--max-rate'', decimal_int rate] @ post @ [''192.168.1.9''] \<and> rate \<le> 1000"
    by simp
  with \<open>snd ?r = Some args\<close> show ?thesis by blast
qed

text \<open>The system of a Cisco router, IOS, is taken for a phone's before its maker is looked at.\<close>

lemma cisco_is_a_phone: "classify_device ''Cisco IOS 15.2'' [] [] = ''phone''"
  by code_simp

text \<open>A report of more than one mebibyte is dropped although the configuration may allow sixteen.\<close>

lemma large_report_dropped: "1048576 < length data \<Longrightarrow> parse_nmap_xml xml data = None"
  by (simp add: parse_nmap_xml_def)

end
