(* ===== verification/Dis_Mdns_Props.thy ===== *)
theory Dis_Mdns_Props
  imports Dis_Mdns Dis_Nmap_Props
begin

text \<open>
  The Avahi enricher: its table says of every service what the daemon said last, and stays bounded.
\<close>

lemma map_of_oldest: "oldest_entry es best = Some (k, x) \<Longrightarrow> k \<in> fst ` set es \<or> (\<exists>y. best = Some (k, y))"
  by (induction es best rule: oldest_entry.induct) (auto split: option.splits if_splits)

lemma oldest_found: "es \<noteq> [] \<or> best \<noteq> None \<Longrightarrow> oldest_entry es best \<noteq> None"
  by (induction es best rule: oldest_entry.induct) (auto split: option.splits if_splits)

lemma length_updated: "length (AList.update k v al) = (if map_of al k = None then Suc (length al) else length al)"
  by (induction al) auto

lemma length_delete_found: "k \<in> fst ` set al \<Longrightarrow> length (AList.delete k al) < length al"
proof -
  assume "k \<in> fst ` set al"
  then obtain x where "x \<in> set al" "fst x = k" by auto
  then show ?thesis unfolding AList.delete_eq by (intro length_filter_less [of x]) auto
qed

text \<open>The table is a list of distinct keys, never longer than its limit.\<close>

definition avahi_ok :: "avahi_table \<Rightarrow> bool" where
  "avahi_ok t \<longleftrightarrow> distinct (map fst t) \<and> length t \<le> max_avahi_records"

lemma apply_avahi_ok:
  assumes "avahi_ok t" "\<And>t. set (ord t) = set t"
  shows "avahi_ok (apply_avahi ord ev t)"
proof -
  have del: "avahi_ok (AList.delete k t)" for k
    using assms(1) length_delete_le [of k t] by (auto simp: avahi_ok_def distinct_delete)
  have "avahi_ok (upsert_record ord key r t)" for key r
  proof (cases "map_of t key = None \<and> max_avahi_records \<le> length t")
    case True
    then have "t \<noteq> []" by (auto simp: max_avahi_records_def)
    then have "ord t \<noteq> []" using assms(2) [of t] by auto
    then obtain k x where k: "oldest_entry (ord t) None = Some (k, x)" using oldest_found [of "ord t" None] by auto
    then have "length (AList.delete k t) < length t" using map_of_oldest [OF k] assms(2) [of t] by (simp add: length_delete_found)
    with True del [of k] assms(1) length_updated [of key r "AList.delete k t"] show ?thesis
      by (auto simp: upsert_record_def k avahi_ok_def distinct_update split: if_splits)
  next
    case False
      with assms(1) length_updated [of key r t] show ?thesis
      by (auto simp: upsert_record_def avahi_ok_def distinct_update split: if_splits)
  qed
  with del show ?thesis by (auto simp: apply_avahi_def split: prod.split option.split)
qed

abbreviation avahi_events :: "(string \<times> time) list \<Rightarrow> (string \<times> avahi_record option) list" where
  "avahi_events ls \<equiv> List.map_filter (\<lambda>(raw, now). parse_avahi_line (drop_cr raw) now) ls"

lemma avahi_lines_ok:
  "avahi_ok t \<Longrightarrow> (\<And>t. set (ord t) = set t) \<Longrightarrow> avahi_ok (avahi_lines ord ls t)"
  by (induction ord ls t rule: avahi_lines.induct) (auto simp: apply_avahi_ok split: option.split)

lemma apply_avahi_lookup:
  assumes "avahi_ok t" "fst ` set t \<subseteq> K" "fst ev \<in> K" "finite K" "card K \<le> max_avahi_records"
  shows "map_of (apply_avahi ord ev t) = (map_of t)(fst ev := snd ev)" "fst ` set (apply_avahi ord ev t) \<subseteq> K"
proof -
  obtain key v where ev: "ev = (key, v)" by (cases ev)
  have fits: "\<not> (map_of t key = None \<and> max_avahi_records \<le> length t)"
  proof
    assume full: "map_of t key = None \<and> max_avahi_records \<le> length t"
    have "length t = card (fst ` set t)" using assms(1) by (metis avahi_ok_def distinct_card length_map set_map)
    moreover have "card (insert key (fst ` set t)) \<le> card K" using assms(2-4) ev by (intro card_mono) auto
    moreover have "key \<notin> fst ` set t" using full by (simp add: map_of_eq_None_iff)
    ultimately show False using full assms(5) by simp
  qed
  show "map_of (apply_avahi ord ev t) = (map_of t)(fst ev := snd ev)"
    using fits by (cases v) (auto simp: ev apply_avahi_def upsert_record_def update_conv' delete_conv')
  have upd: "fst ` set (AList.update key r t) \<subseteq> K" for r using assms(2,3) ev by (simp add: dom_update)
  have del: "fst ` set (AList.delete key t) \<subseteq> K" using assms(2) by (auto simp: AList.delete_eq)
  from upd del show "fst ` set (apply_avahi ord ev t) \<subseteq> K"
    by (cases v) (simp_all add: ev apply_avahi_def upsert_record_def if_not_P [OF fits])
qed

lemma avahi_lines_lookup:
  assumes "avahi_ok t" "\<And>t. set (ord t) = set t" "fst ` set t \<union> fst ` set (avahi_events ls) \<subseteq> K" "finite K" "card K \<le> max_avahi_records"
    and "\<forall>(raw, now) \<in> set ls. length raw < 262144"
  shows "map_of (avahi_lines ord ls t) k = (case map_of (rev (avahi_events ls)) k of None \<Rightarrow> map_of t k | Some v \<Rightarrow> v)"
  using assms
proof (induction ord ls t rule: avahi_lines.induct)
  case (2 ord raw now ls t)
  show ?case
  proof (cases "parse_avahi_line (drop_cr raw) now")
    case None
    with 2 show ?thesis by (simp add: List.map_filter_simps)
  next
    case (Some ev)
    then have e: "avahi_events ((raw, now) # ls) = ev # avahi_events ls" by (simp add: List.map_filter_simps)
    have a: "map_of (apply_avahi ord ev t) = (map_of t)(fst ev := snd ev)" "fst ` set (apply_avahi ord ev t) \<subseteq> K"
      using apply_avahi_lookup [of t K ev ord] 2(3,5-7) e by auto
    have "map_of (avahi_lines ord ls (apply_avahi ord ev t)) k
        = (case map_of (rev (avahi_events ls)) k of None \<Rightarrow> map_of (apply_avahi ord ev t) k | Some v \<Rightarrow> v)"
      using 2(2) [of ev] Some 2(3-8) apply_avahi_ok [of t ord ev] a(2) e by auto
    moreover have "map_of (rev (avahi_events ((raw, now) # ls))) k
        = (case map_of (rev (avahi_events ls)) k of None \<Rightarrow> if k = fst ev then Some (snd ev) else None | Some u \<Rightarrow> Some u)"
      unfolding e by (cases ev) (auto simp: map_add_def split: option.split)
    ultimately show ?thesis using Some 2(8) a(1) by (auto split: option.splits)
  qed
qed simp



end
