(* ===== verification/Spec2Isabelle.thy ===== *)
theory Spec2Isabelle
  imports Nft_Builder Tag_Manager Migration_Props Browser_Session Dis_Inventory Dis_Debounce
    Dis_Run_Props Lias_Users Lias_Access Dis_Api_Props Dis_Netbios_Props Dis_Source_Props Dis_Mdns_Props
begin

text \<open>
  A verification development for the LIAS/DIS parental-control system. The discovery service (DIS,
  \<open>apps/discovery-service\<close>) watches a home network and identifies its devices; the scheduler (LIAS,
  \<open>apps/lias\<close>) keeps tags, schedules and policies for them and installs the resulting verdicts as
  nftables rules. The development models the discovery service from the observations of its providers to
  its inventory, events and HTTP interface, the scheduler's client that mirrors the inventory, and the
  scheduler from its HTTP requests and its stored configuration to the packet filter.

  \<^bold>\<open>How the parts interact.\<close> The providers of DIS (\<open>internal/discovery\<close>) queue observations; the engine
  (\<open>internal/correlation\<close>) turns them into devices, candidates and events, and the enrichers fill in
  what a device is. The client of LIAS (\<open>internal/sync/dis_client.go\<close>) polls the inventory and follows the
  event stream; the cache (\<open>internal/sync/cache.go\<close>) holds the devices with their local tags. The
  handlers (\<open>internal/api\<close>) change schedules, policies, tags and users in memory and in the store. The schedule engine (\<open>internal/schedule\<close>) merges the schedules a policy names,
  refusing contradictory bundles (\<open>internal/scheduleconflict\<close>), and evaluates the result at an
  instant. The policy engine (\<open>internal/policy\<close>) picks the policy that decides for a device and asks
  the schedule engine when it is a scheduled one. The builder (\<open>internal/nftables/builder.go\<close>) turns the
  verdicts of all devices into address sets, and the controller (\<open>controller.go\<close>) installs table, sets
  and rules in the kernel. The storage (\<open>internal/storage\<close>) keeps the configuration over restarts, and
  when DIS finds that two identities are one device, the coordinator (\<open>internal/identitymigration\<close>)
  moves everything from the obsolete identity to the surviving one.

  \<^bold>\<open>The theories.\<close>
  \<^item> \<open>Lias_Prelude\<close>: Go maps and \<open>range\<close> loops, the fact collections, list lemmas. \<open>Go_Strings\<close>, \<open>Go_Time\<close>,
    \<open>Go_Net\<close>: what the program uses of Go's packages \<open>strings\<close>, \<open>time\<close> and \<open>net\<close>: byte strings, instants in
    nanoseconds with time zones as tables of offsets, MAC and IP addresses.
  \<^item> \<open>Shared_Models\<close>: the records of \<open>shared/models\<close> (\<open>Policy\<close>, \<open>Schedule\<close>, \<open>Device\<close>, \<open>Event\<close>) and their methods.
  \<^item> \<open>Schedule_Conflict\<close>: \<open>ProjectSchedule\<close> to minutes of the week and \<open>MergeSchedules\<close>. Shown: a merge
    succeeds exactly for consistent bundles, and a reported conflict is a real contradiction.
  \<^item> \<open>Schedule_Eval\<close>: \<open>Evaluate\<close> and \<open>NextStateChange\<close>. Shown: the shortest window decides, an accepted
    bundle never ties, and the verdict is constant until the announced change.
  \<^item> \<open>Lias_Cache\<close>: the device cache with its remembered tags, names and users. Shown: an invariant over
    every operation, tags follow the hardware address, and a replayed migration changes nothing.
  \<^item> \<open>Schedule_Engine\<close>: the schedule store with its cache of merged bundles and the announcement pass.
    Shown: cached verdicts equal fresh ones, invalid bundles block, the timer is the earliest change.
  \<^item> \<open>Policy_Engine\<close>: the policy store, \<open>EvaluateAction\<close>, \<open>GetEffectivePolicy\<close>, \<open>SweepExpired\<close>. Shown: the
    precedence as a relation (\<open>decides\<close>), independence of map order, the kill switch.
  \<^item> \<open>Tag_Manager\<close>: tag groups; built-in tags survive every operation.
  \<^item> \<open>Nft_Controller\<close>, \<open>Nft_Builder\<close>: rules as data with an interpreter of the chain, address sets and their
    differences. Shown: the chain implements the decision table, a pass leaves exactly the verdicts of
    the policy engine in the kernel, and a blocked device's packets are dropped.
  \<^item> \<open>Lias_Storage\<close>: the SQLite tables as rows, statements, transactions with roll-back, hydration at a
    restart, over \<open>Sql_Monad\<close>, the statements and transactions both services run on SQLite.
    \<open>Identity_Migration\<close>: the migration transaction and the coordinator. \<open>Migration_Props\<close>: nothing
    names the obsolete identity any more, no policy is lost to a weaker one, replays change nothing,
    memory agrees with the database, and the table invariant over every operation and driver failure.
  \<^item> \<open>Browser_Session\<close>: \<open>api/session.go\<close> and the authentication middleware. Shown: every request let through
    without the bearer token goes back to an unexpired login that knew the token, and a login is usable.
  \<^item> \<open>Go_Strconv\<close>, \<open>Sse_Broker\<close>: \<open>ParseInt\<close>; the event brokers of both services with ring, replay, frames and
    \<open>Last-Event-ID\<close>. Shown: the ring is the last hundred events and a reconnect loses none of them.
  \<^item> \<open>Dis_Names\<close>, \<open>Dis_Inventory\<close>: canonical host names, hardware addresses and identities; the device store of
    DIS over a heap of shared device objects. Shown: a local domain or another spelling of an address
    does not change an identity, lookups only find live devices, who may take a host name, what a purge does.
  \<^item> \<open>Dis_Debounce\<close>: pending changes, their table and the flush. Shown: what is announced, when and how well
    confirmed, that a quick revert is not announced, and what survives a restart.
  \<^item> \<open>Dis_Identity\<close>: observations, alias hashes, signals and the passive score. Shown: passive evidence never
    merges devices, and what the candidate threshold means in exact arithmetic.
  \<^item> \<open>Dis_Store\<close>, \<open>Dis_Identity_Store\<close>, \<open>Dis_Store_Props\<close>: the tables of the discovery service with the
    constraints of the schema; devices, aliases, evidence, candidates, redirects, merge and split. Shown:
    every operation keeps the constraints under any failure, what a merge leaves behind, that a confirmed
    link is final, that redirects are followed to their end, and that the review pages are complete.

  \<^item> \<open>Dis_Engine\<close>, \<open>Dis_Engine_Props\<close>, \<open>Dis_Review\<close>: \<open>correlation/engine.go\<close> and the identity review: an observation
    as one step over inventory, debouncer, store and events; the flushes, the staleness sweep, the start, merge and
    split. \<open>Dis_Enrich\<close>: the orchestrator of the enrichers. \<open>Dis_Runs\<close>, \<open>Dis_Run_Props\<close>: every run of the service
    as a relation. Shown: no change of a device is lost to the store, a restart restores what was saved, passive
    evidence never merges devices, and a confirmation happens in full or not at all.
  \<^item> \<open>Go_Text\<close>, \<open>Dis_Dhcp\<close>, \<open>Dis_Dhcp_Props\<close>: lines, words, comma separated values; the lease provider. Shown: the last
    row Kea wrote for an address decides, leases are reported when they change, the remote command reads back as meant,
    and the sections of the router's answer are told apart. \<open>Dis_Sources\<close>, \<open>Dis_Source_Props\<close>: the Pi-hole, the kernel's
    neighbour table and the vendor table. Shown: of all providers only a link-layer sighting takes a device online.
  \<^item> \<open>Dis_Netbios\<close>, \<open>Dis_Netbios_Props\<close>: the NetBIOS enricher, packets as bytes. Shown: no packet makes the parser
    panic, what it accepts is bounded, and an answer built as the standard says is read as its names.
  \<^item> \<open>Dis_Ssdp\<close>, \<open>Dis_Nmap\<close>, \<open>Dis_Mdns\<close> and their \<open>_Props\<close>: the enrichers over SSDP, nmap, Avahi and TLS. Shown: only the
    advertising host is asked for a descriptor, advertisements and requests stay bounded, a scan is limited whatever is
    configured, the table of services follows the Avahi daemon.
  \<^item> \<open>Dis_Api\<close>, \<open>Dis_Api_Props\<close>: routes, token check and handlers of DIS. Shown: the token guards every route, requests
    are steps of the service, a refused review changes nothing, the gateway's requests reach the intended handler.
  \<^item> \<open>Dis_Client\<close>, \<open>Dis_Client_Props\<close>: the client of LIAS: poll, event stream, gateway. Shown: streamed events arrive as
    sent, a poll leaves the inventory in the mirror, the client's steps are steps of the service's cache.
  \<^item> \<open>Lias_Handlers\<close>, \<open>Lias_Rest\<close>, \<open>Lias_Rest_Props\<close>: the handlers of LIAS. \<open>Lias_Service\<close>: its start and its runs.
    \<open>Lias_Access\<close>, \<open>Lias_Users\<close>: pausing blocks for an hour, an extension opens and ends, the status shown is the one
    enforced, refused requests change nothing, users in memory and store stay together, schedules stay well formed.

  \<^bold>\<open>Interfaces.\<close> The contracts between components are locales, interpreted on the model's own functions:
  \<open>schedule_evaluator\<close> (what the policy engine needs of the schedule engine), \<open>effective_policy_provider\<close>
  (what the announcement pass needs of the policy engine), \<open>policy_evaluator\<close> (what the builder needs of
  both).

  \<^bold>\<open>Conventions.\<close> A method under a mutex is one step, a function from the state to the state. Clock readings
  are arguments. The order of a loop over a Go map is an argument, a list of keys, and the theorems
  quantify over every order. Errors are values (\<open>error + result\<close>). The kernel's commit of a batch and the
  time-zone database are arguments. Database driver failures are an argument, the set of statements
  that fail. What a network peer or an external command answers is an argument, as a status with a text or a
  decoded body. No function uses fuel of the model's own: every loop is bounded by a list it scans, and the two
  counters there are (128 steps in a DNS name, the hops of a redirect) are the code's.

  \<^bold>\<open>Not modelled.\<close> Goroutines that only wait for a timer (schedule ticker, nftables sync loop, retention) and the
  interleaving inside a critical section; opening files, sockets and the database; building addresses with
  \<open>net/url\<close>; the netlink subscription; the untyped details of an enrichment (text records, certificates), and which
  enricher the orchestrator calls, which is a parameter of its runs; the reports and metrics; the DNS filter's calls; reading the configuration; log output.
\<close>

end
